(* ===== verification/Prelude.thy ===== *)
theory Prelude
  imports Main "HOL-Library.Word" "HOL-Library.State_Monad" "HOL-Library.Monad_Syntax"
begin

section \<open>Prelude: machine integers, error codes, shared lemmas\<close>

text \<open>
  What every component of the driver shares: the machine integers of the C code as words, the
  error numbers its functions return, the collections the component proofs are built on, and the
  lemmas about rounding to page sizes.
\<close>

unbundle bit_operations_syntax

type_synonym u8 = "8 word"
type_synonym u16 = "16 word"
type_synonym u32 = "32 word"
type_synonym u64 = "64 word"

text \<open>The error numbers the driver returns (as \<open>-ENOMEM\<close> and so on).\<close>

datatype errno =
  ENOMEM | EINVAL | ENOSPC | ENOSYS | ENOENT | EBADF | EBUSY | EIO | ENODEV | ERANGE | EEXIST
  | EREMOTEIO | Errno int

text \<open>A C function that returns 0 or a negative error number, with its results in out-parameters.\<close>

type_synonym 'a res = "errno + 'a"

named_theorems inorder_simps \<open>how the tree operations act on the in-order sequence\<close>
named_theorems mm_simps \<open>rewriting of the memory manager's records\<close>

subsection \<open>Words\<close>

lemma unat_u64_less: "unat (x :: u64) < 2 ^ 64"
  using unsigned_less [of x, where 'a = nat] by simp

lemma unat_u32_less: "unat (x :: u32) < 2 ^ 32"
  using unsigned_less [of x, where 'a = nat] by simp

lemma unat_plus_if_no_overflow:
  fixes x y :: "'a::len word"
  assumes "unat x + unat y < 2 ^ LENGTH('a)"
  shows "unat (x + y) = unat x + unat y"
  using assms by (simp add: unat_word_ariths)

lemma unat_minus_le:
  fixes x y :: "'a::len word"
  assumes "y \<le> x"
  shows "unat (x - y) = unat x - unat y"
  using assms by (rule unat_sub)

lemma word_le_iff_unat: "x \<le> y \<longleftrightarrow> unat x \<le> unat (y :: 'a::len word)"
  by (rule word_le_nat_alt)

lemma word_less_iff_unat: "x < y \<longleftrightarrow> unat x < unat (y :: 'a::len word)"
  by (rule word_less_nat_alt)

lemma unat_ucast_up:
  fixes x :: "'a::len word"
  assumes "LENGTH('a) \<le> LENGTH('b::len)"
  shows "unat (ucast x :: 'b word) = unat x"
proof -
  have "unat x < 2 ^ LENGTH('b)"
    using unsigned_less [of x] assms by (meson less_le_trans power_increasing one_le_numeral)
  then show ?thesis by (simp add: unsigned_ucast_eq take_bit_nat_eq_self)
qed

lemma unat_ucast_u32_u64 [simp]: "unat (ucast (x :: u32) :: u64) = unat x"
  by (simp add: unat_ucast_up)

lemma unat_two_power_u32:
  assumes "n < 32"
  shows "unat (2 ^ n :: u32) = 2 ^ n"
proof -
  have "(2 :: nat) ^ n < 2 ^ 32" using assms by (intro power_strict_increasing) simp_all
  then have "unat (of_nat (2 ^ n) :: u32) = 2 ^ n" by (subst unat_of_nat) simp_all
  then show ?thesis by simp
qed

lemma ucast_u64_u32_u64: "unat (x :: u64) < 2 ^ 32 \<Longrightarrow> ucast (ucast x :: u32) = x"
  by (simp add: word_unat_eq_iff unsigned_ucast_eq unsigned_take_bit_eq take_bit_nat_eq_self)

lemma ucast_u32_u64_u32 [simp]: "ucast (ucast (x :: u32) :: u64) = x"
  by (rule bit_word_eqI) (simp add: bit_ucast_iff)

lemmas word_unat_simps = word_le_iff_unat word_less_iff_unat unat_minus_le

subsection \<open>Rounding natural numbers to a multiple\<close>

definition up_to :: "nat \<Rightarrow> nat \<Rightarrow> nat" where
  "up_to x y = (x + y - 1) div y * y"

definition down_to :: "nat \<Rightarrow> nat \<Rightarrow> nat" where
  "down_to x y = x div y * y"

lemma down_to_le [simp]: "down_to x y \<le> x"
  by (simp add: down_to_def)

lemma down_to_dvd [simp]: "y dvd down_to x y"
  by (simp add: down_to_def)

lemma up_to_dvd [simp]: "y dvd up_to x y"
  by (simp add: up_to_def)

lemma up_to_ge [simp]:
  assumes "0 < y"
  shows "x \<le> up_to x y"
proof -
  have "x + y - 1 < (x + y - 1) div y * y + y"
    using assms by (metis add.commute add_less_cancel_left div_mult_mod_eq mod_less_divisor)
  then show ?thesis using assms by (simp add: up_to_def)
qed

lemma up_to_less:
  assumes "0 < y"
  shows "up_to x y < x + y"
proof -
  have "(x + y - 1) div y * y \<le> x + y - 1" by simp
  then show ?thesis using assms unfolding up_to_def by linarith
qed

lemma down_to_greater:
  assumes "0 < y"
  shows "x < down_to x y + y"
  using assms unfolding down_to_def
  by (metis add.commute add_less_cancel_left div_mult_mod_eq mod_less_divisor)

lemma down_to_max:
  assumes "y dvd d" "d \<le> x"
  shows "d \<le> down_to x y"
proof (cases "y = 0")
  case True
  with assms show ?thesis by (simp add: down_to_def)
next
  case False
  from assms(1) obtain k where "d = k * y" by (metis dvd_div_mult_self)
  with assms(2) False have "k \<le> x div y" by (simp add: less_eq_div_iff_mult_less_eq)
  with \<open>d = k * y\<close> show ?thesis by (simp add: down_to_def)
qed

lemma up_to_min:
  assumes "y dvd d" "x \<le> d" "0 < y"
  shows "up_to x y \<le> d"
proof (rule ccontr)
  assume "\<not> up_to x y \<le> d"
  from assms(1) obtain k where k: "d = y * k" by (rule dvdE)
  define q where "q = (x + y - 1) div y"
  from \<open>\<not> up_to x y \<le> d\<close> have "k * y < q * y" by (simp add: up_to_def q_def k mult.commute)
  then have "Suc k \<le> q" using assms(3) by simp
  then have "Suc k * y \<le> q * y" by (rule mult_le_mono1)
  also have "q * y < x + y" using up_to_less [OF assms(3), of x] by (simp add: up_to_def q_def)
  finally show False using assms(2) k by (simp add: mult.commute)
qed

lemma up_to_id [simp]: "0 < y \<Longrightarrow> y dvd x \<Longrightarrow> up_to x y = x"
  by (metis dual_order.eq_iff up_to_ge up_to_min)

lemma down_to_id [simp]: "y dvd x \<Longrightarrow> down_to x y = x"
  by (simp add: down_to_def)

lemma down_to_mono: "x \<le> x' \<Longrightarrow> down_to x y \<le> down_to x' y"
  by (simp add: down_to_def div_le_mono)

lemma up_to_mono: "x \<le> x' \<Longrightarrow> up_to x y \<le> up_to x' y"
  by (simp add: up_to_def div_le_mono)

end
