(* ===== verification/Rbtree.thy ===== *)
theory Rbtree
  imports Prelude
begin

section \<open>The augmented red-black tree of \<open>pscnv/pscnv_tree.h\<close>\<close>

text \<open>
  The macros of \<open>pscnv_tree.h\<close> generate a red-black tree over structs with left, right and parent
  pointers and a hook \<open>PSCNV_RB_AUGMENT\<close> that recomputes a node's summary from its children.
  A subtree is a value of \<open>rbt\<close>: colour, summary, the payload struct, the two children. A pointer
  to a node is the subtree below it with its path, the list of frames from its parent up to
  the root, so that reading the parent pointer is taking the head of the path; a loop that climbs
  the tree is a recursion on the path. The hook is the argument \<open>f\<close> of every operation that
  calls it. Each operation returns the tree at \<open>head->rbh_root\<close>.
\<close>

datatype color = Black | Red

datatype ('n, 'a) rbt =
  Leaf
| Node color 'a "('n, 'a) rbt" 'n "('n, 'a) rbt"

datatype dir = Left | Right

datatype ('n, 'a) frame = Frame dir color 'a 'n "('n, 'a) rbt"

type_synonym ('n, 'a) path = "('n, 'a) frame list"

type_synonym ('n, 'a) augment = "'n \<Rightarrow> 'a option \<Rightarrow> 'a option \<Rightarrow> 'a"

subsection \<open>Pointers, colours, the augmentation hook\<close>

fun color_of :: "('n, 'a) rbt \<Rightarrow> color" where
  "color_of Leaf = Black"
| "color_of (Node c a l n r) = c"

fun paint :: "color \<Rightarrow> ('n, 'a) rbt \<Rightarrow> ('n, 'a) rbt" where
  "paint c Leaf = Leaf"
| "paint c (Node c' a l n r) = Node c a l n r"

fun root_aug :: "('n, 'a) rbt \<Rightarrow> 'a option" where
  "root_aug Leaf = None"
| "root_aug (Node c a l n r) = Some a"

text \<open>\<open>PSCNV_RB_AUGMENT\<close> applied to the node at the root of a subtree.\<close>

fun augment :: "('n, 'a) augment \<Rightarrow> ('n, 'a) rbt \<Rightarrow> ('n, 'a) rbt" where
  "augment f Leaf = Leaf"
| "augment f (Node c a l n r) = Node c (f n (root_aug l) (root_aug r)) l n r"

fun plug1 :: "('n, 'a) frame \<Rightarrow> ('n, 'a) rbt \<Rightarrow> ('n, 'a) rbt" where
  "plug1 (Frame Left c a n s) t = Node c a t n s"
| "plug1 (Frame Right c a n s) t = Node c a s n t"

fun plug :: "('n, 'a) rbt \<Rightarrow> ('n, 'a) path \<Rightarrow> ('n, 'a) rbt" where
  "plug t [] = t"
| "plug t (fr # p) = plug (plug1 fr t) p"

text \<open>\<open>PSCNV_RB_AUGMENT\<close> of the parent of the subtree \<open>t\<close>, and of all its ancestors from the
  bottom up (\<open>do \<dots> while ((left = PSCNV_RB_PARENT(left, field)) != NULL)\<close>).\<close>

fun aug_frame :: "('n, 'a) augment \<Rightarrow> ('n, 'a) rbt \<Rightarrow> ('n, 'a) frame \<Rightarrow> ('n, 'a) frame" where
  "aug_frame f t (Frame Left c a n s) = Frame Left c (f n (root_aug t) (root_aug s)) n s"
| "aug_frame f t (Frame Right c a n s) = Frame Right c (f n (root_aug s) (root_aug t)) n s"

fun aug_parent :: "('n, 'a) augment \<Rightarrow> ('n, 'a) rbt \<Rightarrow> ('n, 'a) path \<Rightarrow> ('n, 'a) path" where
  "aug_parent f t [] = []"
| "aug_parent f t (fr # p) = aug_frame f t fr # p"

fun aug_up :: "('n, 'a) augment \<Rightarrow> ('n, 'a) rbt \<Rightarrow> ('n, 'a) path \<Rightarrow> ('n, 'a) path" where
  "aug_up f t [] = []"
| "aug_up f t (fr # p) =
     (let fr' = aug_frame f t fr in fr' # aug_up f (plug1 fr' t) p)"

subsection \<open>Rotations\<close>

text \<open>
  \<open>PSCNV_RB_ROTATE_LEFT\<close> and \<open>_RIGHT\<close> at the root of a subtree: colours stay with their nodes,
  the node that goes down is augmented before the node that comes up. The macro's last call, the
  augmentation of the parent above, is \<open>aug_parent\<close> on the path at the place of use. A rotation
  without the child that is to come up would dereference NULL; such trees do not occur
  (\<open>rb_wf\<close> below).
\<close>

fun rotate_left :: "('n, 'a) augment \<Rightarrow> ('n, 'a) rbt \<Rightarrow> ('n, 'a) rbt" where
  "rotate_left f (Node c a l x (Node c' a' m y r)) =
     augment f (Node c' a' (augment f (Node c a l x m)) y r)"
| "rotate_left f t = t"

fun rotate_right :: "('n, 'a) augment \<Rightarrow> ('n, 'a) rbt \<Rightarrow> ('n, 'a) rbt" where
  "rotate_right f (Node c a (Node c' a' l x m) y r) =
     augment f (Node c' a' l x (augment f (Node c a m y r)))"
| "rotate_right f t = t"

definition rotate :: "dir \<Rightarrow> ('n, 'a) augment \<Rightarrow> ('n, 'a) rbt \<Rightarrow> ('n, 'a) rbt" where
  "rotate d f t = (case d of Left \<Rightarrow> rotate_left f t | Right \<Rightarrow> rotate_right f t)"

definition opposite :: "dir \<Rightarrow> dir" where
  "opposite d = (case d of Left \<Rightarrow> Right | Right \<Rightarrow> Left)"

subsection \<open>Insertion\<close>

text \<open>
  \<open>_PSCNV_RB_INSERT_COLOR\<close>: while the parent is red, recolour and climb two levels when the
  uncle is red, else rotate once or twice, after which the parent is black and the loop ends.
  At the end the root is painted black.
\<close>

fun insert_color :: "('n, 'a) augment \<Rightarrow> ('n, 'a) rbt \<Rightarrow> ('n, 'a) path \<Rightarrow> ('n, 'a) rbt" where
  "insert_color f elm (Frame d1 Red ap p s # Frame d2 cg ag g uncle # up) =
     (if color_of uncle = Red
      then insert_color f
             (plug1 (Frame d2 Red ag g (paint Black uncle))
               (plug1 (Frame d1 Black ap p s) elm)) up
      else
        let parent = plug1 (Frame d1 Red ap p s) elm;
            parent = (if d1 \<noteq> d2 then rotate d2 f parent else parent);
            gparent = plug1 (Frame d2 Red ag g uncle) (paint Black parent);
            top = rotate (opposite d2) f gparent
        in paint Black (plug top (aug_parent f top up)))"
| "insert_color f elm path = paint Black (plug elm path)"

text \<open>The descent of \<open>_PSCNV_RB_INSERT\<close>: None when an element with an equal key is found.\<close>

fun descend ::
  "('n \<Rightarrow> 'n \<Rightarrow> int) \<Rightarrow> 'n \<Rightarrow> ('n, 'a) rbt \<Rightarrow> ('n, 'a) path \<Rightarrow> ('n, 'a) path option" where
  "descend cmp e Leaf path = Some path"
| "descend cmp e (Node c a l n r) path =
     (let comp = cmp e n in
      if comp < 0 then descend cmp e l (Frame Left c a n r # path)
      else if comp > 0 then descend cmp e r (Frame Right c a n l # path)
      else None)"

text \<open>\<open>PSCNV_RB_SET\<close> makes the new element a red node without children; its summary \<open>a0\<close> is what
  the struct holds.\<close>

definition rb_insert ::
  "('n, 'a) augment \<Rightarrow> ('n \<Rightarrow> 'n \<Rightarrow> int) \<Rightarrow> 'a \<Rightarrow> 'n \<Rightarrow> ('n, 'a) rbt \<Rightarrow> ('n, 'a) rbt" where
  "rb_insert f cmp a0 e t =
     (case descend cmp e t [] of
        None \<Rightarrow> t
      | Some path \<Rightarrow>
          let elm = Node Red a0 Leaf e Leaf
          in insert_color f elm (aug_parent f elm path))"

subsection \<open>Removal\<close>

text \<open>
  One round of \<open>_PSCNV_RB_REMOVE_COLOR\<close> with a black sibling \<open>s\<close> of the doubly black subtree
  \<open>t\<close> on side \<open>d\<close> of the parent \<open>n\<close>: either the deficit moves up to the parent (\<open>Inl\<close>), or the
  rotations settle it (\<open>Inr\<close>).
\<close>

fun child :: "dir \<Rightarrow> ('n, 'a) rbt \<Rightarrow> ('n, 'a) rbt" where
  "child d Leaf = Leaf"
| "child Left (Node c a l n r) = l"
| "child Right (Node c a l n r) = r"

fun paint_child :: "dir \<Rightarrow> color \<Rightarrow> ('n, 'a) rbt \<Rightarrow> ('n, 'a) rbt" where
  "paint_child d c' Leaf = Leaf"
| "paint_child Left c' (Node c a l n r) = Node c a (paint c' l) n r"
| "paint_child Right c' (Node c a l n r) = Node c a l n (paint c' r)"

definition remove_black_sibling ::
  "('n, 'a) augment \<Rightarrow> ('n, 'a) rbt \<Rightarrow> dir \<Rightarrow> color \<Rightarrow> 'a \<Rightarrow> 'n \<Rightarrow> ('n, 'a) rbt
    \<Rightarrow> ('n, 'a) rbt + ('n, 'a) rbt" where
  "remove_black_sibling f t d c a n s =
     (if color_of (child d s) = Black \<and> color_of (child (opposite d) s) = Black
      then Inl (plug1 (Frame d c a n (paint Red s)) t)
      else
        let tmp = (if color_of (child (opposite d) s) = Black
                   then rotate (opposite d) f (paint Red (paint_child d Black s)) else s);
            tmp = paint_child (opposite d) Black (paint c tmp)
        in Inr (rotate d f (plug1 (Frame d Black a n tmp) t)))"

text \<open>
  \<open>_PSCNV_RB_REMOVE_COLOR\<close>. With a red sibling the parent is rotated first: it becomes red, and
  the sibling black, one level up. If then the deficit moves up to it, the loop ends there, since
  it is red. \<open>break\<close> is \<open>Inr\<close>: \<open>elm\<close> is set to the root, which is painted black.
\<close>

fun remove_color :: "('n, 'a) augment \<Rightarrow> ('n, 'a) rbt \<Rightarrow> ('n, 'a) path \<Rightarrow> ('n, 'a) rbt" where
  "remove_color f t [] = paint Black t"
| "remove_color f t (Frame d c a n s # up) =
     (if color_of t = Red then plug (paint Black t) (Frame d c a n s # up)
      else
        (case s of
           Node Red as sl x sr \<Rightarrow>
             (let (inner, outer) = (case d of Left \<Rightarrow> (sl, sr) | Right \<Rightarrow> (sr, sl));
                  low = augment f (plug1 (Frame d Red a n inner) t);
                  top = augment f (plug1 (Frame d Black as x outer) low);
                  up' = aug_parent f top up;
                  a' = the (root_aug low);
                  a'' = the (root_aug top);
                  fr = Frame d Black a'' x outer
              in case remove_black_sibling f t d Red a' n inner of
                   Inl parent \<Rightarrow> plug (paint Black parent) (fr # up')
                 | Inr sub \<Rightarrow> paint Black (plug sub (aug_parent f sub (fr # up'))))
         | _ \<Rightarrow>
             (case remove_black_sibling f t d c a n s of
                Inl parent \<Rightarrow> remove_color f parent up
              | Inr sub \<Rightarrow> paint Black (plug sub (aug_parent f sub up)))))"

text \<open>The leftmost node of a subtree, with the path down to it.\<close>

fun leftmost :: "('n, 'a) rbt \<Rightarrow> ('n, 'a) path \<Rightarrow> ('n, 'a) rbt \<times> ('n, 'a) path" where
  "leftmost (Node c a l n r) p =
     (if l = Leaf then (Node c a l n r, p) else leftmost l (Frame Left c a n r # p))"
| "leftmost Leaf p = (Leaf, p)"

fun rightmost :: "('n, 'a) rbt \<Rightarrow> ('n, 'a) path \<Rightarrow> ('n, 'a) rbt \<times> ('n, 'a) path" where
  "rightmost (Node c a l n r) p =
     (if r = Leaf then (Node c a l n r, p) else rightmost r (Frame Right c a n l # p))"
| "rightmost Leaf p = (Leaf, p)"

text \<open>
  \<open>_PSCNV_RB_REMOVE\<close> of the node a pointer stands for. With two children, the successor takes
  the links and the colour of the removed node but keeps its own summary until all nodes from the
  place it left are augmented, bottom up; with one child or none only the parent is augmented.
\<close>

fun rb_remove_at :: "('n, 'a) augment \<Rightarrow> ('n, 'a) rbt \<times> ('n, 'a) path \<Rightarrow> ('n, 'a) rbt" where
  "rb_remove_at f (Node c a l n r, path) =
     (if l = Leaf then
        (let path' = aug_parent f r path
         in if c = Black then remove_color f r path' else plug r path')
      else if r = Leaf then
        (let path' = aug_parent f l path
         in if c = Black then remove_color f l path' else plug l path')
      else
        (case leftmost r [] of
           (Node c2 a2 l2 n2 r2, down) \<Rightarrow>
             (let path' = aug_up f r2 (down @ Frame Right c a2 n2 l # path)
              in if c2 = Black then remove_color f r2 path' else plug r2 path')
         | (Leaf, down) \<Rightarrow> plug (Node c a l n r) path))"
| "rb_remove_at f (Leaf, path) = plug Leaf path"

subsection \<open>Lookup and iteration\<close>

fun rb_find :: "('n \<Rightarrow> 'n \<Rightarrow> int) \<Rightarrow> 'n \<Rightarrow> ('n, 'a) rbt \<Rightarrow> 'n option" where
  "rb_find cmp e Leaf = None"
| "rb_find cmp e (Node c a l n r) =
     (let comp = cmp e n in
      if comp < 0 then rb_find cmp e l else if comp > 0 then rb_find cmp e r else Some n)"

fun rb_nfind :: "('n \<Rightarrow> 'n \<Rightarrow> int) \<Rightarrow> 'n \<Rightarrow> ('n, 'a) rbt \<Rightarrow> 'n option \<Rightarrow> 'n option" where
  "rb_nfind cmp e Leaf res = res"
| "rb_nfind cmp e (Node c a l n r) res =
     (let comp = cmp e n in
      if comp < 0 then rb_nfind cmp e l (Some n)
      else if comp > 0 then rb_nfind cmp e r res else Some n)"

fun node_of :: "('n, 'a) rbt \<Rightarrow> 'n option" where
  "node_of Leaf = None"
| "node_of (Node c a l n r) = Some n"

definition rb_min :: "('n, 'a) rbt \<Rightarrow> 'n option" where
  "rb_min t = node_of (fst (leftmost t []))"

definition rb_max :: "('n, 'a) rbt \<Rightarrow> 'n option" where
  "rb_max t = node_of (fst (rightmost t []))"

text \<open>Climbing to the first ancestor reached from its left (right) child.\<close>

fun climb :: "dir \<Rightarrow> ('n, 'a) path \<Rightarrow> 'n option" where
  "climb d [] = None"
| "climb d (Frame d' c a n s # p) = (if d' = d then Some n else climb d p)"

fun rb_next_at :: "('n, 'a) rbt \<times> ('n, 'a) path \<Rightarrow> 'n option" where
  "rb_next_at (Leaf, p) = None"
| "rb_next_at (Node c a l n r, p) =
     (if r \<noteq> Leaf then rb_min r else climb Left p)"

fun rb_prev_at :: "('n, 'a) rbt \<times> ('n, 'a) path \<Rightarrow> 'n option" where
  "rb_prev_at (Leaf, p) = None"
| "rb_prev_at (Node c a l n r, p) =
     (if l \<noteq> Leaf then rb_max l else climb Right p)"

text \<open>The pointer to the node with property \<open>P\<close> (its identity), as a subtree with its path.\<close>

fun focus ::
  "('n \<Rightarrow> bool) \<Rightarrow> ('n, 'a) rbt \<Rightarrow> ('n, 'a) path \<Rightarrow> (('n, 'a) rbt \<times> ('n, 'a) path) option" where
  "focus P Leaf p = None"
| "focus P (Node c a l n r) p =
     (if P n then Some (Node c a l n r, p)
      else case focus P l (Frame Left c a n r # p) of
             Some z \<Rightarrow> Some z
           | None \<Rightarrow> focus P r (Frame Right c a n l # p))"

end
