(* ===== verification/RbtreeProps.thy ===== *)
theory RbtreeProps
  imports Rbtree "HOL-Library.Option_ord"
begin

section \<open>Properties of the red-black tree\<close>

text \<open>
  What the memory manager relies on: insertion and removal change the in-order sequence of
  payloads by exactly one element, the tree stays a red-black tree (so that no rotation meets a
  missing child), and every summary stays an upper bound of the summaries below it. Each fact is
  proved for a subtree plugged into a path, the recolouring loops being recursions on the path.
\<close>

subsection \<open>The in-order sequence\<close>

fun inorder :: "('n, 'a) rbt \<Rightarrow> 'n list" where
  "inorder Leaf = []"
| "inorder (Node c a l n r) = inorder l @ n # inorder r"

fun before :: "('n, 'a) path \<Rightarrow> 'n list" where
  "before [] = []"
| "before (Frame Left c a n s # p) = before p"
| "before (Frame Right c a n s # p) = before p @ inorder s @ [n]"

fun after :: "('n, 'a) path \<Rightarrow> 'n list" where
  "after [] = []"
| "after (Frame Left c a n s # p) = n # inorder s @ after p"
| "after (Frame Right c a n s # p) = after p"

lemma color_neq_simps [simp]: "c \<noteq> Red \<longleftrightarrow> c = Black" "c \<noteq> Black \<longleftrightarrow> c = Red"
  by (cases c; simp)+

lemma frame_dir_cases [case_names Left Right]:
  assumes "\<And>c a n s. fr = Frame Left c a n s \<Longrightarrow> P" "\<And>c a n s. fr = Frame Right c a n s \<Longrightarrow> P"
  shows P
proof (cases fr)
  case (Frame d c a n s)
  with assms show ?thesis by (cases d) auto
qed

lemma inorder_plug [inorder_simps]: "inorder (plug t p) = before p @ inorder t @ after p"
proof (induction p arbitrary: t)
  case (Cons fr p)
  then show ?case by (cases fr rule: frame_dir_cases) auto
qed simp

lemma inorder_plug1:
  "before (fr # p) @ inorder t @ after (fr # p) = before p @ inorder (plug1 fr t) @ after p"
  by (cases "(fr, t)" rule: plug1.cases) auto

lemma before_aug_parent [inorder_simps]: "before (aug_parent f t p) = before p"
proof (cases p)
  case (Cons fr q)
  then show ?thesis by (cases fr rule: frame_dir_cases) auto
qed simp

lemma after_aug_parent [inorder_simps]: "after (aug_parent f t p) = after p"
proof (cases p)
  case (Cons fr q)
  then show ?thesis by (cases fr rule: frame_dir_cases) auto
qed simp

lemma before_after_aug_up [inorder_simps]:
  "before (aug_up f t p) = before p" "after (aug_up f t p) = after p"
proof (induction f t p rule: aug_up.induct)
  case (2 f t fr p)
  case 1
  show ?case using 2 by (cases "(f, t, fr)" rule: aug_frame.cases) (auto simp: Let_def)
  case 2
  show ?case using \<open>\<And>x. x = aug_frame f t fr \<Longrightarrow> after (aug_up f (plug1 x t) p) = after p\<close>
    by (cases "(f, t, fr)" rule: aug_frame.cases) (auto simp: Let_def)
qed auto

lemma inorder_paint [simp]: "inorder (paint c t) = inorder t"
  by (cases t) auto

lemma inorder_augment [simp]: "inorder (augment f t) = inorder t"
  by (cases t) auto

lemma inorder_paint_child [simp]: "inorder (paint_child d c t) = inorder t"
  by (cases "(d, c, t)" rule: paint_child.cases) auto

lemma inorder_rotate [simp]: "inorder (rotate d f t) = inorder t"
proof -
  have "inorder (rotate_left f t) = inorder t" "inorder (rotate_right f t) = inorder t"
    by (cases "(f, t)" rule: rotate_left.cases; simp)
      (cases "(f, t)" rule: rotate_right.cases; simp)
  then show ?thesis by (simp add: rotate_def split: dir.splits)
qed

lemma inorder_insert_color [inorder_simps]:
  "inorder (insert_color f elm p) = before p @ inorder elm @ after p"
proof (induction f elm p rule: insert_color.induct)
  case (1 f elm d1 ap p s d2 cg ag g uncle up)
  then show ?case
    by (cases d1; cases d2) (auto simp: Let_def inorder_simps)
qed (auto simp: inorder_simps inorder_plug1 simp del: before.simps(2,3) after.simps(2,3))

lemma inorder_remove_black_sibling:
  "case_sum inorder inorder (remove_black_sibling f t d c a n s) = inorder (plug1 (Frame d c a n s) t)"
  by (cases d) (auto simp: remove_black_sibling_def Let_def)

lemma inorder_remove_color [inorder_simps]:
  "inorder (remove_color f t p) = before p @ inorder t @ after p"
proof (induction f t p rule: remove_color.induct)
  case (2 f t d c a n s up)
  note sib = inorder_remove_black_sibling
  show ?case
  proof (cases "color_of t = Red")
    case True
    then show ?thesis by (cases d) (auto simp: inorder_simps)
  next
    case False
    show ?thesis
    proof (cases "\<exists>as sl x sr. s = Node Red as sl x sr")
      case True
      then obtain as sl x sr where s: "s = Node Red as sl x sr" by blast
      show ?thesis
      proof (cases d)
        case Left
        let ?low = "augment f (plug1 (Frame Left Red a n sl) t)"
        show ?thesis
          using False s Left sib [of f t Left Red "the (root_aug ?low)" n sl]
          by (auto simp: Let_def inorder_simps split: sum.splits)
      next
        case Right
        let ?low = "augment f (plug1 (Frame Right Red a n sr) t)"
        show ?thesis
          using False s Right sib [of f t Right Red "the (root_aug ?low)" n sr]
          by (auto simp: Let_def inorder_simps split: sum.splits)
      qed
    next
      case black: False
      have *: "remove_color f t (Frame d c a n s # up) =
          (case remove_black_sibling f t d c a n s of
             Inl parent \<Rightarrow> remove_color f parent up
           | Inr sub \<Rightarrow> paint Black (plug sub (aug_parent f sub up)))"
        using False black by (auto split: rbt.splits color.splits)
      show ?thesis
      proof (cases "remove_black_sibling f t d c a n s")
        case (Inl parent)
        have "inorder (remove_color f parent up) = before up @ inorder parent @ after up"
          using 2 False black Inl by (cases s; cases "color_of s") auto
        then show ?thesis using * Inl sib [of f t d c a n s] by (cases d) auto
      next
        case (Inr sub)
        then show ?thesis using * sib [of f t d c a n s]
          by (cases d) (auto simp: inorder_simps)
      qed
    qed
  qed
qed (auto simp: inorder_simps)


lemma before_after_append [inorder_simps]:
  "before (q @ p) = before p @ before q" "after (q @ p) = after q @ after p"
proof -
  have "before (q @ p) = before p @ before q \<and> after (q @ p) = after q @ after p"
  proof (induction q)
    case (Cons fr q)
    then show ?case
      by (cases fr rule: frame_dir_cases) auto
  qed simp
  then show "before (q @ p) = before p @ before q" "after (q @ p) = after q @ after p" by auto
qed

lemma plug_append [simp]: "plug t (q @ p) = plug (plug t q) p"
  by (induction q arbitrary: t) auto

lemma leftmost_props:
  assumes "t \<noteq> Leaf"
  shows "\<exists>c a n r q. leftmost t p = (Node c a Leaf n r, q @ p) \<and> before q = []
     \<and> inorder t = n # inorder r @ after q \<and> plug (Node c a Leaf n r) q = t
     \<and> leftmost t [] = (Node c a Leaf n r, q)"
  using assms
proof (induction t arbitrary: p)
  case (Node c a l n r)
  show ?case
  proof (cases "l = Leaf")
    case False
    let ?fr = "Frame Left c a n r"
    from Node.IH(1) [OF False, of "?fr # p"] obtain c' a' n' r' q where
      q: "leftmost l (?fr # p) = (Node c' a' Leaf n' r', q @ ?fr # p)" "before q = []"
         "inorder l = n' # inorder r' @ after q" "plug (Node c' a' Leaf n' r') q = l"
         "leftmost l [] = (Node c' a' Leaf n' r', q)" by blast
    from Node.IH(1) [OF False, of "[?fr]"] q(5)
    have "leftmost l [?fr] = (Node c' a' Leaf n' r', q @ [?fr])" by auto
    moreover have "plug (Node c' a' Leaf n' r') (q @ [?fr]) = Node c a l n r"
      using q(4) by simp
    ultimately show ?thesis using q False by (auto simp: inorder_simps)
  qed auto
qed simp


lemma rightmost_props:
  assumes "t \<noteq> Leaf"
  shows "\<exists>c a n l q. rightmost t p = (Node c a l n Leaf, q @ p) \<and> inorder t = before q @ inorder l @ [n]"
  using assms
proof (induction t arbitrary: p)
  case (Node c a l n r)
  show ?case
  proof (cases "r = Leaf")
    case False
    from Node.IH(2) [OF False, of "Frame Right c a n l # p"] obtain c' a' n' l' q where
      "rightmost r (Frame Right c a n l # p) = (Node c' a' l' n' Leaf, q @ Frame Right c a n l # p)"
      "inorder r = before q @ inorder l' @ [n']" by blast
    then show ?thesis using False
      by (intro exI [of _ c'] exI [of _ a'] exI [of _ n'] exI [of _ l']
          exI [of _ "q @ [Frame Right c a n l]"]) (simp add: inorder_simps)
  qed auto
qed simp

lemma rb_min_inorder: "rb_min t = (case inorder t of [] \<Rightarrow> None | n # _ \<Rightarrow> Some n)"
proof (cases "t = Leaf")
  case False
  from leftmost_props [OF this, of "[]"] show ?thesis by (auto simp: rb_min_def)
qed (simp add: rb_min_def)

lemma rb_max_inorder: "rb_max t = (if inorder t = [] then None else Some (last (inorder t)))"
proof (cases "t = Leaf")
  case False
  from rightmost_props [OF this, of "[]"] show ?thesis by (auto simp: rb_max_def)
qed (simp add: rb_max_def)

lemma climb_after_before:
  "climb Left p = (case after p of [] \<Rightarrow> None | n # _ \<Rightarrow> Some n)"
  "climb Right p = (if before p = [] then None else Some (last (before p)))"
proof -
  have "climb Left p = (case after p of [] \<Rightarrow> None | n # _ \<Rightarrow> Some n) \<and>
        climb Right p = (if before p = [] then None else Some (last (before p)))"
  proof (induction p)
    case (Cons fr p)
    then show ?case by (cases fr rule: frame_dir_cases) auto
  qed simp
  then show "climb Left p = (case after p of [] \<Rightarrow> None | n # _ \<Rightarrow> Some n)"
    "climb Right p = (if before p = [] then None else Some (last (before p)))" by auto
qed

lemma inorder_eq_Nil [simp]: "inorder t = [] \<longleftrightarrow> t = Leaf"
  by (cases t) auto

text \<open>\<open>PSCNV_RB_NEXT\<close> and \<open>PSCNV_RB_PREV\<close> are the neighbours in the in-order sequence.\<close>

lemma rb_next_at_inorder:
  "rb_next_at (Node c a l n r, p) = (case inorder r @ after p of [] \<Rightarrow> None | m # _ \<Rightarrow> Some m)"
proof (cases "r = Leaf")
  case False
  then obtain m ms where "inorder r = m # ms" by (cases "inorder r") auto
  with False show ?thesis by (simp add: rb_min_inorder)
qed (simp add: climb_after_before)

lemma rb_prev_at_inorder:
  "rb_prev_at (Node c a l n r, p) =
     (if before p @ inorder l = [] then None else Some (last (before p @ inorder l)))"
  by (cases l) (auto simp: rb_max_inorder climb_after_before)

text \<open>A pointer found by \<open>focus\<close> splits the in-order sequence.\<close>

lemma focus_Some:
  assumes "focus P t p = Some (t', p')"
  shows "\<exists>c a l n r. t' = Node c a l n r \<and> P n \<and> plug t' p' = plug t p"
  using assms
proof (induction P t p rule: focus.induct)
  case (2 P c a l n r p)
  then show ?case by (auto split: if_splits option.splits)
qed simp

lemma focus_None: "focus P t p = None \<longleftrightarrow> (\<forall>n \<in> set (inorder t). \<not> P n)"
proof (induction P t p rule: focus.induct)
  case (2 P c a l n r p)
  then show ?case by (auto split: option.splits)
qed simp

lemma focus_exists:
  assumes "n \<in> set (inorder t)" "P n"
  obtains c a l m r p where "focus P t [] = Some (Node c a l m r, p)" "P m"
    "plug (Node c a l m r) p = t"
proof -
  from assms have "focus P t [] \<noteq> None" by (auto simp: focus_None)
  then obtain t' p' where "focus P t [] = Some (t', p')" by auto
  with focus_Some [OF this] that show ?thesis by auto
qed

lemma inorder_rb_remove_at [inorder_simps]:
  "inorder (rb_remove_at f (Node c a l n r, p)) = before p @ inorder l @ inorder r @ after p"
proof (cases "l = Leaf \<or> r = Leaf")
  case True
  then show ?thesis by (auto simp: Let_def inorder_simps)
next
  case False
  then obtain c2 a2 n2 r2 q where "leftmost r [] = (Node c2 a2 Leaf n2 r2, q)"
    "before q = []" "inorder r = n2 # inorder r2 @ after q"
    using leftmost_props [of r "[]"] by auto
  with False show ?thesis by (auto simp: Let_def inorder_simps)
qed

text \<open>Searching by a key that the comparison function orders.\<close>

locale keyed =
  fixes cmp :: "'n \<Rightarrow> 'n \<Rightarrow> int" and key :: "'n \<Rightarrow> 'k::linorder"
  assumes cmp_neg: "cmp a b < 0 \<longleftrightarrow> key a < key b"
    and cmp_pos: "0 < cmp a b \<longleftrightarrow> key b < key a"
begin

abbreviation ascending :: "'n list \<Rightarrow> bool" where
  "ascending \<equiv> sorted_wrt (\<lambda>a b. key a < key b)"

lemma descend_Some:
  assumes "descend cmp e t p = Some q" "ascending (inorder t)"
  shows "\<exists>xs ys. inorder t = xs @ ys \<and> before q = before p @ xs \<and> after q = ys @ after p
    \<and> (\<forall>x \<in> set xs. key x < key e) \<and> (\<forall>y \<in> set ys. key e < key y)"
  using assms
proof (induction t arbitrary: p)
  case (Node c a l n r)
  consider (l) "key e < key n" | (r) "key n < key e" | (eq) "key e = key n" by fastforce
  then show ?case
  proof cases
    case l
    with Node.prems(1) have "descend cmp e l (Frame Left c a n r # p) = Some q"
      using cmp_neg by (auto simp: Let_def)
    from Node.IH(1) [OF this] Node.prems(2) obtain xs ys where
      "inorder l = xs @ ys" "before q = before p @ xs" "after q = ys @ n # inorder r @ after p"
      "\<forall>x \<in> set xs. key x < key e" "\<forall>y \<in> set ys. key e < key y"
      by (auto simp: sorted_wrt_append)
    with l Node.prems(2) show ?thesis
      by (intro exI [of _ xs] exI [of _ "ys @ n # inorder r"])
        (auto simp: sorted_wrt_append intro: less_trans)
  next
    case r
    with Node.prems(1) have "descend cmp e r (Frame Right c a n l # p) = Some q"
      using cmp_neg cmp_pos by (auto simp: Let_def split: if_splits)
    from Node.IH(2) [OF this] Node.prems(2) obtain xs ys where
      "inorder r = xs @ ys" "before q = before p @ inorder l @ n # xs" "after q = ys @ after p"
      "\<forall>x \<in> set xs. key x < key e" "\<forall>y \<in> set ys. key e < key y"
      by (auto simp: sorted_wrt_append)
    with r Node.prems(2) show ?thesis
      by (intro exI [of _ "inorder l @ n # xs"] exI [of _ ys])
        (auto simp: sorted_wrt_append intro: less_trans)
  next
    case eq
    then have "cmp e n = 0" using cmp_neg [of e n] cmp_pos [of e n] by auto
    with Node.prems(1) show ?thesis by (simp add: Let_def)
  qed
qed auto

lemma descend_fresh:
  assumes "\<forall>n \<in> set (inorder t). key n \<noteq> key e"
  shows "\<exists>q. descend cmp e t p = Some q"
  using assms
proof (induction t arbitrary: p)
  case (Node c a l n r)
  then have "cmp e n \<noteq> 0" using cmp_neg [of e n] cmp_pos [of e n] by (auto simp: neq_iff)
  then show ?case using Node by (auto simp: Let_def)
qed simp

lemma split_unique:
  assumes "xs @ ys = xs' @ ys'" "\<forall>x \<in> set xs. P x" "\<forall>y \<in> set ys. \<not> P y"
    "\<forall>x \<in> set xs'. P x" "\<forall>y \<in> set ys'. \<not> P y"
  shows "xs = xs' \<and> ys = ys'"
proof -
  have *: "takeWhile P (us @ vs) = us" if "\<forall>x \<in> set us. P x" "\<forall>y \<in> set vs. \<not> P y" for us vs
    using that by (cases vs) auto
  from assms(2,3) * [of xs ys] assms(4,5) * [of xs' ys'] assms(1) show ?thesis by simp
qed

lemma inorder_rb_insert:
  assumes "inorder t = xs @ ys" "ascending (inorder t)"
    "\<forall>x \<in> set xs. key x < key e" "\<forall>y \<in> set ys. key e < key y"
  shows "inorder (rb_insert f cmp a0 e t) = xs @ e # ys"
proof -
  from assms have "\<forall>n \<in> set (inorder t). key n \<noteq> key e" by auto
  then obtain q where q: "descend cmp e t [] = Some q" using descend_fresh by blast
  from descend_Some [OF q assms(2)] obtain us vs where uv:
    "inorder t = us @ vs" "before q = us" "after q = vs"
    "\<forall>x \<in> set us. key x < key e" "\<forall>y \<in> set vs. key e < key y" by auto
  have "us = xs \<and> vs = ys"
    by (rule split_unique [where P = "\<lambda>x. key x < key e"]) (use uv assms in \<open>auto simp: not_less less_imp_le\<close>)
  with q uv show ?thesis by (simp add: rb_insert_def Let_def inorder_simps)
qed

lemma rb_find_correct:
  assumes "ascending (inorder t)"
  shows "rb_find cmp e t = List.find (\<lambda>n. key n = key e) (inorder t)"
  using assms
proof (induction t)
  case (Node c a l n r)
  have none: "List.find (\<lambda>n. key n = key e) us = None" if "\<forall>u \<in> set us. key u \<noteq> key e" for us
    using that by (induction us) auto
  have app: "List.find P (us @ vs) = (case List.find P us of None \<Rightarrow> List.find P vs | Some u \<Rightarrow> Some u)"
    for P :: "'n \<Rightarrow> bool" and us vs by (induction us) auto
  consider (l) "key e < key n" | (r) "key n < key e" | (eq) "key e = key n" by fastforce
  then show ?case
  proof cases
    case l
    then have "List.find (\<lambda>n. key n = key e) (inorder r) = None"
      using Node.prems by (intro none) (auto simp: sorted_wrt_append)
    with l Node show ?thesis using cmp_neg
      by (auto simp: Let_def app sorted_wrt_append split: option.splits)
  next
    case r
    then have "List.find (\<lambda>n. key n = key e) (inorder l) = None"
      using Node.prems by (intro none) (auto simp: sorted_wrt_append)
    with r Node show ?thesis using cmp_neg [of e n] cmp_pos [of e n]
      by (auto simp: Let_def app sorted_wrt_append)
  next
    case eq
    then have "List.find (\<lambda>n. key n = key e) (inorder l) = None"
      using Node.prems by (intro none) (auto simp: sorted_wrt_append)
    with eq show ?thesis using cmp_neg [of e n] cmp_pos [of e n]
      by (auto simp: Let_def app)
  qed
qed simp

end


subsection \<open>Red-black well-formedness\<close>

fun bheight :: "('n, 'a) rbt \<Rightarrow> nat" where
  "bheight Leaf = 0"
| "bheight (Node c a l n r) = (if c = Black then Suc (bheight l) else bheight l)"

fun invc :: "('n, 'a) rbt \<Rightarrow> bool" where
  "invc Leaf = True"
| "invc (Node c a l n r) =
     ((c = Red \<longrightarrow> color_of l = Black \<and> color_of r = Black) \<and> invc l \<and> invc r)"

fun invh :: "('n, 'a) rbt \<Rightarrow> bool" where
  "invh Leaf = True"
| "invh (Node c a l n r) = (bheight l = bheight r \<and> invh l \<and> invh r)"

definition rb_wf :: "('n, 'a) rbt \<Rightarrow> bool" where
  "rb_wf t \<longleftrightarrow> invc t \<and> invh t \<and> color_of t = Black"

text \<open>The path accepts a subtree whose root has colour \<open>c\<close> and whose black height is \<open>h\<close>.\<close>

fun path_wf :: "color \<Rightarrow> nat \<Rightarrow> ('n, 'a) path \<Rightarrow> bool" where
  "path_wf c h [] \<longleftrightarrow> c = Black"
| "path_wf c h (Frame d c' a n s # p) \<longleftrightarrow>
     invc s \<and> invh s \<and> bheight s = h \<and> (c' = Red \<longrightarrow> c = Black \<and> color_of s = Black)
     \<and> path_wf c' (if c' = Black then Suc h else h) p"

lemma rb_wf_plug:
  "rb_wf (plug t p) \<longleftrightarrow> invc t \<and> invh t \<and> path_wf (color_of t) (bheight t) p"
proof (induction p arbitrary: t)
  case (Cons fr p)
  then show ?case by (cases fr rule: frame_dir_cases) auto
qed (auto simp: rb_wf_def)

lemma path_wf_Black: "path_wf c h p \<Longrightarrow> path_wf Black h p"
proof (cases p)
  case (Cons fr q)
  assume "path_wf c h p"
  with Cons show ?thesis by (cases fr) auto
qed simp

lemma path_wf_aug_parent [simp]: "path_wf c h (aug_parent f t p) \<longleftrightarrow> path_wf c h p"
proof (cases p)
  case (Cons fr q)
  then show ?thesis by (cases fr rule: frame_dir_cases) auto
qed simp

lemma path_wf_aug_up [simp]: "path_wf c h (aug_up f t p) \<longleftrightarrow> path_wf c h p"
proof (induction p arbitrary: t c h)
  case (Cons fr p)
  then show ?case by (cases fr rule: frame_dir_cases) (auto simp: Let_def)
qed simp

lemma path_wf_payload:
  "path_wf c h (q @ Frame d c' a n s # p) \<longleftrightarrow> path_wf c h (q @ Frame d c' a' n' s # p)"
proof (induction q arbitrary: c h)
  case (Cons fr q)
  then show ?case by (cases fr) auto
qed simp

lemma color_paint [simp]: "color_of (paint c t) = (if t = Leaf then Black else c)"
  by (cases t) auto

lemma paint_id [simp]: "color_of t = c \<Longrightarrow> paint c t = t"
  by (cases t) auto

lemma invh_paint [simp]: "invh (paint c t) = invh t"
  by (cases t) auto

lemma invc_paint_Black [simp]: "invc t \<Longrightarrow> invc (paint Black t)"
  by (cases t) auto

lemma insert_color_wf:
  assumes "invc elm" "invh elm" "color_of elm = Red" "path_wf Black (bheight elm) p"
  shows "rb_wf (insert_color f elm p)"
  using assms
proof (induction f elm p rule: insert_color.induct [case_names climbing root step last])
  case (climbing f elm d1 ap p s d2 cg ag g uncle up)
  from climbing.prems have path: "cg = Black" "color_of s = Black" "bheight s = bheight elm"
    "bheight uncle = bheight elm" "invc s" "invh s" "invc uncle" "invh uncle"
    "path_wf Black (Suc (bheight elm)) up"
    by auto
  show ?case
  proof (cases "color_of uncle = Red")
    case True
    let ?elm = "plug1 (Frame d2 Red ag g (paint Black uncle)) (plug1 (Frame d1 Black ap p s) elm)"
    from True path have "bheight (paint Black uncle) = Suc (bheight elm)"
      by (cases uncle) auto
    then have "invc ?elm \<and> invh ?elm \<and> color_of ?elm = Red \<and> bheight ?elm = Suc (bheight elm)"
      using climbing.prems(1,2,3) path by (cases d1; cases d2) auto
    with climbing.IH [OF True] path True show ?thesis by simp
  next
    case False
    then have "color_of uncle = Black" by (cases "color_of uncle") auto
    define top where "top = rotate (opposite d2) f (plug1 (Frame d2 Red ag g uncle)
      (paint Black (if d1 \<noteq> d2 then rotate d2 f (plug1 (Frame d1 Red ap p s) elm)
                    else plug1 (Frame d1 Red ap p s) elm)))"
    obtain a l n r where elm: "elm = Node Red a l n r" using climbing.prems(3) by (cases elm) auto
    have "invc top \<and> invh top \<and> color_of top = Black \<and> bheight top = Suc (bheight elm)"
      using climbing.prems(1,2) path \<open>color_of uncle = Black\<close> elm unfolding top_def
      by (cases d1; cases d2) (auto simp: rotate_def opposite_def)
    with path have "rb_wf (plug top (aug_parent f top up))" by (simp add: rb_wf_plug)
    then show ?thesis using False by (auto simp: Let_def top_def rb_wf_def)
  qed
next
  case (root f elm)
  then show ?case by (cases elm) (auto simp: rb_wf_def)
next
  case (step f elm d a n s p)
  then have "rb_wf (plug elm (Frame d Black a n s # p))" by (simp only: rb_wf_plug) auto
  then show ?case by (auto simp: rb_wf_def)
next
  case (last f elm v)
  then show ?case by (cases v rule: frame_dir_cases) (auto simp: rb_wf_def)
qed

lemma remove_black_sibling_wf:
  assumes "invc t" "invh t" "color_of t = Black" "invc s" "invh s" "color_of s = Black"
    "bheight s = Suc (bheight t)"
  shows "case remove_black_sibling f t d c a n s of
      Inl u \<Rightarrow> invc (paint Black u) \<and> invh u \<and> color_of u = c
               \<and> bheight u = (if c = Black then Suc (bheight t) else bheight t)
    | Inr u \<Rightarrow> invc u \<and> invh u \<and> color_of u = c
               \<and> bheight u = (if c = Black then Suc (Suc (bheight t)) else Suc (bheight t))"
proof -
  obtain as sl x sr where s: "s = Node Black as sl x sr"
    using assms(6,7) by (cases s) auto
  have "bheight t = bheight sl" "bheight sl = bheight sr" "invh sl" "invh sr" "invc sl" "invc sr"
    using assms s by auto
  then show ?thesis using assms(1,2,3) unfolding s remove_black_sibling_def
    by (cases d; cases c; cases sl; cases sr)
      (auto simp: Let_def rotate_def opposite_def split: color.splits if_splits)
qed

lemma remove_color_wf:
  assumes "invc (paint Black t)" "invh t" "path_wf Black (Suc (bheight t)) p"
  shows "rb_wf (remove_color f t p)"
  using assms
proof (induction f t p rule: remove_color.induct)
  case (1 f t)
  then show ?case by (cases t) (auto simp: rb_wf_def)
next
  case (2 f t d c a n s up)
  from "2.prems" have path: "invc s" "invh s" "bheight s = Suc (bheight t)"
    "c = Red \<Longrightarrow> color_of s = Black"
    "path_wf c (if c = Black then Suc (Suc (bheight t)) else Suc (bheight t)) up" by auto
  show ?case
  proof (cases "color_of t = Red")
    case True
    then have "bheight (paint Black t) = Suc (bheight t)" by (cases t) auto
    then have "rb_wf (plug (paint Black t) (Frame d c a n s # up))"
      using "2.prems" True by (simp only: rb_wf_plug) auto
    with True show ?thesis by simp
  next
    case False
    then have t: "color_of t = Black" "invc t" using "2.prems"(1)
      by (cases t; cases "color_of t"; auto)+
    show ?thesis
    proof (cases "color_of s = Red")
      case True
      with path obtain as sl x sr where s: "s = Node Red as sl x sr" "c = Black"
        by (cases s; cases c) auto
      define inner outer where "inner = (case d of Left \<Rightarrow> sl | Right \<Rightarrow> sr)"
        and "outer = (case d of Left \<Rightarrow> sr | Right \<Rightarrow> sl)"
      define low where "low = augment f (plug1 (Frame d Red a n inner) t)"
      define top where "top = augment f (plug1 (Frame d Black as x outer) low)"
      define fr where "fr = Frame d Black (the (root_aug top)) x outer"
      have io: "invc inner" "invh inner" "color_of inner = Black" "bheight inner = Suc (bheight t)"
        "invc outer" "invh outer" "bheight outer = Suc (bheight t)"
        using path s unfolding inner_def outer_def by (cases d; auto)+
      have eq: "remove_color f t (Frame d c a n s # up) =
          (case remove_black_sibling f t d Red (the (root_aug low)) n inner of
             Inl parent \<Rightarrow> plug (paint Black parent) (fr # aug_parent f top up)
           | Inr sub \<Rightarrow> paint Black (plug sub (aug_parent f sub (fr # aug_parent f top up))))"
        using t(1) s unfolding fr_def top_def low_def inner_def outer_def
        by (cases d) (simp_all add: Let_def del: plug.simps aug_parent.simps augment.simps
            plug1.simps paint.simps cong: sum.case_cong)
      have fr: "path_wf c' (Suc (bheight t)) (fr # aug_parent f top up)" for c'
        using io path(5) s(2) unfolding fr_def by simp
      note sib = remove_black_sibling_wf [OF t(2) "2.prems"(2) t(1) io(1,2,3,4),
          where f = f and d = d and c = Red and a = "the (root_aug low)" and n = n]
      show ?thesis
      proof (cases "remove_black_sibling f t d Red (the (root_aug low)) n inner")
        case (Inl u)
        with sib have u: "invc (paint Black u)" "invh u" "color_of u = Red" "bheight u = bheight t"
          by auto
        then have "bheight (paint Black u) = Suc (bheight t)" by (cases u) auto
        with u fr show ?thesis unfolding eq Inl by (simp del: plug.simps path_wf.simps add: rb_wf_plug)
      next
        case (Inr u)
        with sib have "invc u" "invh u" "color_of u = Red" "bheight u = Suc (bheight t)" by auto
        with fr have "rb_wf (plug u (aug_parent f u (fr # aug_parent f top up)))"
          by (simp del: plug.simps path_wf.simps aug_parent.simps add: rb_wf_plug)
        then show ?thesis unfolding eq Inr by (simp add: rb_wf_def)
      qed
    next
      case black: False
      then have sB: "color_of s = Black" by (cases "color_of s") auto
      have eq: "remove_color f t (Frame d c a n s # up) =
          (case remove_black_sibling f t d c a n s of
             Inl parent \<Rightarrow> remove_color f parent up
           | Inr sub \<Rightarrow> paint Black (plug sub (aug_parent f sub up)))"
        using t(1) sB by (auto split: rbt.splits color.splits)
      note sib = remove_black_sibling_wf [OF t(2) "2.prems"(2) t(1) path(1,2) sB path(3),
          where f = f and d = d and c = c and a = a and n = n]
      show ?thesis
      proof (cases "remove_black_sibling f t d c a n s")
        case (Inl u)
        with sib path(5) have "invc (paint Black u)" "invh u" "path_wf Black (Suc (bheight u)) up"
          by (auto intro: path_wf_Black split: if_splits)
        with "2.IH" False black Inl show ?thesis unfolding eq
          by (cases s; cases "color_of s") auto
      next
        case (Inr u)
        with sib path(5) have "rb_wf (plug u (aug_parent f u up))" by (auto simp: rb_wf_plug)
        then show ?thesis unfolding eq Inr by (simp add: rb_wf_def)
      qed
    qed
  qed
qed

theorem rb_insert_wf:
  assumes "rb_wf t"
  shows "rb_wf (rb_insert f cmp a0 e t)"
proof -
  have plug_q: "plug Leaf q = plug t p" if "descend cmp e t p = Some q" for t p q
    using that
  proof (induction t arbitrary: p)
    case (Node c a l n r)
    then show ?case by (auto simp: Let_def split: if_splits)
  qed simp
  show ?thesis
  proof (cases "descend cmp e t []")
    case (Some q)
    with plug_q assms have "rb_wf (plug Leaf q)" by fastforce
    then have "path_wf Black 0 q" by (simp add: rb_wf_plug)
    then show ?thesis using Some unfolding rb_insert_def
      by (simp add: Let_def insert_color_wf)
  qed (simp add: rb_insert_def assms)
qed

theorem rb_remove_at_wf:
  assumes "rb_wf (plug (Node c a l n r) p)"
  shows "rb_wf (rb_remove_at f (Node c a l n r, p))"
proof -
  from assms have nd: "invc l" "invc r" "invh l" "invh r" "bheight l = bheight r"
    "c = Red \<Longrightarrow> color_of l = Black \<and> color_of r = Black"
    "path_wf c (if c = Black then Suc (bheight l) else bheight l) p"
    by (auto simp: rb_wf_plug)
  have one: "rb_wf (if c = Black then remove_color f u (aug_parent f u p) else plug u (aug_parent f u p))"
    if "u = l \<or> u = r" for u
    using that nd by (cases c) (auto intro: remove_color_wf path_wf_Black simp: rb_wf_plug)
  show ?thesis
  proof (cases "l = Leaf \<or> r = Leaf")
    case True
    then show ?thesis using one by (auto simp: Let_def)
  next
    case False
    then obtain c2 a2 n2 r2 q where q: "leftmost r [] = (Node c2 a2 Leaf n2 r2, q)"
      "plug (Node c2 a2 Leaf n2 r2) q = r"
      using leftmost_props [of r "[]"] by auto
    let ?p = "q @ Frame Right c a2 n2 l # p"
    have "plug (Node c2 a2 Leaf n2 r2) (q @ Frame Right c a n l # p) = plug (Node c a l n r) p"
      using q(2) by simp
    with assms have "rb_wf (plug (Node c2 a2 Leaf n2 r2) (q @ Frame Right c a n l # p))" by simp
    then have w: "invc r2" "invh r2" "bheight r2 = 0" "c2 = Red \<longrightarrow> color_of r2 = Black"
      "path_wf c2 (if c2 = Black then Suc 0 else 0) ?p"
      unfolding rb_wf_plug path_wf_payload [where a = a and n = n and a' = a2 and n' = n2]
      by (auto split: if_splits)
    have "rb_wf (if c2 = Black then remove_color f r2 (aug_up f r2 ?p) else plug r2 (aug_up f r2 ?p))"
    proof (cases c2)
      case Black
      with w have "path_wf Black (Suc (bheight r2)) (aug_up f r2 ?p)" by simp
      with w(1,2) have "rb_wf (remove_color f r2 (aug_up f r2 ?p))"
        by (intro remove_color_wf) auto
      with Black show ?thesis by simp
    next
      case Red
      with w have "path_wf (color_of r2) (bheight r2) (aug_up f r2 ?p)"
        by (auto intro: path_wf_Black)
      with w(1,2) Red show ?thesis
        unfolding if_not_P [OF color.distinct(2)] by (auto simp: rb_wf_plug)
    qed
    then show ?thesis using False q(1) by (simp add: Let_def)
  qed
qed


subsection \<open>Summaries are upper bounds\<close>

text \<open>
  The hook computes the least bound of a node's own value \<open>g n\<close> and its children's summaries.
  The tree code does not keep every summary exact (a removal augments only the parent of the
  removed leaf), but it keeps each of them an upper bound of everything below it.
\<close>

fun aug_ge :: "('n \<Rightarrow> 'a::order) \<Rightarrow> ('n, 'a) rbt \<Rightarrow> bool" where
  "aug_ge g Leaf = True"
| "aug_ge g (Node c a l n r) \<longleftrightarrow>
     g n \<le> a \<and> root_aug l \<le> Some a \<and> root_aug r \<le> Some a \<and> aug_ge g l \<and> aug_ge g r"

fun path_ge :: "('n \<Rightarrow> 'a::order) \<Rightarrow> 'a option \<Rightarrow> ('n, 'a) path \<Rightarrow> bool" where
  "path_ge g b [] = True"
| "path_ge g b (Frame d c a n s # p) \<longleftrightarrow>
     b \<le> Some a \<and> g n \<le> a \<and> root_aug s \<le> Some a \<and> aug_ge g s \<and> path_ge g (Some a) p"

fun path_siblings :: "('n, 'a) path \<Rightarrow> ('n, 'a) rbt list" where
  "path_siblings [] = []"
| "path_siblings (Frame d c a n s # p) = s # path_siblings p"

lemma aug_ge_plug [simp]: "aug_ge g (plug t p) \<longleftrightarrow> aug_ge g t \<and> path_ge g (root_aug t) p"
proof (induction p arbitrary: t)
  case (Cons fr p)
  then show ?case by (cases fr rule: frame_dir_cases) auto
qed simp

lemma aug_ge_plug1 [simp]:
  "aug_ge g (plug1 (Frame d c a n s) t) \<longleftrightarrow>
     g n \<le> a \<and> root_aug s \<le> Some a \<and> root_aug t \<le> Some a \<and> aug_ge g s \<and> aug_ge g t"
  "root_aug (plug1 (Frame d c a n s) t) = Some a"
  by (cases d; auto)+

lemma path_ge_mono: "path_ge g b p \<Longrightarrow> b' \<le> b \<Longrightarrow> path_ge g b' p"
  by (cases "(g, b, p)" rule: path_ge.cases) (auto intro: order_trans)

lemma root_aug_paint [simp]: "root_aug (paint c t) = root_aug t"
  by (cases t) auto

lemma aug_ge_paint [simp]: "aug_ge g (paint c t) = aug_ge g t"
  by (cases t) auto

lemma aug_ge_paint_child [simp]:
  "aug_ge g (paint_child d c t) = aug_ge g t" "root_aug (paint_child d c t) = root_aug t"
  by (cases "(d, c, t)" rule: paint_child.cases; auto)+

lemma path_ge_siblings: "path_ge g b p \<Longrightarrow> list_all (aug_ge g) (path_siblings p)"
  by (induction g b p rule: path_ge.induct) auto

locale augmented =
  fixes f :: "('n, 'a::order) augment" and g :: "'n \<Rightarrow> 'a"
  assumes f_self: "g n \<le> f n u v"
    and f_left: "u \<le> Some (f n u v)"
    and f_right: "v \<le> Some (f n u v)"
    and f_least: "g n \<le> b \<Longrightarrow> u \<le> Some b \<Longrightarrow> v \<le> Some b \<Longrightarrow> f n u v \<le> b"
begin

lemma f_children: "x \<le> f n (Some x) v" "x \<le> f n u (Some x)"
  using f_left [of "Some x"] f_right [of "Some x"] by simp_all

lemma aug_ge_augment [simp]:
  "aug_ge g l \<Longrightarrow> aug_ge g r \<Longrightarrow> aug_ge g (augment f (Node c a l n r))"
  by (simp add: f_self f_left f_right)

lemma root_aug_augment: "aug_ge g t \<Longrightarrow> root_aug (augment f t) \<le> root_aug t"
  by (cases t) (auto intro: f_least)

lemma path_ge_aug_parent:
  assumes "path_ge g b p" "root_aug t \<le> b"
  shows "path_ge g (root_aug t) (aug_parent f t p)"
proof (cases p)
  case (Cons fr q)
  with assms show ?thesis
  proof (cases fr rule: frame_dir_cases)
    case (Left c a n s)
    have "f n (root_aug t) (root_aug s) \<le> a"
      using assms Cons Left by (auto intro: f_least order_trans)
    then show ?thesis using assms Cons Left by (auto simp: f_self f_left f_right intro: path_ge_mono)
  next
    case (Right c a n s)
    have "f n (root_aug s) (root_aug t) \<le> a"
      using assms Cons Right by (auto intro: f_least order_trans)
    then show ?thesis using assms Cons Right by (auto simp: f_self f_left f_right intro: path_ge_mono)
  qed
qed simp

text \<open>After \<open>pscnv_mm_augup\<close> nothing need be known of the summaries that were on the path.\<close>

lemma path_ge_aug_up:
  "list_all (aug_ge g) (path_siblings p) \<Longrightarrow> path_ge g (root_aug t) (aug_up f t p)"
proof (induction p arbitrary: t)
  case (Cons fr p)
  note IH = Cons.IH [of "plug1 (aug_frame f t fr) t"]
  from Cons.prems IH show ?case
    by (cases fr rule: frame_dir_cases) (auto simp: Let_def f_self f_left f_right)
qed simp

lemma bound_left: "g x \<le> a \<Longrightarrow> u \<le> Some a \<Longrightarrow> a' \<le> a \<Longrightarrow> v \<le> Some a' \<Longrightarrow> f x u v \<le> a"
  by (rule f_least) (auto intro: order_trans [of v "Some a'"])

lemma bound_right: "g x \<le> a \<Longrightarrow> u \<le> Some a' \<Longrightarrow> a' \<le> a \<Longrightarrow> v \<le> Some a \<Longrightarrow> f x u v \<le> a"
  by (rule f_least) (auto intro: order_trans [of u "Some a'"])

lemma aug_ge_rotate:
  assumes "aug_ge g t"
  shows "aug_ge g (rotate d f t) \<and> root_aug (rotate d f t) \<le> root_aug t"
proof -
  have "aug_ge g (rotate_left f t) \<and> root_aug (rotate_left f t) \<le> root_aug t"
  proof (cases "(f, t)" rule: rotate_left.cases)
    case (1 h c a l x c' a' m y r)
    then have t: "t = Node c a l x (Node c' a' m y r)" by simp
    with assms have "f x (root_aug l) (root_aug m) \<le> a" by (auto intro: bound_left)
    then have "f y (Some (f x (root_aug l) (root_aug m))) (root_aug r) \<le> a"
      using t assms by (intro f_least) (auto intro: order_trans)
    with t assms show ?thesis by (auto simp: f_self f_left f_right)
  qed (use assms in auto)
  moreover have "aug_ge g (rotate_right f t) \<and> root_aug (rotate_right f t) \<le> root_aug t"
  proof (cases "(f, t)" rule: rotate_right.cases)
    case (1 h c a c' a' l x m y r)
    then have t: "t = Node c a (Node c' a' l x m) y r" by simp
    with assms have "f y (root_aug m) (root_aug r) \<le> a" by (auto intro: bound_right)
    then have "f x (root_aug l) (Some (f y (root_aug m) (root_aug r))) \<le> a"
      using t assms by (intro f_least) (auto intro: order_trans)
    with t assms show ?thesis by (auto simp: f_self f_left f_right)
  qed (use assms in auto)
  ultimately show ?thesis by (auto simp: rotate_def split: dir.splits)
qed

lemma aug_ge_insert_color:
  "aug_ge g elm \<Longrightarrow> path_ge g (root_aug elm) p \<Longrightarrow> aug_ge g (insert_color f elm p)"
proof (induction h \<equiv> f elm p rule: insert_color.induct [case_names climbing root step last])
  case (climbing elm d1 ap p s d2 cg ag n uncle up)
  show ?case
  proof (cases "color_of uncle = Red")
    case True
    with climbing show ?thesis by simp
  next
    case False
    let ?parent = "plug1 (Frame d1 Red ap p s) elm"
    define parent where "parent = (if d1 \<noteq> d2 then rotate d2 f ?parent else ?parent)"
    have "aug_ge g ?parent" using climbing by simp
    then have "aug_ge g parent \<and> root_aug parent \<le> Some ap"
      using aug_ge_rotate [of ?parent d2] by (auto simp: parent_def)
    then have "aug_ge g (plug1 (Frame d2 Red ag n uncle) (paint Black parent))"
      using climbing.prems by (auto intro: order_trans)
    from aug_ge_rotate [OF this, of "opposite d2"]
    have "aug_ge g (rotate (opposite d2) f (plug1 (Frame d2 Red ag n uncle) (paint Black parent)))"
      "root_aug (rotate (opposite d2) f (plug1 (Frame d2 Red ag n uncle) (paint Black parent))) \<le> Some ag"
      by simp_all
    moreover from this(2) have "path_ge g (root_aug (rotate (opposite d2) f
        (plug1 (Frame d2 Red ag n uncle) (paint Black parent))))
      (aug_parent f (rotate (opposite d2) f (plug1 (Frame d2 Red ag n uncle) (paint Black parent))) up)"
      using climbing.prems by (auto intro: path_ge_aug_parent)
    ultimately show ?thesis using False by (simp add: Let_def parent_def [symmetric])
  qed
next
  case (last elm v)
  then show ?case by (cases v) simp
qed simp_all

lemma aug_ge_remove_black_sibling:
  assumes "aug_ge g (plug1 (Frame d c a n s) t)"
  shows "case remove_black_sibling f t d c a n s of
      Inl u \<Rightarrow> aug_ge g u \<and> root_aug u \<le> Some a
    | Inr u \<Rightarrow> aug_ge g u \<and> root_aug u \<le> Some a"
proof -
  define tmp where "tmp = (if color_of (child (opposite d) s) = Black
    then rotate (opposite d) f (paint Red (paint_child d Black s)) else s)"
  have "aug_ge g tmp \<and> root_aug tmp \<le> root_aug s"
    using assms aug_ge_rotate [of "paint Red (paint_child d Black s)" "opposite d"]
    by (auto simp: tmp_def)
  then have "aug_ge g (plug1 (Frame d Black a n (paint_child (opposite d) Black (paint c tmp))) t)"
    using assms by (auto intro: order_trans)
  from aug_ge_rotate [OF this, of d] assms show ?thesis
    by (auto simp: remove_black_sibling_def Let_def tmp_def [symmetric])
qed

lemma aug_ge_settle:
  assumes "aug_ge g u" "root_aug u \<le> b" "path_ge g b up"
  shows "aug_ge g (paint Black (plug u (aug_parent f u up)))"
  using assms path_ge_aug_parent by simp

lemma aug_ge_remove_color:
  "aug_ge g t \<Longrightarrow> path_ge g (root_aug t) p \<Longrightarrow> aug_ge g (remove_color f t p)"
proof (induction h \<equiv> f t p rule: remove_color.induct)
  case (2 t d c a n s up)
  have here: "aug_ge g (plug1 (Frame d c a n s) t)" "path_ge g (Some a) up"
    using "2.prems" by auto
  show ?case
  proof (cases "color_of t = Red")
    case True
    then show ?thesis using "2.prems" by simp
  next
    case False
    show ?thesis
    proof (cases "\<exists>as sl x sr. s = Node Red as sl x sr")
      case True
      then obtain as sl x sr where s: "s = Node Red as sl x sr" by blast
      define inner outer where "inner = (case d of Left \<Rightarrow> sl | Right \<Rightarrow> sr)"
        and "outer = (case d of Left \<Rightarrow> sr | Right \<Rightarrow> sl)"
      define low where "low = augment f (plug1 (Frame d Red a n inner) t)"
      define top where "top = augment f (plug1 (Frame d Black as x outer) low)"
      obtain a' where a': "root_aug low = Some a'" by (cases d) (auto simp: low_def)
      obtain a'' where a'': "root_aug top = Some a''" by (cases d) (auto simp: top_def)
      have rot: "top = augment f (plug1 (Frame d Black as x outer) low)" by (simp add: top_def)
      have ge: "aug_ge g inner" "aug_ge g outer" "root_aug inner \<le> Some as"
        "root_aug outer \<le> Some as" "g x \<le> as" "as \<le> a" "g n \<le> a" "aug_ge g t" "root_aug t \<le> Some a"
        using here s by (auto simp: inner_def outer_def split: dir.splits)
      have low: "aug_ge g low \<and> a' \<le> a"
        using ge a' by (cases d) (auto simp: low_def f_self f_left f_right intro: bound_left bound_right)
      have "g x \<le> a" "root_aug outer \<le> Some a" using ge by (auto intro: order_trans)
      then have top: "aug_ge g top \<and> a'' \<le> a"
        using ge low a' a'' by (cases d) (auto simp: top_def f_self f_left f_right f_children intro!: f_least)
      have up: "path_ge g (Some a'') (aug_parent f top up)"
        using path_ge_aug_parent [of "Some a" up top] here(2) top a'' by simp
      from top have top_ge: "aug_ge g top" by simp
      have fr: "path_ge g (Some a') (Frame d Black a'' x outer # aug_parent f top up)"
        using top_ge up a' a'' by (cases d) (auto simp: top_def)
      have sub: "aug_ge g (plug1 (Frame d Red a' n inner) t)"
        using low a' by (cases d) (auto simp: low_def)
      have eq: "remove_color f t (Frame d c a n s # up) =
          (case remove_black_sibling f t d Red a' n inner of
             Inl parent \<Rightarrow> plug (paint Black parent) (Frame d Black a'' x outer # aug_parent f top up)
           | Inr sub \<Rightarrow> paint Black (plug sub (aug_parent f sub
               (Frame d Black a'' x outer # aug_parent f top up))))"
        using False s a' a'' unfolding top_def low_def inner_def outer_def
        by (cases d) (simp_all add: Let_def del: plug.simps aug_parent.simps augment.simps
            plug1.simps paint.simps cong: sum.case_cong)
      note sib = aug_ge_remove_black_sibling [OF sub]
      show ?thesis unfolding eq
        using sib aug_ge_settle [OF _ _ fr] path_ge_mono [OF fr]
        by (auto simp del: plug.simps path_ge.simps aug_parent.simps split: sum.splits)
    next
      case black: False
      have eq: "remove_color f t (Frame d c a n s # up) =
          (case remove_black_sibling f t d c a n s of
             Inl parent \<Rightarrow> remove_color f parent up
           | Inr sub \<Rightarrow> paint Black (plug sub (aug_parent f sub up)))"
        using False black by (auto split: rbt.splits color.splits)
      note sib = aug_ge_remove_black_sibling [OF here(1)]
      show ?thesis
      proof (cases "remove_black_sibling f t d c a n s")
        case (Inl u)
        with sib have "aug_ge g u" "path_ge g (root_aug u) up"
          using path_ge_mono [OF here(2)] by auto
        with "2.hyps" False black Inl show ?thesis unfolding eq
          by (cases s; cases "color_of s") auto
      next
        case (Inr u)
        with sib aug_ge_settle [OF _ _ here(2)] show ?thesis unfolding eq by auto
      qed
    qed
  qed
qed simp_all

theorem aug_ge_rb_insert:
  assumes "aug_ge g t" "g e \<le> a0" "\<And>b. a0 \<le> b"
  shows "aug_ge g (rb_insert f cmp a0 e t)"
proof -
  have plug_q: "plug Leaf q = plug t p" if "descend cmp e t p = Some q" for t p q
    using that
  proof (induction t arbitrary: p)
    case (Node c a l n r)
    then show ?case by (auto simp: Let_def split: if_splits)
  qed simp
  have bot: "path_ge g None q \<Longrightarrow> path_ge g (Some a0) q" for q
    by (cases "(g, None :: 'a option, q)" rule: path_ge.cases) (auto simp: assms(3))
  show ?thesis
  proof (cases "descend cmp e t []")
    case (Some q)
    with plug_q have "plug Leaf q = t" by fastforce
    with assms(1) have "path_ge g None q" by (metis aug_ge_plug root_aug.simps(1))
    then have "path_ge g (Some a0) (aug_parent f (Node Red a0 Leaf e Leaf) q)"
      using path_ge_aug_parent [of "Some a0" q "Node Red a0 Leaf e Leaf"] bot by simp
    with Some assms(2) show ?thesis unfolding rb_insert_def
      by (simp add: Let_def aug_ge_insert_color)
  qed (simp add: rb_insert_def assms)
qed

theorem aug_ge_rb_remove_at:
  assumes "aug_ge g (plug (Node c a l n r) p)"
  shows "aug_ge g (rb_remove_at f (Node c a l n r, p))"
proof -
  from assms have nd: "aug_ge g l" "aug_ge g r" "root_aug l \<le> Some a" "root_aug r \<le> Some a"
    "path_ge g (Some a) p" by auto
  have go: "aug_ge g (if c = Black then remove_color f u p' else plug u p')"
    if "aug_ge g u" "path_ge g (root_aug u) p'" for u p' c
    using that aug_ge_remove_color by simp
  show ?thesis
  proof (cases "l = Leaf \<or> r = Leaf")
    case True
    then show ?thesis using go nd path_ge_aug_parent [OF nd(5)] by (auto simp: Let_def)
  next
    case False
    then obtain c2 a2 n2 r2 q where q: "leftmost r [] = (Node c2 a2 Leaf n2 r2, q)"
      "plug (Node c2 a2 Leaf n2 r2) q = r"
      using leftmost_props [of r "[]"] by auto
    have sib: "path_siblings (q @ q') = path_siblings q @ path_siblings q'" for q q' :: "('n, 'a) path"
      by (induction q rule: path_siblings.induct) auto
    from q(2) nd(2) have "aug_ge g r2" "list_all (aug_ge g) (path_siblings q)"
      using path_ge_siblings by fastforce+
    then have "list_all (aug_ge g) (path_siblings (q @ Frame Right c a2 n2 l # p))"
      using nd path_ge_siblings by (auto simp: sib)
    with \<open>aug_ge g r2\<close> go False q(1) path_ge_aug_up show ?thesis by (simp add: Let_def)
  qed
qed

end

end
