(* ===== verification/Mm.thy ===== *)
theory Mm
  imports RbtreeProps "HOL-Library.Product_Lexorder"
begin

section \<open>The range allocator of \<open>pscnv/pscnv_mm.c\<close>\<close>

text \<open>
  The memory manager hands out ranges of VRAM and of virtual address spaces. Its nodes partition
  the managed range; they sit in the red-black tree ordered by address, between two sentinels,
  and each tree node's summary is \<open>maxgap[4]\<close>. A node is its struct; its address is the field
  \<open>nid\<close>, and pointers to nodes are such addresses. The four gap types (\<open>flags & TMASK\<close>) are the
  two-bit words.

  Every operation returns an option: None stands for a dereference of NULL or of a freed node, for
  a \<open>BUG_ON\<close> that fires, and for a loop that does not end. \<open>kz n\<close> says whether the
  \<open>n\<close>-th call of \<open>kzalloc\<close> succeeds; \<open>kzcount\<close> counts the calls and gives the address
  of the node they return.
\<close>

datatype mm_type = USED0 | USED1 | FREE

fun type_code :: "mm_type \<Rightarrow> nat" where
  "type_code USED0 = 0"
| "type_code USED1 = 1"
| "type_code FREE = 2"

type_synonym gtype = "2 word"

type_synonym gaps = "gtype \<Rightarrow> u64"

record mm_node =
  nid :: nat
  gap :: gaps
  sentinel :: int
  mtype :: mm_type
  nstart :: u64
  nsize :: u64
  nnext :: "nat option"
  nprev :: "nat option"
  tag :: "nat option"
  tag2 :: "nat option"

type_synonym mm_tree = "(mm_node, gaps) rbt"

record mm =
  head :: mm_tree
  spsize :: u32
  lpsize :: u32
  tssize :: u32
  kzcount :: nat

text \<open>A struct fresh from \<open>kzalloc\<close>.\<close>

definition kz_node :: "nat \<Rightarrow> mm_node" where
  "kz_node i = \<lparr>nid = i, gap = (\<lambda>_. 0), sentinel = 0, mtype = USED0, nstart = 0, nsize = 0,
     nnext = None, nprev = None, tag = None, tag2 = None\<rparr>"

abbreviation (input) PSCNV_MM_T1 :: u32 where "PSCNV_MM_T1 \<equiv> 1"
abbreviation (input) PSCNV_MM_LP :: u32 where "PSCNV_MM_LP \<equiv> 2"
abbreviation (input) PSCNV_MM_FRAGOK :: u32 where "PSCNV_MM_FRAGOK \<equiv> 4"
abbreviation (input) PSCNV_MM_FROMBACK :: u32 where "PSCNV_MM_FROMBACK \<equiv> 8"

subsection \<open>Rounding, augmentation, order\<close>

definition pscnv_roundup :: "u64 \<Rightarrow> u32 \<Rightarrow> u64" where
  "pscnv_roundup x y = (x + ucast y - 1) div ucast y * ucast y"

definition pscnv_rounddown :: "u64 \<Rightarrow> u32 \<Rightarrow> u64" where
  "pscnv_rounddown x y = x div ucast y * ucast y"

definition mm_augment :: "(mm_node, gaps) augment" where
  "mm_augment node left right = (\<lambda>i.
     let m = gap node i;
         m = (case left of Some l \<Rightarrow> if l i > m then l i else m | None \<Rightarrow> m);
         m = (case right of Some r \<Rightarrow> if r i > m then r i else m | None \<Rightarrow> m)
     in m)"

definition nodecmp :: "mm_node \<Rightarrow> mm_node \<Rightarrow> int" where
  "nodecmp a b =
     (if sentinel a < sentinel b then -1
      else if sentinel a > sentinel b then 1
      else if nstart a < nstart b then -1
      else if nstart a > nstart b then 1
      else 0)"

subsection \<open>Access through node pointers\<close>

definition mm_pointer :: "mm \<Rightarrow> nat \<Rightarrow> (mm_tree \<times> (mm_node, gaps) path) option" where
  "mm_pointer m i = focus (\<lambda>n. nid n = i) (head m) []"

definition mm_lookup :: "mm \<Rightarrow> nat \<Rightarrow> mm_node option" where
  "mm_lookup m i = Option.bind (mm_pointer m i) (\<lambda>z. node_of (fst z))"

definition mm_prev :: "mm \<Rightarrow> nat \<Rightarrow> mm_node option" where
  "mm_prev m i = Option.bind (mm_pointer m i) rb_prev_at"

definition mm_next :: "mm \<Rightarrow> nat \<Rightarrow> mm_node option" where
  "mm_next m i = Option.bind (mm_pointer m i) rb_next_at"

text \<open>Assignment to fields of a node in the tree.\<close>

definition mm_update :: "nat \<Rightarrow> (mm_node \<Rightarrow> mm_node) \<Rightarrow> mm \<Rightarrow> mm" where
  "mm_update i h m = m\<lparr>head := map_rbt (\<lambda>n. if nid n = i then h n else n) id (head m)\<rparr>"

definition mm_remove :: "mm \<Rightarrow> nat \<Rightarrow> mm option" where
  "mm_remove m i =
     map_option (\<lambda>z. m\<lparr>head := rb_remove_at mm_augment z\<rparr>) (mm_pointer m i)"

definition mm_insert :: "mm_node \<Rightarrow> mm \<Rightarrow> mm" where
  "mm_insert e m = m\<lparr>head := rb_insert mm_augment nodecmp (\<lambda>_. 0) e (head m)\<rparr>"

subsection \<open>Free space in a node\<close>

text \<open>The part of a node that an allocation of the given type may use, between the neighbours
  \<open>prev\<close> and \<open>next\<close>: away from a neighbour of the other type it starts at a tiling boundary.\<close>

definition getfree_between :: "mm \<Rightarrow> mm_node \<Rightarrow> mm_node \<Rightarrow> mm_node \<Rightarrow> gtype \<Rightarrow> u64 \<times> u64" where
  "getfree_between m prev node next' type =
     (let s = nstart node;
          e = nstart node + nsize node;
          s = (if type_code (mtype prev) \<noteq> unat (type AND 1) then pscnv_roundup s (tssize m) else s);
          e = (if type_code (mtype next') \<noteq> unat (type AND 1) then pscnv_rounddown e (tssize m) else e);
          psize = (if type AND 2 \<noteq> 0 then lpsize m else spsize m);
          s = pscnv_roundup s psize;
          e = pscnv_rounddown e psize;
          e = (if e < s then s else e)
      in (s, e))"

definition pscnv_mm_getfree :: "mm \<Rightarrow> mm_node \<Rightarrow> gtype \<Rightarrow> (u64 \<times> u64) option" where
  "pscnv_mm_getfree m node type =
     (case mm_prev m (nid node) of
        None \<Rightarrow> None
      | Some prev \<Rightarrow>
          (case mm_next m (nid node) of
             None \<Rightarrow> None
           | Some next' \<Rightarrow> Some (getfree_between m prev node next' type)))"

definition pscnv_mm_augup :: "mm \<Rightarrow> nat \<Rightarrow> mm option" where
  "pscnv_mm_augup m i =
     map_option (\<lambda>(t, p).
       let t' = augment mm_augment t in m\<lparr>head := plug t' (aug_up mm_augment t' p)\<rparr>)
     (mm_pointer m i)"

subsection \<open>Freeing\<close>

text \<open>The loop that fills in \<open>gap[i]\<close>.\<close>

definition mm_set_gaps :: "mm \<Rightarrow> nat \<Rightarrow> mm option" where
  "mm_set_gaps m i =
     Option.bind (mm_lookup m i) (\<lambda>node.
     Option.bind (mm_prev m i) (\<lambda>prev.
     Option.bind (mm_next m i) (\<lambda>next'.
       Some (mm_update i (\<lambda>n. n\<lparr>gap := (\<lambda>t.
         let (s, e) = getfree_between m prev node next' t in e - s)\<rparr>) m))))"

definition mm_merge_left :: "mm_node \<Rightarrow> nat \<Rightarrow> mm \<Rightarrow> mm option" where
  "mm_merge_left prev i m =
     (if mtype prev = FREE then
        Option.bind (mm_lookup m i) (\<lambda>node.
          if nstart prev + nsize prev \<noteq> nstart node then None
          else mm_remove (mm_update i (\<lambda>n. n\<lparr>nstart := nstart prev, nsize := nsize n + nsize prev\<rparr>) m)
                 (nid prev))
      else Some m)"

definition mm_merge_right :: "mm_node \<Rightarrow> nat \<Rightarrow> mm \<Rightarrow> mm option" where
  "mm_merge_right next' i m =
     (if mtype next' = FREE then
        Option.bind (mm_lookup m i) (\<lambda>node.
          if nstart node + nsize node \<noteq> nstart next' then None
          else mm_remove (mm_update i (\<lambda>n. n\<lparr>nsize := nsize n + nsize next'\<rparr>) m) (nid next'))
      else Some m)"

definition pscnv_mm_free_node :: "mm \<Rightarrow> nat \<Rightarrow> mm option" where
  "pscnv_mm_free_node m i =
     Option.bind (mm_prev m i) (\<lambda>prev.
     Option.bind (mm_next m i) (\<lambda>next'.
     let m1 = mm_update i (\<lambda>n. n\<lparr>mtype := FREE\<rparr>) m in
     Option.bind (mm_merge_left prev i m1) (\<lambda>m2.
     Option.bind (mm_merge_right next' i m2) (\<lambda>m3.
     Option.bind (mm_set_gaps m3 i) (\<lambda>m4.
       pscnv_mm_augup m4 i)))))"

text \<open>\<open>pscnv_mm_free\<close>: back to the first node of the chain, then free them one by one.\<close>

partial_function (option) mm_chain_first :: "mm \<Rightarrow> nat \<Rightarrow> nat option" where
  "mm_chain_first m i =
     (case mm_lookup m i of
        None \<Rightarrow> None
      | Some node \<Rightarrow> (case nprev node of None \<Rightarrow> Some i | Some j \<Rightarrow> mm_chain_first m j))"

partial_function (option) mm_free_chain :: "mm \<Rightarrow> nat option \<Rightarrow> mm option" where
  "mm_free_chain m io =
     (case io of
        None \<Rightarrow> Some m
      | Some i \<Rightarrow>
          (case mm_lookup m i of
             None \<Rightarrow> None
           | Some node \<Rightarrow>
               (case pscnv_mm_free_node m i of
                  None \<Rightarrow> None
                | Some m' \<Rightarrow> mm_free_chain m' (nnext node))))"

definition pscnv_mm_free :: "mm \<Rightarrow> nat \<Rightarrow> mm option" where
  "pscnv_mm_free m i = Option.bind (mm_chain_first m i) (\<lambda>j. mm_free_chain m (Some j))"

subsection \<open>Initialisation\<close>

definition pscnv_mm_init ::
  "(nat \<Rightarrow> bool) \<Rightarrow> u64 \<Rightarrow> u64 \<Rightarrow> u32 \<Rightarrow> u32 \<Rightarrow> u32 \<Rightarrow> mm res option" where
  "pscnv_mm_init kz start end' sp lp ts =
     (if \<not> kz 0 then Some (Inl ENOMEM)
      else if \<not> kz 1 then Some (Inl ENOMEM)
      else if \<not> kz 2 then Some (Inl ENOMEM)
      else if \<not> kz 3 then Some (Inl ENOMEM)
      else
        (let ss = (kz_node 1)\<lparr>mtype := USED0, sentinel := -1, nstart := start\<rparr>;
             se = (kz_node 2)\<lparr>mtype := USED0, sentinel := 1, nstart := end'\<rparr>;
             node = (kz_node 3)\<lparr>nstart := start, nsize := end' - start\<rparr>;
             m = \<lparr>head = Leaf, spsize = sp, lpsize = lp, tssize = ts, kzcount = 4\<rparr>;
             m = mm_insert se (mm_insert node (mm_insert ss m))
         in map_option Inr (pscnv_mm_free_node m 3)))"

subsection \<open>Allocation\<close>

text \<open>The usable window of a node after clipping it to the caller's range.\<close>

definition mm_window :: "mm \<Rightarrow> mm_node \<Rightarrow> u32 \<Rightarrow> u64 \<Rightarrow> u64 \<Rightarrow> (u64 \<times> u64) option" where
  "mm_window m node flags start end' =
     map_option (\<lambda>(s, e).
       let s = (if start > s then start else s);
           e = (if end' < e then end' else e);
           e = (if e < s then s else e)
       in (s, e))
     (pscnv_mm_getfree m node (ucast flags))"

definition mm_minsz :: "u64 \<Rightarrow> u32 \<Rightarrow> u64" where
  "mm_minsz sz flags = (if flags AND PSCNV_MM_FRAGOK \<noteq> 0 then 1 else sz)"

text \<open>What part of the window is taken: all of it, or \<open>size\<close> bytes at its front or its back.\<close>

definition mm_cut :: "u64 \<Rightarrow> u32 \<Rightarrow> u64 \<times> u64 \<Rightarrow> u64 \<times> u64" where
  "mm_cut sz flags w =
     (case w of (s, e) \<Rightarrow>
        if e - s > sz then
          if flags AND PSCNV_MM_FROMBACK \<noteq> 0 then (e - sz, e) else (s, s + sz)
        else (s, e))"

text \<open>The node chosen, the range taken in it, and the structs allocated for what is left of it on
  either side.\<close>

record mm_place =
  pnode :: nat
  pstart :: u64
  pend :: u64
  plsp :: "nat option"
  prsp :: "nat option"

text \<open>One node: the two calls of \<open>kzalloc\<close> for the remainders, counted from \<open>k\<close>.\<close>

definition mm_try_node ::
  "(nat \<Rightarrow> bool) \<Rightarrow> mm_node \<Rightarrow> u64 \<times> u64 \<Rightarrow> nat \<Rightarrow> mm_place res \<times> nat" where
  "mm_try_node kz node w k =
     (case w of (s, e) \<Rightarrow>
        let need_l = (s \<noteq> nstart node);
            need_r = (e \<noteq> nstart node + nsize node)
        in
        if need_l \<and> \<not> kz k then (Inl ENOMEM, Suc k)
        else
          let k' = (if need_l then Suc k else k) in
          if need_r \<and> \<not> kz k' then (Inl ENOMEM, Suc k')
          else (Inr \<lparr>pnode = nid node, pstart = s, pend = e,
                     plsp = (if need_l then Some k else None),
                     prsp = (if need_r then Some k' else None)\<rparr>,
                if need_r then Suc k' else k'))"

text \<open>
  The recursion of \<open>pscnv_mm_alloc_single\<close> up to the choice of a node: subtrees are entered only
  when their \<open>maxgap\<close> and their address range can hold a fit, the left one first, or the right
  one first with \<open>PSCNV_MM_FROMBACK\<close>. No node is changed before the choice is made.
\<close>

fun mm_search ::
  "(nat \<Rightarrow> bool) \<Rightarrow> mm \<Rightarrow> u64 \<Rightarrow> u32 \<Rightarrow> u64 \<Rightarrow> u64 \<Rightarrow> mm_tree \<Rightarrow> nat
    \<Rightarrow> (mm_place res \<times> nat) option" where
  "mm_search kz m sz flags start end' Leaf k = None"
| "mm_search kz m sz flags start end' (Node c a left node right) k =
     (let minsz = mm_minsz sz flags;
          ty = (ucast flags :: gtype);
          lok = (case root_aug left of None \<Rightarrow> False | Some g \<Rightarrow> g ty \<ge> minsz \<and> nstart node > start);
          rok = (case root_aug right of None \<Rightarrow> False
                 | Some g \<Rightarrow> g ty \<ge> minsz \<and> nstart node + nsize node < end');
          back = (flags AND PSCNV_MM_FROMBACK \<noteq> 0);
          first = (if \<not> back \<and> lok then mm_search kz m sz flags start end' left k
                   else if back \<and> rok then mm_search kz m sz flags start end' right k
                   else Some (Inl ENOMEM, k))
      in
      case first of
        None \<Rightarrow> None
      | Some (Inr pl, k1) \<Rightarrow> Some (Inr pl, k1)
      | Some (Inl err, k1) \<Rightarrow>
          (let second = (if back \<and> lok then mm_search kz m sz flags start end' left k1
                         else if \<not> back \<and> rok then mm_search kz m sz flags start end' right k1
                         else Some (Inl ENOMEM, k1))
           in
           if mtype node = FREE then
             (case mm_window m node flags start end' of
                None \<Rightarrow> None
              | Some (s, e) \<Rightarrow>
                  if e - s \<ge> minsz then Some (mm_try_node kz node (mm_cut sz flags (s, e)) k1)
                  else second)
           else second))"

text \<open>The changes made once the node is chosen.\<close>

definition mm_split_left :: "nat \<Rightarrow> nat option \<Rightarrow> u64 \<Rightarrow> mm \<Rightarrow> mm option" where
  "mm_split_left i lsp s m =
     (case lsp of
        None \<Rightarrow> Some m
      | Some l \<Rightarrow>
          Option.bind (mm_lookup m i) (\<lambda>node.
          let lnode = (kz_node l)\<lparr>nstart := nstart node, nsize := s - nstart node\<rparr>;
              m1 = mm_update i (\<lambda>n. n\<lparr>nsize := nsize n - nsize lnode, nstart := s\<rparr>) m
          in pscnv_mm_free_node (mm_insert lnode m1) l))"

definition mm_split_right :: "nat \<Rightarrow> nat option \<Rightarrow> u64 \<Rightarrow> mm \<Rightarrow> mm option" where
  "mm_split_right i rsp e m =
     (case rsp of
        None \<Rightarrow> Some m
      | Some r \<Rightarrow>
          Option.bind (mm_lookup m i) (\<lambda>node.
          let rnode = (kz_node r)\<lparr>nstart := e, nsize := nstart node + nsize node - e\<rparr>;
              m1 = mm_update i (\<lambda>n. n\<lparr>nsize := nsize n - nsize rnode\<rparr>) m
          in pscnv_mm_free_node (mm_insert rnode m1) r))"

definition used_type :: "u32 \<Rightarrow> mm_type" where
  "used_type flags = (if flags AND 1 = 0 then USED0 else USED1)"

definition mm_commit :: "u32 \<Rightarrow> mm_place \<Rightarrow> mm \<Rightarrow> mm option" where
  "mm_commit flags pl m =
     (let i = pnode pl;
          m1 = mm_update i (\<lambda>n. n\<lparr>mtype := used_type flags, gap := (\<lambda>_. 0)\<rparr>) m
      in
      Option.bind (pscnv_mm_augup m1 i) (\<lambda>m2.
      Option.bind (mm_split_left i (plsp pl) (pstart pl) m2) (\<lambda>m3.
        mm_split_right i (prsp pl) (pend pl) m3)))"

definition pscnv_mm_alloc_single ::
  "(nat \<Rightarrow> bool) \<Rightarrow> mm \<Rightarrow> u64 \<Rightarrow> u32 \<Rightarrow> u64 \<Rightarrow> u64 \<Rightarrow> (nat res \<times> mm) option" where
  "pscnv_mm_alloc_single kz m sz flags start end' =
     (case mm_search kz m sz flags start end' (head m) (kzcount m) of
        None \<Rightarrow> None
      | Some (Inl err, k) \<Rightarrow> Some (Inl err, m\<lparr>kzcount := k\<rparr>)
      | Some (Inr pl, k) \<Rightarrow>
          map_option (\<lambda>m'. (Inr (pnode pl), m')) (mm_commit flags pl (m\<lparr>kzcount := k\<rparr>)))"

text \<open>Giving back the fragments got so far, from the last to the first.\<close>

partial_function (option) mm_unwind :: "mm \<Rightarrow> nat option \<Rightarrow> mm option" where
  "mm_unwind m last' =
     (case last' of
        None \<Rightarrow> Some m
      | Some i \<Rightarrow>
          (case mm_lookup m i of
             None \<Rightarrow> None
           | Some node \<Rightarrow>
               (case pscnv_mm_free_node m i of
                  None \<Rightarrow> None
                | Some m' \<Rightarrow> mm_unwind m' (nprev node))))"

text \<open>The \<open>while (size)\<close> loop; \<open>res\<close> is the out-parameter, unset before the first node.\<close>

partial_function (option) mm_alloc_loop ::
  "(nat \<Rightarrow> bool) \<Rightarrow> mm \<Rightarrow> u64 \<Rightarrow> u32 \<Rightarrow> u64 \<Rightarrow> u64 \<Rightarrow> nat option \<Rightarrow> nat option
    \<Rightarrow> (nat option res \<times> mm) option" where
  "mm_alloc_loop kz m sz flags start end' last' res =
     (if sz = 0 then
        (case last' of
           None \<Rightarrow> Some (Inr res, m)
         | Some l \<Rightarrow> Some (Inr res, mm_update l (\<lambda>n. n\<lparr>nnext := None\<rparr>) m))
      else
        (case pscnv_mm_alloc_single kz m sz flags start end' of
           None \<Rightarrow> None
         | Some (Inl err, m1) \<Rightarrow> map_option (\<lambda>m2. (Inl err, m2)) (mm_unwind m1 last')
         | Some (Inr cur, m1) \<Rightarrow>
             (case mm_lookup m1 cur of
                None \<Rightarrow> None
              | Some node \<Rightarrow>
                  (case last' of
                     Some l \<Rightarrow>
                       mm_alloc_loop kz
                         (mm_update cur (\<lambda>n. n\<lparr>nprev := Some l\<rparr>)
                           (mm_update l (\<lambda>n. n\<lparr>nnext := Some cur\<rparr>) m1))
                         (sz - nsize node) flags start end' (Some cur) res
                   | None \<Rightarrow>
                       mm_alloc_loop kz (mm_update cur (\<lambda>n. n\<lparr>nprev := None\<rparr>) m1)
                         (sz - nsize node) flags start end' (Some cur) (Some cur)))))"

definition mm_psize :: "mm \<Rightarrow> u32 \<Rightarrow> u32" where
  "mm_psize m flags = (if flags AND PSCNV_MM_LP \<noteq> 0 then lpsize m else spsize m)"

definition pscnv_mm_alloc ::
  "(nat \<Rightarrow> bool) \<Rightarrow> mm \<Rightarrow> u64 \<Rightarrow> u32 \<Rightarrow> u64 \<Rightarrow> u64 \<Rightarrow> (nat option res \<times> mm) option" where
  "pscnv_mm_alloc kz m sz flags start end' =
     (let psize = mm_psize m flags;
          sz = pscnv_roundup sz psize;
          start = pscnv_roundup start psize;
          end' = pscnv_rounddown end' psize
      in if sz > push_bit 60 1 then Some (Inl EINVAL, m)
         else mm_alloc_loop kz m sz flags start end' None None)"

subsection \<open>Lookup by address, takedown\<close>

fun mm_find_addr :: "u64 \<Rightarrow> mm_tree \<Rightarrow> mm_node option" where
  "mm_find_addr addr Leaf = None"
| "mm_find_addr addr (Node c a left node right) =
     (if addr < nstart node then mm_find_addr addr left
      else if addr \<ge> nstart node + nsize node then mm_find_addr addr right
      else Some node)"

definition pscnv_mm_find_node :: "mm \<Rightarrow> u64 \<Rightarrow> nat option" where
  "pscnv_mm_find_node m addr = map_option nid (mm_find_addr addr (head m))"

text \<open>
  \<open>pscnv_mm_takedown\<close>: the first node after the leading sentinel that is not free is given to the
  callback, from the head of its chain, until only the sentinels and free nodes are left; then the
  nodes are removed from the tree and freed. The callback may change other state of the driver too.
\<close>

partial_function (option) mm_skip_free :: "mm \<Rightarrow> mm_node \<Rightarrow> mm_node option" where
  "mm_skip_free m cur =
     (if mtype cur = FREE then
        (case mm_next m (nid cur) of None \<Rightarrow> None | Some n \<Rightarrow> mm_skip_free m n)
      else Some cur)"

partial_function (option) mm_takedown_used ::
  "(mm \<Rightarrow> nat \<Rightarrow> 'x \<Rightarrow> (mm \<times> 'x) option) \<Rightarrow> mm \<Rightarrow> 'x \<Rightarrow> (mm \<times> 'x) option" where
  "mm_takedown_used free_callback m x =
     (case rb_min (head m) of
        None \<Rightarrow> None
      | Some ss \<Rightarrow>
          (case mm_next m (nid ss) of
             None \<Rightarrow> None
           | Some n \<Rightarrow>
               (case mm_skip_free m n of
                  None \<Rightarrow> None
                | Some cur \<Rightarrow>
                    if sentinel cur = 0 then
                      (case mm_chain_first m (nid cur) of
                         None \<Rightarrow> None
                       | Some i \<Rightarrow>
                           (case free_callback m i x of
                              None \<Rightarrow> None
                            | Some (m', x') \<Rightarrow> mm_takedown_used free_callback m' x'))
                    else Some (m, x))))"

partial_function (option) mm_remove_all :: "mm_tree \<Rightarrow> mm_tree option" where
  "mm_remove_all t =
     (if t = Leaf then Some Leaf else mm_remove_all (rb_remove_at mm_augment (t, [])))"

definition pscnv_mm_takedown ::
  "(mm \<Rightarrow> nat \<Rightarrow> 'x \<Rightarrow> (mm \<times> 'x) option) \<Rightarrow> mm \<Rightarrow> 'x \<Rightarrow> (mm \<times> 'x) option" where
  "pscnv_mm_takedown free_callback m x =
     Option.bind (mm_takedown_used free_callback m x) (\<lambda>(m', x').
       map_option (\<lambda>t. (m'\<lparr>head := t\<rparr>, x')) (mm_remove_all (head m')))"

text \<open>\<open>pscnv_mm_free\<close> itself as a callback.\<close>

definition mm_free_callback :: "mm \<Rightarrow> nat \<Rightarrow> 'x \<Rightarrow> (mm \<times> 'x) option" where
  "mm_free_callback m i x = map_option (\<lambda>m'. (m', x)) (pscnv_mm_free m i)"

declare mm_chain_first.simps [code] mm_free_chain.simps [code] mm_unwind.simps [code]
  mm_alloc_loop.simps [code] mm_skip_free.simps [code] mm_takedown_used.simps [code]
  mm_remove_all.simps [code]

end
