(* ===== verification/MmNodes.thy ===== *)
theory MmNodes
  imports Mm
begin

section \<open>The nodes of the memory manager as a sequence\<close>

text \<open>
  The manager's tree is used through its in-order sequence \<open>nodes m\<close>, the nodes by address. The
  lemmas say how each access through a node pointer and each change of the tree acts on that
  sequence, and that the tree stays a red-black tree whose summaries bound the gaps below them.
\<close>

interpretation node_order: keyed nodecmp "\<lambda>n. (sentinel n, nstart n)"
  by unfold_locales (auto simp: nodecmp_def)

interpretation gaps: augmented mm_augment gap
  by unfold_locales
    (auto simp: mm_augment_def Let_def le_fun_def less_eq_option_def not_less
      split: option.splits if_splits intro: order_trans less_imp_le)

subsection \<open>Node pointers and the in-order sequence\<close>

definition nodes :: "mm \<Rightarrow> mm_node list" where
  "nodes m = inorder (head m)"

definition distinct_ids :: "mm_node list \<Rightarrow> bool" where
  "distinct_ids ns \<longleftrightarrow> distinct (map nid ns)"

lemma takeWhile_other_id:
  "i \<notin> nid ` set xs \<Longrightarrow> nid n = i \<Longrightarrow> takeWhile (\<lambda>x. nid x \<noteq> i) (xs @ n # ys) = xs"
  by (induction xs) auto

lemma distinct_ids_split:
  assumes "distinct_ids ns" "ns = xs @ n # ys" "ns = xs' @ n' # ys'" "nid n = nid n'"
  shows "xs = xs' \<and> n = n' \<and> ys = ys'"
proof -
  from assms(1,2) have "distinct (map nid (xs @ n # ys))" by (simp add: distinct_ids_def)
  moreover from assms(1,3) have "distinct (map nid (xs' @ n' # ys'))" by (simp add: distinct_ids_def)
  ultimately have *: "nid n \<notin> nid ` set xs" "nid n' \<notin> nid ` set xs'" by auto
  have "xs = xs'"
    using takeWhile_other_id [OF *(1) refl, of ys] takeWhile_other_id [OF *(2) refl, of ys']
      assms(2,3,4) by simp
  with assms(2,3) show ?thesis by simp
qed

lemma mm_pointer_split:
  assumes "distinct_ids (nodes m)" "nodes m = xs @ n # ys"
  obtains c a l r p where "mm_pointer m (nid n) = Some (Node c a l n r, p)"
    "before p @ inorder l = xs" "inorder r @ after p = ys" "plug (Node c a l n r) p = head m"
proof -
  have "n \<in> set (inorder (head m))" using assms(2) by (simp add: nodes_def)
  then obtain c a l k r p where f: "mm_pointer m (nid n) = Some (Node c a l k r, p)" "nid k = nid n"
    "plug (Node c a l k r) p = head m"
    unfolding mm_pointer_def by (rule focus_exists [of n "head m" "\<lambda>x. nid x = nid n"]) simp_all
  then have "nodes m = (before p @ inorder l) @ k # (inorder r @ after p)"
    unfolding nodes_def by (metis inorder_plug inorder.simps(2) append.assoc append_Cons)
  with distinct_ids_split [OF assms(1) this assms(2)] f that show ?thesis by auto
qed

lemma mm_access:
  assumes "distinct_ids (nodes m)" "nodes m = xs @ n # ys"
  shows "mm_lookup m (nid n) = Some n"
    "mm_prev m (nid n) = (if xs = [] then None else Some (last xs))"
    "mm_next m (nid n) = (case ys of [] \<Rightarrow> None | y # _ \<Rightarrow> Some y)"
proof -
  from assms obtain c a l r p where f: "mm_pointer m (nid n) = Some (Node c a l n r, p)"
    "before p @ inorder l = xs" "inorder r @ after p = ys"
    by (rule mm_pointer_split)
  then show "mm_lookup m (nid n) = Some n"
    "mm_prev m (nid n) = (if xs = [] then None else Some (last xs))"
    "mm_next m (nid n) = (case ys of [] \<Rightarrow> None | y # _ \<Rightarrow> Some y)"
    unfolding mm_lookup_def mm_prev_def mm_next_def
    by (simp_all only: Option.bind.simps fst_conv node_of.simps rb_prev_at_inorder rb_next_at_inorder)
qed

lemma mm_lookup_Some: "mm_lookup m i = Some n \<Longrightarrow> n \<in> set (nodes m) \<and> nid n = i"
  unfolding mm_lookup_def mm_pointer_def nodes_def
  by (auto simp: inorder_simps dest!: focus_Some split: bind_splits)
    (metis UnI1 UnI2 inorder_plug inorder.simps(2) in_set_conv_decomp plug.simps(1) set_append)+

lemma inorder_map [simp]: "inorder (map_rbt h k t) = map h (inorder t)"
  by (induction t) auto

lemma nodes_mm_update:
  "nodes (mm_update i h m) = map (\<lambda>n. if nid n = i then h n else n) (nodes m)"
  by (simp add: nodes_def mm_update_def)

lemma nodes_update_split:
  assumes "distinct_ids (nodes m)" "nodes m = xs @ n # ys"
  shows "nodes (mm_update (nid n) h m) = xs @ h n # ys"
proof -
  have "\<forall>x \<in> set xs \<union> set ys. nid x \<noteq> nid n"
    using assms unfolding distinct_ids_def by (auto simp: image_iff)
  then show ?thesis by (simp add: nodes_mm_update assms(2) map_idI)
qed

lemma nodes_mm_remove:
  assumes "distinct_ids (nodes m)" "nodes m = xs @ n # ys"
  obtains m' where "mm_remove m (nid n) = Some m'" "nodes m' = xs @ ys"
    "m' = m\<lparr>head := head m'\<rparr>"
    "rb_wf (head m) \<longrightarrow> rb_wf (head m')" "aug_ge gap (head m) \<longrightarrow> aug_ge gap (head m')"
proof -
  from assms obtain c a l r p where f: "mm_pointer m (nid n) = Some (Node c a l n r, p)"
    "before p @ inorder l = xs" "inorder r @ after p = ys" "plug (Node c a l n r) p = head m"
    by (rule mm_pointer_split)
  show ?thesis
  proof (rule that)
    show "mm_remove m (nid n) = Some (m\<lparr>head := rb_remove_at mm_augment (Node c a l n r, p)\<rparr>)"
      using f by (simp add: mm_remove_def)
    show "nodes (m\<lparr>head := rb_remove_at mm_augment (Node c a l n r, p)\<rparr>) = xs @ ys"
      using f inorder_rb_remove_at [of mm_augment c a l n r p]
      by (simp add: nodes_def del: rb_remove_at.simps)
    show "rb_wf (head m) \<longrightarrow> rb_wf (head (m\<lparr>head := rb_remove_at mm_augment (Node c a l n r, p)\<rparr>))"
      using rb_remove_at_wf [of c a l n r p mm_augment] f(4) by (simp del: rb_remove_at.simps)
    show "aug_ge gap (head m) \<longrightarrow> aug_ge gap (head (m\<lparr>head := rb_remove_at mm_augment (Node c a l n r, p)\<rparr>))"
      using gaps.aug_ge_rb_remove_at [of c a l n r p] f(4)
      by (simp del: rb_remove_at.simps aug_ge_plug)
  qed simp
qed

lemma nodes_mm_insert:
  assumes "nodes m = xs @ ys" "node_order.ascending (xs @ e # ys)"
  shows "nodes (mm_insert e m) = xs @ e # ys"
  using assms unfolding nodes_def mm_insert_def
  by (simp del: sorted_wrt.simps add: sorted_wrt_append) (rule node_order.inorder_rb_insert, auto simp: sorted_wrt_append)

lemma mm_insert_tree:
  assumes "rb_wf (head m)" "aug_ge gap (head m)" "gap e = (\<lambda>_. 0)"
  shows "rb_wf (head (mm_insert e m)) \<and> aug_ge gap (head (mm_insert e m))"
  using assms by (auto simp: mm_insert_def intro!: rb_insert_wf gaps.aug_ge_rb_insert le_funI)

lemma color_of_map [simp]: "color_of (map_rbt h k t) = color_of t"
  by (cases t) auto

lemma bheight_map [simp]: "bheight (map_rbt h k t) = bheight t"
  by (induction t) auto

lemma root_aug_map [simp]: "root_aug (map_rbt h k t) = map_option k (root_aug t)"
  by (cases t) auto

lemma rb_wf_map [simp]: "rb_wf (map_rbt h k t) = rb_wf t"
proof -
  have "invc (map_rbt h k t) = invc t" "invh (map_rbt h k t) = invh t" by (induction t) auto
  then show ?thesis by (simp add: rb_wf_def)
qed

lemma aug_ge_map:
  "aug_ge g (map_rbt h id t) \<longleftrightarrow> aug_ge (\<lambda>n. g (h n)) t"
  by (induction t) (auto simp: option.map_ident id_def)

lemma aug_ge_weaken:
  "aug_ge g t \<Longrightarrow> (\<And>n. n \<in> set (inorder t) \<Longrightarrow> g' n \<le> g n) \<Longrightarrow> aug_ge g' t"
  by (induction t) (auto intro: order_trans)

text \<open>Assignments that leave \<open>gap\<close> alone keep the tree in order.\<close>

lemma mm_update_tree:
  assumes "rb_wf (head m)" "aug_ge gap (head m)" "\<And>n. gap (h n) = gap n"
  shows "rb_wf (head (mm_update i h m)) \<and> aug_ge gap (head (mm_update i h m))"
  using assms by (auto simp: mm_update_def aug_ge_map intro: aug_ge_weaken)

text \<open>So does an assignment to \<open>gap\<close> followed by \<open>pscnv_mm_augup\<close>.\<close>

lemma augup_tree:
  assumes "rb_wf (head m0)" "aug_ge gap (head m0)" "\<And>n. nid (h n) = nid n"
    "distinct_ids (nodes m0)" "nodes m0 = xs @ n # ys"
  obtains m' where "pscnv_mm_augup (mm_update (nid n) h m0) (nid n) = Some m'"
    "nodes m' = xs @ h n # ys" "m' = m0\<lparr>head := head m'\<rparr>" "rb_wf (head m')" "aug_ge gap (head m')"
proof -
  let ?m = "mm_update (nid n) h m0"
  have ns: "nodes ?m = xs @ h n # ys" using nodes_update_split assms(4,5) by auto
  have d: "distinct_ids (nodes ?m)"
    using assms(4,5) ns assms(3) by (simp add: distinct_ids_def)
  from mm_pointer_split [OF d ns] obtain c a l r p where
    f: "mm_pointer ?m (nid (h n)) = Some (Node c a l (h n) r, p)"
    "before p @ inorder l = xs" "inorder r @ after p = ys"
    "plug (Node c a l (h n) r) p = head ?m" .
  define g' where "g' = (\<lambda>x :: mm_node. if nid x = nid n then (\<lambda>_. 0) else gap x)"
  have "aug_ge g' (head ?m)"
  proof -
    have "aug_ge (\<lambda>x. g' (if nid x = nid n then h x else x)) (head m0)"
      by (rule aug_ge_weaken [OF assms(2)]) (auto simp: g'_def assms(3) le_fun_def)
    then show ?thesis by (simp add: mm_update_def aug_ge_map)
  qed
  then have "aug_ge g' (plug (Node c a l (h n) r) p)" using f(4) by simp
  then have g: "aug_ge g' l" "aug_ge g' r" "path_ge g' (Some a) p" by auto
  have out: "nid x \<noteq> nid n" if "x \<in> set xs \<union> set ys" for x
    using that assms(4,5) unfolding distinct_ids_def by (auto simp: image_iff)
  have eq: "aug_ge gap t" if "aug_ge g' t" "set (inorder t) \<subseteq> set xs \<union> set ys" for t
    using that(1) by (rule aug_ge_weaken) (use that(2) out in \<open>auto simp: g'_def\<close>)
  have sub: "t \<in> set (path_siblings p) \<Longrightarrow> set (inorder t) \<subseteq> set (before p) \<union> set (after p)" for t
  proof (induction p)
    case (Cons fr q)
    then show ?case by (cases fr rule: frame_dir_cases) auto
  qed simp
  have "list_all (aug_ge gap) (path_siblings p)"
    unfolding list_all_iff
  proof
    fix t assume t: "t \<in> set (path_siblings p)"
    show "aug_ge gap t"
    proof (rule eq)
      show "aug_ge g' t" using path_ge_siblings [OF g(3)] t by (simp add: list_all_iff)
      show "set (inorder t) \<subseteq> set xs \<union> set ys"
        using sub [OF t] f(2) [symmetric] f(3) [symmetric] by auto
    qed
  qed
  moreover have "aug_ge gap l" "aug_ge gap r" using g f(2,3) by (auto intro!: eq)
  ultimately have ge: "aug_ge gap (plug (augment mm_augment (Node c a l (h n) r))
      (aug_up mm_augment (augment mm_augment (Node c a l (h n) r)) p))"
    using gaps.path_ge_aug_up [of p "augment mm_augment (Node c a l (h n) r)"]
    by (simp add: gaps.f_self gaps.f_left gaps.f_right)
  have wf: "rb_wf (plug (augment mm_augment (Node c a l (h n) r))
      (aug_up mm_augment (augment mm_augment (Node c a l (h n) r)) p))"
  proof -
    have "rb_wf (plug (Node c a l (h n) r) p)" using f(4) assms(1) by (simp add: mm_update_def)
    then show ?thesis by (simp add: rb_wf_plug)
  qed
  show ?thesis
  proof (rule that)
    show "pscnv_mm_augup ?m (nid n) = Some (?m\<lparr>head := plug (augment mm_augment (Node c a l (h n) r))
      (aug_up mm_augment (augment mm_augment (Node c a l (h n) r)) p)\<rparr>)"
      using f(1) assms(3) by (simp add: pscnv_mm_augup_def Let_def)
  qed (use ge wf f(2,3) in \<open>auto simp: nodes_def inorder_simps mm_update_def\<close>)
qed

end
