(* ===== verification/MmInv.thy ===== *)
theory MmInv
  imports MmNodes
begin

section \<open>The invariant of the memory manager\<close>

text \<open>
  What holds of the manager between calls: the tree is balanced with summaries that are upper bounds, and
  its nodes tile the range between two sentinels, no two free ones beside each other, with gaps that are
  up to date. The steps of the operations that keep it.
\<close>

lemma successively_split:
  "successively P (xs @ a # ys) \<longleftrightarrow> successively P (xs @ [a]) \<and> successively P (a # ys)"
  by (auto simp: successively_append_iff)

subsection \<open>Layouts\<close>

definition node_ok :: "mm_node \<Rightarrow> bool" where
  "node_ok n \<longleftrightarrow>
     (if sentinel n = 0 then 0 < nsize n
      else (sentinel n = -1 \<or> sentinel n = 1) \<and> nsize n = 0 \<and> mtype n = USED0)"

definition adjacent :: "mm_node \<Rightarrow> mm_node \<Rightarrow> bool" where
  "adjacent a b \<longleftrightarrow>
     unat (nstart b) = unat (nstart a) + unat (nsize a) \<and> sentinel a \<le> 0 \<and> 0 \<le> sentinel b \<and>
     \<not> (mtype a = FREE \<and> mtype b = FREE)"

definition node_gap :: "mm \<Rightarrow> mm_node \<Rightarrow> mm_node \<Rightarrow> mm_node \<Rightarrow> gaps" where
  "node_gap m p n q =
     (if mtype n = FREE then (\<lambda>t. let (s, e) = getfree_between m p n q t in e - s) else (\<lambda>_. 0))"

fun gaps_ok :: "mm \<Rightarrow> mm_node list \<Rightarrow> bool" where
  "gaps_ok m (p # n # q # ns) \<longleftrightarrow> gap n = node_gap m p n q \<and> gaps_ok m (n # q # ns)"
| "gaps_ok m ns \<longleftrightarrow> True"

definition sizes_ok :: "mm \<Rightarrow> bool" where
  "sizes_ok m \<longleftrightarrow> 0 < spsize m \<and> 0 < lpsize m \<and> 0 < tssize m"

definition layout :: "mm \<Rightarrow> mm_node list \<Rightarrow> bool" where
  "layout m ns \<longleftrightarrow>
     ns \<noteq> [] \<and> sentinel (hd ns) = -1 \<and> sentinel (last ns) = 1 \<and>
     (\<forall>n \<in> set ns. node_ok n \<and> nid n < kzcount m \<and> (mtype n \<noteq> FREE \<longrightarrow> gap n = (\<lambda>_. 0))) \<and>
     successively adjacent ns \<and> gaps_ok m ns \<and> distinct_ids ns \<and>
     unat (nstart (last ns)) + 2 ^ 34 \<le> 2 ^ 64 \<and> sizes_ok m"

definition mm_inv :: "mm \<Rightarrow> bool" where
  "mm_inv m \<longleftrightarrow> rb_wf (head m) \<and> aug_ge gap (head m) \<and> layout m (nodes m)"

text \<open>The blocks in use, by address.\<close>

definition is_used :: "mm_node \<Rightarrow> bool" where
  "is_used n \<longleftrightarrow> sentinel n = 0 \<and> mtype n \<noteq> FREE"

definition used :: "mm \<Rightarrow> mm_node list" where
  "used m = filter is_used (nodes m)"

text \<open>The managed range.\<close>

definition mm_bounds :: "mm \<Rightarrow> u64 \<times> u64" where
  "mm_bounds m = (nstart (hd (nodes m)), nstart (last (nodes m)))"

lemma layout_cong:
  "spsize m = spsize m' \<Longrightarrow> lpsize m = lpsize m' \<Longrightarrow> tssize m = tssize m' \<Longrightarrow> kzcount m \<le> kzcount m' \<Longrightarrow>
   layout m ns \<Longrightarrow> layout m' ns"
proof -
  assume a: "spsize m = spsize m'" "lpsize m = lpsize m'" "tssize m = tssize m'" "kzcount m \<le> kzcount m'"
    "layout m ns"
  then have "node_gap m' = node_gap m" unfolding node_gap_def getfree_between_def by (intro ext) (simp add: Let_def)
  then have "gaps_ok m' ns = gaps_ok m ns" for ns by (induction m ns rule: gaps_ok.induct) simp_all
  with a show ?thesis unfolding layout_def sizes_ok_def by auto
qed

lemma layout_head [simp]: "layout (m\<lparr>head := x\<rparr>) ns = layout m ns"
  using layout_cong [of m "m\<lparr>head := x\<rparr>" ns] layout_cong [of "m\<lparr>head := x\<rparr>" m ns] by auto

lemma gaps_ok_split:
  "gaps_ok m (xs @ a # b # ys) \<longleftrightarrow> gaps_ok m (xs @ [a, b]) \<and> gaps_ok m (a # b # ys)"
proof (induction xs)
  case (Cons x xs)
  then show ?case by (cases xs; cases "tl xs") auto
qed simp

lemma gaps_ok_left:
  "mtype p \<noteq> FREE \<or> mtype n = mtype n' \<Longrightarrow> gaps_ok m (xs @ [p, n]) \<Longrightarrow> gaps_ok m (xs @ [p, n'])"
proof (induction xs)
  case (Cons x xs)
  then show ?case
    by (cases xs; cases "tl xs") (auto simp: node_gap_def getfree_between_def)
qed simp

lemma gaps_ok_right:
  "mtype q \<noteq> FREE \<or> mtype n = mtype n' \<Longrightarrow> gaps_ok m (n # q # ys) \<Longrightarrow> gaps_ok m (n' # q # ys)"
  by (cases ys) (auto simp: node_gap_def getfree_between_def)

text \<open>Between \<open>p\<close> and \<open>q\<close>, neither of them free, the sequence may be changed freely.\<close>

lemma gaps_ok_replace:
  assumes "gaps_ok m (xs @ p # ns @ q # ys)" "ns \<noteq> []" "ns' \<noteq> []" "gaps_ok m (p # ns' @ [q])"
    "mtype p \<noteq> FREE" "mtype q \<noteq> FREE"
  shows "gaps_ok m (xs @ p # ns' @ q # ys)"
proof -
  obtain a r where ns: "ns = a # r" using assms(2) by (cases ns) auto
  obtain a' r' where ns': "ns' = a' # r'" using assms(3) by (cases ns') auto
  obtain s b where nsb: "ns = s @ [b]" using assms(2) by (cases ns rule: rev_cases) auto
  obtain s' b' where nsb': "ns' = s' @ [b']" using assms(3) by (cases ns' rule: rev_cases) auto
  have l: "gaps_ok m (xs @ [p, a])" using assms(1) gaps_ok_split [of m xs p a "r @ q # ys"] ns by simp
  have r: "gaps_ok m (b # q # ys)"
    using assms(1) gaps_ok_split [of m "xs @ p # s" b q ys] nsb by simp
  have "gaps_ok m (xs @ [p, a'])" using l assms(5) gaps_ok_left by blast
  moreover have "gaps_ok m (b' # q # ys)" using r assms(6) gaps_ok_right by blast
  moreover have "gaps_ok m (p # ns' @ [q])" by fact
  moreover have e: "p # s' @ b' # z = p # a' # r' @ z" for z
    using ns' nsb' by (metis append.assoc append_Cons append_Nil)
  ultimately have "gaps_ok m (p # a' # r' @ q # ys)"
    using gaps_ok_split [of m "p # s'" b' q ys] ns' by (simp add: e del: gaps_ok.simps)
  then show ?thesis
    using gaps_ok_split [of m xs p a' "r' @ q # ys"] ns' \<open>gaps_ok m (xs @ [p, a'])\<close>
    by simp
qed


subsection \<open>Facts about layouts\<close>

lemma adjacent_word:
  assumes "adjacent a b"
  shows "nstart b = nstart a + nsize a"
proof -
  have e: "unat (nstart b) = unat (nstart a) + unat (nsize a)" using assms by (simp add: adjacent_def)
  then have "unat (nstart a + nsize a) = unat (nstart a) + unat (nsize a)"
    by (intro unat_plus_if_no_overflow) (metis unsigned_less)
  with e show ?thesis by (simp add: word_unat_eq_iff)
qed

lemma tiles_bounds:
  assumes "successively adjacent ns" "n \<in> set ns"
  shows "unat (nstart (hd ns)) \<le> unat (nstart n)"
    "unat (nstart n) + unat (nsize n) \<le> unat (nstart (last ns)) + unat (nsize (last ns))"
proof -
  have "unat (nstart (hd ns)) \<le> unat (nstart n) \<and>
    unat (nstart n) + unat (nsize n) \<le> unat (nstart (last ns)) + unat (nsize (last ns))"
    using assms
  proof (induction ns arbitrary: n rule: induct_list012)
    case (3 x y zs)
    then have e: "unat (nstart y) = unat (nstart x) + unat (nsize x)" by (simp add: adjacent_def)
    from 3 have s: "successively adjacent (y # zs)" by simp
    show ?case
    proof (cases "n = x")
      case True
      then show ?thesis using "3.IH"(2) [OF s, of y] e by simp
    next
      case False
      then show ?thesis using "3.IH"(2) [OF s, of n] 3(4) e by simp
    qed
  qed simp_all
  then show "unat (nstart (hd ns)) \<le> unat (nstart n)"
    "unat (nstart n) + unat (nsize n) \<le> unat (nstart (last ns)) + unat (nsize (last ns))" by blast+
qed

lemma layout_bounds:
  assumes "layout m ns" "n \<in> set ns"
  shows "unat (nstart (hd ns)) \<le> unat (nstart n)"
    "unat (nstart n) + unat (nsize n) \<le> unat (nstart (last ns))"
    "unat (nstart n) + unat (nsize n) + 2 ^ 34 \<le> 2 ^ 64"
    "unat (nstart n + nsize n) = unat (nstart n) + unat (nsize n)"
proof -
  have l: "successively adjacent ns" "node_ok (last ns)" "sentinel (last ns) = 1"
    "unat (nstart (last ns)) + 2 ^ 34 \<le> 2 ^ 64"
    using assms(1) unfolding layout_def by auto
  show "unat (nstart (hd ns)) \<le> unat (nstart n)" using tiles_bounds l(1) assms(2) by blast
  show 2: "unat (nstart n) + unat (nsize n) \<le> unat (nstart (last ns))"
    using tiles_bounds(2) [OF l(1) assms(2)] l(2,3) by (simp add: node_ok_def)
  then show "unat (nstart n) + unat (nsize n) + 2 ^ 34 \<le> 2 ^ 64" using l(4) by simp
  then show "unat (nstart n + nsize n) = unat (nstart n) + unat (nsize n)"
    by (intro unat_plus_if_no_overflow) simp
qed

lemma layout_inner:
  assumes "layout m (xs @ n # ys)" "sentinel n = 0"
  obtains us p q vs where "xs = us @ [p]" "ys = q # vs" "adjacent p n" "adjacent n q"
proof -
  have "xs \<noteq> []" "ys \<noteq> []" using assms unfolding layout_def by auto
  then obtain us p q vs where "xs = us @ [p]" "ys = q # vs"
    by (metis list.exhaust rev_exhaust)
  moreover from this have "adjacent p n" "adjacent n q"
    using assms(1) unfolding layout_def by (auto simp: successively_append_iff)
  ultimately show ?thesis using that by blast
qed

text \<open>The free neighbour, if any, on each side of a node, and the nodes in use around them.\<close>

definition at_most_one_free :: "mm_node list \<Rightarrow> bool" where
  "at_most_one_free ns \<longleftrightarrow> ns = [] \<or> (\<exists>n. ns = [n] \<and> mtype n = FREE \<and> sentinel n = 0)"

lemma layout_free_sentinel: "layout m ns \<Longrightarrow> n \<in> set ns \<Longrightarrow> mtype n = FREE \<Longrightarrow> sentinel n = 0"
  unfolding layout_def node_ok_def by (metis mm_type.distinct(3))

lemma layout_around:
  assumes "layout m (xs @ n # ys)" "sentinel n = 0"
  obtains us p A B q vs where "xs = us @ p # A" "ys = B @ q # vs" "mtype p \<noteq> FREE" "mtype q \<noteq> FREE"
    "at_most_one_free A" "at_most_one_free B"
proof -
  from layout_inner [OF assms] obtain us1 p1 q1 vs1 where x: "xs = us1 @ [p1]" "ys = q1 # vs1"
    by metis
  have "\<exists>us p A. xs = us @ p # A \<and> mtype p \<noteq> FREE \<and> at_most_one_free A"
  proof (cases "mtype p1 = FREE")
    case True
    with assms x have s: "sentinel p1 = 0" using layout_free_sentinel by (metis in_set_conv_decomp in_set_conv_decomp append.assoc append_Cons)
    have "layout m (us1 @ p1 # (n # ys))" using assms(1) x by simp
    from layout_inner [OF this s] obtain us2 p2 where "us1 = us2 @ [p2]" "adjacent p2 p1" by metis
    then have "xs = us2 @ p2 # [p1]" "mtype p2 \<noteq> FREE" using True x by (auto simp: adjacent_def)
    then show ?thesis using True s by (auto simp: at_most_one_free_def)
  qed (use x in \<open>auto simp: at_most_one_free_def\<close>)
  moreover have "\<exists>B q vs. ys = B @ q # vs \<and> mtype q \<noteq> FREE \<and> at_most_one_free B"
  proof (cases "mtype q1 = FREE")
    case True
    with assms x have s: "sentinel q1 = 0" using layout_free_sentinel by (metis in_set_conv_decomp append.assoc append_Cons append_Nil)
    have "layout m ((xs @ [n]) @ q1 # vs1)" using assms(1) x by simp
    from layout_inner [OF this s] obtain q2 vs2 where "vs1 = q2 # vs2" "adjacent q1 q2" by metis
    then have "ys = [q1] @ q2 # vs2" "mtype q2 \<noteq> FREE" using True x by (auto simp: adjacent_def)
    then show ?thesis using True s unfolding at_most_one_free_def by metis
  next
    case False
    with x have "ys = [] @ q1 # vs1" by simp
    with False show ?thesis unfolding at_most_one_free_def by metis
  qed
  ultimately show ?thesis using that by blast
qed

text \<open>Changing the nodes between two that are not free.\<close>

lemma layout_replace:
  assumes "layout m (us @ p # ns @ q # vs)" "ns \<noteq> []" "ns' \<noteq> []" "mtype p \<noteq> FREE" "mtype q \<noteq> FREE"
    "gaps_ok m (p # ns' @ [q])" "successively adjacent (p # ns' @ [q])"
    "\<And>n. n \<in> set ns' \<Longrightarrow> node_ok n \<and> nid n < kzcount m \<and> (mtype n \<noteq> FREE \<longrightarrow> gap n = (\<lambda>_. 0))"
    "distinct_ids (us @ p # ns' @ q # vs)"
  shows "layout m (us @ p # ns' @ q # vs)"
proof -
  have "successively adjacent (us @ p # ns' @ q # vs)"
  proof -
    have "successively adjacent (us @ [p])" "successively adjacent (q # vs)"
      using assms(1) successively_split [of adjacent us p "ns @ q # vs"]
        successively_split [of adjacent "us @ p # ns" q vs] unfolding layout_def by auto
    then show ?thesis
      using assms(7) successively_split [of adjacent us p "ns' @ q # vs"]
        successively_split [of adjacent "p # ns'" q vs] by simp
  qed
  moreover have "gaps_ok m (us @ p # ns' @ q # vs)"
    using assms(1-6) gaps_ok_replace unfolding layout_def by blast
  ultimately show ?thesis
    using assms unfolding layout_def by (cases us) auto
qed


subsection \<open>Freeing a node\<close>

definition tree_ok :: "mm \<Rightarrow> bool" where
  "tree_ok m \<longleftrightarrow> rb_wf (head m) \<and> aug_ge gap (head m)"

lemma tree_ok_update: "tree_ok m \<Longrightarrow> (\<And>n. gap (h n) = gap n) \<Longrightarrow> tree_ok (mm_update i h m)"
  unfolding tree_ok_def using mm_update_tree by blast

lemma mm_update_head: "mm_update i h m = m\<lparr>head := head (mm_update i h m)\<rparr>"
  by (simp add: mm_update_def)

lemma head_chain: "m2 = m1\<lparr>head := x\<rparr> \<Longrightarrow> m1 = (m :: mm)\<lparr>head := y\<rparr> \<Longrightarrow> m2 = m\<lparr>head := x\<rparr>"
  by simp

definition absorb_left :: "mm_node list \<Rightarrow> mm_node \<Rightarrow> mm_node" where
  "absorb_left A n = (case A of [] \<Rightarrow> n | a # _ \<Rightarrow> n\<lparr>nstart := nstart a, nsize := nsize n + nsize a\<rparr>)"

definition absorb_right :: "mm_node list \<Rightarrow> mm_node \<Rightarrow> mm_node" where
  "absorb_right B n = (case B of [] \<Rightarrow> n | b # _ \<Rightarrow> n\<lparr>nsize := nsize n + nsize b\<rparr>)"

lemma distinct_ids_drop:
  "distinct_ids (xs @ a # ys) \<Longrightarrow> distinct_ids (xs @ ys)"
  by (auto simp: distinct_ids_def)

lemma distinct_ids_skip: "distinct_ids (xs @ A @ ys) \<Longrightarrow> distinct_ids (xs @ ys)"
  by (auto simp: distinct_ids_def)

lemma distinct_ids_change:
  "nid n' = nid n \<Longrightarrow> distinct_ids (xs @ n' # ys) = distinct_ids (xs @ n # ys)"
  by (simp add: distinct_ids_def)

lemma merge_left_nodes:
  assumes d: "distinct_ids (nodes m)" and ns: "nodes m = xs @ A @ n # ys" and "tree_ok m"
    and A: "at_most_one_free A" and x: "A = [] \<Longrightarrow> mtype (last xs) \<noteq> FREE"
    and adj: "\<And>a. a \<in> set A \<Longrightarrow> nstart a + nsize a = nstart n"
  obtains m' where "mm_merge_left (last (xs @ A)) (nid n) m = Some m'"
    "nodes m' = xs @ absorb_left A n # ys" "m' = m\<lparr>head := head m'\<rparr>" "tree_ok m'"
proof (cases A)
  case Nil
  with assms that [of m] show ?thesis by (simp add: mm_merge_left_def absorb_left_def)
next
  case (Cons a A')
  with A have a: "A = [a]" "mtype a = FREE" by (auto simp: at_most_one_free_def)
  let ?h = "\<lambda>n. n\<lparr>nstart := nstart a, nsize := nsize n + nsize a\<rparr>"
  let ?m = "mm_update (nid n) ?h m"
  from ns a have ns': "nodes m = (xs @ [a]) @ n # ys" by simp
  have u: "nodes ?m = (xs @ [a]) @ ?h n # ys" using nodes_update_split [OF d ns'] .
  then have u': "nodes ?m = xs @ a # ?h n # ys" by simp
  have "distinct_ids (nodes ?m)" using d ns' u distinct_ids_change [of "?h n" n "xs @ [a]" ys] by simp
  from nodes_mm_remove [OF this u'] obtain m' where m': "mm_remove ?m (nid a) = Some m'"
    "nodes m' = xs @ ?h n # ys" "m' = ?m\<lparr>head := head m'\<rparr>"
    "rb_wf (head ?m) \<longrightarrow> rb_wf (head m')" "aug_ge gap (head ?m) \<longrightarrow> aug_ge gap (head m')" .
  have l: "mm_lookup m (nid n) = Some n" using mm_access(1) [OF d ns'] .
  show ?thesis
  proof (rule that)
    show "mm_merge_left (last (xs @ A)) (nid n) m = Some m'"
      using a adj l m'(1) by (simp add: mm_merge_left_def)
    show "nodes m' = xs @ absorb_left A n # ys" using a m'(2) by (simp add: absorb_left_def)
    show "m' = m\<lparr>head := head m'\<rparr>" using m'(3) by (simp add: mm_update_def)
    show "tree_ok m'" using m'(4,5) tree_ok_update [OF \<open>tree_ok m\<close>, of ?h] by (simp add: tree_ok_def)
  qed
qed

lemma merge_right_nodes:
  assumes d: "distinct_ids (nodes m)" and ns: "nodes m = xs @ n # B @ ys" and "tree_ok m"
    and B: "at_most_one_free B" and x: "B = [] \<Longrightarrow> mtype (hd ys) \<noteq> FREE"
    and adj: "\<And>b. b \<in> set B \<Longrightarrow> nstart n + nsize n = nstart b"
  obtains m' where "mm_merge_right (hd (B @ ys)) (nid n) m = Some m'"
    "nodes m' = xs @ absorb_right B n # ys" "m' = m\<lparr>head := head m'\<rparr>" "tree_ok m'"
proof (cases B)
  case Nil
  with assms that [of m] show ?thesis by (simp add: mm_merge_right_def absorb_right_def)
next
  case (Cons b B')
  with B have b: "B = [b]" "mtype b = FREE" by (auto simp: at_most_one_free_def)
  let ?h = "\<lambda>n. n\<lparr>nsize := nsize n + nsize b\<rparr>"
  let ?m = "mm_update (nid n) ?h m"
  from ns b have ns': "nodes m = xs @ n # b # ys" by simp
  have u: "nodes ?m = xs @ ?h n # b # ys" using nodes_update_split [OF d ns'] .
  then have u': "nodes ?m = (xs @ [?h n]) @ b # ys" by simp
  have "distinct_ids (nodes ?m)" using d ns' u distinct_ids_change [of "?h n" n] by simp
  from nodes_mm_remove [OF this u'] obtain m' where m': "mm_remove ?m (nid b) = Some m'"
    "nodes m' = (xs @ [?h n]) @ ys" "m' = ?m\<lparr>head := head m'\<rparr>"
    "rb_wf (head ?m) \<longrightarrow> rb_wf (head m')" "aug_ge gap (head ?m) \<longrightarrow> aug_ge gap (head m')" .
  have l: "mm_lookup m (nid n) = Some n" using mm_access(1) [OF d ns'] .
  show ?thesis
  proof (rule that)
    show "mm_merge_right (hd (B @ ys)) (nid n) m = Some m'"
      using b adj l m'(1) by (simp add: mm_merge_right_def)
    show "nodes m' = xs @ absorb_right B n # ys" using b m'(2) by (simp add: absorb_right_def)
    show "m' = m\<lparr>head := head m'\<rparr>" using m'(3) by (simp add: mm_update_def)
    show "tree_ok m'" using m'(4,5) tree_ok_update [OF \<open>tree_ok m\<close>, of ?h] by (simp add: tree_ok_def)
  qed
qed

lemma set_gaps_nodes:
  assumes d: "distinct_ids (nodes m)" and ns: "nodes m = us @ p # n # q # vs" and "tree_ok m"
    and f: "mtype n = FREE"
  obtains m' where "Option.bind (mm_set_gaps m (nid n)) (\<lambda>m. pscnv_mm_augup m (nid n)) = Some m'"
    "nodes m' = us @ p # n\<lparr>gap := node_gap m p n q\<rparr> # q # vs" "m' = m\<lparr>head := head m'\<rparr>" "tree_ok m'"
proof -
  from ns have ns': "nodes m = (us @ [p]) @ n # q # vs" by simp
  have "mm_lookup m (nid n) = Some n" "mm_prev m (nid n) = Some p" "mm_next m (nid n) = Some q"
    using mm_access [OF d ns'] by simp_all
  then have g: "mm_set_gaps m (nid n) = Some (mm_update (nid n) (\<lambda>x. x\<lparr>gap := node_gap m p n q\<rparr>) m)"
    using f by (simp add: mm_set_gaps_def node_gap_def)
  from augup_tree [of m "\<lambda>x. x\<lparr>gap := node_gap m p n q\<rparr>", OF _ _ _ d ns'] \<open>tree_ok m\<close>
  obtain m' where "pscnv_mm_augup (mm_update (nid n) (\<lambda>x. x\<lparr>gap := node_gap m p n q\<rparr>) m) (nid n) = Some m'"
    "nodes m' = (us @ [p]) @ n\<lparr>gap := node_gap m p n q\<rparr> # q # vs" "m' = m\<lparr>head := head m'\<rparr>" "tree_ok m'"
    by (auto simp: tree_ok_def)
  with g that show ?thesis by simp
qed


definition coalesced :: "mm_node list \<Rightarrow> mm_node \<Rightarrow> mm_node list \<Rightarrow> mm_node" where
  "coalesced A n B = absorb_right B (absorb_left A (n\<lparr>mtype := FREE\<rparr>))"

lemma coalesced_simps [simp]:
  "nid (coalesced A n B) = nid n" "mtype (coalesced A n B) = FREE"
  "sentinel (coalesced A n B) = sentinel n"
  by (auto simp: coalesced_def absorb_left_def absorb_right_def split: list.splits)

text \<open>The coalesced node covers exactly the node and its free neighbours.\<close>

lemma coalesced_adjacent:
  assumes l: "layout m (us @ p # A @ n # B @ q # vs)"
    and "sentinel n = 0" "mtype p \<noteq> FREE" "mtype q \<noteq> FREE" "at_most_one_free A" "at_most_one_free B"
  shows "adjacent p (coalesced A n B)" "adjacent (coalesced A n B) q" "0 < nsize (coalesced A n B)"
    "\<And>a. a \<in> set A \<Longrightarrow> nstart a + nsize a = nstart n"
    "\<And>b. b \<in> set B \<Longrightarrow> nstart (absorb_left A n) + nsize (absorb_left A n) = nstart b"
proof -
  let ?c = "coalesced A n B"
  have adj: "successively adjacent (p # A @ n # B @ [q])"
    using l successively_split [of adjacent us p "A @ n # B @ q # vs"]
      successively_split [of adjacent "p # A @ n # B" q vs] unfolding layout_def by auto
  have in_n: "n \<in> set (us @ p # A @ n # B @ q # vs)" by simp
  have n: "0 < unat (nsize n)"
    using l in_n assms(2) unfolding layout_def node_ok_def by (metis unat_gt_0 word_gt_0)
  have A: "A = [] \<or> (\<exists>a. A = [a] \<and> sentinel a = 0)" and B: "B = [] \<or> (\<exists>b. B = [b] \<and> sentinel b = 0)"
    using assms(5,6) by (auto simp: at_most_one_free_def)
  note bounds = layout_bounds [OF l]
  have q: "unat (nstart q) < 2 ^ 64" by (rule unat_u64_less)
  have la: "unat (nstart (absorb_left A n)) + unat (nsize (absorb_left A n)) = unat (nstart n) + unat (nsize n)
      \<and> unat (nstart (absorb_left A n)) = unat (nstart p) + unat (nsize p) \<and>
      unat (nsize n) \<le> unat (nsize (absorb_left A n)) \<and>
      (\<forall>a \<in> set A. nstart a + nsize a = nstart n)"
    using A
  proof (elim disjE exE conjE)
    fix a assume "A = [a]"
    then have a: "adjacent p a" "adjacent a n" using adj by auto
    have "unat (nsize n + nsize a) = unat (nsize n) + unat (nsize a)"
      using a(2) bounds(3) [OF in_n] by (intro unat_plus_if_no_overflow) (simp add: adjacent_def)
    then show ?thesis
      using a \<open>A = [a]\<close> adjacent_word [OF a(2)] by (simp add: absorb_left_def adjacent_def)
  qed (use adj in \<open>auto simp: absorb_left_def adjacent_def\<close>)
  then show "\<And>a. a \<in> set A \<Longrightarrow> nstart a + nsize a = nstart n" by blast
  have c: "coalesced A n B = (absorb_right B (absorb_left A n))\<lparr>mtype := FREE\<rparr>" for B
    by (auto simp: coalesced_def absorb_left_def absorb_right_def split: list.splits)
  have "unat (nstart ?c) + unat (nsize ?c) = unat (nstart q) \<and>
      unat (nstart ?c) = unat (nstart p) + unat (nsize p) \<and> 0 < unat (nsize ?c) \<and>
      (\<forall>b \<in> set B. nstart (absorb_left A n) + nsize (absorb_left A n) = nstart b)"
    using B
  proof (elim disjE exE conjE)
    fix b assume "B = [b]"
    then have b: "adjacent n b" "adjacent b q" using adj A by auto
    let ?a = "absorb_left A n"
    have "unat (nsize ?a + nsize b) = unat (nsize ?a) + unat (nsize b)"
      using la b q by (intro unat_plus_if_no_overflow) (simp add: adjacent_def)
    moreover have "nstart ?a + nsize ?a = nstart b"
    proof -
      have "unat (nstart ?a + nsize ?a) = unat (nstart ?a) + unat (nsize ?a)"
        using la b q by (intro unat_plus_if_no_overflow) (simp add: adjacent_def)
      with la b show ?thesis by (simp add: word_unat_eq_iff adjacent_def)
    qed
    ultimately show ?thesis using la b n \<open>B = [b]\<close> by (simp add: c absorb_right_def adjacent_def)
  qed (use adj A la n in \<open>auto simp: c absorb_right_def adjacent_def\<close>)
  moreover have "sentinel p \<le> 0" "0 \<le> sentinel q"
    using adj A B by (auto simp: adjacent_def)
  ultimately show "adjacent p ?c" "adjacent ?c q" "0 < nsize ?c"
    "\<And>b. b \<in> set B \<Longrightarrow> nstart (absorb_left A n) + nsize (absorb_left A n) = nstart b"
    using assms(2-4) by (auto simp: adjacent_def word_less_iff_unat)
qed

lemma free_node_nodes:
  assumes inv: "mm_inv m" and ns: "nodes m = us @ p # A @ n # B @ q # vs"
    and s: "sentinel n = 0" and pq: "mtype p \<noteq> FREE" "mtype q \<noteq> FREE"
    and AB: "at_most_one_free A" "at_most_one_free B"
  obtains m' where "pscnv_mm_free_node m (nid n) = Some m'" "mm_inv m'" "m' = m\<lparr>head := head m'\<rparr>"
    "nodes m' = us @ p # (coalesced A n B)\<lparr>gap := node_gap m p (coalesced A n B) q\<rparr> # q # vs"
proof -
  let ?n1 = "n\<lparr>mtype := FREE\<rparr>" let ?c = "coalesced A n B"
  let ?m1 = "mm_update (nid n) (\<lambda>n. n\<lparr>mtype := FREE\<rparr>) m"
  from inv have l: "layout m (nodes m)" and t: "tree_ok m" by (auto simp: mm_inv_def tree_ok_def)
  then have d: "distinct_ids (nodes m)" by (simp add: layout_def)
  note co = coalesced_adjacent [OF l [unfolded ns] s pq AB]
  have ns0: "nodes m = (us @ p # A) @ n # (B @ q # vs)" using ns by simp
  have acc: "mm_prev m (nid n) = Some (last ((us @ [p]) @ A))" "mm_next m (nid n) = Some (hd (B @ q # vs))"
    using mm_access(2,3) [OF d ns0] by (auto split: list.splits)
  have ns1: "nodes ?m1 = (us @ [p]) @ A @ ?n1 # (B @ q # vs)"
    using nodes_update_split [OF d ns0, of "\<lambda>n. n\<lparr>mtype := FREE\<rparr>"] by simp
  have d1: "distinct_ids (nodes ?m1)"
    using d ns ns1 distinct_ids_change [of ?n1 n "us @ p # A" "B @ q # vs"] by simp
  have t1: "tree_ok ?m1" using tree_ok_update [OF t] by simp
  from merge_left_nodes [OF d1 ns1 t1 AB(1)] pq co(4) obtain m2 where
    m2: "mm_merge_left (last ((us @ [p]) @ A)) (nid n) ?m1 = Some m2"
    "nodes m2 = (us @ [p]) @ absorb_left A ?n1 # (B @ q # vs)" "m2 = ?m1\<lparr>head := head m2\<rparr>" "tree_ok m2"
    by auto
  have idl: "nid (absorb_left A ?n1) = nid n" by (auto simp: absorb_left_def split: list.splits)
  have d2: "distinct_ids (nodes m2)"
  proof -
    have "distinct_ids ((us @ [p]) @ n # (B @ q # vs))"
      by (rule distinct_ids_skip [where A = A]) (use d ns in simp)
    then show ?thesis
      using m2(2) distinct_ids_change [of "absorb_left A ?n1" n "us @ [p]" "B @ q # vs"] idl by simp
  qed
  have st: "nstart (absorb_left A ?n1) = nstart (absorb_left A n)" "nsize (absorb_left A ?n1) = nsize (absorb_left A n)"
    by (auto simp: absorb_left_def split: list.splits)
  have ns2: "nodes m2 = (us @ [p]) @ absorb_left A ?n1 # B @ (q # vs)" using m2(2) by simp
  from merge_right_nodes [OF d2 ns2 m2(4) AB(2)] pq co(5) st obtain m3 where
    m3: "mm_merge_right (hd (B @ q # vs)) (nid n) m2 = Some m3"
    "nodes m3 = (us @ [p]) @ ?c # (q # vs)" "m3 = m2\<lparr>head := head m3\<rparr>" "tree_ok m3"
    using idl by (auto simp: coalesced_def)
  have d3: "distinct_ids (us @ p # ?c # q # vs)"
  proof -
    have "distinct_ids ((us @ [p]) @ n # (B @ q # vs))"
      by (rule distinct_ids_skip [where A = A]) (use d ns in simp)
    then have "distinct_ids ((us @ [p, n]) @ B @ q # vs)" by simp
    from distinct_ids_skip [OF this] show ?thesis using distinct_ids_change [of ?c n "us @ [p]" "q # vs"] by simp
  qed
  have ns3: "nodes m3 = us @ p # ?c # q # vs" using m3(2) by simp
  have d3': "distinct_ids (nodes m3)" using d3 ns3 by simp
  have fc: "mtype ?c = FREE" by simp
  from set_gaps_nodes [OF d3' ns3 m3(4) fc] obtain m4 where
    m4: "Option.bind (mm_set_gaps m3 (nid n)) (\<lambda>m. pscnv_mm_augup m (nid n)) = Some m4"
    "nodes m4 = us @ p # ?c\<lparr>gap := node_gap m3 p ?c q\<rparr> # q # vs" "m4 = m3\<lparr>head := head m4\<rparr>" "tree_ok m4"
    by auto
  have h3: "m3 = m\<lparr>head := head m3\<rparr>"
    by (rule head_chain [OF m3(3) head_chain [OF m2(3) mm_update_head]])
  have h: "m4 = m\<lparr>head := head m4\<rparr>" by (rule head_chain [OF m4(3) h3])
  have "node_gap (m\<lparr>head := x\<rparr>) p ?c q = node_gap m p ?c q" for x
    by (simp add: node_gap_def getfree_between_def Let_def cong: if_cong)
  then have g: "node_gap m3 p ?c q = node_gap m p ?c q" by (subst h3)
  let ?c' = "?c\<lparr>gap := node_gap m p ?c q\<rparr>"
  have ng: "node_gap m p ?c' q = node_gap m p ?c q"
    by (simp add: node_gap_def getfree_between_def Let_def cong: if_cong)
  have lay: "layout m (us @ p # [?c'] @ q # vs)"
  proof (rule layout_replace [where ns = "A @ n # B"])
    show "layout m (us @ p # (A @ n # B) @ q # vs)" using l ns by simp
    show "gaps_ok m (p # [?c'] @ [q])" using ng by simp
    show "successively adjacent (p # [?c'] @ [q])" using co(1,2) by (simp add: adjacent_def)
    show "distinct_ids (us @ p # [?c'] @ q # vs)"
      using d3 distinct_ids_change [of ?c' ?c "us @ [p]" "q # vs"] by simp
    have "nid n < kzcount m" using l ns by (simp add: layout_def)
    then show "\<And>x. x \<in> set [?c'] \<Longrightarrow>
        node_ok x \<and> nid x < kzcount m \<and> (mtype x \<noteq> FREE \<longrightarrow> gap x = (\<lambda>_. 0))"
      using co(3) s by (simp add: node_ok_def)
  qed (use pq in simp_all)
  have ns4: "nodes m4 = us @ p # ?c' # q # vs" using m4(2) g by simp
  have "layout m4 (nodes m4)" using lay ns4 by (subst h) simp
  then have "mm_inv m4" using m4(4) by (simp add: mm_inv_def tree_ok_def)
  moreover have "pscnv_mm_free_node m (nid n) = Some m4"
    using acc m2(1) m3(1) m4(1) by (simp add: pscnv_mm_free_node_def Let_def)
  ultimately show ?thesis using that h ns4 by simp
qed


subsection \<open>Splitting a node\<close>

lemma layout_ascending:
  assumes "layout m ns"
  shows "node_order.ascending ns"
proof -
  let ?P = "\<lambda>a b. (sentinel a, nstart a) < (sentinel b, nstart b)"
  have "successively ?P ns"
  proof (rule successively_mono)
    show "successively adjacent ns" using assms by (simp add: layout_def)
    fix a b assume ab: "a \<in> set ns" "b \<in> set ns" "adjacent a b"
    have "node_ok a" "node_ok b" using assms ab by (auto simp: layout_def)
    then show "?P a b" using ab(3)
      by (auto simp: node_ok_def adjacent_def less_prod_def word_less_iff_unat split: if_splits)
  qed
  moreover have "transp ?P" by (auto intro: transpI)
  ultimately show ?thesis using successively_conv_sorted_wrt [of ?P ns] by blast
qed

lemma layout_split_used:
  assumes l: "layout m (us @ p # A @ n # q # vs)"
    and "mtype p \<noteq> FREE" "mtype q \<noteq> FREE" "mtype n \<noteq> FREE" "sentinel n = 0"
    and A: "at_most_one_free A" "A = [] \<or> mtype n1 = mtype n"
    and n12: "sentinel n1 = 0" "sentinel n2 = 0" "mtype n1 \<noteq> FREE" "mtype n2 \<noteq> FREE"
      "gap n1 = (\<lambda>_. 0)" "gap n2 = (\<lambda>_. 0)" "nid n1 < kzcount m" "nid n2 < kzcount m"
    and r: "nstart n1 = nstart n" "0 < nsize n1" "0 < nsize n2"
      "unat (nstart n2) = unat (nstart n1) + unat (nsize n1)"
      "unat (nstart n2) + unat (nsize n2) = unat (nstart n) + unat (nsize n)"
    and d: "distinct_ids (us @ p # A @ n1 # n2 # q # vs)"
  shows "layout m (us @ p # A @ n1 # n2 # q # vs)"
proof -
  have "layout m (us @ p # (A @ [n1, n2]) @ q # vs)"
  proof (rule layout_replace [where ns = "A @ [n]"])
    have "successively adjacent (us @ p # A @ n # q # vs)" using l by (simp add: layout_def)
    then have "successively adjacent (p # A @ n # q # vs)"
      using successively_split [of adjacent us p "A @ n # q # vs"] by blast
    then have adj: "successively adjacent (p # A @ [n, q])"
      using successively_split [of adjacent "p # A @ [n]" q vs] by simp
    have "gaps_ok m (us @ p # A @ n # q # vs)" using l by (simp add: layout_def)
    then have g: "A = [a] \<Longrightarrow> gap a = node_gap m p a n" for a
      using gaps_ok_split [of m us p a "n # q # vs"] by simp
    show "layout m (us @ p # (A @ [n]) @ q # vs)" using l by simp
    show "successively adjacent (p # (A @ [n1, n2]) @ [q])"
      using adj A n12 r assms(2-5) by (auto simp: at_most_one_free_def adjacent_def)
    show "gaps_ok m (p # (A @ [n1, n2]) @ [q])"
      using g A n12 by (auto simp: at_most_one_free_def node_gap_def getfree_between_def)
    have old: "x \<in> set A \<Longrightarrow> node_ok x \<and> nid x < kzcount m \<and> (mtype x \<noteq> FREE \<longrightarrow> gap x = (\<lambda>_. 0))" for x
      using l by (simp add: layout_def)
    show "node_ok x \<and> nid x < kzcount m \<and> (mtype x \<noteq> FREE \<longrightarrow> gap x = (\<lambda>_. 0))"
      if "x \<in> set (A @ [n1, n2])" for x
    proof (cases "x \<in> set A")
      case False
      with that have "x = n1 \<or> x = n2" by auto
      then show ?thesis using n12 r(2,3) by (elim disjE) (simp_all add: node_ok_def)
    qed (use old in blast)
    show "distinct_ids (us @ p # (A @ [n1, n2]) @ q # vs)" using d by simp
  qed (use assms in simp_all)
  then show ?thesis by simp
qed

lemma mark_used_nodes:
  assumes inv: "mm_inv m" and ns: "nodes m = us @ p # n # q # vs" and f: "mtype n = FREE" and T: "T \<noteq> FREE"
  obtains m' where "pscnv_mm_augup (mm_update (nid n) (\<lambda>n. n\<lparr>mtype := T, gap := (\<lambda>_. 0)\<rparr>) m) (nid n) = Some m'"
    "nodes m' = us @ p # n\<lparr>mtype := T, gap := (\<lambda>_. 0)\<rparr> # q # vs" "mm_inv m'" "m' = m\<lparr>head := head m'\<rparr>"
proof -
  let ?h = "\<lambda>n. n\<lparr>mtype := T, gap := (\<lambda>_. 0)\<rparr>"
  from inv have l: "layout m (nodes m)" and t: "rb_wf (head m)" "aug_ge gap (head m)"
    by (auto simp: mm_inv_def)
  then have d: "distinct_ids (nodes m)" by (simp add: layout_def)
  from ns have ns': "nodes m = (us @ [p]) @ n # q # vs" by simp
  have s: "sentinel n = 0" using layout_free_sentinel [OF l] ns f by simp
  have adj: "adjacent p n" "adjacent n q"
    using l ns unfolding layout_def by (auto simp: successively_append_iff)
  from augup_tree [OF t _ d ns', of ?h] obtain m' where
    m': "pscnv_mm_augup (mm_update (nid n) ?h m) (nid n) = Some m'"
    "nodes m' = (us @ [p]) @ ?h n # q # vs" "m' = m\<lparr>head := head m'\<rparr>" "rb_wf (head m')" "aug_ge gap (head m')"
    by auto
  have "layout m (us @ p # [?h n] @ q # vs)"
  proof (rule layout_replace [where ns = "[n]"])
    show "layout m (us @ p # [n] @ q # vs)" using l ns by simp
    show "gaps_ok m (p # [?h n] @ [q])" using T by (simp add: node_gap_def)
    show "distinct_ids (us @ p # [?h n] @ q # vs)" using d ns by (simp add: distinct_ids_def)
    show "\<And>x. x \<in> set [?h n] \<Longrightarrow> node_ok x \<and> nid x < kzcount m \<and> (mtype x \<noteq> FREE \<longrightarrow> gap x = (\<lambda>_. 0))"
      using l ns s by (auto simp: layout_def node_ok_def)
    show "successively adjacent (p # [?h n] @ [q])" "mtype p \<noteq> FREE" "mtype q \<noteq> FREE"
      using f adj T by (simp_all add: adjacent_def)
  qed simp_all
  then have "layout m' (nodes m')" using m'(2) by (subst m'(3)) simp
  then show ?thesis using that m' by (simp add: mm_inv_def)
qed


text \<open>A fresh node is put in the tree beside a node that has been cut.\<close>

lemma insert_fresh:
  assumes inv: "mm_inv m" and ns: "nodes m = us @ p # A @ n # q # vs"
    and pq: "mtype p \<noteq> FREE" "mtype q \<noteq> FREE" and n: "mtype n \<noteq> FREE" "sentinel n = 0"
    and A: "at_most_one_free A" "A = [] \<or> mtype na = mtype n"
    and l: "l \<notin> nid ` set (nodes m)" "l < kzcount m"
    and h: "\<And>x. gap (h x) = gap x" "\<And>x. nid (h x) = nid x"
    and e: "e = (kz_node l)\<lparr>nstart := x, nsize := y\<rparr>"
    and nab: "{na, nb} = {h n, e}" "sentinel na = 0" "sentinel nb = 0" "mtype na \<noteq> FREE" "mtype nb \<noteq> FREE"
    and r: "nstart na = nstart n" "0 < nsize na" "0 < nsize nb"
      "unat (nstart nb) = unat (nstart na) + unat (nsize na)"
      "unat (nstart nb) + unat (nsize nb) = unat (nstart n) + unat (nsize n)"
  shows "mm_inv (mm_insert e (mm_update (nid n) h m))"
    "nodes (mm_insert e (mm_update (nid n) h m)) = us @ p # A @ na # nb # q # vs"
proof -
  let ?m1 = "mm_update (nid n) h m"
  let ?m2 = "mm_insert e ?m1"
  from inv have lay: "layout m (nodes m)" and t: "rb_wf (head m)" "aug_ge gap (head m)"
    by (auto simp: mm_inv_def)
  then have d: "distinct_ids (nodes m)" by (simp add: layout_def)
  have nin: "n \<in> set (nodes m)" using ns by simp
  have ge: "gap e = (\<lambda>_. 0)" "nid e = l" by (simp_all add: e kz_node_def)
  have ids: "nid n < kzcount m" "gap n = (\<lambda>_. 0)"
    using lay nin n(1) unfolding layout_def by blast+
  have "h n \<noteq> e" using l(1) nin ge(2) h(2) by (metis image_eqI)
  then have cases12: "na = h n \<and> nb = e \<or> na = e \<and> nb = h n"
    using nab(1) by (auto simp: doubleton_eq_iff)
  have d2: "distinct_ids (us @ p # A @ na # nb # q # vs)"
    using d ns l(1) cases12 ge(2) h(2) [of n] unfolding distinct_ids_def
    by (elim disjE) (simp_all, auto)
  have "layout m (us @ p # A @ na # nb # q # vs)"
  proof (rule layout_split_used [OF lay [unfolded ns] pq n A nab(2-5) _ _ _ _ r d2])
    show "gap na = (\<lambda>_. 0)" "gap nb = (\<lambda>_. 0)" "nid na < kzcount m" "nid nb < kzcount m"
      using cases12 ge ids l(2) h [of n] by auto
  qed
  note lay2 = this
  have ns1: "nodes m = (us @ p # A) @ n # q # vs" using ns by simp
  have u: "nodes ?m1 = (us @ p # A) @ h n # q # vs" using nodes_update_split [OF d ns1] .
  have asc: "node_order.ascending (us @ p # A @ na # nb # q # vs)" using layout_ascending [OF lay2] .
  show nodes2: "nodes ?m2 = us @ p # A @ na # nb # q # vs"
    using cases12
  proof (elim disjE conjE)
    assume c: "na = h n" "nb = e"
    have "nodes ?m1 = (us @ p # A @ [h n]) @ (q # vs)" using u by simp
    then have "nodes ?m2 = (us @ p # A @ [h n]) @ e # (q # vs)"
      by (rule nodes_mm_insert) (use asc c in simp)
    then show ?thesis using c by simp
  next
    assume c: "na = e" "nb = h n"
    have "nodes ?m2 = (us @ p # A) @ e # (h n # q # vs)"
      by (rule nodes_mm_insert [OF u]) (use asc c in simp)
    then show ?thesis using c by simp
  qed
  have "rb_wf (head ?m1) \<and> aug_ge gap (head ?m1)" using mm_update_tree [OF t h(1)] .
  then have "rb_wf (head ?m2) \<and> aug_ge gap (head ?m2)" using mm_insert_tree ge(1) by blast
  moreover have "layout ?m2 (nodes ?m2)" using lay2 nodes2 by (simp add: mm_insert_def mm_update_def)
  ultimately show "mm_inv ?m2" by (simp add: mm_inv_def)
qed


lemma unat_between:
  assumes "nstart n \<le> x" "unat x \<le> unat (nstart n) + unat (nsize n)"
  shows "unat (x - nstart n) = unat x - unat (nstart n)"
    "unat (nsize n - (x - nstart n)) = unat (nstart n) + unat (nsize n) - unat x"
proof -
  show 1: "unat (x - nstart n) = unat x - unat (nstart n)" using assms(1) by (rule unat_minus_le)
  have "x - nstart n \<le> nsize n" using assms 1 by (simp add: word_le_iff_unat)
  then show "unat (nsize n - (x - nstart n)) = unat (nstart n) + unat (nsize n) - unat x"
    using assms 1 by (simp add: unat_minus_le word_le_iff_unat)
qed

definition remainder :: "nat option \<Rightarrow> mm_node list \<Rightarrow> bool" where
  "remainder io L \<longleftrightarrow>
     (case io of None \<Rightarrow> L = [] | Some i \<Rightarrow> \<exists>x. L = [x] \<and> nid x = i \<and> mtype x = FREE \<and> sentinel x = 0)"

lemma remainder_one_free: "remainder io L \<Longrightarrow> at_most_one_free L"
  by (auto simp: remainder_def at_most_one_free_def split: option.splits)

definition fresh_for :: "mm \<Rightarrow> nat option \<Rightarrow> bool" where
  "fresh_for m io \<longleftrightarrow> (\<forall>i. io = Some i \<longrightarrow> i \<notin> nid ` set (nodes m) \<and> i < kzcount m)"

lemma split_left_nodes:
  assumes inv: "mm_inv m" and ns: "nodes m = us @ p # n # q # vs"
    and pq: "mtype p \<noteq> FREE" "mtype q \<noteq> FREE" and n: "mtype n \<noteq> FREE" "sentinel n = 0"
    and x: "nstart n \<le> s" "unat s < unat (nstart n) + unat (nsize n)"
    and io: "io = None \<longleftrightarrow> s = nstart n" "fresh_for m io"
  obtains m' L where "mm_split_left (nid n) io s m = Some m'" "mm_inv m'" "m' = m\<lparr>head := head m'\<rparr>"
    "nodes m' = us @ p # L @ n\<lparr>nsize := nsize n - (s - nstart n), nstart := s\<rparr> # q # vs" "remainder io L"
proof (cases io)
  case None
  with io have "s = nstart n" by blast
  with that [of m "[]"] None inv ns show ?thesis by (simp add: mm_split_left_def remainder_def)
next
  case (Some l)
  let ?h = "\<lambda>n'. n'\<lparr>nsize := nsize n' - (s - nstart n), nstart := s\<rparr>"
  let ?e = "(kz_node l)\<lparr>nstart := nstart n, nsize := s - nstart n\<rparr>"
  let ?m1 = "mm_insert ?e (mm_update (nid n) ?h m)"
  from inv have d: "distinct_ids (nodes m)" by (simp add: mm_inv_def layout_def)
  have lt: "unat (nstart n) < unat s"
    using io Some x(1) by (auto simp: word_le_iff_unat le_less word_unat_eq_iff)
  note b = unat_between [of n s, OF x(1) less_imp_le [OF x(2)]]
  have ns': "nodes m = us @ p # [] @ n # q # vs" using ns by simp
  have l: "l \<notin> nid ` set (nodes m)" "l < kzcount m" using io(2) Some by (auto simp: fresh_for_def)
  note ins = insert_fresh [OF inv ns' pq n _ _ l, where h = ?h and na = ?e and nb = "?h n"]
  have "mm_inv ?m1 \<and> nodes ?m1 = us @ p # [] @ ?e # ?h n # q # vs"
    by (intro conjI ins)
      (use n lt x b in \<open>simp_all add: at_most_one_free_def kz_node_def word_less_iff_unat insert_commute\<close>)
  then have i1: "mm_inv ?m1" and n1: "nodes ?m1 = us @ p # [] @ ?e # [] @ ?h n # (q # vs)" by simp_all
  have "at_most_one_free []" by (simp add: at_most_one_free_def)
  from free_node_nodes [OF i1 n1 _ pq(1) _ this this] n obtain m' where
    m': "pscnv_mm_free_node ?m1 l = Some m'" "mm_inv m'" "m' = ?m1\<lparr>head := head m'\<rparr>"
    "nodes m' = us @ p # (coalesced [] ?e [])\<lparr>gap := node_gap ?m1 p (coalesced [] ?e []) (?h n)\<rparr> # ?h n # q # vs"
    by (auto simp: kz_node_def)
  have lk: "mm_lookup m (nid n) = Some n"
    using mm_access(1) [OF d, of "us @ [p]" n "q # vs"] ns by simp
  show ?thesis
  proof (rule that)
    show "mm_split_left (nid n) io s m = Some m'"
      using m'(1) lk Some by (simp add: mm_split_left_def Let_def)
    show "m' = m\<lparr>head := head m'\<rparr>"
      by (rule head_chain [OF m'(3)]) (simp add: mm_insert_def mm_update_def)
    show "nodes m' = us @ p # [(coalesced [] ?e [])\<lparr>gap := node_gap ?m1 p (coalesced [] ?e []) (?h n)\<rparr>] @
        n\<lparr>nsize := nsize n - (s - nstart n), nstart := s\<rparr> # q # vs" using m'(4) by simp
    show "remainder io [(coalesced [] ?e [])\<lparr>gap := node_gap ?m1 p (coalesced [] ?e []) (?h n)\<rparr>]"
      using Some by (simp add: remainder_def kz_node_def)
  qed (rule m'(2))
qed

lemma split_right_nodes:
  assumes inv: "mm_inv m" and ns: "nodes m = us @ p # A @ n # q # vs" and A: "at_most_one_free A"
    and pq: "mtype p \<noteq> FREE" "mtype q \<noteq> FREE" and n: "mtype n \<noteq> FREE" "sentinel n = 0"
    and x: "unat (nstart n) < unat e" "unat e \<le> unat (nstart n) + unat (nsize n)"
    and io: "io = None \<longleftrightarrow> e = nstart n + nsize n" "fresh_for m io"
  obtains m' R where "mm_split_right (nid n) io e m = Some m'" "mm_inv m'" "m' = m\<lparr>head := head m'\<rparr>"
    "nodes m' = us @ p # A @ n\<lparr>nsize := e - nstart n\<rparr> # R @ q # vs" "remainder io R"
proof (cases io)
  case None
  with io have "e = nstart n + nsize n" by blast
  with that [of m "[]"] None inv ns show ?thesis by (simp add: mm_split_right_def remainder_def)
next
  case (Some r)
  let ?h = "\<lambda>n'. n'\<lparr>nsize := nsize n' - (nstart n + nsize n - e)\<rparr>"
  let ?e = "(kz_node r)\<lparr>nstart := e, nsize := nstart n + nsize n - e\<rparr>"
  let ?m1 = "mm_insert ?e (mm_update (nid n) ?h m)"
  from inv have d: "distinct_ids (nodes m)" and lay: "layout m (nodes m)" by (simp_all add: mm_inv_def layout_def)
  have nin: "n \<in> set (nodes m)" using ns by simp
  have le: "nstart n \<le> e" using x(1) by (simp add: word_le_iff_unat)
  note b = unat_between [of n e, OF le x(2)]
  have sum: "unat (nstart n + nsize n) = unat (nstart n) + unat (nsize n)" using layout_bounds(4) [OF lay nin] .
  have hn: "?h n = n\<lparr>nsize := e - nstart n\<rparr>" by simp
  have lt: "unat e < unat (nstart n) + unat (nsize n)"
    using io(1) Some x(2) sum by (metis le_neq_implies_less option.distinct(1) word_unat_eq_iff)
  have sz: "unat (nstart n + nsize n - e) = unat (nstart n) + unat (nsize n) - unat e"
    using x(2) sum by (simp add: unat_minus_le word_le_iff_unat)
  have l: "r \<notin> nid ` set (nodes m)" "r < kzcount m" using io(2) Some by (auto simp: fresh_for_def)
  note ins = insert_fresh [OF inv ns pq n A _ l, where h = ?h and na = "?h n" and nb = ?e]
  have "mm_inv ?m1 \<and> nodes ?m1 = us @ p # A @ ?h n # ?e # q # vs"
    by (intro conjI ins)
      (use n lt x b sz le in \<open>simp_all add: hn kz_node_def word_less_iff_unat insert_commute\<close>)
  then have i1: "mm_inv ?m1" and n1: "nodes ?m1 = (us @ p # A) @ ?h n # [] @ ?e # [] @ q # vs" by simp_all
  have "at_most_one_free []" by (simp add: at_most_one_free_def)
  from free_node_nodes [OF i1 n1 _ _ pq(2) this this] n obtain m' where
    m': "pscnv_mm_free_node ?m1 r = Some m'" "mm_inv m'" "m' = ?m1\<lparr>head := head m'\<rparr>"
    "nodes m' = (us @ p # A) @ ?h n # (coalesced [] ?e [])\<lparr>gap := node_gap ?m1 (?h n) (coalesced [] ?e []) q\<rparr> # q # vs"
    by (auto simp: kz_node_def)
  have lk: "mm_lookup m (nid n) = Some n"
    using mm_access(1) [OF d, of "us @ p # A" n "q # vs"] ns by simp
  show ?thesis
  proof (rule that)
    show "mm_split_right (nid n) io e m = Some m'"
      using m'(1) lk Some by (simp add: mm_split_right_def Let_def)
    show "m' = m\<lparr>head := head m'\<rparr>"
      by (rule head_chain [OF m'(3)]) (simp add: mm_insert_def mm_update_def)
    show "nodes m' = us @ p # A @ n\<lparr>nsize := e - nstart n\<rparr> #
        [(coalesced [] ?e [])\<lparr>gap := node_gap ?m1 (?h n) (coalesced [] ?e []) q\<rparr>] @ q # vs"
      using m'(4) hn by simp
    show "remainder io [(coalesced [] ?e [])\<lparr>gap := node_gap ?m1 (?h n) (coalesced [] ?e []) q\<rparr>]"
      using Some by (simp add: remainder_def kz_node_def)
  qed (rule m'(2))
qed


definition place_ok :: "mm \<Rightarrow> mm_node \<Rightarrow> mm_place \<Rightarrow> bool" where
  "place_ok m n pl \<longleftrightarrow>
     pnode pl = nid n \<and> nstart n \<le> pstart pl \<and> pstart pl < pend pl \<and>
     unat (pend pl) \<le> unat (nstart n) + unat (nsize n) \<and>
     (plsp pl = None \<longleftrightarrow> pstart pl = nstart n) \<and> (prsp pl = None \<longleftrightarrow> pend pl = nstart n + nsize n) \<and>
     fresh_for m (plsp pl) \<and> fresh_for m (prsp pl) \<and>
     (\<forall>i. plsp pl = Some i \<longrightarrow> prsp pl \<noteq> Some i)"

definition taken :: "u32 \<Rightarrow> mm_place \<Rightarrow> mm_node \<Rightarrow> mm_node" where
  "taken flags pl n =
     n\<lparr>mtype := used_type flags, gap := (\<lambda>_. 0), nstart := pstart pl, nsize := pend pl - pstart pl\<rparr>"

lemma used_type_not_free [simp]: "used_type flags \<noteq> FREE" "FREE \<noteq> used_type flags"
  by (simp_all add: used_type_def)

lemma commit_nodes:
  assumes inv: "mm_inv m" and ns: "nodes m = us @ p # n # q # vs" and f: "mtype n = FREE"
    and pl: "place_ok m n pl"
  obtains m' L R where "mm_commit flags pl m = Some m'" "mm_inv m'" "m' = m\<lparr>head := head m'\<rparr>"
    "nodes m' = us @ p # L @ taken flags pl n # R @ q # vs" "remainder (plsp pl) L" "remainder (prsp pl) R"
proof -
  let ?n1 = "n\<lparr>mtype := used_type flags, gap := (\<lambda>_. 0)\<rparr>"
  let ?n2 = "?n1\<lparr>nsize := nsize n - (pstart pl - nstart n), nstart := pstart pl\<rparr>"
  from inv have lay: "layout m (nodes m)" by (simp add: mm_inv_def)
  then have adj: "adjacent p n" "adjacent n q"
    using ns unfolding layout_def by (auto simp: successively_append_iff)
  with f have pq: "mtype p \<noteq> FREE" "mtype q \<noteq> FREE" by (auto simp: adjacent_def)
  have s: "sentinel n = 0" using layout_free_sentinel [OF lay] ns f by simp
  note pl = pl [unfolded place_ok_def]
  from mark_used_nodes [OF inv ns f used_type_not_free(1)] obtain m1 where
    m1: "pscnv_mm_augup (mm_update (nid n) (\<lambda>n. n\<lparr>mtype := used_type flags, gap := (\<lambda>_. 0)\<rparr>) m) (nid n) = Some m1"
    "nodes m1 = us @ p # ?n1 # q # vs" "mm_inv m1" "m1 = m\<lparr>head := head m1\<rparr>" .
  have k1: "kzcount m1 = kzcount m" by (subst m1(4)) simp
  have fr1: "fresh_for m1 (plsp pl)" "fresh_for m1 (prsp pl)"
    using pl k1 ns m1(2) unfolding fresh_for_def by simp_all
  have lt: "unat (pstart pl) < unat (nstart n) + unat (nsize n)"
    using pl by (auto simp: word_less_iff_unat)
  from split_left_nodes [OF m1(3,2) pq, where io = "plsp pl" and s = "pstart pl"] pl s lt fr1 obtain m2 L where
    m2: "mm_split_left (nid n) (plsp pl) (pstart pl) m1 = Some m2" "mm_inv m2" "m2 = m1\<lparr>head := head m2\<rparr>"
    "nodes m2 = us @ p # L @ ?n2 # q # vs" "remainder (plsp pl) L"
    by auto
  have k2: "kzcount m2 = kzcount m" by (subst m2(3)) (simp add: k1)
  have "nid ` set L \<subseteq> set_option (plsp pl)" using m2(5) by (auto simp: remainder_def split: option.splits)
  then have fr2: "fresh_for m2 (prsp pl)"
    using pl k2 ns m2(4) unfolding fresh_for_def by fastforce
  note b = unat_between [of n "pstart pl", OF _ less_imp_le [OF lt]]
  have e2: "nstart ?n2 + nsize ?n2 = nstart n + nsize n" by simp
  have sz: "unat (nsize ?n2) = unat (nstart n) + unat (nsize n) - unat (pstart pl)" using b pl by simp
  have c: "mtype ?n2 \<noteq> FREE" "sentinel ?n2 = 0" "unat (nstart ?n2) < unat (pend pl)"
    "unat (pend pl) \<le> unat (nstart ?n2) + unat (nsize ?n2)" "prsp pl = None \<longleftrightarrow> pend pl = nstart ?n2 + nsize ?n2"
    using pl s sz lt unfolding e2 by (simp_all add: word_less_iff_unat)
  obtain m3 R where
    m3: "mm_split_right (nid ?n2) (prsp pl) (pend pl) m2 = Some m3" "mm_inv m3" "m3 = m2\<lparr>head := head m3\<rparr>"
    "nodes m3 = us @ p # L @ ?n2\<lparr>nsize := pend pl - nstart ?n2\<rparr> # R @ q # vs" "remainder (prsp pl) R"
    by (rule split_right_nodes [OF m2(2,4) remainder_one_free [OF m2(5)] pq c fr2])
  show ?thesis
  proof (rule that)
    show "mm_commit flags pl m = Some m3"
      using m1(1) m2(1) m3(1) pl by (simp add: mm_commit_def Let_def)
    show "m3 = m\<lparr>head := head m3\<rparr>"
      by (rule head_chain [OF m3(3) head_chain [OF m2(3) m1(4)]])
    show "nodes m3 = us @ p # L @ taken flags pl n # R @ q # vs"
      using m3(4) by (simp add: taken_def)
  qed (use m2 m3 in blast)+
qed

end
