(* ===== verification/MmAlloc.thy ===== *)
theory MmAlloc
  imports MmInv
begin

section \<open>Allocation\<close>

text \<open>
  The search for a free node: what fits where, the pruning by gaps, and the node that is cut out.
\<close>

subsection \<open>Rounding\<close>

lemma unat_div_mult: "unat (x div y * y) = unat x div unat y * unat (y :: 'a::len word)"
proof -
  have "unat x div unat y * unat y \<le> unat x" by simp
  then have "unat x div unat y * unat y < 2 ^ LENGTH('a)" using unsigned_less [of x, where 'a = nat] by (rule le_less_trans)
  then show ?thesis by (simp add: unat_word_ariths(2) unat_div)
qed

lemma unat_roundup:
  assumes "0 < y" "unat x + 2 ^ 32 \<le> 2 ^ 64"
  shows "unat (pscnv_roundup x y) = up_to (unat x) (unat y)"
proof -
  have y: "0 < unat y" "unat y < 2 ^ 32" using assms(1) unat_u32_less [of y] by (simp_all add: word_less_iff_unat)
  let ?y = "ucast y :: u64"
  have uy: "unat ?y = unat y" by simp
  have "unat (x + ?y) = unat x + unat y"
    using assms(2) y uy unat_plus_if_no_overflow [of x ?y] by simp
  moreover have "1 \<le> x + ?y" using calculation y by (simp add: word_le_iff_unat)
  ultimately have m: "unat (x + ?y - 1) = unat x + unat y - 1" by (simp add: unat_minus_le)
  then show ?thesis unfolding pscnv_roundup_def up_to_def by (simp add: unat_div_mult)
qed

lemma unat_rounddown: "unat (pscnv_rounddown x y) = down_to (unat x) (unat y)"
  by (simp add: pscnv_rounddown_def down_to_def unat_div_mult)

subsection \<open>The free part of a node\<close>

definition page_of :: "mm \<Rightarrow> gtype \<Rightarrow> nat" where
  "page_of m ty = unat (if ty AND 2 \<noteq> 0 then lpsize m else spsize m)"

definition other_type :: "mm_node \<Rightarrow> gtype \<Rightarrow> bool" where
  "other_type n ty \<longleftrightarrow> type_code (mtype n) \<noteq> unat (ty AND 1)"

text \<open>What \<open>pscnv_mm_getfree\<close> computes, in natural numbers.\<close>

lemma getfree_nat:
  assumes l: "layout m ns" "n \<in> set ns" and g: "getfree_between m p n q ty = (s, e)"
  shows "unat s = up_to (if other_type p ty then up_to (unat (nstart n)) (unat (tssize m)) else unat (nstart n)) (page_of m ty)"
    "unat e = max (unat s) (down_to (if other_type q ty then down_to (unat (nstart n) + unat (nsize n)) (unat (tssize m))
        else unat (nstart n) + unat (nsize n)) (page_of m ty))"
proof -
  from l(1) have sz: "0 < spsize m" "0 < lpsize m" "0 < tssize m" by (auto simp: layout_def sizes_ok_def)
  note b = layout_bounds [OF l]
  define ps where "ps = (if ty AND 2 \<noteq> 0 then lpsize m else spsize m)"
  have ps: "0 < ps" "unat ps = page_of m ty" using sz by (simp_all add: ps_def page_of_def)
  define s1 where "s1 = (if other_type p ty then pscnv_roundup (nstart n) (tssize m) else nstart n)"
  define e1 where "e1 = (if other_type q ty then pscnv_rounddown (nstart n + nsize n) (tssize m) else nstart n + nsize n)"
  have u1: "unat s1 = (if other_type p ty then up_to (unat (nstart n)) (unat (tssize m)) else unat (nstart n))"
    using unat_roundup [OF sz(3), of "nstart n"] b(3) by (simp add: s1_def)
  have "unat s1 + 2 ^ 32 \<le> 2 ^ 64"
    using u1 up_to_less [of "unat (tssize m)" "unat (nstart n)"] sz(3) unat_u32_less [of "tssize m"] b(3)
    by (auto simp: word_less_iff_unat split: if_splits)
  then have us: "unat (pscnv_roundup s1 ps) = up_to (unat s1) (page_of m ty)"
    using unat_roundup ps by simp
  have ue: "unat (pscnv_rounddown e1 ps) = down_to (if other_type q ty then down_to (unat (nstart n) + unat (nsize n)) (unat (tssize m))
        else unat (nstart n) + unat (nsize n)) (page_of m ty)"
    by (simp add: unat_rounddown ps(2) e1_def b(4))
  have "getfree_between m p n q ty = (pscnv_roundup s1 ps,
      if pscnv_rounddown e1 ps < pscnv_roundup s1 ps then pscnv_roundup s1 ps else pscnv_rounddown e1 ps)"
    unfolding getfree_between_def s1_def e1_def ps_def other_type_def Let_def by (rule refl)
  then have "s = pscnv_roundup s1 ps"
    "e = (if pscnv_rounddown e1 ps < pscnv_roundup s1 ps then pscnv_roundup s1 ps else pscnv_rounddown e1 ps)"
    using g by simp_all
  then show "unat s = up_to (if other_type p ty then up_to (unat (nstart n)) (unat (tssize m)) else unat (nstart n)) (page_of m ty)"
    "unat e = max (unat s) (down_to (if other_type q ty then down_to (unat (nstart n) + unat (nsize n)) (unat (tssize m))
        else unat (nstart n) + unat (nsize n)) (page_of m ty))"
    using us ue u1 by (simp_all add: word_less_iff_unat max_def)
qed

lemma getfree_props:
  assumes l: "layout m ns" "n \<in> set ns" and g: "getfree_between m p n q ty = (s, e)"
  shows "nstart n \<le> s" "s \<le> e" "page_of m ty dvd unat s" "s < e \<Longrightarrow> page_of m ty dvd unat e"
    "s < e \<Longrightarrow> unat e \<le> unat (nstart n) + unat (nsize n)"
    "other_type p ty \<Longrightarrow> up_to (unat (nstart n)) (unat (tssize m)) \<le> unat s"
    "other_type q ty \<Longrightarrow> s < e \<Longrightarrow> unat e \<le> down_to (unat (nstart n) + unat (nsize n)) (unat (tssize m))"
proof -
  note u = getfree_nat [OF l g]
  from l(1) have sz: "0 < unat (spsize m)" "0 < unat (lpsize m)" "0 < unat (tssize m)"
    by (auto simp: layout_def sizes_ok_def word_less_iff_unat)
  then have ps: "0 < page_of m ty" by (simp add: page_of_def)
  have le: "x \<le> up_to x (page_of m ty)" for x using ps by simp
  show "nstart n \<le> s"
    using u(1) le [of "unat (nstart n)"] le [of "up_to (unat (nstart n)) (unat (tssize m))"] up_to_ge [OF sz(3), of "unat (nstart n)"]
    by (auto simp: word_le_iff_unat split: if_splits)
  show "s \<le> e" using u(2) by (simp add: word_le_iff_unat)
  show "page_of m ty dvd unat s" using u(1) by simp
  show "page_of m ty dvd unat e" if "s < e"
    using that u(2) by (simp add: word_less_iff_unat max_def split: if_splits)
  have dd: "down_to x y \<le> z" if "x \<le> z" for x y z using that down_to_le [of x y] by linarith
  show "unat e \<le> unat (nstart n) + unat (nsize n)" if "s < e"
    using that u(2) by (auto simp: word_less_iff_unat max_def split: if_splits intro!: dd)
  show "other_type p ty \<Longrightarrow> up_to (unat (nstart n)) (unat (tssize m)) \<le> unat s" using u(1) le by simp
  show "other_type q ty \<Longrightarrow> s < e \<Longrightarrow> unat e \<le> down_to (unat (nstart n) + unat (nsize n)) (unat (tssize m))"
    using u(2) by (auto simp: word_less_iff_unat max_def split: if_splits intro!: dd)
qed

subsection \<open>The window of a request in a node\<close>

definition clip :: "u64 \<Rightarrow> u64 \<Rightarrow> u64 \<times> u64 \<Rightarrow> u64 \<times> u64" where
  "clip start end' w =
     (case w of (s, e) \<Rightarrow>
        let s = (if start > s then start else s); e = (if end' < e then end' else e)
        in (s, if e < s then s else e))"

lemma clip_props:
  assumes "clip start end' (s, e) = (s', e')"
  shows "s' \<le> e'" "s \<le> s'" "start \<le> s'" "s' < e' \<Longrightarrow> e' \<le> e" "s' < e' \<Longrightarrow> e' \<le> end'"
    "s' = s \<or> s' = start" "s' < e' \<Longrightarrow> e' = e \<or> e' = end'"
  using assms by (auto simp: clip_def Let_def split: if_splits)

lemma mm_window_eq:
  assumes "distinct_ids (nodes m)" "nodes m = us @ p # n # q # vs"
  shows "mm_window m n flags start end' = Some (clip start end' (getfree_between m p n q (ucast flags)))"
proof -
  have "nodes m = (us @ [p]) @ n # q # vs" using assms(2) by simp
  from mm_access(2,3) [OF assms(1) this]
  have "mm_prev m (nid n) = Some p" "mm_next m (nid n) = Some q" by simp_all
  then show ?thesis
    by (simp add: mm_window_def pscnv_mm_getfree_def clip_def)
qed

definition fits :: "mm \<Rightarrow> u64 \<Rightarrow> u32 \<Rightarrow> u64 \<Rightarrow> u64 \<Rightarrow> mm_node \<Rightarrow> bool" where
  "fits m sz flags start end' n \<longleftrightarrow>
     mtype n = FREE \<and>
     (case mm_window m n flags start end' of None \<Rightarrow> False | Some (s, e) \<Rightarrow> e - s \<ge> mm_minsz sz flags)"

lemma window_props:
  assumes l: "layout m (nodes m)" and n: "n \<in> set (nodes m)" "mtype n = FREE"
  obtains s e p q us vs where "mm_window m n flags start end' = Some (s, e)" "s \<le> e" "nstart n \<le> s" "start \<le> s"
    "s < e \<Longrightarrow> unat e \<le> unat (nstart n) + unat (nsize n)" "s < e \<Longrightarrow> e \<le> end'"
    "e - s \<le> gap n (ucast flags)"
    "nodes m = us @ p # n # q # vs" "(s, e) = clip start end' (getfree_between m p n q (ucast flags))"
proof -
  have s0: "sentinel n = 0" using layout_free_sentinel [OF l n] .
  from n(1) obtain xs ys where x: "nodes m = xs @ n # ys" by (meson split_list)
  from layout_inner [OF l [unfolded x] s0] obtain us p q vs where "xs = us @ [p]" "ys = q # vs" by metis
  with x have ns: "nodes m = us @ p # n # q # vs" by simp
  obtain s1 e1 where g: "getfree_between m p n q (ucast flags) = (s1, e1)" by fastforce
  obtain s e where c: "clip start end' (s1, e1) = (s, e)" by fastforce
  have d: "distinct_ids (nodes m)" using l by (simp add: layout_def)
  note gp = getfree_props [OF l n(1) g] note cp = clip_props [OF c]
  have "gaps_ok m (us @ p # n # q # vs)" using l ns by (simp add: layout_def)
  then have gap: "gap n (ucast flags) = e1 - s1"
    using gaps_ok_split [of m us p n "q # vs"] n(2) g by (simp add: node_gap_def)
  have "e - s \<le> e1 - s1"
  proof (cases "s < e")
    case True
    then have "s1 \<le> s" "s \<le> e" "e \<le> e1" using cp by simp_all
    then show ?thesis by (auto simp: word_le_iff_unat unat_minus_le)
  next
    case False
    with cp(1) show ?thesis by simp
  qed
  moreover have "s < e \<Longrightarrow> unat e \<le> unat (nstart n) + unat (nsize n)"
    using cp(1,2,4) gp(5) by (metis le_less_trans less_le_trans order_trans word_le_iff_unat)
  moreover have "mm_window m n flags start end' = Some (s, e)" using mm_window_eq [OF d ns] g c by simp
  moreover have "nstart n \<le> s" using gp(1) cp(2) by (rule order_trans)
  moreover have "(s, e) = clip start end' (getfree_between m p n q (ucast flags))" using g c by simp
  ultimately show ?thesis using that [of s e us p q vs] gap ns cp by simp
qed

subsection \<open>The search\<close>

text \<open>What \<open>pl\<close> is when it was chosen in node \<open>n\<close>, with fresh addresses from \<open>k\<close> on.\<close>

definition placed :: "mm \<Rightarrow> u64 \<Rightarrow> u32 \<Rightarrow> u64 \<Rightarrow> u64 \<Rightarrow> mm_node \<Rightarrow> nat \<Rightarrow> nat \<Rightarrow> mm_place \<Rightarrow> bool" where
  "placed m sz flags start end' n k k' pl \<longleftrightarrow>
     fits m sz flags start end' n \<and> pnode pl = nid n \<and>
     map_option (mm_cut sz flags) (mm_window m n flags start end') = Some (pstart pl, pend pl) \<and>
     (plsp pl = None \<longleftrightarrow> pstart pl = nstart n) \<and> (prsp pl = None \<longleftrightarrow> pend pl = nstart n + nsize n) \<and>
     (\<forall>i. plsp pl = Some i \<or> prsp pl = Some i \<longrightarrow> k \<le> i \<and> i < k') \<and>
     (\<forall>i. plsp pl = Some i \<longrightarrow> prsp pl \<noteq> Some i)"

lemma placed_later: "placed m sz flags start end' n k1 k' pl \<Longrightarrow> k \<le> k1 \<Longrightarrow> placed m sz flags start end' n k k' pl"
  unfolding placed_def by (meson le_trans)

lemma try_node_cases:
  assumes "mm_try_node kz n w k = (r, k')"
  shows "k \<le> k' \<and>
    (case r of
       Inl err \<Rightarrow> err = ENOMEM \<and> \<not> (\<forall>i \<ge> k. kz i)
     | Inr pl \<Rightarrow> pnode pl = nid n \<and> (pstart pl, pend pl) = w \<and>
         (plsp pl = None \<longleftrightarrow> pstart pl = nstart n) \<and> (prsp pl = None \<longleftrightarrow> pend pl = nstart n + nsize n) \<and>
         (\<forall>i. plsp pl = Some i \<or> prsp pl = Some i \<longrightarrow> k \<le> i \<and> i < k') \<and>
         (\<forall>i. plsp pl = Some i \<longrightarrow> prsp pl \<noteq> Some i))"
  using assms unfolding mm_try_node_def
  by (auto simp: Let_def split: prod.splits if_splits) (metis le_add2 plus_1_eq_Suc)

lemma cut_props:
  assumes "s \<le> e" "mm_minsz sz flags \<le> e - s" "0 < sz" "mm_cut sz flags (s, e) = (s', e')"
  shows "s \<le> s'" "s' < e'" "e' \<le> e" "e' - s' \<le> sz" "mm_minsz sz flags \<le> e' - s'"
    "e' - s' = sz \<or> (s', e') = (s, e)"
proof -
  have m: "0 < mm_minsz sz flags" "mm_minsz sz flags \<le> sz"
    using assms(3) unfolding mm_minsz_def by (auto simp: word_le_iff_unat word_less_iff_unat)
  have d: "unat (e - s) = unat e - unat s" using assms(1) by (rule unat_minus_le)
  have "s \<le> s' \<and> s' < e' \<and> e' \<le> e \<and> e' - s' \<le> sz \<and> mm_minsz sz flags \<le> e' - s' \<and>
    (e' - s' = sz \<or> (s', e') = (s, e))"
  proof (cases "e - s > sz")
    case True
    then have gt: "unat sz < unat e - unat s" using d by (simp add: word_less_iff_unat)
    show ?thesis
    proof (cases "flags AND PSCNV_MM_FROMBACK \<noteq> 0")
      case True
      with \<open>e - s > sz\<close> assms(4) have c: "s' = e - sz" "e' = e" by (auto simp: mm_cut_def)
      have "unat (e - sz) = unat e - unat sz" using gt by (intro unat_minus_le) (simp add: word_le_iff_unat)
      then show ?thesis using c gt m assms(3) by (simp add: word_le_iff_unat word_less_iff_unat)
    next
      case False
      with \<open>e - s > sz\<close> assms(4) have c: "s' = s" "e' = s + sz" by (auto simp: mm_cut_def)
      have "unat (s + sz) = unat s + unat sz"
        using gt unat_u64_less [of e] by (intro unat_plus_if_no_overflow) simp
      then show ?thesis using c gt m assms(3) by (simp add: word_le_iff_unat word_less_iff_unat)
    qed
  next
    case False
    with assms(4) have c: "s' = s" "e' = e" by (auto simp: mm_cut_def)
    have "0 < unat (e - s)" using m(1) assms(2) by (simp add: word_le_iff_unat word_less_iff_unat)
    with d have "unat s < unat e" by simp
    then show ?thesis using c False assms(2) by (simp add: word_le_iff_unat word_less_iff_unat)
  qed
  then show "s \<le> s'" "s' < e'" "e' \<le> e" "e' - s' \<le> sz" "mm_minsz sz flags \<le> e' - s'"
    "e' - s' = sz \<or> (s', e') = (s, e)" by blast+
qed

lemma tiles_before:
  assumes "successively adjacent (x # as @ [y])"
  shows "unat (nstart x) + unat (nsize x) \<le> unat (nstart y)"
proof (cases as)
  case (Cons z zs)
  then have "adjacent x z" "successively adjacent (as @ [y])" using assms by simp_all
  then show ?thesis
    using tiles_bounds(1) [of "as @ [y]" y] Cons by (simp add: adjacent_def)
qed (use assms in \<open>simp add: adjacent_def\<close>)

text \<open>Pruning is sound: a subtree that is not entered holds no fit.\<close>

lemma fits_bounds:
  assumes "layout m (nodes m)" "n \<in> set (nodes m)" "fits m sz flags start end' n" "0 < sz"
  shows "mm_minsz sz flags \<le> gap n (ucast flags)" "unat start < unat (nstart n) + unat (nsize n)"
    "nstart n < end'"
proof -
  have m: "0 < mm_minsz sz flags" using assms(4) by (auto simp: mm_minsz_def)
  from assms(3) have "mtype n = FREE" by (simp add: fits_def)
  from window_props [OF assms(1,2) this, of flags start end'] obtain s e where
    w: "mm_window m n flags start end' = Some (s, e)" "s \<le> e" "nstart n \<le> s" "start \<le> s"
    "s < e \<Longrightarrow> unat e \<le> unat (nstart n) + unat (nsize n)" "s < e \<Longrightarrow> e \<le> end'"
    "e - s \<le> gap n (ucast flags)"
    by metis
  from assms(3) w(1) have f: "mm_minsz sz flags \<le> e - s" by (simp add: fits_def)
  then show "mm_minsz sz flags \<le> gap n (ucast flags)" using w(7) by (rule order_trans)
  have "s \<noteq> e" using m f by auto
  with w(2) have "s < e" by simp
  with w show "unat start < unat (nstart n) + unat (nsize n)" "nstart n < end'"
    by (auto simp: word_less_iff_unat word_le_iff_unat)
qed

lemma aug_ge_root:
  assumes "aug_ge gap t" "n \<in> set (inorder t)"
  obtains g where "root_aug t = Some g" "gap n \<le> g"
proof -
  from assms have "\<exists>g. root_aug t = Some g \<and> gap n \<le> g"
  proof (induction t)
    case (Node c a l k r)
    then show ?case by (auto simp: less_eq_option_def intro: order_trans split: option.splits)
  qed simp
  with that show ?thesis by blast
qed

definition search_ok ::
  "(nat \<Rightarrow> bool) \<Rightarrow> mm \<Rightarrow> u64 \<Rightarrow> u32 \<Rightarrow> u64 \<Rightarrow> u64 \<Rightarrow> mm_node list \<Rightarrow> nat \<Rightarrow> mm_place res \<Rightarrow> nat \<Rightarrow> bool" where
  "search_ok kz m sz flags start end' ns k r k' \<longleftrightarrow>
     k \<le> k' \<and>
     (case r of
        Inl err \<Rightarrow> err = ENOMEM \<and> ((\<forall>i \<ge> k. kz i) \<longrightarrow> (\<forall>n \<in> set ns. \<not> fits m sz flags start end' n))
      | Inr pl \<Rightarrow>
          (\<exists>xs n ys. ns = xs @ n # ys \<and> placed m sz flags start end' n k k' pl \<and>
             ((\<forall>i \<ge> k. kz i) \<longrightarrow>
               (\<forall>x \<in> set (if flags AND PSCNV_MM_FROMBACK \<noteq> 0 then ys else xs). \<not> fits m sz flags start end' x))))"

text \<open>Extending the range searched, and continuing after a failure.\<close>

lemma search_ok_extend:
  assumes "search_ok kz m sz flags start end' ns k r k'"
    and "(\<forall>i \<ge> k. kz i) \<Longrightarrow> (case r of Inl _ \<Rightarrow> (\<forall>x \<in> set (xs @ ys). \<not> fits m sz flags start end' x)
      | Inr _ \<Rightarrow> (\<forall>x \<in> set (if flags AND PSCNV_MM_FROMBACK \<noteq> 0 then ys else xs). \<not> fits m sz flags start end' x))"
  shows "search_ok kz m sz flags start end' (xs @ ns @ ys) k r k'"
proof (cases r)
  case (Inl err)
  with assms show ?thesis by (auto simp: search_ok_def)
next
  case (Inr pl)
  with assms(1) obtain as n bs where ns: "ns = as @ n # bs" "placed m sz flags start end' n k k' pl" "k \<le> k'"
    "(\<forall>i \<ge> k. kz i) \<longrightarrow> (\<forall>x \<in> set (if flags AND PSCNV_MM_FROMBACK \<noteq> 0 then bs else as). \<not> fits m sz flags start end' x)"
    by (auto simp: search_ok_def)
  have "xs @ ns @ ys = (xs @ as) @ n # (bs @ ys)" using ns by simp
  moreover have "(\<forall>i \<ge> k. kz i) \<longrightarrow>
      (\<forall>x \<in> set (if flags AND PSCNV_MM_FROMBACK \<noteq> 0 then bs @ ys else xs @ as). \<not> fits m sz flags start end' x)"
    using ns(4) assms(2) Inr by (auto split: if_splits)
  ultimately show ?thesis
    using ns(2,3) unfolding Inr search_ok_def sum.case
    by (intro conjI exI [of _ "xs @ as"] exI [of _ n] exI [of _ "bs @ ys"]) assumption+
qed

lemma search_ok_later:
  assumes "search_ok kz m sz flags start end' ns k1 r k'" "k \<le> k1"
  shows "search_ok kz m sz flags start end' ns k r k'"
proof (cases r)
  case (Inl err)
  with assms show ?thesis by (auto simp: search_ok_def)
next
  case (Inr pl)
  from assms(1) obtain xs n ys where ns: "ns = xs @ n # ys" "placed m sz flags start end' n k1 k' pl" "k1 \<le> k'"
    "(\<forall>i \<ge> k1. kz i) \<longrightarrow>
      (\<forall>x \<in> set (if flags AND PSCNV_MM_FROMBACK \<noteq> 0 then ys else xs). \<not> fits m sz flags start end' x)"
    unfolding Inr search_ok_def sum.case by blast
  have "(\<forall>i \<ge> k. kz i) \<longrightarrow>
      (\<forall>x \<in> set (if flags AND PSCNV_MM_FROMBACK \<noteq> 0 then ys else xs). \<not> fits m sz flags start end' x)"
    using ns(4) assms(2) by (metis le_trans)
  moreover have "k \<le> k'" using assms(2) ns(3) by simp
  ultimately show ?thesis
    using ns(1) placed_later [OF ns(2) assms(2)] unfolding Inr search_ok_def sum.case by blast
qed

lemma search_correct:
  assumes inv: "layout m (nodes m)" and sz: "0 < sz"
  shows "nodes m = us @ inorder t @ vs \<Longrightarrow> aug_ge gap t \<Longrightarrow> t \<noteq> Leaf \<Longrightarrow>
    \<exists>r k'. mm_search kz m sz flags start end' t k = Some (r, k') \<and>
      search_ok kz m sz flags start end' (inorder t) k r k'"
proof (induction t arbitrary: us vs k)
  case (Node c a l node r)
  let ?ty = "ucast flags :: gtype" and ?minsz = "mm_minsz sz flags"
  let ?rear = "flags AND PSCNV_MM_FROMBACK \<noteq> 0"
  let ?fits = "fits m sz flags start end'"
  let ?ok = "search_ok kz m sz flags start end'"
  define lok where "lok = (case root_aug l of None \<Rightarrow> False | Some g \<Rightarrow> g ?ty \<ge> ?minsz \<and> nstart node > start)"
  define rok where "rok = (case root_aug r of None \<Rightarrow> False
                 | Some g \<Rightarrow> g ?ty \<ge> ?minsz \<and> nstart node + nsize node < end')"
  define L where "L = (\<lambda>k. if lok then mm_search kz m sz flags start end' l k else Some (Inl ENOMEM, k))"
  define R where "R = (\<lambda>k. if rok then mm_search kz m sz flags start end' r k else Some (Inl ENOMEM, k))"
  from Node.prems(1) have ns: "nodes m = us @ inorder l @ node # inorder r @ vs" by simp
  have sub: "set (inorder l) \<subseteq> set (nodes m)" "node \<in> set (nodes m)" "set (inorder r) \<subseteq> set (nodes m)"
    unfolding ns by auto
  have asc: "node_order.ascending (inorder l @ node # inorder r)"
    using layout_ascending [OF inv] ns by (simp add: sorted_wrt_append)
  have adjs: "successively adjacent (inorder l @ node # inorder r)"
  proof -
    have "successively adjacent (us @ (inorder l @ node # inorder r) @ vs)"
      using inv ns by (simp add: layout_def)
    then show ?thesis by (simp only: successively_append_iff)
  qed
  have noL: "\<not> ?fits x" if nl: "\<not> lok" "x \<in> set (inorder l)" for x
  proof
    assume f: "?fits x"
    have x: "x \<in> set (nodes m)" using sub(1) nl(2) by blast
    from Node.prems(2) have "aug_ge gap l" by simp
    then obtain g where g: "root_aug l = Some g" "gap x \<le> g" using aug_ge_root nl(2) by blast
    note fb = fits_bounds [OF inv x f sz]
    have "?minsz \<le> g ?ty" using fb(1) g(2) by (auto simp: le_fun_def intro: order_trans)
    moreover have "start < nstart node"
    proof -
      from nl(2) obtain as bs where "inorder l = as @ x # bs" by (meson split_list)
      then have "successively adjacent ((x # bs) @ [node])"
        using adjs successively_split [of adjacent "x # bs" node "inorder r"]
        by (simp add: successively_append_iff)
      then have "unat (nstart x) + unat (nsize x) \<le> unat (nstart node)"
        using tiles_before by simp
      then show ?thesis using fb(2) by (simp add: word_less_iff_unat)
    qed
    ultimately show False using nl(1) g(1) by (simp add: lok_def)
  qed
  have noR: "\<not> ?fits x" if nl: "\<not> rok" "x \<in> set (inorder r)" for x
  proof
    assume f: "?fits x"
    have x: "x \<in> set (nodes m)" using sub(3) nl(2) by blast
    from Node.prems(2) have "aug_ge gap r" by simp
    then obtain g where g: "root_aug r = Some g" "gap x \<le> g" using aug_ge_root nl(2) by blast
    note fb = fits_bounds [OF inv x f sz]
    have "?minsz \<le> g ?ty" using fb(1) g(2) by (auto simp: le_fun_def intro: order_trans)
    moreover have "nstart node + nsize node < end'"
    proof -
      from nl(2) obtain as bs where "inorder r = as @ x # bs" by (meson split_list)
      then have "successively adjacent ((node # as) @ [x])"
        using adjs successively_split [of adjacent "inorder l @ node # as" x bs] by (simp add: successively_append_iff)
      then have "unat (nstart node) + unat (nsize node) \<le> unat (nstart x)"
        using tiles_before by simp
      then show ?thesis using fb(3) layout_bounds(4) [OF inv sub(2)] by (simp add: word_less_iff_unat)
    qed
    ultimately show False using nl(1) g(1) by (simp add: rok_def)
  qed
  have L: "\<exists>res k'. L k = Some (res, k') \<and> ?ok (inorder l) k res k'" for k
  proof (cases lok)
    case True
    then have "l \<noteq> Leaf" by (auto simp: lok_def)
    moreover have "nodes m = us @ inorder l @ (node # inorder r @ vs)" using ns by simp
    ultimately show ?thesis using Node.IH(1) [of us "node # inorder r @ vs" k] Node.prems(2) True by (simp add: L_def)
  next
    case False
    with noL show ?thesis by (auto simp: L_def search_ok_def)
  qed
  have R: "\<exists>res k'. R k = Some (res, k') \<and> ?ok (inorder r) k res k'" for k
  proof (cases rok)
    case True
    then have "r \<noteq> Leaf" by (auto simp: rok_def)
    moreover have "nodes m = (us @ inorder l @ [node]) @ inorder r @ vs" using ns by simp
    ultimately show ?thesis using Node.IH(2) [of "us @ inorder l @ [node]" vs k] Node.prems(2) True by (simp add: R_def)
  next
    case False
    with noR show ?thesis by (auto simp: R_def search_ok_def)
  qed
  define N where "N = (\<lambda>k second. if mtype node = FREE then
             (case mm_window m node flags start end' of
                None \<Rightarrow> None
              | Some (s, e) \<Rightarrow>
                  if e - s \<ge> ?minsz then Some (mm_try_node kz node (mm_cut sz flags (s, e)) k)
                  else second k)
           else second k)"
  have eq: "mm_search kz m sz flags start end' (Node c a l node r) k =
     (case (if ?rear then R k else L k) of
        None \<Rightarrow> None
      | Some (Inr pl, k1) \<Rightarrow> Some (Inr pl, k1)
      | Some (Inl err, k1) \<Rightarrow> N k1 (if ?rear then L else R))"
    by (auto simp: lok_def [symmetric] rok_def [symmetric] L_def R_def N_def Let_def split: option.split sum.split prod.split)
  have nodeN: "(?fits node \<and> (\<exists>res k'. N k sec = Some (res, k') \<and> ?ok [node] k res k')) \<or>
      (\<not> ?fits node \<and> N k sec = sec k)" for k sec
  proof (cases "?fits node")
    case True
    then obtain s e where f: "mtype node = FREE" "mm_window m node flags start end' = Some (s, e)" "?minsz \<le> e - s"
      by (auto simp: fits_def split: option.splits)
    obtain res k' where t: "mm_try_node kz node (mm_cut sz flags (s, e)) k = (res, k')" by fastforce
    have "?ok [node] k res k'"
      using try_node_cases [OF t] f True
      by (cases res) (auto simp: search_ok_def placed_def intro!: exI [of _ "[]"])
    then show ?thesis using True f t by (simp add: N_def)
  next
    case False
    then show ?thesis
    proof (cases "mtype node = FREE")
      case True
      from window_props [OF inv sub(2) True, of flags start end'] obtain s e where
        "mm_window m node flags start end' = Some (s, e)" by metis
      with False True show ?thesis by (simp add: N_def fits_def)
    qed (simp add: N_def)
  qed
  have all: "inorder (Node c a l node r) = inorder l @ [node] @ inorder r" by simp
  show ?case
  proof (cases ?rear)
    case True
    from R [of k] obtain r1 k1 where r1: "R k = Some (r1, k1)" "?ok (inorder r) k r1 k1" by blast
    show ?thesis
    proof (cases r1)
      case (Inr pl)
      have "?ok ((inorder l @ [node]) @ inorder r @ []) k r1 k1"
        by (rule search_ok_extend [OF r1(2)]) (use True Inr in simp)
      then show ?thesis using eq True r1 Inr by simp
    next
      case (Inl err)
      then have e: "mm_search kz m sz flags start end' (Node c a l node r) k = N k1 L"
        using eq True r1 by simp
      have k1: "k \<le> k1" and noR': "(\<forall>i \<ge> k. kz i) \<Longrightarrow> \<forall>n \<in> set (inorder r). \<not> ?fits n"
        using r1(2) Inl by (simp_all add: search_ok_def)
      from nodeN [of k1 L] show ?thesis
      proof (elim disjE conjE exE)
        fix res k' assume f: "?fits node" and n: "N k1 L = Some (res, k')" "?ok [node] k1 res k'"
        have "?ok (inorder l @ [node] @ inorder r) k res k'"
        proof (rule search_ok_extend [OF search_ok_later [OF n(2) k1]])
          assume "\<forall>i \<ge> k. kz i"
          then show "case res of Inl _ \<Rightarrow> \<forall>x \<in> set (inorder l @ inorder r). \<not> ?fits x
            | Inr _ \<Rightarrow> \<forall>x \<in> set (if ?rear then inorder r else inorder l). \<not> ?fits x"
            using n(2) f noR' k1 True by (auto simp: search_ok_def split: sum.split)
        qed
        then show ?thesis using e n(1) by simp
      next
        assume f: "\<not> ?fits node" and n: "N k1 L = L k1"
        from L [of k1] obtain r2 k2 where r2: "L k1 = Some (r2, k2)" "?ok (inorder l) k1 r2 k2" by blast
        have "?ok ([] @ inorder l @ node # inorder r) k r2 k2"
        proof (rule search_ok_extend [OF search_ok_later [OF r2(2) k1]])
          assume "\<forall>i \<ge> k. kz i"
          then show "case r2 of Inl _ \<Rightarrow> \<forall>x \<in> set ([] @ node # inorder r). \<not> ?fits x
            | Inr _ \<Rightarrow> \<forall>x \<in> set (if ?rear then node # inorder r else []). \<not> ?fits x"
            using noR' f True by (auto split: sum.split)
        qed
        then show ?thesis using e n r2(1) by simp
      qed
    qed
  next
    case False
    from L [of k] obtain r1 k1 where r1: "L k = Some (r1, k1)" "?ok (inorder l) k r1 k1" by blast
    show ?thesis
    proof (cases r1)
      case (Inr pl)
      have "?ok ([] @ inorder l @ (node # inorder r)) k r1 k1"
        by (rule search_ok_extend [OF r1(2)]) (use False Inr in simp)
      then show ?thesis using eq False r1 Inr by simp
    next
      case (Inl err)
      then have e: "mm_search kz m sz flags start end' (Node c a l node r) k = N k1 R"
        using eq False r1 by simp
      have k1: "k \<le> k1" and noL': "(\<forall>i \<ge> k. kz i) \<Longrightarrow> \<forall>n \<in> set (inorder l). \<not> ?fits n"
        using r1(2) Inl by (simp_all add: search_ok_def)
      from nodeN [of k1 R] show ?thesis
      proof (elim disjE conjE exE)
        fix res k' assume f: "?fits node" and n: "N k1 R = Some (res, k')" "?ok [node] k1 res k'"
        have "?ok (inorder l @ [node] @ inorder r) k res k'"
        proof (rule search_ok_extend [OF search_ok_later [OF n(2) k1]])
          assume "\<forall>i \<ge> k. kz i"
          then show "case res of Inl _ \<Rightarrow> \<forall>x \<in> set (inorder l @ inorder r). \<not> ?fits x
            | Inr _ \<Rightarrow> \<forall>x \<in> set (if ?rear then inorder r else inorder l). \<not> ?fits x"
            using n(2) f noL' k1 False by (auto simp: search_ok_def split: sum.split)
        qed
        then show ?thesis using e n(1) by simp
      next
        assume f: "\<not> ?fits node" and n: "N k1 R = R k1"
        from R [of k1] obtain r2 k2 where r2: "R k1 = Some (r2, k2)" "?ok (inorder r) k1 r2 k2" by blast
        have "?ok ((inorder l @ [node]) @ inorder r @ []) k r2 k2"
        proof (rule search_ok_extend [OF search_ok_later [OF r2(2) k1]])
          assume "\<forall>i \<ge> k. kz i"
          then show "case r2 of Inl _ \<Rightarrow> \<forall>x \<in> set ((inorder l @ [node]) @ []). \<not> ?fits x
            | Inr _ \<Rightarrow> \<forall>x \<in> set (if ?rear then [] else inorder l @ [node]). \<not> ?fits x"
            using noL' f False by (auto split: sum.split)
        qed
        then show ?thesis using e n r2(1) by simp
      qed
    qed
  qed
qed simp

end
