(* ===== verification/MmOps.thy ===== *)
theory MmOps
  imports MmAlloc
begin

section \<open>The operations on whole allocations\<close>

text \<open>
  Chains of fragments: allocating them one after the other, unwinding a failure, freeing a whole chain.
\<close>

subsection \<open>Tiling, bounds and what every operation keeps\<close>

text \<open>Blocks of different types never share a block of \<open>tssize\<close> bytes.\<close>

definition apart :: "nat \<Rightarrow> mm_node \<Rightarrow> mm_node \<Rightarrow> bool" where
  "apart ts a b \<longleftrightarrow>
     mtype a = mtype b \<or> up_to (unat (nstart a) + unat (nsize a)) ts \<le> unat (nstart b)"

definition not_free :: "mm_node \<Rightarrow> bool" where
  "not_free n \<longleftrightarrow> mtype n \<noteq> FREE"

definition tiled :: "mm \<Rightarrow> bool" where
  "tiled m \<longleftrightarrow> successively (apart (unat (tssize m))) (filter not_free (nodes m))"

definition mm_frame :: "mm \<Rightarrow> mm \<Rightarrow> bool" where
  "mm_frame m m' \<longleftrightarrow>
     spsize m' = spsize m \<and> lpsize m' = lpsize m \<and> tssize m' = tssize m \<and> kzcount m \<le> kzcount m' \<and>
     mm_bounds m' = mm_bounds m \<and> (tiled m \<longrightarrow> tiled m')"

lemma mm_frame_refl [simp]: "mm_frame m m"
  by (simp add: mm_frame_def)

lemma mm_frame_trans: "mm_frame a b \<Longrightarrow> mm_frame b c \<Longrightarrow> mm_frame a c"
  by (auto simp: mm_frame_def)

lemma apart_trans:
  assumes "apart ts a c" "apart ts c b" "mtype a \<noteq> FREE" "mtype b \<noteq> FREE" "mtype c \<noteq> FREE" "0 < ts"
    "unat (nstart a) + unat (nsize a) \<le> unat (nstart c)" "unat (nstart c) + unat (nsize c) \<le> unat (nstart b)"
  shows "apart ts a b"
proof (cases "mtype a = mtype b")
  case False
  have "up_to (unat (nstart a) + unat (nsize a)) ts \<le> unat (nstart b)"
  proof (cases "mtype a = mtype c")
    case True
    then have "up_to (unat (nstart c) + unat (nsize c)) ts \<le> unat (nstart b)"
      using assms(2) False by (auto simp: apart_def)
    moreover have "up_to (unat (nstart a) + unat (nsize a)) ts \<le> up_to (unat (nstart c) + unat (nsize c)) ts"
      using assms(7) by (intro up_to_mono) simp
    ultimately show ?thesis by (rule order_trans [rotated])
  next
    case False
    then show ?thesis using assms(1,8) by (auto simp: apart_def)
  qed
  then show ?thesis by (simp add: apart_def)
qed (simp add: apart_def)

lemma at_most_one_free_filter [simp]:
  assumes "at_most_one_free A"
  shows "filter is_used A = []" "filter not_free A = []"
  using assms by (auto simp: at_most_one_free_def is_used_def not_free_def)

lemma used_mem: "n \<in> set (used m) \<longleftrightarrow> n \<in> set (nodes m) \<and> is_used n"
  by (auto simp: used_def)

lemma distinct_used: "mm_inv m \<Longrightarrow> distinct (map nid (used m))"
  unfolding used_def mm_inv_def layout_def distinct_ids_def by (simp add: distinct_map_filter)

lemma free_node_used:
  assumes inv: "mm_inv m" and n: "n \<in> set (used m)"
  obtains m' where "pscnv_mm_free_node m (nid n) = Some m'" "mm_inv m'" "mm_frame m m'"
    "used m' = filter (\<lambda>x. nid x \<noteq> nid n) (used m)"
proof -
  from inv have lay: "layout m (nodes m)" by (simp add: mm_inv_def)
  from n have "n \<in> set (nodes m)" and u: "is_used n" by (auto simp: used_mem)
  then obtain xs ys where x: "nodes m = xs @ n # ys" by (meson split_list)
  have s: "sentinel n = 0" "mtype n \<noteq> FREE" using u by (simp_all add: is_used_def)
  from layout_around [OF lay [unfolded x] s(1)] obtain us p A B q vs where
    a: "xs = us @ p # A" "ys = B @ q # vs" "mtype p \<noteq> FREE" "mtype q \<noteq> FREE" "at_most_one_free A" "at_most_one_free B" .
  then have ns: "nodes m = us @ p # A @ n # B @ q # vs" using x by simp
  from free_node_nodes [OF inv ns s(1) a(3-6)] obtain m' where
    m': "pscnv_mm_free_node m (nid n) = Some m'" "mm_inv m'" "m' = m\<lparr>head := head m'\<rparr>"
    "nodes m' = us @ p # (coalesced A n B)\<lparr>gap := node_gap m p (coalesced A n B) q\<rparr> # q # vs" .
  have d: "distinct (map nid (us @ p # A @ n # B @ q # vs))"
    using lay ns by (simp add: layout_def distinct_ids_def)
  have nid: "\<And>x. x \<in> set (us @ p # A @ B @ q # vs) \<Longrightarrow> nid x \<noteq> nid n"
    using d by (auto simp: image_iff)
  define X Y where "X = filter is_used (us @ [p])" and "Y = filter is_used (q # vs)"
  have U: "used m = X @ n # Y"
    unfolding used_def ns X_def Y_def using u a(5,6) by simp
  have "filter (\<lambda>x. nid x \<noteq> nid n) X = X" "filter (\<lambda>x. nid x \<noteq> nid n) Y = Y"
    by (rule filter_True, use nid in \<open>auto simp: X_def Y_def\<close>)+
  moreover have "used m' = X @ Y" unfolding used_def m'(4) X_def Y_def by (simp add: is_used_def)
  ultimately have us: "used m' = filter (\<lambda>x. nid x \<noteq> nid n) (used m)" unfolding U by simp
  have sizes: "spsize m' = spsize m" "lpsize m' = lpsize m" "tssize m' = tssize m" "kzcount m' = kzcount m"
    by (subst m'(3), simp)+
  have "tiled m'" if t: "tiled m"
  proof -
    let ?P = "apart (unat (tssize m))"
    have "filter not_free (nodes m) = filter not_free us @ p # n # q # filter not_free vs"
      unfolding ns using s a(3-6) by (simp add: not_free_def)
    with t have c: "successively ?P (filter not_free us @ p # n # q # filter not_free vs)"
      by (simp add: tiled_def)
    have in_ns: "successively adjacent (p # A @ [n])" "successively adjacent (n # B @ [q])"
      using lay successively_split [of adjacent us p "A @ n # B @ q # vs"]
        successively_split [of adjacent "p # A" n "B @ q # vs"] successively_split [of adjacent "n # B" q vs]
      unfolding layout_def ns by auto
    have "?P p q"
    proof (rule apart_trans [of _ p n q])
      show "?P p n" "?P n q" using c by (simp_all add: successively_append_iff)
      show "0 < unat (tssize m)" using lay by (simp add: layout_def sizes_ok_def word_less_iff_unat)
    qed (use s a in_ns tiles_before in auto)
    then have "successively ?P (filter not_free us @ p # q # filter not_free vs)"
      using c by (simp add: successively_append_iff)
    moreover have "filter not_free (nodes m') = filter not_free us @ p # q # filter not_free vs"
      unfolding m'(4) using a(3,4) by (simp add: not_free_def)
    ultimately show ?thesis using sizes by (simp add: tiled_def)
  qed
  moreover have "mm_bounds m' = mm_bounds m"
    unfolding mm_bounds_def m'(4) ns by (cases us; cases vs) simp_all
  ultimately have "mm_frame m m'" using sizes by (simp add: mm_frame_def)
  with that m' us show ?thesis by blast
qed

subsection \<open>One block\<close>

text \<open>What a block got for a request is: in the range asked for, of the type asked for, of whole
  pages when the request is, and not larger than asked for.\<close>

definition block_ok :: "nat \<Rightarrow> u32 \<Rightarrow> u64 \<Rightarrow> u64 \<Rightarrow> mm_node \<Rightarrow> bool" where
  "block_ok ps flags start end' n \<longleftrightarrow>
     mtype n = used_type flags \<and> start \<le> nstart n \<and> unat (nstart n) + unat (nsize n) \<le> unat end' \<and>
     0 < nsize n \<and> ps dvd unat (nstart n) \<and> ps dvd unat (nsize n)"

lemma page_of_flags: "page_of m (ucast flags) = unat (mm_psize m flags)"
proof -
  have "((ucast flags :: gtype) AND 2 \<noteq> 0) = (flags AND PSCNV_MM_LP \<noteq> 0)"
    using and_exp_eq_0_iff_not_bit [of "ucast flags :: gtype" 1] and_exp_eq_0_iff_not_bit [of flags 1]
    by (simp add: bit_simps)
  then show ?thesis by (simp add: page_of_def mm_psize_def)
qed

lemma type_of_flags: "type_code (used_type flags) = unat ((ucast flags :: gtype) AND 1)"
proof -
  have "odd (ucast flags :: gtype) = odd flags" by (simp add: bit_simps flip: bit_0)
  then show ?thesis by (simp add: used_type_def and_one_eq mod2_eq_if)
qed

lemma other_type_flags: "mtype n \<noteq> FREE \<Longrightarrow> other_type n (ucast flags) \<longleftrightarrow> mtype n \<noteq> used_type flags"
  unfolding other_type_def type_of_flags [symmetric] by (cases "mtype n"; cases "used_type flags") auto

lemma mm_inv_kzcount:
  "mm_inv m \<Longrightarrow> kzcount m \<le> k \<Longrightarrow> mm_inv (m\<lparr>kzcount := k\<rparr>)"
  unfolding mm_inv_def using layout_cong [of m "m\<lparr>kzcount := k\<rparr>" "nodes m"] by (simp add: nodes_def)

lemma nodes_kzcount [simp]: "nodes (m\<lparr>kzcount := k\<rparr>) = nodes m"
  by (simp add: nodes_def)

text \<open>Either no memory, and nothing changes; or one block is carved out of a free node.\<close>

lemma alloc_single_cases:
  assumes inv: "mm_inv m" and sz: "0 < sz"
  obtains
    (no) k where "pscnv_mm_alloc_single kz m sz flags start end' = Some (Inl ENOMEM, m\<lparr>kzcount := k\<rparr>)"
      "mm_inv (m\<lparr>kzcount := k\<rparr>)" "kzcount m \<le> k"
      "(\<forall>i \<ge> kzcount m. kz i) \<longrightarrow> (\<forall>n \<in> set (nodes m). \<not> fits m sz flags start end' n)"
  | (yes) m' us p n q vs L R pl where
      "pscnv_mm_alloc_single kz m sz flags start end' = Some (Inr (nid n), m')" "mm_inv m'"
      "nodes m = us @ p # n # q # vs" "nodes m' = us @ p # L @ taken flags pl n # R @ q # vs"
      "mtype n = FREE" "mtype p \<noteq> FREE" "mtype q \<noteq> FREE" "at_most_one_free L" "at_most_one_free R"
      "fits m sz flags start end' n"
      "map_option (mm_cut sz flags) (mm_window m n flags start end') = Some (pstart pl, pend pl)"
      "(\<forall>i \<ge> kzcount m. kz i) \<longrightarrow>
        (\<forall>x \<in> set (if flags AND PSCNV_MM_FROMBACK \<noteq> 0 then q # vs else us @ [p]). \<not> fits m sz flags start end' x)"
      "m' = m\<lparr>head := head m', kzcount := kzcount m'\<rparr>" "kzcount m \<le> kzcount m'"
proof -
  from inv have lay: "layout m (nodes m)" and aug: "aug_ge gap (head m)" by (simp_all add: mm_inv_def)
  then have d: "distinct_ids (nodes m)" by (simp add: layout_def)
  have "head m \<noteq> Leaf" using lay by (auto simp: layout_def nodes_def)
  from search_correct [OF lay sz _ aug this, where us = "[]" and vs = "[]" and kz = kz and flags = flags
      and start = start and end' = end' and k = "kzcount m"] obtain r k' where
    r: "mm_search kz m sz flags start end' (head m) (kzcount m) = Some (r, k')"
    "search_ok kz m sz flags start end' (nodes m) (kzcount m) r k'"
    by (auto simp: nodes_def)
  have k: "kzcount m \<le> k'" using r(2) by (simp add: search_ok_def)
  have inv': "mm_inv (m\<lparr>kzcount := k'\<rparr>)" using mm_inv_kzcount [OF inv k] .
  show ?thesis
  proof (cases r)
    case (Inl err)
    with r(2) have "err = ENOMEM" by (simp add: search_ok_def)
    show ?thesis
      by (rule no [OF _ inv' k])
        (use r Inl \<open>err = ENOMEM\<close> in \<open>simp_all add: pscnv_mm_alloc_single_def search_ok_def\<close>)
  next
    case (Inr pl)
    from r(2) obtain xs n ys where x: "nodes m = xs @ n # ys" "placed m sz flags start end' n (kzcount m) k' pl"
      "(\<forall>i \<ge> kzcount m. kz i) \<longrightarrow>
        (\<forall>x \<in> set (if flags AND PSCNV_MM_FROMBACK \<noteq> 0 then ys else xs). \<not> fits m sz flags start end' x)"
      unfolding Inr search_ok_def sum.case by blast
    have fit: "fits m sz flags start end' n" using x(2) by (simp add: placed_def)
    then have free: "mtype n = FREE" by (simp add: fits_def)
    have nin: "n \<in> set (nodes m)" using x(1) by simp
    from layout_inner [OF lay [unfolded x(1)] layout_free_sentinel [OF lay nin free]] obtain us p q vs where
      u: "xs = us @ [p]" "ys = q # vs" "adjacent p n" "adjacent n q" .
    then have ns: "nodes m = us @ p # n # q # vs" using x(1) by simp
    have pq: "mtype p \<noteq> FREE" "mtype q \<noteq> FREE" using u(3,4) free by (auto simp: adjacent_def)
    from window_props [OF lay nin free, of flags start end'] obtain s e where
      w: "mm_window m n flags start end' = Some (s, e)" "s \<le> e" "nstart n \<le> s"
      "s < e \<Longrightarrow> unat e \<le> unat (nstart n) + unat (nsize n)"
      by metis
    have cut: "mm_cut sz flags (s, e) = (pstart pl, pend pl)" using x(2) w(1) by (simp add: placed_def)
    have "mm_minsz sz flags \<le> e - s" using fit w(1) by (simp add: fits_def)
    note c = cut_props [OF w(2) this sz cut]
    have "s < e" using c(1-3) by (meson less_le_trans le_less_trans)
    have "place_ok (m\<lparr>kzcount := k'\<rparr>) n pl"
      unfolding place_ok_def
    proof (intro conjI)
      show "nstart n \<le> pstart pl" using w(3) c(1) by (rule order_trans)
      show "unat (pend pl) \<le> unat (nstart n) + unat (nsize n)"
        using c(3) w(4) [OF \<open>s < e\<close>] by (simp add: word_le_iff_unat)
      have "\<forall>x \<in> set (nodes m). nid x < kzcount m" using lay by (simp add: layout_def)
      then have fr: "fresh_for (m\<lparr>kzcount := k'\<rparr>) io" if "\<forall>i. io = Some i \<longrightarrow> kzcount m \<le> i \<and> i < k'" for io
        using that by (fastforce simp: fresh_for_def)
      show "fresh_for (m\<lparr>kzcount := k'\<rparr>) (plsp pl)" "fresh_for (m\<lparr>kzcount := k'\<rparr>) (prsp pl)"
        by (rule fr, use x(2) in \<open>simp add: placed_def\<close>)+
    qed (use x(2) c(2) in \<open>simp_all add: placed_def\<close>)
    from commit_nodes [OF inv' _ free this, of us p q vs flags] ns obtain m' L R where
      m': "mm_commit flags pl (m\<lparr>kzcount := k'\<rparr>) = Some m'" "mm_inv m'" "m' = m\<lparr>kzcount := k'\<rparr>\<lparr>head := head m'\<rparr>"
      "nodes m' = us @ p # L @ taken flags pl n # R @ q # vs" "remainder (plsp pl) L" "remainder (prsp pl) R"
      by auto
    have kc: "kzcount m' = k'" by (subst m'(3)) simp
    show ?thesis
    proof (rule yes [of n m' us p q vs L pl R])
      show "pscnv_mm_alloc_single kz m sz flags start end' = Some (Inr (nid n), m')"
        using r(1) Inr m'(1) x(2) by (simp add: pscnv_mm_alloc_single_def placed_def)
      show "m' = m\<lparr>head := head m', kzcount := kzcount m'\<rparr>" unfolding kc by (subst m'(3)) simp
    qed (use m' ns free pq fit x u k kc remainder_one_free in \<open>simp_all add: placed_def\<close>)
  qed
qed


lemma used_kzcount [simp]: "used (m\<lparr>kzcount := k\<rparr>) = used m"
  by (simp add: used_def)

lemma frame_kzcount: "kzcount m \<le> k \<Longrightarrow> mm_frame m (m\<lparr>kzcount := k\<rparr>)"
  by (simp add: mm_frame_def mm_bounds_def tiled_def)

lemma taken_simps [simp]:
  "nid (taken flags pl n) = nid n" "mtype (taken flags pl n) = used_type flags"
  "nstart (taken flags pl n) = pstart pl" "nsize (taken flags pl n) = pend pl - pstart pl"
  "sentinel (taken flags pl n) = sentinel n"
  by (simp_all add: taken_def)

lemma alloc_single_used:
  assumes inv: "mm_inv m" and sz: "0 < sz"
    and pages: "unat (mm_psize m flags) dvd unat start" "unat (mm_psize m flags) dvd unat end'"
      "unat (mm_psize m flags) dvd unat sz"
  obtains
    (no) m' where "pscnv_mm_alloc_single kz m sz flags start end' = Some (Inl ENOMEM, m')"
      "mm_inv m'" "mm_frame m m'" "used m' = used m"
  | (yes) m' b xs ys where "pscnv_mm_alloc_single kz m sz flags start end' = Some (Inr (nid b), m')"
      "mm_inv m'" "mm_frame m m'" "used m = xs @ ys" "used m' = xs @ b # ys"
      "block_ok (unat (mm_psize m flags)) flags start end' b" "nsize b \<le> sz"
      "flags AND PSCNV_MM_FRAGOK = 0 \<Longrightarrow> nsize b = sz"
proof (cases rule: alloc_single_cases [OF inv sz, where kz = kz and flags = flags and start = start and end' = end',
    case_names no yes])
  case (no k)
  then show ?thesis using that(1) [OF no(1,2)] frame_kzcount by simp
next
  case (yes m' us p n q vs L R pl)
  let ?b = "taken flags pl n" and ?ps = "unat (mm_psize m flags)"
  from inv have lay: "layout m (nodes m)" by (simp add: mm_inv_def)
  have nin: "n \<in> set (nodes m)" using yes(3) by simp
  have s0: "sentinel n = 0" using layout_free_sentinel [OF lay nin yes(5)] .
  have d: "distinct_ids (nodes m)" using lay by (simp add: layout_def)
  obtain s e where g: "getfree_between m p n q (ucast flags) = (s, e)" by fastforce
  obtain s' e' where c: "clip start end' (s, e) = (s', e')" by fastforce
  have w: "mm_window m n flags start end' = Some (s', e')"
    using mm_window_eq [OF d yes(3)] g c by simp
  have fit: "mm_minsz sz flags \<le> e' - s'" using yes(10) w by (simp add: fits_def)
  have cut: "mm_cut sz flags (s', e') = (pstart pl, pend pl)" using yes(11) w by simp
  note gp = getfree_props [OF lay nin g] note cl = clip_props [OF c]
  note cp = cut_props [OF cl(1) fit sz cut]
  have se': "s' < e'" using cp(1-3) by (meson less_le_trans le_less_trans)
  have se: "s < e" using se' cl(2,4) by (meson less_le_trans le_less_trans)
  have ps: "page_of m (ucast flags) = ?ps" by (rule page_of_flags)
  have "?ps dvd unat s'" using cl(6) gp(3) pages(1) ps by auto
  moreover have "?ps dvd unat e'" using cl(7) [OF se'] gp(4) [OF se] pages(2) ps by auto
  ultimately have dv: "?ps dvd unat (pstart pl)" "?ps dvd unat (pend pl)"
  proof -
    have ew: "unat (pend pl) = unat (pstart pl) + unat sz" if "pend pl - pstart pl = sz"
      using that cp(2) by (metis le_add_diff_inverse less_imp_le unat_minus_le word_le_iff_unat)
    have st: "pstart pl = s' \<or> pend pl = e'" using cut by (auto simp: mm_cut_def split: if_splits)
    assume a: "?ps dvd unat s'" "?ps dvd unat e'"
    show "?ps dvd unat (pstart pl)" "?ps dvd unat (pend pl)"
      using cp(6) st a ew pages(3) by (auto simp: dvd_add_left_iff dvd_add_right_iff)
  qed
  have sz_b: "unat (nsize ?b) = unat (pend pl) - unat (pstart pl)"
    using cp(2) by (simp add: unat_minus_le less_imp_le)
  have lt: "unat (pstart pl) < unat (pend pl)" using cp(2) by (simp add: word_less_iff_unat)
  have bok: "block_ok ?ps flags start end' ?b"
    unfolding block_ok_def
  proof (intro conjI)
    show "start \<le> nstart ?b" using cl(3) cp(1) by simp
    show "unat (nstart ?b) + unat (nsize ?b) \<le> unat end'"
      using sz_b lt cp(3) cl(5) [OF se'] by (simp add: word_le_iff_unat)
    show "0 < nsize ?b" using sz_b lt by (simp add: word_less_iff_unat)
    show "?ps dvd unat (nsize ?b)" using sz_b dv by (simp add: dvd_diff_nat)
  qed (use dv in simp_all)
  have in_n: "adjacent p n" "adjacent n q"
    using lay yes(3) unfolding layout_def by (auto simp: successively_append_iff)
  have kc: "spsize m' = spsize m" "lpsize m' = lpsize m" "tssize m' = tssize m"
    by (subst yes(13), simp)+
  have ts: "0 < unat (tssize m)" using lay by (simp add: layout_def sizes_ok_def word_less_iff_unat)
  have "tiled m'" if t: "tiled m"
  proof -
    let ?P = "apart (unat (tssize m))"
    have "filter not_free (nodes m) = filter not_free us @ p # q # filter not_free vs"
      unfolding yes(3) using yes(5-7) by (simp add: not_free_def)
    with t have sc: "successively ?P (filter not_free us @ p # q # filter not_free vs)"
      by (simp add: tiled_def)
    have "?P p ?b"
    proof (cases "mtype p = used_type flags")
      case False
      then have "other_type p (ucast flags)" using other_type_flags yes(6) by simp
      then have "up_to (unat (nstart n)) (unat (tssize m)) \<le> unat s" by (rule gp(6))
      also have "\<dots> \<le> unat (pstart pl)" using cl(2) cp(1) by (simp add: word_le_iff_unat)
      finally show ?thesis using in_n(1) by (simp add: apart_def adjacent_def)
    qed (simp add: apart_def)
    moreover have "?P ?b q"
    proof (cases "mtype q = used_type flags")
      case False
      then have "other_type q (ucast flags)" using other_type_flags yes(7) by simp
      then have "unat e \<le> down_to (unat (nstart n) + unat (nsize n)) (unat (tssize m))" using gp(7) se by simp
      moreover have "unat (pend pl) \<le> unat e" using cp(3) cl(4) [OF se'] by (simp add: word_le_iff_unat)
      ultimately have "up_to (unat (pend pl)) (unat (tssize m)) \<le> down_to (unat (nstart n) + unat (nsize n)) (unat (tssize m))"
        by (intro up_to_min [OF _ _ ts]) simp_all
      also have "\<dots> \<le> unat (nstart q)" using in_n(2) by (simp add: adjacent_def)
      finally show ?thesis using sz_b lt by (simp add: apart_def)
    qed (simp add: apart_def)
    ultimately have "successively ?P (filter not_free us @ p # ?b # q # filter not_free vs)"
      using sc by (simp add: successively_append_iff)
    moreover have "filter not_free (nodes m') = filter not_free us @ p # ?b # q # filter not_free vs"
      unfolding yes(4) using yes(6-9) by (simp add: not_free_def)
    ultimately show ?thesis using kc by (simp add: tiled_def)
  qed
  moreover have "mm_bounds m' = mm_bounds m"
    unfolding mm_bounds_def yes(3,4) by (cases us; cases vs) simp_all
  ultimately have fr: "mm_frame m m'" using kc yes(14) by (simp add: mm_frame_def)
  show ?thesis
  proof (rule that(2))
    show "pscnv_mm_alloc_single kz m sz flags start end' = Some (Inr (nid ?b), m')" using yes(1) by simp
    show "used m = filter is_used (us @ [p]) @ filter is_used (q # vs)"
      unfolding used_def yes(3) using yes(5) by (simp add: is_used_def)
    show "used m' = filter is_used (us @ [p]) @ ?b # filter is_used (q # vs)"
      unfolding used_def yes(4) using yes(8,9) s0 by (simp add: is_used_def [of ?b])
    show "nsize ?b = sz" if "flags AND PSCNV_MM_FRAGOK = 0"
      using that cp(4,5) by (simp add: mm_minsz_def)
  qed (use yes(2) fr bok cp(4) in simp_all)
qed


subsection \<open>Chains of blocks\<close>

text \<open>The fragments of one allocation: linked both ways from the first to the last, whose
  \<open>nnext\<close> is \<open>nx\<close>.\<close>

fun linked :: "nat option \<Rightarrow> mm_node list \<Rightarrow> nat option \<Rightarrow> bool" where
  "linked pr [] nx \<longleftrightarrow> True"
| "linked pr [n] nx \<longleftrightarrow> nprev n = pr \<and> nnext n = nx"
| "linked pr (n # n' # ns) nx \<longleftrightarrow>
     nprev n = pr \<and> nnext n = Some (nid n') \<and> linked (Some (nid n)) (n' # ns) nx"

definition others :: "mm \<Rightarrow> mm_node list \<Rightarrow> mm_node list" where
  "others m ch = filter (\<lambda>n. nid n \<notin> nid ` set ch) (used m)"

definition chain_in :: "mm \<Rightarrow> mm_node list \<Rightarrow> nat option \<Rightarrow> bool" where
  "chain_in m ch nx \<longleftrightarrow> distinct (map nid ch) \<and> set ch \<subseteq> set (used m) \<and> linked None ch nx"

lemma linked_snoc:
  "linked pr (ns @ [n, n']) nx \<longleftrightarrow>
     linked pr (ns @ [n]) (Some (nid n')) \<and> nprev n' = Some (nid n) \<and> nnext n' = nx"
  by (induction pr "ns @ [n]" "Some (nid n')" arbitrary: ns rule: linked.induct)
    (auto simp: Cons_eq_append_conv append_eq_Cons_conv)

lemma linked_prev: "linked pr (as @ a # n # bs) nx \<Longrightarrow> nprev n = Some (nid a)"
proof (induction as arbitrary: pr)
  case Nil
  then show ?case by (cases bs) auto
next
  case (Cons x as)
  then show ?case by (cases as) auto
qed

lemma linked_last_next:
  "linked pr (ns @ [n]) nx \<Longrightarrow> nid n' = nid n \<Longrightarrow> nprev n' = nprev n \<Longrightarrow> nnext n' = nx' \<Longrightarrow>
   linked pr (ns @ [n']) nx'"
proof (induction ns arbitrary: pr)
  case (Cons a ns)
  then show ?case by (cases ns) auto
qed simp

lemma lookup_used:
  assumes "mm_inv m" "n \<in> set (used m)"
  shows "mm_lookup m (nid n) = Some n"
proof -
  from assms(2) obtain xs ys where "nodes m = xs @ n # ys" by (metis split_list used_mem)
  moreover have "distinct_ids (nodes m)" using assms(1) by (simp add: mm_inv_def layout_def)
  ultimately show ?thesis using mm_access(1) by blast
qed

text \<open>Links are not part of the layout.\<close>

definition link_only :: "(mm_node \<Rightarrow> mm_node) \<Rightarrow> bool" where
  "link_only h \<longleftrightarrow> (\<forall>n. nid (h n) = nid n \<and> gap (h n) = gap n \<and> sentinel (h n) = sentinel n \<and>
     mtype (h n) = mtype n \<and> nstart (h n) = nstart n \<and> nsize (h n) = nsize n)"

lemma link_only_intros [simp]:
  "link_only (\<lambda>n. n\<lparr>nnext := x\<rparr>)" "link_only (\<lambda>n. n\<lparr>nprev := x\<rparr>)"
  by (simp_all add: link_only_def)

lemma update_links:
  assumes inv: "mm_inv m" and h: "link_only h"
  shows "mm_inv (mm_update i h m)" "mm_frame m (mm_update i h m)"
    "used (mm_update i h m) = map (\<lambda>n. if nid n = i then h n else n) (used m)"
proof -
  define g where "g = (\<lambda>n. if nid n = i then h n else n)"
  have g: "nid (g n) = nid n" "gap (g n) = gap n" "sentinel (g n) = sentinel n" "mtype (g n) = mtype n"
    "nstart (g n) = nstart n" "nsize (g n) = nsize n" for n
    using h by (simp_all add: g_def link_only_def)
  have upd: "nodes (mm_update i h m) = map g (nodes m)" by (simp add: nodes_mm_update g_def)
  have gaps: "gaps_ok m (map g ns) = gaps_ok m ns" for ns
  proof (induction m ns rule: gaps_ok.induct)
    case (1 m p n q ns)
    have "node_gap m (g p) (g n) (g q) = node_gap m p n q"
      by (simp add: node_gap_def getfree_between_def g cong: if_cong)
    with 1 show ?case by (simp add: g)
  qed simp_all
  have adj: "successively adjacent (map g ns) = successively adjacent ns" for ns
    by (simp add: successively_map adjacent_def g)
  have ids: "distinct_ids (map g ns) = distinct_ids ns" for ns
  proof -
    have "map nid (map g ns) = map nid ns" using g(1) by simp
    then show ?thesis by (simp only: distinct_ids_def)
  qed
  have lay: "layout m (nodes m)" using inv by (simp add: mm_inv_def)
  have "layout m (map g (nodes m))"
    unfolding layout_def
  proof (intro conjI)
    have ne: "nodes m \<noteq> []" using lay by (simp add: layout_def)
    show "map g (nodes m) \<noteq> []" using ne by simp
    show "sentinel (hd (map g (nodes m))) = -1" "sentinel (last (map g (nodes m))) = 1"
      "unat (nstart (last (map g (nodes m)))) + 2 ^ 34 \<le> 2 ^ 64"
      using lay ne unfolding layout_def by (simp_all add: hd_map last_map g)
    show "\<forall>n \<in> set (map g (nodes m)). node_ok n \<and> nid n < kzcount m \<and> (mtype n \<noteq> FREE \<longrightarrow> gap n = (\<lambda>_. 0))"
      using lay unfolding layout_def by (simp add: node_ok_def g)
    show "successively adjacent (map g (nodes m))" "gaps_ok m (map g (nodes m))"
      "distinct_ids (map g (nodes m))" "sizes_ok m"
      using lay unfolding layout_def adj gaps ids by simp_all
  qed
  then have "layout (mm_update i h m) (nodes (mm_update i h m))"
    unfolding upd by (subst mm_update_head) simp
  moreover have "rb_wf (head (mm_update i h m)) \<and> aug_ge gap (head (mm_update i h m))"
    by (rule mm_update_tree) (use inv h in \<open>simp_all add: mm_inv_def link_only_def\<close>)
  ultimately show "mm_inv (mm_update i h m)" by (simp add: mm_inv_def)
  have keep: "is_used (g n) = is_used n" "not_free (g n) = not_free n" for n
    by (simp_all add: is_used_def not_free_def g)
  have "used (mm_update i h m) = map g (used m)"
    unfolding used_def upd filter_map by (simp add: comp_def keep)
  then show "used (mm_update i h m) = map (\<lambda>n. if nid n = i then h n else n) (used m)"
    unfolding g_def .
  have "mm_bounds (mm_update i h m) = mm_bounds m"
    using lay unfolding mm_bounds_def upd layout_def by (simp add: hd_map last_map g)
  moreover have "filter not_free (map g (nodes m)) = map g (filter not_free (nodes m))"
    by (simp add: filter_map comp_def keep)
  then have "tiled (mm_update i h m) = tiled m"
    unfolding tiled_def upd by (simp add: successively_map apart_def g) (simp add: mm_update_def)
  ultimately show "mm_frame m (mm_update i h m)" by (simp add: mm_frame_def mm_update_def)
qed


subsection \<open>Giving back a chain\<close>

lemma free_member:
  assumes inv: "mm_inv m" and ch: "set (as @ n # bs) \<subseteq> set (used m)" "distinct (map nid (as @ n # bs))"
  obtains m' where "pscnv_mm_free_node m (nid n) = Some m'" "mm_inv m'" "mm_frame m m'"
    "set (as @ bs) \<subseteq> set (used m')" "others m' (as @ bs) = others m (as @ n # bs)"
proof -
  have "n \<in> set (used m)" using ch(1) by simp
  from free_node_used [OF inv this] obtain m' where m': "pscnv_mm_free_node m (nid n) = Some m'"
    "mm_inv m'" "mm_frame m m'" "used m' = filter (\<lambda>x. nid x \<noteq> nid n) (used m)" .
  have "\<forall>x \<in> set (as @ bs). nid x \<noteq> nid n" using ch(2) by (auto simp: image_iff)
  then have "set (as @ bs) \<subseteq> set (used m')" using m'(4) ch(1) by auto
  moreover have "others m' (as @ bs) = others m (as @ n # bs)"
    unfolding others_def m'(4) filter_filter by (rule filter_cong) auto
  ultimately show ?thesis using that m' by blast
qed

lemma unwind_chain:
  "mm_inv m \<Longrightarrow> chain_in m ch nx \<Longrightarrow>
   \<exists>m'. mm_unwind m (if ch = [] then None else Some (nid (last ch))) = Some m' \<and> mm_inv m' \<and>
     mm_frame m m' \<and> used m' = others m ch"
proof (induction ch arbitrary: m nx rule: rev_induct)
  case Nil
  then show ?case by (simp add: mm_unwind.simps others_def)
next
  case (snoc n ch)
  from snoc.prems(2) have ch: "set (ch @ n # []) \<subseteq> set (used m)" "distinct (map nid (ch @ n # []))"
    and l: "linked None (ch @ [n]) nx" by (auto simp: chain_in_def)
  from free_member [OF snoc.prems(1) ch] obtain m1 where
    m1: "pscnv_mm_free_node m (nid n) = Some m1" "mm_inv m1" "mm_frame m m1" "set ch \<subseteq> set (used m1)"
    "others m1 ch = others m (ch @ [n])" by auto
  have p: "nprev n = (if ch = [] then None else Some (nid (last ch)))" "\<exists>nx. linked None ch nx"
  proof -
    show "nprev n = (if ch = [] then None else Some (nid (last ch)))"
      using l by (cases ch rule: rev_cases) (auto simp: linked_snoc)
    show "\<exists>nx. linked None ch nx" using l by (cases ch rule: rev_cases) (auto simp: linked_snoc)
  qed
  then obtain nx' where "chain_in m1 ch nx'" using m1(4) ch(2) by (auto simp: chain_in_def)
  from snoc.IH [OF m1(2) this] obtain m' where
    m': "mm_unwind m1 (nprev n) = Some m'" "mm_inv m'" "mm_frame m1 m'" "used m' = others m1 ch"
    using p(1) by auto
  have "mm_lookup m (nid n) = Some n" using lookup_used [OF snoc.prems(1)] ch(1) by simp
  then have "mm_unwind m (Some (nid n)) = Some m'" using m1(1) m'(1) by (subst mm_unwind.simps) simp
  then show ?case using m' m1(3,5) mm_frame_trans by auto
qed

lemma chain_first:
  assumes "mm_inv m" "chain_in m (as @ n # bs) nx"
  shows "mm_chain_first m (nid n) = Some (nid (hd (as @ [n])))"
  using assms(2)
proof (induction as arbitrary: n bs rule: rev_induct)
  case Nil
  then have "mm_lookup m (nid n) = Some n" "nprev n = None"
    using lookup_used [OF assms(1), of n] by (auto simp: chain_in_def elim: linked.elims)
  then show ?case by (simp add: mm_chain_first.simps)
next
  case (snoc a as)
  have "n \<in> set (used m)" using snoc.prems by (simp add: chain_in_def)
  then have l: "mm_lookup m (nid n) = Some n" using lookup_used [OF assms(1)] by simp
  have "linked None (as @ a # n # bs) nx" using snoc.prems by (simp add: chain_in_def)
  then have "nprev n = Some (nid a)" by (rule linked_prev)
  then have "mm_chain_first m (nid n) = mm_chain_first m (nid a)"
    using l by (subst mm_chain_first.simps) simp
  then show ?case using snoc.IH [of a "n # bs"] snoc.prems by (cases as) simp_all
qed

lemma free_chain:
  "mm_inv m \<Longrightarrow> set ch \<subseteq> set (used m) \<Longrightarrow> distinct (map nid ch) \<Longrightarrow> linked pr ch None \<Longrightarrow>
   \<exists>m'. mm_free_chain m (if ch = [] then None else Some (nid (hd ch))) = Some m' \<and> mm_inv m' \<and>
     mm_frame m m' \<and> used m' = others m ch"
proof (induction ch arbitrary: m pr)
  case Nil
  then show ?case by (simp add: mm_free_chain.simps others_def)
next
  case (Cons n ch)
  from free_member [of m "[]" n ch] Cons.prems obtain m1 where
    m1: "pscnv_mm_free_node m (nid n) = Some m1" "mm_inv m1" "mm_frame m m1" "set ch \<subseteq> set (used m1)"
    "others m1 ch = others m (n # ch)" by auto
  have nx: "nnext n = (if ch = [] then None else Some (nid (hd ch)))" "\<exists>pr. linked pr ch None"
    using Cons.prems(4) by (cases ch; auto)+
  then obtain pr' where "linked pr' ch None" by blast
  from Cons.IH [OF m1(2,4) _ this] Cons.prems(3) nx(1) obtain m' where
    m': "mm_free_chain m1 (nnext n) = Some m'" "mm_inv m'" "mm_frame m1 m'" "used m' = others m1 ch"
    by auto
  have "mm_lookup m (nid n) = Some n" using lookup_used [OF Cons.prems(1)] Cons.prems(2) by simp
  then have "mm_free_chain m (Some (nid n)) = Some m'"
    using m1(1) m'(1) by (subst mm_free_chain.simps) simp
  then show ?case using m' m1(3,5) mm_frame_trans by auto
qed

lemma mm_free_chain_used:
  assumes inv: "mm_inv m" and ch: "chain_in m ch None" "n \<in> set ch"
  obtains m' where "pscnv_mm_free m (nid n) = Some m'" "mm_inv m'" "mm_frame m m'" "used m' = others m ch"
proof -
  from ch(2) obtain as bs where ab: "ch = as @ n # bs" by (meson split_list)
  have "hd (as @ [n]) = hd ch" "ch \<noteq> []" using ab by (cases as; simp)+
  then have f: "mm_chain_first m (nid n) = Some (nid (hd ch))"
    using chain_first [OF inv ch(1) [unfolded ab]] by simp
  from free_chain [OF inv, of ch None] ch(1) \<open>ch \<noteq> []\<close> obtain m' where
    "mm_free_chain m (Some (nid (hd ch))) = Some m'" "mm_inv m'" "mm_frame m m'" "used m' = others m ch"
    by (auto simp: chain_in_def)
  with f that show ?thesis by (simp add: pscnv_mm_free_def)
qed

subsection \<open>The allocation loop\<close>

definition total :: "mm_node list \<Rightarrow> nat" where
  "total ch = sum_list (map (\<lambda>n. unat (nsize n)) ch)"

abbreviation relink :: "nat \<Rightarrow> (mm_node \<Rightarrow> mm_node) \<Rightarrow> mm_node \<Rightarrow> mm_node" where
  "relink i h \<equiv> (\<lambda>n. if nid n = i then h n else n)"

lemma relink_only: "link_only h \<Longrightarrow> nid (relink i h n) = nid n \<and> nsize (relink i h n) = nsize n"
  by (simp add: link_only_def)

lemma relink_others: "i \<notin> nid ` set ns \<Longrightarrow> map (relink i h) ns = ns"
  by (induction ns) auto

lemma relink_ids: "link_only h \<Longrightarrow> nid ` set (map (relink i h) ns) = nid ` set ns"
  by (induction ns) (auto simp: link_only_def)

lemma relink_block_ok: "link_only h \<Longrightarrow> block_ok ps flags start end' (relink i h n) = block_ok ps flags start end' n"
  by (simp add: link_only_def block_ok_def)

lemma others_update:
  assumes inv: "mm_inv m" and h: "link_only h" and i: "i \<in> nid ` set ch"
  shows "others (mm_update i h m) (map (relink i h) ch) = others m ch"
proof -
  have ids: "nid ` set (map (relink i h) ch) = nid ` set ch"
    by (rule relink_ids [OF h])
  have "filter (\<lambda>n. nid n \<notin> nid ` set ch) (map (relink i h) ns) = filter (\<lambda>n. nid n \<notin> nid ` set ch) ns" for ns
    using i relink_only [OF h] by (induction ns) auto
  then show ?thesis unfolding others_def ids update_links(3) [OF inv h] .
qed

text \<open>A new block is appended to the chain.\<close>

lemma chain_append:
  assumes inv: "mm_inv m1" and ch: "distinct (map nid (ch @ [b]))" "set (ch @ [b]) \<subseteq> set (used m1)" "linked None ch nx"
  obtains m2 ch2 where
    "m2 = (case (if ch = [] then None else Some (nid (last ch))) of
             Some l \<Rightarrow> mm_update (nid b) (\<lambda>n. n\<lparr>nprev := Some l\<rparr>) (mm_update l (\<lambda>n. n\<lparr>nnext := Some (nid b)\<rparr>) m1)
           | None \<Rightarrow> mm_update (nid b) (\<lambda>n. n\<lparr>nprev := None\<rparr>) m1)"
    "mm_inv m2" "mm_frame m1 m2" "chain_in m2 ch2 (nnext b)" "others m2 ch2 = others m1 (ch @ [b])"
    "total ch2 = total ch + unat (nsize b)" "map nid ch2 = map nid (ch @ [b])"
    "(\<forall>n \<in> set ch2. block_ok ps flags start end' n) \<longleftrightarrow> (\<forall>n \<in> set (ch @ [b]). block_ok ps flags start end' n)"
proof (cases ch rule: rev_cases)
  case Nil
  let ?h = "\<lambda>n. n\<lparr>nprev := None\<rparr>"
  let ?m2 = "mm_update (nid b) ?h m1"
  have lo: "link_only ?h" by simp
  note u = update_links [OF inv lo, of "nid b"]
  have "?h b \<in> set (used ?m2)" using ch(2) by (auto simp: u(3) image_iff intro!: bexI [of _ b])
  moreover have "others ?m2 [?h b] = others m1 [b]" using others_update [OF inv lo, of "nid b" "[b]"] by simp
  ultimately show ?thesis
    using that [of ?m2 "[?h b]"] Nil u by (simp add: chain_in_def total_def block_ok_def)
next
  case (snoc as a)
  let ?h1 = "\<lambda>n. n\<lparr>nnext := Some (nid b)\<rparr>" and ?h2 = "\<lambda>n. n\<lparr>nprev := Some (nid a)\<rparr>"
  let ?m' = "mm_update (nid a) ?h1 m1"
  let ?m2 = "mm_update (nid b) ?h2 ?m'"
  let ?c1 = "map (relink (nid a) ?h1) (ch @ [b])"
  let ?c2 = "map (relink (nid b) ?h2) ?c1"
  have lo: "link_only ?h1" "link_only ?h2" by simp_all
  note u1 = update_links [OF inv lo(1), of "nid a"]
  note u2 = update_links [OF u1(1) lo(2), of "nid b"]
  have c2: "?c2 = as @ [?h1 a, ?h2 b]"
    using ch(1) snoc relink_others [of "nid a" as ?h1] relink_others [of "nid b" as ?h2]
    by (simp del: map_map)
  have "set ?c2 \<subseteq> set (used ?m2)" using ch(2) by (auto simp: u1(3) u2(3))
  then have "set (as @ [?h1 a, ?h2 b]) \<subseteq> set (used ?m2)" unfolding c2 .
  moreover have "others ?m2 (as @ [?h1 a, ?h2 b]) = others m1 (ch @ [b])"
  proof -
    have a: "nid a \<in> nid ` set (ch @ [b])" using snoc by simp
    have "nid b \<in> nid ` set ?c1" unfolding relink_ids [OF lo(1)] by simp
    from others_update [OF u1(1) lo(2) this] others_update [OF inv lo(1) a]
    have "others ?m2 ?c2 = others m1 (ch @ [b])" by (rule trans)
    then show ?thesis unfolding c2 .
  qed
  moreover have "linked None (as @ [?h1 a, ?h2 b]) (nnext b)"
    using ch(3) snoc linked_last_next [of None as a nx "?h1 a" "Some (nid b)"] by (simp add: linked_snoc)
  moreover have "mm_frame m1 ?m2" using u1(2) u2(2) by (rule mm_frame_trans)
  ultimately show ?thesis
    using that [of ?m2 "as @ [?h1 a, ?h2 b]"] snoc u2(1) ch(1)
    by (simp add: chain_in_def total_def block_ok_def)
qed

text \<open>The last one ends the chain.\<close>

lemma chain_end:
  assumes inv: "mm_inv m" and ch: "chain_in m (as @ [a]) nx"
  obtains ch2 where "mm_inv (mm_update (nid a) (\<lambda>n. n\<lparr>nnext := None\<rparr>) m)"
    "mm_frame m (mm_update (nid a) (\<lambda>n. n\<lparr>nnext := None\<rparr>) m)"
    "chain_in (mm_update (nid a) (\<lambda>n. n\<lparr>nnext := None\<rparr>) m) ch2 None"
    "others (mm_update (nid a) (\<lambda>n. n\<lparr>nnext := None\<rparr>) m) ch2 = others m (as @ [a])"
    "total ch2 = total (as @ [a])" "map nid ch2 = map nid (as @ [a])"
    "(\<forall>n \<in> set ch2. block_ok ps flags start end' n) \<longleftrightarrow> (\<forall>n \<in> set (as @ [a]). block_ok ps flags start end' n)"
proof -
  let ?h = "\<lambda>n. n\<lparr>nnext := None\<rparr>"
  let ?c = "map (relink (nid a) ?h) (as @ [a])"
  have lo: "link_only ?h" by simp
  note u = update_links [OF inv lo, of "nid a"]
  have c: "?c = as @ [?h a]" using ch relink_others [of "nid a" as ?h] by (simp add: chain_in_def)
  have "set ?c \<subseteq> set (used (mm_update (nid a) ?h m))" using ch by (auto simp: u(3) chain_in_def)
  then have "set (as @ [?h a]) \<subseteq> set (used (mm_update (nid a) ?h m))" unfolding c .
  moreover have "others (mm_update (nid a) ?h m) (as @ [?h a]) = others m (as @ [a])"
    unfolding c [symmetric] by (rule others_update [OF inv lo]) simp
  moreover have "linked None (as @ [?h a]) None"
    using ch linked_last_next [of None as a nx "?h a" None] by (simp add: chain_in_def)
  ultimately show ?thesis
    using that [of "as @ [?h a]"] u ch by (simp add: chain_in_def total_def block_ok_def)
qed


definition first_id :: "mm_node list \<Rightarrow> nat option" where
  "first_id ch = (if ch = [] then None else Some (nid (hd ch)))"

definition last_id :: "mm_node list \<Rightarrow> nat option" where
  "last_id ch = (if ch = [] then None else Some (nid (last ch)))"

definition alloc_result :: "mm \<Rightarrow> mm_node list \<Rightarrow> nat \<Rightarrow> nat \<Rightarrow> u32 \<Rightarrow> u64 \<Rightarrow> u64 \<Rightarrow> nat option res \<Rightarrow> bool" where
  "alloc_result m' U len ps flags start end' r \<longleftrightarrow>
     (case r of
        Inl err \<Rightarrow> err = ENOMEM \<and> used m' = U
      | Inr res \<Rightarrow>
          (\<exists>ch. chain_in m' ch None \<and> others m' ch = U \<and> total ch = len \<and> res = first_id ch \<and>
             (\<forall>n \<in> set ch. block_ok ps flags start end' n) \<and>
             (flags AND PSCNV_MM_FRAGOK = 0 \<longrightarrow> length ch \<le> 1)))"

lemma alloc_loop_correct:
  fixes start end' :: u64 and flags :: u32
  assumes pages: "unat (mm_psize m0 flags) dvd unat start" "unat (mm_psize m0 flags) dvd unat end'"
  defines "ps \<equiv> unat (mm_psize m0 flags)"
  shows "mm_inv m \<Longrightarrow> mm_frame m0 m \<Longrightarrow> ps dvd unat sz \<Longrightarrow> chain_in m ch nx \<Longrightarrow>
    \<forall>n \<in> set ch. block_ok ps flags start end' n \<Longrightarrow>
    (flags AND PSCNV_MM_FRAGOK = 0 \<longrightarrow> ch = [] \<or> (sz = 0 \<and> length ch = 1)) \<Longrightarrow>
    \<exists>r m'. mm_alloc_loop kz m sz flags start end' (last_id ch) (first_id ch) = Some (r, m') \<and>
      mm_inv m' \<and> mm_frame m0 m' \<and>
      alloc_result m' (others m ch) (total ch + unat sz) ps flags start end' r"
proof (induction "unat sz" arbitrary: m sz ch nx rule: less_induct)
  case less
  note inv = less.prems(1) and fr = less.prems(2) and dvd = less.prems(3) and ch = less.prems(4)
    and bok = less.prems(5) and one = less.prems(6)
  show ?case
  proof (cases "sz = 0")
    case True
    show ?thesis
    proof (cases ch rule: rev_cases)
      case Nil
      then have "mm_alloc_loop kz m sz flags start end' (last_id ch) (first_id ch) = Some (Inr (first_id ch), m)"
        using True by (simp add: mm_alloc_loop.simps last_id_def)
      moreover have "alloc_result m (others m ch) (total ch + unat sz) ps flags start end' (Inr (first_id ch))"
        using Nil True by (auto simp: alloc_result_def chain_in_def intro!: exI [of _ "[]"])
      ultimately show ?thesis using inv fr by blast
    next
      case (snoc as a)
      let ?m' = "mm_update (nid a) (\<lambda>n. n\<lparr>nnext := None\<rparr>) m"
      from chain_end [OF inv ch [unfolded snoc], of ps flags start end'] obtain ch2 where
        c: "mm_inv ?m'" "mm_frame m ?m'" "chain_in ?m' ch2 None" "others ?m' ch2 = others m ch"
        "total ch2 = total ch" "map nid ch2 = map nid ch" "\<forall>n \<in> set ch2. block_ok ps flags start end' n"
        using bok snoc by auto
      have "mm_alloc_loop kz m sz flags start end' (last_id ch) (first_id ch) = Some (Inr (first_id ch), ?m')"
        using True snoc by (simp add: mm_alloc_loop.simps last_id_def)
      moreover have "first_id ch2 = first_id ch"
        using c(6) by (cases ch; cases ch2) (auto simp: first_id_def)
      moreover have "length ch2 = length ch" using c(6) by (metis length_map)
      ultimately show ?thesis
        using c True one mm_frame_trans [OF fr c(2)]
        by (auto simp: alloc_result_def intro!: exI [of _ ch2])
    qed
  next
    case False
    then have sz: "0 < sz" by (simp add: word_gt_0)
    have psm: "mm_psize m flags = mm_psize m0 flags" using fr by (simp add: mm_frame_def mm_psize_def)
    have pg: "unat (mm_psize m flags) dvd unat start" "unat (mm_psize m flags) dvd unat end'"
      "unat (mm_psize m flags) dvd unat sz" using pages dvd by (simp_all add: psm ps_def)
    show ?thesis
    proof (cases rule: alloc_single_used [OF inv sz pg, where kz = kz, case_names no yes])
      case (no m')
      have oc: "others m' ch = others m ch" using no(4) by (simp add: others_def)
      have "chain_in m' ch nx" using ch no(4) by (simp add: chain_in_def)
      from unwind_chain [OF no(2) this] obtain m2 where
        m2: "mm_unwind m' (last_id ch) = Some m2" "mm_inv m2" "mm_frame m' m2" "used m2 = others m ch"
        using oc by (auto simp: last_id_def)
      have "mm_alloc_loop kz m sz flags start end' (last_id ch) (first_id ch) = Some (Inl ENOMEM, m2)"
        using False no(1) m2(1) by (subst mm_alloc_loop.simps) simp
      moreover have "mm_frame m0 m2" using fr no(3) m2(3) mm_frame_trans by blast
      ultimately show ?thesis using m2 by (simp add: alloc_result_def)
    next
      case (yes m1 b xs ys)
      have dis: "distinct (map nid (used m1))" using distinct_used [OF yes(2)] .
      have nb: "nid b \<notin> nid ` set (used m)" using dis unfolding yes(4,5) by auto
      have c1: "distinct (map nid (ch @ [b]))" "set (ch @ [b]) \<subseteq> set (used m1)"
        using ch nb yes(4,5) by (auto simp: chain_in_def)
      have oc: "others m1 (ch @ [b]) = others m ch"
      proof -
        have "filter (\<lambda>n. nid n \<notin> nid ` set (ch @ [b])) zs = filter (\<lambda>n. nid n \<notin> nid ` set ch) zs"
          if "set zs \<subseteq> set (used m)" for zs
          by (rule filter_cong) (use that nb in \<open>auto simp: image_iff dest!: subsetD\<close>)
        from this [of xs] this [of ys] show ?thesis unfolding others_def yes(4,5) by simp
      qed
      from chain_append [OF yes(2) c1, of nx ps flags start end'] ch obtain m2 ch2 where
        m2: "m2 = (case last_id ch of
             Some l \<Rightarrow> mm_update (nid b) (\<lambda>n. n\<lparr>nprev := Some l\<rparr>) (mm_update l (\<lambda>n. n\<lparr>nnext := Some (nid b)\<rparr>) m1)
           | None \<Rightarrow> mm_update (nid b) (\<lambda>n. n\<lparr>nprev := None\<rparr>) m1)"
        "mm_inv m2" "mm_frame m1 m2" "chain_in m2 ch2 (nnext b)" "others m2 ch2 = others m1 (ch @ [b])"
        "total ch2 = total ch + unat (nsize b)" "map nid ch2 = map nid (ch @ [b])"
        "(\<forall>n \<in> set ch2. block_ok ps flags start end' n) \<longleftrightarrow> (\<forall>n \<in> set (ch @ [b]). block_ok ps flags start end' n)"
        unfolding last_id_def chain_in_def by blast
      have bb: "block_ok ps flags start end' b" using yes(6) by (simp add: psm ps_def)
      have le: "unat (nsize b) \<le> unat sz" "0 < unat (nsize b)"
        using yes(7) bb by (simp_all add: word_le_iff_unat word_less_iff_unat block_ok_def)
      have szb: "unat (sz - nsize b) = unat sz - unat (nsize b)" using yes(7) by (rule unat_minus_le)
      have lc: "last_id ch2 = Some (nid b)" and fc: "first_id ch2 = (case first_id ch of None \<Rightarrow> Some (nid b) | Some i \<Rightarrow> Some i)"
      proof -
        have ne: "ch2 \<noteq> []" using m2(7) by auto
        have "nid (last ch2) = last (map nid ch2)" "nid (hd ch2) = hd (map nid ch2)" using ne by (simp_all add: last_map hd_map)
        then show "last_id ch2 = Some (nid b)" "first_id ch2 = (case first_id ch of None \<Rightarrow> Some (nid b) | Some i \<Rightarrow> Some i)"
          unfolding m2(7) using ne by (cases ch; simp add: last_id_def first_id_def)+
      qed
      have lk: "mm_lookup m1 (nid b) = Some b" using lookup_used [OF yes(2)] yes(5) by simp
      have step: "mm_alloc_loop kz m sz flags start end' (last_id ch) (first_id ch) =
          mm_alloc_loop kz m2 (sz - nsize b) flags start end' (last_id ch2) (first_id ch2)"
        unfolding lc fc using False yes(1) lk m2(1)
        by (subst mm_alloc_loop.simps) (simp add: last_id_def first_id_def split: if_splits)
      have len: "length ch2 = Suc (length ch)" using m2(7) by (metis length_map length_append_singleton)
      have "\<exists>r m'. mm_alloc_loop kz m2 (sz - nsize b) flags start end' (last_id ch2) (first_id ch2) = Some (r, m') \<and>
          mm_inv m' \<and> mm_frame m0 m' \<and>
          alloc_result m' (others m2 ch2) (total ch2 + unat (sz - nsize b)) ps flags start end' r"
      proof (rule less.hyps)
        show "unat (sz - nsize b) < unat sz" using szb le by simp
        show "mm_inv m2" by (rule m2)
        show "mm_frame m0 m2" using fr yes(3) m2(3) mm_frame_trans by blast
        show "ps dvd unat (sz - nsize b)" using szb dvd bb by (simp add: block_ok_def dvd_diff_nat)
        show "chain_in m2 ch2 (nnext b)" by (rule m2)
        show "\<forall>n \<in> set ch2. block_ok ps flags start end' n" using m2(8) bok bb by auto
        show "flags AND PSCNV_MM_FRAGOK = 0 \<longrightarrow> ch2 = [] \<or> (sz - nsize b = 0 \<and> length ch2 = 1)"
          using one False yes(8) len by auto
      qed
      moreover have "total ch2 + unat (sz - nsize b) = total ch + unat sz" using m2(6) szb le by simp
      ultimately show ?thesis using step m2(5) oc by simp
    qed
  qed
qed


end
