(* ===== verification/MmProps.thy ===== *)
theory MmProps
  imports MmOps
begin

section \<open>Properties of the memory manager\<close>

text \<open>
  What \<open>pscnv_mm.c\<close> promises its callers.
\<close>

subsection \<open>A layout is determined by its blocks\<close>

definition shape :: "mm_node \<Rightarrow> int \<times> mm_type \<times> u64 \<times> u64" where
  "shape n = (sentinel n, mtype n, nstart n, nsize n)"

lemma shape_eqD:
  "shape a = shape b \<Longrightarrow> sentinel a = sentinel b \<and> mtype a = mtype b \<and> nstart a = nstart b \<and> nsize a = nsize b"
  by (simp add: shape_def)

definition tail_ok :: "mm_node \<Rightarrow> mm_node list \<Rightarrow> bool" where
  "tail_ok a xs \<longleftrightarrow> successively adjacent (a # xs) \<and> mtype a \<noteq> FREE \<and>
     (\<forall>n \<in> set xs. mtype n = FREE \<longrightarrow> sentinel n = 0 \<and> 0 < unat (nsize n)) \<and> (xs \<noteq> [] \<longrightarrow> mtype (last xs) \<noteq> FREE)"

text \<open>The next node that is not free: directly, or after one free node.\<close>

lemma tail_step:
  assumes "tail_ok a xs" "xs \<noteq> []"
  obtains (direct) x zs where "xs = x # zs" "tail_ok x zs" "unat (nstart x) = unat (nstart a) + unat (nsize a)"
  | (gap) f x zs where "xs = f # x # zs" "tail_ok x zs" "mtype f = FREE" "sentinel f = 0"
      "unat (nstart f) = unat (nstart a) + unat (nsize a)" "0 < unat (nsize f)"
      "unat (nstart x) = unat (nstart f) + unat (nsize f)"
proof -
  from assms(2) obtain y ys where xs: "xs = y # ys" by (cases xs) auto
  show ?thesis
  proof (cases "mtype y = FREE")
    case False
    show ?thesis
      by (rule direct [of y ys]) (use assms xs False in \<open>auto simp: tail_ok_def adjacent_def\<close>)
  next
    case True
    with assms(1) xs obtain x zs where ys: "ys = x # zs" by (cases ys) (auto simp: tail_ok_def)
    show ?thesis
      by (rule gap [of y x zs]) (use assms xs ys True in \<open>auto simp: tail_ok_def adjacent_def\<close>)
  qed
qed

lemma shapes_unique:
  "tail_ok a xs \<Longrightarrow> tail_ok b ys \<Longrightarrow> shape a = shape b \<Longrightarrow>
   map shape (filter not_free xs) = map shape (filter not_free ys) \<Longrightarrow> map shape xs = map shape ys"
proof (induction "length xs" arbitrary: a b xs ys rule: less_induct)
  case less
  have empty: "zs = []" if "tail_ok c zs" "filter not_free zs = []" for c zs
    using that by (cases zs rule: rev_cases) (auto simp: tail_ok_def not_free_def split: if_splits)
  show ?case
  proof (cases "xs = []")
    case True
    with less.prems empty [of b ys] show ?thesis by simp
  next
    case False
    have ys: "ys \<noteq> []" using less.prems(1,4) False empty [of a xs] by auto
    note st = shape_eqD [OF less.prems(3)]
    show ?thesis
    proof (cases rule: tail_step [OF less.prems(1) False, case_names direct gap])
      case (direct x zs)
      note x = direct
      show ?thesis
      proof (cases rule: tail_step [OF less.prems(2) ys, case_names direct gap])
        case (direct y ws)
        have "shape x = shape y" "map shape (filter not_free zs) = map shape (filter not_free ws)"
          using less.prems(4) x(1,2) direct(1,2) by (auto simp: tail_ok_def not_free_def)
        with less.hyps [OF _ x(2) direct(2)] x(1) direct(1) show ?thesis by simp
      next
        case (gap f y ws)
        have "shape x = shape y"
          using less.prems(4) x(1,2) gap(1-3) by (auto simp: tail_ok_def not_free_def)
        with shape_eqD [OF this] gap x st show ?thesis by simp
      qed
    next
      case (gap f x zs)
      note x = gap
      show ?thesis
      proof (cases rule: tail_step [OF less.prems(2) ys, case_names direct gap])
        case (direct y ws)
        have "shape x = shape y"
          using less.prems(4) x(1-3) direct(1,2) by (auto simp: tail_ok_def not_free_def)
        with shape_eqD [OF this] direct x st show ?thesis by simp
      next
        case (gap g y ws)
        have s: "shape x = shape y" "map shape (filter not_free zs) = map shape (filter not_free ws)"
          using less.prems(4) x(1-3) gap(1-3) by (auto simp: tail_ok_def not_free_def)
        have "nstart f = nstart g" "nsize f = nsize g"
          using x(5,7) gap(5,7) st shape_eqD [OF s(1)] by (auto simp: word_unat_eq_iff)
        then have "shape f = shape g" using x(3,4) gap(3,4) by (simp add: shape_def)
        with s less.hyps [OF _ x(2) gap(2)] x(1) gap(1) show ?thesis by simp
      qed
    qed
  qed
qed

text \<open>So two managers of the same range with the same blocks in use have the same free nodes.\<close>

lemma layout_canonical:
  assumes "mm_inv m" "mm_inv m'" "used m = used m'" "mm_bounds m = mm_bounds m'"
  shows "map shape (nodes m) = map shape (nodes m')"
proof -
  have dec: "\<exists>a xs z. nodes m = a # xs @ [z] \<and> tail_ok a (xs @ [z]) \<and> sentinel a = -1 \<and> sentinel z = 1 \<and>
      filter not_free (xs @ [z]) = used m @ [z] \<and>
      shape a = (-1, USED0, fst (mm_bounds m), 0) \<and> shape z = (1, USED0, snd (mm_bounds m), 0)"
    if "mm_inv m" for m
  proof -
    have lay: "layout m (nodes m)" using that by (simp add: mm_inv_def)
    then have ne: "nodes m \<noteq> []" "sentinel (hd (nodes m)) = -1" "sentinel (last (nodes m)) = 1"
      by (simp_all add: layout_def)
    obtain a rest where r: "nodes m = a # rest" using ne(1) by (cases "nodes m") auto
    then have "rest \<noteq> []" using ne(2,3) by auto
    then obtain xs z where ns: "nodes m = a # xs @ [z]" using r by (cases rest rule: rev_cases) auto
    have az: "sentinel a = -1" "sentinel z = 1" using ne ns by simp_all
    have ok: "\<forall>n \<in> set (nodes m). node_ok n" using lay by (simp add: layout_def)
    have mid: "sentinel n = 0" if "n \<in> set xs" for n
    proof -
      from that obtain us vs where x: "xs = us @ n # vs" by (meson split_list)
      have sp: "successively adjacent ((a # us) @ n # (vs @ [z]))" using lay ns x by (simp add: layout_def)
      then have "adjacent (last (a # us)) n"
        by (simp only: successively_append_iff list.sel) simp
      moreover have "adjacent n (hd (vs @ [z]))"
        using sp successively_split [of adjacent "a # us" n "vs @ [z]"] by (cases vs) auto
      ultimately show ?thesis by (simp add: adjacent_def)
    qed
    have oa: "node_ok a" "node_ok z" using ok ns by simp_all
    have fr: "sentinel n = 0 \<and> 0 < unat (nsize n)" if "n \<in> set (nodes m)" "mtype n = FREE" for n
      using layout_free_sentinel [OF lay that] ok that by (auto simp: node_ok_def word_less_iff_unat)
    have "tail_ok a (xs @ [z])"
      unfolding tail_ok_def
    proof (intro conjI)
      show "successively adjacent (a # xs @ [z])" using lay ns by (simp add: layout_def)
    qed (use fr ns oa az in \<open>auto simp: node_ok_def\<close>)
    moreover have "filter not_free xs = filter is_used xs"
      by (rule filter_cong) (use mid in \<open>auto simp: not_free_def is_used_def\<close>)
    then have "filter not_free (xs @ [z]) = used m @ [z]"
      unfolding used_def ns using az oa by (simp add: not_free_def is_used_def node_ok_def)
    ultimately show ?thesis using ns az oa by (auto simp: shape_def mm_bounds_def node_ok_def)
  qed
  from dec [OF assms(1)] dec [OF assms(2)] obtain a xs z b ys w where
    a: "nodes m = a # xs @ [z]" "tail_ok a (xs @ [z])" "filter not_free (xs @ [z]) = used m @ [z]" and
    b: "nodes m' = b # ys @ [w]" "tail_ok b (ys @ [w])" "filter not_free (ys @ [w]) = used m' @ [w]" and
    s: "shape a = shape b" "shape z = shape w"
    using assms(4) by metis
  have "map shape (xs @ [z]) = map shape (ys @ [w])"
    by (rule shapes_unique [OF a(2) b(2) s(1)]) (simp only: a(3) b(3) assms(3) map_append s(2) list.map)
  then show ?thesis using a(1) b(1) s(1) by simp
qed

subsection \<open>Initialisation\<close>

lemma roundup_dvd: "unat y dvd unat (pscnv_roundup x y)"
  using unat_div_mult [of "x + ucast y - 1" "ucast y :: u64"] by (simp add: pscnv_roundup_def)

lemma rounddown_dvd: "unat y dvd unat (pscnv_rounddown x y)"
  by (simp add: unat_rounddown)

definition init_node :: "u64 \<Rightarrow> u64 \<Rightarrow> mm_node" where
  "init_node start end' = (kz_node 3)\<lparr>nstart := start, nsize := end' - start\<rparr>"

definition init_tree :: "u64 \<Rightarrow> u64 \<Rightarrow> u32 \<Rightarrow> u32 \<Rightarrow> u32 \<Rightarrow> mm" where
  "init_tree start end' sp lp ts =
     mm_insert ((kz_node 2)\<lparr>mtype := USED0, sentinel := 1, nstart := end'\<rparr>)
       (mm_insert (init_node start end')
         (mm_insert ((kz_node 1)\<lparr>mtype := USED0, sentinel := -1, nstart := start\<rparr>)
           \<lparr>head = Leaf, spsize = sp, lpsize = lp, tssize = ts, kzcount = 4\<rparr>))"

lemma init_tree_inv:
  assumes "start < end'" "unat end' + 2 ^ 34 \<le> 2 ^ 64" "0 < sp" "0 < lp" "0 < ts"
  shows "mm_inv (init_tree start end' sp lp ts)"
    "nodes (init_tree start end' sp lp ts) = [(kz_node 1)\<lparr>mtype := USED0, sentinel := -1, nstart := start\<rparr>,
       init_node start end', (kz_node 2)\<lparr>mtype := USED0, sentinel := 1, nstart := end'\<rparr>]"
proof -
  let ?a = "(kz_node 1)\<lparr>mtype := USED0, sentinel := -1, nstart := start\<rparr>"
  let ?n = "init_node start end'"
  let ?z = "(kz_node 2)\<lparr>mtype := USED0, sentinel := 1, nstart := end'\<rparr>"
  let ?m0 = "\<lparr>head = Leaf, spsize = sp, lpsize = lp, tssize = ts, kzcount = 4\<rparr>"
  have g: "gap ?a = (\<lambda>_. 0)" "gap ?n = (\<lambda>_. 0)" "gap ?z = (\<lambda>_. 0)"
    by (simp_all add: kz_node_def init_node_def)
  have "nodes (mm_insert ?a ?m0) = [] @ ?a # []"
    by (rule nodes_mm_insert) (simp_all add: nodes_def)
  then have "nodes (mm_insert ?n (mm_insert ?a ?m0)) = [?a] @ ?n # []"
    by (intro nodes_mm_insert) (simp_all add: kz_node_def init_node_def less_prod_def)
  then have n: "nodes (init_tree start end' sp lp ts) = [?a, ?n] @ ?z # []"
    unfolding init_tree_def by (intro nodes_mm_insert) (simp_all add: kz_node_def init_node_def less_prod_def)
  then show n: "nodes (init_tree start end' sp lp ts) = [?a, ?n, ?z]" by simp
  have "rb_wf (head ?m0) \<and> aug_ge gap (head ?m0)" by (simp add: rb_wf_def)
  then have "rb_wf (head (init_tree start end' sp lp ts)) \<and> aug_ge gap (head (init_tree start end' sp lp ts))"
    unfolding init_tree_def using g mm_insert_tree by blast
  moreover have "unat (end' - start) = unat end' - unat start" "unat start < unat end'"
    using assms(1) by (simp_all add: unat_minus_le less_imp_le word_less_iff_unat)
  then have "layout (init_tree start end' sp lp ts) [?a, ?n, ?z]"
    using assms unfolding layout_def
    by (simp add: kz_node_def init_node_def node_ok_def adjacent_def node_gap_def distinct_ids_def
      sizes_ok_def init_tree_def mm_insert_def word_less_iff_unat)
  ultimately show "mm_inv (init_tree start end' sp lp ts)" unfolding mm_inv_def n by simp
qed

lemma mm_init_manager:
  assumes "start < end'" "unat end' + 2 ^ 34 \<le> 2 ^ 64" "0 < sp" "0 < lp" "0 < ts"
  shows "if \<forall>i < 4. kz i then
      (\<exists>m. pscnv_mm_init kz start end' sp lp ts = Some (Inr m) \<and> mm_inv m \<and> used m = [] \<and>
         mm_bounds m = (start, end') \<and> tiled m \<and> spsize m = sp \<and> lpsize m = lp \<and> tssize m = ts)
    else pscnv_mm_init kz start end' sp lp ts = Some (Inl ENOMEM)"
proof (cases "\<forall>i < 4. kz i")
  case True
  then have kz: "kz 0" "kz 1" "kz 2" "kz 3" by simp_all
  let ?m = "init_tree start end' sp lp ts"
  note i = init_tree_inv [OF assms]
  have u: "used ?m = [init_node start end']"
    unfolding used_def i(2) by (simp add: is_used_def kz_node_def init_node_def)
  then have "init_node start end' \<in> set (used ?m)" by simp
  from free_node_used [OF i(1) this] obtain m' where
    m': "pscnv_mm_free_node ?m 3 = Some m'" "mm_inv m'" "mm_frame ?m m'" "used m' = []"
    unfolding u by (auto simp: kz_node_def init_node_def)
  have "tiled ?m"
    unfolding tiled_def i(2) by (simp add: not_free_def apart_def kz_node_def init_node_def)
  moreover have "mm_bounds ?m = (start, end')" unfolding mm_bounds_def i(2) by simp
  moreover have "spsize ?m = sp" "lpsize ?m = lp" "tssize ?m = ts"
    by (simp_all add: init_tree_def mm_insert_def)
  moreover have "pscnv_mm_init kz start end' sp lp ts = Some (Inr m')"
    using kz m'(1) by (simp add: pscnv_mm_init_def Let_def init_tree_def init_node_def)
  ultimately show ?thesis using m' True by (auto simp: mm_frame_def)
next
  case False
  then obtain i where "i < 4" "\<not> kz i" by blast
  moreover from this have "i = 0 \<or> i = 1 \<or> i = 2 \<or> i = 3" by arith
  ultimately have "\<not> kz 0 \<or> \<not> kz 1 \<or> \<not> kz 2 \<or> \<not> kz 3" by blast
  with False show ?thesis by (auto simp: pscnv_mm_init_def)
qed

text \<open>A small manager, for the examples.\<close>

definition example_init :: "mm res option" where
  "example_init = pscnv_mm_init (\<lambda>_. True) 4096 65536 4096 8192 16384"

lemma example_mm: "\<exists>m. example_init = Some (Inr m) \<and> mm_inv m \<and> tiled m \<and> used m = []"
  using mm_init_manager [of 4096 65536 4096 8192 16384 "\<lambda>_. True"] by (auto simp: example_init_def)

text \<open>
  C8: \<open>pscnv_mm_init\<close> on a non-empty range either reports ENOMEM when one of its four
  allocations fails, or gives a manager of exactly that range, in its invariant and with no block
  in use. The bound on the end leaves room for the roundings.
\<close>

theorem mm_init_correct:
  assumes "start < end'" "unat end' + 2 ^ 34 \<le> 2 ^ 64" "0 < sp" "0 < lp" "0 < ts"
  shows "if \<forall>i < 4. kz i then
      (\<exists>m. pscnv_mm_init kz start end' sp lp ts = Some (Inr m) \<and> mm_inv m \<and> used m = [] \<and>
         mm_bounds m = (start, end') \<and> tiled m \<and> spsize m = sp \<and> lpsize m = lp \<and> tssize m = ts)
    else pscnv_mm_init kz start end' sp lp ts = Some (Inl ENOMEM)"
  using assms by (rule mm_init_manager)

theorem mm_init_correct_witness:
  "\<exists>m. pscnv_mm_init (\<lambda>_. True) 4096 65536 4096 8192 16384 = Some (Inr m) \<and> mm_inv m \<and> used m = []"
  using mm_init_correct [of 4096 65536 4096 8192 16384 "\<lambda>_. True"] by auto

subsection \<open>Allocation and freeing\<close>

lemma mm_alloc_total:
  assumes "mm_inv m"
  shows "\<exists>r m'. pscnv_mm_alloc kz m sz flags start end' = Some (r, m') \<and> mm_inv m' \<and> mm_frame m m' \<and>
    (if pscnv_roundup sz (mm_psize m flags) > 2 ^ 60 then r = Inl EINVAL \<and> m' = m
     else alloc_result m' (used m) (unat (pscnv_roundup sz (mm_psize m flags))) (unat (mm_psize m flags)) flags
       (pscnv_roundup start (mm_psize m flags)) (pscnv_rounddown end' (mm_psize m flags)) r)"
proof (cases "pscnv_roundup sz (mm_psize m flags) > 2 ^ 60")
  case True
  then show ?thesis using assms by (simp add: pscnv_mm_alloc_def Let_def push_bit_eq_mult)
next
  case False
  let ?ps = "mm_psize m flags"
  have "chain_in m [] None" "others m [] = used m" by (simp_all add: chain_in_def others_def)
  with alloc_loop_correct [of m flags "pscnv_roundup start ?ps" "pscnv_rounddown end' ?ps" m "pscnv_roundup sz ?ps" "[]" None kz]
    assms obtain r m' where
    "mm_alloc_loop kz m (pscnv_roundup sz ?ps) flags (pscnv_roundup start ?ps) (pscnv_rounddown end' ?ps) None None = Some (r, m')"
    "mm_inv m'" "mm_frame m m'"
    "alloc_result m' (used m) (unat (pscnv_roundup sz ?ps)) (unat ?ps) flags (pscnv_roundup start ?ps) (pscnv_rounddown end' ?ps) r"
    by (auto simp: roundup_dvd rounddown_dvd last_id_def first_id_def total_def)
  then show ?thesis using False by (simp add: pscnv_mm_alloc_def Let_def push_bit_eq_mult)
qed


text \<open>
  C1: \<open>pscnv_mm_alloc\<close> always returns (no dereference of NULL, no \<open>BUG_ON\<close>, no endless loop), keeps
  the invariant, the managed range and the separation of the types, and: it refuses a request
  whose rounded size exceeds \<open>2 ^ 60\<close>; or it fails with ENOMEM and the blocks in use are exactly
  those before; or it returns the first block of a chain, linked both ways, of new blocks of
  together exactly the rounded size, each of whole pages, of the type asked for and inside the
  (rounded) range asked for, a single one unless \<open>PSCNV_MM_FRAGOK\<close> is set; all other blocks are
  as before.
\<close>

theorem mm_alloc_correct:
  assumes "mm_inv m"
  shows "\<exists>r m'. pscnv_mm_alloc kz m sz flags start end' = Some (r, m') \<and> mm_inv m' \<and> mm_frame m m' \<and>
    (if pscnv_roundup sz (mm_psize m flags) > 2 ^ 60 then r = Inl EINVAL \<and> m' = m
     else alloc_result m' (used m) (unat (pscnv_roundup sz (mm_psize m flags))) (unat (mm_psize m flags)) flags
       (pscnv_roundup start (mm_psize m flags)) (pscnv_rounddown end' (mm_psize m flags)) r)"
  using assms by (rule mm_alloc_total)

theorem mm_alloc_correct_witness:
  "\<exists>m r m'. example_init = Some (Inr m) \<and> pscnv_mm_alloc (\<lambda>_. True) m 8000 PSCNV_MM_LP 0 65536 = Some (r, m') \<and>
     mm_inv m' \<and> mm_frame m m'"
proof -
  from example_mm obtain m where "example_init = Some (Inr m)" "mm_inv m" by blast
  with mm_alloc_correct [of m "\<lambda>_. True" 8000 PSCNV_MM_LP 0 65536] show ?thesis by blast
qed

text \<open>An allocation from the small manager.\<close>

definition example_alloc :: "u64 \<Rightarrow> u32 \<Rightarrow> mm \<Rightarrow> (nat option res \<times> mm) option" where
  "example_alloc sz flags m = pscnv_mm_alloc (\<lambda>_. True) m sz flags 0 65536"

lemma allocatedD:
  assumes "case x of Some (Inr (Some i), m') \<Rightarrow> P i m' | _ \<Rightarrow> False"
  shows "\<exists>i m'. x = Some (Inr (Some i), m') \<and> P i m'"
proof -
  from assms obtain r m' where x: "x = Some (r, m')" by (cases x) auto
  with assms obtain io where "r = Inr io" by (cases r) auto
  with assms x show ?thesis by (cases io) auto
qed

lemma example_blocks:
  "\<exists>m i m'. example_init = Some (Inr m) \<and> mm_inv m \<and> tiled m \<and> used m = [] \<and>
     example_alloc 8000 0 m = Some (Inr (Some i), m') \<and> map nid (used m') = [i]"
proof -
  from example_mm obtain m where m: "example_init = Some (Inr m)" "mm_inv m" "tiled m" "used m = []" by blast
  have "case example_init of Some (Inr m) \<Rightarrow>
      (case example_alloc 8000 0 m of Some (Inr (Some i), m') \<Rightarrow> map nid (used m') = [i] | _ \<Rightarrow> False) | _ \<Rightarrow> False"
    by code_simp
  then have "case example_alloc 8000 0 m of Some (Inr (Some i), m') \<Rightarrow> map nid (used m') = [i] | _ \<Rightarrow> False"
    by (simp add: m(1))
  from allocatedD [OF this] m show ?thesis by (intro exI [of _ m]) simp
qed

lemma fresh_in_chain:
  assumes "mm_inv m'" "chain_in m' ch None" "others m' ch = used m" "n \<in> set (used m')"
    "nid n \<notin> nid ` set (used m)"
  shows "n \<in> set ch"
proof -
  have "nid n \<in> nid ` set ch"
    using assms(3-5) by (metis (mono_tags, lifting) image_eqI mem_Collect_eq others_def set_filter)
  then obtain c where c: "c \<in> set ch" "nid c = nid n" by auto
  then have "c \<in> set (used m')" using assms(2) by (auto simp: chain_in_def)
  then have "c = n" using distinct_used [OF assms(1)] assms(4) c(2) by (metis distinct_map inj_onD)
  with c show ?thesis by simp
qed

text \<open>
  C2: freeing any block that an allocation gave (\<open>pscnv_mm_free\<close> goes back to the first of the chain)
  succeeds and restores the manager: the same blocks are in use as before the allocation, and the
  whole division of the range into nodes is the same, every free range coalesced again.
\<close>

theorem mm_alloc_free_roundtrip:
  assumes "mm_inv m" "pscnv_mm_alloc kz m sz flags start end' = Some (Inr res, m')"
    "n \<in> set (used m')" "nid n \<notin> nid ` set (used m)"
  shows "\<exists>m2. pscnv_mm_free m' (nid n) = Some m2 \<and> mm_inv m2 \<and> used m2 = used m \<and>
    map shape (nodes m2) = map shape (nodes m)"
proof -
  from mm_alloc_total [OF assms(1), of kz sz flags start end'] assms(2) obtain ch where
    ch: "mm_inv m'" "mm_frame m m'" "chain_in m' ch None" "others m' ch = used m"
    by (auto simp: alloc_result_def split: if_splits)
  from mm_free_chain_used [OF ch(1,3) fresh_in_chain [OF ch(1,3,4) assms(3,4)]] obtain m2 where
    m2: "pscnv_mm_free m' (nid n) = Some m2" "mm_inv m2" "mm_frame m' m2" "used m2 = others m' ch" .
  have "mm_bounds m2 = mm_bounds m" using ch(2) m2(3) by (simp add: mm_frame_def)
  then have "map shape (nodes m2) = map shape (nodes m)"
    using layout_canonical [OF m2(2) assms(1)] m2(4) ch(4) by simp
  with m2 ch(4) show ?thesis by auto
qed

theorem mm_alloc_free_roundtrip_witness:
  "\<exists>m i m' m2. example_init = Some (Inr m) \<and> example_alloc 8000 0 m = Some (Inr (Some i), m') \<and>
     pscnv_mm_free m' i = Some m2 \<and> used m2 = []"
proof -
  from example_blocks obtain m i m' where
    m: "example_init = Some (Inr m)" "mm_inv m" "used m = []" "example_alloc 8000 0 m = Some (Inr (Some i), m')"
    "map nid (used m') = [i]"
    by metis
  then obtain n where n: "used m' = [n]" "nid n = i" by (cases "used m'") auto
  from mm_alloc_free_roundtrip [OF m(2) m(4) [unfolded example_alloc_def], of n] n m show ?thesis by auto
qed

text \<open>
  C6: a failed allocation leaves the manager as it was: the same blocks in use and the same division
  of the range, also when some fragments had already been taken.
\<close>

theorem mm_alloc_fail_unchanged:
  assumes "mm_inv m" "pscnv_mm_alloc kz m sz flags start end' = Some (Inl err, m')"
  shows "used m' = used m \<and> map shape (nodes m') = map shape (nodes m) \<and> err \<in> {EINVAL, ENOMEM}"
proof -
  have u: "mm_inv m'" "mm_frame m m'" "used m' = used m" "err \<in> {EINVAL, ENOMEM}"
    using mm_alloc_total [OF assms(1), of kz sz flags start end'] assms(2)
    by (auto simp: alloc_result_def split: if_splits)
  then show ?thesis using layout_canonical [OF u(1) assms(1)] by (simp add: mm_frame_def)
qed

theorem mm_alloc_fail_unchanged_witness:
  "\<exists>m m'. example_init = Some (Inr m) \<and> example_alloc 70000 4 m = Some (Inl ENOMEM, m') \<and>
     used m' = used m \<and> map shape (nodes m') = map shape (nodes m)"
proof -
  from example_mm obtain m where m: "example_init = Some (Inr m)" "mm_inv m" by blast
  have "case example_init of Some (Inr m) \<Rightarrow>
      (case example_alloc 70000 4 m of Some (Inl err, m') \<Rightarrow> err = ENOMEM | _ \<Rightarrow> False) | _ \<Rightarrow> False"
    by code_simp
  then have "case example_alloc 70000 4 m of Some (Inl err, m') \<Rightarrow> err = ENOMEM | _ \<Rightarrow> False"
    by (simp add: m(1))
  then obtain m' where "example_alloc 70000 4 m = Some (Inl ENOMEM, m')"
    by (auto split: option.splits sum.splits)
  with mm_alloc_fail_unchanged [of m "\<lambda>_. True" 70000 4 0 65536 ENOMEM m'] m show ?thesis
    by (auto simp: example_alloc_def)
qed

subsection \<open>Blocks do not overlap and do not share tiles\<close>

definition before_of :: "mm_node \<Rightarrow> mm_node \<Rightarrow> bool" where
  "before_of a b \<longleftrightarrow> unat (nstart a) + unat (nsize a) \<le> unat (nstart b)"

lemma nodes_sorted:
  assumes "mm_inv m"
  shows "sorted_wrt before_of (nodes m)"
proof -
  have "successively adjacent (nodes m)" using assms by (simp add: mm_inv_def layout_def)
  then have "successively before_of (nodes m)"
    by (rule successively_mono) (simp add: adjacent_def before_of_def)
  moreover have "transp before_of" by (rule transpI) (simp add: before_of_def)
  ultimately show ?thesis using successively_conv_sorted_wrt by blast
qed

lemma sorted_wrt_pairs:
  assumes "sorted_wrt R xs" "a \<in> set xs" "b \<in> set xs" "a \<noteq> b"
  shows "R a b \<or> R b a"
  using assms by (induction xs) auto

text \<open>Two blocks in use never overlap, and all lie in the managed range.\<close>

lemma used_disjoint:
  assumes "mm_inv m" "a \<in> set (used m)" "b \<in> set (used m)"
  shows "(a \<noteq> b \<longrightarrow> unat (nstart a) + unat (nsize a) \<le> unat (nstart b) \<or>
      unat (nstart b) + unat (nsize b) \<le> unat (nstart a)) \<and>
    fst (mm_bounds m) \<le> nstart a \<and> unat (nstart a) + unat (nsize a) \<le> unat (snd (mm_bounds m))"
proof -
  have n: "a \<in> set (nodes m)" "b \<in> set (nodes m)" using assms(2,3) by (simp_all add: used_mem)
  have "layout m (nodes m)" using assms(1) by (simp add: mm_inv_def)
  from layout_bounds(1,2) [OF this n(1)] sorted_wrt_pairs [OF nodes_sorted [OF assms(1)] n] show ?thesis
    by (auto simp: before_of_def mm_bounds_def word_le_iff_unat)
qed

lemma sorted_wrt_successively: "sorted_wrt R xs \<Longrightarrow> successively R xs"
  by (induction xs rule: induct_list012) auto

lemma successively_and: "successively R xs \<Longrightarrow> successively S xs \<Longrightarrow> successively (\<lambda>a b. R a b \<and> S a b) xs"
  by (induction xs rule: induct_list012) auto

lemma tiled_pairs:
  assumes "mm_inv m" "tiled m"
  shows "sorted_wrt (\<lambda>a b. apart (unat (tssize m)) a b \<and> before_of a b \<and> not_free a \<and> not_free b)
    (filter not_free (nodes m))"
proof -
  let ?ts = "unat (tssize m)"
  let ?R = "\<lambda>a b. apart ?ts a b \<and> before_of a b \<and> not_free a \<and> not_free b"
  have "sorted_wrt before_of (filter not_free (nodes m))"
    using nodes_sorted [OF assms(1)] by (simp add: sorted_wrt_filter)
  then have b: "successively before_of (filter not_free (nodes m))" by (rule sorted_wrt_successively)
  have "successively (\<lambda>a b. before_of a b \<and> apart ?ts a b) (filter not_free (nodes m))"
    using b assms(2) unfolding tiled_def by (rule successively_and)
  then have "successively ?R (filter not_free (nodes m))"
    by (rule successively_mono) auto
  moreover have "0 < ?ts" using assms(1) by (simp add: mm_inv_def layout_def sizes_ok_def word_less_iff_unat)
  then have "transp ?R"
    by (auto intro!: transpI elim: apart_trans simp: before_of_def not_free_def)
  ultimately show ?thesis using successively_conv_sorted_wrt by blast
qed

text \<open>Blocks of the two types never share a block of \<open>tssize\<close> bytes.\<close>

lemma types_in_tiles:
  assumes "mm_inv m" "tiled m" "a \<in> set (used m)" "b \<in> set (used m)" "mtype a \<noteq> mtype b"
    "unat (nstart a) \<le> x" "x < unat (nstart a) + unat (nsize a)"
    "unat (nstart b) \<le> y" "y < unat (nstart b) + unat (nsize b)"
  shows "x div unat (tssize m) \<noteq> y div unat (tssize m)"
proof -
  let ?ts = "unat (tssize m)"
  have ts: "0 < ?ts" using assms(1) by (simp add: mm_inv_def layout_def sizes_ok_def word_less_iff_unat)
  have "\<And>n. n \<in> set (used m) \<Longrightarrow> n \<in> set (filter not_free (nodes m))"
    by (simp add: used_mem is_used_def not_free_def)
  then have "apart ?ts a b \<or> apart ?ts b a"
    using sorted_wrt_pairs [OF tiled_pairs [OF assms(1,2)]] assms(3-5) by blast
  moreover have "x div ?ts < y div ?ts" if "up_to e ?ts \<le> s" "x < e" "s \<le> y" for e s x y
  proof -
    have "x div ?ts < (e + ?ts - 1) div ?ts"
    proof -
      have "x div ?ts * ?ts < up_to e ?ts"
        using that(2) up_to_ge [OF ts, of e] by (meson le_less_trans less_le_trans div_times_less_eq_dividend)
      then show ?thesis by (simp add: up_to_def)
    qed
    also have "(e + ?ts - 1) div ?ts \<le> y div ?ts"
      using that(1,3) ts by (metis div_le_mono div_mult_self_is_m dual_order.trans mult.commute up_to_def)
    finally show ?thesis .
  qed
  ultimately show ?thesis
    using assms(5-9) by (fastforce simp: apart_def)
qed


subsection \<open>First fit\<close>

definition candidates :: "mm \<Rightarrow> u64 \<Rightarrow> u32 \<Rightarrow> u64 \<Rightarrow> u64 \<Rightarrow> mm_node list" where
  "candidates m sz flags start end' =
     (let ns = filter (fits m sz flags start end') (nodes m)
      in if flags AND PSCNV_MM_FROMBACK \<noteq> 0 then rev ns else ns)"

text \<open>
  C3: while \<open>kzalloc\<close> does not fail, \<open>pscnv_mm_alloc_single\<close> takes the free node with the lowest
  address that has room for the request, the highest with \<open>PSCNV_MM_FROMBACK\<close>, and reports ENOMEM
  only when no node has room. So the pruning by \<open>maxgap\<close> and by the address range is sound.
\<close>

theorem alloc_single_first_fit:
  assumes "mm_inv m" "0 < sz" "\<And>i. kzcount m \<le> i \<Longrightarrow> kz i"
  shows "\<exists>r m'. pscnv_mm_alloc_single kz m sz flags start end' = Some (r, m') \<and>
    (case candidates m sz flags start end' of [] \<Rightarrow> r = Inl ENOMEM | n # _ \<Rightarrow> r = Inr (nid n))"
proof (cases rule: alloc_single_cases [OF assms(1,2), where kz = kz and flags = flags and start = start and
    end' = end', case_names no yes])
  case (no k)
  then have "candidates m sz flags start end' = []" using assms(3) by (simp add: candidates_def filter_empty_conv)
  with no show ?thesis by simp
next
  case (yes m' us p n q vs L R pl)
  let ?f = "fits m sz flags start end'"
  have "filter ?f (us @ [p]) = []" if "flags AND PSCNV_MM_FROMBACK = 0"
    using yes(12) that assms(3) by (simp add: filter_empty_conv)
  moreover have "filter ?f (q # vs) = []" if "flags AND PSCNV_MM_FROMBACK \<noteq> 0"
    using yes(12) that assms(3) by (simp add: filter_empty_conv)
  moreover have "filter ?f (nodes m) = filter ?f (us @ [p]) @ n # filter ?f (q # vs)"
    unfolding yes(3) using yes(10) by simp
  ultimately have "\<exists>ns. candidates m sz flags start end' = n # ns"
    unfolding candidates_def Let_def by (simp del: filter.simps filter_append)
  with yes(1) show ?thesis by auto
qed

theorem alloc_single_first_fit_witness:
  "\<exists>m r m'. example_init = Some (Inr m) \<and> pscnv_mm_alloc_single (\<lambda>_. True) m 4096 8 0 65536 = Some (r, m')"
proof -
  from example_mm obtain m where "example_init = Some (Inr m)" "mm_inv m" by blast
  with alloc_single_first_fit [of m 4096 "\<lambda>_. True" 8 0 65536] show ?thesis by auto
qed

subsection \<open>Freeing a chain, finding a block\<close>

text \<open>
  C7: given any block of a well-linked chain, \<open>pscnv_mm_free\<close> ends, frees exactly the blocks of that
  chain and leaves every other block in place, unchanged.
\<close>

theorem mm_free_correct:
  assumes "mm_inv m" "chain_in m ch None" "n \<in> set ch"
  shows "\<exists>m'. pscnv_mm_free m (nid n) = Some m' \<and> mm_inv m' \<and> mm_frame m m' \<and>
    used m' = filter (\<lambda>x. nid x \<notin> nid ` set ch) (used m)"
  using mm_free_chain_used [OF assms] unfolding others_def by metis

theorem mm_free_correct_witness:
  "\<exists>m i m' m2. example_init = Some (Inr m) \<and> example_alloc 8000 0 m = Some (Inr (Some i), m') \<and>
     pscnv_mm_free m' i = Some m2 \<and> mm_inv m2"
proof -
  from example_blocks obtain m i m' where
    m: "example_init = Some (Inr m)" "mm_inv m" "used m = []" "example_alloc 8000 0 m = Some (Inr (Some i), m')"
    "map nid (used m') = [i]" by metis
  with mm_alloc_total [OF m(2), of "\<lambda>_. True" 8000 0 0 65536] obtain ch where
    ch: "mm_inv m'" "chain_in m' ch None" "first_id ch = Some i"
    by (auto simp: example_alloc_def alloc_result_def split: if_splits)
  then obtain n where "n \<in> set ch" "nid n = i" by (cases ch) (auto simp: first_id_def)
  with mm_free_correct [OF ch(1,2)] m(1,4) show ?thesis by blast
qed

lemma find_addr_inorder:
  assumes "sorted_wrt before_of (inorder t)"
    "\<forall>n \<in> set (inorder t). unat (nstart n + nsize n) = unat (nstart n) + unat (nsize n)"
  shows "case mm_find_addr addr t of
      None \<Rightarrow> \<forall>n \<in> set (inorder t). \<not> (nstart n \<le> addr \<and> addr < nstart n + nsize n)
    | Some n \<Rightarrow> n \<in> set (inorder t) \<and> nstart n \<le> addr \<and> addr < nstart n + nsize n"
  using assms
proof (induction t)
  case (Node c a l node r)
  have s: "sorted_wrt before_of (inorder l)" "sorted_wrt before_of (inorder r)"
    "\<forall>x \<in> set (inorder l). before_of x node" "\<forall>x \<in> set (inorder r). before_of node x"
    using Node.prems(1) by (auto simp: sorted_wrt_append)
  note w = word_less_iff_unat word_le_iff_unat before_of_def
  show ?case
  proof (cases "addr < nstart node")
    case True
    moreover have "\<not> nstart x \<le> addr" if "x \<in> set (inorder r)" for x
      using s(4) that True by (fastforce simp: w)
    ultimately show ?thesis using Node.IH(1) [OF s(1)] Node.prems(2)
      by (auto split: option.splits)
  next
    case False
    note f = this
    show ?thesis
    proof (cases "nstart node + nsize node \<le> addr")
      case True
      moreover have "\<not> addr < nstart x + nsize x" if "x \<in> set (inorder l)" for x
        using s(3) that f Node.prems(2) by (fastforce simp: w)
      ultimately show ?thesis using Node.IH(2) [OF s(2)] Node.prems(2) f
        by (auto split: option.splits)
    qed (use f in auto)
  qed
qed simp

text \<open>
  \<open>pscnv_mm_find_node\<close> finds, for each address of the managed range, the node that holds it, and
  NULL for an address outside.
\<close>

theorem mm_find_node_correct:
  assumes "mm_inv m"
  shows "if fst (mm_bounds m) \<le> addr \<and> addr < snd (mm_bounds m)
    then \<exists>n \<in> set (nodes m). pscnv_mm_find_node m addr = Some (nid n) \<and> sentinel n = 0 \<and>
      nstart n \<le> addr \<and> addr < nstart n + nsize n
    else pscnv_mm_find_node m addr = None"
proof -
  have lay: "layout m (nodes m)" using assms by (simp add: mm_inv_def)
  have nw: "\<forall>n \<in> set (nodes m). unat (nstart n + nsize n) = unat (nstart n) + unat (nsize n)"
    using layout_bounds(4) [OF lay] by blast
  have f: "case mm_find_addr addr (head m) of
      None \<Rightarrow> \<forall>n \<in> set (nodes m). \<not> (nstart n \<le> addr \<and> addr < nstart n + nsize n)
    | Some n \<Rightarrow> n \<in> set (nodes m) \<and> nstart n \<le> addr \<and> addr < nstart n + nsize n"
    using find_addr_inorder [of "head m" addr] nodes_sorted [OF assms] nw unfolding nodes_def by blast
  have inside: "fst (mm_bounds m) \<le> addr \<and> addr < snd (mm_bounds m) \<and> sentinel n = 0"
    if "n \<in> set (nodes m)" "nstart n \<le> addr" "addr < nstart n + nsize n" for n
  proof -
    have "node_ok n" using lay that(1) by (simp add: layout_def)
    moreover have "nsize n \<noteq> 0" using that by auto
    ultimately have "sentinel n = 0" by (auto simp: node_ok_def split: if_splits)
    then show ?thesis
      using layout_bounds(1,2) [OF lay that(1)] nw that
      by (auto simp: mm_bounds_def word_le_iff_unat word_less_iff_unat)
  qed
  have cover: "\<exists>n \<in> set ns. nstart n \<le> addr \<and> addr < nstart n + nsize n"
    if "successively adjacent ns" "ns \<noteq> []" "nstart (hd ns) \<le> addr" "addr < nstart (last ns)"
      "\<forall>n \<in> set ns. unat (nstart n + nsize n) = unat (nstart n) + unat (nsize n)" for ns
    using that
  proof (induction ns rule: induct_list012)
    case (3 x y zs)
    show ?case
    proof (cases "addr < nstart x + nsize x")
      case False
      then have "nstart y \<le> addr" using 3(3,7) by (auto simp: adjacent_def word_less_iff_unat word_le_iff_unat)
      with 3 show ?thesis by auto
    qed (use 3 in auto)
  qed (auto simp: word_less_iff_unat word_le_iff_unat)
  show ?thesis
  proof (cases "fst (mm_bounds m) \<le> addr \<and> addr < snd (mm_bounds m)")
    case True
    then obtain n where "n \<in> set (nodes m)" "nstart n \<le> addr" "addr < nstart n + nsize n"
      using cover [of "nodes m"] lay nw by (auto simp: layout_def mm_bounds_def)
    with f inside obtain n' where "mm_find_addr addr (head m) = Some n'" "n' \<in> set (nodes m)"
      "nstart n' \<le> addr" "addr < nstart n' + nsize n'"
      by (auto split: option.splits)
    with True inside [of n'] show ?thesis by (auto simp: pscnv_mm_find_node_def)
  next
    case False
    with f inside have "mm_find_addr addr (head m) = None" by (auto split: option.splits)
    with False show ?thesis by (auto simp: pscnv_mm_find_node_def)
  qed
qed

theorem mm_find_node_correct_witness:
  "\<exists>m i. example_init = Some (Inr m) \<and> mm_bounds m = (4096, 65536) \<and> pscnv_mm_find_node m 5000 = Some i"
proof -
  from mm_init_manager [of 4096 65536 4096 8192 16384 "\<lambda>_. True"] obtain m where
    m: "example_init = Some (Inr m)" "mm_inv m" "mm_bounds m = (4096, 65536)" by (auto simp: example_init_def)
  with mm_find_node_correct [of m 5000] show ?thesis by auto
qed

subsection \<open>Chains\<close>

text \<open>Every block in use belongs to a chain, as after any sequence of allocations.\<close>

definition chained :: "mm \<Rightarrow> bool" where
  "chained m \<longleftrightarrow> (\<forall>n \<in> set (used m). \<exists>ch. chain_in m ch None \<and> n \<in> set ch)"

lemma used_unique: "mm_inv m \<Longrightarrow> a \<in> set (used m) \<Longrightarrow> b \<in> set (used m) \<Longrightarrow> nid a = nid b \<Longrightarrow> a = b"
  using distinct_used by (metis distinct_map inj_onD)

lemma linked_unique:
  assumes "mm_inv m"
  shows "linked pr (n # xs) None \<Longrightarrow> linked pr (n # ys) None \<Longrightarrow> set xs \<subseteq> set (used m) \<Longrightarrow>
    set ys \<subseteq> set (used m) \<Longrightarrow> xs = ys"
proof (induction xs arbitrary: pr n ys)
  case Nil
  then show ?case by (cases ys) auto
next
  case (Cons x xs)
  from Cons.prems(1,2) obtain y zs where y: "ys = y # zs" "nid x = nid y" by (cases ys) auto
  with Cons.prems(3,4) used_unique [OF assms] have "x = y" by auto
  with Cons y show ?case by auto
qed

lemma chain_unique:
  assumes inv: "mm_inv m" and a: "chain_in m as None" "n \<in> set as" and b: "chain_in m bs None" "n \<in> set bs"
  shows "as = bs"
proof -
  from a(2) obtain a1 a2 where as: "as = a1 @ n # a2" by (meson split_list)
  from b(2) obtain b1 b2 where bs: "bs = b1 @ n # b2" by (meson split_list)
  have "nid (hd (a1 @ [n])) = nid (hd (b1 @ [n]))"
    using chain_first [OF inv a(1) [unfolded as]] chain_first [OF inv b(1) [unfolded bs]] by simp
  moreover have "hd (a1 @ [n]) = hd as" "hd (b1 @ [n]) = hd bs" using as bs by (cases a1; cases b1; simp)+
  moreover have "as \<noteq> []" "bs \<noteq> []" using as bs by simp_all
  ultimately obtain x xs y ys where xy: "as = x # xs" "bs = y # ys" "nid x = nid y" by (cases as; cases bs) auto
  then have "x = y" using used_unique [OF inv] a(1) b(1) by (auto simp: chain_in_def)
  then show ?thesis using linked_unique [OF inv, of None x xs ys] xy a(1) b(1) by (auto simp: chain_in_def)
qed

lemma chained_free:
  assumes inv: "mm_inv m" and c: "chained m" and ch: "chain_in m ch None"
    and m': "used m' = others m ch"
  shows "chained m'"
  unfolding chained_def
proof
  fix n assume n: "n \<in> set (used m')"
  then have "n \<in> set (used m)" "nid n \<notin> nid ` set ch" using m' by (auto simp: others_def)
  then obtain c2 where c2: "chain_in m c2 None" "n \<in> set c2" "c2 \<noteq> ch" using c by (auto simp: chained_def)
  have "nid x \<notin> nid ` set ch" if "x \<in> set c2" for x
  proof
    assume "nid x \<in> nid ` set ch"
    then obtain y where "y \<in> set ch" "nid y = nid x" by auto
    then have "x \<in> set ch" using used_unique [OF inv, of y x] ch c2(1) that by (auto simp: chain_in_def)
    then show False using chain_unique [OF inv c2(1) that ch] c2(3) by blast
  qed
  then have "set c2 \<subseteq> set (used m')" using c2(1) m' by (auto simp: others_def chain_in_def)
  then show "\<exists>ch. chain_in m' ch None \<and> n \<in> set ch" using c2 by (auto simp: chain_in_def)
qed

end
