(* ===== verification/MmRuns.thy ===== *)
theory MmRuns
  imports MmProps
begin

section \<open>Everything a caller can make of a memory manager\<close>

text \<open>
  A manager is made by \<open>pscnv_mm_init\<close> and from then on changed by calls of \<open>pscnv_mm_alloc\<close> and
  \<open>pscnv_mm_free\<close> only. A run is any sequence of such calls; a call frees a block that is in use
  (any block of a chain), as the callers in the driver do.
\<close>

datatype mm_call =
    MmAlloc "nat \<Rightarrow> bool" u64 u32 u64 u64
  | MmFree nat

fun mm_run :: "mm \<Rightarrow> mm_call list \<Rightarrow> mm option" where
  "mm_run m [] = Some m"
| "mm_run m (MmAlloc kz sz flags start end' # cs) =
     Option.bind (pscnv_mm_alloc kz m sz flags start end') (\<lambda>(r, m'). mm_run m' cs)"
| "mm_run m (MmFree i # cs) =
     (if i \<in> nid ` set (used m) then Option.bind (pscnv_mm_free m i) (\<lambda>m'. mm_run m' cs)
      else mm_run m cs)"

subsection \<open>The invariant of runs\<close>

definition mm_good :: "mm \<Rightarrow> bool" where
  "mm_good m \<longleftrightarrow> mm_inv m \<and> tiled m \<and> chained m"

lemma mm_goodD:
  assumes "mm_good m"
  shows "mm_inv m" "tiled m" "chained m"
  using assms by (simp_all add: mm_good_def)

text \<open>An allocation adds one chain and leaves the others as they are.\<close>

lemma chained_alloc:
  assumes inv: "mm_inv m" and c: "chained m" and call: "pscnv_mm_alloc kz m sz flags start end' = Some (r, m')"
  shows "chained m'"
proof -
  from mm_alloc_total [OF inv, of kz sz flags start end'] call consider
      (same) "used m' = used m"
    | (more) ch where "chain_in m' ch None" "others m' ch = used m" "mm_inv m'"
    by (auto simp: alloc_result_def split: if_splits sum.splits)
  then show ?thesis
  proof cases
    case same
    then show ?thesis using c by (simp add: chained_def chain_in_def)
  next
    case (more ch)
    have sub: "set (used m) \<subseteq> set (used m')" unfolding more(2) [symmetric] by (auto simp: others_def)
    have "\<exists>ch. chain_in m' ch None \<and> n \<in> set ch" if n: "n \<in> set (used m')" for n
    proof (cases "nid n \<in> nid ` set (used m)")
      case False
      then show ?thesis using fresh_in_chain [OF more(3,1,2) n] more(1) by blast
    next
      case True
      then obtain u where "u \<in> set (used m)" "nid u = nid n" by auto
      then have "n \<in> set (used m)" using used_unique [OF more(3), of u n] sub n by auto
      with c obtain c2 where "chain_in m c2 None" "n \<in> set c2" by (auto simp: chained_def)
      with sub show ?thesis by (auto simp: chain_in_def)
    qed
    then show ?thesis by (simp add: chained_def)
  qed
qed

lemma mm_good_alloc:
  assumes "mm_good m"
  obtains r m' where "pscnv_mm_alloc kz m sz flags start end' = Some (r, m')" "mm_good m'" "mm_frame m m'"
proof -
  note g = mm_goodD [OF assms]
  from mm_alloc_total [OF g(1), of kz sz flags start end'] obtain r m' where
    m': "pscnv_mm_alloc kz m sz flags start end' = Some (r, m')" "mm_inv m'" "mm_frame m m'" by blast
  with chained_alloc [OF g(1,3) m'(1)] g(2) that show ?thesis by (simp add: mm_good_def mm_frame_def)
qed

lemma mm_good_free:
  assumes "mm_good m" "i \<in> nid ` set (used m)"
  obtains m' where "pscnv_mm_free m i = Some m'" "mm_good m'" "mm_frame m m'"
proof -
  note g = mm_goodD [OF assms(1)]
  from assms(2) g(3) obtain n ch where n: "i = nid n" "chain_in m ch None" "n \<in> set ch"
    by (auto simp: chained_def)
  from mm_free_chain_used [OF g(1) n(2,3)] obtain m' where
    m': "pscnv_mm_free m i = Some m'" "mm_inv m'" "mm_frame m m'" "used m' = others m ch"
    using n(1) by auto
  with chained_free [OF g(1,3) n(2) m'(4)] g(2) that show ?thesis by (simp add: mm_good_def mm_frame_def)
qed

lemma mm_run_good:
  "mm_good m \<Longrightarrow> \<exists>m'. mm_run m cs = Some m' \<and> mm_good m' \<and> mm_frame m m'"
proof (induction cs arbitrary: m)
  case Nil
  then show ?case by (simp add: mm_frame_def)
next
  case (Cons c cs)
  show ?case
  proof (cases c)
    case (MmAlloc kz sz flags start end')
    from mm_good_alloc [OF Cons.prems, of kz sz flags start end'] obtain r m1 where
      m1: "pscnv_mm_alloc kz m sz flags start end' = Some (r, m1)" "mm_good m1" "mm_frame m m1" .
    with Cons.IH [OF m1(2)] show ?thesis by (auto simp: MmAlloc mm_frame_def)
  next
    case (MmFree i)
    show ?thesis
    proof (cases "i \<in> nid ` set (used m)")
      case True
      from mm_good_free [OF Cons.prems True] obtain m1 where
        m1: "pscnv_mm_free m i = Some m1" "mm_good m1" "mm_frame m m1" .
      with Cons.IH [OF m1(2)] True show ?thesis by (auto simp: MmFree mm_frame_def)
    next
      case False
      then show ?thesis using Cons by (simp add: MmFree)
    qed
  qed
qed

lemma init_run_good:
  assumes "pscnv_mm_init kz start end' sp lp ts = Some (Inr m)"
    "start < end'" "unat end' + 2 ^ 34 \<le> 2 ^ 64" "0 < sp" "0 < lp" "0 < ts"
  obtains m' where "mm_run m cs = Some m'" "mm_inv m'" "tiled m'" "chained m'"
    "mm_bounds m' = (start, end')" "tssize m' = ts"
proof -
  from mm_init_manager [OF assms(2-6), of kz] assms(1) have
    m: "mm_inv m" "used m = []" "tiled m" "mm_bounds m = (start, end')" "tssize m = ts"
    by (auto split: if_splits)
  then have "mm_good m" by (simp add: mm_good_def chained_def)
  with mm_run_good [of m cs] m that show ?thesis by (auto simp: mm_good_def mm_frame_def)
qed

text \<open>
  Calls on the small manager of the examples: a block of each type, a fragmented one while
  \<open>kzalloc\<close> fails now and then, and the frees of two of them.
\<close>

definition example_calls :: "mm_call list" where
  "example_calls =
     [MmAlloc (\<lambda>_. True) 8000 0 0 65536, MmAlloc (\<lambda>_. True) 8000 1 0 65536, MmFree 3,
      MmAlloc (\<lambda>i. i mod 7 \<noteq> 0) 20000 4 0 65536, MmFree 4]"

subsection \<open>Blocks of a run\<close>

text \<open>
  C5: whatever calls a new manager has served, in whatever order and with whatever failures of
  \<open>kzalloc\<close>, every call has returned, two blocks in use never overlap, and every block in use lies
  in the range the manager was made for.
\<close>

theorem run_blocks_disjoint:
  assumes "pscnv_mm_init kz start end' sp lp ts = Some (Inr m)"
    "start < end'" "unat end' + 2 ^ 34 \<le> 2 ^ 64" "0 < sp" "0 < lp" "0 < ts"
  shows "\<exists>m'. mm_run m cs = Some m' \<and>
    (\<forall>a b. a \<in> set (used m') \<and> b \<in> set (used m') \<and> a \<noteq> b \<longrightarrow>
       unat (nstart a) + unat (nsize a) \<le> unat (nstart b) \<or>
       unat (nstart b) + unat (nsize b) \<le> unat (nstart a)) \<and>
    (\<forall>a. a \<in> set (used m') \<longrightarrow> start \<le> nstart a \<and> unat (nstart a) + unat (nsize a) \<le> unat end')"
proof -
  from init_run_good [OF assms, of cs] obtain m' where
    m': "mm_run m cs = Some m'" "mm_inv m'" "mm_bounds m' = (start, end')" .
  with used_disjoint [OF m'(2)] show ?thesis by (intro exI [of _ m']) force
qed

theorem run_blocks_disjoint_witness:
  "\<exists>m m'. example_init = Some (Inr m) \<and> mm_run m example_calls = Some m' \<and>
    (\<forall>a b. a \<in> set (used m') \<and> b \<in> set (used m') \<and> a \<noteq> b \<longrightarrow>
       unat (nstart a) + unat (nsize a) \<le> unat (nstart b) \<or>
       unat (nstart b) + unat (nsize b) \<le> unat (nstart a))"
proof -
  from example_mm obtain m where m: "example_init = Some (Inr m)" by blast
  with run_blocks_disjoint [of "\<lambda>_. True" 4096 65536 4096 8192 16384 m example_calls] show ?thesis
    by (auto simp: example_init_def)
qed

text \<open>
  C4: in every such run blocks of the two types never share a tile of \<open>tssize\<close> bytes, so that
  small-page and large-page mappings never meet in one page table.
\<close>

theorem run_types_share_no_tile:
  assumes "pscnv_mm_init kz start end' sp lp ts = Some (Inr m)"
    "start < end'" "unat end' + 2 ^ 34 \<le> 2 ^ 64" "0 < sp" "0 < lp" "0 < ts"
  shows "\<exists>m'. mm_run m cs = Some m' \<and>
    (\<forall>a b x y. a \<in> set (used m') \<and> b \<in> set (used m') \<and> mtype a \<noteq> mtype b \<and>
       unat (nstart a) \<le> x \<and> x < unat (nstart a) + unat (nsize a) \<and>
       unat (nstart b) \<le> y \<and> y < unat (nstart b) + unat (nsize b) \<longrightarrow>
       x div unat ts \<noteq> y div unat ts)"
proof -
  from init_run_good [OF assms, of cs] obtain m' where
    m': "mm_run m cs = Some m'" "mm_inv m'" "tiled m'" "tssize m' = ts" .
  with types_in_tiles [OF m'(2,3)] show ?thesis by (intro exI [of _ m']) auto
qed

theorem run_types_share_no_tile_witness:
  "\<exists>m m'. example_init = Some (Inr m) \<and> mm_run m example_calls = Some m' \<and>
    (\<forall>a b. a \<in> set (used m') \<and> b \<in> set (used m') \<and> mtype a \<noteq> mtype b \<and> 0 < nsize a \<and> 0 < nsize b \<longrightarrow>
       unat (nstart a) div 16384 \<noteq> unat (nstart b) div 16384)"
proof -
  from example_mm obtain m where m: "example_init = Some (Inr m)" by blast
  with run_types_share_no_tile [of "\<lambda>_. True" 4096 65536 4096 8192 16384 m example_calls] obtain m' where
    m': "mm_run m example_calls = Some m'"
    "\<And>a b x y. a \<in> set (used m') \<Longrightarrow> b \<in> set (used m') \<Longrightarrow> mtype a \<noteq> mtype b \<Longrightarrow>
       unat (nstart a) \<le> x \<Longrightarrow> x < unat (nstart a) + unat (nsize a) \<Longrightarrow>
       unat (nstart b) \<le> y \<Longrightarrow> y < unat (nstart b) + unat (nsize b) \<Longrightarrow> x div 16384 \<noteq> y div 16384"
    by (auto simp: example_init_def)
  have "unat (nstart a) div 16384 \<noteq> unat (nstart b) div 16384"
    if "a \<in> set (used m')" "b \<in> set (used m')" "mtype a \<noteq> mtype b" "0 < nsize a" "0 < nsize b" for a b
    using m'(2) [OF that(1-3), of "unat (nstart a)" "unat (nstart b)"] that(4,5) by (simp add: word_less_iff_unat)
  with m m'(1) show ?thesis by blast
qed

end
