(* ===== verification/Hw.thy ===== *)
theory Hw
  imports Prelude
begin

section \<open>The card as the driver sees it\<close>

text \<open>
  Register access (\<open>nouveau_drv.h\<close>, \<open>nouveau_hw.h\<close>, \<open>nouveau_hw.c\<close>), the timer
  (\<open>nv04_timer.c\<close>) and \<open>nouveau_wait_until\<close> (\<open>nouveau_state.c\<close>).

  Everything that leaves the driver is a request of type \<open>io\<close>, recorded in the log of the
  state, newest first. The card (and the kernel services the driver calls) is a function from the
  requests so far and the new one to a return code and a value, so nothing is assumed about it: a
  register may read differently every time. C functions are functions from the state to an
  option: \<^const>\<open>None\<close> is a crash (a read outside an array, a shift by more than the width, a
  failed \<open>BUG_ON\<close>) or a loop that never ends.
\<close>

record i2c_chan =
  port :: u8
  rd :: u32
  wr :: u32

datatype io =
    Rd32 u32 | Wr32 u32 u32 | Rd08 u32 | Wr08 u32 u8
  | FbMap | FbRd u32 | FbWr u32 u32
  | Msleep u32 | Mdelay u32 | Udelay u32
  | Kzalloc | I2cRegister i2c_chan
  | SmbusRd i2c_chan u8 u8 | SmbusWr i2c_chan u8 u8 u8
  | I2cWrite i2c_chan u8 "u8 list" | I2cRead i2c_chan u8 "u8 list"
  | RaminRd u64 | RaminWr u64 u32
  | PageAlloc bool | PagePut int | PageMap int | PageMapError u64 | PageUnmap u64
  | GemAlloc u64 | GemRelease nat | GemLookup int u32 | GemUnref nat
  | GemHandleCreate int nat | GemHandleUnref nat
  | Ioremap u64 u64 | Iounmap | CtlWr u32 u32
  | DrmMmap u64 | RemapPfn u64 u64
  | WorkPending nat | QueueWork nat | Printk "string list" "u64 list"
  | DmaSupported u64 | SetDmaMask u64 | MtrrAdd u64 u64 | MtrrDel u64 u64
  | KernelCall string "u64 list"

record device =
  card_type :: int
  chipset :: int
  fb_len :: u32
  answer :: "io list \<Rightarrow> io \<Rightarrow> int \<times> u32"

record hw =
  log :: "io list"

definition NV_10 :: int where "NV_10 = 0x10"
definition NV_20 :: int where "NV_20 = 0x20"
definition NV_40 :: int where "NV_40 = 0x40"
definition NV_50 :: int where "NV_50 = 0x50"

lemmas card_types = NV_10_def NV_20_def NV_40_def NV_50_def

subsection \<open>Requests\<close>

definition request :: "'d device_scheme \<Rightarrow> io \<Rightarrow> 's hw_scheme \<Rightarrow> ((int \<times> u32) \<times> 's hw_scheme) option" where
  "request d q s = Some (answer d (log s) q, s\<lparr>log := q # log s\<rparr>)"

definition tell :: "'d device_scheme \<Rightarrow> io \<Rightarrow> 's hw_scheme \<Rightarrow> 's hw_scheme option" where
  "tell d q s = Some (s\<lparr>log := q # log s\<rparr>)"

definition nv_rd32 :: "'d device_scheme \<Rightarrow> u32 \<Rightarrow> 's hw_scheme \<Rightarrow> (u32 \<times> 's hw_scheme) option" where
  "nv_rd32 d reg s = do { ((_, v), s) \<leftarrow> request d (Rd32 reg) s; Some (v, s) }"

definition nv_wr32 :: "'d device_scheme \<Rightarrow> u32 \<Rightarrow> u32 \<Rightarrow> 's hw_scheme \<Rightarrow> 's hw_scheme option" where
  "nv_wr32 d reg v s = tell d (Wr32 reg v) s"

definition nv_mask :: "'d device_scheme \<Rightarrow> u32 \<Rightarrow> u32 \<Rightarrow> u32 \<Rightarrow> 's hw_scheme \<Rightarrow> (u32 \<times> 's hw_scheme) option" where
  "nv_mask d reg msk v s = do {
     (tmp, s) \<leftarrow> nv_rd32 d reg s;
     s \<leftarrow> nv_wr32 d reg ((tmp AND NOT msk) OR v) s;
     Some (tmp, s) }"

definition nv_rd08 :: "'d device_scheme \<Rightarrow> u32 \<Rightarrow> 's hw_scheme \<Rightarrow> (u8 \<times> 's hw_scheme) option" where
  "nv_rd08 d reg s = do { ((_, v), s) \<leftarrow> request d (Rd08 reg) s; Some (ucast v, s) }"

definition nv_wr08 :: "'d device_scheme \<Rightarrow> u32 \<Rightarrow> u8 \<Rightarrow> 's hw_scheme \<Rightarrow> 's hw_scheme option" where
  "nv_wr08 d reg v s = tell d (Wr08 reg v) s"

subsection \<open>Shifts\<close>

text \<open>In C a shift of a 32-bit value by 32 or more is undefined: here it is a crash.\<close>

definition shr32 :: "u32 \<Rightarrow> nat \<Rightarrow> u32 option" where
  "shr32 x n = (if n < 32 then Some (drop_bit n x) else None)"

definition shl32 :: "u32 \<Rightarrow> nat \<Rightarrow> u32 option" where
  "shl32 x n = (if n < 32 then Some (push_bit n x) else None)"

text \<open>A VBIOS shift byte: right by the value, or left by its negation as a signed byte.\<close>

definition shift_signed :: "u32 \<Rightarrow> u8 \<Rightarrow> u32 option" where
  "shift_signed x sh = (if sh < 0x80 then shr32 x (unat sh) else shl32 x (0x100 - unat sh))"

subsection \<open>Loops\<close>

primrec for_each :: "('a \<Rightarrow> 's \<Rightarrow> 's option) \<Rightarrow> 'a list \<Rightarrow> 's \<Rightarrow> 's option" where
  "for_each body [] s = Some s"
| "for_each body (x # xs) s = do { s \<leftarrow> body x s; for_each body xs s }"

text \<open>A loop its body may leave: the flag says whether it did.\<close>

primrec until :: "('a \<Rightarrow> 's \<Rightarrow> (bool \<times> 's) option) \<Rightarrow> 'a list \<Rightarrow> 's \<Rightarrow> (bool \<times> 's) option" where
  "until body [] s = Some (False, s)"
| "until body (x # xs) s = do {
     (stop, s) \<leftarrow> body x s;
     if stop then Some (True, s) else until body xs s }"

subsection \<open>VGA registers behind MMIO\<close>

definition head_offset :: "int \<Rightarrow> u32" where
  "head_offset head = word_of_int (head * 0x2000)"

definition NVWriteVgaCrtc :: "'d device_scheme \<Rightarrow> int \<Rightarrow> u8 \<Rightarrow> u8 \<Rightarrow> 's hw_scheme \<Rightarrow> 's hw_scheme option" where
  "NVWriteVgaCrtc d head index v s = do {
     s \<leftarrow> nv_wr08 d (0x6013d4 + head_offset head) index s;
     nv_wr08 d (0x6013d5 + head_offset head) v s }"

definition NVReadVgaCrtc :: "'d device_scheme \<Rightarrow> int \<Rightarrow> u8 \<Rightarrow> 's hw_scheme \<Rightarrow> (u8 \<times> 's hw_scheme) option" where
  "NVReadVgaCrtc d head index s = do {
     s \<leftarrow> nv_wr08 d (0x6013d4 + head_offset head) index s;
     nv_rd08 d (0x6013d5 + head_offset head) s }"

definition NVReadVgaCrtc5758 :: "'d device_scheme \<Rightarrow> int \<Rightarrow> u8 \<Rightarrow> 's hw_scheme \<Rightarrow> (u8 \<times> 's hw_scheme) option" where
  "NVReadVgaCrtc5758 d head index s = do {
     s \<leftarrow> NVWriteVgaCrtc d head 0x57 index s;
     NVReadVgaCrtc d head 0x58 s }"

definition NVWriteVgaCrtc5758 :: "'d device_scheme \<Rightarrow> int \<Rightarrow> u8 \<Rightarrow> u8 \<Rightarrow> 's hw_scheme \<Rightarrow> 's hw_scheme option" where
  "NVWriteVgaCrtc5758 d head index v s = do {
     s \<leftarrow> NVWriteVgaCrtc d head 0x57 index s;
     NVWriteVgaCrtc d head 0x58 v s }"

definition prmvio :: "'d device_scheme \<Rightarrow> int \<Rightarrow> u32 \<Rightarrow> u32" where
  "prmvio d head reg = (if head \<noteq> 0 \<and> card_type d = NV_40 then reg + 0x2000 else reg)"

definition NVReadPRMVIO :: "'d device_scheme \<Rightarrow> int \<Rightarrow> u32 \<Rightarrow> 's hw_scheme \<Rightarrow> (u8 \<times> 's hw_scheme) option" where
  "NVReadPRMVIO d head reg s = nv_rd08 d (prmvio d head reg) s"

definition NVWritePRMVIO :: "'d device_scheme \<Rightarrow> int \<Rightarrow> u32 \<Rightarrow> u8 \<Rightarrow> 's hw_scheme \<Rightarrow> 's hw_scheme option" where
  "NVWritePRMVIO d head reg v s = nv_wr08 d (prmvio d head reg) v s"

definition NVWriteVgaSeq :: "'d device_scheme \<Rightarrow> int \<Rightarrow> u8 \<Rightarrow> u8 \<Rightarrow> 's hw_scheme \<Rightarrow> 's hw_scheme option" where
  "NVWriteVgaSeq d head index v s = do {
     s \<leftarrow> NVWritePRMVIO d head 0xc03c4 index s;
     NVWritePRMVIO d head 0xc03c5 v s }"

definition NVReadVgaSeq :: "'d device_scheme \<Rightarrow> int \<Rightarrow> u8 \<Rightarrow> 's hw_scheme \<Rightarrow> (u8 \<times> 's hw_scheme) option" where
  "NVReadVgaSeq d head index s = do {
     s \<leftarrow> NVWritePRMVIO d head 0xc03c4 index s;
     NVReadPRMVIO d head 0xc03c5 s }"

definition ramdac_reg :: "int \<Rightarrow> u32 \<Rightarrow> u32" where
  "ramdac_reg head reg = (if head \<noteq> 0 then reg + 0x2000 else reg)"

definition NVReadRAMDAC :: "'d device_scheme \<Rightarrow> int \<Rightarrow> u32 \<Rightarrow> 's hw_scheme \<Rightarrow> (u32 \<times> 's hw_scheme) option" where
  "NVReadRAMDAC d head reg s = nv_rd32 d (ramdac_reg head reg) s"

definition NVWriteRAMDAC :: "'d device_scheme \<Rightarrow> int \<Rightarrow> u32 \<Rightarrow> u32 \<Rightarrow> 's hw_scheme \<Rightarrow> 's hw_scheme option" where
  "NVWriteRAMDAC d head reg v s = nv_wr32 d (ramdac_reg head reg) v s"

subsection \<open>The timer and polling\<close>

text \<open>Both loops end only if the card lets them.\<close>

partial_function (option) timer_settle :: "'d device_scheme \<Rightarrow> u32 \<Rightarrow> 's hw_scheme \<Rightarrow> (u64 \<times> 's hw_scheme) option" where
  "timer_settle d high1 s = do {
     (low, s) \<leftarrow> nv_rd32 d 0x9400 s;
     (high2, s) \<leftarrow> nv_rd32 d 0x9410 s;
     if high1 = high2 then Some (push_bit 32 (ucast high2) OR ucast low, s)
     else timer_settle d high2 s }"

definition nv04_timer_read :: "'d device_scheme \<Rightarrow> 's hw_scheme \<Rightarrow> (u64 \<times> 's hw_scheme) option" where
  "nv04_timer_read d s = do {
     (high, s) \<leftarrow> nv_rd32 d 0x9410 s;
     timer_settle d high s }"

partial_function (option) wait_from ::
  "'d device_scheme \<Rightarrow> u64 \<Rightarrow> u32 \<Rightarrow> u32 \<Rightarrow> u32 \<Rightarrow> u64 \<Rightarrow> 's hw_scheme \<Rightarrow> (bool \<times> 's hw_scheme) option" where
  "wait_from d timeout reg msk v start s = do {
     (x, s) \<leftarrow> nv_rd32 d reg s;
     if x AND msk = v then Some (True, s)
     else do {
       (now, s) \<leftarrow> nv04_timer_read d s;
       if now - start < timeout then wait_from d timeout reg msk v start s
       else Some (False, s) } }"

definition nouveau_wait_until ::
  "'d device_scheme \<Rightarrow> u64 \<Rightarrow> u32 \<Rightarrow> u32 \<Rightarrow> u32 \<Rightarrow> 's hw_scheme \<Rightarrow> (bool \<times> 's hw_scheme) option" where
  "nouveau_wait_until d timeout reg msk v s = do {
     (start, s) \<leftarrow> nv04_timer_read d s;
     wait_from d timeout reg msk v start s }"

definition nv_wait :: "'d device_scheme \<Rightarrow> u32 \<Rightarrow> u32 \<Rightarrow> u32 \<Rightarrow> 's hw_scheme \<Rightarrow> (bool \<times> 's hw_scheme) option" where
  "nv_wait d reg msk v s = nouveau_wait_until d 2000000000 reg msk v s"

end
