(* ===== verification/Kern.thy ===== *)
theory Kern
  imports Mm Hw
begin

section \<open>The kernel objects of the driver\<close>

text \<open>
  The state of the memory, address-space and channel code (\<open>pscnv_mem.h\<close>, \<open>pscnv_vm.h\<close>,
  \<open>pscnv_chan.h\<close>, \<open>pscnv_ramht.h\<close>, \<open>nv50_vm.h\<close>, \<open>nvc0_vm.h\<close> and the fields of
  \<open>struct drm_nouveau_private\<close> they use), and access to the words of a buffer object
  (\<open>nv_rv32\<close>, \<open>nv_wv32\<close>).

  Structs live in the heap of the state: a pointer is a natural number, and the heap maps it to the
  struct, or to \<^const>\<open>None\<close> once it is freed. Using a freed struct is a crash, that is, the whole
  operation is \<^const>\<open>None\<close>. A pointer to a node of an address space is the pair of the
  address space and the number of the node in its range allocator. Spinlocks are left out, since an
  operation runs alone; the mutex of an address space is the field \<open>vlocked\<close>, and taking it twice
  is a deadlock, again \<^const>\<open>None\<close>.
\<close>

type_synonym vnode = "nat \<times> nat"

record bo =
  bsize :: u64
  bflags :: u32
  btile_flags :: u32
  bcookie :: u32
  bserial :: int
  bstart :: u64
  buser :: "u32 list"
  bgem :: "nat option"
  bmap1 :: "vnode option"
  bmap3 :: "vnode option"
  bmmnode :: "nat option"
  bpages :: "int list"
  bdmapages :: "u64 list"

record nv50_vspace =
  chan_list :: "nat list"
  engref :: "nat \<Rightarrow> int"
  pt :: "nat \<Rightarrow> nat option"

record nvc0_pgt =
  pde :: nat
  limit :: nat
  lpt :: "nat option"
  spt :: "nat option"

record nvc0_vspace =
  pd :: nat
  ptht :: "nat \<Rightarrow> nvc0_pgt list"

datatype engdata = NoEng | Nv50 nv50_vspace | Nvc0 nvc0_vspace

record vspace =
  vid :: int
  vmm :: "mm option"
  vfilp :: "int option"
  vref :: int
  vsize :: u64
  vflags :: u32
  veng :: engdata
  vlocked :: bool

record ramht =
  rbo :: "nat option"
  roffset :: u32
  rbits :: nat

record chan =
  cid :: int
  chandle :: u32
  cvspace :: nat
  cbo :: "nat option"
  cinstpos :: u32
  cramht :: ramht
  cramfc :: u32
  ccache :: "nat option"
  cfilp :: "int option"
  cref :: int
  cengdata :: "nat \<Rightarrow> nat option"

text \<open>
  What does not change while the driver runs: besides the card, the sizes and addresses of its
  apertures, its identity on the bus, and whether the allocations inside the range allocators succeed
  (\<^term>\<open>None\<close> for that of VRAM, \<^term>\<open>Some v\<close> for that of an address space).
\<close>

record card = device +
  fb_size :: u64
  ramin_size :: u64
  mm_kz :: "nat option \<Rightarrow> nat \<Rightarrow> bool"
  fb_phys :: u64
  mmio_phys :: u64
  pci_vendor :: u32
  pci_device :: u32
  is_agp :: bool
  is_pcie :: bool

record fifo =
  playlists :: "nat \<times> nat"
  cur_playlist :: bool
  ctrl_bo :: "nat option"

datatype irq = Nv50FifoIrq | Nvc0FifoIrq | Nv50GraphIrq

record kern = hw +
  pramin_start :: u64
  vm_up :: bool
  vm_ok :: bool
  vm_ramin_base :: u64
  bos :: "nat \<Rightarrow> bo option"
  vss :: "nat \<Rightarrow> vspace option"
  chs :: "nat \<Rightarrow> chan option"
  gems :: "nat \<Rightarrow> nat option"
  fresh :: nat
  serial :: int
  vram_mm :: "mm option"
  vram_size :: u64
  vram_sys_base :: u64
  vspaces :: "nat \<Rightarrow> nat option"
  fake_vspaces :: "nat \<Rightarrow> nat option"
  chans :: "nat \<Rightarrow> nat option"
  fake_chans :: "nat \<Rightarrow> nat option"
  ch_min :: nat
  ch_max :: nat
  barvm :: "nat option"
  barch :: "nat option"
  bar1vm :: "nat option"
  bar1ch :: "nat option"
  bar3vm :: "nat option"
  bar3ch :: "nat option"
  grctx_size :: "u32 option"
  fifo_engine :: "fifo option"
  irq_handler :: "nat \<Rightarrow> irq option"
  dma_mask :: u64
  card_ready :: bool
  fb_mtrr :: int

subsection \<open>Heap access\<close>

definition upd_bo :: "nat \<Rightarrow> (bo \<Rightarrow> bo) \<Rightarrow> kern \<Rightarrow> kern option" where
  "upd_bo b f s = map_option (\<lambda>o'. s\<lparr>bos := (bos s)(b \<mapsto> f o')\<rparr>) (bos s b)"

definition upd_vs :: "nat \<Rightarrow> (vspace \<Rightarrow> vspace) \<Rightarrow> kern \<Rightarrow> kern option" where
  "upd_vs v f s = map_option (\<lambda>o'. s\<lparr>vss := (vss s)(v \<mapsto> f o')\<rparr>) (vss s v)"

definition upd_ch :: "nat \<Rightarrow> (chan \<Rightarrow> chan) \<Rightarrow> kern \<Rightarrow> kern option" where
  "upd_ch c f s = map_option (\<lambda>o'. s\<lparr>chs := (chs s)(c \<mapsto> f o')\<rparr>) (chs s c)"

text \<open>The node a pointer stands for.\<close>

definition vs_node :: "vnode \<Rightarrow> kern \<Rightarrow> mm_node option" where
  "vs_node p s = do {
     vs \<leftarrow> vss s (fst p);
     m \<leftarrow> vmm vs;
     mm_lookup m (snd p) }"

subsection \<open>The words of a buffer object\<close>

text \<open>
  An object mapped by the kernel is reached through BAR3. Any other is reached through a window of
  64 KiB of VRAM in the register space, whose position is register 0x1700; \<open>pramin_start\<close>
  remembers it.
\<close>

definition kernel_map :: "bo \<Rightarrow> kern \<Rightarrow> vnode option" where
  "kernel_map o' s = (if vm_up s \<and> vm_ok s then bmap3 o' else None)"

definition pramin_window :: "card \<Rightarrow> u64 \<Rightarrow> kern \<Rightarrow> kern option" where
  "pramin_window d addr s =
     (if drop_bit 16 addr \<noteq> pramin_start s
      then nv_wr32 d 0x1700 (ucast (drop_bit 16 addr)) (s\<lparr>pramin_start := drop_bit 16 addr\<rparr>)
      else Some s)"

definition nv_rv32 :: "card \<Rightarrow> nat \<Rightarrow> u32 \<Rightarrow> kern \<Rightarrow> (u32 \<times> kern) option" where
  "nv_rv32 d b ofs s = do {
     bo \<leftarrow> bos s b;
     let addr = bstart bo + ucast ofs;
     case kernel_map bo s of
       Some p \<Rightarrow> do {
         n \<leftarrow> vs_node p s;
         ((_, v), s) \<leftarrow> request d (RaminRd (nstart n - vm_ramin_base s + ucast ofs)) s;
         Some (v, s) }
     | None \<Rightarrow> do {
         s \<leftarrow> pramin_window d addr s;
         nv_rd32 d (0x700000 + ucast (addr AND 0xffff)) s } }"

definition nv_wv32 :: "card \<Rightarrow> nat \<Rightarrow> u32 \<Rightarrow> u32 \<Rightarrow> kern \<Rightarrow> kern option" where
  "nv_wv32 d b ofs v s = do {
     bo \<leftarrow> bos s b;
     let addr = bstart bo + ucast ofs;
     case kernel_map bo s of
       Some p \<Rightarrow> do {
         n \<leftarrow> vs_node p s;
         tell d (RaminWr (nstart n - vm_ramin_base s + ucast ofs) v) s }
     | None \<Rightarrow> do {
         s \<leftarrow> pramin_window d addr s;
         nv_wr32 d (0x700000 + ucast (addr AND 0xffff)) v s } }"

subsection \<open>The memory behind the requests\<close>

text \<open>
  What the requests so far have done to VRAM (through the window) and to the memory that BAR3 shows.
  A card \<^emph>\<open>remembers\<close> when the words it answers are those last written.
\<close>

record memory =
  window :: u32
  vram :: "u64 \<Rightarrow> u32"
  bar3 :: "u64 \<Rightarrow> u32"

definition in_window :: "u32 \<Rightarrow> bool" where
  "in_window r \<longleftrightarrow> 0x700000 \<le> r \<and> r < 0x710000"

definition window_addr :: "memory \<Rightarrow> u32 \<Rightarrow> u64" where
  "window_addr m r = push_bit 16 (ucast (window m)) + ucast (r - 0x700000)"

primrec after :: "memory \<Rightarrow> io list \<Rightarrow> memory" where
  "after m0 [] = m0"
| "after m0 (q # qs) =
     (let m = after m0 qs in
      case q of
        Wr32 r v \<Rightarrow>
          if r = 0x1700 then m\<lparr>window := v\<rparr>
          else if in_window r then m\<lparr>vram := (vram m)(window_addr m r := v)\<rparr>
          else m
      | RaminWr a v \<Rightarrow> m\<lparr>bar3 := (bar3 m)(a := v)\<rparr>
      | _ \<Rightarrow> m)"

definition remembers :: "'d device_scheme \<Rightarrow> memory \<Rightarrow> bool" where
  "remembers d m0 \<longleftrightarrow>
     (\<forall>qs r. in_window r \<longrightarrow> snd (answer d qs (Rd32 r)) = vram (after m0 qs) (window_addr (after m0 qs) r)) \<and>
     (\<forall>qs a. snd (answer d qs (RaminRd a)) = bar3 (after m0 qs) a)"

definition mem_now :: "memory \<Rightarrow> 's hw_scheme \<Rightarrow> memory" where
  "mem_now m0 s = after m0 (log s)"

text \<open>The driver's idea of the window is right.\<close>

definition window_ok :: "memory \<Rightarrow> kern \<Rightarrow> bool" where
  "window_ok m0 s \<longleftrightarrow> pramin_start s = ucast (window (mem_now m0 s))"

text \<open>Where word \<open>ofs\<close> of an object is kept, and what it holds.\<close>

datatype place = InVram u64 | InBar3 u64

definition bo_place :: "nat \<Rightarrow> kern \<Rightarrow> u32 \<Rightarrow> place option" where
  "bo_place b s ofs = do {
     bo \<leftarrow> bos s b;
     case kernel_map bo s of
       Some p \<Rightarrow> do { n \<leftarrow> vs_node p s; Some (InBar3 (nstart n - vm_ramin_base s + ucast ofs)) }
     | None \<Rightarrow> Some (InVram (bstart bo + ucast ofs)) }"

primrec word_at :: "memory \<Rightarrow> place \<Rightarrow> u32" where
  "word_at m (InVram a) = vram m a"
| "word_at m (InBar3 a) = bar3 m a"

definition bo_word :: "memory \<Rightarrow> nat \<Rightarrow> kern \<Rightarrow> u32 \<Rightarrow> u32" where
  "bo_word m0 b s ofs = (case bo_place b s ofs of None \<Rightarrow> 0 | Some p \<Rightarrow> word_at (mem_now m0 s) p)"

text \<open>The words that lie inside an object.\<close>

definition bo_inside :: "nat \<Rightarrow> kern \<Rightarrow> u32 \<Rightarrow> bool" where
  "bo_inside b s ofs \<longleftrightarrow>
     (case bos s b of None \<Rightarrow> False | Some bo \<Rightarrow> unat ofs + 4 \<le> unat (bsize bo))"

text \<open>
  An object that can be reached: unless it is mapped for the kernel, over its whole size, it lies in
  the first \<open>2 ^ 48\<close> bytes.
\<close>

definition reachable_bo :: "nat \<Rightarrow> kern \<Rightarrow> bool" where
  "reachable_bo b s \<longleftrightarrow>
     (case bos s b of
        None \<Rightarrow> False
      | Some bo \<Rightarrow>
          (case kernel_map bo s of
             Some p \<Rightarrow> (case vs_node p s of None \<Rightarrow> False | Some n \<Rightarrow> bsize bo \<le> nsize n)
           | None \<Rightarrow> unat (bstart bo) + unat (bsize bo) \<le> 2 ^ 48))"

end
