(* ===== verification/BoWords.thy ===== *)
theory BoWords
  imports Kern
begin

section \<open>Buffer objects as arrays of words\<close>

text \<open>
  The interface that code reading and writing the words of an object relies on, the lemmas about
  loops over it, and the proof that \<open>nv_rv32\<close> and \<open>nv_wv32\<close> provide it on a card that remembers,
  by either of their two paths.
\<close>

subsection \<open>The interface\<close>

locale word_store =
  fixes rd :: "'a \<Rightarrow> 's \<Rightarrow> ('w \<times> 's) option"
    and wr :: "'a \<Rightarrow> 'w \<Rightarrow> 's \<Rightarrow> 's option"
    and cell :: "'s \<Rightarrow> 'a \<Rightarrow> 'w"
    and ok :: "'s \<Rightarrow> bool"
    and inside :: "'s \<Rightarrow> 'a \<Rightarrow> bool"
    and frame :: "'s \<Rightarrow> 's \<Rightarrow> bool"
  assumes rd: "ok s \<Longrightarrow> inside s a \<Longrightarrow> \<exists>s'. rd a s = Some (cell s a, s') \<and> ok s' \<and> cell s' = cell s \<and> frame s s'"
    and wr: "ok s \<Longrightarrow> inside s a \<Longrightarrow> \<exists>s'. wr a v s = Some s' \<and> ok s' \<and> cell s' = (cell s)(a := v) \<and> frame s s'"
    and frame_refl: "frame s s"
    and frame_trans: "frame s s' \<Longrightarrow> frame s' s'' \<Longrightarrow> frame s s''"
    and frame_inside: "frame s s' \<Longrightarrow> inside s' = inside s"
begin

lemma rdE:
  assumes "ok s" "inside s a"
  obtains s' where "rd a s = Some (cell s a, s')" "ok s'" "cell s' = cell s" "frame s s'"
  using rd [OF assms] by blast

lemma wrE:
  assumes "ok s" "inside s a"
  obtains s' where "wr a v s = Some s'" "ok s'" "cell s' = (cell s)(a := v)" "frame s s'"
  using wr [OF assms] by blast

end

subsection \<open>The window\<close>

lemma and_ffff: "(a :: u64) AND 0xffff = take_bit 16 a"
  by (simp add: take_bit_eq_mask mask_eq_exp_minus_1)

lemma low16_u64: "ucast (ucast (a AND 0xffff) :: u32) = take_bit 16 (a :: u64)"
  unfolding and_ffff
  by (rule bit_word_eqI) (auto simp: bit_ucast_iff bit_take_bit_iff)

lemma low16_less: "unat (ucast ((a :: u64) AND 0xffff) :: u32) < 0x10000"
proof -
  have "unat (ucast (a AND 0xffff) :: u32) = unat (ucast (ucast (a AND 0xffff) :: u32) :: u64)"
    by (simp add: unat_ucast_u32_u64)
  also have "\<dots> = take_bit 16 (unat a)" unfolding low16_u64 by (simp add: unsigned_take_bit_eq)
  also have "\<dots> < 2 ^ 16" by (rule take_bit_nat_less_exp)
  finally show ?thesis by simp
qed

lemma window_reg_in: "in_window (0x700000 + ucast ((a :: u64) AND 0xffff))"
  using low16_less [of a] by (simp add: in_window_def word_le_nat_alt word_less_nat_alt unat_word_ariths)

lemma window_reg_not_1700: "0x700000 + ucast ((a :: u64) AND 0xffff) \<noteq> (0x1700 :: u32)"
proof
  assume "0x700000 + ucast (a AND 0xffff) = (0x1700 :: u32)"
  with window_reg_in [of a] have "in_window 0x1700" by simp
  then show False by (simp add: in_window_def)
qed

lemma page_number_fits:
  fixes a :: u64
  assumes "unat a < 2 ^ 48"
  shows "ucast (ucast (drop_bit 16 a) :: u32) = drop_bit 16 a"
  by (rule ucast_u64_u32_u64)
    (use assms in \<open>simp add: drop_bit_eq_div unat_div_distrib less_mult_imp_div_less\<close>)

lemma window_addr_low:
  fixes a :: u64
  assumes "unat a < 2 ^ 48" "window m = ucast (drop_bit 16 a)"
  shows "window_addr m (0x700000 + ucast (a AND 0xffff)) = a"
proof -
  have "window_addr m (0x700000 + ucast (a AND 0xffff)) = push_bit 16 (drop_bit 16 a) + take_bit 16 a"
    by (simp add: window_addr_def assms(2) page_number_fits [OF assms(1)] low16_u64)
  then show ?thesis by (simp add: bits_ident)
qed

lemma inj_ucast_u32_u64: "inj (ucast :: u32 \<Rightarrow> u64)"
  by (rule injI) (metis ucast_u32_u64_u32)

subsection \<open>Access by either path\<close>

definition mem_frame :: "kern \<Rightarrow> kern \<Rightarrow> bool" where
  "mem_frame s s' \<longleftrightarrow> s' = s\<lparr>log := log s', pramin_start := pramin_start s'\<rparr>"

lemma mem_frame_refl [simp]: "mem_frame s s"
  by (simp add: mem_frame_def)

lemma mem_frameE:
  assumes "mem_frame s s'"
  obtains l p where "s' = s\<lparr>log := l, pramin_start := p\<rparr>"
  using assms unfolding mem_frame_def by blast

lemma mem_frame_trans: "mem_frame s s' \<Longrightarrow> mem_frame s' s'' \<Longrightarrow> mem_frame s s''"
  by (elim mem_frameE) (simp add: mem_frame_def)

lemma mem_frame_log: "mem_frame s s' \<Longrightarrow> mem_frame s (s'\<lparr>log := l\<rparr>)"
  by (elim mem_frameE) (simp add: mem_frame_def)

lemma mem_frame_places:
  assumes "mem_frame s s'"
  shows "bo_place b s' = bo_place b s" "reachable_bo b s' = reachable_bo b s" "bo_inside b s' = bo_inside b s"
  by (rule mem_frameE [OF assms], simp add: bo_place_def reachable_bo_def bo_inside_def kernel_map_def vs_node_def fun_eq_iff
      cong: option.case_cong)+

definition bo_ok :: "card \<Rightarrow> memory \<Rightarrow> nat \<Rightarrow> kern \<Rightarrow> bool" where
  "bo_ok d m0 b s \<longleftrightarrow> remembers d m0 \<and> window_ok m0 s \<and> reachable_bo b s"

text \<open>Nothing but the words inside the object changes.\<close>

definition bo_frame :: "memory \<Rightarrow> nat \<Rightarrow> kern \<Rightarrow> kern \<Rightarrow> bool" where
  "bo_frame m0 b s s' \<longleftrightarrow> mem_frame s s' \<and>
     (\<forall>q. (\<forall>ofs. bo_inside b s ofs \<longrightarrow> bo_place b s ofs \<noteq> Some q) \<longrightarrow> word_at (mem_now m0 s') q = word_at (mem_now m0 s) q)"

lemma pramin_window_ok:
  assumes "window_ok m0 s" "unat a < 2 ^ 48"
  shows "\<exists>s'. pramin_window d a s = Some s' \<and> mem_frame s s' \<and> window_ok m0 s' \<and>
    window (mem_now m0 s') = ucast (drop_bit 16 a) \<and>
    vram (mem_now m0 s') = vram (mem_now m0 s) \<and> bar3 (mem_now m0 s') = bar3 (mem_now m0 s)"
proof (cases "drop_bit 16 a = pramin_start s")
  case True
  with assms(1) have "window (mem_now m0 s) = ucast (drop_bit 16 a)"
    by (simp add: window_ok_def)
  with True assms(1) show ?thesis
    by (auto simp: pramin_window_def mem_frame_def)
next
  case False
  with page_number_fits [OF assms(2)] show ?thesis
    by (auto simp: pramin_window_def mem_frame_def nv_wr32_def tell_def mem_now_def window_ok_def Let_def)
qed

text \<open>The effect of the two functions.\<close>

lemma nv_rv32_reads:
  assumes "bo_ok d m0 b s" "bo_inside b s ofs"
  shows "\<exists>s'. nv_rv32 d b ofs s = Some (bo_word m0 b s ofs, s') \<and> mem_frame s s' \<and> window_ok m0 s' \<and>
    vram (mem_now m0 s') = vram (mem_now m0 s) \<and> bar3 (mem_now m0 s') = bar3 (mem_now m0 s)"
proof -
  from assms(1) have r: "remembers d m0" and w: "window_ok m0 s" and "reachable_bo b s" by (auto simp: bo_ok_def)
  then obtain bo where b: "bos s b = Some bo" by (auto simp: reachable_bo_def split: option.splits)
  have ins: "unat ofs + 4 \<le> unat (bsize bo)" using assms(2) b by (simp add: bo_inside_def)
  show ?thesis
  proof (cases "kernel_map bo s")
    case None
    with \<open>reachable_bo b s\<close> b have "unat (bstart bo) + unat (bsize bo) \<le> 2 ^ 48" by (simp add: reachable_bo_def)
    then have a: "unat (bstart bo + ucast ofs) < 2 ^ 48"
      using ins by (subst unat_plus_if_no_overflow) (auto simp: unat_ucast_u32_u64)
    obtain s1 where 1: "pramin_window d (bstart bo + ucast ofs) s = Some s1" "mem_frame s s1" "window_ok m0 s1"
      "window (mem_now m0 s1) = ucast (drop_bit 16 (bstart bo + ucast ofs))"
      "vram (mem_now m0 s1) = vram (mem_now m0 s)" "bar3 (mem_now m0 s1) = bar3 (mem_now m0 s)"
      using pramin_window_ok [OF w a] by blast
    let ?r = "0x700000 + ucast ((bstart bo + ucast ofs) AND 0xffff)"
    have "snd (answer d (log s1) (Rd32 ?r)) = vram (mem_now m0 s) (bstart bo + ucast ofs)"
      using r window_reg_in window_addr_low [OF a 1(4)] 1(5) by (simp add: remembers_def mem_now_def)
    with 1 b None show ?thesis
      by (auto simp: nv_rv32_def nv_rd32_def request_def bo_word_def bo_place_def window_ok_def
          mem_now_def Let_def intro: mem_frame_log split: prod.splits)
  next
    case (Some p)
    with \<open>reachable_bo b s\<close> b obtain n where "vs_node p s = Some n" by (auto simp: reachable_bo_def split: option.splits)
    let ?a = "nstart n - vm_ramin_base s + ucast ofs"
    have "snd (answer d (log s) (RaminRd ?a)) = bar3 (mem_now m0 s) ?a"
      using r by (simp add: remembers_def mem_now_def)
    with w b Some \<open>vs_node p s = Some n\<close> show ?thesis
      by (auto simp: nv_rv32_def request_def bo_word_def bo_place_def mem_frame_def window_ok_def
          mem_now_def Let_def split: prod.splits)
  qed
qed

lemma nv_wv32_writes:
  assumes "bo_ok d m0 b s" "bo_inside b s ofs"
  shows "\<exists>s'. nv_wv32 d b ofs v s = Some s' \<and> mem_frame s s' \<and> window_ok m0 s' \<and>
    (\<forall>q. word_at (mem_now m0 s') q = (if bo_place b s ofs = Some q then v else word_at (mem_now m0 s) q))"
proof -
  from assms(1) have w: "window_ok m0 s" and "reachable_bo b s" by (auto simp: bo_ok_def)
  then obtain bo where b: "bos s b = Some bo" by (auto simp: reachable_bo_def split: option.splits)
  have ins: "unat ofs + 4 \<le> unat (bsize bo)" using assms(2) b by (simp add: bo_inside_def)
  show ?thesis
  proof (cases "kernel_map bo s")
    case None
    with \<open>reachable_bo b s\<close> b have "unat (bstart bo) + unat (bsize bo) \<le> 2 ^ 48" by (simp add: reachable_bo_def)
    then have a: "unat (bstart bo + ucast ofs) < 2 ^ 48"
      using ins by (subst unat_plus_if_no_overflow) (auto simp: unat_ucast_u32_u64)
    obtain s1 where 1: "pramin_window d (bstart bo + ucast ofs) s = Some s1" "mem_frame s s1" "window_ok m0 s1"
      "window (mem_now m0 s1) = ucast (drop_bit 16 (bstart bo + ucast ofs))"
      "vram (mem_now m0 s1) = vram (mem_now m0 s)" "bar3 (mem_now m0 s1) = bar3 (mem_now m0 s)"
      using pramin_window_ok [OF w a] by blast
    let ?r = "0x700000 + ucast ((bstart bo + ucast ofs) AND 0xffff)"
    let ?s = "s1\<lparr>log := Wr32 ?r v # log s1\<rparr>"
    have m: "mem_now m0 ?s = (mem_now m0 s1)\<lparr>vram := (vram (mem_now m0 s1))(bstart bo + ucast ofs := v)\<rparr>"
      using window_addr_low [OF a 1(4)] window_reg_in window_reg_not_1700 by (simp add: mem_now_def Let_def)
    have "word_at (mem_now m0 ?s) q = (if bo_place b s ofs = Some q then v else word_at (mem_now m0 s) q)" for q
      using None b by (cases q) (auto simp: m 1(5,6) bo_place_def)
    moreover have "window_ok m0 ?s" using 1(3) by (simp add: window_ok_def m)
    ultimately show ?thesis
      using 1(1) None b mem_frame_log [OF 1(2)] by (simp add: nv_wv32_def nv_wr32_def tell_def Let_def)
  next
    case (Some p)
    with \<open>reachable_bo b s\<close> b obtain n where n: "vs_node p s = Some n" by (auto simp: reachable_bo_def split: option.splits)
    let ?s = "s\<lparr>log := RaminWr (nstart n - vm_ramin_base s + ucast ofs) v # log s\<rparr>"
    have m: "mem_now m0 ?s =
        (mem_now m0 s)\<lparr>bar3 := (bar3 (mem_now m0 s))(nstart n - vm_ramin_base s + ucast ofs := v)\<rparr>"
      by (simp add: mem_now_def Let_def)
    have "word_at (mem_now m0 ?s) q = (if bo_place b s ofs = Some q then v else word_at (mem_now m0 s) q)" for q
      using Some b n by (cases q) (auto simp: m bo_place_def)
    moreover have "window_ok m0 ?s" using w by (simp add: window_ok_def m)
    ultimately show ?thesis
      using Some b n mem_frame_log [OF mem_frame_refl] by (simp add: nv_wv32_def tell_def Let_def)
  qed
qed

lemma bo_place_inj: "bo_place b s ofs = Some q \<Longrightarrow> bo_place b s ofs' = Some q \<Longrightarrow> ofs = ofs'"
  by (auto simp: bo_place_def split: option.splits Option.bind_splits dest!: inj_onD [OF inj_ucast_u32_u64])

text \<open>So the two functions are a store of words on every object that can be reached.\<close>

interpretation words: word_store "nv_rv32 d b" "nv_wv32 d b" "bo_word m0 b" "bo_ok d m0 b" "bo_inside b" "bo_frame m0 b"
  for d m0 b
proof
  fix s ofs
  assume ok: "bo_ok d m0 b s" "bo_inside b s ofs"
  obtain s' where 1: "nv_rv32 d b ofs s = Some (bo_word m0 b s ofs, s')" "mem_frame s s'" "window_ok m0 s'"
    "vram (mem_now m0 s') = vram (mem_now m0 s)" "bar3 (mem_now m0 s') = bar3 (mem_now m0 s)"
    using nv_rv32_reads [OF ok] by blast
  then have q: "word_at (mem_now m0 s') q = word_at (mem_now m0 s) q" for q by (cases q) simp_all
  have "bo_word m0 b s' = bo_word m0 b s"
    by (simp add: bo_word_def fun_eq_iff mem_frame_places [OF 1(2)] q split: option.split)
  with 1 ok q show "\<exists>s'. nv_rv32 d b ofs s = Some (bo_word m0 b s ofs, s') \<and> bo_ok d m0 b s' \<and>
      bo_word m0 b s' = bo_word m0 b s \<and> bo_frame m0 b s s'"
    by (auto simp: bo_ok_def bo_frame_def mem_frame_places)
next
  fix s ofs v
  assume ok: "bo_ok d m0 b s" "bo_inside b s ofs"
  obtain s' where 1: "nv_wv32 d b ofs v s = Some s'" "mem_frame s s'" "window_ok m0 s'"
    "\<And>q. word_at (mem_now m0 s') q = (if bo_place b s ofs = Some q then v else word_at (mem_now m0 s) q)"
    using nv_wv32_writes [OF ok] by blast
  have "bo_place b s ofs \<noteq> None"
    using ok by (auto simp: bo_ok_def reachable_bo_def bo_place_def split: option.splits)
  with 1 ok show "\<exists>s'. nv_wv32 d b ofs v s = Some s' \<and> bo_ok d m0 b s' \<and>
      bo_word m0 b s' = (bo_word m0 b s)(ofs := v) \<and> bo_frame m0 b s s'"
    by (auto simp: bo_ok_def bo_frame_def bo_word_def mem_frame_places fun_eq_iff split: option.splits
        dest: bo_place_inj)
next
  show "bo_frame m0 b s s" for s by (simp add: bo_frame_def)
  show "bo_frame m0 b s s' \<Longrightarrow> bo_frame m0 b s' s'' \<Longrightarrow> bo_frame m0 b s s''" for s s' s''
    by (auto simp: bo_frame_def mem_frame_places intro: mem_frame_trans)
  show "bo_frame m0 b s s' \<Longrightarrow> bo_inside b s' = bo_inside b s" for s s'
    by (simp add: bo_frame_def mem_frame_places)
qed

end
