(* ===== verification/Polling.thy ===== *)
theory Polling
  imports Hw
begin

section \<open>Polling only reads\<close>

text \<open>
  The loops that wait for the card (\<open>nv04_timer_read\<close>, \<open>nouveau_wait_until\<close>), when they end, have
  done nothing but read registers.
\<close>

definition is_read :: "io \<Rightarrow> bool" where
  "is_read q \<longleftrightarrow> (\<exists>r. q = Rd32 r)"

definition reads_only :: "'s hw_scheme \<Rightarrow> 's hw_scheme \<Rightarrow> bool" where
  "reads_only s s' \<longleftrightarrow> (\<exists>es. s' = s\<lparr>log := es @ log s\<rparr> \<and> list_all is_read es)"

lemma reads_only_refl [simp]: "reads_only s s"
  by (auto simp: reads_only_def intro: exI [of _ "[]"])

lemma reads_only_trans: "reads_only s s' \<Longrightarrow> reads_only s' s'' \<Longrightarrow> reads_only s s''"
  unfolding reads_only_def by (elim exE conjE) (simp, metis append.assoc list_all_append)

lemma nv_rd32_reads: "nv_rd32 d r s = Some (v, s') \<Longrightarrow> reads_only s s'"
  by (auto simp: nv_rd32_def request_def reads_only_def is_read_def intro!: exI [of _ "[Rd32 r]"]
      split: prod.splits)

lemma timer_settle_reads:
  assumes "timer_settle d h s = Some y"
  shows "reads_only s (snd y)"
proof (rule timer_settle.raw_induct [where P = "\<lambda>d h s y. reads_only s (snd y)", OF _ assms])
  fix f d h s y
  assume IH: "\<And>d h s y. f d h s = Some y \<Longrightarrow> reads_only s (snd y)"
    and body: "(nv_rd32 d 0x9400 s \<bind> (\<lambda>(low, s). nv_rd32 d 0x9410 s \<bind> (\<lambda>(high2, s).
      if h = high2 then Some (push_bit 32 (ucast high2) OR ucast low, s) else f d high2 s))) = Some y"
  then show "reads_only s (snd y)"
    by (auto split: Option.bind_splits prod.splits if_splits dest!: nv_rd32_reads IH intro: reads_only_trans)
qed

lemma nv04_timer_read_reads: "nv04_timer_read d s = Some (t, s') \<Longrightarrow> reads_only s s'"
  unfolding nv04_timer_read_def
  by (auto split: Option.bind_splits prod.splits dest!: nv_rd32_reads timer_settle_reads intro: reads_only_trans)

lemma wait_from_reads:
  assumes "wait_from d t r m v st s = Some y"
  shows "reads_only s (snd y)"
proof (rule wait_from.raw_induct [where P = "\<lambda>d t r m v st s y. reads_only s (snd y)", OF _ assms])
  fix f d t r m v st s y
  assume IH: "\<And>d t r m v st s y. f d t r m v st s = Some y \<Longrightarrow> reads_only s (snd y)"
    and body: "(nv_rd32 d r s \<bind> (\<lambda>(x, s). if x AND m = v then Some (True, s)
      else nv04_timer_read d s \<bind> (\<lambda>(now, s). if now - st < t then f d t r m v st s else Some (False, s)))) = Some y"
  then show "reads_only s (snd y)"
    by (auto split: Option.bind_splits prod.splits if_splits dest!: nv_rd32_reads nv04_timer_read_reads IH
        intro: reads_only_trans)
qed

lemma nouveau_wait_until_reads: "nouveau_wait_until d t r m v s = Some (b, s') \<Longrightarrow> reads_only s s'"
  unfolding nouveau_wait_until_def
  by (auto split: Option.bind_splits prod.splits dest!: nv04_timer_read_reads wait_from_reads intro: reads_only_trans)

end
