(* ===== verification/Flush.thy ===== *)
theory Flush
  imports BoWords Polling
begin

section \<open>Flushing\<close>

text \<open>
  The flush of the BAR, which the driver calls through \<open>dev_priv->vm->bar_flush\<close>, and that of the
  TLB of a unit (\<open>nv50_vm.c\<close>; \<open>nv50_vm_init\<close> and \<open>nvc0_vm_init\<close> choose which of the two
  BAR flushes it is), and that they leave memory alone.
\<close>

subsection \<open>The operations\<close>

definition nv50_vm_bar_flush :: "card \<Rightarrow> kern \<Rightarrow> kern option" where
  "nv50_vm_bar_flush d s = do {
     s \<leftarrow> nv_wr32 d 0x330c 1 s;
     (_, s) \<leftarrow> nouveau_wait_until d 2000000000 0x330c 2 0 s;
     Some s }"

definition nv84_vm_bar_flush :: "card \<Rightarrow> kern \<Rightarrow> kern option" where
  "nv84_vm_bar_flush d s = do {
     s \<leftarrow> nv_wr32 d 0x70000 1 s;
     (_, s) \<leftarrow> nouveau_wait_until d 2000000000 0x70000 2 0 s;
     Some s }"

definition bar_flush :: "card \<Rightarrow> kern \<Rightarrow> kern option" where
  "bar_flush d s =
     (if \<not> vm_up s then None
      else if chipset d = 0x50 then nv50_vm_bar_flush d s
      else nv84_vm_bar_flush d s)"

definition nv50_vm_flush :: "card \<Rightarrow> u32 \<Rightarrow> kern \<Rightarrow> (unit res \<times> kern) option" where
  "nv50_vm_flush d unit s = do {
     s \<leftarrow> nv_wr32 d 0x100c80 (push_bit 16 unit OR 1) s;
     (done, s) \<leftarrow> nouveau_wait_until d 2000000000 0x100c80 1 0 s;
     Some (if done then Inr () else Inl EIO, s) }"

subsection \<open>They leave memory alone\<close>

lemma after_reads: "list_all is_read es \<Longrightarrow> after m0 (es @ l) = after m0 l"
  by (induction es) (auto simp: is_read_def Let_def)

text \<open>Nothing but the log changes, and what was logged does not concern memory.\<close>

definition mem_still :: "kern \<Rightarrow> kern \<Rightarrow> bool" where
  "mem_still s s' \<longleftrightarrow> s' = s\<lparr>log := log s'\<rparr> \<and> (\<forall>m0. mem_now m0 s' = mem_now m0 s)"

lemma mem_still_refl [simp]: "mem_still s s"
  by (simp add: mem_still_def)

lemma mem_stillE:
  assumes "mem_still s s'"
  obtains l where "s' = s\<lparr>log := l\<rparr>" "\<And>m0. mem_now m0 s' = mem_now m0 s"
  using assms unfolding mem_still_def by metis

lemma mem_still_trans: "mem_still s s' \<Longrightarrow> mem_still s' s'' \<Longrightarrow> mem_still s s''"
  by (elim mem_stillE) (simp add: mem_still_def)

lemma mem_still_write: "r \<noteq> 0x1700 \<Longrightarrow> \<not> in_window r \<Longrightarrow> nv_wr32 d r v s = Some s' \<Longrightarrow> mem_still s s'"
  by (auto simp: nv_wr32_def tell_def mem_still_def mem_now_def Let_def)

lemma mem_still_reads: "reads_only s s' \<Longrightarrow> mem_still s s'"
  by (auto simp: reads_only_def mem_still_def mem_now_def after_reads)

lemma mem_still_wait: "nouveau_wait_until d t r m v s = Some (b, s') \<Longrightarrow> mem_still s s'"
  by (rule mem_still_reads) (rule nouveau_wait_until_reads)

lemma mem_still_write_wait:
  assumes "nv_wr32 d r v s = Some s1" "nouveau_wait_until d t r m x s1 = Some (b, s')" "r \<noteq> 0x1700" "\<not> in_window r"
  shows "mem_still s s'"
  using mem_still_write [OF assms(3,4,1)] mem_still_wait [OF assms(2)] by (rule mem_still_trans)

lemma bar_flush_still: "bar_flush d s = Some s' \<Longrightarrow> mem_still s s'"
  by (auto simp: bar_flush_def nv50_vm_bar_flush_def nv84_vm_bar_flush_def in_window_def
      split: if_splits Option.bind_splits elim!: mem_still_write_wait)

lemma nv50_vm_flush_still: "nv50_vm_flush d u s = Some (r, s') \<Longrightarrow> mem_still s s'"
  by (auto simp: nv50_vm_flush_def in_window_def split: Option.bind_splits elim!: mem_still_write_wait)

lemma mem_still_words:
  assumes "mem_still s s'"
  shows "bo_ok d m0 b s' = bo_ok d m0 b s" "bo_word m0 b s' = bo_word m0 b s" "bo_frame m0 b s s'"
proof -
  from assms have m: "mem_now m0 s' = mem_now m0 s" for m0 unfolding mem_still_def by blast
  from assms have p: "mem_frame s s'" "pramin_start s' = pramin_start s"
    by (auto simp: mem_frame_def elim!: mem_stillE)
  note fr = p(1)
  have w: "window_ok m0 s' = window_ok m0 s" by (simp add: window_ok_def m p(2))
  show "bo_ok d m0 b s' = bo_ok d m0 b s" by (simp add: bo_ok_def w mem_frame_places [OF fr])
  show "bo_word m0 b s' = bo_word m0 b s"
    by (simp add: bo_word_def fun_eq_iff m mem_frame_places [OF fr] split: option.split)
  show "bo_frame m0 b s s'" by (simp add: bo_frame_def fr m)
qed

text \<open>That the flush ends, done or given up after two seconds, is up to the card.\<close>

definition flushes :: "card \<Rightarrow> bool" where
  "flushes d \<longleftrightarrow> (\<forall>s. vm_up s \<longrightarrow> bar_flush d s \<noteq> None)"

subsection \<open>A card for examples\<close>

text \<open>Its memory is clear at first and remembers; every other register reads 0.\<close>

definition clear_memory :: memory where
  "clear_memory = \<lparr>window = 0, vram = (\<lambda>_. 0), bar3 = (\<lambda>_. 0)\<rparr>"

definition example_card :: "int \<Rightarrow> int \<Rightarrow> card" where
  "example_card ct cs = \<lparr>card_type = ct, chipset = cs, fb_len = 0,
     answer = (\<lambda>qs q. (0,
       case q of
         Rd32 r \<Rightarrow> if in_window r then vram (after clear_memory qs) (window_addr (after clear_memory qs) r) else 0
       | RaminRd a \<Rightarrow> bar3 (after clear_memory qs) a
       | _ \<Rightarrow> 0)),
     fb_size = 0x10000000, ramin_size = 0x1000000, mm_kz = (\<lambda>_ _. True),
     fb_phys = 0xe0000000, mmio_phys = 0xd0000000, pci_vendor = 0x10de, pci_device = 0x191,
     is_agp = False, is_pcie = True\<rparr>"

text \<open>The driver before it has allocated anything.\<close>

definition blank_kern :: kern where
  "blank_kern = \<lparr>log = [], pramin_start = 0, vm_up = True, vm_ok = False, vm_ramin_base = 0,
     bos = (\<lambda>_. None), vss = (\<lambda>_. None), chs = (\<lambda>_. None), gems = (\<lambda>_. None), fresh = 0, serial = 0,
     vram_mm = None, vram_size = 0, vram_sys_base = 0,
     vspaces = (\<lambda>_. None), fake_vspaces = (\<lambda>_. None), chans = (\<lambda>_. None), fake_chans = (\<lambda>_. None),
     ch_min = 1, ch_max = 126, barvm = None, barch = None, bar1vm = None, bar1ch = None,
     bar3vm = None, bar3ch = None, grctx_size = None, fifo_engine = None,
     irq_handler = (\<lambda>_. None), dma_mask = 0xffffffff, card_ready = True, fb_mtrr = -1\<rparr>"

definition blank_bo :: "u64 \<Rightarrow> u64 \<Rightarrow> bo" where
  "blank_bo start sz = \<lparr>bsize = sz, bflags = 1, btile_flags = 0, bcookie = 0, bserial = 0, bstart = start,
     buser = [], bgem = None, bmap1 = None, bmap3 = None, bmmnode = None, bpages = [], bdmapages = []\<rparr>"

lemma example_remembers: "remembers (example_card ct cs) clear_memory"
  by (simp add: remembers_def example_card_def)

lemma example_rd32:
  assumes "\<not> in_window r"
  shows "nv_rd32 (example_card ct cs) r s = Some (0, s\<lparr>log := Rd32 r # log s\<rparr>)"
  using assms by (simp add: nv_rd32_def request_def example_card_def)

lemma example_wait:
  assumes "\<not> in_window r"
  shows "\<exists>s'. nouveau_wait_until (example_card ct cs) t r m 0 s = Some (True, s')"
proof -
  have "\<exists>s'. nv04_timer_read (example_card ct cs) s = Some (0, s')" for s :: "'a hw_scheme"
    by (simp add: nv04_timer_read_def example_rd32 in_window_def timer_settle.simps)
  then obtain s1 where "nv04_timer_read (example_card ct cs) s = Some (0, s1)" by blast
  with assms show ?thesis by (simp add: nouveau_wait_until_def wait_from.simps example_rd32)
qed

lemma example_flushes: "flushes (example_card ct cs)"
  unfolding flushes_def
proof (intro allI impI)
  fix s :: kern assume "vm_up s"
  have "\<exists>s'. nouveau_wait_until (example_card ct cs) t r m 0 s = Some (True, s')" if "r \<in> {0x330c, 0x70000}"
    for t r m and s :: kern using that by (intro example_wait) (auto simp: in_window_def)
  from this [of "0x330c" 2000000000 2 "s\<lparr>log := Wr32 0x330c 1 # log s\<rparr>"]
    this [of "0x70000" 2000000000 2 "s\<lparr>log := Wr32 0x70000 1 # log s\<rparr>"] \<open>vm_up s\<close>
  show "bar_flush (example_card ct cs) s \<noteq> None"
    by (auto simp: bar_flush_def nv50_vm_bar_flush_def nv84_vm_bar_flush_def nv_wr32_def tell_def)
qed

end
