(* ===== verification/Mem.thy ===== *)
theory Mem
  imports Flush
begin

section \<open>Allocation of buffer objects\<close>

text \<open>
  \<open>pscnv_mem_alloc\<close> (\<open>pscnv_mem.c\<close>) and what it calls to find the memory: the VRAM managers of
  the two families of cards (\<open>nv50_vram.c\<close>, \<open>nvc0_vram.c\<close>) and pages of system memory
  (\<open>pscnv_sysram.c\<close>). The page allocator and the DMA mapping of the kernel are requests.
\<close>

abbreviation (input) PSCNV_GEM_CONTIG :: u32 where "PSCNV_GEM_CONTIG \<equiv> 1"
abbreviation (input) PSCNV_GEM_MEMTYPE_MASK :: u32 where "PSCNV_GEM_MEMTYPE_MASK \<equiv> 0xc"

datatype mem_type = VramSmall | VramLarge | SysramSnoop | SysramNosnoop

definition mem_type :: "u32 \<Rightarrow> mem_type" where
  "mem_type flags =
     (if flags AND PSCNV_GEM_MEMTYPE_MASK = 0 then VramSmall
      else if flags AND PSCNV_GEM_MEMTYPE_MASK = 4 then SysramSnoop
      else if flags AND PSCNV_GEM_MEMTYPE_MASK = 8 then VramLarge
      else SysramNosnoop)"

definition align64 :: "u64 \<Rightarrow> u64 \<Rightarrow> u64" where
  "align64 x a = (x + (a - 1)) AND NOT (a - 1)"

definition roundup64 :: "u64 \<Rightarrow> u64 \<Rightarrow> u64" where
  "roundup64 x y = (x + (y - 1)) div y * y"

subsection \<open>The size of VRAM\<close>

definition igp :: "card \<Rightarrow> bool" where
  "igp d \<longleftrightarrow> chipset d \<in> {0xaa, 0xac, 0xaf}"

definition vram_bytes :: "u32 \<Rightarrow> u64" where
  "vram_bytes rc = ucast (rc AND 0xfffff000) OR push_bit 32 (ucast rc AND 0xff)"

text \<open>The geometry registers give the size of a row in all partitions, computed as an \<open>int\<close>.\<close>

definition vram_parts :: "u32 \<Rightarrow> nat" where
  "vram_parts ru = length (filter (\<lambda>i. bit ru (i + 16)) [0..<8])"

definition vram_rowsize :: "u32 \<Rightarrow> u32 \<Rightarrow> u64" where
  "vram_rowsize r4 ru =
     (let colbits = unat (drop_bit 12 r4 AND 0xf);
          banks = (if bit r4 24 then 8 else 4)
      in scast (of_nat (vram_parts ru * banks * 2 ^ colbits * 8) :: 32 word))"

definition vram_rblock :: "u32 \<Rightarrow> u64 \<Rightarrow> u32" where
  "vram_rblock rt rowsize = (if rt AND 1 \<noteq> 0 then ucast (rowsize * 3) else ucast rowsize)"

text \<open>\<open>pscnv_mm_init\<close> for the manager of VRAM: the first 256 KiB and the last 128 KiB are left out.\<close>

definition vram_mm_init :: "card \<Rightarrow> u32 \<Rightarrow> u32 \<Rightarrow> kern \<Rightarrow> (unit res \<times> kern) option" where
  "vram_mm_init d lp ts s = do {
     r \<leftarrow> pscnv_mm_init (mm_kz d None) 0x40000 (vram_size s - 0x20000) 0x1000 lp ts;
     case r of
       Inl err \<Rightarrow> Some (Inl err, s)
     | Inr m \<Rightarrow> Some (Inr (), s\<lparr>vram_mm := Some m\<rparr>) }"

definition nv50_vram_init :: "card \<Rightarrow> kern \<Rightarrow> (unit res \<times> kern) option" where
  "nv50_vram_init d s = do {
     ((failed, _), s) \<leftarrow> request d Kzalloc s;
     if failed \<noteq> 0 then Some (Inl ENOMEM, s)
     else if igp d then do {
       (rc, s) \<leftarrow> nv_rd32 d 0x10020c s;
       (base, s) \<leftarrow> nv_rd32 d 0x100e10 s;
       vram_mm_init d 0x10000 0x1000
         (s\<lparr>vram_sys_base := push_bit 12 (ucast base), vram_size := vram_bytes rc\<rparr>) }
     else do {
       (r0, s) \<leftarrow> nv_rd32 d 0x100200 (s\<lparr>vram_sys_base := 0\<rparr>);
       (r4, s) \<leftarrow> nv_rd32 d 0x100204 s;
       (rc, s) \<leftarrow> nv_rd32 d 0x10020c s;
       (rt, s) \<leftarrow> nv_rd32 d 0x100250 s;
       (ru, s) \<leftarrow> nv_rd32 d 0x1540 s;
       let s = s\<lparr>vram_size := vram_bytes rc\<rparr>;
       if vram_size s = 0 then Some (Inl ENODEV, s)
       else vram_mm_init d 0x10000 (vram_rblock rt (vram_rowsize r4 ru)) s } }"

definition nvc0_vram_init :: "card \<Rightarrow> kern \<Rightarrow> (unit res \<times> kern) option" where
  "nvc0_vram_init d s = do {
     ((failed, _), s) \<leftarrow> request d Kzalloc s;
     if failed \<noteq> 0 then Some (Inl ENOMEM, s)
     else do {
       (ctrlr_num, s) \<leftarrow> nv_rd32 d 0x121c74 s;
       (ctrlr_amt, s) \<leftarrow> nv_rd32 d 0x10f20c s;
       let s = s\<lparr>vram_size := ucast (ctrlr_num * push_bit 20 ctrlr_amt)\<rparr>;
       if vram_size s = 0 then Some (Inl ENODEV, s)
       else vram_mm_init d 0x20000 0x1000 s } }"

subsection \<open>Objects in VRAM\<close>

text \<open>The storage types an NV50 knows, by the type of memory block they need.\<close>

definition nv50_tiles_linear :: "u32 set" where
  "nv50_tiles_linear =
     {0, 0x10, 0x11, 0x12, 0x13, 0x20, 0x21, 0x22, 0x23, 0x24, 0x25, 0x26,
      0x40, 0x41, 0x42, 0x43, 0x44, 0x45, 0x46, 0x54, 0x55, 0x56,
      0x60, 0x61, 0x62, 0x63, 0x64, 0x65, 0x66, 0x68, 0x69, 0x6a, 0x6b,
      0x70, 0x74, 0x78, 0x79, 0x7c, 0x7d}"

definition nv50_tiles_rblock :: "u32 set" where
  "nv50_tiles_rblock =
     {0x18, 0x19, 0x1a, 0x1b, 0x28, 0x29, 0x2a, 0x2b, 0x2c, 0x2d, 0x2e,
      0x47, 0x48, 0x49, 0x4a, 0x4b, 0x4c, 0x4d, 0x6c, 0x6d, 0x6e, 0x6f,
      0x72, 0x76, 0x7a, 0x7b}"

definition nv50_tile_flags :: "u32 \<Rightarrow> u32 option" where
  "nv50_tile_flags t =
     (if t \<in> nv50_tiles_linear then Some 0
      else if t \<in> nv50_tiles_rblock then Some (PSCNV_MM_T1 OR PSCNV_MM_FROMBACK)
      else None)"

definition nvc0_tile_flags :: "u32 \<Rightarrow> u32 option" where
  "nvc0_tile_flags t = (if t \<in> {0, 0xdb, 0xfe} then Some 0 else None)"

text \<open>What both allocators do before they ask the manager: the size and the flags of the request.\<close>

definition vram_request :: "u64 \<Rightarrow> bo \<Rightarrow> u32 \<Rightarrow> u64 \<times> u32" where
  "vram_request lp bo flags =
     (let size = roundup64 (bsize bo) 0x1000;
          large = (mem_type (bflags bo) = VramLarge);
          flags = (if large then flags OR PSCNV_MM_LP else flags);
          size = (if large then roundup64 size lp else size);
          flags = (if bflags bo AND PSCNV_GEM_CONTIG = 0 then flags OR PSCNV_MM_FRAGOK else flags)
      in (size, flags))"

text \<open>Taking over the block: the start of a contiguous object, and the tag of the first node.\<close>

definition vram_take :: "nat \<Rightarrow> nat option \<Rightarrow> mm \<Rightarrow> kern \<Rightarrow> kern option" where
  "vram_take b node m s = do {
     n \<leftarrow> node;
     nd \<leftarrow> mm_lookup m n;
     s \<leftarrow> upd_bo b (\<lambda>bo. bo\<lparr>bmmnode := Some n,
         bstart := (if bflags bo AND PSCNV_GEM_CONTIG \<noteq> 0 then nstart nd else bstart bo)\<rparr>) s;
     Some (s\<lparr>vram_mm := Some (mm_update n (\<lambda>x. x\<lparr>tag := Some b\<rparr>) m)\<rparr>) }"

definition nv50_vram_alloc :: "card \<Rightarrow> nat \<Rightarrow> kern \<Rightarrow> (unit res \<times> kern) option" where
  "nv50_vram_alloc d b s = do {
     bo \<leftarrow> bos s b;
     case nv50_tile_flags (btile_flags bo) of
       None \<Rightarrow> Some (Inl EINVAL, s)
     | Some flags \<Rightarrow> do {
         let (size, flags) = vram_request 0x10000 bo flags;
         s \<leftarrow> upd_bo b (\<lambda>bo. bo\<lparr>bsize := size\<rparr>) s;
         m \<leftarrow> vram_mm s;
         (ret, m) \<leftarrow> pscnv_mm_alloc (mm_kz d None) m size flags 0 (vram_size s);
         case ret of
           Inl err \<Rightarrow> Some (Inl err, s\<lparr>vram_mm := Some m\<rparr>)
         | Inr node \<Rightarrow> do { s \<leftarrow> vram_take b node m s; Some (Inr (), s) } } }"

text \<open>
  The NVC0 version looks at the node it should have got before it looks at the error. After a failure
  the out-parameter holds the first fragment, if one was got before, and else still NULL.
\<close>

definition mm_first_fragment :: "(nat \<Rightarrow> bool) \<Rightarrow> mm \<Rightarrow> u64 \<Rightarrow> u32 \<Rightarrow> u64 \<Rightarrow> u64 \<Rightarrow> nat option" where
  "mm_first_fragment kz m sz flags start end' =
     (let psize = mm_psize m flags;
          sz = pscnv_roundup sz psize
      in if sz > push_bit 60 1 \<or> sz = 0 then None
         else case pscnv_mm_alloc_single kz m sz flags (pscnv_roundup start psize) (pscnv_rounddown end' psize) of
             Some (Inr cur, _) \<Rightarrow> Some cur
           | _ \<Rightarrow> None)"

definition nvc0_vram_alloc :: "card \<Rightarrow> nat \<Rightarrow> kern \<Rightarrow> (unit res \<times> kern) option" where
  "nvc0_vram_alloc d b s = do {
     bo \<leftarrow> bos s b;
     case nvc0_tile_flags (btile_flags bo) of
       None \<Rightarrow> Some (Inl EINVAL, s)
     | Some flags \<Rightarrow> do {
         let (size, flags) = vram_request 0x20000 bo flags;
         s \<leftarrow> upd_bo b (\<lambda>bo. bo\<lparr>bsize := size\<rparr>) s;
         m \<leftarrow> vram_mm s;
         let first = mm_first_fragment (mm_kz d None) m size flags 0 (vram_size s);
         (ret, m) \<leftarrow> pscnv_mm_alloc (mm_kz d None) m size flags 0 (vram_size s);
         s \<leftarrow> vram_take b (case ret of Inl _ \<Rightarrow> first | Inr node \<Rightarrow> node) m s;
         Some (case ret of Inl err \<Rightarrow> Inl err | Inr _ \<Rightarrow> Inr (), s) } }"

definition vram_alloc :: "card \<Rightarrow> nat \<Rightarrow> kern \<Rightarrow> (unit res \<times> kern) option" where
  "vram_alloc d b s =
     (if card_type d = NV_50 then nv50_vram_alloc d b s else nvc0_vram_alloc d b s)"

definition pscnv_vram_free :: "nat \<Rightarrow> kern \<Rightarrow> kern option" where
  "pscnv_vram_free b s = do {
     bo \<leftarrow> bos s b;
     n \<leftarrow> bmmnode bo;
     m \<leftarrow> vram_mm s;
     m \<leftarrow> pscnv_mm_free m n;
     Some (s\<lparr>vram_mm := Some m\<rparr>) }"

subsection \<open>Objects in system memory\<close>

text \<open>
  One page after the other: a page for each, then a DMA address for each, giving back what was got
  when one fails.
\<close>

primrec sysram_pages :: "card \<Rightarrow> bool \<Rightarrow> nat \<Rightarrow> int list \<Rightarrow> kern \<Rightarrow> (int list option \<times> kern) option" where
  "sysram_pages d dma32 0 got s = Some (Some got, s)"
| "sysram_pages d dma32 (Suc n) got s = do {
     ((page, _), s) \<leftarrow> request d (PageAlloc dma32) s;
     if page = 0 then do { s \<leftarrow> for_each (\<lambda>p. tell d (PagePut p)) got s; Some (None, s) }
     else sysram_pages d dma32 n (got @ [page]) s }"

primrec sysram_map :: "card \<Rightarrow> int list \<Rightarrow> u64 list \<Rightarrow> kern \<Rightarrow> (u64 list option \<times> kern) option" where
  "sysram_map d [] got s = Some (Some got, s)"
| "sysram_map d (p # ps) got s = do {
     ((addr, _), s) \<leftarrow> request d (PageMap p) s;
     ((failed, _), s) \<leftarrow> request d (PageMapError (word_of_int addr)) s;
     if failed \<noteq> 0 then do { s \<leftarrow> for_each (\<lambda>a. tell d (PageUnmap a)) got s; Some (None, s) }
     else sysram_map d ps (got @ [word_of_int addr]) s }"

definition pscnv_sysram_alloc :: "card \<Rightarrow> nat \<Rightarrow> kern \<Rightarrow> (unit res \<times> kern) option" where
  "pscnv_sysram_alloc d b s = do {
     bo \<leftarrow> bos s b;
     let numpages = unat (drop_bit 12 (bsize bo));
     if numpages > 1 \<and> bflags bo AND PSCNV_GEM_CONTIG \<noteq> 0 then Some (Inl EINVAL, s)
     else do {
       ((failed, _), s) \<leftarrow> request d Kzalloc s;
       if failed \<noteq> 0 then Some (Inl ENOMEM, s)
       else do {
         ((failed, _), s) \<leftarrow> request d Kzalloc s;
         if failed \<noteq> 0 then Some (Inl ENOMEM, s)
         else do {
           (pages, s) \<leftarrow> sysram_pages d (dma_mask s \<le> 0xffffffff) numpages [] s;
           case pages of
             None \<Rightarrow> Some (Inl ENOMEM, s)
           | Some pages \<Rightarrow> do {
               (addrs, s) \<leftarrow> sysram_map d pages [] s;
               case addrs of
                 None \<Rightarrow> do { s \<leftarrow> for_each (\<lambda>p. tell d (PagePut p)) pages s; Some (Inl ENOMEM, s) }
               | Some addrs \<Rightarrow> do {
                   s \<leftarrow> upd_bo b (\<lambda>bo. bo\<lparr>bpages := pages, bdmapages := addrs\<rparr>) s;
                   Some (Inr (), s) } } } } } }"

definition pscnv_sysram_free :: "card \<Rightarrow> nat \<Rightarrow> kern \<Rightarrow> kern option" where
  "pscnv_sysram_free d b s = do {
     bo \<leftarrow> bos s b;
     let numpages = unat (drop_bit 12 (bsize bo));
     if length (bpages bo) < numpages \<or> length (bdmapages bo) < numpages then None
     else do {
       s \<leftarrow> for_each (\<lambda>a. tell d (PageUnmap a)) (take numpages (bdmapages bo)) s;
       for_each (\<lambda>p. tell d (PagePut p)) (take numpages (bpages bo)) s } }"

text \<open>A fault in a mapping of such an object: the page at the offset, or \<^term>\<open>None\<close> for SIGBUS.\<close>

definition pscnv_sysram_vm_fault :: "nat \<Rightarrow> u64 \<Rightarrow> kern \<Rightarrow> int option option" where
  "pscnv_sysram_vm_fault b offset s = do {
     bo \<leftarrow> bos s b;
     if offset > bsize bo then Some None
     else do {
       let i = unat (drop_bit 12 offset);
       if i < length (bpages bo) then Some (Some (bpages bo ! i)) else None } }"

subsection \<open>Allocation\<close>

definition new_bo :: "u64 \<Rightarrow> u32 \<Rightarrow> u32 \<Rightarrow> u32 \<Rightarrow> int \<Rightarrow> bo" where
  "new_bo sz flags tile cookie ser =
     \<lparr>bsize = sz, bflags = flags, btile_flags = tile, bcookie = cookie, bserial = ser, bstart = 0,
      buser = replicate 8 0, bgem = None, bmap1 = None, bmap3 = None, bmmnode = None,
      bpages = [], bdmapages = []\<rparr>"

definition pscnv_mem_alloc ::
  "card \<Rightarrow> u64 \<Rightarrow> u32 \<Rightarrow> u32 \<Rightarrow> u32 \<Rightarrow> kern \<Rightarrow> (nat option \<times> kern) option" where
  "pscnv_mem_alloc d sz flags tile cookie s =
     (if sz \<ge> push_bit 40 1 then Some (None, s)
      else if sz = 0 then Some (None, s)
      else do {
        ((failed, _), s) \<leftarrow> request d Kzalloc s;
        if failed \<noteq> 0 then Some (None, s)
        else do {
          let sz = align64 (align64 sz 0x1000) 0x1000;
          let b = fresh s;
          let s = s\<lparr>bos := (bos s)(b \<mapsto> new_bo sz flags tile cookie (serial s)),
                    fresh := Suc b, serial := serial s + 1\<rparr>;
          (ret, s) \<leftarrow>
            (if mem_type flags \<in> {VramSmall, VramLarge} then vram_alloc d b s
             else pscnv_sysram_alloc d b s);
          case ret of
            Inl _ \<Rightarrow> Some (None, s\<lparr>bos := (bos s)(b := None)\<rparr>)
          | Inr _ \<Rightarrow> Some (Some b, s) } })"

end
