(* ===== verification/Vspace.thy ===== *)
theory Vspace
  imports Mem
begin

section \<open>Address spaces\<close>

text \<open>
  The part of the address-space code that does not depend on the card (\<open>pscnv_vm.c\<close>,
  \<open>pscnv_mem_free\<close> in \<open>pscnv_mem.c\<close>, \<open>pscnv_gem.c\<close>). As in the code it calls the rest through a table of
  functions, \<open>struct pscnv_vm_engine\<close>. Mapping an object may need a page table, which is an
  object to be mapped for the kernel, and unmapping may drop the last reference to an object, which
  is then unmapped and freed: the table given to a function is the one for the calls it makes, and
  the field \<open>e_mem_free\<close> stands for \<open>pscnv_mem_free\<close> in those calls.

  References to GEM objects are counted by DRM: dropping one is a request, and the answer says
  whether it was the last, when DRM calls \<open>pscnv_gem_free_object\<close>. References to address spaces are
  counted in \<open>vref\<close>.
\<close>

record vm_engine =
  e_vspace_new :: "nat \<Rightarrow> kern \<Rightarrow> (unit res \<times> kern) option"
  e_vspace_free :: "nat \<Rightarrow> kern \<Rightarrow> kern option"
  e_place_map :: "nat \<Rightarrow> nat \<Rightarrow> u64 \<Rightarrow> u64 \<Rightarrow> bool \<Rightarrow> kern \<Rightarrow> (nat option res \<times> kern) option"
  e_do_map :: "nat \<Rightarrow> nat \<Rightarrow> u64 \<Rightarrow> kern \<Rightarrow> (unit res \<times> kern) option"
  e_do_unmap :: "nat \<Rightarrow> u64 \<Rightarrow> u64 \<Rightarrow> kern \<Rightarrow> (unit res \<times> kern) option"
  e_map_user :: "nat \<Rightarrow> kern \<Rightarrow> (unit res \<times> kern) option"
  e_map_kernel :: "nat \<Rightarrow> kern \<Rightarrow> (unit res \<times> kern) option"
  e_mem_free :: "nat \<Rightarrow> kern \<Rightarrow> kern option"

subsection \<open>The allocator of an address space\<close>

definition vs_mm :: "nat \<Rightarrow> kern \<Rightarrow> mm option" where
  "vs_mm v s = Option.bind (vss s v) vmm"

definition set_vs_mm :: "nat \<Rightarrow> mm \<Rightarrow> kern \<Rightarrow> kern option" where
  "set_vs_mm v m s = upd_vs v (\<lambda>vs. vs\<lparr>vmm := Some m\<rparr>) s"

definition vs_mm_free :: "vnode \<Rightarrow> kern \<Rightarrow> kern option" where
  "vs_mm_free p s = do {
     m \<leftarrow> vs_mm (fst p) s;
     m \<leftarrow> pscnv_mm_free m (snd p);
     set_vs_mm (fst p) m s }"

definition mutex_lock_vs :: "nat \<Rightarrow> kern \<Rightarrow> kern option" where
  "mutex_lock_vs v s = do {
     vs \<leftarrow> vss s v;
     if vlocked vs then None else upd_vs v (\<lambda>vs. vs\<lparr>vlocked := True\<rparr>) s }"

definition mutex_unlock_vs :: "nat \<Rightarrow> kern \<Rightarrow> kern option" where
  "mutex_unlock_vs v s = upd_vs v (\<lambda>vs. vs\<lparr>vlocked := False\<rparr>) s"

subsection \<open>Dropping a reference to a GEM object\<close>

definition pscnv_gem_free_object :: "card \<Rightarrow> vm_engine \<Rightarrow> nat \<Rightarrow> kern \<Rightarrow> kern option" where
  "pscnv_gem_free_object d E g s = do {
     b \<leftarrow> gems s g;
     s \<leftarrow> e_mem_free E b s;
     s \<leftarrow> tell d (GemRelease g) s;
     Some (s\<lparr>gems := (gems s)(g := None)\<rparr>) }"

definition gem_unref :: "card \<Rightarrow> vm_engine \<Rightarrow> nat option \<Rightarrow> kern \<Rightarrow> kern option" where
  "gem_unref d E g s =
     (case g of
        None \<Rightarrow> Some s
      | Some g \<Rightarrow> do {
          ((last', _), s) \<leftarrow> request d (GemUnref g) s;
          if last' \<noteq> 0 then pscnv_gem_free_object d E g s else Some s })"

subsection \<open>Unmapping and freeing\<close>

definition pscnv_vspace_unmap_node_unlocked :: "card \<Rightarrow> vm_engine \<Rightarrow> vnode \<Rightarrow> kern \<Rightarrow> (unit res \<times> kern) option" where
  "pscnv_vspace_unmap_node_unlocked d E p s = do {
     node \<leftarrow> vs_node p s;
     v \<leftarrow> tag2 node;
     (_, s) \<leftarrow> e_do_unmap E v (nstart node) (nsize node) s;
     vs \<leftarrow> vss s v;
     s \<leftarrow>
       (if 0 \<le> vid vs then do {
          b \<leftarrow> tag node;
          bo \<leftarrow> bos s b;
          gem_unref d E (bgem bo) s }
        else Some s);
     s \<leftarrow> vs_mm_free p s;
     Some (Inr (), s) }"

definition pscnv_vspace_unmap_node :: "card \<Rightarrow> vm_engine \<Rightarrow> vnode \<Rightarrow> kern \<Rightarrow> (unit res \<times> kern) option" where
  "pscnv_vspace_unmap_node d E p s = do {
     node \<leftarrow> vs_node p s;
     v \<leftarrow> tag2 node;
     s \<leftarrow> mutex_lock_vs v s;
     (ret, s) \<leftarrow> pscnv_vspace_unmap_node_unlocked d E p s;
     s \<leftarrow> mutex_unlock_vs v s;
     Some (ret, s) }"

text \<open>An address that no node covers gives NULL, which the callee does not expect.\<close>

definition pscnv_vspace_unmap :: "card \<Rightarrow> vm_engine \<Rightarrow> nat \<Rightarrow> u64 \<Rightarrow> kern \<Rightarrow> (unit res \<times> kern) option" where
  "pscnv_vspace_unmap d E v start s = do {
     s \<leftarrow> mutex_lock_vs v s;
     m \<leftarrow> vs_mm v s;
     n \<leftarrow> pscnv_mm_find_node m start;
     (ret, s) \<leftarrow> pscnv_vspace_unmap_node_unlocked d E (v, n) s;
     s \<leftarrow> mutex_unlock_vs v s;
     Some (ret, s) }"

definition unmap_if :: "card \<Rightarrow> vm_engine \<Rightarrow> vnode option \<Rightarrow> kern \<Rightarrow> kern option" where
  "unmap_if d E p s =
     (case p of
        Some p \<Rightarrow>
          if vm_ok s then do { (_, s) \<leftarrow> pscnv_vspace_unmap_node d E p s; Some s } else Some s
      | None \<Rightarrow> Some s)"

definition pscnv_mem_free :: "card \<Rightarrow> vm_engine \<Rightarrow> nat \<Rightarrow> kern \<Rightarrow> kern option" where
  "pscnv_mem_free d E b s = do {
     bo \<leftarrow> bos s b;
     s \<leftarrow> unmap_if d E (bmap1 bo) s;
     s \<leftarrow> unmap_if d E (bmap3 bo) s;
     s \<leftarrow>
       (if mem_type (bflags bo) \<in> {VramSmall, VramLarge} then pscnv_vram_free b s
        else pscnv_sysram_free d b s);
     Some (s\<lparr>bos := (bos s)(b := None)\<rparr>) }"

subsection \<open>Mapping\<close>

text \<open>After a failed \<open>do_map\<close> the node has been freed; the caller is given it all the same.\<close>

definition pscnv_vspace_map ::
  "card \<Rightarrow> vm_engine \<Rightarrow> nat \<Rightarrow> nat \<Rightarrow> u64 \<Rightarrow> u64 \<Rightarrow> bool \<Rightarrow> kern \<Rightarrow> (unit res \<times> vnode option \<times> kern) option" where
  "pscnv_vspace_map d E v b start end' back s = do {
     s \<leftarrow> mutex_lock_vs v s;
     (ret, s) \<leftarrow> e_place_map E v b start end' back s;
     case ret of
       Inl err \<Rightarrow> do { s \<leftarrow> mutex_unlock_vs v s; Some (Inl err, None, s) }
     | Inr node \<Rightarrow> do {
         n \<leftarrow> node;
         m \<leftarrow> vs_mm v s;
         nd \<leftarrow> mm_lookup m n;
         s \<leftarrow> set_vs_mm v (mm_update n (\<lambda>x. x\<lparr>tag := Some b, tag2 := Some v\<rparr>) m) s;
         (ret, s) \<leftarrow> e_do_map E v b (nstart nd) s;
         s \<leftarrow>
           (case ret of
              Inl _ \<Rightarrow> do { (_, s) \<leftarrow> pscnv_vspace_unmap_node_unlocked d E (v, n) s; Some s }
            | Inr _ \<Rightarrow> Some s);
         s \<leftarrow> mutex_unlock_vs v s;
         Some (ret, Some (v, n), s) } }"

subsection \<open>Numbers of address spaces\<close>

definition pscnv_vspace_bind :: "nat \<Rightarrow> nat \<Rightarrow> kern \<Rightarrow> (unit res \<times> kern) option" where
  "pscnv_vspace_bind v fake s = do {
     vs \<leftarrow> vss s v;
     if vid vs \<noteq> 0 then None
     else if fake \<noteq> 0 then
       (if 4 \<le> fake \<or> fake_vspaces s fake \<noteq> None then None
        else do {
          s \<leftarrow> upd_vs v (\<lambda>vs. vs\<lparr>vid := - int fake\<rparr>) s;
          Some (Inr (), s\<lparr>fake_vspaces := (fake_vspaces s)(fake := Some v)\<rparr>) })
     else
       (case find (\<lambda>i. vspaces s i = None) [1..<128] of
          None \<Rightarrow> Some (Inl ENOSPC, s)
        | Some i \<Rightarrow> do {
            s \<leftarrow> upd_vs v (\<lambda>vs. vs\<lparr>vid := int i\<rparr>) s;
            Some (Inr (), s\<lparr>vspaces := (vspaces s)(i := Some v)\<rparr>) }) }"

definition pscnv_vspace_unbind :: "nat \<Rightarrow> kern \<Rightarrow> kern option" where
  "pscnv_vspace_unbind v s = do {
     vs \<leftarrow> vss s v;
     s \<leftarrow>
       (if vid vs < 0 then
          (if 4 \<le> - vid vs \<or> fake_vspaces s (nat (- vid vs)) \<noteq> Some v then None
           else Some (s\<lparr>fake_vspaces := (fake_vspaces s)(nat (- vid vs) := None)\<rparr>))
        else
          (if 128 \<le> vid vs \<or> vspaces s (nat (vid vs)) \<noteq> Some v then None
           else Some (s\<lparr>vspaces := (vspaces s)(nat (vid vs) := None)\<rparr>)));
     upd_vs v (\<lambda>vs. vs\<lparr>vid := 0\<rparr>) s }"

subsection \<open>Life of an address space\<close>

definition new_vspace :: "u64 \<Rightarrow> u32 \<Rightarrow> vspace" where
  "new_vspace sz flags =
     \<lparr>vid = 0, vmm = None, vfilp = None, vref = 1, vsize = sz, vflags = flags, veng = NoEng, vlocked = False\<rparr>"

definition pscnv_vspace_new ::
  "card \<Rightarrow> vm_engine \<Rightarrow> u64 \<Rightarrow> u32 \<Rightarrow> nat \<Rightarrow> kern \<Rightarrow> (nat option \<times> kern) option" where
  "pscnv_vspace_new d E sz flags fake s = do {
     ((failed, _), s) \<leftarrow> request d Kzalloc s;
     if failed \<noteq> 0 then Some (None, s)
     else do {
       let v = fresh s;
       let s = s\<lparr>vss := (vss s)(v \<mapsto> new_vspace sz flags), fresh := Suc v\<rparr>;
       (ret, s) \<leftarrow> pscnv_vspace_bind v fake s;
       case ret of
         Inl _ \<Rightarrow> Some (None, s\<lparr>vss := (vss s)(v := None)\<rparr>)
       | Inr _ \<Rightarrow> do {
           (ret, s) \<leftarrow> e_vspace_new E v s;
           case ret of
             Inl _ \<Rightarrow> do {
               s \<leftarrow> pscnv_vspace_unbind v s;
               Some (None, s\<lparr>vss := (vss s)(v := None)\<rparr>) }
           | Inr _ \<Rightarrow> Some (Some v, s) } } }"

text \<open>
  The callback that takes down the mappings of a client's address space. The allocator is written
  back to the heap while the reference is dropped, and read again.
\<close>

definition pscnv_vspace_free_unmap :: "card \<Rightarrow> vm_engine \<Rightarrow> nat \<Rightarrow> mm \<Rightarrow> nat \<Rightarrow> kern \<Rightarrow> (mm \<times> kern) option" where
  "pscnv_vspace_free_unmap d E v m i s = do {
     node \<leftarrow> mm_lookup m i;
     b \<leftarrow> tag node;
     bo \<leftarrow> bos s b;
     s \<leftarrow> set_vs_mm v m s;
     s \<leftarrow> gem_unref d E (bgem bo) s;
     m \<leftarrow> vs_mm v s;
     m \<leftarrow> pscnv_mm_free m i;
     Some (m, s) }"

definition pscnv_vspace_ref_free :: "card \<Rightarrow> vm_engine \<Rightarrow> nat \<Rightarrow> kern \<Rightarrow> kern option" where
  "pscnv_vspace_ref_free d E v s = do {
     vs \<leftarrow> vss s v;
     m \<leftarrow> vmm vs;
     (m, s) \<leftarrow>
       (if vid vs < 0 then pscnv_mm_takedown mm_free_callback m s
        else pscnv_mm_takedown (pscnv_vspace_free_unmap d E v) m s);
     s \<leftarrow> upd_vs v (\<lambda>vs. vs\<lparr>vmm := None\<rparr>) s;
     s \<leftarrow> e_vspace_free E v s;
     s \<leftarrow> pscnv_vspace_unbind v s;
     Some (s\<lparr>vss := (vss s)(v := None)\<rparr>) }"

definition pscnv_vspace_ref :: "nat \<Rightarrow> kern \<Rightarrow> kern option" where
  "pscnv_vspace_ref v s = upd_vs v (\<lambda>vs. vs\<lparr>vref := vref vs + 1\<rparr>) s"

definition pscnv_vspace_unref :: "card \<Rightarrow> vm_engine \<Rightarrow> nat \<Rightarrow> kern \<Rightarrow> kern option" where
  "pscnv_vspace_unref d E v s = do {
     s \<leftarrow> upd_vs v (\<lambda>vs. vs\<lparr>vref := vref vs - 1\<rparr>) s;
     vs \<leftarrow> vss s v;
     if vref vs = 0 then pscnv_vspace_ref_free d E v s else Some s }"

subsection \<open>Taking VRAM down\<close>

text \<open>An object still there at that point is freed, through the manager that is being taken down.\<close>

definition pscnv_vram_takedown_free :: "card \<Rightarrow> vm_engine \<Rightarrow> mm \<Rightarrow> nat \<Rightarrow> kern \<Rightarrow> (mm \<times> kern) option" where
  "pscnv_vram_takedown_free d E m i s = do {
     node \<leftarrow> mm_lookup m i;
     b \<leftarrow> tag node;
     s \<leftarrow> pscnv_mem_free d E b (s\<lparr>vram_mm := Some m\<rparr>);
     m \<leftarrow> vram_mm s;
     Some (m, s) }"

definition pscnv_vram_takedown :: "card \<Rightarrow> vm_engine \<Rightarrow> kern \<Rightarrow> kern option" where
  "pscnv_vram_takedown d E s = do {
     m \<leftarrow> vram_mm s;
     (_, s) \<leftarrow> pscnv_mm_takedown (pscnv_vram_takedown_free d E) m s;
     Some (s\<lparr>vram_mm := None\<rparr>) }"

subsection \<open>New GEM objects\<close>

definition pscnv_gem_new ::
  "card \<Rightarrow> vm_engine \<Rightarrow> u64 \<Rightarrow> u32 \<Rightarrow> u32 \<Rightarrow> u32 \<Rightarrow> u32 list option \<Rightarrow> kern \<Rightarrow> (nat option \<times> kern) option" where
  "pscnv_gem_new d E sz flags tile cookie user s = do {
     (b, s) \<leftarrow> pscnv_mem_alloc d sz flags tile cookie s;
     case b of
       None \<Rightarrow> Some (None, s)
     | Some b \<Rightarrow> do {
         bo \<leftarrow> bos s b;
         ((failed, _), s) \<leftarrow> request d (GemAlloc (bsize bo)) s;
         if failed \<noteq> 0 then do { s \<leftarrow> pscnv_mem_free d E b s; Some (None, s) }
         else do {
           let g = fresh s;
           s \<leftarrow> upd_bo b (\<lambda>bo. bo\<lparr>bgem := Some g,
               buser := (case user of Some u \<Rightarrow> u | None \<Rightarrow> replicate 8 0)\<rparr>) s;
           Some (Some g, s\<lparr>gems := (gems s)(g \<mapsto> b), fresh := Suc g\<rparr>) } } }"

end
