(* ===== verification/Takedown.thy ===== *)
theory Takedown
  imports Flush Vspace MmRuns
begin

section \<open>Taking a memory manager down\<close>

text \<open>
  \<open>pscnv_mm_takedown\<close> for any callback that frees the chain it is given, and for the callbacks the
  driver passes (\<open>pscnv_vram_takedown_free\<close>, \<open>pscnv_vspace_free_unmap\<close>) and \<open>pscnv_mm_free\<close> itself.
\<close>

subsection \<open>The next chain\<close>

lemma skip_free:
  assumes "distinct_ids (nodes m)"
  shows "nodes m = xs @ n # ys \<Longrightarrow> not_free x \<Longrightarrow> x \<in> set (n # ys) \<Longrightarrow>
    \<exists>c cs. mm_skip_free m n = Some c \<and> filter not_free (n # ys) = c # cs"
proof (induction ys arbitrary: xs n)
  case Nil
  then show ?case by (simp add: mm_skip_free.simps not_free_def)
next
  case (Cons y ys)
  show ?case
  proof (cases "not_free n")
    case True
    then show ?thesis by (simp add: mm_skip_free.simps not_free_def)
  next
    case False
    with Cons.prems have "x \<in> set (y # ys)" by auto
    with Cons.IH [of "xs @ [n]" y] Cons.prems obtain c cs where
      c: "mm_skip_free m y = Some c" "filter not_free (y # ys) = c # cs" by auto
    have "mm_next m (nid n) = Some y" using mm_access(3) [OF assms Cons.prems(1)] by simp
    then have "mm_skip_free m n = Some c" using c(1) False by (subst mm_skip_free.simps) (simp add: not_free_def)
    with c(2) False show ?thesis by simp
  qed
qed

text \<open>One turn of the loop: the first block in use, in address order, or the end.\<close>

lemma takedown_turn:
  assumes inv: "mm_inv m"
  shows "mm_takedown_used cb m x =
    (case used m of
       [] \<Rightarrow> Some (m, x)
     | c # _ \<Rightarrow>
         (case mm_chain_first m (nid c) of
            None \<Rightarrow> None
          | Some i \<Rightarrow> (case cb m i x of None \<Rightarrow> None | Some (m', x') \<Rightarrow> mm_takedown_used cb m' x')))"
proof -
  have lay: "layout m (nodes m)" using inv by (simp add: mm_inv_def)
  then have d: "distinct_ids (nodes m)" and ok: "\<forall>n \<in> set (nodes m). node_ok n" by (simp_all add: layout_def)
  obtain ss rest where ns: "nodes m = ss # rest" using lay by (cases "nodes m") (auto simp: layout_def)
  have ends: "sentinel ss = -1" "rest \<noteq> []" "sentinel (last rest) = 1"
    using lay ns by (auto simp: layout_def split: if_splits)
  then obtain n ys where rest: "rest = n # ys" by (cases rest) auto
  have asc: "\<forall>x \<in> set rest. 0 \<le> sentinel x"
  proof
    fix x assume "x \<in> set rest"
    then obtain us vs where "rest = us @ x # vs" by (meson split_list)
    then have "successively adjacent ((ss # us) @ x # vs)" using lay ns by (simp add: layout_def)
    then have "adjacent (last (ss # us)) x" by (simp only: successively_append_iff list.sel) simp
    then show "0 \<le> sentinel x" by (simp add: adjacent_def)
  qed
  have last: "last rest \<in> set (n # ys)" "not_free (last rest)"
    using ends(2,3) rest ok ns by (auto simp: not_free_def node_ok_def)
  have ns': "nodes m = [ss] @ n # ys" using ns rest by simp
  from skip_free [OF d ns' last(2,1)] obtain c cs where
    c: "mm_skip_free m n = Some c" "filter not_free (n # ys) = c # cs" by blast
  have "c \<in> set (filter not_free (n # ys))" unfolding c(2) by simp
  then have c_in: "c \<in> set (n # ys)" "not_free c" unfolding set_filter by blast+
  have mn: "rb_min (head m) = Some ss" using ns rb_min_inorder [of "head m"] by (simp add: nodes_def)
  have nx: "mm_next m (nid ss) = Some n" using mm_access(3) [OF d, of "[]" ss "n # ys"] ns rest by simp
  have us: "used m = filter (\<lambda>n. sentinel n = 0) (c # cs)"
  proof -
    have "used m = filter is_used (n # ys)" using ns rest ends(1) by (simp add: used_def is_used_def)
    also have "\<dots> = filter (\<lambda>n. sentinel n = 0) (filter not_free (n # ys))"
      by (auto simp: is_used_def not_free_def intro: filter_cong)
    finally show ?thesis unfolding c(2) .
  qed
  show ?thesis
  proof (cases "sentinel c = 0")
    case True
    with us have "used m = c # filter (\<lambda>n. sentinel n = 0) cs" by simp
    then show ?thesis using mn nx c(1) True by (subst mm_takedown_used.simps) (simp cong: option.case_cong)
  next
    case False
    have "used m = []"
    proof (rule ccontr)
      assume "used m \<noteq> []"
      then obtain u where u: "u \<in> set (nodes m)" "sentinel u = 0" "not_free u"
        by (auto simp: used_def filter_empty_conv is_used_def not_free_def)
      have "u \<in> set rest" using u ns ends(1) by auto
      then have "u \<in> set (filter not_free (n # ys))" using u(3) rest unfolding set_filter by blast
      then have "u \<in> set (c # cs)" unfolding c(2) .
      moreover have "u \<noteq> c" using u(2) False by blast
      moreover have "node_order.ascending (n # ys)" using layout_ascending [OF lay] ns rest by simp
      then have "node_order.ascending (filter not_free (n # ys))" by (rule sorted_wrt_filter)
      then have "node_order.ascending (c # cs)" unfolding c(2) .
      ultimately have "(sentinel c, nstart c) < (sentinel u, nstart u)" by auto
      moreover have "sentinel c = 1"
      proof -
        have "c \<in> set rest" using c_in(1) unfolding rest .
        then have "0 \<le> sentinel c" "node_ok c" using asc ok ns by simp_all
        then show ?thesis using False by (simp add: node_ok_def)
      qed
      ultimately show False using u(2) by (simp add: less_prod_def)
    qed
    then show ?thesis using mn nx c(1) False by (subst mm_takedown_used.simps) simp
  qed
qed

lemma remove_all: "mm_remove_all t = Some Leaf"
proof (induction "length (inorder t)" arbitrary: t rule: less_induct)
  case less
  show ?case
  proof (cases t)
    case (Node c a l n r)
    have "inorder (rb_remove_at mm_augment (t, [])) = inorder l @ inorder r"
      unfolding Node using inorder_rb_remove_at [of mm_augment c a l n r "[]"] by simp
    then have "length (inorder (rb_remove_at mm_augment (t, []))) < length (inorder t)" using Node by simp
    from less [OF this] show ?thesis using Node by (subst mm_remove_all.simps) simp
  qed (simp add: mm_remove_all.simps)
qed

subsection \<open>Every chain once\<close>

text \<open>The blocks in use that begin a chain, in address order.\<close>

definition heads :: "mm \<Rightarrow> nat list" where
  "heads m = map nid (filter (\<lambda>n. nprev n = None) (used m))"

lemma heads_chain:
  assumes inv: "mm_inv m" and c: "chained m" and i: "i \<in> set (heads m)"
  obtains n ns where "chain_in m (n # ns) None" "nid n = i"
proof -
  from i obtain n where n: "n \<in> set (used m)" "nprev n = None" "nid n = i" by (auto simp: heads_def)
  with c obtain ch where ch: "chain_in m ch None" "n \<in> set ch" by (auto simp: chained_def)
  then obtain as bs where ab: "ch = as @ n # bs" by (meson split_list)
  have "as = []"
  proof (rule ccontr)
    assume "as \<noteq> []"
    then obtain xs a where as: "as = xs @ [a]" by (cases as rule: rev_cases) auto
    then have "linked None (xs @ a # n # bs) None" using ch(1) ab by (simp add: chain_in_def)
    then show False using n(2) linked_prev by fastforce
  qed
  with ch ab n(3) that show ?thesis by simp
qed

text \<open>Freeing a chain leaves the heads of the other chains.\<close>

lemma heads_others:
  assumes inv: "mm_inv m" and ch: "chain_in m (n # ns) None" and m': "used m' = others m (n # ns)"
  shows "heads m' = filter (\<lambda>i. i \<noteq> nid n) (heads m)"
proof -
  have "nid x \<in> nid ` set (n # ns) \<longleftrightarrow> nid x = nid n" if x: "x \<in> set (used m)" "nprev x = None" for x
  proof
    assume "nid x \<in> nid ` set (n # ns)"
    then obtain y where y: "y \<in> set (n # ns)" "nid y = nid x" by (metis imageE)
    then have "y = x" using used_unique [OF inv, of y x] ch x(1) by (auto simp: chain_in_def)
    with y(1) have "x \<in> set (n # ns)" by simp
    moreover have "x \<notin> set ns"
    proof
      assume "x \<in> set ns"
      then obtain us vs where "ns = us @ x # vs" by (meson split_list)
      then have "n # ns = butlast (n # us) @ last (n # us) # x # vs"
        by (metis append.assoc append_Cons append_Nil append_butlast_last_id list.distinct(1))
      then have "linked None (butlast (n # us) @ last (n # us) # x # vs) None"
        using ch by (simp add: chain_in_def)
      then show False using x(2) linked_prev by fastforce
    qed
    ultimately show "nid x = nid n" by auto
  qed auto
  then have "filter (\<lambda>x. nprev x = None) (used m') = filter (\<lambda>x. nid x \<noteq> nid n) (filter (\<lambda>x. nprev x = None) (used m))"
    unfolding m' others_def by (auto intro!: filter_cong)
  then show ?thesis by (simp add: heads_def filter_map o_def)
qed

text \<open>A callback together with the list of the blocks it was given.\<close>

definition recorded :: "(mm \<Rightarrow> nat \<Rightarrow> 'x \<Rightarrow> (mm \<times> 'x) option) \<Rightarrow> mm \<Rightarrow> nat \<Rightarrow> 'x \<times> nat list \<Rightarrow> (mm \<times> 'x \<times> nat list) option" where
  "recorded cb m i y = map_option (\<lambda>(m', x'). (m', x', snd y @ [i])) (cb m i (fst y))"

text \<open>
  What is asked of a callback: in the states it is called in (\<open>P\<close>, of the manager, the rest of the
  state and the calls so far), given the head of a chain, it returns, frees that chain and nothing
  else from the manager, and is ready for the next call.
\<close>

definition frees_its_chain ::
  "(mm \<Rightarrow> 'x \<Rightarrow> nat list \<Rightarrow> bool) \<Rightarrow> (mm \<Rightarrow> nat \<Rightarrow> 'x \<Rightarrow> (mm \<times> 'x) option) \<Rightarrow> bool" where
  "frees_its_chain P cb \<longleftrightarrow> (\<forall>m i x calls. mm_inv m \<longrightarrow> chained m \<longrightarrow> P m x calls \<longrightarrow> i \<in> set (heads m) \<longrightarrow>
     (\<exists>m' x'. cb m i x = Some (m', x') \<and> pscnv_mm_free m i = Some m' \<and> P m' x' (calls @ [i])))"

lemma takedown_used:
  assumes cb: "frees_its_chain P cb"
  shows "mm_inv m \<Longrightarrow> chained m \<Longrightarrow> P m x calls \<Longrightarrow>
   \<exists>m' x' more. mm_takedown_used cb m x = Some (m', x') \<and>
     mm_takedown_used (recorded cb) m (x, calls) = Some (m', x', calls @ more) \<and>
     P m' x' (calls @ more) \<and> distinct more \<and> set more = set (heads m)"
proof (induction "length (used m)" arbitrary: m x calls rule: less_induct)
  case less
  note inv = less.prems(1)
  note turn = takedown_turn [OF inv]
  show ?case
  proof (cases "used m")
    case Nil
    then show ?thesis using less.prems(3) by (intro exI [of _ m] exI [of _ x] exI [of _ "[]"]) (simp add: turn heads_def)
  next
    case (Cons c cs)
    then obtain ch where ch: "chain_in m ch None" "c \<in> set ch" using less.prems(2) by (auto simp: chained_def)
    then obtain as bs where ab: "ch = as @ c # bs" by (meson split_list)
    then obtain n ns where n: "ch = n # ns" "hd (as @ [c]) = n" by (cases as) auto
    then have f: "mm_chain_first m (nid c) = Some (nid n)"
      using chain_first [OF inv ch(1) [unfolded ab]] by simp
    from mm_free_chain_used [OF inv ch(1), of n] n(1) obtain m1 where
      m1: "pscnv_mm_free m (nid n) = Some m1" "mm_inv m1" "used m1 = others m ch" by auto
    have h: "nid n \<in> set (heads m)"
    proof -
      have "nprev n = None" using ch(1) n(1) by (cases ns) (auto simp: chain_in_def)
      then show ?thesis using ch(1) n(1) by (auto simp: heads_def chain_in_def)
    qed
    with cb inv less.prems(2,3) m1(1) obtain x1 where
      x1: "cb m (nid n) x = Some (m1, x1)" "P m1 x1 (calls @ [nid n])"
      unfolding frees_its_chain_def by fastforce
    have "length (used m1) < length (used m)"
      unfolding m1(3) others_def using ch(2) by (intro length_filter_less [of c]) (simp_all add: Cons)
    from less.hyps [OF this m1(2) chained_free [OF inv less.prems(2) ch(1) m1(3)] x1(2)] obtain m' x' more where
      r: "mm_takedown_used cb m1 x1 = Some (m', x')"
      "mm_takedown_used (recorded cb) m1 (x1, calls @ [nid n]) = Some (m', x', calls @ nid n # more)"
      "P m' x' (calls @ nid n # more)" "distinct more" "set more = set (heads m1)"
      by auto
    have "heads m1 = filter (\<lambda>i. i \<noteq> nid n) (heads m)"
      using heads_others [OF inv ch(1) [unfolded n(1)]] m1(3) n(1) by simp
    then have "distinct (nid n # more)" "set (nid n # more) = set (heads m)" using r(4,5) h by auto
    moreover have "recorded cb m (nid n) (x, calls) = Some (m1, x1, calls @ [nid n])"
      using x1(1) by (simp add: recorded_def)
    ultimately show ?thesis
      using r(1-3) f x1(1) by (intro exI [of _ m'] exI [of _ x'] exI [of _ "nid n # more"]) (simp add: turn Cons)
  qed
qed

text \<open>For the examples: a manager with one block of each type, both of them mappings of object 5, and no free node.\<close>

definition two_blocks :: mm where
  "two_blocks =
     mm_insert ((kz_node 4)\<lparr>sentinel := 1, nstart := 32768\<rparr>)
       (mm_insert ((kz_node 3)\<lparr>mtype := USED1, nstart := 16384, nsize := 16384, tag := Some 5\<rparr>)
         (mm_insert ((kz_node 2)\<lparr>nstart := 4096, nsize := 12288, tag := Some 5\<rparr>)
           (mm_insert ((kz_node 1)\<lparr>sentinel := -1, nstart := 4096\<rparr>)
             \<lparr>head = Leaf, spsize = 4096, lpsize = 8192, tssize = 16384, kzcount = 5\<rparr>)))"

lemma two_blocks:
  "mm_inv two_blocks" "tiled two_blocks" "tssize two_blocks = 16384"
  "used two_blocks = [(kz_node 2)\<lparr>nstart := 4096, nsize := 12288, tag := Some 5\<rparr>,
     (kz_node 3)\<lparr>mtype := USED1, nstart := 16384, nsize := 16384, tag := Some 5\<rparr>]"
proof -
  let ?a = "(kz_node 1)\<lparr>sentinel := -1, nstart := 4096\<rparr>"
  let ?b = "(kz_node 2)\<lparr>nstart := 4096, nsize := 12288, tag := Some 5\<rparr>"
  let ?c = "(kz_node 3)\<lparr>mtype := USED1, nstart := 16384, nsize := 16384, tag := Some 5\<rparr>"
  let ?z = "(kz_node 4)\<lparr>sentinel := 1, nstart := 32768\<rparr>"
  let ?m0 = "\<lparr>head = Leaf, spsize = 4096, lpsize = 8192, tssize = 16384, kzcount = 5\<rparr>"
  have g: "gap ?a = (\<lambda>_. 0)" "gap ?b = (\<lambda>_. 0)" "gap ?c = (\<lambda>_. 0)" "gap ?z = (\<lambda>_. 0)"
    by (simp_all add: kz_node_def)
  have "nodes (mm_insert ?a ?m0) = [] @ ?a # []"
    by (rule nodes_mm_insert) (simp_all add: nodes_def)
  then have "nodes (mm_insert ?b (mm_insert ?a ?m0)) = [?a] @ ?b # []"
    by (intro nodes_mm_insert) (simp_all add: kz_node_def less_prod_def)
  then have "nodes (mm_insert ?c (mm_insert ?b (mm_insert ?a ?m0))) = [?a, ?b] @ ?c # []"
    by (intro nodes_mm_insert) (simp_all add: kz_node_def less_prod_def)
  then have "nodes two_blocks = [?a, ?b, ?c] @ ?z # []"
    unfolding two_blocks_def by (intro nodes_mm_insert) (simp_all add: kz_node_def less_prod_def)
  then have n: "nodes two_blocks = [?a, ?b, ?c, ?z]" by simp
  have "rb_wf (head ?m0) \<and> aug_ge gap (head ?m0)" by (simp add: rb_wf_def)
  then have "rb_wf (head two_blocks) \<and> aug_ge gap (head two_blocks)"
    unfolding two_blocks_def using g mm_insert_tree by blast
  moreover have "layout two_blocks [?a, ?b, ?c, ?z]"
    unfolding layout_def
    by (simp add: kz_node_def node_ok_def adjacent_def node_gap_def distinct_ids_def
      sizes_ok_def two_blocks_def mm_insert_def)
  ultimately show "mm_inv two_blocks" unfolding mm_inv_def n by simp
  show ts: "tssize two_blocks = 16384" by (simp add: two_blocks_def mm_insert_def)
  show "tiled two_blocks"
    unfolding tiled_def n ts by (simp add: not_free_def apart_def kz_node_def up_to_def)
  show "used two_blocks = [?b, ?c]" unfolding used_def n by (simp add: is_used_def kz_node_def)
qed

lemma two_blocks_chained: "chained two_blocks"
proof -
  have "chain_in two_blocks [n] None" if "n \<in> set (used two_blocks)" for n
    using that by (auto simp: chain_in_def two_blocks(4) kz_node_def)
  then show ?thesis by (fastforce simp: chained_def)
qed

subsection \<open>The driver's callbacks\<close>

lemma mm_free_frees: "frees_its_chain (\<lambda>_ _ _. True) mm_free_callback"
  unfolding frees_its_chain_def
proof (intro allI impI)
  fix m i calls and x :: 'a
  assume "mm_inv m" "chained m" "i \<in> set (heads m)"
  from heads_chain [OF this] obtain n ns where n: "chain_in m (n # ns) None" "nid n = i" .
  from mm_free_chain_used [OF \<open>mm_inv m\<close> n(1), of n] n(2) obtain m' where "pscnv_mm_free m i = Some m'" by auto
  then show "\<exists>m' x'. mm_free_callback m i x = Some (m', x') \<and> pscnv_mm_free m i = Some m' \<and> True"
    by (simp add: mm_free_callback_def)
qed

text \<open>The GEM object a block maps, and the references dropped for a list of blocks.\<close>

definition gem_of :: "mm \<Rightarrow> kern \<Rightarrow> nat \<Rightarrow> nat option" where
  "gem_of m s i = do { n \<leftarrow> mm_lookup m i; b \<leftarrow> tag n; bo \<leftarrow> bos s b; bgem bo }"

definition unrefs :: "mm \<Rightarrow> kern \<Rightarrow> nat list \<Rightarrow> io list" where
  "unrefs m s calls = rev (map GemUnref (List.map_filter (gem_of m s) calls))"

definition tags_live :: "mm \<Rightarrow> kern \<Rightarrow> bool" where
  "tags_live m s \<longleftrightarrow>
     (\<forall>n \<in> set (used m). nprev n = None \<longrightarrow> (case tag n of None \<Rightarrow> False | Some b \<Rightarrow> bos s b \<noteq> None))"

definition unmapping :: "nat \<Rightarrow> mm \<Rightarrow> kern \<Rightarrow> mm \<Rightarrow> kern \<Rightarrow> nat list \<Rightarrow> bool" where
  "unmapping v m0 s0 m s calls \<longleftrightarrow> set (used m) \<subseteq> set (used m0) \<and> bos s = bos s0 \<and> vss s v \<noteq> None \<and>
     log s = unrefs m0 s0 calls @ log s0"

lemma free_unmap_frees:
  assumes m0: "mm_inv m0" "tags_live m0 s0"
    and held: "\<And>l g. fst (answer d l (GemUnref g)) = 0"
  shows "frees_its_chain (unmapping v m0 s0) (pscnv_vspace_free_unmap d E v)"
  unfolding frees_its_chain_def
proof (intro allI impI)
  fix m i s calls
  assume m: "mm_inv m" "chained m" "unmapping v m0 s0 m s calls" "i \<in> set (heads m)"
  from heads_chain [OF m(1,2,4)] obtain n ns where n: "chain_in m (n # ns) None" "nid n = i" .
  from mm_free_chain_used [OF m(1) n(1), of n] n(2) obtain m' where
    m': "pscnv_mm_free m i = Some m'" "used m' = others m (n # ns)" by auto
  have u: "n \<in> set (used m)" "nprev n = None" using n(1) by (cases ns; auto simp: chain_in_def)+
  from m(3) have st: "set (used m) \<subseteq> set (used m0)" "bos s = bos s0" "vss s v \<noteq> None"
    "log s = unrefs m0 s0 calls @ log s0" by (simp_all add: unmapping_def)
  from m0(2) u st(1) obtain b bo where b: "tag n = Some b" "bos s0 b = Some bo"
    by (fastforce simp: tags_live_def split: option.splits)
  have l: "mm_lookup m i = Some n" using lookup_used [OF m(1) u(1)] n(2) by simp
  have "mm_lookup m0 i = Some n" using lookup_used [OF m0(1), of n] st(1) u(1) n(2) by auto
  then have g: "gem_of m0 s0 i = bgem bo" using b by (simp add: gem_of_def)
  have un: "unrefs m0 s0 (calls @ [i]) = (case bgem bo of None \<Rightarrow> [] | Some g \<Rightarrow> [GemUnref g]) @ unrefs m0 s0 calls"
    using g by (simp add: unrefs_def List.map_filter_def split: option.splits)
  have sub: "set (used m') \<subseteq> set (used m0)" using m'(2) st(1) by (auto simp: others_def)
  have h: "answer d l (GemUnref g) = (0, snd (answer d l (GemUnref g)))" for l g
    using held [of l g] by (metis prod.collapse)
  from st(3) obtain vs where vs: "vss s v = Some vs" by auto
  define s1 where "s1 = s\<lparr>vss := (vss s)(v \<mapsto> vs\<lparr>vmm := Some m\<rparr>)\<rparr>"
  define s2 where "s2 = s1\<lparr>log := (case bgem bo of None \<Rightarrow> [] | Some g \<Rightarrow> [GemUnref g]) @ log s1\<rparr>"
  have "set_vs_mm v m s = Some s1" using vs by (simp add: set_vs_mm_def upd_vs_def s1_def)
  moreover have "gem_unref d E (bgem bo) s1 = Some s2"
    using h by (auto simp: gem_unref_def request_def s2_def split: option.splits prod.splits) (metis fst_conv held)
  moreover have "vs_mm v s2 = Some m" by (simp add: vs_mm_def s2_def s1_def)
  ultimately have "pscnv_vspace_free_unmap d E v m i s = Some (m', s2)"
    using l b st(2) m'(1) by (simp add: pscnv_vspace_free_unmap_def)
  moreover have "unmapping v m0 s0 m' s2 (calls @ [i])"
    using sub st un by (simp add: unmapping_def s2_def s1_def)
  ultimately show "\<exists>m' s'. pscnv_vspace_free_unmap d E v m i s = Some (m', s') \<and> pscnv_mm_free m i = Some m' \<and>
      unmapping v m0 s0 m' s' (calls @ [i])"
    using m'(1) by blast
qed

text \<open>
  \<open>pscnv_vram_takedown\<close> comes after the address spaces have been taken down: every block still there is
  an object of VRAM, which knows its block.
\<close>

definition vram_objects :: "mm \<Rightarrow> kern \<Rightarrow> bool" where
  "vram_objects m s \<longleftrightarrow> \<not> vm_ok s \<and>
     (\<forall>n \<in> set (used m). nprev n = None \<longrightarrow> (\<exists>b bo. tag n = Some b \<and> bos s b = Some bo \<and>
        mem_type (bflags bo) \<in> {VramSmall, VramLarge} \<and> bmmnode bo = Some (nid n)))"

lemma vram_free_frees: "frees_its_chain (\<lambda>m s _. vram_objects m s) (pscnv_vram_takedown_free d E)"
  unfolding frees_its_chain_def
proof (intro allI impI)
  fix m i s calls
  assume m: "mm_inv m" "chained m" "vram_objects m s" "i \<in> set (heads m)"
  from heads_chain [OF m(1,2,4)] obtain n ns where n: "chain_in m (n # ns) None" "nid n = i" .
  from mm_free_chain_used [OF m(1) n(1), of n] n(2) obtain m' where
    m': "pscnv_mm_free m i = Some m'" "used m' = others m (n # ns)" by auto
  have u: "n \<in> set (used m)" "nprev n = None" using n(1) by (cases ns; auto simp: chain_in_def)+
  with m(3) obtain b bo where b: "tag n = Some b" "bos s b = Some bo" "mem_type (bflags bo) \<in> {VramSmall, VramLarge}"
    "bmmnode bo = Some i" and ok: "\<not> vm_ok s" unfolding vram_objects_def n(2) [symmetric] by blast
  define s' where "s' = s\<lparr>vram_mm := Some m', bos := (bos s)(b := None)\<rparr>"
  have "mm_lookup m i = Some n" using lookup_used [OF m(1) u(1)] n(2) by simp
  then have "pscnv_vram_takedown_free d E m i s = Some (m', s')"
    using b ok m'(1) by (simp add: pscnv_vram_takedown_free_def pscnv_mem_free_def unmap_if_def pscnv_vram_free_def
        s'_def split: option.split)
  moreover have "vram_objects m' s'"
    unfolding vram_objects_def
  proof (intro conjI ballI impI)
    show "\<not> vm_ok s'" using ok by (simp add: s'_def)
    fix x assume x: "x \<in> set (used m')" "nprev x = None"
    then have "x \<in> set (used m)" "nid x \<noteq> i" using m'(2) n(2) by (auto simp: others_def)
    with x(2) m(3) obtain c co where c: "tag x = Some c" "bos s c = Some co" "mem_type (bflags co) \<in> {VramSmall, VramLarge}"
      "bmmnode co = Some (nid x)" unfolding vram_objects_def by blast
    with b(2,4) \<open>nid x \<noteq> i\<close> have "c \<noteq> b" by auto
    with c show "\<exists>b bo. tag x = Some b \<and> bos s' b = Some bo \<and>
        mem_type (bflags bo) \<in> {VramSmall, VramLarge} \<and> bmmnode bo = Some (nid x)"
      by (auto simp: s'_def)
  qed
  ultimately show "\<exists>m' s'. pscnv_vram_takedown_free d E m i s = Some (m', s') \<and> pscnv_mm_free m i = Some m' \<and>
      vram_objects m' s'"
    using m'(1) by blast
qed

text \<open>The two mappings of object 5, in address space 1.\<close>

definition two_mappings :: kern where
  "two_mappings = blank_kern\<lparr>bos := [5 \<mapsto> (blank_bo 0x100000 0x4000)\<lparr>bgem := Some 9\<rparr>],
     vss := [1 \<mapsto> new_vspace 0x10000000 0]\<rparr>"

text \<open>
  C9: \<open>pscnv_mm_takedown\<close>, whatever blocks are still allocated, for every callback that frees the
  chain it is given (\<open>frees_its_chain\<close>; shown of \<open>pscnv_mm_free\<close>, of \<open>pscnv_vram_takedown_free\<close> on a manager
  of objects of VRAM once the address spaces are down, and of \<open>pscnv_vspace_free_unmap\<close> while the
  references it drops are not the last): it ends, the callback has been given each chain exactly once,
  by its first block, and all nodes, the sentinels included, are removed from the tree.
\<close>

theorem mm_takedown_correct:
  assumes "mm_inv m" "chained m" "P m x []" "frees_its_chain P cb"
  shows "\<exists>m' x' m1 calls. pscnv_mm_takedown cb m x = Some (m', x') \<and> head m' = Leaf \<and>
    mm_takedown_used (recorded cb) m (x, []) = Some (m1, x', calls) \<and>
    distinct calls \<and> set calls = set (heads m) \<and> P m1 x' calls"
proof -
  from takedown_used [OF assms(4,1-3)] show ?thesis
    by (auto simp: pscnv_mm_takedown_def remove_all)
qed

theorem mm_takedown_correct_witness:
  "\<forall>E. \<exists>m' s'. pscnv_mm_takedown (pscnv_vspace_free_unmap (example_card 0x50 0x50) E 1) two_blocks two_mappings = Some (m', s') \<and>
     head m' = Leaf \<and> log s' = [GemUnref 9, GemUnref 9]"
proof
  fix E
  have l: "mm_lookup two_blocks 2 = Some ((kz_node 2)\<lparr>nstart := 4096, nsize := 12288, tag := Some 5\<rparr>)"
    "mm_lookup two_blocks 3 = Some ((kz_node 3)\<lparr>mtype := USED1, nstart := 16384, nsize := 16384, tag := Some 5\<rparr>)"
    using lookup_used [OF two_blocks(1), of "(kz_node 2)\<lparr>nstart := 4096, nsize := 12288, tag := Some 5\<rparr>"]
      lookup_used [OF two_blocks(1), of "(kz_node 3)\<lparr>mtype := USED1, nstart := 16384, nsize := 16384, tag := Some 5\<rparr>"]
    by (simp_all add: two_blocks(4) kz_node_def)
  have g: "gem_of two_blocks two_mappings i = Some 9" if "i \<in> {2, 3}" for i
    using that by (auto simp: gem_of_def l two_mappings_def)
  have live: "tags_live two_blocks two_mappings"
    by (auto simp: tags_live_def two_blocks(4) two_mappings_def)
  have h: "set (heads two_blocks) = {2, 3}" by (auto simp: heads_def two_blocks(4) kz_node_def)
  let ?cb = "pscnv_vspace_free_unmap (example_card 0x50 0x50) E 1"
  have "\<And>l g. fst (answer (example_card 0x50 0x50) l (GemUnref g)) = 0"
    by (simp add: example_card_def)
  from free_unmap_frees [OF two_blocks(1) live this]
  have cb: "frees_its_chain (unmapping 1 two_blocks two_mappings) ?cb" .
  have "unmapping 1 two_blocks two_mappings two_blocks two_mappings []"
    by (simp add: unmapping_def unrefs_def List.map_filter_def two_mappings_def)
  from mm_takedown_correct [OF two_blocks(1) two_blocks_chained this cb] obtain m' s' calls where
    r: "pscnv_mm_takedown ?cb two_blocks two_mappings = Some (m', s')" "head m' = Leaf" "distinct calls"
      "set calls = {2, 3}" "log s' = unrefs two_blocks two_mappings calls @ log two_mappings"
    unfolding h by (auto simp: unmapping_def)
  have "List.map_filter (gem_of two_blocks two_mappings) calls = map (\<lambda>_. 9) calls"
    unfolding List.map_filter_def using r(4) g by (auto simp: filter_empty_conv intro!: arg_cong [where f = "map _"] map_cong)
  moreover have "length calls = 2" using distinct_card [OF r(3)] r(4) by simp
  then have "map (\<lambda>_. 9) calls = [9, 9 :: nat]" by (simp add: map_replicate_const numeral_2_eq_2)
  ultimately show "\<exists>m' s'. pscnv_mm_takedown ?cb two_blocks two_mappings = Some (m', s') \<and>
      head m' = Leaf \<and> log s' = [GemUnref 9, GemUnref 9]"
    using r by (auto simp: unrefs_def two_mappings_def blank_kern_def)
qed

end
