(* ===== verification/RbtreeSpec.thy ===== *)
theory RbtreeSpec
  imports MmNodes
begin

section \<open>Properties of the red-black tree\<close>

text \<open>
  What the generated tree promises to its one client, the memory manager: with \<open>nodecmp\<close> as the
  order and \<open>maxgap\<close> as the summary, each operation acts on the in-order sequence as a sorted map
  does, the tree stays balanced, and every summary stays an upper bound of the gaps below it.
\<close>

definition node_less :: "mm_node \<Rightarrow> mm_node \<Rightarrow> bool" where
  "node_less a b \<longleftrightarrow> nodecmp a b < 0"

definition good_tree :: "mm_tree \<Rightarrow> bool" where
  "good_tree t \<longleftrightarrow> rb_wf t \<and> aug_ge gap t \<and> sorted_wrt node_less (inorder t)"

lemma node_less_key: "node_less a b \<longleftrightarrow> (sentinel a, nstart a) < (sentinel b, nstart b)"
  unfolding node_less_def by (rule node_order.cmp_neg)

lemma ascending_node_less: "sorted_wrt node_less ns = node_order.ascending ns"
proof -
  have "node_less = (\<lambda>a b. (sentinel a, nstart a) < (sentinel b, nstart b))"
    by (intro ext) (rule node_less_key)
  then show ?thesis by simp
qed

lemma descend_found:
  "sorted_wrt node_less (inorder t) \<Longrightarrow> x \<in> set (inorder t) \<Longrightarrow> nodecmp e x = 0 \<Longrightarrow> descend nodecmp e t p = None"
proof (induction t arbitrary: p)
  case (Node c a l n r)
  have eq: "(sentinel e, nstart e) = (sentinel x, nstart x)"
    using Node.prems(3) node_order.cmp_neg [of e x] node_order.cmp_pos [of e x] by (auto simp: not_less_iff_gr_or_eq)
  from Node.prems(2) consider "x \<in> set (inorder l)" | "x = n" | "x \<in> set (inorder r)" by auto
  then show ?case
  proof cases
    case 1
    then have "node_less x n" using Node.prems(1) by (auto simp: sorted_wrt_append)
    then have "nodecmp e n < 0" using eq by (simp add: node_less_key node_order.cmp_neg)
    then show ?thesis using Node 1 by (simp add: Let_def sorted_wrt_append)
  next
    case 2
    with Node.prems(3) show ?thesis by (simp add: Let_def)
  next
    case 3
    then have "node_less n x" using Node.prems(1) by (auto simp: sorted_wrt_append)
    then have "nodecmp e n > 0" using eq by (simp add: node_less_key node_order.cmp_pos)
    then show ?thesis using Node 3 by (simp add: Let_def sorted_wrt_append)
  qed
qed simp

text \<open>
  C10: \<open>PSCNV_RB_INSERT\<close> puts a new element at its place in the order, leaves the tree alone when
  an element with an equal key is there, and keeps the tree balanced, ordered and correctly
  summarised.
\<close>

theorem tree_insert_correct:
  assumes "good_tree t" "gap e = (\<lambda>_. 0)"
  shows "good_tree (rb_insert mm_augment nodecmp (\<lambda>_. 0) e t) \<and>
    inorder (rb_insert mm_augment nodecmp (\<lambda>_. 0) e t) =
      (if \<exists>x \<in> set (inorder t). nodecmp e x = 0 then inorder t
       else filter (\<lambda>x. nodecmp x e < 0) (inorder t) @ e # filter (\<lambda>x. nodecmp e x < 0) (inorder t))"
proof -
  let ?t = "rb_insert mm_augment nodecmp (\<lambda>_. 0) e t"
  from assms(1) have t: "rb_wf t" "aug_ge gap t" "sorted_wrt node_less (inorder t)" by (simp_all add: good_tree_def)
  have "rb_wf ?t" using rb_insert_wf [OF t(1)] .
  moreover have "aug_ge gap ?t" by (rule gaps.aug_ge_rb_insert [OF t(2)]) (simp_all add: assms(2) le_fun_def)
  moreover have "sorted_wrt node_less (inorder ?t) \<and> inorder ?t =
      (if \<exists>x \<in> set (inorder t). nodecmp e x = 0 then inorder t
       else filter (\<lambda>x. nodecmp x e < 0) (inorder t) @ e # filter (\<lambda>x. nodecmp e x < 0) (inorder t))"
  proof (cases "\<exists>x \<in> set (inorder t). nodecmp e x = 0")
    case True
    then have "descend nodecmp e t [] = None" using descend_found [OF t(3)] by blast
    then show ?thesis using True t(3) by (simp add: rb_insert_def)
  next
    case False
    let ?l = "filter (\<lambda>x. nodecmp x e < 0) (inorder t)" and ?r = "filter (\<lambda>x. nodecmp e x < 0) (inorder t)"
    have split: "ns = filter (\<lambda>x. nodecmp x e < 0) ns @ filter (\<lambda>x. nodecmp e x < 0) ns"
      if "sorted_wrt node_less ns" "\<forall>x \<in> set ns. nodecmp e x \<noteq> 0" for ns
      using that
    proof (induction ns)
      case (Cons a ns)
      show ?case
      proof (cases "nodecmp a e < 0")
        case True
        then have "\<not> nodecmp e a < 0" using node_order.cmp_neg by (metis less_asym)
        with True Cons show ?thesis by simp
      next
        case False
        then have ea: "nodecmp e a < 0"
          using Cons.prems(2) node_order.cmp_neg node_order.cmp_pos by (metis list.set_intros(1) linorder_less_linear not_less_iff_gr_or_eq)
        have "\<forall>x \<in> set ns. nodecmp e x < 0 \<and> \<not> nodecmp x e < 0"
          using Cons.prems(1) ea unfolding node_order.cmp_neg
          by (auto simp: node_less_key intro: less_trans dest: less_asym)
        then have "filter (\<lambda>x. nodecmp x e < 0) ns = []" "filter (\<lambda>x. nodecmp e x < 0) ns = ns"
          by (auto simp: filter_empty_conv filter_id_conv)
        with False ea show ?thesis by simp
      qed
    qed simp
    have s: "inorder t = ?l @ ?r" using split [OF t(3)] False by blast
    have "inorder ?t = ?l @ e # ?r"
      by (rule node_order.inorder_rb_insert [OF s])
        (use t(3) in \<open>auto simp: ascending_node_less node_order.cmp_neg\<close>)
    moreover have "sorted_wrt node_less (?l @ e # ?r)"
      using t(3) s by (auto simp: sorted_wrt_append sorted_wrt_filter node_less_def node_order.cmp_neg intro: less_trans)
    ultimately show ?thesis using False by simp
  qed
  ultimately show ?thesis unfolding good_tree_def by blast
qed

theorem tree_insert_correct_witness:
  "good_tree (rb_insert mm_augment nodecmp (\<lambda>_. 0) (kz_node 7) Leaf) \<and>
   inorder (rb_insert mm_augment nodecmp (\<lambda>_. 0) (kz_node 7) Leaf) = [kz_node 7]"
  using tree_insert_correct [of Leaf "kz_node 7"] by (simp add: good_tree_def rb_wf_def kz_node_def)

text \<open>
  C11: \<open>PSCNV_RB_REMOVE\<close> of the node that a pointer reaches takes exactly this node out of the
  sequence and keeps the tree balanced, ordered and correctly summarised.
\<close>

theorem tree_remove_correct:
  assumes "good_tree t" "focus P t [] = Some z" "node_of (fst z) = Some n"
  shows "\<exists>xs ys. inorder t = xs @ n # ys \<and> inorder (rb_remove_at mm_augment z) = xs @ ys \<and>
    good_tree (rb_remove_at mm_augment z)"
proof -
  obtain u p where z: "z = (u, p)" by fastforce
  with assms(3) obtain c a l r where u: "u = Node c a l n r" by (cases u) auto
  from focus_Some [OF assms(2) [unfolded z u]] have plug: "plug (Node c a l n r) p = t" by auto
  then have "inorder t = (before p @ inorder l) @ n # (inorder r @ after p)"
    by (metis append.assoc append_Cons inorder.simps(2) inorder_plug)
  moreover have i: "inorder (rb_remove_at mm_augment z) = (before p @ inorder l) @ (inorder r @ after p)"
    unfolding z u by (simp add: inorder_rb_remove_at del: rb_remove_at.simps)
  moreover have "rb_wf (rb_remove_at mm_augment z)"
    unfolding z u using assms(1) plug by (intro rb_remove_at_wf) (simp add: good_tree_def)
  moreover have "aug_ge gap (rb_remove_at mm_augment z)"
    unfolding z u using assms(1) plug by (intro gaps.aug_ge_rb_remove_at) (simp add: good_tree_def del: aug_ge_plug)
  moreover have "sorted_wrt node_less (inorder (rb_remove_at mm_augment z))"
    using assms(1) calculation(1) i by (simp add: good_tree_def sorted_wrt_append)
  ultimately show ?thesis unfolding good_tree_def by blast
qed

theorem tree_remove_correct_witness:
  "\<exists>xs ys. [kz_node 7] = xs @ kz_node 7 # ys \<and>
     inorder (rb_remove_at mm_augment (Node Black (\<lambda>_. 0) Leaf (kz_node 7) Leaf, [])) = xs @ ys"
  using tree_remove_correct [of "Node Black (\<lambda>_. 0) Leaf (kz_node 7) Leaf" "\<lambda>n. nid n = 7"
      "(Node Black (\<lambda>_. 0) Leaf (kz_node 7) Leaf, [])" "kz_node 7"]
  by (simp add: good_tree_def rb_wf_def kz_node_def le_fun_def less_eq_option_def del: rb_remove_at.simps) blast

text \<open>The tree is balanced.\<close>

fun rb_height :: "('n, 'a) rbt \<Rightarrow> nat" where
  "rb_height Leaf = 0"
| "rb_height (Node c a l n r) = Suc (max (rb_height l) (rb_height r))"

lemma height_bheight:
  "invc t \<Longrightarrow> invh t \<Longrightarrow> rb_height t \<le> 2 * bheight t + (if color_of t = Red then 1 else 0)"
proof (induction t)
  case (Node c a l n r)
  then show ?case by (cases c) (auto split: if_splits)
qed simp

lemma bheight_length: "invh t \<Longrightarrow> (2 :: nat) ^ bheight t \<le> Suc (length (inorder t))"
proof (induction t)
  case (Node c a l n r)
  then show ?case by auto
qed simp

text \<open>
  What the memory manager does to a tree: insert nodes, and remove the node that a pointer reaches.
\<close>

datatype tree_call = TreeInsert mm_node | TreeRemove nat

fun tree_run :: "mm_tree \<Rightarrow> tree_call list \<Rightarrow> mm_tree" where
  "tree_run t [] = t"
| "tree_run t (TreeInsert e # cs) = tree_run (rb_insert mm_augment nodecmp (\<lambda>_. 0) e t) cs"
| "tree_run t (TreeRemove i # cs) =
     (case focus (\<lambda>n. nid n = i) t [] of
        None \<Rightarrow> tree_run t cs
      | Some z \<Rightarrow> tree_run (rb_remove_at mm_augment z) cs)"

lemma tree_run_wf: "rb_wf t \<Longrightarrow> rb_wf (tree_run t cs)"
proof (induction t cs rule: tree_run.induct)
  case (2 t e cs)
  then show ?case by (simp add: rb_insert_wf)
next
  case (3 t i cs)
  show ?case
  proof (cases "focus (\<lambda>n. nid n = i) t []")
    case None
    then show ?thesis using 3 by simp
  next
    case (Some z)
    obtain u p where z: "z = (u, p)" by fastforce
    with Some obtain c a l n r where u: "u = Node c a l n r" "plug (Node c a l n r) p = t"
      using focus_Some [of "\<lambda>n. nid n = i" t "[]" u p] by auto
    have "rb_wf (rb_remove_at mm_augment z)"
      unfolding z u(1) using 3(3) u(2) by (intro rb_remove_at_wf) simp
    then show ?thesis using 3(2) Some by (simp del: rb_remove_at.simps)
  qed
qed simp

lemma height_length:
  assumes "rb_wf t"
  shows "2 ^ ((rb_height t + 1) div 2) \<le> Suc (length (inorder t))"
proof -
  have "rb_height t \<le> 2 * bheight t" using height_bheight [of t] assms by (simp add: rb_wf_def)
  then have "(rb_height t + 1) div 2 \<le> bheight t" by simp
  then have "(2 :: nat) ^ ((rb_height t + 1) div 2) \<le> 2 ^ bheight t" by (rule power_increasing) simp
  also have "\<dots> \<le> Suc (length (inorder t))" using bheight_length [of t] assms unfolding rb_wf_def by blast
  finally show ?thesis .
qed

text \<open>
  C12: after any sequence of \<open>PSCNV_RB_INSERT\<close> and \<open>PSCNV_RB_REMOVE\<close> that starts from the empty
  tree, in any order and with any keys, a search path in the tree of \<open>n\<close> nodes has at most
  \<open>2 log (n + 1)\<close> nodes, written without the logarithm.
\<close>

theorem tree_height_bound:
  "2 ^ ((rb_height (tree_run Leaf cs) + 1) div 2) \<le> Suc (length (inorder (tree_run Leaf cs)))"
  by (rule height_length, rule tree_run_wf) (simp add: rb_wf_def)

lemma nfind_inorder:
  "sorted_wrt node_less (inorder t) \<Longrightarrow>
   rb_nfind nodecmp e t res = (case List.find (\<lambda>x. nodecmp e x \<le> 0) (inorder t) of None \<Rightarrow> res | Some n \<Rightarrow> Some n)"
proof (induction t arbitrary: res)
  case (Node c a l n r)
  have app: "List.find P (us @ vs) = (case List.find P us of None \<Rightarrow> List.find P vs | Some u \<Rightarrow> Some u)"
    for P :: "mm_node \<Rightarrow> bool" and us vs by (induction us) auto
  have none: "List.find P us = None" if "\<forall>x \<in> set us. \<not> P x" for P :: "mm_node \<Rightarrow> bool" and us
    using that by (induction us) auto
  have low: "\<forall>x \<in> set (inorder l). node_less x n" using Node.prems by (simp add: sorted_wrt_append)
  have left: "List.find (\<lambda>x. nodecmp e x \<le> 0) (inorder l) = None" if "nodecmp e n \<ge> 0"
  proof (rule none, rule ballI)
    fix x assume "x \<in> set (inorder l)"
    then have "(sentinel x, nstart x) < (sentinel n, nstart n)" using low by (simp add: node_less_key)
    also have "\<dots> \<le> (sentinel e, nstart e)" using that node_order.cmp_neg [of e n] by (auto simp: not_less)
    finally have "0 < nodecmp e x" by (simp add: node_order.cmp_pos)
    then show "\<not> nodecmp e x \<le> 0" by simp
  qed
  show ?case
    using Node.IH Node.prems left by (auto simp: Let_def app sorted_wrt_append split: option.splits)
qed simp

text \<open>
  C13: \<open>PSCNV_RB_FIND\<close> returns the element with an equal key, \<open>PSCNV_RB_NFIND\<close> the first one that is
  not below the key; NULL when there is none.
\<close>

theorem tree_lookup_correct:
  assumes "good_tree t"
  shows "rb_find nodecmp e t = List.find (\<lambda>x. nodecmp e x = 0) (inorder t) \<and>
    rb_nfind nodecmp e t None = List.find (\<lambda>x. nodecmp e x \<le> 0) (inorder t)"
proof
  have s: "sorted_wrt node_less (inorder t)" using assms by (simp add: good_tree_def)
  have "(sentinel x, nstart x) = (sentinel e, nstart e) \<longleftrightarrow> nodecmp e x = 0" for x
    by (auto simp: nodecmp_def)
  then show "rb_find nodecmp e t = List.find (\<lambda>x. nodecmp e x = 0) (inorder t)"
    using node_order.rb_find_correct [of t e] s ascending_node_less by simp
  show "rb_nfind nodecmp e t None = List.find (\<lambda>x. nodecmp e x \<le> 0) (inorder t)"
    unfolding nfind_inorder [OF s] by (simp split: option.split)
qed

theorem tree_lookup_correct_witness:
  "rb_find nodecmp (kz_node 3) (Node Black (\<lambda>_. 0) Leaf (kz_node 7) Leaf) = Some (kz_node 7)"
  using tree_lookup_correct [of "Node Black (\<lambda>_. 0) Leaf (kz_node 7) Leaf" "kz_node 3"]
  by (simp add: good_tree_def rb_wf_def kz_node_def nodecmp_def)

end
