(* ===== verification/NvBios.thy ===== *)
theory NvBios
  imports Hw
begin

section \<open>The parsed VBIOS and the accessors its scripts use\<close>

text \<open>
  The data of \<open>nouveau_bios.h\<close> the script interpreter reads, and the register and port
  accessors of \<open>nouveau_bios.c\<close>: \<open>munge_reg\<close>, \<open>valid_reg\<close>, \<open>bios_rd32\<close>, \<open>bios_wr32\<close>, the
  indexed ports and the three kinds of condition. What no script changes (the image and the table
  pointers, the display configuration) is in the record \<open>drv\<close>; what scripts change (the selected
  head, the I2C buses found so far, the execute and repeat flags of \<open>struct init_exec\<close>) is in the
  state \<open>ist\<close>.
\<close>

record dcb_entry =
  dcb_type :: int
  i2c_index :: u8
  connector :: u8
  location :: u8
  dcb_or :: u8
  sor_link :: int
  i2c_upper_default :: bool

record dcb_i2c_entry =
  i2c_entry :: u32
  port_type :: u8
  i2c_read :: u8
  i2c_write :: u8
  chan :: "i2c_chan option"

record dcb_gpio_entry =
  tag :: int
  line :: nat
  gpio_entry :: u32
  state_default :: u8
  gpio_state :: "u8 list"

record dcb_table =
  dcb_version :: u8
  entries :: int
  dcb_entries :: "dcb_entry list"
  i2c_table :: "nat option"
  i2c_default_indices :: u8
  gpios :: "dcb_gpio_entry list"
  connector_types :: "int list"

record nvbios =
  data :: "u8 list"
  len :: u32
  execute :: bool
  chip_version :: u8
  major_version :: u8
  fmaxvco :: u32
  fminvco :: u32
  old_style_init :: bool
  init_script_tbls_ptr :: u16
  extra_init_script_tbl_ptr :: u16
  macro_index_tbl_ptr :: u16
  macro_tbl_ptr :: u16
  condition_tbl_ptr :: u16
  io_condition_tbl_ptr :: u16
  io_flag_condition_tbl_ptr :: u16
  pll_limit_tbl_ptr :: u16
  ram_restrict_tbl_ptr :: u16
  ram_restrict_group_count :: u8
  init96_tbl_ptr :: u16
  dcb :: dcb_table
  active_output :: "dcb_entry option"
  dp_table_ptr :: u16
  mem_init_tbl_ptr :: u16
  sdr_seq_tbl_ptr :: u16
  ddr_seq_tbl_ptr :: u16

text \<open>
  \<open>struct nouveau_pll_vals\<close>. The scripts set a PLL from a variable on the stack that is not
  initialised: what it held before is \<open>stack_pv\<close>.
\<close>

record pll_vals =
  N1 :: u8
  M1 :: u8
  N2 :: u8
  M2 :: u8
  log2P :: int

record drv = device +
  bios :: nvbios
  stack_pv :: pll_vals

record ist = hw +
  crtchead :: int
  i2c :: "dcb_i2c_entry list"
  iexecute :: bool
  irepeat :: bool

subsection \<open>Reading the image\<close>

definition idx :: "'a list \<Rightarrow> nat \<Rightarrow> 'a option" where
  "idx xs n = (if n < length xs then Some (xs ! n) else None)"

definition rom8 :: "drv \<Rightarrow> nat \<Rightarrow> u8 option" where
  "rom8 d n = idx (data (bios d)) n"

definition rom16 :: "drv \<Rightarrow> nat \<Rightarrow> u16 option" where
  "rom16 d n = do {
     lo \<leftarrow> rom8 d n;
     hi \<leftarrow> rom8 d (n + 1);
     Some (push_bit 8 (ucast hi) OR ucast lo) }"

definition rom32 :: "drv \<Rightarrow> nat \<Rightarrow> u32 option" where
  "rom32 d n = do {
     lo \<leftarrow> rom16 d n;
     hi \<leftarrow> rom16 d (n + 2);
     Some (push_bit 16 (ucast hi) OR ucast lo) }"

text \<open>\<open>ffs\<close>: one more than the number of the lowest bit set, 0 when there is none.\<close>

definition ffs :: "u8 \<Rightarrow> nat" where
  "ffs x = (case filter (bit x) [0..<8] of [] \<Rightarrow> 0 | i # _ \<Rightarrow> Suc i)"

subsection \<open>Registers\<close>

definition munge_reg :: "drv \<Rightarrow> u32 \<Rightarrow> u32 option" where
  "munge_reg d reg =
     (if card_type d < NV_50 then Some reg
      else do {
        reg \<leftarrow>
          (if reg AND 0x40000000 \<noteq> 0 then
             do {
               dcbent \<leftarrow> active_output (bios d);
               let reg = reg + word_of_int ((int (ffs (dcb_or dcbent)) - 1) * 0x800);
               Some (if reg AND 0x20000000 \<noteq> 0 \<and> even (sor_link dcbent) then reg + 0x80 else reg) }
           else Some reg);
        Some (reg AND NOT 0x60000000) })"

definition valid_reg :: "u32 \<Rightarrow> bool" where
  "valid_reg reg \<longleftrightarrow> reg < 8 * 1024 * 1024"

definition bios_rd32 :: "drv \<Rightarrow> u32 \<Rightarrow> ist \<Rightarrow> (u32 \<times> ist) option" where
  "bios_rd32 d reg s = do {
     reg \<leftarrow> munge_reg d reg;
     if \<not> valid_reg reg then Some (0, s)
     else nv_rd32 d (if reg AND 1 \<noteq> 0 then reg AND NOT 1 else reg) s }"

definition bios_wr32 :: "drv \<Rightarrow> u32 \<Rightarrow> u32 \<Rightarrow> ist \<Rightarrow> ist option" where
  "bios_wr32 d reg v s = do {
     reg \<leftarrow> munge_reg d reg;
     if \<not> valid_reg reg then Some s
     else if execute (bios d) then nv_wr32 d (if reg AND 1 \<noteq> 0 then reg AND 0xfffffffe else reg) v s
     else Some s }"

definition bios_md32 :: "drv \<Rightarrow> u32 \<Rightarrow> u32 \<Rightarrow> u32 \<Rightarrow> ist \<Rightarrow> ist option" where
  "bios_md32 d reg msk v s = do {
     (old, s) \<leftarrow> bios_rd32 d reg s;
     bios_wr32 d reg ((old AND NOT msk) OR v) s }"

subsection \<open>Ports\<close>

definition NV_CIO_CRX__COLOR :: u16 where "NV_CIO_CRX__COLOR = 0x3d4"
definition NV_VIO_SRX :: u16 where "NV_VIO_SRX = 0x3c4"
definition NV_VIO_VSE2 :: u16 where "NV_VIO_VSE2 = 0x3c3"
definition NV_CIO_CRE_44 :: u8 where "NV_CIO_CRE_44 = 0x44"
definition NV_CIO_CRE_44_HEADB :: u8 where "NV_CIO_CRE_44_HEADB = 3"

definition valid_idx_port :: "drv \<Rightarrow> u16 \<Rightarrow> bool" where
  "valid_idx_port d p =
     (if card_type d < NV_50 then p = NV_CIO_CRX__COLOR \<or> p = NV_VIO_SRX
      else p = NV_CIO_CRX__COLOR)"

definition valid_port :: "u16 \<Rightarrow> bool" where
  "valid_port p \<longleftrightarrow> p = NV_VIO_VSE2"

text \<open>On NV50 the CRTC registers are bytes of the words of \<open>NV50_PDISPLAY_VGACRTC\<close>.\<close>

definition vgacrtc_word :: "u8 \<Rightarrow> u32" where
  "vgacrtc_word index = 0x619400 + ucast (index AND NOT 3)"

definition vgacrtc_shift :: "u8 \<Rightarrow> nat" where
  "vgacrtc_shift index = 8 * unat (index AND 3)"

definition bios_idxprt_rd :: "drv \<Rightarrow> u16 \<Rightarrow> u8 \<Rightarrow> ist \<Rightarrow> (u8 \<times> ist) option" where
  "bios_idxprt_rd d p index s =
     (if \<not> valid_idx_port d p then Some (0, s)
      else if card_type d < NV_50 then
        (if p = NV_VIO_SRX then NVReadVgaSeq d (crtchead s) index s
         else NVReadVgaCrtc d (crtchead s) index s)
      else do {
        (x, s) \<leftarrow> bios_rd32 d (vgacrtc_word index) s;
        Some (ucast (drop_bit (vgacrtc_shift index) x AND 0xff), s) })"

definition idxprt_store :: "drv \<Rightarrow> u16 \<Rightarrow> u8 \<Rightarrow> u8 \<Rightarrow> ist \<Rightarrow> ist option" where
  "idxprt_store d p index v s =
     (if execute (bios d) \<and> card_type d < NV_50 then
        (if p = NV_VIO_SRX then NVWriteVgaSeq d (crtchead s) index v s
         else NVWriteVgaCrtc d (crtchead s) index v s)
      else if execute (bios d) then do {
        (x, s) \<leftarrow> bios_rd32 d (vgacrtc_word index) s;
        bios_wr32 d (vgacrtc_word index)
          ((x AND NOT (push_bit (vgacrtc_shift index) 0xff)) OR push_bit (vgacrtc_shift index) (ucast v)) s }
      else Some s)"

definition bios_idxprt_wr :: "drv \<Rightarrow> u16 \<Rightarrow> u8 \<Rightarrow> u8 \<Rightarrow> ist \<Rightarrow> ist option" where
  "bios_idxprt_wr d p index v s =
     (if \<not> valid_idx_port d p then Some s
      else do {
        let s = (if p = NV_CIO_CRX__COLOR \<and> index = NV_CIO_CRE_44 \<and> v \<noteq> NV_CIO_CRE_44_HEADB
                 then s\<lparr>crtchead := 0\<rparr> else s);
        s \<leftarrow> idxprt_store d p index v s;
        Some (if p = NV_CIO_CRX__COLOR \<and> index = NV_CIO_CRE_44 \<and> v = NV_CIO_CRE_44_HEADB
              then s\<lparr>crtchead := 1\<rparr> else s) })"

definition bios_port_rd :: "drv \<Rightarrow> u16 \<Rightarrow> ist \<Rightarrow> (u8 \<times> ist) option" where
  "bios_port_rd d p s =
     (if \<not> valid_port p then Some (0, s)
      else NVReadPRMVIO d (crtchead s) (0xc0000 + ucast p) s)"

definition bios_port_wr :: "drv \<Rightarrow> u16 \<Rightarrow> u8 \<Rightarrow> ist \<Rightarrow> ist option" where
  "bios_port_wr d p v s =
     (if \<not> valid_port p then Some s
      else if \<not> execute (bios d) then Some s
      else NVWritePRMVIO d (crtchead s) (0xc0000 + ucast p) v s)"

subsection \<open>Conditions\<close>

definition io_flag_condition_met :: "drv \<Rightarrow> u8 \<Rightarrow> ist \<Rightarrow> (bool \<times> ist) option" where
  "io_flag_condition_met d cond s = do {
     let condptr = unat (io_flag_condition_tbl_ptr (bios d) + ucast cond * 9);
     crtcport \<leftarrow> rom16 d condptr;
     crtcindex \<leftarrow> rom8 d (condptr + 2);
     msk \<leftarrow> rom8 d (condptr + 3);
     shift \<leftarrow> rom8 d (condptr + 4);
     flagarray \<leftarrow> rom16 d (condptr + 5);
     flagarraymask \<leftarrow> rom8 d (condptr + 7);
     cmpval \<leftarrow> rom8 d (condptr + 8);
     (x, s) \<leftarrow> bios_idxprt_rd d crtcport crtcindex s;
     i \<leftarrow> shr32 (ucast (x AND msk)) (unat shift);
     flag \<leftarrow> rom8 d (unat flagarray + unat i);
     Some (flag AND flagarraymask = cmpval, s) }"

definition bios_condition_met :: "drv \<Rightarrow> u8 \<Rightarrow> ist \<Rightarrow> (bool \<times> ist) option" where
  "bios_condition_met d cond s = do {
     let condptr = unat (condition_tbl_ptr (bios d) + ucast cond * 12);
     reg \<leftarrow> rom32 d condptr;
     msk \<leftarrow> rom32 d (condptr + 4);
     cmpval \<leftarrow> rom32 d (condptr + 8);
     (x, s) \<leftarrow> bios_rd32 d reg s;
     Some (x AND msk = cmpval, s) }"

definition io_condition_met :: "drv \<Rightarrow> u8 \<Rightarrow> ist \<Rightarrow> (bool \<times> ist) option" where
  "io_condition_met d cond s = do {
     let condptr = unat (io_condition_tbl_ptr (bios d) + ucast cond * 5);
     io_port \<leftarrow> rom16 d condptr;
     port_index \<leftarrow> rom8 d (condptr + 2);
     msk \<leftarrow> rom8 d (condptr + 3);
     cmpval \<leftarrow> rom8 d (condptr + 4);
     (x, s) \<leftarrow> bios_idxprt_rd d io_port port_index s;
     Some (x AND msk = cmpval, s) }"

end
