(* ===== verification/NvPll.thy ===== *)
theory NvPll
  imports NvBios "HOL-Library.Signed_Division"
begin

section \<open>PLLs\<close>

text \<open>
  The PLL limits table of the VBIOS (\<open>get_pll_register\<close>, \<open>get_pll_limits\<close>), the search for the
  coefficients of a frequency (\<open>nouveau_calc.c\<close>: \<open>getMNP_single\<close>, \<open>getMNP_double\<close>), and the
  register sequences that program them (\<open>nouveau_hw.c\<close>: \<open>nouveau_hw_setpll\<close>; \<open>nouveau_bios.c\<close>:
  \<open>nv50_pll_set\<close>, \<open>setPLL\<close>). The C code computes in \<open>int\<close>: every operation that can overflow is
  checked by \<open>i32\<close>, every division by \<open>cdiv\<close>.
\<close>

subsection \<open>Checked arithmetic\<close>

definition INT_MAX :: int where "INT_MAX = 2147483647"

definition i32 :: "int \<Rightarrow> int option" where
  "i32 x = (if - 2147483648 \<le> x \<and> x \<le> 2147483647 then Some x else None)"

definition cdiv :: "int \<Rightarrow> int \<Rightarrow> int option" where
  "cdiv x y = (if y = 0 then None else i32 (x sdiv y))"

text \<open>The address of the first of \<open>n\<close> records, \<open>step\<close> bytes apart, that satisfies \<open>P\<close>.\<close>

primrec scan :: "(nat \<Rightarrow> bool option) \<Rightarrow> nat \<Rightarrow> nat \<Rightarrow> nat \<Rightarrow> nat option option" where
  "scan P 0 pos step = Some None"
| "scan P (Suc n) pos step = do {
     hit \<leftarrow> P pos;
     if hit then Some (Some pos) else scan P n (pos + step) step }"

subsection \<open>The limits table\<close>

record vco =
  minfreq :: int
  maxfreq :: int
  min_inputfreq :: int
  max_inputfreq :: int
  min_m :: u8
  max_m :: u8
  min_n :: u8
  max_n :: u8

record pll_lims =
  reg :: u32
  vco1 :: vco
  vco2 :: vco
  max_log2p :: u8
  max_usable_log2p :: u8
  log2p_bias :: u8
  min_p :: u8
  max_p :: u8
  refclk :: int

definition no_vco :: vco where
  "no_vco = \<lparr>minfreq = 0, maxfreq = 0, min_inputfreq = 0, max_inputfreq = 0,
     min_m = 0, max_m = 0, min_n = 0, max_n = 0\<rparr>"

definition no_lims :: "u32 \<Rightarrow> pll_lims" where
  "no_lims r = \<lparr>reg = r, vco1 = no_vco, vco2 = no_vco, max_log2p = 0, max_usable_log2p = 0,
     log2p_bias = 0, min_p = 0, max_p = 0, refclk = 0\<rparr>"

definition NVPLL :: u32 where "NVPLL = 0x680500"
definition MPLL :: u32 where "MPLL = 0x680504"
definition VPLL :: u32 where "VPLL = 0x680508"
definition VPLL2 :: u32 where "VPLL2 = 0x680520"

lemmas pll_regs = NVPLL_def MPLL_def VPLL_def VPLL2_def

definition nv04_pll_mapping :: "(u8 \<times> u32) list" where
  "nv04_pll_mapping = [(0x01, NVPLL), (0x04, MPLL), (0x80, VPLL), (0x81, VPLL2)]"

definition nv40_pll_mapping :: "(u8 \<times> u32) list" where
  "nv40_pll_mapping = [(0x01, 0x4000), (0x04, 0x4020), (0x80, VPLL), (0x81, VPLL2)]"

definition nv50_pll_mapping :: "(u8 \<times> u32) list" where
  "nv50_pll_mapping = [(0x01, 0x4028), (0x02, 0x4020), (0x03, 0x4000), (0x04, 0x4008),
     (0x40, 0xe810), (0x41, 0xe818), (0x42, 0xe824), (0x80, 0x614100), (0x81, 0x614900)]"

definition nv84_pll_mapping :: "(u8 \<times> u32) list" where
  "nv84_pll_mapping = [(0x01, 0x4028), (0x02, 0x4020), (0x04, 0x4008), (0x05, 0x4030),
     (0x41, 0xe818), (0x80, 0x614100), (0x81, 0x614900)]"

definition mapped :: "(u8 \<times> u32) list \<Rightarrow> u8 \<Rightarrow> u32" where
  "mapped m t = (case map_of m t of None \<Rightarrow> 0 | Some r \<Rightarrow> r)"

definition get_pll_register :: "drv \<Rightarrow> u8 \<Rightarrow> u32 option" where
  "get_pll_register d t =
     (if card_type d < NV_40 then Some (mapped nv04_pll_mapping t)
      else if card_type d < NV_50 then Some (mapped nv40_pll_mapping t)
      else do {
        let plim = unat (pll_limit_tbl_ptr (bios d));
        version \<leftarrow> rom8 d plim;
        if version \<ge> 0x30 then do {
          headerlen \<leftarrow> rom8 d (plim + 1);
          recordlen \<leftarrow> rom8 d (plim + 2);
          n \<leftarrow> rom8 d (plim + 3);
          found \<leftarrow> scan (\<lambda>e. do { x \<leftarrow> rom8 d e; Some (x = t) }) (unat n) (plim + unat headerlen) (unat recordlen);
          case found of
            None \<Rightarrow> Some 0
          | Some e \<Rightarrow> rom32 d (e + 3) }
        else if chipset d = 0x50 then Some (mapped nv50_pll_mapping t)
        else Some (mapped nv84_pll_mapping t) })"

definition two_stage_chip :: "u8 \<Rightarrow> bool" where
  "two_stage_chip cv \<longleftrightarrow> cv = 0x30 \<or> cv = 0x31 \<or> cv = 0x35 \<or> cv = 0x36 \<or> 0x40 \<le> cv"

text \<open>The frequencies of a table are in MHz.\<close>

definition mhz :: "drv \<Rightarrow> nat \<Rightarrow> int option" where
  "mhz d n = do { x \<leftarrow> rom16 d n; Some (uint x * 1000) }"

definition sint32 :: "drv \<Rightarrow> nat \<Rightarrow> int option" where
  "sint32 d n = do { x \<leftarrow> rom32 d n; Some (sint x) }"

definition lims_v10 :: "drv \<Rightarrow> nat \<Rightarrow> pll_lims \<Rightarrow> pll_lims option" where
  "lims_v10 d rec lim = do {
     let cv = chip_version (bios d);
     minfreq1 \<leftarrow> sint32 d rec;
     maxfreq1 \<leftarrow> sint32 d (rec + 4);
     minfreq2 \<leftarrow> sint32 d (rec + 8);
     maxfreq2 \<leftarrow> sint32 d (rec + 12);
     min_in1 \<leftarrow> sint32 d (rec + 16);
     min_in2 \<leftarrow> sint32 d (rec + 20);
     Some (lim\<lparr>
       vco1 := \<lparr>minfreq = minfreq1, maxfreq = maxfreq1, min_inputfreq = min_in1, max_inputfreq = INT_MAX,
                min_m = 0x1, max_m = 0xd, min_n = (if cv = 0x36 then 0x5 else 0x1), max_n = 0xff\<rparr>,
       vco2 := \<lparr>minfreq = minfreq2, maxfreq = maxfreq2, min_inputfreq = min_in2, max_inputfreq = INT_MAX,
                min_m = 0x1, max_m = 0x4, min_n = 0x4,
                max_n = (if cv = 0x30 \<or> cv = 0x35 then 0x1f else 0x28)\<rparr>,
       max_log2p := 0x7, max_usable_log2p := 0x6\<rparr>) }"

text \<open>Version 0x20 and 0x21 records: the VCOs, the P divider and the reference clock.\<close>

definition vcos_v20 :: "drv \<Rightarrow> nat \<Rightarrow> pll_lims \<Rightarrow> pll_lims option" where
  "vcos_v20 d rec lim = do {
     minfreq1 \<leftarrow> mhz d (rec + 4);
     maxfreq1 \<leftarrow> mhz d (rec + 6);
     minfreq2 \<leftarrow> mhz d (rec + 8);
     maxfreq2 \<leftarrow> mhz d (rec + 10);
     min_in1 \<leftarrow> mhz d (rec + 12);
     min_in2 \<leftarrow> mhz d (rec + 14);
     max_in1 \<leftarrow> mhz d (rec + 16);
     max_in2 \<leftarrow> mhz d (rec + 18);
     min_n1 \<leftarrow> rom8 d (rec + 20);
     max_n1 \<leftarrow> rom8 d (rec + 21);
     min_m1 \<leftarrow> rom8 d (rec + 22);
     max_m1 \<leftarrow> rom8 d (rec + 23);
     min_n2 \<leftarrow> rom8 d (rec + 24);
     max_n2 \<leftarrow> rom8 d (rec + 25);
     min_m2 \<leftarrow> rom8 d (rec + 26);
     max_m2 \<leftarrow> rom8 d (rec + 27);
     Some (lim\<lparr>
       vco1 := \<lparr>minfreq = minfreq1, maxfreq = maxfreq1, min_inputfreq = min_in1, max_inputfreq = max_in1,
                min_m = min_m1, max_m = max_m1, min_n = min_n1, max_n = max_n1\<rparr>,
       vco2 := \<lparr>minfreq = minfreq2, maxfreq = maxfreq2, min_inputfreq = min_in2, max_inputfreq = max_in2,
                min_m = min_m2, max_m = max_m2, min_n = min_n2, max_n = max_n2\<rparr>\<rparr>) }"

text \<open>The reference clock of the C51, which its table does not give.\<close>

definition c51_refclk :: "drv \<Rightarrow> pll_lims \<Rightarrow> ist \<Rightarrow> (pll_lims \<times> ist) option" where
  "c51_refclk d lim s =
     (if chip_version (bios d) = 0x51 \<and> refclk lim = 0 then do {
        (sel_clk, s) \<leftarrow> bios_rd32 d 0x680524 s;
        if (reg lim = VPLL \<and> sel_clk AND 0x20 \<noteq> 0) \<or> (reg lim = VPLL2 \<and> sel_clk AND 0x80 \<noteq> 0) then do {
          (chip_id, s) \<leftarrow> bios_idxprt_rd d NV_CIO_CRX__COLOR 0x27 s;
          Some (lim\<lparr>refclk := (if chip_id < 0xa3 then 200000 else 25000)\<rparr>, s) }
        else Some (lim, s) }
      else Some (lim, s))"

definition lims_v20 :: "drv \<Rightarrow> nat \<Rightarrow> nat \<Rightarrow> nat \<Rightarrow> pll_lims \<Rightarrow> ist \<Rightarrow> (pll_lims \<times> ist) option" where
  "lims_v20 d headerlen recordlen n lim s = do {
     let cv = chip_version (bios d);
     let plloffs = unat (pll_limit_tbl_ptr (bios d) + of_nat headerlen);
     _ \<leftarrow> rom32 d plloffs;
     found \<leftarrow> scan (\<lambda>e. do { r \<leftarrow> rom32 d e; Some (r = reg lim) }) (n - 1) (plloffs + recordlen) recordlen;
     let rec = (case found of None \<Rightarrow> plloffs | Some e \<Rightarrow> e);
     lim \<leftarrow> vcos_v20 d rec lim;
     max_p2 \<leftarrow> rom8 d (rec + 29);
     bias \<leftarrow> rom8 d (rec + 30);
     let lim = lim\<lparr>max_log2p := max_p2, max_usable_log2p := (if cv < 0x60 then 0x6 else max_p2),
                   log2p_bias := bias\<rparr>;
     clk \<leftarrow> (if recordlen > 0x22 then sint32 d (rec + 31) else Some (refclk lim));
     _ \<leftarrow> (if recordlen > 0x23 then rom8 d (rec + 35) else Some 0);
     c51_refclk d (lim\<lparr>refclk := clk\<rparr>) s }"

definition find_reg :: "drv \<Rightarrow> nat \<Rightarrow> nat \<Rightarrow> nat \<Rightarrow> u32 \<Rightarrow> nat option option" where
  "find_reg d headerlen recordlen n r =
     scan (\<lambda>e. do { x \<leftarrow> rom32 d (e + 3); Some (x = r) }) n
       (unat (pll_limit_tbl_ptr (bios d)) + headerlen) recordlen"

definition lims_v30 :: "drv \<Rightarrow> nat \<Rightarrow> pll_lims \<Rightarrow> pll_lims option" where
  "lims_v30 d entry lim = do {
     ptr \<leftarrow> rom16 d (entry + 1);
     let rec = unat ptr;
     minfreq1 \<leftarrow> mhz d rec;
     maxfreq1 \<leftarrow> mhz d (rec + 2);
     minfreq2 \<leftarrow> mhz d (rec + 4);
     maxfreq2 \<leftarrow> mhz d (rec + 6);
     min_in1 \<leftarrow> mhz d (rec + 8);
     min_in2 \<leftarrow> mhz d (rec + 10);
     max_in1 \<leftarrow> mhz d (rec + 12);
     max_in2 \<leftarrow> mhz d (rec + 14);
     min_n1 \<leftarrow> rom8 d (rec + 16);
     max_n1 \<leftarrow> rom8 d (rec + 17);
     min_m1 \<leftarrow> rom8 d (rec + 18);
     max_m1 \<leftarrow> rom8 d (rec + 19);
     min_n2 \<leftarrow> rom8 d (rec + 20);
     max_n2 \<leftarrow> rom8 d (rec + 21);
     min_m2 \<leftarrow> rom8 d (rec + 22);
     max_m2 \<leftarrow> rom8 d (rec + 23);
     max_p2 \<leftarrow> rom8 d (rec + 25);
     bias \<leftarrow> rom8 d (rec + 27);
     clk \<leftarrow> sint32 d (rec + 28);
     Some (lim\<lparr>
       vco1 := \<lparr>minfreq = minfreq1, maxfreq = maxfreq1, min_inputfreq = min_in1, max_inputfreq = max_in1,
                min_m = min_m1, max_m = max_m1, min_n = min_n1, max_n = max_n1\<rparr>,
       vco2 := \<lparr>minfreq = minfreq2, maxfreq = maxfreq2, min_inputfreq = min_in2, max_inputfreq = max_in2,
                min_m = min_m2, max_m = max_m2, min_n = min_n2, max_n = max_n2\<rparr>,
       max_log2p := max_p2, max_usable_log2p := max_p2, log2p_bias := bias, refclk := clk\<rparr>) }"

definition lims_v40 :: "drv \<Rightarrow> nat \<Rightarrow> pll_lims \<Rightarrow> pll_lims option" where
  "lims_v40 d entry lim = do {
     ptr \<leftarrow> rom16 d (entry + 1);
     let rec = unat ptr;
     minfreq1 \<leftarrow> mhz d rec;
     maxfreq1 \<leftarrow> mhz d (rec + 2);
     min_in1 \<leftarrow> mhz d (rec + 4);
     max_in1 \<leftarrow> mhz d (rec + 6);
     min_m1 \<leftarrow> rom8 d (rec + 8);
     max_m1 \<leftarrow> rom8 d (rec + 9);
     min_n1 \<leftarrow> rom8 d (rec + 10);
     max_n1 \<leftarrow> rom8 d (rec + 11);
     min_p1 \<leftarrow> rom8 d (rec + 12);
     max_p1 \<leftarrow> rom8 d (rec + 13);
     kind \<leftarrow> rom8 d entry;
     Some (lim\<lparr>
       vco1 := \<lparr>minfreq = minfreq1, maxfreq = maxfreq1, min_inputfreq = min_in1, max_inputfreq = max_in1,
                min_m = min_m1, max_m = max_m1, min_n = min_n1, max_n = max_n1\<rparr>,
       min_p := min_p1, max_p := max_p1,
       refclk := (if kind AND 0xf0 = 0x80 then 27000 else 100000)\<rparr>) }"

text \<open>The limits of a VBIOS that gives none, and the crystal that the straps say is there.\<close>

definition lims_default :: "drv \<Rightarrow> u32 \<Rightarrow> pll_lims \<Rightarrow> pll_lims" where
  "lims_default d straps lim =
     (if maxfreq (vco1 lim) = 0 then
        (let cv = chip_version (bios d);
             p = (if cv < 0x17 \<or> cv = 0x1a \<or> cv = 0x20 then 4 else 5)
         in lim\<lparr>
           vco1 := \<lparr>minfreq = sint (fminvco (bios d)), maxfreq = sint (fmaxvco (bios d)),
                    min_inputfreq = 0, max_inputfreq = INT_MAX,
                    min_m = (if cv < 0x11 then (if straps = 0 then 0x7 else 0x8) else 0x1),
                    max_m = (if straps = 0 then 0xd else 0xe), min_n = 0x1, max_n = 0xff\<rparr>,
           max_log2p := p, max_usable_log2p := p\<rparr>)
      else lim)"

definition crystal :: "u32 \<Rightarrow> pll_lims \<Rightarrow> pll_lims" where
  "crystal straps lim =
     (if refclk lim \<noteq> 0 then lim
      else lim\<lparr>refclk :=
        (if straps = 0 then 13500
         else if straps = 0x40 then 14318
         else if straps = 0x400000 then 27000
         else if straps = 0x400040 then 25000
         else 0)\<rparr>)"

definition crystal_strap_mask :: "u8 \<Rightarrow> u32" where
  "crystal_strap_mask cv =
     (if cv > 0x10 \<and> cv \<noteq> 0x15 \<and> cv \<noteq> 0x1a \<and> cv \<noteq> 0x20 then 0x400040 else 0x40)"

definition lims_versioned ::
  "drv \<Rightarrow> u8 \<Rightarrow> nat \<Rightarrow> nat \<Rightarrow> nat \<Rightarrow> pll_lims \<Rightarrow> ist \<Rightarrow> (pll_lims res \<times> ist) option" where
  "lims_versioned d ver headerlen recordlen n lim s =
     (if ver = 0x10 \<or> ver = 0x11 then do {
        lim \<leftarrow> lims_v10 d (unat (pll_limit_tbl_ptr (bios d)) + headerlen) lim;
        Some (Inr lim, s) }
      else if ver = 0x20 \<or> ver = 0x21 then do {
        (lim, s) \<leftarrow> lims_v20 d headerlen recordlen n lim s;
        Some (Inr lim, s) }
      else if ver \<noteq> 0 then do {
        found \<leftarrow> find_reg d headerlen recordlen n (reg lim);
        case found of
          None \<Rightarrow> Some (Inl ENOENT, s)
        | Some entry \<Rightarrow> do {
            lim \<leftarrow> (if ver = 0x30 then lims_v30 d entry lim else lims_v40 d entry lim);
            Some (Inr lim, s) } }
      else Some (Inr lim, s))"

definition get_pll_limits :: "drv \<Rightarrow> u32 \<Rightarrow> ist \<Rightarrow> (pll_lims res \<times> ist) option" where
  "get_pll_limits d limit_match s = (
     let tbl = pll_limit_tbl_ptr (bios d); cv = chip_version (bios d) in
     if tbl = 0 \<and> two_stage_chip cv then Some (Inl EINVAL, s)
     else do {
       ver \<leftarrow> (if tbl = 0 then Some 0 else rom8 d (unat tbl));
       (boot0, s) \<leftarrow> nv_rd32 d 0x101000 s;
       let straps = boot0 AND crystal_strap_mask cv;
       if ver \<notin> {0, 0x10, 0x11, 0x20, 0x21, 0x30, 0x40} then Some (Inl ENOSYS, s)
       else do {
         (headerlen, recordlen, n) \<leftarrow>
           (if ver = 0 then Some (0, 0, 0)
            else if ver = 0x10 \<or> ver = 0x11 then Some (1, 0x18, 1)
            else do {
              h \<leftarrow> rom8 d (unat tbl + 1);
              r \<leftarrow> rom8 d (unat tbl + 2);
              e \<leftarrow> rom8 d (unat tbl + 3);
              Some (unat h, unat r, unat e) });
         r \<leftarrow> (if limit_match > 0xff then Some limit_match else get_pll_register d (ucast limit_match));
         if limit_match \<le> 0xff \<and> r = 0 then Some (Inl ENOENT, s)
         else do {
           (result, s) \<leftarrow> lims_versioned d ver headerlen recordlen n (no_lims r) s;
           case result of
             Inl e \<Rightarrow> Some (Inl e, s)
           | Inr lim \<Rightarrow> Some (Inr (crystal straps (lims_default d straps lim)), s) } } })"

end
