(* ===== verification/PllCalc.thy ===== *)
theory PllCalc
  imports NvPll
begin

section \<open>PLL coefficients\<close>

text \<open>
  \<open>nouveau_calc.c\<close>: the exhaustive search for the multiplier, divider and post divider of a
  frequency. The loops over M, N and P are recursions over the list of the values the loop
  variable takes; their flag tells an early \<open>return bestclk\<close> (True) from a loop that ended or
  was broken out of (False).
\<close>

record best =
  bestdelta :: int
  bestclk :: int
  bestpv :: pll_vals

definition no_best :: "pll_vals \<Rightarrow> best" where
  "no_best pv = \<lparr>bestdelta = INT_MAX, bestclk = 0, bestpv = pv\<rparr>"

subsection \<open>One stage\<close>

text \<open>\<open>((N * crystal + P/2) / P + M/2) / M\<close>, the frequency a candidate gives.\<close>

definition single_clk :: "int \<Rightarrow> int \<Rightarrow> int \<Rightarrow> int \<Rightarrow> int option" where
  "single_clk xtal N P M = do {
     x \<leftarrow> i32 (N * xtal);
     x \<leftarrow> i32 (x + P sdiv 2);
     x \<leftarrow> cdiv x P;
     x \<leftarrow> i32 (x + M sdiv 2);
     cdiv x M }"

definition improve :: "int \<Rightarrow> int \<Rightarrow> (pll_vals \<Rightarrow> pll_vals) \<Rightarrow> best \<Rightarrow> (bool \<times> best) option" where
  "improve clk calcclk upd b = do {
     diff \<leftarrow> i32 (calcclk - clk);
     delta \<leftarrow> i32 \<bar>diff\<bar>;
     if delta < bestdelta b then
       Some (delta = 0, \<lparr>bestdelta = delta, bestclk = calcclk, bestpv = upd (bestpv b)\<rparr>)
     else Some (False, b) }"

primrec single_M_loop ::
  "pll_lims \<Rightarrow> int \<Rightarrow> int \<Rightarrow> int \<Rightarrow> int \<Rightarrow> int list \<Rightarrow> best \<Rightarrow> (bool \<times> best) option" where
  "single_M_loop lim clk clkP P thisP [] b = Some (False, b)"
| "single_M_loop lim clk clkP P thisP (M # Ms) b = do {
     input \<leftarrow> cdiv (refclk lim) M;
     if input < min_inputfreq (vco1 lim) then Some (True, b)
     else if input > max_inputfreq (vco1 lim) then single_M_loop lim clk clkP P thisP Ms b
     else do {
       x \<leftarrow> i32 (clkP * M);
       x \<leftarrow> i32 (x + refclk lim sdiv 2);
       N \<leftarrow> cdiv x (refclk lim);
       if N < uint (min_n (vco1 lim)) then single_M_loop lim clk clkP P thisP Ms b
       else if N > uint (max_n (vco1 lim)) then Some (False, b)
       else do {
         calcclk \<leftarrow> single_clk (refclk lim) N P M;
         (stop, b) \<leftarrow> improve clk calcclk
            (\<lambda>pv. pv\<lparr>N1 := word_of_int N, M1 := word_of_int M, log2P := thisP\<rparr>) b;
         if stop then Some (True, b) else single_M_loop lim clk clkP P thisP Ms b } } }"

definition divider :: "pll_lims \<Rightarrow> int \<Rightarrow> int option" where
  "divider lim p = (if max_p lim \<noteq> 0 then Some p else if p < 32 then i32 (2 ^ nat p) else None)"

primrec single_P_loop ::
  "pll_lims \<Rightarrow> int \<Rightarrow> int \<Rightarrow> int \<Rightarrow> int list \<Rightarrow> int list \<Rightarrow> best \<Rightarrow> (bool \<times> best) option" where
  "single_P_loop lim clk minvco maxvco Ms [] b = Some (False, b)"
| "single_P_loop lim clk minvco maxvco Ms (thisP # Ps) b = do {
     P \<leftarrow> divider lim thisP;
     clkP \<leftarrow> i32 (clk * P);
     if clkP < minvco then single_P_loop lim clk minvco maxvco Ms Ps b
     else if clkP > maxvco then Some (True, b)
     else do {
       (stop, b) \<leftarrow> single_M_loop lim clk clkP P thisP Ms b;
       if stop then Some (True, b) else single_P_loop lim clk minvco maxvco Ms Ps b } }"

text \<open>The largest M, lower on old chips for high clocks.\<close>

definition single_maxM :: "drv \<Rightarrow> pll_lims \<Rightarrow> int \<Rightarrow> int" where
  "single_maxM d lim clk = (
     let cv = chip_version (bios d); m = uint (max_m (vco1 lim)) in
     if card_type d < NV_50 then
       if cv < 0x17 \<or> cv = 0x1a \<or> cv = 0x20 then
         (if clk > 340000 then 2 else if clk > 250000 then 6 else m)
       else if cv < 0x40 then
         (if clk > 340000 then 2 else if clk > 200000 then 4 else if clk > 150000 then 6 else m)
       else m
     else m)"

definition single_minP :: "pll_lims \<Rightarrow> int" where
  "single_minP lim = (if max_p lim \<noteq> 0 then uint (min_p lim) else 0)"

definition single_maxP :: "pll_lims \<Rightarrow> int" where
  "single_maxP lim = (if max_p lim \<noteq> 0 then uint (max_p lim) else uint (max_usable_log2p lim))"

text \<open>The range of the VCO, moved when the clock would be out of it.\<close>

definition single_range :: "pll_lims \<Rightarrow> int \<Rightarrow> (int \<times> int) option" where
  "single_range lim clk = do {
     P \<leftarrow> divider lim (single_maxP lim);
     clkP \<leftarrow> i32 (clk * P);
     (minvco, maxvco) \<leftarrow>
       (if clkP < minfreq (vco1 lim) then do {
          lo \<leftarrow> i32 (clk * single_maxP lim);
          hi \<leftarrow> i32 (lo * 2);
          Some (lo, hi) }
        else Some (minfreq (vco1 lim), maxfreq (vco1 lim)));
     up \<leftarrow> i32 (clk + clk sdiv 200);
     Some (minvco, if up > maxvco then up else maxvco) }"

definition getMNP_single :: "drv \<Rightarrow> pll_lims \<Rightarrow> int \<Rightarrow> pll_vals \<Rightarrow> (int \<times> pll_vals) option" where
  "getMNP_single d lim clk pv = do {
     (minvco, maxvco) \<leftarrow> single_range lim clk;
     (_, b) \<leftarrow> single_P_loop lim clk minvco maxvco
       [uint (min_m (vco1 lim)) .. single_maxM d lim clk]
       [single_minP lim .. single_maxP lim] (no_best pv);
     Some (bestclk b, bestpv b) }"

subsection \<open>Two stages\<close>

text \<open>What is fixed while the loops run.\<close>

record double_env =
  e_lim :: pll_lims
  e_chip :: u8
  e_clk :: int
  e_clkP :: int
  e_log2P :: int
  e_maxvco2 :: int

definition fixedgain2 :: "pll_lims \<Rightarrow> bool" where
  "fixedgain2 lim \<longleftrightarrow> min_m (vco2 lim) = max_m (vco2 lim) \<and> min_n (vco2 lim) = max_n (vco2 lim)"

text \<open>The frequency of the second VCO: a value, or what the loop over M2 does instead.\<close>

datatype stage2 = Use int | Continue | Break

definition second_vco :: "double_env \<Rightarrow> int \<Rightarrow> int \<Rightarrow> int \<Rightarrow> stage2 option" where
  "second_vco e calcclk1 N2' M2' =
     (if fixedgain2 (e_lim e) then Some (Use calcclk1)
      else do {
        gain \<leftarrow> cdiv N2' M2';
        if e_chip e < 0x60 \<and> (gain < 4 \<or> gain > 10) then Some Continue
        else do {
          x \<leftarrow> i32 (calcclk1 * N2');
          calcclk2 \<leftarrow> cdiv x M2';
          if calcclk2 < minfreq (vco2 (e_lim e)) then Some Break
          else if calcclk2 > e_maxvco2 e then Some Continue
          else Some (Use calcclk2) } })"

primrec double_M2_loop :: "double_env \<Rightarrow> int \<Rightarrow> int \<Rightarrow> int \<Rightarrow> int list \<Rightarrow> best \<Rightarrow> (bool \<times> best) option" where
  "double_M2_loop e calcclk1 N1' M1' [] b = Some (False, b)"
| "double_M2_loop e calcclk1 N1' M1' (M2' # Ms) b = do {
     input \<leftarrow> cdiv calcclk1 M2';
     if input < min_inputfreq (vco2 (e_lim e)) then Some (False, b)
     else if input > max_inputfreq (vco2 (e_lim e)) then double_M2_loop e calcclk1 N1' M1' Ms b
     else do {
       x \<leftarrow> i32 (e_clkP e * M2');
       x \<leftarrow> i32 (x + calcclk1 sdiv 2);
       N2' \<leftarrow> cdiv x calcclk1;
       if N2' < uint (min_n (vco2 (e_lim e))) then double_M2_loop e calcclk1 N1' M1' Ms b
       else if N2' > uint (max_n (vco2 (e_lim e))) then Some (False, b)
       else do {
         st \<leftarrow> second_vco e calcclk1 N2' M2';
         case st of
           Continue \<Rightarrow> double_M2_loop e calcclk1 N1' M1' Ms b
         | Break \<Rightarrow> Some (False, b)
         | Use calcclk2 \<Rightarrow> do {
             (stop, b) \<leftarrow> improve (e_clk e) (calcclk2 div 2 ^ nat (e_log2P e))
               (\<lambda>pv. \<lparr>N1 = word_of_int N1', M1 = word_of_int M1', N2 = word_of_int N2',
                      M2 = word_of_int M2', log2P = e_log2P e\<rparr>) b;
             if stop then Some (True, b) else double_M2_loop e calcclk1 N1' M1' Ms b } } } }"

definition M2_range :: "pll_lims \<Rightarrow> int list" where
  "M2_range lim = [uint (min_m (vco2 lim)) .. uint (max_m (vco2 lim))]"

primrec double_N1_loop :: "double_env \<Rightarrow> int \<Rightarrow> int list \<Rightarrow> best \<Rightarrow> (bool \<times> best) option" where
  "double_N1_loop e M1' [] b = Some (False, b)"
| "double_N1_loop e M1' (N1' # Ns) b = do {
     x \<leftarrow> i32 (refclk (e_lim e) * N1');
     calcclk1 \<leftarrow> cdiv x M1';
     if calcclk1 < minfreq (vco1 (e_lim e)) then double_N1_loop e M1' Ns b
     else if calcclk1 > maxfreq (vco1 (e_lim e)) then Some (False, b)
     else do {
       (stop, b) \<leftarrow> double_M2_loop e calcclk1 N1' M1' (M2_range (e_lim e)) b;
       if stop then Some (True, b) else double_N1_loop e M1' Ns b } }"

definition N1_range :: "pll_lims \<Rightarrow> int list" where
  "N1_range lim = [uint (min_n (vco1 lim)) .. uint (max_n (vco1 lim))]"

primrec double_M1_loop :: "double_env \<Rightarrow> int list \<Rightarrow> best \<Rightarrow> (bool \<times> best) option" where
  "double_M1_loop e [] b = Some (False, b)"
| "double_M1_loop e (M1' # Ms) b = do {
     input \<leftarrow> cdiv (refclk (e_lim e)) M1';
     if input < min_inputfreq (vco1 (e_lim e)) then Some (True, b)
     else if input > max_inputfreq (vco1 (e_lim e)) then double_M1_loop e Ms b
     else do {
       (stop, b) \<leftarrow> double_N1_loop e M1' (N1_range (e_lim e)) b;
       if stop then Some (True, b) else double_M1_loop e Ms b } }"

text \<open>The post divider: the first that brings the clock above half the range of the second VCO.\<close>

primrec pick_log2P :: "int \<Rightarrow> int \<Rightarrow> nat \<Rightarrow> nat \<Rightarrow> nat option" where
  "pick_log2P clk vco2' 0 p = Some p"
| "pick_log2P clk vco2' (Suc n) p =
     (if clk = 0 then Some p
      else if p \<ge> 32 then None
      else if clk \<le> vco2' div 2 ^ p then pick_log2P clk vco2' n (Suc p)
      else Some p)"

definition getMNP_double :: "drv \<Rightarrow> pll_lims \<Rightarrow> int \<Rightarrow> pll_vals \<Rightarrow> (int \<times> pll_vals) option" where
  "getMNP_double d lim clk pv = do {
     let maxvco2 = maxfreq (vco2 lim);
     p \<leftarrow> pick_log2P clk ((maxvco2 - maxvco2 sdiv 200) sdiv 2) (unat (max_usable_log2p lim)) 0;
     clkP \<leftarrow> i32 (clk * 2 ^ p);
     up \<leftarrow> i32 (clk + clk sdiv 200);
     let e = \<lparr>e_lim = lim, e_chip = chip_version (bios d), e_clk = clk, e_clkP = clkP, e_log2P = int p,
              e_maxvco2 = (if maxvco2 < up then up else maxvco2)\<rparr>;
     (_, b) \<leftarrow> double_M1_loop e [uint (min_m (vco1 lim)) .. uint (max_m (vco1 lim))] (no_best pv);
     Some (bestclk b, bestpv b) }"

definition nouveau_calc_pll_mnp :: "drv \<Rightarrow> pll_lims \<Rightarrow> int \<Rightarrow> pll_vals \<Rightarrow> (int \<times> pll_vals) option" where
  "nouveau_calc_pll_mnp d lim clk pv =
     (if maxfreq (vco2 lim) = 0 then getMNP_single d lim clk pv else getMNP_double d lim clk pv)"

end
