(* ===== verification/PllSet.thy ===== *)
theory PllSet
  imports PllCalc
begin

section \<open>Programming a PLL\<close>

text \<open>
  The write sequences of \<open>nouveau_hw.c\<close> for single stage PLLs and for the high and low registers
  of two stage PLLs, \<open>nv50_pll_set\<close>, and \<open>setPLL\<close>, which the script opcodes call.
\<close>

definition NM1 :: "pll_vals \<Rightarrow> u32" where
  "NM1 pv = push_bit 8 (ucast (N1 pv)) OR ucast (M1 pv)"

definition NM2 :: "pll_vals \<Rightarrow> u32" where
  "NM2 pv = push_bit 8 (ucast (N2 pv)) OR ucast (M2 pv)"

definition log2P_bits :: "pll_vals \<Rightarrow> u32" where
  "log2P_bits pv = word_of_int (log2P pv * 0x10000)"

definition single_stage :: "pll_vals \<Rightarrow> bool" where
  "single_stage pv \<longleftrightarrow> NM2 pv = 0 \<or> N2 pv = M2 pv"

text \<open>The field of \<open>POWERCTRL_1\<close> a PLL has, if it has one.\<close>

definition powerctrl_1_shift :: "u8 \<Rightarrow> u32 \<Rightarrow> int" where
  "powerctrl_1_shift cv r =
     (if cv < 0x17 \<or> cv = 0x1a \<or> cv = 0x20 then - 4
      else
        (let shift = (if r = VPLL2 then 12 else if r = VPLL then 8 else if r = MPLL then 4
                      else if r = NVPLL then 0 else - 4)
         in if shift > 4 \<and> (cv < 0x32 \<or> cv = 0x35 \<or> cv = 0x36 \<or> 0x40 \<le> cv) then - 4 else shift))"

definition powerctrl_begin :: "drv \<Rightarrow> int \<Rightarrow> ist \<Rightarrow> (u32 \<times> ist) option" where
  "powerctrl_begin d shift s =
     (if shift \<ge> 0 then do {
        (saved, s) \<leftarrow> nv_rd32 d 0x1584 s;
        s \<leftarrow> nv_wr32 d 0x1584 ((saved AND NOT (push_bit (nat shift) 0xf)) OR push_bit (nat shift) 1) s;
        Some (saved, s) }
      else Some (0, s))"

definition powerctrl_end :: "drv \<Rightarrow> int \<Rightarrow> u32 \<Rightarrow> ist \<Rightarrow> ist option" where
  "powerctrl_end d shift saved s = (if shift \<ge> 0 then nv_wr32 d 0x1584 saved s else Some s)"

definition setPLL_single :: "drv \<Rightarrow> u32 \<Rightarrow> pll_vals \<Rightarrow> ist \<Rightarrow> ist option" where
  "setPLL_single d r pv s = do {
     let cv = chip_version (bios d);
     (oldpll, s) \<leftarrow> NVReadRAMDAC d 0 r s;
     let oldN = unat (drop_bit 8 oldpll AND 0xff);
     let oldM = unat (oldpll AND 0xff);
     let pll = (oldpll AND 0xfff80000) OR log2P_bits pv OR NM1 pv;
     let shift = powerctrl_1_shift cv r;
     if oldpll = pll then Some s
     else do {
       (saved, s) \<leftarrow> powerctrl_begin d shift s;
       s \<leftarrow> (if oldM \<noteq> 0 \<and> M1 pv \<noteq> 0 \<and> oldN div oldM < unat (N1 pv) div unat (M1 pv)
              then NVWriteRAMDAC d 0 r (log2P_bits pv OR (oldpll AND 0xffff)) s
              else NVWriteRAMDAC d 0 r ((oldpll AND 0xffff0000) OR NM1 pv) s);
       s \<leftarrow> (if cv < 0x17 \<and> cv \<noteq> 0x11 then tell d (Msleep 64) s else Some s);
       (_, s) \<leftarrow> NVReadRAMDAC d 0 r s;
       s \<leftarrow> NVWriteRAMDAC d 0 r pll s;
       powerctrl_end d shift saved s } }"

definition new_ramdac580 :: "u32 \<Rightarrow> bool \<Rightarrow> u32 \<Rightarrow> u32" where
  "new_ramdac580 r ss ramdac580 = (
     let active = (if r = VPLL then 0x100 else 0x10000000) in
     if ss then ramdac580 OR active else ramdac580 AND NOT active)"

text \<open>The two words the high registers should hold, before the chip specific bits.\<close>

definition high_pll1 :: "bool \<Rightarrow> u32 \<Rightarrow> pll_vals \<Rightarrow> u32" where
  "high_pll1 nv3035 oldpll1 pv = (
     let pll1 = (oldpll1 AND 0xfff80000) OR log2P_bits pv OR NM1 pv in
     if nv3035 then
       (pll1 AND 0xfcc7ffff) OR push_bit 21 (ucast (N2 pv AND 0x18)) OR push_bit 19 (ucast (N2 pv AND 7))
         OR 0x80 OR push_bit 4 (ucast (M2 pv AND 7))
     else pll1)"

definition high_pll2 :: "bool \<Rightarrow> u32 \<Rightarrow> pll_vals \<Rightarrow> u32" where
  "high_pll2 nv3035 oldpll2 pv =
     (if nv3035 then 0 else (oldpll2 AND 0x7fff0000) OR 0x80000000 OR NM2 pv)"

definition shift_c040 :: "u32 \<Rightarrow> nat" where
  "shift_c040 r = (if r = MPLL then 22 else if r = NVPLL then 20 else if r = VPLL2 then 18
     else if r = VPLL then 16 else 14)"

definition high_write :: "drv \<Rightarrow> u32 \<Rightarrow> u32 \<Rightarrow> u32 \<Rightarrow> u32 \<Rightarrow> u32 \<Rightarrow> u32 \<Rightarrow> ist \<Rightarrow> ist option" where
  "high_write d reg1 reg2 pll1 pll2 oldramdac580 ramdac580 s = do {
     let cv = chip_version (bios d);
     let shift = powerctrl_1_shift cv reg1;
     (saved, s) \<leftarrow> powerctrl_begin d shift s;
     (savedc040, s) \<leftarrow>
       (if cv \<ge> 0x40 then do {
          (c040, s) \<leftarrow> nv_rd32 d 0xc040 s;
          s \<leftarrow> (if shift_c040 reg1 \<noteq> 14
                 then nv_wr32 d 0xc040 (c040 AND NOT (push_bit (shift_c040 reg1) 3)) s else Some s);
          Some (c040, s) }
        else Some (0, s));
     s \<leftarrow> (if oldramdac580 \<noteq> ramdac580 then NVWriteRAMDAC d 0 0x680580 ramdac580 s else Some s);
     s \<leftarrow> (if cv = 0x30 \<or> cv = 0x35 then Some s else NVWriteRAMDAC d 0 reg2 pll2 s);
     s \<leftarrow> NVWriteRAMDAC d 0 reg1 pll1 s;
     s \<leftarrow> powerctrl_end d shift saved s;
     if cv \<ge> 0x40 then nv_wr32 d 0xc040 savedc040 s else Some s }"

definition setPLL_double_highregs :: "drv \<Rightarrow> u32 \<Rightarrow> pll_vals \<Rightarrow> ist \<Rightarrow> ist option" where
  "setPLL_double_highregs d reg1 pv s = do {
     let cv = chip_version (bios d);
     let nv3035 = (cv = 0x30 \<or> cv = 0x35);
     let reg2 = reg1 + (if reg1 = VPLL2 then 0x5c else 0x70);
     (oldpll1, s) \<leftarrow> NVReadRAMDAC d 0 reg1 s;
     (oldpll2, s) \<leftarrow> (if nv3035 then Some (0, s) else NVReadRAMDAC d 0 reg2 s);
     let pll1 = high_pll1 nv3035 oldpll1 pv;
     let pll2 = high_pll2 nv3035 oldpll2 pv;
     let ss = single_stage pv;
     let vpll = (cv > 0x40 \<and> reg1 \<ge> VPLL);
     (oldramdac580, s) \<leftarrow> (if vpll then NVReadRAMDAC d 0 0x680580 s else Some (0, s));
     let ramdac580 = (if vpll then new_ramdac580 reg1 ss oldramdac580 else 0);
     let oldpll1 = (if vpll \<and> oldramdac580 \<noteq> ramdac580 then NOT 0 else oldpll1);
     let pll2 = (if vpll \<and> ss then pll2 OR 0x011f else pll2);
     let pll1 = (if cv > 0x70 then (pll1 AND 0x7fffffff) OR (if ss then 0x40000000 else 0xc0000000) else pll1);
     if oldpll1 = pll1 \<and> oldpll2 = pll2 then Some s
     else high_write d reg1 reg2 pll1 pll2 oldramdac580 ramdac580 s }"

subsection \<open>Low registers\<close>

text \<open>The memory PLL has bits of its own, and saves register 0x4600.\<close>

definition low_mpll :: "drv \<Rightarrow> u32 \<Rightarrow> pll_vals \<Rightarrow> u32 \<Rightarrow> ist \<Rightarrow> ((u32 \<times> u32) option \<times> ist) option" where
  "low_mpll d Preg pv Pval s = do {
     (lim, s) \<leftarrow> get_pll_limits d Preg s;
     case lim of
       Inl _ \<Rightarrow> Some (None, s)
     | Inr lim \<Rightarrow> do {
         let p = word_of_int (log2P pv) + log2p_bias lim;
         let Pval2 = (if p > max_log2p lim then max_log2p lim else p);
         let Pval = Pval OR 0x10000000 OR push_bit 20 (ucast Pval2);
         (saved4600, s) \<leftarrow> nv_rd32 d 0x4600 s;
         s \<leftarrow> nv_wr32 d 0x4600 (saved4600 OR 0x80000000) s;
         Some (Some (Pval, saved4600), s) } }"

definition maskc040 :: "u32 \<Rightarrow> u32" where
  "maskc040 Preg = (if Preg = 0x4058 then NOT 0x0c000000 else if Preg = 0x4000 then NOT 0x333
     else NOT 0xc000)"

definition low_write :: "drv \<Rightarrow> u32 \<Rightarrow> u32 \<Rightarrow> u32 \<Rightarrow> u32 \<Rightarrow> u32 \<Rightarrow> ist \<Rightarrow> ist option" where
  "low_write d NMNMreg NMNM oldPval Pval saved4600 s = do {
     let Preg = NMNMreg - 4;
     let mpll = (Preg = 0x4020);
     s \<leftarrow> nv_wr32 d Preg (oldPval OR 0x10000000) s;
     s \<leftarrow> nv_wr32 d Preg (Pval AND NOT 0x40000000) s;
     let Pval = (if mpll then Pval OR 0x00800000 else Pval);
     s \<leftarrow> (if mpll then do {
              s \<leftarrow> nv_wr32 d 0x4020 (Pval AND NOT 0xc0000000) s;
              nv_wr32 d 0x4038 (Pval AND NOT 0xc0000000) s }
            else Some s);
     (savedc040, s) \<leftarrow> nv_rd32 d 0xc040 s;
     s \<leftarrow> nv_wr32 d 0xc040 (savedc040 AND maskc040 Preg) s;
     s \<leftarrow> nv_wr32 d NMNMreg NMNM s;
     s \<leftarrow> (if NMNMreg = 0x4024 then nv_wr32 d 0x403c NMNM s else Some s);
     s \<leftarrow> nv_wr32 d Preg Pval s;
     let Pval = (if mpll then Pval AND NOT 0x00800000 else Pval);
     s \<leftarrow> (if mpll then do {
              s \<leftarrow> nv_wr32 d 0x4020 Pval s;
              s \<leftarrow> nv_wr32 d 0x4038 Pval s;
              nv_wr32 d 0x4600 saved4600 s }
            else Some s);
     s \<leftarrow> nv_wr32 d 0xc040 savedc040 s;
     if mpll then do {
       s \<leftarrow> nv_wr32 d 0x4020 (Pval AND NOT 0x10000000) s;
       nv_wr32 d 0x4038 (Pval AND NOT 0x10000000) s }
     else Some s }"

definition setPLL_double_lowregs :: "drv \<Rightarrow> u32 \<Rightarrow> pll_vals \<Rightarrow> ist \<Rightarrow> ist option" where
  "setPLL_double_lowregs d NMNMreg pv s = do {
     let Preg = NMNMreg - 4;
     let mpll = (Preg = 0x4020);
     (oldPval, s) \<leftarrow> nv_rd32 d Preg s;
     let NMNM = push_bit 16 (NM2 pv) OR NM1 pv;
     let Pval = (oldPval AND (if mpll then NOT 0x110000 else NOT 0x10000)) OR 0xc0000000 OR log2P_bits pv;
     (old, s) \<leftarrow> nv_rd32 d NMNMreg s;
     if old = NMNM \<and> oldPval AND 0xc0070000 = Pval then Some s
     else do {
       (extra, s) \<leftarrow> (if mpll then low_mpll d Preg pv Pval s else Some (Some (Pval, 0), s));
       case extra of
         None \<Rightarrow> Some s
       | Some (Pval, saved4600) \<Rightarrow>
           low_write d NMNMreg NMNM oldPval
             (if single_stage pv then Pval OR (if mpll then 0x1000 else 0x100) else Pval) saved4600 s } }"

definition nouveau_hw_setpll :: "drv \<Rightarrow> u32 \<Rightarrow> pll_vals \<Rightarrow> ist \<Rightarrow> ist option" where
  "nouveau_hw_setpll d reg1 pv s =
     (if two_stage_chip (chip_version (bios d)) then
        (if reg1 > 0x405c then setPLL_double_highregs d reg1 pv s
         else setPLL_double_lowregs d reg1 pv s)
      else setPLL_single d reg1 pv s)"

subsection \<open>What the opcodes call\<close>

definition nv50_pll_set :: "drv \<Rightarrow> u32 \<Rightarrow> u32 \<Rightarrow> ist \<Rightarrow> (unit res \<times> ist) option" where
  "nv50_pll_set d r clk s = do {
     (reg0, s) \<leftarrow> nv_rd32 d r s;
     (reg1, s) \<leftarrow> nv_rd32 d (r + 4) s;
     (lim, s) \<leftarrow> get_pll_limits d r s;
     case lim of
       Inl e \<Rightarrow> Some (Inl e, s)
     | Inr lim \<Rightarrow> do {
         (clk, pv) \<leftarrow> nouveau_calc_pll_mnp d lim (sint clk) (stack_pv d);
         if clk = 0 then Some (Inl ERANGE, s)
         else if execute (bios d) then do {
           s \<leftarrow> nv_wr32 d (r + 4) ((reg1 AND 0xffff0000) OR NM1 pv) s;
           s \<leftarrow> nv_wr32 d r ((reg0 AND 0xfff8ffff) OR log2P_bits pv) s;
           Some (Inr (), s) }
         else Some (Inr (), s) } }"

definition setPLL :: "drv \<Rightarrow> u32 \<Rightarrow> u32 \<Rightarrow> ist \<Rightarrow> (unit res \<times> ist) option" where
  "setPLL d r clk s =
     (if card_type d \<ge> NV_50 then nv50_pll_set d r clk s
      else do {
        (lim, s) \<leftarrow> get_pll_limits d (if r > 0x405c then r else r - 4) s;
        case lim of
          Inl e \<Rightarrow> Some (Inl e, s)
        | Inr lim \<Rightarrow> do {
            (clk, pv) \<leftarrow> nouveau_calc_pll_mnp d lim (sint clk) (stack_pv d);
            if clk = 0 then Some (Inl ERANGE, s)
            else if execute (bios d) then do {
              s \<leftarrow> nouveau_hw_setpll d r pv s;
              Some (Inr (), s) }
            else Some (Inr (), s) } })"

end
