(* ===== verification/NvDcb.thy ===== *)
theory NvDcb
  imports PllSet
begin

section \<open>Display configuration: I2C buses, DisplayPort, GPIO\<close>

text \<open>
  What the opcodes reach through the display configuration block of the VBIOS:
  \<open>dcb_entry_idx_from_crtchead\<close>, \<open>read_dcb_i2c_entry\<close>, \<open>init_i2c_device_find\<close> and
  \<open>get_tmds_index_reg\<close> of \<open>nouveau_bios.c\<close> with \<open>nouveau_i2c_init\<close> and \<open>nouveau_i2c_find\<close> of
  \<open>nouveau_i2c.c\<close>, the search for a DisplayPort table, the AUX channel of \<open>nouveau_dp.c\<close> and the
  GPIO lines of \<open>nv50_gpio.c\<close>. The I2C protocol itself belongs to the kernel: its transfers are
  requests.
\<close>

subsection \<open>I2C buses\<close>

definition dcb_entry_idx_from_crtchead :: "drv \<Rightarrow> ist \<Rightarrow> (u8 \<times> ist) option" where
  "dcb_entry_idx_from_crtchead d s = do {
     (e, s) \<leftarrow> NVReadVgaCrtc5758 d (crtchead s) 0 s;
     Some (if int (unat e) > entries (dcb (bios d)) then 0x7f else e, s) }"

text \<open>The header of an I2C table: version, header length, number of entries, entry length.\<close>

definition dcb_i2c_header :: "drv \<Rightarrow> u8 \<Rightarrow> nat \<Rightarrow> (u8 \<times> nat \<times> nat \<times> nat) option" where
  "dcb_i2c_header d version table =
     (if version \<ge> 0x30 then do {
        ver \<leftarrow> rom8 d table;
        headerlen \<leftarrow> rom8 d (table + 1);
        n \<leftarrow> rom8 d (table + 2);
        entry_len \<leftarrow> rom8 d (table + 3);
        Some (ver, unat headerlen, if n \<le> 16 then unat n else 16, unat entry_len) }
      else Some (version, 0, 16, 4))"

definition dcb_i2c_ports :: "drv \<Rightarrow> u8 \<Rightarrow> nat \<Rightarrow> nat \<Rightarrow> nat \<Rightarrow> u8 \<Rightarrow> dcb_i2c_entry \<Rightarrow> dcb_i2c_entry option" where
  "dcb_i2c_ports d ver rec rdofs wrofs ptype bus = do {
     e \<leftarrow> (if ver \<ge> 0x40 then rom32 d rec else Some (i2c_entry bus));
     r \<leftarrow> rom8 d (rec + rdofs);
     w \<leftarrow> rom8 d (rec + wrofs);
     Some (bus\<lparr>i2c_entry := e, port_type := ptype, i2c_read := r, i2c_write := w\<rparr>) }"

definition read_dcb_i2c_entry ::
  "drv \<Rightarrow> u8 \<Rightarrow> nat option \<Rightarrow> nat \<Rightarrow> dcb_i2c_entry \<Rightarrow> (unit res \<times> dcb_i2c_entry) option" where
  "read_dcb_i2c_entry d version i2ctable index bus =
     (case i2ctable of
        None \<Rightarrow> Some (Inl EINVAL, bus)
      | Some table \<Rightarrow> do {
          (ver, headerlen, n, entry_len) \<leftarrow> dcb_i2c_header d version table;
          let recordoffset = (if version < 0x14 then 2 else 0);
          let (rdofs, wrofs) = (if version < 0x14 then (0, 1) else (1, 0));
          if index = 0xf then Some (Inr (), bus)
          else if index \<ge> n then Some (Inl ENOENT, bus)
          else do {
            let entry = table + headerlen + entry_len * index;
            valid \<leftarrow> rom8 d (entry + 3);
            if valid = 0xff then Some (Inl EINVAL, bus)
            else do {
              ptype \<leftarrow> (if ver \<ge> 0x30 then rom8 d (entry + recordoffset + 3) else Some 0);
              let (rdofs, wrofs) =
                (if ver \<ge> 0x30 \<and> ptype = 4 then (1, 1)
                 else if ver \<ge> 0x30 \<and> ptype \<ge> 5 then (0, 0) else (rdofs, wrofs));
              bus \<leftarrow> dcb_i2c_ports d ver (entry + recordoffset) rdofs wrofs ptype bus;
              Some (Inr (), bus) } } })"

definition nv50_i2c_port :: "u32 list" where
  "nv50_i2c_port = [0xe138, 0xe150, 0xe168, 0xe180, 0xe254, 0xe274, 0xe764, 0xe780, 0xe79c, 0xe7b8]"

text \<open>The channel a port type gives, if the type is known.\<close>

definition i2c_chan_of :: "dcb_i2c_entry \<Rightarrow> i2c_chan option option" where
  "i2c_chan_of e = (
     let t = port_type e; r = ucast (i2c_read e); w = ucast (i2c_write e) in
     if t = 0 \<or> t = 6 then Some (Some \<lparr>port = t, rd = r, wr = w\<rparr>)
     else if t = 4 then Some (Some \<lparr>port = t, rd = 0x600800 + r, wr = 0x600800 + w\<rparr>)
     else if t = 5 then do {
       p \<leftarrow> idx nv50_i2c_port (unat (i2c_read e));
       Some (Some \<lparr>port = t, rd = p, wr = p\<rparr>) }
     else Some None)"

definition nouveau_i2c_init :: "drv \<Rightarrow> nat \<Rightarrow> ist \<Rightarrow> (unit res \<times> ist) option" where
  "nouveau_i2c_init d index s = do {
     e \<leftarrow> idx (i2c s) index;
     if chan e \<noteq> None then Some (Inl EEXIST, s)
     else if card_type d \<ge> NV_50 \<and> i2c_read e \<ge> 10 then Some (Inl EINVAL, s)
     else do {
       ((failed, _), s) \<leftarrow> request d Kzalloc s;
       if failed \<noteq> 0 then Some (Inl ENOMEM, s)
       else do {
         c \<leftarrow> i2c_chan_of e;
         case c of
           None \<Rightarrow> Some (Inl EINVAL, s)
         | Some c \<Rightarrow> do {
             ((ret, _), s) \<leftarrow> request d (I2cRegister c) s;
             if ret \<noteq> 0 then Some (Inl EIO, s)
             else Some (Inr (), s\<lparr>i2c := (i2c s)[index := e\<lparr>chan := Some c\<rparr>]\<rparr>) } } } }"

definition i2c_pad_enable :: "drv \<Rightarrow> dcb_i2c_entry \<Rightarrow> ist \<Rightarrow> ist option" where
  "i2c_pad_enable d e s =
     (if chipset d \<ge> NV_50 \<and> i2c_entry e AND 0x100 \<noteq> 0 then do {
        let (r, v) =
          (if port_type e = 6 then (0xe500 + ucast (i2c_read e) * 0x50, 0x2002)
           else (0xe500 + drop_bit 9 (i2c_entry e AND 0x1e00) * 0x50, 0xe001));
        (old, s) \<leftarrow> nv_rd32 d r s;
        nv_wr32 d r ((old AND NOT 0xf003) OR v) s }
      else Some s)"

definition nouveau_i2c_find :: "drv \<Rightarrow> nat \<Rightarrow> ist \<Rightarrow> (i2c_chan option \<times> ist) option" where
  "nouveau_i2c_find d index s =
     (if index \<ge> 16 then Some (None, s)
      else do {
        e \<leftarrow> idx (i2c s) index;
        s \<leftarrow> i2c_pad_enable d e s;
        case chan e of
          Some c \<Rightarrow> Some (Some c, s)
        | None \<Rightarrow> do {
            (ret, s) \<leftarrow> nouveau_i2c_init d index s;
            case ret of
              Inl _ \<Rightarrow> Some (None, s)
            | Inr _ \<Rightarrow> do { e \<leftarrow> idx (i2c s) index; Some (chan e, s) } } })"

definition i2c_resolve_index :: "drv \<Rightarrow> u8 \<Rightarrow> ist \<Rightarrow> (u8 \<times> ist) option" where
  "i2c_resolve_index d i s = do {
     let defaults = i2c_default_indices (dcb (bios d));
     (i, s) \<leftarrow>
       (if i = 0xff then do {
          (e, s) \<leftarrow> dcb_entry_idx_from_crtchead d s;
          upper \<leftarrow> (if e = 0x7f then Some False
                    else do { x \<leftarrow> idx (dcb_entries (dcb (bios d))) (unat e); Some (i2c_upper_default x) });
          Some (drop_bit (if upper then 4 else 0) defaults AND 0xf, s) }
        else Some (i, s));
     Some (if i = 0x80 then defaults AND 0xf
           else if i = 0x81 then drop_bit 4 (defaults AND 0xf0) else i, s) }"

definition init_i2c_device_find :: "drv \<Rightarrow> u8 \<Rightarrow> ist \<Rightarrow> (i2c_chan option \<times> ist) option" where
  "init_i2c_device_find d i s = do {
     (i, s) \<leftarrow> i2c_resolve_index d i s;
     if i \<ge> 16 then Some (None, s)
     else do {
       e \<leftarrow> idx (i2c s) (unat i);
       (_, e) \<leftarrow> read_dcb_i2c_entry d (dcb_version (dcb (bios d))) (i2c_table (dcb (bios d))) (unat i) e;
       nouveau_i2c_find d (unat i) (s\<lparr>i2c := (i2c s)[unat i := e]\<rparr>) } }"

subsection \<open>TMDS\<close>

definition pramdac_offset :: "u32 list" where
  "pramdac_offset = [0, 0, 0x8, 0, 0x2000, 0, 0, 0, 0x2008, 0, 0, 0, 0x2000]"

definition pramdac_table :: "u32 list" where
  "pramdac_table = [0x6808b0, 0x6808b8, 0x6828b0, 0x6828b8]"

definition get_tmds_index_reg :: "drv \<Rightarrow> u8 \<Rightarrow> ist \<Rightarrow> (u32 \<times> ist) option" where
  "get_tmds_index_reg d mlv s =
     (if mlv \<ge> 0x80 then do {
        (e, s) \<leftarrow> dcb_entry_idx_from_crtchead d s;
        if e = 0x7f then Some (0, s)
        else do {
          x \<leftarrow> idx (dcb_entries (dcb (bios d))) (unat e);
          dacoffset \<leftarrow> idx pramdac_offset (unat (dcb_or x));
          Some (0x6808b0 + (if mlv = 0x81 then dacoffset XOR 8 else dacoffset), s) } }
      else if mlv \<ge> 4 then Some (0, s)
      else Some (pramdac_table ! unat mlv, s))"

subsection \<open>DisplayPort\<close>

text \<open>Does the output table at an address describe a DCB entry?\<close>

definition output_matches :: "drv \<Rightarrow> dcb_entry \<Rightarrow> bool \<Rightarrow> nat \<Rightarrow> bool option" where
  "output_matches d e match_link table = do {
     entry \<leftarrow> rom32 d table;
     Some ((\<not> match_link \<or> word_of_int (sor_link e) AND drop_bit 22 (entry AND 0x00c00000) \<noteq> 0)
       \<and> drop_bit 16 (entry AND 0x000f0000) AND ucast (dcb_or e) \<noteq> 0
       \<and> drop_bit 4 (entry AND 0xf0) = ucast (location e)
       \<and> uint (entry AND 0xf) = dcb_type e) }"

primrec output_scan :: "drv \<Rightarrow> dcb_entry \<Rightarrow> bool \<Rightarrow> u16 \<Rightarrow> nat \<Rightarrow> u16 \<Rightarrow> nat option option" where
  "output_scan d e match_link record_len 0 record = Some None"
| "output_scan d e match_link record_len (Suc n) record = do {
     table \<leftarrow> rom16 d (unat record);
     hit \<leftarrow> (if table = 0 then Some False else output_matches d e match_link (unat table));
     if hit then Some (Some (unat table))
     else output_scan d e match_link record_len n (record + record_len) }"

definition bios_output_config_match ::
  "drv \<Rightarrow> dcb_entry option \<Rightarrow> u16 \<Rightarrow> u8 \<Rightarrow> u8 \<Rightarrow> bool \<Rightarrow> nat option option" where
  "bios_output_config_match d dcbent record record_len record_nr match_link = do {
     e \<leftarrow> dcbent;
     output_scan d e (match_link \<and> dcb_type e \<in> {2, 3, 6}) (ucast record_len) (unat record_nr) record }"

definition nouveau_bios_dp_table :: "drv \<Rightarrow> dcb_entry option \<Rightarrow> nat option option" where
  "nouveau_bios_dp_table d dcbent = (
     let ptr = dp_table_ptr (bios d); table = unat ptr in
     if ptr = 0 then Some None
     else do {
       ver \<leftarrow> rom8 d table;
       if ver \<noteq> 0x20 \<and> ver \<noteq> 0x21 then Some None
       else do {
         _ \<leftarrow> rom8 d (table + 4);
         hlen \<leftarrow> rom8 d (table + 1);
         rlen \<leftarrow> rom8 d (table + 2);
         n \<leftarrow> rom8 d (table + 3);
         bios_output_config_match d dcbent (ptr + ucast hlen) rlen n (ver \<ge> 0x21) } })"

definition aux_ctrl :: "u32 \<Rightarrow> u32" where "aux_ctrl i = i * 0x50 + 0xe4e4"
definition aux_stat :: "u32 \<Rightarrow> u32" where "aux_stat i = i * 0x50 + 0xe4e8"
definition aux_addr :: "u32 \<Rightarrow> u32" where "aux_addr i = i * 0x50 + 0xe4e0"
definition aux_out :: "u32 \<Rightarrow> nat \<Rightarrow> u32" where "aux_out i n = of_nat n * 4 + i * 0x50 + 0xe4c0"
definition aux_in :: "u32 \<Rightarrow> nat \<Rightarrow> u32" where "aux_in i n = of_nat n * 4 + i * 0x50 + 0xe4d0"

lemmas aux_regs = aux_ctrl_def aux_stat_def aux_addr_def aux_out_def aux_in_def

primrec aux_ready :: "drv \<Rightarrow> u32 \<Rightarrow> nat \<Rightarrow> ist \<Rightarrow> (bool \<times> ist) option" where
  "aux_ready d ch 0 s = Some (False, s)"
| "aux_ready d ch (Suc n) s = do {
     (x, s) \<leftarrow> nv_rd32 d (aux_stat ch) s;
     if x AND 0x10000000 \<noteq> 0 then Some (True, s)
     else do { s \<leftarrow> tell d (Udelay 100) s; aux_ready d ch n s } }"

text \<open>Byte \<open>i\<close> of the four words of the FIFO, and word \<open>i\<close> of the bytes.\<close>

definition word_of_bytes :: "u8 list \<Rightarrow> nat \<Rightarrow> u32" where
  "word_of_bytes bs i = (
     let b = (\<lambda>j. if 4 * i + j < length bs then ucast (bs ! (4 * i + j)) else 0 :: u32)
     in b 0 OR push_bit 8 (b 1) OR push_bit 16 (b 2) OR push_bit 24 (b 3))"

definition bytes_of_words :: "u32 list \<Rightarrow> u8 list" where
  "bytes_of_words ws = concat (map (\<lambda>w. [ucast w, ucast (drop_bit 8 w), ucast (drop_bit 16 w), ucast (drop_bit 24 w)]) ws)"

text \<open>Start the transfer again while the sink defers, up to 16 times; the last status word.\<close>

primrec aux_retry :: "drv \<Rightarrow> u32 \<Rightarrow> u32 \<Rightarrow> nat \<Rightarrow> u32 \<Rightarrow> ist \<Rightarrow> ((errno option \<times> u32) \<times> ist) option" where
  "aux_retry d ch ctrl 0 stat s = Some ((Some EREMOTEIO, stat), s)"
| "aux_retry d ch ctrl (Suc n) stat s = do {
     s \<leftarrow> nv_wr32 d (aux_ctrl ch) (ctrl OR 0x80000000) s;
     s \<leftarrow> nv_wr32 d (aux_ctrl ch) ctrl s;
     s \<leftarrow> nv_wr32 d (aux_ctrl ch) (ctrl OR 0x00010000) s;
     (ok, s) \<leftarrow> nv_wait d (aux_ctrl ch) 0x00010000 0 s;
     if \<not> ok then do {
       (_, s) \<leftarrow> nv_rd32 d (aux_ctrl ch) s;
       Some ((Some EBUSY, stat), s) }
     else do {
       s \<leftarrow> tell d (Udelay 400) s;
       (stat, s) \<leftarrow> nv_rd32 d (aux_stat ch) s;
       if stat AND 0x00030000 \<noteq> 0x00020000 then Some ((None, stat), s)
       else aux_retry d ch ctrl n stat s } }"

definition aux_put :: "drv \<Rightarrow> u32 \<Rightarrow> u8 list \<Rightarrow> ist \<Rightarrow> ist option" where
  "aux_put d ch bs s =
     (if length bs > 16 then None
      else do {
        s \<leftarrow> nv_wr32 d (aux_out ch 0) (word_of_bytes bs 0) s;
        s \<leftarrow> nv_wr32 d (aux_out ch 1) (word_of_bytes bs 1) s;
        s \<leftarrow> nv_wr32 d (aux_out ch 2) (word_of_bytes bs 2) s;
        nv_wr32 d (aux_out ch 3) (word_of_bytes bs 3) s })"

definition aux_get :: "drv \<Rightarrow> u32 \<Rightarrow> nat \<Rightarrow> ist \<Rightarrow> (u8 list \<times> ist) option" where
  "aux_get d ch n s =
     (if n > 16 then None
      else do {
        (w0, s) \<leftarrow> nv_rd32 d (aux_in ch 0) s;
        (w1, s) \<leftarrow> nv_rd32 d (aux_in ch 1) s;
        (w2, s) \<leftarrow> nv_rd32 d (aux_in ch 2) s;
        (w3, s) \<leftarrow> nv_rd32 d (aux_in ch 3) s;
        Some (take n (bytes_of_words [w0, w1, w2, w3]), s) })"

text \<open>From the check that the channel is granted to the label \<open>out\<close>.\<close>

definition aux_transfer ::
  "drv \<Rightarrow> u32 \<Rightarrow> u32 \<Rightarrow> u32 \<Rightarrow> u8 list \<Rightarrow> ist \<Rightarrow> ((errno option \<times> u32 \<times> u8 list) \<times> ist) option" where
  "aux_transfer d ch cmd addr bs s = do {
     (ready, s) \<leftarrow> aux_ready d ch 3 s;
     if \<not> ready then Some ((Some EBUSY, 0, bs), s)
     else do {
       s \<leftarrow> (if cmd AND 1 = 0 then aux_put d ch bs s else Some s);
       s \<leftarrow> nv_wr32 d (aux_addr ch) addr s;
       (ctrl, s) \<leftarrow> nv_rd32 d (aux_ctrl ch) s;
       let ctrl = (ctrl AND NOT 0xf00f) OR push_bit 12 cmd OR (of_nat (length bs) - 1);
       ((err, stat), s) \<leftarrow> aux_retry d ch ctrl 16 0 s;
       if err \<noteq> None then Some ((err, stat, bs), s)
       else if cmd AND 1 \<noteq> 0 then
         (if stat AND 0x1f \<noteq> of_nat (length bs) then Some ((Some EREMOTEIO, stat, bs), s)
          else do {
            (bs, s) \<leftarrow> aux_get d ch (length bs) s;
            Some ((None, stat, bs), s) })
       else Some ((None, stat, bs), s) } }"

definition nouveau_dp_auxch ::
  "drv \<Rightarrow> i2c_chan \<Rightarrow> u32 \<Rightarrow> u32 \<Rightarrow> u8 list \<Rightarrow> ist \<Rightarrow> ((u32 res \<times> u8 list) \<times> ist) option" where
  "nouveau_dp_auxch d auxch cmd addr bs s = do {
     let ch = rd auxch;
     (tmp, s) \<leftarrow> nv_rd32 d (aux_ctrl ch) s;
     s \<leftarrow> nv_wr32 d (aux_ctrl ch) (tmp OR 0x00100000) s;
     (tmp, s) \<leftarrow> nv_rd32 d (aux_ctrl ch) s;
     ((err, stat, bs), s) \<leftarrow>
       (if tmp AND 0x01000000 = 0 then Some ((Some EIO, 0, bs), s)
        else aux_transfer d ch cmd addr bs s);
     (tmp, s) \<leftarrow> nv_rd32 d (aux_ctrl ch) s;
     s \<leftarrow> nv_wr32 d (aux_ctrl ch) (tmp AND NOT 0x00100000) s;
     (tmp, s) \<leftarrow> nv_rd32 d (aux_ctrl ch) s;
     let err = (if tmp AND 0x01000000 \<noteq> 0 then Some EIO else err);
     s \<leftarrow> tell d (Udelay 400) s;
     Some ((case err of Some e \<Rightarrow> Inl e | None \<Rightarrow> Inr (stat AND 0x000f0000), bs), s) }"

subsection \<open>GPIO\<close>

definition nouveau_bios_gpio_entry :: "drv \<Rightarrow> int \<Rightarrow> dcb_gpio_entry option" where
  "nouveau_bios_gpio_entry d t = List.find (\<lambda>g. tag g = t) (gpios (dcb (bios d)))"

definition nv50_gpio_reg :: "u32 list" where
  "nv50_gpio_reg = [0xe104, 0xe108, 0xe280, 0xe284]"

definition nv50_gpio_location :: "dcb_gpio_entry \<Rightarrow> (u32 \<times> nat) res" where
  "nv50_gpio_location g =
     (if line g \<ge> 32 then Inl EINVAL
      else Inr (nv50_gpio_reg ! (line g div 8), 4 * (line g mod 8)))"

definition nv50_gpio_get :: "drv \<Rightarrow> int \<Rightarrow> ist \<Rightarrow> (bool res \<times> ist) option" where
  "nv50_gpio_get d t s =
     (case nouveau_bios_gpio_entry d t of
        None \<Rightarrow> Some (Inl ENOENT, s)
      | Some g \<Rightarrow> (case nv50_gpio_location g of
          Inl e \<Rightarrow> Some (Inl EINVAL, s)
        | Inr (r, sh) \<Rightarrow> do {
            (v, s) \<leftarrow> nv_rd32 d r s;
            x \<leftarrow> idx (gpio_state g) 1;
            Some (Inr (drop_bit (sh + 2) v AND 1 = ucast (x AND 1)), s) }))"

definition nv50_gpio_set :: "drv \<Rightarrow> int \<Rightarrow> nat \<Rightarrow> ist \<Rightarrow> (unit res \<times> ist) option" where
  "nv50_gpio_set d t state s =
     (case nouveau_bios_gpio_entry d t of
        None \<Rightarrow> Some (Inl ENOENT, s)
      | Some g \<Rightarrow> (case nv50_gpio_location g of
          Inl e \<Rightarrow> Some (Inl EINVAL, s)
        | Inr (r, sh) \<Rightarrow> do {
            (v, s) \<leftarrow> nv_rd32 d r s;
            x \<leftarrow> idx (gpio_state g) state;
            s \<leftarrow> nv_wr32 d r ((v AND NOT (push_bit sh 3)) OR push_bit sh (ucast x XOR 2)) s;
            Some (Inr (), s) }))"

end
