(* ===== verification/InitOps.thy ===== *)
theory InitOps
  imports NvDcb
begin

section \<open>The opcodes of the VBIOS init scripts\<close>

text \<open>
  One definition for each handler of \<open>itbl_entry\<close> in \<open>nouveau_bios.c\<close>, by the name it has there,
  apart from those that probe memory (theory InitMem) and those that run other scripts (theory
  InitTable). A handler takes the offset of its opcode; it returns the length of the opcode, 0 to
  stop the table, or an error. The fields \<open>iexecute\<close> and \<open>irepeat\<close> of the state are those of
  \<open>struct init_exec\<close>; \<open>execute\<close> of the VBIOS is off while the driver only pretends to run a script.
\<close>

type_synonym op = "drv \<Rightarrow> u16 \<Rightarrow> ist \<Rightarrow> (nat res \<times> ist) option"

subsection \<open>Registers selected by a port\<close>

text \<open>\<open>(IOVAL & mask) >> shift\<close>, the index several opcodes compute.\<close>

definition port_config :: "drv \<Rightarrow> u16 \<Rightarrow> u8 \<Rightarrow> u8 \<Rightarrow> u8 \<Rightarrow> ist \<Rightarrow> (nat \<times> ist) option" where
  "port_config d p index msk shift s = do {
     (x, s) \<leftarrow> bios_idxprt_rd d p index s;
     c \<leftarrow> shr32 (ucast (x AND msk)) (unat shift);
     Some (unat c, s) }"

definition init_io_restrict_prog :: op where
  "init_io_restrict_prog d offset s = do {
     let ofs = unat offset;
     crtcport \<leftarrow> rom16 d (ofs + 1);
     crtcindex \<leftarrow> rom8 d (ofs + 3);
     msk \<leftarrow> rom8 d (ofs + 4);
     shift \<leftarrow> rom8 d (ofs + 5);
     count \<leftarrow> rom8 d (ofs + 6);
     r \<leftarrow> rom32 d (ofs + 7);
     let len = 11 + unat count * 4;
     if \<not> iexecute s then Some (Inr len, s)
     else do {
       (config, s) \<leftarrow> port_config d crtcport crtcindex msk shift s;
       if config > unat count then Some (Inr len, s)
       else do {
         configval \<leftarrow> rom32 d (ofs + 11 + config * 4);
         s \<leftarrow> bios_wr32 d r configval s;
         Some (Inr len, s) } } }"

definition init_io_restrict_pll :: op where
  "init_io_restrict_pll d offset s = do {
     let ofs = unat offset;
     crtcport \<leftarrow> rom16 d (ofs + 1);
     crtcindex \<leftarrow> rom8 d (ofs + 3);
     msk \<leftarrow> rom8 d (ofs + 4);
     shift \<leftarrow> rom8 d (ofs + 5);
     flag_idx \<leftarrow> rom8 d (ofs + 6);
     count \<leftarrow> rom8 d (ofs + 7);
     r \<leftarrow> rom32 d (ofs + 8);
     let len = 12 + unat count * 2;
     if \<not> iexecute s then Some (Inr len, s)
     else do {
       (config, s) \<leftarrow> port_config d crtcport crtcindex msk shift s;
       if config > unat count then Some (Inr len, s)
       else do {
         freq \<leftarrow> rom16 d (ofs + 12 + config * 2);
         (freq, s) \<leftarrow>
           (if 0 <s flag_idx then do {
              (met, s) \<leftarrow> io_flag_condition_met d flag_idx s;
              Some (if met then freq * 2 else freq, s) }
            else Some (freq, s));
         (_, s) \<leftarrow> setPLL d r (ucast freq * 10) s;
         Some (Inr len, s) } } }"

definition init_io_restrict_pll2 :: op where
  "init_io_restrict_pll2 d offset s = do {
     let ofs = unat offset;
     crtcport \<leftarrow> rom16 d (ofs + 1);
     crtcindex \<leftarrow> rom8 d (ofs + 3);
     msk \<leftarrow> rom8 d (ofs + 4);
     shift \<leftarrow> rom8 d (ofs + 5);
     count \<leftarrow> rom8 d (ofs + 6);
     r \<leftarrow> rom32 d (ofs + 7);
     let len = 11 + unat count * 4;
     if \<not> iexecute s then Some (Inr len, s)
     else if r = 0 then Some (Inr len, s)
     else do {
       (config, s) \<leftarrow> port_config d crtcport crtcindex msk shift s;
       if config > unat count then Some (Inr len, s)
       else do {
         freq \<leftarrow> rom32 d (ofs + 11 + config * 4);
         (_, s) \<leftarrow> setPLL d r freq s;
         Some (Inr len, s) } } }"

definition init_end_repeat :: op where
  "init_end_repeat d offset s = Some (Inr (if irepeat s then 0 else 1), s)"

definition init_copy :: op where
  "init_copy d offset s = do {
     let ofs = unat offset;
     r \<leftarrow> rom32 d (ofs + 1);
     shift \<leftarrow> rom8 d (ofs + 5);
     srcmask \<leftarrow> rom8 d (ofs + 6);
     crtcport \<leftarrow> rom16 d (ofs + 7);
     crtcindex \<leftarrow> rom8 d (ofs + 9);
     msk \<leftarrow> rom8 d (ofs + 10);
     if \<not> iexecute s then Some (Inr 11, s)
     else do {
       (x, s) \<leftarrow> bios_rd32 d r s;
       x \<leftarrow> shift_signed x shift;
       let x = x AND ucast srcmask;
       (crtcdata, s) \<leftarrow> bios_idxprt_rd d crtcport crtcindex s;
       s \<leftarrow> bios_idxprt_wr d crtcport crtcindex ((crtcdata AND msk) OR ucast x) s;
       Some (Inr 11, s) } }"

definition init_not :: op where
  "init_not d offset s = Some (Inr 1, s\<lparr>iexecute := \<not> iexecute s\<rparr>)"

definition init_io_flag_condition :: op where
  "init_io_flag_condition d offset s = do {
     cond \<leftarrow> rom8 d (unat offset + 1);
     if \<not> iexecute s then Some (Inr 2, s)
     else do {
       (met, s) \<leftarrow> io_flag_condition_met d cond s;
       Some (Inr 2, if met then s else s\<lparr>iexecute := False\<rparr>) } }"

subsection \<open>Display\<close>

text \<open>What a caller of \<open>nouveau_dp_auxch\<close> takes for a failure: any value but 0.\<close>

definition aux_failed :: "u32 res \<Rightarrow> bool" where
  "aux_failed r = (case r of Inl _ \<Rightarrow> True | Inr x \<Rightarrow> x \<noteq> 0)"

text \<open>Condition 5 of \<open>INIT_DP_CONDITION\<close> asks the sink; the others look at the VBIOS.\<close>

definition dp_condition_aux :: "drv \<Rightarrow> dcb_entry \<Rightarrow> u8 \<Rightarrow> ist \<Rightarrow> ist option" where
  "dp_condition_aux d e cond s = do {
     (auxch, s) \<leftarrow> nouveau_i2c_find d (unat (i2c_index e)) s;
     case auxch of
       None \<Rightarrow> Some s
     | Some c \<Rightarrow> do {
         ((ret, bs), s) \<leftarrow> nouveau_dp_auxch d c 9 0xd [cond] s;
         if aux_failed ret then Some s
         else do {
           reply \<leftarrow> idx bs 0;
           Some (if reply AND 1 = 0 then s\<lparr>iexecute := False\<rparr> else s) } } }"

definition init_dp_condition :: op where
  "init_dp_condition d offset s = do {
     cond \<leftarrow> rom8 d (unat offset + 1);
     if \<not> iexecute s then Some (Inr 3, s)
     else do {
       dpe \<leftarrow> nouveau_bios_dp_table d (active_output (bios d));
       case dpe of
         None \<Rightarrow> Some (Inr 3, s)
       | Some dpe \<Rightarrow> do {
           e \<leftarrow> active_output (bios d);
           s \<leftarrow>
             (if cond = 0 then do {
                t \<leftarrow> idx (connector_types (dcb (bios d))) (unat (connector e));
                Some (if t \<noteq> 0x47 then s\<lparr>iexecute := False\<rparr> else s) }
              else if cond = 1 \<or> cond = 2 then do {
                unknown \<leftarrow> rom8 d (dpe + 5);
                Some (if unknown AND cond = 0 then s\<lparr>iexecute := False\<rparr> else s) }
              else if cond = 5 then dp_condition_aux d e cond s
              else Some s);
           Some (Inr 3, s) } } }"

text \<open>The bit of the output resource, \<open>1 << (ffs (or) - 1)\<close>, with the index kept in a byte.\<close>

definition or_bit :: "drv \<Rightarrow> u32 option" where
  "or_bit d = do {
     e \<leftarrow> active_output (bios d);
     shl32 1 (unat (of_nat (ffs (dcb_or e)) - 1 :: u8)) }"

definition init_op_3b :: op where
  "init_op_3b d offset s = do {
     _ \<leftarrow> active_output (bios d);
     index \<leftarrow> rom8 d (unat offset + 1);
     if \<not> iexecute s then Some (Inr 2, s)
     else do {
       (x, s) \<leftarrow> bios_idxprt_rd d 0x3d4 index s;
       b \<leftarrow> or_bit d;
       s \<leftarrow> bios_idxprt_wr d 0x3d4 index (ucast (ucast x AND NOT b)) s;
       Some (Inr 2, s) } }"

definition init_op_3c :: op where
  "init_op_3c d offset s = do {
     _ \<leftarrow> active_output (bios d);
     index \<leftarrow> rom8 d (unat offset + 1);
     if \<not> iexecute s then Some (Inr 2, s)
     else do {
       (x, s) \<leftarrow> bios_idxprt_rd d 0x3d4 index s;
       b \<leftarrow> or_bit d;
       s \<leftarrow> bios_idxprt_wr d 0x3d4 index (ucast (ucast x OR b)) s;
       Some (Inr 2, s) } }"

definition init_idx_addr_latched :: op where
  "init_idx_addr_latched d offset s = do {
     let ofs = unat offset;
     controlreg \<leftarrow> rom32 d (ofs + 1);
     datareg \<leftarrow> rom32 d (ofs + 5);
     msk \<leftarrow> rom32 d (ofs + 9);
     v \<leftarrow> rom32 d (ofs + 13);
     count \<leftarrow> rom8 d (ofs + 17);
     let len = 18 + unat count * 2;
     if \<not> iexecute s then Some (Inr len, s)
     else do {
       s \<leftarrow> for_each (\<lambda>i s. do {
           instaddress \<leftarrow> rom8 d (ofs + 18 + i * 2);
           instdata \<leftarrow> rom8 d (ofs + 19 + i * 2);
           s \<leftarrow> bios_wr32 d datareg (ucast instdata) s;
           (x, s) \<leftarrow> bios_rd32 d controlreg s;
           bios_wr32 d controlreg ((x AND msk) OR v OR ucast instaddress) s }) [0..<unat count] s;
       Some (Inr len, s) } }"

definition init_pll2 :: op where
  "init_pll2 d offset s = do {
     r \<leftarrow> rom32 d (unat offset + 1);
     freq \<leftarrow> rom32 d (unat offset + 5);
     if \<not> iexecute s then Some (Inr 9, s)
     else do { (_, s) \<leftarrow> setPLL d r freq s; Some (Inr 9, s) } }"

subsection \<open>I2C\<close>

definition init_i2c_byte :: op where
  "init_i2c_byte d offset s = do {
     let ofs = unat offset;
     i2c_idx \<leftarrow> rom8 d (ofs + 1);
     address \<leftarrow> rom8 d (ofs + 2);
     count \<leftarrow> rom8 d (ofs + 3);
     let len = 4 + unat count * 3;
     let addr = drop_bit 1 address;
     if \<not> iexecute s then Some (Inr len, s)
     else do {
       (found, s) \<leftarrow> init_i2c_device_find d i2c_idx s;
       case found of
         None \<Rightarrow> Some (Inr len, s)
       | Some c \<Rightarrow> do {
           (_, s) \<leftarrow> until (\<lambda>i s. do {
               r \<leftarrow> rom8 d (ofs + 4 + i * 3);
               msk \<leftarrow> rom8 d (ofs + 5 + i * 3);
               v \<leftarrow> rom8 d (ofs + 6 + i * 3);
               ((ret, x), s) \<leftarrow> request d (SmbusRd c addr r) s;
               if ret < 0 then Some (True, s)
               else if \<not> execute (bios d) then Some (False, s)
               else do {
                 ((ret, _), s) \<leftarrow> request d (SmbusWr c addr r ((ucast x AND msk) OR v)) s;
                 Some (ret < 0, s) } }) [0..<unat count] s;
           Some (Inr len, s) } } }"

definition init_zm_i2c_byte :: op where
  "init_zm_i2c_byte d offset s = do {
     let ofs = unat offset;
     i2c_idx \<leftarrow> rom8 d (ofs + 1);
     address \<leftarrow> rom8 d (ofs + 2);
     count \<leftarrow> rom8 d (ofs + 3);
     let len = 4 + unat count * 2;
     let addr = drop_bit 1 address;
     if \<not> iexecute s then Some (Inr len, s)
     else do {
       (found, s) \<leftarrow> init_i2c_device_find d i2c_idx s;
       case found of
         None \<Rightarrow> Some (Inr len, s)
       | Some c \<Rightarrow> do {
           (_, s) \<leftarrow> until (\<lambda>i s. do {
               r \<leftarrow> rom8 d (ofs + 4 + i * 2);
               v \<leftarrow> rom8 d (ofs + 5 + i * 2);
               if \<not> execute (bios d) then Some (False, s)
               else do {
                 ((ret, _), s) \<leftarrow> request d (SmbusWr c addr r v) s;
                 Some (ret < 0, s) } }) [0..<unat count] s;
           Some (Inr len, s) } } }"

primrec rom_bytes :: "drv \<Rightarrow> nat \<Rightarrow> nat \<Rightarrow> u8 list option" where
  "rom_bytes d ofs 0 = Some []"
| "rom_bytes d ofs (Suc n) = do {
     b \<leftarrow> rom8 d ofs;
     bs \<leftarrow> rom_bytes d (ofs + 1) n;
     Some (b # bs) }"

definition init_zm_i2c :: op where
  "init_zm_i2c d offset s = do {
     let ofs = unat offset;
     i2c_idx \<leftarrow> rom8 d (ofs + 1);
     address \<leftarrow> rom8 d (ofs + 2);
     count \<leftarrow> rom8 d (ofs + 3);
     let len = 4 + unat count;
     if \<not> iexecute s then Some (Inr len, s)
     else do {
       (found, s) \<leftarrow> init_i2c_device_find d i2c_idx s;
       case found of
         None \<Rightarrow> Some (Inr len, s)
       | Some c \<Rightarrow> do {
           bs \<leftarrow> rom_bytes d (ofs + 4) (unat count);
           s \<leftarrow> (if execute (bios d) then tell d (I2cWrite c (drop_bit 1 address) bs) s else Some s);
           Some (Inr len, s) } } }"

definition init_i2c_if :: op where
  "init_i2c_if d offset s = do {
     let ofs = unat offset;
     i2c_idx \<leftarrow> rom8 d (ofs + 1);
     address \<leftarrow> rom8 d (ofs + 2);
     r \<leftarrow> rom8 d (ofs + 3);
     msk \<leftarrow> rom8 d (ofs + 4);
     v \<leftarrow> rom8 d (ofs + 5);
     (found, s) \<leftarrow> init_i2c_device_find d i2c_idx s;
     case found of
       None \<Rightarrow> Some (Inl ENODEV, s)
     | Some c \<Rightarrow> do {
         ((ret, x), s) \<leftarrow> request d (SmbusRd c (drop_bit 1 address) r) s;
         Some (Inr 6, s\<lparr>iexecute := (0 \<le> ret \<and> ucast x AND msk = v)\<rparr>) } }"

text \<open>The first message has length 1: only the high byte of the register number is sent.\<close>

definition init_i2c_long_if :: op where
  "init_i2c_long_if d offset s = do {
     let ofs = unat offset;
     i2c_idx \<leftarrow> rom8 d (ofs + 1);
     address \<leftarrow> rom8 d (ofs + 2);
     reglo \<leftarrow> rom8 d (ofs + 3);
     reghi \<leftarrow> rom8 d (ofs + 4);
     msk \<leftarrow> rom8 d (ofs + 5);
     v \<leftarrow> rom8 d (ofs + 6);
     (found, s) \<leftarrow> init_i2c_device_find d i2c_idx s;
     case found of
       None \<Rightarrow> Some (Inl ENODEV, s)
     | Some c \<Rightarrow> do {
         ((ret, x), s) \<leftarrow> request d (I2cRead c (drop_bit 1 address) (take 1 [reghi, reglo])) s;
         Some (Inr 7, s\<lparr>iexecute := (0 \<le> ret \<and> ucast x AND msk = v)\<rparr>) } }"

subsection \<open>TMDS and CRTC\<close>

definition init_tmds :: op where
  "init_tmds d offset s = do {
     let ofs = unat offset;
     mlv \<leftarrow> rom8 d (ofs + 1);
     tmdsaddr \<leftarrow> rom8 d (ofs + 2);
     msk \<leftarrow> rom8 d (ofs + 3);
     v \<leftarrow> rom8 d (ofs + 4);
     if \<not> iexecute s then Some (Inr 5, s)
     else do {
       (r, s) \<leftarrow> get_tmds_index_reg d mlv s;
       if r = 0 then Some (Inr 5, s)
       else do {
         s \<leftarrow> bios_wr32 d r (ucast tmdsaddr OR 0x10000) s;
         (x, s) \<leftarrow> bios_rd32 d (r + 4) s;
         s \<leftarrow> bios_wr32 d (r + 4) ((x AND ucast msk) OR ucast v) s;
         s \<leftarrow> bios_wr32 d r (ucast tmdsaddr) s;
         Some (Inr 5, s) } } }"

definition init_zm_tmds_group :: op where
  "init_zm_tmds_group d offset s = do {
     let ofs = unat offset;
     mlv \<leftarrow> rom8 d (ofs + 1);
     count \<leftarrow> rom8 d (ofs + 2);
     let len = 3 + unat count * 2;
     if \<not> iexecute s then Some (Inr len, s)
     else do {
       (r, s) \<leftarrow> get_tmds_index_reg d mlv s;
       if r = 0 then Some (Inr len, s)
       else do {
         s \<leftarrow> for_each (\<lambda>i s. do {
             tmdsaddr \<leftarrow> rom8 d (ofs + 3 + i * 2);
             tmdsdata \<leftarrow> rom8 d (ofs + 4 + i * 2);
             s \<leftarrow> bios_wr32 d (r + 4) (ucast tmdsdata) s;
             bios_wr32 d r (ucast tmdsaddr) s }) [0..<unat count] s;
         Some (Inr len, s) } } }"

definition init_cr_idx_adr_latch :: op where
  "init_cr_idx_adr_latch d offset s = do {
     let ofs = unat offset;
     index1 \<leftarrow> rom8 d (ofs + 1);
     index2 \<leftarrow> rom8 d (ofs + 2);
     baseaddr \<leftarrow> rom8 d (ofs + 3);
     count \<leftarrow> rom8 d (ofs + 4);
     let len = 5 + unat count;
     if \<not> iexecute s then Some (Inr len, s)
     else do {
       (oldaddr, s) \<leftarrow> bios_idxprt_rd d NV_CIO_CRX__COLOR index1 s;
       s \<leftarrow> for_each (\<lambda>i s. do {
           s \<leftarrow> bios_idxprt_wr d NV_CIO_CRX__COLOR index1 (baseaddr + of_nat i) s;
           v \<leftarrow> rom8 d (ofs + 5 + i);
           bios_idxprt_wr d NV_CIO_CRX__COLOR index2 v s }) [0..<unat count] s;
       s \<leftarrow> bios_idxprt_wr d NV_CIO_CRX__COLOR index1 oldaddr s;
       Some (Inr len, s) } }"

definition init_cr :: op where
  "init_cr d offset s = do {
     let ofs = unat offset;
     crtcindex \<leftarrow> rom8 d (ofs + 1);
     msk \<leftarrow> rom8 d (ofs + 2);
     v \<leftarrow> rom8 d (ofs + 3);
     if \<not> iexecute s then Some (Inr 4, s)
     else do {
       (x, s) \<leftarrow> bios_idxprt_rd d NV_CIO_CRX__COLOR crtcindex s;
       s \<leftarrow> bios_idxprt_wr d NV_CIO_CRX__COLOR crtcindex ((x AND msk) OR v) s;
       Some (Inr 4, s) } }"

definition init_zm_cr :: op where
  "init_zm_cr d offset s = do {
     let ofs = unat offset;
     crtcindex \<leftarrow> rom32 d (ofs + 1);
     v \<leftarrow> rom8 d (ofs + 2);
     if \<not> iexecute s then Some (Inr 3, s)
     else do {
       s \<leftarrow> bios_idxprt_wr d NV_CIO_CRX__COLOR (ucast crtcindex) v s;
       Some (Inr 3, s) } }"

definition init_zm_cr_group :: op where
  "init_zm_cr_group d offset s = do {
     count \<leftarrow> rom8 d (unat offset + 1);
     let len = 2 + unat count * 2;
     if \<not> iexecute s then Some (Inr len, s)
     else do {
       s \<leftarrow> for_each (\<lambda>i s. do {
           (_, s) \<leftarrow> init_zm_cr d (offset + 2 + 2 * of_nat i - 1) s;
           Some s }) [0..<unat count] s;
       Some (Inr len, s) } }"

subsection \<open>Time\<close>

definition init_condition_time :: op where
  "init_condition_time d offset s = do {
     cond \<leftarrow> rom8 d (unat offset + 1);
     b \<leftarrow> rom8 d (unat offset + 2);
     if \<not> iexecute s then Some (Inr 3, s)
     else do {
       let retries = min (unat b * 50) 100;
       let retries = (if execute (bios d) then retries else 1);
       (_, s) \<leftarrow> until (\<lambda>_ s. do {
           (met, s) \<leftarrow> bios_condition_met d cond s;
           if met then Some (True, s)
           else do { s \<leftarrow> tell d (Msleep 20) s; Some (False, s) } }) [0..<retries] s;
       (met, s) \<leftarrow> bios_condition_met d cond s;
       Some (Inr 3, if met then s else s\<lparr>iexecute := False\<rparr>) } }"

definition init_ltime :: op where
  "init_ltime d offset s = do {
     t \<leftarrow> rom16 d (unat offset + 1);
     if \<not> iexecute s then Some (Inr 3, s)
     else do { s \<leftarrow> tell d (Msleep (ucast t)) s; Some (Inr 3, s) } }"

definition init_time :: op where
  "init_time d offset s = do {
     t \<leftarrow> rom16 d (unat offset + 1);
     if \<not> iexecute s then Some (Inr 3, s)
     else do {
       s \<leftarrow> (if t < 1000 then tell d (Udelay (ucast t)) s
              else tell d (Msleep ((ucast t + 900) div 1000)) s);
       Some (Inr 3, s) } }"

end
