(* ===== verification/InitRegs.thy ===== *)
theory InitRegs
  imports InitOps
begin

section \<open>The opcodes on registers\<close>

text \<open>
  The handlers of \<open>nouveau_bios.c\<close> from \<open>init_zm_reg_sequence\<close> on that write registers, test
  conditions or drive the GPIO lines and the AUX channels.
\<close>

definition init_zm_reg_sequence :: op where
  "init_zm_reg_sequence d offset s = do {
     let ofs = unat offset;
     basereg \<leftarrow> rom32 d (ofs + 1);
     count \<leftarrow> rom8 d (ofs + 5);
     let len = 6 + unat count * 4;
     if \<not> iexecute s then Some (Inr len, s)
     else do {
       s \<leftarrow> for_each (\<lambda>i s. do {
           v \<leftarrow> rom32 d (ofs + 6 + i * 4);
           bios_wr32 d (basereg + of_nat i * 4) v s }) [0..<unat count] s;
       Some (Inr len, s) } }"

text \<open>The fields are read with host byte order, which is that of the image on the machines the driver supports.\<close>

definition init_copy_nv_reg :: op where
  "init_copy_nv_reg d offset s = do {
     let ofs = unat offset;
     srcreg \<leftarrow> rom32 d (ofs + 1);
     shift \<leftarrow> rom8 d (ofs + 5);
     srcmask \<leftarrow> rom32 d (ofs + 6);
     xor_mask \<leftarrow> rom32 d (ofs + 10);
     dstreg \<leftarrow> rom32 d (ofs + 14);
     dstmask \<leftarrow> rom32 d (ofs + 18);
     if \<not> iexecute s then Some (Inr 22, s)
     else do {
       (x, s) \<leftarrow> bios_rd32 d srcreg s;
       x \<leftarrow> shift_signed x shift;
       let x = (x AND srcmask) XOR xor_mask;
       (y, s) \<leftarrow> bios_rd32 d dstreg s;
       s \<leftarrow> bios_wr32 d dstreg ((y AND dstmask) OR x) s;
       Some (Inr 22, s) } }"

definition init_zm_index_io :: op where
  "init_zm_index_io d offset s = do {
     let ofs = unat offset;
     crtcport \<leftarrow> rom16 d (ofs + 1);
     crtcindex \<leftarrow> rom8 d (ofs + 3);
     v \<leftarrow> rom8 d (ofs + 4);
     if \<not> iexecute s then Some (Inr 5, s)
     else do { s \<leftarrow> bios_idxprt_wr d crtcport crtcindex v s; Some (Inr 5, s) } }"

definition init_reset :: op where
  "init_reset d offset s = do {
     let ofs = unat offset;
     r \<leftarrow> rom32 d (ofs + 1);
     value1 \<leftarrow> rom32 d (ofs + 5);
     value2 \<leftarrow> rom32 d (ofs + 9);
     (pci_nv_19, s) \<leftarrow> bios_rd32 d 0x184c s;
     s \<leftarrow> bios_wr32 d 0x184c (pci_nv_19 AND NOT 0xf00) s;
     s \<leftarrow> bios_wr32 d r value1 s;
     s \<leftarrow> tell d (Udelay 10) s;
     s \<leftarrow> bios_wr32 d r value2 s;
     s \<leftarrow> bios_wr32 d 0x184c pci_nv_19 s;
     (pci_nv_20, s) \<leftarrow> bios_rd32 d 0x1850 s;
     s \<leftarrow> bios_wr32 d 0x1850 (pci_nv_20 AND NOT 1) s;
     Some (Inr 13, s) }"

text \<open>Read a register, keep the bits of a mask, set others, write it back.\<close>

definition bios_rmw :: "drv \<Rightarrow> u32 \<Rightarrow> u32 \<Rightarrow> u32 \<Rightarrow> ist \<Rightarrow> ist option" where
  "bios_rmw d r keep v s = do {
     (x, s) \<leftarrow> bios_rd32 d r s;
     bios_wr32 d r ((x AND keep) OR v) s }"

definition io_magic :: "drv \<Rightarrow> ist \<Rightarrow> ist option" where
  "io_magic d s = do {
     s \<leftarrow> bios_rmw d 0x614100 0x0fffffff 0x00800000 s;
     s \<leftarrow> bios_rmw d 0x00e18c (NOT 0) 0x00020000 s;
     s \<leftarrow> bios_rmw d 0x614900 0x0fffffff 0x00800000 s;
     s \<leftarrow> bios_rmw d 0x000200 (NOT 0x40000000) 0 s;
     s \<leftarrow> tell d (Mdelay 10) s;
     s \<leftarrow> bios_rmw d 0x00e18c (NOT 0x00020000) 0 s;
     s \<leftarrow> bios_rmw d 0x000200 (NOT 0) 0x40000000 s;
     s \<leftarrow> bios_wr32 d 0x614100 0x00800018 s;
     s \<leftarrow> bios_wr32 d 0x614900 0x00800018 s;
     s \<leftarrow> tell d (Mdelay 10) s;
     s \<leftarrow> bios_wr32 d 0x614100 0x10000018 s;
     s \<leftarrow> bios_wr32 d 0x614900 0x10000018 s;
     s \<leftarrow> for_each (\<lambda>i. bios_rmw d (0x614280 + i * 0x800) 0xf0f0f0f0 0) [0, 1, 2] s;
     s \<leftarrow> for_each (\<lambda>i. bios_rmw d (0x614300 + i * 0x800) 0xfffff0f0 0) [0, 1] s;
     s \<leftarrow> for_each (\<lambda>i. bios_rmw d (0x614380 + i * 0x800) 0xfffff0f0 0) [0, 1, 2] s;
     s \<leftarrow> for_each (\<lambda>i. bios_rmw d (0x614200 + i * 0x800) 0xfffffff0 0) [0, 1] s;
     for_each (\<lambda>i. bios_rmw d (0x614108 + i * 0x800) 0x0fffffff 0) [0, 1] s }"

definition init_io :: op where
  "init_io d offset s = do {
     let ofs = unat offset;
     crtcport \<leftarrow> rom16 d (ofs + 1);
     msk \<leftarrow> rom8 d (ofs + 3);
     v \<leftarrow> rom8 d (ofs + 4);
     if \<not> iexecute s then Some (Inr 5, s)
     else if card_type d \<ge> NV_50 \<and> crtcport = 0x3c3 \<and> v = 1 then do {
       s \<leftarrow> io_magic d s;
       Some (Inr 5, s) }
     else do {
       (x, s) \<leftarrow> bios_port_rd d crtcport s;
       s \<leftarrow> bios_port_wr d crtcport ((x AND msk) OR v) s;
       Some (Inr 5, s) } }"

definition init_ram_condition :: op where
  "init_ram_condition d offset s = do {
     msk \<leftarrow> rom8 d (unat offset + 1);
     cmpval \<leftarrow> rom8 d (unat offset + 2);
     if \<not> iexecute s then Some (Inr 3, s)
     else do {
       (x, s) \<leftarrow> bios_rd32 d 0x100000 s;
       Some (Inr 3, if ucast (x AND ucast msk) = cmpval then s else s\<lparr>iexecute := False\<rparr>) } }"

definition init_nv_reg :: op where
  "init_nv_reg d offset s = do {
     let ofs = unat offset;
     r \<leftarrow> rom32 d (ofs + 1);
     msk \<leftarrow> rom32 d (ofs + 5);
     v \<leftarrow> rom32 d (ofs + 9);
     if \<not> iexecute s then Some (Inr 13, s)
     else do {
       (x, s) \<leftarrow> bios_rd32 d r s;
       s \<leftarrow> bios_wr32 d r ((x AND msk) OR v) s;
       Some (Inr 13, s) } }"

definition init_macro :: op where
  "init_macro d offset s = do {
     index \<leftarrow> rom8 d (unat offset + 1);
     let tmp = unat (macro_index_tbl_ptr (bios d) + ucast index * 2);
     macro_tbl_idx \<leftarrow> rom8 d tmp;
     count \<leftarrow> rom8 d (tmp + 1);
     if \<not> iexecute s then Some (Inr 2, s)
     else do {
       s \<leftarrow> for_each (\<lambda>i s. do {
           let ptr = unat (macro_tbl_ptr (bios d) + (ucast macro_tbl_idx + of_nat i) * 8);
           r \<leftarrow> rom32 d ptr;
           v \<leftarrow> rom32 d (ptr + 4);
           bios_wr32 d r v s }) [0..<unat count] s;
       Some (Inr 2, s) } }"

definition init_done :: op where
  "init_done d offset s = Some (Inr 0, s)"

definition init_resume :: op where
  "init_resume d offset s = Some (Inr 1, if iexecute s then s else s\<lparr>iexecute := True\<rparr>)"

definition init_condition :: op where
  "init_condition d offset s = do {
     cond \<leftarrow> rom8 d (unat offset + 1);
     if \<not> iexecute s then Some (Inr 2, s)
     else do {
       (met, s) \<leftarrow> bios_condition_met d cond s;
       Some (Inr 2, if met then s else s\<lparr>iexecute := False\<rparr>) } }"

definition init_io_condition :: op where
  "init_io_condition d offset s = do {
     cond \<leftarrow> rom8 d (unat offset + 1);
     if \<not> iexecute s then Some (Inr 2, s)
     else do {
       (met, s) \<leftarrow> io_condition_met d cond s;
       Some (Inr 2, if met then s else s\<lparr>iexecute := False\<rparr>) } }"

definition init_index_io :: op where
  "init_index_io d offset s = do {
     let ofs = unat offset;
     crtcport \<leftarrow> rom16 d (ofs + 1);
     crtcindex \<leftarrow> rom8 d (ofs + 3);
     msk \<leftarrow> rom8 d (ofs + 4);
     v \<leftarrow> rom8 d (ofs + 5);
     if \<not> iexecute s then Some (Inr 6, s)
     else do {
       (x, s) \<leftarrow> bios_idxprt_rd d crtcport crtcindex s;
       s \<leftarrow> bios_idxprt_wr d crtcport crtcindex ((x AND msk) OR v) s;
       Some (Inr 6, s) } }"

definition init_pll :: op where
  "init_pll d offset s = do {
     r \<leftarrow> rom32 d (unat offset + 1);
     freq \<leftarrow> rom16 d (unat offset + 5);
     if \<not> iexecute s then Some (Inr 7, s)
     else do { (_, s) \<leftarrow> setPLL d r (ucast freq * 10) s; Some (Inr 7, s) } }"

definition init_zm_reg :: op where
  "init_zm_reg d offset s = do {
     r \<leftarrow> rom32 d (unat offset + 1);
     v \<leftarrow> rom32 d (unat offset + 5);
     if \<not> iexecute s then Some (Inr 9, s)
     else do {
       s \<leftarrow> bios_wr32 d r (if r = 0x200 then v OR 1 else v) s;
       Some (Inr 9, s) } }"

text \<open>The PLL limits table is asked for the register of a type; 0 entries means not found.\<close>

definition ram_restrict_pll_reg :: "drv \<Rightarrow> u8 \<Rightarrow> u32 option option" where
  "ram_restrict_pll_reg d t = (
     let lim = unat (pll_limit_tbl_ptr (bios d)) in
     if pll_limit_tbl_ptr (bios d) = 0 then Some None
     else do {
       ver \<leftarrow> rom8 d lim;
       if ver AND 0xf0 \<noteq> 0x30 then Some None
       else do {
         h \<leftarrow> rom8 d (lim + 1);
         step \<leftarrow> rom8 d (lim + 2);
         n \<leftarrow> rom8 d (lim + 3);
         found \<leftarrow> scan (\<lambda>e. do { x \<leftarrow> rom8 d e; Some (x = t) }) (unat n) (lim + unat h) (unat step);
         case found of
           None \<Rightarrow> Some None
         | Some e \<Rightarrow> do { r \<leftarrow> rom32 d (e + 3); Some (Some r) } } })"

definition init_ram_restrict_pll :: op where
  "init_ram_restrict_pll d offset s = do {
     let ofs = unat offset;
     (boot0, s) \<leftarrow> bios_rd32 d 0x101000 s;
     let strap = drop_bit 2 (boot0 AND 0x3c);
     index \<leftarrow> rom8 d (unat (ram_restrict_tbl_ptr (bios d)) + unat strap);
     t \<leftarrow> rom8 d (ofs + 1);
     freq \<leftarrow> rom32 d (ofs + 2 + unat index * 4);
     let len = 2 + unat (ram_restrict_group_count (bios d)) * 4;
     if \<not> iexecute s then Some (Inr len, s)
     else do {
       found \<leftarrow> ram_restrict_pll_reg d t;
       case found of
         None \<Rightarrow> Some (Inr len, s)
       | Some r \<Rightarrow> do { (_, s) \<leftarrow> setPLL d r freq s; Some (Inr len, s) } } }"

definition init_8c :: op where "init_8c d offset s = Some (Inr 1, s)"

definition init_8d :: op where "init_8d d offset s = Some (Inr 1, s)"

definition nv50_gpio_ctl :: "u32 list" where "nv50_gpio_ctl = [0xe100, 0xe28c]"

definition init_one_gpio :: "drv \<Rightarrow> dcb_gpio_entry \<Rightarrow> ist \<Rightarrow> ist option" where
  "init_one_gpio d g s = do {
     s \<leftarrow> (if execute (bios d) then do {
              (_, s) \<leftarrow> nv50_gpio_set d (tag g) (unat (state_default g)) s;
              Some s }
            else Some s);
     r \<leftarrow> idx nv50_gpio_ctl (line g div 16);
     let sh = line g mod 16;
     (v, s) \<leftarrow> bios_rd32 d r s;
     let v = v AND NOT (push_bit sh 0x00010001);
     let mode = drop_bit 25 (gpio_entry g AND 0x06000000);
     bios_wr32 d r
       (if mode = 1 then v OR push_bit sh 1 else if mode = 2 then v OR push_bit sh 0x10000 else v) s }"

definition init_gpio :: op where
  "init_gpio d offset s =
     (if card_type d < NV_50 then Some (Inr 1, s)
      else if \<not> iexecute s then Some (Inr 1, s)
      else do {
        s \<leftarrow> for_each (init_one_gpio d) (gpios (dcb (bios d))) s;
        Some (Inr 1, s) })"

definition init_ram_restrict_zm_reg_group :: op where
  "init_ram_restrict_zm_reg_group d offset s = do {
     let ofs = unat offset;
     r \<leftarrow> rom32 d (ofs + 1);
     regincrement \<leftarrow> rom8 d (ofs + 5);
     count \<leftarrow> rom8 d (ofs + 6);
     let blocklen = unat (ram_restrict_group_count (bios d)) * 4;
     let len = 7 + unat count * blocklen;
     if blocklen = 0 then Some (Inl EINVAL, s)
     else if \<not> iexecute s then Some (Inr len, s)
     else do {
       (boot0, s) \<leftarrow> bios_rd32 d 0x101000 s;
       index \<leftarrow> rom8 d (unat (ram_restrict_tbl_ptr (bios d)) + unat (drop_bit 2 boot0 AND 0xf));
       s \<leftarrow> for_each (\<lambda>i s. do {
           v \<leftarrow> rom32 d (ofs + 7 + unat index * 4 + blocklen * i);
           bios_wr32 d (r + of_nat i * ucast regincrement) v s }) [0..<unat count] s;
       Some (Inr len, s) } }"

definition init_copy_zm_reg :: op where
  "init_copy_zm_reg d offset s = do {
     srcreg \<leftarrow> rom32 d (unat offset + 1);
     dstreg \<leftarrow> rom32 d (unat offset + 5);
     if \<not> iexecute s then Some (Inr 9, s)
     else do {
       (x, s) \<leftarrow> bios_rd32 d srcreg s;
       s \<leftarrow> bios_wr32 d dstreg x s;
       Some (Inr 9, s) } }"

definition init_zm_reg_group_addr_latched :: op where
  "init_zm_reg_group_addr_latched d offset s = do {
     let ofs = unat offset;
     r \<leftarrow> rom32 d (ofs + 1);
     count \<leftarrow> rom8 d (ofs + 5);
     let len = 6 + unat count * 4;
     if \<not> iexecute s then Some (Inr len, s)
     else do {
       s \<leftarrow> for_each (\<lambda>i s. do {
           v \<leftarrow> rom32 d (ofs + 6 + 4 * i);
           bios_wr32 d r v s }) [0..<unat count] s;
       Some (Inr len, s) } }"

definition init_reserved :: op where "init_reserved d offset s = Some (Inr 1, s)"

definition init_96 :: op where
  "init_96 d offset s = do {
     let ofs = unat offset;
     i \<leftarrow> rom8 d (ofs + 7);
     let xlatptr = unat (init96_tbl_ptr (bios d) + ucast i * 2);
     r \<leftarrow> rom32 d (ofs + 8);
     msk \<leftarrow> rom32 d (ofs + 12);
     sreg \<leftarrow> rom32 d (ofs + 1);
     (x, s) \<leftarrow> bios_rd32 d sreg s;
     shift \<leftarrow> rom8 d (ofs + 5);
     x \<leftarrow> shift_signed x shift;
     smask \<leftarrow> rom8 d (ofs + 6);
     table \<leftarrow> rom16 d xlatptr;
     x \<leftarrow> rom8 d (unat (ucast table + (x AND ucast smask)));
     sh \<leftarrow> rom8 d (ofs + 16);
     x \<leftarrow> shl32 (ucast x) (unat sh);
     if \<not> iexecute s then Some (Inr 17, s)
     else do {
       (y, s) \<leftarrow> bios_rd32 d r s;
       s \<leftarrow> bios_wr32 d r ((y AND msk) OR x) s;
       Some (Inr 17, s) } }"

definition init_97 :: op where
  "init_97 d offset s = do {
     let ofs = unat offset;
     r \<leftarrow> rom32 d (ofs + 1);
     msk \<leftarrow> rom32 d (ofs + 5);
     add \<leftarrow> rom32 d (ofs + 9);
     (x, s) \<leftarrow> bios_rd32 d r s;
     let x = (x AND msk) OR ((x + add) AND NOT msk);
     if \<not> iexecute s then Some (Inr 13, s)
     else do { s \<leftarrow> bios_wr32 d r x s; Some (Inr 13, s) } }"

text \<open>The AUX channel of the active output, for the two opcodes that use it.\<close>

definition output_auxch :: "drv \<Rightarrow> ist \<Rightarrow> (i2c_chan option \<times> ist) option" where
  "output_auxch d s =
     (case active_output (bios d) of
        None \<Rightarrow> Some (None, s)
      | Some e \<Rightarrow> init_i2c_device_find d (i2c_index e) s)"

definition init_auxch :: op where
  "init_auxch d offset s = do {
     addr \<leftarrow> rom32 d (unat offset + 1);
     count \<leftarrow> rom8 d (unat offset + 5);
     let len = 6 + unat count * 2;
     (auxch, s) \<leftarrow> output_auxch d s;
     case auxch of
       None \<Rightarrow> Some (Inr len, s)
     | Some c \<Rightarrow>
         if \<not> iexecute s then Some (Inr len, s)
         else do {
           (_, s) \<leftarrow> until (\<lambda>i s. do {
               ((ret, bs), s) \<leftarrow> nouveau_dp_auxch d c 9 addr [0] s;
               if aux_failed ret then Some (True, s)
               else do {
                 x \<leftarrow> idx bs 0;
                 msk \<leftarrow> rom8 d (unat (offset + 6 + 2 * of_nat i));
                 v \<leftarrow> rom8 d (unat (offset + 6 + 2 * of_nat i) + 1);
                 ((ret, _), s) \<leftarrow> nouveau_dp_auxch d c 8 addr [(x AND msk) OR v] s;
                 Some (aux_failed ret, s) } }) [0..<unat count] s;
           Some (Inr len, s) } }"

definition init_zm_auxch :: op where
  "init_zm_auxch d offset s = do {
     addr \<leftarrow> rom32 d (unat offset + 1);
     count \<leftarrow> rom8 d (unat offset + 5);
     let len = 6 + unat count;
     (auxch, s) \<leftarrow> output_auxch d s;
     case auxch of
       None \<Rightarrow> Some (Inr len, s)
     | Some c \<Rightarrow>
         if \<not> iexecute s then Some (Inr len, s)
         else do {
           (_, s) \<leftarrow> until (\<lambda>i s. do {
               v \<leftarrow> rom8 d (unat (offset + 6 + of_nat i));
               ((ret, _), s) \<leftarrow> nouveau_dp_auxch d c 8 addr [v] s;
               Some (aux_failed ret, s) }) [0..<unat count] s;
           Some (Inr len, s) } }"

end
