(* ===== verification/InitMem.thy ===== *)
theory InitMem
  imports InitRegs
begin

section \<open>The opcodes that set up memory\<close>

text \<open>
  \<open>INIT_COMPUTE_MEM\<close> probes the width and the amount of memory through the framebuffer aperture
  (\<open>nv04_init_compute_mem\<close> to \<open>nv20_init_compute_mem\<close>); \<open>INIT_CONFIGURE_MEM\<close>, \<open>_CLK\<close> and
  \<open>_PREINIT\<close> program old chips from a table. None of them looks at the execute flag of the script.
\<close>

subsection \<open>The framebuffer aperture\<close>

definition peek_fb :: "drv \<Rightarrow> u32 \<Rightarrow> ist \<Rightarrow> (u32 \<times> ist) option" where
  "peek_fb d off s =
     (if off < fb_len d then do { ((_, v), s) \<leftarrow> request d (FbRd off) s; Some (v, s) }
      else Some (0, s))"

definition poke_fb :: "drv \<Rightarrow> u32 \<Rightarrow> u32 \<Rightarrow> ist \<Rightarrow> ist option" where
  "poke_fb d off v s = (if off < fb_len d then tell d (FbWr off v) s else Some s)"

definition read_back_fb :: "drv \<Rightarrow> u32 \<Rightarrow> u32 \<Rightarrow> ist \<Rightarrow> (bool \<times> ist) option" where
  "read_back_fb d off v s = do {
     s \<leftarrow> poke_fb d off v s;
     (x, s) \<leftarrow> peek_fb d off s;
     Some (v = x, s) }"

definition poke_four :: "drv \<Rightarrow> u32 \<Rightarrow> ist \<Rightarrow> ist option" where
  "poke_four d patt = for_each (\<lambda>i. poke_fb d (4 * of_nat i) patt) [0..<4]"

text \<open>Sequencer off, or on again.\<close>

definition seq_off :: "drv \<Rightarrow> ist \<Rightarrow> ist option" where
  "seq_off d s = do {
     (x, s) \<leftarrow> NVReadVgaSeq d 0 1 s;
     NVWriteVgaSeq d 0 1 (x OR 0x20) s }"

definition seq_on :: "drv \<Rightarrow> ist \<Rightarrow> ist option" where
  "seq_on d s = do {
     (x, s) \<leftarrow> NVReadVgaSeq d 0 1 s;
     NVWriteVgaSeq d 0 1 (x AND NOT 0x20) s }"

definition PFB_BOOT_0 :: u32 where "PFB_BOOT_0 = 0x100000"
definition PFB_DEBUG_0 :: u32 where "PFB_DEBUG_0 = 0x100080"
definition PFB_CFG0 :: u32 where "PFB_CFG0 = 0x100200"
definition PFB_CFG1 :: u32 where "PFB_CFG1 = 0x100204"
definition PFB_FIFO_DATA :: u32 where "PFB_FIFO_DATA = 0x10020c"
definition PFB_REFCTRL :: u32 where "PFB_REFCTRL = 0x100210"

lemmas pfb_regs = PFB_BOOT_0_def PFB_DEBUG_0_def PFB_CFG0_def PFB_CFG1_def PFB_FIFO_DATA_def PFB_REFCTRL_def

definition patt0 :: u32 where "patt0 = 0xdeadbeef"

subsection \<open>NV04\<close>

text \<open>What the aliasing of the probe pattern says of the memory, and the registers it sets.\<close>

definition nv04_probe_sdram :: "drv \<Rightarrow> ist \<Rightarrow> ist option" where
  "nv04_probe_sdram d s = do {
     s \<leftarrow> bios_md32 d PFB_BOOT_0 0x28 0x18 s;
     s \<leftarrow> bios_md32 d PFB_DEBUG_0 0x10 0 s;
     s \<leftarrow> poke_four d patt0 s;
     (x, s) \<leftarrow> peek_fb d 0xc s;
     if x AND 0xffff \<noteq> patt0 AND 0xffff then bios_md32 d PFB_BOOT_0 (0x4 OR 0x3) 0x2 s
     else Some s }"

definition nv04_probe_8mb :: "drv \<Rightarrow> ist \<Rightarrow> ist option" where
  "nv04_probe_8mb d s = do {
     (ok, s) \<leftarrow> read_back_fb d 0x800000 patt0 s;
     s \<leftarrow> bios_md32 d PFB_BOOT_0 0x3 (if ok then 0x2 else 0x1) s;
     bios_md32 d PFB_BOOT_0 0x28 0 s }"

definition nv04_probe :: "drv \<Rightarrow> ist \<Rightarrow> ist option" where
  "nv04_probe d s = do {
     s \<leftarrow> bios_md32 d PFB_DEBUG_0 0 0x10 s;
     s \<leftarrow> bios_md32 d PFB_BOOT_0 (NOT 0) (0x3 OR 0x4 OR 0x8) s;
     s \<leftarrow> poke_four d patt0 s;
     s \<leftarrow> poke_fb d 0x400000 (patt0 + 1) s;
     (x, s) \<leftarrow> peek_fb d 0 s;
     if x = patt0 + 1 then nv04_probe_sdram d s
     else do {
       (y, s) \<leftarrow> peek_fb d 0xc s;
       if y AND 0xffff0000 \<noteq> patt0 AND 0xffff0000 then bios_md32 d PFB_BOOT_0 (0x4 OR 0x3) 0x1 s
       else do {
         (z, s) \<leftarrow> peek_fb d 0 s;
         if z \<noteq> patt0 then nv04_probe_8mb d s
         else do {
           (ok, s) \<leftarrow> read_back_fb d 0x800000 patt0 s;
           if \<not> ok then bios_md32 d PFB_BOOT_0 0x3 0x2 s else Some s } } } }"

definition nv04_init_compute_mem :: "drv \<Rightarrow> ist \<Rightarrow> (unit res \<times> ist) option" where
  "nv04_init_compute_mem d s = do {
     ((fail, _), s) \<leftarrow> request d FbMap s;
     if fail \<noteq> 0 then Some (Inl ENOMEM, s)
     else do {
       s \<leftarrow> seq_off d s;
       s \<leftarrow> nv04_probe d s;
       s \<leftarrow> bios_md32 d PFB_DEBUG_0 0x10 0 s;
       s \<leftarrow> seq_on d s;
       Some (Inr (), s) } }"

subsection \<open>NV05\<close>

definition default_config_tab :: "u8 list" where
  "default_config_tab = [0x24, 0x00, 0x28, 0x00, 0x24, 0x01, 0x1f, 0x00,
     0x0f, 0x00, 0x17, 0x00, 0x06, 0x00, 0x00, 0x00]"

text \<open>
  The entry of the memory configuration table for the straps, as the function from \<open>k\<close> to byte \<open>k\<close>
  of the entry: the C code returns a pointer and reads the bytes later.
\<close>

definition nv05_memory_config :: "drv \<Rightarrow> ist \<Rightarrow> ((nat \<Rightarrow> u8 option) \<times> ist) option" where
  "nv05_memory_config d s = do {
     (boot0, s) \<leftarrow> bios_rd32 d 0x101000 s;
     let i = unat (drop_bit 2 (boot0 AND 0x3c));
     Some (if mem_init_tbl_ptr (bios d) \<noteq> 0
           then (\<lambda>k. rom8 d (unat (mem_init_tbl_ptr (bios d)) + 2 * i + k))
           else (\<lambda>k. idx default_config_tab (2 * i + k)), s) }"

definition nv05_scramble :: "drv \<Rightarrow> ist \<Rightarrow> ist option" where
  "nv05_scramble d s =
     (if mem_init_tbl_ptr (bios d) = 0 then Some s
      else for_each (\<lambda>i s. do {
        v \<leftarrow> rom32 d (unat (mem_init_tbl_ptr (bios d)) + 0x10 + 4 * i);
        bios_wr32 d (0x100400 + 4 * of_nat i) v s }) [0..<8] s)"

text \<open>Halve the amount of memory while what is written beyond it cannot be read.\<close>

definition nv05_probe_length :: "drv \<Rightarrow> ist \<Rightarrow> ist option" where
  "nv05_probe_length d s = do {
     (v, s) \<leftarrow> bios_rd32 d PFB_BOOT_0 s;
     let v = v AND 0x3;
     (patt, s) \<leftarrow>
       (if v = 0 then do {
          (a, s) \<leftarrow> read_back_fb d 0x1000000 (patt0 + 1) s;
          (b, s) \<leftarrow> (if a then read_back_fb d 0 (patt0 + 2) s else Some (False, s));
          s \<leftarrow> (if \<not> a \<or> \<not> b then bios_md32 d PFB_BOOT_0 0x3 0x3 s else Some s);
          Some (if a then patt0 + 2 else patt0 + 1, s) }
        else Some (patt0, s));
     (patt, s) \<leftarrow>
       (if v = 3 then do {
          (a, s) \<leftarrow> read_back_fb d 0x800000 (patt + 1) s;
          s \<leftarrow> (if \<not> a then bios_md32 d PFB_BOOT_0 0x3 0x2 s else Some s);
          Some (patt + 1, s) }
        else Some (patt, s));
     (a, s) \<leftarrow> read_back_fb d 0x400000 (patt + 1) s;
     if \<not> a then bios_md32 d PFB_BOOT_0 0x3 0x1 s else Some s }"

definition nv05_setup :: "drv \<Rightarrow> (nat \<Rightarrow> u8 option) \<Rightarrow> ist \<Rightarrow> ist option" where
  "nv05_setup d ramcfg s = do {
     s \<leftarrow> bios_md32 d PFB_DEBUG_0 0x10 0 s;
     s \<leftarrow> nv05_scramble d s;
     c0 \<leftarrow> ramcfg 0;
     s \<leftarrow> bios_md32 d PFB_BOOT_0 0x3f (ucast c0) s;
     c1 \<leftarrow> ramcfg 1;
     s \<leftarrow> (if c1 AND 0x80 \<noteq> 0 then bios_md32 d PFB_CFG0 0 0x20000000 s else Some s);
     s \<leftarrow> bios_md32 d PFB_CFG1 0x700001 (push_bit 20 (ucast (c1 AND 1))) s;
     s \<leftarrow> bios_md32 d PFB_CFG1 0 1 s;
     s \<leftarrow> poke_four d patt0 s;
     (x, s) \<leftarrow> peek_fb d 0xc s;
     s \<leftarrow> (if x \<noteq> patt0 then bios_md32 d PFB_BOOT_0 0x4 0 s else Some s);
     nv05_probe_length d s }"

definition nv05_init_compute_mem :: "drv \<Rightarrow> ist \<Rightarrow> (unit res \<times> ist) option" where
  "nv05_init_compute_mem d s = do {
     (ramcfg, s) \<leftarrow> nv05_memory_config d s;
     ((fail, _), s) \<leftarrow> request d FbMap s;
     if fail \<noteq> 0 then Some (Inl ENOMEM, s)
     else do {
       s \<leftarrow> seq_off d s;
       (boot0, s) \<leftarrow> bios_rd32 d PFB_BOOT_0 s;
       s \<leftarrow> (if boot0 AND 0x100 \<noteq> 0 then Some s else nv05_setup d ramcfg s);
       s \<leftarrow> seq_on d s;
       Some (Inr (), s) } }"

subsection \<open>NV10 and NV20\<close>

definition nv10_probe_width :: "drv \<Rightarrow> u32 \<Rightarrow> ist \<Rightarrow> (bool \<times> ist) option" where
  "nv10_probe_width d w s = do {
     s \<leftarrow> bios_md32 d PFB_CFG0 0x30 w s;
     until (\<lambda>_ s. do {
       s \<leftarrow> for_each (\<lambda>_. poke_fb d 0x1c 0) [0..<4] s;
       s \<leftarrow> poke_fb d 0x1c patt0 s;
       s \<leftarrow> poke_fb d 0x3c 0 s;
       (x, s) \<leftarrow> peek_fb d 0x1c s;
       Some (x = patt0, s) }) [0..<4] s }"

definition nv10_probe_amount :: "drv \<Rightarrow> u32 \<Rightarrow> ist \<Rightarrow> (bool \<times> ist) option" where
  "nv10_probe_amount d patt s = do {
     (amount, s) \<leftarrow> bios_rd32 d PFB_FIFO_DATA s;
     let off = amount - 0x100000;
     s \<leftarrow> poke_fb d off patt s;
     s \<leftarrow> poke_fb d 0 0 s;
     s \<leftarrow> for_each (\<lambda>_ s. do { (_, s) \<leftarrow> peek_fb d 0 s; Some s }) [0..<4] s;
     (x, s) \<leftarrow> peek_fb d off s;
     Some (x = patt, s) }"

definition nv10_init_compute_mem :: "drv \<Rightarrow> ist \<Rightarrow> (unit res \<times> ist) option" where
  "nv10_init_compute_mem d s = do {
     ((fail, _), s) \<leftarrow> request d FbMap s;
     if fail \<noteq> 0 then Some (Inl ENOMEM, s)
     else do {
       s \<leftarrow> bios_wr32 d PFB_REFCTRL 0x80000000 s;
       (_, s) \<leftarrow> until (nv10_probe_width d) (take (if chipset d \<ge> 0x17 then 3 else 2) [0x10, 0x00, 0x20]) s;
       (found, s) \<leftarrow> until (\<lambda>_. nv10_probe_amount d (push_bit 1 patt0)) [0..<4] s;
       s \<leftarrow> (if found then Some s else bios_md32 d PFB_CFG0 0x1000 0 s);
       Some (Inr (), s) } }"

function nv20_poke_amount :: "drv \<Rightarrow> u32 \<Rightarrow> ist \<Rightarrow> ist option" where
  "nv20_poke_amount d off s =
     (if off > 0x2000000 then do {
        s \<leftarrow> poke_fb d (off - 4) off s;
        nv20_poke_amount d (off - 0x2000000) s }
      else Some s)"
  by pat_completeness auto
termination
  by (relation "measure (\<lambda>(d, off, s). unat off)") (auto simp: word_less_nat_alt unat_sub_if')

declare nv20_poke_amount.simps [simp del]

definition nv20_init_compute_mem :: "drv \<Rightarrow> ist \<Rightarrow> (unit res \<times> ist) option" where
  "nv20_init_compute_mem d s = do {
     let m = (if chipset d \<ge> 0x25 then 0x300 else 0x900);
     ((fail, _), s) \<leftarrow> request d FbMap s;
     if fail \<noteq> 0 then Some (Inl ENOMEM, s)
     else do {
       s \<leftarrow> bios_wr32 d PFB_REFCTRL 0x80000000 s;
       s \<leftarrow> bios_md32 d PFB_CFG0 0 m s;
       (amount, s) \<leftarrow> bios_rd32 d PFB_FIFO_DATA s;
       s \<leftarrow> nv20_poke_amount d amount s;
       (amount, s) \<leftarrow> bios_rd32 d PFB_FIFO_DATA s;
       (x, s) \<leftarrow> peek_fb d (amount - 4) s;
       s \<leftarrow> (if amount \<noteq> x then bios_md32 d PFB_CFG0 m 0 s else Some s);
       Some (Inr (), s) } }"

subsection \<open>The opcodes\<close>

definition init_compute_mem :: op where
  "init_compute_mem d offset s = do {
     (ret, s) \<leftarrow>
       (if chipset d \<ge> 0x40 \<or> chipset d = 0x1a \<or> chipset d = 0x1f then Some (Inr (), s)
        else if chipset d \<ge> 0x20 \<and> chipset d \<noteq> 0x34 then nv20_init_compute_mem d s
        else if chipset d \<ge> 0x10 then nv10_init_compute_mem d s
        else if chipset d \<ge> 0x5 then nv05_init_compute_mem d s
        else nv04_init_compute_mem d s);
     Some (case ret of Inl e \<Rightarrow> Inl e | Inr _ \<Rightarrow> Inr 1, s) }"

text \<open>The entry of the memory init table that scratch register 4 selects.\<close>

definition meminit_entry :: "drv \<Rightarrow> ist \<Rightarrow> (u16 \<times> ist) option" where
  "meminit_entry d s = do {
     (x, s) \<leftarrow> bios_idxprt_rd d NV_CIO_CRX__COLOR 0x3c s;
     Some (mem_init_tbl_ptr (bios d) + 66 * ucast (drop_bit 4 x), s) }"

text \<open>The loop over the register sequence ends only at the end marker.\<close>

partial_function (option) configure_mem_loop :: "drv \<Rightarrow> u16 \<Rightarrow> u16 \<Rightarrow> ist \<Rightarrow> ist option" where
  "configure_mem_loop d seqtbloffs meminitdata s = do {
     r \<leftarrow> rom32 d (unat seqtbloffs);
     if r = 0xffffffff then Some s
     else if r = 0x1002d4 \<or> r = 0x10021c \<or> r = 0x1002d0 then do {
       s \<leftarrow> bios_wr32 d r 1 s;
       configure_mem_loop d (seqtbloffs + 4) meminitdata s }
     else do {
       v \<leftarrow> rom32 d (unat meminitdata);
       s \<leftarrow> (if v = 0xffffffff then Some s else bios_wr32 d r v s);
       configure_mem_loop d (seqtbloffs + 4) (meminitdata + 4) s } }"

definition init_configure_mem :: op where
  "init_configure_mem d offset s = do {
     (meminitoffs, s) \<leftarrow> meminit_entry d s;
     if major_version (bios d) > 2 then Some (Inr 0, s)
     else do {
       (x, s) \<leftarrow> bios_idxprt_rd d NV_VIO_SRX 1 s;
       s \<leftarrow> bios_idxprt_wr d NV_VIO_SRX 1 (x OR 0x20) s;
       kind \<leftarrow> rom8 d (unat meminitoffs);
       let seqtbloffs = (if kind AND 1 \<noteq> 0 then ddr_seq_tbl_ptr (bios d) else sdr_seq_tbl_ptr (bios d));
       s \<leftarrow> configure_mem_loop d seqtbloffs (meminitoffs + 6) s;
       Some (Inr 1, s) } }"

definition init_configure_clk :: op where
  "init_configure_clk d offset s = do {
     (meminitoffs, s) \<leftarrow> meminit_entry d s;
     if major_version (bios d) > 2 then Some (Inr 0, s)
     else do {
       clock \<leftarrow> rom16 d (unat meminitoffs + 4);
       (_, s) \<leftarrow> setPLL d NVPLL (ucast clock * 10) s;
       clock \<leftarrow> rom16 d (unat meminitoffs + 2);
       kind \<leftarrow> rom8 d (unat meminitoffs);
       (_, s) \<leftarrow> setPLL d MPLL (ucast clock * 10 * (if kind AND 1 \<noteq> 0 then 2 else 1)) s;
       Some (Inr 1, s) } }"

definition init_configure_preinit :: op where
  "init_configure_preinit d offset s = do {
     (straps, s) \<leftarrow> bios_rd32 d 0x101000 s;
     let cr3c = ucast ((push_bit 2 straps AND 0xf0) OR drop_bit 6 (straps AND 0x40));
     if major_version (bios d) > 2 then Some (Inr 0, s)
     else do {
       s \<leftarrow> bios_idxprt_wr d NV_CIO_CRX__COLOR 0x3c cr3c s;
       Some (Inr 1, s) } }"

end
