(* ===== verification/InitTable.thy ===== *)
theory InitTable
  imports InitMem
begin

section \<open>The script interpreter\<close>

text \<open>
  \<open>parse_init_table\<close> with the table of opcodes \<open>itbl_entry\<close> and the three opcodes that run other
  scripts. A table runs at most \<open>MAX_TABLE_OPS\<close> opcodes, so its own loop always ends; what can
  go on for ever is a script that calls itself. The C code recurses without a limit: the model
  takes the depth of the calls as fuel and gives \<^const>\<open>None\<close> when it is used up.
\<close>

type_synonym script = "drv \<Rightarrow> u32 \<Rightarrow> ist \<Rightarrow> (unit res \<times> ist) option"

definition init_repeat :: "script \<Rightarrow> op" where
  "init_repeat parse d offset s = do {
     count \<leftarrow> rom8 d (unat offset + 1);
     let s = s\<lparr>irepeat := True\<rparr>;
     s \<leftarrow> for_each (\<lambda>_ s. do {
         (_, s) \<leftarrow> parse d (ucast offset + 2) s;
         Some s }) [0..<unat count - 1] s;
     Some (Inr 2, s\<lparr>irepeat := False\<rparr>) }"

definition init_sub_direct :: "script \<Rightarrow> op" where
  "init_sub_direct parse d offset s = do {
     sub_offset \<leftarrow> rom16 d (unat offset + 1);
     if \<not> iexecute s then Some (Inr 3, s)
     else do {
       (_, s) \<leftarrow> parse d (ucast sub_offset) s;
       Some (Inr 3, s) } }"

definition init_sub :: "script \<Rightarrow> op" where
  "init_sub parse d offset s = do {
     sub \<leftarrow> rom8 d (unat offset + 1);
     if \<not> iexecute s then Some (Inr 2, s)
     else do {
       ptr \<leftarrow> rom16 d (unat (init_script_tbls_ptr (bios d)) + unat sub * 2);
       (_, s) \<leftarrow> parse d (ucast ptr) s;
       Some (Inr 2, s) } }"

definition itbl_entry :: "script \<Rightarrow> (u8 \<times> op) list" where
  "itbl_entry parse = [
     (0x32, init_io_restrict_prog),
     (0x33, init_repeat parse),
     (0x34, init_io_restrict_pll),
     (0x36, init_end_repeat),
     (0x37, init_copy),
     (0x38, init_not),
     (0x39, init_io_flag_condition),
     (0x3A, init_dp_condition),
     (0x3B, init_op_3b),
     (0x3C, init_op_3c),
     (0x49, init_idx_addr_latched),
     (0x4A, init_io_restrict_pll2),
     (0x4B, init_pll2),
     (0x4C, init_i2c_byte),
     (0x4D, init_zm_i2c_byte),
     (0x4E, init_zm_i2c),
     (0x4F, init_tmds),
     (0x50, init_zm_tmds_group),
     (0x51, init_cr_idx_adr_latch),
     (0x52, init_cr),
     (0x53, init_zm_cr),
     (0x54, init_zm_cr_group),
     (0x56, init_condition_time),
     (0x57, init_ltime),
     (0x58, init_zm_reg_sequence),
     (0x5B, init_sub_direct parse),
     (0x5E, init_i2c_if),
     (0x5F, init_copy_nv_reg),
     (0x62, init_zm_index_io),
     (0x63, init_compute_mem),
     (0x65, init_reset),
     (0x66, init_configure_mem),
     (0x67, init_configure_clk),
     (0x68, init_configure_preinit),
     (0x69, init_io),
     (0x6B, init_sub parse),
     (0x6D, init_ram_condition),
     (0x6E, init_nv_reg),
     (0x6F, init_macro),
     (0x71, init_done),
     (0x72, init_resume),
     (0x74, init_time),
     (0x75, init_condition),
     (0x76, init_io_condition),
     (0x78, init_index_io),
     (0x79, init_pll),
     (0x7A, init_zm_reg),
     (0x87, init_ram_restrict_pll),
     (0x8C, init_8c),
     (0x8D, init_8d),
     (0x8E, init_gpio),
     (0x8F, init_ram_restrict_zm_reg_group),
     (0x90, init_copy_zm_reg),
     (0x91, init_zm_reg_group_addr_latched),
     (0x92, init_reserved),
     (0x96, init_96),
     (0x97, init_97),
     (0x98, init_auxch),
     (0x99, init_zm_auxch),
     (0x9A, init_i2c_long_if)]"

definition MAX_TABLE_OPS :: nat where "MAX_TABLE_OPS = 1000"

text \<open>The \<open>while\<close> loop, with the number of opcodes it may still run.\<close>

primrec parse_loop :: "script \<Rightarrow> nat \<Rightarrow> script" where
  "parse_loop parse 0 d offset s = Some (Inr (), s)"
| "parse_loop parse (Suc n) d offset s =
     (if offset < len (bios d) then do {
        opcode \<leftarrow> rom8 d (unat offset);
        case map_of (itbl_entry parse) opcode of
          None \<Rightarrow> Some (Inl ENOENT, s)
        | Some handler \<Rightarrow> do {
            (ret, s) \<leftarrow> handler d (ucast offset) s;
            case ret of
              Inl _ \<Rightarrow> Some (Inr (), s)
            | Inr l \<Rightarrow> if l = 0 then Some (Inr (), s)
                       else parse_loop parse n d (offset + of_nat l) s } }
      else Some (Inr (), s))"

primrec parse_init_table :: "nat \<Rightarrow> script" where
  "parse_init_table 0 d offset s = None"
| "parse_init_table (Suc fuel) d offset s = parse_loop (parse_init_table fuel) MAX_TABLE_OPS d offset s"

subsection \<open>Running the scripts of a card\<close>

text \<open>The list of scripts ends with a null pointer.\<close>

function parse_script_list :: "nat \<Rightarrow> drv \<Rightarrow> nat \<Rightarrow> ist \<Rightarrow> ist option" where
  "parse_script_list fuel d ptr s =
     (case rom16 d ptr of
        None \<Rightarrow> None
      | Some table \<Rightarrow>
          if table = 0 then Some s
          else (case parse_init_table fuel d (ucast table) s of
                  None \<Rightarrow> None
                | Some (_, s) \<Rightarrow> parse_script_list fuel d (ptr + 2) s))"
  by pat_completeness auto
termination
  by (relation "measure (\<lambda>(fuel, d, ptr, s). length (data (bios d)) - ptr)")
    (auto simp: rom16_def rom8_def idx_def split: if_splits option.splits option.splits)

declare parse_script_list.simps [simp del]

definition parse_init_tables :: "nat \<Rightarrow> drv \<Rightarrow> ist \<Rightarrow> ist option" where
  "parse_init_tables fuel d s = (
     let b = bios d; s = s\<lparr>iexecute := True, irepeat := False\<rparr> in
     if old_style_init b then do {
       (_, s) \<leftarrow> (if init_script_tbls_ptr b \<noteq> 0
                  then parse_init_table fuel d (ucast (init_script_tbls_ptr b)) s else Some (Inr (), s));
       (_, s) \<leftarrow> (if extra_init_script_tbl_ptr b \<noteq> 0
                  then parse_init_table fuel d (ucast (extra_init_script_tbl_ptr b)) s else Some (Inr (), s));
       Some s }
     else parse_script_list fuel d (unat (init_script_tbls_ptr b)) s)"

end
