(* ===== verification/InitTrace.thy ===== *)
theory InitTrace
  imports InitTable
begin

section \<open>What a script can do\<close>

text \<open>
  A relation between states that holds for every primitive step of the interpreter holds between
  the start and the end of every script. The locale \<open>traced\<close> has the primitive steps as its
  assumptions, and one lemma for each function and each handler. It is interpreted on the requests
  of a script that is not executed, and on the selected head. It extends \<open>probed\<close>, for the opcodes
  that only look a port up, and \<open>reading\<close>, for those that only read registers.
\<close>

subsection \<open>Relations along a computation\<close>

definition moves :: "('s \<Rightarrow> 's \<Rightarrow> bool) \<Rightarrow> 's \<Rightarrow> ('a \<times> 's) option \<Rightarrow> bool" where
  "moves R s m \<longleftrightarrow> (\<forall>x s'. m = Some (x, s') \<longrightarrow> R s s')"

definition goes :: "('s \<Rightarrow> 's \<Rightarrow> bool) \<Rightarrow> 's \<Rightarrow> 's option \<Rightarrow> bool" where
  "goes R s m \<longleftrightarrow> (\<forall>s'. m = Some s' \<longrightarrow> R s s')"

named_theorems along \<open>a relation along the computations of the interpreter\<close>
named_theorems along_pure \<open>a relation along pure computations\<close>

lemma movesD: "moves R s m \<Longrightarrow> m = Some (x, s') \<Longrightarrow> R s s'"
  by (simp add: moves_def)

lemma goesD: "goes R s m \<Longrightarrow> m = Some s' \<Longrightarrow> R s s'"
  by (simp add: goes_def)

lemma moves_None [along]: "moves R s None" by (simp add: moves_def)
lemma goes_None [along]: "goes R s None" by (simp add: goes_def)

lemma moves_Some [along]: "R s s' \<Longrightarrow> moves R s (Some (x, s'))" by (simp add: moves_def)
lemma goes_Some [along]: "R s s' \<Longrightarrow> goes R s (Some s')" by (simp add: goes_def)

lemma moves_if [along]:
  "(c \<Longrightarrow> moves R s a) \<Longrightarrow> (\<not> c \<Longrightarrow> moves R s b) \<Longrightarrow> moves R s (if c then a else b)"
  by simp

lemma goes_if [along]:
  "(c \<Longrightarrow> goes R s a) \<Longrightarrow> (\<not> c \<Longrightarrow> goes R s b) \<Longrightarrow> goes R s (if c then a else b)"
  by simp

lemma moves_case_option [along]:
  "(x = None \<Longrightarrow> moves R s a) \<Longrightarrow> (\<And>y. x = Some y \<Longrightarrow> moves R s (b y)) \<Longrightarrow>
   moves R s (case x of None \<Rightarrow> a | Some y \<Rightarrow> b y)"
  by (cases x) auto

lemma goes_case_option [along]:
  "(x = None \<Longrightarrow> goes R s a) \<Longrightarrow> (\<And>y. x = Some y \<Longrightarrow> goes R s (b y)) \<Longrightarrow>
   goes R s (case x of None \<Rightarrow> a | Some y \<Rightarrow> b y)"
  by (cases x) auto

lemma moves_case_sum [along]:
  "(\<And>e. x = Inl e \<Longrightarrow> moves R s (a e)) \<Longrightarrow> (\<And>y. x = Inr y \<Longrightarrow> moves R s (b y)) \<Longrightarrow>
   moves R s (case x of Inl e \<Rightarrow> a e | Inr y \<Rightarrow> b y)"
  by (cases x) auto

lemma moves_case_prod [along]: "(\<And>a b. x = (a, b) \<Longrightarrow> moves R s (f a b)) \<Longrightarrow> moves R s (case_prod f x)"
  by (cases x) auto

lemma goes_case_prod [along]: "(\<And>a b. x = (a, b) \<Longrightarrow> goes R s (f a b)) \<Longrightarrow> goes R s (case_prod f x)"
  by (cases x) auto

lemma moves_case_prod_s [along]: "(\<And>a b. x = (a, b) \<Longrightarrow> moves R s (f a b t)) \<Longrightarrow> moves R s (case_prod f x t)"
  by (cases x) auto

lemma goes_case_prod_s [along]: "(\<And>a b. x = (a, b) \<Longrightarrow> goes R s (f a b t)) \<Longrightarrow> goes R s (case_prod f x t)"
  by (cases x) auto

lemma moves_pure:
  fixes m :: "'m option"
  shows "(\<And>x. m = Some x \<Longrightarrow> moves R s (f x)) \<Longrightarrow> moves R s (m \<bind> f)"
  by (cases m) (auto simp: moves_def)

lemma goes_pure:
  fixes m :: "'m option"
  shows "(\<And>x. m = Some x \<Longrightarrow> goes R s (f x)) \<Longrightarrow> goes R s (m \<bind> f)"
  by (cases m) (auto simp: goes_def)

text \<open>Results without a state, by their types.\<close>

lemmas moves_pures [along] =
  moves_pure [where 'm = u8] moves_pure [where 'm = u16] moves_pure [where 'm = u32]
  moves_pure [where 'm = nat] moves_pure [where 'm = int] moves_pure [where 'm = bool]
  moves_pure [where 'm = pll_lims] moves_pure [where 'm = "'x option"] moves_pure [where 'm = "'x list"]
  moves_pure [where 'm = dcb_entry] moves_pure [where 'm = dcb_i2c_entry]
  moves_pure [where 'm = "u8 \<times> nat \<times> nat \<times> nat"] moves_pure [where 'm = "nat \<times> nat \<times> nat"]
  moves_pure [where 'm = "int \<times> pll_vals"] moves_pure [where 'm = "unit res \<times> dcb_i2c_entry"]

lemmas goes_pures [along] =
  goes_pure [where 'm = u8] goes_pure [where 'm = u16] goes_pure [where 'm = u32]
  goes_pure [where 'm = int] goes_pure [where 'm = dcb_entry]

subsection \<open>The primitive steps\<close>

locale reading =
  fixes d :: drv
    and P :: "io \<Rightarrow> bool"
    and R :: "ist \<Rightarrow> ist \<Rightarrow> bool"
  assumes R_refl: "R s s"
    and R_trans: "R s s' \<Longrightarrow> R s' s'' \<Longrightarrow> R s s''"
    and R_log: "P q \<Longrightarrow> R s (s\<lparr>log := q # log s\<rparr>)"
    and P_rd32: "P (Rd32 r)"
begin

lemma moves_bind [along]:
  assumes "moves R s m" "\<And>x s1. moves R s1 (f x s1)"
  shows "moves R s (m \<bind> case_prod f)"
  using assms by (cases m) (auto simp: moves_def intro: R_trans)

lemma moves_goes_bind [along]:
  assumes "goes R s m" "\<And>s1. moves R s1 (f s1)"
  shows "moves R s (m \<bind> f)"
  using assms by (cases m) (auto simp: moves_def goes_def intro: R_trans)

lemma goes_bind [along]:
  assumes "goes R s m" "\<And>s1. goes R s1 (f s1)"
  shows "goes R s (m \<bind> f)"
  using assms by (cases m) (auto simp: goes_def intro: R_trans)

lemma goes_moves_bind [along]:
  assumes "moves R s m" "\<And>x s1. goes R s1 (f x s1)"
  shows "goes R s (m \<bind> case_prod f)"
  using assms by (cases m) (auto simp: moves_def goes_def intro: R_trans)

lemma goes_from: "R s t \<Longrightarrow> goes R t m \<Longrightarrow> goes R s m"
  by (auto simp: goes_def intro: R_trans)

lemma moves_from: "R s t \<Longrightarrow> moves R t m \<Longrightarrow> moves R s m"
  by (auto simp: moves_def intro: R_trans)

lemma R_if [along]: "R s a \<Longrightarrow> R s b \<Longrightarrow> R s (if c then a else b)"
  by simp

declare R_refl [along]

lemma moves_request: "P q \<Longrightarrow> moves R s (request d q s)"
  by (simp add: moves_def request_def R_log)

lemma goes_tell: "P q \<Longrightarrow> goes R s (tell d q s)"
  by (simp add: goes_def tell_def R_log)

lemma nv_rd32_moves [along]: "moves R s (nv_rd32 d r s)"
  unfolding nv_rd32_def by (intro along moves_request P_rd32)

lemma nv_wr32_goes: "P (Wr32 r v) \<Longrightarrow> goes R s (nv_wr32 d r v s)"
  unfolding nv_wr32_def by (rule goes_tell)

lemma nv_wr08_goes: "P (Wr08 r v) \<Longrightarrow> goes R s (nv_wr08 d r v s)"
  unfolding nv_wr08_def by (rule goes_tell)

lemma bios_rd32_moves [along]: "moves R s (bios_rd32 d r s)"
  unfolding bios_rd32_def Let_def by (intro along)

end

text \<open>
  Finding the I2C port of an output: the default port depends on a VGA register of the head, the port
  is registered on its first use, and on NV50 its pad is switched.
\<close>

locale probed = reading +
  assumes R_crtc: "R s (s\<lparr>log := Wr08 (0x6013d4 + head_offset (crtchead s)) i # log s\<rparr>)"
    and R_dcb_index: "R s (s\<lparr>log := Wr08 (0x6013d5 + head_offset (crtchead s)) 0 # log s\<rparr>)"
    and R_i2c: "R s (s\<lparr>i2c := (i2c s)[n := e]\<rparr>)"
    and P_rd08: "P (Rd08 r)"
    and P_bus: "P Kzalloc" "P (I2cRegister c)"
    and P_pad: "chipset d \<ge> NV_50 \<Longrightarrow> k \<le> 255 \<Longrightarrow> P (Wr32 (0xe500 + k * 0x50) v)"
begin

declare R_i2c [along]

lemmas bus_requests [along] = moves_request [OF P_bus(1)] moves_request [OF P_bus(2)]

lemma nv_rd08_moves [along]: "moves R s (nv_rd08 d r s)"
  unfolding nv_rd08_def by (intro along moves_request P_rd08)

lemma crtc_index_goes: "goes R s (nv_wr08 d (0x6013d4 + head_offset (crtchead s)) i s)"
  by (simp add: goes_def nv_wr08_def tell_def R_crtc)

lemma NVReadVgaCrtc5758_moves [along]: "moves R s (NVReadVgaCrtc5758 d (crtchead s) 0 s)"
proof -
  let ?q = "\<lambda>s i. s\<lparr>log := Wr08 (0x6013d4 + head_offset (crtchead s)) i # log s\<rparr>"
  let ?z = "\<lambda>s. s\<lparr>log := Wr08 (0x6013d5 + head_offset (crtchead s)) 0 # log s\<rparr>"
  have "R s (?q s 0x57)" "R (?q s 0x57) (?z (?q s 0x57))" "R (?z (?q s 0x57)) (?q (?z (?q s 0x57)) 0x58)"
    by (rule R_crtc R_dcb_index)+
  then have step: "R s (?q (?z (?q s 0x57)) 0x58)" by (blast intro: R_trans)
  show ?thesis
    unfolding NVReadVgaCrtc5758_def NVWriteVgaCrtc_def NVReadVgaCrtc_def
    using R_trans [OF step R_log [OF P_rd08]]
    by (auto simp: moves_def nv_wr08_def tell_def nv_rd08_def request_def bind_eq_Some_conv split: prod.splits)
qed

lemma dcb_entry_idx_from_crtchead_moves [along]: "moves R s (dcb_entry_idx_from_crtchead d s)"
  unfolding dcb_entry_idx_from_crtchead_def Let_def by (intro along)

lemma nouveau_i2c_init_moves [along]: "moves R s (nouveau_i2c_init d n s)"
  unfolding nouveau_i2c_init_def Let_def by (intro along)

lemma pad_register:
  assumes "chipset d \<ge> NV_50"
  shows "P (Wr32 (0xe500 + ucast (x :: u8) * 0x50) v)" "P (Wr32 (0xe500 + (y AND 15) * 0x50) v)"
proof -
  have "ucast x \<le> (255 :: u32)"
    using unsigned_less [of x, where 'a = nat] by (simp add: word_le_nat_alt unat_ucast_up)
  then show "P (Wr32 (0xe500 + ucast x * 0x50) v)" by (rule P_pad [OF assms])
  have "y AND 15 \<le> 15" by (rule word_and_le1)
  then have "y AND 15 \<le> 255" by (rule order_trans) simp
  then show "P (Wr32 (0xe500 + (y AND 15) * 0x50) v)" by (rule P_pad [OF assms])
qed

lemma i2c_pad_enable_goes [along]: "goes R s (i2c_pad_enable d e s)"
  unfolding i2c_pad_enable_def Let_def
  by (intro along) (auto intro!: nv_wr32_goes pad_register split: if_splits)

lemma nouveau_i2c_find_moves [along]: "moves R s (nouveau_i2c_find d n s)"
  unfolding nouveau_i2c_find_def Let_def by (intro along)

lemma i2c_resolve_index_moves [along]: "moves R s (i2c_resolve_index d i s)"
  unfolding i2c_resolve_index_def Let_def by (intro along)

lemma init_i2c_device_find_moves [along]: "moves R s (init_i2c_device_find d i s)"
  unfolding init_i2c_device_find_def
  by (intro along) (rule moves_from [OF R_i2c nouveau_i2c_find_moves])

end

locale traced = probed +
  assumes R_seq: "R s (s\<lparr>log := Wr08 (prmvio d (crtchead s) 0xc03c4) i # log s\<rparr>)"
    and R_iexecute: "R s (s\<lparr>iexecute := b\<rparr>)"
    and R_irepeat: "R s (s\<lparr>irepeat := b\<rparr>)"
    and R_head0: "R s (s\<lparr>crtchead := 0\<rparr>)"
    and R_head1: "R s (s\<lparr>crtchead := 1\<rparr>)"
    and P_i2c_read: "P (SmbusRd c a x)" "P (I2cRead c a bs)"
    and P_wait: "P (Msleep t)" "P (Mdelay t)" "P (Udelay t)"
    and P_mem: "chipset d < 0x40 \<Longrightarrow> q \<in> {FbMap, FbRd r, FbWr r v} \<Longrightarrow> P q"
    and P_mem_seq: "chipset d < 0x40 \<Longrightarrow> r \<in> {0xc03c4, 0xc03c5} \<Longrightarrow> P (Wr08 r x)"
    and P_output: "active_output (bios d) \<noteq> None \<Longrightarrow> P q"
    and P_execute: "execute (bios d) \<Longrightarrow> P q"
begin

lemmas P_read = P_rd32 P_rd08 P_i2c_read

lemmas R_steps [along] = R_iexecute R_irepeat R_head0 R_head1

lemmas requests [along] =
  moves_request [OF P_i2c_read(1)] moves_request [OF P_i2c_read(2)]
  goes_tell [OF P_wait(1)] goes_tell [OF P_wait(2)] goes_tell [OF P_wait(3)]

lemma for_each_goes [along]:
  assumes "\<And>x s. goes R s (body x s)"
  shows "goes R s (for_each body xs s)"
proof (induction xs arbitrary: s)
  case Nil
  then show ?case by (simp add: along)
next
  case (Cons x xs)
  then show ?case by (auto intro: goes_bind assms)
qed

lemma until_moves [along]:
  assumes "\<And>x s. moves R s (body x s)"
  shows "moves R s (until body xs s)"
proof (induction xs arbitrary: s)
  case Nil
  then show ?case by (simp add: along)
next
  case (Cons x xs)
  then show ?case by (auto intro!: moves_bind assms along)
qed

subsection \<open>Registers and ports\<close>

text \<open>Every write goes through \<open>P_execute\<close>: it happens only when the VBIOS is executed.\<close>

lemma nv_wr32_exec: "execute (bios d) \<Longrightarrow> goes R s (nv_wr32 d r v s)"
  by (intro nv_wr32_goes P_execute)

lemma NVWriteVgaSeq_exec: "execute (bios d) \<Longrightarrow> goes R s (NVWriteVgaSeq d h i v s)"
  unfolding NVWriteVgaSeq_def NVWritePRMVIO_def by (intro along nv_wr08_goes P_execute)

lemma NVWriteVgaCrtc_exec: "execute (bios d) \<Longrightarrow> goes R s (NVWriteVgaCrtc d h i v s)"
  unfolding NVWriteVgaCrtc_def by (intro along nv_wr08_goes P_execute)

lemma seq_index_goes: "goes R s (nv_wr08 d (prmvio d (crtchead s) 0xc03c4) i s)"
  by (simp add: goes_def nv_wr08_def tell_def R_seq)

lemma NVReadVgaSeq_moves [along]: "moves R s (NVReadVgaSeq d (crtchead s) i s)"
  unfolding NVReadVgaSeq_def NVWritePRMVIO_def NVReadPRMVIO_def by (intro along seq_index_goes)

lemma NVReadVgaCrtc_moves [along]: "moves R s (NVReadVgaCrtc d (crtchead s) i s)"
  unfolding NVReadVgaCrtc_def by (intro along crtc_index_goes)

lemma bios_wr32_goes [along]: "goes R s (bios_wr32 d r v s)"
  unfolding bios_wr32_def Let_def by (intro along nv_wr32_exec)

lemma bios_md32_goes [along]: "goes R s (bios_md32 d r m v s)"
  unfolding bios_md32_def Let_def by (intro along)

lemma bios_idxprt_rd_moves [along]: "moves R s (bios_idxprt_rd d p i s)"
  unfolding bios_idxprt_rd_def Let_def by (intro along)

lemma idxprt_store_goes [along]: "goes R s (idxprt_store d p i v s)"
  unfolding idxprt_store_def by (auto intro!: along NVWriteVgaSeq_exec NVWriteVgaCrtc_exec)

lemma bios_idxprt_wr_goes [along]: "goes R s (bios_idxprt_wr d p i v s)"
proof -
  let ?t = "if p = NV_CIO_CRX__COLOR \<and> i = NV_CIO_CRE_44 \<and> v \<noteq> NV_CIO_CRE_44_HEADB
            then s\<lparr>crtchead := 0\<rparr> else s"
  have "goes R ?t (idxprt_store d p i v ?t)" by (intro along)
  then have "goes R s (idxprt_store d p i v ?t)" by (rule goes_from [rotated]) (intro along)
  then show ?thesis unfolding bios_idxprt_wr_def Let_def by (intro along)
qed

lemma bios_port_rd_moves [along]: "moves R s (bios_port_rd d p s)"
  unfolding bios_port_rd_def Let_def NVReadPRMVIO_def by (intro along)

lemma bios_port_wr_goes [along]: "goes R s (bios_port_wr d p v s)"
  unfolding bios_port_wr_def NVWritePRMVIO_def by (auto intro!: along nv_wr08_goes P_execute)

lemma io_flag_condition_met_moves [along]: "moves R s (io_flag_condition_met d c s)"
  unfolding io_flag_condition_met_def Let_def by (intro along)

lemma bios_condition_met_moves [along]: "moves R s (bios_condition_met d c s)"
  unfolding bios_condition_met_def Let_def by (intro along)

lemma io_condition_met_moves [along]: "moves R s (io_condition_met d c s)"
  unfolding io_condition_met_def Let_def by (intro along)

subsection \<open>PLLs\<close>

lemma c51_refclk_moves [along]: "moves R s (c51_refclk d lim s)"
  unfolding c51_refclk_def Let_def by (intro along)

lemma lims_v20_moves [along]: "moves R s (lims_v20 d h rl n lim s)"
  unfolding lims_v20_def Let_def by (intro along)

lemma lims_versioned_moves [along]: "moves R s (lims_versioned d ver h rl n lim s)"
  unfolding lims_versioned_def Let_def by (intro along)

lemma get_pll_limits_moves [along]: "moves R s (get_pll_limits d r s)"
  unfolding get_pll_limits_def Let_def by (intro along)

lemma nv50_pll_set_moves [along]: "moves R s (nv50_pll_set d r c s)"
  unfolding nv50_pll_set_def Let_def by (intro along nv_wr32_exec)

text \<open>Only executed.\<close>

lemma powerctrl_begin_exec: "execute (bios d) \<Longrightarrow> moves R s (powerctrl_begin d sh s)"
  unfolding powerctrl_begin_def by (intro along nv_wr32_exec)

lemma powerctrl_end_exec: "execute (bios d) \<Longrightarrow> goes R s (powerctrl_end d sh v s)"
  unfolding powerctrl_end_def by (intro along nv_wr32_exec)

lemma NVReadRAMDAC_moves [along]: "moves R s (NVReadRAMDAC d h r s)"
  unfolding NVReadRAMDAC_def by (intro along)

lemma NVWriteRAMDAC_exec: "execute (bios d) \<Longrightarrow> goes R s (NVWriteRAMDAC d h r v s)"
  unfolding NVWriteRAMDAC_def by (intro nv_wr32_exec)

lemmas exec = nv_wr32_exec powerctrl_begin_exec powerctrl_end_exec NVWriteRAMDAC_exec

lemma setPLL_single_exec: "execute (bios d) \<Longrightarrow> goes R s (setPLL_single d r pv s)"
  unfolding setPLL_single_def Let_def by (intro along exec)

lemma high_write_exec: "execute (bios d) \<Longrightarrow> goes R s (high_write d r1 r2 p1 p2 o5 r5 s)"
  unfolding high_write_def Let_def by (intro along exec)

lemma setPLL_double_highregs_exec: "execute (bios d) \<Longrightarrow> goes R s (setPLL_double_highregs d r pv s)"
  unfolding setPLL_double_highregs_def Let_def by (intro along exec high_write_exec)

lemma low_mpll_exec: "execute (bios d) \<Longrightarrow> moves R s (low_mpll d r pv Pval s)"
  unfolding low_mpll_def Let_def by (intro along exec)

lemma low_write_exec: "execute (bios d) \<Longrightarrow> goes R s (low_write d r n op pv s4 s)"
  unfolding low_write_def Let_def by (intro along exec)

lemma setPLL_double_lowregs_exec: "execute (bios d) \<Longrightarrow> goes R s (setPLL_double_lowregs d r pv s)"
  unfolding setPLL_double_lowregs_def Let_def by (intro along exec low_mpll_exec low_write_exec)

lemma nouveau_hw_setpll_exec: "execute (bios d) \<Longrightarrow> goes R s (nouveau_hw_setpll d r pv s)"
  unfolding nouveau_hw_setpll_def
  by (intro along setPLL_single_exec setPLL_double_highregs_exec setPLL_double_lowregs_exec)

lemma setPLL_moves [along]: "moves R s (setPLL d r c s)"
  unfolding setPLL_def Let_def by (intro along nouveau_hw_setpll_exec)

subsection \<open>The display configuration\<close>

lemma get_tmds_index_reg_moves [along]: "moves R s (get_tmds_index_reg d m s)"
  unfolding get_tmds_index_reg_def Let_def by (intro along)

text \<open>The loops that the card ends.\<close>

lemma moves_all: "(\<And>y. m = Some y \<Longrightarrow> R s (snd y)) \<Longrightarrow> moves R s m"
  by (auto simp: moves_def)

lemma timer_settle_moves [along]: "moves R s (timer_settle d h s)"
proof (rule moves_all)
  fix y
  assume *: "timer_settle d h s = Some y"
  have "d = d \<longrightarrow> R s (snd y)"
  proof (rule timer_settle.raw_induct [where P = "\<lambda>d' h s y. d' = d \<longrightarrow> R s (snd y)", OF _ *], intro impI)
    fix f and d' :: drv and h :: u32 and s :: ist and y
    assume IH: "\<And>d' h s y. f d' h s = Some y \<Longrightarrow> d' = d \<longrightarrow> R s (snd y)"
      and body: "(nv_rd32 d' 0x9400 s \<bind> (\<lambda>(low, s). nv_rd32 d' 0x9410 s \<bind> (\<lambda>(high2, s).
        if h = high2 then Some (push_bit 32 (ucast high2) OR ucast low, s) else f d' high2 s))) = Some y"
      and d: "d' = d"
    have f: "moves R s (f d h s)" for h s using IH by (auto simp: moves_def)
    from body have "moves R s (Some y)" unfolding d by (rule ssubst [of _ _ "moves R s", OF sym]) (intro along f)
    then show "R s (snd y)" by (cases y) (simp add: moves_def)
  qed
  then show "R s (snd y)" by simp
qed

lemma nv04_timer_read_moves [along]: "moves R s (nv04_timer_read d s)"
  unfolding nv04_timer_read_def Let_def by (intro along)

lemma wait_from_moves [along]: "moves R s (wait_from d t r m v st s)"
proof (rule moves_all)
  fix y
  assume *: "wait_from d t r m v st s = Some y"
  have "d = d \<longrightarrow> R s (snd y)"
  proof (rule wait_from.raw_induct [where P = "\<lambda>d' t r m v st s y. d' = d \<longrightarrow> R s (snd y)", OF _ *], intro impI)
    fix f and d' :: drv and t r m v st and s :: ist and y
    assume IH: "\<And>d' t r m v st s y. f d' t r m v st s = Some y \<Longrightarrow> d' = d \<longrightarrow> R s (snd y)"
      and body: "(nv_rd32 d' r s \<bind> (\<lambda>(x, s). if x AND m = v then Some (True, s)
        else nv04_timer_read d' s \<bind> (\<lambda>(now, s). if now - st < t then f d' t r m v st s else Some (False, s)))) = Some y"
      and d: "d' = d"
    have f: "moves R s (f d t r m v st s)" for s using IH by (auto simp: moves_def)
    from body have "moves R s (Some y)" unfolding d by (rule ssubst [of _ _ "moves R s", OF sym]) (intro along f)
    then show "R s (snd y)" by (cases y) (simp add: moves_def)
  qed
  then show "R s (snd y)" by simp
qed

lemma nouveau_wait_until_moves [along]: "moves R s (nouveau_wait_until d t r m v s)"
  unfolding nouveau_wait_until_def Let_def by (intro along)

lemma nv_wait_moves [along]: "moves R s (nv_wait d r m v s)"
  unfolding nv_wait_def Let_def by (intro along)

subsection \<open>The AUX channel\<close>

text \<open>It is used only for an active output.\<close>

lemma nv_wr32_output: "active_output (bios d) \<noteq> None \<Longrightarrow> goes R s (nv_wr32 d r v s)"
  by (intro nv_wr32_goes P_output)

lemma aux_ready_moves [along]: "moves R s (aux_ready d ch n s)"
proof (induction n arbitrary: s)
  case 0
  show ?case unfolding aux_ready.simps by (intro along)
next
  case (Suc n)
  show ?case unfolding aux_ready.simps by (intro along Suc)
qed

lemma aux_retry_output:
  assumes "active_output (bios d) \<noteq> None"
  shows "moves R s (aux_retry d ch ctrl n stat s)"
proof (induction n arbitrary: stat s)
  case 0
  show ?case unfolding aux_retry.simps by (intro along)
next
  case (Suc n)
  show ?case unfolding aux_retry.simps by (intro along nv_wr32_output [OF assms] Suc)
qed

lemma aux_put_output: "active_output (bios d) \<noteq> None \<Longrightarrow> goes R s (aux_put d ch bs s)"
  unfolding aux_put_def Let_def by (intro along nv_wr32_output)

lemma aux_get_moves [along]: "moves R s (aux_get d ch n s)"
  unfolding aux_get_def Let_def by (intro along)

lemma aux_transfer_output: "active_output (bios d) \<noteq> None \<Longrightarrow> moves R s (aux_transfer d ch cmd addr bs s)"
  unfolding aux_transfer_def Let_def by (intro along nv_wr32_output aux_put_output aux_retry_output)

lemma nouveau_dp_auxch_output: "active_output (bios d) \<noteq> None \<Longrightarrow> moves R s (nouveau_dp_auxch d c cmd addr bs s)"
  unfolding nouveau_dp_auxch_def Let_def by (intro along nv_wr32_output aux_transfer_output)

subsection \<open>The handlers\<close>

lemma nv50_gpio_set_exec: "execute (bios d) \<Longrightarrow> moves R s (nv50_gpio_set d t st s)"
  unfolding nv50_gpio_set_def Let_def by (intro along nv_wr32_exec)

lemma port_config_moves [along]: "moves R s (port_config d p i m sh s)"
  unfolding port_config_def Let_def by (intro along)

lemma init_io_restrict_prog_moves [along]: "moves R s (init_io_restrict_prog d ofs s)"
  unfolding init_io_restrict_prog_def Let_def by (intro along)

lemma init_io_restrict_pll_moves [along]: "moves R s (init_io_restrict_pll d ofs s)"
  unfolding init_io_restrict_pll_def Let_def by (intro along)

lemma init_io_restrict_pll2_moves [along]: "moves R s (init_io_restrict_pll2 d ofs s)"
  unfolding init_io_restrict_pll2_def Let_def by (intro along)

lemma init_end_repeat_moves [along]: "moves R s (init_end_repeat d ofs s)"
  unfolding init_end_repeat_def Let_def by (intro along)

lemma init_copy_moves [along]: "moves R s (init_copy d ofs s)"
  unfolding init_copy_def Let_def by (intro along)

lemma init_not_moves [along]: "moves R s (init_not d ofs s)"
  unfolding init_not_def Let_def by (intro along)

lemma init_io_flag_condition_moves [along]: "moves R s (init_io_flag_condition d ofs s)"
  unfolding init_io_flag_condition_def Let_def by (intro along)

lemma dp_condition_aux_output: "active_output (bios d) \<noteq> None \<Longrightarrow> goes R s (dp_condition_aux d e cond s)"
  unfolding dp_condition_aux_def Let_def by (intro along nouveau_dp_auxch_output)

lemma init_dp_condition_moves [along]: "moves R s (init_dp_condition d ofs s)"
  unfolding init_dp_condition_def by (intro along dp_condition_aux_output) simp_all

lemma init_op_3b_moves [along]: "moves R s (init_op_3b d ofs s)"
  unfolding init_op_3b_def Let_def by (intro along)

lemma init_op_3c_moves [along]: "moves R s (init_op_3c d ofs s)"
  unfolding init_op_3c_def Let_def by (intro along)

lemma init_idx_addr_latched_moves [along]: "moves R s (init_idx_addr_latched d ofs s)"
  unfolding init_idx_addr_latched_def Let_def by (intro along)

lemma init_pll2_moves [along]: "moves R s (init_pll2 d ofs s)"
  unfolding init_pll2_def Let_def by (intro along)

text \<open>Requests that only an executed VBIOS makes.\<close>

lemma moves_request_exec: "\<not> \<not> execute (bios d) \<Longrightarrow> moves R s (request d q s)"
  by (intro moves_request P_execute) simp

lemma goes_tell_exec: "execute (bios d) \<Longrightarrow> goes R s (tell d q s)"
  by (intro goes_tell P_execute)

lemma init_i2c_byte_moves [along]: "moves R s (init_i2c_byte d ofs s)"
  unfolding init_i2c_byte_def Let_def by (intro along moves_request_exec goes_tell_exec)

lemma init_zm_i2c_byte_moves [along]: "moves R s (init_zm_i2c_byte d ofs s)"
  unfolding init_zm_i2c_byte_def Let_def by (intro along moves_request_exec goes_tell_exec)

lemma init_zm_i2c_moves [along]: "moves R s (init_zm_i2c d ofs s)"
  unfolding init_zm_i2c_def Let_def by (intro along moves_request_exec goes_tell_exec)

lemma init_i2c_if_moves [along]: "moves R s (init_i2c_if d ofs s)"
  unfolding init_i2c_if_def Let_def by (intro along)

lemma init_i2c_long_if_moves [along]: "moves R s (init_i2c_long_if d ofs s)"
  unfolding init_i2c_long_if_def Let_def by (intro along)

lemma init_tmds_moves [along]: "moves R s (init_tmds d ofs s)"
  unfolding init_tmds_def Let_def by (intro along)

lemma init_zm_tmds_group_moves [along]: "moves R s (init_zm_tmds_group d ofs s)"
  unfolding init_zm_tmds_group_def Let_def by (intro along)

lemma init_cr_idx_adr_latch_moves [along]: "moves R s (init_cr_idx_adr_latch d ofs s)"
  unfolding init_cr_idx_adr_latch_def Let_def by (intro along)

lemma init_cr_moves [along]: "moves R s (init_cr d ofs s)"
  unfolding init_cr_def Let_def by (intro along)

lemma init_zm_cr_moves [along]: "moves R s (init_zm_cr d ofs s)"
  unfolding init_zm_cr_def Let_def by (intro along)

lemma init_zm_cr_group_moves [along]: "moves R s (init_zm_cr_group d ofs s)"
  unfolding init_zm_cr_group_def Let_def by (intro along)

lemma init_condition_time_moves [along]: "moves R s (init_condition_time d ofs s)"
  unfolding init_condition_time_def Let_def by (intro along)

lemma init_ltime_moves [along]: "moves R s (init_ltime d ofs s)"
  unfolding init_ltime_def Let_def by (intro along)

lemma init_time_moves [along]: "moves R s (init_time d ofs s)"
  unfolding init_time_def Let_def by (intro along)

lemma init_zm_reg_sequence_moves [along]: "moves R s (init_zm_reg_sequence d ofs s)"
  unfolding init_zm_reg_sequence_def Let_def by (intro along)

lemma init_copy_nv_reg_moves [along]: "moves R s (init_copy_nv_reg d ofs s)"
  unfolding init_copy_nv_reg_def Let_def by (intro along)

lemma init_zm_index_io_moves [along]: "moves R s (init_zm_index_io d ofs s)"
  unfolding init_zm_index_io_def Let_def by (intro along)

lemma init_reset_moves [along]: "moves R s (init_reset d ofs s)"
  unfolding init_reset_def Let_def by (intro along)

lemma bios_rmw_goes [along]: "goes R s (bios_rmw d r k v s)"
  unfolding bios_rmw_def Let_def by (intro along)

lemma io_magic_goes [along]: "goes R s (io_magic d s)"
  unfolding io_magic_def Let_def by (intro along)

lemma init_io_moves [along]: "moves R s (init_io d ofs s)"
  unfolding init_io_def Let_def by (intro along)

lemma init_ram_condition_moves [along]: "moves R s (init_ram_condition d ofs s)"
  unfolding init_ram_condition_def Let_def by (intro along)

lemma init_nv_reg_moves [along]: "moves R s (init_nv_reg d ofs s)"
  unfolding init_nv_reg_def Let_def by (intro along)

lemma init_macro_moves [along]: "moves R s (init_macro d ofs s)"
  unfolding init_macro_def Let_def by (intro along)

lemma init_done_moves [along]: "moves R s (init_done d ofs s)"
  unfolding init_done_def Let_def by (intro along)

lemma init_resume_moves [along]: "moves R s (init_resume d ofs s)"
  unfolding init_resume_def Let_def by (intro along)

lemma init_condition_moves [along]: "moves R s (init_condition d ofs s)"
  unfolding init_condition_def Let_def by (intro along)

lemma init_io_condition_moves [along]: "moves R s (init_io_condition d ofs s)"
  unfolding init_io_condition_def Let_def by (intro along)

lemma init_index_io_moves [along]: "moves R s (init_index_io d ofs s)"
  unfolding init_index_io_def Let_def by (intro along)

lemma init_pll_moves [along]: "moves R s (init_pll d ofs s)"
  unfolding init_pll_def Let_def by (intro along)

lemma init_zm_reg_moves [along]: "moves R s (init_zm_reg d ofs s)"
  unfolding init_zm_reg_def Let_def by (intro along)

lemma init_ram_restrict_pll_moves [along]: "moves R s (init_ram_restrict_pll d ofs s)"
  unfolding init_ram_restrict_pll_def Let_def by (intro along)

lemma init_8c_moves [along]: "moves R s (init_8c d ofs s)"
  unfolding init_8c_def Let_def by (intro along)

lemma init_8d_moves [along]: "moves R s (init_8d d ofs s)"
  unfolding init_8d_def Let_def by (intro along)

lemma init_one_gpio_goes [along]: "goes R s (init_one_gpio d g s)"
  unfolding init_one_gpio_def Let_def by (intro along nv50_gpio_set_exec)

lemma init_gpio_moves [along]: "moves R s (init_gpio d ofs s)"
  unfolding init_gpio_def Let_def by (intro along)

lemma init_ram_restrict_zm_reg_group_moves [along]: "moves R s (init_ram_restrict_zm_reg_group d ofs s)"
  unfolding init_ram_restrict_zm_reg_group_def Let_def by (intro along)

lemma init_copy_zm_reg_moves [along]: "moves R s (init_copy_zm_reg d ofs s)"
  unfolding init_copy_zm_reg_def Let_def by (intro along)

lemma init_zm_reg_group_addr_latched_moves [along]: "moves R s (init_zm_reg_group_addr_latched d ofs s)"
  unfolding init_zm_reg_group_addr_latched_def Let_def by (intro along)

lemma init_reserved_moves [along]: "moves R s (init_reserved d ofs s)"
  unfolding init_reserved_def Let_def by (intro along)

lemma init_96_moves [along]: "moves R s (init_96 d ofs s)"
  unfolding init_96_def Let_def by (intro along)

lemma init_97_moves [along]: "moves R s (init_97 d ofs s)"
  unfolding init_97_def Let_def by (intro along)

text \<open>Without an active output the AUX opcodes only return their length.\<close>

lemma init_auxch_moves [along]: "moves R s (init_auxch d ofs s)"
proof (cases "active_output (bios d)")
  case None
  then show ?thesis unfolding init_auxch_def output_auxch_def Let_def by (simp, intro along)
next
  case (Some e)
  then show ?thesis
    unfolding init_auxch_def output_auxch_def Let_def by (intro along nouveau_dp_auxch_output) simp_all
qed

lemma init_zm_auxch_moves [along]: "moves R s (init_zm_auxch d ofs s)"
proof (cases "active_output (bios d)")
  case None
  then show ?thesis unfolding init_zm_auxch_def output_auxch_def Let_def by (simp, intro along)
next
  case (Some e)
  then show ?thesis
    unfolding init_zm_auxch_def output_auxch_def Let_def by (intro along nouveau_dp_auxch_output) simp_all
qed

subsection \<open>Probing memory\<close>

text \<open>Only old chips do.\<close>

lemma fb_requests:
  assumes "chipset d < 0x40"
  shows "moves R s (request d FbMap s)" "moves R s (request d (FbRd r) s)" "goes R s (tell d (FbWr r v) s)"
    and "goes R s (nv_wr08 d 0xc03c4 i s)" "goes R s (nv_wr08 d 0xc03c5 i s)"
  using assms by (auto intro!: moves_request goes_tell nv_wr08_goes P_mem P_mem_seq)

lemma peek_fb_mem: "chipset d < 0x40 \<Longrightarrow> moves R s (peek_fb d a s)"
  unfolding peek_fb_def Let_def by (intro along fb_requests )

lemma poke_fb_mem: "chipset d < 0x40 \<Longrightarrow> goes R s (poke_fb d a v s)"
  unfolding poke_fb_def Let_def by (intro along fb_requests )

lemma read_back_fb_mem: "chipset d < 0x40 \<Longrightarrow> moves R s (read_back_fb d a v s)"
  unfolding read_back_fb_def Let_def by (intro along fb_requests peek_fb_mem poke_fb_mem)

lemma poke_four_mem: "chipset d < 0x40 \<Longrightarrow> goes R s (poke_four d v s)"
  unfolding poke_four_def Let_def by (intro along fb_requests poke_fb_mem)

lemma seq_mem:
  assumes "chipset d < 0x40"
  shows "goes R s (seq_off d s)" "goes R s (seq_on d s)"
  unfolding seq_off_def seq_on_def NVReadVgaSeq_def NVWriteVgaSeq_def NVReadPRMVIO_def NVWritePRMVIO_def prmvio_def 
  by (simp_all, (intro along fb_requests [OF assms])+)

lemmas fb = fb_requests peek_fb_mem poke_fb_mem read_back_fb_mem poke_four_mem seq_mem

lemma nv04_probe_sdram_mem: "chipset d < 0x40 \<Longrightarrow> goes R s (nv04_probe_sdram d s)"
  unfolding nv04_probe_sdram_def Let_def by (intro along fb )

lemma nv04_probe_8mb_mem: "chipset d < 0x40 \<Longrightarrow> goes R s (nv04_probe_8mb d s)"
  unfolding nv04_probe_8mb_def Let_def by (intro along fb )

lemma nv04_probe_mem: "chipset d < 0x40 \<Longrightarrow> goes R s (nv04_probe d s)"
  unfolding nv04_probe_def Let_def by (intro along fb nv04_probe_sdram_mem nv04_probe_8mb_mem)

lemma nv04_init_compute_mem_mem: "chipset d < 0x40 \<Longrightarrow> moves R s (nv04_init_compute_mem d s)"
  unfolding nv04_init_compute_mem_def Let_def by (intro along fb nv04_probe_mem)

lemma nv05_memory_config_moves [along]: "moves R s (nv05_memory_config d s)"
  unfolding nv05_memory_config_def Let_def by (intro along)

lemma nv05_scramble_goes [along]: "goes R s (nv05_scramble d s)"
  unfolding nv05_scramble_def Let_def by (intro along)

lemma nv05_probe_length_mem: "chipset d < 0x40 \<Longrightarrow> goes R s (nv05_probe_length d s)"
  unfolding nv05_probe_length_def Let_def by (intro along fb )

lemma nv05_setup_mem: "chipset d < 0x40 \<Longrightarrow> goes R s (nv05_setup d cfg s)"
  unfolding nv05_setup_def Let_def by (intro along fb nv05_probe_length_mem)

lemma nv05_init_compute_mem_mem: "chipset d < 0x40 \<Longrightarrow> moves R s (nv05_init_compute_mem d s)"
  unfolding nv05_init_compute_mem_def Let_def by (intro along fb nv05_setup_mem)

lemma nv10_probe_width_mem: "chipset d < 0x40 \<Longrightarrow> moves R s (nv10_probe_width d w s)"
  unfolding nv10_probe_width_def Let_def by (intro along fb )

lemma nv10_probe_amount_mem: "chipset d < 0x40 \<Longrightarrow> moves R s (nv10_probe_amount d p s)"
  unfolding nv10_probe_amount_def Let_def by (intro along fb )

lemma nv10_init_compute_mem_mem: "chipset d < 0x40 \<Longrightarrow> moves R s (nv10_init_compute_mem d s)"
  unfolding nv10_init_compute_mem_def Let_def by (intro along fb nv10_probe_width_mem nv10_probe_amount_mem)

lemma nv20_poke_amount_mem:
  assumes "chipset d < 0x40"
  shows "goes R s (nv20_poke_amount d off s)"
proof -
  have "d' = d \<longrightarrow> goes R s (nv20_poke_amount d' off s)" for d'
  proof (induction d' off s rule: nv20_poke_amount.induct)
    case (1 d' off s)
    show ?case
    proof
      assume d: "d' = d"
      show "goes R s (nv20_poke_amount d' off s)"
      proof (cases "off > 0x2000000")
        case True
        show ?thesis
        proof (cases "poke_fb d (off - 4) off s")
          case None
          with True d show ?thesis by (subst nv20_poke_amount.simps) (simp add: goes_None)
        next
          case (Some t)
          with True d 1 have "goes R t (nv20_poke_amount d (off - 0x2000000) t)" by blast
          moreover have "R s t" using poke_fb_mem [OF assms] Some by (rule goesD)
          ultimately show ?thesis using True Some d
            by (subst nv20_poke_amount.simps) (simp add: goes_from)
        qed
      next
        case False
        then show ?thesis by (subst nv20_poke_amount.simps) (simp add: goes_Some R_refl)
      qed
    qed
  qed
  then show ?thesis by simp
qed

lemma nv20_init_compute_mem_mem: "chipset d < 0x40 \<Longrightarrow> moves R s (nv20_init_compute_mem d s)"
  unfolding nv20_init_compute_mem_def Let_def by (intro along fb nv20_poke_amount_mem)

lemma init_compute_mem_moves [along]: "moves R s (init_compute_mem d ofs s)"
  unfolding init_compute_mem_def
  by (intro along nv20_init_compute_mem_mem nv10_init_compute_mem_mem nv05_init_compute_mem_mem
    nv04_init_compute_mem_mem) simp_all

lemma meminit_entry_moves [along]: "moves R s (meminit_entry d s)"
  unfolding meminit_entry_def Let_def by (intro along)

lemma goes_all: "(\<And>y. m = Some y \<Longrightarrow> R s y) \<Longrightarrow> goes R s m"
  by (auto simp: goes_def)

lemma configure_mem_loop_goes [along]: "goes R s (configure_mem_loop d a b s)"
proof (rule goes_all)
  fix y
  assume *: "configure_mem_loop d a b s = Some y"
  have "d = d \<longrightarrow> R s y"
  proof (rule configure_mem_loop.raw_induct [where P = "\<lambda>d' a b s y. d' = d \<longrightarrow> R s y", OF _ *], intro impI)
    fix f and d' :: drv and a b and s y :: ist
    assume IH: "\<And>d' a b s y. f d' a b s = Some y \<Longrightarrow> d' = d \<longrightarrow> R s y"
      and body: "(rom32 d' (unat a) \<bind> (\<lambda>r. if r = 0xffffffff then Some s
        else if r = 0x1002d4 \<or> r = 0x10021c \<or> r = 0x1002d0
        then bios_wr32 d' r 1 s \<bind> f d' (a + 4) b
        else rom32 d' (unat b) \<bind> (\<lambda>v. (if v = 0xffffffff then Some s else bios_wr32 d' r v s) \<bind>
          f d' (a + 4) (b + 4)))) = Some y"
      and d: "d' = d"
    have f: "goes R s (f d a b s)" for a b s using IH by (auto simp: goes_def)
    from body have "goes R s (Some y)" unfolding d by (rule ssubst [of _ _ "goes R s", OF sym]) (intro along f)
    then show "R s y" by (simp add: goes_def)
  qed
  then show "R s y" by simp
qed

lemma init_configure_mem_moves [along]: "moves R s (init_configure_mem d ofs s)"
  unfolding init_configure_mem_def Let_def by (intro along)

lemma init_configure_clk_moves [along]: "moves R s (init_configure_clk d ofs s)"
  unfolding init_configure_clk_def Let_def by (intro along)

lemma init_configure_preinit_moves [along]: "moves R s (init_configure_preinit d ofs s)"
  unfolding init_configure_preinit_def Let_def by (intro along)

subsection \<open>Whole scripts\<close>

lemma init_repeat_moves:
  assumes "\<And>off s. moves R s (parse d off s)"
  shows "moves R s (init_repeat parse d ofs s)"
proof -
  have "moves R (s\<lparr>irepeat := True\<rparr>) (do {
      s \<leftarrow> for_each (\<lambda>_ s. do { (_, s) \<leftarrow> parse d (ucast ofs + 2) s; Some s }) xs (s\<lparr>irepeat := True\<rparr>);
      Some (Inr 2 :: nat res, s\<lparr>irepeat := False\<rparr>) })" for xs :: "nat list"
    by (intro along assms)
  then have "moves R s (do {
      s \<leftarrow> for_each (\<lambda>_ s. do { (_, s) \<leftarrow> parse d (ucast ofs + 2) s; Some s }) xs (s\<lparr>irepeat := True\<rparr>);
      Some (Inr 2 :: nat res, s\<lparr>irepeat := False\<rparr>) })" for xs :: "nat list"
    by (rule moves_from [OF R_irepeat])
  then show ?thesis unfolding init_repeat_def Let_def by (intro moves_pures)
qed

lemma init_sub_direct_moves:
  assumes "\<And>off s. moves R s (parse d off s)"
  shows "moves R s (init_sub_direct parse d ofs s)"
  unfolding init_sub_direct_def by (intro along assms)

lemma init_sub_moves:
  assumes "\<And>off s. moves R s (parse d off s)"
  shows "moves R s (init_sub parse d ofs s)"
  unfolding init_sub_def by (intro along assms)

lemma handler_moves:
  assumes parse: "\<And>off s. moves R s (parse d off s)"
    and h: "map_of (itbl_entry parse) opc = Some h"
  shows "moves R s (h d ofs s)"
proof -
  from map_of_SomeD [OF h] have "(opc, h) \<in> set (itbl_entry parse)" .
  then show ?thesis
    unfolding itbl_entry_def list.set
    by (elim insertE emptyE; simp only: prod.inject; elim conjE; hypsubst;
      intro along init_repeat_moves init_sub_direct_moves init_sub_moves parse)
qed

lemma parse_loop_moves:
  assumes "\<And>off s. moves R s (parse d off s)"
  shows "moves R s (parse_loop parse n d off s)"
proof (induction n arbitrary: off s)
  case 0
  show ?case unfolding parse_loop.simps by (intro along)
next
  case (Suc n)
  show ?case unfolding parse_loop.simps by (intro along Suc handler_moves) (rule assms)
qed

lemma parse_init_table_moves: "moves R s (parse_init_table fuel d off s)"
proof (induction fuel arbitrary: off s)
  case 0
  show ?case unfolding parse_init_table.simps by (rule moves_None)
next
  case (Suc fuel)
  show ?case unfolding parse_init_table.simps by (rule parse_loop_moves) (rule Suc)
qed

end

end
