(* ===== verification/InitLen.thy ===== *)
theory InitLen
  imports InitTable
begin

section \<open>The lengths of the opcodes\<close>

text \<open>
  The interpreter moves on by the number the handler returns. Here that number is a function of the
  image alone: a table with the length of every opcode, in the columns the comment above
  \<open>itbl_entry\<close> still names (length, offset of the count, multiplier). A script is therefore cut into
  opcodes in one way only, whether it is executed, skipped or run dry, and whatever the card answers.
  The same goes for what a skipped opcode does: nothing.
\<close>

definition op_lens :: "(u8 \<times> nat \<times> nat \<times> nat) list" where
  "op_lens = [
     (0x32, 11, 6, 4), (0x33, 2, 0, 0), (0x34, 12, 7, 2), (0x36, 1, 0, 0), (0x37, 11, 0, 0),
     (0x38, 1, 0, 0), (0x39, 2, 0, 0), (0x3A, 3, 0, 0), (0x3B, 2, 0, 0), (0x3C, 2, 0, 0),
     (0x49, 18, 17, 2), (0x4A, 11, 6, 4), (0x4B, 9, 0, 0), (0x4C, 4, 3, 3), (0x4D, 4, 3, 2),
     (0x4E, 4, 3, 1), (0x4F, 5, 0, 0), (0x50, 3, 2, 2), (0x51, 5, 4, 1), (0x52, 4, 0, 0),
     (0x53, 3, 0, 0), (0x54, 2, 1, 2), (0x56, 3, 0, 0), (0x57, 3, 0, 0), (0x58, 6, 5, 4),
     (0x5B, 3, 0, 0), (0x5E, 6, 0, 0), (0x5F, 22, 0, 0), (0x62, 5, 0, 0), (0x63, 1, 0, 0),
     (0x65, 13, 0, 0), (0x66, 1, 0, 0), (0x67, 1, 0, 0), (0x68, 1, 0, 0), (0x69, 5, 0, 0),
     (0x6B, 2, 0, 0), (0x6D, 3, 0, 0), (0x6E, 13, 0, 0), (0x6F, 2, 0, 0), (0x71, 0, 0, 0),
     (0x72, 1, 0, 0), (0x74, 3, 0, 0), (0x75, 2, 0, 0), (0x76, 2, 0, 0), (0x78, 6, 0, 0),
     (0x79, 7, 0, 0), (0x7A, 9, 0, 0), (0x8C, 1, 0, 0), (0x8D, 1, 0, 0), (0x8E, 1, 0, 0),
     (0x90, 9, 0, 0), (0x91, 6, 5, 4), (0x92, 1, 0, 0), (0x96, 17, 0, 0), (0x97, 13, 0, 0),
     (0x98, 6, 5, 2), (0x99, 6, 5, 1), (0x9A, 7, 0, 0)]"

text \<open>Two opcodes have the number of memory configurations in their length.\<close>

definition op_len :: "drv \<Rightarrow> u8 \<Rightarrow> u16 \<Rightarrow> nat option" where
  "op_len d opc ofs = (
     let groups = unat (ram_restrict_group_count (bios d)) in
     if opc = 0x87 then Some (2 + groups * 4)
     else if opc = 0x8F then do { c \<leftarrow> rom8 d (unat ofs + 6); Some (7 + unat c * (groups * 4)) }
     else do {
       (l, pos, mult) \<leftarrow> map_of op_lens opc;
       if mult = 0 then Some l
       else do { c \<leftarrow> rom8 d (unat ofs + pos); Some (l + unat c * mult) } })"

subsection \<open>Results of computations\<close>

definition lens :: "nat option \<Rightarrow> (nat res \<times> 's) option \<Rightarrow> bool" where
  "lens L m \<longleftrightarrow> (\<forall>l s'. m = Some (Inr l, s') \<longrightarrow> L = Some l)"

named_theorems len \<open>the length a computation returns\<close>

lemma lensD: "lens L m \<Longrightarrow> m = Some (Inr l, s') \<Longrightarrow> L = Some l"
  by (simp add: lens_def)

lemma lens_None [len]: "lens L None" by (simp add: lens_def)
lemma lens_Some [len]: "L = Some l \<Longrightarrow> lens L (Some (Inr l, s))" by (simp add: lens_def)
lemma lens_sum [len]: "L = Some l \<Longrightarrow> lens L (Some (case x of Inl e \<Rightarrow> Inl e | Inr u \<Rightarrow> Inr l, s))"
  by (cases x) (auto simp: lens_def)

lemma lens_Inl [len]: "lens L (Some (Inl e, s))" by (simp add: lens_def)

lemma lens_if [len]: "(c \<Longrightarrow> lens L a) \<Longrightarrow> (\<not> c \<Longrightarrow> lens L b) \<Longrightarrow> lens L (if c then a else b)"
  by simp

lemma lens_case_option [len]:
  "(x = None \<Longrightarrow> lens L a) \<Longrightarrow> (\<And>y. x = Some y \<Longrightarrow> lens L (b y)) \<Longrightarrow>
   lens L (case x of None \<Rightarrow> a | Some y \<Rightarrow> b y)"
  by (cases x) auto

lemma lens_case_prod [len]: "(\<And>a b. x = (a, b) \<Longrightarrow> lens L (f a b)) \<Longrightarrow> lens L (case_prod f x)"
  by (cases x) auto

lemma lens_case_prod_s [len]: "(\<And>a b. x = (a, b) \<Longrightarrow> lens L (f a b t)) \<Longrightarrow> lens L (case_prod f x t)"
  by (cases x) auto

lemma lens_bind [len]: "(\<And>x. m = Some x \<Longrightarrow> lens L (f x)) \<Longrightarrow> lens L (m \<bind> f)"
  by (cases m) (auto simp: lens_def)

subsection \<open>The handlers\<close>

lemmas op_len_simps = op_len_def op_lens_def

lemma init_io_restrict_prog_len: "lens (op_len d 0x32 ofs) (init_io_restrict_prog d ofs s)"
  unfolding init_io_restrict_prog_def Let_def by (intro len) (simp_all add: op_len_simps)

lemma init_repeat_len: "lens (op_len d 0x33 ofs) (init_repeat parse d ofs s)"
  unfolding init_repeat_def Let_def by (intro len) (simp_all add: op_len_simps)

lemma init_io_restrict_pll_len: "lens (op_len d 0x34 ofs) (init_io_restrict_pll d ofs s)"
  unfolding init_io_restrict_pll_def Let_def by (intro len) (simp_all add: op_len_simps)

lemma init_copy_len: "lens (op_len d 0x37 ofs) (init_copy d ofs s)"
  unfolding init_copy_def Let_def by (intro len) (simp_all add: op_len_simps)

lemma init_not_len: "lens (op_len d 0x38 ofs) (init_not d ofs s)"
  unfolding init_not_def Let_def by (intro len) (simp_all add: op_len_simps)

lemma init_io_flag_condition_len: "lens (op_len d 0x39 ofs) (init_io_flag_condition d ofs s)"
  unfolding init_io_flag_condition_def Let_def by (intro len) (simp_all add: op_len_simps)

lemma init_dp_condition_len: "lens (op_len d 0x3A ofs) (init_dp_condition d ofs s)"
  unfolding init_dp_condition_def Let_def by (intro len) (simp_all add: op_len_simps)

lemma init_op_3b_len: "lens (op_len d 0x3B ofs) (init_op_3b d ofs s)"
  unfolding init_op_3b_def Let_def by (intro len) (simp_all add: op_len_simps)

lemma init_op_3c_len: "lens (op_len d 0x3C ofs) (init_op_3c d ofs s)"
  unfolding init_op_3c_def Let_def by (intro len) (simp_all add: op_len_simps)

lemma init_idx_addr_latched_len: "lens (op_len d 0x49 ofs) (init_idx_addr_latched d ofs s)"
  unfolding init_idx_addr_latched_def Let_def by (intro len) (simp_all add: op_len_simps)

lemma init_io_restrict_pll2_len: "lens (op_len d 0x4A ofs) (init_io_restrict_pll2 d ofs s)"
  unfolding init_io_restrict_pll2_def Let_def by (intro len) (simp_all add: op_len_simps)

lemma init_pll2_len: "lens (op_len d 0x4B ofs) (init_pll2 d ofs s)"
  unfolding init_pll2_def Let_def by (intro len) (simp_all add: op_len_simps)

lemma init_i2c_byte_len: "lens (op_len d 0x4C ofs) (init_i2c_byte d ofs s)"
  unfolding init_i2c_byte_def Let_def by (intro len) (simp_all add: op_len_simps)

lemma init_zm_i2c_byte_len: "lens (op_len d 0x4D ofs) (init_zm_i2c_byte d ofs s)"
  unfolding init_zm_i2c_byte_def Let_def by (intro len) (simp_all add: op_len_simps)

lemma init_zm_i2c_len: "lens (op_len d 0x4E ofs) (init_zm_i2c d ofs s)"
  unfolding init_zm_i2c_def Let_def by (intro len) (simp_all add: op_len_simps)

lemma init_tmds_len: "lens (op_len d 0x4F ofs) (init_tmds d ofs s)"
  unfolding init_tmds_def Let_def by (intro len) (simp_all add: op_len_simps)

lemma init_zm_tmds_group_len: "lens (op_len d 0x50 ofs) (init_zm_tmds_group d ofs s)"
  unfolding init_zm_tmds_group_def Let_def by (intro len) (simp_all add: op_len_simps)

lemma init_cr_idx_adr_latch_len: "lens (op_len d 0x51 ofs) (init_cr_idx_adr_latch d ofs s)"
  unfolding init_cr_idx_adr_latch_def Let_def by (intro len) (simp_all add: op_len_simps)

lemma init_cr_len: "lens (op_len d 0x52 ofs) (init_cr d ofs s)"
  unfolding init_cr_def Let_def by (intro len) (simp_all add: op_len_simps)

lemma init_zm_cr_len: "lens (op_len d 0x53 ofs) (init_zm_cr d ofs s)"
  unfolding init_zm_cr_def Let_def by (intro len) (simp_all add: op_len_simps)

lemma init_zm_cr_group_len: "lens (op_len d 0x54 ofs) (init_zm_cr_group d ofs s)"
  unfolding init_zm_cr_group_def Let_def by (intro len) (simp_all add: op_len_simps)

lemma init_condition_time_len: "lens (op_len d 0x56 ofs) (init_condition_time d ofs s)"
  unfolding init_condition_time_def Let_def by (intro len) (simp_all add: op_len_simps)

lemma init_ltime_len: "lens (op_len d 0x57 ofs) (init_ltime d ofs s)"
  unfolding init_ltime_def Let_def by (intro len) (simp_all add: op_len_simps)

lemma init_zm_reg_sequence_len: "lens (op_len d 0x58 ofs) (init_zm_reg_sequence d ofs s)"
  unfolding init_zm_reg_sequence_def Let_def by (intro len) (simp_all add: op_len_simps)

lemma init_sub_direct_len: "lens (op_len d 0x5B ofs) (init_sub_direct parse d ofs s)"
  unfolding init_sub_direct_def Let_def by (intro len) (simp_all add: op_len_simps)

lemma init_i2c_if_len: "lens (op_len d 0x5E ofs) (init_i2c_if d ofs s)"
  unfolding init_i2c_if_def Let_def by (intro len) (simp_all add: op_len_simps)

lemma init_copy_nv_reg_len: "lens (op_len d 0x5F ofs) (init_copy_nv_reg d ofs s)"
  unfolding init_copy_nv_reg_def Let_def by (intro len) (simp_all add: op_len_simps)

lemma init_zm_index_io_len: "lens (op_len d 0x62 ofs) (init_zm_index_io d ofs s)"
  unfolding init_zm_index_io_def Let_def by (intro len) (simp_all add: op_len_simps)

lemma init_compute_mem_len: "lens (op_len d 0x63 ofs) (init_compute_mem d ofs s)"
  unfolding init_compute_mem_def Let_def by (intro len) (simp_all add: op_len_simps)

lemma init_reset_len: "lens (op_len d 0x65 ofs) (init_reset d ofs s)"
  unfolding init_reset_def Let_def by (intro len) (simp_all add: op_len_simps)

lemma init_io_len: "lens (op_len d 0x69 ofs) (init_io d ofs s)"
  unfolding init_io_def Let_def by (intro len) (simp_all add: op_len_simps)

lemma init_sub_len: "lens (op_len d 0x6B ofs) (init_sub parse d ofs s)"
  unfolding init_sub_def Let_def by (intro len) (simp_all add: op_len_simps)

lemma init_ram_condition_len: "lens (op_len d 0x6D ofs) (init_ram_condition d ofs s)"
  unfolding init_ram_condition_def Let_def by (intro len) (simp_all add: op_len_simps)

lemma init_nv_reg_len: "lens (op_len d 0x6E ofs) (init_nv_reg d ofs s)"
  unfolding init_nv_reg_def Let_def by (intro len) (simp_all add: op_len_simps)

lemma init_macro_len: "lens (op_len d 0x6F ofs) (init_macro d ofs s)"
  unfolding init_macro_def Let_def by (intro len) (simp_all add: op_len_simps)

lemma init_resume_len: "lens (op_len d 0x72 ofs) (init_resume d ofs s)"
  unfolding init_resume_def Let_def by (intro len) (simp_all add: op_len_simps)

lemma init_time_len: "lens (op_len d 0x74 ofs) (init_time d ofs s)"
  unfolding init_time_def Let_def by (intro len) (simp_all add: op_len_simps)

lemma init_condition_len: "lens (op_len d 0x75 ofs) (init_condition d ofs s)"
  unfolding init_condition_def Let_def by (intro len) (simp_all add: op_len_simps)

lemma init_io_condition_len: "lens (op_len d 0x76 ofs) (init_io_condition d ofs s)"
  unfolding init_io_condition_def Let_def by (intro len) (simp_all add: op_len_simps)

lemma init_index_io_len: "lens (op_len d 0x78 ofs) (init_index_io d ofs s)"
  unfolding init_index_io_def Let_def by (intro len) (simp_all add: op_len_simps)

lemma init_pll_len: "lens (op_len d 0x79 ofs) (init_pll d ofs s)"
  unfolding init_pll_def Let_def by (intro len) (simp_all add: op_len_simps)

lemma init_zm_reg_len: "lens (op_len d 0x7A ofs) (init_zm_reg d ofs s)"
  unfolding init_zm_reg_def Let_def by (intro len) (simp_all add: op_len_simps)

lemma init_ram_restrict_pll_len: "lens (op_len d 0x87 ofs) (init_ram_restrict_pll d ofs s)"
  unfolding init_ram_restrict_pll_def Let_def by (intro len) (simp_all add: op_len_simps)

lemma init_8c_len: "lens (op_len d 0x8C ofs) (init_8c d ofs s)"
  unfolding init_8c_def Let_def by (intro len) (simp_all add: op_len_simps)

lemma init_8d_len: "lens (op_len d 0x8D ofs) (init_8d d ofs s)"
  unfolding init_8d_def Let_def by (intro len) (simp_all add: op_len_simps)

lemma init_gpio_len: "lens (op_len d 0x8E ofs) (init_gpio d ofs s)"
  unfolding init_gpio_def Let_def by (intro len) (simp_all add: op_len_simps)

lemma init_ram_restrict_zm_reg_group_len: "lens (op_len d 0x8F ofs) (init_ram_restrict_zm_reg_group d ofs s)"
  unfolding init_ram_restrict_zm_reg_group_def Let_def by (intro len) (simp_all add: op_len_simps)

lemma init_copy_zm_reg_len: "lens (op_len d 0x90 ofs) (init_copy_zm_reg d ofs s)"
  unfolding init_copy_zm_reg_def Let_def by (intro len) (simp_all add: op_len_simps)

lemma init_zm_reg_group_addr_latched_len: "lens (op_len d 0x91 ofs) (init_zm_reg_group_addr_latched d ofs s)"
  unfolding init_zm_reg_group_addr_latched_def Let_def by (intro len) (simp_all add: op_len_simps)

lemma init_reserved_len: "lens (op_len d 0x92 ofs) (init_reserved d ofs s)"
  unfolding init_reserved_def Let_def by (intro len) (simp_all add: op_len_simps)

lemma init_96_len: "lens (op_len d 0x96 ofs) (init_96 d ofs s)"
  unfolding init_96_def Let_def by (intro len) (simp_all add: op_len_simps)

lemma init_97_len: "lens (op_len d 0x97 ofs) (init_97 d ofs s)"
  unfolding init_97_def Let_def by (intro len) (simp_all add: op_len_simps)

lemma init_auxch_len: "lens (op_len d 0x98 ofs) (init_auxch d ofs s)"
  unfolding init_auxch_def Let_def by (intro len) (simp_all add: op_len_simps)

lemma init_zm_auxch_len: "lens (op_len d 0x99 ofs) (init_zm_auxch d ofs s)"
  unfolding init_zm_auxch_def Let_def by (intro len) (simp_all add: op_len_simps)

lemma init_i2c_long_if_len: "lens (op_len d 0x9A ofs) (init_i2c_long_if d ofs s)"
  unfolding init_i2c_long_if_def Let_def by (intro len) (simp_all add: op_len_simps)

lemma init_end_repeat_len: "init_end_repeat d ofs s = Some (Inr l, s') \<Longrightarrow> l = 0 \<or> op_len d 0x36 ofs = Some l"
  by (auto simp: init_end_repeat_def op_len_simps split: if_splits)

lemma init_configure_mem_len: "init_configure_mem d ofs s = Some (Inr l, s') \<Longrightarrow> l = 0 \<or> op_len d 0x66 ofs = Some l"
  by (auto simp: init_configure_mem_def op_len_simps bind_eq_Some_conv split: if_splits)

lemma init_configure_clk_len: "init_configure_clk d ofs s = Some (Inr l, s') \<Longrightarrow> l = 0 \<or> op_len d 0x67 ofs = Some l"
  by (auto simp: init_configure_clk_def op_len_simps bind_eq_Some_conv split: if_splits)

lemma init_configure_preinit_len:
  "init_configure_preinit d ofs s = Some (Inr l, s') \<Longrightarrow> l = 0 \<or> op_len d 0x68 ofs = Some l"
  by (auto simp: init_configure_preinit_def op_len_simps bind_eq_Some_conv Let_def split: if_splits)

lemma init_done_len: "init_done d ofs s = Some (Inr l, s') \<Longrightarrow> l = 0"
  by (simp add: init_done_def)

lemmas stop_len = init_end_repeat_len init_configure_mem_len init_configure_clk_len
  init_configure_preinit_len init_done_len

lemmas handler_lens = init_io_restrict_prog_len init_repeat_len init_io_restrict_pll_len
  init_copy_len init_not_len init_io_flag_condition_len
  init_dp_condition_len init_op_3b_len init_op_3c_len
  init_idx_addr_latched_len init_io_restrict_pll2_len init_pll2_len
  init_i2c_byte_len init_zm_i2c_byte_len init_zm_i2c_len
  init_tmds_len init_zm_tmds_group_len init_cr_idx_adr_latch_len
  init_cr_len init_zm_cr_len init_zm_cr_group_len
  init_condition_time_len init_ltime_len init_zm_reg_sequence_len
  init_sub_direct_len init_i2c_if_len init_copy_nv_reg_len
  init_zm_index_io_len init_compute_mem_len init_reset_len
  init_io_len init_sub_len init_ram_condition_len
  init_nv_reg_len init_macro_len init_resume_len
  init_time_len init_condition_len init_io_condition_len
  init_index_io_len init_pll_len init_zm_reg_len
  init_ram_restrict_pll_len init_8c_len init_8d_len
  init_gpio_len init_ram_restrict_zm_reg_group_len init_copy_zm_reg_len
  init_zm_reg_group_addr_latched_len init_reserved_len init_96_len
  init_97_len init_auxch_len init_zm_auxch_len
  init_i2c_long_if_len

end
