(* ===== verification/InitProps.thy ===== *)
theory InitProps
  imports InitTrace InitLen
begin

section \<open>Properties of the script interpreter\<close>

text \<open>
  What can be relied on when a VBIOS script is run: opcodes have static lengths, skipped opcodes write
  nothing but a pad, a dry run leaves the card alone, writes stay inside the register window, and
  scripts that call one another for ever are not stopped.
\<close>

subsection \<open>An example card\<close>

definition no_dcb :: dcb_table where
  "no_dcb = \<lparr>dcb_version = 0x40, entries = 0, dcb_entries = [], i2c_table = None, i2c_default_indices = 0,
     gpios = [], connector_types = []\<rparr>"

definition example_bios :: "u8 list \<Rightarrow> bool \<Rightarrow> nvbios" where
  "example_bios bs ex = \<lparr>data = bs, len = of_nat (length bs), execute = ex, chip_version = 0x50,
     major_version = 5, fmaxvco = 0, fminvco = 0, old_style_init = False, init_script_tbls_ptr = 0,
     extra_init_script_tbl_ptr = 0,
     macro_index_tbl_ptr = 0, macro_tbl_ptr = 0, condition_tbl_ptr = 0, io_condition_tbl_ptr = 0,
     io_flag_condition_tbl_ptr = 0, pll_limit_tbl_ptr = 0, ram_restrict_tbl_ptr = 0,
     ram_restrict_group_count = 1, init96_tbl_ptr = 0, dcb = no_dcb, active_output = None,
     dp_table_ptr = 0, mem_init_tbl_ptr = 0, sdr_seq_tbl_ptr = 0, ddr_seq_tbl_ptr = 0\<rparr>"

definition example_drv :: "u8 list \<Rightarrow> bool \<Rightarrow> drv" where
  "example_drv bs ex = \<lparr>card_type = 0x50, chipset = 0x50, fb_len = 0, answer = (\<lambda>l q. (0, 0x5a)),
     bios = example_bios bs ex, stack_pv = \<lparr>N1 = 0, M1 = 0, N2 = 0, M2 = 0, log2P = 0\<rparr>\<rparr>"

definition example_ist :: ist where
  "example_ist = \<lparr>log = [], crtchead = 0, i2c = [], iexecute = True, irepeat = False\<rparr>"

text \<open>Read, change and write register 0x1000, then the end of the script.\<close>

definition example_script :: "u8 list" where
  "example_script = [0x6E, 0x00, 0x10, 0, 0, 0xf0, 0, 0, 0, 0x05, 0, 0, 0, 0x71]"

lemmas examples = example_drv_def example_bios_def example_ist_def example_script_def

lemma example_runs:
  "parse_init_table 1 (example_drv example_script False) 0 example_ist =
    Some (Inr (), example_ist\<lparr>log := [Rd32 0x1000]\<rparr>)"
  "parse_init_table 1 (example_drv example_script True) 0 example_ist =
    Some (Inr (), example_ist\<lparr>log := [Wr32 0x1000 0x55, Rd32 0x1000]\<rparr>)"
  by code_simp+

subsection \<open>Skipped opcodes\<close>

lemma skip_if: "\<not> iexecute s \<Longrightarrow> moves R s a \<Longrightarrow> moves R s (if \<not> iexecute s then a else b)"
  by simp

lemma init_io_restrict_prog_skip: "\<not> iexecute s \<Longrightarrow> moves (=) s (init_io_restrict_prog d ofs s)"
  unfolding init_io_restrict_prog_def Let_def by (intro moves_pures skip_if moves_Some refl)

lemma init_io_restrict_pll_skip: "\<not> iexecute s \<Longrightarrow> moves (=) s (init_io_restrict_pll d ofs s)"
  unfolding init_io_restrict_pll_def Let_def by (intro moves_pures skip_if moves_Some refl)

lemma init_end_repeat_skip: "\<not> iexecute s \<Longrightarrow> moves (=) s (init_end_repeat d ofs s)"
  unfolding init_end_repeat_def Let_def by (intro moves_pures skip_if moves_Some refl)

lemma init_copy_skip: "\<not> iexecute s \<Longrightarrow> moves (=) s (init_copy d ofs s)"
  unfolding init_copy_def Let_def by (intro moves_pures skip_if moves_Some refl)

lemma init_io_flag_condition_skip: "\<not> iexecute s \<Longrightarrow> moves (=) s (init_io_flag_condition d ofs s)"
  unfolding init_io_flag_condition_def Let_def by (intro moves_pures skip_if moves_Some refl)

lemma init_dp_condition_skip: "\<not> iexecute s \<Longrightarrow> moves (=) s (init_dp_condition d ofs s)"
  unfolding init_dp_condition_def Let_def by (intro moves_pures skip_if moves_Some refl)

lemma init_op_3b_skip: "\<not> iexecute s \<Longrightarrow> moves (=) s (init_op_3b d ofs s)"
  unfolding init_op_3b_def Let_def by (intro moves_pures skip_if moves_Some refl)

lemma init_op_3c_skip: "\<not> iexecute s \<Longrightarrow> moves (=) s (init_op_3c d ofs s)"
  unfolding init_op_3c_def Let_def by (intro moves_pures skip_if moves_Some refl)

lemma init_idx_addr_latched_skip: "\<not> iexecute s \<Longrightarrow> moves (=) s (init_idx_addr_latched d ofs s)"
  unfolding init_idx_addr_latched_def Let_def by (intro moves_pures skip_if moves_Some refl)

lemma init_io_restrict_pll2_skip: "\<not> iexecute s \<Longrightarrow> moves (=) s (init_io_restrict_pll2 d ofs s)"
  unfolding init_io_restrict_pll2_def Let_def by (intro moves_pures skip_if moves_Some refl)

lemma init_pll2_skip: "\<not> iexecute s \<Longrightarrow> moves (=) s (init_pll2 d ofs s)"
  unfolding init_pll2_def Let_def by (intro moves_pures skip_if moves_Some refl)

lemma init_i2c_byte_skip: "\<not> iexecute s \<Longrightarrow> moves (=) s (init_i2c_byte d ofs s)"
  unfolding init_i2c_byte_def Let_def by (intro moves_pures skip_if moves_Some refl)

lemma init_zm_i2c_byte_skip: "\<not> iexecute s \<Longrightarrow> moves (=) s (init_zm_i2c_byte d ofs s)"
  unfolding init_zm_i2c_byte_def Let_def by (intro moves_pures skip_if moves_Some refl)

lemma init_zm_i2c_skip: "\<not> iexecute s \<Longrightarrow> moves (=) s (init_zm_i2c d ofs s)"
  unfolding init_zm_i2c_def Let_def by (intro moves_pures skip_if moves_Some refl)

lemma init_tmds_skip: "\<not> iexecute s \<Longrightarrow> moves (=) s (init_tmds d ofs s)"
  unfolding init_tmds_def Let_def by (intro moves_pures skip_if moves_Some refl)

lemma init_zm_tmds_group_skip: "\<not> iexecute s \<Longrightarrow> moves (=) s (init_zm_tmds_group d ofs s)"
  unfolding init_zm_tmds_group_def Let_def by (intro moves_pures skip_if moves_Some refl)

lemma init_cr_idx_adr_latch_skip: "\<not> iexecute s \<Longrightarrow> moves (=) s (init_cr_idx_adr_latch d ofs s)"
  unfolding init_cr_idx_adr_latch_def Let_def by (intro moves_pures skip_if moves_Some refl)

lemma init_cr_skip: "\<not> iexecute s \<Longrightarrow> moves (=) s (init_cr d ofs s)"
  unfolding init_cr_def Let_def by (intro moves_pures skip_if moves_Some refl)

lemma init_zm_cr_skip: "\<not> iexecute s \<Longrightarrow> moves (=) s (init_zm_cr d ofs s)"
  unfolding init_zm_cr_def Let_def by (intro moves_pures skip_if moves_Some refl)

lemma init_zm_cr_group_skip: "\<not> iexecute s \<Longrightarrow> moves (=) s (init_zm_cr_group d ofs s)"
  unfolding init_zm_cr_group_def Let_def by (intro moves_pures skip_if moves_Some refl)

lemma init_condition_time_skip: "\<not> iexecute s \<Longrightarrow> moves (=) s (init_condition_time d ofs s)"
  unfolding init_condition_time_def Let_def by (intro moves_pures skip_if moves_Some refl)

lemma init_ltime_skip: "\<not> iexecute s \<Longrightarrow> moves (=) s (init_ltime d ofs s)"
  unfolding init_ltime_def Let_def by (intro moves_pures skip_if moves_Some refl)

lemma init_zm_reg_sequence_skip: "\<not> iexecute s \<Longrightarrow> moves (=) s (init_zm_reg_sequence d ofs s)"
  unfolding init_zm_reg_sequence_def Let_def by (intro moves_pures skip_if moves_Some refl)

lemma init_sub_direct_skip: "\<not> iexecute s \<Longrightarrow> moves (=) s (init_sub_direct parse d ofs s)"
  unfolding init_sub_direct_def Let_def by (intro moves_pures skip_if moves_Some refl)

lemma init_copy_nv_reg_skip: "\<not> iexecute s \<Longrightarrow> moves (=) s (init_copy_nv_reg d ofs s)"
  unfolding init_copy_nv_reg_def Let_def by (intro moves_pures skip_if moves_Some refl)

lemma init_zm_index_io_skip: "\<not> iexecute s \<Longrightarrow> moves (=) s (init_zm_index_io d ofs s)"
  unfolding init_zm_index_io_def Let_def by (intro moves_pures skip_if moves_Some refl)

lemma init_io_skip: "\<not> iexecute s \<Longrightarrow> moves (=) s (init_io d ofs s)"
  unfolding init_io_def Let_def by (intro moves_pures skip_if moves_Some refl)

lemma init_sub_skip: "\<not> iexecute s \<Longrightarrow> moves (=) s (init_sub parse d ofs s)"
  unfolding init_sub_def Let_def by (intro moves_pures skip_if moves_Some refl)

lemma init_ram_condition_skip: "\<not> iexecute s \<Longrightarrow> moves (=) s (init_ram_condition d ofs s)"
  unfolding init_ram_condition_def Let_def by (intro moves_pures skip_if moves_Some refl)

lemma init_nv_reg_skip: "\<not> iexecute s \<Longrightarrow> moves (=) s (init_nv_reg d ofs s)"
  unfolding init_nv_reg_def Let_def by (intro moves_pures skip_if moves_Some refl)

lemma init_macro_skip: "\<not> iexecute s \<Longrightarrow> moves (=) s (init_macro d ofs s)"
  unfolding init_macro_def Let_def by (intro moves_pures skip_if moves_Some refl)

lemma init_done_skip: "\<not> iexecute s \<Longrightarrow> moves (=) s (init_done d ofs s)"
  unfolding init_done_def Let_def by (intro moves_pures skip_if moves_Some refl)

lemma init_time_skip: "\<not> iexecute s \<Longrightarrow> moves (=) s (init_time d ofs s)"
  unfolding init_time_def Let_def by (intro moves_pures skip_if moves_Some refl)

lemma init_condition_skip: "\<not> iexecute s \<Longrightarrow> moves (=) s (init_condition d ofs s)"
  unfolding init_condition_def Let_def by (intro moves_pures skip_if moves_Some refl)

lemma init_io_condition_skip: "\<not> iexecute s \<Longrightarrow> moves (=) s (init_io_condition d ofs s)"
  unfolding init_io_condition_def Let_def by (intro moves_pures skip_if moves_Some refl)

lemma init_index_io_skip: "\<not> iexecute s \<Longrightarrow> moves (=) s (init_index_io d ofs s)"
  unfolding init_index_io_def Let_def by (intro moves_pures skip_if moves_Some refl)

lemma init_pll_skip: "\<not> iexecute s \<Longrightarrow> moves (=) s (init_pll d ofs s)"
  unfolding init_pll_def Let_def by (intro moves_pures skip_if moves_Some refl)

lemma init_zm_reg_skip: "\<not> iexecute s \<Longrightarrow> moves (=) s (init_zm_reg d ofs s)"
  unfolding init_zm_reg_def Let_def by (intro moves_pures skip_if moves_Some refl)

lemma init_8c_skip: "\<not> iexecute s \<Longrightarrow> moves (=) s (init_8c d ofs s)"
  unfolding init_8c_def Let_def by (intro moves_pures skip_if moves_Some refl)

lemma init_8d_skip: "\<not> iexecute s \<Longrightarrow> moves (=) s (init_8d d ofs s)"
  unfolding init_8d_def Let_def by (intro moves_pures skip_if moves_Some refl)

lemma init_gpio_skip: "\<not> iexecute s \<Longrightarrow> moves (=) s (init_gpio d ofs s)"
  unfolding init_gpio_def Let_def by (intro moves_pures skip_if moves_if moves_Some refl)

lemma init_ram_restrict_zm_reg_group_skip: "\<not> iexecute s \<Longrightarrow> moves (=) s (init_ram_restrict_zm_reg_group d ofs s)"
  unfolding init_ram_restrict_zm_reg_group_def Let_def by (intro moves_pures skip_if moves_if moves_Some refl)

lemma init_copy_zm_reg_skip: "\<not> iexecute s \<Longrightarrow> moves (=) s (init_copy_zm_reg d ofs s)"
  unfolding init_copy_zm_reg_def Let_def by (intro moves_pures skip_if moves_Some refl)

lemma init_zm_reg_group_addr_latched_skip: "\<not> iexecute s \<Longrightarrow> moves (=) s (init_zm_reg_group_addr_latched d ofs s)"
  unfolding init_zm_reg_group_addr_latched_def Let_def by (intro moves_pures skip_if moves_Some refl)

lemma init_reserved_skip: "\<not> iexecute s \<Longrightarrow> moves (=) s (init_reserved d ofs s)"
  unfolding init_reserved_def Let_def by (intro moves_pures skip_if moves_Some refl)

lemmas handler_skip =
  init_io_restrict_prog_skip init_io_restrict_pll_skip init_end_repeat_skip init_copy_skip
  init_io_flag_condition_skip init_dp_condition_skip init_op_3b_skip init_op_3c_skip
  init_idx_addr_latched_skip init_io_restrict_pll2_skip init_pll2_skip init_i2c_byte_skip
  init_zm_i2c_byte_skip init_zm_i2c_skip init_tmds_skip init_zm_tmds_group_skip
  init_cr_idx_adr_latch_skip init_cr_skip init_zm_cr_skip init_zm_cr_group_skip
  init_condition_time_skip init_ltime_skip init_zm_reg_sequence_skip init_sub_direct_skip
  init_copy_nv_reg_skip init_zm_index_io_skip init_io_skip init_sub_skip
  init_ram_condition_skip init_nv_reg_skip init_macro_skip init_done_skip
  init_time_skip init_condition_skip init_io_condition_skip init_index_io_skip
  init_pll_skip init_zm_reg_skip init_8c_skip init_8d_skip
  init_gpio_skip init_ram_restrict_zm_reg_group_skip init_copy_zm_reg_skip init_zm_reg_group_addr_latched_skip
  init_reserved_skip

text \<open>
  The opcodes whose handlers never look at \<open>iexec->execute\<close> (by design, or because they set it),
  and those that look at it only after they have read registers or looked a port up.
\<close>

definition never_checked :: "u8 \<Rightarrow> bool" where
  "never_checked opc \<longleftrightarrow> opc \<in> {0x33, 0x38, 0x5E, 0x63, 0x65, 0x66, 0x67, 0x68, 0x72, 0x9A}"

definition register_read :: "io \<Rightarrow> bool" where
  "register_read q = (case q of Rd32 _ \<Rightarrow> True | _ \<Rightarrow> False)"

definition pad_regs :: "u32 list" where
  "pad_regs = map (\<lambda>k. 0xe500 + of_nat k * 0x50) [0..<256]"

lemma pad_regs_mem: "k \<le> 255 \<Longrightarrow> 0xe500 + k * 0x50 \<in> set pad_regs"
proof -
  assume "k \<le> 255"
  then have "unat k < 256" by (simp add: word_le_nat_alt)
  then have "unat k \<in> set [0..<256]" by simp
  then show ?thesis unfolding pad_regs_def set_map
    by (rule image_eqI [rotated]) simp
qed

text \<open>What is asked of the card and the kernel to find the port of an output, with the selected head.\<close>

definition port_request :: "drv \<Rightarrow> int \<Rightarrow> io \<Rightarrow> bool" where
  "port_request d head q = (case q of
       Rd32 _ \<Rightarrow> True
     | Rd08 _ \<Rightarrow> True
     | Kzalloc \<Rightarrow> True
     | I2cRegister _ \<Rightarrow> True
     | Wr08 r v \<Rightarrow> r = 0x6013d4 + head_offset head \<or> r = 0x6013d5 + head_offset head \<and> v = 0
     | Wr32 r v \<Rightarrow> chipset d \<ge> NV_50 \<and> r \<in> set pad_regs
     | _ \<Rightarrow> False)"

definition only_requests :: "(io \<Rightarrow> bool) \<Rightarrow> ist \<Rightarrow> ist \<Rightarrow> bool" where
  "only_requests P s s' \<longleftrightarrow> (\<not> iexecute s \<longrightarrow> (\<exists>es. s' = s\<lparr>log := es @ log s\<rparr> \<and> list_all P es))"

definition port_looked_up :: "drv \<Rightarrow> int \<Rightarrow> ist \<Rightarrow> ist \<Rightarrow> bool" where
  "port_looked_up d head s s' \<longleftrightarrow> (\<not> iexecute s \<and> crtchead s = head \<longrightarrow>
     iexecute s' = iexecute s \<and> irepeat s' = irepeat s \<and> crtchead s' = crtchead s \<and>
     (\<exists>es. log s' = es @ log s \<and> list_all (port_request d head) es))"

interpretation late: reading d register_read "only_requests register_read" for d
proof unfold_locales
  fix s s' s'' :: ist and q
  show "only_requests register_read s s"
    unfolding only_requests_def by (cases s) (auto intro: exI [of _ "[]"])
  show "only_requests register_read s s' \<Longrightarrow> only_requests register_read s' s'' \<Longrightarrow> only_requests register_read s s''"
    unfolding only_requests_def by (force simp: append_assoc [symmetric] simp del: append_assoc)
  show "register_read q \<Longrightarrow> only_requests register_read s (s\<lparr>log := q # log s\<rparr>)"
    unfolding only_requests_def by (auto intro: exI [of _ "[q]"])
qed (simp add: register_read_def)

interpretation lookup: probed d "port_request d head" "port_looked_up d head" for d head
proof unfold_locales
  fix s s' s'' :: ist and q i n e
  show "port_looked_up d head s s" "port_looked_up d head s (s\<lparr>i2c := (i2c s)[n := e]\<rparr>)"
    by (simp_all add: port_looked_up_def)
  show "port_looked_up d head s s' \<Longrightarrow> port_looked_up d head s' s'' \<Longrightarrow> port_looked_up d head s s''"
    by (fastforce simp: port_looked_up_def)
  have log: "port_looked_up d head s (s\<lparr>log := q # log s\<rparr>)" if "crtchead s = head \<Longrightarrow> port_request d head q" for q
    using that unfolding port_looked_up_def by (auto intro: exI [of _ "[q]"])
  show "port_request d head q \<Longrightarrow> port_looked_up d head s (s\<lparr>log := q # log s\<rparr>)" by (rule log)
  show "port_looked_up d head s (s\<lparr>log := Wr08 (0x6013d4 + head_offset (crtchead s)) i # log s\<rparr>)"
    "port_looked_up d head s (s\<lparr>log := Wr08 (0x6013d5 + head_offset (crtchead s)) 0 # log s\<rparr>)"
    by (rule log; simp add: port_request_def)+
qed (auto simp: port_request_def pad_regs_mem)

lemma late_skip:
  "moves (only_requests P) s (if \<not> iexecute s then Some (x, s) else b)"
  "moves (port_looked_up d head) s (if \<not> iexecute s then Some (x, s) else b)"
  using late.R_refl lookup.R_refl by (cases s, auto simp: moves_def only_requests_def port_looked_up_def)+

lemma init_ram_restrict_pll_late: "moves (only_requests register_read) s (init_ram_restrict_pll d ofs s)"
  unfolding init_ram_restrict_pll_def Let_def by (intro moves_pures late.moves_bind late.bios_rd32_moves late_skip)

lemma init_96_late: "moves (only_requests register_read) s (init_96 d ofs s)"
  unfolding init_96_def Let_def by (intro moves_pures late.moves_bind late.bios_rd32_moves late_skip)

lemma init_97_late: "moves (only_requests register_read) s (init_97 d ofs s)"
  unfolding init_97_def Let_def by (intro moves_pures late.moves_bind late.bios_rd32_moves late_skip)

lemma output_auxch_late: "moves (port_looked_up d head) s (output_auxch d s)"
  unfolding output_auxch_def
  by (intro moves_case_option moves_Some lookup.R_refl lookup.init_i2c_device_find_moves)

lemma init_auxch_late: "moves (port_looked_up d head) s (init_auxch d ofs s)"
  unfolding init_auxch_def Let_def
  by (intro moves_pures lookup.moves_bind output_auxch_late moves_case_option moves_Some lookup.R_refl late_skip)

lemma init_zm_auxch_late: "moves (port_looked_up d head) s (init_zm_auxch d ofs s)"
  unfolding init_zm_auxch_def Let_def
  by (intro moves_pures lookup.moves_bind output_auxch_late moves_case_option moves_Some lookup.R_refl late_skip)

lemmas handler_late = init_ram_restrict_pll_late init_96_late init_97_late

lemmas handler_lookup = init_auxch_late init_zm_auxch_late

lemma handler_all:
  "map_of (itbl_entry parse) opc = Some h \<Longrightarrow> list_all (\<lambda>(opc, h). Q opc h) (itbl_entry parse) \<Longrightarrow> Q opc h"
  by (drule map_of_SomeD) (auto simp: list_all_iff)

lemmas each_handler = itbl_entry_def list.pred_inject prod.case

lemma stop_lens:
  "lens (op_len d opc ofs) m \<Longrightarrow> m = Some (Inr l, s') \<Longrightarrow> op_len d opc ofs = Some l \<or> l = 0 \<and> opc \<in> X"
  by (auto dest: lensD)

text \<open>C14: The length a handler returns is a function of the image alone (or 0, for the five opcodes that can end a script): how a script is cut into opcodes depends neither on the card nor on what is executed.\<close>

theorem opcode_length_static:
  assumes "map_of (itbl_entry parse) opc = Some h"
    and "h d ofs s = Some (Inr l, s')"
  shows "op_len d opc ofs = Some l \<or> l = 0 \<and> opc \<in> {0x36, 0x66, 0x67, 0x68, 0x71}"
proof -
  have "h d ofs s = Some (Inr l, s') \<longrightarrow> op_len d opc ofs = Some l \<or> l = 0 \<and> opc \<in> {0x36, 0x66, 0x67, 0x68, 0x71}"
    by (rule handler_all [OF assms(1)], simp only: each_handler, intro conjI TrueI impI)
       ((rule stop_lens, rule handler_lens, assumption) | (drule stop_len, erule disjE, simp, erule disjI1) | (drule stop_len, simp))+
  with assms(2) show ?thesis by blast
qed

theorem opcode_length_static_witness:
  "op_len (example_drv example_script True) 0x6E 0 = Some 13 \<or> (13 :: nat) = 0 \<and> (0x6E :: u8) \<in> {0x36, 0x66, 0x67, 0x68, 0x71}"
proof (rule opcode_length_static [of "parse_init_table 0" "0x6E" init_nv_reg "example_drv example_script True" 0
      example_ist 13 "example_ist\<lparr>log := [Wr32 0x1000 0x55, Rd32 0x1000]\<rparr>"])
  show "map_of (itbl_entry (parse_init_table 0)) 0x6E = Some init_nv_reg" by (simp add: itbl_entry_def)
  show "init_nv_reg (example_drv example_script True) 0 example_ist =
      Some (Inr 13, example_ist\<lparr>log := [Wr32 0x1000 0x55, Rd32 0x1000]\<rparr>)"
    by code_simp
qed

text \<open>
  C15: While commands are skipped (\<open>iexec->execute\<close> off) an opcode whose handler looks at the flag
  before anything else changes nothing and asks the card nothing. Three handlers
  (0x87, 0x96, 0x97) look at it late and still read registers, but do nothing else; two (0x98, 0x99)
  first look the port of the output up, which on its first use registers the bus and on NV50 switches
  its pad. The ten handlers without a check are left out.
\<close>

theorem skipped_opcode_inert:
  assumes "map_of (itbl_entry parse) opc = Some h" "\<not> never_checked opc"
    and "\<not> iexecute s" "h d ofs s = Some (ret, s')"
  shows "if opc \<in> {0x98, 0x99} then
      iexecute s' = iexecute s \<and> irepeat s' = irepeat s \<and> crtchead s' = crtchead s \<and>
      (\<exists>es. log s' = es @ log s \<and> list_all (port_request d (crtchead s)) es)
    else if opc \<in> {0x87, 0x96, 0x97} then \<exists>es. s' = s\<lparr>log := es @ log s\<rparr> \<and> list_all register_read es
    else s' = s"
proof -
  have "\<not> never_checked opc \<and> opc \<notin> {0x87, 0x96, 0x97, 0x98, 0x99} \<longrightarrow> moves (=) s (h d ofs s)"
    by (rule handler_all [OF assms(1)], simp only: each_handler, intro conjI TrueI impI)
       (rule handler_skip, rule assms(3) | simp add: never_checked_def)+
  moreover have "opc \<in> {0x87, 0x96, 0x97} \<longrightarrow> moves (only_requests register_read) s (h d ofs s)"
    by (rule handler_all [OF assms(1)], simp only: each_handler, intro conjI TrueI impI)
       (rule handler_late | simp)+
  moreover have "opc \<in> {0x98, 0x99} \<longrightarrow> moves (port_looked_up d (crtchead s)) s (h d ofs s)"
    by (rule handler_all [OF assms(1)], simp only: each_handler, intro conjI TrueI impI)
       (rule handler_lookup | simp)+
  ultimately have "opc \<notin> {0x87, 0x96, 0x97, 0x98, 0x99} \<Longrightarrow> s' = s"
    "opc \<in> {0x87, 0x96, 0x97} \<Longrightarrow> only_requests register_read s s'"
    "opc \<in> {0x98, 0x99} \<Longrightarrow> port_looked_up d (crtchead s) s s'"
    using assms(2,4) by (blast dest: movesD)+
  moreover have "opc \<in> {0x87, 0x96, 0x97, 0x98, 0x99} \<longleftrightarrow> opc \<in> {0x87, 0x96, 0x97} \<or> opc \<in> {0x98, 0x99}" by blast
  ultimately show ?thesis
    using assms(3) unfolding only_requests_def port_looked_up_def by meson
qed

theorem skipped_opcode_inert_witness:
  "case init_nv_reg (example_drv example_script True) 0 (example_ist\<lparr>iexecute := False\<rparr>) of
     None \<Rightarrow> False | Some (ret, s') \<Rightarrow> s' = example_ist\<lparr>iexecute := False\<rparr>"
proof (cases "init_nv_reg (example_drv example_script True) 0 (example_ist\<lparr>iexecute := False\<rparr>)")
  case None
  moreover have "init_nv_reg (example_drv example_script True) 0 (example_ist\<lparr>iexecute := False\<rparr>) \<noteq> None"
    by code_simp
  ultimately show ?thesis by simp
next
  case (Some p)
  have "map_of (itbl_entry (parse_init_table 0)) 0x6E = Some init_nv_reg" by (simp add: itbl_entry_def)
  from skipped_opcode_inert [OF this, of _ _ 0 "fst p" "snd p"] Some show ?thesis
    by (auto simp: never_checked_def)
qed

subsection \<open>Dry runs\<close>

text \<open>
  While the driver only pretends to execute a script (\<open>execute\<close> off, no output active) the requests
  are reads, waits and bus registrations, apart from: the index bytes of the VGA registers (and the 0
  written to CR57 to look up the DCB entry), the pads of the I2C ports on NV50, and the memory probe
  of chips before NV40, which writes whether or not it should.
\<close>

definition quiet :: "drv \<Rightarrow> io \<Rightarrow> bool" where
  "quiet d q = (case q of
       Wr32 r v \<Rightarrow> chipset d \<ge> NV_50 \<and> r \<in> set pad_regs
     | Wr08 r v \<Rightarrow> r \<in> {0x6013d4, 0x6033d4, 0xc03c4, 0xc23c4} \<or> (r \<in> {0x6013d5, 0x6033d5} \<and> v = 0)
         \<or> (chipset d < 0x40 \<and> r = 0xc03c5)
     | FbMap \<Rightarrow> chipset d < 0x40
     | FbRd r \<Rightarrow> chipset d < 0x40
     | FbWr r v \<Rightarrow> chipset d < 0x40
     | SmbusWr c a r v \<Rightarrow> False
     | I2cWrite c a bs \<Rightarrow> False
     | _ \<Rightarrow> True)"

definition pretends :: "drv \<Rightarrow> bool" where
  "pretends d \<longleftrightarrow> \<not> execute (bios d) \<and> active_output (bios d) = None"

definition requests_only :: "(io \<Rightarrow> bool) \<Rightarrow> ist \<Rightarrow> ist \<Rightarrow> bool" where
  "requests_only P s s' \<longleftrightarrow> (crtchead s \<in> {0, 1} \<longrightarrow>
     crtchead s' \<in> {0, 1} \<and> (\<exists>es. log s' = es @ log s \<and> list_all P es))"

lemma requests_only_log: "(crtchead s \<in> {0, 1} \<Longrightarrow> P q) \<Longrightarrow> requests_only P s (s\<lparr>log := q # log s\<rparr>)"
  by (auto simp: requests_only_def intro: exI [of _ "[q]"])

lemma requests_only_keep:
  "log s' = log s \<Longrightarrow> crtchead s' \<in> {crtchead s, 0, 1} \<Longrightarrow> requests_only P s s'"
  by (auto simp: requests_only_def)

lemma requests_only_trans: "requests_only P s t \<Longrightarrow> requests_only P t u \<Longrightarrow> requests_only P s u"
  by (fastforce simp: requests_only_def)

lemma head_offset_01 [simp]: "head_offset 0 = 0" "head_offset 1 = 0x2000"
  by (simp_all add: head_offset_def)

interpretation dry: traced d "\<lambda>q. pretends d \<longrightarrow> quiet d q" "requests_only (\<lambda>q. pretends d \<longrightarrow> quiet d q)" for d
proof unfold_locales
  let ?P = "\<lambda>q. pretends d \<longrightarrow> quiet d q"
  fix s s' s'' :: ist and q i b n e
  show "requests_only ?P s s" by (rule requests_only_keep) simp_all
  show "requests_only ?P s s' \<Longrightarrow> requests_only ?P s' s'' \<Longrightarrow> requests_only ?P s s''" by (rule requests_only_trans)
  show "?P q \<Longrightarrow> requests_only ?P s (s\<lparr>log := q # log s\<rparr>)" by (rule requests_only_log)
  show "requests_only ?P s (s\<lparr>log := Wr08 (0x6013d4 + head_offset (crtchead s)) i # log s\<rparr>)"
    "requests_only ?P s (s\<lparr>log := Wr08 (prmvio d (crtchead s) 0xc03c4) i # log s\<rparr>)"
    "requests_only ?P s (s\<lparr>log := Wr08 (0x6013d5 + head_offset (crtchead s)) 0 # log s\<rparr>)"
    by (rule requests_only_log; auto simp: quiet_def prmvio_def)+
  show "requests_only ?P s (s\<lparr>iexecute := b\<rparr>)" "requests_only ?P s (s\<lparr>irepeat := b\<rparr>)"
    "requests_only ?P s (s\<lparr>crtchead := 0\<rparr>)" "requests_only ?P s (s\<lparr>crtchead := 1\<rparr>)"
    "requests_only ?P s (s\<lparr>i2c := (i2c s)[n := e]\<rparr>)"
    by (rule requests_only_keep; simp)+
qed (auto simp: quiet_def pretends_def pad_regs_mem)

text \<open>C16: A whole script that is only pretended to be executed makes no request but the quiet ones, whatever the image holds and the card answers.\<close>

theorem dry_run_quiet:
  assumes "\<not> execute (bios d)" "active_output (bios d) = None" "crtchead s \<in> {0, 1}"
    and "parse_init_table fuel d off s = Some (ret, s')"
  shows "crtchead s' \<in> {0, 1} \<and> (\<exists>es. log s' = es @ log s \<and> list_all (quiet d) es)"
proof -
  have p: "(\<lambda>q. pretends d \<longrightarrow> quiet d q) = quiet d" using assms(1,2) by (simp add: pretends_def)
  have "requests_only (quiet d) s s'"
    using dry.parse_init_table_moves [of d s fuel off] assms(4) unfolding p by (rule movesD)
  then show ?thesis using assms(3) by (auto simp: requests_only_def)
qed

theorem dry_run_quiet_witness:
  "crtchead example_ist \<in> {0, 1} \<and> (\<exists>es. [Rd32 0x1000] = es @ log example_ist \<and>
    list_all (quiet (example_drv example_script False)) es)"
  using dry_run_quiet [of "example_drv example_script False" example_ist 1 0 "Inr ()"
      "example_ist\<lparr>log := [Rd32 0x1000]\<rparr>"] example_runs(1)
  by (simp add: examples)

subsection \<open>The depth of the calls\<close>

text \<open>\<open>m\<close> agrees with \<open>m'\<close> wherever it has a result.\<close>

definition upto_fuel :: "'a option \<Rightarrow> 'a option \<Rightarrow> bool" where
  "upto_fuel m m' \<longleftrightarrow> (\<forall>r. m = Some r \<longrightarrow> m' = Some r)"

lemma upto_fuel_refl: "upto_fuel m m" by (simp add: upto_fuel_def)

lemma upto_fuel_bind:
  "upto_fuel m m' \<Longrightarrow> (\<And>x. upto_fuel (f x) (f' x)) \<Longrightarrow> upto_fuel (m \<bind> f) (m' \<bind> f')"
  by (auto simp: upto_fuel_def bind_eq_Some_conv)

lemma upto_fuel_if:
  "upto_fuel a a' \<Longrightarrow> upto_fuel b b' \<Longrightarrow> upto_fuel (if c then a else b) (if c then a' else b')"
  by simp

lemma upto_fuel_prod:
  "(\<And>x y. upto_fuel (f x y) (f' x y)) \<Longrightarrow> upto_fuel (case_prod f p) (case_prod f' p)"
  by (cases p) simp

lemma upto_fuel_for_each:
  assumes "\<And>x s. upto_fuel (body x s) (body' x s)"
  shows "upto_fuel (for_each body xs s) (for_each body' xs s)"
proof (induction xs arbitrary: s)
  case Nil
  then show ?case by (simp add: upto_fuel_refl)
next
  case (Cons x xs)
  then show ?case by (auto intro: upto_fuel_bind assms)
qed

definition calls :: "u8 \<Rightarrow> bool" where
  "calls opc \<longleftrightarrow> opc \<in> {0x33, 0x5B, 0x6B}"

lemma lookup_calls:
  "map_of (itbl_entry parse) 0x33 = Some (init_repeat parse)"
  "map_of (itbl_entry parse) 0x5B = Some (init_sub_direct parse)"
  "map_of (itbl_entry parse) 0x6B = Some (init_sub parse)"
  by (simp_all add: itbl_entry_def)

lemma lookup_no_calls:
  "\<not> calls opc \<Longrightarrow> map_of (itbl_entry parse) opc = map_of (itbl_entry parse') opc"
  by (simp add: itbl_entry_def calls_def)

lemma upto_fuel_handlers:
  assumes "\<And>off s. upto_fuel (parse d off s) (parse' d off s)"
  shows "upto_fuel (init_repeat parse d ofs s) (init_repeat parse' d ofs s)"
    and "upto_fuel (init_sub_direct parse d ofs s) (init_sub_direct parse' d ofs s)"
    and "upto_fuel (init_sub parse d ofs s) (init_sub parse' d ofs s)"
  unfolding init_repeat_def init_sub_direct_def init_sub_def Let_def
  by (intro upto_fuel_bind upto_fuel_refl upto_fuel_if upto_fuel_prod upto_fuel_for_each assms)+

lemma upto_fuel_lookup:
  assumes "\<And>off s. upto_fuel (parse d off s) (parse' d off s)"
    and "map_of (itbl_entry parse) opc = Some h"
  obtains h' where "map_of (itbl_entry parse') opc = Some h'" "\<And>s. upto_fuel (h d ofs s) (h' d ofs s)"
proof (cases "calls opc")
  case True
  then show ?thesis
    using assms(2) that upto_fuel_handlers [of parse d parse', OF assms(1)]
    by (auto simp: calls_def lookup_calls)
next
  case False
  then have "map_of (itbl_entry parse') opc = Some h"
    using assms(2) by (simp add: lookup_no_calls [of _ parse' parse])
  then show ?thesis by (rule that) (rule upto_fuel_refl)
qed

lemma upto_fuel_loop:
  assumes "\<And>off s. upto_fuel (parse d off s) (parse' d off s)"
  shows "upto_fuel (parse_loop parse n d off s) (parse_loop parse' n d off s)"
proof (induction n arbitrary: off s)
  case 0
  show ?case by (simp add: upto_fuel_refl)
next
  case (Suc n)
  have "upto_fuel
     (case map_of (itbl_entry parse) opcode of None \<Rightarrow> Some (Inl ENOENT, s)
      | Some handler \<Rightarrow> handler d (ucast off) s \<bind> (\<lambda>(ret, s). case ret of Inl _ \<Rightarrow> Some (Inr (), s)
         | Inr l \<Rightarrow> if l = 0 then Some (Inr (), s) else parse_loop parse n d (off + of_nat l) s))
     (case map_of (itbl_entry parse') opcode of None \<Rightarrow> Some (Inl ENOENT, s)
      | Some handler \<Rightarrow> handler d (ucast off) s \<bind> (\<lambda>(ret, s). case ret of Inl _ \<Rightarrow> Some (Inr (), s)
         | Inr l \<Rightarrow> if l = 0 then Some (Inr (), s) else parse_loop parse' n d (off + of_nat l) s))" for opcode
  proof (cases "map_of (itbl_entry parse) opcode")
    case None
    then have "\<not> calls opcode" by (auto simp: calls_def lookup_calls)
    then have "map_of (itbl_entry parse') opcode = None" using None lookup_no_calls by metis
    with None show ?thesis by (simp add: upto_fuel_refl)
  next
    case (Some h)
    obtain h' where h': "map_of (itbl_entry parse') opcode = Some h'"
      "\<And>s. upto_fuel (h d (ucast off) s) (h' d (ucast off) s)"
      by (rule upto_fuel_lookup [where parse = parse and parse' = parse' and d = d and ofs = "ucast off" and opc = opcode and h = h])
       (use assms Some in auto)
    show ?thesis unfolding Some h' option.case
      by (intro upto_fuel_bind h'(2) upto_fuel_prod) (auto simp: upto_fuel_refl Suc split: sum.split)
  qed
  then show ?case unfolding parse_loop.simps
    by (intro upto_fuel_if upto_fuel_bind upto_fuel_refl)
qed

lemma parse_upto_fuel: "fuel \<le> fuel' \<Longrightarrow> upto_fuel (parse_init_table fuel d off s) (parse_init_table fuel' d off s)"
proof (induction fuel arbitrary: fuel' off s)
  case 0
  show ?case by (simp add: upto_fuel_def)
next
  case (Suc fuel)
  then obtain f where "fuel' = Suc f" "fuel \<le> f" by (cases fuel') auto
  then show ?case by (auto intro!: upto_fuel_loop Suc.IH)
qed

text \<open>So the depth only decides whether there is a result.\<close>

lemma more_depth_same_result:
  assumes "parse_init_table fuel d off s = Some r" "fuel \<le> fuel'"
  shows "parse_init_table fuel' d off s = Some r"
  using parse_upto_fuel [OF assms(2), of d off s] assms(1) by (simp add: upto_fuel_def)

lemma loop_no_calls:
  assumes "list_all (\<lambda>b. \<not> calls b) (data (bios d))"
  shows "parse_loop parse n d off s = parse_loop parse' n d off s"
proof (induction n arbitrary: off s)
  case 0
  show ?case by simp
next
  case (Suc n)
  have "map_of (itbl_entry parse) opc = map_of (itbl_entry parse') opc"
    if "rom8 d (unat off) = Some opc" for opc
    using that assms by (intro lookup_no_calls)
      (auto simp: rom8_def idx_def list_all_iff split: if_splits)
  then show ?case unfolding parse_loop.simps Suc
    by (cases "rom8 d (unat off)") simp_all
qed

text \<open>An image without the three opcodes that run scripts needs one level of calls only.\<close>

theorem no_calls_depth_one:
  assumes "list_all (\<lambda>b. \<not> calls b) (data (bios d))"
  shows "parse_init_table (Suc fuel) d off s = parse_init_table 1 d off s"
  unfolding One_nat_def parse_init_table.simps by (rule loop_no_calls [OF assms])

theorem no_calls_depth_one_witness:
  "parse_init_table (Suc 6) (example_drv example_script True) 0 example_ist =
    parse_init_table 1 (example_drv example_script True) 0 example_ist"
  by (rule no_calls_depth_one) code_simp

text \<open>
  C17: Scripts that begin with a direct call to one another (or to themselves) never return while
  commands are executed: at every depth of the calls each of them has yet another call to make.
  \<open>parse_init_table\<close> has no limit on its recursion, although each table is limited to 1000 opcodes.
\<close>

theorem self_call_never_returns:
  assumes "\<And>t. t \<in> T \<Longrightarrow> ucast t < len (bios d) \<and> rom8 d (unat t) = Some 0x5B \<and>
      (\<exists>u \<in> T. rom16 d (unat t + 1) = Some u)"
    and "t \<in> T" "iexecute s"
  shows "parse_init_table fuel d (ucast t) s = None"
  using assms(2)
proof (induction fuel arbitrary: t)
  case 0
  show ?case by simp
next
  case (Suc fuel)
  from assms(1) [OF Suc.prems] obtain u where
    u: "ucast t < len (bios d)" "rom8 d (unat t) = Some 0x5B" "u \<in> T" "rom16 d (unat t + 1) = Some u" by blast
  have t: "unat (ucast t :: u32) = unat t" "(ucast (ucast t :: u32) :: u16) = t"
    by (simp add: unat_ucast_up) (rule bit_word_eqI, simp add: bit_ucast_iff)
  have "init_sub_direct (parse_init_table fuel) d t s = None"
    using Suc.IH [OF u(3)] u(4) assms(3) by (simp add: init_sub_direct_def)
  then have "parse_loop (parse_init_table fuel) (Suc n) d (ucast t) s = None" for n
    using u(1,2) t by (simp add: lookup_calls)
  from this [of 999] show ?case by (simp add: MAX_TABLE_OPS_def)
qed

theorem self_call_never_returns_witness:
  "parse_init_table 3 (example_drv [0x5B, 0x03, 0x00, 0x5B, 0x00, 0x00] True) 0 example_ist = None"
proof -
  have "parse_init_table 3 (example_drv [0x5B, 0x03, 0x00, 0x5B, 0x00, 0x00] True) (ucast (0 :: u16)) example_ist = None"
    by (rule self_call_never_returns [of "{0, 3}"]) (auto simp: examples rom8_def rom16_def idx_def)
  then show ?thesis by simp
qed

subsection \<open>Registers\<close>

lemma munge_reg_plain:
  assumes "r AND 0x60000000 = 0"
  shows "munge_reg d r = Some r"
proof -
  have "r AND 0x40000000 = 0"
  proof -
    have "r AND 0x40000000 = (r AND 0x60000000) AND 0x40000000" by (simp add: and.assoc)
    then show ?thesis using assms by simp
  qed
  moreover have "r AND NOT 0x60000000 = r"
  proof -
    have "r = (r AND 0x60000000) OR (r AND NOT 0x60000000)"
      by (simp add: bit.conj_disj_distrib [symmetric])
    then show ?thesis using assms by simp
  qed
  ultimately show ?thesis by (simp add: munge_reg_def)
qed

text \<open>C18: \<open>bios_wr32\<close> writes at most one register, only while the VBIOS is executed, and always an even one inside the 8 MB of registers, with the output bits of the NV50 removed.\<close>

theorem register_write_bounded:
  assumes "bios_wr32 d r v s = Some s'"
  shows "s' = s \<or> (execute (bios d) \<and> (\<exists>r'. s' = s\<lparr>log := Wr32 r' v # log s\<rparr> \<and> r' < 0x800000 \<and> even r'
    \<and> (card_type d \<ge> NV_50 \<longrightarrow> r' AND 0x60000000 = 0)))"
proof -
  obtain m where m: "munge_reg d r = Some m"
    using assms by (cases "munge_reg d r") (auto simp: bios_wr32_def)
  define r' where "r' = (if m AND 1 \<noteq> 0 then m AND 0xfffffffe else m)"
  have step: "s' = (if valid_reg m \<and> execute (bios d) then s\<lparr>log := Wr32 r' v # log s\<rparr> else s)"
    using assms by (auto simp: bios_wr32_def m nv_wr32_def tell_def r'_def split: if_splits)
  have even: "even r'"
  proof (cases "m AND 1 = 0")
    case True
    then show ?thesis by (simp add: r'_def and_one_eq even_iff_mod_2_eq_zero)
  next
    case False
    have "\<not> bit (m AND 0xfffffffe) 0" unfolding bit_and_iff by simp
    then show ?thesis using False by (simp add: r'_def bit_0)
  qed
  have le: "r' \<le> m" by (simp add: r'_def word_and_le2)
  have "r' AND 0x60000000 = 0" if card: "card_type d \<ge> NV_50"
  proof -
    obtain q where q: "m = q AND NOT 0x60000000"
      using m card unfolding munge_reg_def by (auto simp: bind_eq_Some_conv split: if_splits)
    then have "m AND 0x60000000 = 0" by (simp add: and.assoc)
    then show ?thesis by (auto simp: r'_def and.assoc and.left_commute)
  qed
  then show ?thesis
    using step even le unfolding valid_reg_def by (auto intro: order.strict_trans1)
qed

theorem register_write_bounded_witness:
  "\<exists>r'. example_ist\<lparr>log := [Wr32 0x1000 0x55]\<rparr> = example_ist\<lparr>log := Wr32 r' 0x55 # log example_ist\<rparr> \<and>
    r' < 0x800000 \<and> even r'"
proof -
  have "bios_wr32 (example_drv example_script True) 0x1001 0x55 example_ist =
      Some (example_ist\<lparr>log := [Wr32 0x1000 0x55]\<rparr>)"
    by code_simp
  from register_write_bounded [OF this] show ?thesis by (auto simp: examples)
qed

text \<open>\<open>INIT_NV_REG\<close> reads its register, keeps the bits of its mask, sets those of its data and writes the result to the same register.\<close>

theorem init_nv_reg_effect:
  assumes "rom32 d (unat ofs + 1) = Some r" "rom32 d (unat ofs + 5) = Some m" "rom32 d (unat ofs + 9) = Some v"
    and "iexecute s" "execute (bios d)"
    and "munge_reg d r = Some r'" "valid_reg r'" "even r'"
  shows "init_nv_reg d ofs s = Some (Inr 13, s\<lparr>log :=
     Wr32 r' ((snd (answer d (log s) (Rd32 r')) AND m) OR v) # Rd32 r' # log s\<rparr>)"
proof -
  have "r' AND 1 = 0" using assms(8) by (simp add: and_one_eq even_iff_mod_2_eq_zero)
  then show ?thesis
    using assms by (simp add: init_nv_reg_def bios_rd32_def bios_wr32_def nv_rd32_def nv_wr32_def
      request_def tell_def split: prod.splits)
qed

theorem init_nv_reg_effect_witness:
  "init_nv_reg (example_drv example_script True) 0 example_ist = Some (Inr 13, example_ist\<lparr>log :=
     Wr32 0x1000 ((snd (answer (example_drv example_script True) [] (Rd32 0x1000)) AND 0xf0) OR 5) # Rd32 0x1000 # []\<rparr>)"
proof -
  have "rom32 (example_drv example_script True) (unat (0 :: u16) + 1) = Some 0x1000"
    "rom32 (example_drv example_script True) (unat (0 :: u16) + 5) = Some 0xf0"
    "rom32 (example_drv example_script True) (unat (0 :: u16) + 9) = Some 5"
    "munge_reg (example_drv example_script True) 0x1000 = Some 0x1000" "valid_reg 0x1000"
    "iexecute example_ist" "execute (bios (example_drv example_script True))"
    by code_simp+
  from init_nv_reg_effect [OF this(1-3) this(6,7) this(4,5)] show ?thesis by (simp add: example_ist_def)
qed

lemma vgacrtc_word_ok:
  "munge_reg d (vgacrtc_word i) = Some (vgacrtc_word i)" "valid_reg (vgacrtc_word i)" "vgacrtc_word i AND 1 = 0"
proof -
  have le: "ucast (i AND NOT 3) \<le> (255 :: u32)"
    using unsigned_less [of "i AND NOT 3", where 'a = nat] by (simp add: word_le_nat_alt unat_ucast_up)
  then have u: "unat (vgacrtc_word i) = 0x619400 + unat (ucast (i AND NOT 3) :: u32)"
    unfolding vgacrtc_word_def by (subst unat_plus_if_no_overflow) (simp_all add: word_le_nat_alt)
  then have lt: "unat (vgacrtc_word i) < 0x800000" using le by (simp add: word_le_nat_alt)
  then show "valid_reg (vgacrtc_word i)" by (simp add: valid_reg_def word_less_nat_alt)
  have "take_bit 23 (vgacrtc_word i) = vgacrtc_word i"
    using lt by (simp add: word_unat_eq_iff unsigned_take_bit_eq [where 'a = nat] take_bit_nat_eq_self)
  then have "vgacrtc_word i AND 0x60000000 = take_bit 23 (vgacrtc_word i) AND 0x60000000" by simp
  also have "\<dots> = 0" by (simp add: take_bit_eq_mask mask_eq_exp_minus_1 and.assoc)
  finally show "munge_reg d (vgacrtc_word i) = Some (vgacrtc_word i)" by (rule munge_reg_plain)
  have "\<not> bit (ucast (i AND NOT 3) :: u32) 0"
    unfolding bit_unsigned_iff bit_and_iff bit_not_iff by simp
  then show "vgacrtc_word i AND 1 = 0" by (simp add: vgacrtc_word_def and_one_eq bit_0 flip: even_iff_mod_2_eq_zero)
qed

text \<open>The four CRTC registers of a word: a write changes the byte of its own register only.\<close>

definition byte_of :: "nat \<Rightarrow> u32 \<Rightarrow> u8" where
  "byte_of k x = ucast (drop_bit (8 * k) x)"

lemma bit_byte_of: "k < 4 \<Longrightarrow> bit (byte_of k x) n \<longleftrightarrow> n < 8 \<and> bit x (8 * k + n)"
  by (auto simp: byte_of_def bit_unsigned_iff bit_drop_bit_eq)

lemma bit_ff: "bit (0xff :: u32) n \<longleftrightarrow> n < 8" "bit (0xff :: u8) n \<longleftrightarrow> n < 8"
  "bit (0xff :: int) n \<longleftrightarrow> n < 8" "bit (0xff :: nat) n \<longleftrightarrow> n < 8"
proof -
  have "(0xff :: u32) = mask 8" "(0xff :: u8) = mask 8" "(0xff :: int) = mask 8" "(0xff :: nat) = mask 8"
    by (simp_all add: mask_eq_exp_minus_1)
  then show "bit (0xff :: u32) n \<longleftrightarrow> n < 8" "bit (0xff :: u8) n \<longleftrightarrow> n < 8"
    "bit (0xff :: int) n \<longleftrightarrow> n < 8" "bit (0xff :: nat) n \<longleftrightarrow> n < 8"
    by (simp_all only: bit_mask_iff) auto
qed

lemma lane_store:
  assumes "j < 4" "k < 4"
  shows "byte_of k ((x AND NOT (push_bit (8 * j) 0xff)) OR push_bit (8 * j) (ucast (v :: u8)))
    = (if k = j then v else byte_of k x)"
proof (rule bit_word_eqI)
  fix n
  assume n: "n < LENGTH(8)"
  have "8 * j \<le> 8 * k + n \<and> 8 * k + n - 8 * j < 8 \<longleftrightarrow> k = j" using n by auto
  moreover have "8 * j \<le> 8 * k + n \<longrightarrow> k \<noteq> j \<longrightarrow> \<not> 8 * k + n - 8 * j < 8" using n by auto
  moreover have "8 * k + n < 32" using assms n by auto
  ultimately show "bit (byte_of k ((x AND NOT (push_bit (8 * j) 0xff)) OR push_bit (8 * j) (ucast v))) n
      = bit (if k = j then v else byte_of k x) n"
    using n assms
    by (auto simp: bit_byte_of bit_or_iff bit_and_iff bit_not_iff bit_push_bit_iff bit_ff bit_unsigned_iff
      dest: bit_imp_le_length)
qed

lemma vgacrtc_lane: "vgacrtc_shift i = 8 * unat (i AND 3)" "unat (i AND 3) < 4"
proof -
  have "i AND 3 \<le> 3" by (rule word_and_le1)
  then show "unat (i AND 3) < 4" by (simp add: word_le_nat_alt)
qed (simp add: vgacrtc_shift_def)

text \<open>C19: On NV50 four CRTC registers share a word: writing one of them leaves the other three as the card has them.\<close>

theorem crtc_write_one_register:
  assumes "card_type d \<ge> NV_50" "execute (bios d)" "index \<noteq> NV_CIO_CRE_44"
  shows "\<exists>y. bios_idxprt_wr d NV_CIO_CRX__COLOR index v s =
      Some (s\<lparr>log := Wr32 (vgacrtc_word index) y # Rd32 (vgacrtc_word index) # log s\<rparr>)
    \<and> (\<forall>k<4. byte_of k y = (if k = unat (index AND 3) then v
         else byte_of k (snd (answer d (log s) (Rd32 (vgacrtc_word index))))))"
proof -
  let ?x = "snd (answer d (log s) (Rd32 (vgacrtc_word index)))"
  let ?y = "(?x AND NOT (push_bit (vgacrtc_shift index) 0xff)) OR push_bit (vgacrtc_shift index) (ucast v)"
  have "bios_idxprt_wr d NV_CIO_CRX__COLOR index v s =
      Some (s\<lparr>log := Wr32 (vgacrtc_word index) ?y # Rd32 (vgacrtc_word index) # log s\<rparr>)"
    using assms vgacrtc_word_ok [where i = index]
    by (simp add: bios_idxprt_wr_def valid_idx_port_def idxprt_store_def bios_rd32_def bios_wr32_def
      nv_rd32_def nv_wr32_def request_def tell_def split: prod.splits)
  then show ?thesis
    using lane_store [OF vgacrtc_lane(2)] unfolding vgacrtc_lane(1) by blast
qed

theorem crtc_write_one_register_witness:
  "\<exists>y. bios_idxprt_wr (example_drv example_script True) NV_CIO_CRX__COLOR 0x11 0x77 example_ist =
      Some (example_ist\<lparr>log := Wr32 (vgacrtc_word 0x11) y # Rd32 (vgacrtc_word 0x11) # log example_ist\<rparr>)
    \<and> (\<forall>k<4. byte_of k y = (if k = unat (0x11 AND 3 :: u8) then 0x77
         else byte_of k (snd (answer (example_drv example_script True) (log example_ist) (Rd32 (vgacrtc_word 0x11))))))"
  by (rule crtc_write_one_register) (simp_all add: examples NV_50_def NV_CIO_CRE_44_def)

text \<open>Reading a CRTC register on NV50 gives the byte of that register in its word.\<close>

theorem crtc_read_own_register:
  assumes "card_type d \<ge> NV_50"
  shows "bios_idxprt_rd d NV_CIO_CRX__COLOR index s =
      Some (byte_of (unat (index AND 3)) (snd (answer d (log s) (Rd32 (vgacrtc_word index)))),
        s\<lparr>log := Rd32 (vgacrtc_word index) # log s\<rparr>)"
proof -
  have "ucast (drop_bit n x AND 0xff) = (ucast (drop_bit n x) :: u8)" for n and x :: u32
    by (rule bit_word_eqI) (auto simp: bit_unsigned_iff bit_and_iff bit_ff dest: bit_imp_le_length)
  then show ?thesis
    using assms vgacrtc_word_ok [where i = index]
    by (simp add: bios_idxprt_rd_def valid_idx_port_def bios_rd32_def nv_rd32_def request_def
      byte_of_def vgacrtc_lane(1) split: prod.splits)
qed

theorem crtc_read_own_register_witness:
  "bios_idxprt_rd (example_drv example_script True) NV_CIO_CRX__COLOR 0x11 example_ist =
      Some (byte_of (unat (0x11 AND 3 :: u8)) 0x5a, example_ist\<lparr>log := Rd32 (vgacrtc_word 0x11) # log example_ist\<rparr>)"
  using crtc_read_own_register [of "example_drv example_script True" "0x11" example_ist]
  by (simp add: examples NV_50_def)

subsection \<open>Time\<close>

definition sleeps :: "io list \<Rightarrow> nat" where
  "sleeps l = length (filter (\<lambda>q. case q of Msleep t \<Rightarrow> True | _ \<Rightarrow> False) l)"

lemma condition_no_sleep: "bios_condition_met d c s = Some (m, s') \<Longrightarrow> sleeps (log s') = sleeps (log s)"
  by (auto simp: bios_condition_met_def bios_rd32_def nv_rd32_def request_def sleeps_def bind_eq_Some_conv Let_def
    split: if_splits prod.splits)

lemma condition_loop_sleeps:
  "until (\<lambda>_ s. do {
       (met, s) \<leftarrow> bios_condition_met d cond s;
       if met then Some (True, s)
       else do { s \<leftarrow> tell d (Msleep 20) s; Some (False, s) } }) xs s = Some (r, s')
   \<Longrightarrow> sleeps (log s') \<le> sleeps (log s) + length xs"
proof (induction xs arbitrary: s)
  case Nil
  then show ?case by simp
next
  case (Cons x xs)
  from Cons.prems obtain met t where t: "bios_condition_met d cond s = Some (met, t)"
    by (auto simp: bind_eq_Some_conv)
  show ?case
  proof (cases met)
    case True
    with Cons.prems t show ?thesis by (simp add: condition_no_sleep)
  next
    case False
    with Cons.prems t have "until (\<lambda>_ s. do {
       (met, s) \<leftarrow> bios_condition_met d cond s;
       if met then Some (True, s)
       else do { s \<leftarrow> tell d (Msleep 20) s; Some (False, s) } }) xs (t\<lparr>log := Msleep 20 # log t\<rparr>) = Some (r, s')"
      by (simp add: tell_def)
    from Cons.IH [OF this] condition_no_sleep [OF t] show ?thesis by (simp add: sleeps_def)
  qed
qed

text \<open>\<open>INIT_CONDITION_TIME\<close> sleeps at most 100 times 20 ms, the 2 s its comment promises, and once while it only pretends.\<close>

theorem condition_time_bounded:
  assumes "init_condition_time d ofs s = Some (ret, s')"
  shows "sleeps (log s') \<le> sleeps (log s) + (if execute (bios d) then 100 else 1)"
proof (cases "iexecute s")
  case False
  with assms show ?thesis by (auto simp: init_condition_time_def bind_eq_Some_conv)
next
  case True
  define n where "n b = (if execute (bios d) then min (unat (b :: u8) * 50) 100 else 1)" for b
  have n: "n b \<le> (if execute (bios d) then 100 else 1)" for b by (simp add: n_def)
  from assms True obtain b cond r t m u where
    l: "until (\<lambda>_ s. do {
       (met, s) \<leftarrow> bios_condition_met d cond s;
       if met then Some (True, s)
       else do { s \<leftarrow> tell d (Msleep 20) s; Some (False, s) } }) [0..<n b] s = Some (r, t)"
    and c: "bios_condition_met d cond t = Some (m, u)" and "log s' = log u"
    unfolding init_condition_time_def n_def by (auto simp: bind_eq_Some_conv Let_def)
  then show ?thesis
    using condition_loop_sleeps [OF l] condition_no_sleep [OF c] n [of b] by simp
qed

theorem condition_time_bounded_witness:
  "case init_condition_time (example_drv (0x56 # 0 # 2 # replicate 10 0) True) 0 example_ist of
     None \<Rightarrow> False | Some (ret, s') \<Rightarrow> sleeps (log s') \<le> 100"
proof (cases "init_condition_time (example_drv (0x56 # 0 # 2 # replicate 10 0) True) 0 example_ist")
  case None
  moreover have "init_condition_time (example_drv (0x56 # 0 # 2 # replicate 10 0) True) 0 example_ist \<noteq> None"
    by code_simp
  ultimately show ?thesis by simp
next
  case (Some p)
  then show ?thesis
    using condition_time_bounded [of "example_drv (0x56 # 0 # 2 # replicate 10 0) True" 0 example_ist "fst p" "snd p"]
    by (auto simp: examples sleeps_def)
qed

end
