(* ===== verification/Ramht.thy ===== *)
theory Ramht
  imports Flush
begin

section \<open>RAMHT, the hash table of a channel's objects\<close>

text \<open>
  \<open>pscnv_ramht.c\<close>. The table lies in an object of VRAM: \<open>8 << bits\<close> bytes from \<open>offset\<close> on, an entry being a handle and
  the context it stands for, 0 when the entry is unused.
\<close>

subsection \<open>The table\<close>

text \<open>The loop ends only if \<open>bits\<close> is not 0.\<close>

partial_function (option) hash_from :: "nat \<Rightarrow> u32 \<Rightarrow> u32 \<Rightarrow> u32 option" where
  "hash_from bits hash handle =
     (if handle = 0 then Some hash
      else do {
        size \<leftarrow> shl32 1 bits;
        rest \<leftarrow> shr32 handle bits;
        hash_from bits (hash XOR (handle AND (size - 1))) rest })"

definition pscnv_ramht_hash :: "ramht \<Rightarrow> u32 \<Rightarrow> u32 option" where
  "pscnv_ramht_hash r handle = hash_from (rbits r) 0 handle"

definition ramht_step :: "ramht \<Rightarrow> u32 \<Rightarrow> u32 option" where
  "ramht_step r pos = do {
     end' \<leftarrow> shl32 8 (rbits r);
     let pos = pos + 8;
     Some (if pos = end' then 0 else pos) }"

partial_function (option) ramht_insert_at ::
  "card \<Rightarrow> nat \<Rightarrow> ramht \<Rightarrow> u32 \<Rightarrow> u32 \<Rightarrow> u32 \<Rightarrow> u32 \<Rightarrow> kern \<Rightarrow> (unit res \<times> kern) option" where
  "ramht_insert_at d b r handle context' start pos s = do {
     (used, s) \<leftarrow> nv_rv32 d b (roffset r + pos + 4) s;
     if used = 0 then do {
       s \<leftarrow> nv_wv32 d b (roffset r + pos) handle s;
       s \<leftarrow> nv_wv32 d b (roffset r + pos + 4) context' s;
       s \<leftarrow> bar_flush d s;
       Some (Inr (), s) }
     else do {
       pos \<leftarrow> ramht_step r pos;
       if pos \<noteq> start then ramht_insert_at d b r handle context' start pos s
       else Some (Inl ENOMEM, s) } }"

definition pscnv_ramht_insert ::
  "card \<Rightarrow> ramht \<Rightarrow> u32 \<Rightarrow> u32 \<Rightarrow> kern \<Rightarrow> (unit res \<times> kern) option" where
  "pscnv_ramht_insert d r handle context' s = do {
     b \<leftarrow> rbo r;
     hash \<leftarrow> pscnv_ramht_hash r handle;
     let start = hash * 8;
     ramht_insert_at d b r handle context' start start s }"

partial_function (option) ramht_find_at ::
  "card \<Rightarrow> nat \<Rightarrow> ramht \<Rightarrow> u32 \<Rightarrow> u32 \<Rightarrow> u32 \<Rightarrow> kern \<Rightarrow> (u32 \<times> kern) option" where
  "ramht_find_at d b r handle start pos s = do {
     (used, s) \<leftarrow> nv_rv32 d b (roffset r + pos + 4) s;
     if used = 0 then Some (0, s)
     else do {
       (h, s) \<leftarrow> nv_rv32 d b (roffset r + pos) s;
       if h = handle then nv_rv32 d b (roffset r + pos + 4) s
       else do {
         pos \<leftarrow> ramht_step r pos;
         if pos \<noteq> start then ramht_find_at d b r handle start pos s
         else Some (0, s) } } }"

definition pscnv_ramht_find :: "card \<Rightarrow> ramht \<Rightarrow> u32 \<Rightarrow> kern \<Rightarrow> (u32 \<times> kern) option" where
  "pscnv_ramht_find d r handle s = do {
     b \<leftarrow> rbo r;
     hash \<leftarrow> pscnv_ramht_hash r handle;
     let start = hash * 8;
     ramht_find_at d b r handle start start s }"

end
