(* ===== verification/OpenAddressing.thy ===== *)
theory OpenAddressing
  imports Prelude
begin

section \<open>Tables with open addressing\<close>

text \<open>
  The contract of a hash table with open addressing and linear probing, without deletion, as a
  locale over its size and its hash: looking up goes by the map the table stands for, and storing
  in the first unused entry extends that map.
\<close>

lemma find_SomeE:
  assumes "find P xs = Some x"
  obtains ps qs where "xs = ps @ x # qs" "P x" "\<forall>p \<in> set ps. \<not> P p"
  using assms
proof (induction xs arbitrary: thesis)
  case (Cons y ys)
  show ?case
  proof (cases "P y")
    case True
    with Cons.prems(2) Cons.prems(1) [of "[]" ys] show ?thesis by simp
  next
    case False
    with Cons.prems(2) have "find P ys = Some x" by simp
    then obtain ps qs where "ys = ps @ x # qs" "P x" "\<forall>p \<in> set ps. \<not> P p"
      using Cons.IH by blast
    with False Cons.prems(1) [of "y # ps" qs] show ?thesis by auto
  qed
qed simp

lemma find_SomeD: "find P xs = Some x \<Longrightarrow> P x \<and> x \<in> set xs"
  by (auto elim: find_SomeE)

lemma find_append: "find P (xs @ ys) = (case find P xs of None \<Rightarrow> find P ys | Some x \<Rightarrow> Some x)"
  by (induction xs) auto

lemma find_None: "(\<And>x. x \<in> set xs \<Longrightarrow> \<not> P x) \<Longrightarrow> find P xs = None"
  by (simp add: find_None_iff)

text \<open>Entry \<open>i\<close> of a table is a pair of key and value; the value 0 marks an unused entry.\<close>

type_synonym table = "nat \<Rightarrow> u32 \<times> u32"

definition probes :: "nat \<Rightarrow> nat \<Rightarrow> nat list" where
  "probes n st = map (\<lambda>j. (st + j) mod n) [0..<n]"

definition unused :: "table \<Rightarrow> nat \<Rightarrow> bool" where
  "unused T i \<longleftrightarrow> snd (T i) = 0"

definition stops :: "table \<Rightarrow> u32 \<Rightarrow> nat \<Rightarrow> bool" where
  "stops T k i \<longleftrightarrow> unused T i \<or> fst (T i) = k"

definition table_find :: "table \<Rightarrow> u32 \<Rightarrow> nat list \<Rightarrow> u32 option" where
  "table_find T k is = (case find (stops T k) is of
     None \<Rightarrow> None
   | Some i \<Rightarrow> if unused T i then None else Some (snd (T i)))"

locale open_addressing =
  fixes size :: nat and hash :: "u32 \<Rightarrow> nat"
  assumes hash_less: "hash k < size"
begin

text \<open>The map a table stands for, and when every entry can be found.\<close>

definition lookup :: "table \<Rightarrow> u32 \<Rightarrow> u32 option" where
  "lookup T k = table_find T k (probes size (hash k))"

definition packed :: "table \<Rightarrow> bool" where
  "packed T \<longleftrightarrow> (\<forall>i < size. \<not> unused T i \<longrightarrow>
     (\<exists>ps qs. probes size (hash (fst (T i))) = ps @ i # qs \<and> (\<forall>p \<in> set ps. \<not> unused T p)))"

lemma probes_set: "set (probes size st) = {..<size}"
proof -
  have "0 < size" using hash_less [of 0] by simp
  have "i \<in> (\<lambda>j. (st + j) mod size) ` {0..<size}" if "i < size" for i
  proof
    show "i = (st + (i + size - st mod size) mod size) mod size"
      using that \<open>0 < size\<close>
      by (metis (no_types, lifting) add.commute add_diff_inverse_nat less_imp_le_nat mod_add_left_eq
          mod_add_right_eq mod_add_self2 mod_less mod_less_divisor not_less trans_le_add2)
    show "(i + size - st mod size) mod size \<in> {0..<size}" using \<open>0 < size\<close> by simp
  qed
  with \<open>0 < size\<close> show ?thesis by (auto simp: probes_def)
qed

lemma probes_distinct: "distinct (probes size st)"
proof -
  have le: "a = b" if "b \<le> a" "a < size" "(st + a) mod size = (st + b) mod size" for a b
  proof -
    from that have "size dvd (st + a) - (st + b)" by (simp add: mod_eq_dvd_iff_nat)
    then have "size dvd a - b" by simp
    then have "\<not> 0 < a - b" using that(2) nat_dvd_not_less [of "a - b" size] by linarith
    with that(1) show ?thesis by simp
  qed
  have "inj_on (\<lambda>j. (st + j) mod size) {0..<size}"
  proof (rule inj_onI)
    fix a b assume ab: "a \<in> {0..<size}" "b \<in> {0..<size}" and m: "(st + a) mod size = (st + b) mod size"
    show "a = b"
    proof (cases "b \<le> a")
      case True
      from ab(1) show ?thesis by (intro le [OF True _ m]) simp
    next
      case False
      then have l: "a \<le> b" by simp
      from ab(2) have "b = a" by (intro le [OF l _ m [symmetric]]) simp
      then show ?thesis by simp
    qed
  qed
  then show ?thesis by (simp add: probes_def distinct_map)
qed

text \<open>What is found is in the table, and, in a packed table, all that is in it can be found.\<close>

lemma lookup_sound:
  assumes "lookup T k = Some c"
  shows "\<exists>i < size. T i = (k, c) \<and> c \<noteq> 0"
proof -
  from assms obtain i where i: "find (stops T k) (probes size (hash k)) = Some i" "\<not> unused T i" "c = snd (T i)"
    by (auto simp: lookup_def table_find_def split: option.splits if_splits)
  then have "stops T k i" "i \<in> set (probes size (hash k))" by (auto dest: find_SomeD)
  with i(2,3) show ?thesis by (auto simp: stops_def unused_def probes_set prod_eq_iff intro!: exI [of _ i])
qed

lemma lookup_complete:
  assumes "packed T" "i < size" "\<not> unused T i"
  shows "lookup T (fst (T i)) \<noteq> None"
proof -
  from assms obtain ps qs where p: "probes size (hash (fst (T i))) = ps @ i # qs" "\<forall>p \<in> set ps. \<not> unused T p"
    unfolding packed_def by blast
  have "stops T (fst (T i)) i" by (simp add: stops_def)
  then obtain j where j: "find (stops T (fst (T i))) (ps @ i # qs) = Some j" "j \<in> set ps \<or> j = i"
    by (cases "find (stops T (fst (T i))) ps") (auto simp: find_append dest: find_SomeD)
  with p(2) assms(3) have "\<not> unused T j" by auto
  with j(1) p(1) show ?thesis by (simp add: lookup_def table_find_def)
qed

lemma none_unused: "find (unused T) (probes size st) = None \<longleftrightarrow> (\<forall>i < size. \<not> unused T i)"
  by (auto simp: find_None_iff probes_set)

text \<open>Storing in the first unused entry.\<close>

lemma packed_store:
  assumes "packed T" "find (unused T) (probes size (hash k)) = Some i"
  shows "packed (T(i := (k, c)))"
  unfolding packed_def
proof (intro allI impI)
  fix j assume j: "j < size" "\<not> unused (T(i := (k, c))) j"
  from assms(2) obtain ps qs where p: "probes size (hash k) = ps @ i # qs" "unused T i"
    "\<forall>p \<in> set ps. \<not> unused T p" by (rule find_SomeE)
  have same: "\<not> unused T p \<Longrightarrow> \<not> unused (T(i := (k, c))) p" for p
    using p(2) by (auto simp: unused_def)
  show "\<exists>ps qs. probes size (hash (fst ((T(i := (k, c))) j))) = ps @ j # qs \<and>
      (\<forall>p \<in> set ps. \<not> unused (T(i := (k, c))) p)"
  proof (cases "j = i")
    case True
    with p same show ?thesis by auto
  next
    case False
    with j have "\<not> unused T j" by (simp add: unused_def)
    with assms(1) j(1) obtain ps qs where "probes size (hash (fst (T j))) = ps @ j # qs" "\<forall>p \<in> set ps. \<not> unused T p"
      unfolding packed_def by blast
    with False same show ?thesis by auto
  qed
qed

lemma lookup_store:
  assumes "packed T" "find (unused T) (probes size (hash k)) = Some i"
  shows "lookup (T(i := (k, c))) = (if c = 0 \<or> lookup T k \<noteq> None then lookup T else (lookup T)(k \<mapsto> c))"
proof
  fix k2
  let ?T = "T(i := (k, c))" and ?xs = "probes size (hash k2)"
  from assms(2) have i: "unused T i" "i < size" using probes_set by (auto dest!: find_SomeD)
  then have "find (stops T k2) ?xs \<noteq> None"
    by (auto simp: find_None_iff probes_set stops_def)
  then obtain j where j: "find (stops T k2) ?xs = Some j" by blast
  then obtain ps qs where p: "?xs = ps @ j # qs" "stops T k2 j" "\<forall>p \<in> set ps. \<not> stops T k2 p"
    by (rule find_SomeE)
  have "\<forall>p \<in> set ps. \<not> stops ?T k2 p"
    using p(3) i(1) by (auto simp: stops_def unused_def)
  then have "find (stops ?T k2) ps = None" by (simp add: find_None_iff)
  then have new: "find (stops ?T k2) ?xs = (if stops ?T k2 j then Some j else find (stops ?T k2) qs)"
    by (simp add: p(1) find_append)
  show "lookup ?T k2 = (if c = 0 \<or> lookup T k \<noteq> None then lookup T else (lookup T)(k \<mapsto> c)) k2"
  proof (cases "j = i")
    case False
    have "lookup ?T k2 = lookup T k2" using False p(2) j new by (simp add: lookup_def table_find_def stops_def unused_def)
    moreover have "lookup T k \<noteq> None" if "k2 = k"
    proof -
      from assms(2) obtain us vs where u: "probes size (hash k) = us @ i # vs" "\<forall>p \<in> set us. \<not> unused T p"
        by (rule find_SomeE)
      have "j \<in> set us"
        using j False i(1) unfolding that u(1)
        by (auto simp: find_append stops_def dest: find_SomeD split: option.splits)
      with u(2) j that show ?thesis by (simp add: lookup_def table_find_def)
    qed
    ultimately show ?thesis by auto
  next
    case True
    then have "lookup T k2 = None" using i(1) j by (simp add: lookup_def table_find_def)
    have "unused ?T q" if q: "c \<noteq> 0" "k2 \<noteq> k" "find (stops ?T k2) qs = Some q" for q
    proof (rule ccontr)
      assume u: "\<not> unused ?T q"
      from q(3) have "stops ?T k2 q" "q \<in> set qs" by (auto dest: find_SomeD)
      with u q(2) True p(1) have "\<not> unused T q" "fst (T q) = k2" "q < size"
        using probes_distinct [of "hash k2"] probes_set [of "hash k2"]
        by (auto simp: stops_def unused_def split: if_splits)
      with assms(1) obtain us vs where v: "?xs = us @ q # vs" "\<forall>p \<in> set us. \<not> unused T p"
        unfolding packed_def by blast
      have "i \<in> set us"
        using p(1) v(1) \<open>q \<in> set qs\<close> probes_distinct [of "hash k2"] True
        by (auto simp: append_eq_append_conv2 Cons_eq_append_conv append_eq_Cons_conv)
      with v(2) i(1) show False by blast
    qed
    then have "lookup ?T k2 = (if c = 0 \<or> k2 \<noteq> k then None else Some c)"
      using i(1) new True by (auto simp: lookup_def table_find_def stops_def unused_def split: option.splits)
    with \<open>lookup T k2 = None\<close> show ?thesis by auto
  qed
qed

end

end
