(* ===== verification/RamhtProps.thy ===== *)
theory RamhtProps
  imports Ramht OpenAddressing
begin

section \<open>RAMHT as a map from handles to contexts\<close>

text \<open>
  The hash of the driver satisfies the contract of a table with open addressing, and
  \<open>pscnv_ramht_find\<close> and \<open>pscnv_ramht_insert\<close>, on the words of an object, implement looking up and
  storing: the table stands for a map from handles to contexts.
\<close>

subsection \<open>The hash\<close>

lemma shl32_one: "n < 32 \<Longrightarrow> shl32 1 n = Some (2 ^ n)"
  by (simp add: shl32_def push_bit_eq_mult)

lemma unat_drop_bit_u32: "unat (drop_bit n (x :: u32)) = unat x div 2 ^ n"
proof -
  have "unat (drop_bit n x) = drop_bit n (take_bit 32 (unat x))" using unsigned_drop_bit_eq [of n x] by simp
  then show ?thesis using unat_u32_less [of x] by (simp add: take_bit_nat_eq_self drop_bit_eq_div)
qed

lemma drop_bit_less: "0 < n \<Longrightarrow> x \<noteq> 0 \<Longrightarrow> unat (drop_bit n x) < unat (x :: u32)"
  unfolding unat_drop_bit_u32 using one_less_power [of "2 :: nat" n]
  by (intro div_less_dividend) (simp_all add: unat_gt_0)

lemma hash_digit:
  assumes "hash < 2 ^ bits" "bits < 32"
  shows "hash XOR (handle AND (2 ^ bits - 1)) < (2 ^ bits :: u32)"
proof -
  have p: "unat (2 ^ bits :: u32) = 2 ^ bits" using assms(2) by (rule unat_two_power_u32)
  have h: "take_bit bits (unat hash) = unat hash"
    using assms p by (simp add: word_less_nat_alt take_bit_nat_eq_self)
  have "take_bit bits (unat (hash XOR take_bit bits handle)) = unat (hash XOR take_bit bits handle)"
    using h by (simp add: unsigned_xor_eq unsigned_take_bit_eq take_bit_xor min_def)
  then have "unat (hash XOR take_bit bits handle) < 2 ^ bits"
    by (metis take_bit_nat_less_exp)
  then show ?thesis using p by (simp add: word_less_nat_alt flip: take_bit_eq_mask mask_eq_exp_minus_1)
qed

lemma hash_from_total:
  assumes "0 < bits" "bits < 32"
  shows "hash < 2 ^ bits \<Longrightarrow> \<exists>x. hash_from bits hash handle = Some x \<and> x < 2 ^ bits"
proof (induction "unat handle" arbitrary: hash handle rule: less_induct)
  case less
  show ?case
  proof (cases "handle = 0")
    case True
    with less.prems show ?thesis by (subst hash_from.simps) simp
  next
    case False
    have "hash XOR (handle AND (2 ^ bits - 1)) < 2 ^ bits"
      using less.prems assms(2) by (rule hash_digit)
    moreover have "unat (drop_bit bits handle) < unat handle" using drop_bit_less assms(1) False by blast
    ultimately obtain x where
      "hash_from bits (hash XOR (handle AND (2 ^ bits - 1))) (drop_bit bits handle) = Some x" "x < 2 ^ bits"
      using less.hyps by blast
    with False assms(2) show ?thesis
      by (subst hash_from.simps) (simp add: shl32_one shr32_def)
  qed
qed

lemma hash_from_zero:
  assumes "hash_from bits hash handle = Some y"
  shows "bits \<noteq> 0 \<or> handle = 0"
proof (rule hash_from.raw_induct [where P = "\<lambda>bits hash handle y. bits \<noteq> 0 \<or> handle = 0", OF _ assms])
  fix f :: "nat \<Rightarrow> u32 \<Rightarrow> u32 \<Rightarrow> u32 option" and bits and hash handle y :: u32
  assume IH: "\<And>bits hash handle y. f bits hash handle = Some y \<Longrightarrow> bits \<noteq> 0 \<or> handle = 0"
    and body: "(if handle = 0 then Some hash
      else do {
        size \<leftarrow> shl32 1 bits;
        rest \<leftarrow> shr32 handle bits;
        f bits (hash XOR (handle AND (size - 1))) rest }) = Some y"
  show "bits \<noteq> 0 \<or> handle = 0"
  proof (cases "bits = 0")
    case True
    with body IH show ?thesis by (auto simp: shl32_def shr32_def split: if_splits)
  qed simp
qed

text \<open>The hash, as a number, for the widths the table can have.\<close>

definition hash_of :: "nat \<Rightarrow> u32 \<Rightarrow> nat" where
  "hash_of bits k = (if 0 < bits \<and> bits < 29 then (case hash_from bits 0 k of None \<Rightarrow> 0 | Some x \<Rightarrow> unat x) else 0)"

lemma ramht_hash:
  assumes "0 < rbits r" "rbits r < 29"
  shows "\<exists>x. pscnv_ramht_hash r k = Some x \<and> unat x = hash_of (rbits r) k \<and> hash_of (rbits r) k < 2 ^ rbits r"
proof -
  have "(0 :: u32) < 2 ^ rbits r" using assms(2) by (simp add: word_less_nat_alt unat_two_power_u32)
  with hash_from_total [of "rbits r" 0 k] assms obtain x where
    x: "hash_from (rbits r) 0 k = Some x" "x < 2 ^ rbits r" by auto
  from x(2) assms(2) have "unat x < 2 ^ rbits r" by (simp add: word_less_nat_alt unat_two_power_u32)
  with x(1) assms show ?thesis by (auto simp: pscnv_ramht_hash_def hash_of_def)
qed

interpretation rt: open_addressing "2 ^ bits" "hash_of bits" for bits
proof
  fix k
  show "hash_of bits k < 2 ^ bits"
  proof (cases "0 < bits \<and> bits < 29")
    case True
    with ramht_hash [of "\<lparr>rbo = None, roffset = 0, rbits = bits\<rparr>" k] show ?thesis by auto
  qed (auto simp: hash_of_def)
qed

subsection \<open>The table of a channel\<close>

definition wpos :: "nat \<Rightarrow> u32" where
  "wpos i = of_nat (8 * i)"

definition entry_pos :: "ramht \<Rightarrow> nat \<Rightarrow> u32" where
  "entry_pos r i = roffset r + wpos i"

definition ramht_fits :: "ramht \<Rightarrow> bool" where
  "ramht_fits r \<longleftrightarrow> 0 < rbits r \<and> rbits r < 29 \<and> unat (roffset r) + 8 * 2 ^ rbits r \<le> 2 ^ 32"

definition ramht_table :: "memory \<Rightarrow> nat \<Rightarrow> ramht \<Rightarrow> kern \<Rightarrow> table" where
  "ramht_table m0 b r s i =
     (if i < 2 ^ rbits r then (bo_word m0 b s (entry_pos r i), bo_word m0 b s (entry_pos r i + 4)) else (0, 0))"

text \<open>The table lies inside its object.\<close>

definition entries_inside :: "ramht \<Rightarrow> nat \<Rightarrow> kern \<Rightarrow> bool" where
  "entries_inside r b s \<longleftrightarrow>
     (case bos s b of None \<Rightarrow> False | Some bo \<Rightarrow> unat (roffset r) + 8 * 2 ^ rbits r \<le> unat (bsize bo))"

definition ramht_inv :: "card \<Rightarrow> memory \<Rightarrow> nat \<Rightarrow> ramht \<Rightarrow> kern \<Rightarrow> bool" where
  "ramht_inv d m0 b r s \<longleftrightarrow>
     rbo r = Some b \<and> ramht_fits r \<and> bo_ok d m0 b s \<and> entries_inside r b s \<and> rt.packed (rbits r) (ramht_table m0 b r s)"

text \<open>The map from handles to contexts that the table stands for.\<close>

definition ramht_map :: "memory \<Rightarrow> nat \<Rightarrow> ramht \<Rightarrow> kern \<Rightarrow> u32 \<Rightarrow> u32 option" where
  "ramht_map m0 b r s = rt.lookup (rbits r) (ramht_table m0 b r s)"

lemma pos_small:
  fixes i :: nat
  assumes "ramht_fits r" "i < 2 ^ rbits r"
  shows "8 * i + 8 \<le> 8 * 2 ^ rbits r" "8 * 2 ^ rbits r \<le> (2 :: nat) ^ 31"
proof -
  show "8 * i + 8 \<le> 8 * 2 ^ rbits r" using assms(2) by linarith
  have "(2 :: nat) ^ rbits r \<le> 2 ^ 28" using assms(1) by (intro power_increasing) (auto simp: ramht_fits_def)
  then show "8 * 2 ^ rbits r \<le> (2 :: nat) ^ 31" by simp
qed

lemma unat_wpos:
  assumes "ramht_fits r" "i \<le> 2 ^ rbits r"
  shows "unat (wpos i) = 8 * i"
proof -
  have "8 * i \<le> 8 * 2 ^ rbits r" using assms(2) by simp
  with pos_small(2) [OF assms(1), of 0] show ?thesis unfolding wpos_def by (subst unat_of_nat) simp
qed

lemma unat_entry_pos:
  assumes "ramht_fits r" "i < 2 ^ rbits r" "j < 8"
  shows "unat (entry_pos r i + of_nat j) = unat (roffset r) + 8 * i + j"
proof -
  have "unat (of_nat (8 * i + j) :: u32) = 8 * i + j"
    using pos_small [OF assms(1,2)] assms(3) by (subst unat_of_nat) simp
  moreover have "entry_pos r i + of_nat j = roffset r + of_nat (8 * i + j)" by (simp add: entry_pos_def wpos_def)
  ultimately show ?thesis
    using assms pos_small(1) [OF assms(1,2)]
    by (simp only:) (subst unat_plus_if_no_overflow, auto simp: ramht_fits_def)
qed

lemma entry_inside:
  assumes "ramht_fits r" "entries_inside r b s" "i < 2 ^ rbits r"
  shows "bo_inside b s (entry_pos r i)" "bo_inside b s (entry_pos r i + 4)"
  using assms(2) unat_entry_pos [OF assms(1,3), of 0] unat_entry_pos [OF assms(1,3), of 4] pos_small(1) [OF assms(1,3)]
  by (auto simp: entries_inside_def bo_inside_def split: option.splits)

lemma entries_inside_frame: "bo_frame m0 c s s' \<Longrightarrow> entries_inside r b s' = entries_inside r b s"
  unfolding bo_frame_def by (auto simp: entries_inside_def elim!: mem_frameE)

lemma entry_pos_distinct:
  assumes "ramht_fits r" "i < 2 ^ rbits r" "j < 2 ^ rbits r"
  shows "entry_pos r i = entry_pos r j \<longleftrightarrow> i = j" "entry_pos r i + 4 = entry_pos r j + 4 \<longleftrightarrow> i = j"
    "entry_pos r i \<noteq> entry_pos r j + 4"
  using unat_entry_pos [OF assms(1,2), of 0] unat_entry_pos [OF assms(1,3), of 0]
    unat_entry_pos [OF assms(1,2), of 4] unat_entry_pos [OF assms(1,3), of 4]
  by (auto simp: word_unat_eq_iff) presburger+

lemma ramht_step_next:
  assumes "ramht_fits r" "i < 2 ^ rbits r"
  shows "ramht_step r (wpos i) = Some (wpos (Suc i mod 2 ^ rbits r))"
proof -
  have e: "shl32 8 (rbits r) = Some (wpos (2 ^ rbits r))"
    using assms(1) by (simp add: shl32_def push_bit_eq_mult ramht_fits_def wpos_def mult.commute)
  have "wpos (Suc i) = wpos (2 ^ rbits r) \<longleftrightarrow> Suc i = 2 ^ rbits r"
    using unat_wpos [OF assms(1), of "Suc i"] unat_wpos [OF assms(1), of "2 ^ rbits r"] assms(2)
    by (auto simp: word_unat_eq_iff)
  moreover have "wpos i + 8 = wpos (Suc i)" by (simp add: wpos_def)
  moreover have "wpos 0 = 0" by (simp add: wpos_def)
  ultimately show ?thesis
    using assms(2) by (cases "Suc i = 2 ^ rbits r") (simp_all add: ramht_step_def e)
qed

text \<open>The two loops, from the \<open>j\<close>-th probe on.\<close>

definition probes_from :: "ramht \<Rightarrow> nat \<Rightarrow> nat \<Rightarrow> nat list" where
  "probes_from r st j = map (\<lambda>j. (st + j) mod 2 ^ rbits r) [j..<2 ^ rbits r]"

lemma probes_from_step:
  "j < 2 ^ rbits r \<Longrightarrow> probes_from r st j = (st + j) mod 2 ^ rbits r # probes_from r st (Suc j)"
  by (simp add: probes_from_def upt_conv_Cons)

text \<open>After a probe that does not end the loop.\<close>

lemma next_probe:
  assumes "ramht_fits r" "st < 2 ^ rbits r" "j < 2 ^ rbits r" "i = (st + j) mod 2 ^ rbits r"
  shows "\<exists>i'. ramht_step r (wpos i) = Some (wpos i') \<and> i' = (st + Suc j) mod 2 ^ rbits r \<and>
    (wpos i' = wpos st \<longleftrightarrow> Suc j = 2 ^ rbits r)"
proof -
  let ?n = "2 ^ rbits r :: nat" and ?i' = "(st + Suc j) mod 2 ^ rbits r"
  have "ramht_step r (wpos i) = Some (wpos ?i')"
    using ramht_step_next [OF assms(1), of i] assms(4) by (simp add: mod_Suc_eq)
  moreover have "wpos ?i' = wpos st \<longleftrightarrow> ?i' = st"
    using unat_wpos [OF assms(1), of ?i'] unat_wpos [OF assms(1), of st] assms(2) by (auto simp: word_unat_eq_iff)
  moreover have "?i' = st \<longleftrightarrow> Suc j = ?n"
  proof
    assume "?i' = st"
    show "Suc j = ?n"
    proof (cases "st + Suc j < ?n")
      case False
      then have "?i' = st + Suc j - ?n" using assms(2,3) by (simp add: le_mod_geq not_less)
      with \<open>?i' = st\<close> False show ?thesis by linarith
    qed (use \<open>?i' = st\<close> in simp)
  qed (use assms(2) in simp)
  ultimately show ?thesis by blast
qed

lemma ramht_find_loop:
  assumes "ramht_fits r" "st < 2 ^ rbits r" "j < 2 ^ rbits r" "bo_ok d m0 b s" "entries_inside r b s"
  shows "\<exists>s'. ramht_find_at d b r k (wpos st) (wpos ((st + j) mod 2 ^ rbits r)) s =
      Some (case table_find (ramht_table m0 b r s) k (probes_from r st j) of None \<Rightarrow> 0 | Some c \<Rightarrow> c, s') \<and>
    bo_ok d m0 b s' \<and> bo_word m0 b s' = bo_word m0 b s \<and> bo_frame m0 b s s'"
  using assms(3-5)
proof (induction "2 ^ rbits r - j" arbitrary: j s)
  case 0
  then show ?case by simp
next
  case (Suc n)
  let ?i = "(st + j) mod 2 ^ rbits r" and ?T = "ramht_table m0 b r s"
  have i: "?i < 2 ^ rbits r" by simp
  note ins = entry_inside [OF assms(1) Suc.prems(3) i]
  have T: "?T ?i = (bo_word m0 b s (entry_pos r ?i), bo_word m0 b s (entry_pos r ?i + 4))"
    by (simp add: ramht_table_def)
  obtain s1 where 1: "nv_rv32 d b (entry_pos r ?i + 4) s = Some (bo_word m0 b s (entry_pos r ?i + 4), s1)"
    "bo_ok d m0 b s1" "bo_word m0 b s1 = bo_word m0 b s" "bo_frame m0 b s s1"
    using words.rd [OF Suc.prems(2) ins(2)] by blast
  note ins1 = ins [folded words.frame_inside [OF 1(4)]]
  obtain s2 where 2: "nv_rv32 d b (entry_pos r ?i) s1 = Some (bo_word m0 b s1 (entry_pos r ?i), s2)"
    "bo_ok d m0 b s2" "bo_word m0 b s2 = bo_word m0 b s1" "bo_frame m0 b s1 s2"
    using words.rd [OF 1(2) ins1(1)] by blast
  note ins2 = ins1 [folded words.frame_inside [OF 2(4)]]
  obtain s3 where 3: "nv_rv32 d b (entry_pos r ?i + 4) s2 = Some (bo_word m0 b s2 (entry_pos r ?i + 4), s3)"
    "bo_ok d m0 b s3" "bo_word m0 b s3 = bo_word m0 b s2" "bo_frame m0 b s2 s3"
    using words.rd [OF 2(2) ins2(2)] by blast
  note fr = 1(4) words.frame_trans [OF 1(4) 2(4)] words.frame_trans [OF words.frame_trans [OF 1(4) 2(4)] 3(4)]
  note unfold = ramht_find_at.simps [of d b r k "wpos st" "wpos ?i" s, folded entry_pos_def]
  show ?case
  proof (cases "stops ?T k ?i")
    case True
    then have "table_find ?T k (probes_from r st j) = (if unused ?T ?i then None else Some (snd (?T ?i)))"
      by (simp add: probes_from_step [OF Suc.prems(1)] table_find_def)
    with True 1 2 3 fr show ?thesis
      by (subst unfold) (auto simp: T stops_def unused_def)
  next
    case False
    then have t: "table_find ?T k (probes_from r st j) = table_find ?T k (probes_from r st (Suc j))"
      by (simp add: probes_from_step [OF Suc.prems(1)] table_find_def)
    have T2: "ramht_table m0 b r s2 = ?T" by (simp add: ramht_table_def fun_eq_iff 1(3) 2(3))
    obtain i' where i': "ramht_step r (wpos ?i) = Some (wpos i')" "i' = (st + Suc j) mod 2 ^ rbits r"
      "wpos i' = wpos st \<longleftrightarrow> Suc j = 2 ^ rbits r"
      using next_probe [OF assms(1,2) Suc.prems(1) refl] by blast
    have eq: "ramht_find_at d b r k (wpos st) (wpos ?i) s =
        (if Suc j = 2 ^ rbits r then Some (0, s2) else ramht_find_at d b r k (wpos st) (wpos i') s2)"
      by (subst unfold) (use False 1 2 i' in \<open>simp add: T stops_def unused_def\<close>)
    show ?thesis
    proof (cases "Suc j = 2 ^ rbits r")
      case True
      with fr(2) 1(3) 2 show ?thesis by (simp add: eq t) (simp add: probes_from_def table_find_def)
    next
      case False
      then have "Suc j < 2 ^ rbits r" "n = 2 ^ rbits r - Suc j" using Suc.prems(1) Suc.hyps(2) by auto
      have "entries_inside r b s2" using Suc.prems(3) entries_inside_frame [OF fr(2)] by simp
      from Suc.hyps(1) [OF \<open>n = _\<close> \<open>Suc j < _\<close> 2(2) this] obtain s' where
        "ramht_find_at d b r k (wpos st) (wpos i') s2 =
          Some (case table_find ?T k (probes_from r st (Suc j)) of None \<Rightarrow> 0 | Some c \<Rightarrow> c, s')"
        "bo_ok d m0 b s'" "bo_word m0 b s' = bo_word m0 b s2" "bo_frame m0 b s2 s'"
        unfolding T2 i'(2) by blast
      with False fr(2) 1(3) 2(3) show ?thesis by (auto simp: eq t intro: words.frame_trans)
    qed
  qed
qed

text \<open>Looking up is a function of the map alone, and changes nothing but the window.\<close>

lemma ramht_find_map:
  assumes "ramht_inv d m0 b r s"
  shows "\<exists>s'. pscnv_ramht_find d r k s = Some (case ramht_map m0 b r s k of None \<Rightarrow> 0 | Some c \<Rightarrow> c, s') \<and>
    ramht_inv d m0 b r s' \<and> bo_word m0 b s' = bo_word m0 b s \<and> bo_frame m0 b s s'"
proof -
  from assms have fits: "ramht_fits r" and ok: "bo_ok d m0 b s" and b: "rbo r = Some b"
    and ins: "entries_inside r b s"
    by (auto simp: ramht_inv_def)
  from fits obtain x where x: "pscnv_ramht_hash r k = Some x" "unat x = hash_of (rbits r) k"
    "hash_of (rbits r) k < 2 ^ rbits r" using ramht_hash [of r k] by (auto simp: ramht_fits_def)
  have start: "x * 8 = wpos (hash_of (rbits r) k)" by (simp add: wpos_def flip: x(2))
  have "probes_from r (hash_of (rbits r) k) 0 = probes (2 ^ rbits r) (hash_of (rbits r) k)"
    by (simp add: probes_from_def probes_def)
  with ramht_find_loop [OF fits x(3) _ ok ins, of 0 k] x(3) obtain s' where
    "ramht_find_at d b r k (wpos (hash_of (rbits r) k)) (wpos (hash_of (rbits r) k)) s =
      Some (case ramht_map m0 b r s k of None \<Rightarrow> 0 | Some c \<Rightarrow> c, s')"
    "bo_ok d m0 b s'" "bo_word m0 b s' = bo_word m0 b s" and fr: "bo_frame m0 b s s'"
    by (auto simp: ramht_map_def rt.lookup_def)
  moreover have "ramht_table m0 b r s' = ramht_table m0 b r s"
    using calculation(3) by (simp add: ramht_table_def fun_eq_iff)
  ultimately show ?thesis
    using assms b x(1) start fr entries_inside_frame [OF fr] by (auto simp: pscnv_ramht_find_def ramht_inv_def Let_def)
qed

lemma ramht_insert_loop:
  assumes "ramht_fits r" "st < 2 ^ rbits r" "flushes d" "j < 2 ^ rbits r" "bo_ok d m0 b s" "vm_up s" "entries_inside r b s"
  shows "\<exists>res s'. ramht_insert_at d b r k c (wpos st) (wpos ((st + j) mod 2 ^ rbits r)) s = Some (res, s') \<and>
    bo_ok d m0 b s' \<and> bo_frame m0 b s s' \<and>
    (case find (unused (ramht_table m0 b r s)) (probes_from r st j) of
       None \<Rightarrow> res = Inl ENOMEM \<and> bo_word m0 b s' = bo_word m0 b s
     | Some i \<Rightarrow> res = Inr () \<and> bo_word m0 b s' = (bo_word m0 b s)(entry_pos r i := k, entry_pos r i + 4 := c))"
  using assms(4-7)
proof (induction "2 ^ rbits r - j" arbitrary: j s)
  case 0
  then show ?case by simp
next
  case (Suc n)
  let ?i = "(st + j) mod 2 ^ rbits r" and ?T = "ramht_table m0 b r s"
  have "?i < 2 ^ rbits r" by simp
  note ins = entry_inside [OF assms(1) Suc.prems(4) this]
  have T: "snd (?T ?i) = bo_word m0 b s (entry_pos r ?i + 4)" by (simp add: ramht_table_def)
  obtain s1 where 1: "nv_rv32 d b (entry_pos r ?i + 4) s = Some (snd (?T ?i), s1)"
    "bo_ok d m0 b s1" "bo_word m0 b s1 = bo_word m0 b s" "bo_frame m0 b s s1"
    using words.rd [OF Suc.prems(2) ins(2)] unfolding T by blast
  note ins1 = ins [folded words.frame_inside [OF 1(4)]]
  have up: "vm_up s1" using 1(4) Suc.prems(3) by (auto simp: bo_frame_def elim: mem_frameE)
  note unfold = ramht_insert_at.simps [of d b r k c "wpos st" "wpos ?i" s, folded entry_pos_def]
  show ?case
  proof (cases "unused ?T ?i")
    case True
    obtain s2 where 2: "nv_wv32 d b (entry_pos r ?i) k s1 = Some s2" "bo_ok d m0 b s2"
      "bo_word m0 b s2 = (bo_word m0 b s1)(entry_pos r ?i := k)" "bo_frame m0 b s1 s2"
      using words.wr [OF 1(2) ins1(1)] by blast
    note ins2 = ins1 [folded words.frame_inside [OF 2(4)]]
    obtain s3 where 3: "nv_wv32 d b (entry_pos r ?i + 4) c s2 = Some s3" "bo_ok d m0 b s3"
      "bo_word m0 b s3 = (bo_word m0 b s2)(entry_pos r ?i + 4 := c)" "bo_frame m0 b s2 s3"
      using words.wr [OF 2(2) ins2(2)] by blast
    note fr = words.frame_trans [OF words.frame_trans [OF 1(4) 2(4)] 3(4)]
    have "vm_up s3" using fr Suc.prems(3) by (auto simp: bo_frame_def elim: mem_frameE)
    with assms(3) obtain s4 where 4: "bar_flush d s3 = Some s4" by (auto simp: flushes_def)
    note still = mem_still_words [OF bar_flush_still [OF 4]]
    have "find (unused ?T) (probes_from r st j) = Some ?i"
      using True by (simp add: probes_from_step [OF Suc.prems(1)])
    moreover have "ramht_insert_at d b r k c (wpos st) (wpos ?i) s = Some (Inr (), s4)"
      by (subst unfold) (use True 1(1) 2(1) 3(1) 4 in \<open>simp add: unused_def\<close>)
    ultimately show ?thesis
      using still 3(2) words.frame_trans [OF fr still(3)] by (simp add: 1(3) 2(3) 3(3))
  next
    case False
    then have t: "find (unused ?T) (probes_from r st j) = find (unused ?T) (probes_from r st (Suc j))"
      by (simp add: probes_from_step [OF Suc.prems(1)])
    obtain i' where i': "ramht_step r (wpos ?i) = Some (wpos i')" "i' = (st + Suc j) mod 2 ^ rbits r"
      "wpos i' = wpos st \<longleftrightarrow> Suc j = 2 ^ rbits r"
      using next_probe [OF assms(1,2) Suc.prems(1) refl] by blast
    have eq: "ramht_insert_at d b r k c (wpos st) (wpos ?i) s =
        (if Suc j = 2 ^ rbits r then Some (Inl ENOMEM, s1) else ramht_insert_at d b r k c (wpos st) (wpos i') s1)"
      by (subst unfold) (use False 1 i' in \<open>simp add: unused_def\<close>)
    have T1: "ramht_table m0 b r s1 = ?T" by (simp add: ramht_table_def fun_eq_iff 1(3))
    show ?thesis
    proof (cases "Suc j = 2 ^ rbits r")
      case True
      then have "probes_from r st (Suc j) = []" by (simp add: probes_from_def)
      with True 1 show ?thesis by (simp add: eq t)
    next
      case False
      then have l: "Suc j < 2 ^ rbits r" "n = 2 ^ rbits r - Suc j" using Suc.prems(1) Suc.hyps(2) by auto
      have "entries_inside r b s1" using Suc.prems(4) entries_inside_frame [OF 1(4)] by simp
      from Suc.hyps(1) [OF l(2,1) 1(2) up this] obtain res s' where
        "ramht_insert_at d b r k c (wpos st) (wpos i') s1 = Some (res, s')"
        "bo_ok d m0 b s'" "bo_frame m0 b s1 s'"
        "case find (unused ?T) (probes_from r st (Suc j)) of
           None \<Rightarrow> res = Inl ENOMEM \<and> bo_word m0 b s' = bo_word m0 b s
         | Some i \<Rightarrow> res = Inr () \<and> bo_word m0 b s' = (bo_word m0 b s)(entry_pos r i := k, entry_pos r i + 4 := c)"
        unfolding T1 i'(2) 1(3) by blast
      with False words.frame_trans [OF 1(4)] show ?thesis by (auto simp: eq t)
    qed
  qed
qed

lemma table_store:
  assumes "ramht_fits r" "i < 2 ^ rbits r" "bo_word m0 b s' = (bo_word m0 b s)(entry_pos r i := k, entry_pos r i + 4 := c)"
  shows "ramht_table m0 b r s' = (ramht_table m0 b r s)(i := (k, c))"
  using assms by (auto simp: ramht_table_def fun_eq_iff entry_pos_distinct entry_pos_distinct(3) [symmetric])

text \<open>Inserting, on the map.\<close>

lemma ramht_insert_map:
  assumes "ramht_inv d m0 b r s" "flushes d" "vm_up s"
  shows "\<exists>res s'. pscnv_ramht_insert d r k c s = Some (res, s') \<and> ramht_inv d m0 b r s' \<and> bo_frame m0 b s s' \<and>
    (\<forall>ofs. (\<forall>i < 2 ^ rbits r. ofs \<noteq> entry_pos r i \<and> ofs \<noteq> entry_pos r i + 4) \<longrightarrow> bo_word m0 b s' ofs = bo_word m0 b s ofs) \<and>
    (if \<forall>i < 2 ^ rbits r. \<not> unused (ramht_table m0 b r s) i
     then res = Inl ENOMEM \<and> ramht_map m0 b r s' = ramht_map m0 b r s
     else res = Inr () \<and> ramht_map m0 b r s' =
       (if c = 0 \<or> ramht_map m0 b r s k \<noteq> None then ramht_map m0 b r s else (ramht_map m0 b r s)(k \<mapsto> c)))"
proof -
  from assms have fits: "ramht_fits r" and ok: "bo_ok d m0 b s" and b: "rbo r = Some b"
    and ins: "entries_inside r b s" and pk: "rt.packed (rbits r) (ramht_table m0 b r s)" by (auto simp: ramht_inv_def)
  let ?T = "ramht_table m0 b r s" and ?n = "2 ^ rbits r :: nat" and ?h = "hash_of (rbits r) k"
  from fits obtain x where x: "pscnv_ramht_hash r k = Some x" "unat x = ?h" "?h < ?n"
    using ramht_hash [of r k] by (auto simp: ramht_fits_def)
  have start: "x * 8 = wpos ?h" by (simp add: wpos_def flip: x(2))
  have p: "probes_from r ?h 0 = probes ?n ?h" by (simp add: probes_from_def probes_def)
  from ramht_insert_loop [OF fits x(3) assms(2) _ ok assms(3) ins, of 0 k c] x(3) obtain res s' where
    1: "pscnv_ramht_insert d r k c s = Some (res, s')" "bo_ok d m0 b s'" "bo_frame m0 b s s'"
    "case find (unused ?T) (probes ?n ?h) of
       None \<Rightarrow> res = Inl ENOMEM \<and> bo_word m0 b s' = bo_word m0 b s
     | Some i \<Rightarrow> res = Inr () \<and> bo_word m0 b s' = (bo_word m0 b s)(entry_pos r i := k, entry_pos r i + 4 := c)"
    by (auto simp: p pscnv_ramht_insert_def b x(1) start Let_def)
  have ins': "entries_inside r b s'" using ins entries_inside_frame [OF 1(3)] by simp
  show ?thesis
  proof (cases "find (unused ?T) (probes ?n ?h)")
    case None
    with 1(4) have w: "res = Inl ENOMEM" "bo_word m0 b s' = bo_word m0 b s" by auto
    then have "ramht_table m0 b r s' = ?T" by (simp add: ramht_table_def fun_eq_iff)
    with w None 1 assms(1) ins' show ?thesis by (auto simp: rt.none_unused ramht_inv_def ramht_map_def)
  next
    case (Some i)
    then have i: "i < ?n" "unused ?T i" using rt.probes_set by (auto dest: find_SomeD)
    from 1(4) Some have w: "res = Inr ()" "ramht_table m0 b r s' = ?T(i := (k, c))"
      using table_store [OF fits i(1)] by auto
    have "\<not> (\<forall>i < ?n. \<not> unused ?T i)" using i by blast
    moreover have "ramht_inv d m0 b r s'"
      using 1(2) rt.packed_store [OF pk Some, of c] fits b ins' by (simp add: ramht_inv_def w(2))
    moreover have "ramht_map m0 b r s' =
        (if c = 0 \<or> ramht_map m0 b r s k \<noteq> None then ramht_map m0 b r s else (ramht_map m0 b r s)(k \<mapsto> c))"
      using rt.lookup_store [OF pk Some, of c] by (simp add: ramht_map_def w(2))
    moreover have "bo_word m0 b s' ofs = bo_word m0 b s ofs"
      if "\<forall>i < ?n. ofs \<noteq> entry_pos r i \<and> ofs \<noteq> entry_pos r i + 4" for ofs
      using 1(4) Some i(1) that by auto
    ultimately show ?thesis using w(1) 1(1,3) by auto
  qed
qed

subsection \<open>An empty table, for examples\<close>

lemma empty_table:
  assumes "rbo r = Some b" "ramht_fits r" "bo_ok d m0 b s" "entries_inside r b s"
    "\<And>i. i < 2 ^ rbits r \<Longrightarrow> bo_word m0 b s (entry_pos r i + 4) = 0"
  shows "ramht_inv d m0 b r s" "ramht_map m0 b r s k = None"
proof -
  have u: "unused (ramht_table m0 b r s) i" for i using assms(5) by (simp add: ramht_table_def unused_def)
  then show "ramht_inv d m0 b r s" using assms(1-4) by (simp add: ramht_inv_def rt.packed_def)
  show "ramht_map m0 b r s k = None"
  proof (cases "ramht_map m0 b r s k")
    case (Some c)
    from rt.lookup_sound [OF this [unfolded ramht_map_def]] obtain i where
      "ramht_table m0 b r s i = (k, c)" "c \<noteq> 0" by blast
    with u [of i] show ?thesis by (simp add: unused_def)
  qed
qed

definition example_ramht :: ramht where
  "example_ramht = \<lparr>rbo = Some 0, roffset = 0x100, rbits = 2\<rparr>"

definition example_ramht_state :: kern where
  "example_ramht_state = blank_kern\<lparr>bos := [0 \<mapsto> blank_bo 0x100000 0x1000]\<rparr>"

lemma example_ramht:
  "ramht_inv (example_card 0x50 0x50) clear_memory 0 example_ramht example_ramht_state"
  "ramht_map clear_memory 0 example_ramht example_ramht_state k = None"
  "unused (ramht_table clear_memory 0 example_ramht example_ramht_state) 0"
proof -
  have 1: "ramht_fits example_ramht" by (simp add: ramht_fits_def example_ramht_def)
  have 2: "bo_ok (example_card 0x50 0x50) clear_memory 0 example_ramht_state"
    using example_remembers
    by (auto simp: bo_ok_def window_ok_def reachable_bo_def kernel_map_def mem_now_def
        example_ramht_state_def blank_kern_def blank_bo_def clear_memory_def)
  have 3: "bo_word clear_memory 0 example_ramht_state ofs = 0" for ofs
    by (simp add: bo_word_def bo_place_def kernel_map_def mem_now_def
        example_ramht_state_def blank_kern_def blank_bo_def clear_memory_def)
  have 4: "entries_inside example_ramht 0 example_ramht_state"
    by (simp add: entries_inside_def example_ramht_def example_ramht_state_def blank_bo_def)
  show "ramht_inv (example_card 0x50 0x50) clear_memory 0 example_ramht example_ramht_state"
    "ramht_map clear_memory 0 example_ramht example_ramht_state k = None"
    by (rule empty_table [OF _ 1 2 4]; simp add: 3 example_ramht_def)+
  show "unused (ramht_table clear_memory 0 example_ramht example_ramht_state) 0"
    by (simp add: unused_def ramht_table_def 3)
qed

lemma example_up: "vm_up example_ramht_state"
  by (simp add: example_ramht_state_def blank_kern_def)

subsection \<open>The properties\<close>

text \<open>
  \<open>pscnv_ramht_hash\<close> ends for every width from 1 to 31 and gives an entry number of the table;
  for width 0 it never ends, unless the handle is 0.
\<close>

theorem ramht_hash_total:
  assumes "rbits r < 32"
  shows "(0 < rbits r \<longrightarrow> (\<exists>x. pscnv_ramht_hash r k = Some x \<and> x < 2 ^ rbits r)) \<and>
    (rbits r = 0 \<longrightarrow> (pscnv_ramht_hash r k = None \<longleftrightarrow> k \<noteq> 0))"
proof (intro conjI impI)
  assume "0 < rbits r"
  moreover have "(0 :: u32) < 2 ^ rbits r" using assms by (simp add: word_less_nat_alt unat_two_power_u32)
  ultimately show "\<exists>x. pscnv_ramht_hash r k = Some x \<and> x < 2 ^ rbits r"
    using hash_from_total assms unfolding pscnv_ramht_hash_def by blast
next
  assume 0: "rbits r = 0"
  show "pscnv_ramht_hash r k = None \<longleftrightarrow> k \<noteq> 0"
  proof
    assume "pscnv_ramht_hash r k = None"
    moreover have "hash_from 0 0 0 = Some 0" by (subst hash_from.simps) simp
    ultimately show "k \<noteq> 0" by (auto simp: pscnv_ramht_hash_def 0)
  next
    assume "k \<noteq> 0"
    then show "pscnv_ramht_hash r k = None"
      using hash_from_zero [of 0 0 k] by (cases "hash_from 0 0 k") (auto simp: pscnv_ramht_hash_def 0)
  qed
qed

theorem ramht_hash_total_witness:
  "\<exists>x. pscnv_ramht_hash example_ramht 0x1234 = Some x \<and> x < 4"
  using ramht_hash_total [of example_ramht "0x1234"] by (simp add: example_ramht_def)

text \<open>
  C20: on a card that remembers, the table implements a map from handles to contexts: insertion always
  ends; it reports ENOMEM exactly when every entry is used, and then the map stays; else it adds the
  handle, unless it was there already (then the old context stays) or the context is 0 (then nothing
  is stored). The table has to lie inside its object (part of \<open>ramht_inv\<close>, and kept); then no word
  outside the object changes, nor any word inside it that is not part of the table.
\<close>

theorem ramht_insert_refines:
  assumes "ramht_inv d m0 b r s" "flushes d" "vm_up s"
  shows "\<exists>res s'. pscnv_ramht_insert d r k c s = Some (res, s') \<and> ramht_inv d m0 b r s' \<and> bo_frame m0 b s s' \<and>
    (\<forall>ofs. (\<forall>i < 2 ^ rbits r. ofs \<noteq> entry_pos r i \<and> ofs \<noteq> entry_pos r i + 4) \<longrightarrow> bo_word m0 b s' ofs = bo_word m0 b s ofs) \<and>
    (if \<forall>i < 2 ^ rbits r. \<not> unused (ramht_table m0 b r s) i
     then res = Inl ENOMEM \<and> ramht_map m0 b r s' = ramht_map m0 b r s
     else res = Inr () \<and> ramht_map m0 b r s' =
       (if c = 0 \<or> ramht_map m0 b r s k \<noteq> None then ramht_map m0 b r s else (ramht_map m0 b r s)(k \<mapsto> c)))"
  using assms by (rule ramht_insert_map)

theorem ramht_insert_refines_witness:
  "\<exists>res s'. pscnv_ramht_insert (example_card 0x50 0x50) example_ramht 0xbeef 7 example_ramht_state = Some (res, s') \<and>
     (res = Inr () \<longrightarrow> ramht_map clear_memory 0 example_ramht s' 0xbeef = Some 7)"
  using ramht_insert_refines [OF example_ramht(1) example_flushes example_up, of "0xbeef" 7]
  by (auto simp: example_ramht(2) split: if_splits)

text \<open>
  C21: what \<open>pscnv_ramht_insert\<close> has stored under a new handle, \<open>pscnv_ramht_find\<close> gives back, and
  every other handle is found as before.
\<close>

theorem ramht_insert_find:
  assumes "ramht_inv d m0 b r s" "flushes d" "vm_up s" "c \<noteq> 0"
    "map_option fst (pscnv_ramht_find d r k s) = Some 0" "pscnv_ramht_insert d r k c s = Some (Inr (), s')"
  shows "map_option fst (pscnv_ramht_find d r k' s') =
    (if k' = k then Some c else map_option fst (pscnv_ramht_find d r k' s))"
proof -
  have f: "map_option fst (pscnv_ramht_find d r x t) = Some (case ramht_map m0 b r t x of None \<Rightarrow> 0 | Some c \<Rightarrow> c)"
    if "ramht_inv d m0 b r t" for x t using ramht_find_map [OF that, of x] by auto
  have "ramht_map m0 b r s k \<noteq> Some 0"
    unfolding ramht_map_def using rt.lookup_sound by blast
  with assms(5) f [OF assms(1), of k] have n: "ramht_map m0 b r s k = None" by (auto split: option.splits)
  from ramht_insert_map [OF assms(1-3), of k c] assms(4,6) n have
    "ramht_inv d m0 b r s'" "ramht_map m0 b r s' = (ramht_map m0 b r s)(k \<mapsto> c)" by (auto split: if_splits)
  then show ?thesis by (simp add: f assms(1))
qed

theorem ramht_insert_find_witness:
  "\<exists>s'. pscnv_ramht_insert (example_card 0x50 0x50) example_ramht 0xbeef 7 example_ramht_state = Some (Inr (), s') \<and>
     map_option fst (pscnv_ramht_find (example_card 0x50 0x50) example_ramht 0xbeef s') = Some 7"
proof -
  obtain s' where i: "pscnv_ramht_insert (example_card 0x50 0x50) example_ramht 0xbeef 7 example_ramht_state = Some (Inr (), s')"
    using ramht_insert_map [OF example_ramht(1) example_flushes example_up, of "0xbeef" 7] example_ramht(3)
    by (auto simp: example_ramht_def split: if_splits)
  have "map_option fst (pscnv_ramht_find (example_card 0x50 0x50) example_ramht 0xbeef example_ramht_state) = Some 0"
    using ramht_find_map [OF example_ramht(1), of "0xbeef"] by (auto simp: example_ramht(2))
  from ramht_insert_find [OF example_ramht(1) example_flushes example_up _ this i, of "0xbeef"] i show ?thesis by simp
qed

end
