(* ===== verification/GrData.thy ===== *)
theory GrData
  imports Kern
begin

section \<open>The contents of a PGRAPH context\<close>

text \<open>
  The lists of values in \<open>nv50_grctx.c\<close>. The functions \<open>nv50_graph_construct_gene_*\<close> and
  \<open>nv50_graph_construct_xfer_*\<close> do nothing but call \<open>xf_emit\<close>: each is the list of the numbers and
  values it calls it with, which depends on the chipset. Likewise \<open>mmio_ddata\<close> is the list of the
  calls of \<open>dd_emit\<close>, and the lists \<open>mmio_head\<close> and \<open>mmio_tail\<close> are the calls of \<open>cp_ctx\<close> and \<open>gr_def\<close> in
  \<open>nv50_graph_construct_mmio\<close> before and after it calls \<open>nv50_graph_construct_mmio_ddata\<close>.
\<close>

definition IS_NVA3F :: "int \<Rightarrow> bool" where
  "IS_NVA3F x \<longleftrightarrow> (x > 0xa0 \<and> x < 0xaa) \<or> x = 0xaf"

definition IS_NVAAF :: "int \<Rightarrow> bool" where
  "IS_NVAAF x \<longleftrightarrow> x \<ge> 0xaa \<and> x \<le> 0xac"

text \<open>A range of registers in the context, and the initial value of a register.\<close>

datatype mmio_op = Ctx u32 u32 | Def u32 u32

subsection \<open>Registers\<close>

definition mmio_head :: "int \<Rightarrow> mmio_op list" where
  "mmio_head cs =
     [Ctx 0x400808 7, Def 0x400814 0x00000030, Ctx 0x400834 0x32] @
     (if cs = 0x50 then
         [Def 0x400834 0xff400040, Def 0x400838 0xfff00080, Def 0x40083c 0xfff70090,
          Def 0x400840 0xffe806a8]
      else []) @
     [Def 0x400844 0x00000002] @
     (if IS_NVA3F cs then [Def 0x400894 0x00001000] else []) @
     [Def 0x4008e8 0x00000003, Def 0x4008ec 0x00001000] @
     (if cs = 0x50 then
         [Ctx 0x400908 0xb]
      else if cs < 0xa0 then [Ctx 0x400908 0xc] else [Ctx 0x400908 0xe]) @
     (if cs \<ge> 0xa0 then [Ctx 0x400b00 0x1] else []) @
     (if IS_NVA3F cs then
         [Ctx 0x400b10 0x1, Def 0x400b10 0x0001629d, Ctx 0x400b20 0x1, Def 0x400b20 0x0001629d]
      else [])"

definition mmio_fixed :: "int \<Rightarrow> mmio_op list" where
  "mmio_fixed cs =
     [Ctx 0x400c08 0x2, Def 0x400c08 0x0000fe0c] @
     (if cs < 0xa0 then
         [Ctx 0x401008 0x4, Def 0x401014 0x00001000]
      else if \<not> IS_NVA3F cs then
         [Ctx 0x401008 0x5, Def 0x401018 0x00001000]
      else
         [Ctx 0x401008 0x5, Def 0x401018 0x00004000]) @
     [Ctx 0x401400 0x8, Ctx 0x401424 0x3] @
     (if cs = 0x50 then [Def 0x40142c 0x0001fd87] else [Def 0x40142c 0x00000187]) @
     [Ctx 0x401540 0x5, Def 0x401550 0x00001018, Ctx 0x401814 0x1, Def 0x401814 0x000000ff] @
     (if cs = 0x50 then
         [Ctx 0x40181c 0xe, Def 0x401850 0x00000004]
      else if cs < 0xa0 then
         [Ctx 0x40181c 0xf, Def 0x401854 0x00000004]
      else
         [Ctx 0x40181c 0x13, Def 0x401864 0x00000004]) @
     [Ctx 0x401c00 0x1] @
     (if cs = 0x50 then [Def 0x401c00 0x0001005f]
      else if cs \<in> {0x84, 0x86, 0x94} then [Def 0x401c00 0x044d00df]
      else if cs \<in> {0x92, 0x96, 0x98, 0xa0, 0xaa, 0xac} then [Def 0x401c00 0x042500df]
      else if cs \<in> {0xa3, 0xa5, 0xa8, 0xaf} then [Def 0x401c00 0x142500df]
      else []) @
     [Ctx 0x402400 0x1] @
     (if cs = 0x50 then [Ctx 0x402408 0x1] else [Ctx 0x402408 0x2]) @
     [Def 0x402408 0x00000600, Ctx 0x402800 0x1] @
     (if cs = 0x50 then [Def 0x402800 0x00000006] else []) @
     [Ctx 0x402c08 0x6] @
     (if cs \<noteq> 0x50 then [Def 0x402c14 0x01000000] else []) @
     [Def 0x402c18 0x000000ff] @
     (if cs = 0x50 then [Ctx 0x402ca0 0x1] else [Ctx 0x402ca0 0x2]) @
     (if cs < 0xa0 then
         [Def 0x402ca0 0x00000400]
      else if \<not> IS_NVA3F cs then [Def 0x402ca0 0x00000800] else [Def 0x402ca0 0x00000400]) @
     [Ctx 0x402cac 0x4, Ctx 0x403004 0x1, Def 0x403004 0x00000001] @
     (if cs \<ge> 0xa0 then [Ctx 0x403404 0x1, Def 0x403404 0x00000001] else []) @
     [Ctx 0x405000 0x1] @
     (if cs = 0x50 then [Def 0x405000 0x00300080]
      else if cs \<in> {0x84, 0xa0, 0xa3, 0xa5, 0xa8, 0xaa, 0xac, 0xaf} then [Def 0x405000 0x000e0080]
      else if cs \<in> {0x86, 0x92, 0x94, 0x96, 0x98} then [Def 0x405000 0x00000080]
      else []) @
     [Ctx 0x405014 0x1, Def 0x405014 0x00000004, Ctx 0x40501c 0x1, Ctx 0x405024 0x1,
      Ctx 0x40502c 0x1] @
     (if cs = 0x50 then [Ctx 0x4063e0 0x1] else []) @
     (if cs < 0x90 then
         [Ctx 0x406814 0x2b, Def 0x406818 0x00000f80, Def 0x406860 0x007f0080,
          Def 0x40689c 0x007f0080]
      else
         [Ctx 0x406814 0x4] @
         (if cs = 0x98 then [Def 0x406818 0x00000f80] else [Def 0x406818 0x00001f80]) @
         (if IS_NVA3F cs then [Def 0x40681c 0x00000030] else []) @
         [Ctx 0x406830 0x3])"

text \<open>The state of ROP group \<open>i\<close>.\<close>

definition mmio_rop :: "int \<Rightarrow> nat \<Rightarrow> mmio_op list" where
  "mmio_rop cs i =
     [Ctx (0x407000 + push_bit 8 (of_nat i)) 3] @
     (if cs = 0x50 then
         [Def (0x407000 + push_bit 8 (of_nat i)) 0x1b74f820]
      else if cs \<noteq> 0xa5 then
         [Def (0x407000 + push_bit 8 (of_nat i)) 0x3b74f821]
      else
         [Def (0x407000 + push_bit 8 (of_nat i)) 0x7b74f821]) @
     [Def (0x407004 + push_bit 8 (of_nat i)) 0x89058001] @
     (if cs = 0x50 then
         [Ctx (0x407010 + push_bit 8 (of_nat i)) 1]
      else if cs < 0xa0 then
         [Ctx (0x407010 + push_bit 8 (of_nat i)) 2,
          Def (0x407010 + push_bit 8 (of_nat i)) 0x00001000,
          Def (0x407014 + push_bit 8 (of_nat i)) 0x0000001f]
      else
         [Ctx (0x407010 + push_bit 8 (of_nat i)) 3,
          Def (0x407010 + push_bit 8 (of_nat i)) 0x00001000] @
         (if cs \<noteq> 0xa5 then
             [Def (0x407014 + push_bit 8 (of_nat i)) 0x000000ff]
          else
             [Def (0x407014 + push_bit 8 (of_nat i)) 0x000001ff])) @
     [Ctx (0x407080 + push_bit 8 (of_nat i)) 4] @
     (if cs \<noteq> 0xa5 then
         [Def (0x407080 + push_bit 8 (of_nat i)) 0x027c10fa]
      else
         [Def (0x407080 + push_bit 8 (of_nat i)) 0x827c10fa]) @
     (if cs = 0x50 then
         [Def (0x407084 + push_bit 8 (of_nat i)) 0x000000c0]
      else
         [Def (0x407084 + push_bit 8 (of_nat i)) 0x400000c0]) @
     [Def (0x407088 + push_bit 8 (of_nat i)) 0xb7892080] @
     (if cs < 0xa0 then
         [Ctx (0x407094 + push_bit 8 (of_nat i)) 1]
      else if \<not> IS_NVA3F cs then
         [Ctx (0x407094 + push_bit 8 (of_nat i)) 3]
      else
         [Ctx (0x407094 + push_bit 8 (of_nat i)) 4, Def (0x4070a0 + push_bit 8 (of_nat i)) 1])"

definition mmio_mid :: "int \<Rightarrow> mmio_op list" where
  "mmio_mid cs =
     [Ctx 0x407c00 0x3] @
     (if cs < 0x90 then
         [Def 0x407c00 0x00010040]
      else if cs < 0xa0 then [Def 0x407c00 0x00390040] else [Def 0x407c00 0x003d0040]) @
     [Def 0x407c08 0x00000022] @
     (if cs \<ge> 0xa0 then [Ctx 0x407c10 0x3, Ctx 0x407c20 0x1, Ctx 0x407c2c 0x1] else []) @
     (if cs < 0xa0 then [Ctx 0x407d00 0x9] else [Ctx 0x407d00 0x15]) @
     (if cs = 0x98 then
         [Def 0x407d08 0x00380040]
      else
         (if cs < 0x90 then
             [Def 0x407d08 0x00010040]
          else if cs < 0xa0 then [Def 0x407d08 0x00390040] else [Def 0x407d08 0x003d0040]) @
         [Def 0x407d0c 0x00000022])"

text \<open>The state of a multiprocessor \<open>j\<close> of the TP at \<open>base\<close>, the rest of the state of the TP, and all of TP \<open>i\<close>.\<close>

definition mmio_mp :: "int \<Rightarrow> u32 \<Rightarrow> nat \<Rightarrow> mmio_op list" where
  "mmio_mp cs base j =
     (let offset = if cs < 0xa0 then base + 0x200 + push_bit 7 (of_nat j) else base + 0x100 + push_bit 7 (of_nat j) in
      [Ctx offset 0x20, Def (offset + 0x00) 0x01800000, Def (offset + 0x04) 0x00160000,
       Def (offset + 0x08) 0x01800000, Def (offset + 0x18) 0x0003ffff] @
      (if cs = 0x50 then [Def (offset + 0x1c) 0x00080000]
       else if cs = 0x84 then [Def (offset + 0x1c) 0x00880000]
       else if cs = 0x86 then [Def (offset + 0x1c) 0x008c0000]
       else if cs \<in> {0x92, 0x96, 0x98} then [Def (offset + 0x1c) 0x118c0000]
       else if cs = 0x94 then [Def (offset + 0x1c) 0x10880000]
       else if cs \<in> {0xa0, 0xa5} then [Def (offset + 0x1c) 0x310c0000]
       else if cs \<in> {0xa3, 0xa8, 0xaa, 0xac, 0xaf} then [Def (offset + 0x1c) 0x300c0000]
       else []) @
      [Def (offset + 0x40) 0x00010401] @
      (if cs = 0x50 then
          [Def (offset + 0x48) 0x00000040]
       else
          [Def (offset + 0x48) 0x00000078]) @
      [Def (offset + 0x50) 0x000000bf, Def (offset + 0x58) 0x00001210] @
      (if cs = 0x50 then
          [Def (offset + 0x5c) 0x00000080]
       else
          [Def (offset + 0x5c) 0x08000080]) @
      (if cs \<ge> 0xa0 then [Def (offset + 0x68) 0x0000003e] else []))"

definition mmio_tp_rest :: "int \<Rightarrow> u32 \<Rightarrow> mmio_op list" where
  "mmio_tp_rest cs base =
     (if cs < 0xa0 then [Ctx (base + 0x300) 0x4] else [Ctx (base + 0x300) 0x5]) @
     (if cs = 0x50 then
         [Def (base + 0x304) 0x00007070]
      else if cs < 0xa0 then
         [Def (base + 0x304) 0x00027070]
      else if \<not> IS_NVA3F cs then
         [Def (base + 0x304) 0x01127070]
      else
         [Def (base + 0x304) 0x05127070]) @
     (if cs < 0xa0 then [Ctx (base + 0x318) 1] else [Ctx (base + 0x320) 1]) @
     (if cs = 0x50 then
         [Def (base + 0x318) 0x0003ffff]
      else if cs < 0xa0 then
         [Def (base + 0x318) 0x03ffffff]
      else
         [Def (base + 0x320) 0x07ffffff]) @
     (if cs < 0xa0 then [Ctx (base + 0x324) 5] else [Ctx (base + 0x328) 4]) @
     (if cs < 0xa0 then
         [Ctx (base + 0x340) 9]
      else if \<not> IS_NVA3F cs then [Ctx (base + 0x33c) 0xb] else [Ctx (base + 0x33c) 0xd]) @
     (let offset = if cs < 0xa0 then base + 0x340
             else if \<not> IS_NVA3F cs then base + 0x344 else base + 0x344 in
      [Def (offset + 0x0) 0x00120407, Def (offset + 0x4) 0x05091507] @
      (if cs = 0x84 then
          [Def (offset + 0x8) 0x05100202]
       else
          [Def (offset + 0x8) 0x05010202]) @
      [Def (offset + 0xc) 0x00030201] @
      (if cs = 0xa3 then [Ctx (base + 0x36c) 1] else []) @
      [Ctx (base + 0x400) 2, Def (base + 0x404) 0x00000040, Ctx (base + 0x40c) 2,
       Def (base + 0x40c) 0x0d0c0b0a, Def (base + 0x410) 0x00141210] @
      (let offset = if cs < 0xa0 then base + 0x800 else base + 0x500 in
       [Ctx offset 6, Def (offset + 0x0) 0x000001f0, Def (offset + 0x4) 0x00000001,
        Def (offset + 0x8) 0x00000003] @
       (if cs = 0x50 \<or> IS_NVAAF cs then [Def (offset + 0xc) 0x00008000] else []) @
       [Def (offset + 0x14) 0x00039e00, Ctx (offset + 0x1c) 2] @
       (if cs = 0x50 then
           [Def (offset + 0x1c) 0x00000040]
        else
           [Def (offset + 0x1c) 0x00000100]) @
       [Def (offset + 0x20) 0x00003800] @
       (if cs \<ge> 0xa0 then
           [Ctx (base + 0x54c) 2] @
           (if \<not> IS_NVA3F cs then
               [Def (base + 0x54c) 0x003fe006]
            else
               [Def (base + 0x54c) 0x003fe007]) @
           [Def (base + 0x550) 0x003fe000]
        else []) @
       (let offset = if cs < 0xa0 then base + 0xa00 else base + 0x680 in
        [Ctx offset 1, Def offset 0x00404040] @
        (let offset = if cs < 0xa0 then base + 0xe00 else base + 0x700 in
         [Ctx offset 2] @
         (if cs < 0xa0 then
             [Def offset 0x0077f005]
          else if cs = 0xa5 then
             [Def offset 0x6cf7f007]
          else if cs = 0xa8 then
             [Def offset 0x6cfff007]
          else if cs = 0xac then [Def offset 0x0cfff007] else [Def offset 0x0cf7f007]) @
         (if cs = 0x50 then
             [Def (offset + 0x4) 0x00007fff]
          else if cs < 0xa0 then
             [Def (offset + 0x4) 0x003f7fff]
          else
             [Def (offset + 0x4) 0x02bf7fff]) @
         [Ctx (offset + 0x2c) 1] @
         (if cs = 0x50 then
             [Ctx (offset + 0x50) 9, Def (offset + 0x54) 0x000003ff,
              Def (offset + 0x58) 0x00000003, Def (offset + 0x5c) 0x00000003,
              Def (offset + 0x60) 0x000001ff, Def (offset + 0x64) 0x0000001f,
              Def (offset + 0x68) 0x0000000f, Def (offset + 0x6c) 0x0000000f]
          else if cs < 0xa0 then
             [Ctx (offset + 0x50) 1, Ctx (offset + 0x70) 1]
          else
             [Ctx (offset + 0x50) 1, Ctx (offset + 0x60) 5])))))"

definition mmio_tp :: "int \<Rightarrow> u32 \<Rightarrow> nat \<Rightarrow> mmio_op list" where
  "mmio_tp cs units i =
     (let base = if cs < 0xa0 then 0x408000 + push_bit 12 (of_nat i)
             else 0x408000 + push_bit 11 (of_nat i);
          offset = if cs < 0xa0 then base + 0xc00 else base + 0x80 in
      [Ctx (offset + 0x00) 1, Def (offset + 0x00) 0x0000ff0a, Ctx (offset + 0x08) 1] @
      concat (map (\<lambda>j. if bit units (j + 24) then mmio_mp cs base j else [])
         [0..<(if cs < 0xa0 then 2 else 4)]) @
      mmio_tp_rest cs base)"

definition mmio_tail :: "int \<Rightarrow> u32 \<Rightarrow> mmio_op list" where
  "mmio_tail cs units =
     mmio_fixed cs @
     concat (map (\<lambda>i. if bit units (i + 16) then mmio_rop cs i else []) [0..<8]) @
     mmio_mid cs @
     concat (map (\<lambda>i. if bit units i then mmio_tp cs units i else []) [0..<10])"

definition mmio_ddata :: "int \<Rightarrow> (nat \<times> u32) list" where
  "mmio_ddata cs =
     [(1, 0), (1, 0), (1, 0), (1, 2), (1, 1), (1, 0), (1, 0)] @
     (if cs \<ge> 0x94 then [(1, 0)] else []) @
     [(1, 1), (1, 0x100), (1, 0), (1, 0), (1, 0), (1, 0), (1, 0), (1, 2), (1, 1), (1, 1), (1, 0),
      (1, 0), (1, 0), (1, 1), (1, 0x3fffff), (1, 0x1fff), (1, 0), (1, 1), (1, 1), (1, 0), (1, 1),
      (1, 1), (1, 1), (1, 4), (1, 1)] @
     (if IS_NVA3F cs then [(1, 0)] else []) @
     [(1, 1), (1, 1), (1, 7), (1, 1), (1, 7), (1, 1), (1, 1), (1, 1)] @
     (if cs = 0x50 then
         [(4, 0), (1, 1), (1, 1), (1, 0), (1, 1), (1, 0xa), (1, 0), (1, 0), (1, 0), (1, 0x40),
          (1, 0), (1, 2), (1, 0x100), (1, 1), (1, 0x100), (1, 0), (1, 0), (1, 0), (1, 0), (1, 0),
          (1, 0), (1, 1), (1, 0), (1, 0), (1, 0), (1, 0), (1, 0), (1, 0), (1, 0), (1, 0), (1, 4),
          (1, 0)]
      else []) @
     [(1, 0), (1, 0), (2, 0), (1, 1), (1, 0x100), (1, 0), (1, 1), (2, 0), (1, 0x100), (1, 1),
      (1, 0x100), (1, 0), (1, 1), (2, 0), (1, 0x100)] @
     (if cs = 0x50 then
         [(1, 1), (1, 0), (1, 1), (1, 0), (1, 0), (1, 2), (1, 0), (1, 1), (1, 0), (1, 1), (1, 0),
          (1, 0), (1, 0), (1, 0), (1, 3), (1, 0), (1, 0)]
      else []) @
     [(1, 0), (1, 0), (1, 0), (1, 0), (1, 4), (1, 0x70), (1, 0x80), (1, 0), (1, 0), (1, 0)] @
     (if IS_NVA3F cs then [(1, 0), (1, 0)] else [(1, 0)]) @
     [(1, 0xc)] @
     (if cs \<noteq> 0x50 then [(1, 0)] else []) @
     [(1, 8), (1, 0x14)] @
     (if cs = 0x50 then
         [(1, 0), (1, 0)]
      else
         [(1, 0), (1, 0x29), (1, 0x27), (1, 0x26), (1, 8), (1, 4), (1, 0x27), (1, 0)]) @
     [(1, 0), (1, 1), (1, 2), (1, 3), (1, 4), (1, 5), (1, 6), (1, 7), (1, 1), (8, 0), (8, 0),
      (1, 0xcf), (7, 0)] @
     (if cs \<noteq> 0x50 then [(3, 0)] else [(2, 0)]) @
     [(1, 0), (1, 0x80), (1, 4), (1, 4)] @
     (if IS_NVA3F cs then [(1, 3), (1, 0)] else []) @
     (if cs \<noteq> 0x50 then [(1, 3)] else []) @
     [(1, 1), (1, 0)] @
     (if cs \<noteq> 0x50 then [(1, 0)] else []) @
     [(1, 0x12), (1, 0x10), (1, 0xc), (1, 1), (1, 0), (1, 0), (1, 0), (1, 4), (1, 2), (1, 4)] @
     (if cs \<ge> 0xa0 then [(1, 0)] else []) @
     [(1, 0), (1, 0), (1, 0x3fffff), (1, 0x1fff), (1, 0)] @
     (if cs \<noteq> 0x50 then [(8, 0)] else []) @
     (if cs \<ge> 0xa0 then [(1, 1), (1, 1), (1, 2), (1, 0)] else []) @
     [(1, 4), (1, 0x14), (1, 1), (1, 0), (1, 0)] @
     (if IS_NVA3F cs then [(1, 0)] else []) @
     [(1, 2)] @
     (if cs \<ge> 0xa0 then [(1, 0)] else []) @
     [(1, 0)] @
     (if cs \<ge> 0xa0 then [(1, 0)] else []) @
     [(1, 0), (1, 1), (1, 0), (1, 2), (1, 0x1000)] @
     (if cs \<noteq> 0x50 then [(1, 0xe00), (1, 0x1000), (1, 0x1e00)] else []) @
     [(1, 0), (1, 1), (1, 1), (1, 1), (1, 1), (1, 1), (1, 0), (1, 0), (1, 0), (1, 0x200)] @
     (if IS_NVA3F cs then [(1, 0x200)] else []) @
     [(1, 0)] @
     (if cs < 0xa0 then
         [(1, 1), (1, 0x70), (1, 0x80), (1, 0), (1, 0), (1, 1), (1, 0x70), (1, 0x80), (1, 0)]
      else
         [(1, 1), (1, 0xf0), (1, 0xff), (1, 0), (1, 0), (1, 1), (1, 0xf0), (1, 0xff), (1, 0),
          (1, 9)]) @
     [(1, 0), (1, 0), (1, 1), (1, 0xcf), (1, 0), (1, 1), (1, 0), (1, 0), (1, 0), (1, 0xcf),
      (1, 0), (1, 2), (1, 0), (1, 1), (1, 0), (1, 1), (1, 0), (1, 0xcf), (1, 0xcf), (1, 1)]"

subsection \<open>Genes\<close>

definition gene_dispatch :: "int \<Rightarrow> (nat \<times> u32) list" where
  "gene_dispatch cs =
     (if cs = 0x50 then [(5, 0)] else (if \<not> IS_NVA3F cs then [(6, 0)] else [(4, 0)])) @
     (if cs = 0x50 then [(8 * 3, 0)] else [(0x100 * 3, 0)]) @
     [(3, 0)] @
     (if IS_NVA3F cs then [(3, 0)] else []) @
     [(9, 0), (9, 0), (9, 0), (9, 0)] @
     (if cs < 0x90 then [(4, 0)] else []) @
     [(2, 0), (6 * 2, 0), (2, 0), (2, 0), (6 * 2, 0), (2, 0)] @
     (if cs = 0x50 then [(0x1c, 0)] else (if cs < 0xa0 then [(0x1e, 0)] else [(0x22, 0)])) @
     [(0x15, 0)]"

definition gene_m2mf :: "int \<Rightarrow> (nat \<times> u32) list" where
  "gene_m2mf cs =
     (let (smallm2mf :: nat) = if cs < 0x92 \<or> cs = 0x98 then 1 else 0 in
      [(1, 0), (1, 0), (1, 0), (1, 0), (1, 0), (1, 0), (1, 0), (1, 0), (1, 0), (1, 0x21), (1, 1),
       (1, 0x2), (1, 0x100), (1, 0x100), (1, 1), (1, 0), (1, 0), (1, 1), (1, 0x2), (1, 0x100),
       (1, 0x100), (1, 1), (1, 0), (1, 0), (1, 0), (1, 0)] @
      (if smallm2mf \<noteq> 0 then [(0x40, 0)] else [(0x100, 0)]) @
      [(4, 0)] @
      (if smallm2mf \<noteq> 0 then [(0x400, 0)] else [(0x800, 0)]) @
      [(4, 0), (0x40, 0), (0x6, 0)])"

definition gene_ccache :: "int \<Rightarrow> (nat \<times> u32) list" where
  "gene_ccache cs =
     [(2, 0), (0x800, 0)] @
     (if cs \<in> {0x50, 0x92, 0xa0} then [(0x2b, 0)]
      else if cs = 0x84 then [(0x29, 0)]
      else if cs \<in> {0x94, 0x96, 0xa3} then [(0x27, 0)]
      else if cs \<in> {0x86, 0x98, 0xa5, 0xa8, 0xaa, 0xac, 0xaf} then [(0x25, 0)]
      else []) @
     [(0x100, 0), (1, 0), (1, 0), (0x30, 0), (1, 0), (4, 0), (0x100, 0), (8, 0), (8, 0), (4, 0),
      (1, 0), (1, 0), (1, 0), (1, 0), (1, 0), (1, 0), (1, 0), (1, 0), (1, 0x3fffff), (1, 0),
      (1, 0), (1, 0x1fff), (1, 0), (1, 0), (1, 0), (1, 0), (1, 0), (1, 0), (1, 0), (1, 0),
      (1, 0), (1, 0), (1, 0), (1, 0)]"

definition gene_unk10xx :: "int \<Rightarrow> (nat \<times> u32) list" where
  "gene_unk10xx cs =
     [(1, 4), (1, 4), (1, 0), (1, 0x80), (1, 4), (1, 0x80c14), (1, 0)] @
     (if cs = 0x50 then [(1, 0x3ff)] else [(1, 0x7ff)]) @
     [(1, 0), (1, 0)] @
     concat (map (\<lambda>i.
       (if cs \<in> {0x50, 0x86, 0x98, 0xaa, 0xac} then [(0xa0, 0)]
        else if cs \<in> {0x84, 0x92, 0x94, 0x96} then [(0x120, 0)]
        else if cs \<in> {0xa5, 0xa8} then [(0x100, 0)]
        else if cs \<in> {0xa0, 0xa3, 0xaf} then [(0x400, 0)]
        else []) @
       [(4, 0), (4, 0)]) [0..<8]) @
     [(1, 4), (1, 4), (1, 0), (1, 0x80), (1, 4), (1, 1), (1, 0), (1, 0x27), (1, 0), (1, 0x26),
      (1, 0)]"

definition gene_unk34xx :: "int \<Rightarrow> (nat \<times> u32) list" where
  "gene_unk34xx cs =
     [(1, 0), (1, 0), (0x10, 0x04000000), (1, 0), (0x20, 0), (2, 0), (1, 0), (1, 0x04e3bfdf),
      (1, 0x04e3bfdf), (1, 0), (1, 0), (1, 0x1fe21)] @
     (if cs \<ge> 0xa0 then [(1, 0x0fac6881)] else []) @
     (if IS_NVA3F cs then [(1, 1), (3, 0)] else [])"

definition gene_unk14xx :: "int \<Rightarrow> (nat \<times> u32) list" where
  "gene_unk14xx cs =
     (if cs \<noteq> 0x50 then
         [(5, 0), (1, 0x80c14), (1, 0), (1, 0), (1, 0x804), (1, 0), (2, 4), (1, 0x8100c12)]
      else []) @
     [(1, 0), (1, 4), (1, 4), (1, 0), (1, 0x10), (1, 0)] @
     (if cs \<noteq> 0x50 then [(1, 0)] else []) @
     [(1, 0), (1, 0), (1, 0x804), (1, 1), (1, 0x1a)] @
     (if cs \<noteq> 0x50 then [(1, 0x7f)] else []) @
     [(1, 0), (1, 1), (1, 0x80c14), (1, 0), (1, 0x8100c12), (1, 4), (1, 4), (1, 0), (1, 0x10),
      (1, 0), (1, 0), (1, 0), (1, 1), (1, 0x8100c12), (4, 0), (1, 0), (1, 0)] @
     (if cs = 0x50 then [(1, 0x3ff)] else [(1, 0x7ff)]) @
     [(1, 0x80c14), (1, 0), (0x30, 0), (3, 0), (3, 0), (1, 0), (1, 1), (1, 0), (1, 0), (1, 0x10),
      (1, 0), (0x30, 0), (3, 0), (3, 0), (1, 0), (2, 0x88), (1, 0), (1, 0), (1, 4), (2, 0),
      (2, 0), (1, 0), (0x10, 0), (1, 0), (1, 0x26), (1, 0), (1, 0), (1, 0x3f800000), (1, 0),
      (1, 0), (1, 0)] @
     (if IS_NVA3F cs then [(1, 0)] else []) @
     [(1, 0x1a), (1, 0x10)] @
     (if cs \<noteq> 0x50 then [(1, 0), (1, 0), (1, 0)] else []) @
     [(0x20, 0), (1, 0), (1, 0), (1, 0), (1, 0), (1, 0), (1, 0x52), (1, 0), (1, 0x26), (1, 0),
      (1, 4), (1, 4), (1, 0), (1, 0x1a), (1, 0), (1, 0), (1, 0x00ffff00), (1, 0)]"

definition gene_zcull :: "int \<Rightarrow> (nat \<times> u32) list" where
  "gene_zcull cs =
     [(1, 0x3f), (1, 0), (1, 0), (1, 0), (1, 0), (1, 0), (1, 0), (1, 0), (3, 0), (1, 2),
      (2, 0x04000000), (1, 0), (1, 0), (2, 0), (1, 0), (1, 0), (1, 0), (1, 0), (1, 4), (1, 0),
      (1, 0), (1, 0), (1, 4), (1, 0), (1, 0), (1, 0), (1, 0), (1, 0), (1, 0), (1, 0), (3, 0),
      (1, 0), (1, 0), (1, 0), (1, 0)] @
     (if cs \<noteq> 0x50 then [(1, 0)] else []) @
     [(1, 0), (1, 0), (1, 1), (1, 0x1001), (4, 0xffff), (0x10, 0), (0x10, 0), (0x10, 0x3f800000),
      (1, 0x10), (1, 0), (1, 3), (1, 0)] @
     (if cs \<noteq> 0x50 then [(1, 0)] else []) @
     [(1, 0)]"

definition gene_clipid :: "int \<Rightarrow> (nat \<times> u32) list" where
  "gene_clipid cs =
     [(1, 0), (4, 0), (4, 0), (2, 0), (2, 0x04000000), (1, 0), (1, 0x80), (1, 0), (1, 0), (1, 0),
      (1, 0x80), (1, 0)]"

definition gene_unk24xx :: "int \<Rightarrow> (nat \<times> u32) list" where
  "gene_unk24xx cs =
     [(0x33, 0), (2, 0), (1, 0), (1, 4), (1, 4)] @
     (if IS_NVA3F cs then
         [(4, 0), (0xe10, 0), (1, 0), (8, 0), (9, 0), (4, 0), (0xe10, 0), (1, 0), (8, 0), (9, 0)]
      else
         [(0xc, 0), (0xe10, 0), (1, 0), (8, 0), (0xc, 0), (0xe10, 0), (1, 0), (8, 0)]) @
     [(1, 0), (1, 4), (1, 4), (1, 0x8100c12)] @
     (if cs \<noteq> 0x50 then [(1, 3)] else []) @
     [(1, 0), (1, 0x8100c12), (1, 0), (1, 0x80c14), (1, 1)] @
     (if cs \<ge> 0xa0 then [(2, 4)] else []) @
     [(1, 0x80c14), (1, 0), (1, 0), (1, 0x8100c12), (1, 0x27), (1, 0), (1, 0), (1, 1)] @
     concat (map (\<lambda>i.
       [(0x40, 0), (0x10, 0), (0x10, 0)]) [0..<10]) @
     [(1, 0), (1, 1), (1, 0), (4, 0), (0x10, 0), (1, 0), (1, 0x8100c12)] @
     (if cs \<noteq> 0x50 then [(1, 0)] else [])"

definition gene_vfetch :: "int \<Rightarrow> (nat \<times> u32) list" where
  "gene_vfetch cs =
     (let (acnt :: nat) = if IS_NVA3F cs then 0x20 else 0x10 in
      (if cs \<ge> 0xa0 then [(1, 0), (1, 1)] else []) @
      [(1, 0), (1, 0), (1, 0), (1, 0), (1, 0xf), ((acnt div 8) - 1, 0), (acnt div 8, 0), (1, 0),
       (1, 0x20), (1, 0), (1, 0), (1, 0)] @
      (if IS_NVA3F cs then
          [(0xb, 0)]
       else if cs \<ge> 0xa0 then [(0x9, 0)] else [(0x8, 0)]) @
      [(1, 0), (1, 0), (1, 0), (1, 0x1a), (0xc, 0), (1, 0), (1, 4), (1, 4), (1, 0), (1, 4),
       (1, 8), (1, 0)] @
      (if cs = 0x50 then [(1, 0x3ff)] else [(1, 0x7ff)]) @
      (if cs = 0xa8 then [(1, 0x1e00)] else []) @
      [(0xc, 0), (1, 0xf), ((acnt div 8) - 1, 0), (1, 0)] @
      (if cs > 0x50 \<and> cs < 0xa0 then [(2, 0)] else [(1, 0)]) @
      [(1, 0)] @
      (if IS_NVA3F cs then [(0x10, 0), (2, 0), (2, 0)] else [(8, 0), (1, 0), (2, 0)]) @
      [(1, 0), (1, 0), (acnt, 0)] @
      (if cs \<ge> 0xa0 then [(1, 0)] else []) @
      [(acnt, 0), (1, 0), (acnt, 0), (1, 0), (acnt, 0), (2, 0), (1, 0), (1, 0), (1, 0), (1, 0),
       (1, 0), (1, 0), (acnt, 0), (3, 0), (acnt, 0), (3, 0), (acnt, 0), (3, 0), (acnt, 0),
       (3, 0), (acnt, 0), (3, 0), (acnt, 0), (3, 0)] @
      (if IS_NVA3F cs then [(acnt, 0), (3, 0)] else []) @
      (if IS_NVA3F cs then [(2, 0)] else [(5, 0)]) @
      [(1, 0)] @
      (if cs < 0xa0 then
          [(0x41, 0), (0x11, 0)]
       else if \<not> IS_NVA3F cs then [(0x50, 0)] else [(0x58, 0)]) @
      [(1, 0xf), ((acnt div 8) - 1, 0), (1, 1), (acnt * 4, 0), (4, 0)] @
      (if IS_NVA3F cs then [(0x1d, 0)] else [(0x16, 0)]) @
      [(1, 0xf), ((acnt div 8) - 1, 0)] @
      (if cs < 0xa0 then [(8, 0)] else (if IS_NVA3F cs then [(0xc, 0)] else [(7, 0)])) @
      [(0xa, 0)] @
      (let (rep :: nat) = if cs = 0xa0 then 0xc else 4 in
       concat (map (\<lambda>i.
         (if IS_NVA3F cs then [(0x20, 0)] else []) @
         [(0x200, 0), (4, 0), (4, 0)]) [0..<rep]) @
       [(1, 0), (1, 0xf), ((acnt div 8) - 1, 0), (acnt div 8, 0), (1, 0), (1, 0)] @
       (if IS_NVA3F cs then [(7, 0)] else [(5, 0)])))"

definition gene_eng2d :: "int \<Rightarrow> (nat \<times> u32) list" where
  "gene_eng2d cs =
     [(2, 0), (2, 0), (1, 0)] @
     (if cs < 0xa0 then [(2, 0), (2, 1), (1, 0)] else []) @
     [(1, 1), (1, 0x100), (1, 0x100), (1, 0x11), (1, 0), (1, 8), (1, 0), (1, 0), (1, 0), (1, 0),
      (1, 0), (1, 1), (1, 0), (1, 1), (1, 1), (1, 1), (1, 0xcf), (1, 2), (1, 0), (1, 0), (1, 0),
      (1, 0), (1, 0), (1, 0), (1, 1), (1, 0), (1, 1), (1, 1), (1, 1), (1, 0), (1, 0), (1, 0),
      (1, 0), (1, 4), (1, 0), (1, 1), (1, 0x15), (2, 0), (1, 0), (1, 0x4444480), (0x10, 0),
      (0x27, 0)]"

definition gene_csched :: "int \<Rightarrow> (nat \<times> u32) list" where
  "gene_csched cs =
     [(2, 0), (1, 0), (1, 0), (1, 0x8100c12), (1, 0), (1, 0), (1, 0), (1, 0), (1, 0x100), (1, 0),
      (1, 0), (1, 0x10001), (1, 0), (1, 0x10001), (1, 1), (1, 0x10001), (1, 1), (1, 4), (1, 2),
      (0x40, 0)] @
     (if cs \<in> {0x50, 0x92} then [(8, 0), (0x80, 0), (2, 0), (0x10 * 2, 0)]
      else if cs = 0x84 then [(8, 0), (0x60, 0), (2, 0), (0xc * 2, 0)]
      else if cs \<in> {0x94, 0x96} then [(8, 0), (0x40, 0), (2, 0), (8 * 2, 0)]
      else if cs \<in> {0x86, 0x98} then [(4, 0), (0x10, 0), (2, 0), (2 * 2, 0)]
      else if cs = 0xa0 then [(8, 0), (0xf0, 0), (2, 0), (0x1e * 2, 0)]
      else if cs = 0xa3 then [(8, 0), (0x60, 0), (2, 0), (0xc * 2, 0)]
      else if cs \<in> {0xa5, 0xaf} then [(8, 0), (0x30, 0), (2, 0), (6 * 2, 0)]
      else if cs = 0xaa then [(0x12, 0)]
      else if cs \<in> {0xa8, 0xac} then [(4, 0), (0x10, 0), (2, 0), (2 * 2, 0)]
      else []) @
     [(1, 0), (1, 0), (1, 0), (1, 0), (4, 0), (1, 0), (1, 0), (4, 0), (1, 0), (1, 0), (1, 0)]"

definition gene_unk1cxx :: "int \<Rightarrow> (nat \<times> u32) list" where
  "gene_unk1cxx cs =
     [(2, 0), (1, 0x3f800000), (1, 0), (1, 0), (1, 0), (3, 0), (1, 4), (1, 0x1a), (1, 0), (1, 0),
      (1, 1), (0x10, 0), (1, 0), (1, 0), (1, 0x00ffff00), (1, 0), (1, 0), (1, 0), (2, 0), (1, 0),
      (1, 0xf), (7, 0), (1, 0x0fac6881), (1, 0x11), (7, 0), (8, 0), (1, 4), (1, 0), (1, 0)] @
     (if IS_NVA3F cs then [(1, 3)] else (if cs \<ge> 0xa0 then [(1, 1)] else [])) @
     [(1, 0), (1, 0), (1, 2), (2, 0x04000000), (1, 0), (1, 0), (1, 0), (1, 5), (1, 0x52), (1, 0),
      (1, 0), (1, 0)] @
     (if cs \<noteq> 0x50 then [(1, 0), (1, 1)] else []) @
     (if IS_NVA3F cs then [(1, 0)] else []) @
     [(0x10, 0), (0x10, 0x3f800000), (1, 0x10), (0x20, 0), (1, 0), (1, 0), (1, 0), (1, 0),
      (1, 0), (1, 0), (1, 0x8100c12), (1, 5), (1, 0), (1, 0), (1, 1), (1, 0), (4, 0xffff)] @
     (if cs \<noteq> 0x50 then [(1, 3)] else []) @
     (if cs < 0xa0 then [(0x1c, 0)] else (if IS_NVA3F cs then [(0x9, 0)] else [])) @
     [(1, 0), (1, 0), (1, 0), (1, 0x00ffff00), (1, 0x1a), (1, 0)] @
     (if cs \<noteq> 0x50 then [(1, 3), (1, 0)] else []) @
     (if cs < 0xa0 then [(0x25, 0)] else [(0x3b, 0)])"

definition gene_strmout :: "int \<Rightarrow> (nat \<times> u32) list" where
  "gene_strmout cs =
     [(1, 0x102), (1, 0), (4, 4)] @
     (if cs \<ge> 0xa0 then [(4, 0), (4, 0)] else []) @
     [(1, 4), (1, 4), (1, 0)] @
     (if cs = 0x50 then [(1, 0x3ff)] else [(1, 0x7ff)]) @
     [(1, 0), (1, 0x102), (1, 0), (4, 0), (4, 0), (4, 4)] @
     (if cs \<ge> 0xa0 then [(4, 0), (4, 0)] else []) @
     [(1, 0), (1, 0), (1, 0), (2, 0), (2, 0), (1, 0), (0x20, 0), (1, 0), (1, 0), (2, 0)]"

definition gene_ropm1 :: "int \<Rightarrow> (nat \<times> u32) list" where
  "gene_ropm1 cs =
     [(1, 0x4e3bfdf), (1, 0x4e3bfdf), (1, 0), (1, 0)] @
     (if IS_NVA3F cs then [(1, 0x11)] else []) @
     [(1, 0)]"

definition gene_ropm2 :: "int \<Rightarrow> (nat \<times> u32) list" where
  "gene_ropm2 cs =
     [(1, 0), (1, 0x0fac6881), (2, 0), (1, 0), (2, 0), (1, 0), (1, 0), (1, 0), (1, 0), (2, 0),
      (1, 0x4e3bfdf), (1, 0x4e3bfdf), (1, 0), (1, 0), (1, 0)] @
     (if IS_NVA3F cs then [(1, 0x11)] else []) @
     [(1, 0)]"

definition gene_ropc :: "int \<Rightarrow> (nat \<times> u32) list" where
  "gene_ropc cs =
     (let magic2 = if cs = 0x50 then 0x00003e60
             else if \<not> IS_NVA3F cs then 0x001ffe67
             else 0x00087e67 in
      [(1, 0), (1, 0), (1, 0), (1, 0), (1, 0), (3, 0), (1, 2), (1, 0), (1, magic2), (1, 0),
       (1, 0), (1, 0), (1, 0)] @
      (if IS_NVA3F cs then [(1, 1)] else []) @
      [(1, 0), (1, 0), (1, 0), (3, 0), (1, 0)] @
      (if cs \<ge> 0xa0 \<and> \<not> IS_NVAAF cs then [(1, 0x15)] else []) @
      [(1, 0), (1, 1), (1, 0x10), (1, 0), (1, 0), (1, 1), (1, 0)] @
      (if cs = 0x86 \<or> cs = 0x92 \<or> cs = 0x98 \<or> cs \<ge> 0xa0 then
          [(3, 0), (1, 4), (1, 0x400), (1, 0x300), (1, 0x1001)] @
          (if cs \<noteq> 0xa0 then (if IS_NVA3F cs then [(1, 0)] else [(1, 0x15)]) else [])
       else []) @
      [(1, 0), (1, 0), (1, 0), (1, 0), (1, 0), (1, 2), (1, 0), (1, 0), (1, 0), (1, 0), (1, 0),
       (1, 0), (1, 0), (1, 0), (1, 1), (1, 0x10), (1, 0), (1, 1), (1, 0), (1, 0), (1, 0), (1, 0),
       (1, 0), (1, 0), (2, 0), (1, 0), (1, 0), (1, 0), (1, 0), (1, 0), (1, 0), (1, 0), (1, 0),
       (1, 0), (1, 0), (1, 0), (1, 0x10), (0x10, 0), (0x10, 0x3f800000), (1, 0), (1, 0), (1, 0),
       (1, 0), (1, 0), (1, 0), (3, 0), (2, 0), (1, 0), (1, 0), (1, 0), (1, 0), (1, 0), (1, 0),
       (1, 0), (1, 0), (1, 0), (3, 0), (1, 0), (1, 0), (1, 0x10), (1, 0), (1, 0x3f), (1, 0),
       (1, 0), (2, 0), (1, 0), (1, 0), (1, 1), (1, 0), (1, 1), (1, 0), (1, 1)] @
      (if cs \<ge> 0xa0 then
          [(2, 0), (1, 0x1001), (0xb, 0)]
       else
          [(1, 0), (1, 0), (1, 0), (8, 0), (1, 0)]) @
      [(1, 0x11), (7, 0), (1, 0xf), (7, 0), (1, 0x11), (1, 0)] @
      (if cs \<noteq> 0x50 then [(1, 0), (1, 0)] else []) @
      [(1, 0), (1, 0), (1, 0), (2, 1), (1, 1), (1, 2), (1, 1), (1, 2), (1, 1), (1, 0),
       (1, magic2), (1, 0), (1, 0x0fac6881)] @
      (if IS_NVA3F cs then
          [(1, 0), (8, 1), (8, 1), (8, 1), (8, 2), (8, 1), (8, 2), (8, 1), (1, 0), (2, 0),
           (1, 1), (1, 0), (1, 0), (1, 0), (2, 0), (1, 1), (1, 0), (1, 0)]
       else if cs \<ge> 0xa0 then
          [(2, 0), (1, 0), (1, 0), (1, 0), (2, 0)]
       else
          [(1, 0), (1, 0), (1, 0)]) @
      [(4, 0), (4, 0), (1, 0)] @
      (if cs \<ge> 0xa0 then [(2, 0)] else []) @
      [(1, 0), (8, 0), (1, 1), (1, 2), (1, 1), (1, 1), (1, 2), (1, 1), (1, 1), (1, 0), (1, 0),
       (1, 0)] @
      (if cs \<ge> 0xa0 then [(1, 0)] else []) @
      (if IS_NVA3F cs then
          [(8, 1), (8, 1), (8, 2), (8, 1), (8, 1), (8, 2), (8, 1), (1, 0), (1, 0), (1, 0)]
       else []) @
      [(1, 0x11), (1, 1), (1, 0), (2, 0), (1, 0), (2, 0), (1, 0), (1, 0), (1, 0), (1, 0), (1, 0),
       (0x50, 0)])"

definition xfer_unk84xx :: "int \<Rightarrow> (nat \<times> u32) list" where
  "xfer_unk84xx cs =
     (let magic3 = if cs = 0x50 then 0x1000
             else if cs \<in> {0x86, 0x98, 0xa8, 0xaa, 0xac, 0xaf} then 0x1e00
             else 0 in
      [(1, 0), (1, 4), (1, 0), (1, 0), (1, 0)] @
      (if IS_NVA3F cs then
          [(0x1f, 0)]
       else if cs \<ge> 0xa0 then [(0x0f, 0)] else [(0x10, 0)]) @
      [(2, 0), (1, 4), (1, 4)] @
      (if cs \<ge> 0xa0 then [(1, 0x03020100)] else [(1, 0x00608080)]) @
      [(1, 0), (1, 0), (2, 0), (1, 4), (1, 0), (1, 0), (1, 4), (1, 4), (1, 0x80)] @
      (if magic3 \<noteq> 0 then [(1, magic3)] else []) @
      [(1, 4), (1, 0), (1, 0), (0x1f, 0), (1, 0), (1, 0), (1, 0), (1, 4), (1, 0x80), (1, 4),
       (1, 0x03020100), (1, 3)] @
      (if magic3 \<noteq> 0 then [(1, magic3)] else []) @
      [(1, 4), (1, 0), (1, 0), (1, 0), (1, 0), (1, 4), (1, 3), (1, 0), (1, 0), (1, 0), (1, 4),
       (1, 0), (1, 0), (1, 0)] @
      (if cs = 0x94 \<or> cs = 0x96 then
          [(0x1020, 0)]
       else if cs < 0xa0 then
          [(0xa20, 0)]
       else if \<not> IS_NVA3F cs then [(0x210, 0)] else [(0x410, 0)]) @
      [(1, 0), (1, 4), (1, 3), (1, 0), (1, 0)])"

definition xfer_tprop :: "int \<Rightarrow> (nat \<times> u32) list" where
  "xfer_tprop cs =
     (let magic1 = if cs = 0x50 then 0x3ff
             else if \<not> IS_NVA3F cs then 0x7ff
             else 0x7ff;
          magic2 = if cs = 0x50 then 0x00003e60
             else if \<not> IS_NVA3F cs then 0x001ffe67
             else 0x00087e67 in
      [(1, 0), (1, 0), (1, 0)] @
      (if IS_NVA3F cs then [(1, 1)] else []) @
      [(1, 0), (1, 0), (1, 0), (3, 0), (4, 0), (1, 0), (1, 0), (1, 0xf), (7, 0), (1, 0), (1, 0),
       (1, 0), (1, 0), (1, 4), (4, 0xffff), (1, 0), (3, 0), (1, 0), (1, 0), (2, 0), (1, 1),
       (1, 0), (1, 0), (1, 0), (1, 1), (1, 0), (1, 0), (1, 0), (2, 0), (1, 1), (1, 0), (1, 0)] @
      (if IS_NVA3F cs then
          [(1, 3), (1, 0), (1, 0)]
       else if cs \<ge> 0xa0 then [(1, 1), (1, 0)] else [(1, 0)]) @
      [(1, 0), (8, 0), (1, 1), (1, 1), (1, 2), (1, 1), (1, 1), (1, 2)] @
      (if IS_NVA3F cs then
          [(1, 0), (8, 1), (8, 1), (8, 1), (8, 2), (8, 1), (8, 2), (8, 1), (1, 0)]
       else []) @
      [(1, 1), (1, 0), (1, 0x11), (7, 0), (1, 0x0fac6881), (1, 0), (1, 0), (1, 4), (1, 0),
       (1, 0), (1, 0), (1, 0x11), (1, 1), (1, 0), (1, 0xcf), (1, 0xcf), (1, 0xcf)] @
      (if IS_NVA3F cs then [(1, 1)] else []) @
      [(1, 0), (1, 0), (8, 0), (1, 1), (1, 1), (1, 2), (1, 1), (1, 1), (1, 2), (1, 1), (1, 0),
       (8, 1), (1, 0x11), (7, 0), (1, 0x0fac6881), (1, 0xf), (7, 0), (1, magic2), (1, 0), (1, 0),
       (1, 0x11), (1, 1)] @
      (if IS_NVA3F cs then [(1, 1)] else []) @
      (if cs = 0x50 then [(1, 0)] else [(3, 0)]) @
      [(1, 4), (1, 0), (1, 0), (1, 0), (1, 0), (1, 0), (1, 1), (1, 0), (1, 0), (1, 0), (1, 0),
       (1, 0x11), (7, 0), (1, 0x0fac6881), (1, 0), (1, 0), (1, 0), (1, 0x11), (1, 1), (1, 0),
       (1, 1), (1, 0), (1, 1), (1, 0), (1, magic1), (1, 0), (1, 1), (1, 0), (1, 1), (1, 0),
       (1, 0)] @
      (if IS_NVA3F cs then [(1, 1)] else []) @
      [(8, 0), (1, 0), (1, 0), (1, 0), (1, 0), (1, 0), (1, 0), (1, 0), (1, 0), (8, 0), (8, 0),
       (8, 0), (8, 8), (1, 0x11), (7, 0), (1, 0x0fac6881), (8, 0x400), (8, 0x300), (1, 1),
       (1, 0xf), (7, 0), (1, 0x20), (1, 0x11), (1, 0x100), (1, 0), (1, 1), (1, 0), (1, 0),
       (1, 0x40), (1, 0x100), (1, 0), (1, 3), (1, 0), (1, 0), (1, 0), (1, 0)] @
      (if IS_NVA3F cs then [(1, 1)] else []) @
      [(1, magic2), (1, 0), (1, 0), (1, 0), (1, 2), (1, 0x0fac6881), (1, 0), (1, 0), (1, 0),
       (1, 0), (2, 0), (1, 0), (1, 0), (1, 0), (1, 1), (1, 0), (1, 0), (1, 0), (1, 0), (1, 4),
       (1, 0), (1, 1), (1, 0x400), (1, 0x300), (1, 0x1001), (1, 0), (1, 0)] @
      (if IS_NVA3F cs then [(1, 0)] else []) @
      [(1, 0), (1, 0x11), (7, 0), (1, 0x0fac6881), (1, 0xf), (7, 0), (1, 0), (8, 0), (1, 0),
       (1, 0), (1, 0), (1, 0)] @
      (if IS_NVA3F cs then [(1, 0), (1, 1)] else []) @
      [(1, 0), (1, 0), (1, 0)] @
      (if cs \<ge> 0xa0 then [(1, 0x0fac6881)] else []) @
      [(1, magic2), (1, 0), (1, 0), (1, 0), (1, 0x11), (1, 0), (1, 0), (1, 4), (1, 0), (1, 1),
       (1, 1), (1, 0), (1, 0), (1, 0), (1, 1)] @
      (if IS_NVA3F cs then [(1, 1), (1, 0)] else []) @
      [(1, 0)] @
      (if cs \<ge> 0xa0 then
          [(3, 0), (1, 0xfac6881), (4, 0), (1, 4), (1, 0), (2, 1), (2, 0), (1, 1), (1, 0)] @
          (if IS_NVA3F cs then [(0x9, 0)] else [(0x8, 0)]) @
          [(1, 0), (8, 1), (1, 0x11), (7, 0), (1, 0xfac6881), (1, 0xf), (7, 0), (1, 0x11),
           (1, 1), (5, 0)] @
          (if IS_NVA3F cs then [(1, 0), (1, 1)] else [])
       else []))"

definition xfer_tex :: "int \<Rightarrow> (nat \<times> u32) list" where
  "xfer_tex cs =
     [(2, 0)] @
     (if cs \<noteq> 0x50 then [(1, 0)] else []) @
     [(1, 1), (1, 0), (1, 1), (1, 0)] @
     (if cs = 0x50 then [(1, 0)] else [(2, 0)]) @
     [(1, 0x2a712488), (1, 0), (1, 0x4085c000), (1, 0x40), (1, 0x100), (1, 0x10100),
      (1, 0x02800000), (1, 0)] @
     (if cs = 0x50 then
         [(1, 0), (1, 0), (1, 0), (1, 0), (1, 0)]
      else if \<not> IS_NVAAF cs then
         [(1, 0), (1, 0), (1, 0), (1, 0), (1, 0), (1, 0), (1, 0), (1, 0)]
      else
         [(0x6, 0)]) @
     [(1, 0), (1, 0), (1, 0)]"

definition xfer_unk8cxx :: "int \<Rightarrow> (nat \<times> u32) list" where
  "xfer_unk8cxx cs =
     [(1, 0), (1, 0), (2, 0), (1, 0), (1, 0), (1, 0x04e3bfdf), (1, 0x04e3bfdf), (1, 1), (1, 0),
      (1, 0x00ffff00), (1, 1)] @
     (if IS_NVA3F cs then [(1, 1)] else []) @
     [(1, 0), (1, 0), (1, 0x00ffff00), (1, 0), (1, 0), (1, 0), (1, 0), (1, 0), (1, 0), (1, 0),
      (1, 0), (1, 1), (1, 0), (1, 1), (1, 0x30201000), (1, 0x70605040), (1, 0xb8a89888),
      (1, 0xf8e8d8c8), (1, 0), (1, 0x1a)]"

definition xfer_tp :: "int \<Rightarrow> (nat \<times> u32) list" where
  "xfer_tp cs =
     (if cs < 0xa0 then
         xfer_unk84xx cs @
         xfer_tprop cs @
         xfer_tex cs @
         xfer_unk8cxx cs
      else
         xfer_tex cs @
         xfer_tprop cs @
         xfer_unk8cxx cs @
         xfer_unk84xx cs)"

definition xfer_mpc :: "int \<Rightarrow> (nat \<times> u32) list" where
  "xfer_mpc cs =
     (let (mpcnt :: nat) = if cs \<in> {0x98, 0xaa} then 1
             else if cs \<in> {0x50, 0x84, 0x86, 0x92, 0x94, 0x96, 0xa8, 0xac} then 2
             else if cs \<in> {0xa0, 0xa3, 0xa5, 0xaf} then 3 else 2 in
      concat (map (\<lambda>i.
        [(1, 0), (1, 0x80), (1, 0x80007004), (1, 0x04000400)] @
        (if cs \<ge> 0xa0 then [(1, 0xc0)] else []) @
        [(1, 0x1000), (1, 0), (1, 0)] @
        (if cs = 0x86 \<or> cs = 0x98 \<or> cs = 0xa8 \<or> IS_NVAAF cs then [(1, 0xe00), (1, 0x1e00)] else []) @
        [(1, 1), (1, 0), (1, 0)] @
        (if cs = 0x50 then [(2, 0x1000)] else []) @
        [(1, 1), (1, 0), (1, 4), (1, 2)] @
        (if IS_NVAAF cs then
            [(0xb, 0)]
         else if cs \<ge> 0xa0 then [(0xc, 0)] else [(0xa, 0)])) [0..<mpcnt]) @
      [(1, 0x08100c12), (1, 0)] @
      (if cs \<ge> 0xa0 then [(1, 0x1fe21)] else []) @
      [(3, 0), (1, 0), (1, 0), (4, 0xffff), (1, 1), (1, 0x10001), (1, 0x10001), (1, 1), (1, 0),
       (1, 0x1fe21), (1, 0)] @
      (if IS_NVA3F cs then [(1, 1)] else []) @
      [(1, 0), (1, 0), (1, 0), (1, 0), (1, 0x08100c12), (1, 4), (1, 0), (1, 2), (1, 0x11),
       (7, 0), (1, 0), (1, 0xfac6881), (1, 0)] @
      (if IS_NVA3F cs then [(1, 3)] else []) @
      [(1, 0), (1, 0), (1, 0), (1, 4), (8, 0), (1, 0), (1, 2), (1, 1), (1, 1), (1, 2), (1, 1),
       (1, 1), (1, 1)] @
      (if IS_NVA3F cs then
          [(1, 0), (8, 2), (8, 1), (8, 1), (8, 2), (8, 1), (8, 1), (8, 1), (1, 0), (1, 0)]
       else []) @
      [(1, 0), (1, 4)] @
      (if cs = 0x50 then
          [(0x3a0, 0)]
       else if cs < 0x94 then
          [(0x3a2, 0)]
       else if cs = 0x98 \<or> cs = 0xaa then [(0x39f, 0)] else [(0x3a3, 0)]) @
      [(1, 0x11), (1, 0), (1, 1), (0x2d, 0)])"

end
