(* ===== verification/GrCtx.thy ===== *)
theory GrCtx
  imports GrData
begin

section \<open>The context program of PGRAPH\<close>

text \<open>
  \<open>nouveau_grctx.h\<close> and the rest of \<open>nv50_grctx.c\<close>. The engine saves and loads its context with a
  little program, which the driver makes for the card. The same code runs in two modes: it either
  writes the program, an assembler with labels and jumps (\<open>Prog\<close>), or the initial values of a new
  context (\<open>Vals\<close>), and in both modes it keeps count of the words of the context. What goes into the
  object of the context is written with the function \<open>put\<close>, which is \<open>nv_wv32\<close> on that object.
\<close>

datatype grctx_mode = Prog | Vals

text \<open>The length of the program is that of the list.\<close>

record grctx =
  mode :: grctx_mode
  ctxprog :: "u32 list"
  ctxprog_max :: nat
  ctxprog_reg :: u32
  ctxprog_label :: "nat \<Rightarrow> u32"
  ctxvals_pos :: u32
  ctxvals_base :: u32

type_synonym writer = "u32 \<Rightarrow> u32 \<Rightarrow> kern \<Rightarrow> kern option"

subsection \<open>Instructions\<close>

definition ctxprog_len :: "grctx \<Rightarrow> u32" where
  "ctxprog_len c = of_nat (length (ctxprog c))"

definition cp_out :: "u32 \<Rightarrow> grctx \<Rightarrow> grctx option" where
  "cp_out inst c =
     (if mode c \<noteq> Prog then Some c
      else if length (ctxprog c) = ctxprog_max c then None
      else Some (c\<lparr>ctxprog := ctxprog c @ [inst]\<rparr>))"

definition cp_lsr :: "u32 \<Rightarrow> grctx \<Rightarrow> grctx option" where
  "cp_lsr val = cp_out (0x00200000 OR val)"

definition cp_ctx :: "u32 \<Rightarrow> u32 \<Rightarrow> grctx \<Rightarrow> grctx option" where
  "cp_ctx reg len c = do {
     let c = c\<lparr>ctxprog_reg := drop_bit 2 (reg - 0x00400000), ctxvals_base := ctxvals_pos c,
               ctxvals_pos := ctxvals_pos c + len\<rparr>;
     if len > 0xf then do {
       c \<leftarrow> cp_lsr len c;
       cp_out (0x00100000 OR ctxprog_reg c) c }
     else cp_out (0x00100000 OR push_bit 16 len OR ctxprog_reg c) c }"

text \<open>
  A jump to a label that is not there yet has \<open>0xff\<close> in its top byte and the number of the label
  in place of the address; when the label comes, these are found and get the address.
\<close>

definition cp_patch :: "nat \<Rightarrow> u32 \<Rightarrow> u32 \<Rightarrow> u32" where
  "cp_patch name addr inst =
     (if inst AND 0xfff00000 = 0xff400000 \<and> inst AND 0x0001ff00 = push_bit 8 (of_nat name)
      then (inst AND 0x00ff00ff) OR push_bit 8 addr
      else inst)"

definition cp_name :: "nat \<Rightarrow> grctx \<Rightarrow> grctx option" where
  "cp_name name c =
     (if mode c \<noteq> Prog then Some c
      else if 32 \<le> name then None
      else Some (c\<lparr>ctxprog_label := (ctxprog_label c)(name := ctxprog_len c),
                   ctxprog := map (cp_patch name (ctxprog_len c)) (ctxprog c)\<rparr>))"

text \<open>The flags of the engine: what a program tests, waits for and sets.\<close>

definition cp_bra :: "u32 \<Rightarrow> bool \<Rightarrow> nat \<Rightarrow> grctx \<Rightarrow> grctx option" where
  "cp_bra flag state name c =
     (if 32 \<le> name then None
      else
        let ip = push_bit 8 (ctxprog_label c name);
            ip = (if ip = 0 then 0xff000000 OR push_bit 8 (of_nat name) else ip)
        in cp_out (0x00400000 OR ip OR flag OR (if state then 0 else 0x80)) c)"

definition cp_wait :: "u32 \<Rightarrow> bool \<Rightarrow> grctx \<Rightarrow> grctx option" where
  "cp_wait flag state = cp_out (0x00500000 OR flag OR (if state then 0x80 else 0))"

definition cp_set :: "u32 \<Rightarrow> bool \<Rightarrow> grctx \<Rightarrow> grctx option" where
  "cp_set flag state = cp_out (0x00700000 OR flag OR (if state then 0x80 else 0))"

definition cp_pos :: "u32 \<Rightarrow> grctx \<Rightarrow> grctx option" where
  "cp_pos offset c = do {
     let c = c\<lparr>ctxvals_pos := offset, ctxvals_base := offset\<rparr>;
     c \<leftarrow> cp_lsr offset c;
     cp_out 0x00600006 c }"

subsection \<open>Values\<close>

definition gr_def :: "writer \<Rightarrow> u32 \<Rightarrow> u32 \<Rightarrow> grctx \<Rightarrow> kern \<Rightarrow> kern option" where
  "gr_def put reg val c s =
     (if mode c \<noteq> Vals then Some s
      else put (((reg - 0x00400000) div 4 - ctxprog_reg c + ctxvals_base c) * 4) val s)"

primrec mmio_step :: "writer \<Rightarrow> mmio_op \<Rightarrow> grctx \<times> kern \<Rightarrow> (grctx \<times> kern) option" where
  "mmio_step put (Ctx reg len) cs = do { c \<leftarrow> cp_ctx reg len (fst cs); Some (c, snd cs) }"
| "mmio_step put (Def reg val) cs = do { s \<leftarrow> gr_def put reg val (fst cs) (snd cs); Some (fst cs, s) }"

text \<open>\<open>num\<close> words of the same value, \<open>step\<close> words apart.\<close>

definition emit :: "u32 \<Rightarrow> writer \<Rightarrow> nat \<times> u32 \<Rightarrow> grctx \<times> kern \<Rightarrow> (grctx \<times> kern) option" where
  "emit step put nv cs = do {
     let (num, val) = nv;
     let (c, s) = cs;
     s \<leftarrow>
       (if val \<noteq> 0 \<and> mode c = Vals then
          for_each (\<lambda>i. put (4 * (ctxvals_pos c + of_nat i * step)) val) [0..<num] s
        else Some s);
     Some (c\<lparr>ctxvals_pos := ctxvals_pos c + of_nat num * step\<rparr>, s) }"

abbreviation dd_emit where "dd_emit \<equiv> emit 1"
abbreviation xf_emit where "xf_emit \<equiv> emit 8"

definition construct_mmio_ddata :: "card \<Rightarrow> writer \<Rightarrow> grctx \<times> kern \<Rightarrow> (grctx \<times> kern) option" where
  "construct_mmio_ddata d put cs = do {
     let base = ctxvals_pos (fst cs);
     (c, s) \<leftarrow> for_each (dd_emit put) (mmio_ddata (chipset d)) cs;
     let num = ctxvals_pos c - base;
     c \<leftarrow> cp_ctx (if IS_NVA3F (chipset d) then 0x404800 else 0x405400) num (c\<lparr>ctxvals_pos := base\<rparr>);
     Some (c, s) }"

definition construct_mmio :: "card \<Rightarrow> writer \<Rightarrow> grctx \<times> kern \<Rightarrow> (grctx \<times> kern) option" where
  "construct_mmio d put cs = do {
     (units, s) \<leftarrow> nv_rd32 d 0x1540 (snd cs);
     cs \<leftarrow> for_each (mmio_step put) (mmio_head (chipset d)) (fst cs, s);
     cs \<leftarrow> construct_mmio_ddata d put cs;
     for_each (mmio_step put) (mmio_tail (chipset d) units) cs }"

subsection \<open>The two areas of strands\<close>

text \<open>
  An area has eight strands, interleaved word by word. Each is made by itself, and \<open>size\<close> is the
  length of the longest so far.
\<close>

definition grow :: "u32 \<Rightarrow> grctx \<Rightarrow> u32 \<Rightarrow> u32" where
  "grow offset c sz =
     (let n = (ctxvals_pos c - offset) div 8 in if n > sz then n else sz)"

definition strand ::
  "writer \<Rightarrow> u32 \<Rightarrow> nat \<times> (nat \<times> u32) list \<Rightarrow> u32 \<times> grctx \<times> kern \<Rightarrow> (u32 \<times> grctx \<times> kern) option" where
  "strand put offset k szcs = do {
     let (sz, c, s) = szcs;
     (c, s) \<leftarrow> for_each (xf_emit put) (snd k) (c\<lparr>ctxvals_pos := offset + of_nat (fst k)\<rparr>, s);
     Some (grow offset c sz, c, s) }"

definition align40 :: "u32 \<Rightarrow> u32" where
  "align40 pos = (pos + 0x3f) AND NOT 0x3f"

text \<open>After the strands: the position behind them, and the instructions that transfer the area.\<close>

definition xfer_end :: "u32 \<Rightarrow> u32 \<Rightarrow> u32 \<Rightarrow> u32 \<Rightarrow> grctx \<Rightarrow> grctx option" where
  "xfer_end seek xfer offset sz c = do {
     let c = c\<lparr>ctxvals_pos := align40 (offset + sz * 8)\<rparr>;
     c \<leftarrow> cp_lsr offset c;
     c \<leftarrow> cp_out 0x00600007 c;
     c \<leftarrow> cp_lsr sz c;
     c \<leftarrow> cp_out seek c;
     c \<leftarrow> cp_out xfer c;
     cp_wait 75 True c }"

definition if_unit :: "u32 \<Rightarrow> nat \<Rightarrow> 'a list \<Rightarrow> 'a list" where
  "if_unit units i xs = (if bit units i then xs else [])"

definition xfer1_strands :: "int \<Rightarrow> u32 \<Rightarrow> (nat \<times> (nat \<times> u32) list) list" where
  "xfer1_strands cs units =
     (if cs < 0xa0 then
        [(0, gene_dispatch cs @ gene_m2mf cs @ gene_unk24xx cs @ gene_clipid cs @ gene_zcull cs),
         (1, gene_vfetch cs @ gene_eng2d cs @ gene_csched cs @ gene_ropm1 cs @ gene_ropm2 cs),
         (2, gene_ccache cs @ gene_unk1cxx cs @ gene_strmout cs @ gene_unk14xx cs @ gene_unk10xx cs @ gene_unk34xx cs),
         (3, concat (map (\<lambda>i. if_unit units (i + 16) (gene_ropc cs)) [0..<6]))] @
        map (\<lambda>i. (4 + i, if_unit units (2 * i) (xfer_tp cs) @ if_unit units (2 * i + 1) (xfer_tp cs))) [0..<4]
      else
        [(0, gene_dispatch cs @ gene_m2mf cs @ gene_unk34xx cs @ gene_csched cs @ gene_unk1cxx cs @ gene_strmout cs),
         (1, gene_unk10xx cs),
         (2, (if cs = 0xa0 then gene_unk14xx cs else []) @ gene_unk24xx cs),
         (3, gene_vfetch cs),
         (4, gene_ccache cs),
         (5, gene_ropm2 cs @ gene_ropm1 cs @ concat (map (\<lambda>i. if_unit units (i + 16) (gene_ropc cs)) [0..<8])),
         (6, gene_zcull cs @ gene_clipid cs @ gene_eng2d cs @ concat (map (\<lambda>i. if_unit units i (xfer_tp cs)) [0..<4])),
         (7, if cs = 0xa0 then concat (map (\<lambda>i. if_unit units i (xfer_tp cs)) [4..<10]) else gene_unk14xx cs)])"

definition construct_xfer1 :: "card \<Rightarrow> writer \<Rightarrow> grctx \<times> kern \<Rightarrow> (grctx \<times> kern) option" where
  "construct_xfer1 d put cs = do {
     (units, s) \<leftarrow> nv_rd32 d 0x1540 (snd cs);
     let c = fst cs;
     let offset = align40 (ctxvals_pos c);
     (sz, c, s) \<leftarrow> for_each (strand put offset) (xfer1_strands (chipset d) units) (0, c\<lparr>ctxvals_base := offset\<rparr>, s);
     c \<leftarrow> xfer_end 0x00c000ff 0x008000ff offset sz c;
     Some (c, s) }"

definition xfer2_strands :: "int \<Rightarrow> u32 \<Rightarrow> (nat \<times> (nat \<times> u32) list) list" where
  "xfer2_strands cs units =
     (let mpc = (\<lambda>i. if_unit units i (xfer_mpc cs)) in
      if cs < 0xa0 then
        map (\<lambda>i. (i, (if i = 0 then [(1, 0x08100c12)] else []) @ mpc i)) [0..<8]
      else
        [(0, [(1, 0x08100c12)] @ mpc 0 @ mpc 1), (1, mpc 2 @ mpc 3),
         (2, mpc 4 @ mpc 5 @ mpc 6), (3, mpc 7 @ mpc 8 @ mpc 9)])"

definition construct_xfer2 :: "card \<Rightarrow> writer \<Rightarrow> grctx \<times> kern \<Rightarrow> (grctx \<times> kern) option" where
  "construct_xfer2 d put cs = do {
     (units, s) \<leftarrow> nv_rd32 d 0x1540 (snd cs);
     let c = fst cs;
     let offset = align40 (ctxvals_pos c);
     (sz, c, s) \<leftarrow> for_each (strand put offset) (xfer2_strands (chipset d) units) (0, c, s);
     c \<leftarrow> xfer_end 0x00c800ff 0x008800ff offset sz c;
     Some (c, s) }"

subsection \<open>The whole\<close>

abbreviation (input) cp_check_load :: nat where "cp_check_load \<equiv> 1"
abbreviation (input) cp_setup_auto_load :: nat where "cp_setup_auto_load \<equiv> 2"
abbreviation (input) cp_setup_load :: nat where "cp_setup_load \<equiv> 3"
abbreviation (input) cp_setup_save :: nat where "cp_setup_save \<equiv> 4"
abbreviation (input) cp_swap_state :: nat where "cp_swap_state \<equiv> 5"
abbreviation (input) cp_prepare_exit :: nat where "cp_prepare_exit \<equiv> 6"
abbreviation (input) cp_exit :: nat where "cp_exit \<equiv> 7"
abbreviation (input) cp_sync :: nat where "cp_sync \<equiv> 8"

abbreviation (input) SWAP_DIRECTION :: u32 where "SWAP_DIRECTION \<equiv> 0"
abbreviation (input) UNK01 :: u32 where "UNK01 \<equiv> 1"
abbreviation (input) UNK03 :: u32 where "UNK03 \<equiv> 3"
abbreviation (input) USER_SAVE :: u32 where "USER_SAVE \<equiv> 5"
abbreviation (input) USER_LOAD :: u32 where "USER_LOAD \<equiv> 6"
abbreviation (input) UNK0B :: u32 where "UNK0B \<equiv> 0xb"
abbreviation (input) UNK1D :: u32 where "UNK1D \<equiv> 0x1d"
abbreviation (input) SYNC_ACK :: u32 where "SYNC_ACK \<equiv> 0x1f"
abbreviation (input) UNK20 :: u32 where "UNK20 \<equiv> 0x20"
abbreviation (input) STATUS :: u32 where "STATUS \<equiv> 0x40"
abbreviation (input) AUTO_SAVE :: u32 where "AUTO_SAVE \<equiv> 0x44"
abbreviation (input) AUTO_LOAD :: u32 where "AUTO_LOAD \<equiv> 0x45"
abbreviation (input) NEWCTX :: u32 where "NEWCTX \<equiv> 0x4a"
abbreviation (input) XFER :: u32 where "XFER \<equiv> 0x4b"
abbreviation (input) ALWAYS :: u32 where "ALWAYS \<equiv> 0x4d"
abbreviation (input) INTR :: u32 where "INTR \<equiv> 0x4f"
abbreviation (input) SYNC_REQ :: u32 where "SYNC_REQ \<equiv> 0x60"

text \<open>
  The program around the transfers. \<^const>\<open>True\<close> stands for the value 1 of a flag: SET, PENDING, SAVE,
  IDLE (of STATUS), DONE (of NEWCTX) and BUSY (of XFER).
\<close>

definition prog_head :: "(grctx \<Rightarrow> grctx option) list" where
  "prog_head =
     [cp_bra AUTO_SAVE True cp_setup_save,
      cp_bra USER_SAVE True cp_setup_save,
      cp_name cp_check_load,
      cp_bra AUTO_LOAD True cp_setup_auto_load,
      cp_bra USER_LOAD True cp_setup_load,
      cp_bra ALWAYS True cp_exit,
      cp_name cp_setup_auto_load,
      cp_out 0x0090ffff,
      cp_out 0x0091ffff,
      cp_out 0x00600009,
      cp_out 0x00600005,
      cp_set UNK01 True,
      cp_name cp_setup_load,
      cp_out 0x00600004,
      cp_wait NEWCTX False,
      cp_set UNK1D False,
      cp_set SWAP_DIRECTION False,
      cp_bra UNK0B True cp_prepare_exit,
      cp_bra ALWAYS True cp_swap_state,
      cp_name cp_sync,
      cp_set SYNC_ACK True,
      cp_bra SYNC_REQ True cp_sync,
      cp_set SYNC_ACK False,
      cp_bra SYNC_REQ True cp_sync,
      cp_name cp_setup_save,
      cp_set UNK1D True,
      cp_bra SYNC_REQ True cp_sync,
      cp_bra INTR True cp_setup_save,
      cp_bra STATUS False cp_setup_save,
      cp_set UNK01 True,
      cp_set SWAP_DIRECTION True,
      cp_name cp_swap_state,
      cp_set UNK03 True,
      cp_pos 1,
      cp_ctx 0x400828 1,
      cp_pos 0x40]"

definition prog_tail :: "(grctx \<Rightarrow> grctx option) list" where
  "prog_tail =
     [cp_bra SWAP_DIRECTION True cp_check_load,
      cp_set UNK20 True,
      cp_set SWAP_DIRECTION True,
      (\<lambda>c. cp_lsr (ctxvals_base c) c),
      cp_out 0x00600007,
      cp_lsr 4,
      cp_out 0x00c000ff,
      cp_out 0x008000ff,
      cp_wait XFER True,
      cp_name cp_prepare_exit,
      cp_set UNK01 False,
      cp_set UNK03 False,
      cp_set UNK1D False,
      cp_bra USER_SAVE True cp_exit,
      cp_out 0x0060000d,
      cp_name cp_exit,
      cp_set USER_SAVE False,
      cp_set USER_LOAD False,
      cp_out 0x0060000c]"

definition grctx_chips :: "int set" where
  "grctx_chips = {0x50, 0x84, 0x86, 0x92, 0x94, 0x96, 0x98, 0xa0, 0xa3, 0xa5, 0xa8, 0xaa, 0xac, 0xaf}"

definition nv50_grctx_init :: "card \<Rightarrow> writer \<Rightarrow> grctx \<Rightarrow> kern \<Rightarrow> (grctx res \<times> kern) option" where
  "nv50_grctx_init d put c s =
     (if chipset d \<notin> grctx_chips then Some (Inl ENOSYS, s)
      else do {
        c \<leftarrow> for_each (\<lambda>f. f) prog_head c;
        cs \<leftarrow> construct_mmio d put (c, s);
        cs \<leftarrow> construct_xfer1 d put cs;
        (c, s) \<leftarrow> construct_xfer2 d put cs;
        c \<leftarrow> for_each (\<lambda>f. f) prog_tail c;
        Some (Inr (c\<lparr>ctxvals_pos := ctxvals_pos c + 0x400\<rparr>), s) })"

text \<open>The record both callers start from: all clear.\<close>

definition new_grctx :: "grctx_mode \<Rightarrow> nat \<Rightarrow> grctx" where
  "new_grctx md maxlen =
     \<lparr>mode = md, ctxprog = [], ctxprog_max = maxlen, ctxprog_reg = 0, ctxprog_label = (\<lambda>_. 0),
      ctxvals_pos = 0, ctxvals_base = 0\<rparr>"

end
