(* ===== verification/GrAsm.thy ===== *)
theory GrAsm
  imports GrCtx
begin

section \<open>The assembler of context programs\<close>

text \<open>
  \<open>cp_name\<close> and \<open>cp_bra\<close> resolve jumps in one pass, patching those to labels that come later. The
  reference is an assembler with two passes, which has the addresses of all labels before it makes
  an instruction.
\<close>

datatype asm = Instr u32 | Jump u32 bool nat | Label nat

primrec asm_step :: "asm \<Rightarrow> grctx \<Rightarrow> grctx option" where
  "asm_step (Instr w) = cp_out w"
| "asm_step (Jump flag st name) = cp_bra flag st name"
| "asm_step (Label name) = cp_name name"

primrec asm_size :: "asm \<Rightarrow> nat" where
  "asm_size (Instr w) = 1"
| "asm_size (Jump flag st name) = 1"
| "asm_size (Label name) = 0"

primrec address :: "asm list \<Rightarrow> nat \<Rightarrow> nat option" where
  "address [] name = None"
| "address (a # as) name =
     (if a = Label name then Some 0 else map_option (\<lambda>k. asm_size a + k) (address as name))"

definition jump_word :: "u32 \<Rightarrow> bool \<Rightarrow> u32 \<Rightarrow> u32" where
  "jump_word flag st target = 0x00400000 OR target OR flag OR (if st then 0 else 0x80)"

primrec assemble :: "(nat \<Rightarrow> u32) \<Rightarrow> asm list \<Rightarrow> u32 list" where
  "assemble target [] = []"
| "assemble target (a # as) =
     (case a of
        Instr w \<Rightarrow> w # assemble target as
      | Jump flag st name \<Rightarrow> jump_word flag st (target name) # assemble target as
      | Label name \<Rightarrow> assemble target as)"

text \<open>Where a jump goes: an address in bits 8 to 16.\<close>

definition two_pass :: "asm list \<Rightarrow> nat \<Rightarrow> u32" where
  "two_pass as name = push_bit 8 (of_nat (the (address as name)))"

text \<open>The same with what is known after a part of the program: labels to come are pending.\<close>

definition so_far :: "asm list \<Rightarrow> nat \<Rightarrow> u32" where
  "so_far as name =
     (case address as name of
        Some k \<Rightarrow> push_bit 8 (of_nat k)
      | None \<Rightarrow> 0xff000000 OR push_bit 8 (of_nat name))"

text \<open>
  The programs the assembler is for: the number of a label has five bits and its address nine, that
  of a flag seven; a label is there once, and not at address 0; and no instruction looks like a jump
  that is pending.
\<close>

definition pending :: "u32 \<Rightarrow> bool" where
  "pending w \<longleftrightarrow> w AND 0xfff00000 = 0xff400000"

primrec asm_ok :: "asm \<Rightarrow> bool" where
  "asm_ok (Instr w) \<longleftrightarrow> \<not> pending w"
| "asm_ok (Jump flag st name) \<longleftrightarrow> flag < 0x80 \<and> name < 32"
| "asm_ok (Label name) \<longleftrightarrow> name < 32"

definition labels :: "asm list \<Rightarrow> nat list" where
  "labels as = concat (map (\<lambda>a. case a of Label n \<Rightarrow> [n] | _ \<Rightarrow> []) as)"

definition asm_length :: "asm list \<Rightarrow> nat" where
  "asm_length as = sum_list (map asm_size as)"

definition program_ok :: "asm list \<Rightarrow> bool" where
  "program_ok as \<longleftrightarrow> list_all asm_ok as \<and> distinct (labels as) \<and>
     (\<forall>n. as \<noteq> [] \<longrightarrow> hd as \<noteq> Label n) \<and> asm_length as \<le> 512"

definition closed_program :: "asm list \<Rightarrow> bool" where
  "closed_program as \<longleftrightarrow> (\<forall>f st n. Jump f st n \<in> set as \<longrightarrow> n \<in> set (labels as))"

subsection \<open>Fields of a word\<close>

lemma take_bit_small:
  assumes "(x :: u32) < 2 ^ k" "k < 32"
  shows "take_bit k x = x"
proof -
  from assms have "unat x < 2 ^ k" using unat_two_power_u32 by (simp add: word_less_nat_alt)
  then have "unat (take_bit k x) = unat x" by (simp add: unsigned_take_bit_eq take_bit_nat_eq_self)
  then show ?thesis by (simp only: word_unat_eq_iff)
qed

lemma less_by_take_bit:
  assumes "take_bit k x = (x :: u32)" "k < 32"
  shows "x < 2 ^ k"
proof -
  have "unat (take_bit k x) < 2 ^ k" by (simp add: unsigned_take_bit_eq)
  with assms show ?thesis by (simp add: word_less_nat_alt unat_two_power_u32)
qed

lemma small_and:
  fixes x c :: u32
  assumes "x < 2 ^ k" "take_bit k c = 0" "k < 32"
  shows "x AND c = 0"
proof -
  from assms have "x AND c = take_bit k x AND c" by (simp add: take_bit_small)
  also have "\<dots> = take_bit k x AND take_bit k c" by (simp add: take_bit_eq_mask ac_simps)
  finally show ?thesis using assms(2) by simp
qed

lemma or_small: "x < 2 ^ k \<Longrightarrow> y < 2 ^ k \<Longrightarrow> k < 32 \<Longrightarrow> x OR y < (2 ^ k :: u32)"
  by (rule less_by_take_bit) (simp_all add: take_bit_small)

lemma push_bit_small:
  assumes "x < 2 ^ k" "k + n < 32"
  shows "push_bit n (of_nat x :: u32) < 2 ^ (k + n)"
proof -
  have k: "x * 2 ^ n < 2 ^ (k + n)" using assms(1) by (simp add: power_add)
  moreover have "(2 :: nat) ^ (k + n) \<le> 2 ^ 32" using assms(2) by (intro power_increasing) simp_all
  ultimately have "unat (of_nat (x * 2 ^ n) :: u32) = x * 2 ^ n" by (subst unat_of_nat) simp_all
  then show ?thesis using k assms(2)
    by (simp add: word_less_nat_alt unat_two_power_u32 push_bit_eq_mult)
qed

lemma push_bit_inject:
  assumes "m * 2 ^ k < 2 ^ 32" "n * 2 ^ k < 2 ^ 32"
  shows "push_bit k (of_nat m) = (push_bit k (of_nat n) :: u32) \<longleftrightarrow> m = n"
proof -
  have "unat (push_bit k (of_nat x :: u32)) = x * 2 ^ k" if "x * 2 ^ k < 2 ^ 32" for x
  proof -
    have "push_bit k (of_nat x :: u32) = of_nat (x * 2 ^ k)" by (simp add: push_bit_eq_mult)
    with that show ?thesis by (simp add: unat_of_nat del: of_nat_mult of_nat_power)
  qed
  with assms show ?thesis by (metis mult_cancel2 power_not_zero zero_neq_numeral)
qed

text \<open>The parts of a jump: an address or number of a label, and a flag with its state.\<close>

abbreviation flag_bits :: "u32 \<Rightarrow> bool \<Rightarrow> u32" where
  "flag_bits flag st \<equiv> flag OR (if st then 0 else 0x80)"

lemma flag_bits_less:
  assumes "flag < 0x80"
  shows "flag_bits flag st < 2 ^ 8"
proof (rule or_small)
  show "flag < 2 ^ 8" using assms by (simp add: word_less_nat_alt)
qed simp_all

lemma jump_word_and:
  assumes "flag < 0x80" "take_bit 8 c = 0"
  shows "jump_word flag st t AND c = (0x00400000 OR t) AND c"
proof -
  have "flag_bits flag st AND c = 0"
    using flag_bits_less [OF assms(1)] assms(2) by (rule small_and) simp
  then show ?thesis by (simp add: jump_word_def or.assoc bit.conj_disj_distrib2)
qed

lemma label_and:
  assumes "n < 32" "take_bit 13 c = 0"
  shows "push_bit 8 (of_nat n :: u32) AND c = 0"
  using push_bit_small [of n 5 8] assms by (intro small_and [of _ 13]) simp_all

lemma target_and:
  assumes "k < 1024" "take_bit 18 c = 0"
  shows "push_bit 8 (of_nat k :: u32) AND c = 0"
  using push_bit_small [of k 10 8] assms by (intro small_and [of _ 18]) simp_all

lemma resolved_not_pending:
  assumes "flag < 0x80" "k < 1024"
  shows "\<not> pending (jump_word flag st (push_bit 8 (of_nat k)))"
  using target_and [OF assms(2), of "0xfff00000"]
  by (simp add: pending_def jump_word_and assms bit.conj_disj_distrib2)

lemma pending_jump:
  assumes "flag < 0x80" "n < 32"
  shows "pending (jump_word flag st (0xff000000 OR push_bit 8 (of_nat n)))"
  using label_and [OF assms(2), of "0xfff00000"]
  by (simp add: pending_def jump_word_and assms bit.conj_disj_distrib2)

lemma pending_name:
  assumes "flag < 0x80" "n < 32"
  shows "jump_word flag st (0xff000000 OR push_bit 8 (of_nat n)) AND 0x0001ff00 = push_bit 8 (of_nat n)"
proof -
  have "push_bit 8 (of_nat n :: u32) AND 0x0001ff00 = push_bit 8 (of_nat n AND 0x1ff)" by (simp add: push_bit_and)
  also have "(of_nat n :: u32) AND 0x1ff = of_nat n"
  proof -
    have "(of_nat n :: u32) < 2 ^ 9" using assms(2) by (simp add: word_less_nat_alt unat_of_nat)
    from take_bit_small [OF this] show ?thesis by (simp add: take_bit_eq_mask mask_eq_exp_minus_1)
  qed
  finally show ?thesis by (simp add: jump_word_and assms bit.conj_disj_distrib2)
qed

lemma and_ff: "(x :: u32) AND 0xff = x \<Longrightarrow> x AND 0x00ff00ff = x"
proof -
  assume x: "x AND 0xff = x"
  have "x AND 0x00ff00ff = (x AND 0xff) AND 0x00ff00ff" by (simp only: x)
  also have "\<dots> = x AND 0xff" by (simp only: and.assoc) simp
  finally show ?thesis by (simp only: x)
qed

lemma or_and: "x AND c = k \<Longrightarrow> y AND c = l \<Longrightarrow> (x OR y) AND c = k OR (l :: u32)"
  by (simp add: bit.conj_disj_distrib2)

lemma patched_jump:
  assumes "flag < 0x80" "n < 32"
  shows "(jump_word flag st (0xff000000 OR push_bit 8 (of_nat n)) AND 0x00ff00ff) OR t = jump_word flag st t"
proof -
  have "flag_bits flag st AND 0xff = flag_bits flag st"
    using take_bit_small [OF flag_bits_less [OF assms(1), of st]] by (simp add: take_bit_eq_mask mask_eq_exp_minus_1)
  then have f: "flag_bits flag st AND 0x00ff00ff = flag_bits flag st"
    by (rule and_ff)
  have n: "(of_nat n :: u32) < 2 ^ 5" using assms(2) by (simp add: word_less_nat_alt unat_of_nat)
  have "push_bit 8 (of_nat n :: u32) AND push_bit 8 0xff00 = push_bit 8 (of_nat n AND 0xff00)"
    by (simp only: push_bit_and)
  also have "\<dots> = 0" using small_and [OF n, of "0xff00"] by simp
  finally have l1: "push_bit 8 (of_nat n :: u32) AND 0x00ff0000 = 0" by simp
  have l2: "push_bit 8 (of_nat n :: u32) AND 0xff = 0"
    using take_bit_push_bit [of 8 8 "of_nat n :: u32"] by (simp add: take_bit_eq_mask mask_eq_exp_minus_1)
  have "(0x00ff00ff :: u32) = 0x00ff0000 OR 0xff" by simp
  then have l: "push_bit 8 (of_nat n :: u32) AND 0x00ff00ff = 0"
    by (simp only: bit.conj_disj_distrib l1 l2) simp
  have j: "jump_word flag st x = (0x00400000 OR x) OR flag_bits flag st" for x
    by (simp only: jump_word_def or.assoc)
  have "((0x00400000 :: u32) OR (0xff000000 OR push_bit 8 (of_nat n))) AND 0x00ff00ff = 0x00400000"
    by (simp only: bit.conj_disj_distrib2 l) simp
  then have "jump_word flag st (0xff000000 OR push_bit 8 (of_nat n)) AND 0x00ff00ff = 0x00400000 OR flag_bits flag st"
    unfolding j using f by (rule or_and)
  then show ?thesis by (simp only: j) (simp only: or.assoc or.commute [of t])
qed

subsection \<open>One pass is as good as two\<close>

lemma address_append:
  "address (as @ bs) n =
     (case address as n of Some k \<Rightarrow> Some k | None \<Rightarrow> map_option (\<lambda>k. asm_length as + k) (address bs n))"
  by (cases "address bs n"; induction as) (auto simp: asm_length_def split: option.split)

lemma address_None: "address as n = None \<longleftrightarrow> n \<notin> set (labels as)"
  by (induction as) (auto simp: labels_def split: asm.splits)

lemma address_le: "address as n = Some k \<Longrightarrow> k \<le> asm_length as"
  by (induction as arbitrary: k) (auto simp: asm_length_def split: if_splits)

lemma address_pos: "address as n = Some k \<Longrightarrow> as \<noteq> [] \<Longrightarrow> (\<And>m. hd as \<noteq> Label m) \<Longrightarrow> 0 < k"
proof (cases as)
  case (Cons a as')
  assume "address as n = Some k" "\<And>m. hd as \<noteq> Label m"
  with Cons show ?thesis by (cases a) auto
qed simp

lemma assemble_append [simp]: "assemble t (as @ bs) = assemble t as @ assemble t bs"
  by (induction as) (simp_all split: asm.split)

lemma assemble_cong:
  "(\<And>f st n. Jump f st n \<in> set as \<Longrightarrow> t n = t' n) \<Longrightarrow> assemble t as = assemble t' as"
proof (induction as)
  case (Cons a as)
  then have "assemble t as = assemble t' as" by (meson list.set_intros(2))
  moreover have "t n = t' n" if "a = Jump f st n" for f st n using that Cons.prems [of f st n] by simp
  ultimately show ?case by (cases a) simp_all
qed simp

lemma length_assemble: "length (assemble t as) = asm_length as"
  by (induction as) (simp_all add: asm_length_def split: asm.split)

text \<open>The label: what is patched is what was pending.\<close>

lemma patch_assemble:
  assumes "list_all asm_ok as" "n < 32" "address bs n = None" "asm_length bs \<le> 512"
  shows "map (cp_patch n addr) (assemble (so_far bs) as) =
    assemble ((so_far bs)(n := push_bit 8 addr)) as"
  using assms(1)
proof (induction as)
  case (Cons a as)
  then have IH: "map (cp_patch n addr) (assemble (so_far bs) as) = assemble ((so_far bs)(n := push_bit 8 addr)) as"
    and ok: "asm_ok a" by (simp_all del: fun_upd_apply)
  show ?case
  proof (cases a)
    case (Instr w)
    with ok have "cp_patch n addr w = w" by (simp add: cp_patch_def pending_def)
    with Instr IH show ?thesis by (simp del: fun_upd_apply)
  next
    case (Label l)
    with IH show ?thesis by (simp del: fun_upd_apply)
  next
    case (Jump f st m)
    with ok have f: "f < 0x80" "m < 32" by simp_all
    have "cp_patch n addr (jump_word f st (so_far bs m)) = jump_word f st (((so_far bs)(n := push_bit 8 addr)) m)"
    proof (cases "address bs m")
      case None
      have "push_bit 8 (of_nat m) = (push_bit 8 (of_nat n) :: u32) \<longleftrightarrow> m = n"
        using push_bit_inject [of m 8 n] f(2) assms(2) by simp
      with pending_jump [OF f, of st] pending_name [OF f, of st] patched_jump [OF f, of st]
      show ?thesis by (auto simp: cp_patch_def so_far_def None pending_def)
    next
      case (Some k)
      with assms(3) have "m \<noteq> n" by auto
      with resolved_not_pending [OF f(1), of k st] address_le [OF Some] assms(4) Some show ?thesis
        by (simp add: cp_patch_def so_far_def pending_def)
    qed
    with Jump IH show ?thesis by (simp del: fun_upd_apply)
  qed
qed simp

lemma for_each_snoc: "for_each f (xs @ [x]) s = Option.bind (for_each f xs s) (f x)"
  by (induction xs arbitrary: s) (auto split: Option.bind_split)

lemma program_ok_snoc:
  assumes "program_ok (bs @ [a])"
  shows "program_ok bs" "asm_ok a" "asm_length bs + asm_size a \<le> 512"
    "\<And>n. a = Label n \<Longrightarrow> n \<notin> set (labels bs) \<and> bs \<noteq> []"
  using assms by (auto simp: program_ok_def labels_def asm_length_def hd_append split: if_splits)

lemma so_far_snoc:
  "so_far (bs @ [Instr w]) = so_far bs"
  "so_far (bs @ [Jump f st m]) = so_far bs"
  "address bs n = None \<Longrightarrow> so_far (bs @ [Label n]) = (so_far bs)(n := push_bit 8 (of_nat (asm_length bs)))"
  by (auto simp: so_far_def address_append fun_eq_iff split: option.split)

definition label_table :: "asm list \<Rightarrow> nat \<Rightarrow> u32" where
  "label_table bs n = (case address bs n of Some k \<Rightarrow> of_nat k | None \<Rightarrow> 0)"

lemma label_table_snoc:
  "label_table (bs @ [Instr w]) = label_table bs"
  "label_table (bs @ [Jump f st m]) = label_table bs"
  "address bs n = None \<Longrightarrow> label_table (bs @ [Label n]) = (label_table bs)(n := of_nat (asm_length bs))"
  by (auto simp: label_table_def address_append fun_eq_iff split: option.split)

text \<open>The state of the assembler after part of a program.\<close>

definition assembled :: "nat \<Rightarrow> asm list \<Rightarrow> grctx \<Rightarrow> bool" where
  "assembled mx bs c \<longleftrightarrow> mode c = Prog \<and> ctxprog_max c = mx \<and> ctxprog c = assemble (so_far bs) bs \<and>
     ctxprog_label c = label_table bs"

lemma assembled_step:
  assumes "program_ok (bs @ [a])" "asm_length (bs @ [a]) \<le> mx" "assembled mx bs c"
  shows "\<exists>c'. asm_step a c = Some c' \<and> assembled mx (bs @ [a]) c'"
proof -
  note ok = program_ok_snoc [OF assms(1)] and c = assms(3)
  from assms(2) have mx: "asm_length bs + asm_size a \<le> mx" by (simp add: asm_length_def)
  from c have len: "length (ctxprog c) = asm_length bs" by (simp add: assembled_def length_assemble)
  show ?thesis
  proof (cases a)
    case (Instr w)
    with c len mx show ?thesis by (simp add: assembled_def cp_out_def so_far_snoc label_table_snoc)
  next
    case (Jump f st m)
    have "push_bit 8 (of_nat k :: u32) \<noteq> 0" if "address bs m = Some k" for k
    proof -
      from that have "bs \<noteq> []" by auto
      moreover from ok(1) \<open>bs \<noteq> []\<close> have "hd bs \<noteq> Label l" for l by (simp add: program_ok_def)
      ultimately have "0 < k" using address_pos that by blast
      moreover have "k \<le> 512" using address_le [OF that] ok(3) by simp
      ultimately show ?thesis using push_bit_inject [of k 8 0] by simp
    qed
    with c len mx Jump ok(2) show ?thesis
      by (auto simp: assembled_def cp_bra_def cp_out_def so_far_snoc label_table_snoc label_table_def so_far_def
        Let_def jump_word_def or.assoc split: option.split)
  next
    case (Label n)
    with ok(4) have n: "address bs n = None" by (simp add: address_None)
    with c len Label ok patch_assemble [of bs n bs "of_nat (asm_length bs)"] show ?thesis
      by (simp add: assembled_def cp_name_def so_far_snoc label_table_snoc ctxprog_len_def program_ok_def
        del: fun_upd_apply)
  qed
qed

lemma one_pass:
  assumes "program_ok bs" "asm_length bs \<le> mx"
  shows "\<exists>c. for_each asm_step bs (new_grctx Prog mx) = Some c \<and> assembled mx bs c"
  using assms
proof (induction bs rule: rev_induct)
  case Nil
  then show ?case by (simp add: assembled_def new_grctx_def label_table_def fun_eq_iff)
next
  case (snoc a bs)
  then obtain c where c: "for_each asm_step bs (new_grctx Prog mx) = Some c" "assembled mx bs c"
    using program_ok_snoc(1) [OF snoc.prems(1)] by (auto simp: asm_length_def)
  with assembled_step [OF snoc.prems c(2)] show ?case by (auto simp: for_each_snoc)
qed

lemma so_far_closed:
  assumes "closed_program as"
  shows "assemble (so_far as) as = assemble (two_pass as) as"
proof (rule assemble_cong)
  fix f st n
  assume "Jump f st n \<in> set as"
  with assms have "address as n \<noteq> None" by (auto simp: closed_program_def address_None)
  then show "so_far as n = two_pass as n" by (auto simp: so_far_def two_pass_def)
qed

text \<open>
  C22: the assembler of the driver, which has one pass and patches the jumps to labels that come
  later, makes the same program as the assembler with two passes.
\<close>

theorem one_pass_is_two_pass:
  assumes "program_ok as" "closed_program as" "asm_length as \<le> mx"
  shows "\<exists>c. for_each asm_step as (new_grctx Prog mx) = Some c \<and> ctxprog c = assemble (two_pass as) as"
proof -
  from one_pass [OF assms(1,3)] obtain c where
    c: "for_each asm_step as (new_grctx Prog mx) = Some c" "ctxprog c = assemble (so_far as) as"
    by (auto simp: assembled_def)
  with so_far_closed [OF assms(2)] show ?thesis by auto
qed

theorem one_pass_is_two_pass_witness:
  "\<exists>c. for_each asm_step [Jump 5 True 2, Label 1, Instr 0x600004, Jump 6 False 1, Label 2, Instr 0x60000c]
         (new_grctx Prog 512) = Some c \<and>
       ctxprog c = [0x00400305, 0x600004, 0x00400186, 0x60000c]"
  using one_pass_is_two_pass [of "[Jump 5 True 2, Label 1, Instr 0x600004, Jump 6 False 1, Label 2, Instr 0x60000c]" 512]
  by (simp add: program_ok_def closed_program_def asm_length_def labels_def pending_def two_pass_def jump_word_def)

end
