(* ===== verification/GrBounds.thy ===== *)
theory GrBounds
  imports GrAsm
begin

section \<open>How large a context is\<close>

text \<open>
  Bounds for the lists of \<open>GrData\<close>, chipset by chipset: the words of a list of values (\<open>gsum\<close>), those of
  a list of registers (\<open>csum\<close>) and the instructions that save and load them (\<open>cwords\<close>). And every
  register that gets an initial value lies in the range before it (\<open>defs_ok\<close>), whose index has 24 bits.
\<close>

subsection \<open>Values\<close>

definition gsum :: "(nat \<times> u32) list \<Rightarrow> nat" where
  "gsum gs = sum_list (map fst gs)"

lemma gsum_simps [simp]:
  "gsum [] = 0" "gsum (x # xs) = fst x + gsum xs" "gsum (xs @ ys) = gsum xs + gsum ys"
  by (simp_all add: gsum_def)

lemma gsum_if_unit: "gsum xs \<le> B \<Longrightarrow> gsum (if_unit u i xs) \<le> B"
  by (simp add: if_unit_def)

lemma gsum_concat: "(\<And>i. gsum (f i) \<le> B) \<Longrightarrow> gsum (concat (map f is)) \<le> length is * B"
  by (induction "is") (auto intro: add_mono)

lemma chip_cases:
  assumes "cs \<in> grctx_chips"
    "P 0x50" "P 0x84" "P 0x86" "P 0x92" "P 0x94" "P 0x96" "P 0x98" "P 0xa0" "P 0xa3" "P 0xa5" "P 0xa8"
    "P 0xaa" "P 0xac" "P 0xaf"
  shows "P cs"
  using assms unfolding grctx_chips_def by (elim insertE) simp_all

lemmas chip_families = IS_NVA3F_def IS_NVAAF_def

lemma gene_bounds:
  assumes "cs \<in> grctx_chips"
  shows "gsum (gene_dispatch cs) \<le> 901" "gsum (gene_m2mf cs) \<le> 2408" "gsum (gene_ccache cs) \<le> 2704"
    "gsum (gene_unk34xx cs) \<le> 64" "gsum (gene_unk14xx cs) \<le> 253" "gsum (gene_zcull cs) \<le> 104"
    "gsum (gene_clipid cs) \<le> 20" "gsum (gene_eng2d cs) \<le> 106" "gsum (gene_csched cs) \<le> 411"
    "gsum (gene_unk1cxx cs) \<le> 242" "gsum (gene_strmout cs) \<le> 85" "gsum (gene_ropm1 cs) \<le> 7"
    "gsum (gene_ropm2 cs) \<le> 20" "gsum (gene_ropc cs) \<le> 448"
  by (rule chip_cases [OF assms];
      simp add: gene_dispatch_def gene_m2mf_def gene_ccache_def gene_unk34xx_def gene_unk14xx_def gene_zcull_def
        gene_clipid_def gene_eng2d_def gene_csched_def gene_unk1cxx_def gene_strmout_def gene_ropm1_def
        gene_ropm2_def gene_ropc_def chip_families)+

lemma gene_loop_bounds:
  assumes "cs \<in> grctx_chips"
  shows "gsum (gene_unk10xx cs) \<le> 8277" "gsum (gene_unk24xx cs) \<le> 8306" "gsum (gene_vfetch cs) \<le> 6717"
  by (rule chip_cases [OF assms]; simp add: gene_unk10xx_def gene_unk24xx_def gene_vfetch_def chip_families upt_rec)+

lemma xfer_bounds:
  assumes "cs \<in> grctx_chips"
  shows "gsum (xfer_tp cs) \<le> 4640" "gsum (xfer_mpc cs) \<le> 1181" "gsum (mmio_ddata cs) \<le> 234"
  by (rule chip_cases [OF assms];
      simp add: xfer_tp_def xfer_unk84xx_def xfer_tprop_def xfer_tex_def xfer_unk8cxx_def xfer_mpc_def
        mmio_ddata_def chip_families upt_rec)+

text \<open>No strand is longer than \<open>2 ^ 15\<close> words.\<close>

lemma xfer1_bound:
  assumes "cs \<in> grctx_chips" "k \<in> set (xfer1_strands cs units)"
  shows "fst k < 8 \<and> gsum (snd k) \<le> 2 ^ 15"
proof -
  note b = gene_bounds [OF assms(1)] gene_loop_bounds [OF assms(1)] xfer_bounds [OF assms(1)]
  have rop: "gsum (concat (map (\<lambda>i. if_unit units (i + 16) (gene_ropc cs)) is)) \<le> length is * 448" for "is"
    by (rule gsum_concat) (rule gsum_if_unit [OF b(14)])
  have tp: "gsum (concat (map (\<lambda>i. if_unit units i (xfer_tp cs)) is)) \<le> length is * 4640" for "is"
    by (rule gsum_concat) (rule gsum_if_unit [OF b(18)])
  have "gsum (if_unit units i (xfer_tp cs)) \<le> 4640" for i by (rule gsum_if_unit [OF b(18)])
  from add_mono [OF this this]
  have two: "gsum (if_unit units i (xfer_tp cs)) + gsum (if_unit units j (xfer_tp cs)) \<le> 2 ^ 15" for i j
    by (rule order_trans) simp
  have "list_all (\<lambda>k. fst k < 8 \<and> gsum (snd k) \<le> 2 ^ 15) (xfer1_strands cs units)"
  proof (cases "cs < 0xa0")
    case True
    with b rop [of "[0..<6]"] two show ?thesis
      by (simp add: xfer1_strands_def list.pred_map comp_def list_all_iff del: upt_conv_Cons upt_Suc upt_rec_numeral)
  next
    case False
    with b rop [of "[0..<8]"] tp [of "[0..<4]"] tp [of "[4..<10]"] show ?thesis
      by (cases "cs = 0xa0") (simp_all add: xfer1_strands_def del: upt_conv_Cons upt_Suc upt_rec_numeral)
  qed
  with assms(2) show ?thesis by (simp add: list_all_iff)
qed

lemma xfer2_bound:
  assumes "cs \<in> grctx_chips" "k \<in> set (xfer2_strands cs units)"
  shows "fst k < 8 \<and> gsum (snd k) \<le> 2 ^ 15"
proof -
  have "gsum (if_unit units i (xfer_mpc cs)) \<le> 1181" for i by (rule gsum_if_unit [OF xfer_bounds(2) [OF assms(1)]])
  from this [of "fst k"] this [of 0] this [of 1] this [of 2] this [of 3] this [of 4] this [of 5] this [of 6]
    this [of 7] this [of 8] this [of 9] assms(2)
  show ?thesis by (auto simp: xfer2_strands_def Let_def split: if_splits)
qed

subsection \<open>Registers\<close>

primrec csum :: "mmio_op list \<Rightarrow> nat" where
  "csum [] = 0"
| "csum (x # xs) = (case x of Ctx reg len \<Rightarrow> unat len | Def reg val \<Rightarrow> 0) + csum xs"

primrec cwords :: "mmio_op list \<Rightarrow> nat" where
  "cwords [] = 0"
| "cwords (x # xs) = (case x of Ctx reg len \<Rightarrow> if len > 0xf then 2 else 1 | Def reg val \<Rightarrow> 0) + cwords xs"

primrec defs_ok :: "mmio_op list \<Rightarrow> u32 \<Rightarrow> u32 \<Rightarrow> bool" where
  "defs_ok [] first len = True"
| "defs_ok (x # xs) first len =
     (case x of
        Ctx reg n \<Rightarrow> drop_bit 2 (reg - 0x00400000) < 0x1000000 \<and> defs_ok xs (drop_bit 2 (reg - 0x00400000)) n
      | Def reg val \<Rightarrow> (reg - 0x00400000) div 4 - first < len \<and> defs_ok xs first len)"

definition mmio_bounds :: "mmio_op list \<Rightarrow> nat \<Rightarrow> nat \<Rightarrow> bool" where
  "mmio_bounds xs words instrs \<longleftrightarrow> (\<forall>first len. defs_ok xs first len) \<and> csum xs \<le> words \<and> cwords xs \<le> instrs"

lemma mmio_append [simp]:
  "csum (xs @ ys) = csum xs + csum ys" "cwords (xs @ ys) = cwords xs + cwords ys"
  by (induction xs) auto

lemma defs_ok_append: "defs_ok xs first len \<Longrightarrow> (\<And>first len. defs_ok ys first len) \<Longrightarrow> defs_ok (xs @ ys) first len"
  by (induction xs arbitrary: first len) (auto split: mmio_op.splits)

lemma mmio_bounds_append:
  "mmio_bounds xs w i \<Longrightarrow> mmio_bounds ys w' i' \<Longrightarrow> mmio_bounds (xs @ ys) (w + w') (i + i')"
  by (auto simp: mmio_bounds_def intro: defs_ok_append)

lemma mmio_bounds_mono: "mmio_bounds xs w n \<Longrightarrow> w \<le> w' \<Longrightarrow> n \<le> n' \<Longrightarrow> mmio_bounds xs w' n'"
  by (simp add: mmio_bounds_def)

lemma mmio_bounds_concat:
  "(\<And>i. i \<in> set is \<Longrightarrow> mmio_bounds (f i) w n) \<Longrightarrow> mmio_bounds (concat (map f is)) (length is * w) (length is * n)"
proof (induction "is")
  case Nil
  then show ?case by (simp add: mmio_bounds_def)
next
  case (Cons i "is")
  then show ?case using mmio_bounds_append [of "f i" w n "concat (map f is)"] by simp
qed

lemma mmio_bounds_if: "(b \<Longrightarrow> mmio_bounds xs w n) \<Longrightarrow> mmio_bounds (if b then xs else []) w n"
  by (simp add: mmio_bounds_def)

lemma mmio_flat_bounds:
  assumes "cs \<in> grctx_chips"
  shows "mmio_bounds (mmio_head cs) 74 7" "mmio_bounds (mmio_fixed cs) 104 24" "mmio_bounds (mmio_mid cs) 29 6"
  by (rule chip_cases [OF assms]; simp add: mmio_head_def mmio_fixed_def mmio_mid_def mmio_bounds_def chip_families)+

text \<open>
  A register that belongs to a unit is at a fixed distance from the address of the unit, which is
  divisible by 4: the distances are what counts.
\<close>

lemma reg_index:
  assumes "m < 2 ^ 20" "k < 2 ^ 24"
  shows "(k + 4 * of_nat m) div 4 = k div 4 + (of_nat m :: u32)"
    and "drop_bit 2 (k + 4 * of_nat m) = k div 4 + (of_nat m :: u32)"
proof -
  have m: "unat (of_nat m :: u32) = m" using assms(1) by (simp add: unat_of_nat)
  have k: "unat k < 2 ^ 24" using assms(2) by (simp add: word_less_nat_alt)
  have 4: "unat (4 * of_nat m :: u32) = 4 * m" using m assms(1) by (simp add: unat_word_ariths)
  have "unat (k + 4 * of_nat m) = unat k + 4 * m" using 4 k assms(1) by (simp add: unat_plus_if_no_overflow)
  moreover have "unat (k div 4 + of_nat m :: u32) = unat k div 4 + m"
    using m k assms(1) by (subst unat_plus_if_no_overflow) (simp_all add: unat_div)
  ultimately show *: "(k + 4 * of_nat m) div 4 = k div 4 + (of_nat m :: u32)"
    by (simp add: word_unat_eq_iff unat_div)
  show "drop_bit 2 (k + 4 * of_nat m) = k div 4 + (of_nat m :: u32)"
    unfolding * [symmetric] by (simp add: drop_bit_eq_div)
qed

lemma reg_index_0: "m < 2 ^ 20 \<Longrightarrow> drop_bit 2 (4 * of_nat m) = (of_nat m :: u32)"
  "m < 2 ^ 20 \<Longrightarrow> (4 * of_nat m) div 4 = (of_nat m :: u32)"
  using reg_index [of m 0] by simp_all

lemma index_less:
  assumes "m < 2 ^ 20"
  shows "k < 2 ^ 22 \<Longrightarrow> k + of_nat m < (16777216 :: u32)" "of_nat m < (16777216 :: u32)"
proof -
  have m: "unat (of_nat m :: u32) = m" using assms by (simp add: unat_of_nat)
  then show "of_nat m < (16777216 :: u32)" using assms by (simp add: word_less_nat_alt)
  assume "k < 2 ^ 22"
  then have "unat k < 2 ^ 22" by (simp add: word_less_nat_alt)
  with m assms show "k + of_nat m < (16777216 :: u32)"
    by (simp add: word_less_nat_alt unat_plus_if_no_overflow)
qed

lemma unit_address:
  assumes "i < 16" "2 \<le> n" "n \<le> 12"
  obtains m where "push_bit n (of_nat i :: u32) = 4 * of_nat m" "m < 2 ^ 16"
proof
  have "(2 :: u32) ^ n = 4 * 2 ^ (n - 2)" using le_Suc_ex [OF assms(2)] by (auto simp: power_add)
  then show "push_bit n (of_nat i :: u32) = 4 * of_nat (2 ^ (n - 2) * i)"
    by (simp add: push_bit_eq_mult ac_simps)
  have "(2 :: nat) ^ (n - 2) \<le> 2 ^ 10" using assms(3) by (intro power_increasing) simp_all
  then have "2 ^ (n - 2) * i \<le> 2 ^ 10 * 15" using assms(1) by (intro mult_le_mono) simp_all
  then show "2 ^ (n - 2) * i < 2 ^ 16" by simp
qed

lemma mmio_rop_bounds:
  assumes "cs \<in> grctx_chips" "i < 8"
  shows "mmio_bounds (mmio_rop cs i) 14 4"
proof -
  obtain m where m: "push_bit 8 (of_nat i :: u32) = 4 * of_nat m" "m < 2 ^ 16"
    by (rule unit_address [of i 8]) (use assms(2) in auto)
  show ?thesis
    by (rule chip_cases [OF assms(1)];
        use m(2) in \<open>simp add: mmio_rop_def mmio_bounds_def chip_families m(1) reg_index reg_index_0 index_less\<close>)
qed

text \<open>Where the registers of TP \<open>i\<close> start.\<close>

definition tp_base :: "int \<Rightarrow> nat \<Rightarrow> u32" where
  "tp_base cs i = (if cs < 0xa0 then 0x408000 + push_bit 12 (of_nat i) else 0x408000 + push_bit 11 (of_nat i))"

lemma tp_base:
  assumes "i < 10"
  obtains m where "tp_base cs i = 0x400000 + 4 * of_nat m" "m < 2 ^ 18"
proof (cases "cs < 0xa0")
  case True
  obtain m where m: "push_bit 12 (of_nat i :: u32) = 4 * of_nat m" "m < 2 ^ 16"
    by (rule unit_address [of i 12]) (use assms in auto)
  with True that [of "m + 0x2000"] show ?thesis by (simp add: tp_base_def)
next
  case False
  obtain m where m: "push_bit 11 (of_nat i :: u32) = 4 * of_nat m" "m < 2 ^ 16"
    by (rule unit_address [of i 11]) (use assms in auto)
  with False that [of "m + 0x2000"] show ?thesis by (simp add: tp_base_def)
qed

lemma mmio_mp_bounds:
  assumes "cs \<in> grctx_chips" "i < 10" "j < 4"
  shows "mmio_bounds (mmio_mp cs (tp_base cs i) j) 32 2"
proof -
  obtain m where m: "tp_base cs i = 0x400000 + 4 * of_nat m" "m < 2 ^ 18" using tp_base assms(2) by blast
  obtain k where k: "push_bit 7 (of_nat j :: u32) = 4 * of_nat k" "k < 2 ^ 16"
    by (rule unit_address [of j 7]) (use assms(3) in auto)
  have o: "tp_base cs i + c + push_bit 7 (of_nat j) = (0x400000 + c) + 4 * of_nat (m + k)" for c
    by (simp add: m k)
  show ?thesis
    unfolding mmio_mp_def o
    by (rule chip_cases [OF assms(1)];
        use m(2) k(2) in \<open>simp add: mmio_bounds_def chip_families reg_index reg_index_0 index_less Let_def del: of_nat_add\<close>)
qed

lemma mmio_tp_rest_bounds:
  assumes "cs \<in> grctx_chips" "i < 10"
  shows "mmio_bounds (mmio_tp_rest cs (tp_base cs i)) 48 15"
proof -
  obtain m where m: "tp_base cs i = 0x400000 + 4 * of_nat m" "m < 2 ^ 18" using tp_base assms(2) by blast
  show ?thesis
    unfolding m(1)
    by (rule chip_cases [OF assms(1)];
        use m(2) in \<open>simp add: mmio_tp_rest_def mmio_bounds_def chip_families reg_index reg_index_0 index_less Let_def\<close>)
qed

lemma mmio_tp_bounds:
  assumes "cs \<in> grctx_chips" "i < 10"
  shows "mmio_bounds (mmio_tp cs units i) 178 25"
proof -
  let ?o = "if cs < 0xa0 then tp_base cs i + 0xc00 else tp_base cs i + 0x80"
  let ?n = "if cs < 0xa0 then 2 else 4 :: nat"
  obtain m where m: "tp_base cs i = 0x400000 + 4 * of_nat m" "m < 2 ^ 18" using tp_base assms(2) by blast
  have a: "mmio_bounds [Ctx ?o 1, Def ?o 0x0000ff0a, Ctx (?o + 0x08) 1] 2 2"
    unfolding m(1) using m(2) by (simp add: mmio_bounds_def reg_index index_less)
  have "mmio_bounds (concat (map (\<lambda>j. if bit units (j + 24) then mmio_mp cs (tp_base cs i) j else []) [0..<?n]))
      (length [0..<?n] * 32) (length [0..<?n] * 2)"
    by (intro mmio_bounds_concat mmio_bounds_if mmio_mp_bounds assms) (auto split: if_splits)
  note mmio_bounds_append [OF a mmio_bounds_append [OF this mmio_tp_rest_bounds [OF assms]]]
  moreover have "mmio_tp cs units i = [Ctx ?o 1, Def ?o 0x0000ff0a, Ctx (?o + 0x08) 1] @
      concat (map (\<lambda>j. if bit units (j + 24) then mmio_mp cs (tp_base cs i) j else []) [0..<?n]) @
      mmio_tp_rest cs (tp_base cs i)"
    unfolding mmio_tp_def tp_base_def [symmetric] by (simp add: Let_def)
  ultimately show ?thesis by (auto intro: mmio_bounds_mono split: if_splits)
qed

lemma mmio_tail_bounds:
  assumes "cs \<in> grctx_chips"
  shows "mmio_bounds (mmio_tail cs units) 2025 312"
proof -
  have r: "mmio_bounds (concat (map (\<lambda>i. if bit units (i + 16) then mmio_rop cs i else []) [0..<8])) (length [0..<8] * 14) (length [0..<8] * 4)"
    by (intro mmio_bounds_concat mmio_bounds_if mmio_rop_bounds assms) simp
  have t: "mmio_bounds (concat (map (\<lambda>i. if bit units i then mmio_tp cs units i else []) [0..<10])) (length [0..<10] * 178) (length [0..<10] * 25)"
    by (intro mmio_bounds_concat mmio_bounds_if mmio_tp_bounds assms) simp
  show ?thesis
    using mmio_bounds_append [OF mmio_flat_bounds(2) [OF assms]
      mmio_bounds_append [OF r mmio_bounds_append [OF mmio_flat_bounds(3) [OF assms] t]]]
    by (simp add: mmio_tail_def)
qed

end
