(* ===== verification/GrLayout.thy ===== *)
theory GrLayout
  imports GrBounds
begin

section \<open>The layout of a context\<close>

text \<open>
  What a part of \<open>nv50_grctx_init\<close> does in either mode. It moves the position by a number of words
  that does not depend on the mode, it appends at most so many instructions when it makes the program,
  and when it makes the values it does nothing but a list of writes, each inside the words laid out
  so far (\<open>lays\<close>).
\<close>

subsection \<open>Parts that do not write\<close>

text \<open>The position, which the base never passes.\<close>

definition placed :: "nat \<Rightarrow> grctx \<Rightarrow> bool" where
  "placed p c \<longleftrightarrow> unat (ctxvals_pos c) = p \<and> unat (ctxvals_base c) \<le> p"

definition fits :: "nat \<Rightarrow> grctx \<Rightarrow> bool" where
  "fits n c \<longleftrightarrow> (mode c = Prog \<longrightarrow> length (ctxprog c) + n \<le> ctxprog_max c)"

definition extends :: "nat \<Rightarrow> grctx \<Rightarrow> grctx \<Rightarrow> bool" where
  "extends n c c' \<longleftrightarrow> mode c' = mode c \<and> ctxprog_max c' = ctxprog_max c \<and> ctxprog_label c' = ctxprog_label c \<and>
     (\<exists>ws. ctxprog c' = ctxprog c @ ws \<and> length ws \<le> n \<and> (\<forall>w \<in> set ws. \<not> pending w))"

definition gains :: "nat \<Rightarrow> nat \<Rightarrow> nat \<Rightarrow> (grctx \<Rightarrow> grctx option) \<Rightarrow> bool" where
  "gains n p p' f \<longleftrightarrow> (\<forall>c. placed p c \<and> fits n c \<longrightarrow> (\<exists>c'. f c = Some c' \<and> extends n c c' \<and> placed p' c'))"

lemma extends_refl: "extends 0 c c"
  by (simp add: extends_def)

lemma extends_trans: "extends m c c1 \<Longrightarrow> extends n c1 c2 \<Longrightarrow> extends (m + n) c c2"
  by (auto simp: extends_def)

lemma extends_mono: "extends m c c1 \<Longrightarrow> m \<le> n \<Longrightarrow> extends n c c1"
  by (auto simp: extends_def)

lemma extends_mode: "extends m c c1 \<Longrightarrow> mode c1 = mode c"
  by (simp add: extends_def)

lemma fits_rest: "fits (m + n) c \<Longrightarrow> extends m c c1 \<Longrightarrow> fits n c1"
  by (auto simp: fits_def extends_def)

lemma fits_less: "fits n c \<Longrightarrow> m \<le> n \<Longrightarrow> fits m c"
  by (auto simp: fits_def)

lemma gains_bind: "gains m p p1 f \<Longrightarrow> gains n p1 p2 g \<Longrightarrow> gains (m + n) p p2 (\<lambda>c. f c \<bind> g)"
  unfolding gains_def by (metis bind.bind_lunit extends_trans fits_less fits_rest le_add1)

lemma not_pending:
  assumes "w < 2 ^ 24"
  shows "\<not> pending w"
proof
  assume "pending w"
  then have "(w AND 0xfff00000) AND 0xff000000 = 0xff000000" by (simp add: pending_def)
  then have "w AND 0xff000000 = 0xff000000" by (simp only: and.assoc) simp
  then show False using small_and [OF assms, of "0xff000000"] by simp
qed

lemma cp_out_gains: "\<not> pending w \<Longrightarrow> gains 1 p p (cp_out w)"
  unfolding gains_def
proof (intro allI impI)
  fix c
  assume w: "\<not> pending w" and c: "placed p c \<and> fits 1 c"
  show "\<exists>c'. cp_out w c = Some c' \<and> extends 1 c c' \<and> placed p c'"
  proof (cases "mode c")
    case Prog
    with c w show ?thesis by (auto simp: cp_out_def extends_def placed_def fits_def)
  next
    case Vals
    with c show ?thesis by (auto simp: cp_out_def extends_def)
  qed
qed

lemma cp_out_small: "w < 2 ^ 24 \<Longrightarrow> gains 1 p p (cp_out w)"
  by (intro cp_out_gains not_pending)

lemma cp_lsr_gains: "x < 2 ^ 24 \<Longrightarrow> gains 1 p p (cp_lsr x)"
  unfolding cp_lsr_def by (intro cp_out_small or_small) simp_all

lemma gains_two: "gains 1 p p f \<Longrightarrow> gains 1 p p g \<Longrightarrow> gains 2 p p (\<lambda>c. f c \<bind> g)"
  using gains_bind [of 1 p p f 1 p g] by (simp only: one_add_one)

lemma gains_mono: "gains m p p' f \<Longrightarrow> m \<le> n \<Longrightarrow> gains n p p' f"
  unfolding gains_def using extends_mono fits_less by blast

lemma gains_at:
  assumes "gains n p p' f" "placed p c'" "fits n c'" "extends 0 c c'"
  shows "\<exists>c''. f c' = Some c'' \<and> extends n c c'' \<and> placed p' c''"
  using assms extends_trans [of 0 c c' n] unfolding gains_def by auto

lemma small_u32: "unat (x :: u32) < 2 ^ 24 \<Longrightarrow> x < 2 ^ 24"
  by (simp add: word_less_nat_alt)

lemma cp_pos_gains:
  assumes "x < 2 ^ 24"
  shows "gains 2 p (unat x) (cp_pos x)"
proof -
  have g: "gains 2 (unat x) (unat x) (\<lambda>c. cp_lsr x c \<bind> cp_out 0x00600006)"
    by (intro gains_two cp_lsr_gains [OF assms] cp_out_small) simp
  show ?thesis
    unfolding gains_def cp_pos_def Let_def
  proof (intro allI impI)
    fix c
    assume "placed p c \<and> fits 2 c"
    then show "\<exists>c'. cp_lsr x (c\<lparr>ctxvals_pos := x, ctxvals_base := x\<rparr>) \<bind> cp_out 0x00600006 = Some c' \<and>
        extends 2 c c' \<and> placed (unat x) c'"
      by (intro gains_at [OF g]) (auto simp: placed_def fits_def extends_def)
  qed
qed

text \<open>A range of registers: the base is where its words begin.\<close>

definition ctx_words :: "u32 \<Rightarrow> nat" where
  "ctx_words len = (if len > 0xf then 2 else 1)"

lemma cp_ctx_runs:
  assumes "placed p c" "fits (ctx_words len) c" "drop_bit 2 (reg - 0x00400000) < 0x1000000"
    "p + unat len < 2 ^ 24"
  shows "\<exists>c'. cp_ctx reg len c = Some c' \<and> extends (ctx_words len) c c' \<and> placed (p + unat len) c' \<and>
    ctxprog_reg c' = drop_bit 2 (reg - 0x00400000) \<and> unat (ctxvals_base c') = p"
proof -
  let ?r = "drop_bit 2 (reg - 0x00400000)"
  let ?c = "c\<lparr>ctxprog_reg := ?r, ctxvals_base := ctxvals_pos c, ctxvals_pos := ctxvals_pos c + len\<rparr>"
  have r: "?r < 2 ^ 24" using assms(3) by simp
  have pos: "unat (ctxvals_pos c + len) = p + unat len"
    using assms(1,4) by (subst unat_plus_if_no_overflow) (auto simp: placed_def)
  have keep: "ctxprog_reg c' = ctxprog_reg c \<and> ctxvals_base c' = ctxvals_base c" if "cp_out w c = Some c'" for w c c'
    using that by (auto simp: cp_out_def split: if_splits)
  have c: "placed (p + unat len) ?c" "fits (ctx_words len) ?c" "extends 0 c ?c"
    using assms(1,2) by (auto simp: placed_def pos fits_def extends_def)
  show ?thesis
  proof (cases "len > 0xf")
    case True
    have "gains 2 (p + unat len) (p + unat len) (\<lambda>c'. cp_lsr len c' \<bind> cp_out (0x00100000 OR ?r))"
      using assms(4) r by (intro gains_two cp_lsr_gains cp_out_small or_small) (simp_all add: word_less_nat_alt)
    from gains_at [OF this c(1) _ c(3)] c(2) True obtain c' where
      "cp_lsr len ?c \<bind> cp_out (0x00100000 OR ?r) = Some c'" "extends 2 c c'" "placed (p + unat len) c'"
      by (auto simp: ctx_words_def)
    moreover from this(1) have "ctxprog_reg c' = ?r" "ctxvals_base c' = ctxvals_pos c" "cp_ctx reg len c = Some c'"
      using True keep by (auto simp: cp_lsr_def cp_ctx_def Let_def keep split: Option.bind_splits)
    ultimately show ?thesis using True assms(1) by (auto simp: ctx_words_def placed_def)
  next
    case False
    then have "unat len < 16" by (simp add: word_less_nat_alt)
    then have "push_bit 16 len < 2 ^ 20" using push_bit_small [of "unat len" 4 16] by simp
    then have "push_bit 16 len < 2 ^ 24" by (rule order_less_trans) simp
    with r have "0x00100000 OR push_bit 16 len OR ?r < 2 ^ 24" by (intro or_small) simp_all
    from gains_at [OF cp_out_small [OF this] c(1) _ c(3)] c(2) False obtain c' where
      "cp_out (0x00100000 OR push_bit 16 len OR ?r) ?c = Some c'" "extends 1 c c'" "placed (p + unat len) c'"
      by (auto simp: ctx_words_def)
    moreover from this(1) have "ctxprog_reg c' = ?r" "ctxvals_base c' = ctxvals_pos c" "cp_ctx reg len c = Some c'"
      using False keep by (auto simp: cp_ctx_def Let_def keep)
    ultimately show ?thesis using False assms(1) by (auto simp: ctx_words_def placed_def)
  qed
qed

subsection \<open>Parts that write\<close>

text \<open>What is done in a part: reading which units there are, and writing a word of the context.\<close>

type_synonym act = "(u32 \<times> u32) option"

definition play1 :: "card \<Rightarrow> writer \<Rightarrow> act \<Rightarrow> kern \<Rightarrow> kern option" where
  "play1 d put e s =
     (case e of
        None \<Rightarrow> do { (_, s) \<leftarrow> nv_rd32 d 0x1540 s; Some s }
      | Some (a, v) \<Rightarrow> put a v s)"

definition play :: "card \<Rightarrow> writer \<Rightarrow> act list \<Rightarrow> kern \<Rightarrow> kern option" where
  "play d put = for_each (play1 d put)"

text \<open>Every write is of a whole word below word \<open>B\<close>.\<close>

definition inside :: "nat \<Rightarrow> act list \<Rightarrow> bool" where
  "inside B es \<longleftrightarrow> (\<forall>a v. Some (a, v) \<in> set es \<longrightarrow> 4 dvd unat a \<and> unat a < 4 * B)"

definition does :: "card \<Rightarrow> act list \<Rightarrow> (writer \<Rightarrow> grctx \<times> kern \<Rightarrow> (grctx \<times> kern) option) \<Rightarrow> grctx \<Rightarrow> grctx \<Rightarrow> bool" where
  "does d es F c c' \<longleftrightarrow> (\<forall>put s. F put (c, s) = play d put es s \<bind> (\<lambda>s. Some (c', s)))"

definition allowed :: "grctx \<Rightarrow> nat \<Rightarrow> act list \<Rightarrow> bool" where
  "allowed c B es \<longleftrightarrow> inside (if mode c = Vals then B else 0) es"

definition lays :: "card \<Rightarrow> nat \<Rightarrow> nat \<Rightarrow> nat \<Rightarrow> (writer \<Rightarrow> grctx \<times> kern \<Rightarrow> (grctx \<times> kern) option) \<Rightarrow> bool" where
  "lays d n p p' F \<longleftrightarrow> (\<forall>c. placed p c \<and> fits n c \<longrightarrow>
     (\<exists>c' es. extends n c c' \<and> placed p' c' \<and> allowed c p' es \<and> does d es F c c'))"

lemma play_Nil [simp]: "play d put [] s = Some s"
  by (simp add: play_def)

lemma play_append [simp]: "play d put (es @ es') s = play d put es s \<bind> play d put es'"
  unfolding play_def by (induction es arbitrary: s) (auto split: Option.bind_split)

lemma inside_simps [simp]:
  "inside B []" "inside B (None # es) \<longleftrightarrow> inside B es"
  "inside B (Some (a, v) # es) \<longleftrightarrow> 4 dvd unat a \<and> unat a < 4 * B \<and> inside B es"
  "inside B (es @ es') \<longleftrightarrow> inside B es \<and> inside B es'"
  by (auto simp: inside_def)

lemma inside_mono: "inside B es \<Longrightarrow> B \<le> B' \<Longrightarrow> inside B' es"
  by (fastforce simp: inside_def)

lemma allowed_mono: "allowed c B es \<Longrightarrow> B \<le> B' \<Longrightarrow> mode c' = mode c \<Longrightarrow> allowed c' B' es"
  by (auto simp: allowed_def elim: inside_mono)

lemma allowed_append: "allowed c B (es @ es') \<longleftrightarrow> allowed c B es \<and> allowed c B es'"
  by (simp add: allowed_def)

lemma does_bind: "does d es F c c1 \<Longrightarrow> does d es' G c1 c2 \<Longrightarrow> does d (es @ es') (\<lambda>put cs. F put cs \<bind> G put) c c2"
  by (simp add: does_def bind_assoc)

lemma does_pure: "f c = Some c' \<Longrightarrow> does d [] (\<lambda>put (c, s). f c \<bind> (\<lambda>c. Some (c, s))) c c'"
  by (simp add: does_def)

lemma lays_bind:
  assumes "lays d m p p1 F" "lays d n p1 p2 G" "p1 \<le> p2"
  shows "lays d (m + n) p p2 (\<lambda>put cs. F put cs \<bind> G put)"
  unfolding lays_def
proof (intro allI impI)
  fix c
  assume c: "placed p c \<and> fits (m + n) c"
  then obtain c1 es where 1: "extends m c c1" "placed p1 c1" "allowed c p1 es" "does d es F c c1"
    using assms(1) fits_less [of "m + n" c m] unfolding lays_def by auto
  with c obtain c2 es' where 2: "extends n c1 c2" "placed p2 c2" "allowed c1 p2 es'" "does d es' G c1 c2"
    using assms(2) fits_rest [of m n c c1] unfolding lays_def by blast
  have "allowed c p2 (es @ es')"
    using allowed_mono [OF 1(3) assms(3) refl] allowed_mono [OF 2(3) order_refl extends_mode [OF 1(1), symmetric]]
    by (simp add: allowed_append)
  with 1 2 does_bind [OF 1(4) 2(4)] extends_trans [OF 1(1) 2(1)] show
    "\<exists>c' es. extends (m + n) c c' \<and> placed p2 c' \<and> allowed c p2 es \<and> does d es (\<lambda>put cs. F put cs \<bind> G put) c c'"
    by blast
qed

lemma lays_gains:
  assumes "gains n p p' f"
  shows "lays d n p p' (\<lambda>put (c, s). f c \<bind> (\<lambda>c. Some (c, s)))"
  unfolding lays_def
proof (intro allI impI)
  fix c
  assume "placed p c \<and> fits n c"
  with assms obtain c' where c': "f c = Some c'" "extends n c c'" "placed p' c'" unfolding gains_def by blast
  moreover have "allowed c p' []" by (simp add: allowed_def)
  ultimately show "\<exists>c' es. extends n c c' \<and> placed p' c' \<and> allowed c p' es \<and>
      does d es (\<lambda>put (c, s). f c \<bind> (\<lambda>c. Some (c, s))) c c'"
    using does_pure by blast
qed

lemma lays_mono: "lays d m p p' F \<Longrightarrow> m \<le> n \<Longrightarrow> lays d n p p' F"
  unfolding lays_def using extends_mono fits_less by metis

text \<open>The register of the units that are there reads the same all the time.\<close>

definition units_are :: "card \<Rightarrow> u32 \<Rightarrow> bool" where
  "units_are d u \<longleftrightarrow> (\<forall>qs. snd (answer d qs (Rd32 0x1540)) = u)"

lemma read_units:
  assumes "units_are d u"
  shows "nv_rd32 d 0x1540 s \<bind> (\<lambda>(v, s). f v s) = play1 d put None s \<bind> f u"
  using assms by (cases "answer d (log s) (Rd32 0x1540)")
    (simp add: units_are_def play1_def nv_rd32_def request_def split: prod.split; metis snd_conv)

subsection \<open>Registers\<close>

lemma cwords_ctx: "cwords (Ctx reg len # xs) = ctx_words len + cwords xs"
  by (simp add: ctx_words_def)

lemma word_index:
  assumes "i - r < len" "unat b + unat len \<le> p" "p < 2 ^ 24"
  shows "4 dvd unat ((i - r + b) * 4 :: u32)" "unat ((i - r + b) * 4) < 4 * p"
proof -
  have "unat (i - r) < unat len" using assms(1) by (simp add: word_less_nat_alt)
  with assms(2,3) have s: "unat (i - r + b) = unat (i - r) + unat b" by (subst unat_plus_if_no_overflow) auto
  have times: "unat (x * 4) = unat x * 4" if "unat x < 2 ^ 24" for x :: u32
    using that by (simp add: unat_word_ariths)
  have "unat (i - r + b) < 2 ^ 24" using s \<open>unat (i - r) < unat len\<close> assms(2,3) by linarith
  from times [OF this] have "unat ((i - r + b) * 4) = (unat (i - r) + unat b) * 4" by (simp only: s)
  with \<open>unat (i - r) < unat len\<close> assms(2) show "4 dvd unat ((i - r + b) * 4)" "unat ((i - r + b) * 4) < 4 * p"
    by simp_all
qed

lemma mmio_runs:
  assumes "defs_ok xs (ctxprog_reg c) len" "unat (ctxvals_base c) + unat len \<le> p" "placed p c"
    "fits (cwords xs) c" "p + csum xs < 2 ^ 24"
  shows "\<exists>c' es. extends (cwords xs) c c' \<and> placed (p + csum xs) c' \<and> allowed c (p + csum xs) es \<and>
    does d es (\<lambda>put. for_each (mmio_step put) xs) c c'"
  using assms
proof (induction xs arbitrary: c len p)
  case Nil
  then show ?case by (intro exI [of _ c] exI [of _ "[]"]) (simp add: extends_refl allowed_def does_def)
next
  case (Cons x xs)
  show ?case
  proof (cases x)
    case (Ctx reg n)
    let ?w = "ctx_words n"
    from Cons.prems Ctx have f: "fits (?w + cwords xs) c" using cwords_ctx by metis
    obtain c1 where c1: "cp_ctx reg n c = Some c1" "extends ?w c c1" "placed (p + unat n) c1"
      "ctxprog_reg c1 = drop_bit 2 (reg - 0x00400000)" "unat (ctxvals_base c1) = p"
      using cp_ctx_runs [OF Cons.prems(3) fits_less [OF f], of n reg] Cons.prems(1,5) Ctx by auto
    obtain c' es where c': "extends (cwords xs) c1 c'" "placed (p + unat n + csum xs) c'"
      "allowed c1 (p + unat n + csum xs) es" "does d es (\<lambda>put. for_each (mmio_step put) xs) c1 c'"
      using Cons.IH [of c1 n "p + unat n"] c1 Cons.prems(1,5) Ctx fits_rest [OF f c1(2)] by (auto simp: add.assoc)
    moreover have "does d es (\<lambda>put. for_each (mmio_step put) (x # xs)) c c'"
      using c'(4) c1(1) by (simp add: does_def Ctx)
    moreover have "extends (cwords (x # xs)) c c'"
      unfolding Ctx cwords_ctx using c1(2) c'(1) by (rule extends_trans)
    moreover have "allowed c (p + csum (x # xs)) es"
      using allowed_mono [OF c'(3) order_refl extends_mode [OF c1(2), symmetric]] by (simp add: Ctx add.assoc)
    moreover have "p + csum (x # xs) = p + unat n + csum xs" by (simp add: Ctx add.assoc)
    ultimately show ?thesis by metis
  next
    case (Def reg val)
    let ?a = "((reg - 0x00400000) div 4 - ctxprog_reg c + ctxvals_base c) * 4"
    have a: "4 dvd unat ?a" "unat ?a < 4 * p"
      using word_index [of "(reg - 0x00400000) div 4" "ctxprog_reg c" len "ctxvals_base c" p] Cons.prems Def by auto
    obtain c' es where c': "extends (cwords xs) c c'" "placed (p + csum xs) c'"
      "allowed c (p + csum xs) es" "does d es (\<lambda>put. for_each (mmio_step put) xs) c c'"
      using Cons.IH [of c len p] Cons.prems Def by auto
    let ?es = "(if mode c = Vals then [Some (?a, val)] else []) @ es"
    have "does d ?es (\<lambda>put. for_each (mmio_step put) (x # xs)) c c'"
      using c'(4) by (simp add: does_def Def gr_def_def play1_def play_def)
    moreover have "allowed c (p + csum xs) ?es" using c'(3) a by (auto simp: allowed_def)
    ultimately show ?thesis using c'(1,2) by (intro exI [of _ c'] exI [of _ ?es]) (simp add: Def del: for_each.simps)
  qed
qed

lemma lays_mmio:
  assumes "mmio_bounds xs w n" "p + csum xs < 2 ^ 24"
  shows "lays d n p (p + csum xs) (\<lambda>put. for_each (mmio_step put) xs)"
  unfolding lays_def
proof (intro allI impI)
  fix c
  assume c: "placed p c \<and> fits n c"
  from assms(1) have xs: "defs_ok xs (ctxprog_reg c) 0" "cwords xs \<le> n" by (simp_all add: mmio_bounds_def)
  from c have "unat (ctxvals_base c) + unat (0 :: u32) \<le> p" by (simp add: placed_def)
  from mmio_runs [OF xs(1) this _ _ assms(2)] c xs(2) show
    "\<exists>c' es. extends n c c' \<and> placed (p + csum xs) c' \<and> allowed c (p + csum xs) es \<and>
       does d es (\<lambda>put. for_each (mmio_step put) xs) c c'"
    using fits_less extends_mono by blast
qed

lemma lays_read:
  assumes "units_are d u" "lays d n p p' (\<lambda>put. F put u)"
  shows "lays d n p p' (\<lambda>put cs. nv_rd32 d 0x1540 (snd cs) \<bind> (\<lambda>(v, s). F put v (fst cs, s)))"
  unfolding lays_def
proof (intro allI impI)
  fix c
  assume "placed p c \<and> fits n c"
  with assms(2) obtain c' es where c': "extends n c c'" "placed p' c'" "allowed c p' es"
    "does d es (\<lambda>put. F put u) c c'" unfolding lays_def by blast
  have "does d (None # es) (\<lambda>put cs. nv_rd32 d 0x1540 (snd cs) \<bind> (\<lambda>(v, s). F put v (fst cs, s))) c c'"
    using c'(4) read_units [OF assms(1), of _ "\<lambda>v s. F _ v (c, s)"]
    by (simp add: does_def play_def bind_assoc)
  moreover have "allowed c p' (None # es)" using c'(3) by (simp add: allowed_def)
  ultimately show "\<exists>c' es. extends n c c' \<and> placed p' c' \<and> allowed c p' es \<and>
      does d es (\<lambda>put cs. nv_rd32 d 0x1540 (snd cs) \<bind> (\<lambda>(v, s). F put v (fst cs, s))) c c'"
    using c' by blast
qed

subsection \<open>Values\<close>

lemma emit_address:
  assumes "unat (pos :: u32) + k * i < 2 ^ 24" "unat st = k"
  shows "unat (4 * (pos + of_nat i * st)) = 4 * (unat pos + k * i)"
proof -
  have "pos + of_nat i * st = of_nat (unat pos + k * i)"
    unfolding assms(2) [symmetric] by (simp add: ac_simps)
  also have "4 * of_nat (unat pos + k * i) = (of_nat (4 * (unat pos + k * i)) :: u32)" by simp
  finally show ?thesis using assms(1) by (simp only: unat_of_nat) simp
qed

lemma emit_runs:
  assumes "unat (ctxvals_pos c) = p" "p + k * gsum xs < 2 ^ 24" "unat st = k" "\<And>j. j < gsum xs \<Longrightarrow> p + k * j < B"
  shows "\<exists>pos es. unat pos = p + k * gsum xs \<and> allowed c B es \<and>
    does d es (\<lambda>put. for_each (emit st put) xs) c (c\<lparr>ctxvals_pos := pos\<rparr>)"
  using assms(1,2,4)
proof (induction xs arbitrary: c p)
  case Nil
  then show ?case by (intro exI [of _ "ctxvals_pos c"] exI [of _ "[]"]) (simp add: allowed_def does_def)
next
  case (Cons nv xs)
  obtain n v where nv: "nv = (n, v)" by (cases nv)
  let ?pos = "ctxvals_pos c + of_nat n * st"
  let ?w = "map (\<lambda>i. Some (4 * (ctxvals_pos c + of_nat i * st), v)) [0..<n]"
  have bound: "p + k * n + k * gsum xs < 2 ^ 24" using Cons.prems(2) by (simp add: nv distrib_left)
  have "?pos = of_nat (p + k * n)" 
    unfolding Cons.prems(1) [symmetric] assms(3) [symmetric] by (simp add: ac_simps)
  then have pos: "unat ?pos = p + k * n" using bound by (simp add: unat_of_nat del: of_nat_add of_nat_mult)
  have "p + k * n + k * j < B" if "j < gsum xs" for j
    using Cons.prems(3) [of "n + j"] that by (simp add: nv distrib_left)
  with Cons.IH [of "c\<lparr>ctxvals_pos := ?pos\<rparr>" "p + k * n"] pos bound obtain pos' es where
    1: "unat pos' = p + k * n + k * gsum xs" "allowed (c\<lparr>ctxvals_pos := ?pos\<rparr>) B es"
    "does d es (\<lambda>put. for_each (emit st put) xs) (c\<lparr>ctxvals_pos := ?pos\<rparr>) (c\<lparr>ctxvals_pos := pos'\<rparr>)" by auto
  have step: "4 dvd unat (4 * (ctxvals_pos c + of_nat i * st)) \<and> unat (4 * (ctxvals_pos c + of_nat i * st)) < 4 * B"
    if "i < n" for i
  proof -
    have "k * i \<le> k * n" using that by simp
    with bound have "unat (ctxvals_pos c) + k * i < 2 ^ 24" unfolding Cons.prems(1) by linarith
    from emit_address [OF this assms(3)] Cons.prems(1) Cons.prems(3) [of i] that show ?thesis by (auto simp: nv)
  qed
  have writes: "for_each (\<lambda>i. put (a i) v) is s = play d put (map (\<lambda>i. Some (a i, v)) is) s"
    for put s a and "is" :: "nat list"
    unfolding play_def by (induction "is" arbitrary: s) (simp_all add: play1_def)
  let ?es = "(if v \<noteq> 0 \<and> mode c = Vals then ?w else []) @ es"
  have "does d ?es (\<lambda>put. for_each (emit st put) (nv # xs)) c (c\<lparr>ctxvals_pos := pos'\<rparr>)"
    using 1(3) by (auto simp: does_def nv emit_def writes [symmetric] bind_assoc)
  moreover have "allowed c B ?es" using 1(2) step by (auto simp: allowed_def inside_def)
  moreover have "unat pos' = p + k * gsum (nv # xs)" using 1(1) by (simp add: nv distrib_left)
  ultimately show ?case by blast
qed

lemma ctx_words_le: "ctx_words len \<le> 2"
  by (simp add: ctx_words_def)

lemma lays_ddata:
  assumes "p + gsum (mmio_ddata (chipset d)) < 2 ^ 24"
  shows "lays d 2 p (p + gsum (mmio_ddata (chipset d))) (construct_mmio_ddata d)"
  unfolding lays_def
proof (intro allI impI)
  fix c
  let ?xs = "mmio_ddata (chipset d)"
  let ?reg = "if IS_NVA3F (chipset d) then 0x404800 else 0x405400 :: u32"
  assume c: "placed p c \<and> fits 2 c"
  then have p: "unat (ctxvals_pos c) = p" by (simp add: placed_def)
  have "\<exists>pos es. unat pos = p + 1 * gsum ?xs \<and> allowed c (p + gsum ?xs) es \<and>
      does d es (\<lambda>put. for_each (dd_emit put) ?xs) c (c\<lparr>ctxvals_pos := pos\<rparr>)"
    using p assms by (intro emit_runs) simp_all
  then obtain pos es where 1: "unat pos = p + gsum ?xs" "allowed c (p + gsum ?xs) es"
    "does d es (\<lambda>put. for_each (dd_emit put) ?xs) c (c\<lparr>ctxvals_pos := pos\<rparr>)" by auto
  let ?n = "pos - ctxvals_pos c"
  have n: "unat ?n = gsum ?xs" using 1(1) p by (subst unat_sub) (simp_all add: word_le_nat_alt)
  have "drop_bit 2 (?reg - 0x00400000) < (0x1000000 :: u32)" by simp
  with cp_ctx_runs [of p c ?n ?reg] c assms n fits_less [of 2 c "ctx_words ?n"] ctx_words_le [of ?n] obtain c' where
    c': "cp_ctx ?reg ?n c = Some c'" "extends (ctx_words ?n) c c'" "placed (p + gsum ?xs) c'" by auto
  have "c\<lparr>ctxvals_pos := ctxvals_pos c\<rparr> = c" by simp
  with c'(1) 1(3) have "does d es (construct_mmio_ddata d) c c'"
    by (simp add: does_def construct_mmio_ddata_def Let_def bind_assoc)
  with c'(2,3) 1(2) show "\<exists>c' es. extends 2 c c' \<and> placed (p + gsum ?xs) c' \<and> allowed c (p + gsum ?xs) es \<and>
      does d es (construct_mmio_ddata d) c c'"
    using extends_mono [OF c'(2) ctx_words_le] by blast
qed

definition mmio_words :: "int \<Rightarrow> u32 \<Rightarrow> nat" where
  "mmio_words cs units = csum (mmio_head cs) + gsum (mmio_ddata cs) + csum (mmio_tail cs units)"

lemma mmio_words_le:
  assumes "cs \<in> grctx_chips"
  shows "mmio_words cs units \<le> 2333"
  using mmio_flat_bounds(1) [OF assms] mmio_tail_bounds [OF assms, of units] xfer_bounds(3) [OF assms]
  by (simp add: mmio_words_def mmio_bounds_def)

lemma lays_construct_mmio:
  assumes "chipset d \<in> grctx_chips" "units_are d u" "p + mmio_words (chipset d) u < 2 ^ 24"
  shows "lays d 321 p (p + mmio_words (chipset d) u) (construct_mmio d)"
proof -
  let ?h = "csum (mmio_head (chipset d))" and ?dd = "gsum (mmio_ddata (chipset d))"
  let ?t = "csum (mmio_tail (chipset d) u)"
  have h: "lays d 7 p (p + ?h) (\<lambda>put. for_each (mmio_step put) (mmio_head (chipset d)))"
    using assms(3) by (intro lays_mmio [OF mmio_flat_bounds(1) [OF assms(1)]]) (simp add: mmio_words_def)
  have dd: "lays d 2 (p + ?h) (p + ?h + ?dd) (construct_mmio_ddata d)"
    using assms(3) by (intro lays_ddata) (simp add: mmio_words_def)
  have t: "lays d 312 (p + ?h + ?dd) (p + ?h + ?dd + ?t) (\<lambda>put. for_each (mmio_step put) (mmio_tail (chipset d) u))"
    using assms(3) by (intro lays_mmio [OF mmio_tail_bounds [OF assms(1)]]) (simp add: mmio_words_def)
  have "lays d (7 + (2 + 312)) p (p + ?h + ?dd + ?t) (\<lambda>put cs. for_each (mmio_step put) (mmio_head (chipset d)) cs \<bind>
      (\<lambda>cs. construct_mmio_ddata d put cs \<bind> for_each (mmio_step put) (mmio_tail (chipset d) u)))"
    by (intro lays_bind [OF h] lays_bind [OF dd t]) simp_all
  from lays_read [OF assms(2), where F = "\<lambda>put u cs. for_each (mmio_step put) (mmio_head (chipset d)) cs \<bind>
      (\<lambda>cs. construct_mmio_ddata d put cs \<bind> for_each (mmio_step put) (mmio_tail (chipset d) u))", OF this] show ?thesis
    by (simp add: construct_mmio_def [abs_def] mmio_words_def add.assoc)
qed

subsection \<open>The areas of strands\<close>

fun longest :: "(nat \<times> (nat \<times> u32) list) list \<Rightarrow> nat \<Rightarrow> nat" where
  "longest [] n = n"
| "longest (k # ks) n = longest ks (max n (gsum (snd k)))"

lemma longest_ge: "n \<le> longest ks n"
  by (induction ks n rule: longest.induct) auto

lemma longest_le: "n \<le> B \<Longrightarrow> (\<And>k. k \<in> set ks \<Longrightarrow> gsum (snd k) \<le> B) \<Longrightarrow> longest ks n \<le> B"
  by (induction ks n rule: longest.induct) auto

definition strands_ok :: "(nat \<times> (nat \<times> u32) list) list \<Rightarrow> bool" where
  "strands_ok ks \<longleftrightarrow> (\<forall>k \<in> set ks. fst k < 8 \<and> gsum (snd k) \<le> 2 ^ 15)"

lemma grow_longest:
  assumes "unat pos = unat offset + k + 8 * g" "k < 8" "ctxvals_pos c = pos"
  shows "unat (grow offset c sz) = max (unat sz) g"
proof -
  have "unat (pos - offset) = k + 8 * g" using assms(1) by (subst unat_sub) (simp_all add: word_le_nat_alt)
  then have "unat ((pos - offset) div 8) = g" using assms(2) by (simp add: unat_div)
  then show ?thesis using assms(3) by (auto simp: grow_def Let_def word_less_nat_alt)
qed

lemma strands_run:
  assumes "strands_ok ks" "unat offset + 2 ^ 18 + 8 < 2 ^ 24" "B \<le> unat offset + 8 * longest ks (unat sz)"
    "unat offset + 8 * longest ks (unat sz) \<le> B"
  shows "\<exists>sz' pos es. unat sz' = longest ks (unat sz) \<and> allowed c B es \<and>
    (\<forall>put s. for_each (strand put offset) ks (sz, c, s) =
       play d put es s \<bind> (\<lambda>s. Some (sz', c\<lparr>ctxvals_pos := pos\<rparr>, s)))"
  using assms
proof (induction ks arbitrary: sz c)
  case Nil
  then show ?case by (intro exI [of _ sz] exI [of _ "ctxvals_pos c"] exI [of _ "[]"]) (simp add: allowed_def)
next
  case (Cons k ks)
  obtain i xs where k: "k = (i, xs)" by (cases k)
  from Cons.prems(1) have i: "i < 8" "gsum xs \<le> 2 ^ 15" "strands_ok ks" by (simp_all add: k strands_ok_def)
  let ?o = "unat offset" and ?c = "c\<lparr>ctxvals_pos := offset + of_nat i\<rparr>"
  have p: "unat (offset + of_nat i) = ?o + i"
    using i(1) Cons.prems(2) by (subst unat_plus_if_no_overflow) (simp_all add: unat_of_nat)
  have g: "gsum xs \<le> longest (k # ks) (unat sz)"
    using longest_ge [of "max (unat sz) (gsum xs)" ks] by (simp add: k)
  have "?o + i + 8 * j < B" if "j < gsum xs" for j
    using that g i(1) Cons.prems(4) by linarith
  with emit_runs [of ?c "?o + i" 8 xs 8 B d] p i Cons.prems(2) obtain pos es where
    1: "unat pos = ?o + i + 8 * gsum xs" "allowed ?c B es"
    "does d es (\<lambda>put. for_each (xf_emit put) xs) ?c (?c\<lparr>ctxvals_pos := pos\<rparr>)" by auto
  let ?sz = "grow offset (?c\<lparr>ctxvals_pos := pos\<rparr>) sz"
  have sz: "unat ?sz = max (unat sz) (gsum xs)" using 1(1) i(1) by (intro grow_longest) simp_all
  with Cons.IH [of ?sz "?c\<lparr>ctxvals_pos := pos\<rparr>"] i(3) Cons.prems obtain sz' pos' es' where
    2: "unat sz' = longest (k # ks) (unat sz)" "allowed c B es'"
    "\<forall>put s. for_each (strand put offset) ks (?sz, c\<lparr>ctxvals_pos := pos\<rparr>, s) =
       play d put es' s \<bind> (\<lambda>s. Some (sz', c\<lparr>ctxvals_pos := pos'\<rparr>, s))"
    by (auto simp: k allowed_def)
  have "for_each (strand put offset) (k # ks) (sz, c, s) =
      play d put (es @ es') s \<bind> (\<lambda>s. Some (sz', c\<lparr>ctxvals_pos := pos'\<rparr>, s))" for put s
    using 1(3) 2(3) by (simp add: k strand_def does_def bind_assoc)
  moreover have "allowed c B (es @ es')" using 1(2) 2(2) by (simp add: allowed_def)
  ultimately show ?case using 2(1) by blast
qed

definition up64 :: "nat \<Rightarrow> nat" where
  "up64 n = (n + 63) div 64 * 64"

lemma up64_le: "n \<le> up64 n" "up64 n \<le> n + 63"
  by (simp_all add: up64_def)

lemma unat_align40:
  assumes "unat pos < 2 ^ 24"
  shows "unat (align40 pos) = up64 (unat pos)"
proof -
  have "x AND NOT (mask n) = push_bit n (drop_bit n x)" for x :: u32 and n
    by (rule bit_word_eqI) (auto simp: bit_simps)
  from this [of "pos + 0x3f" 6] have "unat (align40 pos) = unat (push_bit 6 (drop_bit 6 (pos + 0x3f)))"
    by (simp add: align40_def mask_eq_exp_minus_1)
  also have "unat (pos + 0x3f) = unat pos + 63" using assms by (subst unat_plus_if_no_overflow) simp_all
  then have "unat (push_bit 6 (drop_bit 6 (pos + 0x3f))) = (unat pos + 63) div 64 * 64"
    using assms by (simp add: push_bit_eq_mult drop_bit_eq_div unat_word_ariths unat_div)
  finally show ?thesis by (simp add: up64_def)
qed

text \<open>The end of an area that begins after position \<open>p\<close>.\<close>

definition area_end :: "nat \<Rightarrow> (nat \<times> (nat \<times> u32) list) list \<Rightarrow> nat" where
  "area_end p ks = up64 (up64 p + 8 * longest ks 0)"

lemma area_end_le:
  assumes "strands_ok ks"
  shows "p \<le> up64 p" "up64 p \<le> area_end p ks" "up64 p + 8 * longest ks 0 \<le> area_end p ks"
    "area_end p ks \<le> p + 2 ^ 18 + 126" "longest ks 0 \<le> 2 ^ 15"
proof -
  show l: "longest ks 0 \<le> 2 ^ 15" using assms by (intro longest_le) (auto simp: strands_ok_def)
  show "p \<le> up64 p" "up64 p + 8 * longest ks 0 \<le> area_end p ks" unfolding area_end_def by (rule up64_le)+
  then show "up64 p \<le> area_end p ks" by simp
  show "area_end p ks \<le> p + 2 ^ 18 + 126"
    using up64_le(2) [of p] up64_le(2) [of "up64 p + 8 * longest ks 0"] l by (simp add: area_end_def)
qed

lemma xfer_end_gains:
  assumes "seek < 2 ^ 24" "xfer < 2 ^ 24" "unat offset + 8 * unat sz < 2 ^ 24 - 2 ^ 10" "unat (ctxvals_base c) \<le> unat offset"
    "fits 6 c"
  shows "\<exists>c'. xfer_end seek xfer offset sz c = Some c' \<and> extends 6 c c' \<and>
    placed (up64 (unat offset + 8 * unat sz)) c'"
proof -
  let ?p = "up64 (unat offset + 8 * unat sz)"
  let ?c = "c\<lparr>ctxvals_pos := align40 (offset + sz * 8)\<rparr>"
  have s: "unat (offset + sz * 8) = unat offset + 8 * unat sz"
    using assms(3) by (simp add: unat_word_ariths)
  have pos: "unat (align40 (offset + sz * 8)) = ?p"
    using assms(3) by (subst unat_align40) (simp_all add: s)
  have g: "gains (1 + (1 + (1 + (1 + (1 + 1))))) ?p ?p
      (\<lambda>c. cp_lsr offset c \<bind> (\<lambda>c. cp_out 0x00600007 c \<bind> (\<lambda>c. cp_lsr sz c \<bind> (\<lambda>c. cp_out seek c \<bind>
        (\<lambda>c. cp_out xfer c \<bind> cp_wait 75 True)))))"
    unfolding cp_wait_def using assms(1-3)
    by (intro gains_bind [where ?p1.0 = ?p] cp_lsr_gains cp_out_small or_small) (simp_all add: word_less_nat_alt)
  have "placed ?p ?c"
    using pos assms(4) up64_le(1) [of "unat offset + 8 * unat sz"] by (simp add: placed_def)
  moreover have "fits 6 ?c" "extends 0 c ?c" using assms(5) by (simp_all add: fits_def extends_def)
  ultimately show ?thesis
    using gains_at [OF gains_mono [OF g], of 6 ?c c] by (simp add: xfer_end_def Let_def)
qed

lemma lays_area:
  assumes "strands_ok ks" "p < 2 ^ 22" "seek < 2 ^ 24" "xfer < 2 ^ 24" "unat offset = up64 p"
    "placed p c" "fits 6 c" "unat base \<le> unat offset"
  shows "\<exists>c' es. extends 6 c c' \<and> placed (area_end p ks) c' \<and> allowed c (area_end p ks) es \<and>
    (\<forall>put s. for_each (strand put offset) ks (0, c\<lparr>ctxvals_base := base\<rparr>, s) \<bind>
       (\<lambda>(sz, c, s). xfer_end seek xfer offset sz c \<bind> (\<lambda>c. Some (c, s))) =
     play d put es s \<bind> (\<lambda>s. Some (c', s)))"
proof -
  let ?c = "c\<lparr>ctxvals_base := base\<rparr>"
  note a = area_end_le(1-4) [OF assms(1), of p] area_end_le(5) [OF assms(1)] up64_le(2) [of p]
  obtain sz pos es where 1: "unat sz = longest ks 0" "allowed ?c (up64 p + 8 * longest ks 0) es"
    "\<forall>put s. for_each (strand put offset) ks (0, ?c, s) =
       play d put es s \<bind> (\<lambda>s. Some (sz, ?c\<lparr>ctxvals_pos := pos\<rparr>, s))"
    using strands_run [OF assms(1), of offset "up64 p + 8 * longest ks 0" 0 ?c d] assms(2,5) a by auto
  have "fits 6 (?c\<lparr>ctxvals_pos := pos\<rparr>)" using assms(7) by (simp add: fits_def)
  moreover have "unat offset + 8 * unat sz < 2 ^ 24 - 2 ^ 10" using 1(1) assms(2,5) a by simp
  ultimately obtain c' where c': "xfer_end seek xfer offset sz (?c\<lparr>ctxvals_pos := pos\<rparr>) = Some c'"
    "extends 6 (?c\<lparr>ctxvals_pos := pos\<rparr>) c'" "placed (up64 (unat offset + 8 * unat sz)) c'"
    using xfer_end_gains [OF assms(3,4), of offset sz "?c\<lparr>ctxvals_pos := pos\<rparr>"] assms(8) by auto
  have "extends 6 c c'" using c'(2) by (simp add: extends_def)
  moreover have "placed (area_end p ks) c'" using c'(3) 1(1) assms(5) by (simp add: area_end_def)
  moreover have "allowed c (area_end p ks) es"
    using allowed_mono [OF 1(2) a(3), of c] by simp
  ultimately show ?thesis using 1(3) c'(1) by (auto simp: bind_assoc)
qed

end
