(* ===== verification/GrProps.thy ===== *)
theory GrProps
  imports GrLayout Flush
begin

section \<open>Contexts of PGRAPH: the program and the values fit together\<close>

text \<open>
  The driver runs \<open>nv50_grctx_init\<close> twice: once in \<open>nv50_graph_init\<close> for the program and the size of a
  context, and once in \<open>nv50_graph_chan_alloc\<close> for each channel, for the values of its context, in an
  object of that size. Here the program and the words of a context are determined for every chipset
  of the family, and the writes of the second run are inside what the first has measured.
\<close>

subsection \<open>Parts of the program\<close>

definition head_asm :: "asm list" where
  "head_asm =
     [Jump AUTO_SAVE True cp_setup_save,
      Jump USER_SAVE True cp_setup_save,
      Label cp_check_load,
      Jump AUTO_LOAD True cp_setup_auto_load,
      Jump USER_LOAD True cp_setup_load,
      Jump ALWAYS True cp_exit,
      Label cp_setup_auto_load,
      Instr 0x0090ffff, Instr 0x0091ffff, Instr 0x00600009, Instr 0x00600005,
      Instr (0x00700080 OR UNK01),
      Label cp_setup_load,
      Instr 0x00600004,
      Instr (0x00500000 OR NEWCTX),
      Instr (0x00700000 OR UNK1D),
      Instr (0x00700000 OR SWAP_DIRECTION),
      Jump UNK0B True cp_prepare_exit,
      Jump ALWAYS True cp_swap_state,
      Label cp_sync,
      Instr (0x00700080 OR SYNC_ACK),
      Jump SYNC_REQ True cp_sync,
      Instr (0x00700000 OR SYNC_ACK),
      Jump SYNC_REQ True cp_sync,
      Label cp_setup_save,
      Instr (0x00700080 OR UNK1D),
      Jump SYNC_REQ True cp_sync,
      Jump INTR True cp_setup_save,
      Jump STATUS False cp_setup_save,
      Instr (0x00700080 OR UNK01),
      Instr (0x00700080 OR SWAP_DIRECTION),
      Label cp_swap_state,
      Instr (0x00700080 OR UNK03)]"

text \<open>The last transfer begins at the base of the first area.\<close>

definition tail_asm :: "u32 \<Rightarrow> asm list" where
  "tail_asm base =
     [Jump SWAP_DIRECTION True cp_check_load,
      Instr (0x00700080 OR UNK20),
      Instr (0x00700080 OR SWAP_DIRECTION),
      Instr (0x00200000 OR base), Instr 0x00600007, Instr 0x00200004, Instr 0x00c000ff, Instr 0x008000ff,
      Instr (0x00500080 OR XFER),
      Label cp_prepare_exit,
      Instr (0x00700000 OR UNK01),
      Instr (0x00700000 OR UNK03),
      Instr (0x00700000 OR UNK1D),
      Jump USER_SAVE True cp_exit,
      Instr 0x0060000d,
      Label cp_exit,
      Instr (0x00700000 OR USER_SAVE),
      Instr (0x00700000 OR USER_LOAD),
      Instr 0x0060000c]"

lemmas cp_ops = cp_set_def cp_wait_def cp_lsr_def

lemma for_each_map: "for_each (\<lambda>f. f) (map g xs) s = for_each g xs s"
  by (induction xs arbitrary: s) (auto split: Option.bind_split)

lemma for_each_append: "for_each f (xs @ ys) s = for_each f xs s \<bind> for_each f ys"
  by (induction xs arbitrary: s) (auto split: Option.bind_split)

lemma prog_head_asm: "prog_head = map asm_step head_asm @ [cp_pos 1, cp_ctx 0x400828 1, cp_pos 0x40]"
  by (simp add: prog_head_def head_asm_def cp_ops)

lemma asm_step_keeps:
  "asm_step a c = Some c' \<Longrightarrow> ctxvals_base c' = ctxvals_base c \<and> ctxvals_pos c' = ctxvals_pos c \<and>
     (mode c = Vals \<longrightarrow> c' = c)"
  by (cases a) (auto simp: cp_out_def cp_bra_def cp_name_def Let_def split: if_splits)

lemma asm_steps_keep:
  "for_each asm_step as c = Some c' \<Longrightarrow> ctxvals_base c' = ctxvals_base c \<and> ctxvals_pos c' = ctxvals_pos c \<and>
     (mode c = Vals \<longrightarrow> c' = c)"
proof (induction as arbitrary: c)
  case (Cons a as)
  then obtain c1 where c1: "asm_step a c = Some c1" "for_each asm_step as c1 = Some c'"
    by (auto split: Option.bind_splits)
  with asm_step_keeps [OF c1(1)] Cons.IH [OF c1(2)] show ?case by auto
qed simp

lemma prog_tail_asm: "for_each (\<lambda>f. f) prog_tail c = for_each asm_step (tail_asm (ctxvals_base c)) c"
proof -
  let ?xs = "take 3 (tail_asm 0)" and ?ys = "drop 4 (tail_asm 0)"
  have p: "prog_tail = map asm_step ?xs @ (\<lambda>c. asm_step (Instr (0x00200000 OR ctxvals_base c)) c) # map asm_step ?ys"
    by (simp add: prog_tail_def tail_asm_def cp_ops)
  have t: "tail_asm b = ?xs @ Instr (0x00200000 OR b) # ?ys" for b by (simp add: tail_asm_def)
  show ?thesis
    unfolding p t [of "ctxvals_base c"]
    by (cases "for_each asm_step ?xs c") (simp_all add: for_each_append for_each_map asm_steps_keep)
qed

lemma asm_vals: "list_all asm_ok as \<Longrightarrow> mode c = Vals \<Longrightarrow> for_each asm_step as c = Some c"
proof (induction as)
  case (Cons a as)
  then show ?case by (cases a) (auto simp: cp_out_def cp_bra_def cp_name_def Let_def)
qed simp

lemma asm_prog:
  assumes "program_ok (bs @ as)" "asm_length (bs @ as) \<le> mx" "assembled mx bs c"
  shows "\<exists>c'. for_each asm_step as c = Some c' \<and> assembled mx (bs @ as) c'"
  using assms
proof (induction as arbitrary: bs c)
  case (Cons a as)
  have "program_ok (bs @ [a])" "asm_length (bs @ [a]) \<le> mx"
    using Cons.prems(1,2) by (auto simp: program_ok_def labels_def asm_length_def hd_append split: if_splits)
  with assembled_step [OF this Cons.prems(3)] Cons.IH [of "bs @ [a]"] Cons.prems(1,2) show ?case by auto
qed simp

lemma labels_instrs [simp]: "labels (map Instr ws) = []" "labels (as @ bs) = labels as @ labels bs"
  by (induction ws) (simp_all add: labels_def)

lemma length_instrs [simp]: "asm_length (map Instr ws) = length ws" "asm_length (as @ bs) = asm_length as + asm_length bs"
  by (induction ws) (simp_all add: asm_length_def)

lemma assemble_instrs [simp]: "assemble t (map Instr ws) = ws"
  by (induction ws) simp_all

lemma address_instrs: "address (map Instr ws) n = None"
  by (induction ws) simp_all

lemma assembled_extends:
  assumes "assembled mx bs c" "extends n c c'"
  obtains ws where "assembled mx (bs @ map Instr ws) c'" "length ws \<le> n" "\<forall>w \<in> set ws. \<not> pending w"
proof -
  from assms(2) obtain ws where ws: "ctxprog c' = ctxprog c @ ws" "length ws \<le> n" "\<forall>w \<in> set ws. \<not> pending w"
    by (auto simp: extends_def)
  have a: "address (bs @ map Instr ws) = address bs"
    by (auto simp: fun_eq_iff address_append address_instrs split: option.split)
  then have "so_far (bs @ map Instr ws) = so_far bs" "label_table (bs @ map Instr ws) = label_table bs"
    by (simp_all add: so_far_def [abs_def] label_table_def [abs_def])
  with assms ws(1) have "assembled mx (bs @ map Instr ws) c'" by (auto simp: assembled_def extends_def)
  with ws that show ?thesis by blast
qed

lemma assembled_no_pending:
  assumes "list_all asm_ok as" "\<And>f st n. Jump f st n \<in> set as \<Longrightarrow> \<exists>k < 1024. t n = push_bit 8 (of_nat k)"
  shows "\<forall>w \<in> set (assemble t as). \<not> pending w"
  using assms
proof (induction as)
  case (Cons a as)
  have "\<forall>w \<in> set (assemble t as). \<not> pending w"
    by (rule Cons.IH) (use Cons.prems in auto)
  moreover have "\<exists>k < 1024. t n = push_bit 8 (of_nat k)" if "a = Jump f st n" for f st n
    using Cons.prems(2) [of f st n] that by simp
  ultimately show ?case using Cons.prems(1) by (cases a) (auto simp: resolved_not_pending)
qed simp

lemma two_pass_not_pending:
  assumes "program_ok as" "closed_program as" "asm_length as \<le> 512"
  shows "\<forall>w \<in> set (assemble (two_pass as) as). \<not> pending w"
proof (rule assembled_no_pending)
  show "list_all asm_ok as" using assms(1) by (simp add: program_ok_def)
  fix f st n
  assume "Jump f st n \<in> set as"
  with assms(2) have "address as n \<noteq> None" by (auto simp: closed_program_def address_None)
  then obtain k where k: "address as n = Some k" by blast
  with address_le [OF k] assms(3) show "\<exists>k < 1024. two_pass as n = push_bit 8 (of_nat k)"
    by (intro exI [of _ k]) (simp add: two_pass_def)
qed

subsection \<open>Between the two\<close>

definition mid_end :: "int \<Rightarrow> u32 \<Rightarrow> nat" where
  "mid_end cs units =
     area_end (area_end (0x40 + mmio_words cs units) (xfer1_strands cs units)) (xfer2_strands cs units)"

definition context_words :: "int \<Rightarrow> u32 \<Rightarrow> nat" where
  "context_words cs units = mid_end cs units + 0x400"

definition middle :: "card \<Rightarrow> writer \<Rightarrow> grctx \<times> kern \<Rightarrow> (grctx \<times> kern) option" where
  "middle d put cs = do {
     c \<leftarrow> cp_pos 1 (fst cs);
     c \<leftarrow> cp_ctx 0x400828 1 c;
     c \<leftarrow> cp_pos 0x40 c;
     cs \<leftarrow> construct_mmio d put (c, snd cs);
     cs \<leftarrow> construct_xfer1 d put cs;
     construct_xfer2 d put cs }"

lemma place_gains: "gains (2 + (1 + 2)) 0 0x40 (\<lambda>c. cp_pos 1 c \<bind> (\<lambda>c. cp_ctx 0x400828 1 c \<bind> cp_pos 0x40))"
proof -
  have 1: "gains 2 0 1 (cp_pos 1)" and 3: "gains 2 2 0x40 (cp_pos 0x40)"
    using cp_pos_gains [of 1 0] cp_pos_gains [of "0x40" 2] by simp_all
  have 2: "gains 1 1 2 (cp_ctx 0x400828 1)"
    unfolding gains_def
  proof (intro allI impI)
    fix c
    assume "placed 1 c \<and> fits 1 c"
    moreover have "ctx_words 1 = 1" "1 + unat (1 :: u32) = 2" by (simp_all add: ctx_words_def)
    ultimately show "\<exists>c'. cp_ctx 0x400828 1 c = Some c' \<and> extends 1 c c' \<and> placed 2 c'"
      using cp_ctx_runs [of 1 c 1 "0x400828"] by (auto simp flip: numeral_2_eq_2)
  qed
  show ?thesis by (intro gains_bind [OF 1 gains_bind [OF 2 3]])
qed

lemma strands_ok:
  assumes "cs \<in> grctx_chips"
  shows "strands_ok (xfer1_strands cs units)" "strands_ok (xfer2_strands cs units)"
  using xfer1_bound [OF assms] xfer2_bound [OF assms] by (simp_all add: strands_ok_def)

lemma lays_xfer1:
  assumes "chipset d \<in> grctx_chips" "units_are d u" "p < 2 ^ 22"
  shows "lays d 6 p (area_end p (xfer1_strands (chipset d) u)) (construct_xfer1 d)"
proof -
  let ?ks = "xfer1_strands (chipset d) u"
  let ?F = "\<lambda>put u cs. let c = fst cs; offset = align40 (ctxvals_pos c) in
    for_each (strand put offset) (xfer1_strands (chipset d) u) (0, c\<lparr>ctxvals_base := offset\<rparr>, snd cs) \<bind>
      (\<lambda>(sz, c, s). xfer_end 0x00c000ff 0x008000ff offset sz c \<bind> (\<lambda>c. Some (c, s)))"
  have "lays d 6 p (area_end p ?ks) (\<lambda>put. ?F put u)"
    unfolding lays_def
  proof (intro allI impI)
    fix c
    assume c: "placed p c \<and> fits 6 c"
    then have o: "unat (align40 (ctxvals_pos c)) = up64 p"
      using assms(3) by (subst unat_align40) (simp_all add: placed_def)
    have "placed p c" "fits 6 c" "unat (align40 (ctxvals_pos c)) \<le> unat (align40 (ctxvals_pos c))" using c by simp_all
    from lays_area [OF strands_ok(1) [OF assms(1)] assms(3) _ _ o this, where seek = "0x00c000ff" and xfer = "0x008000ff"]
    show "\<exists>c' es. extends 6 c c' \<and> placed (area_end p ?ks) c' \<and> allowed c (area_end p ?ks) es \<and>
        does d es (\<lambda>put. ?F put u) c c'"
      by (simp add: does_def Let_def)
  qed
  from lays_read [OF assms(2), where F = ?F, OF this] show ?thesis
    by (simp add: construct_xfer1_def [abs_def] Let_def)
qed

lemma lays_xfer2:
  assumes "chipset d \<in> grctx_chips" "units_are d u" "p < 2 ^ 22"
  shows "lays d 6 p (area_end p (xfer2_strands (chipset d) u)) (construct_xfer2 d)"
proof -
  let ?ks = "xfer2_strands (chipset d) u"
  let ?F = "\<lambda>put u cs. let c = fst cs; offset = align40 (ctxvals_pos c) in
    for_each (strand put offset) (xfer2_strands (chipset d) u) (0, c, snd cs) \<bind>
      (\<lambda>(sz, c, s). xfer_end 0x00c800ff 0x008800ff offset sz c \<bind> (\<lambda>c. Some (c, s)))"
  have "lays d 6 p (area_end p ?ks) (\<lambda>put. ?F put u)"
    unfolding lays_def
  proof (intro allI impI)
    fix c
    assume c: "placed p c \<and> fits 6 c"
    then have o: "unat (align40 (ctxvals_pos c)) = up64 p"
      using assms(3) by (subst unat_align40) (simp_all add: placed_def)
    have b: "placed p c" "fits 6 c" "unat (ctxvals_base c) \<le> unat (align40 (ctxvals_pos c))"
      using c up64_le(1) [of p] by (simp_all add: o) (simp add: placed_def)
    have "c\<lparr>ctxvals_base := ctxvals_base c\<rparr> = c" by simp
    with lays_area [OF strands_ok(2) [OF assms(1)] assms(3) _ _ o b, where seek = "0x00c800ff" and xfer = "0x008800ff"]
    show "\<exists>c' es. extends 6 c c' \<and> placed (area_end p ?ks) c' \<and> allowed c (area_end p ?ks) es \<and>
        does d es (\<lambda>put. ?F put u) c c'"
      by (simp add: does_def Let_def)
  qed
  from lays_read [OF assms(2), where F = ?F, OF this] show ?thesis
    by (simp add: construct_xfer2_def [abs_def] Let_def)
qed

lemma lays_middle:
  assumes "chipset d \<in> grctx_chips" "units_are d u"
  shows "lays d 338 0 (mid_end (chipset d) u) (middle d)" "mid_end (chipset d) u < 2 ^ 20"
proof -
  let ?p1 = "0x40 + mmio_words (chipset d) u"
  let ?p2 = "area_end ?p1 (xfer1_strands (chipset d) u)"
  let ?p3 = "area_end ?p2 (xfer2_strands (chipset d) u)"
  have p1: "?p1 \<le> 2397" using mmio_words_le [OF assms(1), of u] by simp
  note a1 = area_end_le(4) [OF strands_ok(1) [OF assms(1)], of ?p1 u]
  note a2 = area_end_le(4) [OF strands_ok(2) [OF assms(1)], of ?p2 u]
  have le: "?p1 \<le> ?p2" "?p2 \<le> ?p3"
    using area_end_le(1,2) [OF strands_ok(1) [OF assms(1)]] area_end_le(1,2) [OF strands_ok(2) [OF assms(1)]]
    by (meson order_trans)+
  from p1 a1 a2 show "mid_end (chipset d) u < 2 ^ 20" by (simp add: mid_end_def)
  have "lays d ((2 + (1 + 2)) + (321 + (6 + 6))) 0 ?p3 (\<lambda>put cs.
      (\<lambda>(c, s). (cp_pos 1 c \<bind> (\<lambda>c. cp_ctx 0x400828 1 c \<bind> cp_pos 0x40)) \<bind> (\<lambda>c. Some (c, s))) cs \<bind>
      (\<lambda>cs. construct_mmio d put cs \<bind> (\<lambda>cs. construct_xfer1 d put cs \<bind> construct_xfer2 d put)))"
    using p1 a1 le
    by (intro lays_bind [OF lays_gains [OF place_gains] lays_bind [OF lays_construct_mmio [OF assms]
        lays_bind [OF lays_xfer1 [OF assms] lays_xfer2 [OF assms]]]]) simp_all
  from lays_mono [OF this, of 338] show "lays d 338 0 (mid_end (chipset d) u) (middle d)"
    by (simp add: mid_end_def middle_def [abs_def] bind_assoc case_prod_beta')
qed

subsection \<open>The whole\<close>

lemma new_grctx_simps [simp]:
  "mode (new_grctx md mx) = md" "ctxprog (new_grctx md mx) = []" "ctxprog_max (new_grctx md mx) = mx"
  "ctxvals_pos (new_grctx md mx) = 0" "ctxvals_base (new_grctx md mx) = 0"
  by (simp_all add: new_grctx_def)

lemma init_split:
  assumes "chipset d \<in> grctx_chips" "for_each asm_step head_asm c = Some c1" "does d es (middle d) c1 c2"
    "for_each asm_step (tail_asm (ctxvals_base c2)) c2 = Some c3"
  shows "nv50_grctx_init d put c s =
    play d put es s \<bind> (\<lambda>s. Some (Inr (c3\<lparr>ctxvals_pos := ctxvals_pos c3 + 0x400\<rparr>), s))"
proof -
  have "nv50_grctx_init d put c s = for_each asm_step head_asm c \<bind> (\<lambda>c. middle d put (c, s) \<bind>
      (\<lambda>(c, s). for_each (\<lambda>f. f) prog_tail c \<bind>
        (\<lambda>c. Some (Inr (c\<lparr>ctxvals_pos := ctxvals_pos c + 0x400\<rparr>), s))))"
    using assms(1)
    by (simp add: nv50_grctx_init_def prog_head_asm for_each_append for_each_map middle_def bind_assoc)
  also have "\<dots> = play d put es s \<bind> (\<lambda>s. Some (Inr (c3\<lparr>ctxvals_pos := ctxvals_pos c3 + 0x400\<rparr>), s))"
    using assms(2-4) by (simp add: does_def bind_assoc prog_tail_asm)
  finally show ?thesis .
qed

lemma end_pos:
  assumes "placed (mid_end cs u) c" "mid_end cs u < 2 ^ 20"
  shows "unat (ctxvals_pos c + 0x400) = context_words cs u"
  using assms by (subst unat_plus_if_no_overflow) (simp_all add: placed_def context_words_def)

lemma asm_parts_ok:
  "list_all asm_ok head_asm" "base < 2 ^ 24 \<Longrightarrow> list_all asm_ok (tail_asm base)"
proof -
  show "list_all asm_ok head_asm" by (simp add: head_asm_def pending_def)
  assume "base < 2 ^ 24"
  then have "\<not> pending (0x00200000 OR base)" by (intro not_pending or_small) simp_all
  then show "list_all asm_ok (tail_asm base)" by (simp add: tail_asm_def pending_def)
qed

lemma whole_ok:
  assumes "base < 2 ^ 24" "length ws \<le> 338" "\<forall>w \<in> set ws. \<not> pending w"
  defines "as \<equiv> head_asm @ map Instr ws @ tail_asm base"
  shows "program_ok as" "closed_program as" "asm_length as \<le> 512"
proof -
  have l: "labels head_asm = [1, 2, 3, 8, 4, 5]" "labels (tail_asm base) = [6, 7]"
    by (simp_all add: head_asm_def tail_asm_def labels_def)
  have n: "asm_length head_asm = 27" "asm_length (tail_asm base) = 17"
    by (simp_all add: head_asm_def tail_asm_def asm_length_def)
  show len: "asm_length as \<le> 512" using assms(2) by (simp add: as_def n)
  have "list_all asm_ok as"
    using asm_parts_ok(1) asm_parts_ok(2) [OF assms(1)] assms(3) by (auto simp: as_def list_all_iff)
  moreover have "hd as \<noteq> Label k" for k by (simp add: as_def head_asm_def)
  ultimately show "program_ok as" using len by (simp add: program_ok_def) (simp add: as_def l)
  show "closed_program as"
    unfolding closed_program_def as_def by (auto simp: l) (auto simp: head_asm_def tail_asm_def)
qed

lemma prog_run:
  assumes "chipset d \<in> grctx_chips" "units_are d u"
  obtains c es base ws where
    "\<forall>put s. nv50_grctx_init d put (new_grctx Prog 512) s = play d put es s \<bind> (\<lambda>s. Some (Inr c, s))"
    "inside 0 es" "unat (ctxvals_pos c) = context_words (chipset d) u" "length (ctxprog c) \<le> 512"
    "ctxprog c = assemble (two_pass (head_asm @ map Instr ws @ tail_asm base)) (head_asm @ map Instr ws @ tail_asm base)"
    "\<forall>w \<in> set (ctxprog c). \<not> pending w"
proof -
  note m = lays_middle [OF assms]
  have h: "program_ok head_asm" "asm_length head_asm = 27"
    by (simp_all add: program_ok_def asm_parts_ok) (simp_all add: head_asm_def labels_def asm_length_def)
  from one_pass [OF h(1), of 512] h(2) obtain c1 where
    c1: "for_each asm_step head_asm (new_grctx Prog 512) = Some c1" "assembled 512 head_asm c1" by auto
  with asm_steps_keep [OF c1(1)] have "placed 0 c1" "fits 338 c1"
    by (simp_all add: placed_def fits_def assembled_def length_assemble h(2))
  with m(1) obtain c2 es where 2: "extends 338 c1 c2" "placed (mid_end (chipset d) u) c2"
    "allowed c1 (mid_end (chipset d) u) es" "does d es (middle d) c1 c2" unfolding lays_def by blast
  from assembled_extends [OF c1(2) 2(1)] obtain ws where
    ws: "assembled 512 (head_asm @ map Instr ws) c2" "length ws \<le> 338" "\<forall>w \<in> set ws. \<not> pending w" by blast
  let ?b = "ctxvals_base c2"
  have b: "?b < 2 ^ 24" using 2(2) m(2) by (simp add: placed_def word_less_nat_alt)
  let ?as = "head_asm @ map Instr ws @ tail_asm ?b"
  note ok = whole_ok [OF b ws(2,3)]
  from asm_prog [of "head_asm @ map Instr ws" "tail_asm ?b" 512 c2] ws(1) ok(1,3) obtain c3 where
    c3: "for_each asm_step (tail_asm ?b) c2 = Some c3" "assembled 512 ?as c3" by auto
  let ?c = "c3\<lparr>ctxvals_pos := ctxvals_pos c3 + 0x400\<rparr>"
  have p: "ctxprog ?c = assemble (two_pass ?as) ?as"
    using c3(2) so_far_closed [OF ok(2)] by (simp add: assembled_def)
  have "unat (ctxvals_pos ?c) = context_words (chipset d) u"
    using asm_steps_keep [OF c3(1)] end_pos [OF 2(2) m(2)] by simp
  moreover have "inside 0 es" using 2(3) c1(2) by (simp add: allowed_def assembled_def)
  moreover have "length (ctxprog ?c) \<le> 512" unfolding p length_assemble by (rule ok(3))
  moreover have "\<forall>w \<in> set (ctxprog ?c). \<not> pending w"
    unfolding p by (rule two_pass_not_pending [OF ok])
  ultimately show ?thesis using that [of es ?c] init_split [OF assms(1) c1(1) 2(4) c3(1)] p by blast
qed

lemma vals_run:
  assumes "chipset d \<in> grctx_chips" "units_are d u"
  obtains c es where
    "\<forall>put s. nv50_grctx_init d put (new_grctx Vals mx) s = play d put es s \<bind> (\<lambda>s. Some (Inr c, s))"
    "inside (context_words (chipset d) u) es" "unat (ctxvals_pos c) = context_words (chipset d) u"
proof -
  note m = lays_middle [OF assms]
  let ?c = "new_grctx Vals mx"
  have h: "for_each asm_step head_asm ?c = Some ?c" by (rule asm_vals [OF asm_parts_ok(1)]) simp
  have "placed 0 ?c" "fits 338 ?c" by (simp_all add: placed_def fits_def)
  with m(1) obtain c2 es where 2: "extends 338 ?c c2" "placed (mid_end (chipset d) u) c2"
    "allowed ?c (mid_end (chipset d) u) es" "does d es (middle d) ?c c2" unfolding lays_def by blast
  have b: "ctxvals_base c2 < 2 ^ 24" using 2(2) m(2) by (simp add: placed_def word_less_nat_alt)
  have t: "for_each asm_step (tail_asm (ctxvals_base c2)) c2 = Some c2"
    using extends_mode [OF 2(1)] by (intro asm_vals [OF asm_parts_ok(2) [OF b]]) simp
  have "inside (context_words (chipset d) u) es"
    using 2(3) by (auto simp: allowed_def context_words_def elim: inside_mono)
  moreover have "unat (ctxvals_pos (c2\<lparr>ctxvals_pos := ctxvals_pos c2 + 0x400\<rparr>)) = context_words (chipset d) u"
    using end_pos [OF 2(2) m(2)] by simp
  ultimately show ?thesis using that init_split [OF assms(1) h 2(4) t] by blast
qed

text \<open>
  C27: For every chipset of the NV50 family and whatever units the card has, making the context
  program succeeds within the 512 words of the engine, without a write to a context, and every jump is
  resolved: the program is the two-pass assembly of the fixed head, the instructions that transfer the
  parts of the context, and the fixed tail. The size of the context comes out as \<open>context_words\<close>.
\<close>

theorem context_program_correct:
  assumes "chipset d \<in> grctx_chips" "units_are d u"
  shows "\<exists>c es base ws. let as = head_asm @ map Instr ws @ tail_asm base in
    (\<forall>put s. nv50_grctx_init d put (new_grctx Prog 512) s = play d put es s \<bind> (\<lambda>s. Some (Inr c, s))) \<and>
    inside 0 es \<and> unat (ctxvals_pos c) = context_words (chipset d) u \<and> length (ctxprog c) \<le> 512 \<and>
    ctxprog c = assemble (two_pass as) as \<and> (\<forall>w \<in> set (ctxprog c). \<not> pending w)"
  unfolding Let_def by (rule prog_run [OF assms]) blast

text \<open>
  C26: If making the program measured \<open>c\<close>, then making the values of a context for the same card does
  nothing but a list of writes, the same for every channel, each of a whole word inside the object of
  four bytes for each of the words measured, and it ends at the same size. In particular it fails only
  when a write to the object does.
\<close>

theorem context_values_inside:
  assumes "nv50_grctx_init d put (new_grctx Prog 512) s = Some (Inr c, s1)" "units_are d u"
  shows "\<exists>c' es. (\<forall>put s. nv50_grctx_init d put (new_grctx Vals mx) s = play d put es s \<bind> (\<lambda>s. Some (Inr c', s))) \<and>
    inside (unat (ctxvals_pos c)) es \<and> ctxvals_pos c' = ctxvals_pos c"
proof -
  have chip: "chipset d \<in> grctx_chips" using assms(1) by (auto simp: nv50_grctx_init_def split: if_splits)
  obtain c0 es0 where "\<forall>put s. nv50_grctx_init d put (new_grctx Prog 512) s = play d put es0 s \<bind> (\<lambda>s. Some (Inr c0, s))"
    "unat (ctxvals_pos c0) = context_words (chipset d) u" by (rule prog_run [OF chip assms(2)])
  with assms(1) have p: "unat (ctxvals_pos c) = context_words (chipset d) u"
    by (cases "play d put es0 s") simp_all
  obtain c' es where
    1: "\<forall>put s. nv50_grctx_init d put (new_grctx Vals mx) s = play d put es s \<bind> (\<lambda>s. Some (Inr c', s))"
    "inside (context_words (chipset d) u) es" "unat (ctxvals_pos c') = context_words (chipset d) u"
    by (rule vals_run [OF chip assms(2), of mx])
  from 1(3) p have "ctxvals_pos c' = ctxvals_pos c" by (simp add: word_unat_eq_iff)
  with 1(1,2) show ?thesis unfolding p by blast
qed

subsection \<open>A card\<close>

lemma example_units: "units_are (example_card 0x50 0xa0) 0"
  by (simp add: units_are_def example_card_def in_window_def)

lemma example_chip: "chipset (example_card 0x50 0xa0) \<in> grctx_chips"
  by (simp add: example_card_def grctx_chips_def)

lemma play_reads: "inside 0 es \<Longrightarrow> \<exists>s'. play d put es s = Some s'"
proof (induction es arbitrary: s)
  case (Cons e es)
  have "\<exists>s1. play1 d put None s = Some s1"
    by (cases "answer d (log s) (Rd32 0x1540)") (simp add: play1_def nv_rd32_def request_def)
  with Cons show ?case by (cases e) (auto simp: play_def)
qed simp

lemma example_prog:
  obtains c s where "nv50_grctx_init (example_card 0x50 0xa0) put (new_grctx Prog 512) blank_kern = Some (Inr c, s)"
proof -
  obtain c es where c: "\<forall>put s. nv50_grctx_init (example_card 0x50 0xa0) put (new_grctx Prog 512) s =
      play (example_card 0x50 0xa0) put es s \<bind> (\<lambda>s. Some (Inr c, s))" "inside 0 es"
    by (rule prog_run [OF example_chip example_units])
  obtain s' where "play (example_card 0x50 0xa0) put es blank_kern = Some s'" using play_reads [OF c(2)] by blast
  with c(1) that show ?thesis by simp
qed

theorem context_program_correct_witness:
  "\<exists>c s. nv50_grctx_init (example_card 0x50 0xa0) (\<lambda>_ _ _. None) (new_grctx Prog 512) blank_kern = Some (Inr c, s) \<and>
    length (ctxprog c) \<le> 512 \<and> (\<forall>w \<in> set (ctxprog c). \<not> pending w)"
proof -
  from context_program_correct [OF example_chip example_units] obtain c es where
    c: "\<forall>put s. nv50_grctx_init (example_card 0x50 0xa0) put (new_grctx Prog 512) s =
      play (example_card 0x50 0xa0) put es s \<bind> (\<lambda>s. Some (Inr c, s))"
    "inside 0 es" "length (ctxprog c) \<le> 512" "\<forall>w \<in> set (ctxprog c). \<not> pending w"
    unfolding Let_def by blast
  obtain s' where "play (example_card 0x50 0xa0) (\<lambda>_ _ _. None) es blank_kern = Some s'"
    using play_reads [OF c(2)] by blast
  with c(1,3,4) show ?thesis by simp
qed

theorem context_values_inside_witness:
  "\<exists>c s. nv50_grctx_init (example_card 0x50 0xa0) (\<lambda>_ _ _. None) (new_grctx Prog 512) blank_kern = Some (Inr c, s) \<and>
    (\<exists>c' es. (\<forall>put s. nv50_grctx_init (example_card 0x50 0xa0) put (new_grctx Vals 0) s =
        play (example_card 0x50 0xa0) put es s \<bind> (\<lambda>s. Some (Inr c', s))) \<and>
      inside (unat (ctxvals_pos c)) es \<and> ctxvals_pos c' = ctxvals_pos c)"
  by (rule example_prog) (use context_values_inside [OF _ example_units, of _ _ _ _ 0] in blast)

end
