(* ===== verification/Nv50Vm.thy ===== *)
theory Nv50Vm
  imports Vspace
begin

section \<open>Page tables of the NV50 family\<close>

text \<open>
  \<open>nv50_vm.c\<close>, with the two TLB flushes of PGRAPH (\<open>nv50_graph.c\<close>) it may call. A page directory of
  0x800 entries, each for a page table of 0x20000 entries of 8 bytes, maps pages of 4 KiB; the
  entries of \<open>2 ^ lev\<close> pages that form an aligned block all hold the address of the block, with
  \<open>lev\<close> in bits 7 to 9.
\<close>

abbreviation (input) NV50_VM_PDE_COUNT :: nat where "NV50_VM_PDE_COUNT \<equiv> 0x800"
abbreviation (input) NV50_VM_SPTE_COUNT :: nat where "NV50_VM_SPTE_COUNT \<equiv> 0x20000"
abbreviation (input) NV50_CHAN_PD :: u32 where "NV50_CHAN_PD \<equiv> 0x1400"
abbreviation (input) NV84_CHAN_PD :: u32 where "NV84_CHAN_PD \<equiv> 0x0200"

definition nv50_vs :: "nat \<Rightarrow> kern \<Rightarrow> nv50_vspace option" where
  "nv50_vs v s = do {
     vs \<leftarrow> vss s v;
     case veng vs of Nv50 e \<Rightarrow> Some e | _ \<Rightarrow> None }"

definition upd_nv50_vs :: "nat \<Rightarrow> (nv50_vspace \<Rightarrow> nv50_vspace) \<Rightarrow> kern \<Rightarrow> kern option" where
  "upd_nv50_vs v f s = do {
     e \<leftarrow> nv50_vs v s;
     upd_vs v (\<lambda>vs. vs\<lparr>veng := Nv50 (f e)\<rparr>) s }"

definition chan_pd :: "card \<Rightarrow> u32" where
  "chan_pd d = (if chipset d = 0x50 then NV50_CHAN_PD else NV84_CHAN_PD)"

subsection \<open>Flushing the TLB\<close>

definition nv50_graph_tlb_flush :: "card \<Rightarrow> kern \<Rightarrow> (unit res \<times> kern) option" where
  "nv50_graph_tlb_flush d s = nv50_vm_flush d 0 s"

text \<open>The NV86 must be idle first: wait for it two seconds at most.\<close>

definition nv86_busy :: "card \<Rightarrow> kern \<Rightarrow> (bool \<times> kern) option" where
  "nv86_busy d s = do {
     (a, s) \<leftarrow> nv_rd32 d 0x400380 s;
     if a \<noteq> 0 then Some (True, s)
     else do {
       (b, s) \<leftarrow> nv_rd32 d 0x400384 s;
       if b \<noteq> 0 then Some (True, s)
       else do { (c, s) \<leftarrow> nv_rd32 d 0x400388 s; Some (c \<noteq> 0, s) } } }"

partial_function (option) nv86_idle_from :: "card \<Rightarrow> u64 \<Rightarrow> kern \<Rightarrow> kern option" where
  "nv86_idle_from d start s = do {
     (busy, s) \<leftarrow> nv86_busy d s;
     if \<not> busy then Some s
     else do {
       (now, s) \<leftarrow> nv04_timer_read d s;
       if now - start \<ge> 2000000000 then do {
         (_, s) \<leftarrow> nv_rd32 d 0x400380 s;
         (_, s) \<leftarrow> nv_rd32 d 0x400384 s;
         (_, s) \<leftarrow> nv_rd32 d 0x400388 s;
         (_, s) \<leftarrow> nv_rd32 d 0x400700 s;
         Some s }
       else nv86_idle_from d start s } }"

definition nv86_graph_tlb_flush :: "card \<Rightarrow> kern \<Rightarrow> (unit res \<times> kern) option" where
  "nv86_graph_tlb_flush d s = do {
     s \<leftarrow> nv_wr32 d 0x400500 0 s;
     (start, s) \<leftarrow> nv04_timer_read d s;
     s \<leftarrow> nv86_idle_from d start s;
     (ret, s) \<leftarrow> nv50_vm_flush d 0 s;
     s \<leftarrow> nv_wr32 d 0x400500 0x10001 s;
     Some (ret, s) }"

text \<open>
  The engines that use an address space are flushed too. Only PGRAPH (number 1) registers itself;
  an engine in use that is not there is a NULL dereference.
\<close>

definition engine_tlb_flush :: "card \<Rightarrow> nat \<Rightarrow> kern \<Rightarrow> (unit res \<times> kern) option" where
  "engine_tlb_flush d i s =
     (if i \<noteq> 1 \<or> grctx_size s = None then None
      else if chipset d = 0x86 then nv86_graph_tlb_flush d s
      else nv50_graph_tlb_flush d s)"

primrec flush_engines :: "card \<Rightarrow> nat \<Rightarrow> nat list \<Rightarrow> kern \<Rightarrow> (unit res \<times> kern) option" where
  "flush_engines d v [] s = Some (Inr (), s)"
| "flush_engines d v (i # is) s = do {
     e \<leftarrow> nv50_vs v s;
     if engref e i = 0 then flush_engines d v is s
     else do {
       (ret, s) \<leftarrow> engine_tlb_flush d i s;
       case ret of Inl err \<Rightarrow> Some (Inl err, s) | Inr _ \<Rightarrow> flush_engines d v is s } }"

definition nv50_vspace_tlb_flush :: "card \<Rightarrow> nat \<Rightarrow> kern \<Rightarrow> (unit res \<times> kern) option" where
  "nv50_vspace_tlb_flush d v s = do {
     (_, s) \<leftarrow> nv50_vm_flush d 5 s;
     flush_engines d v [0..<16] s }"

subsection \<open>Page table entries\<close>

text \<open>\<open>lev\<close>: the largest block the rest of the range and the alignment of its address allow.\<close>

fun pte_level :: "nat \<Rightarrow> u64 \<Rightarrow> u64 \<Rightarrow> nat \<Rightarrow> nat" where
  "pte_level 0 sz offset lev = lev"
| "pte_level (Suc k) sz offset lev =
     (if sz \<ge> push_bit (lev + 1) 0x1000 \<and> \<not> bit offset (lev + 12)
      then pte_level k sz offset (lev + 1) else lev)"

definition pdenum :: "u64 \<Rightarrow> nat" where
  "pdenum offset = unat (ucast (offset div 0x1000) :: u32) div NV50_VM_SPTE_COUNT"

definition ptenum :: "u64 \<Rightarrow> nat" where
  "ptenum offset = unat (ucast (offset div 0x1000) :: u32) mod NV50_VM_SPTE_COUNT"

definition spte :: "nat \<Rightarrow> u32" where
  "spte i = of_nat (i * 8)"

definition write_block :: "card \<Rightarrow> nat \<Rightarrow> nat \<Rightarrow> nat \<Rightarrow> u64 \<Rightarrow> kern \<Rightarrow> kern option" where
  "write_block d t n lev pte s =
     for_each (\<lambda>i s. do {
       s \<leftarrow> nv_wv32 d t (spte (n + i) + 4) (ucast (drop_bit 32 pte)) s;
       nv_wv32 d t (spte (n + i)) (ucast (pte OR of_nat (lev * 2 ^ 7))) s }) [0..<2 ^ lev] s"

subsection \<open>Unmapping\<close>

partial_function (option) nv50_unmap_pages :: "card \<Rightarrow> nat \<Rightarrow> u64 \<Rightarrow> u64 \<Rightarrow> kern \<Rightarrow> kern option" where
  "nv50_unmap_pages d v offset length' s =
     (if length' = 0 then Some s
      else do {
        e \<leftarrow> nv50_vs v s;
        if NV50_VM_PDE_COUNT \<le> pdenum offset then None
        else do {
          s \<leftarrow> (case pt e (pdenum offset) of
                  Some t \<Rightarrow> nv_wv32 d t (spte (ptenum offset)) 0 s
                | None \<Rightarrow> Some s);
          nv50_unmap_pages d v (offset + 0x1000) (length' - 0x1000) s } })"

definition nv50_vspace_do_unmap :: "card \<Rightarrow> nat \<Rightarrow> u64 \<Rightarrow> u64 \<Rightarrow> kern \<Rightarrow> (unit res \<times> kern) option" where
  "nv50_vspace_do_unmap d v offset length' s = do {
     s \<leftarrow> nv50_unmap_pages d v offset length' s;
     s \<leftarrow> bar_flush d s;
     vs \<leftarrow> vss s v;
     if vid vs = -1 then nv50_vm_flush d 6 s
     else do { (_, s) \<leftarrow> nv50_vspace_tlb_flush d v s; Some (Inr (), s) } }"

subsection \<open>Mapping\<close>

definition nv50_vm_map_kernel :: "card \<Rightarrow> vm_engine \<Rightarrow> nat \<Rightarrow> kern \<Rightarrow> (unit res \<times> kern) option" where
  "nv50_vm_map_kernel d E b s = do {
     bo \<leftarrow> bos s b;
     if bmap3 bo \<noteq> None then Some (Inr (), s)
     else do {
       v \<leftarrow> barvm s;
       (ret, node, s) \<leftarrow> pscnv_vspace_map d E v b (fb_size d) (fb_size d + ramin_size d) False s;
       s \<leftarrow> upd_bo b (\<lambda>bo. case node of Some p \<Rightarrow> bo\<lparr>bmap3 := Some p\<rparr> | None \<Rightarrow> bo) s;
       Some (ret, s) } }"

definition nv50_vm_map_user :: "card \<Rightarrow> vm_engine \<Rightarrow> nat \<Rightarrow> kern \<Rightarrow> (unit res \<times> kern) option" where
  "nv50_vm_map_user d E b s = do {
     bo \<leftarrow> bos s b;
     if bmap1 bo \<noteq> None then Some (Inr (), s)
     else do {
       v \<leftarrow> barvm s;
       (ret, node, s) \<leftarrow> pscnv_vspace_map d E v b 0 (fb_size d) False s;
       s \<leftarrow> upd_bo b (\<lambda>bo. case node of Some p \<Rightarrow> bo\<lparr>bmap1 := Some p\<rparr> | None \<Rightarrow> bo) s;
       Some (ret, s) } }"

text \<open>A new page table: cleared, and entered in the page directory of every channel of the space.\<close>

definition nv50_vspace_fill_pd_slot :: "card \<Rightarrow> vm_engine \<Rightarrow> nat \<Rightarrow> nat \<Rightarrow> kern \<Rightarrow> (unit res \<times> kern) option" where
  "nv50_vspace_fill_pd_slot d E v slot s = do {
     (t, s) \<leftarrow> pscnv_mem_alloc d (of_nat (NV50_VM_SPTE_COUNT * 8)) PSCNV_GEM_CONTIG 0 0xa9e7ab1e s;
     s \<leftarrow> upd_nv50_vs v (\<lambda>e. e\<lparr>pt := (pt e)(slot := t)\<rparr>) s;
     case t of
       None \<Rightarrow> Some (Inl ENOMEM, s)
     | Some t \<Rightarrow> do {
         vs \<leftarrow> vss s v;
         s \<leftarrow> (if vid vs \<noteq> -1 then do { (_, s) \<leftarrow> nv50_vm_map_kernel d E t s; Some s } else Some s);
         s \<leftarrow> for_each (\<lambda>i. nv_wv32 d t (spte i) 0) [0..<NV50_VM_SPTE_COUNT] s;
         e \<leftarrow> nv50_vs v s;
         s \<leftarrow> for_each (\<lambda>c s. do {
             ch \<leftarrow> chs s c;
             cb \<leftarrow> cbo ch;
             bo \<leftarrow> bos s t;
             let pde = bstart bo OR 3;
             s \<leftarrow> nv_wv32 d cb (chan_pd d + of_nat (slot * 8) + 4) (ucast (drop_bit 32 pde)) s;
             nv_wv32 d cb (chan_pd d + of_nat (slot * 8)) (ucast pde) s }) (chan_list e) s;
         Some (Inr (), s) } }"

partial_function (option) nv50_map_contig_range ::
  "card \<Rightarrow> vm_engine \<Rightarrow> nat \<Rightarrow> u64 \<Rightarrow> u64 \<Rightarrow> u64 \<Rightarrow> kern \<Rightarrow> (unit res \<times> kern) option" where
  "nv50_map_contig_range d E v offset pte sz s =
     (if sz = 0 then Some (Inr (), s)
      else do {
        let lev = pte_level 7 sz offset 0;
        e \<leftarrow> nv50_vs v s;
        if NV50_VM_PDE_COUNT \<le> pdenum offset then None
        else do {
          (ret, s) \<leftarrow>
            (if pt e (pdenum offset) = None then nv50_vspace_fill_pd_slot d E v (pdenum offset) s
             else Some (Inr (), s));
          case ret of
            Inl err \<Rightarrow> Some (Inl err, s)
          | Inr _ \<Rightarrow> do {
              e \<leftarrow> nv50_vs v s;
              t \<leftarrow> pt e (pdenum offset);
              s \<leftarrow> write_block d t (ptenum offset) lev pte s;
              let step = push_bit lev 0x1000;
              nv50_map_contig_range d E v (offset + step) (pte + step) (sz - step) s } } })"

definition nv50_vspace_place_map ::
  "card \<Rightarrow> nat \<Rightarrow> nat \<Rightarrow> u64 \<Rightarrow> u64 \<Rightarrow> bool \<Rightarrow> kern \<Rightarrow> (nat option res \<times> kern) option" where
  "nv50_vspace_place_map d v b start end' back s = do {
     bo \<leftarrow> bos s b;
     m \<leftarrow> vs_mm v s;
     (ret, m) \<leftarrow> pscnv_mm_alloc (mm_kz d (Some v)) m (bsize bo)
       (if back then PSCNV_MM_FROMBACK else 0) start end';
     s \<leftarrow> set_vs_mm v m s;
     Some (ret, s) }"

text \<open>The entry of the first page of a piece of VRAM, or of a page of system memory.\<close>

definition nv50_vram_pte :: "card \<Rightarrow> bo \<Rightarrow> u64 \<Rightarrow> kern \<Rightarrow> u64" where
  "nv50_vram_pte d bo start s =
     (let pte = (if igp d then (start + vram_sys_base s) OR 0x30 else start)
      in pte OR push_bit 40 (ucast (btile_flags bo)) OR 1)"

definition nv50_sysram_pte :: "bo \<Rightarrow> u64 \<Rightarrow> u64" where
  "nv50_sysram_pte bo addr = addr OR 1 OR (if mem_type (bflags bo) = SysramSnoop then 0x20 else 0x30)"

text \<open>The pieces of an object one after the other; when one fails, all are unmapped again.\<close>

partial_function (option) nv50_map_vram ::
  "card \<Rightarrow> vm_engine \<Rightarrow> nat \<Rightarrow> nat \<Rightarrow> u64 \<Rightarrow> u64 \<Rightarrow> nat option \<Rightarrow> kern \<Rightarrow> (unit res \<times> kern) option" where
  "nv50_map_vram d E v b offset roff n s =
     (case n of
        None \<Rightarrow> Some (Inr (), s)
      | Some n \<Rightarrow> do {
          bo \<leftarrow> bos s b;
          m \<leftarrow> vram_mm s;
          node \<leftarrow> mm_lookup m n;
          (ret, s) \<leftarrow> nv50_map_contig_range d E v (offset + roff) (nv50_vram_pte d bo (nstart node) s) (nsize node) s;
          case ret of
            Inl err \<Rightarrow> do {
              bo \<leftarrow> bos s b;
              (_, s) \<leftarrow> nv50_vspace_do_unmap d v offset (bsize bo) s;
              Some (Inl err, s) }
          | Inr _ \<Rightarrow> do {
              m \<leftarrow> vram_mm s;
              node \<leftarrow> mm_lookup m n;
              nv50_map_vram d E v b offset (roff + nsize node) (nnext node) s } })"

primrec nv50_map_sysram ::
  "card \<Rightarrow> vm_engine \<Rightarrow> nat \<Rightarrow> nat \<Rightarrow> u64 \<Rightarrow> nat list \<Rightarrow> kern \<Rightarrow> (unit res \<times> kern) option" where
  "nv50_map_sysram d E v b offset [] s = Some (Inr (), s)"
| "nv50_map_sysram d E v b offset (i # is) s = do {
     bo \<leftarrow> bos s b;
     if length (bdmapages bo) \<le> i then None
     else do {
       (ret, s) \<leftarrow> nv50_map_contig_range d E v (offset + of_nat i * 0x1000)
         (nv50_sysram_pte bo (bdmapages bo ! i)) 0x1000 s;
       case ret of
         Inl err \<Rightarrow> do {
           (_, s) \<leftarrow> nv50_vspace_do_unmap d v offset (bsize bo) s;
           Some (Inl err, s) }
       | Inr _ \<Rightarrow> nv50_map_sysram d E v b offset is s } }"

definition nv50_vspace_do_map :: "card \<Rightarrow> vm_engine \<Rightarrow> nat \<Rightarrow> nat \<Rightarrow> u64 \<Rightarrow> kern \<Rightarrow> (unit res \<times> kern) option" where
  "nv50_vspace_do_map d E v b offset s = do {
     bo \<leftarrow> bos s b;
     (ret, s) \<leftarrow>
       (if mem_type (bflags bo) \<in> {VramSmall, VramLarge} then nv50_map_vram d E v b offset 0 (bmmnode bo) s
        else nv50_map_sysram d E v b offset [0..<unat (drop_bit 12 (bsize bo))] s);
     case ret of
       Inl err \<Rightarrow> Some (Inl err, s)
     | Inr _ \<Rightarrow> do { s \<leftarrow> bar_flush d s; Some (Inr (), s) } }"

subsection \<open>Creating and freeing\<close>

definition nv50_vspace_new :: "card \<Rightarrow> nat \<Rightarrow> kern \<Rightarrow> (unit res \<times> kern) option" where
  "nv50_vspace_new d v s = do {
     vs \<leftarrow> vss s v;
     if vsize vs > push_bit 40 1 then Some (Inl EINVAL, s)
     else do {
       ((failed, _), s) \<leftarrow> request d Kzalloc s;
       if failed \<noteq> 0 then Some (Inl ENOMEM, s)
       else do {
         s \<leftarrow> upd_vs v (\<lambda>vs. vs\<lparr>veng := Nv50 \<lparr>chan_list = [], engref = (\<lambda>_. 0), pt = (\<lambda>_. None)\<rparr>\<rparr>) s;
         ret \<leftarrow> pscnv_mm_init (mm_kz d (Some v)) 0 (vsize vs) 0x1000 0x10000 0x20000000;
         case ret of
           Inl err \<Rightarrow> do { s \<leftarrow> upd_vs v (\<lambda>vs. vs\<lparr>veng := NoEng\<rparr>) s; Some (Inl err, s) }
         | Inr m \<Rightarrow> do { s \<leftarrow> set_vs_mm v m s; Some (Inr (), s) } } } }"

definition nv50_vspace_free :: "card \<Rightarrow> vm_engine \<Rightarrow> nat \<Rightarrow> kern \<Rightarrow> kern option" where
  "nv50_vspace_free d E v s = do {
     s \<leftarrow> for_each (\<lambda>i s. do {
         e \<leftarrow> nv50_vs v s;
         case pt e i of None \<Rightarrow> Some s | Some t \<Rightarrow> pscnv_mem_free d E t s }) [0..<NV50_VM_PDE_COUNT] s;
     upd_vs v (\<lambda>vs. vs\<lparr>veng := NoEng\<rparr>) s }"

subsection \<open>The engine\<close>

text \<open>
  The table of functions for calls nested at most \<open>n\<close> deep. A map nests at most twice: the page
  table of a client's space is mapped in that of the BARs, whose own page tables are not.
\<close>

definition no_engine :: vm_engine where
  "no_engine = \<lparr>e_vspace_new = (\<lambda>_ _. None), e_vspace_free = (\<lambda>_ _. None),
     e_place_map = (\<lambda>_ _ _ _ _ _. None), e_do_map = (\<lambda>_ _ _ _. None), e_do_unmap = (\<lambda>_ _ _ _. None),
     e_map_user = (\<lambda>_ _. None), e_map_kernel = (\<lambda>_ _. None), e_mem_free = (\<lambda>_ _. None)\<rparr>"

primrec nv50_vm :: "card \<Rightarrow> nat \<Rightarrow> vm_engine" where
  "nv50_vm d 0 = no_engine"
| "nv50_vm d (Suc n) = (let E = nv50_vm d n in
     \<lparr>e_vspace_new = nv50_vspace_new d, e_vspace_free = nv50_vspace_free d E,
      e_place_map = nv50_vspace_place_map d, e_do_map = nv50_vspace_do_map d E,
      e_do_unmap = nv50_vspace_do_unmap d, e_map_user = nv50_vm_map_user d E,
      e_map_kernel = nv50_vm_map_kernel d E, e_mem_free = pscnv_mem_free d E\<rparr>)"

declare nv86_idle_from.simps [code] nv50_unmap_pages.simps [code] nv50_map_contig_range.simps [code]
  nv50_map_vram.simps [code]

end
