(* ===== verification/PageTables.thy ===== *)
theory PageTables
  imports Nv50Vm
begin

section \<open>Page tables as a translation\<close>

text \<open>
  What the entries that \<open>nv50_vspace_map_contig_range\<close> writes mean. The page of an address is that of
  an entry, by page table and place in it; an entry holds the address and the flags of a block of
  \<open>2 ^ lev\<close> pages, which starts at a multiple of its size.
\<close>

subsection \<open>Entries\<close>

definition entry_at :: "memory \<Rightarrow> nv50_vspace \<Rightarrow> kern \<Rightarrow> nat \<Rightarrow> u64 option" where
  "entry_at m0 e s pg = map_option (\<lambda>t.
     push_bit 32 (ucast (bo_word m0 t s (spte (pg mod NV50_VM_SPTE_COUNT) + 4))) OR
       ucast (bo_word m0 t s (spte (pg mod NV50_VM_SPTE_COUNT)))) (pt e (pg div NV50_VM_SPTE_COUNT))"

definition block_level :: "u64 \<Rightarrow> nat" where
  "block_level p = unat (drop_bit 7 p AND 7)"

text \<open>So many pages, in bytes.\<close>

definition pages :: "nat \<Rightarrow> u64" where
  "pages n = of_nat (n * 0x1000)"

text \<open>The flags and address of page \<open>pg\<close>, whose entry is \<open>p\<close>.\<close>

definition page_target :: "u64 \<Rightarrow> nat \<Rightarrow> u64" where
  "page_target p pg = (p AND NOT 0x380) + pages (pg mod 2 ^ block_level p)"

lemma join_halves: "push_bit 32 (ucast (ucast (drop_bit 32 p) :: u32)) OR ucast (ucast p :: u32) = (p :: u64)"
  by (rule bit_word_eqI) (auto simp: bit_simps)

lemma level_field: "(0x380 :: u64) = push_bit 7 (mask 3)" "(7 :: u64) = mask 3"
  by (simp_all add: mask_eq_exp_minus_1)

lemma unat_small: "n < 2 ^ 64 \<Longrightarrow> unat (of_nat n :: u64) = n"
  by (simp add: unat_of_nat take_bit_nat_eq_self)

lemma unat_pages: "n \<le> 2 ^ 28 \<Longrightarrow> unat (pages n) = n * 0x1000"
  unfolding pages_def by (rule unat_small) simp

lemma no_level: "p AND 0x380 = (0 :: u64) \<longleftrightarrow> (\<forall>i \<in> {7..<10}. \<not> bit p i)"
proof -
  have "p AND 0x380 = (0 :: u64) \<longleftrightarrow> (\<forall>i < 64. \<not> (bit p i \<and> 7 \<le> i \<and> i < 10))"
    unfolding level_field bit_eq_iff by (auto simp: bit_simps)
  moreover have "bit p i \<Longrightarrow> i < 64" for i using bit_imp_le_length [of p i] by simp
  ultimately show ?thesis by force
qed

lemma with_level:
  assumes "p AND 0x380 = (0 :: u64)" "lev < 8"
  shows "block_level (p OR of_nat (lev * 2 ^ 7)) = lev" "(p OR of_nat (lev * 2 ^ 7)) AND NOT 0x380 = p"
proof -
  have field: "of_nat (lev * 2 ^ 7) = push_bit 7 (of_nat lev :: u64)" by (simp add: push_bit_eq_mult)
  note p = assms(1) [unfolded no_level]
  have "lev = take_bit 3 lev" using assms(2) by (simp add: take_bit_nat_eq_self)
  then have "bit lev i \<Longrightarrow> i < 3" for i by (metis bit_take_bit_iff)
  then have lev: "\<not> bit (of_nat lev :: u64) i" if "3 \<le> i" for i using that by (force simp: bit_simps)
  show "(p OR of_nat (lev * 2 ^ 7)) AND NOT 0x380 = p"
    unfolding field level_field(1)
  proof (rule bit_word_eqI)
    fix i assume "i < LENGTH(64)"
    with p lev [of "i - 7"] show "bit ((p OR push_bit 7 (of_nat lev)) AND NOT (push_bit 7 (mask 3))) i = bit p i"
      by (auto simp: bit_simps)
  qed
  have "drop_bit 7 (p OR push_bit 7 (of_nat lev)) AND mask 3 = (of_nat lev :: u64)"
  proof (rule bit_word_eqI)
    fix i assume "i < LENGTH(64)"
    with p lev [of i] show "bit (drop_bit 7 (p OR push_bit 7 (of_nat lev)) AND mask 3) i = bit (of_nat lev :: u64) i"
      by (cases "i < 3") (simp_all add: bit_simps)
  qed
  with assms(2) show "block_level (p OR of_nat (lev * 2 ^ 7)) = lev"
    unfolding block_level_def field level_field(2) by (simp add: unat_of_nat take_bit_nat_eq_self)
qed

text \<open>Adding pages leaves the flags below the address alone.\<close>

lemma no_level_add: "p AND 0x380 = (0 :: u64) \<Longrightarrow> (p + pages n) AND 0x380 = 0"
proof -
  have "unat (pages n) mod 2 ^ 12 = 0"
    unfolding pages_def unat_of_nat by (subst mod_mod_cancel) simp_all
  moreover have "unat (p + pages n) mod 2 ^ 12 = (unat p + unat (pages n)) mod 2 ^ 12"
    unfolding unat_word_ariths by (subst mod_mod_cancel) simp_all
  ultimately have "unat (p + pages n) mod 2 ^ 12 = unat p mod 2 ^ 12" by (metis add.right_neutral mod_add_right_eq)
  then have "take_bit 12 (p + pages n) = take_bit 12 p"
    by (intro word_unat_eq_iff [THEN iffD2], simp only: unsigned_take_bit_eq, simp only: take_bit_eq_mod)
  then have "bit (p + pages n) i = bit p i" if "i < 12" for i
    using that by (metis bit_take_bit_iff)
  then show "p AND 0x380 = (0 :: u64) \<Longrightarrow> (p + pages n) AND 0x380 = 0" by (simp add: no_level)
qed

subsection \<open>The level of a block\<close>

lemma pte_level_step:
  assumes "l < 7" "2 ^ l dvd pg" "pg < 2 ^ 28"
  shows "\<not> bit (pages pg) (l + 12) \<longleftrightarrow> 2 ^ Suc l dvd pg"
proof -
  have "unat (pages pg) = pg * 2 ^ 12" using assms(3) unat_pages [of pg] by simp
  moreover have "pg * 2 ^ 12 div 2 ^ (l + 12) = pg div 2 ^ l" by (simp add: power_add mult.commute)
  ultimately have "bit (pages pg) (l + 12) \<longleftrightarrow> odd (pg div 2 ^ l)"
    using bit_unsigned_iff [where ?'a = nat, of "pages pg" "l + 12"] bit_iff_odd [of "unat (pages pg)" "l + 12"] by simp
  moreover from assms(2) have "2 ^ Suc l dvd pg \<longleftrightarrow> even (pg div 2 ^ l)" by (auto elim!: dvdE)
  ultimately show ?thesis by simp
qed

lemma pte_level_block:
  assumes "k + l \<le> 7" "2 ^ l \<le> n" "2 ^ l dvd pg" "pg + n \<le> 2 ^ 28" "n \<le> 2 ^ 28"
  shows "\<exists>lev. pte_level k (pages n) (pages pg) l = lev \<and> lev \<le> 7 \<and> 2 ^ lev \<le> n \<and> 2 ^ lev dvd pg"
  using assms
proof (induction k arbitrary: l)
  case (Suc k)
  have "push_bit (l + 1) (0x1000 :: u64) \<le> pages n \<longleftrightarrow> 2 ^ Suc l \<le> n"
  proof -
    have "push_bit (l + 1) (0x1000 :: u64) = pages (2 ^ Suc l)" by (simp add: push_bit_eq_mult pages_def)
    moreover have "(2::nat) ^ Suc l \<le> 2 ^ 7" using Suc.prems(1) by (intro power_increasing) simp_all
    ultimately show ?thesis using Suc.prems(5) unat_pages [of "2 ^ Suc l"] unat_pages [of n]
      by (simp add: word_le_nat_alt)
  qed
  moreover have "pg < 2 ^ 28" using Suc.prems(2,4) less_le_trans [of 0 "2 ^ l" n] by simp
  ultimately show ?case using pte_level_step [of l pg] Suc.IH [of "Suc l"] Suc.prems by auto
qed auto

subsection \<open>Writing a block\<close>

context word_store
begin

text \<open>Two words for each element of a list, none in the way of another.\<close>

lemma store_pairs:
  "ok s \<Longrightarrow> \<forall>x \<in> set xs. inside s (g x) \<and> inside s (f x) \<Longrightarrow>
    \<exists>s'. for_each (\<lambda>i s. do { s \<leftarrow> wr (g i) h s; wr (f i) l s }) xs s = Some s' \<and> ok s' \<and> frame s s' \<and>
    cell s' = fold (\<lambda>i c. c(g i := h, f i := l)) xs (cell s)"
proof (induction xs arbitrary: s)
  case Nil
  then show ?case by (simp add: frame_refl)
next
  case (Cons x xs)
  from Cons.prems have in1: "inside s (g x)" "inside s (f x)" by simp_all
  obtain s1 where 1: "wr (g x) h s = Some s1" "ok s1" "cell s1 = (cell s)(g x := h)" "frame s s1"
    using Cons.prems(1) in1(1) by (rule wrE)
  obtain s2 where 2: "wr (f x) l s1 = Some s2" "ok s2" "cell s2 = (cell s1)(f x := l)" "frame s1 s2"
    using 1(2) in1(2) [folded frame_inside [OF 1(4)]] by (rule wrE)
  have "inside s2 = inside s" using frame_inside [OF 1(4)] frame_inside [OF 2(4)] by simp
  with Cons.IH [OF 2(2)] Cons.prems(2) obtain s3 where "for_each (\<lambda>i s. do { s \<leftarrow> wr (g i) h s; wr (f i) l s }) xs s2 = Some s3"
    "ok s3" "frame s2 s3" "cell s3 = fold (\<lambda>i c. c(g i := h, f i := l)) xs (cell s2)" by (auto simp del: fun_upd_apply)
  with 1 2 frame_trans [OF frame_trans [OF 1(4) 2(4)]] show ?case by (simp del: fun_upd_apply)
qed

end

lemma fold_pairs:
  assumes "\<forall>i \<in> set xs. \<forall>j \<in> set xs. g i \<noteq> f j"
  shows "fold (\<lambda>i c. c(g i := h, f i := l)) xs c = (\<lambda>a. if a \<in> g ` set xs then h else if a \<in> f ` set xs then l else c a)"
  using assms
proof (induction xs arbitrary: c)
  case (Cons x xs)
  then show ?case by (auto simp: fun_eq_iff)
qed simp

lemma spte_eq:
  assumes "i < NV50_VM_SPTE_COUNT" "j < NV50_VM_SPTE_COUNT"
  shows "spte i = spte j \<longleftrightarrow> i = j" "spte i + 4 \<noteq> spte j" "spte i + 4 = spte j + 4 \<longleftrightarrow> i = j"
proof -
  have u: "unat (spte k) = k * 8" "unat (spte k + 4) = k * 8 + 4" if "k < NV50_VM_SPTE_COUNT" for k
  proof -
    show 1: "unat (spte k) = k * 8" using that unfolding spte_def unat_of_nat by simp
    then show "unat (spte k + 4) = k * 8 + 4" using that by (simp add: unat_word_ariths)
  qed
  show "spte i = spte j \<longleftrightarrow> i = j" "spte i + 4 \<noteq> spte j"
    unfolding word_unat_eq_iff using u [OF assms(1)] u [OF assms(2)] by presburger+
  show "spte i + 4 = spte j + 4 \<longleftrightarrow> i = j" using \<open>spte i = spte j \<longleftrightarrow> i = j\<close> by simp
qed

text \<open>
  The tables of some slots of the directory: they exist, can be reached and have their full size of
  1 MB, and none lies over another.
\<close>

definition tables :: "nat set \<Rightarrow> nv50_vspace \<Rightarrow> kern \<Rightarrow> bool" where
  "tables S e s \<longleftrightarrow>
     (\<forall>i \<in> S. \<exists>t bo. pt e i = Some t \<and> reachable_bo t s \<and> bos s t = Some bo \<and> 8 * NV50_VM_SPTE_COUNT \<le> unat (bsize bo)) \<and>
     (\<forall>i \<in> S. \<forall>j \<in> S. \<forall>t u a b q. i \<noteq> j \<longrightarrow> pt e i = Some t \<longrightarrow> pt e j = Some u \<longrightarrow>
        bo_inside t s a \<longrightarrow> bo_inside u s b \<longrightarrow> bo_place t s a = Some q \<longrightarrow> bo_place u s b \<noteq> Some q)"

lemma spte_inside:
  assumes "tables S e s" "i \<in> S" "pt e i = Some t" "k < NV50_VM_SPTE_COUNT"
  shows "bo_inside t s (spte k)" "bo_inside t s (spte k + 4)"
proof -
  have u: "unat (spte k) = k * 8" using assms(4) unfolding spte_def unat_of_nat by simp
  then have "unat (spte k + 4) = k * 8 + 4" using assms(4) by (simp add: unat_word_ariths)
  with u assms show "bo_inside t s (spte k)" "bo_inside t s (spte k + 4)"
    by (fastforce simp: tables_def bo_inside_def)+
qed

lemma tables_frame: "mem_frame s s' \<Longrightarrow> tables S e s' = tables S e s"
proof -
  assume f: "mem_frame s s'"
  then have "bos s' = bos s" by (auto elim: mem_frameE)
  then show "tables S e s' = tables S e s" by (simp add: tables_def mem_frame_places [OF f])
qed

lemma write_block_entries:
  assumes tables: "tables S e s" and m: "remembers d m0" "window_ok m0 s"
    and slot: "slot \<in> S" "pt e slot = Some t" and fits: "n + 2 ^ lev \<le> NV50_VM_SPTE_COUNT" and lev: "lev < 8"
  shows "\<exists>s'. write_block d t n lev p s = Some s' \<and> mem_frame s s' \<and> window_ok m0 s' \<and>
    (\<forall>pg. pg div NV50_VM_SPTE_COUNT \<in> S \<longrightarrow> entry_at m0 e s' pg =
      (if pg div NV50_VM_SPTE_COUNT = slot \<and> n \<le> pg mod NV50_VM_SPTE_COUNT \<and> pg mod NV50_VM_SPTE_COUNT < n + 2 ^ lev
       then Some (p OR of_nat (lev * 2 ^ 7)) else entry_at m0 e s pg))"
proof -
  let ?P = "p OR of_nat (lev * 2 ^ 7)"
  let ?h = "ucast (drop_bit 32 p) :: u32" and ?l = "ucast ?P :: u32"
  from tables slot have ok: "bo_ok d m0 t s" using m by (auto simp: bo_ok_def tables_def)
  have "\<forall>i \<in> set [0..<2 ^ lev]. bo_inside t s (spte (n + i) + 4) \<and> bo_inside t s (spte (n + i))"
    using fits spte_inside [OF tables slot] by auto
  from words.store_pairs [OF ok this]
  obtain s' where s': "write_block d t n lev p s = Some s'" "bo_ok d m0 t s'" "bo_frame m0 t s s'"
    and w: "bo_word m0 t s' = fold (\<lambda>i c. c(spte (n + i) + 4 := ?h, spte (n + i) := ?l)) [0..<2 ^ lev] (bo_word m0 t s)"
    unfolding write_block_def by blast
  have apart: "\<forall>i \<in> set [0..<2 ^ lev]. \<forall>j \<in> set [0..<2 ^ lev]. spte (n + i) + 4 \<noteq> spte (n + j)"
    using fits by (intro ballI spte_eq(2)) auto
  note w = w [unfolded fold_pairs [OF apart]]
  have hi: "?h = ucast (drop_bit 32 ?P)"
  proof -
    have "unat (of_nat (lev * 2 ^ 7) :: u64) = lev * 2 ^ 7" by (rule unat_small) (use lev in simp)
    then have "drop_bit 32 (of_nat (lev * 2 ^ 7) :: u64) = 0"
      using lev by (intro word_unat_eq_iff [THEN iffD2]) (simp add: drop_bit_eq_div unat_div del: of_nat_mult)
    then show ?thesis by (simp only: drop_bit_or or.right_neutral)
  qed
  have mine: "bo_word m0 t s' (spte k + 4) = (if n \<le> k \<and> k < n + 2 ^ lev then ucast (drop_bit 32 ?P) else bo_word m0 t s (spte k + 4))"
    "bo_word m0 t s' (spte k) = (if n \<le> k \<and> k < n + 2 ^ lev then ?l else bo_word m0 t s (spte k))"
    if k: "k < NV50_VM_SPTE_COUNT" for k
  proof -
    have eq: "spte k + 4 = spte (n + i) + 4 \<longleftrightarrow> k = n + i" "spte k = spte (n + i) \<longleftrightarrow> k = n + i" "spte k + 4 \<noteq> spte (n + i)"
      "spte k \<noteq> spte (n + i) + 4" if "i < 2 ^ lev" for i
    proof -
      from that fits have "n + i < NV50_VM_SPTE_COUNT" by simp
      from spte_eq [OF k this] spte_eq(2) [OF this k] show "spte k + 4 = spte (n + i) + 4 \<longleftrightarrow> k = n + i"
        "spte k = spte (n + i) \<longleftrightarrow> k = n + i" "spte k + 4 \<noteq> spte (n + i)" "spte k \<noteq> spte (n + i) + 4" by auto
    qed
    have in_block: "(\<exists>i < 2 ^ lev. k = n + i) \<longleftrightarrow> n \<le> k \<and> k < n + 2 ^ lev" by (auto intro: exI [of _ "k - n"])
    from eq in_block show "bo_word m0 t s' (spte k + 4) =
        (if n \<le> k \<and> k < n + 2 ^ lev then ucast (drop_bit 32 ?P) else bo_word m0 t s (spte k + 4))"
      unfolding w hi by (auto simp: image_iff)
    from eq in_block show "bo_word m0 t s' (spte k) = (if n \<le> k \<and> k < n + 2 ^ lev then ?l else bo_word m0 t s (spte k))"
      unfolding w by (auto simp: image_iff)
  qed
  from s'(3) have frame: "mem_frame s s'" by (simp add: bo_frame_def)
  have other: "bo_word m0 u s' a = bo_word m0 u s a" if "pt e i = Some u" "i \<in> S" "i \<noteq> slot" "bo_inside u s a" for i u a
    unfolding bo_word_def mem_frame_places [OF frame]
  proof (cases "bo_place u s a")
    case (Some q)
    with tables that slot have "\<forall>b. bo_inside t s b \<longrightarrow> bo_place t s b \<noteq> Some q" unfolding tables_def by blast
    with s'(3) Some show "(case bo_place u s a of None \<Rightarrow> 0 | Some p \<Rightarrow> word_at (mem_now m0 s') p) =
        (case bo_place u s a of None \<Rightarrow> 0 | Some p \<Rightarrow> word_at (mem_now m0 s) p)" by (simp add: bo_frame_def)
  qed simp
  have "entry_at m0 e s' pg = (if pg div NV50_VM_SPTE_COUNT = slot \<and> n \<le> pg mod NV50_VM_SPTE_COUNT \<and>
      pg mod NV50_VM_SPTE_COUNT < n + 2 ^ lev then Some ?P else entry_at m0 e s pg)" if "pg div NV50_VM_SPTE_COUNT \<in> S" for pg
  proof (cases "pg div NV50_VM_SPTE_COUNT = slot")
    case True
    then show ?thesis using slot(2) mine [of "pg mod NV50_VM_SPTE_COUNT"] by (simp add: entry_at_def join_halves del: of_nat_mult drop_bit_or)
  next
    case False
    with that other spte_inside [OF tables that, of _ "pg mod NV50_VM_SPTE_COUNT"] show ?thesis
      by (cases "pt e (pg div NV50_VM_SPTE_COUNT)") (simp_all add: entry_at_def)
  qed
  with s' frame show ?thesis by (auto simp: bo_ok_def)
qed

subsection \<open>Mapping a range\<close>

lemma page_of_offset:
  assumes "pg < 2 ^ 28"
  shows "pdenum (pages pg) = pg div NV50_VM_SPTE_COUNT" "ptenum (pages pg) = pg mod NV50_VM_SPTE_COUNT"
proof -
  have "unat (ucast (pages pg div 0x1000) :: u32) = pg"
  proof -
    have "unat (pages pg div 0x1000) = pg" using assms unat_pages [of pg] by (simp add: unat_div)
    then show ?thesis using assms by (simp add: unsigned_ucast_eq take_bit_nat_eq_self)
  qed
  then show "pdenum (pages pg) = pg div NV50_VM_SPTE_COUNT" "ptenum (pages pg) = pg mod NV50_VM_SPTE_COUNT"
    by (simp_all only: pdenum_def ptenum_def)
qed

lemma pages_add: "pages m + pages n = pages (m + n)" "push_bit lev 0x1000 = pages (2 ^ lev)"
  by (simp_all add: pages_def push_bit_eq_mult ring_distribs)

lemma pages_diff: "n \<le> m \<Longrightarrow> pages m - pages n = pages (m - n)"
  using pages_add(1) [of "m - n" n] by (simp add: algebra_simps)

lemma nv50_vs_frame: "mem_frame s s' \<Longrightarrow> nv50_vs v s' = nv50_vs v s"
  by (erule mem_frameE) (simp add: nv50_vs_def)

lemma map_range_entries:
  assumes "nv50_vs v s = Some e" "tables S e s" "remembers d m0" "window_ok m0 s"
    and "pg + n \<le> 2 ^ 28" "\<forall>k < n. (pg + k) div NV50_VM_SPTE_COUNT \<in> S" "p AND 0x380 = 0"
  shows "\<exists>s'. nv50_map_contig_range d E v (pages pg) p (pages n) s = Some (Inr (), s') \<and> mem_frame s s' \<and> window_ok m0 s' \<and>
    (\<forall>k < n. \<exists>x. entry_at m0 e s' (pg + k) = Some x \<and> page_target x (pg + k) = p + pages k) \<and>
    (\<forall>q. q div NV50_VM_SPTE_COUNT \<in> S \<longrightarrow> q \<notin> {pg..<pg + n} \<longrightarrow> entry_at m0 e s' q = entry_at m0 e s q)"
  using assms
proof (induction n arbitrary: pg p s rule: less_induct)
  case (less n)
  show ?case
  proof (cases "n = 0")
    case True
    then show ?thesis by (subst nv50_map_contig_range.simps) (simp add: pages_def less.prems)
  next
    case False
    with less.prems(5) have "pg < 2 ^ 28" "n \<le> 2 ^ 28" by simp_all
    note at = page_of_offset [OF this(1)]
    obtain lev where lev: "pte_level 7 (pages n) (pages pg) 0 = lev" "lev \<le> 7" "2 ^ lev \<le> n" "2 ^ lev dvd pg"
      using pte_level_block [of 7 0 n pg] False less.prems(5) by auto
    let ?slot = "pg div NV50_VM_SPTE_COUNT" and ?n = "pg mod NV50_VM_SPTE_COUNT"
    from less.prems(6) False have slot: "?slot \<in> S" by (auto dest: spec [of _ 0])
    with less.prems(2) obtain t where t: "pt e ?slot = Some t" by (auto simp: tables_def)
    have block: "2 ^ lev dvd ?n" "?n + 2 ^ lev \<le> NV50_VM_SPTE_COUNT"
    proof -
      have "(2::nat) ^ lev dvd 2 ^ 17" using lev(2) by (intro le_imp_power_dvd) simp
      then have d: "2 ^ lev dvd NV50_VM_SPTE_COUNT" by simp
      with lev(4) show n: "2 ^ lev dvd ?n" by (simp add: dvd_mod)
      have "?n < NV50_VM_SPTE_COUNT" by simp
      with n d show "?n + 2 ^ lev \<le> NV50_VM_SPTE_COUNT"
        by (elim dvdE) (metis Suc_leI mult.commute mult_Suc_right mult_le_mono2 mult_less_cancel1 add.commute)
    qed
    from write_block_entries [OF less.prems(2-4) slot t block(2), of p] lev(2) obtain s1 where
      s1: "write_block d t ?n lev p s = Some s1" "mem_frame s s1" "window_ok m0 s1"
      and e1: "\<And>q. q div NV50_VM_SPTE_COUNT \<in> S \<Longrightarrow> entry_at m0 e s1 q =
        (if q div NV50_VM_SPTE_COUNT = ?slot \<and> ?n \<le> q mod NV50_VM_SPTE_COUNT \<and> q mod NV50_VM_SPTE_COUNT < ?n + 2 ^ lev
         then Some (p OR of_nat (lev * 2 ^ 7)) else entry_at m0 e s q)" by auto
    have in_block: "q div NV50_VM_SPTE_COUNT = ?slot \<and> ?n \<le> q mod NV50_VM_SPTE_COUNT \<and>
        q mod NV50_VM_SPTE_COUNT < ?n + 2 ^ lev \<longleftrightarrow> pg \<le> q \<and> q < pg + 2 ^ lev" for q
    proof -
      have "q div NV50_VM_SPTE_COUNT = ?slot" if "pg \<le> q" "q < pg + 2 ^ lev"
      proof (rule antisym)
        have "q < Suc ?slot * NV50_VM_SPTE_COUNT"
          using that(2) block(2) div_mult_mod_eq [of pg NV50_VM_SPTE_COUNT] unfolding mult_Suc by linarith
        then show "q div NV50_VM_SPTE_COUNT \<le> ?slot" by (simp add: less_mult_imp_div_less less_Suc_eq_le)
        show "?slot \<le> q div NV50_VM_SPTE_COUNT" by (rule div_le_mono [OF that(1)])
      qed
      moreover have "?n \<le> q mod NV50_VM_SPTE_COUNT \<and> q mod NV50_VM_SPTE_COUNT < ?n + 2 ^ lev \<longleftrightarrow> pg \<le> q \<and> q < pg + 2 ^ lev"
        if "q div NV50_VM_SPTE_COUNT = ?slot"
        using div_mult_mod_eq [of pg NV50_VM_SPTE_COUNT] div_mult_mod_eq [of q NV50_VM_SPTE_COUNT] unfolding that
        by (intro iffI conjI; elim conjE; linarith)
      ultimately show ?thesis by blast
    qed
    note e1 = e1 [unfolded in_block]
    have IH: "\<exists>s'. nv50_map_contig_range d E v (pages (pg + 2 ^ lev)) (p + pages (2 ^ lev)) (pages (n - 2 ^ lev)) s1 = Some (Inr (), s') \<and>
      mem_frame s1 s' \<and> window_ok m0 s' \<and>
      (\<forall>k < n - 2 ^ lev. \<exists>x. entry_at m0 e s' (pg + 2 ^ lev + k) = Some x \<and>
         page_target x (pg + 2 ^ lev + k) = p + pages (2 ^ lev) + pages k) \<and>
      (\<forall>q. q div NV50_VM_SPTE_COUNT \<in> S \<longrightarrow> q \<notin> {pg + 2 ^ lev..<pg + 2 ^ lev + (n - 2 ^ lev)} \<longrightarrow> entry_at m0 e s' q = entry_at m0 e s1 q)"
    proof (rule less.IH)
      show "nv50_vs v s1 = Some e" "tables S e s1" using less.prems(1,2) s1(2) by (simp_all add: nv50_vs_frame tables_frame)
      show "\<forall>k < n - 2 ^ lev. (pg + 2 ^ lev + k) div NV50_VM_SPTE_COUNT \<in> S"
      proof (intro allI impI)
        fix k assume "k < n - 2 ^ lev"
        then have "2 ^ lev + k < n" by simp
        with less.prems(6) show "(pg + 2 ^ lev + k) div NV50_VM_SPTE_COUNT \<in> S" by (metis add.assoc)
      qed
      show "(p + pages (2 ^ lev)) AND 0x380 = 0" using less.prems(7) by (rule no_level_add)
      show "pg + 2 ^ lev + (n - 2 ^ lev) \<le> 2 ^ 28" using less.prems(5) lev(3) by simp
      show "remembers d m0" "window_ok m0 s1" by (rule less.prems(3), rule s1(3))
      show "n - 2 ^ lev < n" using False by simp
    qed
    then obtain s' where s': "nv50_map_contig_range d E v (pages (pg + 2 ^ lev)) (p + pages (2 ^ lev)) (pages (n - 2 ^ lev)) s1 = Some (Inr (), s')"
      "mem_frame s1 s'" "window_ok m0 s'"
      and new: "\<And>k. k < n - 2 ^ lev \<Longrightarrow> \<exists>x. entry_at m0 e s' (pg + 2 ^ lev + k) = Some x \<and>
         page_target x (pg + 2 ^ lev + k) = p + pages (2 ^ lev) + pages k"
      and old: "\<And>q. q div NV50_VM_SPTE_COUNT \<in> S \<Longrightarrow> q \<notin> {pg + 2 ^ lev..<pg + 2 ^ lev + (n - 2 ^ lev)} \<Longrightarrow>
        entry_at m0 e s' q = entry_at m0 e s1 q" by blast
    have "pages n \<noteq> 0" using unat_pages [OF \<open>n \<le> 2 ^ 28\<close>] False by auto
    moreover have "?slot < NV50_VM_PDE_COUNT" using \<open>pg < 2 ^ 28\<close> by simp
    ultimately have run: "nv50_map_contig_range d E v (pages pg) p (pages n) s = Some (Inr (), s')"
      using less.prems(1) t s1(1) s'(1) lev(1,3)
      by (subst nv50_map_contig_range.simps) (simp add: at pages_add pages_diff)
    have "\<exists>x. entry_at m0 e s' (pg + k) = Some x \<and> page_target x (pg + k) = p + pages k" if "k < n" for k
    proof (cases "k < 2 ^ lev")
      case True
      with that less.prems(6) old [of "pg + k"] e1 [of "pg + k"] have
        "entry_at m0 e s' (pg + k) = Some (p OR of_nat (lev * 2 ^ 7))" by simp
      moreover from lev(4) True have "(pg + k) mod 2 ^ lev = k" by (elim dvdE) simp
      moreover note with_level [OF less.prems(7), of lev]
      ultimately show ?thesis using lev(2) by (simp add: page_target_def del: of_nat_mult)
    next
      case False
      with that new [of "k - 2 ^ lev"] pages_add(1) [of "2 ^ lev" "k - 2 ^ lev"] show ?thesis by (auto simp: add.assoc)
    qed
    moreover have "entry_at m0 e s' q = entry_at m0 e s q" if "q div NV50_VM_SPTE_COUNT \<in> S" "q \<notin> {pg..<pg + n}" for q
      using old [OF that(1)] e1 [OF that(1)] that(2) lev(3) by auto
    ultimately show ?thesis using run s' mem_frame_trans [OF s1(2) s'(2)] by blast
  qed
qed

subsection \<open>Mapping an object\<close>

text \<open>
  Page by page, the targets \<open>ws\<close> are what the address space leads to from page \<open>pg\<close> on; the rest of
  its tables is as it was.
\<close>

definition maps :: "memory \<Rightarrow> nv50_vspace \<Rightarrow> nat set \<Rightarrow> nat \<Rightarrow> u64 list \<Rightarrow> kern \<Rightarrow> kern \<Rightarrow> bool" where
  "maps m0 e S pg ws s s' \<longleftrightarrow> mem_frame s s' \<and> window_ok m0 s' \<and>
     (\<forall>j < length ws. \<exists>x. entry_at m0 e s' (pg + j) = Some x \<and> page_target x (pg + j) = ws ! j) \<and>
     (\<forall>q. q div NV50_VM_SPTE_COUNT \<in> S \<longrightarrow> q \<notin> {pg..<pg + length ws} \<longrightarrow> entry_at m0 e s' q = entry_at m0 e s q)"

definition covers :: "nat set \<Rightarrow> nat \<Rightarrow> nat \<Rightarrow> bool" where
  "covers S pg n \<longleftrightarrow> pg + n \<le> 2 ^ 28 \<and> (\<forall>k < n. (pg + k) div NV50_VM_SPTE_COUNT \<in> S)"

definition mappable :: "card \<Rightarrow> memory \<Rightarrow> nat \<Rightarrow> nv50_vspace \<Rightarrow> nat set \<Rightarrow> kern \<Rightarrow> bool" where
  "mappable d m0 v e S s \<longleftrightarrow> nv50_vs v s = Some e \<and> tables S e s \<and> remembers d m0 \<and> window_ok m0 s"

lemma mappable_maps: "mappable d m0 v e S s \<Longrightarrow> maps m0 e S pg ws s s' \<Longrightarrow> mappable d m0 v e S s'"
  using nv50_vs_frame [of s s' v] tables_frame [of s s' S e] by (simp add: mappable_def maps_def)

lemma covers_split: "covers S pg (m + n) \<Longrightarrow> covers S pg m \<and> covers S (pg + m) n"
  unfolding covers_def by (metis add.assoc add_leD1 nat_add_left_cancel_less trans_less_add1)

lemma maps_append:
  assumes "maps m0 e S pg ws s s1" "maps m0 e S (pg + length ws) ws' s1 s'" "covers S pg (length ws)"
  shows "maps m0 e S pg (ws @ ws') s s'"
proof -
  have "\<exists>x. entry_at m0 e s' (pg + j) = Some x \<and> page_target x (pg + j) = (ws @ ws') ! j" if "j < length (ws @ ws')" for j
  proof (cases "j < length ws")
    case True
    with assms show ?thesis by (simp add: maps_def covers_def nth_append)
  next
    case False
    with that have "j - length ws < length ws'" by simp
    with assms(2) have "\<exists>x. entry_at m0 e s' (pg + length ws + (j - length ws)) = Some x \<and>
        page_target x (pg + length ws + (j - length ws)) = ws' ! (j - length ws)" unfolding maps_def by blast
    with False show ?thesis by (simp add: nth_append)
  qed
  with assms(1,2) show ?thesis by (auto simp: maps_def intro: mem_frame_trans)
qed

lemma map_range_maps:
  assumes "mappable d m0 v e S s" "covers S pg n" "p AND 0x380 = 0"
  shows "\<exists>s'. nv50_map_contig_range d E v (pages pg) p (pages n) s = Some (Inr (), s') \<and>
    maps m0 e S pg (map (\<lambda>i. p + pages i) [0..<n]) s s'"
  using map_range_entries [of v s e S d m0 pg n p E] assms by (simp add: mappable_def covers_def maps_def)

text \<open>The pieces of VRAM of an object, each with its first address and its pages.\<close>

fun pieces :: "mm \<Rightarrow> nat option \<Rightarrow> (u64 \<times> nat) list \<Rightarrow> bool" where
  "pieces m None [] = True"
| "pieces m (Some n) ((start, k) # ps) =
     (case mm_lookup m n of
        None \<Rightarrow> False
      | Some node \<Rightarrow> nstart node = start \<and> nsize node = pages k \<and> pieces m (nnext node) ps)"
| "pieces m _ _ = False"

text \<open>What the pages of an object should lead to.\<close>

definition vram_targets :: "card \<Rightarrow> bo \<Rightarrow> kern \<Rightarrow> (u64 \<times> nat) list \<Rightarrow> u64 list" where
  "vram_targets d bo s ps = concat (map (\<lambda>(start, k). map (\<lambda>i. nv50_vram_pte d bo start s + pages i) [0..<k]) ps)"

definition targets :: "card \<Rightarrow> nat \<Rightarrow> kern \<Rightarrow> u64 list \<Rightarrow> bool" where
  "targets d b s ws \<longleftrightarrow> (\<exists>bo. bos s b = Some bo \<and>
     (if mem_type (bflags bo) \<in> {VramSmall, VramLarge}
      then \<exists>m ps. vram_mm s = Some m \<and> pieces m (bmmnode bo) ps \<and> ws = vram_targets d bo s ps \<and>
        (\<forall>(start, k) \<in> set ps. nv50_vram_pte d bo start s AND 0x380 = 0)
      else unat (drop_bit 12 (bsize bo)) = length (bdmapages bo) \<and> ws = map (nv50_sysram_pte bo) (bdmapages bo) \<and>
        (\<forall>a \<in> set (bdmapages bo). nv50_sysram_pte bo a AND 0x380 = 0)))"

lemma map_vram_maps:
  assumes "mappable d m0 v e S s" "bos s b = Some bo" "vram_mm s = Some m" "pieces m n ps"
    and "\<forall>(start, k) \<in> set ps. nv50_vram_pte d bo start s AND 0x380 = 0" "covers S (pg + r) (length (vram_targets d bo s ps))"
  shows "\<exists>s'. nv50_map_vram d E v b (pages pg) (pages r) n s = Some (Inr (), s') \<and>
    maps m0 e S (pg + r) (vram_targets d bo s ps) s s'"
  using assms
proof (induction m n ps arbitrary: r s rule: pieces.induct)
  case (1 m)
  then show ?case
    by (subst nv50_map_vram.simps) (simp add: vram_targets_def maps_def mappable_def)
next
  case (2 m n start k ps)
  then obtain node where node: "mm_lookup m n = Some node" "nstart node = start" "nsize node = pages k"
    "pieces m (nnext node) ps" by (auto split: option.splits)
  let ?ws = "map (\<lambda>i. nv50_vram_pte d bo start s + pages i) [0..<k]"
  have split: "vram_targets d bo s ((start, k) # ps) = ?ws @ vram_targets d bo s ps" by (simp add: vram_targets_def)
  from 2(7) have c: "covers S (pg + r) k" "covers S (pg + r + k) (length (vram_targets d bo s ps))"
    unfolding split length_append by (auto dest: covers_split)
  from 2(6) have "nv50_vram_pte d bo start s AND 0x380 = 0" by simp
  from map_range_maps [OF 2(2) c(1) this, of E] obtain s1 where
    s1: "nv50_map_contig_range d E v (pages (pg + r)) (nv50_vram_pte d bo start s) (pages k) s = Some (Inr (), s1)"
    "maps m0 e S (pg + r) ?ws s s1" by blast
  then have "mem_frame s s1" by (simp add: maps_def)
  then have same: "bos s1 = bos s" "vram_mm s1 = vram_mm s" "vram_sys_base s1 = vram_sys_base s" by (auto elim!: mem_frameE)
  then have pte: "nv50_vram_pte d bo st s1 = nv50_vram_pte d bo st s" for st by (simp add: nv50_vram_pte_def)
  then have tg: "vram_targets d bo s1 ps = vram_targets d bo s ps" by (simp add: vram_targets_def)
  have "\<exists>s'. nv50_map_vram d E v b (pages pg) (pages (r + k)) (nnext node) s1 = Some (Inr (), s') \<and>
    maps m0 e S (pg + (r + k)) (vram_targets d bo s1 ps) s1 s'"
    using 2(1) [OF node(1), where r = "r + k" and s = s1] 2(3,4,6) node c(2) same tg pte mappable_maps [OF 2(2) s1(2)]
    by (simp add: add.assoc)
  then obtain s' where s': "nv50_map_vram d E v b (pages pg) (pages (r + k)) (nnext node) s1 = Some (Inr (), s')"
    "maps m0 e S (pg + (r + k)) (vram_targets d bo s ps) s1 s'" unfolding tg by blast
  have "nv50_map_vram d E v b (pages pg) (pages r) (Some n) s = Some (Inr (), s')"
    using 2(3,4) node s1(1) s'(1) same by (subst nv50_map_vram.simps) (simp add: pages_add)
  moreover have "maps m0 e S (pg + r) (?ws @ vram_targets d bo s ps) s s'"
    using s1(2) s'(2) c(1) by (intro maps_append) (simp_all add: add.assoc)
  ultimately show ?case unfolding split by blast
qed simp_all

lemma map_sysram_maps:
  assumes "mappable d m0 v e S s" "bos s b = Some bo" "\<forall>a \<in> set (bdmapages bo). nv50_sysram_pte bo a AND 0x380 = 0"
    and "i + n = length (bdmapages bo)" "covers S (pg + i) n"
  shows "\<exists>s'. nv50_map_sysram d E v b (pages pg) [i..<length (bdmapages bo)] s = Some (Inr (), s') \<and>
    maps m0 e S (pg + i) (map (nv50_sysram_pte bo) (drop i (bdmapages bo))) s s'"
  using assms
proof (induction n arbitrary: i s)
  case 0
  then show ?case by (simp add: maps_def mappable_def)
next
  case (Suc n)
  let ?a = "bdmapages bo ! i"
  from Suc.prems(4) have i: "i < length (bdmapages bo)" by simp
  then have drop: "drop i (bdmapages bo) = ?a # drop (Suc i) (bdmapages bo)"
    "[i..<length (bdmapages bo)] = i # [Suc i..<length (bdmapages bo)]"
    by (simp_all add: Cons_nth_drop_Suc upt_conv_Cons)
  from Suc.prems(5) have c: "covers S (pg + i) 1" "covers S (pg + Suc i) n"
    using covers_split [of S "pg + i" 1 n] by simp_all
  from Suc.prems(3) i have "nv50_sysram_pte bo ?a AND 0x380 = 0" by simp
  from map_range_maps [OF Suc.prems(1) c(1) this, of E] obtain s1 where
    s1: "nv50_map_contig_range d E v (pages (pg + i)) (nv50_sysram_pte bo ?a) (pages 1) s = Some (Inr (), s1)"
    "maps m0 e S (pg + i) [nv50_sysram_pte bo ?a] s s1" by (auto simp: pages_def)
  then have "bos s1 = bos s" by (auto simp: maps_def elim!: mem_frameE)
  with Suc.IH [of s1 "Suc i"] Suc.prems(2-4) c(2) mappable_maps [OF Suc.prems(1) s1(2)] obtain s' where
    s': "nv50_map_sysram d E v b (pages pg) [Suc i..<length (bdmapages bo)] s1 = Some (Inr (), s')"
    "maps m0 e S (pg + Suc i) (map (nv50_sysram_pte bo) (drop (Suc i) (bdmapages bo))) s1 s'" by auto
  have "pages pg + of_nat i * 0x1000 = pages (pg + i)" "(0x1000 :: u64) = pages 1" by (simp_all add: pages_def ring_distribs)
  with s1(1) s'(1) Suc.prems(2) i have
    "nv50_map_sysram d E v b (pages pg) [i..<length (bdmapages bo)] s = Some (Inr (), s')"
    unfolding drop(2) nv50_map_sysram.simps by simp
  moreover have "maps m0 e S (pg + i) ([nv50_sysram_pte bo ?a] @ map (nv50_sysram_pte bo) (drop (Suc i) (bdmapages bo))) s s'"
    using s1(2) s'(2) c(1) by (intro maps_append) simp_all
  ultimately show ?case unfolding drop(1) by auto
qed

lemma maps_still:
  assumes "maps m0 e S pg ws s s'" "mem_still s' s''"
  shows "maps m0 e S pg ws s s''"
proof -
  have "mem_frame s' s''" using mem_still_words(3) [OF assms(2)] unfolding bo_frame_def by blast
  moreover have "entry_at m0 e s'' q = entry_at m0 e s' q" for q
    by (simp add: entry_at_def mem_still_words(2) [OF assms(2)])
  moreover have "window_ok m0 s'' = window_ok m0 s'"
    using assms(2) by (elim mem_stillE) (simp add: window_ok_def)
  ultimately show ?thesis using assms(1) by (auto simp: maps_def intro: mem_frame_trans)
qed

lemma do_map_maps:
  assumes "mappable d m0 v e S s" "targets d b s ws" "covers S pg (length ws)" "flushes d" "vm_up s"
  shows "\<exists>s'. nv50_vspace_do_map d E v b (pages pg) s = Some (Inr (), s') \<and> maps m0 e S pg ws s s'"
proof -
  from assms(2) obtain bo where bo: "bos s b = Some bo" by (auto simp: targets_def)
  obtain s1 where s1: "(if mem_type (bflags bo) \<in> {VramSmall, VramLarge} then nv50_map_vram d E v b (pages pg) 0 (bmmnode bo) s
      else nv50_map_sysram d E v b (pages pg) [0..<unat (drop_bit 12 (bsize bo))] s) = Some (Inr (), s1)"
    "maps m0 e S pg ws s s1"
  proof (cases "mem_type (bflags bo) \<in> {VramSmall, VramLarge}")
    case True
    with assms(2) bo obtain m ps where "vram_mm s = Some m" "pieces m (bmmnode bo) ps" "ws = vram_targets d bo s ps"
      "\<forall>(start, k) \<in> set ps. nv50_vram_pte d bo start s AND 0x380 = 0" by (auto simp: targets_def)
    with map_vram_maps [OF assms(1) bo this(1,2,4), of pg 0 E] assms(3) True that show ?thesis by (auto simp: pages_def)
  next
    case False
    with assms(2) bo have "unat (drop_bit 12 (bsize bo)) = length (bdmapages bo)" "ws = map (nv50_sysram_pte bo) (bdmapages bo)"
      "\<forall>a \<in> set (bdmapages bo). nv50_sysram_pte bo a AND 0x380 = 0" by (simp_all add: targets_def)
    with map_sysram_maps [OF assms(1) bo this(3), of 0 "length ws" pg E] assms(3) False that show ?thesis by auto
  qed
  then have "vm_up s1" using assms(5) by (auto simp: maps_def elim!: mem_frameE)
  with assms(4) obtain s' where s': "bar_flush d s1 = Some s'" by (auto simp: flushes_def)
  from maps_still [OF s1(2) bar_flush_still [OF s']] s1(1) s' bo show ?thesis
    by (auto simp: nv50_vspace_do_map_def)
qed

text \<open>
  C32: Mapping an object makes its address space lead to exactly its memory: page after page of the
  range, the entry of the page stands for the flags and the address of that page of the object, however
  the object is cut into pieces, whatever blocks the entries are grouped in, and also across page
  tables; every other entry of those tables is as before. The page tables of the range exist already
  (\<open>tables\<close>: the slots \<open>S\<close> of the directory hold objects of the size of a table, which do not overlap
  and which \<open>nv_wv32\<close> can reach), the card remembers what is written to memory and answers the
  flush; then mapping does not fail.
\<close>

theorem mapped_object_is_found:
  assumes "nv50_vs v s = Some e" "tables S e s" "remembers d m0" "window_ok m0 s" "flushes d" "vm_up s"
    and "targets d b s ws" "pg + length ws \<le> 2 ^ 28" "\<forall>j < length ws. (pg + j) div 0x20000 \<in> S"
  shows "\<exists>s'. nv50_vspace_do_map d E v b (pages pg) s = Some (Inr (), s') \<and> nv50_vs v s' = Some e \<and>
    (\<forall>j < length ws. \<exists>x. entry_at m0 e s' (pg + j) = Some x \<and> page_target x (pg + j) = ws ! j) \<and>
    (\<forall>q. q div 0x20000 \<in> S \<longrightarrow> q \<notin> {pg..<pg + length ws} \<longrightarrow> entry_at m0 e s' q = entry_at m0 e s q)"
proof -
  have "mappable d m0 v e S s" "covers S pg (length ws)" using assms by (simp_all add: mappable_def covers_def)
  from do_map_maps [OF this(1) assms(7) this(2) assms(5,6)] nv50_vs_frame [of s _ v] assms(1) show ?thesis
    unfolding maps_def by metis
qed

text \<open>Three pages of system memory, across the border between two tables.\<close>

definition two_tables :: nv50_vspace where
  "two_tables = \<lparr>chan_list = [], engref = (\<lambda>_. 0), pt = [0 \<mapsto> 0, 1 \<mapsto> 2]\<rparr>"

definition paged_kern :: kern where
  "paged_kern = blank_kern\<lparr>vss := [0 \<mapsto> (new_vspace 0x100000000 0)\<lparr>veng := Nv50 two_tables\<rparr>],
     bos := [0 \<mapsto> blank_bo 0x100000 0x100000, 2 \<mapsto> blank_bo 0x200000 0x100000,
       1 \<mapsto> (blank_bo 0 0x3000)\<lparr>bflags := 4, bdmapages := [0x5000, 0x9000, 0x7000]\<rparr>]\<rparr>"

lemma paged_tables: "tables {0, 1} two_tables paged_kern"
proof -
  have place: "bo_place b paged_kern a = Some (InVram ((if b = 0 then 0x100000 else 0x200000) + ucast a))"
    "bo_inside b paged_kern a \<longleftrightarrow> unat a + 4 \<le> 0x100000" if "b \<in> {0, 2}" for a b
    using that by (auto simp: bo_place_def bo_inside_def paged_kern_def kernel_map_def blank_kern_def blank_bo_def)
  have "0x100000 + ucast a \<noteq> (0x200000 + ucast b :: u64)" if "unat a + 4 \<le> 0x100000" for a b :: u32
  proof
    assume "0x100000 + ucast a = (0x200000 + ucast b :: u64)"
    then have "ucast a = (0x100000 + ucast b :: u64)" by (simp add: algebra_simps)
    moreover have "unat (0x100000 + ucast b :: u64) = 0x100000 + unat b"
      using unat_u32_less [of b] by (subst unat_plus_if_no_overflow) (auto simp: unat_ucast_u32_u64)
    ultimately have "unat a = 0x100000 + unat b" by (metis unat_ucast_u32_u64)
    with that show False by simp
  qed
  note apart = this this [symmetric]
  have "reachable_bo t paged_kern \<and> (\<exists>bo. bos paged_kern t = Some bo \<and> 8 * NV50_VM_SPTE_COUNT \<le> unat (bsize bo))"
    if "t \<in> {0, 2}" for t
    using that by (auto simp: paged_kern_def reachable_bo_def kernel_map_def blank_kern_def blank_bo_def)
  with place apart show ?thesis by (auto simp: tables_def two_tables_def)
qed

theorem mapped_object_is_found_witness:
  "\<exists>s'. nv50_vspace_do_map (example_card 0x50 0xa0) no_engine 0 1 (pages 0x1ffff) paged_kern = Some (Inr (), s') \<and>
     (\<forall>j < 3. \<exists>x. entry_at clear_memory two_tables s' (0x1ffff + j) = Some x \<and>
        page_target x (0x1ffff + j) = [0x5021, 0x9021, 0x7021] ! j)"
proof -
  have 1: "nv50_vs 0 paged_kern = Some two_tables" by (simp add: nv50_vs_def paged_kern_def)
  have 3: "window_ok clear_memory paged_kern"
    by (simp add: window_ok_def paged_kern_def mem_now_def blank_kern_def clear_memory_def)
  have 4: "targets (example_card 0x50 0xa0) 1 paged_kern [0x5021, 0x9021, 0x7021]"
    by (simp add: targets_def paged_kern_def blank_bo_def mem_type_def nv50_sysram_pte_def)
  have 5: "vm_up paged_kern" by (simp add: paged_kern_def blank_kern_def)
  have 6: "\<forall>j < length [0x5021 :: u64, 0x9021, 0x7021]. (0x1ffff + j) div 0x20000 \<in> {0, 1::nat}" by auto
  from mapped_object_is_found [OF 1 paged_tables example_remembers 3 example_flushes 5 4 _ 6, of no_engine]
  show ?thesis by auto
qed

end
