(* ===== verification/Nvc0Vm.thy ===== *)
theory Nvc0Vm
  imports Nv50Vm
begin

section \<open>Page tables of the NVC0 family\<close>

text \<open>
  \<open>nvc0_vm.c\<close>. Each entry of the page directory covers a block of 128 MiB and has two page tables,
  one for pages of 4 KiB (\<open>bo[1]\<close>, here \<open>spt\<close>) and one for pages of 128 KiB (\<open>bo[0]\<close>, here
  \<open>lpt\<close>, missing in the space of BAR3, number -3). The page tables of a space are kept in a hash
  table by their number.
\<close>

abbreviation (input) NVC0_VM_PDE_COUNT :: nat where "NVC0_VM_PDE_COUNT \<equiv> 0x2000"
abbreviation (input) NVC0_VM_BLOCK_SIZE :: u64 where "NVC0_VM_BLOCK_SIZE \<equiv> 0x8000000"
abbreviation (input) NVC0_VM_BLOCK_MASK :: u64 where "NVC0_VM_BLOCK_MASK \<equiv> 0x7ffffff"
abbreviation (input) NVC0_VM_SPTE_COUNT :: nat where "NVC0_VM_SPTE_COUNT \<equiv> 0x8000"
abbreviation (input) NVC0_VM_LPTE_COUNT :: nat where "NVC0_VM_LPTE_COUNT \<equiv> 0x400"
abbreviation (input) NVC0_PDE_HT_SIZE :: nat where "NVC0_PDE_HT_SIZE \<equiv> 32"
abbreviation (input) PSCNV_GEM_NOUSER :: u32 where "PSCNV_GEM_NOUSER \<equiv> 0x10"

definition NVC0_PDE :: "u64 \<Rightarrow> nat" where
  "NVC0_PDE a = unat (ucast (a div NVC0_VM_BLOCK_SIZE) :: u32)"

definition NVC0_SPTE :: "u64 \<Rightarrow> nat" where
  "NVC0_SPTE a = unat (drop_bit 12 (a AND NVC0_VM_BLOCK_MASK))"

definition NVC0_LPTE :: "u64 \<Rightarrow> nat" where
  "NVC0_LPTE a = unat (drop_bit 17 (a AND NVC0_VM_BLOCK_MASK))"

definition nvc0_vs :: "nat \<Rightarrow> kern \<Rightarrow> nvc0_vspace option" where
  "nvc0_vs v s = do {
     vs \<leftarrow> vss s v;
     case veng vs of Nvc0 e \<Rightarrow> Some e | _ \<Rightarrow> None }"

definition upd_nvc0_vs :: "nat \<Rightarrow> (nvc0_vspace \<Rightarrow> nvc0_vspace) \<Rightarrow> kern \<Rightarrow> kern option" where
  "upd_nvc0_vs v f s = do {
     e \<leftarrow> nvc0_vs v s;
     upd_vs v (\<lambda>vs. vs\<lparr>veng := Nvc0 (f e)\<rparr>) s }"

definition nvc0_tlb_flush :: "card \<Rightarrow> nat \<Rightarrow> kern \<Rightarrow> (unit res \<times> kern) option" where
  "nvc0_tlb_flush d v s = do {
     e \<leftarrow> nvc0_vs v s;
     p \<leftarrow> bos s (pd e);
     vs \<leftarrow> vss s v;
     (val, s) \<leftarrow> nv_rd32 d 0x100c80 s;
     s \<leftarrow> nv_wr32 d 0x100cb8 (ucast (drop_bit 8 (bstart p))) s;
     s \<leftarrow> nv_wr32 d 0x100cbc (0x80000000 OR (if vid vs = -3 then 0x5 else 0x1)) s;
     (ok, s) \<leftarrow> nv_wait d 0x100c80 0xffffffff val s;
     Some (if ok then Inr () else Inl EBUSY, s) }"

definition nvc0_vm_map_user :: "card \<Rightarrow> vm_engine \<Rightarrow> nat \<Rightarrow> kern \<Rightarrow> (unit res \<times> kern) option" where
  "nvc0_vm_map_user d E b s = do {
     bo \<leftarrow> bos s b;
     if bmap1 bo \<noteq> None then Some (Inr (), s)
     else do {
       v \<leftarrow> bar1vm s;
       (ret, node, s) \<leftarrow> pscnv_vspace_map d E v b 0 (fb_size d) False s;
       s \<leftarrow> upd_bo b (\<lambda>bo. case node of Some p \<Rightarrow> bo\<lparr>bmap1 := Some p\<rparr> | None \<Rightarrow> bo) s;
       Some (ret, s) } }"

definition nvc0_vm_map_kernel :: "card \<Rightarrow> vm_engine \<Rightarrow> nat \<Rightarrow> kern \<Rightarrow> (unit res \<times> kern) option" where
  "nvc0_vm_map_kernel d E b s = do {
     bo \<leftarrow> bos s b;
     if bmap3 bo \<noteq> None then Some (Inr (), s)
     else do {
       v \<leftarrow> bar3vm s;
       (ret, node, s) \<leftarrow> pscnv_vspace_map d E v b 0 (ramin_size d) False s;
       s \<leftarrow> upd_bo b (\<lambda>bo. case node of Some p \<Rightarrow> bo\<lparr>bmap3 := Some p\<rparr> | None \<Rightarrow> bo) s;
       Some (ret, s) } }"

subsection \<open>Page tables\<close>

definition clear_words :: "card \<Rightarrow> nat \<Rightarrow> nat \<Rightarrow> nat \<Rightarrow> kern \<Rightarrow> kern option" where
  "clear_words d b from bytes s = for_each (\<lambda>i. nv_wv32 d b (of_nat (from + 4 * i)) 0) [0..<bytes div 4] s"

definition nvc0_vspace_fill_pde :: "card \<Rightarrow> vm_engine \<Rightarrow> nat \<Rightarrow> nvc0_pgt \<Rightarrow> kern \<Rightarrow> (nvc0_pgt res \<times> kern) option" where
  "nvc0_vspace_fill_pde d E v pgt s = do {
     let sz = NVC0_VM_SPTE_COUNT * 2 ^ (3 - limit pgt);
     (t1, s) \<leftarrow> pscnv_mem_alloc d (of_nat sz) PSCNV_GEM_CONTIG 0 0x59 s;
     case t1 of
       None \<Rightarrow> Some (Inl ENOMEM, s)
     | Some t1 \<Rightarrow> do {
         s \<leftarrow> clear_words d t1 0 sz s;
         bo1 \<leftarrow> bos s t1;
         let pde0 = of_nat (limit pgt * 4);
         let pde1 = ucast (drop_bit 8 (bstart bo1)) OR 1;
         vs \<leftarrow> vss s v;
         (r, s) \<leftarrow>
           (if vid vs = -3 then Some (Inr (None, pde0), s)
            else do {
              (t0, s) \<leftarrow> pscnv_mem_alloc d (of_nat (NVC0_VM_LPTE_COUNT * 8)) PSCNV_GEM_CONTIG 0 0x79 s;
              case t0 of
                None \<Rightarrow> Some (Inl ENOMEM, s)
              | Some t0 \<Rightarrow> do {
                  (_, s) \<leftarrow> nvc0_vm_map_kernel d E t0 s;
                  (_, s) \<leftarrow> nvc0_vm_map_kernel d E t1 s;
                  s \<leftarrow> clear_words d t0 0 (NVC0_VM_LPTE_COUNT * 8) s;
                  bo0 \<leftarrow> bos s t0;
                  Some (Inr (Some t0, pde0 OR ucast (drop_bit 8 (bstart bo0)) OR 1), s) } });
         case r of
           Inl err \<Rightarrow> Some (Inl err, s)
         | Inr (t0, pde0) \<Rightarrow> do {
             s \<leftarrow> bar_flush d s;
             e \<leftarrow> nvc0_vs v s;
             s \<leftarrow> nv_wv32 d (pd e) (of_nat (pde pgt * 8)) pde0 s;
             s \<leftarrow> nv_wv32 d (pd e) (of_nat (pde pgt * 8 + 4)) pde1 s;
             s \<leftarrow> bar_flush d s;
             (ret, s) \<leftarrow> nvc0_tlb_flush d v s;
             Some (case ret of Inl err \<Rightarrow> Inl err
               | Inr _ \<Rightarrow> Inr (pgt\<lparr>spt := Some t1, lpt := t0\<rparr>), s) } } }"

definition nvc0_vspace_pgt :: "card \<Rightarrow> vm_engine \<Rightarrow> nat \<Rightarrow> nat \<Rightarrow> kern \<Rightarrow> (nvc0_pgt option \<times> kern) option" where
  "nvc0_vspace_pgt d E v n s = do {
     e \<leftarrow> nvc0_vs v s;
     if NVC0_VM_PDE_COUNT \<le> n then None
     else
       (case find (\<lambda>p. pde p = n) (ptht e (n mod NVC0_PDE_HT_SIZE)) of
          Some p \<Rightarrow> Some (Some p, s)
        | None \<Rightarrow> do {
            ((failed, _), s) \<leftarrow> request d Kzalloc s;
            if failed \<noteq> 0 then Some (None, s)
            else do {
              (r, s) \<leftarrow> nvc0_vspace_fill_pde d E v \<lparr>pde = n, limit = 0, lpt = None, spt = None\<rparr> s;
              case r of
                Inl _ \<Rightarrow> Some (None, s)
              | Inr p \<Rightarrow> do {
                  s \<leftarrow> upd_nvc0_vs v (\<lambda>e. e\<lparr>ptht := (ptht e)(n mod NVC0_PDE_HT_SIZE :=
                      ptht e (n mod NVC0_PDE_HT_SIZE) @ [p])\<rparr>) s;
                  Some (Some p, s) } } }) }"

text \<open>Removing a page table gives back its VRAM only: the object and its mapping stay.\<close>

definition nvc0_pgt_del :: "card \<Rightarrow> nat \<Rightarrow> nvc0_pgt \<Rightarrow> kern \<Rightarrow> kern option" where
  "nvc0_pgt_del d v pgt s = do {
     t1 \<leftarrow> spt pgt;
     s \<leftarrow> pscnv_vram_free t1 s;
     s \<leftarrow> (case lpt pgt of Some t0 \<Rightarrow> pscnv_vram_free t0 s | None \<Rightarrow> Some s);
     s \<leftarrow> upd_nvc0_vs v (\<lambda>e. e\<lparr>ptht := (ptht e)(pde pgt mod NVC0_PDE_HT_SIZE :=
         filter (\<lambda>p. pde p \<noteq> pde pgt) (ptht e (pde pgt mod NVC0_PDE_HT_SIZE)))\<rparr>) s;
     e \<leftarrow> nvc0_vs v s;
     s \<leftarrow> nv_wv32 d (pd e) (of_nat (pde pgt * 8)) 0 s;
     nv_wv32 d (pd e) (of_nat (pde pgt * 8 + 4)) 0 s }"

subsection \<open>Unmapping\<close>

definition block_space :: "u64 \<Rightarrow> u64 \<Rightarrow> u64" where
  "block_space offset sz =
     (let space = NVC0_VM_BLOCK_SIZE - (offset AND NVC0_VM_BLOCK_MASK) in if space > sz then sz else space)"

partial_function (option) nvc0_unmap_blocks :: "card \<Rightarrow> vm_engine \<Rightarrow> nat \<Rightarrow> u64 \<Rightarrow> u64 \<Rightarrow> kern \<Rightarrow> kern option" where
  "nvc0_unmap_blocks d E v offset sz s =
     (if sz = 0 then Some s
      else do {
        (p, s) \<leftarrow> nvc0_vspace_pgt d E v (NVC0_PDE offset) s;
        let space = block_space offset sz;
        p \<leftarrow> p;
        t1 \<leftarrow> spt p;
        s \<leftarrow> clear_words d t1 (NVC0_SPTE offset * 8) (unat (drop_bit 12 space) * 8) s;
        s \<leftarrow> (case lpt p of
                None \<Rightarrow> Some s
              | Some t0 \<Rightarrow> clear_words d t0 (NVC0_LPTE offset * 8) (unat (drop_bit 17 space) * 8) s);
        nvc0_unmap_blocks d E v (offset + space) (sz - space) s })"

definition nvc0_vspace_do_unmap :: "card \<Rightarrow> vm_engine \<Rightarrow> nat \<Rightarrow> u64 \<Rightarrow> u64 \<Rightarrow> kern \<Rightarrow> (unit res \<times> kern) option" where
  "nvc0_vspace_do_unmap d E v offset sz s = do {
     s \<leftarrow> nvc0_unmap_blocks d E v offset sz s;
     s \<leftarrow> bar_flush d s;
     nvc0_tlb_flush d v s }"

subsection \<open>Mapping\<close>

definition nvc0_write_pt :: "card \<Rightarrow> nat \<Rightarrow> nat \<Rightarrow> nat \<Rightarrow> u64 \<Rightarrow> nat \<Rightarrow> u32 \<Rightarrow> u32 \<Rightarrow> kern \<Rightarrow> kern option" where
  "nvc0_write_pt d t pte count phys psz pfl0 pfl1 s =
     for_each (\<lambda>i s. do {
       s \<leftarrow> nv_wv32 d t (of_nat ((pte + i) * 8 + 4)) pfl1 s;
       nv_wv32 d t (of_nat ((pte + i) * 8))
         ((ucast (drop_bit 8 phys) OR pfl0) + of_nat i * of_nat (psz div 256)) s }) [0..<count] s"

definition nvc0_vspace_place_map ::
  "card \<Rightarrow> nat \<Rightarrow> nat \<Rightarrow> u64 \<Rightarrow> u64 \<Rightarrow> bool \<Rightarrow> kern \<Rightarrow> (nat option res \<times> kern) option" where
  "nvc0_vspace_place_map d v b start end' back s = do {
     bo \<leftarrow> bos s b;
     m \<leftarrow> vs_mm v s;
     let flags = (if mem_type (bflags bo) = VramLarge then PSCNV_MM_LP else 0);
     let flags = (if back then flags OR PSCNV_MM_FROMBACK else flags);
     (ret, m) \<leftarrow> pscnv_mm_alloc (mm_kz d (Some v)) m (bsize bo) flags start end';
     s \<leftarrow> set_vs_mm v m s;
     Some (ret, s) }"

text \<open>
  System memory, page by page. After the last page of a block the page table of the next block is
  fetched, whether or not there are pages left.
\<close>

primrec nvc0_map_sysram ::
  "card \<Rightarrow> vm_engine \<Rightarrow> nat \<Rightarrow> u32 \<Rightarrow> u32 \<Rightarrow> u64 list \<Rightarrow> nat \<Rightarrow> nat \<Rightarrow> nvc0_pgt option \<Rightarrow> kern \<Rightarrow> kern option" where
  "nvc0_map_sysram d E v pfl0 pfl1 [] n pte p s = Some s"
| "nvc0_map_sysram d E v pfl0 pfl1 (phys # rest) n pte p s = do {
     pt \<leftarrow> p;
     t1 \<leftarrow> spt pt;
     s \<leftarrow> nv_wv32 d t1 (of_nat (pte * 8 + 4)) pfl1 s;
     s \<leftarrow> nv_wv32 d t1 (of_nat (pte * 8)) (ucast (drop_bit 8 phys) OR pfl0) s;
     if (pte + 1) mod NVC0_VM_SPTE_COUNT = 0 then do {
       (p, s) \<leftarrow> nvc0_vspace_pgt d E v (n + 1) s;
       nvc0_map_sysram d E v pfl0 pfl1 rest (n + 1) 0 p s }
     else nvc0_map_sysram d E v pfl0 pfl1 rest n (pte + 1) p s }"

text \<open>One piece of VRAM, block by block; \<open>s1\<close> chooses the table of small pages.\<close>

partial_function (option) nvc0_map_piece ::
  "card \<Rightarrow> vm_engine \<Rightarrow> nat \<Rightarrow> bool \<Rightarrow> u32 \<Rightarrow> u32 \<Rightarrow> u64 \<Rightarrow> u64 \<Rightarrow> u64 \<Rightarrow> kern \<Rightarrow> (u64 \<times> kern) option" where
  "nvc0_map_piece d E v s1 pfl0 pfl1 offset phys sz s =
     (if sz = 0 then Some (offset, s)
      else do {
        let space = block_space offset sz;
        let psh = (if s1 then 12 else 17);
        let pte = unat (drop_bit psh (offset AND NVC0_VM_BLOCK_MASK));
        let count = unat (drop_bit psh space);
        (p, s) \<leftarrow> nvc0_vspace_pgt d E v (NVC0_PDE offset) s;
        p \<leftarrow> p;
        s \<leftarrow> (case (if s1 then spt p else lpt p) of
                Some t \<Rightarrow> nvc0_write_pt d t pte count phys (2 ^ psh) pfl0 pfl1 s
              | None \<Rightarrow> if count = 0 then Some s else None);
        nvc0_map_piece d E v s1 pfl0 pfl1 (offset + space) (phys + space) (sz - space) s })"

partial_function (option) nvc0_map_vram ::
  "card \<Rightarrow> vm_engine \<Rightarrow> nat \<Rightarrow> bool \<Rightarrow> u32 \<Rightarrow> u32 \<Rightarrow> u64 \<Rightarrow> nat option \<Rightarrow> kern \<Rightarrow> kern option" where
  "nvc0_map_vram d E v s1 pfl0 pfl1 offset n s =
     (case n of
        None \<Rightarrow> Some s
      | Some n \<Rightarrow> do {
          m \<leftarrow> vram_mm s;
          node \<leftarrow> mm_lookup m n;
          (offset, s) \<leftarrow> nvc0_map_piece d E v s1 pfl0 pfl1 offset (nstart node) (nsize node) s;
          m \<leftarrow> vram_mm s;
          node \<leftarrow> mm_lookup m n;
          nvc0_map_vram d E v s1 pfl0 pfl1 offset (nnext node) s })"

definition nvc0_vspace_do_map :: "card \<Rightarrow> vm_engine \<Rightarrow> nat \<Rightarrow> nat \<Rightarrow> u64 \<Rightarrow> kern \<Rightarrow> (unit res \<times> kern) option" where
  "nvc0_vspace_do_map d E v b offset s = do {
     bo \<leftarrow> bos s b;
     vs \<leftarrow> vss s v;
     let pfl0 = (if 0 \<le> vid vs \<and> bflags bo AND PSCNV_GEM_NOUSER \<noteq> 0 then 3 else 1);
     let pfl1 = push_bit 4 (btile_flags bo);
     s \<leftarrow>
       (if mem_type (bflags bo) \<in> {VramSmall, VramLarge} then
          nvc0_map_vram d E v (mem_type (bflags bo) = VramSmall \<or> vid vs = -3) pfl0 pfl1 offset (bmmnode bo) s
        else do {
          let pfl1 = (if mem_type (bflags bo) = SysramNosnoop then pfl1 OR 2 else pfl1) OR 5;
          let pages = unat (drop_bit 12 (bsize bo));
          let n = NVC0_PDE offset;
          (p, s) \<leftarrow> nvc0_vspace_pgt d E v n s;
          if length (bdmapages bo) < pages then None
          else nvc0_map_sysram d E v pfl0 pfl1 (take pages (bdmapages bo)) n (NVC0_SPTE offset) p s });
     s \<leftarrow> bar_flush d s;
     nvc0_tlb_flush d v s }"

subsection \<open>Creating and freeing\<close>

definition nvc0_vspace_new :: "card \<Rightarrow> vm_engine \<Rightarrow> nat \<Rightarrow> kern \<Rightarrow> (unit res \<times> kern) option" where
  "nvc0_vspace_new d E v s = do {
     vs \<leftarrow> vss s v;
     if vsize vs > push_bit 40 1 then Some (Inl EINVAL, s)
     else do {
       ((failed, _), s) \<leftarrow> request d Kzalloc s;
       if failed \<noteq> 0 then Some (Inl ENOMEM, s)
       else do {
         (p, s) \<leftarrow> pscnv_mem_alloc d (of_nat (NVC0_VM_PDE_COUNT * 8)) PSCNV_GEM_CONTIG 0 0xdeadcafe s;
         case p of
           None \<Rightarrow> Some (Inl ENOMEM, s)
         | Some p \<Rightarrow> do {
             s \<leftarrow> upd_vs v (\<lambda>vs. vs\<lparr>veng := Nvc0 \<lparr>pd = p, ptht = (\<lambda>_. [])\<rparr>\<rparr>) s;
             s \<leftarrow> (if vid vs \<noteq> -3 then do { (_, s) \<leftarrow> nvc0_vm_map_kernel d E p s; Some s } else Some s);
             s \<leftarrow> for_each (\<lambda>i s. do {
                 s \<leftarrow> nv_wv32 d p (of_nat (i * 8)) 0 s;
                 nv_wv32 d p (of_nat (i * 8 + 4)) 0 s }) [0..<NVC0_VM_PDE_COUNT] s;
             ret \<leftarrow> pscnv_mm_init (mm_kz d (Some v)) 0 (vsize vs) 0x1000 0x20000 1;
             case ret of
               Inl err \<Rightarrow> do {
                 s \<leftarrow> pscnv_mem_free d E p s;
                 s \<leftarrow> upd_vs v (\<lambda>vs. vs\<lparr>veng := NoEng\<rparr>) s;
                 Some (Inl err, s) }
             | Inr m \<Rightarrow> do { s \<leftarrow> set_vs_mm v m s; Some (Inr (), s) } } } } }"

definition nvc0_vspace_free :: "card \<Rightarrow> vm_engine \<Rightarrow> nat \<Rightarrow> kern \<Rightarrow> kern option" where
  "nvc0_vspace_free d E v s = do {
     s \<leftarrow> for_each (\<lambda>i s. do {
         e \<leftarrow> nvc0_vs v s;
         for_each (nvc0_pgt_del d v) (ptht e i) s }) [0..<NVC0_PDE_HT_SIZE] s;
     e \<leftarrow> nvc0_vs v s;
     s \<leftarrow> pscnv_mem_free d E (pd e) s;
     upd_vs v (\<lambda>vs. vs\<lparr>veng := NoEng\<rparr>) s }"

subsection \<open>The engine\<close>

primrec nvc0_vm :: "card \<Rightarrow> nat \<Rightarrow> vm_engine" where
  "nvc0_vm d 0 = no_engine"
| "nvc0_vm d (Suc n) = (let E = nvc0_vm d n in
     \<lparr>e_vspace_new = nvc0_vspace_new d E, e_vspace_free = nvc0_vspace_free d E,
      e_place_map = nvc0_vspace_place_map d, e_do_map = nvc0_vspace_do_map d E,
      e_do_unmap = nvc0_vspace_do_unmap d E, e_map_user = nvc0_vm_map_user d E,
      e_map_kernel = nvc0_vm_map_kernel d E, e_mem_free = pscnv_mem_free d E\<rparr>)"

text \<open>The engine of the card.\<close>

definition vm_of :: "card \<Rightarrow> nat \<Rightarrow> vm_engine" where
  "vm_of d n = (if card_type d = NV_50 then nv50_vm d n else nvc0_vm d n)"

declare nvc0_unmap_blocks.simps [code] nvc0_map_piece.simps [code] nvc0_map_vram.simps [code]

end
