(* ===== verification/Chan.thy ===== *)
theory Chan
  imports Ramht Nvc0Vm
begin

section \<open>Channels\<close>

text \<open>
  The instance memory of a channel (\<open>nv50_chan.c\<close>, \<open>nvc0_chan.c\<close>), and the numbers and handles
  of channels (\<open>pscnv_chan.c\<close>). A negative number is that of a channel of a BAR. The \<open>vm_engine\<close>
  is the one of the card, for the calls these functions make.
\<close>

subsection \<open>Objects in the instance memory\<close>

text \<open>Allocated one after the other; 0 when there is no room.\<close>

definition nv50_chan_iobj_new :: "nat \<Rightarrow> u32 \<Rightarrow> kern \<Rightarrow> (u32 \<times> kern) option" where
  "nv50_chan_iobj_new c sz s = do {
     let sz = (sz + 0xf) AND NOT 0xf;
     ch \<leftarrow> chs s c;
     b \<leftarrow> cbo ch;
     bo \<leftarrow> bos s b;
     if ucast (cinstpos ch + sz) > bsize bo then Some (0, s)
     else do {
       s \<leftarrow> upd_ch c (\<lambda>ch. ch\<lparr>cinstpos := cinstpos ch + sz\<rparr>) s;
       Some (cinstpos ch, s) } }"

definition write_words :: "card \<Rightarrow> nat \<Rightarrow> (u32 \<times> u32) list \<Rightarrow> kern \<Rightarrow> kern option" where
  "write_words d b ws = for_each (\<lambda>(ofs, v). nv_wv32 d b ofs v) ws"

definition dmaobj_words :: "u32 \<Rightarrow> u32 \<Rightarrow> u64 \<Rightarrow> u64 \<Rightarrow> (u32 \<times> u32) list" where
  "dmaobj_words res type start end' =
     [(res + 0x00, type),
      (res + 0x04, ucast end'),
      (res + 0x08, ucast start),
      (res + 0x0c, ucast (push_bit 24 (drop_bit 32 end') OR drop_bit 32 start)),
      (res + 0x10, 0),
      (res + 0x14, 0)]"

definition nv50_chan_dmaobj_new :: "card \<Rightarrow> nat \<Rightarrow> u32 \<Rightarrow> u64 \<Rightarrow> u64 \<Rightarrow> kern \<Rightarrow> (u32 \<times> kern) option" where
  "nv50_chan_dmaobj_new d c type start sz s = do {
     let end' = start + sz - 1;
     (res, s) \<leftarrow> nv50_chan_iobj_new c 0x18 s;
     if res = 0 then Some (0, s)
     else do {
       ch \<leftarrow> chs s c;
       b \<leftarrow> cbo ch;
       s \<leftarrow> write_words d b (dmaobj_words res type start end') s;
       s \<leftarrow> bar_flush d s;
       Some (res, s) } }"

subsection \<open>NV50\<close>

definition nv50_chan_size :: "card \<Rightarrow> int \<Rightarrow> u64" where
  "nv50_chan_size d number = (if 0 \<le> number then 0x10000 else if chipset d = 0x50 then 0x6000 else 0x5000)"

text \<open>The page directory of the channel: a copy of that of its address space.\<close>

definition chan_fill_pd :: "card \<Rightarrow> nat \<Rightarrow> nat \<Rightarrow> kern \<Rightarrow> kern option" where
  "chan_fill_pd d v b s =
     for_each (\<lambda>i s. do {
       e \<leftarrow> nv50_vs v s;
       case pt e i of
         Some t \<Rightarrow> do {
           bo \<leftarrow> bos s t;
           s \<leftarrow> nv_wv32 d b (chan_pd d + of_nat (i * 8) + 4) (ucast (drop_bit 32 (bstart bo))) s;
           nv_wv32 d b (chan_pd d + of_nat (i * 8)) (ucast (bstart bo OR 3)) s }
       | None \<Rightarrow> nv_wv32 d b (chan_pd d + of_nat (i * 8)) 0 s }) [0..<NV50_VM_PDE_COUNT] s"

text \<open>
  What only a channel of a client has: a table of objects, and, except on the NV50 itself, a FIFO
  context and cache of its own.
\<close>

definition nv50_chan_ramht :: "card \<Rightarrow> nat \<Rightarrow> nat \<Rightarrow> kern \<Rightarrow> kern option" where
  "nv50_chan_ramht d c b s = do {
     (ofs, s) \<leftarrow> nv50_chan_iobj_new c (push_bit 9 8) s;
     s \<leftarrow> upd_ch c (\<lambda>ch. ch\<lparr>cramht := \<lparr>rbo = Some b, roffset = ofs, rbits = 9\<rparr>\<rparr>) s;
     for_each (\<lambda>i. nv_wv32 d b (ofs + of_nat (8 * i) + 4) 0) [0..<2 ^ 9] s }"

definition nv50_chan_user :: "card \<Rightarrow> vm_engine \<Rightarrow> nat \<Rightarrow> nat \<Rightarrow> kern \<Rightarrow> (unit res \<times> kern) option" where
  "nv50_chan_user d E c b s = do {
     s \<leftarrow> nv50_chan_ramht d c b s;
     ch \<leftarrow> chs s c;
     bo \<leftarrow> bos s b;
     if chipset d = 0x50 then do {
       s \<leftarrow> upd_ch c (\<lambda>ch. ch\<lparr>cramfc := 0\<rparr>) s;
       s \<leftarrow> nv_wr32 d (0x2600 + word_of_int (cid ch * 4)) (ucast (drop_bit 12 (bstart bo))) s;
       Some (Inr (), s) }
     else do {
       (ramfc, s) \<leftarrow> nv50_chan_iobj_new c 0x100 s;
       s \<leftarrow> upd_ch c (\<lambda>ch. ch\<lparr>cramfc := ramfc\<rparr>) s;
       (cache, s) \<leftarrow> pscnv_mem_alloc d 0x1000 PSCNV_GEM_CONTIG 0 0xf1f0cace s;
       s \<leftarrow> upd_ch c (\<lambda>ch. ch\<lparr>ccache := cache\<rparr>) s;
       if cache = None then do {
         s \<leftarrow> upd_ch c (\<lambda>ch. ch\<lparr>chandle := 0\<rparr>) s;
         s \<leftarrow> pscnv_mem_free d E b s;
         Some (Inl ENOMEM, s) }
       else do {
         s \<leftarrow> nv_wr32 d (0x2600 + word_of_int (cid ch * 4))
           (ucast (drop_bit 8 (bstart bo + ucast ramfc))) s;
         Some (Inr (), s) } } }"

definition nv50_chan_new :: "card \<Rightarrow> vm_engine \<Rightarrow> nat \<Rightarrow> kern \<Rightarrow> (unit res \<times> kern) option" where
  "nv50_chan_new d E c s = do {
     ch \<leftarrow> chs s c;
     let v = cvspace ch;
     (b, s) \<leftarrow> pscnv_mem_alloc d (nv50_chan_size d (cid ch)) PSCNV_GEM_CONTIG 0
       (if cid ch = -1 then 0xc5a2ba7 else 0xc5a2f1f0) s;
     s \<leftarrow> upd_ch c (\<lambda>ch. ch\<lparr>cbo := b\<rparr>) s;
     case b of
       None \<Rightarrow> Some (Inl ENOMEM, s)
     | Some b \<Rightarrow> do {
         bo \<leftarrow> bos s b;
         s \<leftarrow> upd_ch c (\<lambda>ch. ch\<lparr>chandle := ucast (drop_bit 12 (bstart bo))\<rparr>) s;
         vs \<leftarrow> vss s v;
         s \<leftarrow> (if vid vs \<noteq> -1 then do { (_, s) \<leftarrow> e_map_kernel E b s; Some s } else Some s);
         s \<leftarrow> mutex_lock_vs v s;
         s \<leftarrow> upd_nv50_vs v (\<lambda>e. e\<lparr>chan_list := c # chan_list e\<rparr>) s;
         s \<leftarrow> chan_fill_pd d v b s;
         s \<leftarrow> mutex_unlock_vs v s;
         s \<leftarrow> upd_ch c (\<lambda>ch. ch\<lparr>cinstpos := chan_pd d + of_nat (NV50_VM_PDE_COUNT * 8)\<rparr>) s;
         (ret, s) \<leftarrow> (if 0 \<le> cid ch then nv50_chan_user d E c b s else Some (Inr (), s));
         case ret of
           Inl err \<Rightarrow> Some (Inl err, s)
         | Inr _ \<Rightarrow> do { s \<leftarrow> bar_flush d s; Some (Inr (), s) } } }"

definition nv50_chan_free :: "card \<Rightarrow> vm_engine \<Rightarrow> nat \<Rightarrow> kern \<Rightarrow> kern option" where
  "nv50_chan_free d E c s = do {
     s \<leftarrow> upd_ch c (\<lambda>ch. ch\<lparr>chandle := 0\<rparr>) s;
     ch \<leftarrow> chs s c;
     b \<leftarrow> cbo ch;
     s \<leftarrow> pscnv_mem_free d E b s;
     s \<leftarrow> (case ccache ch of Some b \<Rightarrow> pscnv_mem_free d E b s | None \<Rightarrow> Some s);
     s \<leftarrow> mutex_lock_vs (cvspace ch) s;
     s \<leftarrow> upd_nv50_vs (cvspace ch) (\<lambda>e. e\<lparr>chan_list := remove1 c (chan_list e)\<rparr>) s;
     mutex_unlock_vs (cvspace ch) s }"

subsection \<open>NVC0\<close>

definition nvc0_chan_new :: "card \<Rightarrow> vm_engine \<Rightarrow> nat \<Rightarrow> kern \<Rightarrow> (unit res \<times> kern) option" where
  "nvc0_chan_new d E c s = do {
     ch \<leftarrow> chs s c;
     let v = cvspace ch;
     (b, s) \<leftarrow> pscnv_mem_alloc d 0x1000 PSCNV_GEM_CONTIG 0 (if cid ch < 0 then 0xc5a2ba7 else 0xc5a2f1f0) s;
     s \<leftarrow> upd_ch c (\<lambda>ch. ch\<lparr>cbo := b\<rparr>) s;
     case b of
       None \<Rightarrow> Some (Inl ENOMEM, s)
     | Some b \<Rightarrow> do {
         bo \<leftarrow> bos s b;
         s \<leftarrow> upd_ch c (\<lambda>ch. ch\<lparr>chandle := ucast (drop_bit 12 (bstart bo))\<rparr>) s;
         vs \<leftarrow> vss s v;
         s \<leftarrow> (if vid vs \<noteq> -3 then do { (_, s) \<leftarrow> e_map_kernel E b s; Some s } else Some s);
         e \<leftarrow> nvc0_vs v s;
         p \<leftarrow> bos s (pd e);
         s \<leftarrow> write_words d b
           [(0x200, ucast (bstart p)), (0x204, ucast (drop_bit 32 (bstart p))),
            (0x208, ucast (vsize vs - 1)), (0x20c, ucast (drop_bit 32 (vsize vs - 1)))] s;
         s \<leftarrow>
           (if 0 \<le> cid ch then do {
              s \<leftarrow> nv_wr32 d (0x3000 + word_of_int (cid ch * 8)) (ucast (0x40000000 OR drop_bit 12 (bstart bo))) s;
              upd_ch c (\<lambda>ch. ch\<lparr>chandle := ucast (drop_bit 12 (bstart bo))\<rparr>) s }
            else Some s);
         s \<leftarrow> bar_flush d s;
         Some (Inr (), s) } }"

definition nvc0_chan_free :: "card \<Rightarrow> vm_engine \<Rightarrow> nat \<Rightarrow> kern \<Rightarrow> kern option" where
  "nvc0_chan_free d E c s = do {
     s \<leftarrow> upd_ch c (\<lambda>ch. ch\<lparr>chandle := 0\<rparr>) s;
     ch \<leftarrow> chs s c;
     b \<leftarrow> cbo ch;
     pscnv_mem_free d E b s }"

definition do_chan_new :: "card \<Rightarrow> vm_engine \<Rightarrow> nat \<Rightarrow> kern \<Rightarrow> (unit res \<times> kern) option" where
  "do_chan_new d E c s = (if card_type d = NV_50 then nv50_chan_new d E c s else nvc0_chan_new d E c s)"

definition do_chan_free :: "card \<Rightarrow> vm_engine \<Rightarrow> nat \<Rightarrow> kern \<Rightarrow> kern option" where
  "do_chan_free d E c s = (if card_type d = NV_50 then nv50_chan_free d E c s else nvc0_chan_free d E c s)"

text \<open>The range of channel numbers; on the NVC0 PFIFO is reset as well.\<close>

definition nv50_chan_init :: "card \<Rightarrow> kern \<Rightarrow> (unit res \<times> kern) option" where
  "nv50_chan_init d s = do {
     ((failed, _), s) \<leftarrow> request d Kzalloc s;
     if failed \<noteq> 0 then Some (Inl ENOMEM, s)
     else Some (Inr (), s\<lparr>ch_min := 1, ch_max := 126\<rparr>) }"

definition nvc0_chan_init :: "card \<Rightarrow> kern \<Rightarrow> (unit res \<times> kern) option" where
  "nvc0_chan_init d s = do {
     ((failed, _), s) \<leftarrow> request d Kzalloc s;
     if failed \<noteq> 0 then Some (Inl ENOMEM, s)
     else do {
       (r, s) \<leftarrow> nv_rd32 d 0x200 s;
       s \<leftarrow> nv_wr32 d 0x200 (r AND 0xfffffeff) s;
       (r, s) \<leftarrow> nv_rd32 d 0x200 s;
       s \<leftarrow> nv_wr32 d 0x200 (r OR 0x100) s;
       Some (Inr (), s\<lparr>ch_min := 1, ch_max := 126\<rparr>) } }"

subsection \<open>Numbers of channels\<close>

definition pscnv_chan_bind :: "nat \<Rightarrow> nat \<Rightarrow> kern \<Rightarrow> (unit res \<times> kern) option" where
  "pscnv_chan_bind c fake s = do {
     ch \<leftarrow> chs s c;
     if cid ch \<noteq> 0 then None
     else if fake \<noteq> 0 then
       (if 4 \<le> fake \<or> fake_chans s fake \<noteq> None then None
        else do {
          s \<leftarrow> upd_ch c (\<lambda>ch. ch\<lparr>cid := - int fake\<rparr>) s;
          Some (Inr (), s\<lparr>fake_chans := (fake_chans s)(fake := Some c)\<rparr>) })
     else
       (case find (\<lambda>i. chans s i = None) [ch_min s..<Suc (ch_max s)] of
          None \<Rightarrow> Some (Inl ENOSPC, s)
        | Some i \<Rightarrow> do {
            s \<leftarrow> upd_ch c (\<lambda>ch. ch\<lparr>cid := int i\<rparr>) s;
            Some (Inr (), s\<lparr>chans := (chans s)(i := Some c)\<rparr>) }) }"

definition pscnv_chan_unbind :: "nat \<Rightarrow> kern \<Rightarrow> kern option" where
  "pscnv_chan_unbind c s = do {
     ch \<leftarrow> chs s c;
     s \<leftarrow>
       (if cid ch < 0 then
          (if 4 \<le> - cid ch \<or> fake_chans s (nat (- cid ch)) \<noteq> Some c then None
           else Some (s\<lparr>fake_chans := (fake_chans s)(nat (- cid ch) := None)\<rparr>))
        else
          (if 128 \<le> cid ch \<or> chans s (nat (cid ch)) \<noteq> Some c then None
           else Some (s\<lparr>chans := (chans s)(nat (cid ch) := None)\<rparr>)));
     upd_ch c (\<lambda>ch. ch\<lparr>cid := 0\<rparr>) s }"

text \<open>
  Which channel a handle the card reports belongs to: the first of the numbers whose instance memory
  is there, else the channel of a BAR, else 128. A channel without instance memory is a crash.
\<close>

primrec lookup_chan :: "kern \<Rightarrow> u32 \<Rightarrow> nat list \<Rightarrow> nat option option" where
  "lookup_chan s handle [] = Some None"
| "lookup_chan s handle (i # is) =
     (case chans s i of
        None \<Rightarrow> lookup_chan s handle is
      | Some c \<Rightarrow> do {
          ch \<leftarrow> chs s c;
          b \<leftarrow> cbo ch;
          bo \<leftarrow> bos s b;
          if drop_bit 12 (bstart bo) = ucast handle then Some (Some i) else lookup_chan s handle is })"

primrec lookup_fake :: "kern \<Rightarrow> u32 \<Rightarrow> nat list \<Rightarrow> nat option option" where
  "lookup_fake s handle [] = Some None"
| "lookup_fake s handle (i # is) =
     (case fake_chans s i of
        None \<Rightarrow> lookup_fake s handle is
      | Some c \<Rightarrow> do {
          ch \<leftarrow> chs s c;
          if chandle ch = handle then Some (Some i) else lookup_fake s handle is })"

definition pscnv_chan_handle_lookup :: "u32 \<Rightarrow> kern \<Rightarrow> int option" where
  "pscnv_chan_handle_lookup handle s = do {
     r \<leftarrow> lookup_chan s handle [0..<128];
     case r of
       Some i \<Rightarrow> Some (int i)
     | None \<Rightarrow> do {
         r \<leftarrow> lookup_fake s handle [0..<4];
         Some (case r of Some i \<Rightarrow> - int i | None \<Rightarrow> 128) } }"

end
