(* ===== verification/Fifo.thy ===== *)
theory Fifo
  imports Chan
begin

section \<open>PFIFO, which feeds the channels to the engines\<close>

text \<open>
  \<open>nv50_fifo.c\<close> and \<open>nvc0_fifo.c\<close>: starting the engine, giving a channel its FIFO context, taking
  it away again, and the playlist, the list of the channels that may run. There are two objects for
  the playlist, used in turns. On the NVC0 the driver also writes the control area of a channel, which
  is an object mapped through BAR1.
\<close>

text \<open>The table of interrupt handlers. A line has one handler at a time.\<close>

definition nouveau_irq_register :: "nat \<Rightarrow> irq \<Rightarrow> kern \<Rightarrow> kern option" where
  "nouveau_irq_register i h s =
     (if irq_handler s i \<noteq> None then None else Some (s\<lparr>irq_handler := (irq_handler s)(i := Some h)\<rparr>))"

definition nouveau_irq_unregister :: "nat \<Rightarrow> kern \<Rightarrow> kern option" where
  "nouveau_irq_unregister i s =
     (if irq_handler s i = None then None else Some (s\<lparr>irq_handler := (irq_handler s)(i := None)\<rparr>))"

definition write_regs :: "card \<Rightarrow> (u32 \<times> u32) list \<Rightarrow> kern \<Rightarrow> kern option" where
  "write_regs d ws = for_each (\<lambda>(r, v). nv_wr32 d r v) ws"

definition cur_list :: "fifo \<Rightarrow> nat" where
  "cur_list f = (if cur_playlist f then snd (playlists f) else fst (playlists f))"

text \<open>\<open>cur_playlist ^= 1\<close>, and the object that is now in use.\<close>

definition next_playlist :: "kern \<Rightarrow> (nat \<times> kern) option" where
  "next_playlist s = do {
     f \<leftarrow> fifo_engine s;
     let f = f\<lparr>cur_playlist := \<not> cur_playlist f\<rparr>;
     Some (cur_list f, s\<lparr>fifo_engine := Some f\<rparr>) }"

subsection \<open>The playlist\<close>

primrec nv50_playlist_fill :: "card \<Rightarrow> nat \<Rightarrow> nat list \<Rightarrow> u32 \<Rightarrow> kern \<Rightarrow> (u32 \<times> kern) option" where
  "nv50_playlist_fill d b [] pos s = Some (pos, s)"
| "nv50_playlist_fill d b (i # is) pos s = do {
     (r, s) \<leftarrow> nv_rd32 d (0x2600 + of_nat (i * 4)) s;
     if r AND 0x80000000 \<noteq> 0 then do {
       s \<leftarrow> nv_wv32 d b pos (of_nat i) s;
       nv50_playlist_fill d b is (pos + 4) s }
     else nv50_playlist_fill d b is pos s }"

definition nv50_fifo_playlist_update :: "card \<Rightarrow> kern \<Rightarrow> kern option" where
  "nv50_fifo_playlist_update d s = do {
     (b, s) \<leftarrow> next_playlist s;
     (pos, s) \<leftarrow> nv50_playlist_fill d b [0..<128] 0 s;
     s \<leftarrow> bar_flush d s;
     bo \<leftarrow> bos s b;
     s \<leftarrow> nv_wr32 d 0x32f4 (ucast (drop_bit 12 (bstart bo))) s;
     s \<leftarrow> nv_wr32 d 0x32ec (pos div 4) s;
     nv_wr32 d 0x2500 0x101 s }"

primrec nvc0_playlist_fill :: "card \<Rightarrow> nat \<Rightarrow> nat list \<Rightarrow> u32 \<Rightarrow> kern \<Rightarrow> (u32 \<times> kern) option" where
  "nvc0_playlist_fill d b [] pos s = Some (pos, s)"
| "nvc0_playlist_fill d b (i # is) pos s = do {
     (r, s) \<leftarrow> nv_rd32 d (0x3004 + of_nat (i * 8)) s;
     if r AND 1 \<noteq> 0 then do {
       s \<leftarrow> nv_wv32 d b pos (of_nat i) s;
       s \<leftarrow> nv_wv32 d b (pos + 4) 4 s;
       nvc0_playlist_fill d b is (pos + 8) s }
     else nvc0_playlist_fill d b is pos s }"

definition nvc0_fifo_playlist_update :: "card \<Rightarrow> kern \<Rightarrow> kern option" where
  "nvc0_fifo_playlist_update d s = do {
     (b, s) \<leftarrow> next_playlist s;
     (pos, s) \<leftarrow> nvc0_playlist_fill d b [0..<128] 0 s;
     s \<leftarrow> bar_flush d s;
     bo \<leftarrow> bos s b;
     s \<leftarrow> nv_wr32 d 0x2270 (ucast (drop_bit 12 (bstart bo))) s;
     s \<leftarrow> nv_wr32 d 0x2274 (0x1f00000 OR pos div 8) s;
     (ok, s) \<leftarrow> nv_wait d 0x227c 0x100000 0 s;
     if ok then Some s else do { (_, s) \<leftarrow> nv_rd32 d 0x227c s; Some s } }"

subsection \<open>Taking a channel off\<close>

definition nv50_fifo_chan_kill :: "card \<Rightarrow> nat \<Rightarrow> kern \<Rightarrow> kern option" where
  "nv50_fifo_chan_kill d c s = do {
     ch \<leftarrow> chs s c;
     _ \<leftarrow> fifo_engine s;
     let reg = 0x2600 + word_of_int (cid ch * 4);
     (r, s) \<leftarrow> nv_rd32 d reg s;
     s \<leftarrow> nv_wr32 d reg (r AND 0x3fffffff) s;
     s \<leftarrow> nv50_fifo_playlist_update d s;
     s \<leftarrow> nv_wr32 d 0x2504 1 s;
     (_, s) \<leftarrow> nouveau_wait_until d 2000000000 0x2504 0x10 0x10 s;
     (cur, s) \<leftarrow> nv_rd32 d 0x3204 s;
     s \<leftarrow>
       (if int (unat (cur AND 0x7f)) = cid ch then
          write_regs d [(0x3204, 0), (0x3204, 0), (0x3210, 0), (0x3270, 0),
            (0x3250, 1), (0x3220, 1), (0x3200, 1), (0x2500, 1)] s
        else Some s);
     s \<leftarrow> nv_wr32 d reg 0 s;
     nv_wr32 d 0x2504 0 s }"

definition nvc0_fifo_chan_kill :: "card \<Rightarrow> nat \<Rightarrow> kern \<Rightarrow> kern option" where
  "nvc0_fifo_chan_kill d c s = do {
     ch \<leftarrow> chs s c;
     let reg = 0x3004 + word_of_int (cid ch * 8);
     (status, s) \<leftarrow> nv_rd32 d reg s;
     s \<leftarrow> nv_wr32 d reg (status AND NOT 1) s;
     s \<leftarrow> nv_wr32 d 0x2634 (word_of_int (cid ch)) s;
     (ok, s) \<leftarrow> nv_wait d 0x2634 0xffffffff (word_of_int (cid ch)) s;
     s \<leftarrow> (if ok then Some s else do { (_, s) \<leftarrow> nv_rd32 d 0x2634 s; Some s });
     s \<leftarrow> nvc0_fifo_playlist_update d s;
     (_, s) \<leftarrow> nv_rd32 d reg s;
     Some s }"

subsection \<open>The FIFO context of a channel\<close>

text \<open>
  The NV50 has two ways to feed a channel: a ring of commands, or (\<open>ib\<close>) a ring of pointers to them.
  The contexts differ in a few words.
\<close>

definition nv50_ramfc_words :: "ramht \<Rightarrow> u32 \<Rightarrow> u32 \<Rightarrow> u32 \<times> u32 \<Rightarrow> u32 \<Rightarrow> u32 \<Rightarrow> u32 \<times> u32 \<Rightarrow> (u32 \<times> u32) list" where
  "nv50_ramfc_words r pb_inst slimask pb w3c w4c ib =
     [(0x00, 0), (0x04, 0), (0x08, fst pb), (0x0c, snd pb), (0x10, fst pb), (0x14, snd pb),
      (0x18, 0), (0x1c, 0), (0x20, 0), (0x24, 0), (0x28, 0), (0x2c, 0), (0x30, 0), (0x34, 0), (0x38, 0),
      (0x3c, w3c), (0x40, 0), (0x44, 0x2101ffff), (0x48, pb_inst), (0x4c, w4c),
      (0x50, fst ib), (0x54, snd ib), (0x58, 0), (0x5c, 0), (0x60, 0x7fffffff),
      (0x64, 0), (0x68, 0), (0x6c, 0), (0x70, 0), (0x74, 0), (0x78, 0),
      (0x7c, 0x30000000 XOR slimask),
      (0x80, 0x4000000 OR drop_bit 4 (roffset r) OR push_bit 27 (of_nat (rbits r) - 9)),
      (0x84, 0)]"

definition at :: "u32 \<Rightarrow> (u32 \<times> u32) list \<Rightarrow> (u32 \<times> u32) list" where
  "at base = map (\<lambda>(ofs, v). (base + ofs, v))"

text \<open>The rest is the same for both: the words only the later cards have, and starting the channel.\<close>

definition nv50_fifo_start :: "card \<Rightarrow> nat \<Rightarrow> (u32 \<times> u32) list \<Rightarrow> kern \<Rightarrow> kern option" where
  "nv50_fifo_start d c ws s = do {
     ch \<leftarrow> chs s c;
     b \<leftarrow> cbo ch;
     s \<leftarrow> write_words d b (at (cramfc ch) ws) s;
     bo \<leftarrow> bos s b;
     let reg = 0x2600 + word_of_int (cid ch * 4);
     s \<leftarrow>
       (if chipset d \<noteq> 0x50 then do {
          cb \<leftarrow> ccache ch;
          cache \<leftarrow> bos s cb;
          s \<leftarrow> write_words d b (at (cramfc ch)
            [(0x88, ucast (drop_bit 10 (bstart cache))), (0x8c, 0), (0x90, 0), (0x94, 0),
             (0x98, ucast (drop_bit 12 (bstart bo)))]) s;
          nv_wr32 d reg (0x80000000 OR ucast (drop_bit 8 (bstart bo + ucast (cramfc ch)))) s }
        else nv_wr32 d reg (0x80000000 OR ucast (drop_bit 12 (bstart bo))) s);
     nv50_fifo_playlist_update d s }"

text \<open>The object the handle stands for, if it can be that of a command buffer.\<close>

definition nv50_pb_inst :: "card \<Rightarrow> nat \<Rightarrow> u32 \<Rightarrow> kern \<Rightarrow> (u32 option \<times> kern) option" where
  "nv50_pb_inst d c pb_handle s = do {
     ch \<leftarrow> chs s c;
     (pb_inst, s) \<leftarrow> pscnv_ramht_find d (cramht ch) pb_handle s;
     Some (if pb_inst = 0 \<or> pb_inst AND 0xffff0000 \<noteq> 0 then None else Some pb_inst, s) }"

definition nv50_fifo_chan_init_dma ::
  "card \<Rightarrow> nat \<Rightarrow> u32 \<Rightarrow> u32 \<Rightarrow> u32 \<Rightarrow> u64 \<Rightarrow> kern \<Rightarrow> (unit res \<times> kern) option" where
  "nv50_fifo_chan_init_dma d c pb_handle flags slimask pb_start s = do {
     ch \<leftarrow> chs s c;
     (inst, s) \<leftarrow> nv50_pb_inst d c pb_handle s;
     case inst of
       None \<Rightarrow> Some (Inl ENOENT, s)
     | Some pb_inst \<Rightarrow> do {
         s \<leftarrow> nv50_fifo_start d c
           (nv50_ramfc_words (cramht ch) pb_inst slimask (ucast pb_start, ucast (drop_bit 32 pb_start))
             0x003f6078 0xffffffff (0, 0)) s;
         Some (Inr (), s) } }"

text \<open>\<open>nv50_fifo_chan_init_ib\<close> up to the reference to the channel it drops at its end.\<close>

definition nv50_fifo_ib :: "card \<Rightarrow> nat \<Rightarrow> u32 \<Rightarrow> u32 \<Rightarrow> u64 \<Rightarrow> u32 \<Rightarrow> kern \<Rightarrow> (unit res \<times> kern) option" where
  "nv50_fifo_ib d c pb_handle slimask ib_start ib_order s = do {
     ch \<leftarrow> chs s c;
     (inst, s) \<leftarrow> nv50_pb_inst d c pb_handle s;
     case inst of
       None \<Rightarrow> Some (Inl ENOENT, s)
     | Some pb_inst \<Rightarrow> do {
         s \<leftarrow> nv50_fifo_start d c
           (nv50_ramfc_words (cramht ch) pb_inst slimask (0, 0) 0x403f6078 0
             (ucast ib_start, ucast (drop_bit 32 ib_start OR ucast (push_bit 16 ib_order)))) s;
         Some (Inr (), s) } }"

definition nvc0_ramfc_words :: "u64 \<Rightarrow> u32 \<Rightarrow> u64 \<Rightarrow> u32 \<Rightarrow> (u32 \<times> u32) list" where
  "nvc0_ramfc_words fifo_regs slimask ib_start ib_order =
     [(0x08, ucast fifo_regs), (0x0c, ucast (drop_bit 32 fifo_regs)),
      (0x48, ucast ib_start), (0x4c, ucast (drop_bit 32 ib_start OR ucast (push_bit 16 ib_order))),
      (0x10, 0xface), (0x54, 2), (0x9c, 0x100), (0x84, 0x20400000),
      (0x94, 0x30000000 XOR slimask), (0xa4, 0x1f1f1f1f), (0xa8, 0x1f1f1f1f), (0xac, 0x1f),
      (0x30, 0xfffff902), (0xf8, 0x10003080), (0xfc, 0x10000010)]"

definition nvchan_wr32 :: "card \<Rightarrow> int \<Rightarrow> u32 \<Rightarrow> u32 \<Rightarrow> kern \<Rightarrow> kern option" where
  "nvchan_wr32 d cid' ofs v s = tell d (CtlWr (word_of_int (cid' * 0x1000) + ofs) v) s"

definition nvc0_fifo_chan_init_ib ::
  "card \<Rightarrow> nat \<Rightarrow> u32 \<Rightarrow> u32 \<Rightarrow> u32 \<Rightarrow> u64 \<Rightarrow> u32 \<Rightarrow> kern \<Rightarrow> (unit res \<times> kern) option" where
  "nvc0_fifo_chan_init_ib d c pb_handle flags slimask ib_start ib_order s = do {
     ch \<leftarrow> chs s c;
     f \<leftarrow> fifo_engine s;
     ctl \<leftarrow> ctrl_bo f;
     ctl \<leftarrow> bos s ctl;
     let fifo_regs = bstart ctl + word_of_int (cid ch * 0x1000);
     if ib_order > 29 then Some (Inl EINVAL, s)
     else do {
       s \<leftarrow> for_each (\<lambda>i. nvchan_wr32 d (cid ch) i 0)
         [0x40, 0x44, 0x48, 0x4c, 0x50, 0x58, 0x5c, 0x60, 0x88, 0x8c] s;
       b \<leftarrow> cbo ch;
       s \<leftarrow> clear_words d b 0 0x100 s;
       s \<leftarrow> bar_flush d s;
       s \<leftarrow> write_words d b (nvc0_ramfc_words fifo_regs slimask ib_start ib_order) s;
       s \<leftarrow> bar_flush d s;
       bo \<leftarrow> bos s b;
       s \<leftarrow> nv_wr32 d (0x3000 + word_of_int (cid ch * 8)) (0xc0000000 OR ucast (drop_bit 12 (bstart bo))) s;
       s \<leftarrow> nv_wr32 d (0x3004 + word_of_int (cid ch * 8)) 0x1f0001 s;
       s \<leftarrow> nvc0_fifo_playlist_update d s;
       Some (Inr (), s) } }"

subsection \<open>Starting and stopping\<close>

text \<open>The two playlists, or none: the second is asked for even if the first was not got.\<close>

definition alloc_playlists :: "card \<Rightarrow> vm_engine \<Rightarrow> kern \<Rightarrow> ((nat \<times> nat) option \<times> kern) option" where
  "alloc_playlists d E s = do {
     (p0, s) \<leftarrow> pscnv_mem_alloc d 0x1000 PSCNV_GEM_CONTIG 0 0x91a71157 s;
     (p1, s) \<leftarrow> pscnv_mem_alloc d 0x1000 PSCNV_GEM_CONTIG 0 0x91a71157 s;
     case (p0, p1) of
       (Some p0, Some p1) \<Rightarrow> Some (Some (p0, p1), s)
     | _ \<Rightarrow> do {
         s \<leftarrow> (case p0 of Some b \<Rightarrow> pscnv_mem_free d E b s | None \<Rightarrow> Some s);
         s \<leftarrow> (case p1 of Some b \<Rightarrow> pscnv_mem_free d E b s | None \<Rightarrow> Some s);
         Some (None, s) } }"

definition nv50_fifo_init :: "card \<Rightarrow> vm_engine \<Rightarrow> kern \<Rightarrow> (unit res \<times> kern) option" where
  "nv50_fifo_init d E s = do {
     ((failed, _), s) \<leftarrow> request d Kzalloc s;
     if failed \<noteq> 0 then Some (Inl ENOMEM, s)
     else do {
       (ps, s) \<leftarrow> alloc_playlists d E s;
       case ps of
         None \<Rightarrow> Some (Inl ENOMEM, s)
       | Some (p0, p1) \<Rightarrow> do {
           (_, s) \<leftarrow> e_map_kernel E p0 s;
           (_, s) \<leftarrow> e_map_kernel E p1 s;
           s \<leftarrow> write_regs d ([(0x200, 0xfffffeff), (0x200, 0xffffffff)] @
             map (\<lambda>i. (0x2600 + of_nat (i * 4), 0)) [0..<128] @
             [(0x2100, 0xffffffff), (0x250c, 0x6f3cfc34), (0x3204, 0), (0x3210, 0), (0x3270, 0),
              (0x3250, 1), (0x3220, 1), (0x3200, 1), (0x2500, 1)]) s;
           let s = s\<lparr>fifo_engine := Some \<lparr>playlists = (p0, p1), cur_playlist = False, ctrl_bo = None\<rparr>\<rparr>;
           s \<leftarrow> nouveau_irq_register 8 Nv50FifoIrq s;
           s \<leftarrow> nv_wr32 d 0x2140 0xffffffff s;
           Some (Inr (), s) } } }"

definition nv50_fifo_takedown :: "card \<Rightarrow> vm_engine \<Rightarrow> kern \<Rightarrow> kern option" where
  "nv50_fifo_takedown d E s = do {
     f \<leftarrow> fifo_engine s;
     s \<leftarrow> nv_wr32 d 0x2140 0 s;
     s \<leftarrow> nouveau_irq_unregister 8 s;
     s \<leftarrow> write_regs d (map (\<lambda>i. (0x2600 + of_nat (i * 4), 0)) [0..<128] @ [(0x32ec, 0), (0x2500, 0x101)]) s;
     s \<leftarrow> pscnv_mem_free d E (fst (playlists f)) s;
     s \<leftarrow> pscnv_mem_free d E (snd (playlists f)) s;
     Some (s\<lparr>fifo_engine := None\<rparr>) }"

definition nvc0_fifo_regs :: "(u32 \<times> u32) list" where
  "nvc0_fifo_regs =
     [(0x2100, 0xffffffff), (0x204, 0), (0x204, 7), (0x2204, 7),
      (0x2208, 0xfffffffe), (0x220c, 0xfffffffd), (0x2210, 0xfffffffd), (0x2214, 0xfffffffd),
      (0x2218, 0xfffffffb), (0x221c, 0xfffffffd),
      (0x4010c, 0xffffffff), (0x4210c, 0xffffffff), (0x4410c, 0xffffffff), (0x2200, 1)]"

definition nvc0_fifo_init :: "card \<Rightarrow> vm_engine \<Rightarrow> kern \<Rightarrow> (unit res \<times> kern) option" where
  "nvc0_fifo_init d E s = do {
     ((failed, _), s) \<leftarrow> request d Kzalloc s;
     if failed \<noteq> 0 then Some (Inl ENOMEM, s)
     else do {
       (ctl, s) \<leftarrow> pscnv_mem_alloc d (128 * 0x1000) PSCNV_GEM_CONTIG 0 0xf1f03e95 s;
       case ctl of
         None \<Rightarrow> Some (Inl ENOMEM, s)
       | Some ctl \<Rightarrow> do {
           (ps, s) \<leftarrow> alloc_playlists d E s;
           case ps of
             None \<Rightarrow> do { s \<leftarrow> pscnv_mem_free d E ctl s; Some (Inl ENOMEM, s) }
           | Some (p0, p1) \<Rightarrow> do {
               (_, s) \<leftarrow> e_map_kernel E p0 s;
               (_, s) \<leftarrow> e_map_kernel E p1 s;
               (_, s) \<leftarrow> e_map_user E ctl s;
               bo \<leftarrow> bos s ctl;
               let give_up = (\<lambda>s. do {
                   s \<leftarrow> pscnv_mem_free d E p0 s;
                   s \<leftarrow> pscnv_mem_free d E p1 s;
                   s \<leftarrow> pscnv_mem_free d E ctl s;
                   Some (Inl ENOMEM, s) });
               case bmap1 bo of
                 None \<Rightarrow> give_up s
               | Some p \<Rightarrow> do {
                   n \<leftarrow> vs_node p s;
                   ((mapped, _), s) \<leftarrow> request d (Ioremap (fb_phys d + nstart n) (push_bit 12 128)) s;
                   if mapped = 0 then give_up s
                   else do {
                     s \<leftarrow> write_regs d nvc0_fifo_regs s;
                     s \<leftarrow> nv_wr32 d 0x2254 (ucast (0x10000000 OR drop_bit 12 (nstart n))) s;
                     let s = s\<lparr>fifo_engine := Some \<lparr>playlists = (p0, p1), cur_playlist = False, ctrl_bo = Some ctl\<rparr>\<rparr>;
                     s \<leftarrow> nouveau_irq_register 8 Nvc0FifoIrq s;
                     s \<leftarrow> nv_wr32 d 0x2140 0xbfffffff s;
                     Some (Inr (), s) } } } } } }"

definition nvc0_fifo_takedown :: "card \<Rightarrow> vm_engine \<Rightarrow> kern \<Rightarrow> kern option" where
  "nvc0_fifo_takedown d E s = do {
     f \<leftarrow> fifo_engine s;
     s \<leftarrow> nv_wr32 d 0x2140 0 s;
     s \<leftarrow> nouveau_irq_unregister 8 s;
     s \<leftarrow> pscnv_mem_free d E (fst (playlists f)) s;
     s \<leftarrow> pscnv_mem_free d E (snd (playlists f)) s;
     s \<leftarrow> tell d Iounmap s;
     ctl \<leftarrow> ctrl_bo f;
     s \<leftarrow> pscnv_mem_free d E ctl s;
     Some (s\<lparr>fifo_engine := None\<rparr>) }"

definition nvc0_fifo_ctrl_offs :: "int \<Rightarrow> kern \<Rightarrow> u64 option" where
  "nvc0_fifo_ctrl_offs cid' s = do {
     f \<leftarrow> fifo_engine s;
     ctl \<leftarrow> ctrl_bo f;
     bo \<leftarrow> bos s ctl;
     p \<leftarrow> bmap1 bo;
     n \<leftarrow> vs_node p s;
     Some (nstart n + word_of_int (cid' * 0x1000)) }"

text \<open>The engine of the card.\<close>

definition fifo_chan_kill :: "card \<Rightarrow> nat \<Rightarrow> kern \<Rightarrow> kern option" where
  "fifo_chan_kill d c s =
     (if fifo_engine s = None then None
      else if card_type d = NV_50 then nv50_fifo_chan_kill d c s
      else nvc0_fifo_chan_kill d c s)"

end
