(* ===== verification/Graph.thy ===== *)
theory Graph
  imports Fifo GrCtx
begin

section \<open>PGRAPH, the graphics engine\<close>

text \<open>
  \<open>nv50_graph.c\<close> but for the interrupts. The engine is there when \<^const>\<open>grctx_size\<close> is set, the
  size of the context of a channel, which is found while the context program is made. The context of
  a channel is an object of its own, entry 1 of \<^const>\<open>cengdata\<close>.
\<close>

abbreviation (input) PSCNV_ENGINE_GRAPH :: nat where "PSCNV_ENGINE_GRAPH \<equiv> 1"

subsection \<open>Starting and stopping\<close>

definition graph_oclasses :: "card \<Rightarrow> u32 list" where
  "graph_oclasses d =
     (if chipset d = 0x50 then
        [0x0030, 0x5039, 0x0012, 0x0019, 0x0043, 0x0044, 0x004a, 0x0057, 0x005d, 0x005f, 0x0072, 0x305c,
         0x3064, 0x3066, 0x307b, 0x308a, 0x5062, 0x5089, 0x502d, 0x50c0, 0x5097]
      else if chipset d < 0xa0 then [0x0030, 0x5039, 0x502d, 0x50c0, 0x5097, 0x8297]
      else if chipset d = 0xa0 \<or> (chipset d \<ge> 0xaa \<and> chipset d \<le> 0xac) then
        [0x0030, 0x5039, 0x502d, 0x50c0, 0x8397]
      else if chipset d < 0xaa then [0x0030, 0x5039, 0x502d, 0x50c0, 0x85c0, 0x8597]
      else [0x0030, 0x5039, 0x502d, 0x50c0, 0x85c0, 0x8697])"

text \<open>The traps of TP \<open>i\<close>: textures, the TPDMA and the multiprocessors.\<close>

definition tp_trap_regs :: "card \<Rightarrow> nat \<Rightarrow> u32 list" where
  "tp_trap_regs d i =
     (if chipset d < 0xa0 then map (\<lambda>r. r + push_bit 12 (of_nat i)) [0x408900, 0x408e08, 0x408314]
      else map (\<lambda>r. r + push_bit 11 (of_nat i)) [0x408600, 0x408708, 0x40831c])"

definition graph_regs :: "card \<Rightarrow> u32 \<Rightarrow> (u32 \<times> u32) list" where
  "graph_regs d units =
     [(0x200, 0xffffefff), (0x200, 0xffffffff),
      (0x400804, 0xc0000000), (0x406800, 0xc0000000), (0x400c04, 0xc0000000), (0x401800, 0xc0000000),
      (0x405018, 0xc0000000), (0x402000, 0xc0000000)] @
     concat (map (\<lambda>i. if bit units i then map (\<lambda>r. (r, 0xc0000000)) (tp_trap_regs d i) else []) [0..<16]) @
     [(0x400108, 0xffffffff), (0x400100, 0xffffffff), (0x400824, 0x00004000), (0x400500, 0x00010001),
      (0x402ca8, 0x00000800), (0x40008c, 0x00000004)]"

text \<open>While the program is made nothing is written: there is no object for the context yet.\<close>

definition nv50_graph_init :: "card \<Rightarrow> kern \<Rightarrow> (unit res \<times> kern) option" where
  "nv50_graph_init d s = do {
     (units, s) \<leftarrow> nv_rd32 d 0x1540 s;
     ((failed, _), s) \<leftarrow> request d Kzalloc s;
     if failed \<noteq> 0 then Some (Inl ENOMEM, s)
     else do {
       s \<leftarrow> write_regs d (graph_regs d units) s;
       ((failed, _), s) \<leftarrow> request d Kzalloc s;
       if failed \<noteq> 0 then Some (Inl ENOMEM, s)
       else do {
         (ret, s) \<leftarrow> nv50_grctx_init d (\<lambda>_ _ _. None) (new_grctx Prog 512) s;
         case ret of
           Inl err \<Rightarrow> Some (Inl err, s)
         | Inr c \<Rightarrow> do {
             s \<leftarrow> write_regs d ([(0x400324, 0)] @ map (\<lambda>w. (0x400328, w)) (ctxprog c) @
               [(0x40032c, 0), (0x400784, 0), (0x400320, 4)]) s;
             s \<leftarrow> nouveau_irq_register 12 Nv50GraphIrq (s\<lparr>grctx_size := Some (ctxvals_pos c * 4)\<rparr>);
             s \<leftarrow> write_regs d [(0x400138, 0xffffffff), (0x40013c, 0xffffffff)] s;
             Some (Inr (), s) } } } }"

definition nv50_graph_takedown :: "card \<Rightarrow> kern \<Rightarrow> kern option" where
  "nv50_graph_takedown d s = do {
     s \<leftarrow> write_regs d [(0x400138, 0), (0x40013c, 0)] s;
     s \<leftarrow> nouveau_irq_unregister 12 s;
     Some (s\<lparr>grctx_size := None\<rparr>) }"

subsection \<open>The context of a channel\<close>

text \<open>Where the header of the context lies in the instance memory of the channel.\<close>

definition graph_hdr :: "card \<Rightarrow> u32" where
  "graph_hdr d = (if chipset d = 0x50 then 0x200 else 0x20)"

definition nv50_graph_chan_alloc :: "card \<Rightarrow> nat \<Rightarrow> kern \<Rightarrow> (unit res \<times> kern) option" where
  "nv50_graph_chan_alloc d c s = do {
     sz \<leftarrow> grctx_size s;
     ((failed, _), s) \<leftarrow> request d Kzalloc s;
     if failed \<noteq> 0 then Some (Inl ENOMEM, s)
     else do {
       (g, s) \<leftarrow> pscnv_mem_alloc d (ucast sz) PSCNV_GEM_CONTIG 0 0x97c07e47 s;
       case g of
         None \<Rightarrow> Some (Inl ENOMEM, s)
       | Some g \<Rightarrow> do {
           s \<leftarrow> clear_words d g 0 (unat sz) s;
           (_, s) \<leftarrow> nv50_grctx_init d (nv_wv32 d g) (new_grctx Vals 0) s;
           bo \<leftarrow> bos s g;
           ch \<leftarrow> chs s c;
           b \<leftarrow> cbo ch;
           s \<leftarrow> write_words d b
             (dmaobj_words (graph_hdr d) 0x00190000 (bstart bo) (bstart bo + ucast sz - 1)) s;
           s \<leftarrow> bar_flush d s;
           s \<leftarrow> upd_nv50_vs (cvspace ch)
             (\<lambda>e. e\<lparr>engref := (engref e)(PSCNV_ENGINE_GRAPH := engref e PSCNV_ENGINE_GRAPH + 1)\<rparr>) s;
           s \<leftarrow> upd_ch c (\<lambda>ch. ch\<lparr>cengdata := (cengdata ch)(PSCNV_ENGINE_GRAPH := Some g)\<rparr>) s;
           Some (Inr (), s) } } }"

text \<open>The flush here is the plain one, even on the NV86.\<close>

definition nv50_graph_chan_free :: "card \<Rightarrow> vm_engine \<Rightarrow> nat \<Rightarrow> kern \<Rightarrow> kern option" where
  "nv50_graph_chan_free d E c s = do {
     ch \<leftarrow> chs s c;
     g \<leftarrow> cengdata ch PSCNV_ENGINE_GRAPH;
     s \<leftarrow> pscnv_mem_free d E g s;
     s \<leftarrow> upd_nv50_vs (cvspace ch)
       (\<lambda>e. e\<lparr>engref := (engref e)(PSCNV_ENGINE_GRAPH := engref e PSCNV_ENGINE_GRAPH - 1)\<rparr>) s;
     s \<leftarrow> upd_ch c (\<lambda>ch. ch\<lparr>cengdata := (cengdata ch)(PSCNV_ENGINE_GRAPH := None)\<rparr>) s;
     (_, s) \<leftarrow> nv50_graph_tlb_flush d s;
     Some s }"

text \<open>
  Before a channel goes, the context program must be stopped or stand at its synchronisation point:
  the driver waits for it two seconds at most.
\<close>

partial_function (option) ctxprog_wait :: "card \<Rightarrow> u64 \<Rightarrow> kern \<Rightarrow> kern option" where
  "ctxprog_wait d start s = do {
     (run, s) \<leftarrow> nv_rd32 d 0x400300 s;
     if run AND 1 = 0 then Some s
     else do {
       (sync, s) \<leftarrow> nv_rd32 d 0x400824 s;
       if sync AND 0x80000000 \<noteq> 0 then Some s
       else do {
         (now, s) \<leftarrow> nv04_timer_read d s;
         if now - start \<ge> 2000000000 then Some s else ctxprog_wait d start s } } }"

definition nv50_graph_chan_kill :: "card \<Rightarrow> nat \<Rightarrow> kern \<Rightarrow> kern option" where
  "nv50_graph_chan_kill d c s = do {
     (start, s) \<leftarrow> nv04_timer_read d s;
     s \<leftarrow> write_regs d [(0x400500, 0), (0x400830, 1)] s;
     s \<leftarrow> ctxprog_wait d start s;
     (cur, s) \<leftarrow> nv_rd32 d 0x40032c s;
     ch \<leftarrow> chs s c;
     b \<leftarrow> cbo ch;
     bo \<leftarrow> bos s b;
     let inst = 0x80000000 OR drop_bit 12 (bstart bo);
     s \<leftarrow>
       (if ucast cur = inst then write_regs d [(0x400040, 0xffffffff), (0x400040, 0), (0x40032c, 0), (0x400310, 0)] s
        else Some s);
     (next, s) \<leftarrow> nv_rd32 d 0x400330 s;
     s \<leftarrow> (if ucast next = inst then write_regs d [(0x400330, 0), (0x400310, 0)] s else Some s);
     write_regs d [(0x400830, 0), (0x400500, 0x10001)] s }"

definition nv50_graph_chan_obj_new :: "card \<Rightarrow> nat \<Rightarrow> u32 \<Rightarrow> u32 \<Rightarrow> kern \<Rightarrow> (unit res \<times> kern) option" where
  "nv50_graph_chan_obj_new d c handle oclass s = do {
     (inst, s) \<leftarrow> nv50_chan_iobj_new c 0x10 s;
     if inst = 0 then Some (Inl ENOMEM, s)
     else do {
       ch \<leftarrow> chs s c;
       b \<leftarrow> cbo ch;
       s \<leftarrow> write_words d b [(inst, oclass), (inst + 4, 0), (inst + 8, 0), (inst + 0xc, 0)] s;
       pscnv_ramht_insert d (cramht ch) handle (0x100000 OR drop_bit 4 inst) s } }"

declare ctxprog_wait.simps [code]

end
