(* ===== verification/ChanLife.thy ===== *)
theory ChanLife
  imports Graph
begin

section \<open>Life of a channel\<close>

text \<open>
  The rest of \<open>pscnv_chan.c\<close>: creating a channel, counting the references to it, and freeing it when
  the last is dropped, when it is taken off PFIFO and the engines first. Then what depends on it: the
  end of \<open>nv50_fifo_chan_init_ib\<close>, and setting up and taking down the address spaces of the BARs,
  which have channels of their own (\<open>nv50_vm_init\<close>, \<open>nvc0_vm_init\<close>).
\<close>

definition new_chan :: "nat \<Rightarrow> chan" where
  "new_chan v =
     \<lparr>cid = 0, chandle = 0xffffffff, cvspace = v, cbo = None, cinstpos = 0,
      cramht = \<lparr>rbo = None, roffset = 0, rbits = 0\<rparr>, cramfc = 0, ccache = None, cfilp = None, cref = 1,
      cengdata = (\<lambda>_. None)\<rparr>"

definition pscnv_chan_new :: "card \<Rightarrow> vm_engine \<Rightarrow> nat \<Rightarrow> nat \<Rightarrow> kern \<Rightarrow> (nat option \<times> kern) option" where
  "pscnv_chan_new d E v fake s = do {
     ((failed, _), s) \<leftarrow> request d Kzalloc s;
     if failed \<noteq> 0 then Some (None, s)
     else do {
       let c = fresh s;
       let s = s\<lparr>chs := (chs s)(c \<mapsto> new_chan v), fresh := Suc c\<rparr>;
       s \<leftarrow> pscnv_vspace_ref v s;
       (ret, s) \<leftarrow> pscnv_chan_bind c fake s;
       case ret of
         Inl _ \<Rightarrow> do {
           s \<leftarrow> pscnv_vspace_unref d E v s;
           Some (None, s\<lparr>chs := (chs s)(c := None)\<rparr>) }
       | Inr _ \<Rightarrow> do {
           (ret, s) \<leftarrow> do_chan_new d E c s;
           case ret of
             Inl _ \<Rightarrow> do {
               s \<leftarrow> pscnv_vspace_unref d E v s;
               s \<leftarrow> pscnv_chan_unbind c s;
               Some (None, s\<lparr>chs := (chs s)(c := None)\<rparr>) }
           | Inr _ \<Rightarrow> Some (Some c, s) } } }"

text \<open>Only PGRAPH has entries in \<^const>\<open>cengdata\<close>; one of an engine that is not there is a crash.\<close>

definition engine_leave :: "card \<Rightarrow> vm_engine \<Rightarrow> nat \<Rightarrow> nat \<Rightarrow> kern \<Rightarrow> kern option" where
  "engine_leave d E c i s = do {
     ch \<leftarrow> chs s c;
     if cengdata ch i = None then Some s
     else if i \<noteq> PSCNV_ENGINE_GRAPH \<or> grctx_size s = None then None
     else do {
       s \<leftarrow> nv50_graph_chan_kill d c s;
       nv50_graph_chan_free d E c s } }"

definition pscnv_chan_ref_free :: "card \<Rightarrow> vm_engine \<Rightarrow> nat \<Rightarrow> kern \<Rightarrow> kern option" where
  "pscnv_chan_ref_free d E c s = do {
     ch \<leftarrow> chs s c;
     s \<leftarrow>
       (if 0 \<le> cid ch then do {
          s \<leftarrow> fifo_chan_kill d c s;
          for_each (engine_leave d E c) [0..<16] s }
        else Some s);
     s \<leftarrow> do_chan_free d E c s;
     s \<leftarrow> pscnv_chan_unbind c s;
     s \<leftarrow> pscnv_vspace_unref d E (cvspace ch) s;
     Some (s\<lparr>chs := (chs s)(c := None)\<rparr>) }"

definition pscnv_chan_ref :: "nat \<Rightarrow> kern \<Rightarrow> kern option" where
  "pscnv_chan_ref c s = upd_ch c (\<lambda>ch. ch\<lparr>cref := cref ch + 1\<rparr>) s"

definition pscnv_chan_unref :: "card \<Rightarrow> vm_engine \<Rightarrow> nat \<Rightarrow> kern \<Rightarrow> kern option" where
  "pscnv_chan_unref d E c s = do {
     s \<leftarrow> upd_ch c (\<lambda>ch. ch\<lparr>cref := cref ch - 1\<rparr>) s;
     ch \<leftarrow> chs s c;
     if cref ch = 0 then pscnv_chan_ref_free d E c s else Some s }"

text \<open>It drops a reference to the channel, whether it succeeds or not.\<close>

definition nv50_fifo_chan_init_ib ::
  "card \<Rightarrow> vm_engine \<Rightarrow> nat \<Rightarrow> u32 \<Rightarrow> u32 \<Rightarrow> u32 \<Rightarrow> u64 \<Rightarrow> u32 \<Rightarrow> kern \<Rightarrow> (unit res \<times> kern) option" where
  "nv50_fifo_chan_init_ib d E c pb_handle flags slimask ib_start ib_order s = do {
     (ret, s) \<leftarrow> nv50_fifo_ib d c pb_handle slimask ib_start ib_order s;
     s \<leftarrow> pscnv_chan_unref d E c s;
     Some (ret, s) }"

subsection \<open>The address spaces of the BARs\<close>

definition trap_config :: "card \<Rightarrow> u32" where
  "trap_config d =
     (if chipset d = 0x50 then 0x0707ff
      else if chipset d \<in> {0xa3, 0xa5, 0xa8, 0xaf} then 0x0d0fff
      else 0x1d07ff)"

text \<open>The NV50 has one address space for both BARs: BAR1 first, then BAR3.\<close>

definition nv50_vm_init :: "card \<Rightarrow> vm_engine \<Rightarrow> kern \<Rightarrow> (unit res \<times> kern) option" where
  "nv50_vm_init d E s = do {
     ((failed, _), s) \<leftarrow> request d Kzalloc s;
     if failed \<noteq> 0 then Some (Inl ENOMEM, s)
     else do {
       let s = s\<lparr>vm_up := True, vm_ramin_base := fb_size d\<rparr>;
       s \<leftarrow> nv_wr32 d 0x100c90 (trap_config d) s;
       (v, s) \<leftarrow> pscnv_vspace_new d E (fb_size d + ramin_size d) 0 1 s;
       let s = s\<lparr>barvm := v\<rparr>;
       case v of
         None \<Rightarrow> Some (Inl ENOMEM, s\<lparr>vm_up := False\<rparr>)
       | Some v \<Rightarrow> do {
           (c, s) \<leftarrow> pscnv_chan_new d E v 1 s;
           let s = s\<lparr>barch := c\<rparr>;
           case c of
             None \<Rightarrow> do { s \<leftarrow> pscnv_vspace_unref d E v s; Some (Inl ENOMEM, s\<lparr>vm_up := False, barvm := None\<rparr>) }
           | Some c \<Rightarrow> do {
               ch \<leftarrow> chs s c;
               b \<leftarrow> cbo ch;
               bo \<leftarrow> bos s b;
               s \<leftarrow> nv_wr32 d 0x1704 (ucast (0x40000000 OR drop_bit 12 (bstart bo))) s;
               (bar1dma, s) \<leftarrow> nv50_chan_dmaobj_new d c 0x7fc00000 0 (fb_size d) s;
               (bar3dma, s) \<leftarrow> nv50_chan_dmaobj_new d c 0x7fc00000 (fb_size d) (ramin_size d) s;
               s \<leftarrow> nv_wr32 d 0x1708 (0x80000000 OR drop_bit 4 bar1dma) s;
               s \<leftarrow> nv_wr32 d 0x170c (0x80000000 OR drop_bit 4 bar3dma) s;
               let s = s\<lparr>vm_ok := True\<rparr>;
               (_, s) \<leftarrow> nv50_vm_map_kernel d E b s;
               e \<leftarrow> nv50_vs v s;
               t \<leftarrow> pt e 0;
               (_, s) \<leftarrow> nv50_vm_map_kernel d E t s;
               Some (Inr (), s) } } } }"

definition nv50_vm_takedown :: "card \<Rightarrow> vm_engine \<Rightarrow> kern \<Rightarrow> kern option" where
  "nv50_vm_takedown d E s = do {
     s \<leftarrow> write_regs d [(0x1708, 0), (0x170c, 0), (0x1710, 0), (0x1704, 0)] (s\<lparr>vm_ok := False\<rparr>);
     c \<leftarrow> barch s;
     s \<leftarrow> pscnv_chan_unref d E c s;
     v \<leftarrow> barvm s;
     s \<leftarrow> pscnv_vspace_unref d E v s;
     Some (s\<lparr>vm_up := False, barvm := None, barch := None\<rparr>) }"

text \<open>The address space and channel of BAR1, after those of BAR3.\<close>

definition nvc0_bar1_init :: "card \<Rightarrow> vm_engine \<Rightarrow> nat \<Rightarrow> nat \<Rightarrow> kern \<Rightarrow> (unit res \<times> kern) option" where
  "nvc0_bar1_init d E v3 c3 s = do {
     let give_up = (\<lambda>s. do {
         s \<leftarrow> pscnv_chan_unref d E c3 s;
         s \<leftarrow> pscnv_vspace_unref d E v3 s;
         Some (Inl ENOMEM, s\<lparr>vm_up := False, bar1vm := None, bar3vm := None, bar3ch := None\<rparr>) });
     (v1, s) \<leftarrow> pscnv_vspace_new d E (fb_size d) 0 1 s;
     let s = s\<lparr>bar1vm := v1\<rparr>;
     case v1 of
       None \<Rightarrow> give_up (s\<lparr>vm_ok := False\<rparr>)
     | Some v1 \<Rightarrow> do {
         (c1, s) \<leftarrow> pscnv_chan_new d E v1 1 s;
         let s = s\<lparr>bar1ch := c1\<rparr>;
         case c1 of
           None \<Rightarrow> do {
             s \<leftarrow> pscnv_vspace_unref d E v1 (s\<lparr>vm_ok := False\<rparr>);
             give_up s }
         | Some c1 \<Rightarrow> do {
             ch \<leftarrow> chs s c1;
             b \<leftarrow> cbo ch;
             bo \<leftarrow> bos s b;
             s \<leftarrow> nv_wr32 d 0x1704 (ucast (0x80000000 OR drop_bit 12 (bstart bo))) s;
             Some (Inr (), s) } } }"

text \<open>
  The NVC0 has one for each. When the page table of BAR3 cannot be had, what is there so far stays.
\<close>

definition nvc0_vm_init :: "card \<Rightarrow> vm_engine \<Rightarrow> kern \<Rightarrow> (unit res \<times> kern) option" where
  "nvc0_vm_init d E s = do {
     ((failed, _), s) \<leftarrow> request d Kzalloc s;
     if failed \<noteq> 0 then Some (Inl ENOMEM, s)
     else do {
       s \<leftarrow> write_regs d [(0x200, 0xfffffeff), (0x200, 0xffffffff), (0x100c80, 0x00208000)]
         (s\<lparr>vm_up := True, vm_ramin_base := 0\<rparr>);
       (v3, s) \<leftarrow> pscnv_vspace_new d E (ramin_size d) 0 3 s;
       let s = s\<lparr>bar3vm := v3\<rparr>;
       case v3 of
         None \<Rightarrow> Some (Inl ENOMEM, s\<lparr>vm_up := False\<rparr>)
       | Some v3 \<Rightarrow> do {
           (c3, s) \<leftarrow> pscnv_chan_new d E v3 3 s;
           let s = s\<lparr>bar3ch := c3\<rparr>;
           case c3 of
             None \<Rightarrow> do { s \<leftarrow> pscnv_vspace_unref d E v3 s; Some (Inl ENOMEM, s\<lparr>vm_up := False, bar3vm := None\<rparr>) }
           | Some c3 \<Rightarrow> do {
               ch \<leftarrow> chs s c3;
               b \<leftarrow> cbo ch;
               bo \<leftarrow> bos s b;
               s \<leftarrow> nv_wr32 d 0x1714 (ucast (0xc0000000 OR drop_bit 12 (bstart bo))) s;
               let s = s\<lparr>vm_ok := True\<rparr>;
               (_, s) \<leftarrow> nvc0_vm_map_kernel d E b s;
               e \<leftarrow> nvc0_vs v3 s;
               (_, s) \<leftarrow> nvc0_vm_map_kernel d E (pd e) s;
               (t, s) \<leftarrow> nvc0_vspace_pgt d E v3 0 s;
               case t of
                 None \<Rightarrow> Some (Inl ENOMEM, s)
               | Some t \<Rightarrow> do {
                   t1 \<leftarrow> spt t;
                   (_, s) \<leftarrow> nvc0_vm_map_kernel d E t1 s;
                   nvc0_bar1_init d E v3 c3 s } } } } }"

definition nvc0_vm_takedown :: "card \<Rightarrow> vm_engine \<Rightarrow> kern \<Rightarrow> kern option" where
  "nvc0_vm_takedown d E s = do {
     s \<leftarrow> write_regs d [(0x1704, 0), (0x1714, 0), (0x1718, 0)] (s\<lparr>vm_ok := False\<rparr>);
     c1 \<leftarrow> bar1ch s;
     s \<leftarrow> pscnv_chan_unref d E c1 s;
     v1 \<leftarrow> bar1vm s;
     s \<leftarrow> pscnv_vspace_unref d E v1 s;
     c3 \<leftarrow> bar3ch s;
     s \<leftarrow> pscnv_chan_unref d E c3 s;
     v3 \<leftarrow> bar3vm s;
     s \<leftarrow> pscnv_vspace_unref d E v3 s;
     Some (s\<lparr>vm_up := False, bar1vm := None, bar1ch := None, bar3vm := None, bar3ch := None\<rparr>) }"

end
