(* ===== verification/Ioctl.thy ===== *)
theory Ioctl
  imports ChanLife
begin

section \<open>What clients call\<close>

text \<open>
  \<open>pscnv_ioctl.c\<close>, \<open>pscnv_mmap\<close> (\<open>pscnv_vm.c\<close>), \<open>pscnv_chan_mmap\<close> (\<open>pscnv_chan.c\<close>) and
  \<open>nouveau_preclose\<close> (\<open>nouveau_state.c\<close>). A client is a number, that of its open file. What a
  request wants returned is the result, or an error. GEM objects have handles in each file, which DRM
  keeps: finding the object for a handle and giving one a handle are requests.
\<close>

abbreviation (input) NV_C0 :: int where "NV_C0 \<equiv> 0xc0"

definition initialised :: "kern \<Rightarrow> ('a res \<times> kern) option \<Rightarrow> ('a res \<times> kern) option" where
  "initialised s r = (if card_ready s then r else Some (Inl EINVAL, s))"

subsection \<open>Parameters\<close>

definition bus_type :: "card \<Rightarrow> u64" where
  "bus_type d = (if is_agp d then 0 else if is_pcie d then 2 else 1)"

definition pscnv_ioctl_getparam :: "card \<Rightarrow> u64 \<Rightarrow> kern \<Rightarrow> (u64 res \<times> kern) option" where
  "pscnv_ioctl_getparam d param s = initialised s
     (if param = 11 then Some (Inr (word_of_int (chipset d)), s)
      else if param = 3 then Some (Inr (ucast (pci_vendor d)), s)
      else if param = 4 then Some (Inr (ucast (pci_device d)), s)
      else if param = 5 then Some (Inr (bus_type d), s)
      else if param = 14 then do { (t, s) \<leftarrow> nv04_timer_read d s; Some (Inr t, s) }
      else if param = 8 then Some (Inr (vram_size s), s)
      else if param = 13 \<and> card_type d \<ge> NV_40 \<and> card_type d < NV_C0 then do {
        (u, s) \<leftarrow> nv_rd32 d 0x1540 s;
        Some (Inr (ucast u), s) }
      else Some (Inl EINVAL, s))"

subsection \<open>GEM objects\<close>

definition drm_gem_object_lookup :: "card \<Rightarrow> int \<Rightarrow> u32 \<Rightarrow> kern \<Rightarrow> (nat option \<times> kern) option" where
  "drm_gem_object_lookup d file handle s = do {
     ((g, _), s) \<leftarrow> request d (GemLookup file handle) s;
     Some (if g < 0 then None else Some (nat g), s) }"

text \<open>\<open>info\<close>: the size, flags, tiling, cookie and user words a client asks for or is told, with the handle.\<close>

record gem_info =
  gcookie :: u32
  gflags :: u32
  gtile_flags :: u32
  gsize :: u64
  ghandle :: u32
  gmap_handle :: u64
  guser :: "u32 list"

definition pscnv_ioctl_gem_new :: "card \<Rightarrow> vm_engine \<Rightarrow> int \<Rightarrow> gem_info \<Rightarrow> kern \<Rightarrow> (gem_info res \<times> kern) option" where
  "pscnv_ioctl_gem_new d E file info s = initialised s (do {
     (g, s) \<leftarrow> pscnv_gem_new d E (gsize info) (gflags info) (gtile_flags info) (gcookie info) (Some (guser info)) s;
     case g of
       None \<Rightarrow> Some (Inl ENOMEM, s)
     | Some g \<Rightarrow> do {
         b \<leftarrow> gems s g;
         bo \<leftarrow> bos s b;
         ((ret, handle), s) \<leftarrow> request d (GemHandleCreate file g) s;
         ((last', _), s) \<leftarrow> request d (GemHandleUnref g) s;
         s \<leftarrow> (if last' \<noteq> 0 then pscnv_gem_free_object d E g s else Some s);
         Some (if ret \<noteq> 0 then Inl (Errno ret)
           else Inr (info\<lparr>gsize := bsize bo, ghandle := handle, gmap_handle := push_bit 32 (ucast handle)\<rparr>), s) } })"

definition pscnv_ioctl_gem_info :: "card \<Rightarrow> vm_engine \<Rightarrow> int \<Rightarrow> u32 \<Rightarrow> kern \<Rightarrow> (gem_info res \<times> kern) option" where
  "pscnv_ioctl_gem_info d E file handle s = initialised s (do {
     (g, s) \<leftarrow> drm_gem_object_lookup d file handle s;
     case g of
       None \<Rightarrow> Some (Inl EBADF, s)
     | Some g \<Rightarrow> do {
         b \<leftarrow> gems s g;
         bo \<leftarrow> bos s b;
         s \<leftarrow> gem_unref d E (Some g) s;
         Some (Inr \<lparr>gcookie = bcookie bo, gflags = bflags bo, gtile_flags = btile_flags bo, gsize = bsize bo,
           ghandle = handle, gmap_handle = push_bit 32 (ucast handle), guser = buser bo\<rparr>, s) } })"

subsection \<open>Address spaces\<close>

text \<open>The address space of a number, if it is the client's own. The caller gets a reference to it.\<close>

definition pscnv_get_vspace :: "int \<Rightarrow> int \<Rightarrow> kern \<Rightarrow> (nat option \<times> kern) option" where
  "pscnv_get_vspace file n s =
     (if n < 128 \<and> 0 \<le> n then
        (case vspaces s (nat n) of
           None \<Rightarrow> Some (None, s)
         | Some v \<Rightarrow> do {
             vs \<leftarrow> vss s v;
             if vfilp vs = Some file then do { s \<leftarrow> pscnv_vspace_ref v s; Some (Some v, s) }
             else Some (None, s) })
      else Some (None, s))"

definition with_vspace :: "int \<Rightarrow> int \<Rightarrow> (nat \<Rightarrow> kern \<Rightarrow> ('a res \<times> kern) option) \<Rightarrow> kern \<Rightarrow> ('a res \<times> kern) option" where
  "with_vspace file n body s = do {
     (v, s) \<leftarrow> pscnv_get_vspace file n s;
     case v of None \<Rightarrow> Some (Inl ENOENT, s) | Some v \<Rightarrow> body v s }"

definition pscnv_ioctl_vspace_new :: "card \<Rightarrow> vm_engine \<Rightarrow> int \<Rightarrow> kern \<Rightarrow> (int res \<times> kern) option" where
  "pscnv_ioctl_vspace_new d E file s = initialised s (do {
     (v, s) \<leftarrow> pscnv_vspace_new d E (push_bit 40 1) 0 0 s;
     case v of
       None \<Rightarrow> Some (Inl ENOMEM, s)
     | Some v \<Rightarrow> do {
         vs \<leftarrow> vss s v;
         s \<leftarrow> upd_vs v (\<lambda>vs. vs\<lparr>vfilp := Some file\<rparr>) s;
         Some (Inr (vid vs), s) } })"

text \<open>Giving an address space up: the reference just got, and that of its creation.\<close>

definition vspace_release :: "card \<Rightarrow> vm_engine \<Rightarrow> nat \<Rightarrow> kern \<Rightarrow> kern option" where
  "vspace_release d E v s = do {
     s \<leftarrow> upd_vs v (\<lambda>vs. vs\<lparr>vfilp := None\<rparr>) s;
     s \<leftarrow> pscnv_vspace_unref d E v s;
     pscnv_vspace_unref d E v s }"

definition pscnv_ioctl_vspace_free :: "card \<Rightarrow> vm_engine \<Rightarrow> int \<Rightarrow> int \<Rightarrow> kern \<Rightarrow> (unit res \<times> kern) option" where
  "pscnv_ioctl_vspace_free d E file n s = initialised s (with_vspace file n (\<lambda>v s. do {
     s \<leftarrow> vspace_release d E v s;
     Some (Inr (), s) }) s)"

text \<open>The reference to the object that the lookup gave stays with the mapping.\<close>

definition pscnv_ioctl_vspace_map ::
  "card \<Rightarrow> vm_engine \<Rightarrow> int \<Rightarrow> int \<Rightarrow> u32 \<Rightarrow> u64 \<Rightarrow> u64 \<Rightarrow> bool \<Rightarrow> kern \<Rightarrow> (u64 res \<times> kern) option" where
  "pscnv_ioctl_vspace_map d E file n handle start end' back s = initialised s (with_vspace file n (\<lambda>v s. do {
     (g, s) \<leftarrow> drm_gem_object_lookup d file handle s;
     case g of
       None \<Rightarrow> do { s \<leftarrow> pscnv_vspace_unref d E v s; Some (Inl EBADF, s) }
     | Some g \<Rightarrow> do {
         b \<leftarrow> gems s g;
         (ret, node, s) \<leftarrow> pscnv_vspace_map d E v b start end' back s;
         case ret of
           Inl err \<Rightarrow> do { s \<leftarrow> pscnv_vspace_unref d E v s; Some (Inl err, s) }
         | Inr _ \<Rightarrow> do {
             p \<leftarrow> node;
             nd \<leftarrow> vs_node p s;
             s \<leftarrow> pscnv_vspace_unref d E v s;
             Some (Inr (nstart nd), s) } } }) s)"

definition pscnv_ioctl_vspace_unmap ::
  "card \<Rightarrow> vm_engine \<Rightarrow> int \<Rightarrow> int \<Rightarrow> u64 \<Rightarrow> kern \<Rightarrow> (unit res \<times> kern) option" where
  "pscnv_ioctl_vspace_unmap d E file n offset s = initialised s (with_vspace file n (\<lambda>v s. do {
     (ret, s) \<leftarrow> pscnv_vspace_unmap d E v offset s;
     s \<leftarrow> pscnv_vspace_unref d E v s;
     Some (ret, s) }) s)"

definition pscnv_vspace_cleanup :: "card \<Rightarrow> vm_engine \<Rightarrow> int \<Rightarrow> kern \<Rightarrow> kern option" where
  "pscnv_vspace_cleanup d E file s =
     for_each (\<lambda>n s. do {
       (v, s) \<leftarrow> pscnv_get_vspace file (int n) s;
       case v of None \<Rightarrow> Some s | Some v \<Rightarrow> vspace_release d E v s }) [0..<128] s"

subsection \<open>Channels\<close>

definition pscnv_get_chan :: "int \<Rightarrow> int \<Rightarrow> kern \<Rightarrow> (nat option \<times> kern) option" where
  "pscnv_get_chan file n s =
     (if n < 128 \<and> 0 \<le> n then
        (case chans s (nat n) of
           None \<Rightarrow> Some (None, s)
         | Some c \<Rightarrow> do {
             ch \<leftarrow> chs s c;
             if cfilp ch = Some file then do { s \<leftarrow> pscnv_chan_ref c s; Some (Some c, s) }
             else Some (None, s) })
      else Some (None, s))"

definition with_chan :: "int \<Rightarrow> int \<Rightarrow> (nat \<Rightarrow> kern \<Rightarrow> ('a res \<times> kern) option) \<Rightarrow> kern \<Rightarrow> ('a res \<times> kern) option" where
  "with_chan file n body s = do {
     (c, s) \<leftarrow> pscnv_get_chan file n s;
     case c of None \<Rightarrow> Some (Inl ENOENT, s) | Some c \<Rightarrow> body c s }"

text \<open>The number of the new channel, and the offset at which its control area can be mapped.\<close>

definition pscnv_ioctl_chan_new :: "card \<Rightarrow> vm_engine \<Rightarrow> int \<Rightarrow> int \<Rightarrow> kern \<Rightarrow> ((int \<times> u64) res \<times> kern) option" where
  "pscnv_ioctl_chan_new d E file n s = initialised s (with_vspace file n (\<lambda>v s. do {
     (c, s) \<leftarrow> pscnv_chan_new d E v 0 s;
     s \<leftarrow> pscnv_vspace_unref d E v s;
     case c of
       None \<Rightarrow> Some (Inl ENOMEM, s)
     | Some c \<Rightarrow> do {
         ch \<leftarrow> chs s c;
         s \<leftarrow> upd_ch c (\<lambda>ch. ch\<lparr>cfilp := Some file\<rparr>) s;
         Some (Inr (cid ch, ucast (0xc0000000 OR push_bit 16 (word_of_int (cid ch)) :: u32)), s) } }) s)"

definition chan_release :: "card \<Rightarrow> vm_engine \<Rightarrow> nat \<Rightarrow> kern \<Rightarrow> kern option" where
  "chan_release d E c s = do {
     s \<leftarrow> upd_ch c (\<lambda>ch. ch\<lparr>cfilp := None\<rparr>) s;
     s \<leftarrow> pscnv_chan_unref d E c s;
     pscnv_chan_unref d E c s }"

definition pscnv_ioctl_chan_free :: "card \<Rightarrow> vm_engine \<Rightarrow> int \<Rightarrow> int \<Rightarrow> kern \<Rightarrow> (unit res \<times> kern) option" where
  "pscnv_ioctl_chan_free d E file n s = initialised s (with_chan file n (\<lambda>c s. do {
     s \<leftarrow> chan_release d E c s;
     Some (Inr (), s) }) s)"

definition pscnv_chan_cleanup :: "card \<Rightarrow> vm_engine \<Rightarrow> int \<Rightarrow> kern \<Rightarrow> kern option" where
  "pscnv_chan_cleanup d E file s =
     for_each (\<lambda>n s. do {
       (c, s) \<leftarrow> pscnv_get_chan file (int n) s;
       case c of None \<Rightarrow> Some s | Some c \<Rightarrow> chan_release d E c s }) [0..<128] s"

definition nouveau_preclose :: "card \<Rightarrow> vm_engine \<Rightarrow> int \<Rightarrow> kern \<Rightarrow> kern option" where
  "nouveau_preclose d E file s = do {
     s \<leftarrow> pscnv_chan_cleanup d E file s;
     pscnv_vspace_cleanup d E file s }"

subsection \<open>Objects of a channel\<close>

definition pscnv_ioctl_obj_vdma_new ::
  "card \<Rightarrow> vm_engine \<Rightarrow> int \<Rightarrow> int \<Rightarrow> u32 \<Rightarrow> u32 \<Rightarrow> u64 \<Rightarrow> u64 \<Rightarrow> kern \<Rightarrow> (unit res \<times> kern) option" where
  "pscnv_ioctl_obj_vdma_new d E file n handle oclass start sz s = initialised s
     (if card_type d \<noteq> NV_50 then Some (Inl ENOSYS, s)
      else if oclass \<notin> {2, 3, 0x3d} then Some (Inl EINVAL, s)
      else with_chan file n (\<lambda>c s. do {
        (inst, s) \<leftarrow> nv50_chan_dmaobj_new d c (0x7fc00000 OR oclass) start sz s;
        (ret, s) \<leftarrow>
          (if inst = 0 then Some (Inl ENOMEM, s)
           else do {
             ch \<leftarrow> chs s c;
             pscnv_ramht_insert d (cramht ch) handle (drop_bit 4 inst) s });
        s \<leftarrow> pscnv_chan_unref d E c s;
        Some (ret, s) }) s)"

text \<open>An object of a class that an engine has. The engine makes a context for the channel first.\<close>

definition pscnv_ioctl_obj_eng_new ::
  "card \<Rightarrow> vm_engine \<Rightarrow> int \<Rightarrow> int \<Rightarrow> u32 \<Rightarrow> u32 \<Rightarrow> kern \<Rightarrow> (unit res \<times> kern) option" where
  "pscnv_ioctl_obj_eng_new d E file n handle oclass s = initialised s
     (if grctx_size s = None \<or> oclass \<notin> set (graph_oclasses d) then Some (Inl ENODEV, s)
      else with_chan file n (\<lambda>c s. do {
        ch \<leftarrow> chs s c;
        (ret, s) \<leftarrow>
          (if cengdata ch PSCNV_ENGINE_GRAPH = None then nv50_graph_chan_alloc d c s
           else Some (Inr (), s));
        (ret, s) \<leftarrow>
          (case ret of
             Inl err \<Rightarrow> Some (Inl err, s)
           | Inr _ \<Rightarrow> nv50_graph_chan_obj_new d c handle oclass s);
        s \<leftarrow> pscnv_chan_unref d E c s;
        Some (ret, s) }) s)"

subsection \<open>Starting a channel\<close>

text \<open>Only the NV50 family can be fed with a ring of commands.\<close>

definition pscnv_ioctl_fifo_init ::
  "card \<Rightarrow> vm_engine \<Rightarrow> int \<Rightarrow> int \<Rightarrow> u32 \<Rightarrow> u32 \<Rightarrow> u32 \<Rightarrow> u64 \<Rightarrow> kern \<Rightarrow> (unit res \<times> kern) option" where
  "pscnv_ioctl_fifo_init d E file n pb_handle flags slimask pb_start s = initialised s
     (if fifo_engine s = None \<or> card_type d \<noteq> NV_50 then Some (Inl ENODEV, s)
      else with_chan file n (\<lambda>c s. do {
        (ret, s) \<leftarrow> nv50_fifo_chan_init_dma d c pb_handle flags slimask pb_start s;
        s \<leftarrow> pscnv_chan_unref d E c s;
        Some (ret, s) }) s)"

definition pscnv_ioctl_fifo_init_ib ::
  "card \<Rightarrow> vm_engine \<Rightarrow> int \<Rightarrow> int \<Rightarrow> u32 \<Rightarrow> u32 \<Rightarrow> u32 \<Rightarrow> u64 \<Rightarrow> u32 \<Rightarrow> kern \<Rightarrow> (unit res \<times> kern) option" where
  "pscnv_ioctl_fifo_init_ib d E file n pb_handle flags slimask ib_start ib_order s = initialised s
     (if fifo_engine s = None then Some (Inl ENODEV, s)
      else with_chan file n (\<lambda>c s. do {
        (ret, s) \<leftarrow>
          (if card_type d = NV_50 then nv50_fifo_chan_init_ib d E c pb_handle flags slimask ib_start ib_order s
           else nvc0_fifo_chan_init_ib d c pb_handle flags slimask ib_start ib_order s);
        s \<leftarrow> pscnv_chan_unref d E c s;
        Some (ret, s) }) s)"

subsection \<open>Mapping into a client\<close>

text \<open>
  What stands behind a new mapping and is told when it is copied or goes: DRM itself, an object in
  VRAM or in system memory, or the control area of a channel.
\<close>

datatype vma = DrmVma | VramVma nat | SysramVma nat | ChanVma nat

definition remap_pfn_range :: "card \<Rightarrow> u64 \<Rightarrow> u64 \<Rightarrow> vma \<Rightarrow> kern \<Rightarrow> (vma res \<times> kern) option" where
  "remap_pfn_range d addr len vma s = do {
     ((ret, _), s) \<leftarrow> request d (RemapPfn (drop_bit 12 addr) len) s;
     Some (if ret \<noteq> 0 then Inl (Errno ret) else Inr vma, s) }"

definition pscnv_chan_mmap :: "card \<Rightarrow> int \<Rightarrow> u64 \<Rightarrow> u64 \<Rightarrow> kern \<Rightarrow> (vma res \<times> kern) option" where
  "pscnv_chan_mmap d file offset len s =
     (let maxlen = (if card_type d = NV_50 then 0x2000 else 0x1000);
          n = int (unat (drop_bit 16 offset AND 0x7f)) in
      if card_type d \<noteq> NV_50 \<and> card_type d \<noteq> NV_C0 then Some (Inl ENOSYS, s)
      else if offset AND NOT 0x7f0000 \<noteq> 0xc0000000 then
        Some (Inl (if card_type d = NV_50 then EINVAL else ENOSYS), s)
      else if len > maxlen then Some (Inl EINVAL, s)
      else with_chan file n (\<lambda>c s.
        if card_type d = NV_50 then
          remap_pfn_range d (mmio_phys d + 0xc00000 + word_of_int (n * 0x2000)) len (ChanVma c) s
        else do {
          ch \<leftarrow> chs s c;
          ofs \<leftarrow> nvc0_fifo_ctrl_offs (cid ch) s;
          remap_pfn_range d (fb_phys d + ofs) len (ChanVma c) s }) s)"

definition pscnv_mmap :: "card \<Rightarrow> vm_engine \<Rightarrow> int \<Rightarrow> u64 \<Rightarrow> u64 \<Rightarrow> kern \<Rightarrow> (vma res \<times> kern) option" where
  "pscnv_mmap d E file offset len s =
     (if offset < push_bit 31 1 then do {
        ((ret, _), s) \<leftarrow> request d (DrmMmap offset) s;
        Some (if ret \<noteq> 0 then Inl (Errno ret) else Inr DrmVma, s) }
      else if offset < push_bit 32 1 then pscnv_chan_mmap d file offset len s
      else do {
        (g, s) \<leftarrow> drm_gem_object_lookup d file (ucast (drop_bit 32 offset)) s;
        case g of
          None \<Rightarrow> Some (Inl ENOENT, s)
        | Some g \<Rightarrow> do {
            b \<leftarrow> gems s g;
            bo \<leftarrow> bos s b;
            if len > bsize bo then do { s \<leftarrow> gem_unref d E (Some g) s; Some (Inl EINVAL, s) }
            else if mem_type (bflags bo) \<in> {VramSmall, VramLarge} then do {
              (ret, s) \<leftarrow> e_map_user E b s;
              case ret of
                Inl err \<Rightarrow> do { s \<leftarrow> gem_unref d E (Some g) s; Some (Inl err, s) }
              | Inr _ \<Rightarrow> do {
                  bo \<leftarrow> bos s b;
                  p \<leftarrow> bmap1 bo;
                  nd \<leftarrow> vs_node p s;
                  remap_pfn_range d (fb_phys d + nstart nd) len (VramVma g) s } }
            else Some (Inr (SysramVma g), s) } })"

text \<open>A mapping is copied (\<open>open\<close>) or goes (\<open>close\<close>).\<close>

definition vma_open :: "card \<Rightarrow> vma \<Rightarrow> kern \<Rightarrow> kern option" where
  "vma_open d vma s = (case vma of ChanVma c \<Rightarrow> pscnv_chan_ref c s | _ \<Rightarrow> Some s)"

definition vma_close :: "card \<Rightarrow> vm_engine \<Rightarrow> vma \<Rightarrow> kern \<Rightarrow> kern option" where
  "vma_close d E vma s =
     (case vma of
        ChanVma c \<Rightarrow> pscnv_chan_unref d E c s
      | VramVma g \<Rightarrow> gem_unref d E (Some g) s
      | SysramVma g \<Rightarrow> gem_unref d E (Some g) s
      | DrmVma \<Rightarrow> Some s)"

end
