(* ===== verification/Steady.thy ===== *)
theory Steady
  imports Ioctl
begin

section \<open>What the lower layers leave alone\<close>

text \<open>
  The functions for memory, page tables, PFIFO and PGRAPH do not give or take numbers of address
  spaces and channels, nor do they change who owns a channel (\<open>same\<close>). The locale \<open>steady\<close> is for the
  invariants that depend on nothing else: they are kept by every function of those layers, whatever
  the card answers, with page tables of either family nested to any depth.
\<close>

definition same :: "kern \<Rightarrow> kern \<Rightarrow> bool" where
  "same s s' \<longleftrightarrow> vspaces s' = vspaces s \<and> fake_vspaces s' = fake_vspaces s \<and>
     chans s' = chans s \<and> fake_chans s' = fake_chans s \<and> ch_min s' = ch_min s \<and> ch_max s' = ch_max s \<and>
     (\<forall>v. map_option vid (vss s' v) = map_option vid (vss s v)) \<and>
     (\<forall>c. map_option (\<lambda>ch. (cid ch, cfilp ch)) (chs s' c) = map_option (\<lambda>ch. (cid ch, cfilp ch)) (chs s c)) \<and>
     fresh s \<le> fresh s'"

lemma same_refl [simp]: "same s s"
  by (simp add: same_def)

lemma same_trans: "same s s' \<Longrightarrow> same s' s'' \<Longrightarrow> same s s''"
  by (simp add: same_def)

subsection \<open>Rules\<close>

definition keeps :: "('r \<Rightarrow> bool) \<Rightarrow> 'r option \<Rightarrow> bool" where
  "keeps P m \<longleftrightarrow> (\<forall>r. m = Some r \<longrightarrow> P r)"

lemma keeps_None: "keeps P None"
  by (simp add: keeps_def)

lemma keeps_Some: "P r \<Longrightarrow> keeps P (Some r)"
  by (simp add: keeps_def)

lemma keeps_bind: "(\<And>x. m = Some x \<Longrightarrow> keeps P (f x)) \<Longrightarrow> keeps P (m \<bind> f)"
  by (cases m) (simp_all add: keeps_def)

lemma keeps_through: "keeps Q m \<Longrightarrow> (\<And>x. Q x \<Longrightarrow> keeps P (f x)) \<Longrightarrow> keeps P (m \<bind> f)"
  by (cases m) (simp_all add: keeps_def)

lemma keeps_if: "(b \<Longrightarrow> keeps P x) \<Longrightarrow> (\<not> b \<Longrightarrow> keeps P y) \<Longrightarrow> keeps P (if b then x else y)"
  by simp

lemma keeps_option: "(x = None \<Longrightarrow> keeps P a) \<Longrightarrow> (\<And>y. x = Some y \<Longrightarrow> keeps P (f y)) \<Longrightarrow> keeps P (case x of None \<Rightarrow> a | Some y \<Rightarrow> f y)"
  by (cases x) simp_all

lemma keeps_sum: "(\<And>y. x = Inl y \<Longrightarrow> keeps P (f y)) \<Longrightarrow> (\<And>y. x = Inr y \<Longrightarrow> keeps P (g y)) \<Longrightarrow> keeps P (case x of Inl y \<Rightarrow> f y | Inr y \<Rightarrow> g y)"
  by (cases x) simp_all

lemma keeps_pair: "(\<And>a b. x = (a, b) \<Longrightarrow> keeps P (f a b)) \<Longrightarrow> keeps P (case x of (a, b) \<Rightarrow> f a b)"
  by (cases x) simp

lemma keeps_pair_state: "(\<And>a b. x = (a, b) \<Longrightarrow> keeps P (f a b s)) \<Longrightarrow> keeps P ((case x of (a, b) \<Rightarrow> f a b) s)"
  by (cases x) simp

lemma keepsD: "keeps P m \<Longrightarrow> m = Some r \<Longrightarrow> P r"
  by (simp add: keeps_def)

lemma keeps_mono: "keeps P m \<Longrightarrow> (\<And>r. P r \<Longrightarrow> Q r) \<Longrightarrow> keeps Q m"
  by (simp add: keeps_def)

text \<open>Taking an allocator down keeps what its callback keeps.\<close>

lemma takedown_keeps:
  fixes Q :: "'x \<Rightarrow> bool"
  assumes cb: "\<And>m i x. Q x \<Longrightarrow> keeps (\<lambda>r. Q (snd r)) (cb m i x)" and "Q x"
  shows "keeps (\<lambda>r. Q (snd r)) (pscnv_mm_takedown cb m x)"
proof -
  define S where "S cb \<longleftrightarrow> (\<forall>m i x. Q x \<longrightarrow> keeps (\<lambda>r. Q (snd r)) (cb m i x))" for cb :: "mm \<Rightarrow> nat \<Rightarrow> 'x \<Rightarrow> (mm \<times> 'x) option"
  have "S cb \<longrightarrow> Q x \<longrightarrow> Q (snd y)" if y: "mm_takedown_used cb m x = Some y" for cb m x y
  proof (rule mm_takedown_used.raw_induct [where xa = "((cb, m), x)" and P = "\<lambda>cb m x y. S cb \<longrightarrow> Q x \<longrightarrow> Q (snd y)",
        unfolded prod.case, OF _ y])
    fix f cb m x y
    assume IH: "\<And>cb m x y. f cb m x = Some y \<Longrightarrow> S cb \<longrightarrow> Q x \<longrightarrow> Q (snd y)"
      and body: "(case rb_min (head m) of None \<Rightarrow> None | Some ss \<Rightarrow> (case mm_next m (nid ss) of None \<Rightarrow> None
        | Some n \<Rightarrow> (case mm_skip_free m n of None \<Rightarrow> None | Some cur \<Rightarrow>
            if sentinel cur = 0 then (case mm_chain_first m (nid cur) of None \<Rightarrow> None
              | Some i \<Rightarrow> (case cb m i x of None \<Rightarrow> None | Some (m', x') \<Rightarrow> f cb m' x'))
            else Some (m, x)))) = Some y"
    have "S cb \<Longrightarrow> Q x \<Longrightarrow> cb m i x = Some (m', x') \<Longrightarrow> Q x'" for i m' x'
      unfolding S_def keeps_def by (metis snd_conv)
    with body IH show "S cb \<longrightarrow> Q x \<longrightarrow> Q (snd y)"
      by (auto split: option.splits prod.splits if_splits)
  qed
  with assms have "mm_takedown_used cb m x = Some y \<Longrightarrow> Q (snd y)" for m y by (auto simp: S_def)
  then show ?thesis
    unfolding pscnv_mm_takedown_def by (auto simp: keeps_def split: Option.bind_splits)
qed

abbreviation on_state :: "(kern \<Rightarrow> bool) \<Rightarrow> 'x \<times> kern \<Rightarrow> bool" where
  "on_state I \<equiv> \<lambda>r. I (snd r)"

locale steady =
  fixes I :: "kern \<Rightarrow> bool"
  assumes steady: "I s \<Longrightarrow> same s s' \<Longrightarrow> I s'"
begin

lemma bind1: "keeps I m \<Longrightarrow> (\<And>s. I s \<Longrightarrow> keeps P (f s)) \<Longrightarrow> keeps P (m \<bind> f)"
  by (rule keeps_through)

lemma bind2: "keeps (on_state I) m \<Longrightarrow> (\<And>x s. I s \<Longrightarrow> keeps P (f x s)) \<Longrightarrow> keeps P (m \<bind> (\<lambda>(x, s). f x s))"
  by (erule keeps_through) (auto split: prod.split)

lemma bind3: "keeps (\<lambda>r. I (snd (snd r))) m \<Longrightarrow> (\<And>x y s. I s \<Longrightarrow> keeps P (f x y s)) \<Longrightarrow> keeps P (m \<bind> (\<lambda>(x, y, s). f x y s))"
  by (erule keeps_through) (auto split: prod.split)

lemmas steps = bind1 bind2 bind3 keeps_bind keeps_if keeps_option keeps_sum keeps_pair keeps_pair_state
  keeps_Some keeps_None

subsection \<open>The card and the heap\<close>

lemma log_steady: "I s \<Longrightarrow> I (s\<lparr>log := l\<rparr>)"
  by (erule steady) (simp add: same_def)

lemma request_keeps: "I s \<Longrightarrow> keeps (on_state I) (request d q s)"
  by (simp add: keeps_def request_def log_steady)

lemma tell_keeps: "I s \<Longrightarrow> keeps I (tell d q s)"
  by (simp add: keeps_def tell_def log_steady)

lemma rd32_keeps: "I s \<Longrightarrow> keeps (on_state I) (nv_rd32 d r s)"
  unfolding nv_rd32_def by (intro steps request_keeps) simp_all

lemma wr32_keeps: "I s \<Longrightarrow> keeps I (nv_wr32 d r v s)"
  unfolding nv_wr32_def by (rule tell_keeps)

lemma reads_steady: "I s \<Longrightarrow> reads_only s s' \<Longrightarrow> I s'"
  by (auto simp: reads_only_def intro: log_steady)

lemma wait_keeps:
  "I s \<Longrightarrow> keeps (on_state I) (nouveau_wait_until d t r m v s)"
  "I s \<Longrightarrow> keeps (on_state I) (nv_wait d r m v s)"
  "I s \<Longrightarrow> keeps (on_state I) (nv04_timer_read d s)"
  by (auto simp: keeps_def nv_wait_def dest: nouveau_wait_until_reads nv04_timer_read_reads intro: reads_steady)

lemma for_each_keeps: "I s \<Longrightarrow> (\<And>x s. I s \<Longrightarrow> keeps I (f x s)) \<Longrightarrow> keeps I (for_each f xs s)"
proof (induction xs arbitrary: s)
  case (Cons x xs)
  show ?case unfolding for_each.simps by (intro steps Cons.prems Cons.IH) simp_all
qed (simp add: keeps_def)

lemma upd_bo_keeps: "I s \<Longrightarrow> keeps I (upd_bo b f s)"
  by (auto simp: keeps_def upd_bo_def same_def elim: steady)

lemma upd_vs_keeps: "I s \<Longrightarrow> (\<And>vs. vid (f vs) = vid vs) \<Longrightarrow> keeps I (upd_vs v f s)"
  by (auto simp: keeps_def upd_vs_def same_def elim!: steady)

lemma upd_ch_keeps:
  "I s \<Longrightarrow> (\<And>ch. cid (f ch) = cid ch \<and> cfilp (f ch) = cfilp ch) \<Longrightarrow> keeps I (upd_ch c f s)"
  by (auto simp: keeps_def upd_ch_def same_def elim!: steady)

text \<open>When the state must be known after it.\<close>

lemma upd_bo_through:
  "(\<And>bo. keeps P (f (s\<lparr>bos := (bos s)(b \<mapsto> g bo)\<rparr>))) \<Longrightarrow> keeps P (upd_bo b g s \<bind> f)"
  by (cases "bos s b") (simp_all add: upd_bo_def keeps_None)

lemmas hw_keeps = request_keeps tell_keeps rd32_keeps wr32_keeps wait_keeps upd_bo_keeps upd_vs_keeps upd_ch_keeps

lemma fields_steady:
  "I s \<Longrightarrow> I (s\<lparr>pramin_start := a\<rparr>)" "I s \<Longrightarrow> I (s\<lparr>vram_mm := m\<rparr>)" "I s \<Longrightarrow> I (s\<lparr>bos := h\<rparr>)"
  "I s \<Longrightarrow> I (s\<lparr>gems := g\<rparr>)" "I s \<Longrightarrow> I (s\<lparr>fifo_engine := e\<rparr>)" "I s \<Longrightarrow> I (s\<lparr>grctx_size := z\<rparr>)"
  "I s \<Longrightarrow> I (s\<lparr>irq_handler := i\<rparr>)" "I s \<Longrightarrow> I (s\<lparr>vm_up := u\<rparr>)" "I s \<Longrightarrow> I (s\<lparr>vm_ok := u\<rparr>)"
  "I s \<Longrightarrow> I (s\<lparr>bos := h, fresh := Suc (fresh s), serial := n\<rparr>)"
  "I s \<Longrightarrow> I (s\<lparr>gems := g, fresh := Suc (fresh s)\<rparr>)"
  by (erule steady, simp add: same_def)+

lemma pramin_window_keeps: "I s \<Longrightarrow> keeps I (pramin_window d a s)"
  unfolding pramin_window_def by (intro steps hw_keeps fields_steady)

lemma wv32_keeps: "I s \<Longrightarrow> keeps I (nv_wv32 d b ofs v s)"
  unfolding nv_wv32_def Let_def by (intro steps hw_keeps pramin_window_keeps) simp_all

lemma rv32_keeps: "I s \<Longrightarrow> keeps (on_state I) (nv_rv32 d b ofs s)"
  unfolding nv_rv32_def Let_def by (intro steps hw_keeps pramin_window_keeps) simp_all

subsection \<open>Flushing and memory\<close>

lemma bar_flush_keeps: "I s \<Longrightarrow> keeps I (bar_flush d s)"
  unfolding bar_flush_def nv50_vm_bar_flush_def nv84_vm_bar_flush_def by (intro steps hw_keeps) simp_all

lemma vm_flush_keeps: "I s \<Longrightarrow> keeps (on_state I) (nv50_vm_flush d unit s)"
  unfolding nv50_vm_flush_def by (intro steps hw_keeps) simp_all

lemma vram_take_keeps: "I s \<Longrightarrow> keeps I (vram_take b node m s)"
  unfolding vram_take_def by (intro steps hw_keeps fields_steady)

lemma vram_alloc_keeps: "I s \<Longrightarrow> keeps (on_state I) (vram_alloc d b s)"
  unfolding vram_alloc_def nv50_vram_alloc_def nvc0_vram_alloc_def Let_def
  by (intro steps hw_keeps vram_take_keeps) (simp_all add: fields_steady)

lemma vram_free_keeps: "I s \<Longrightarrow> keeps I (pscnv_vram_free b s)"
  unfolding pscnv_vram_free_def by (intro steps fields_steady)

lemma sysram_pages_keeps: "I s \<Longrightarrow> keeps (on_state I) (sysram_pages d dma32 n got s)"
proof (induction n arbitrary: got s)
  case (Suc n)
  show ?case unfolding sysram_pages.simps by (intro steps hw_keeps for_each_keeps Suc) simp_all
qed (simp add: keeps_def)

lemma sysram_map_keeps: "I s \<Longrightarrow> keeps (on_state I) (sysram_map d ps got s)"
proof (induction ps arbitrary: got s)
  case (Cons p ps)
  show ?case unfolding sysram_map.simps by (intro steps hw_keeps for_each_keeps Cons) simp_all
qed (simp add: keeps_def)

lemma sysram_alloc_keeps: "I s \<Longrightarrow> keeps (on_state I) (pscnv_sysram_alloc d b s)"
  unfolding pscnv_sysram_alloc_def Let_def
  by (intro steps hw_keeps sysram_pages_keeps sysram_map_keeps for_each_keeps) simp_all

lemma sysram_free_keeps: "I s \<Longrightarrow> keeps I (pscnv_sysram_free d b s)"
  unfolding pscnv_sysram_free_def Let_def by (intro steps hw_keeps for_each_keeps)

lemma mem_alloc_keeps: "I s \<Longrightarrow> keeps (on_state I) (pscnv_mem_alloc d sz flags tile cookie s)"
  unfolding pscnv_mem_alloc_def Let_def
  by (intro steps hw_keeps vram_alloc_keeps sysram_alloc_keeps) (simp_all add: fields_steady)

subsection \<open>Address spaces\<close>

text \<open>The table of functions an operation is given.\<close>

definition sound_engine :: "vm_engine \<Rightarrow> bool" where
  "sound_engine E \<longleftrightarrow> (\<forall>s. I s \<longrightarrow>
     (\<forall>v. keeps (on_state I) (e_vspace_new E v s)) \<and>
     (\<forall>v. keeps I (e_vspace_free E v s)) \<and>
     (\<forall>v b x y f. keeps (on_state I) (e_place_map E v b x y f s)) \<and>
     (\<forall>v b x. keeps (on_state I) (e_do_map E v b x s)) \<and>
     (\<forall>v x y. keeps (on_state I) (e_do_unmap E v x y s)) \<and>
     (\<forall>b. keeps (on_state I) (e_map_user E b s)) \<and>
     (\<forall>b. keeps (on_state I) (e_map_kernel E b s)) \<and>
     (\<forall>b. keeps I (e_mem_free E b s)))"

lemma engine_keeps:
  assumes "sound_engine E" "I s"
  shows "keeps (on_state I) (e_vspace_new E v s)" "keeps I (e_vspace_free E v s)"
    "keeps (on_state I) (e_place_map E v b x y f s)" "keeps (on_state I) (e_do_map E v b x s)"
    "keeps (on_state I) (e_do_unmap E v x y s)" "keeps (on_state I) (e_map_user E b s)"
    "keeps (on_state I) (e_map_kernel E b s)" "keeps I (e_mem_free E b s)"
  using assms unfolding sound_engine_def by blast+

lemma set_vs_mm_keeps: "I s \<Longrightarrow> keeps I (set_vs_mm v m s)"
  unfolding set_vs_mm_def by (intro hw_keeps) simp_all

lemma vs_mm_free_keeps: "I s \<Longrightarrow> keeps I (vs_mm_free p s)"
  unfolding vs_mm_free_def by (intro steps set_vs_mm_keeps)

lemma mutex_keeps: "I s \<Longrightarrow> keeps I (mutex_lock_vs v s)" "I s \<Longrightarrow> keeps I (mutex_unlock_vs v s)"
  unfolding mutex_lock_vs_def mutex_unlock_vs_def by (intro steps hw_keeps; simp)+

lemma gem_keeps:
  assumes "sound_engine E" "I s"
  shows "keeps I (pscnv_gem_free_object d E g s)" "keeps I (gem_unref d E g' s)"
proof -
  have free: "I s \<Longrightarrow> keeps I (pscnv_gem_free_object d E g s)" for g s
    unfolding pscnv_gem_free_object_def by (intro steps hw_keeps fields_steady engine_keeps assms)
  then show "keeps I (pscnv_gem_free_object d E g s)" using assms(2) .
  show "keeps I (gem_unref d E g' s)" unfolding gem_unref_def by (intro steps hw_keeps free assms) simp_all
qed

lemmas vs_keeps = hw_keeps set_vs_mm_keeps vs_mm_free_keeps mutex_keeps gem_keeps engine_keeps

lemma unmap_node_keeps:
  assumes "sound_engine E" "I s"
  shows "keeps (on_state I) (pscnv_vspace_unmap_node_unlocked d E p s)" "keeps (on_state I) (pscnv_vspace_unmap_node d E p s)"
proof -
  have 1: "I s \<Longrightarrow> keeps (on_state I) (pscnv_vspace_unmap_node_unlocked d E p s)" for p s
    unfolding pscnv_vspace_unmap_node_unlocked_def by (intro steps vs_keeps assms(1)) simp_all
  then show "keeps (on_state I) (pscnv_vspace_unmap_node_unlocked d E p s)" using assms(2) .
  show "keeps (on_state I) (pscnv_vspace_unmap_node d E p s)"
    unfolding pscnv_vspace_unmap_node_def by (intro steps vs_keeps 1 assms) simp_all
qed

lemma vspace_unmap_keeps: "sound_engine E \<Longrightarrow> I s \<Longrightarrow> keeps (on_state I) (pscnv_vspace_unmap d E v start s)"
  unfolding pscnv_vspace_unmap_def by (intro steps vs_keeps unmap_node_keeps) simp_all

lemma mem_free_keeps:
  assumes "sound_engine E" "I s"
  shows "keeps I (pscnv_mem_free d E b s)"
proof -
  have "I s \<Longrightarrow> keeps I (unmap_if d E p s)" for p s
    unfolding unmap_if_def by (intro steps unmap_node_keeps assms(1))
  then show ?thesis
    unfolding pscnv_mem_free_def using assms(2) by (intro steps vram_free_keeps sysram_free_keeps fields_steady)
qed

lemma vspace_map_keeps:
  "sound_engine E \<Longrightarrow> I s \<Longrightarrow> keeps (\<lambda>r. I (snd (snd r))) (pscnv_vspace_map d E v b start end' back s)"
  unfolding pscnv_vspace_map_def by (intro steps vs_keeps unmap_node_keeps) simp_all

lemma gem_new_keeps: "sound_engine E \<Longrightarrow> I s \<Longrightarrow> keeps (on_state I) (pscnv_gem_new d E sz flags tile cookie user s)"
  unfolding pscnv_gem_new_def Let_def
  by (intro upd_bo_through steps vs_keeps mem_alloc_keeps mem_free_keeps) (simp_all, (erule steady, simp add: same_def)+)

subsection \<open>Page tables of the NV50 family\<close>

lemma upd_nv50_vs_keeps: "I s \<Longrightarrow> keeps I (upd_nv50_vs v f s)"
  unfolding upd_nv50_vs_def by (intro steps hw_keeps) simp_all

lemma nv86_idle_keeps:
  assumes "I s"
  shows "keeps I (nv86_idle_from d start s)"
proof -
  have "I s \<longrightarrow> I y" if "nv86_idle_from d start s = Some y" for d start s y
  proof (rule nv86_idle_from.raw_induct [where P = "\<lambda>d st s y. I s \<longrightarrow> I y", OF _ that])
    fix f d start s y
    assume IH: "\<And>d st s y. f d st s = Some y \<Longrightarrow> I s \<longrightarrow> I y"
      and body: "(nv86_busy d s \<bind> (\<lambda>(busy, s). if \<not> busy then Some s
        else nv04_timer_read d s \<bind> (\<lambda>(now, s). if now - start \<ge> 2000000000 then
          nv_rd32 d 0x400380 s \<bind> (\<lambda>(_, s). nv_rd32 d 0x400384 s \<bind> (\<lambda>(_, s). nv_rd32 d 0x400388 s \<bind>
            (\<lambda>(_, s). nv_rd32 d 0x400700 s \<bind> (\<lambda>(_, s). Some s))))
          else f d start s))) = Some y"
    have busy: "I s \<Longrightarrow> keeps (on_state I) (nv86_busy d s)" for s
      unfolding nv86_busy_def by (intro steps hw_keeps) simp_all
    have f: "I s \<Longrightarrow> keeps I (f d st s)" for d st s using IH by (simp add: keeps_def)
    show "I s \<longrightarrow> I y"
      by (intro impI keepsD [where P = I, OF _ body]) (intro steps hw_keeps busy f)
  qed
  with assms show ?thesis by (simp add: keeps_def)
qed

lemma nv50_tlb_flush_keeps:
  assumes "I s"
  shows "keeps (on_state I) (nv50_vspace_tlb_flush d v s)" "keeps (on_state I) (nv50_graph_tlb_flush d s)"
proof -
  have g: "I s \<Longrightarrow> keeps (on_state I) (nv50_graph_tlb_flush d s)" for s
    unfolding nv50_graph_tlb_flush_def by (rule vm_flush_keeps)
  then show "keeps (on_state I) (nv50_graph_tlb_flush d s)" using assms .
  have e: "I s \<Longrightarrow> keeps (on_state I) (engine_tlb_flush d i s)" for i s
    unfolding engine_tlb_flush_def nv86_graph_tlb_flush_def
    by (intro steps hw_keeps nv86_idle_keeps vm_flush_keeps g) simp_all
  have "I s \<Longrightarrow> keeps (on_state I) (flush_engines d v is s)" for "is" s
  proof (induction "is" arbitrary: s)
    case (Cons i "is")
    show ?case unfolding flush_engines.simps by (intro steps e Cons) simp_all
  qed (simp add: keeps_def)
  with assms show "keeps (on_state I) (nv50_vspace_tlb_flush d v s)"
    unfolding nv50_vspace_tlb_flush_def by (intro steps vm_flush_keeps)
qed

lemma nv50_unmap_pages_keeps:
  assumes "I s"
  shows "keeps I (nv50_unmap_pages d v offset n s)"
proof -
  have "I s \<longrightarrow> I y" if "nv50_unmap_pages d v offset n s = Some y" for d v offset n s y
  proof (rule nv50_unmap_pages.raw_induct [where P = "\<lambda>d v offset n s y. I s \<longrightarrow> I y", OF _ that])
    fix f d v offset n s y
    assume IH: "\<And>d v offset n s y. f d v offset n s = Some y \<Longrightarrow> I s \<longrightarrow> I y"
      and body: "(if n = 0 then Some s else nv50_vs v s \<bind> (\<lambda>e. if NV50_VM_PDE_COUNT \<le> pdenum offset then None
        else (case pt e (pdenum offset) of None \<Rightarrow> Some s | Some t \<Rightarrow> nv_wv32 d t (spte (ptenum offset)) 0 s) \<bind>
          f d v (offset + 0x1000) (n - 0x1000))) = Some y"
    have f: "I s \<Longrightarrow> keeps I (f d v offset n s)" for d v offset n s using IH by (simp add: keeps_def)
    show "I s \<longrightarrow> I y" by (intro impI keepsD [where P = I, OF _ body]) (intro steps wv32_keeps f)
  qed
  with assms show ?thesis by (simp add: keeps_def)
qed

lemma nv50_do_unmap_keeps: "I s \<Longrightarrow> keeps (on_state I) (nv50_vspace_do_unmap d v offset n s)"
  unfolding nv50_vspace_do_unmap_def
  by (intro steps nv50_unmap_pages_keeps bar_flush_keeps vm_flush_keeps nv50_tlb_flush_keeps) simp_all

lemma nv50_map_bar_keeps:
  assumes "sound_engine E" "I s"
  shows "keeps (on_state I) (nv50_vm_map_kernel d E b s)" "keeps (on_state I) (nv50_vm_map_user d E b s)"
  unfolding nv50_vm_map_kernel_def nv50_vm_map_user_def
  by (intro steps hw_keeps vspace_map_keeps assms; simp add: assms)+

lemma fill_pd_slot_keeps:
  assumes "sound_engine E" "I s"
  shows "keeps (on_state I) (nv50_vspace_fill_pd_slot d E v slot s)"
  unfolding nv50_vspace_fill_pd_slot_def Let_def
  by (intro steps mem_alloc_keeps upd_nv50_vs_keeps nv50_map_bar_keeps for_each_keeps wv32_keeps assms) simp_all

lemma write_block_keeps: "I s \<Longrightarrow> keeps I (write_block d t n lev pte s)"
  unfolding write_block_def by (intro steps for_each_keeps wv32_keeps)

lemma nv50_map_range_keeps:
  assumes "sound_engine E" "I s"
  shows "keeps (on_state I) (nv50_map_contig_range d E v offset pte sz s)"
proof -
  have "sound_engine E \<longrightarrow> I s \<longrightarrow> I (snd y)" if "nv50_map_contig_range d E v offset pte sz s = Some y"
    for d E v offset pte sz s y
  proof (rule nv50_map_contig_range.raw_induct
      [where P = "\<lambda>d E v offset pte sz s y. sound_engine E \<longrightarrow> I s \<longrightarrow> I (snd y)", OF _ that])
    fix f d E v offset p sz s y
    assume IH: "\<And>d E v offset pte sz s y. f d E v offset pte sz s = Some y \<Longrightarrow> sound_engine E \<longrightarrow> I s \<longrightarrow> I (snd y)"
      and body: "(if sz = 0 then Some (Inr (), s)
        else let lev = pte_level 7 sz offset 0 in nv50_vs v s \<bind> (\<lambda>e. if NV50_VM_PDE_COUNT \<le> pdenum offset then None
        else (if pt e (pdenum offset) = None then nv50_vspace_fill_pd_slot d E v (pdenum offset) s else Some (Inr (), s)) \<bind>
          (\<lambda>(ret, s). case ret of Inl err \<Rightarrow> Some (Inl err, s)
             | Inr _ \<Rightarrow> nv50_vs v s \<bind> (\<lambda>e. pt e (pdenum offset) \<bind> (\<lambda>t.
                 write_block d t (ptenum offset) lev p s \<bind> (\<lambda>s. let step = push_bit lev 0x1000 in
                   f d E v (offset + step) (p + step) (sz - step) s)))))) = Some y"
    have f: "sound_engine E \<Longrightarrow> I s \<Longrightarrow> keeps (on_state I) (f d E v offset pte sz s)" for d E v offset pte sz s
      using IH by (simp add: keeps_def)
    show "sound_engine E \<longrightarrow> I s \<longrightarrow> I (snd y)"
      by (intro impI keepsD [where P = "on_state I", OF _ body]) (unfold Let_def, intro steps fill_pd_slot_keeps write_block_keeps f, simp_all)
  qed
  with assms show ?thesis by (simp add: keeps_def)
qed

lemma nv50_map_vram_keeps:
  assumes "sound_engine E" "I s"
  shows "keeps (on_state I) (nv50_map_vram d E v b offset roff n s)"
proof -
  have "sound_engine E \<longrightarrow> I s \<longrightarrow> I (snd y)" if "nv50_map_vram d E v b offset roff n s = Some y"
    for d E v b offset roff n s y
  proof (rule nv50_map_vram.raw_induct
      [where P = "\<lambda>d E v b offset roff n s y. sound_engine E \<longrightarrow> I s \<longrightarrow> I (snd y)", OF _ that])
    fix f d E v b offset roff n s y
    assume IH: "\<And>d E v b offset roff n s y. f d E v b offset roff n s = Some y \<Longrightarrow> sound_engine E \<longrightarrow> I s \<longrightarrow> I (snd y)"
      and body: "(case n of None \<Rightarrow> Some (Inr (), s)
        | Some n \<Rightarrow> bos s b \<bind> (\<lambda>bo. vram_mm s \<bind> (\<lambda>m. mm_lookup m n \<bind> (\<lambda>node.
            nv50_map_contig_range d E v (offset + roff) (nv50_vram_pte d bo (nstart node) s) (nsize node) s \<bind>
            (\<lambda>(ret, s). case ret of
               Inl err \<Rightarrow> bos s b \<bind> (\<lambda>bo. nv50_vspace_do_unmap d v offset (bsize bo) s \<bind> (\<lambda>(_, s). Some (Inl err, s)))
             | Inr _ \<Rightarrow> vram_mm s \<bind> (\<lambda>m. mm_lookup m n \<bind>
                 (\<lambda>node. f d E v b offset (roff + nsize node) (nnext node) s))))))) = Some y"
    have f: "sound_engine E \<Longrightarrow> I s \<Longrightarrow> keeps (on_state I) (f d E v b offset roff n s)" for d E v b offset roff n s
      using IH by (simp add: keeps_def)
    show "sound_engine E \<longrightarrow> I s \<longrightarrow> I (snd y)"
      by (intro impI keepsD [where P = "on_state I", OF _ body])
        (intro steps nv50_map_range_keeps nv50_do_unmap_keeps f, simp_all)
  qed
  with assms show ?thesis by (simp add: keeps_def)
qed

lemma nv50_map_sysram_keeps:
  "sound_engine E \<Longrightarrow> I s \<Longrightarrow> keeps (on_state I) (nv50_map_sysram d E v b offset is s)"
proof (induction "is" arbitrary: s)
  case (Cons i "is")
  show ?case unfolding nv50_map_sysram.simps
    by (intro steps nv50_map_range_keeps nv50_do_unmap_keeps Cons) simp_all
qed (simp add: keeps_def)

lemma nv50_do_map_keeps: "sound_engine E \<Longrightarrow> I s \<Longrightarrow> keeps (on_state I) (nv50_vspace_do_map d E v b offset s)"
  unfolding nv50_vspace_do_map_def
  by (intro steps nv50_map_vram_keeps nv50_map_sysram_keeps bar_flush_keeps) simp_all

lemma nv50_place_map_keeps: "I s \<Longrightarrow> keeps (on_state I) (nv50_vspace_place_map d v b start end' back s)"
  unfolding nv50_vspace_place_map_def by (intro steps set_vs_mm_keeps) simp_all

lemma nv50_vspace_life_keeps:
  assumes "sound_engine E" "I s"
  shows "keeps (on_state I) (nv50_vspace_new d v s)" "keeps I (nv50_vspace_free d E v s)"
  unfolding nv50_vspace_new_def nv50_vspace_free_def
  by (intro steps hw_keeps set_vs_mm_keeps for_each_keeps mem_free_keeps assms; simp)+

lemma no_engine_sound: "sound_engine no_engine"
  by (simp add: sound_engine_def no_engine_def keeps_None)

lemma nv50_vm_sound: "sound_engine (nv50_vm d n)"
proof (induction n)
  case 0
  show ?case by (simp add: no_engine_sound)
next
  case (Suc n)
  show ?case
    unfolding nv50_vm.simps Let_def
    by (subst sound_engine_def) (simp add: Suc.IH nv50_vspace_life_keeps [OF Suc.IH] nv50_place_map_keeps
        nv50_do_map_keeps nv50_do_unmap_keeps nv50_map_bar_keeps mem_free_keeps)
qed

subsection \<open>Page tables of the NVC0 family\<close>

lemma upd_nvc0_vs_keeps: "I s \<Longrightarrow> keeps I (upd_nvc0_vs v f s)"
  unfolding upd_nvc0_vs_def by (intro steps hw_keeps) simp_all

lemma nvc0_tlb_flush_keeps: "I s \<Longrightarrow> keeps (on_state I) (nvc0_tlb_flush d v s)"
  unfolding nvc0_tlb_flush_def by (intro steps hw_keeps) simp_all

lemma nvc0_map_bar_keeps:
  assumes "sound_engine E" "I s"
  shows "keeps (on_state I) (nvc0_vm_map_kernel d E b s)" "keeps (on_state I) (nvc0_vm_map_user d E b s)"
  unfolding nvc0_vm_map_kernel_def nvc0_vm_map_user_def
  by (intro steps hw_keeps vspace_map_keeps assms; simp add: assms)+

lemma clear_words_keeps: "I s \<Longrightarrow> keeps I (clear_words d b from' bytes s)"
  unfolding clear_words_def by (intro for_each_keeps wv32_keeps)

lemma nvc0_pgt_keeps:
  assumes "sound_engine E" "I s"
  shows "keeps (on_state I) (nvc0_vspace_pgt d E v n s)"
proof -
  have "I s \<Longrightarrow> keeps (on_state I) (nvc0_vspace_fill_pde d E v pgt s)" for pgt s
    unfolding nvc0_vspace_fill_pde_def Let_def
    by (intro steps mem_alloc_keeps clear_words_keeps nvc0_map_bar_keeps bar_flush_keeps wv32_keeps
        nvc0_tlb_flush_keeps assms(1)) simp_all
  then show ?thesis
    unfolding nvc0_vspace_pgt_def using assms(2) by (intro steps hw_keeps upd_nvc0_vs_keeps) simp_all
qed

lemma nvc0_pgt_del_keeps: "I s \<Longrightarrow> keeps I (nvc0_pgt_del d v pgt s)"
  unfolding nvc0_pgt_del_def by (intro steps vram_free_keeps upd_nvc0_vs_keeps wv32_keeps)

lemma nvc0_unmap_blocks_keeps:
  assumes "sound_engine E" "I s"
  shows "keeps I (nvc0_unmap_blocks d E v offset sz s)"
proof -
  have "sound_engine E \<longrightarrow> I s \<longrightarrow> I y" if "nvc0_unmap_blocks d E v offset sz s = Some y" for d E v offset sz s y
  proof (rule nvc0_unmap_blocks.raw_induct [where P = "\<lambda>d E v offset sz s y. sound_engine E \<longrightarrow> I s \<longrightarrow> I y", OF _ that])
    fix f d E v offset sz s y
    assume IH: "\<And>d E v offset sz s y. f d E v offset sz s = Some y \<Longrightarrow> sound_engine E \<longrightarrow> I s \<longrightarrow> I y"
      and body: "(if sz = 0 then Some s
        else nvc0_vspace_pgt d E v (NVC0_PDE offset) s \<bind> (\<lambda>(p, s). let space = block_space offset sz in
          p \<bind> (\<lambda>p. spt p \<bind> (\<lambda>t1. clear_words d t1 (NVC0_SPTE offset * 8) (unat (drop_bit 12 space) * 8) s \<bind> (\<lambda>s.
            (case lpt p of None \<Rightarrow> Some s | Some t0 \<Rightarrow> clear_words d t0 (NVC0_LPTE offset * 8) (unat (drop_bit 17 space) * 8) s) \<bind>
            f d E v (offset + space) (sz - space)))))) = Some y"
    have f: "sound_engine E \<Longrightarrow> I s \<Longrightarrow> keeps I (f d E v offset sz s)" for d E v offset sz s
      using IH by (simp add: keeps_def)
    show "sound_engine E \<longrightarrow> I s \<longrightarrow> I y"
      by (intro impI keepsD [where P = I, OF _ body]) (unfold Let_def, intro steps nvc0_pgt_keeps clear_words_keeps f)
  qed
  with assms show ?thesis by (simp add: keeps_def)
qed

lemma nvc0_do_unmap_keeps: "sound_engine E \<Longrightarrow> I s \<Longrightarrow> keeps (on_state I) (nvc0_vspace_do_unmap d E v offset sz s)"
  unfolding nvc0_vspace_do_unmap_def by (intro steps nvc0_unmap_blocks_keeps bar_flush_keeps nvc0_tlb_flush_keeps)

lemma nvc0_write_pt_keeps: "I s \<Longrightarrow> keeps I (nvc0_write_pt d t pte count phys psz pfl0 pfl1 s)"
  unfolding nvc0_write_pt_def by (intro steps for_each_keeps wv32_keeps)

lemma nvc0_place_map_keeps: "I s \<Longrightarrow> keeps (on_state I) (nvc0_vspace_place_map d v b start end' back s)"
  unfolding nvc0_vspace_place_map_def Let_def by (intro steps set_vs_mm_keeps) simp_all

lemma nvc0_map_sysram_keeps:
  "sound_engine E \<Longrightarrow> I s \<Longrightarrow> keeps I (nvc0_map_sysram d E v pfl0 pfl1 addrs n pte p s)"
proof (induction addrs arbitrary: n pte p s)
  case (Cons phys rest)
  show ?case unfolding nvc0_map_sysram.simps
    by (intro steps nvc0_pgt_keeps wv32_keeps Cons)
qed (simp add: keeps_def)

lemma nvc0_map_piece_keeps:
  assumes "sound_engine E" "I s"
  shows "keeps (on_state I) (nvc0_map_piece d E v s1 pfl0 pfl1 offset phys sz s)"
proof -
  have "sound_engine E \<longrightarrow> I s \<longrightarrow> I (snd y)" if "nvc0_map_piece d E v s1 pfl0 pfl1 offset phys sz s = Some y"
    for d E v s1 pfl0 pfl1 offset phys sz s y
  proof (rule nvc0_map_piece.raw_induct
      [where P = "\<lambda>d E v s1 pfl0 pfl1 offset phys sz s y. sound_engine E \<longrightarrow> I s \<longrightarrow> I (snd y)", OF _ that])
    fix f d E v s1 pfl0 pfl1 offset phys sz s y
    assume IH: "\<And>d E v s1 pfl0 pfl1 offset phys sz s y. f d E v s1 pfl0 pfl1 offset phys sz s = Some y \<Longrightarrow>
          sound_engine E \<longrightarrow> I s \<longrightarrow> I (snd y)"
      and body: "(if sz = 0 then Some (offset, s)
        else let space = block_space offset sz; psh = if s1 then 12 else 17;
            pte = unat (drop_bit psh (offset AND NVC0_VM_BLOCK_MASK)); count = unat (drop_bit psh space)
          in nvc0_vspace_pgt d E v (NVC0_PDE offset) s \<bind> (\<lambda>(p, s). p \<bind> (\<lambda>p.
            (case if s1 then spt p else lpt p of None \<Rightarrow> if count = 0 then Some s else None
             | Some t \<Rightarrow> nvc0_write_pt d t pte count phys (2 ^ psh) pfl0 pfl1 s) \<bind>
            f d E v s1 pfl0 pfl1 (offset + space) (phys + space) (sz - space)))) = Some y"
    have f: "sound_engine E \<Longrightarrow> I s \<Longrightarrow> keeps (on_state I) (f d E v s1 pfl0 pfl1 offset phys sz s)"
      for d E v s1 pfl0 pfl1 offset phys sz s using IH by (simp add: keeps_def)
    show "sound_engine E \<longrightarrow> I s \<longrightarrow> I (snd y)"
      by (intro impI keepsD [where P = "on_state I", OF _ body])
        (unfold Let_def, intro steps nvc0_pgt_keeps nvc0_write_pt_keeps f, simp_all)
  qed
  with assms show ?thesis by (simp add: keeps_def)
qed

lemma nvc0_map_vram_keeps:
  assumes "sound_engine E" "I s"
  shows "keeps I (nvc0_map_vram d E v s1 pfl0 pfl1 offset n s)"
proof -
  have "sound_engine E \<longrightarrow> I s \<longrightarrow> I y" if "nvc0_map_vram d E v s1 pfl0 pfl1 offset n s = Some y"
    for d E v s1 pfl0 pfl1 offset n s y
  proof (rule nvc0_map_vram.raw_induct
      [where P = "\<lambda>d E v s1 pfl0 pfl1 offset n s y. sound_engine E \<longrightarrow> I s \<longrightarrow> I y", OF _ that])
    fix f d E v s1 pfl0 pfl1 offset n s y
    assume IH: "\<And>d E v s1 pfl0 pfl1 offset n s y. f d E v s1 pfl0 pfl1 offset n s = Some y \<Longrightarrow> sound_engine E \<longrightarrow> I s \<longrightarrow> I y"
      and body: "(case n of None \<Rightarrow> Some s
        | Some n \<Rightarrow> vram_mm s \<bind> (\<lambda>m. mm_lookup m n \<bind> (\<lambda>node.
            nvc0_map_piece d E v s1 pfl0 pfl1 offset (nstart node) (nsize node) s \<bind> (\<lambda>(offset, s).
              vram_mm s \<bind> (\<lambda>m. mm_lookup m n \<bind> (\<lambda>node. f d E v s1 pfl0 pfl1 offset (nnext node) s)))))) = Some y"
    have f: "sound_engine E \<Longrightarrow> I s \<Longrightarrow> keeps I (f d E v s1 pfl0 pfl1 offset n s)" for d E v s1 pfl0 pfl1 offset n s
      using IH by (simp add: keeps_def)
    show "sound_engine E \<longrightarrow> I s \<longrightarrow> I y"
      by (intro impI keepsD [where P = I, OF _ body]) (intro steps nvc0_map_piece_keeps f)
  qed
  with assms show ?thesis by (simp add: keeps_def)
qed

lemma nvc0_do_map_keeps: "sound_engine E \<Longrightarrow> I s \<Longrightarrow> keeps (on_state I) (nvc0_vspace_do_map d E v b offset s)"
  unfolding nvc0_vspace_do_map_def Let_def
  by (intro steps nvc0_map_vram_keeps nvc0_map_sysram_keeps nvc0_pgt_keeps bar_flush_keeps nvc0_tlb_flush_keeps)

lemma nvc0_vspace_life_keeps:
  assumes "sound_engine E" "I s"
  shows "keeps (on_state I) (nvc0_vspace_new d E v s)" "keeps I (nvc0_vspace_free d E v s)"
  unfolding nvc0_vspace_new_def nvc0_vspace_free_def
  by (intro steps hw_keeps set_vs_mm_keeps for_each_keeps mem_alloc_keeps mem_free_keeps nvc0_map_bar_keeps
      nvc0_pgt_del_keeps wv32_keeps assms; simp)+

lemma nvc0_vm_sound: "sound_engine (nvc0_vm d n)"
proof (induction n)
  case 0
  show ?case by (simp add: no_engine_sound)
next
  case (Suc n)
  show ?case
    unfolding nvc0_vm.simps Let_def
    by (subst sound_engine_def) (simp add: Suc.IH nvc0_vspace_life_keeps nvc0_place_map_keeps
        nvc0_do_map_keeps nvc0_do_unmap_keeps nvc0_map_bar_keeps mem_free_keeps)
qed

lemma vm_of_sound: "sound_engine (vm_of d n)"
  by (simp add: vm_of_def nv50_vm_sound nvc0_vm_sound)

subsection \<open>Channels\<close>

lemma iobj_new_keeps: "I s \<Longrightarrow> keeps (on_state I) (nv50_chan_iobj_new c sz s)"
  unfolding nv50_chan_iobj_new_def Let_def by (intro steps hw_keeps) simp_all

lemma write_words_keeps: "I s \<Longrightarrow> keeps I (write_words d b ws s)"
  unfolding write_words_def by (intro steps for_each_keeps wv32_keeps)

lemma dmaobj_new_keeps: "I s \<Longrightarrow> keeps (on_state I) (nv50_chan_dmaobj_new d c type start sz s)"
  unfolding nv50_chan_dmaobj_new_def Let_def by (intro steps iobj_new_keeps write_words_keeps bar_flush_keeps) simp_all

lemma chan_fill_pd_keeps: "I s \<Longrightarrow> keeps I (chan_fill_pd d v b s)"
  unfolding chan_fill_pd_def by (intro steps for_each_keeps wv32_keeps)

lemma chan_user_keeps:
  assumes "sound_engine E" "I s"
  shows "keeps (on_state I) (nv50_chan_user d E c b s)"
proof -
  have ramht: "I s \<Longrightarrow> keeps I (nv50_chan_ramht d c b s)" for s
    unfolding nv50_chan_ramht_def by (intro steps iobj_new_keeps hw_keeps for_each_keeps wv32_keeps) simp_all
  show ?thesis
    unfolding nv50_chan_user_def by (intro steps ramht iobj_new_keeps mem_alloc_keeps mem_free_keeps hw_keeps assms) simp_all
qed

lemma do_chan_keeps:
  assumes "sound_engine E" "I s"
  shows "keeps (on_state I) (do_chan_new d E c s)" "keeps I (do_chan_free d E c s)"
proof -
  have "keeps (on_state I) (nv50_chan_new d E c s)"
    unfolding nv50_chan_new_def Let_def
    by (intro steps mem_alloc_keeps vs_keeps upd_nv50_vs_keeps chan_fill_pd_keeps chan_user_keeps bar_flush_keeps
        assms) simp_all
  moreover have "keeps (on_state I) (nvc0_chan_new d E c s)"
    unfolding nvc0_chan_new_def Let_def
    by (intro steps mem_alloc_keeps vs_keeps write_words_keeps bar_flush_keeps assms) simp_all
  ultimately show "keeps (on_state I) (do_chan_new d E c s)" by (simp add: do_chan_new_def)
  have "keeps I (nv50_chan_free d E c s)"
    unfolding nv50_chan_free_def by (intro steps mem_free_keeps vs_keeps upd_nv50_vs_keeps assms) simp_all
  moreover have "keeps I (nvc0_chan_free d E c s)"
    unfolding nvc0_chan_free_def by (intro steps mem_free_keeps vs_keeps assms) simp_all
  ultimately show "keeps I (do_chan_free d E c s)" by (simp add: do_chan_free_def)
qed

lemma write_regs_keeps: "I s \<Longrightarrow> keeps I (write_regs d ws s)"
  unfolding write_regs_def by (intro steps for_each_keeps hw_keeps)

lemma ramht_insert_keeps:
  assumes "I s"
  shows "keeps (on_state I) (pscnv_ramht_insert d r handle x s)"
proof -
  have "I s \<longrightarrow> I (snd y)" if "ramht_insert_at d b r h x st p s = Some y" for d b r h x st p s y
  proof (rule ramht_insert_at.raw_induct [where P = "\<lambda>d b r h x st p s y. I s \<longrightarrow> I (snd y)", OF _ that])
    fix f d b r h x st p s y
    assume IH: "\<And>d b r h x st p s y. f d b r h x st p s = Some y \<Longrightarrow> I s \<longrightarrow> I (snd y)"
      and body: "(nv_rv32 d b (roffset r + p + 4) s \<bind> (\<lambda>(used, s). if used = 0 then
          nv_wv32 d b (roffset r + p) h s \<bind> (\<lambda>s. nv_wv32 d b (roffset r + p + 4) x s \<bind>
            (\<lambda>s. bar_flush d s \<bind> (\<lambda>s. Some (Inr (), s))))
        else ramht_step r p \<bind> (\<lambda>p. if p \<noteq> st then f d b r h x st p s else Some (Inl ENOMEM, s)))) = Some y"
    have f: "I s \<Longrightarrow> keeps (on_state I) (f d b r h x st p s)" for d b r h x st p s using IH by (simp add: keeps_def)
    show "I s \<longrightarrow> I (snd y)"
      by (intro impI keepsD [where P = "on_state I", OF _ body])
        (intro steps rv32_keeps wv32_keeps bar_flush_keeps f, simp_all)
  qed
  then have "I s \<Longrightarrow> keeps (on_state I) (ramht_insert_at d b r h x st p s)" for d b r h x st p s by (simp add: keeps_def)
  with assms show ?thesis unfolding pscnv_ramht_insert_def Let_def by (intro steps)
qed

lemma ramht_find_keeps:
  assumes "I s"
  shows "keeps (on_state I) (pscnv_ramht_find d r handle s)"
proof -
  have "I s \<longrightarrow> I (snd y)" if "ramht_find_at d b r h st p s = Some y" for d b r h st p s y
  proof (rule ramht_find_at.raw_induct [where P = "\<lambda>d b r h st p s y. I s \<longrightarrow> I (snd y)", OF _ that])
    fix f d b r h st p s y
    assume IH: "\<And>d b r h st p s y. f d b r h st p s = Some y \<Longrightarrow> I s \<longrightarrow> I (snd y)"
      and body: "(nv_rv32 d b (roffset r + p + 4) s \<bind> (\<lambda>(used, s). if used = 0 then Some (0, s)
        else nv_rv32 d b (roffset r + p) s \<bind> (\<lambda>(h', s). if h' = h then nv_rv32 d b (roffset r + p + 4) s
          else ramht_step r p \<bind> (\<lambda>p. if p \<noteq> st then f d b r h st p s else Some (0, s))))) = Some y"
    have f: "I s \<Longrightarrow> keeps (on_state I) (f d b r h st p s)" for d b r h st p s using IH by (simp add: keeps_def)
    show "I s \<longrightarrow> I (snd y)"
      by (intro impI keepsD [where P = "on_state I", OF _ body]) (intro steps rv32_keeps f, simp_all)
  qed
  then have "I s \<Longrightarrow> keeps (on_state I) (ramht_find_at d b r h st p s)" for d b r h st p s by (simp add: keeps_def)
  with assms show ?thesis unfolding pscnv_ramht_find_def Let_def by (intro steps)
qed

subsection \<open>PFIFO and PGRAPH\<close>

lemma next_playlist_keeps: "I s \<Longrightarrow> keeps (on_state I) (next_playlist s)"
  unfolding next_playlist_def Let_def by (intro steps) (simp add: fields_steady)

lemma playlist_fill_keeps:
  "I s \<Longrightarrow> keeps (on_state I) (nv50_playlist_fill d b is pos s)"
  "I s \<Longrightarrow> keeps (on_state I) (nvc0_playlist_fill d b is pos s)"
proof (induction "is" arbitrary: pos s)
  case (Cons i "is")
  { case 1 then show ?case unfolding nv50_playlist_fill.simps by (intro steps hw_keeps wv32_keeps Cons) }
  { case 2 then show ?case unfolding nvc0_playlist_fill.simps by (intro steps hw_keeps wv32_keeps Cons) }
qed (simp_all add: keeps_def)

lemma playlist_update_keeps:
  "I s \<Longrightarrow> keeps I (nv50_fifo_playlist_update d s)" "I s \<Longrightarrow> keeps I (nvc0_fifo_playlist_update d s)"
  unfolding nv50_fifo_playlist_update_def nvc0_fifo_playlist_update_def
  by (intro steps next_playlist_keeps playlist_fill_keeps bar_flush_keeps hw_keeps; assumption)+

lemma fifo_chan_kill_keeps: "I s \<Longrightarrow> keeps I (fifo_chan_kill d c s)"
  unfolding fifo_chan_kill_def nv50_fifo_chan_kill_def nvc0_fifo_chan_kill_def Let_def
  by (intro steps playlist_update_keeps write_regs_keeps hw_keeps)

lemma fifo_init_keeps:
  assumes "I s"
  shows "keeps (on_state I) (nv50_fifo_chan_init_dma d c pb flags msk pb_start s)"
    "keeps (on_state I) (nv50_fifo_ib d c pb msk ib_start ib_order s)"
    "keeps (on_state I) (nvc0_fifo_chan_init_ib d c pb flags msk ib_start ib_order s)"
proof -
  have start: "I s \<Longrightarrow> keeps I (nv50_fifo_start d c ws s)" for ws s
    unfolding nv50_fifo_start_def Let_def by (intro steps write_words_keeps hw_keeps playlist_update_keeps)
  have inst: "I s \<Longrightarrow> keeps (on_state I) (nv50_pb_inst d c pb s)" for s
    unfolding nv50_pb_inst_def by (intro steps ramht_find_keeps) simp_all
  show "keeps (on_state I) (nv50_fifo_chan_init_dma d c pb flags msk pb_start s)"
    unfolding nv50_fifo_chan_init_dma_def by (intro steps start inst assms) simp_all
  show "keeps (on_state I) (nv50_fifo_ib d c pb msk ib_start ib_order s)"
    unfolding nv50_fifo_ib_def by (intro steps start inst assms) simp_all
  have wr: "I s \<Longrightarrow> keeps I (nvchan_wr32 d n ofs v s)" for n ofs v s
    unfolding nvchan_wr32_def by (rule tell_keeps)
  show "keeps (on_state I) (nvc0_fifo_chan_init_ib d c pb flags msk ib_start ib_order s)"
    unfolding nvc0_fifo_chan_init_ib_def Let_def
    by (intro steps for_each_keeps wr clear_words_keeps bar_flush_keeps write_words_keeps hw_keeps
        playlist_update_keeps assms) (simp_all add: assms)
qed

text \<open>The values of a context are kept with what \<open>put\<close> keeps.\<close>

lemma grctx_keeps:
  assumes put: "\<And>a v s. I s \<Longrightarrow> keeps I (put a v s)" and "I s"
  shows "keeps (on_state I) (nv50_grctx_init d put c s)"
proof -
  have loop: "keeps (on_state I) (for_each f xs cs)" if "\<And>x cs. I (snd cs) \<Longrightarrow> keeps (on_state I) (f x cs)" "I (snd cs)"
    for f :: "'y \<Rightarrow> grctx \<times> kern \<Rightarrow> (grctx \<times> kern) option" and xs cs
    using that(2) by (induction xs arbitrary: cs) (auto intro: keeps_through that(1) keeps_Some)
  have loop3: "keeps (\<lambda>r. I (snd (snd r))) (for_each f xs zcs)"
    if "\<And>x cs. I (snd (snd cs)) \<Longrightarrow> keeps (\<lambda>r. I (snd (snd r))) (f x cs)" "I (snd (snd zcs))"
    for f :: "'y \<Rightarrow> u32 \<times> grctx \<times> kern \<Rightarrow> (u32 \<times> grctx \<times> kern) option" and xs zcs
    using that(2) by (induction xs arbitrary: zcs) (auto intro: keeps_through that(1) keeps_Some)
  have mmio: "keeps (on_state I) (mmio_step put x cs)" if "I (snd cs)" for x cs
    using that by (cases x) (simp_all only: mmio_step.simps gr_def_def, (intro steps put; simp)+)
  have emit: "keeps (on_state I) (emit st put x cs)" if "I (snd cs)" for st x cs
    using that unfolding emit_def Let_def by (cases cs) (simp only:, intro steps for_each_keeps put, simp_all)
  have 1: "keeps (on_state I) (construct_mmio d put cs)" if "I (snd cs)" for cs
    unfolding construct_mmio_def construct_mmio_ddata_def Let_def
    by (rule bind2 [OF rd32_keeps [OF that]], rule keeps_through [OF loop [OF mmio]], assumption, simp,
        rule keeps_through [where Q = "on_state I"], rule keeps_through [OF loop [OF emit]], assumption, assumption,
        auto intro!: steps loop mmio)
  have strand: "keeps (\<lambda>r. I (snd (snd r))) (strand put ofs k zcs)" if "I (snd (snd zcs))" for ofs k zcs
    using that unfolding strand_def Let_def
    by (cases zcs) (simp only: prod.case snd_conv, rule keeps_through [OF loop [OF emit]], assumption, simp,
        auto intro: keeps_Some)
  have 2: "keeps (on_state I) (construct_xfer1 d put cs)" if "I (snd cs)" for cs
    unfolding construct_xfer1_def Let_def
    by (rule bind2 [OF rd32_keeps [OF that]], rule bind3 [OF loop3 [OF strand]]) (auto intro!: steps)
  have 3: "keeps (on_state I) (construct_xfer2 d put cs)" if "I (snd cs)" for cs
    unfolding construct_xfer2_def Let_def
    by (rule bind2 [OF rd32_keeps [OF that]], rule bind3 [OF loop3 [OF strand]]) (auto intro!: steps)
  show ?thesis
    unfolding nv50_grctx_init_def using assms(2)
    by (intro keeps_if keeps_Some; simp?)
      (rule keeps_bind, rule keeps_through [OF 1], simp, rule keeps_through [OF 2], assumption,
        rule keeps_through [OF 3], assumption, auto simp: keeps_def split: Option.bind_splits)
qed

lemma graph_chan_keeps:
  assumes "I s"
  shows "keeps (on_state I) (nv50_graph_chan_alloc d c s)" "keeps (on_state I) (nv50_graph_chan_obj_new d c handle oclass s)"
    "keeps I (nv50_graph_chan_kill d c s)" "sound_engine E \<Longrightarrow> keeps I (nv50_graph_chan_free d E c s)"
proof -
  show "keeps (on_state I) (nv50_graph_chan_alloc d c s)"
    unfolding nv50_graph_chan_alloc_def
    by (intro steps hw_keeps mem_alloc_keeps clear_words_keeps grctx_keeps wv32_keeps write_words_keeps bar_flush_keeps
        upd_nv50_vs_keeps assms) simp_all
  show "keeps (on_state I) (nv50_graph_chan_obj_new d c handle oclass s)"
    unfolding nv50_graph_chan_obj_new_def
    by (intro steps iobj_new_keeps write_words_keeps ramht_insert_keeps assms) simp_all
  have wait: "I s \<longrightarrow> I y" if "ctxprog_wait d start s = Some y" for d start s y
  proof (rule ctxprog_wait.raw_induct [where P = "\<lambda>d st s y. I s \<longrightarrow> I y", OF _ that])
    fix f d start s y
    assume IH: "\<And>d st s y. f d st s = Some y \<Longrightarrow> I s \<longrightarrow> I y"
      and body: "(nv_rd32 d 0x400300 s \<bind> (\<lambda>(run, s). if run AND 1 = 0 then Some s
        else nv_rd32 d 0x400824 s \<bind> (\<lambda>(sync, s). if sync AND 0x80000000 \<noteq> 0 then Some s
          else nv04_timer_read d s \<bind> (\<lambda>(now, s). if now - start \<ge> 2000000000 then Some s else f d start s)))) = Some y"
    have f: "I s \<Longrightarrow> keeps I (f d st s)" for d st s using IH by (simp add: keeps_def)
    show "I s \<longrightarrow> I y" by (intro impI keepsD [where P = I, OF _ body]) (intro steps hw_keeps f)
  qed
  then have wait: "I s \<Longrightarrow> keeps I (ctxprog_wait d start s)" for start s by (simp add: keeps_def)
  show "keeps I (nv50_graph_chan_kill d c s)"
    unfolding nv50_graph_chan_kill_def Let_def by (intro steps hw_keeps write_regs_keeps wait assms)
  show "keeps I (nv50_graph_chan_free d E c s)" if "sound_engine E"
    unfolding nv50_graph_chan_free_def
    by (intro steps mem_free_keeps upd_nv50_vs_keeps hw_keeps nv50_tlb_flush_keeps assms that) simp_all
qed

end

end
