(* ===== verification/Numbers.thy ===== *)
theory Numbers
  imports Steady
begin

section \<open>Numbers of address spaces and channels\<close>

text \<open>
  Address spaces and channels have numbers, by which clients name them and the card reports them: a
  table of those in use, a second table for those of the BARs, whose numbers are negative, and the
  number in the object itself. The tables and the objects must agree. The locale \<open>numbering\<close> is the
  contract of \<open>bind\<close> and \<open>unbind\<close>; the two families of functions in \<open>pscnv_vm.c\<close> and \<open>pscnv_chan.c\<close>
  are its interpretations.
\<close>

definition numbers_ok ::
  "nat \<Rightarrow> nat \<Rightarrow> (nat \<Rightarrow> nat option) \<Rightarrow> (nat \<Rightarrow> nat option) \<Rightarrow> (nat \<Rightarrow> int option) \<Rightarrow> bool" where
  "numbers_ok lo hi tab fake num \<longleftrightarrow>
     (\<forall>i. tab i \<noteq> None \<longrightarrow> 0 < i \<and> lo \<le> i \<and> i \<le> hi) \<and> (\<forall>i. fake i \<noteq> None \<longrightarrow> 0 < i \<and> i < 4) \<and>
     (\<forall>i > 0. \<forall>c. tab i = Some c \<longleftrightarrow> num c = Some (int i)) \<and>
     (\<forall>i > 0. \<forall>c. fake i = Some c \<longleftrightarrow> num c = Some (- int i))"

lemma numbersD:
  assumes "numbers_ok lo hi tab fake num"
  shows "tab i \<noteq> None \<Longrightarrow> 0 < i \<and> lo \<le> i \<and> i \<le> hi" "fake i \<noteq> None \<Longrightarrow> 0 < i \<and> i < 4"
    "0 < i \<Longrightarrow> tab i = Some c \<longleftrightarrow> num c = Some (int i)" "0 < i \<Longrightarrow> fake i = Some c \<longleftrightarrow> num c = Some (- int i)"
proof -
  note * = assms [unfolded numbers_ok_def]
  show "tab i \<noteq> None \<Longrightarrow> 0 < i \<and> lo \<le> i \<and> i \<le> hi" by (rule * [THEN conjunct1, rule_format])
  show "fake i \<noteq> None \<Longrightarrow> 0 < i \<and> i < 4" by (rule * [THEN conjunct2, THEN conjunct1, rule_format])
  show "0 < i \<Longrightarrow> tab i = Some c \<longleftrightarrow> num c = Some (int i)"
    by (rule * [THEN conjunct2, THEN conjunct2, THEN conjunct1, rule_format])
  show "0 < i \<Longrightarrow> fake i = Some c \<longleftrightarrow> num c = Some (- int i)"
    by (rule * [THEN conjunct2, THEN conjunct2, THEN conjunct2, rule_format])
qed

lemma numbersI:
  assumes "\<And>i. tab i \<noteq> None \<Longrightarrow> 0 < i \<and> lo \<le> i \<and> i \<le> hi" "\<And>i. fake i \<noteq> None \<Longrightarrow> 0 < i \<and> i < 4"
    "\<And>i c. 0 < i \<Longrightarrow> tab i = Some c \<longleftrightarrow> num c = Some (int i)" "\<And>i c. 0 < i \<Longrightarrow> fake i = Some c \<longleftrightarrow> num c = Some (- int i)"
  shows "numbers_ok lo hi tab fake num"
  unfolding numbers_ok_def by (intro conjI allI impI assms)

lemma numbers_update:
  assumes ok: "numbers_ok lo hi tab fake num"
    and tab: "\<And>j. tab' j \<noteq> None \<Longrightarrow> 0 < j \<and> lo \<le> j \<and> j \<le> hi" and fake: "\<And>j. fake' j \<noteq> None \<Longrightarrow> 0 < j \<and> j < 4"
    and others: "\<And>j c'. c' \<noteq> c \<Longrightarrow> 0 < j \<Longrightarrow> tab' j = Some c' \<longleftrightarrow> tab j = Some c'"
      "\<And>j c'. c' \<noteq> c \<Longrightarrow> 0 < j \<Longrightarrow> fake' j = Some c' \<longleftrightarrow> fake j = Some c'"
    and mine: "\<And>j. 0 < j \<Longrightarrow> tab' j = Some c \<longleftrightarrow> x = Some (int j)" "\<And>j. 0 < j \<Longrightarrow> fake' j = Some c \<longleftrightarrow> x = Some (- int j)"
  shows "numbers_ok lo hi tab' fake' (num(c := x))"
proof (rule numbersI)
  fix j c' :: nat assume j: "0 < j"
  show "tab' j = Some c' \<longleftrightarrow> (num(c := x)) c' = Some (int j)"
    using others(1) [OF _ j, of c'] mine(1) [OF j] numbersD(3) [OF ok j, of c'] by (cases "c' = c") simp_all
  show "fake' j = Some c' \<longleftrightarrow> (num(c := x)) c' = Some (- int j)"
    using others(2) [OF _ j, of c'] mine(2) [OF j] numbersD(4) [OF ok j, of c'] by (cases "c' = c") simp_all
qed (use tab fake in simp_all)

lemma numbers_insert:
  assumes "numbers_ok lo hi tab fake num" "num c = Some 0" "tab i = None" "0 < i" "lo \<le> i" "i \<le> hi"
  shows "numbers_ok lo hi (tab(i \<mapsto> c)) fake (num(c \<mapsto> int i))"
  using numbersD(1,2) [OF assms(1)] numbersD(3,4) [OF assms(1), where c = c] assms(2-)
  by (intro numbers_update [OF assms(1)]) (auto split: if_splits)

lemma numbers_insert_fake:
  assumes "numbers_ok lo hi tab fake num" "num c = Some 0" "fake i = None" "0 < i" "i < 4"
  shows "numbers_ok lo hi tab (fake(i \<mapsto> c)) (num(c \<mapsto> - int i))"
  using numbersD(1,2) [OF assms(1)] numbersD(3,4) [OF assms(1), where c = c] assms(2-)
  by (intro numbers_update [OF assms(1)]) (auto split: if_splits)

lemma numbers_remove:
  assumes "numbers_ok lo hi tab fake num" "num c = Some n" "0 \<le> n" "tab (nat n) = Some c"
  shows "numbers_ok lo hi (tab(nat n := None)) fake (num(c \<mapsto> 0))"
  using numbersD(1,2) [OF assms(1)] numbersD(3,4) [OF assms(1), where c = c] assms(2-)
  by (intro numbers_update [OF assms(1)]) (auto split: if_splits)

lemma numbers_remove_fake:
  assumes "numbers_ok lo hi tab fake num" "num c = Some n" "n < 0" "fake (nat (- n)) = Some c"
  shows "numbers_ok lo hi tab (fake(nat (- n) := None)) (num(c \<mapsto> 0))"
proof -
  have "fake (nat (- n)) = Some c' \<longleftrightarrow> c' = c" for c' using assms(4) by auto
  with numbersD(1,2) [OF assms(1)] numbersD(3,4) [OF assms(1), where c = c] assms(2,3) show ?thesis
    by (intro numbers_update [OF assms(1)]) (auto split: if_splits)
qed

lemma numbers_new: "numbers_ok lo hi tab fake num \<Longrightarrow> num c = None \<Longrightarrow> numbers_ok lo hi tab fake (num(c \<mapsto> 0))"
  using numbersD(1,2) [of lo hi tab fake num] numbersD(3,4) [of lo hi tab fake num _ c]
  by (intro numbers_update) auto

lemma numbers_delete: "numbers_ok lo hi tab fake num \<Longrightarrow> num c = Some 0 \<Longrightarrow> numbers_ok lo hi tab fake (num(c := None))"
  using numbersD(1,2) [of lo hi tab fake num] numbersD(3,4) [of lo hi tab fake num _ c]
  by (intro numbers_update) auto

locale numbering =
  fixes tab fake :: "'s \<Rightarrow> nat \<Rightarrow> nat option" and num :: "'s \<Rightarrow> nat \<Rightarrow> int option"
    and lo hi :: "'s \<Rightarrow> nat"
    and bind' :: "nat \<Rightarrow> nat \<Rightarrow> 's \<Rightarrow> (unit res \<times> 's) option" and unbind :: "nat \<Rightarrow> 's \<Rightarrow> 's option"
    and rest :: "'s \<Rightarrow> 's \<Rightarrow> bool"
  assumes bind_free: "num s c = Some 0 \<Longrightarrow> find (\<lambda>i. tab s i = None) [lo s..<Suc (hi s)] = Some i \<Longrightarrow>
      \<exists>s'. bind' c 0 s = Some (Inr (), s') \<and> tab s' = (tab s)(i \<mapsto> c) \<and> fake s' = fake s \<and>
        num s' = (num s)(c \<mapsto> int i) \<and> rest s s'"
    and bind_full: "num s c = Some 0 \<Longrightarrow> find (\<lambda>i. tab s i = None) [lo s..<Suc (hi s)] = None \<Longrightarrow>
      bind' c 0 s = Some (Inl ENOSPC, s)"
    and bind_fake: "num s c = Some 0 \<Longrightarrow> 0 < f \<Longrightarrow> f < 4 \<Longrightarrow> fake s f = None \<Longrightarrow>
      \<exists>s'. bind' c f s = Some (Inr (), s') \<and> tab s' = tab s \<and> fake s' = (fake s)(f \<mapsto> c) \<and>
        num s' = (num s)(c \<mapsto> - int f) \<and> rest s s'"
    and bind_checks: "bind' c f s = Some r \<Longrightarrow> num s c = Some 0 \<and> (f = 0 \<or> f < 4 \<and> fake s f = None)"
    and unbind_real: "num s c = Some n \<Longrightarrow> 0 \<le> n \<Longrightarrow> n < 128 \<Longrightarrow> tab s (nat n) = Some c \<Longrightarrow>
      \<exists>s'. unbind c s = Some s' \<and> tab s' = (tab s)(nat n := None) \<and> fake s' = fake s \<and>
        num s' = (num s)(c \<mapsto> 0) \<and> rest s s'"
    and unbind_fake: "num s c = Some n \<Longrightarrow> n < 0 \<Longrightarrow> - 4 < n \<Longrightarrow> fake s (nat (- n)) = Some c \<Longrightarrow>
      \<exists>s'. unbind c s = Some s' \<and> tab s' = tab s \<and> fake s' = (fake s)(nat (- n) := None) \<and>
        num s' = (num s)(c \<mapsto> 0) \<and> rest s s'"
    and unbind_checks: "unbind c s = Some s' \<Longrightarrow> \<exists>n. num s c = Some n \<and>
      (if n < 0 then - 4 < n \<and> fake s (nat (- n)) = Some c else n < 128 \<and> tab s (nat n) = Some c)"
    and rest_range: "rest s s' \<Longrightarrow> lo s' = lo s \<and> hi s' = hi s"
begin

definition ok :: "'s \<Rightarrow> bool" where
  "ok s \<longleftrightarrow> 0 < lo s \<and> hi s < 128 \<and> numbers_ok (lo s) (hi s) (tab s) (fake s) (num s)"

lemma find_lowest:
  assumes "find P [m..<n] = Some i"
  shows "P i \<and> m \<le> i \<and> i < n \<and> (\<forall>j. m \<le> j \<and> j < i \<longrightarrow> \<not> P j)"
proof -
  from assms obtain k where k: "k < length [m..<n]" "P ([m..<n] ! k)" "i = [m..<n] ! k" "\<forall>j < k. \<not> P ([m..<n] ! j)"
    by (auto simp: find_Some_iff)
  have "\<not> P j" if "m \<le> j" "j < i" for j
    using k that by (auto dest: spec [of _ "j - m"])
  with k show ?thesis by auto
qed

text \<open>The lowest number that is free, or an error when all are in use.\<close>

lemma bind_lowest:
  assumes "num s c = Some 0"
  shows "(\<exists>i s'. bind' c 0 s = Some (Inr (), s') \<and> tab s' = (tab s)(i \<mapsto> c) \<and> num s' = (num s)(c \<mapsto> int i) \<and>
      lo s \<le> i \<and> i \<le> hi s \<and> tab s i = None \<and> (\<forall>j. lo s \<le> j \<and> j < i \<longrightarrow> tab s j \<noteq> None)) \<or>
    (bind' c 0 s = Some (Inl ENOSPC, s) \<and> (\<forall>i. lo s \<le> i \<and> i \<le> hi s \<longrightarrow> tab s i \<noteq> None))"
proof (cases "find (\<lambda>i. tab s i = None) [lo s..<Suc (hi s)]")
  case None
  with bind_full [OF assms] show ?thesis by (auto simp: find_None_iff)
next
  case (Some i)
  from bind_free [OF assms Some] find_lowest [OF Some] show ?thesis by (auto simp: less_Suc_eq_le)
qed

lemma bind_ok:
  assumes "ok s" "bind' c f s = Some (r, s')"
  shows "ok s'" "(\<exists>e. r = Inl e) \<Longrightarrow> s' = s" "rest s s' \<or> s' = s"
    "\<And>c'. c' \<noteq> c \<Longrightarrow> num s' c' = num s c'" "num s' c \<noteq> None"
proof -
  from bind_checks [OF assms(2)] have n: "num s c = Some 0" and f: "f = 0 \<or> f < 4 \<and> fake s f = None" by auto
  have "ok s' \<and> ((\<exists>e. r = Inl e) \<longrightarrow> s' = s) \<and> (rest s s' \<or> s' = s) \<and> (\<forall>c'. c' \<noteq> c \<longrightarrow> num s' c' = num s c') \<and> num s' c \<noteq> None"
  proof (cases "f = 0")
    case True
    show ?thesis
    proof (cases "find (\<lambda>i. tab s i = None) [lo s..<Suc (hi s)]")
      case None
      with bind_full [OF n] assms True n show ?thesis by auto
    next
      case (Some i)
      from bind_free [OF n Some] assms(2) True have
        s': "tab s' = (tab s)(i \<mapsto> c)" "fake s' = fake s" "num s' = (num s)(c \<mapsto> int i)" "rest s s'" "r = Inr ()" by auto
      from find_lowest [OF Some] assms(1) have i: "tab s i = None" "0 < i" "lo s \<le> i" "i \<le> hi s" by (auto simp: ok_def)
      with s' numbers_insert [of "lo s" "hi s" "tab s" "fake s" "num s" c i] n assms(1) rest_range [OF s'(4)]
      show ?thesis by (simp add: ok_def)
    qed
  next
    case False
    with bind_fake [OF n, of f] f assms(2) have
      s': "tab s' = tab s" "fake s' = (fake s)(f \<mapsto> c)" "num s' = (num s)(c \<mapsto> - int f)" "rest s s'" "r = Inr ()" by auto
    with numbers_insert_fake [of "lo s" "hi s" "tab s" "fake s" "num s" c f] n f False assms(1) rest_range [OF s'(4)]
    show ?thesis by (simp add: ok_def)
  qed
  then show "ok s'" "(\<exists>e. r = Inl e) \<Longrightarrow> s' = s" "rest s s' \<or> s' = s"
    "\<And>c'. c' \<noteq> c \<Longrightarrow> num s' c' = num s c'" "num s' c \<noteq> None" by blast+
qed

lemma unbind_ok:
  assumes "ok s" "unbind c s = Some s'"
  shows "ok s'" "num s' = (num s)(c \<mapsto> 0)" "rest s s'"
proof -
  obtain n where n: "num s c = Some n"
    "if n < 0 then - 4 < n \<and> fake s (nat (- n)) = Some c else n < 128 \<and> tab s (nat n) = Some c"
    using unbind_checks [OF assms(2)] by blast
  have "ok s' \<and> num s' = (num s)(c \<mapsto> 0) \<and> rest s s'"
  proof (cases "n < 0")
    case True
    with unbind_fake [OF n(1) True] n(2) assms(2) have
      s': "tab s' = tab s" "fake s' = (fake s)(nat (- n) := None)" "num s' = (num s)(c \<mapsto> 0)" "rest s s'" by auto
    with numbers_remove_fake [of "lo s" "hi s" "tab s" "fake s" "num s" c n] n True assms(1) rest_range [OF s'(4)]
    show ?thesis by (simp add: ok_def)
  next
    case False
    with unbind_real [OF n(1)] n(2) assms(2) have
      s': "tab s' = (tab s)(nat n := None)" "fake s' = fake s" "num s' = (num s)(c \<mapsto> 0)" "rest s s'" by auto
    with numbers_remove [of "lo s" "hi s" "tab s" "fake s" "num s" c n] n False assms(1) rest_range [OF s'(4)]
    show ?thesis by (simp add: ok_def)
  qed
  then show "ok s'" "num s' = (num s)(c \<mapsto> 0)" "rest s s'" by blast+
qed

text \<open>A number that is given back can be taken again.\<close>

lemma bind_unbind:
  assumes "ok s" "bind' c 0 s = Some (Inr (), s')"
  shows "\<exists>s''. unbind c s' = Some s'' \<and> tab s'' = tab s \<and> fake s'' = fake s \<and> num s'' = num s"
proof -
  from bind_checks [OF assms(2)] have n: "num s c = Some 0" by simp
  from bind_full [OF n] assms(2) obtain i where i: "find (\<lambda>i. tab s i = None) [lo s..<Suc (hi s)] = Some i"
    by (cases "find (\<lambda>i. tab s i = None) [lo s..<Suc (hi s)]") auto
  from bind_free [OF n i] assms(2) have
    s': "tab s' = (tab s)(i \<mapsto> c)" "fake s' = fake s" "num s' = (num s)(c \<mapsto> int i)" by auto
  from find_lowest [OF i] assms(1) have "tab s i = None" "i < 128" by (auto simp: ok_def)
  moreover from this(1) n have "(tab s)(i := None) = tab s" "(num s)(c \<mapsto> 0) = num s" by (simp_all add: fun_upd_idem)
  ultimately show ?thesis using unbind_real [of s' c "int i"] s' n by auto
qed

end

subsection \<open>Both tables\<close>

definition vs_num :: "kern \<Rightarrow> nat \<Rightarrow> int option" where
  "vs_num s v = map_option vid (vss s v)"

definition ch_num :: "kern \<Rightarrow> nat \<Rightarrow> int option" where
  "ch_num s c = map_option cid (chs s c)"

definition vs_rest :: "kern \<Rightarrow> kern \<Rightarrow> bool" where
  "vs_rest s s' \<longleftrightarrow> s' = s\<lparr>vss := vss s', vspaces := vspaces s', fake_vspaces := fake_vspaces s'\<rparr>"

definition ch_rest :: "kern \<Rightarrow> kern \<Rightarrow> bool" where
  "ch_rest s s' \<longleftrightarrow> s' = s\<lparr>chs := chs s', chans := chans s', fake_chans := fake_chans s'\<rparr> \<and>
     (\<forall>c. map_option cfilp (chs s' c) = map_option cfilp (chs s c))"

lemmas num_defs = vs_num_def ch_num_def vs_rest_def ch_rest_def fun_eq_iff

interpretation vspace_numbers: numbering vspaces fake_vspaces vs_num "\<lambda>_. Suc 0" "\<lambda>_. 127"
  pscnv_vspace_bind pscnv_vspace_unbind vs_rest
proof unfold_locales
  show "vs_num s v = Some 0 \<Longrightarrow> find (\<lambda>i. vspaces s i = None) [Suc 0..<Suc 127] = Some i \<Longrightarrow>
      \<exists>s'. pscnv_vspace_bind v 0 s = Some (Inr (), s') \<and> vspaces s' = (vspaces s)(i \<mapsto> v) \<and>
        fake_vspaces s' = fake_vspaces s \<and> vs_num s' = (vs_num s)(v \<mapsto> int i) \<and> vs_rest s s'" for s v i
    by (auto simp: pscnv_vspace_bind_def upd_vs_def num_defs simp del: upt_Suc)
  show "vs_num s v = Some 0 \<Longrightarrow> find (\<lambda>i. vspaces s i = None) [Suc 0..<Suc 127] = None \<Longrightarrow>
      pscnv_vspace_bind v 0 s = Some (Inl ENOSPC, s)" for s v
    by (auto simp: pscnv_vspace_bind_def num_defs simp del: upt_Suc)
  show "vs_num s v = Some 0 \<Longrightarrow> 0 < f \<Longrightarrow> f < 4 \<Longrightarrow> fake_vspaces s f = None \<Longrightarrow>
      \<exists>s'. pscnv_vspace_bind v f s = Some (Inr (), s') \<and> vspaces s' = vspaces s \<and>
        fake_vspaces s' = (fake_vspaces s)(f \<mapsto> v) \<and> vs_num s' = (vs_num s)(v \<mapsto> - int f) \<and> vs_rest s s'" for s v f
    by (auto simp: pscnv_vspace_bind_def upd_vs_def num_defs)
  show "pscnv_vspace_bind v f s = Some r \<Longrightarrow> vs_num s v = Some 0 \<and> (f = 0 \<or> f < 4 \<and> fake_vspaces s f = None)" for v f s r
    by (auto simp: pscnv_vspace_bind_def num_defs split: Option.bind_splits if_splits simp del: upt_Suc)
  show "vs_num s v = Some n \<Longrightarrow> 0 \<le> n \<Longrightarrow> n < 128 \<Longrightarrow> vspaces s (nat n) = Some v \<Longrightarrow>
      \<exists>s'. pscnv_vspace_unbind v s = Some s' \<and> vspaces s' = (vspaces s)(nat n := None) \<and>
        fake_vspaces s' = fake_vspaces s \<and> vs_num s' = (vs_num s)(v \<mapsto> 0) \<and> vs_rest s s'" for s v n
    by (auto simp: pscnv_vspace_unbind_def upd_vs_def num_defs)
  show "vs_num s v = Some n \<Longrightarrow> n < 0 \<Longrightarrow> - 4 < n \<Longrightarrow> fake_vspaces s (nat (- n)) = Some v \<Longrightarrow>
      \<exists>s'. pscnv_vspace_unbind v s = Some s' \<and> vspaces s' = vspaces s \<and>
        fake_vspaces s' = (fake_vspaces s)(nat (- n) := None) \<and> vs_num s' = (vs_num s)(v \<mapsto> 0) \<and> vs_rest s s'" for s v n
    by (auto simp: pscnv_vspace_unbind_def upd_vs_def num_defs)
  show "pscnv_vspace_unbind v s = Some s' \<Longrightarrow> \<exists>n. vs_num s v = Some n \<and>
      (if n < 0 then - 4 < n \<and> fake_vspaces s (nat (- n)) = Some v else n < 128 \<and> vspaces s (nat n) = Some v)" for v s s'
    by (cases "vss s v") (simp_all add: pscnv_vspace_unbind_def vs_num_def split: if_splits)
qed simp

interpretation chan_numbers: numbering chans fake_chans ch_num ch_min ch_max pscnv_chan_bind pscnv_chan_unbind ch_rest
proof unfold_locales
  show "ch_num s c = Some 0 \<Longrightarrow> find (\<lambda>i. chans s i = None) [ch_min s..<Suc (ch_max s)] = Some i \<Longrightarrow>
      \<exists>s'. pscnv_chan_bind c 0 s = Some (Inr (), s') \<and> chans s' = (chans s)(i \<mapsto> c) \<and>
        fake_chans s' = fake_chans s \<and> ch_num s' = (ch_num s)(c \<mapsto> int i) \<and> ch_rest s s'" for s c i
    by (auto simp: pscnv_chan_bind_def upd_ch_def num_defs simp del: upt_Suc)
  show "ch_num s c = Some 0 \<Longrightarrow> find (\<lambda>i. chans s i = None) [ch_min s..<Suc (ch_max s)] = None \<Longrightarrow>
      pscnv_chan_bind c 0 s = Some (Inl ENOSPC, s)" for s c
    by (auto simp: pscnv_chan_bind_def num_defs simp del: upt_Suc)
  show "ch_num s c = Some 0 \<Longrightarrow> 0 < f \<Longrightarrow> f < 4 \<Longrightarrow> fake_chans s f = None \<Longrightarrow>
      \<exists>s'. pscnv_chan_bind c f s = Some (Inr (), s') \<and> chans s' = chans s \<and>
        fake_chans s' = (fake_chans s)(f \<mapsto> c) \<and> ch_num s' = (ch_num s)(c \<mapsto> - int f) \<and> ch_rest s s'" for s c f
    by (auto simp: pscnv_chan_bind_def upd_ch_def num_defs)
  show "pscnv_chan_bind c f s = Some r \<Longrightarrow> ch_num s c = Some 0 \<and> (f = 0 \<or> f < 4 \<and> fake_chans s f = None)" for c f s r
    by (auto simp: pscnv_chan_bind_def num_defs split: Option.bind_splits if_splits simp del: upt_Suc)
  show "ch_num s c = Some n \<Longrightarrow> 0 \<le> n \<Longrightarrow> n < 128 \<Longrightarrow> chans s (nat n) = Some c \<Longrightarrow>
      \<exists>s'. pscnv_chan_unbind c s = Some s' \<and> chans s' = (chans s)(nat n := None) \<and>
        fake_chans s' = fake_chans s \<and> ch_num s' = (ch_num s)(c \<mapsto> 0) \<and> ch_rest s s'" for s c n
    by (auto simp: pscnv_chan_unbind_def upd_ch_def num_defs)
  show "ch_num s c = Some n \<Longrightarrow> n < 0 \<Longrightarrow> - 4 < n \<Longrightarrow> fake_chans s (nat (- n)) = Some c \<Longrightarrow>
      \<exists>s'. pscnv_chan_unbind c s = Some s' \<and> chans s' = chans s \<and>
        fake_chans s' = (fake_chans s)(nat (- n) := None) \<and> ch_num s' = (ch_num s)(c \<mapsto> 0) \<and> ch_rest s s'" for s c n
    by (auto simp: pscnv_chan_unbind_def upd_ch_def num_defs)
  show "pscnv_chan_unbind c s = Some s' \<Longrightarrow> \<exists>n. ch_num s c = Some n \<and>
      (if n < 0 then - 4 < n \<and> fake_chans s (nat (- n)) = Some c else n < 128 \<and> chans s (nat n) = Some c)" for c s s'
    by (cases "chs s c") (simp_all add: pscnv_chan_unbind_def ch_num_def split: if_splits)
  fix s s'
  assume "ch_rest s s'"
  then obtain h t f where "s' = s\<lparr>chs := h, chans := t, fake_chans := f\<rparr>" unfolding ch_rest_def by blast
  then show "ch_min s' = ch_min s \<and> ch_max s' = ch_max s" by simp
qed

end
