(* ===== verification/Clients.thy ===== *)
theory Clients
  imports Numbers
begin

section \<open>Requests of clients keep the tables and each other's channels\<close>

text \<open>
  The life of an address space (\<open>pscnv_vm.c\<close>) for any invariant about channels that lower layers do
  not touch: the locale \<open>about_chans\<close>, which gives one of \<^const>\<open>steady\<close>.
\<close>

subsection \<open>Life of an address space\<close>

definition heap_ok :: "kern \<Rightarrow> bool" where
  "heap_ok s \<longleftrightarrow> (\<forall>c \<ge> fresh s. chs s c = None \<and> vss s c = None)"

lemma num_None: "vs_num s v = None \<longleftrightarrow> vss s v = None" "ch_num s c = None \<longleftrightarrow> chs s c = None"
  by (simp_all add: vs_num_def ch_num_def)

definition same_chans :: "kern \<Rightarrow> kern \<Rightarrow> bool" where
  "same_chans s s' \<longleftrightarrow> chans s' = chans s \<and> fake_chans s' = fake_chans s \<and> ch_min s' = ch_min s \<and> ch_max s' = ch_max s \<and>
     (\<forall>c. map_option (\<lambda>ch. (cid ch, cfilp ch)) (chs s' c) = map_option (\<lambda>ch. (cid ch, cfilp ch)) (chs s c)) \<and>
     fresh s \<le> fresh s'"

text \<open>What is said of channels is a parameter here.\<close>

definition spaces_ok :: "(kern \<Rightarrow> bool) \<Rightarrow> kern \<Rightarrow> bool" where
  "spaces_ok J s \<longleftrightarrow> vspace_numbers.ok s \<and> heap_ok s \<and> J s"

locale about_chans =
  fixes J :: "kern \<Rightarrow> bool"
  assumes J: "J s \<Longrightarrow> same_chans s s' \<Longrightarrow> J s'"

sublocale about_chans \<subseteq> steady "spaces_ok J"
proof
  fix s s'
  assume s: "spaces_ok J s" and same: "same s s'"
  have "vs_num s' = vs_num s" using same by (auto simp: same_def vs_num_def fun_eq_iff)
  moreover have "vspaces s' = vspaces s" "fake_vspaces s' = fake_vspaces s" "same_chans s s'"
    using same by (simp_all add: same_def same_chans_def)
  moreover have "heap_ok s'"
    unfolding heap_ok_def
  proof (intro allI impI)
    fix c assume "fresh s' \<le> c"
    with same s have c: "chs s c = None" "vss s c = None" by (auto simp: same_def spaces_ok_def heap_ok_def)
    from same have "map_option vid (vss s' c) = map_option vid (vss s c)"
      "map_option (\<lambda>ch. (cid ch, cfilp ch)) (chs s' c) = map_option (\<lambda>ch. (cid ch, cfilp ch)) (chs s c)"
      unfolding same_def by blast+
    with c show "chs s' c = None \<and> vss s' c = None" by simp
  qed
  ultimately show "spaces_ok J s'" using s J [of s s'] by (simp add: spaces_ok_def vspace_numbers.ok_def)
qed

context about_chans
begin

lemma vs_rest_chans: "vs_rest s s' \<Longrightarrow> same_chans s s' \<and> fresh s' = fresh s \<and> chs s' = chs s"
proof -
  assume "vs_rest s s'"
  then obtain h t f where "s' = s\<lparr>vss := h, vspaces := t, fake_vspaces := f\<rparr>" unfolding vs_rest_def by blast
  then show ?thesis by (simp add: same_chans_def)
qed

lemma vspace_bind:
  assumes "spaces_ok J s" "pscnv_vspace_bind v f s = Some (r, s')"
  shows "spaces_ok J s'" "\<exists>e. r = Inl e \<Longrightarrow> s' = s"
proof -
  from assms(1) have ok: "vspace_numbers.ok s" by (simp add: spaces_ok_def)
  note b = vspace_numbers.bind_ok [OF ok assms(2)]
  show "\<exists>e. r = Inl e \<Longrightarrow> s' = s" by (rule b(2))
  show "spaces_ok J s'"
  proof (cases "s' = s")
    case False
    with b(3) have rest: "vs_rest s s'" by simp
    from vspace_numbers.bind_checks [OF assms(2)] have "vs_num s v \<noteq> None" by simp
    with b(4,5) have "vss s' c = None \<longleftrightarrow> vss s c = None" for c
      unfolding num_None [symmetric] by (cases "c = v") auto
    with vs_rest_chans [OF rest] assms(1) b(1) J show ?thesis by (auto simp: spaces_ok_def heap_ok_def)
  qed (use assms(1) in simp)
qed

lemma vspace_unbind:
  assumes "spaces_ok J s" "pscnv_vspace_unbind v s = Some s'"
  shows "spaces_ok J s'" "vs_num s' v = Some 0"
proof -
  from assms(1) have ok: "vspace_numbers.ok s" by (simp add: spaces_ok_def)
  note u = vspace_numbers.unbind_ok [OF ok assms(2)]
  from u(2) show "vs_num s' v = Some 0" by simp
  from vspace_numbers.unbind_checks [OF assms(2)] have "vs_num s v \<noteq> None" by auto
  then have "vss s' c = None \<longleftrightarrow> vss s c = None" for c
    unfolding num_None [symmetric] u(2) by simp
  with vs_rest_chans [OF u(3)] assms(1) u(1) J show "spaces_ok J s'" by (auto simp: spaces_ok_def heap_ok_def)
qed

lemma vspace_added:
  assumes "spaces_ok J s" "v = fresh s" "vid vs = 0"
  shows "spaces_ok J (s\<lparr>vss := (vss s)(v \<mapsto> vs), fresh := Suc v\<rparr>)" (is "spaces_ok J ?s")
proof -
  have "vs_num s v = None" "vs_num ?s = (vs_num s)(v \<mapsto> 0)"
    using assms by (auto simp: spaces_ok_def heap_ok_def vs_num_def fun_eq_iff)
  with assms numbers_new show ?thesis
    by (auto simp: spaces_ok_def vspace_numbers.ok_def heap_ok_def same_chans_def elim!: J)
qed

lemma vspace_deleted:
  assumes "spaces_ok J s" "vs_num s v = Some 0"
  shows "spaces_ok J (s\<lparr>vss := (vss s)(v := None)\<rparr>)" (is "spaces_ok J ?s")
proof -
  have "vs_num ?s = (vs_num s)(v := None)" by (simp add: vs_num_def fun_eq_iff)
  with assms numbers_delete show ?thesis
    by (auto simp: spaces_ok_def vspace_numbers.ok_def heap_ok_def same_chans_def elim!: J)
qed

lemma vspace_new_keeps:
  assumes "sound_engine E" "spaces_ok J s"
  shows "keeps (on_state (spaces_ok J)) (pscnv_vspace_new d E sz flags fake s)"
proof -
  have bind: "keeps (\<lambda>(r, s'). spaces_ok J s' \<and> (\<forall>e. r = Inl e \<longrightarrow> vs_num s' v = Some 0)) (pscnv_vspace_bind v fake s)"
    if "spaces_ok J s" "vs_num s v = Some 0" for v s
    unfolding keeps_def
  proof (intro allI impI)
    fix r assume "pscnv_vspace_bind v fake s = Some r"
    then have r: "pscnv_vspace_bind v fake s = Some (fst r, snd r)" by simp
    from vspace_bind [OF that(1) r] that(2) show "case r of (r, s') \<Rightarrow> spaces_ok J s' \<and> (\<forall>e. r = Inl e \<longrightarrow> vs_num s' v = Some 0)"
      by (cases r) auto
  qed
  have unbind: "keeps (\<lambda>s. spaces_ok J s \<and> vs_num s v = Some 0) (pscnv_vspace_unbind v s)" if "spaces_ok J s" for v s
    using vspace_unbind [OF that] by (auto simp: keeps_def)
  have new: "vs_num (s\<lparr>vss := (vss s)(fresh s \<mapsto> new_vspace sz flags), fresh := Suc (fresh s)\<rparr>) (fresh s) = Some 0" for s
    by (simp add: vs_num_def new_vspace_def)
  show ?thesis
    unfolding pscnv_vspace_new_def Let_def
    by (rule bind2 [OF request_keeps [OF assms(2)]], rule keeps_pair_state, intro keeps_if keeps_Some, simp,
        rule keeps_through [OF bind], rule vspace_added, assumption, rule refl, simp add: new_vspace_def, rule new,
        intro keeps_pair keeps_sum keeps_Some, simp add: vspace_deleted,
        rule bind2 [OF engine_keeps(1) [OF assms(1)]], simp, intro keeps_sum,
        rule keeps_through [OF unbind], assumption, intro keeps_Some, simp add: vspace_deleted, auto intro: keeps_Some)
qed

lemma vspace_unref_keeps:
  assumes E: "sound_engine E"
  shows "spaces_ok J s \<Longrightarrow> keeps (spaces_ok J) (pscnv_vspace_unref d E v s)"
proof -
  have unbind: "keeps (\<lambda>s. spaces_ok J s \<and> vs_num s v = Some 0) (pscnv_vspace_unbind v s)" if "spaces_ok J s" for s
    using vspace_unbind [OF that] by (auto simp: keeps_def)
  have cb: "spaces_ok J s \<Longrightarrow> keeps (on_state (spaces_ok J)) (pscnv_vspace_free_unmap d E v m i s)" for m i s
    unfolding pscnv_vspace_free_unmap_def by (intro steps vs_keeps E) simp_all
  have cb': "spaces_ok J s \<Longrightarrow> keeps (on_state (spaces_ok J)) (mm_free_callback m i s)" for m i s
    by (auto simp: keeps_def mm_free_callback_def)
  have "spaces_ok J s \<Longrightarrow> keeps (spaces_ok J) (pscnv_vspace_ref_free d E v s)" for s
    unfolding pscnv_vspace_ref_free_def
    by (rule keeps_bind, rule keeps_bind, rule bind2, intro keeps_if takedown_keeps cb cb', assumption, assumption, assumption,
        assumption, rule bind1 [OF upd_vs_keeps], assumption, simp, rule bind1 [OF engine_keeps(2) [OF E]], assumption,
        rule keeps_through [OF unbind], assumption, intro keeps_Some, simp add: vspace_deleted)
  then show "spaces_ok J s \<Longrightarrow> keeps (spaces_ok J) (pscnv_vspace_unref d E v s)"
    unfolding pscnv_vspace_unref_def by (intro steps hw_keeps) simp_all
qed

lemma vspace_ref_keeps: "spaces_ok J s \<Longrightarrow> keeps (spaces_ok J) (pscnv_vspace_ref v s)"
  unfolding pscnv_vspace_ref_def by (intro upd_vs_keeps) simp_all

lemmas space_keeps = vspace_new_keeps vspace_ref_keeps vspace_unref_keeps

end

end
