(* ===== verification/ClientsChans.thy ===== *)
theory ClientsChans
  imports Clients
begin

section \<open>A client's channels are its own\<close>

text \<open>
  What a request of the client \<open>f\<close> does to the channels that were there when it began, in the state
  \<open>s0\<close>: one that belongs to another client keeps its number and its owner, and none changes hands. It
  is an instance of \<^const>\<open>about_chans\<close>, so that address spaces, memory and page tables need no
  thought here.
\<close>

definition owner :: "kern \<Rightarrow> nat \<Rightarrow> int option" where
  "owner s c = Option.bind (chs s c) cfilp"

definition entry :: "kern \<Rightarrow> nat \<Rightarrow> (int \<times> int option) option" where
  "entry s c = map_option (\<lambda>ch. (cid ch, cfilp ch)) (chs s c)"

lemma owner_entry: "owner s c = Option.bind (entry s c) snd" "ch_num s c = map_option fst (entry s c)"
  by (cases "chs s c"; simp add: owner_def entry_def ch_num_def)+

definition mine :: "int \<Rightarrow> kern \<Rightarrow> kern \<Rightarrow> bool" where
  "mine f s0 s \<longleftrightarrow> chan_numbers.ok s \<and> fresh s0 \<le> fresh s \<and>
     (\<forall>c < fresh s0. (owner s c = None \<or> owner s c = owner s0 c) \<and>
        (\<forall>g. owner s0 c = Some g \<and> g \<noteq> f \<longrightarrow> entry s c = entry s0 c))"

text \<open>The channels that \<open>f\<close> may change.\<close>

definition may :: "int \<Rightarrow> kern \<Rightarrow> nat \<Rightarrow> bool" where
  "may f s0 c \<longleftrightarrow> (c < fresh s0 \<longrightarrow> (\<forall>g. owner s0 c = Some g \<longrightarrow> g = f))"

lemma mine_same:
  assumes "mine f s0 s" "same_chans s s'"
  shows "mine f s0 s'" "entry s' = entry s"
proof -
  show e: "entry s' = entry s" using assms(2) by (simp add: same_chans_def entry_def fun_eq_iff)
  then have "owner s' = owner s" "ch_num s' = ch_num s" by (simp_all add: owner_entry fun_eq_iff)
  with assms e show "mine f s0 s'" by (auto simp: mine_def same_chans_def chan_numbers.ok_def)
qed

interpretation client: about_chans "mine f s0" for f s0
  by unfold_locales (rule mine_same)

text \<open>While a channel has no number, before it gets one and when it goes.\<close>

interpretation nameless: about_chans "\<lambda>s. mine f s0 s \<and> ch_num s c = Some 0" for f s0 c
  by unfold_locales (auto simp: owner_entry intro: mine_same dest: mine_same(2))

abbreviation fine :: "int \<Rightarrow> kern \<Rightarrow> kern \<Rightarrow> bool" where
  "fine f s0 \<equiv> spaces_ok (mine f s0)"

abbreviation fine_nameless :: "int \<Rightarrow> kern \<Rightarrow> nat \<Rightarrow> kern \<Rightarrow> bool" where
  "fine_nameless f s0 c \<equiv> spaces_ok (\<lambda>s. mine f s0 s \<and> ch_num s c = Some 0)"

lemma fine_nameless: "fine_nameless f s0 c s \<longleftrightarrow> fine f s0 s \<and> ch_num s c = Some 0"
  by (auto simp: spaces_ok_def)

text \<open>A change to one channel that \<open>f\<close> may change.\<close>

lemma fine_change:
  assumes "fine f s0 s" "may f s0 c" "chan_numbers.ok s'" "heap_ok s'" "vss s' = vss s"
    and "vspaces s' = vspaces s" "fake_vspaces s' = fake_vspaces s" "fresh s \<le> fresh s'"
    and "\<And>c'. c' \<noteq> c \<Longrightarrow> entry s' c' = entry s c'"
    and "c < fresh s0 \<Longrightarrow> owner s' c = None \<or> owner s' c = owner s c"
  shows "fine f s0 s'"
proof -
  have "(owner s' c' = None \<or> owner s' c' = owner s0 c') \<and> (\<forall>g. owner s0 c' = Some g \<and> g \<noteq> f \<longrightarrow> entry s' c' = entry s0 c')"
    if "c' < fresh s0" for c'
  proof (cases "c' = c")
    case True
    with that assms(1,2,10) show ?thesis by (auto simp: may_def spaces_ok_def mine_def)
  next
    case False
    with assms(9) have "entry s' c' = entry s c'" by simp
    with that assms(1) show ?thesis by (auto simp: spaces_ok_def mine_def owner_entry)
  qed
  moreover have "vs_num s' = vs_num s" using assms(5) by (simp add: vs_num_def fun_eq_iff)
  ultimately show ?thesis using assms(1,3-8) by (simp add: spaces_ok_def mine_def vspace_numbers.ok_def)
qed

lemma ch_restD:
  assumes "ch_rest s s'"
  shows "vss s' = vss s" "vspaces s' = vspaces s" "fake_vspaces s' = fake_vspaces s" "fresh s' = fresh s"
    "owner s' = owner s"
proof -
  from assms obtain h t u where s': "s' = s\<lparr>chs := h, chans := t, fake_chans := u\<rparr>" unfolding ch_rest_def by blast
  show "vss s' = vss s" "vspaces s' = vspaces s" "fake_vspaces s' = fake_vspaces s" "fresh s' = fresh s"
    by (simp_all add: s')
  have "owner s' c = owner s c" for c
  proof -
    have "map_option cfilp (chs s' c) = map_option cfilp (chs s c)" using assms by (simp add: ch_rest_def)
    then show ?thesis by (cases "chs s c"; cases "chs s' c") (simp_all add: owner_def)
  qed
  then show "owner s' = owner s" by (simp add: fun_eq_iff)
qed

lemma entry_other: "ch_num s' c = ch_num s c \<Longrightarrow> owner s' c = owner s c \<Longrightarrow> entry s' c = entry s c"
  by (cases "chs s c"; cases "chs s' c") (simp_all add: owner_def entry_def ch_num_def)

lemma chan_bind_fine:
  assumes "fine f s0 s" "may f s0 c" "pscnv_chan_bind c k s = Some (r, s')"
  shows "fine f s0 s'" "\<exists>e. r = Inl e \<Longrightarrow> s' = s"
proof -
  from assms(1) have ok: "chan_numbers.ok s" by (simp add: spaces_ok_def mine_def)
  note b = chan_numbers.bind_ok [OF ok assms(3)]
  show "\<exists>e. r = Inl e \<Longrightarrow> s' = s" by (rule b(2))
  show "fine f s0 s'"
  proof (cases "s' = s")
    case False
    with b(3) have rest: "ch_rest s s'" by simp
    from chan_numbers.bind_checks [OF assms(3)] have "ch_num s c \<noteq> None" by simp
    with b(4,5) have "chs s' c' = None \<longleftrightarrow> chs s c' = None" for c'
      unfolding num_None [symmetric] by (cases "c' = c") auto
    with assms(1) ch_restD [OF rest] have "heap_ok s'" by (simp add: spaces_ok_def heap_ok_def)
    moreover have "c' \<noteq> c \<Longrightarrow> entry s' c' = entry s c'" for c'
      by (rule entry_other) (simp_all add: b(4) ch_restD [OF rest])
    ultimately show ?thesis
      using assms(1,2) b(1) ch_restD [OF rest] by - (rule fine_change [of f s0 s c s'], simp_all)
  qed (use assms(1) in simp)
qed

lemma chan_unbind_fine:
  assumes "fine f s0 s" "may f s0 c" "pscnv_chan_unbind c s = Some s'"
  shows "fine_nameless f s0 c s'"
proof -
  from assms(1) have ok: "chan_numbers.ok s" by (simp add: spaces_ok_def mine_def)
  note u = chan_numbers.unbind_ok [OF ok assms(3)]
  from chan_numbers.unbind_checks [OF assms(3)] have "ch_num s c \<noteq> None" by auto
  then have "chs s' c' = None \<longleftrightarrow> chs s c' = None" for c'
    unfolding num_None [symmetric] u(2) by simp
  with assms(1) ch_restD [OF u(3)] have "heap_ok s'" by (simp add: spaces_ok_def heap_ok_def)
  moreover have "c' \<noteq> c \<Longrightarrow> entry s' c' = entry s c'" for c'
    by (rule entry_other) (simp_all add: u(2) ch_restD [OF u(3)])
  ultimately have "fine f s0 s'"
    using assms(1,2) u(1) ch_restD [OF u(3)] by - (rule fine_change [of f s0 s c s'], simp_all)
  with u(2) show ?thesis by (simp add: fine_nameless)
qed

lemma chan_added:
  assumes "fine f s0 s" "c = fresh s" "cid ch = 0"
  shows "fine_nameless f s0 c (s\<lparr>chs := (chs s)(c \<mapsto> ch), fresh := Suc c\<rparr>)" (is "fine_nameless f s0 c ?s")
proof -
  from assms have old: "ch_num s c = None" "fresh s0 \<le> c" by (auto simp: spaces_ok_def heap_ok_def ch_num_def mine_def)
  have n: "ch_num ?s = (ch_num s)(c \<mapsto> 0)" using assms(3) by (simp add: ch_num_def fun_eq_iff)
  with assms old numbers_new have "chan_numbers.ok ?s" by (simp add: spaces_ok_def mine_def chan_numbers.ok_def)
  with assms old have "fine f s0 ?s"
    by - (rule fine_change [of f s0 s c], (auto simp: spaces_ok_def heap_ok_def entry_def may_def)+)
  with n show ?thesis by (simp add: fine_nameless)
qed

lemma chan_deleted:
  assumes "fine_nameless f s0 c s" "may f s0 c"
  shows "fine f s0 (s\<lparr>chs := (chs s)(c := None)\<rparr>)" (is "fine f s0 ?s")
proof -
  have n: "ch_num ?s = (ch_num s)(c := None)" by (simp add: ch_num_def fun_eq_iff)
  with assms numbers_delete have "chan_numbers.ok ?s" by (simp add: fine_nameless spaces_ok_def mine_def chan_numbers.ok_def)
  with assms show ?thesis
    by - (rule fine_change [of f s0 s c], (auto simp: fine_nameless spaces_ok_def heap_ok_def entry_def owner_def)+)
qed

text \<open>A new channel is given an owner; any that \<open>f\<close> may change can lose it.\<close>

lemma chan_owner:
  assumes "fine f s0 s" "may f s0 c" "c < fresh s0 \<Longrightarrow> w = None"
  shows "keeps (fine f s0) (upd_ch c (\<lambda>ch. ch\<lparr>cfilp := w\<rparr>) s)"
proof (cases "chs s c")
  case (Some ch)
  let ?s = "s\<lparr>chs := (chs s)(c \<mapsto> ch\<lparr>cfilp := w\<rparr>)\<rparr>"
  have "ch_num ?s = ch_num s" using Some by (simp add: ch_num_def fun_eq_iff)
  with assms Some have "fine f s0 ?s"
    by - (rule fine_change [of f s0 s c], (auto simp: spaces_ok_def mine_def chan_numbers.ok_def heap_ok_def entry_def owner_def)+)
  with Some show ?thesis by (simp add: upd_ch_def keeps_Some)
qed (simp add: upd_ch_def keeps_None)

end
