(* ===== verification/Requests.thy ===== *)
theory Requests
  imports ClientsChans
begin

section \<open>Requests of clients\<close>

text \<open>
  The life of a channel (\<open>pscnv_chan.c\<close>) and every request (\<open>pscnv_ioctl.c\<close>, \<open>pscnv_mmap\<close>,
  \<open>nouveau_preclose\<close>) keep what \<open>ClientsChans\<close> says of numbers and owners.
\<close>

subsection \<open>Life of a channel\<close>

lemma mayI: "fine f s0 s \<Longrightarrow> owner s c = Some f \<Longrightarrow> may f s0 c" "fine f s0 s \<Longrightarrow> fresh s \<le> c \<Longrightarrow> may f s0 c"
  by (auto simp: may_def spaces_ok_def mine_def)

lemma chan_unbind_keeps: "fine f s0 s \<Longrightarrow> may f s0 c \<Longrightarrow> keeps (fine_nameless f s0 c) (pscnv_chan_unbind c s)"
  by (auto simp: keeps_def intro: chan_unbind_fine)

lemma chan_bind_keeps:
  "fine_nameless f s0 c s \<Longrightarrow> may f s0 c \<Longrightarrow>
     keeps (\<lambda>(r, s'). fine f s0 s' \<and> (\<forall>e. r = Inl e \<longrightarrow> fine_nameless f s0 c s')) (pscnv_chan_bind c k s)"
  unfolding keeps_def
proof (intro allI impI)
  fix r assume s: "fine_nameless f s0 c s" "may f s0 c" "pscnv_chan_bind c k s = Some r"
  then have "fine f s0 s" "pscnv_chan_bind c k s = Some (fst r, snd r)" by (simp_all add: fine_nameless)
  with chan_bind_fine [OF this(1) s(2) this(2)] s(1)
  show "case r of (r, s') \<Rightarrow> fine f s0 s' \<and> (\<forall>e. r = Inl e \<longrightarrow> fine_nameless f s0 c s')" by (cases r) auto
qed

lemma vm_keeps:
  "client.sound_engine f s0 (vm_of d n)" "nameless.sound_engine f s0 c (vm_of d n)"
  by (rule client.vm_of_sound, rule nameless.vm_of_sound)

lemma chan_new_keeps:
  assumes "fine f s0 s"
  shows "keeps (\<lambda>(r, s'). fine f s0 s' \<and> (\<forall>c. r = Some c \<longrightarrow> fresh s0 \<le> c)) (pscnv_chan_new d (vm_of d n) v k s)"
proof -
  let ?P = "\<lambda>(r :: nat option, s'). fine f s0 s' \<and> (\<forall>c. r = Some c \<longrightarrow> fresh s0 \<le> c)"
  have bound: "keeps ?P (pscnv_chan_bind c k s \<bind> g)"
    if "fine_nameless f s0 c s" "may f s0 c"
      "\<And>e s. fine_nameless f s0 c s \<Longrightarrow> keeps ?P (g (Inl e, s))" "\<And>s. fine f s0 s \<Longrightarrow> keeps ?P (g (Inr (), s))" for c s g
  proof (rule keeps_through [OF chan_bind_keeps [OF that(1,2)]])
    fix x :: "unit res \<times> kern" assume x: "case x of (r, s') \<Rightarrow> fine f s0 s' \<and> (\<forall>e. r = Inl e \<longrightarrow> fine_nameless f s0 c s')"
    obtain r s' where "x = (r, s')" by (cases x)
    with x that(3,4) show "keeps ?P (g x)" by (cases r) auto
  qed
  show ?thesis
    unfolding pscnv_chan_new_def Let_def
  proof (rule client.bind2 [OF client.request_keeps [OF assms]], rule keeps_pair_state, rule keeps_if)
    fix s :: kern and a b :: u32
    assume s: "fine f s0 s"
    then show "keeps ?P (Some (None, s))" by (simp add: keeps_Some)
    let ?c = "fresh s"
    from s have new: "fine_nameless f s0 ?c (s\<lparr>chs := (chs s)(?c \<mapsto> new_chan v), fresh := Suc ?c\<rparr>)"
      by (rule chan_added) (simp_all add: new_chan_def)
    from s have c: "may f s0 ?c" "fresh s0 \<le> ?c" by (auto intro: mayI simp: spaces_ok_def mine_def)
    show "keeps ?P (pscnv_vspace_ref v (s\<lparr>chs := (chs s)(?c \<mapsto> new_chan v), fresh := Suc ?c\<rparr>) \<bind>
      (\<lambda>s. pscnv_chan_bind ?c k s \<bind> (\<lambda>(ret, s). case ret of
         Inl _ \<Rightarrow> pscnv_vspace_unref d (vm_of d n) v s \<bind> (\<lambda>s. Some (None, s\<lparr>chs := (chs s)(?c := None)\<rparr>))
       | Inr _ \<Rightarrow> do_chan_new d (vm_of d n) ?c s \<bind> (\<lambda>(ret, s). case ret of
           Inl _ \<Rightarrow> pscnv_vspace_unref d (vm_of d n) v s \<bind> (\<lambda>s. pscnv_chan_unbind ?c s \<bind>
             (\<lambda>s. Some (None, s\<lparr>chs := (chs s)(?c := None)\<rparr>)))
         | Inr _ \<Rightarrow> Some (Some ?c, s)))))"
      by (rule nameless.bind1 [OF nameless.vspace_ref_keeps [OF new]], erule bound [OF _ c(1)];
        simp only: prod.case sum.case)
        (rule nameless.bind1 [OF nameless.vspace_unref_keeps [OF vm_keeps(2)]], assumption, rule keeps_Some,
          simp add: chan_deleted [OF _ c(1)],
         rule client.bind2 [OF client.do_chan_keeps(1) [OF vm_keeps(1)]], assumption, rule keeps_sum,
         rule client.bind1 [OF client.vspace_unref_keeps [OF vm_keeps(1)]], assumption,
         rule keeps_through [OF chan_unbind_keeps [OF _ c(1)]], assumption, rule keeps_Some,
         simp add: chan_deleted [OF _ c(1)], rule keeps_Some, simp add: c(2))
  qed
qed

lemma chan_unref_keeps:
  assumes "may f s0 c"
  shows "fine f s0 s \<Longrightarrow> keeps (fine f s0) (pscnv_chan_unref d (vm_of d n) c s)"
proof -
  have leave: "fine f s0 s \<Longrightarrow> keeps (fine f s0) (engine_leave d (vm_of d n) c i s)" for i s
    unfolding engine_leave_def by (intro client.steps client.graph_chan_keeps vm_keeps)
  have kill: "fine f s0 s \<Longrightarrow> keeps (fine f s0) (if 0 \<le> cid ch then fifo_chan_kill d c s \<bind>
      for_each (engine_leave d (vm_of d n) c) [0..<16] else Some s)" for ch s
    by (intro client.steps client.fifo_chan_kill_keeps client.for_each_keeps leave)
  have "fine f s0 s \<Longrightarrow> keeps (fine f s0) (pscnv_chan_ref_free d (vm_of d n) c s)" for s
    unfolding pscnv_chan_ref_free_def
    by (rule keeps_bind, rule client.bind1 [OF kill], assumption,
        rule client.bind1 [OF client.do_chan_keeps(2) [OF vm_keeps(1)]], assumption,
        rule keeps_through [OF chan_unbind_keeps [OF _ assms]], assumption,
        rule nameless.bind1 [OF nameless.vspace_unref_keeps [OF vm_keeps(2)]], assumption, rule keeps_Some,
        rule chan_deleted [OF _ assms])
  then show "fine f s0 s \<Longrightarrow> keeps (fine f s0) (pscnv_chan_unref d (vm_of d n) c s)"
    unfolding pscnv_chan_unref_def by (intro client.steps client.hw_keeps) simp_all
qed

lemma chan_ref_keeps: "fine f s0 s \<Longrightarrow> keeps (fine f s0) (pscnv_chan_ref c s)"
  unfolding pscnv_chan_ref_def by (intro client.upd_ch_keeps) simp_all

subsection \<open>By number\<close>

lemma get_vspace_keeps: "fine f s0 s \<Longrightarrow> keeps (on_state (fine f s0)) (pscnv_get_vspace g n s)"
  unfolding pscnv_get_vspace_def by (intro client.steps client.vspace_ref_keeps) simp_all

lemma with_vspace_keeps:
  assumes "fine f s0 s" "\<And>v s. fine f s0 s \<Longrightarrow> keeps (on_state (fine f s0)) (body v s)"
  shows "keeps (on_state (fine f s0)) (with_vspace g n body s)"
  unfolding with_vspace_def
  by (rule client.bind2 [OF get_vspace_keeps [OF assms(1)]], intro keeps_option keeps_Some) (simp_all add: assms(2))

lemma get_chan_keeps:
  assumes "fine f s0 s"
  shows "keeps (\<lambda>(r, s'). fine f s0 s' \<and> (\<forall>c. r = Some c \<longrightarrow> may f s0 c)) (pscnv_get_chan f n s)"
  using assms unfolding pscnv_get_chan_def
  by (intro keeps_if keeps_option keeps_bind keeps_Some)
    (auto dest: keepsD [OF chan_ref_keeps [OF assms]] intro: mayI(1) [OF assms] simp: owner_def)

lemma with_chan_keeps:
  assumes "fine f s0 s" "\<And>c s. fine f s0 s \<Longrightarrow> may f s0 c \<Longrightarrow> keeps (on_state (fine f s0)) (body c s)"
  shows "keeps (on_state (fine f s0)) (with_chan f n body s)"
  unfolding with_chan_def
  by (rule keeps_through [OF get_chan_keeps [OF assms(1)]]) (auto simp: assms(2) intro: keeps_Some split: prod.splits option.splits)

lemma initialised_keeps:
  "fine f s0 s \<Longrightarrow> keeps (on_state (fine f s0)) m \<Longrightarrow> keeps (on_state (fine f s0)) (initialised s m)"
  by (simp add: initialised_def keeps_def)

subsection \<open>Each request\<close>

lemma gem_lookup_keeps: "fine f s0 s \<Longrightarrow> keeps (on_state (fine f s0)) (drm_gem_object_lookup d g h s)"
  unfolding drm_gem_object_lookup_def by (intro client.steps client.hw_keeps) simp_all

lemma vspace_release_keeps: "fine f s0 s \<Longrightarrow> keeps (fine f s0) (vspace_release d (vm_of d n) v s)"
  unfolding vspace_release_def by (intro client.steps client.hw_keeps client.vspace_unref_keeps vm_keeps) simp_all

lemma chan_release_keeps: "fine f s0 s \<Longrightarrow> may f s0 c \<Longrightarrow> keeps (fine f s0) (chan_release d (vm_of d n) c s)"
  unfolding chan_release_def by (intro client.steps chan_owner chan_unref_keeps) simp_all

lemmas request_steps = client.steps client.hw_keeps client.gem_new_keeps client.gem_keeps client.mem_free_keeps
  client.vspace_new_keeps client.vspace_unref_keeps client.vspace_map_keeps client.vspace_unmap_keeps
  gem_lookup_keeps vspace_release_keeps chan_release_keeps chan_unref_keeps initialised_keeps with_vspace_keeps with_chan_keeps vm_keeps

lemma memory_requests_keep:
  assumes "fine f s0 s"
  shows "keeps (on_state (fine f s0)) (pscnv_ioctl_getparam d param s)"
    "keeps (on_state (fine f s0)) (pscnv_ioctl_gem_new d (vm_of d n) f info s)"
    "keeps (on_state (fine f s0)) (pscnv_ioctl_gem_info d (vm_of d n) f handle s)"
  unfolding pscnv_ioctl_getparam_def pscnv_ioctl_gem_new_def pscnv_ioctl_gem_info_def
  by (rule initialised_keeps [OF assms], (intro request_steps; simp add: assms))+

lemma vspace_requests_keep:
  assumes "fine f s0 s"
  shows "keeps (on_state (fine f s0)) (pscnv_ioctl_vspace_new d (vm_of d n) f s)"
    "keeps (on_state (fine f s0)) (pscnv_ioctl_vspace_free d (vm_of d n) f v s)"
    "keeps (on_state (fine f s0)) (pscnv_ioctl_vspace_map d (vm_of d n) f v handle start end' bk s)"
    "keeps (on_state (fine f s0)) (pscnv_ioctl_vspace_unmap d (vm_of d n) f v offset s)"
  unfolding pscnv_ioctl_vspace_new_def pscnv_ioctl_vspace_free_def pscnv_ioctl_vspace_map_def pscnv_ioctl_vspace_unmap_def
  by (rule initialised_keeps [OF assms], (intro request_steps; simp add: assms))+

lemma chan_requests_keep:
  assumes "fine f s0 s"
  shows "keeps (on_state (fine f s0)) (pscnv_ioctl_chan_free d (vm_of d n) f c s)"
    "keeps (on_state (fine f s0)) (pscnv_ioctl_obj_vdma_new d (vm_of d n) f c handle oclass start sz s)"
    "keeps (on_state (fine f s0)) (pscnv_ioctl_obj_eng_new d (vm_of d n) f c handle oclass s)"
    "keeps (on_state (fine f s0)) (pscnv_ioctl_fifo_init d (vm_of d n) f c pb flags msk start s)"
    "keeps (on_state (fine f s0)) (pscnv_ioctl_fifo_init_ib d (vm_of d n) f c pb flags msk start ord' s)"
  unfolding pscnv_ioctl_chan_free_def pscnv_ioctl_obj_vdma_new_def pscnv_ioctl_obj_eng_new_def pscnv_ioctl_fifo_init_def
    pscnv_ioctl_fifo_init_ib_def nv50_fifo_chan_init_ib_def
  by (rule initialised_keeps [OF assms], (intro request_steps client.dmaobj_new_keeps client.ramht_insert_keeps
        client.graph_chan_keeps client.fifo_init_keeps; simp add: assms))+

lemma chan_ioctl_new_keeps:
  assumes "fine f s0 s"
  shows "keeps (on_state (fine f s0)) (pscnv_ioctl_chan_new d (vm_of d n) f v s)"
proof -
  have unref: "fine f s0 s \<Longrightarrow> keeps (fine f s0) (pscnv_vspace_unref d (vm_of d n) v s)" for v s
    by (intro client.vspace_unref_keeps vm_keeps)
  have give: "keeps (on_state (fine f s0)) (chs s c \<bind> (\<lambda>ch. upd_ch c (\<lambda>ch. ch\<lparr>cfilp := Some f\<rparr>) s \<bind> (\<lambda>s. Some (g ch, s))))"
    if "fresh s0 \<le> c" "fine f s0 s" for c s g
    by (rule keeps_bind, rule client.bind1 [OF chan_owner [OF that(2)]]) (use that(1) in \<open>simp_all add: may_def keeps_Some\<close>)
  have "keeps (on_state (fine f s0)) (pscnv_chan_new d (vm_of d n) v 0 s \<bind> (\<lambda>(c, s). pscnv_vspace_unref d (vm_of d n) v s \<bind>
      (\<lambda>s. case c of None \<Rightarrow> Some (Inl ENOMEM, s)
        | Some c \<Rightarrow> chs s c \<bind> (\<lambda>ch. upd_ch c (\<lambda>ch. ch\<lparr>cfilp := Some f\<rparr>) s \<bind> (\<lambda>s. Some (g ch, s))))))"
    if "fine f s0 s" for v s and g :: "chan \<Rightarrow> (int \<times> u64) res"
    by (rule keeps_through [OF chan_new_keeps [OF that]], unfold split_paired_all prod.case, elim conjE,
        rule client.bind1 [OF unref], assumption, intro keeps_option give keeps_Some) simp_all
  then show ?thesis
    unfolding pscnv_ioctl_chan_new_def by (intro initialised_keeps with_vspace_keeps assms)
qed

lemma mmap_keeps:
  assumes "fine f s0 s"
  shows "keeps (on_state (fine f s0)) (pscnv_mmap d (vm_of d n) f offset len s)"
proof -
  have pfn: "fine f s0 s \<Longrightarrow> keeps (on_state (fine f s0)) (remap_pfn_range d a len w s)" for a w s
    unfolding remap_pfn_range_def by (intro request_steps) simp_all
  have "keeps (on_state (fine f s0)) (pscnv_chan_mmap d f offset len s)"
    unfolding pscnv_chan_mmap_def Let_def by (intro request_steps pfn; simp add: assms)
  with assms show ?thesis
    unfolding pscnv_mmap_def by (intro request_steps client.engine_keeps pfn) simp_all
qed

text \<open>The control area that is mapped is that of a channel of the client.\<close>

lemma mmap_own:
  assumes "pscnv_mmap d E f offset len s = Some (Inr (ChanVma c), s')"
  shows "owner s c = Some f"
proof -
  have own: "owner s c = Some f" if "with_chan f n body s = Some (Inr (ChanVma c), s')"
    "\<And>c' s. body c' s = Some (Inr (ChanVma c), s') \<Longrightarrow> c' = c" for n body
  proof -
    from that(1) obtain c' ch s1 where "chs s c' = Some ch" "cfilp ch = Some f" "body c' s1 = Some (Inr (ChanVma c), s')"
      by (auto simp: with_chan_def pscnv_get_chan_def split: Option.bind_splits option.splits if_splits prod.splits)
    with that(2) [of c' s1] show ?thesis by (simp add: owner_def)
  qed
  have pfn: "remap_pfn_range d a len w s = Some (Inr w', s') \<Longrightarrow> w' = w" for a w w' s
    by (auto simp: remap_pfn_range_def split: Option.bind_splits if_splits)
  from assms have "pscnv_chan_mmap d f offset len s = Some (Inr (ChanVma c), s')"
    by (auto simp: pscnv_mmap_def dest!: pfn split: Option.bind_splits option.splits sum.splits if_splits prod.splits)
  then show ?thesis
    by (auto simp: pscnv_chan_mmap_def Let_def dest!: pfn intro!: own split: Option.bind_splits if_splits)
qed

lemma close_keeps:
  assumes "fine f s0 s"
  shows "keeps (fine f s0) (nouveau_preclose d (vm_of d n) f s)"
    "(\<And>c. w = ChanVma c \<Longrightarrow> may f s0 c) \<Longrightarrow> keeps (fine f s0) (vma_close d (vm_of d n) w s)"
    "keeps (fine f s0) (vma_open d w s)"
proof -
  have v: "fine f s0 s \<Longrightarrow> keeps (fine f s0) (pscnv_vspace_cleanup d (vm_of d n) f s)" for s
    unfolding pscnv_vspace_cleanup_def by (intro client.for_each_keeps request_steps get_vspace_keeps)
  have "keeps (fine f s0) (pscnv_get_chan f i s \<bind> (\<lambda>(c, s). case c of None \<Rightarrow> Some s | Some c \<Rightarrow> chan_release d (vm_of d n) c s))"
    if "fine f s0 s" for i s
    by (rule keeps_through [OF get_chan_keeps [OF that]])
      (auto intro: keeps_Some chan_release_keeps split: prod.splits option.splits)
  with assms have "keeps (fine f s0) (pscnv_chan_cleanup d (vm_of d n) f s)"
    unfolding pscnv_chan_cleanup_def by (intro client.for_each_keeps)
  then show "keeps (fine f s0) (nouveau_preclose d (vm_of d n) f s)"
    unfolding nouveau_preclose_def by (rule client.bind1) (rule v)
  show "(\<And>c. w = ChanVma c \<Longrightarrow> may f s0 c) \<Longrightarrow> keeps (fine f s0) (vma_close d (vm_of d n) w s)"
    using assms unfolding vma_close_def by (cases w) (auto intro: keeps_Some chan_unref_keeps client.gem_keeps vm_keeps)
  show "keeps (fine f s0) (vma_open d w s)"
    using assms unfolding vma_open_def by (cases w) (auto intro: keeps_Some chan_ref_keeps)
qed

end
