(* ===== verification/ClientProps.thy ===== *)
theory ClientProps
  imports Requests
begin

section \<open>Clients among each other\<close>

text \<open>
  What clients can do as a step relation on the driver and their mappings, the states they reach, and
  what holds in all of them.
\<close>

subsection \<open>What a client can do\<close>

text \<open>The table of requests, with what each is given.\<close>

datatype client_request =
    Getparam u64
  | GemNew gem_info
  | GemInfo u32
  | VspaceNew
  | VspaceFree int
  | VspaceMap int u32 u64 u64 bool
  | VspaceUnmap int u64
  | ChanNew int
  | ChanFree int
  | ObjVdmaNew int u32 u32 u64 u64
  | FifoInit int u32 u32 u32 u64
  | ObjEngNew int u32 u32
  | FifoInitIb int u32 u32 u32 u64 u32

fun nouveau_ioctls :: "card \<Rightarrow> vm_engine \<Rightarrow> int \<Rightarrow> client_request \<Rightarrow> kern \<Rightarrow> kern option" where
  "nouveau_ioctls d E f (Getparam param) s = map_option snd (pscnv_ioctl_getparam d param s)"
| "nouveau_ioctls d E f (GemNew info) s = map_option snd (pscnv_ioctl_gem_new d E f info s)"
| "nouveau_ioctls d E f (GemInfo handle) s = map_option snd (pscnv_ioctl_gem_info d E f handle s)"
| "nouveau_ioctls d E f VspaceNew s = map_option snd (pscnv_ioctl_vspace_new d E f s)"
| "nouveau_ioctls d E f (VspaceFree v) s = map_option snd (pscnv_ioctl_vspace_free d E f v s)"
| "nouveau_ioctls d E f (VspaceMap v handle start end' bk) s =
     map_option snd (pscnv_ioctl_vspace_map d E f v handle start end' bk s)"
| "nouveau_ioctls d E f (VspaceUnmap v offset) s = map_option snd (pscnv_ioctl_vspace_unmap d E f v offset s)"
| "nouveau_ioctls d E f (ChanNew v) s = map_option snd (pscnv_ioctl_chan_new d E f v s)"
| "nouveau_ioctls d E f (ChanFree c) s = map_option snd (pscnv_ioctl_chan_free d E f c s)"
| "nouveau_ioctls d E f (ObjVdmaNew c handle oclass start sz) s =
     map_option snd (pscnv_ioctl_obj_vdma_new d E f c handle oclass start sz s)"
| "nouveau_ioctls d E f (FifoInit c pb flags msk start) s =
     map_option snd (pscnv_ioctl_fifo_init d E f c pb flags msk start s)"
| "nouveau_ioctls d E f (ObjEngNew c handle oclass) s =
     map_option snd (pscnv_ioctl_obj_eng_new d E f c handle oclass s)"
| "nouveau_ioctls d E f (FifoInitIb c pb flags msk start order) s =
     map_option snd (pscnv_ioctl_fifo_init_ib d E f c pb flags msk start order s)"

text \<open>
  The driver with the mappings that clients have: which file each is of, and what stands behind it.
  A client makes a request, maps something, has a mapping copied or dropped, or closes its file.
\<close>

type_synonym session = "kern \<times> (int \<times> vma) list"

inductive client_step :: "card \<Rightarrow> nat \<Rightarrow> int \<Rightarrow> session \<Rightarrow> session \<Rightarrow> bool" for d n f where
  ask: "nouveau_ioctls d (vm_of d n) f q s = Some s' \<Longrightarrow> client_step d n f (s, maps) (s', maps)"
| mapped: "pscnv_mmap d (vm_of d n) f offset len s = Some (Inr w, s') \<Longrightarrow>
    client_step d n f (s, maps) (s', (f, w) # maps)"
| not_mapped: "pscnv_mmap d (vm_of d n) f offset len s = Some (Inl e, s') \<Longrightarrow> client_step d n f (s, maps) (s', maps)"
| copied: "(f, w) \<in> set maps \<Longrightarrow> vma_open d w s = Some s' \<Longrightarrow> client_step d n f (s, maps) (s', (f, w) # maps)"
| dropped: "(f, w) \<in> set maps \<Longrightarrow> vma_close d (vm_of d n) w s = Some s' \<Longrightarrow>
    client_step d n f (s, maps) (s', remove1 (f, w) maps)"
| closed: "nouveau_preclose d (vm_of d n) f s = Some s' \<Longrightarrow> client_step d n f (s, maps) (s', maps)"

text \<open>
  A step is one that returns in the model. Objects of the heap have addresses that are not used again, and
  using one that has been freed is a crash: so a step that touches freed memory is no step here, while
  the code, whose \<open>kzalloc\<close> uses memory again, goes on with whatever object is there by then. It happens:
  after \<open>FIFO_INIT_IB\<close> has dropped a reference it did not take (\<open>StartProps\<close>), the channel can be freed
  while its control area is still mapped, and the \<open>munmap\<close> that follows is such a step.
\<close>

lemma stale_mapping_crashes: "chs s c = None \<Longrightarrow> vma_close d E (ChanVma c) s = None"
  by (simp add: vma_close_def pscnv_chan_unref_def upd_ch_def)

inductive_cases client_stepE: "client_step d n f (s, maps) y"

text \<open>
  From the driver with its tables of numbers empty, once channels are set up: address spaces for the
  BARs, then what clients do, in any order.
\<close>

definition vm_init :: "card \<Rightarrow> vm_engine \<Rightarrow> kern \<Rightarrow> (unit res \<times> kern) option" where
  "vm_init d E s =
     (if card_type d = NV_50 then nv50_vm_init d E s
      else if card_type d = NV_C0 then nvc0_vm_init d E s
      else Some (Inl ENOSYS, s))"

definition chan_init :: "card \<Rightarrow> kern \<Rightarrow> (unit res \<times> kern) option" where
  "chan_init d s =
     (if card_type d = NV_50 then nv50_chan_init d s
      else if card_type d = NV_C0 then nvc0_chan_init d s
      else Some (Inl ENOSYS, s))"

definition empty_tables :: "kern \<Rightarrow> bool" where
  "empty_tables s \<longleftrightarrow> (\<forall>i. vspaces s i = None \<and> fake_vspaces s i = None \<and> chans s i = None \<and> fake_chans s i = None \<and>
     vss s i = None \<and> chs s i = None)"

inductive run :: "card \<Rightarrow> nat \<Rightarrow> session \<Rightarrow> bool" for d n where
  up: "empty_tables s \<Longrightarrow> chan_init d s = Some (Inr (), s') \<Longrightarrow> run d n (s', [])"
| bars: "run d n (s, maps) \<Longrightarrow> vm_init d (vm_of d n) s = Some (r, s') \<Longrightarrow> run d n (s', maps)"
| client: "run d n x \<Longrightarrow> client_step d n f x y \<Longrightarrow> run d n y"

subsection \<open>Order\<close>

text \<open>
  Numbers and objects agree, and the channel behind the mapping of a control area belongs to the same
  client, or to nobody: it is being given up, or has been freed already. What is recorded of such a mapping is the
  channel, not the page \<open>cid * 0x2000\<close>; once the channel has been freed its number, and with it the page,
  can go to another client.
\<close>

definition maps_own :: "kern \<Rightarrow> (int \<times> vma) list \<Rightarrow> bool" where
  "maps_own s maps \<longleftrightarrow> (\<forall>f c. (f, ChanVma c) \<in> set maps \<longrightarrow> c < fresh s \<and> (owner s c = None \<or> owner s c = Some f))"

definition orderly :: "session \<Rightarrow> bool" where
  "orderly x \<longleftrightarrow> (let (s, maps) = x in
     numbers_ok 1 127 (vspaces s) (fake_vspaces s) (vs_num s) \<and>
     0 < ch_min s \<and> ch_max s < 128 \<and> numbers_ok (ch_min s) (ch_max s) (chans s) (fake_chans s) (ch_num s) \<and>
     heap_ok s \<and> maps_own s maps)"

lemma orderly: "orderly (s, maps) \<longleftrightarrow> fine f s s \<and> maps_own s maps"
  by (auto simp: orderly_def spaces_ok_def mine_def vspace_numbers.ok_def chan_numbers.ok_def)

lemma fine_orderly:
  assumes "fine f s s'" "maps_own s maps" "set maps' \<subseteq> set maps \<union> {(f, w)}"
    "\<And>c. w = ChanVma c \<Longrightarrow> c < fresh s \<and> (owner s c = None \<or> owner s c = Some f)"
  shows "orderly (s', maps')"
proof -
  from assms(1) have "fine f s' s'" by (auto simp: spaces_ok_def mine_def)
  moreover have "maps_own s' maps'"
    unfolding maps_own_def
  proof (intro allI impI)
    fix g c assume "(g, ChanVma c) \<in> set maps'"
    with assms(2-4) have c: "c < fresh s" "owner s c = None \<or> owner s c = Some g" by (auto simp: maps_own_def)
    with assms(1) show "c < fresh s' \<and> (owner s' c = None \<or> owner s' c = Some g)"
      by (auto simp: spaces_ok_def mine_def)
  qed
  ultimately show ?thesis using orderly by blast
qed

lemma ioctls_keep: "fine f s0 s \<Longrightarrow> keeps (fine f s0) (nouveau_ioctls d (vm_of d n) f q s)"
proof -
  have snd: "keeps (on_state I) m \<Longrightarrow> keeps I (map_option snd m)" for I and m :: "('x \<times> kern) option"
    by (auto simp: keeps_def)
  show "fine f s0 s \<Longrightarrow> keeps (fine f s0) (nouveau_ioctls d (vm_of d n) f q s)"
    by (cases q) (simp_all only: nouveau_ioctls.simps,
      (intro snd memory_requests_keep vspace_requests_keep chan_requests_keep chan_ioctl_new_keeps; assumption)+)
qed

lemma client_step_fine:
  assumes "client_step d n f (s, maps) (s', maps')" "orderly (s, maps)"
  shows "fine f s s' \<and> orderly (s', maps')"
proof -
  from assms(2) have s: "fine f s s" and own: "maps_own s maps" using orderly by blast+
  show ?thesis
    using assms(1)
  proof cases
    case (mapped offset len w)
    with keepsD [OF mmap_keeps [OF s] mapped(2)] have s': "fine f s s'" by simp
    have "c < fresh s \<and> (owner s c = None \<or> owner s c = Some f)" if "w = ChanVma c" for c
    proof -
      from mmap_own mapped(2) that have "owner s c = Some f" by blast
      moreover from this s have "c < fresh s"
        by (cases "fresh s \<le> c") (auto simp: spaces_ok_def heap_ok_def owner_def)
      ultimately show ?thesis by simp
    qed
    with fine_orderly [OF s' own, of maps' w] mapped(1) s' show ?thesis by auto
  next
    case (dropped w)
    with own have "w = ChanVma c \<Longrightarrow> may f s c" for c unfolding maps_own_def may_def by fastforce
    with keepsD [OF close_keeps(2) [OF s] dropped(3)] have s': "fine f s s'" by simp
    with dropped set_remove1_subset [of "(f, w)" maps] fine_orderly [OF s' own, of _ DrmVma] show ?thesis by auto
  next
    case (copied w)
    with keepsD [OF close_keeps(3) [OF s]] have s': "fine f s s'" by simp
    have "w = ChanVma c \<Longrightarrow> c < fresh s \<and> (owner s c = None \<or> owner s c = Some f)" for c
      using own copied(2) by (auto simp: maps_own_def)
    with fine_orderly [OF s' own, of maps' w] copied(1) s' show ?thesis by auto
  next
    case (ask q)
    with keepsD [OF ioctls_keep [OF s]] have s': "fine f s s'" by simp
    with ask fine_orderly [OF s' own, of _ DrmVma] show ?thesis by auto
  next
    case (not_mapped offset len e)
    with keepsD [OF mmap_keeps [OF s] not_mapped(2)] have s': "fine f s s'" by simp
    with not_mapped fine_orderly [OF s' own, of _ DrmVma] show ?thesis by auto
  next
    case closed
    with keepsD [OF close_keeps(1) [OF s]] have s': "fine f s s'" by simp
    with closed fine_orderly [OF s' own, of _ DrmVma] show ?thesis by auto
  qed
qed

lemma vm_init_fine:
  assumes "fine f s0 s"
  shows "keeps (on_state (fine f s0)) (vm_init d (vm_of d n) s)"
proof -
  have new: "keeps P (pscnv_chan_new d (vm_of d n) v k s \<bind> g)"
    if "fine f s0 s" "\<And>s. fine f s0 s \<Longrightarrow> keeps P (g (None, s))" "\<And>c s. fine f s0 s \<Longrightarrow> may f s0 c \<Longrightarrow> keeps P (g (Some c, s))"
    for v k s g and P :: "'x \<Rightarrow> bool"
  proof (rule keeps_through [OF chan_new_keeps [OF that(1)]])
    fix x :: "nat option \<times> kern"
    assume "case x of (r, s') \<Rightarrow> fine f s0 s' \<and> (\<forall>c. r = Some c \<longrightarrow> fresh s0 \<le> c)"
    with that(2,3) show "keeps P (g x)" by (cases x; cases "fst x") (auto simp: may_def)
  qed
  have I: "fine f s0 s \<Longrightarrow> fine f s0 (s\<lparr>barvm := a\<rparr>)" "fine f s0 s \<Longrightarrow> fine f s0 (s\<lparr>barch := a\<rparr>)"
    "fine f s0 s \<Longrightarrow> fine f s0 (s\<lparr>bar1vm := a\<rparr>)" "fine f s0 s \<Longrightarrow> fine f s0 (s\<lparr>bar1ch := a\<rparr>)"
    "fine f s0 s \<Longrightarrow> fine f s0 (s\<lparr>bar3vm := a\<rparr>)" "fine f s0 s \<Longrightarrow> fine f s0 (s\<lparr>bar3ch := a\<rparr>)"
    "fine f s0 s \<Longrightarrow> fine f s0 (s\<lparr>vm_ramin_base := b\<rparr>)" for s a b
    by (erule client.steady, simp add: same_def)+
  note I = I client.fields_steady
  note st = client.bind1 [of f s0] client.bind2 [of f s0] client.bind3 [of f s0] keeps_bind keeps_if keeps_option
    keeps_sum keeps_pair keeps_pair_state keeps_Some keeps_None client.hw_keeps client.mem_free_keeps
    client.vspace_new_keeps client.vspace_unref_keeps chan_unref_keeps vm_keeps
  have "keeps (on_state (fine f s0)) (nv50_vm_init d (vm_of d n) s)"
    unfolding nv50_vm_init_def Let_def
    by (intro new st client.dmaobj_new_keeps client.nv50_map_bar_keeps; simp add: assms I)
  moreover have bar1: "keeps (on_state (fine f s0)) (nvc0_bar1_init d (vm_of d n) v3 c3 s)" if "fine f s0 s" "may f s0 c3" for v3 c3 s
    unfolding nvc0_bar1_init_def Let_def
    by (intro new st; simp add: that I)
  moreover have "keeps (on_state (fine f s0)) (nvc0_vm_init d (vm_of d n) s)"
    unfolding nvc0_vm_init_def Let_def
    by (intro new st client.write_regs_keeps client.nvc0_map_bar_keeps client.nvc0_pgt_keeps bar1; simp add: assms I)
  ultimately show ?thesis using assms by (simp add: vm_init_def keeps_Some)
qed

lemma numbers_empty: "numbers_ok lo hi (\<lambda>_. None) (\<lambda>_. None) (\<lambda>_. None)"
  by (simp add: numbers_ok_def)

lemma chan_init_orderly:
  assumes "empty_tables s" "chan_init d s = Some (Inr (), s')"
  shows "orderly (s', [])"
proof -
  from assms(2) obtain l where s': "s' = s\<lparr>log := l, ch_min := 1, ch_max := 126\<rparr>"
    by (auto simp: chan_init_def nv50_chan_init_def nvc0_chan_init_def request_def nv_rd32_def nv_wr32_def tell_def
        split: if_splits prod.splits)
  from assms(1) have "vspaces s = (\<lambda>_. None)" "fake_vspaces s = (\<lambda>_. None)" "chans s = (\<lambda>_. None)"
    "fake_chans s = (\<lambda>_. None)" "vss s = (\<lambda>_. None)" "chs s = (\<lambda>_. None)"
    by (simp_all add: empty_tables_def fun_eq_iff)
  moreover from this s' have "vs_num s' = (\<lambda>_. None)" "ch_num s' = (\<lambda>_. None)"
    by (simp_all add: vs_num_def ch_num_def fun_eq_iff)
  ultimately show ?thesis
    using s' by (simp add: orderly_def numbers_empty heap_ok_def maps_own_def)
qed

lemma vm_init_orderly:
  assumes "orderly (s, maps)" "vm_init d (vm_of d n) s = Some (r, s')"
  shows "orderly (s', maps)"
proof -
  from assms(1) have s: "fine 0 s s" "maps_own s maps" using orderly by blast+
  with keepsD [OF vm_init_fine [OF s(1)] assms(2)] fine_orderly [of 0 s s' maps maps DrmVma] show ?thesis
    by auto
qed

lemma run_orderly:
  assumes "run d n x"
  shows "orderly x"
  using assms
proof induction
  case (up s s')
  then show ?case by (rule chan_init_orderly)
next
  case (bars s maps r s')
  from bars.IH bars.hyps(2) show ?case by (rule vm_init_orderly)
next
  case (client x f y)
  then show ?case using client_step_fine [of d n f "fst x" "snd x" "fst y" "snd y"] by simp
qed

text \<open>
  C30: However the clients' requests, mappings and closings follow each other, as long as no step touches
  freed memory, the tables of numbers
  stay well formed: a number in use is one in range and that of the object it leads to, and every object
  with a number is in its table. While the channel behind a mapped control area exists, it
  belongs to the client that has the mapping or is being given up, and no other channel has its number (and
  so its page). Nothing is said of a mapping whose channel has been freed.
\<close>

theorem requests_keep_order:
  assumes "run d n (s, maps)"
  shows "orderly (s, maps) \<and> (\<forall>f c ch. (f, ChanVma c) \<in> set maps \<and> chs s c = Some ch \<longrightarrow>
    (cfilp ch = None \<or> cfilp ch = Some f) \<and>
    (0 < cid ch \<longrightarrow> (\<forall>c' ch'. chs s c' = Some ch' \<and> cid ch' = cid ch \<longrightarrow> c' = c)))"
proof -
  have o: "orderly (s, maps)" using assms by (rule run_orderly)
  then have own: "maps_own s maps" and num: "numbers_ok (ch_min s) (ch_max s) (chans s) (fake_chans s) (ch_num s)"
    by (simp_all add: orderly_def)
  have "c' = c" if "chs s c = Some ch" "chs s c' = Some ch'" "cid ch' = cid ch" "0 < cid ch" for c c' ch ch'
  proof -
    have "ch_num s c = Some (int (nat (cid ch)))" "ch_num s c' = Some (int (nat (cid ch)))"
      using that by (simp_all add: ch_num_def)
    then show ?thesis using numbersD(3) [OF num, of "nat (cid ch)"] that(4) by (metis option.inject zero_less_nat_eq)
  qed
  moreover have "cfilp ch = None \<or> cfilp ch = Some f" if "(f, ChanVma c) \<in> set maps" "chs s c = Some ch" for f c ch
  proof -
    have "owner s c = None \<or> owner s c = Some f" using own that(1) unfolding maps_own_def by blast
    with that(2) show ?thesis by (simp add: owner_def)
  qed
  ultimately show ?thesis using o by blast
qed

text \<open>
  C29: No request of a client, and nothing else it does, takes a channel from another client, as long as
  it touches no freed memory (where the model has no step): the
  channel still exists afterwards, belongs to the same client and is found under the same number.
\<close>

theorem other_clients_keep_channels:
  assumes "orderly (s, maps)" "client_step d n f (s, maps) (s', maps')"
    and "chs s c = Some ch" "cfilp ch = Some g" "g \<noteq> f"
  shows "\<exists>ch'. chs s' c = Some ch' \<and> cfilp ch' = Some g \<and> cid ch' = cid ch \<and>
    (0 < cid ch \<longrightarrow> chans s' (nat (cid ch)) = Some c)"
proof -
  from client_step_fine [OF assms(2,1)] have s': "fine f s s'" by simp
  from assms(1,3) have "c < fresh s" by (cases "fresh s \<le> c") (auto simp: orderly_def heap_ok_def)
  with s' assms(3-5) have "entry s' c = entry s c" by (auto simp: spaces_ok_def mine_def owner_def)
  with assms(3,4) obtain ch' where ch': "chs s' c = Some ch'" "cfilp ch' = Some g" "cid ch' = cid ch"
    by (auto simp: entry_def)
  from s' have "numbers_ok (ch_min s') (ch_max s') (chans s') (fake_chans s') (ch_num s')"
    by (simp add: spaces_ok_def mine_def chan_numbers.ok_def)
  from numbersD(3) [OF this, of "nat (cid ch)" c] ch' have "0 < cid ch \<longrightarrow> chans s' (nat (cid ch)) = Some c"
    by (simp add: ch_num_def)
  with ch' show ?thesis by blast
qed

subsection \<open>Numbers\<close>

text \<open>
  C31: A new channel gets the lowest number in the engine's range that no channel has, and it is
  entered under that number; the driver says that there is no room only when every number is taken,
  and then nothing has changed.
\<close>

theorem channel_gets_lowest_number:
  assumes "chs s c = Some ch" "cid ch = 0"
  shows "(\<exists>i s'. pscnv_chan_bind c 0 s = Some (Inr (), s') \<and> chans s' = (chans s)(i \<mapsto> c) \<and>
      map_option cid (chs s' c) = Some (int i) \<and> ch_min s \<le> i \<and> i \<le> ch_max s \<and> chans s i = None \<and>
      (\<forall>j \<in> {ch_min s..<i}. chans s j \<noteq> None)) \<or>
    (pscnv_chan_bind c 0 s = Some (Inl ENOSPC, s) \<and> (\<forall>i \<in> {ch_min s..ch_max s}. chans s i \<noteq> None))"
proof -
  from assms have "ch_num s c = Some 0" by (simp add: ch_num_def)
  from chan_numbers.bind_lowest [OF this] show ?thesis
  proof (elim disjE exE conjE)
    fix i s'
    assume s': "pscnv_chan_bind c 0 s = Some (Inr (), s')" "chans s' = (chans s)(i \<mapsto> c)" "ch_num s' = (ch_num s)(c \<mapsto> int i)"
      "ch_min s \<le> i" "i \<le> ch_max s" "chans s i = None" "\<forall>j. ch_min s \<le> j \<and> j < i \<longrightarrow> chans s j \<noteq> None"
    from s'(3) have "map_option cid (chs s' c) = Some (int i)" unfolding ch_num_def by (metis fun_upd_same)
    with s' show ?thesis by (intro disjI1 exI [of _ i] exI [of _ s']) simp
  qed simp
qed

text \<open>
  An address space that gets a number and gives it back leaves the tables as they were, so that
  the number can be taken again.
\<close>

theorem vspace_number_given_back:
  assumes "numbers_ok 1 127 (vspaces s) (fake_vspaces s) (vs_num s)"
    and "pscnv_vspace_bind v 0 s = Some (Inr (), s')"
  shows "\<exists>s''. pscnv_vspace_unbind v s' = Some s'' \<and> vspaces s'' = vspaces s \<and>
    fake_vspaces s'' = fake_vspaces s \<and> vs_num s'' = vs_num s"
  using vspace_numbers.bind_unbind [OF _ assms(2)] assms(1) by (simp add: vspace_numbers.ok_def)

subsection \<open>Examples\<close>

text \<open>Client 8 asks for channel 1, which is client 7's, to be freed.\<close>

definition theirs :: kern where
  "theirs = blank_kern\<lparr>chs := [0 \<mapsto> (new_chan 0)\<lparr>cid := 1, cfilp := Some 7\<rparr>], chans := [1 \<mapsto> 0], fresh := 1\<rparr>"

lemma theirs_orderly: "orderly (theirs, [])"
proof -
  have "ch_num theirs = [0 \<mapsto> 1]" "vs_num theirs = (\<lambda>_. None)"
    by (simp_all add: theirs_def ch_num_def vs_num_def blank_kern_def fun_eq_iff)
  moreover have "numbers_ok 1 126 [1 \<mapsto> 0] (\<lambda>_. None) [0 \<mapsto> 1]" by (auto simp: numbers_ok_def)
  ultimately show ?thesis
    by (simp add: orderly_def numbers_empty heap_ok_def maps_own_def) (simp add: theirs_def blank_kern_def numbers_empty)
qed

lemma theirs_step: "client_step (example_card 0x50 0xa0) 0 8 (theirs, []) (theirs, [])"
  by (rule client_step.ask [where q = "ChanFree 1"])
    (simp add: pscnv_ioctl_chan_free_def initialised_def with_chan_def pscnv_get_chan_def theirs_def blank_kern_def new_chan_def)

theorem other_clients_keep_channels_witness:
  "\<exists>ch'. chs theirs 0 = Some ch' \<and> cfilp ch' = Some 7 \<and> cid ch' = 1 \<and> ((0::int) < 1 \<longrightarrow> chans theirs (nat 1) = Some 0)"
  using other_clients_keep_channels [OF theirs_orderly theirs_step, of 0 "(new_chan 0)\<lparr>cid := 1, cfilp := Some 7\<rparr>" 7]
  by (simp add: theirs_def)

theorem requests_keep_order_witness:
  "orderly (blank_kern\<lparr>log := [Kzalloc], ch_min := 1, ch_max := 126\<rparr>, [])"
proof (rule requests_keep_order [THEN conjunct1])
  have up: "run (example_card 0x50 0xa0) 0 (blank_kern\<lparr>log := [Kzalloc], ch_min := 1, ch_max := 126\<rparr>, [])" (is "run ?d 0 (?s, [])")
    by (rule run.up [where s = blank_kern])
      (simp_all add: empty_tables_def blank_kern_def chan_init_def nv50_chan_init_def request_def example_card_def NV_50_def)
  have "client_step ?d 0 7 (?s, []) (?s, [])"
    by (rule client_step.ask [where q = "Getparam 11"])
      (simp add: pscnv_ioctl_getparam_def initialised_def blank_kern_def)
  with up show "run ?d 0 (?s, [])" by (rule run.client)
qed

theorem channel_gets_lowest_number_witness:
  "\<exists>i s'. pscnv_chan_bind 1 0 (theirs\<lparr>chs := (chs theirs)(1 \<mapsto> new_chan 0)\<rparr>) = Some (Inr (), s') \<and> i = (2::nat) \<and> chans s' i = Some 1"
proof -
  let ?s = "theirs\<lparr>chs := (chs theirs)(1 \<mapsto> new_chan 0)\<rparr>"
  have *: "chans ?s = [1 \<mapsto> 0]" "ch_min ?s = 1" "ch_max ?s = 126" by (simp_all add: theirs_def blank_kern_def)
  have "chs ?s 1 = Some (new_chan 0)" "cid (new_chan 0) = 0" by (simp_all add: new_chan_def)
  from channel_gets_lowest_number [OF this, unfolded *]
  show ?thesis
  proof (elim disjE exE conjE)
    fix i s'
    assume s': "pscnv_chan_bind 1 0 ?s = Some (Inr (), s')" "chans s' = [1 \<mapsto> 0](i \<mapsto> 1)" "1 \<le> i"
      "[1 \<mapsto> 0] i = None" "\<forall>j \<in> {1..<i}. [1 \<mapsto> 0] j \<noteq> None"
    from s'(3-5) have "i = 2" by (cases "i < 2") (auto dest: bspec [where x = 2] split: if_splits)
    with s' show ?thesis by auto
  qed (auto dest: bspec [where x = 2])
qed

theorem vspace_number_given_back_witness:
  "\<exists>s' s''. pscnv_vspace_bind 0 0 (blank_kern\<lparr>vss := [0 \<mapsto> new_vspace 0 0]\<rparr>) = Some (Inr (), s') \<and>
     pscnv_vspace_unbind 0 s' = Some s'' \<and> vspaces s'' = (\<lambda>_. None)"
proof -
  let ?s = "blank_kern\<lparr>vss := [0 \<mapsto> new_vspace 0 0]\<rparr>"
  have ok: "numbers_ok 1 127 (vspaces ?s) (fake_vspaces ?s) (vs_num ?s)"
    by (auto simp: numbers_ok_def vs_num_def blank_kern_def new_vspace_def)
  have "vs_num ?s 0 = Some 0" by (simp add: vs_num_def new_vspace_def)
  from vspace_numbers.bind_lowest [OF this] obtain s' where "pscnv_vspace_bind 0 0 ?s = Some (Inr (), s')"
    by (auto simp: blank_kern_def)
  with vspace_number_given_back [OF ok this] show ?thesis by (auto simp: blank_kern_def)
qed

end
