(* ===== verification/StartProps.thy ===== *)
theory StartProps
  imports ClientProps
begin

section \<open>Starting a channel with a bad command buffer\<close>

text \<open>
  FIFO_INIT and FIFO_INIT_IB (\<open>pscnv_ioctl.c\<close>, \<open>nv50_fifo.c\<close>) count references to the channel differently.
  This theory follows the count through both.
\<close>

text \<open>Looking an object up reads memory and leaves channels alone.\<close>

lemma rv32_chs: "nv_rv32 d b ofs s = Some (v, s') \<Longrightarrow> chs s' = chs s"
  by (auto simp: nv_rv32_def pramin_window_def nv_rd32_def nv_wr32_def request_def tell_def Let_def
      split: Option.bind_splits option.splits prod.splits if_splits)

lemma ramht_find_at_chs: "ramht_find_at d b r h st p s = Some (v, s') \<Longrightarrow> chs s' = chs s"
proof -
  have "chs (snd y) = chs s" if "ramht_find_at d b r h st p s = Some y" for d b r h st p s y
  proof (rule ramht_find_at.raw_induct [where P = "\<lambda>d b r h st p s y. chs (snd y) = chs s", OF _ that])
    fix f d b r h st p s y
    assume IH: "\<And>d b r h st p s y. f d b r h st p s = Some y \<Longrightarrow> chs (snd y) = chs s"
      and body: "(nv_rv32 d b (roffset r + p + 4) s \<bind> (\<lambda>(used, s). if used = 0 then Some (0, s)
        else nv_rv32 d b (roffset r + p) s \<bind> (\<lambda>(h', s). if h' = h then nv_rv32 d b (roffset r + p + 4) s
          else ramht_step r p \<bind> (\<lambda>p. if p \<noteq> st then f d b r h st p s else Some (0, s))))) = Some y"
    then show "chs (snd y) = chs s"
      by (cases y) (fastforce split: Option.bind_splits prod.splits if_splits dest: rv32_chs)
  qed
  then show "ramht_find_at d b r h st p s = Some (v, s') \<Longrightarrow> chs s' = chs s" by fastforce
qed

lemma pb_inst_chs: "nv50_pb_inst d c pb s = Some (i, s') \<Longrightarrow> chs s' = chs s"
  by (auto simp: nv50_pb_inst_def pscnv_ramht_find_def Let_def split: Option.bind_splits dest: ramht_find_at_chs)

lemma chan_unref_eq:
  assumes "chs s c = Some ch"
  shows "pscnv_chan_unref d E c s = (let s2 = s\<lparr>chs := (chs s)(c \<mapsto> ch\<lparr>cref := cref ch - 1\<rparr>)\<rparr> in
    if cref ch = 1 then pscnv_chan_ref_free d E c s2 else Some s2)"
  using assms by (simp add: pscnv_chan_unref_def upd_ch_def Let_def)

text \<open>
  C33: When the handle of the command buffer stands for no object, both ways to start a channel say so.
  For a DMA command buffer the channel has as many references as before. For an indirect buffer it has
  lost one, since both \<open>nv50_fifo_chan_init_ib\<close> and its caller drop a reference; if the client's was
  the last, the channel is freed there and then.
\<close>

theorem failed_start_drops_reference:
  assumes "card_ready s" "fifo_engine s \<noteq> None" "card_type d = NV_50" "0 \<le> n" "n < 128"
    and "chans s (nat n) = Some c" "chs s c = Some ch" "cfilp ch = Some f" "cref ch \<noteq> 0"
    and "nv50_pb_inst d c pb (s\<lparr>chs := (chs s)(c \<mapsto> ch\<lparr>cref := cref ch + 1\<rparr>)\<rparr>) = Some (None, s1)"
  shows "pscnv_ioctl_fifo_init d E f n pb flags msk start s = Some (Inl ENOENT, s1\<lparr>chs := chs s\<rparr>) \<and>
    pscnv_ioctl_fifo_init_ib d E f n pb flags msk start order s =
      (let s2 = s1\<lparr>chs := (chs s)(c \<mapsto> ch\<lparr>cref := cref ch - 1\<rparr>)\<rparr> in
       if cref ch = 1 then map_option (Pair (Inl ENOENT)) (pscnv_chan_ref_free d E c s2)
       else Some (Inl ENOENT, s2))"
proof -
  define s' where "s' = s\<lparr>chs := (chs s)(c \<mapsto> ch\<lparr>cref := cref ch + 1\<rparr>)\<rparr>"
  have "chs s1 = (chs s)(c \<mapsto> ch\<lparr>cref := cref ch + 1\<rparr>)" using pb_inst_chs [OF assms(10)] by simp
  with assms(7,9) have 1: "pscnv_chan_unref d E c s1 = Some (s1\<lparr>chs := chs s\<rparr>)"
    by (simp add: chan_unref_eq fun_upd_idem)
  have 2: "pscnv_chan_unref d E c (s1\<lparr>chs := chs s\<rparr>) = (let s2 = s1\<lparr>chs := (chs s)(c \<mapsto> ch\<lparr>cref := cref ch - 1\<rparr>)\<rparr> in
      if cref ch = 1 then pscnv_chan_ref_free d E c s2 else Some s2)"
    using assms(7) by (simp add: chan_unref_eq)
  have get: "pscnv_get_chan f n s = Some (Some c, s')"
    using assms(4-8) by (simp add: pscnv_get_chan_def pscnv_chan_ref_def upd_ch_def s'_def)
  have pb: "nv50_pb_inst d c pb s' = Some (None, s1)" "chs s' c \<noteq> None" using assms(10) by (simp_all add: s'_def)
  have "pscnv_ioctl_fifo_init d E f n pb flags msk start s = Some (Inl ENOENT, s1\<lparr>chs := chs s\<rparr>)"
    using assms(1-3) get pb 1 by (auto simp: pscnv_ioctl_fifo_init_def initialised_def with_chan_def nv50_fifo_chan_init_dma_def)
  moreover have "pscnv_ioctl_fifo_init_ib d E f n pb flags msk start order s =
      map_option (Pair (Inl ENOENT)) (pscnv_chan_unref d E c (s1\<lparr>chs := chs s\<rparr>))"
    using assms(1-3) get pb 1
    by (auto simp: pscnv_ioctl_fifo_init_ib_def initialised_def with_chan_def nv50_fifo_chan_init_ib_def nv50_fifo_ib_def
        split: Option.bind_splits)
  ultimately show ?thesis unfolding 2 Let_def by (simp add: map_option_case split: option.split)
qed

text \<open>A channel of client 7, with a table of objects that is empty, once mapped.\<close>

definition startable :: kern where
  "startable = blank_kern\<lparr>bos := [0 \<mapsto> blank_bo 0x100000 0x10000], fifo_engine := Some \<lparr>playlists = (1, 2), cur_playlist = False, ctrl_bo = None\<rparr>,
     chs := [0 \<mapsto> (new_chan 0)\<lparr>cid := 1, cfilp := Some 7, cref := 2, cramht := \<lparr>rbo = Some 0, roffset = 0x800, rbits = 9\<rparr>\<rparr>],
     chans := [1 \<mapsto> 0], fresh := 1\<rparr>"

theorem failed_start_drops_reference_witness:
  "(\<exists>s'. pscnv_ioctl_fifo_init (example_card NV_50 0xa0) no_engine 7 1 0 0 0 0 startable = Some (Inl ENOENT, s') \<and>
      map_option cref (chs s' 0) = Some 2) \<and>
   (\<exists>s'. pscnv_ioctl_fifo_init_ib (example_card NV_50 0xa0) no_engine 7 1 0 0 0 0 9 startable = Some (Inl ENOENT, s') \<and>
      map_option cref (chs s' 0) = Some 1)"
proof -
  let ?d = "example_card NV_50 0xa0"
  let ?ch = "(new_chan 0)\<lparr>cid := 1, cfilp := Some 7, cref := 2, cramht := \<lparr>rbo = Some 0, roffset = 0x800, rbits = 9\<rparr>\<rparr>"
  let ?s = "startable\<lparr>chs := (chs startable)(0 \<mapsto> ?ch\<lparr>cref := cref ?ch + 1\<rparr>)\<rparr>"
  have ok: "bo_ok ?d clear_memory 0 ?s"
    unfolding bo_ok_def using example_remembers
    by (simp add: window_ok_def mem_now_def reachable_bo_def kernel_map_def startable_def
        blank_kern_def blank_bo_def) (simp add: clear_memory_def)
  have "bo_word clear_memory 0 ?s ofs = 0" for ofs
    by (simp add: bo_word_def bo_place_def kernel_map_def mem_now_def startable_def blank_kern_def blank_bo_def clear_memory_def)
  moreover have "bo_inside 0 ?s 0x804" by (simp add: bo_inside_def startable_def blank_bo_def)
  ultimately obtain s1 where "nv_rv32 ?d 0 0x804 ?s = Some (0, s1)"
    using nv_rv32_reads [OF ok, of "0x804"] by auto
  then have pb: "nv50_pb_inst ?d 0 0 ?s = Some (None, s1)"
    by (simp add: nv50_pb_inst_def pscnv_ramht_find_def pscnv_ramht_hash_def hash_from.simps Let_def
        ramht_find_at.simps [of _ _ _ _ _ 0])
  have s: "card_ready startable" "fifo_engine startable \<noteq> None" "chans startable (nat 1) = Some 0" "chs startable 0 = Some ?ch"
    "cfilp ?ch = Some 7" "cref ?ch \<noteq> 0" by (simp_all add: startable_def blank_kern_def)
  have "card_type ?d = NV_50" "(0::int) \<le> 1" "(1::int) < 128" by (simp_all add: example_card_def)
  from failed_start_drops_reference [OF s(1,2) this s(3-6) pb, of no_engine 0 0 0 9] s(4) show ?thesis by (simp add: Let_def)
qed

end
