(* ===== verification/Irq.thy ===== *)
theory Irq
  imports ChanLife
begin

section \<open>Interrupts\<close>

text \<open>
  \<open>nouveau_irq_handler\<close> (\<open>nouveau_irq.c\<close>) and the handlers it calls: PBUS and the CRTCs in the same
  file, PFIFO (\<open>nv50_fifo.c\<close>, \<open>nvc0_fifo.c\<close>), PGRAPH and its traps (\<open>nv50_graph.c\<close>), the MMU
  (\<open>nv50_vm.c\<close>) and PDISPLAY (\<open>nv50_display.c\<close>, without the work it puts off). A handler reads what
  is pending, reports it, and acknowledges it by writing the bit back.

  The reports to the kernel log are left out, but for that of the MMU, where a good part of the code
  finds the words for it; the registers read only for a report are read all the same, those that are
  arguments of one call from left to right.
\<close>

text \<open>\<open>if (status & bits)\<close> with a body that handles these bits, after which they are cleared.\<close>

definition on_bits :: "(u32 \<times> (kern \<Rightarrow> kern option)) \<Rightarrow> u32 \<times> kern \<Rightarrow> (u32 \<times> kern) option" where
  "on_bits h ss =
     (if fst ss AND fst h \<noteq> 0 then do {
        s \<leftarrow> snd h (snd ss);
        Some (fst ss AND NOT (fst h), s) }
      else Some ss)"

definition read_regs :: "card \<Rightarrow> u32 list \<Rightarrow> kern \<Rightarrow> kern option" where
  "read_regs d rs = for_each (\<lambda>r s. do { (_, s) \<leftarrow> nv_rd32 d r s; Some s }) rs"

subsection \<open>The MMU\<close>

datatype enumval = Enum nat string "enumval list"

primrec evalue :: "enumval \<Rightarrow> nat" where
  "evalue (Enum n name evs) = n"

primrec ename :: "enumval \<Rightarrow> string" where
  "ename (Enum n name evs) = name"

primrec edata :: "enumval \<Rightarrow> enumval list" where
  "edata (Enum n name evs) = evs"

definition pscnv_enum_find :: "enumval list \<Rightarrow> nat \<Rightarrow> enumval option" where
  "pscnv_enum_find evs n = find (\<lambda>e. evalue e = n) evs"

definition vm_trap_reasons :: "enumval list" where
  "vm_trap_reasons =
     [Enum 0 ''PT_NOT_PRESENT'' [], Enum 1 ''PT_TOO_SHORT'' [], Enum 2 ''PAGE_NOT_PRESENT'' [],
      Enum 3 ''PAGE_SYSTEM_ONLY'' [], Enum 4 ''PAGE_READ_ONLY'' [], Enum 6 ''NULL_DMAOBJ'' [],
      Enum 0xb ''VRAM_LIMIT'' [], Enum 0xf ''DMAOBJ_LIMIT'' []]"

definition vm_dispatch_subsubunits :: "enumval list" where
  "vm_dispatch_subsubunits =
     [Enum 0 ''GRCTX'' [], Enum 1 ''NOTIFY'' [], Enum 2 ''QUERY'' [], Enum 3 ''COND'' [],
      Enum 4 ''M2M_IN'' [], Enum 5 ''M2M_OUT'' [], Enum 6 ''M2M_NOTIFY'' []]"

definition vm_ccache_subsubunits :: "enumval list" where
  "vm_ccache_subsubunits = [Enum 0 ''CB'' [], Enum 1 ''TIC'' [], Enum 2 ''TSC'' []]"

definition vm_tprop_subsubunits :: "enumval list" where
  "vm_tprop_subsubunits =
     [Enum 0 ''RT0'' [], Enum 1 ''RT1'' [], Enum 2 ''RT2'' [], Enum 3 ''RT3'' [], Enum 4 ''RT4'' [],
      Enum 5 ''RT5'' [], Enum 6 ''RT6'' [], Enum 7 ''RT7'' [], Enum 8 ''ZETA'' [], Enum 9 ''LOCAL'' [],
      Enum 0xa ''GLOBAL'' [], Enum 0xb ''STACK'' [], Enum 0xc ''DST2D'' []]"

definition vm_pgraph_subunits :: "enumval list" where
  "vm_pgraph_subunits =
     [Enum 0 ''STRMOUT'' [], Enum 3 ''DISPATCH'' vm_dispatch_subsubunits,
      Enum 5 ''CCACHE'' vm_ccache_subsubunits, Enum 7 ''CLIPID'' [], Enum 9 ''VFETCH'' [],
      Enum 0xa ''TEXTURE'' [], Enum 0xb ''TPROP'' vm_tprop_subsubunits]"

definition vm_pfifo_subunits :: "enumval list" where
  "vm_pfifo_subunits = [Enum 8 ''FIFO'' [Enum 0 ''PUSHBUF'' [], Enum 1 ''SEMAPHORE'' []]]"

definition vm_peephole_subunits :: "enumval list" where
  "vm_peephole_subunits = [Enum 4 ''WRITE'' [], Enum 8 ''READ'' []]"

definition vm_bar_subsubunits :: "enumval list" where
  "vm_bar_subsubunits = [Enum 0 ''FB'' [], Enum 1 ''IN'' []]"

definition vm_bar_subunits :: "enumval list" where
  "vm_bar_subunits = [Enum 4 ''WRITE'' vm_bar_subsubunits, Enum 8 ''READ'' vm_bar_subsubunits]"

definition vm_units :: "enumval list" where
  "vm_units =
     [Enum 0 ''PGRAPH'' vm_pgraph_subunits, Enum 1 ''PVP'' [], Enum 4 ''PEEPHOLE'' vm_peephole_subunits,
      Enum 5 ''PFIFO'' vm_pfifo_subunits, Enum 6 ''BAR'' vm_bar_subunits, Enum 8 ''PPPP'' [],
      Enum 9 ''PBSP'' [], Enum 0xa ''PCRYPT'' [], Enum 0xd ''PCOPY'' [], Enum 0xe ''PDAEMON'' []]"

text \<open>A number of at most two hexadecimal digits, as \<open>0x%x\<close> prints it.\<close>

definition hex_digit :: "nat \<Rightarrow> char" where
  "hex_digit n = ''0123456789abcdef'' ! n"

definition hex :: "nat \<Rightarrow> string" where
  "hex n = ''0x'' @ (if n < 16 then [hex_digit n] else [hex_digit (n div 16), hex_digit (n mod 16)])"

definition enum_name :: "enumval list \<Rightarrow> nat \<Rightarrow> string" where
  "enum_name evs n = (case pscnv_enum_find evs n of Some e \<Rightarrow> ename e | None \<Rightarrow> hex n)"

definition enum_sub :: "enumval list \<Rightarrow> nat \<Rightarrow> enumval list" where
  "enum_sub evs n = (case pscnv_enum_find evs n of Some e \<Rightarrow> edata e | None \<Rightarrow> [])"

text \<open>The four fields of the first word: unit, reason, and the parts of the unit.\<close>

definition vm_trap_fields :: "card \<Rightarrow> u32 \<Rightarrow> nat \<times> nat \<times> nat \<times> nat" where
  "vm_trap_fields d w =
     (if chipset d < 0xa3 \<or> (chipset d \<ge> 0xaa \<and> chipset d \<le> 0xac) then
        (unat (w AND 0xf), unat (drop_bit 4 w AND 0xf), unat (drop_bit 8 w AND 0xf), unat (drop_bit 12 w AND 0xf))
      else
        (unat (w AND 0xff), unat (drop_bit 8 w AND 0xff), unat (drop_bit 16 w AND 0xff), unat (drop_bit 24 w AND 0xff)))"

definition vm_trap_words :: "card \<Rightarrow> u32 \<Rightarrow> u32 \<Rightarrow> string list" where
  "vm_trap_words d w0 w5 =
     (let (s0, s1, s2, s3) = vm_trap_fields d w0;
          sub = enum_sub vm_units s0;
          subsub = enum_sub sub s2
      in [if w5 AND 0x100 \<noteq> 0 then ''read'' else ''write'',
          enum_name vm_units s0, enum_name sub s2, enum_name subsub s3, enum_name vm_trap_reasons s1])"

text \<open>One word of the trap, by its index.\<close>

definition vm_trap_word :: "card \<Rightarrow> u32 \<Rightarrow> nat \<Rightarrow> kern \<Rightarrow> (u32 \<times> kern) option" where
  "vm_trap_word d idx i s = do {
     s \<leftarrow> nv_wr32 d 0x100c90 (idx OR push_bit 24 (of_nat i)) s;
     nv_rd32 d 0x100c94 s }"

definition nv50_vm_trap :: "card \<Rightarrow> kern \<Rightarrow> kern option" where
  "nv50_vm_trap d s = do {
     (idx, s) \<leftarrow> nv_rd32 d 0x100c90 s;
     if idx AND 0x80000000 = 0 then Some s
     else do {
       let idx = idx AND 0xffffff;
       (t0, s) \<leftarrow> vm_trap_word d idx 0 s;
       (t1, s) \<leftarrow> vm_trap_word d idx 1 s;
       (t2, s) \<leftarrow> vm_trap_word d idx 2 s;
       (t3, s) \<leftarrow> vm_trap_word d idx 3 s;
       (t4, s) \<leftarrow> vm_trap_word d idx 4 s;
       (t5, s) \<leftarrow> vm_trap_word d idx 5 s;
       let handle = push_bit 16 t2 OR t1;
       n \<leftarrow> pscnv_chan_handle_lookup handle s;
       s \<leftarrow> tell d (Printk (vm_trap_words d t0 t5)
         [ucast (t5 AND 0xff), ucast (t4 AND 0xffff), ucast (t3 AND 0xffff),
          if n \<noteq> 128 then word_of_int n else ucast handle]) s;
       nv_wr32 d 0x100c90 (idx OR 0x80000000) s } }"

subsection \<open>PFIFO\<close>

text \<open>The method that failed, from the cache of the engine.\<close>

definition cache_entry :: "card \<Rightarrow> u32 \<Rightarrow> kern \<Rightarrow> kern option" where
  "cache_entry d get s =
     read_regs d [0x90000 + (get AND 0x7fc) * 2, 0x90000 + (get AND 0x7fc) * 2 + 4] s"

definition fifo_cache_error :: "card \<Rightarrow> kern \<Rightarrow> kern option" where
  "fifo_cache_error d s = do {
     (get, s) \<leftarrow> nv_rd32 d 0x3270 s;
     s \<leftarrow> cache_entry d get s;
     s \<leftarrow> read_regs d [0x3250] s;
     write_regs d [(0x3270, get + 4), (0x2100, 0x00000001), (0x3250, 1)] s }"

text \<open>What is left of the commands is skipped: to the end of the buffer, or of the ring of buffers.\<close>

definition fifo_dma_pusher :: "card \<Rightarrow> kern \<Rightarrow> kern option" where
  "fifo_dma_pusher d s = do {
     (get, s) \<leftarrow> nv_rd32 d 0x3244 s;
     (gethi, s) \<leftarrow> nv_rd32 d 0x3328 s;
     (put, s) \<leftarrow> nv_rd32 d 0x3240 s;
     (puthi, s) \<leftarrow> nv_rd32 d 0x3320 s;
     (ib_get, s) \<leftarrow> nv_rd32 d 0x3334 s;
     (ib_put, s) \<leftarrow> nv_rd32 d 0x3330 s;
     s \<leftarrow> read_regs d [0x3228, 0x3220, 0x32a0, 0x32a4, 0x32a8, 0x32ac, 0x3364] s;
     s \<leftarrow>
       (if get \<noteq> put \<or> gethi \<noteq> puthi then write_regs d [(0x3244, put), (0x3328, puthi)] s
        else if ib_get \<noteq> ib_put then nv_wr32 d 0x3334 ib_put s
        else write_regs d [(0x3330, 0), (0x3334, 0)] s);
     write_regs d [(0x3228, 0), (0x3364, 0), (0x3220, 1), (0x2100, 0x00001000)] s }"

definition fifo_semaphore :: "card \<Rightarrow> kern \<Rightarrow> kern option" where
  "fifo_semaphore d s = do {
     (get, s) \<leftarrow> nv_rd32 d 0x3270 s;
     s \<leftarrow> cache_entry d get s;
     s \<leftarrow> read_regs d [0x3250] s;
     (get, s) \<leftarrow>
       (if chipset d > 0x50 then do {
          (sem_lo, s) \<leftarrow> nv_rd32 d 0x3404 s;
          if sem_lo AND 3 \<noteq> 0 then do {
            s \<leftarrow> nv_wr32 d 0x3404 0 s;
            Some ((get - 4) AND 0xffc, s) }
          else Some (get, s) }
        else Some (get, s));
     write_regs d [(0x3270, get + 4), (0x3250, 1), (0x2100, 0x00100000)] s }"

definition nv50_fifo_handlers :: "card \<Rightarrow> (u32 \<times> (kern \<Rightarrow> kern option)) list" where
  "nv50_fifo_handlers d =
     [(0x00000001, fifo_cache_error d),
      (0x00000010, nv_wr32 d 0x2100 0x00000010),
      (0x00000040, nv_wr32 d 0x2100 0x00000040),
      (0x00001000, fifo_dma_pusher d),
      (0x00100000, fifo_semaphore d)]"

definition nv50_fifo_irq_handler :: "card \<Rightarrow> kern \<Rightarrow> kern option" where
  "nv50_fifo_irq_handler d s = do {
     (status, s) \<leftarrow> nv_rd32 d 0x2100 s;
     s \<leftarrow> read_regs d [0x3204] s;
     (status, s) \<leftarrow> for_each on_bits (nv50_fifo_handlers d) (status, s);
     s \<leftarrow> (if status \<noteq> 0 then nv_wr32 d 0x2100 status s else Some s);
     nv50_vm_trap d s }"

text \<open>On the NVC0 some causes have bits of their own, one for each unit.\<close>

definition set_bits :: "u32 \<Rightarrow> nat list" where
  "set_bits w = filter (bit w) [0..<32]"

definition nvc0_pfifo_page_fault :: "card \<Rightarrow> nat \<Rightarrow> kern \<Rightarrow> kern option" where
  "nvc0_pfifo_page_fault d i =
     read_regs d (map (\<lambda>r. r + of_nat (i * 0x10)) [0x2800, 0x2808, 0x2804, 0x280c])"

definition nvc0_pfifo_subfifo_fault :: "card \<Rightarrow> nat \<Rightarrow> kern \<Rightarrow> kern option" where
  "nvc0_pfifo_subfifo_fault d i s = do {
     let u = of_nat (i * 0x2000);
     (_, s) \<leftarrow> nv_rd32 d (0x40120 + u) s;
     (status, s) \<leftarrow> nv_rd32 d (0x40108 + u) s;
     s \<leftarrow> read_regs d [0x400c0 + u, 0x400c4 + u] s;
     (status, s) \<leftarrow> for_each on_bits
       [(0x200000, write_regs d [(0x400c0 + u, 0x80600008), (0x40108 + u, 0x200000)]),
        (0x800000, write_regs d [(0x400c0 + u, 0x80600008), (0x40108 + u, 0x800000)])] (status, s);
     if status \<noteq> 0 then do {
       (en, s) \<leftarrow> nv_rd32 d (0x4010c + u) s;
       nv_wr32 d (0x4010c + u) (en AND NOT status) s }
     else Some s }"

definition each_unit :: "card \<Rightarrow> u32 \<Rightarrow> (nat \<Rightarrow> kern \<Rightarrow> kern option) \<Rightarrow> kern \<Rightarrow> kern option" where
  "each_unit d reg handle s = do {
     (bits, s) \<leftarrow> nv_rd32 d reg s;
     s \<leftarrow> for_each handle (set_bits bits) s;
     nv_wr32 d reg bits s }"

definition nvc0_fifo_irq_handler :: "card \<Rightarrow> kern \<Rightarrow> kern option" where
  "nvc0_fifo_irq_handler d s = do {
     (pending, s) \<leftarrow> nv_rd32 d 0x2100 s;
     (enabled, s) \<leftarrow> nv_rd32 d 0x2140 s;
     (status, s) \<leftarrow> for_each on_bits
       [(1, nv_wr32 d 0x2100 1),
        (0x10000000, each_unit d 0x259c (nvc0_pfifo_page_fault d)),
        (0x20000000, each_unit d 0x25a0 (nvc0_pfifo_subfifo_fault d))] (pending AND enabled, s);
     s \<leftarrow> (if status AND 0x00000100 \<noteq> 0 then read_regs d [0x400c4, 0x40110, 0x40114] s else Some s);
     if status \<noteq> 0 then do {
       (en, s) \<leftarrow> nv_rd32 d 0x2140 s;
       nv_wr32 d 0x2140 (en AND NOT status) s }
     else Some s }"

end
