(* ===== verification/GrIrq.thy ===== *)
theory GrIrq
  imports Irq
begin

section \<open>Interrupts of PGRAPH, and the dispatch of all interrupts\<close>

text \<open>
  The traps of PGRAPH and its interrupt handler (\<open>nv50_graph.c\<close>), PDISPLAY's (\<open>nv50_display.c\<close>), and
  \<open>nouveau_irq_handler\<close>, which finds out who is to be called (\<open>nouveau_irq.c\<close>).
\<close>

subsection \<open>Traps of a TP\<close>

definition tex_trap_reg :: "card \<Rightarrow> nat \<Rightarrow> u32" where
  "tex_trap_reg d tp = (if chipset d < 0xa0 then 0x408900 + of_nat (tp * 0x1000) else 0x408600 + of_nat (tp * 0x800))"

definition nv50_graph_tex_trap :: "card \<Rightarrow> nat \<Rightarrow> kern \<Rightarrow> kern option" where
  "nv50_graph_tex_trap d tp s = do {
     let st = tex_trap_reg d tp;
     s \<leftarrow> read_regs d [st, st + 4, st + 8, st + 0xc, st + 0x10] s;
     nv_wr32 d st 0xc0000000 s }"

definition nv50_graph_mp_trap :: "card \<Rightarrow> nat \<Rightarrow> nat \<Rightarrow> kern \<Rightarrow> kern option" where
  "nv50_graph_mp_trap d tp mp s = do {
     let mpaddr = (if chipset d < 0xa0 then 0x408200 + of_nat (tp * 0x1000) + of_nat (mp * 0x80)
                   else 0x408100 + of_nat (tp * 0x800) + of_nat (mp * 0x80));
     (mp10, s) \<leftarrow> nv_rd32 d (mpaddr + 0x10) s;
     (status, s) \<leftarrow> nv_rd32 d (mpaddr + 0x14) s;
     s \<leftarrow> read_regs d [mpaddr + 0x20, mpaddr + 0x24, mpaddr + 0x70, mpaddr + 0x74] s;
     if status = 0 then Some s else write_regs d [(mpaddr + 0x10, mp10), (mpaddr + 0x14, 0)] s }"

definition mpc_trap_reg :: "card \<Rightarrow> nat \<Rightarrow> u32" where
  "mpc_trap_reg d tp = (if chipset d < 0xa0 then 0x408314 + of_nat (tp * 0x1000) else 0x40831c + of_nat (tp * 0x800))"

definition nv50_graph_mpc_trap :: "card \<Rightarrow> nat \<Rightarrow> kern \<Rightarrow> kern option" where
  "nv50_graph_mpc_trap d tp s = do {
     let st = mpc_trap_reg d tp;
     (status, s) \<leftarrow> nv_rd32 d st s;
     (_, s) \<leftarrow> for_each on_bits
       [(0x10000, nv50_graph_mp_trap d tp 0), (0x20000, nv50_graph_mp_trap d tp 1),
        (0x4000000, nv50_graph_mp_trap d tp 2)] (status AND 0x7fffffff, s);
     nv_wr32 d st 0xc0000000 s }"

definition tprop_trap_reg :: "card \<Rightarrow> nat \<Rightarrow> u32" where
  "tprop_trap_reg d tp = (if chipset d < 0xa0 then 0x408e08 + of_nat (tp * 0x1000) else 0x408708 + of_nat (tp * 0x800))"

definition nv50_graph_tprop_trap :: "card \<Rightarrow> nat \<Rightarrow> kern \<Rightarrow> kern option" where
  "nv50_graph_tprop_trap d tp s = do {
     let st = tprop_trap_reg d tp;
     s \<leftarrow> read_regs d (map (\<lambda>i. st + of_nat (4 * i)) [0..<8]) s;
     nv_wr32 d st 0xc0000000 s }"

text \<open>The same check for every TP of the card.\<close>

definition tp_traps :: "card \<Rightarrow> u32 \<Rightarrow> (nat \<Rightarrow> u32) \<Rightarrow> (nat \<Rightarrow> kern \<Rightarrow> kern option) \<Rightarrow> u32 \<Rightarrow> kern \<Rightarrow> kern option" where
  "tp_traps d units reg trap bit' s = do {
     s \<leftarrow> for_each (\<lambda>i s. do {
         (st, s) \<leftarrow> nv_rd32 d (reg i) s;
         if st AND 0x7fffffff \<noteq> 0 then trap i s else Some s }) (filter (bit units) [0..<16]) s;
     nv_wr32 d 0x400108 bit' s }"

subsection \<open>Traps of the other units\<close>

definition dispatch_trap :: "card \<Rightarrow> kern \<Rightarrow> kern option" where
  "dispatch_trap d s = do {
     (ustatus, s) \<leftarrow> nv_rd32 d 0x400804 s;
     s \<leftarrow>
       (if ustatus AND 1 \<noteq> 0 then do {
          s \<leftarrow> nv_wr32 d 0x400500 0 s;
          (stuck, s) \<leftarrow> nv_rd32 d 0x400808 s;
          s \<leftarrow>
            (if stuck AND 0x80000000 \<noteq> 0 then do {
               s \<leftarrow> read_regs d [0x400814, 0x400808, 0x400808, 0x40080c, 0x400808, 0x400848] s;
               nv_wr32 d 0x400808 0 s }
             else Some s);
          (v, s) \<leftarrow> nv_rd32 d 0x4008e8 s;
          write_regs d [(0x4008e8, v AND 3), (0x400848, 0)] s }
        else Some s);
     write_regs d [(0x400804, 0xc0000000), (0x400108, 0x001)] s }"

text \<open>A unit that has its state in four registers, read once for each of some of its bits.\<close>

definition report_unit :: "card \<Rightarrow> u32 \<Rightarrow> u32 list \<Rightarrow> u32 list \<Rightarrow> kern \<Rightarrow> kern option" where
  "report_unit d reg bits regs s = do {
     (ustatus, s) \<leftarrow> nv_rd32 d reg s;
     for_each (\<lambda>b s. if ustatus AND b \<noteq> 0 then read_regs d regs s else Some s) bits s }"

definition m2mf_trap :: "card \<Rightarrow> kern \<Rightarrow> kern option" where
  "m2mf_trap d s = do {
     s \<leftarrow> report_unit d 0x406800 [1, 2, 4] [0x406804, 0x406808, 0x40680c, 0x406810] s;
     write_regs d [(0x400040, 2), (0x400040, 0), (0x406800, 0xc0000000), (0x400108, 0x002)] s }"

definition strmout_trap :: "card \<Rightarrow> kern \<Rightarrow> kern option" where
  "strmout_trap d s = do {
     s \<leftarrow> report_unit d 0x401800 [1] [0x401804, 0x401808, 0x40180c, 0x401810] s;
     write_regs d [(0x400040, 0x80), (0x400040, 0), (0x401800, 0xc0000000), (0x400108, 0x008)] s }"

definition plain_trap :: "card \<Rightarrow> u32 \<Rightarrow> u32 \<Rightarrow> kern \<Rightarrow> kern option" where
  "plain_trap d reg bit' s = do {
     s \<leftarrow> read_regs d [reg] s;
     write_regs d [(reg, 0xc0000000), (0x400108, bit')] s }"

definition graph_traps :: "card \<Rightarrow> u32 \<Rightarrow> (u32 \<times> (kern \<Rightarrow> kern option)) list" where
  "graph_traps d units =
     [(0x001, dispatch_trap d),
      (0x002, m2mf_trap d),
      (0x004, plain_trap d 0x400c04 0x004),
      (0x008, strmout_trap d),
      (0x010, plain_trap d 0x405018 0x010),
      (0x020, plain_trap d 0x402000 0x020),
      (0x040, tp_traps d units (tex_trap_reg d) (nv50_graph_tex_trap d) 0x040),
      (0x080, tp_traps d units (mpc_trap_reg d) (nv50_graph_mpc_trap d) 0x080),
      (0x100, tp_traps d units (tprop_trap_reg d) (nv50_graph_tprop_trap d) 0x100)]"

definition nv50_graph_trap_handler :: "card \<Rightarrow> kern \<Rightarrow> kern option" where
  "nv50_graph_trap_handler d s = do {
     (status, s) \<leftarrow> nv_rd32 d 0x400108 s;
     (units, s) \<leftarrow> nv_rd32 d 0x1540 s;
     (status, s) \<leftarrow> for_each on_bits (graph_traps d units) (status, s);
     if status \<noteq> 0 then nv_wr32 d 0x400108 status s else Some s }"

subsection \<open>The interrupt handler of PGRAPH\<close>

text \<open>The errors that have a name. For another the state of the 3D object is reported.\<close>

definition dispatch_errors :: "nat list" where
  "dispatch_errors =
     [3, 4, 5, 8, 9, 0xa, 0xb, 0xc, 0xd, 0x10, 0x11, 0x12, 0x1b, 0x1c, 0x21, 0x23,
      0x27, 0x28, 0x29, 0x2a, 0x2b, 0x2c, 0x2d, 0x2e, 0x31, 0x47]"

definition dispatch_error :: "card \<Rightarrow> u32 \<Rightarrow> kern \<Rightarrow> kern option" where
  "dispatch_error d ecode s = do {
     let base = (if chipset d > 0xa0 \<and> chipset d < 0xaa then 0x404800 else 0x405400);
     s \<leftarrow>
       (if unat ecode \<in> set dispatch_errors then Some s
        else read_regs d (map (\<lambda>i. base + of_nat (4 * i)) [0..<0x100]) s);
     nv_wr32 d 0x400100 0x00100000 s }"

definition graph_handlers :: "card \<Rightarrow> u32 \<Rightarrow> (u32 \<times> (kern \<Rightarrow> kern option)) list" where
  "graph_handlers d ecode =
     map (\<lambda>b. (b, nv_wr32 d 0x400100 b))
       [0x00000001, 0x00000002, 0x00000010, 0x00000020, 0x00000040, 0x00010000] @
     [(0x00100000, dispatch_error d ecode),
      (0x00200000, \<lambda>s. do { s \<leftarrow> nv50_graph_trap_handler d s; nv_wr32 d 0x400100 0x00200000 s }),
      (0x01000000, nv_wr32 d 0x400100 0x01000000)]"

definition nv50_graph_irq_handler :: "card \<Rightarrow> kern \<Rightarrow> kern option" where
  "nv50_graph_irq_handler d s = do {
     (status, s) \<leftarrow> nv_rd32 d 0x400100 s;
     (ecode, s) \<leftarrow> nv_rd32 d 0x400110 s;
     s \<leftarrow> read_regs d [0x400700, 0x400704, 0x400708, 0x40070c] s;
     (handle, s) \<leftarrow> nv_rd32 d 0x400784 s;
     s \<leftarrow> read_regs d [0x400814] s;
     _ \<leftarrow> pscnv_chan_handle_lookup handle s;
     (status, s) \<leftarrow> for_each on_bits (graph_handlers d ecode) (status, s);
     s \<leftarrow> (if status \<noteq> 0 then nv_wr32 d 0x400100 status s else Some s);
     s \<leftarrow> nv50_vm_trap d s;
     nv_wr32 d 0x400500 0x10001 s }"

subsection \<open>PDISPLAY\<close>

definition nv50_display_error_handler :: "card \<Rightarrow> kern \<Rightarrow> kern option" where
  "nv50_display_error_handler d s = do {
     s \<leftarrow> nv_wr32 d 0x610020 0x00010000 s;
     s \<leftarrow> read_regs d [0x610080, 0x610084] s;
     nv_wr32 d 0x610080 0x90000000 s }"

definition nv50_display_vblank_handler :: "card \<Rightarrow> u32 \<Rightarrow> kern \<Rightarrow> kern option" where
  "nv50_display_vblank_handler d intr s = do {
     let intr = intr AND 0xc;
     (en, s) \<leftarrow> nv_rd32 d 0x61002c s;
     write_regs d [(0x61002c, en AND NOT intr), (0x610024, intr)] s }"

text \<open>Work is put off unless it already waits: 0 is that of the clocks, 1 that of hotplug.\<close>

definition queue_once :: "card \<Rightarrow> nat \<Rightarrow> kern \<Rightarrow> kern option" where
  "queue_once d w s = do {
     ((pending, _), s) \<leftarrow> request d (WorkPending w) s;
     if pending = 0 then tell d (QueueWork w) s else Some s }"

partial_function (option) display_irq_loop :: "card \<Rightarrow> u32 \<Rightarrow> kern \<Rightarrow> kern option" where
  "display_irq_loop d delayed s = do {
     (pmc, s) \<leftarrow> nv_rd32 d 0x100 s;
     if pmc AND 0x4000000 = 0 then Some s
     else do {
       (intr0, s) \<leftarrow> nv_rd32 d 0x610020 s;
       (intr1, s) \<leftarrow> nv_rd32 d 0x610024 s;
       if intr0 = 0 \<and> intr1 AND NOT delayed = 0 then Some s
       else do {
         (intr0, s) \<leftarrow> on_bits (0x00010000, nv50_display_error_handler d) (intr0, s);
         (intr1, s) \<leftarrow> on_bits (0xc, nv50_display_vblank_handler d intr1) (intr1, s);
         let clock = intr1 AND 0x70;
         s \<leftarrow>
           (if clock \<noteq> 0 then do {
              s \<leftarrow> nv_wr32 d 0x140 0 s;
              queue_once d 0 s }
            else Some s);
         let intr1 = intr1 AND NOT clock;
         s \<leftarrow> (if intr0 \<noteq> 0 then nv_wr32 d 0x610020 intr0 s else Some s);
         s \<leftarrow> (if intr1 \<noteq> 0 then nv_wr32 d 0x610024 intr1 s else Some s);
         display_irq_loop d (delayed OR clock) s } } }"

definition nv50_display_irq_handler :: "card \<Rightarrow> kern \<Rightarrow> kern option" where
  "nv50_display_irq_handler d s = do {
     (pmc, s) \<leftarrow> nv_rd32 d 0x100 s;
     s \<leftarrow> (if pmc AND 0x200000 \<noteq> 0 then queue_once d 1 s else Some s);
     display_irq_loop d 0 s }"

subsection \<open>All interrupts\<close>

definition nouveau_crtc_irq_handler :: "card \<Rightarrow> u32 \<Rightarrow> kern \<Rightarrow> kern option" where
  "nouveau_crtc_irq_handler d crtc s = do {
     s \<leftarrow> (if crtc AND 1 \<noteq> 0 then nv_wr32 d 0x600100 1 s else Some s);
     if crtc AND 2 \<noteq> 0 then nv_wr32 d 0x602100 1 s else Some s }"

definition nouveau_pbus_irq_handler :: "card \<Rightarrow> kern \<Rightarrow> kern option" where
  "nouveau_pbus_irq_handler d s = do {
     (status, s) \<leftarrow> nv_rd32 d 0x1100 s;
     (status, s) \<leftarrow> on_bits (8, \<lambda>s. do {
         s \<leftarrow> read_regs d [0x9084, 0x9088] s;
         nv_wr32 d 0x1100 8 s }) (status, s);
     if status \<noteq> 0 then nv_wr32 d 0x1100 status s else Some s }"

primrec run_irq :: "card \<Rightarrow> irq \<Rightarrow> kern \<Rightarrow> kern option" where
  "run_irq d Nv50FifoIrq = nv50_fifo_irq_handler d"
| "run_irq d Nvc0FifoIrq = nvc0_fifo_irq_handler d"
| "run_irq d Nv50GraphIrq = nv50_graph_irq_handler d"

text \<open>The handler of line \<open>i\<close>, if the line is pending and has one.\<close>

definition irq_line :: "card \<Rightarrow> nat \<Rightarrow> u32 \<times> kern \<Rightarrow> (u32 \<times> kern) option" where
  "irq_line d i ss =
     (if bit (fst ss) i then
        (case irq_handler (snd ss) i of
           None \<Rightarrow> Some ss
         | Some h \<Rightarrow> do {
             s \<leftarrow> run_irq d h (snd ss);
             Some (fst ss AND NOT (push_bit i 1), s) })
      else Some ss)"

text \<open>Whether the card had anything to tell: \<open>IRQ_HANDLED\<close>.\<close>

definition nouveau_irq_handler :: "card \<Rightarrow> kern \<Rightarrow> (bool \<times> kern) option" where
  "nouveau_irq_handler d s = do {
     (status, s) \<leftarrow> nv_rd32 d 0x100 s;
     if status = 0 then Some (False, s)
     else do {
       (status, s) \<leftarrow> on_bits (0x80000000, nv_wr32 d 0x100 0) (status, s);
       (status, s) \<leftarrow> on_bits (0x10000000, nouveau_pbus_irq_handler d) (status, s);
       (status, s) \<leftarrow> for_each (irq_line d) [0..<32] (status, s);
       (status, s) \<leftarrow> on_bits (0x3000000, nouveau_crtc_irq_handler d (drop_bit 24 status AND 3)) (status, s);
       (status, s) \<leftarrow> on_bits (0x4200000, nv50_display_irq_handler d) (status, s);
       Some (True, s) } }"

declare display_irq_loop.simps [code]

end
