(* ===== verification/IrqProps.thy ===== *)
theory IrqProps
  imports GrIrq
begin

section \<open>Interrupts are acknowledged, every one and no other\<close>

text \<open>
  A handler that always ends and does nothing but make requests is described by what it writes to
  one register: the bits of all the values it writes there together. The locale \<open>acknowledging\<close> is
  for lists of handlers of single bits, each of which writes its own bit back; it is interpreted on
  the handlers of PFIFO, of PGRAPH and of the traps of PGRAPH.
\<close>

primrec acked :: "u32 \<Rightarrow> io list \<Rightarrow> u32" where
  "acked r [] = 0"
| "acked r (q # qs) = (case q of Wr32 r' v \<Rightarrow> if r' = r then v OR acked r qs else acked r qs | _ \<Rightarrow> acked r qs)"

lemma acked_append [simp]: "acked r (es @ es') = acked r es OR acked r es'"
  by (induction es) (auto split: io.split simp: or.assoc)

text \<open>
  The handlers look the channel of a fault up in the tables of channels and read where its instance
  memory is, without checking that it has any. So every channel in \<open>chans[]\<close> has to have an instance
  memory that is still there, and every one in \<open>fake_chans[]\<close> to be there itself. This does not hold
  while a channel is being made (it is entered into the table before \<open>do_chan_new\<close> gives it its memory)
  or freed (its memory goes before its entry).
\<close>

definition channels_live :: "kern \<Rightarrow> bool" where
  "channels_live s \<longleftrightarrow>
     (\<forall>i c. chans s i = Some c \<longrightarrow> (case chs s c of
        None \<Rightarrow> False
      | Some ch \<Rightarrow> (case cbo ch of None \<Rightarrow> False | Some b \<Rightarrow> bos s b \<noteq> None))) \<and>
     (\<forall>i c. fake_chans s i = Some c \<longrightarrow> chs s c \<noteq> None)"

text \<open>Then every handle can be looked up.\<close>

definition lookup_ok :: "kern \<Rightarrow> bool" where
  "lookup_ok s \<longleftrightarrow> (\<forall>h. pscnv_chan_handle_lookup h s \<noteq> None)"

lemma channels_live_lookup:
  assumes "channels_live s"
  shows "lookup_ok s"
proof -
  have "lookup_chan s h is \<noteq> None" for h "is"
  proof (induction "is")
    case (Cons i "is")
    show ?case
    proof (cases "chans s i")
      case (Some c)
      with assms have "case chs s c of None \<Rightarrow> False
        | Some ch \<Rightarrow> (case cbo ch of None \<Rightarrow> False | Some b \<Rightarrow> bos s b \<noteq> None)"
        by (simp add: channels_live_def)
      with Some Cons show ?thesis by (auto split: option.splits)
    qed (use Cons in simp)
  qed simp
  moreover have "lookup_fake s h is \<noteq> None" for h "is"
  proof (induction "is")
    case (Cons i "is")
    show ?case
    proof (cases "fake_chans s i")
      case (Some c)
      with assms have "chs s c \<noteq> None" unfolding channels_live_def by blast
      then obtain ch where "chs s c = Some ch" by blast
      with Some Cons show ?thesis by simp
    qed (use Cons in simp)
  qed simp
  ultimately have total: "lookup_chan s h is \<noteq> None" "lookup_fake s h is \<noteq> None" for h "is" by blast+
  have "pscnv_chan_handle_lookup h s \<noteq> None" for h
  proof -
    obtain r where "lookup_chan s h [0..<128] = Some r" using total(1) by blast
    moreover obtain f where "lookup_fake s h [0..<4] = Some f" using total(2) by blast
    ultimately show ?thesis by (simp add: pscnv_chan_handle_lookup_def del: upt_Suc split: option.split)
  qed
  then show ?thesis by (simp add: lookup_ok_def)
qed

definition acks :: "u32 \<Rightarrow> u32 \<Rightarrow> kern \<Rightarrow> kern option \<Rightarrow> bool" where
  "acks r w s m \<longleftrightarrow> (lookup_ok s \<longrightarrow> (\<exists>es. m = Some (s\<lparr>log := es @ log s\<rparr>) \<and> acked r es = w))"

text \<open>The same for a computation with a result that does not write to the register at all.\<close>

definition gives :: "u32 \<Rightarrow> kern \<Rightarrow> ('a \<times> kern) option \<Rightarrow> bool" where
  "gives r s m \<longleftrightarrow> (lookup_ok s \<longrightarrow> (\<exists>x es. m = Some (x, s\<lparr>log := es @ log s\<rparr>) \<and> acked r es = 0))"

named_theorems quiet \<open>computations that do not write to a register\<close>

lemma lookup_chan_log [simp]: "lookup_chan (s\<lparr>log := es\<rparr>) h is = lookup_chan s h is"
  by (induction "is") (simp_all cong: option.case_cong if_cong)

lemma lookup_fake_log [simp]: "lookup_fake (s\<lparr>log := es\<rparr>) h is = lookup_fake s h is"
  by (induction "is") (simp_all cong: option.case_cong if_cong)

lemma lookup_ok_log [simp]: "lookup_ok (s\<lparr>log := es\<rparr>) \<longleftrightarrow> lookup_ok s"
  unfolding lookup_ok_def pscnv_chan_handle_lookup_def lookup_chan_log lookup_fake_log ..

subsection \<open>Rules\<close>

lemma acks_Some [quiet]: "acks r 0 s (Some s)"
  by (auto simp: acks_def intro: exI [of _ "[]"])

lemma acks_then:
  assumes "acks r w s m" "\<And>s1. acks r w' s1 (f s1)"
  shows "acks r (w OR w') s (m \<bind> f)"
proof (cases "lookup_ok s")
  case True
  with assms(1) obtain es where es: "m = Some (s\<lparr>log := es @ log s\<rparr>)" "acked r es = w" by (auto simp: acks_def)
  from assms(2) [of "s\<lparr>log := es @ log s\<rparr>"] True obtain es' where
    "f (s\<lparr>log := es @ log s\<rparr>) = Some (s\<lparr>log := es' @ es @ log s\<rparr>)" "acked r es' = w'" by (auto simp: acks_def)
  with es show ?thesis by (auto simp: acks_def or.commute intro!: exI [of _ "es' @ es"])
qed (simp add: acks_def)

lemma acks_quiet_then: "acks r 0 s m \<Longrightarrow> (\<And>s1. acks r w s1 (f s1)) \<Longrightarrow> acks r w s (m \<bind> f)"
  using acks_then [of r 0 s m w f] by simp

lemma acks_then_quiet: "acks r w s m \<Longrightarrow> (\<And>s1. acks r 0 s1 (f s1)) \<Longrightarrow> acks r w s (m \<bind> f)"
  using acks_then [of r w s m 0 f] by simp

lemma acks_gives:
  assumes "gives r s m" "\<And>x s1. acks r w s1 (f x s1)"
  shows "acks r w s (m \<bind> (\<lambda>(x, s). f x s))"
proof (cases "lookup_ok s")
  case True
  with assms(1) obtain x es where es: "m = Some (x, s\<lparr>log := es @ log s\<rparr>)" "acked r es = 0" by (auto simp: gives_def)
  from assms(2) [of "s\<lparr>log := es @ log s\<rparr>" x] True obtain es' where
    "f x (s\<lparr>log := es @ log s\<rparr>) = Some (s\<lparr>log := es' @ es @ log s\<rparr>)" "acked r es' = w" by (auto simp: acks_def)
  with es show ?thesis by (auto simp: acks_def intro!: exI [of _ "es' @ es"])
qed (simp add: acks_def)

lemma gives_Some: "gives r s (Some (x, s))"
  by (auto simp: gives_def intro: exI [of _ "[]"])

lemma gives_rd32: "gives r s (nv_rd32 d x s)"
  by (cases "answer d (log s) (Rd32 x)")
    (auto simp: gives_def nv_rd32_def request_def intro: exI [of _ "[Rd32 x]"])

lemma gives_if: "(c \<Longrightarrow> gives r s a) \<Longrightarrow> (\<not> c \<Longrightarrow> gives r s b) \<Longrightarrow> gives r s (if c then a else b)"
  by simp

lemma gives_after:
  assumes "acks r 0 s m" "\<And>s1. gives r s1 (f s1)"
  shows "gives r s (m \<bind> f)"
proof (cases "lookup_ok s")
  case True
  with assms(1) obtain es where es: "m = Some (s\<lparr>log := es @ log s\<rparr>)" "acked r es = 0" by (auto simp: acks_def)
  from assms(2) [of "s\<lparr>log := es @ log s\<rparr>"] True obtain x es' where
    "f (s\<lparr>log := es @ log s\<rparr>) = Some (x, s\<lparr>log := es' @ es @ log s\<rparr>)" "acked r es' = 0" by (auto simp: gives_def)
  with es show ?thesis by (auto simp: gives_def intro!: exI [of _ "es' @ es"])
qed (simp add: gives_def)

lemma gives_bind:
  assumes "gives r s m" "\<And>x s1. gives r s1 (f x s1)"
  shows "gives r s (m \<bind> (\<lambda>(x, s). f x s))"
proof (cases "lookup_ok s")
  case True
  with assms(1) obtain x es where es: "m = Some (x, s\<lparr>log := es @ log s\<rparr>)" "acked r es = 0" by (auto simp: gives_def)
  from assms(2) [of "s\<lparr>log := es @ log s\<rparr>" x] True obtain y es' where
    "f x (s\<lparr>log := es @ log s\<rparr>) = Some (y, s\<lparr>log := es' @ es @ log s\<rparr>)" "acked r es' = 0" by (auto simp: gives_def)
  with es show ?thesis by (auto simp: gives_def intro!: exI [of _ "es' @ es"])
qed (simp add: gives_def)

lemmas gives_steps = gives_after gives_bind gives_if gives_Some gives_rd32
lemmas acks_read = acks_gives [OF gives_rd32]

lemma acks_write: "acks r (if x = r then v else 0) s (nv_wr32 d x v s)"
  by (auto simp: acks_def nv_wr32_def tell_def intro: exI [of _ "[Wr32 x v]"])

lemma quiet_write [quiet]: "x \<noteq> r \<Longrightarrow> acks r 0 s (nv_wr32 d x v s)"
  using acks_write [of r x v s d] by simp

lemma acks_own_write: "acks r v s (nv_wr32 d r v s)"
  using acks_write [of r r v s d] by simp

lemma quiet_print [quiet]: "acks r 0 s (tell d (Printk ws ns) s)"
  by (auto simp: acks_def tell_def intro: exI [of _ "[Printk ws ns]"])

lemma acks_if: "(c \<Longrightarrow> acks r w s a) \<Longrightarrow> (\<not> c \<Longrightarrow> acks r w s b) \<Longrightarrow> acks r w s (if c then a else b)"
  by simp

lemma acks_lookup: "(\<And>n. acks r w s (f n)) \<Longrightarrow> acks r w s (pscnv_chan_handle_lookup h s \<bind> f)"
  by (auto simp: acks_def lookup_ok_def) (metis bind.bind_lunit not_Some_eq)

lemma quiet_for_each [quiet]: "(\<And>x s. x \<in> set xs \<Longrightarrow> acks r 0 s (f x s)) \<Longrightarrow> acks r 0 s (for_each f xs s)"
  by (induction xs arbitrary: s) (auto intro: quiet acks_quiet_then)

lemma quiet_read_regs [quiet]: "acks r 0 s (read_regs d rs s)"
  unfolding read_regs_def by (intro quiet acks_read)

fun written :: "u32 \<Rightarrow> (u32 \<times> u32) list \<Rightarrow> u32" where
  "written r [] = 0"
| "written r ((x, v) # ws) = (if x = r then v OR written r ws else written r ws)"

lemma acks_write_regs: "written r ws = w \<Longrightarrow> acks r w s (write_regs d ws s)"
proof (induction ws arbitrary: s w)
  case Nil
  then show ?case by (simp add: write_regs_def acks_Some)
next
  case (Cons xv ws)
  obtain x v where xv: "xv = (x, v)" by (cases xv)
  have "acks r ((if x = r then v else 0) OR written r ws) s (nv_wr32 d x v s \<bind> write_regs d ws)"
    by (intro acks_then acks_write Cons.IH refl)
  with Cons.prems show ?case by (simp add: xv write_regs_def split: if_splits)
qed

lemmas acks_steps = acks_quiet_then acks_read acks_if acks_lookup

subsection \<open>The MMU and the parts of PGRAPH\<close>

lemma quiet_vm_trap [quiet]:
  assumes "r \<noteq> 0x100c90"
  shows "acks r 0 s (nv50_vm_trap d s)"
proof -
  have word: "gives r s (vm_trap_word d idx i s)" for idx i s
    unfolding vm_trap_word_def by (intro gives_steps quiet) (use assms in auto)
  show ?thesis
    unfolding nv50_vm_trap_def Let_def by (intro acks_steps acks_gives [OF word] quiet) (use assms in auto)
qed

subsection \<open>Lists of handlers of single bits\<close>

lemma single_bit:
  assumes "(w :: u32) AND 2 ^ k \<noteq> 0"
  shows "2 ^ k OR (w AND NOT (2 ^ k)) = w"
  by (rule bit_word_eqI) (use assms in \<open>auto simp: and_exp_eq_0_iff_not_bit bit_simps\<close>)

locale acknowledging =
  fixes r :: u32
    and hs :: "(u32 \<times> (kern \<Rightarrow> kern option)) list"
  assumes single: "(b, h) \<in> set hs \<Longrightarrow> \<exists>k. b = 2 ^ k"
    and own: "(b, h) \<in> set hs \<Longrightarrow> acks r b s (h s)"
begin

lemma handled_part:
  assumes "set hs' \<subseteq> set hs" "lookup_ok s"
  shows "\<exists>rest es. for_each on_bits hs' (st, s) = Some (rest, s\<lparr>log := es @ log s\<rparr>) \<and> acked r es OR rest = st"
  using assms
proof (induction hs' arbitrary: st s)
  case Nil
  then show ?case by (auto intro!: exI [of _ "[]"])
next
  case (Cons bh hs')
  obtain b h where bh: "bh = (b, h)" by (cases bh)
  with Cons.prems have mem: "(b, h) \<in> set hs" "set hs' \<subseteq> set hs" by auto
  show ?case
  proof (cases "st AND b = 0")
    case True
    with Cons.IH [OF mem(2) Cons.prems(2)] show ?thesis by (simp add: bh on_bits_def)
  next
    case False
    obtain k where k: "b = 2 ^ k" using single [OF mem(1)] by blast
    obtain es where es: "h s = Some (s\<lparr>log := es @ log s\<rparr>)" "acked r es = b"
      using own [OF mem(1), of s] Cons.prems(2) by (auto simp: acks_def)
    obtain rest es' where rest:
      "for_each on_bits hs' (st AND NOT b, s\<lparr>log := es @ log s\<rparr>) = Some (rest, s\<lparr>log := es' @ es @ log s\<rparr>)"
      "acked r es' OR rest = st AND NOT b"
      using Cons.IH [of "s\<lparr>log := es @ log s\<rparr>" "st AND NOT b"] mem(2) Cons.prems(2) by auto
    have "acked r (es' @ es) OR rest = b OR (st AND NOT b)" using rest(2) es(2) by (simp add: ac_simps)
    also have "\<dots> = st" unfolding k by (rule single_bit) (use False k in simp)
    finally have "acked r (es' @ es) OR rest = st" .
    moreover have "on_bits (b, h) (st, s) = Some (st AND NOT b, s\<lparr>log := es @ log s\<rparr>)"
      using False es(1) by (simp add: on_bits_def)
    ultimately show ?thesis using rest(1) by (intro exI [of _ rest] exI [of _ "es' @ es"]) (simp add: bh)
  qed
qed

text \<open>After the list, the bits that nobody knows are written back.\<close>

lemma acknowledge:
  "acks r st s (for_each on_bits hs (st, s) \<bind> (\<lambda>(rest, s). if rest \<noteq> 0 then nv_wr32 d r rest s else Some s))"
proof (cases "lookup_ok s")
  case True
  from handled_part [OF subset_refl True, of st] obtain rest es where rest:
    "for_each on_bits hs (st, s) = Some (rest, s\<lparr>log := es @ log s\<rparr>)" "acked r es OR rest = st" by blast
  then show ?thesis
    by (auto simp: acks_def nv_wr32_def tell_def or.commute intro: exI [of _ "Wr32 r rest # es"])
qed (simp add: acks_def)

lemma acknowledge_then:
  assumes "\<And>s. acks r 0 s (f s)"
  shows "acks r st s (for_each on_bits hs (st, s) \<bind>
    (\<lambda>(rest, s). (if rest \<noteq> 0 then nv_wr32 d r rest s else Some s) \<bind> f))"
  using acks_then_quiet [OF acknowledge [of st s d], of f, OF assms] by (simp add: case_prod_beta')

end

text \<open>The status is the first thing a handler reads.\<close>

lemma acks_first_read:
  assumes "\<And>v s. acks r v s (f v s)" "lookup_ok s"
  shows "\<exists>es. (nv_rd32 d x s \<bind> (\<lambda>(v, s). f v s)) = Some (s\<lparr>log := es @ log s\<rparr>) \<and>
    acked r es = snd (answer d (log s) (Rd32 x))"
proof -
  let ?v = "snd (answer d (log s) (Rd32 x))"
  have "nv_rd32 d x s = Some (?v, s\<lparr>log := [Rd32 x] @ log s\<rparr>)"
    by (cases "answer d (log s) (Rd32 x)") (simp add: nv_rd32_def request_def)
  with assms(1) [of ?v "s\<lparr>log := [Rd32 x] @ log s\<rparr>"] assms(2) show ?thesis
    by (auto simp: acks_def intro: exI [of _ "_ @ [Rd32 x]"])
qed

lemma single_bits:
  "\<exists>k. 1 = (2 :: u32) ^ k"
  "\<exists>k. 2 = (2 :: u32) ^ k"
  "\<exists>k. 4 = (2 :: u32) ^ k"
  "\<exists>k. 8 = (2 :: u32) ^ k"
  "\<exists>k. 16 = (2 :: u32) ^ k"
  "\<exists>k. 32 = (2 :: u32) ^ k"
  "\<exists>k. 64 = (2 :: u32) ^ k"
  "\<exists>k. 128 = (2 :: u32) ^ k"
  "\<exists>k. 256 = (2 :: u32) ^ k"
  "\<exists>k. 4096 = (2 :: u32) ^ k"
  "\<exists>k. 65536 = (2 :: u32) ^ k"
  "\<exists>k. 1048576 = (2 :: u32) ^ k"
  "\<exists>k. 2097152 = (2 :: u32) ^ k"
  "\<exists>k. 16777216 = (2 :: u32) ^ k"
  by ((rule exI [of _ 0], simp; fail) | (rule exI [of _ 1], simp; fail) | (rule exI [of _ 2], simp; fail) | (rule exI [of _ 3], simp; fail) | (rule exI [of _ 4], simp; fail) | (rule exI [of _ 5], simp; fail) | (rule exI [of _ 6], simp; fail) | (rule exI [of _ 7], simp; fail) | (rule exI [of _ 8], simp; fail) | (rule exI [of _ 12], simp; fail) | (rule exI [of _ 16], simp; fail) | (rule exI [of _ 20], simp; fail) | (rule exI [of _ 21], simp; fail) | (rule exI [of _ 24], simp; fail))+

subsection \<open>PFIFO\<close>

lemma quiet_cache_entry [quiet]: "acks r 0 s (cache_entry d get s)"
  unfolding cache_entry_def by (rule quiet)

lemma fifo_cache_error_acks: "acks 0x2100 0x1 s (fifo_cache_error d s)"
  unfolding fifo_cache_error_def by (intro acks_steps quiet acks_write_regs) simp_all

lemma fifo_dma_pusher_acks: "acks 0x2100 0x1000 s (fifo_dma_pusher d s)"
  unfolding fifo_dma_pusher_def by (intro acks_steps quiet acks_write_regs) simp_all

lemma fifo_semaphore_acks: "acks 0x2100 0x100000 s (fifo_semaphore d s)"
  unfolding fifo_semaphore_def by (intro acks_steps acks_gives gives_steps quiet acks_write_regs) simp_all

interpretation pfifo: acknowledging "0x2100" "nv50_fifo_handlers d" for d
  by unfold_locales
    (auto simp: nv50_fifo_handlers_def intro!: single_bits fifo_cache_error_acks fifo_dma_pusher_acks
      fifo_semaphore_acks acks_own_write)

text \<open>
  C25: As long as every channel in the driver's table has its instance memory, the interrupt handler of
  PFIFO on the NV50 family always ends, whatever the card answers, and
  the bits it writes back to the status register are exactly those that were pending when it read it:
  no interrupt is left pending, and none is acknowledged that was not reported. It changes nothing in
  the driver. (The report of an MMU fault at its end looks the channel up, which crashes otherwise.)
\<close>

theorem fifo_irq_acknowledges:
  assumes "channels_live s"
  shows "\<exists>es. nv50_fifo_irq_handler d s = Some (s\<lparr>log := es @ log s\<rparr>) \<and>
    acked 0x2100 es = snd (answer d (log s) (Rd32 0x2100))"
proof -
  have "acks 0x2100 v s (read_regs d [0x3204] s \<bind> (\<lambda>s. for_each on_bits (nv50_fifo_handlers d) (v, s) \<bind>
      (\<lambda>(status, s). (if status \<noteq> 0 then nv_wr32 d 0x2100 status s else Some s) \<bind> nv50_vm_trap d)))" for v s
    using pfifo.acknowledge [of v _ d] by (intro acks_quiet_then quiet pfifo.acknowledge_then) simp
  from acks_first_read [OF this channels_live_lookup [OF assms]] show ?thesis by (simp add: nv50_fifo_irq_handler_def)
qed

subsection \<open>PGRAPH and its traps\<close>

abbreviation graph_status :: "u32 set" where
  "graph_status \<equiv> {0x400100, 0x400108}"

lemma tp_cases:
  assumes "tp < 16"
    "P 0" "P 1" "P 2" "P 3" "P 4" "P 5" "P 6" "P 7" "P 8" "P 9" "P 10" "P 11" "P 12" "P 13" "P 14" "P 15"
  shows "P (tp :: nat)"
proof -
  have "tp \<in> {0, 1, 2, 3, 4, 5, 6, 7, 8, 9, 10, 11, 12, 13, 14, 15}"
    using assms(1) by (simp only: insert_iff empty_iff) presburger
  then show ?thesis using assms(2-) by (elim insertE) simp_all
qed

lemma trap_regs_apart:
  assumes "tp < 16" "r \<in> graph_status"
  shows "tex_trap_reg d tp \<noteq> r" "mpc_trap_reg d tp \<noteq> r" "tprop_trap_reg d tp \<noteq> r"
  by (rule tp_cases [OF assms(1)]; use assms(2) in \<open>auto simp: tex_trap_reg_def mpc_trap_reg_def tprop_trap_reg_def\<close>)+

lemma mp_regs_apart:
  assumes "tp < 16" "r \<in> graph_status" "mp \<in> {0, 1, 2}" "x \<in> {0x10, 0x14}"
  shows "0x408200 + of_nat (tp * 0x1000) + of_nat (mp * 0x80) + x \<noteq> r"
    "0x408100 + of_nat (tp * 0x800) + of_nat (mp * 0x80) + x \<noteq> r"
  by (rule tp_cases [OF assms(1)]; use assms(2-) in auto)+

lemma mp_trap_quiet:
  assumes "tp < 16" "r \<in> graph_status" "mp \<in> {0, 1, 2}"
  shows "acks r 0 s (nv50_graph_mp_trap d tp mp s)"
proof -
  define a :: u32 where "a = (if chipset d < 0xa0 then 0x408200 + of_nat (tp * 0x1000) + of_nat (mp * 0x80)
    else 0x408100 + of_nat (tp * 0x800) + of_nat (mp * 0x80))"
  have "a + x \<noteq> r" if "x \<in> {0x10, 0x14}" for x
    using mp_regs_apart [OF assms that] unfolding a_def by (simp split: if_splits)
  then have "written r [(a + 0x10, v), (a + 0x14, 0)] = 0" for v by simp
  then show ?thesis
    unfolding nv50_graph_mp_trap_def Let_def a_def [symmetric] by (intro acks_steps quiet acks_write_regs)
qed

lemma tex_trap_quiet: "tp < 16 \<Longrightarrow> r \<in> graph_status \<Longrightarrow> acks r 0 s (nv50_graph_tex_trap d tp s)"
  unfolding nv50_graph_tex_trap_def Let_def by (intro acks_steps quiet trap_regs_apart)

lemma tprop_trap_quiet: "tp < 16 \<Longrightarrow> r \<in> graph_status \<Longrightarrow> acks r 0 s (nv50_graph_tprop_trap d tp s)"
  unfolding nv50_graph_tprop_trap_def Let_def by (intro acks_steps quiet trap_regs_apart)

lemma gives_on_bits:
  "(\<And>h s. h \<in> set hs \<Longrightarrow> acks r 0 s (snd h s)) \<Longrightarrow> gives r s (for_each on_bits hs (st, s))"
proof (induction hs arbitrary: st s)
  case Nil
  then show ?case by (simp add: gives_Some)
next
  case (Cons h hs)
  have "gives r s (on_bits h (st, s))"
    unfolding on_bits_def fst_conv snd_conv by (intro gives_steps Cons.prems) simp
  then have "gives r s (on_bits h (st, s) \<bind> (\<lambda>(st, s). for_each on_bits hs (st, s)))"
    by (rule gives_bind) (rule Cons.IH, rule Cons.prems, simp)
  then show ?case by (simp add: case_prod_eta)
qed

lemma mpc_trap_quiet:
  assumes "tp < 16" "r \<in> graph_status"
  shows "acks r 0 s (nv50_graph_mpc_trap d tp s)"
proof -
  have "acks r 0 s (snd h s)"
    if "h \<in> set [(0x10000 :: u32, nv50_graph_mp_trap d tp 0), (0x20000, nv50_graph_mp_trap d tp 1),
      (0x4000000, nv50_graph_mp_trap d tp 2)]" for h s
    using that mp_trap_quiet [OF assms, of 0] mp_trap_quiet [OF assms, of 1] mp_trap_quiet [OF assms, of 2]
    unfolding list.set by (elim insertE emptyE) (simp_all only: snd_conv insert_iff simp_thms)
  note bits = gives_on_bits [OF this]
  show ?thesis
    unfolding nv50_graph_mpc_trap_def Let_def by (intro acks_steps acks_gives [OF bits] quiet trap_regs_apart assms)
qed

text \<open>What the trap handlers do, as seen from the status of the traps and from that of the interrupts.\<close>

lemma tp_traps_acks:
  assumes "\<And>i s. i < 16 \<Longrightarrow> acks r 0 s (trap i s)"
  shows "acks r (if r = 0x400108 then b else 0) s (tp_traps d units reg trap b s)"
proof -
  have "acks r 0 s (for_each (\<lambda>i s. do {
      (st, s) \<leftarrow> nv_rd32 d (reg i) s;
      if st AND 0x7fffffff \<noteq> 0 then trap i s else Some s }) (filter (bit units) [0..<16]) s)" for s
    by (intro quiet acks_steps assms) simp
  moreover have "acks r (if r = 0x400108 then b else 0) s (nv_wr32 d 0x400108 b s)" for s
    using acks_write [of r "0x400108" b s d] by (auto split: if_splits)
  ultimately show ?thesis unfolding tp_traps_def by (rule acks_quiet_then)
qed

lemma report_unit_quiet [quiet]: "acks r 0 s (report_unit d reg bits regs s)"
  unfolding report_unit_def by (intro acks_steps quiet)

text \<open>A bit as it shows in register \<open>r\<close> when it is written to the status of the traps.\<close>

definition trap_bit :: "u32 \<Rightarrow> u32 \<Rightarrow> u32" where
  "trap_bit r b = (if r = 0x400108 then b else 0)"

lemma trap_bit_written:
  assumes "r \<in> graph_status"
  shows "written r ((0x400108, b) # ws) = trap_bit r b OR written r ws"
  using assms by (auto simp: trap_bit_def)

lemma graph_traps_acks:
  assumes "(b, h) \<in> set (graph_traps d units)" "r \<in> graph_status"
  shows "acks r (trap_bit r b) s (h s)"
proof -
  have w: "written r [(x, v), (0x400108, b)] = trap_bit r b" if "x \<notin> graph_status" for x v b
    using that assms(2) by (auto simp: trap_bit_def)
  have w4: "written r [(0x400040, u), (0x400040, 0), (x, v), (0x400108, b)] = trap_bit r b"
    if "x \<notin> graph_status" for u x v b
    using that assms(2) by (auto simp: trap_bit_def)
  have q: "0x400500 \<noteq> r" "0x400808 \<noteq> r" "written r [(0x4008e8, v), (0x400848, 0)] = 0" for v
    using assms(2) by auto
  have disp: "acks r (trap_bit r 0x001) s (dispatch_trap d s)"
    unfolding dispatch_trap_def by (intro acks_steps quiet acks_write_regs q w) simp
  have m2mf: "acks r (trap_bit r 0x002) s (m2mf_trap d s)"
    unfolding m2mf_trap_def by (intro acks_steps quiet acks_write_regs w4) simp
  have strm: "acks r (trap_bit r 0x008) s (strmout_trap d s)"
    unfolding strmout_trap_def by (intro acks_steps quiet acks_write_regs w4) simp
  have plain: "acks r (trap_bit r b) s (plain_trap d reg b s)" if "reg \<notin> graph_status" for reg b
    unfolding plain_trap_def by (intro acks_steps quiet acks_write_regs w that)
  have tps: "acks r (trap_bit r b) s (tp_traps d units reg trap b s)"
    if "\<And>i s. i < 16 \<Longrightarrow> acks r 0 s (trap i s)" for reg trap b
    unfolding trap_bit_def by (rule tp_traps_acks [OF that])
  note tps [OF tex_trap_quiet [OF _ assms(2)]] tps [OF mpc_trap_quiet [OF _ assms(2)]]
    tps [OF tprop_trap_quiet [OF _ assms(2)]] plain [of "0x400c04"] plain [of "0x405018"] plain [of "0x402000"]
  with assms(1) disp m2mf strm show ?thesis unfolding graph_traps_def list.set
    by (elim insertE emptyE Pair_inject) simp_all
qed

interpretation traps: acknowledging "0x400108" "graph_traps d units" for d units
proof unfold_locales
  fix b h s
  assume h: "(b, h) \<in> set (graph_traps d units)"
  then show "\<exists>k. b = 2 ^ k" unfolding graph_traps_def list.set
    by (elim insertE emptyE Pair_inject) (simp_all only: single_bits)
  from graph_traps_acks [OF h, of "0x400108" s] show "acks 0x400108 b s (h s)" by (simp add: trap_bit_def)
qed

lemma trap_handler_quiet: "acks 0x400100 0 s (nv50_graph_trap_handler d s)"
proof -
  have h: "acks 0x400100 0 s (snd h s)" if "h \<in> set (graph_traps d units)" for h s units
    using graph_traps_acks [of "fst h" "snd h" d units "0x400100" s] that by (simp add: trap_bit_def)
  show ?thesis
    unfolding nv50_graph_trap_handler_def
    by (intro acks_steps acks_gives [OF gives_on_bits [OF h]] quiet) simp_all
qed

lemma graph_handlers_acks:
  assumes "(b, h) \<in> set (graph_handlers d ecode)"
  shows "(\<exists>k. b = 2 ^ k) \<and> acks 0x400100 b s (h s)"
proof -
  have err: "acks 0x400100 0x00100000 s (dispatch_error d ecode s)"
    unfolding dispatch_error_def Let_def by (intro acks_steps quiet acks_own_write)
  have trap: "acks 0x400100 0x00200000 s (nv50_graph_trap_handler d s \<bind> nv_wr32 d 0x400100 0x00200000)"
    by (rule acks_quiet_then [OF trap_handler_quiet acks_own_write])
  have "\<exists>k. b = 2 ^ k"
    using assms unfolding graph_handlers_def list.set set_append list.map
    by (elim UnE insertE emptyE Pair_inject) (simp_all only: single_bits)
  moreover have "acks 0x400100 b s (h s)"
    using assms unfolding graph_handlers_def list.set set_append list.map
    by (elim UnE insertE emptyE Pair_inject) (simp_all add: acks_own_write err trap)
  ultimately show ?thesis ..
qed

interpretation pgraph: acknowledging "0x400100" "graph_handlers d ecode" for d ecode
  by unfold_locales (simp_all add: graph_handlers_acks)

text \<open>
  C24: The handler of the traps of PGRAPH always ends, whatever the card answers and whatever units
  it has, and it writes back to the status of the traps exactly the bits that were pending: each of
  the units is handled once, unknown traps are cleared at the end, and no other trap is cleared.
\<close>

theorem trap_handler_acknowledges:
  assumes "lookup_ok s"
  shows "\<exists>es. nv50_graph_trap_handler d s = Some (s\<lparr>log := es @ log s\<rparr>) \<and>
    acked 0x400108 es = snd (answer d (log s) (Rd32 0x400108))"
proof -
  have "acks 0x400108 v s (nv_rd32 d 0x1540 s \<bind> (\<lambda>(units, s). for_each on_bits (graph_traps d units) (v, s) \<bind>
      (\<lambda>(status, s). if status \<noteq> 0 then nv_wr32 d 0x400108 status s else Some s)))" for v s
    by (intro acks_read traps.acknowledge)
  from acks_first_read [OF this] assms show ?thesis by (simp add: nv50_graph_trap_handler_def)
qed

text \<open>
  C23: As long as every channel in the driver's table has its instance memory, the interrupt handler of
  PGRAPH always ends, through all the traps below it and the report of
  a fault of the MMU, and the bits it writes back to the status register are exactly those that were
  pending when it read it; it changes nothing in the driver. (It looks the channel up by its handle,
  which crashes otherwise.)
\<close>

theorem graph_irq_acknowledges:
  assumes "channels_live s"
  shows "\<exists>es. nv50_graph_irq_handler d s = Some (s\<lparr>log := es @ log s\<rparr>) \<and>
    acked 0x400100 es = snd (answer d (log s) (Rd32 0x400100))"
proof -
  have last: "acks 0x400100 0 s (nv50_vm_trap d s \<bind> nv_wr32 d 0x400500 0x10001)" for s
    by (intro acks_quiet_then quiet) simp_all
  have "acks 0x400100 v s (do {
       (ecode, s) \<leftarrow> nv_rd32 d 0x400110 s;
       s \<leftarrow> read_regs d [0x400700, 0x400704, 0x400708, 0x40070c] s;
       (handle, s) \<leftarrow> nv_rd32 d 0x400784 s;
       s \<leftarrow> read_regs d [0x400814] s;
       _ \<leftarrow> pscnv_chan_handle_lookup handle s;
       (status, s) \<leftarrow> for_each on_bits (graph_handlers d ecode) (v, s);
       s \<leftarrow> (if status \<noteq> 0 then nv_wr32 d 0x400100 status s else Some s);
       s \<leftarrow> nv50_vm_trap d s;
       nv_wr32 d 0x400500 0x10001 s })" for v s
    by (intro acks_quiet_then acks_read acks_lookup quiet pgraph.acknowledge_then last)
  from acks_first_read [OF this channels_live_lookup [OF assms]] show ?thesis by (simp add: nv50_graph_irq_handler_def)
qed

subsection \<open>A card and drivers for the examples\<close>

lemma blank_channels_live: "channels_live blank_kern"
  by (simp add: channels_live_def blank_kern_def)

text \<open>A driver with one channel, complete.\<close>

definition one_channel :: kern where
  "one_channel = blank_kern\<lparr>chs := [0 \<mapsto> (new_chan 0)\<lparr>cid := 1, cbo := Some 3\<rparr>], chans := [1 \<mapsto> 0],
     bos := [3 \<mapsto> blank_bo 0x100000 0x8000]\<rparr>"

lemma one_channel_live: "channels_live one_channel"
  by (simp add: channels_live_def one_channel_def blank_kern_def)

lemmas blank_lookup_ok = channels_live_lookup [OF blank_channels_live]

text \<open>Every register of the card reads as one value.\<close>

abbreviation reads_as :: "u32 \<Rightarrow> card" where
  "reads_as v \<equiv> (example_card 0x50 0xa0)\<lparr>answer := \<lambda>_ _. (0, v)\<rparr>"

theorem fifo_irq_acknowledges_witness:
  "\<exists>es. nv50_fifo_irq_handler (reads_as 0x80101011) one_channel = Some (one_channel\<lparr>log := es\<rparr>) \<and>
    acked 0x2100 es = 0x80101011"
  using fifo_irq_acknowledges [OF one_channel_live, of "reads_as 0x80101011"] by (simp add: one_channel_def blank_kern_def)

theorem trap_handler_acknowledges_witness:
  "\<exists>es. nv50_graph_trap_handler (reads_as 0x000081c3) blank_kern = Some (blank_kern\<lparr>log := es\<rparr>) \<and>
    acked 0x400108 es = 0x000081c3"
  using trap_handler_acknowledges [OF blank_lookup_ok, of "reads_as 0x000081c3"] by (simp add: blank_kern_def)

theorem graph_irq_acknowledges_witness:
  "\<exists>es. nv50_graph_irq_handler (reads_as 0x00310001) one_channel = Some (one_channel\<lparr>log := es\<rparr>) \<and>
    acked 0x400100 es = 0x00310001"
  using graph_irq_acknowledges [OF one_channel_live, of "reads_as 0x00310001"] by (simp add: one_channel_def blank_kern_def)

subsection \<open>A channel that is not ready\<close>

text \<open>
  C28: \<open>pscnv_chan_new\<close> enters the channel into the table of channels (\<open>pscnv_chan_bind\<close>) before it has
  an instance memory. An interrupt of PGRAPH between the two reads through the NULL pointer, whatever it
  reports, when no other channel comes before the new one.
\<close>

theorem irq_while_channel_made_crashes:
  assumes "pscnv_chan_bind c 0 s = Some (Inr (), s')" "\<And>i. chans s i = None" "ch_max s < 128"
    and "chs s c = Some ch" "cbo ch = None"
  shows "nv50_graph_irq_handler d s' = None"
proof -
  from assms(1,4) obtain i where f: "find (\<lambda>i. chans s i = None) [ch_min s..<Suc (ch_max s)] = Some i"
    "s' = s\<lparr>chs := (chs s)(c \<mapsto> ch\<lparr>cid := int i\<rparr>), chans := (chans s)(i \<mapsto> c)\<rparr>"
    by (auto simp: pscnv_chan_bind_def upd_ch_def split: if_splits option.splits)
  have "i \<in> set [ch_min s..<Suc (ch_max s)]" using f(1) by (metis find_Some_iff nth_mem)
  with assms(3) have i: "i < 128" by (simp del: upt_Suc)
  have at: "lookup_chan s1 h is = None" if "i \<in> set is" "chans s1 = chans s'" "chs s1 = chs s'" for s1 h "is"
    using that by (induction "is") (auto simp: f(2) assms(2,5))
  have lost: "pscnv_chan_handle_lookup h (s'\<lparr>log := l\<rparr>) = None" for h l
    using at [of "[0..<128]" "s'\<lparr>log := l\<rparr>" h] i by (simp add: pscnv_chan_handle_lookup_def)
  have rd: "\<exists>x l'. nv_rd32 d r (s'\<lparr>log := l\<rparr>) = Some (x, s'\<lparr>log := l'\<rparr>)" for r l
    by (cases "answer d l (Rd32 r)") (auto simp: nv_rd32_def request_def)
  have rds: "\<exists>l'. read_regs d rs (s'\<lparr>log := l\<rparr>) = Some (s'\<lparr>log := l'\<rparr>)" for rs l
  proof (induction rs arbitrary: l)
    case (Cons r rs)
    from rd [of r l] Cons show ?case by (fastforce simp: read_regs_def)
  next
    case Nil
    show ?case by (rule exI [of _ l]) (simp add: read_regs_def)
  qed
  have "s' = s'\<lparr>log := log s'\<rparr>" by simp
  with rd obtain x1 l1 where 1: "nv_rd32 d 0x400100 s' = Some (x1, s'\<lparr>log := l1\<rparr>)" by metis
  obtain x2 l2 where 2: "nv_rd32 d 0x400110 (s'\<lparr>log := l1\<rparr>) = Some (x2, s'\<lparr>log := l2\<rparr>)" using rd by blast
  obtain l3 where 3: "read_regs d [0x400700, 0x400704, 0x400708, 0x40070c] (s'\<lparr>log := l2\<rparr>) = Some (s'\<lparr>log := l3\<rparr>)"
    using rds by blast
  obtain x4 l4 where 4: "nv_rd32 d 0x400784 (s'\<lparr>log := l3\<rparr>) = Some (x4, s'\<lparr>log := l4\<rparr>)" using rd by blast
  obtain l5 where 5: "read_regs d [0x400814] (s'\<lparr>log := l4\<rparr>) = Some (s'\<lparr>log := l5\<rparr>)" using rds by blast
  show ?thesis unfolding nv50_graph_irq_handler_def by (simp add: 1 2 3 4 5 lost)
qed

theorem irq_while_channel_made_crashes_witness:
  "\<exists>s'. pscnv_chan_bind 0 0 (blank_kern\<lparr>chs := [0 \<mapsto> new_chan 0]\<rparr>) = Some (Inr (), s') \<and>
     nv50_graph_irq_handler (reads_as 0x00310001) s' = None"
proof -
  let ?s = "blank_kern\<lparr>chs := [0 \<mapsto> new_chan 0]\<rparr>"
  have "find (\<lambda>i. chans ?s i = None) [ch_min ?s..<Suc (ch_max ?s)] = Some 1"
    by (simp add: blank_kern_def upt_conv_Cons)
  then have "pscnv_chan_bind 0 0 ?s = Some (Inr (), ?s\<lparr>chs := [0 \<mapsto> (new_chan 0)\<lparr>cid := 1\<rparr>], chans := (chans ?s)(1 \<mapsto> 0)\<rparr>)"
    by (simp add: pscnv_chan_bind_def upd_ch_def new_chan_def)
  then show ?thesis
    using irq_while_channel_made_crashes [of 0 ?s _ "new_chan 0" "reads_as 0x00310001"]
    by (simp add: blank_kern_def new_chan_def)
qed

end
