(* ===== verification/LibPscnv.thy ===== *)
theory LibPscnv
  imports Prelude
begin

section \<open>The library of the clients\<close>

text \<open>
  \<open>libpscnv/libpscnv.c\<close>: one function per request of the driver. The library runs in a process of
  its own, so it has requests of its own, \<open>ureq\<close>: system calls, and loads and stores of memory it
  shares with the card. What answers them (the kernel, the card) is a function from the requests so
  far and the new one to a return value and the fields the kernel filled in, numbered in the order of
  the struct. The stores are part of the log, so that it says what the card can see, and when. The
  functions whose names the driver has too end in \<open>_lib\<close> here.
\<close>

datatype ureq =
    Getparam u64
  | GemNew u32 u32 u32 u64 "u32 list option" | GemInfo u32 | GemClose u32 | GemFlink u32 | GemOpen u32
  | VspaceNew | VspaceFree u32 | VspaceMap u32 u32 u64 u64 u32 u32 | VspaceUnmap u32 u64
  | ChanNew u32 | ChanFree u32
  | ObjVdmaNew u32 u32 u32 u32 u64 u64 | ObjEngNew u32 u32 u32 u32
  | FifoInit u32 u32 u32 u32 u64 | FifoInitIb u32 u32 u32 u32 u64 u32
  | Malloc | Free | Mmap u64 u64 | Munmap u64 u64 | SchedYield
  | ChmapRd nat | ChmapWr nat u32 | IbStore nat u32 | PbStore nat u32

type_synonym server = "ureq list \<Rightarrow> ureq \<Rightarrow> int \<times> (nat \<Rightarrow> u64)"

record proc =
  ulog :: "ureq list"

definition ask :: "server \<Rightarrow> ureq \<Rightarrow> 's proc_scheme \<Rightarrow> (int \<times> (nat \<Rightarrow> u64)) \<times> 's proc_scheme" where
  "ask k q s = (k (ulog s) q, s\<lparr>ulog := q # ulog s\<rparr>)"

text \<open>A request whose struct has fields to hand out: they are there when the return value is 0.\<close>

definition command :: "server \<Rightarrow> ureq \<Rightarrow> ((nat \<Rightarrow> u64) \<Rightarrow> 'a) \<Rightarrow> 's proc_scheme \<Rightarrow> (int + 'a) \<times> 's proc_scheme" where
  "command k q out s = (case ask k q s of ((ret, f), s) \<Rightarrow> (if ret \<noteq> 0 then Inl ret else Inr (out f), s))"

abbreviation simple_command :: "server \<Rightarrow> ureq \<Rightarrow> 's proc_scheme \<Rightarrow> int \<times> 's proc_scheme" where
  "simple_command k q s \<equiv> (case ask k q s of ((ret, _), s) \<Rightarrow> (ret, s))"

definition pscnv_getparam :: "server \<Rightarrow> u64 \<Rightarrow> 's proc_scheme \<Rightarrow> (int + u64) \<times> 's proc_scheme" where
  "pscnv_getparam k param = command k (Getparam param) (\<lambda>f. f 1)"

definition pscnv_gem_new_lib ::
  "server \<Rightarrow> u32 \<Rightarrow> u32 \<Rightarrow> u32 \<Rightarrow> u64 \<Rightarrow> u32 list option \<Rightarrow> 's proc_scheme \<Rightarrow> (int + u32 \<times> u64) \<times> 's proc_scheme" where
  "pscnv_gem_new_lib k cookie flags tile_flags sz usr =
     command k (GemNew cookie flags tile_flags sz usr) (\<lambda>f. (ucast (f 0), f 5))"

text \<open>The cookie, the flags, the tile flags, the size, the handle for mapping and the eight words of the user.\<close>

definition pscnv_gem_info ::
  "server \<Rightarrow> u32 \<Rightarrow> 's proc_scheme \<Rightarrow> (int + u32 \<times> u32 \<times> u32 \<times> u64 \<times> u64 \<times> u32 list) \<times> 's proc_scheme" where
  "pscnv_gem_info k h = command k (GemInfo h)
     (\<lambda>f. (ucast (f 1), ucast (f 2), ucast (f 3), f 4, f 5, map (\<lambda>i. ucast (f (6 + i))) [0..<8]))"

definition pscnv_gem_close :: "server \<Rightarrow> u32 \<Rightarrow> 's proc_scheme \<Rightarrow> int \<times> 's proc_scheme" where
  "pscnv_gem_close k h s = simple_command k (GemClose h) s"

definition pscnv_gem_flink :: "server \<Rightarrow> u32 \<Rightarrow> 's proc_scheme \<Rightarrow> (int + u32) \<times> 's proc_scheme" where
  "pscnv_gem_flink k h = command k (GemFlink h) (\<lambda>f. ucast (f 1))"

definition pscnv_gem_open :: "server \<Rightarrow> u32 \<Rightarrow> 's proc_scheme \<Rightarrow> (int + u32 \<times> u64) \<times> 's proc_scheme" where
  "pscnv_gem_open k name = command k (GemOpen name) (\<lambda>f. (ucast (f 1), f 2))"

definition pscnv_vspace_new_lib :: "server \<Rightarrow> 's proc_scheme \<Rightarrow> (int + u32) \<times> 's proc_scheme" where
  "pscnv_vspace_new_lib k = command k VspaceNew (\<lambda>f. ucast (f 0))"

definition pscnv_vspace_free :: "server \<Rightarrow> u32 \<Rightarrow> 's proc_scheme \<Rightarrow> int \<times> 's proc_scheme" where
  "pscnv_vspace_free k vid s = simple_command k (VspaceFree vid) s"

definition pscnv_vspace_map_lib ::
  "server \<Rightarrow> u32 \<Rightarrow> u32 \<Rightarrow> u64 \<Rightarrow> u64 \<Rightarrow> u32 \<Rightarrow> u32 \<Rightarrow> 's proc_scheme \<Rightarrow> (int + u64) \<times> 's proc_scheme" where
  "pscnv_vspace_map_lib k vid h start stop back flags =
     command k (VspaceMap vid h start stop back flags) (\<lambda>f. f 6)"

definition pscnv_vspace_unmap_lib :: "server \<Rightarrow> u32 \<Rightarrow> u64 \<Rightarrow> 's proc_scheme \<Rightarrow> int \<times> 's proc_scheme" where
  "pscnv_vspace_unmap_lib k vid ofs s = simple_command k (VspaceUnmap vid ofs) s"

definition pscnv_chan_new_lib :: "server \<Rightarrow> u32 \<Rightarrow> 's proc_scheme \<Rightarrow> (int + u32 \<times> u64) \<times> 's proc_scheme" where
  "pscnv_chan_new_lib k vid = command k (ChanNew vid) (\<lambda>f. (ucast (f 1), f 2))"

definition pscnv_chan_free :: "server \<Rightarrow> u32 \<Rightarrow> 's proc_scheme \<Rightarrow> int \<times> 's proc_scheme" where
  "pscnv_chan_free k cid s = simple_command k (ChanFree cid) s"

definition pscnv_obj_vdma_new ::
  "server \<Rightarrow> u32 \<Rightarrow> u32 \<Rightarrow> u32 \<Rightarrow> u32 \<Rightarrow> u64 \<Rightarrow> u64 \<Rightarrow> 's proc_scheme \<Rightarrow> int \<times> 's proc_scheme" where
  "pscnv_obj_vdma_new k cid h oclass flags start sz s =
     simple_command k (ObjVdmaNew cid h oclass flags start sz) s"

definition pscnv_fifo_init ::
  "server \<Rightarrow> u32 \<Rightarrow> u32 \<Rightarrow> u32 \<Rightarrow> u32 \<Rightarrow> u64 \<Rightarrow> 's proc_scheme \<Rightarrow> int \<times> 's proc_scheme" where
  "pscnv_fifo_init k cid pb flags slimask start s = simple_command k (FifoInit cid pb flags slimask start) s"

definition pscnv_fifo_init_ib ::
  "server \<Rightarrow> u32 \<Rightarrow> u32 \<Rightarrow> u32 \<Rightarrow> u32 \<Rightarrow> u64 \<Rightarrow> u32 \<Rightarrow> 's proc_scheme \<Rightarrow> int \<times> 's proc_scheme" where
  "pscnv_fifo_init_ib k cid pb flags slimask start order s =
     simple_command k (FifoInitIb cid pb flags slimask start order) s"

definition pscnv_obj_eng_new :: "server \<Rightarrow> u32 \<Rightarrow> u32 \<Rightarrow> u32 \<Rightarrow> u32 \<Rightarrow> 's proc_scheme \<Rightarrow> int \<times> 's proc_scheme" where
  "pscnv_obj_eng_new k cid h oclass flags s = simple_command k (ObjEngNew cid h oclass flags) s"

end
