(* ===== verification/IbRing.thy ===== *)
theory IbRing
  imports LibPscnv
begin

section \<open>Channels of a client and their rings\<close>

text \<open>
  \<open>libpscnv/libpscnv_ib.c\<close> and \<open>libpscnv_ib.h\<close>. A channel has two rings in shared memory: the words
  of commands (\<open>pb_map\<close>) and the entries that tell the card which runs of words to fetch
  (\<open>ib_map\<close>, two words each). An array is a list, an access outside it a crash. What the mapped
  memory held before is nobody's promise: it is an argument of \<open>pscnv_ib_chan_new\<close>.
\<close>

record pscnv_ib_bo =
  bo_vid :: u32
  bo_handle :: u32
  bo_map :: u64
  bo_size :: u32
  bo_base :: u64

record pscnv_ib_chan = proc +
  vid :: u32
  cid :: u32
  chmap :: u64
  pb_dma :: u32
  ib :: pscnv_ib_bo
  ib_map :: "u32 list"
  ib_order :: u32
  ib_mask :: u32
  ib_put :: u32
  ib_get :: u32
  pb :: pscnv_ib_bo
  pb_map :: "u32 list"
  pb_order :: u32
  pb_base :: u64
  pb_mask :: u32
  pb_size :: u32
  pb_pos :: u32
  pb_put :: u32
  pb_get :: u32

definition PSCNV_GEM_MAPPABLE :: u32 where "PSCNV_GEM_MAPPABLE = 2"
definition PSCNV_GEM_SYSRAM_SNOOP :: u32 where "PSCNV_GEM_SYSRAM_SNOOP = 4"

subsection \<open>Buffer objects\<close>

text \<open>
  \<open>Inr\<close> is 0, \<open>Inl\<close> is 1. \<open>mmap\<close> gives the address, or -1 as the return value. An address in no
  address space and a mapping that was not asked for are 0 here; C leaves the former as it was.
\<close>

definition pscnv_ib_bo_alloc ::
  "server \<Rightarrow> u32 \<Rightarrow> u32 \<Rightarrow> u32 \<Rightarrow> u32 \<Rightarrow> u64 \<Rightarrow> u32 list option \<Rightarrow> 's proc_scheme
     \<Rightarrow> (unit + pscnv_ib_bo) \<times> 's proc_scheme" where
  "pscnv_ib_bo_alloc k v cookie flags tile_flags sz usr s =
     (case ask k Malloc s of ((failed, _), s) \<Rightarrow>
      if failed \<noteq> 0 then (Inl (), s)
      else case pscnv_gem_new_lib k cookie flags tile_flags sz usr s of
        (Inl _, s) \<Rightarrow> (Inl (), snd (ask k Free s))
      | (Inr (h, map_handle), s) \<Rightarrow>
          (case (if v \<noteq> 0 then pscnv_vspace_map_lib k v h 0x20000000 (2 ^ 40) 0 0 s else (Inr 0, s)) of
             (Inl _, s) \<Rightarrow> (Inl (), snd (ask k Free (snd (pscnv_gem_close k h s))))
           | (Inr base, s) \<Rightarrow>
               (case (if flags AND PSCNV_GEM_MAPPABLE \<noteq> 0 then ask k (Mmap sz map_handle) s else ((0, \<lambda>_. 0), s)) of
                  ((failed, f), s) \<Rightarrow>
                    if failed \<noteq> 0 then
                      let s = (if v \<noteq> 0 then snd (pscnv_vspace_unmap_lib k v base s) else s) in
                      (Inl (), snd (ask k Free (snd (pscnv_gem_close k h s))))
                    else (Inr \<lparr>bo_vid = v, bo_handle = h, bo_map = f 0, bo_size = ucast sz, bo_base = base\<rparr>, s))))"

definition pscnv_ib_bo_free :: "server \<Rightarrow> pscnv_ib_bo \<Rightarrow> 's proc_scheme \<Rightarrow> 's proc_scheme" where
  "pscnv_ib_bo_free k b s =
     (let s = (if bo_map b \<noteq> 0 then snd (ask k (Munmap (bo_map b) (ucast (bo_size b))) s) else s);
          s = (if bo_vid b \<noteq> 0 then snd (pscnv_vspace_unmap_lib k (bo_vid b) (bo_base b) s) else s);
          s = snd (pscnv_gem_close k (bo_handle b) s)
      in snd (ask k Free s))"

subsection \<open>Making a channel\<close>

text \<open>
  The ways out on failure, in the order of the code: each gives back what it names and falls through
  to the next. The labels \<open>out_ib\<close> and \<open>out_vdma\<close> are one.
\<close>

definition out_vs :: "server \<Rightarrow> 's proc_scheme \<Rightarrow> 's proc_scheme" where
  "out_vs k s = snd (ask k Free s)"

definition out_chan :: "server \<Rightarrow> u32 \<Rightarrow> u32 \<Rightarrow> 's proc_scheme \<Rightarrow> 's proc_scheme" where
  "out_chan k arg v s = out_vs k (if arg = 0 then snd (pscnv_vspace_free k v s) else s)"

definition out_chmap :: "server \<Rightarrow> u32 \<Rightarrow> u32 \<Rightarrow> u32 \<Rightarrow> 's proc_scheme \<Rightarrow> 's proc_scheme" where
  "out_chmap k arg v c s = out_chan k arg v (snd (pscnv_chan_free k c s))"

definition out_vdma :: "server \<Rightarrow> u32 \<Rightarrow> u32 \<Rightarrow> u32 \<Rightarrow> u64 \<Rightarrow> 's proc_scheme \<Rightarrow> 's proc_scheme" where
  "out_vdma k arg v c m s = out_chmap k arg v c (snd (ask k (Munmap m 0x2000) s))"

definition out_pb :: "server \<Rightarrow> u32 \<Rightarrow> u32 \<Rightarrow> u32 \<Rightarrow> u64 \<Rightarrow> pscnv_ib_bo \<Rightarrow> 's proc_scheme \<Rightarrow> 's proc_scheme" where
  "out_pb k arg v c m ibo s = out_vdma k arg v c m (pscnv_ib_bo_free k ibo s)"

definition out_fifo ::
  "server \<Rightarrow> u32 \<Rightarrow> u32 \<Rightarrow> u32 \<Rightarrow> u64 \<Rightarrow> pscnv_ib_bo \<Rightarrow> pscnv_ib_bo \<Rightarrow> 's proc_scheme \<Rightarrow> 's proc_scheme" where
  "out_fifo k arg v c m ibo pbo s = out_pb k arg v c m ibo (pscnv_ib_bo_free k pbo s)"

text \<open>\<open>1 << n\<close> of C, for an \<open>int\<close>: more than 30 is undefined.\<close>

definition one_shl :: "u32 \<Rightarrow> u32 option" where
  "one_shl n = (if n \<le> 30 then Some (2 ^ unat n) else None)"

text \<open>
  The two rings and the start of the channel. \<open>mem\<close> is what the memory of the rings holds when it is
  mapped.
\<close>

definition ib_chan_rings ::
  "server \<Rightarrow> (u64 \<Rightarrow> u64 \<Rightarrow> u32 list) \<Rightarrow> u32 \<Rightarrow> u32 \<Rightarrow> u32 \<Rightarrow> u64 \<Rightarrow> u32 \<Rightarrow> u32 \<Rightarrow> u32 \<Rightarrow> proc \<Rightarrow> (proc + pscnv_ib_chan) option" where
  "ib_chan_rings k mem arg v c m dma pbo ibo s = do {
     let ibo = (if ibo = 0 then 9 else ibo);
     n \<leftarrow> (if ibo \<le> 27 then one_shl (ibo + 3) else None);
     case pscnv_ib_bo_alloc k v 0xf1f01b (PSCNV_GEM_SYSRAM_SNOOP OR PSCNV_GEM_MAPPABLE) 0 (ucast n) None s of
       (Inl _, s) \<Rightarrow> Some (Inl (out_vdma k arg v c m s))
     | (Inr ibb, s) \<Rightarrow> do {
         n \<leftarrow> one_shl ibo;
         let pbo = (if pbo = 0 then 20 else pbo);
         sz \<leftarrow> one_shl pbo;
         case pscnv_ib_bo_alloc k v 0xf1f0 (PSCNV_GEM_SYSRAM_SNOOP OR PSCNV_GEM_MAPPABLE) 0 (ucast sz) None s of
           (Inl _, s) \<Rightarrow> Some (Inl (out_pb k arg v c m ibb s))
         | (Inr pbb, s) \<Rightarrow>
             (case pscnv_fifo_init_ib k c dma 0 1 (bo_base ibb) ibo s of (ret, s) \<Rightarrow>
                if ret \<noteq> 0 then Some (Inl (out_fifo k arg v c m ibb pbb s))
                else Some (Inr (proc.extend s
                  \<lparr>vid = v, cid = c, chmap = m, pb_dma = dma,
                   ib = ibb, ib_map = mem (bo_map ibb) (ucast (bo_size ibb)), ib_order = ibo, ib_mask = n - 1,
                   ib_put = 0, ib_get = 0,
                   pb = pbb, pb_map = mem (bo_map pbb) (ucast (bo_size pbb)), pb_order = pbo,
                   pb_base = bo_base pbb, pb_mask = sz - 1, pb_size = sz,
                   pb_pos = 0, pb_put = 0, pb_get = 0\<rparr>))) } }"

definition pscnv_ib_chan_new ::
  "server \<Rightarrow> (u64 \<Rightarrow> u64 \<Rightarrow> u32 list) \<Rightarrow> u32 \<Rightarrow> u32 \<Rightarrow> u32 \<Rightarrow> u32 \<Rightarrow> proc \<Rightarrow> (proc + pscnv_ib_chan) option" where
  "pscnv_ib_chan_new k mem arg dma pbo ibo s = (case ask k Malloc s of ((failed, _), s) \<Rightarrow>
     if failed \<noteq> 0 then Some (Inl s)
     else case (if arg = 0 then pscnv_vspace_new_lib k s else (Inr arg, s)) of
       (Inl _, s) \<Rightarrow> Some (Inl (out_vs k s))
     | (Inr v, s) \<Rightarrow> (case pscnv_chan_new_lib k v s of
         (Inl _, s) \<Rightarrow> Some (Inl (out_chan k arg v s))
       | (Inr (c, map_handle), s) \<Rightarrow> (case ask k (Mmap 0x2000 map_handle) s of ((failed, f), s) \<Rightarrow>
           if failed \<noteq> 0 then Some (Inl (out_chmap k arg v c s))
           else case pscnv_obj_vdma_new k c dma 0x3d 0 0 (2 ^ 40) s of (ret, s) \<Rightarrow>
             if ret \<noteq> 0 then Some (Inl (out_vdma k arg v c (f 0) s))
             else ib_chan_rings k mem arg v c (f 0) dma pbo ibo s)))"

subsection \<open>The rings\<close>

text \<open>The control registers of the channel are mapped into the process.\<close>

definition chmap_rd :: "server \<Rightarrow> nat \<Rightarrow> pscnv_ib_chan \<Rightarrow> u32 \<times> pscnv_ib_chan" where
  "chmap_rd k r ch = (case ask k (ChmapRd r) ch of ((_, f), ch) \<Rightarrow> (ucast (f 0), ch))"

definition tell_card :: "ureq \<Rightarrow> pscnv_ib_chan \<Rightarrow> pscnv_ib_chan" where
  "tell_card q ch = ch\<lparr>ulog := q # ulog ch\<rparr>"

definition ib_store :: "nat \<Rightarrow> u32 \<Rightarrow> pscnv_ib_chan \<Rightarrow> pscnv_ib_chan option" where
  "ib_store i v ch =
     (if i < length (ib_map ch) then Some (tell_card (IbStore i v) (ch\<lparr>ib_map := (ib_map ch)[i := v]\<rparr>)) else None)"

definition pb_store :: "nat \<Rightarrow> u32 \<Rightarrow> pscnv_ib_chan \<Rightarrow> pscnv_ib_chan option" where
  "pb_store i v ch =
     (if i < length (pb_map ch) then Some (tell_card (PbStore i v) (ch\<lparr>pb_map := (pb_map ch)[i := v]\<rparr>)) else None)"

text \<open>The last address the card fetched from, once there is one. The two halves are read one after the other.\<close>

definition pscnv_ib_update_get :: "server \<Rightarrow> pscnv_ib_chan \<Rightarrow> pscnv_ib_chan" where
  "pscnv_ib_update_get k ch =
     (case chmap_rd k 0x58 ch of (lo, ch) \<Rightarrow>
      case chmap_rd k 0x5c ch of (hi, ch) \<Rightarrow>
        if hi AND 0x80000000 \<noteq> 0 then
          let mg = (push_bit 32 (ucast hi) OR ucast lo :: u64) AND 0xffffffffff
          in ch\<lparr>pb_get := ucast (mg - pb_base ch)\<rparr>
        else ch\<lparr>pb_get := 0\<rparr>)"

text \<open>Waiting for room among the entries.\<close>

partial_function (option) wait_entry :: "server \<Rightarrow> pscnv_ib_chan \<Rightarrow> pscnv_ib_chan option" where
  "wait_entry k ch =
     (if (ib_put ch + 1) AND ib_mask ch \<noteq> ib_get ch then Some ch
      else case chmap_rd k 0x88 ch of (v, ch') \<Rightarrow>
        wait_entry k ((if v = ib_get ch then tell_card SchedYield else id) (ch'\<lparr>ib_get := v\<rparr>)))"

definition pscnv_ib_push :: "server \<Rightarrow> u64 \<Rightarrow> u32 \<Rightarrow> u64 \<Rightarrow> pscnv_ib_chan \<Rightarrow> pscnv_ib_chan option" where
  "pscnv_ib_push k base len flags ch = do {
     let w = base OR push_bit 40 (ucast len) OR push_bit 40 flags;
     ch \<leftarrow> wait_entry k ch;
     ch \<leftarrow> ib_store (unat (ib_put ch * 2)) (ucast w) ch;
     ch \<leftarrow> ib_store (unat (ib_put ch * 2 + 1)) (ucast (drop_bit 32 w)) ch;
     let ch = ch\<lparr>ib_put := (ib_put ch + 1) AND ib_mask ch\<rparr>;
     Some (tell_card (ChmapWr 0x8c (ib_put ch)) ch) }"

definition FIRE_RING :: "server \<Rightarrow> pscnv_ib_chan \<Rightarrow> pscnv_ib_chan option" where
  "FIRE_RING k ch =
     (if pb_pos ch = pb_put ch then Some ch
      else do {
        ch \<leftarrow> (if pb_pos ch > pb_put ch then
                 pscnv_ib_push k (pb_base ch + ucast (pb_put ch)) (pb_pos ch - pb_put ch) 0 ch
               else do {
                 ch \<leftarrow> pscnv_ib_push k (pb_base ch + ucast (pb_put ch)) (pb_size ch - pb_put ch) 0 ch;
                 if pb_pos ch \<noteq> 0 then pscnv_ib_push k (pb_base ch) (pb_pos ch) 0 ch else Some ch });
        Some (ch\<lparr>pb_put := pb_pos ch\<rparr>) })"

text \<open>Waiting for room among the words: what has been written so far is handed over first.\<close>

partial_function (option) wait_word :: "server \<Rightarrow> pscnv_ib_chan \<Rightarrow> pscnv_ib_chan option" where
  "wait_word k ch =
     (if (pb_pos ch + 4) AND pb_mask ch \<noteq> pb_get ch then Some ch
      else do {
        ch' \<leftarrow> FIRE_RING k ch;
        let ch' = pscnv_ib_update_get k ch';
        wait_word k (if pb_get ch' = pb_get ch then tell_card SchedYield ch' else ch') })"

definition OUT_RING :: "server \<Rightarrow> u32 \<Rightarrow> pscnv_ib_chan \<Rightarrow> pscnv_ib_chan option" where
  "OUT_RING k word ch = do {
     ch \<leftarrow> wait_word k ch;
     ch \<leftarrow> pb_store (unat (pb_pos ch div 4)) word ch;
     Some (ch\<lparr>pb_pos := (pb_pos ch + 4) AND pb_mask ch\<rparr>) }"

definition BEGIN_RING50 :: "server \<Rightarrow> u32 \<Rightarrow> u32 \<Rightarrow> u32 \<Rightarrow> pscnv_ib_chan \<Rightarrow> pscnv_ib_chan option" where
  "BEGIN_RING50 k subc mthd len = OUT_RING k (mthd OR push_bit 13 subc OR push_bit 18 len)"

end
