(* ===== verification/IbProps.thy ===== *)
theory IbProps
  imports IbRing
begin

section \<open>The rings are queues\<close>

text \<open>
  What the card sees is the log of the process. \<open>entries\<close> reads from it the entries that have been
  handed over: the register of \<open>ib_put\<close> is written right after the two words of an entry. An entry
  names a run of words by its address and length. Of the card it is assumed that it takes entries and
  fetches words in order, never more than there are, and reports how far it is; it goes on within
  some number of requests.
\<close>

subsection \<open>What the card sees\<close>

fun entries :: "ureq list \<Rightarrow> u64 list" where
  "entries (ChmapWr r v # IbStore i hi # IbStore j lo # l) =
     entries l @ (if r = 0x8c then [push_bit 32 (ucast hi) OR ucast lo] else [])"
| "entries (_ # l) = entries l"
| "entries [] = []"

definition entry_words :: "u64 \<Rightarrow> nat" where
  "entry_words w = unat (drop_bit 40 w) div 4"

definition entry_addrs :: "u64 \<Rightarrow> nat list" where
  "entry_addrs w = map (\<lambda>i. unat (take_bit 40 w) + 4 * i) [0..<entry_words w]"

definition handed :: "ureq list \<Rightarrow> nat" where
  "handed l = sum_list (map entry_words (entries l))"

lemma entries_quiet [simp]:
  "entries (ChmapRd r # l) = entries l" "entries (SchedYield # l) = entries l"
  "entries (PbStore i v # l) = entries l" "entries (IbStore i v # l) = entries l"
  by simp_all

text \<open>
  A card of \<open>N\<close> entries and \<open>W\<close> words at \<open>base\<close>: \<open>taken\<close> counts the entries it has taken,
  \<open>fetched\<close> the words it has fetched.
\<close>

definition word_addr :: "u64 \<Rightarrow> nat \<Rightarrow> nat \<Rightarrow> u64" where
  "word_addr base W i = base + of_nat (4 * (i mod W))"

definition serves_in_order ::
  "server \<Rightarrow> nat \<Rightarrow> nat \<Rightarrow> u64 \<Rightarrow> (ureq list \<Rightarrow> nat) \<Rightarrow> (ureq list \<Rightarrow> nat) \<Rightarrow> bool" where
  "serves_in_order k N W base taken fetched \<longleftrightarrow>
     (\<forall>l. taken l \<le> length (entries l) \<and> fetched l \<le> handed l) \<and>
     (\<forall>q l. taken l \<le> taken (q # l) \<and> fetched l \<le> fetched (q # l)) \<and>
     (\<forall>l. (ucast (snd (k l (ChmapRd 0x88)) 0) :: u32) = of_nat (taken (ChmapRd 0x88 # l) mod N)) \<and>
     (\<forall>l. 0 < handed l \<longrightarrow>
        (ucast (snd (k l (ChmapRd 0x58)) 0) :: u32) = ucast (word_addr base W (fetched (ChmapRd 0x58 # l))) \<and>
        (ucast (snd (k l (ChmapRd 0x5c)) 0) :: u32) =
          0x80000000 OR ucast (drop_bit 32 (word_addr base W (fetched (ChmapRd 0x5c # l)))))"

definition idle_request :: "ureq \<Rightarrow> bool" where
  "idle_request q = (case q of ChmapRd _ \<Rightarrow> True | SchedYield \<Rightarrow> True | _ \<Rightarrow> False)"

definition goes_on :: "nat \<Rightarrow> (ureq list \<Rightarrow> nat) \<Rightarrow> (ureq list \<Rightarrow> nat) \<Rightarrow> bool" where
  "goes_on B taken fetched \<longleftrightarrow>
     (\<forall>l l'. B \<le> length l' \<longrightarrow> list_all idle_request l' \<longrightarrow>
        (taken l < length (entries l) \<longrightarrow> taken l < taken (l' @ l)) \<and>
        (fetched l < handed l \<longrightarrow> fetched l < fetched (l' @ l)))"

lemma entries_idle: "list_all idle_request l' \<Longrightarrow> entries (l' @ l) = entries l"
  by (induction l') (auto simp: idle_request_def split: ureq.splits)

lemma handed_idle: "list_all idle_request l' \<Longrightarrow> handed (l' @ l) = handed l"
  by (simp add: handed_def entries_idle)

subsection \<open>The rings hold what the card has not yet seen\<close>

definition shape :: "nat \<Rightarrow> nat \<Rightarrow> u64 \<Rightarrow> pscnv_ib_chan \<Rightarrow> bool" where
  "shape a b base ch \<longleftrightarrow>
     length (ib_map ch) = 2 * 2 ^ a \<and> ib_mask ch = mask a \<and>
     4 * length (pb_map ch) = 2 ^ b \<and> pb_mask ch = mask b \<and> pb_size ch = 2 ^ b \<and> pb_base ch = base"

definition ib_ok :: "nat \<Rightarrow> (ureq list \<Rightarrow> nat) \<Rightarrow> pscnv_ib_chan \<Rightarrow> nat \<Rightarrow> bool" where
  "ib_ok a taken ch c \<longleftrightarrow>
     (let es = entries (ulog ch); N = 2 ^ a in
      ib_put ch = of_nat (length es mod N) \<and> ib_get ch = of_nat (c mod N) \<and>
      c \<le> taken (ulog ch) \<and> length es < c + N \<and>
      (\<forall>j. c \<le> j \<longrightarrow> j < length es \<longrightarrow>
         ib_map ch ! (2 * (j mod N)) = ucast (es ! j) \<and>
         ib_map ch ! (2 * (j mod N) + 1) = ucast (drop_bit 32 (es ! j))))"

definition pb_mem :: "nat \<Rightarrow> (ureq list \<Rightarrow> nat) \<Rightarrow> u32 list \<Rightarrow> pscnv_ib_chan \<Rightarrow> nat \<Rightarrow> bool" where
  "pb_mem W fetched ws ch g \<longleftrightarrow>
     pb_pos ch = of_nat (4 * (length ws mod W)) \<and> pb_get ch = of_nat (4 * (g mod W)) \<and>
     g \<le> fetched (ulog ch) \<and> handed (ulog ch) \<le> length ws \<and> length ws < g + W \<and>
     (\<forall>i. g \<le> i \<longrightarrow> i < length ws \<longrightarrow> pb_map ch ! (i mod W) = ws ! i) \<and>
     concat (map entry_addrs (entries (ulog ch))) =
       map (\<lambda>i. unat (word_addr (pb_base ch) W i)) [0..<handed (ulog ch)]"

definition pb_ok :: "nat \<Rightarrow> (ureq list \<Rightarrow> nat) \<Rightarrow> u32 list \<Rightarrow> pscnv_ib_chan \<Rightarrow> nat \<Rightarrow> bool" where
  "pb_ok W fetched ws ch g \<longleftrightarrow>
     pb_mem W fetched ws ch g \<and> pb_put ch = of_nat (4 * (handed (ulog ch) mod W))"

subsection \<open>Arithmetic of the indices\<close>

lemma and_mask_of_nat: "(of_nat y :: 'a::len word) AND mask n = of_nat (y mod 2 ^ n)"
  by (simp only: take_bit_eq_mask [symmetric] take_bit_of_nat take_bit_eq_mod [of n y])

lemma of_nat_u32_eq_iff:
  assumes "y < 2 ^ 32" "z < 2 ^ 32"
  shows "(of_nat y :: u32) = of_nat z \<longleftrightarrow> y = z"
  using assms by (simp add: word_of_nat_eq_iff take_bit_nat_eq_self)

lemma mod_pow_less:
  assumes "a \<le> 31"
  shows "y mod 2 ^ a < (2 :: nat) ^ 32"
proof -
  have "y mod 2 ^ a < 2 ^ a" by simp
  also have "\<dots> \<le> 2 ^ 32" using assms by (intro power_increasing) simp_all
  finally show ?thesis .
qed

lemma of_nat_mod_eq_iff:
  assumes "a \<le> 31"
  shows "(of_nat (y mod 2 ^ a) :: u32) = of_nat (z mod 2 ^ a) \<longleftrightarrow> y mod 2 ^ a = z mod 2 ^ a"
  by (rule of_nat_u32_eq_iff [OF mod_pow_less [OF assms] mod_pow_less [OF assms]])

lemma mod_same_near:
  fixes c c' n :: nat
  assumes "c' mod n = c mod n" "c \<le> c'" "c' < c + n"
  shows "c' = c"
proof -
  from assms(2) obtain d where d: "c' = c + d" by (auto simp: le_iff_add)
  with assms(1) have "n dvd c + d - c" using mod_eq_dvd_iff_nat [of c "c + d" n] by simp
  then have "n dvd d" by simp
  with assms(3) d have "d = 0" by (auto dest: dvd_imp_le)
  with d show ?thesis by simp
qed

subsection \<open>Waiting for room among the entries\<close>

lemma in_order_taken:
  assumes "serves_in_order k N W base taken fetched"
  shows "taken l \<le> length (entries l)" "fetched l \<le> handed l"
    "taken l \<le> taken (q # l)" "fetched l \<le> fetched (q # l)"
  using assms by (auto simp: serves_in_order_def)

lemma taken_append:
  assumes "serves_in_order k N W base taken fetched"
  shows "taken l \<le> taken (l' @ l)" "fetched l \<le> fetched (l' @ l)"
  by (induction l') (auto intro: order_trans in_order_taken [OF assms])

text \<open>How far reading the register of \<open>ib_get\<close> gets us.\<close>

lemma read_ib_get:
  assumes "serves_in_order k (2 ^ a) W base taken fetched"
  shows "chmap_rd k 0x88 ch =
    (of_nat (taken (ChmapRd 0x88 # ulog ch) mod 2 ^ a), ch\<lparr>ulog := ChmapRd 0x88 # ulog ch\<rparr>)"
  using assms by (simp add: chmap_rd_def ask_def serves_in_order_def split_beta)

lemma full_iff:
  assumes "1 \<le> a" "a \<le> 31" "c \<le> n" "n < c + 2 ^ a"
  shows "(of_nat (n mod 2 ^ a) + 1) AND mask a = (of_nat (c mod 2 ^ a) :: u32) \<longleftrightarrow> n + 1 = c + 2 ^ a"
proof -
  have "(of_nat (n mod 2 ^ a) + 1 :: u32) = of_nat (n mod 2 ^ a + 1)" by simp
  then have "(of_nat (n mod 2 ^ a) + 1) AND mask a = (of_nat ((n + 1) mod 2 ^ a) :: u32)"
    by (simp only: and_mask_of_nat mod_simps)
  then have "(of_nat (n mod 2 ^ a) + 1) AND mask a = (of_nat (c mod 2 ^ a) :: u32) \<longleftrightarrow>
      (n + 1) mod 2 ^ a = c mod 2 ^ a"
    by (simp only: of_nat_mod_eq_iff [OF assms(2)])
  also have "\<dots> \<longleftrightarrow> n + 1 = c + 2 ^ a"
  proof
    assume eq: "(n + 1) mod 2 ^ a = c mod 2 ^ a"
    have "\<not> n + 1 < c + 2 ^ a" using mod_same_near [OF eq] assms(3) by auto
    with assms(4) show "n + 1 = c + 2 ^ a" by simp
  qed simp
  finally show ?thesis .
qed

lemma log_last: "ch\<lparr>ulog := x, ib_get := y\<rparr> = ch\<lparr>ib_get := y, ulog := x\<rparr>" for ch :: pscnv_ib_chan
  by (cases ch) simp

lemma wait_entry_step:
  assumes card: "serves_in_order k (2 ^ a) W base taken fetched" "goes_on B taken fetched"
    and a: "1 \<le> a" "a \<le> 31"
    and l: "ulog ch = l' @ l" "list_all idle_request l'"
    and m: "ib_mask ch = mask a" and put: "ib_put ch = of_nat (length (entries l) mod 2 ^ a)"
    and get: "ib_get ch = of_nat (c mod 2 ^ a)" and c: "c \<le> taken l" "length (entries l) < c + 2 ^ a"
  shows "(\<exists>l'' c'. wait_entry k ch = Some (ch\<lparr>ib_get := of_nat (c' mod 2 ^ a), ulog := l'' @ l\<rparr>) \<and>
      list_all idle_request l'' \<and> c' \<le> taken (l'' @ l) \<and> c \<le> c' \<and> length (entries l) + 1 < c' + 2 ^ a) \<or>
    length l' < B \<and> wait_entry k ch = wait_entry k (ch\<lparr>ulog := SchedYield # ChmapRd 0x88 # ulog ch\<rparr>)"
proof -
  let ?n = "length (entries l)" and ?l = "ChmapRd 0x88 # l' @ l"
  define c' where "c' = taken ?l"
  have idle: "list_all idle_request (ChmapRd 0x88 # l')" using l by (simp add: idle_request_def)
  have "c \<le> ?n" using c(1) in_order_taken(1) [OF card(1), of l] by simp
  note full = full_iff [OF a this c(2)]
  have c': "c \<le> c'" "c' \<le> ?n"
    using c(1) taken_append(1) [OF card(1), of l "ChmapRd 0x88 # l'"] in_order_taken(1) [OF card(1), of ?l]
      entries_idle [OF idle, of l] by (simp_all add: c'_def)
  have keep: "ch\<lparr>ib_get := of_nat (c mod 2 ^ a)\<rparr> = ch" using get by simp
  show ?thesis
  proof (cases "?n + 1 = c + 2 ^ a")
    case False
    then have "(ib_put ch + 1) AND ib_mask ch \<noteq> ib_get ch" unfolding m put get full .
    then have "wait_entry k ch = Some (ch\<lparr>ib_get := of_nat (c mod 2 ^ a), ulog := l' @ l\<rparr>)"
      using l get by (subst wait_entry.simps) simp
    then show ?thesis using False l c taken_append(1) [OF card(1), of l l']
      by (intro disjI1 exI [of _ l'] exI [of _ c]) auto
  next
    case True
    then have now: "(ib_put ch + 1) AND ib_mask ch = ib_get ch" unfolding m put get full .
    have step: "wait_entry k ch = wait_entry k ((if c' mod 2 ^ a = c mod 2 ^ a then tell_card SchedYield else id)
        (ch\<lparr>ib_get := of_nat (c' mod 2 ^ a), ulog := ?l\<rparr>))"
      using now by (subst wait_entry.simps)
        (simp add: read_ib_get [OF card(1)] l get c'_def of_nat_mod_eq_iff [OF a(2)] log_last del: of_nat_mod)
    show ?thesis
    proof (cases "c' = c")
      case True
      then have "wait_entry k ch = wait_entry k (ch\<lparr>ulog := SchedYield # ChmapRd 0x88 # ulog ch\<rparr>)"
        using step keep l by (simp add: tell_card_def)
      moreover have "length l' < B"
      proof (rule ccontr)
        assume "\<not> length l' < B"
        then have "taken l < taken ?l" if "taken l < ?n"
          using card(2) idle that unfolding goes_on_def 
          by (metis append_Cons le_SucI length_Cons linorder_not_less)
        moreover have "taken l = c" using c(1) True taken_append(1) [OF card(1), of l "ChmapRd 0x88 # l'"] by (simp add: c'_def)
        moreover have "(2 :: nat) ^ 1 \<le> 2 ^ a" using a(1) by (intro power_increasing) simp_all
        then have "c < ?n" using \<open>?n + 1 = c + 2 ^ a\<close> by simp
        ultimately show False using True by (simp add: c'_def)
      qed
      ultimately show ?thesis by blast
    next
      case False
      then have "c' mod 2 ^ a \<noteq> c mod 2 ^ a" using mod_same_near [of c' "2 ^ a" c] c' c(2) by auto
      then have "wait_entry k ch = wait_entry k (ch\<lparr>ib_get := of_nat (c' mod 2 ^ a), ulog := ?l\<rparr>)"
        using step by simp
      moreover have "?n < c' + 2 ^ a" using c(2) c' by simp
      note full' = full_iff [OF a c'(2) this]
      have ne: "?n + 1 \<noteq> c' + 2 ^ a" using True False c' by simp
      then have "(ib_put ch + 1) AND ib_mask ch \<noteq> of_nat (c' mod 2 ^ a)" unfolding m put full' .
      ultimately have "wait_entry k ch = Some (ch\<lparr>ib_get := of_nat (c' mod 2 ^ a), ulog := ?l\<rparr>)"
        by (simp add: wait_entry.simps)
      then show ?thesis using ne idle c' \<open>?n < c' + 2 ^ a\<close>
        by (intro disjI1 exI [of _ "ChmapRd 0x88 # l'"] exI [of _ c']) (auto simp: c'_def)
    qed
  qed
qed

lemma wait_entry_ends:
  assumes card: "serves_in_order k (2 ^ a) W base taken fetched" "goes_on B taken fetched"
    and a: "1 \<le> a" "a \<le> 31"
    and get: "c \<le> taken l" "length (entries l) < c + 2 ^ a"
  shows "ulog ch = l' @ l \<Longrightarrow> list_all idle_request l' \<Longrightarrow> B \<le> length l' + t \<Longrightarrow>
    ib_mask ch = mask a \<Longrightarrow> ib_put ch = of_nat (length (entries l) mod 2 ^ a) \<Longrightarrow>
    ib_get ch = of_nat (c mod 2 ^ a) \<Longrightarrow>
    \<exists>l'' c'. wait_entry k ch = Some (ch\<lparr>ib_get := of_nat (c' mod 2 ^ a), ulog := l'' @ l\<rparr>) \<and>
      list_all idle_request l'' \<and> c' \<le> taken (l'' @ l) \<and> c \<le> c' \<and> length (entries l) + 1 < c' + 2 ^ a"
proof (induction t arbitrary: ch l')
  case 0
  then show ?case using wait_entry_step [OF card a _ _ _ _ _ get, of ch l'] by auto
next
  case (Suc t)
  let ?ch = "ch\<lparr>ulog := SchedYield # ChmapRd 0x88 # ulog ch\<rparr>"
  from wait_entry_step [OF card a _ _ _ _ _ get, of ch l'] Suc.prems
  consider "wait_entry k ch = wait_entry k ?ch" |
    "\<exists>l'' c'. wait_entry k ch = Some (ch\<lparr>ib_get := of_nat (c' mod 2 ^ a), ulog := l'' @ l\<rparr>) \<and>
      list_all idle_request l'' \<and> c' \<le> taken (l'' @ l) \<and> c \<le> c' \<and> length (entries l) + 1 < c' + 2 ^ a"
    by blast
  then show ?case
  proof cases
    case 1
    have "\<exists>l'' c'. wait_entry k ?ch = Some (?ch\<lparr>ib_get := of_nat (c' mod 2 ^ a), ulog := l'' @ l\<rparr>) \<and>
      list_all idle_request l'' \<and> c' \<le> taken (l'' @ l) \<and> c \<le> c' \<and> length (entries l) + 1 < c' + 2 ^ a"
      by (rule Suc.IH [where l' = "SchedYield # ChmapRd 0x88 # l'"])
        (use Suc.prems in \<open>simp_all add: idle_request_def\<close>)
    with 1 show ?thesis by simp
  qed simp
qed

subsection \<open>Handing over an entry\<close>

text \<open>What an operation on the entries leaves alone.\<close>

definition same_words :: "pscnv_ib_chan \<Rightarrow> pscnv_ib_chan \<Rightarrow> bool" where
  "same_words ch ch' \<longleftrightarrow> pb_map ch' = pb_map ch \<and> pb_pos ch' = pb_pos ch \<and> pb_put ch' = pb_put ch \<and>
     pb_get ch' = pb_get ch \<and> pb_base ch' = pb_base ch"

lemma halves: "(push_bit 32 (ucast (ucast (drop_bit 32 w) :: u32)) OR ucast (ucast w :: u32) :: u64) = w"
proof (rule bit_word_eqI)
  fix i assume "i < LENGTH(64)"
  then show "bit (push_bit 32 (ucast (ucast (drop_bit 32 w) :: u32)) OR ucast (ucast w :: u32) :: u64) i \<longleftrightarrow> bit w i"
    by (auto simp: bit_simps)
qed

lemma slot_index:
  assumes "a \<le> 30"
  shows "unat (of_nat (n mod 2 ^ a) * 2 :: u32) = 2 * (n mod 2 ^ a)"
    "unat (of_nat (n mod 2 ^ a) * 2 + 1 :: u32) = 2 * (n mod 2 ^ a) + 1"
proof -
  have "n mod 2 ^ a < 2 ^ a" by simp
  also have "\<dots> \<le> 2 ^ 30" using assms by (intro power_increasing) simp_all
  finally have less: "2 * (n mod 2 ^ a) + 1 < 2 ^ 32" by simp
  have "(of_nat (n mod 2 ^ a) * 2 :: u32) = of_nat (2 * (n mod 2 ^ a))" by (simp add: mult.commute)
  moreover from this have "(of_nat (n mod 2 ^ a) * 2 + 1 :: u32) = of_nat (2 * (n mod 2 ^ a) + 1)" by simp
  ultimately show "unat (of_nat (n mod 2 ^ a) * 2 :: u32) = 2 * (n mod 2 ^ a)"
    "unat (of_nat (n mod 2 ^ a) * 2 + 1 :: u32) = 2 * (n mod 2 ^ a) + 1"
    using less by (simp_all only: unat_of_nat) simp_all
qed

lemma push_ok:
  assumes card: "serves_in_order k (2 ^ a) W base taken fetched" "goes_on B taken fetched"
    and a: "1 \<le> a" "a \<le> 30"
    and shape: "shape a b base ch" and ok: "ib_ok a taken ch c"
  obtains ch' c' where "pscnv_ib_push k adr len flags ch = Some ch'"
    "shape a b base ch'" "ib_ok a taken ch' c'" "same_words ch ch'"
    "entries (ulog ch') = entries (ulog ch) @ [adr OR push_bit 40 (ucast len) OR push_bit 40 flags]"
    "fetched (ulog ch) \<le> fetched (ulog ch')"
proof -
  define w where w: "w = adr OR push_bit 40 (ucast len) OR push_bit 40 flags"
  let ?l = "ulog ch" and ?N = "2 ^ a :: nat"
  let ?n = "length (entries ?l)"
  from shape have len: "length (ib_map ch) = 2 * ?N" and m: "ib_mask ch = mask a" by (simp_all add: shape_def)
  from ok have put: "ib_put ch = of_nat (?n mod ?N)" and get: "ib_get ch = of_nat (c mod ?N)"
    and c: "c \<le> taken ?l" "?n < c + ?N"
    and slots: "\<And>j. c \<le> j \<Longrightarrow> j < ?n \<Longrightarrow> ib_map ch ! (2 * (j mod ?N)) = ucast (entries ?l ! j) \<and>
         ib_map ch ! (2 * (j mod ?N) + 1) = ucast (drop_bit 32 (entries ?l ! j))"
    unfolding ib_ok_def Let_def by auto
  have "a \<le> 31" using a by simp
  from wait_entry_ends [OF card a(1) this c, of ch "[]" B] m put get
  obtain l'' c' where wait: "wait_entry k ch = Some (ch\<lparr>ib_get := of_nat (c' mod ?N), ulog := l'' @ ?l\<rparr>)"
    and l'': "list_all idle_request l''" and c': "c' \<le> taken (l'' @ ?l)" "c \<le> c'" "?n + 1 < c' + ?N" by auto
  let ?lo = "2 * (?n mod ?N)"
  let ?log = "ChmapWr 0x8c (of_nat ((?n + 1) mod ?N)) # IbStore (?lo + 1) (ucast (drop_bit 32 w)) # IbStore ?lo (ucast w) # l'' @ ?l"
  let ?map = "(ib_map ch)[?lo := ucast w, ?lo + 1 := ucast (drop_bit 32 w)]"
  let ?ch = "ch\<lparr>ib_get := of_nat (c' mod ?N), ib_map := ?map, ib_put := of_nat ((?n + 1) mod ?N), ulog := ?log\<rparr>"
  have inc: "(of_nat (?n mod ?N) + 1) AND mask a = (of_nat ((?n + 1) mod ?N) :: u32)"
    using and_mask_of_nat [of "?n mod ?N + 1" a, where 'a = 32] by (simp add: mod_simps add.commute del: of_nat_mod)
  have inside: "?lo < 2 * ?N" "?lo + 1 < 2 * ?N"
  proof -
    have "?n mod ?N < ?N" by simp
    then show "?lo < 2 * ?N" "?lo + 1 < 2 * ?N" by linarith+
  qed
  have "pscnv_ib_push k adr len flags ch = Some ?ch"
    unfolding pscnv_ib_push_def Let_def wait
    using inside slot_index [OF a(2), of ?n] inc m by (simp add: ib_store_def tell_card_def len put w [symmetric] del: of_nat_mod)
  moreover have es: "entries ?log = entries ?l @ [w]" by (simp add: halves entries_idle [OF l''])
  moreover have "shape a b base ?ch" using shape by (simp add: shape_def)
  moreover have "same_words ch ?ch" by (simp add: same_words_def)
  moreover have "ib_ok a taken ?ch c'"
  proof -
    have "taken (l'' @ ?l) \<le> taken ?log" by (meson in_order_taken(3) [OF card(1)] order_trans)
    moreover have "?map ! (2 * (j mod ?N)) = ucast ((entries ?l @ [w]) ! j) \<and>
         ?map ! (2 * (j mod ?N) + 1) = ucast (drop_bit 32 ((entries ?l @ [w]) ! j))"
      if j: "c' \<le> j" "j < ?n + 1" for j
    proof (cases "j = ?n")
      case True
      then show ?thesis using inside len by (simp add: nth_list_update)
    next
      case False
      then have "j < ?n" using j by simp
      have "j mod ?N \<noteq> ?n mod ?N"
        using mod_same_near [of ?n ?N j] \<open>j < ?n\<close> j c' by auto
      then show ?thesis using slots [of j] \<open>j < ?n\<close> j c' by (simp add: nth_append nth_list_update)
    qed
    ultimately show ?thesis using c' by (simp add: ib_ok_def halves entries_idle [OF l''] Let_def del: of_nat_mod)
  qed
  moreover have "fetched ?l \<le> fetched (ulog ?ch)"
    using taken_append(2) [OF card(1), of ?l "ChmapWr 0x8c (of_nat ((?n + 1) mod ?N)) # IbStore (?lo + 1) (ucast (drop_bit 32 w)) # IbStore ?lo (ucast w) # l''"]
    by simp
  ultimately show thesis using that [of ?ch c'] by (simp add: w [symmetric])
qed

subsection \<open>Handing over words\<close>

text \<open>The space of a ring: \<open>2 ^ b\<close> bytes, below \<open>2 ^ 40\<close> and not across 4 GB.\<close>

definition room :: "nat \<Rightarrow> u64 \<Rightarrow> bool" where
  "room b base \<longleftrightarrow> 3 \<le> b \<and> b \<le> 23 \<and> unat base + 2 ^ b \<le> 2 ^ 40 \<and> unat base mod 2 ^ 32 + 2 ^ b \<le> 2 ^ 32"

lemma words_of_ring:
  assumes "3 \<le> b" "b \<le> 23"
  shows "(2 :: nat) ^ b = 4 * 2 ^ (b - 2)" "(2 :: nat) \<le> 2 ^ (b - 2)" "(2 :: nat) ^ (b - 2) \<le> 2 ^ 21"
proof -
  have "2 + (b - 2) = b" using assms by simp
  then have "(2 :: nat) ^ b = 2 ^ 2 * 2 ^ (b - 2)" by (simp only: power_add [symmetric])
  then show "(2 :: nat) ^ b = 4 * 2 ^ (b - 2)" by simp
  have "(2 :: nat) ^ 1 \<le> 2 ^ (b - 2)" using assms by (intro power_increasing) simp_all
  then show "(2 :: nat) \<le> 2 ^ (b - 2)" by simp
  show "(2 :: nat) ^ (b - 2) \<le> 2 ^ 21" using assms by (intro power_increasing) simp_all
qed

lemma entry_fields:
  fixes adr :: u64 and len :: u32
  assumes "unat adr < 2 ^ 40" "unat len < 2 ^ 24"
  shows "take_bit 40 (adr OR push_bit 40 (ucast len) OR push_bit 40 0) = adr"
    "unat (drop_bit 40 (adr OR push_bit 40 (ucast len) OR push_bit 40 0)) = unat len"
proof -
  have adr: "take_bit 40 adr = adr" "drop_bit 40 adr = 0"
    using assms(1) by (simp_all add: word_unat_eq_iff unsigned_take_bit_eq take_bit_nat_eq_self unsigned_drop_bit_eq drop_bit_nat_def)
  show "take_bit 40 (adr OR push_bit 40 (ucast len) OR push_bit 40 0) = adr"
    by (simp add: take_bit_or adr take_bit_push_bit)
  have "drop_bit 40 (push_bit 40 (ucast len :: u64)) = ucast len"
  proof (rule word_unat_eq_iff [THEN iffD2])
    have "unat (push_bit 40 (ucast len :: u64)) = 2 ^ 40 * unat len"
      using assms(2) by (simp add: unsigned_push_bit_eq take_bit_nat_eq_self push_bit_nat_def mult.commute)
    then show "unat (drop_bit 40 (push_bit 40 (ucast len :: u64))) = unat (ucast len :: u64)"
      by (simp only: unat_drop_bit_eq drop_bit_nat_def) simp
  qed
  then show "unat (drop_bit 40 (adr OR push_bit 40 (ucast len) OR push_bit 40 0)) = unat len"
    by (simp add: drop_bit_or adr)
qed

lemma unat_word_addr:
  assumes "0 < W" "W \<le> 2 ^ 21" "unat base + 4 * W \<le> 2 ^ 40"
  shows "unat (word_addr base W i) = unat base + 4 * (i mod W)"
proof -
  have less: "i mod W < W" using assms(1) by simp
  with assms(2) have "unat (of_nat (4 * (i mod W)) :: u64) = 4 * (i mod W)"
    by (simp only: unat_of_nat) simp
  moreover from this less assms(3) have "unat base + unat (of_nat (4 * (i mod W)) :: u64) < 2 ^ LENGTH(64)"
    by simp
  ultimately show ?thesis unfolding word_addr_def by (metis unat_plus_if_no_overflow)
qed

lemma hand_over:
  assumes card: "serves_in_order k (2 ^ a) W base taken fetched" "goes_on B taken fetched"
    and a: "1 \<le> a" "a \<le> 30" and b: "room b base" "W = 2 ^ (b - 2)"
    and shape: "shape a b base ch" and ok: "ib_ok a taken ch c" and mem: "pb_mem W fetched ws ch g"
    and F: "F = handed (ulog ch)" "F + n \<le> length ws" "F mod W + n \<le> W" "n < W"
  obtains ch' c' where "pscnv_ib_push k (base + ucast (of_nat (4 * (F mod W)) :: u32)) (of_nat (4 * n)) 0 ch = Some ch'"
    "shape a b base ch'" "ib_ok a taken ch' c'" "same_words ch ch'" "pb_mem W fetched ws ch' g"
    "handed (ulog ch') = F + n"
proof -
  have W: "4 * W \<le> 2 ^ 23" "0 < W" "unat base + 4 * W \<le> 2 ^ 40"
    using b words_of_ring [of b] by (auto simp: room_def)
  let ?adr = "base + ucast (of_nat (4 * (F mod W)) :: u32) :: u64" and ?len = "of_nat (4 * n) :: u32"
  let ?w = "?adr OR push_bit 40 (ucast ?len) OR push_bit 40 0"
  have "F mod W < W" using W by simp
  then have small: "4 * (F mod W) < 2 ^ 23" "4 * n < 2 ^ 23" using W(1) F(4) by linarith+
  have ofs: "unat (ucast (of_nat (4 * (F mod W)) :: u32) :: u64) = 4 * (F mod W)"
    using small by (simp only: unat_ucast_u32_u64 unat_of_nat) simp
  have adr: "unat ?adr = unat base + 4 * (F mod W)"
    using W(3) \<open>F mod W < W\<close> by (subst unat_plus_if_no_overflow) (simp_all only: ofs, simp_all)
  have len: "unat ?len = 4 * n" using small by (simp only: unat_of_nat) simp
  have fields: "take_bit 40 ?w = ?adr" "unat (drop_bit 40 ?w) = 4 * n"
    using entry_fields [of ?adr ?len] adr len small W(3) \<open>F mod W < W\<close> by simp_all
  from push_ok [OF card a shape ok] obtain ch' c' where push: "pscnv_ib_push k ?adr ?len 0 ch = Some ch'"
    and ch': "shape a b base ch'" "ib_ok a taken ch' c'" "same_words ch ch'"
      "entries (ulog ch') = entries (ulog ch) @ [?w]" "fetched (ulog ch) \<le> fetched (ulog ch')" by metis
  have "entry_words ?w = n" by (simp only: entry_words_def fields)
  then have handed: "handed (ulog ch') = F + n" by (simp only: handed_def ch'(4)) (simp add: F handed_def)
  have "unat base + 4 * (F mod W) + 4 * i = unat (word_addr base W (F + i))" if "i < n" for i
  proof -
    have "F mod W + i < W" using that F(3) by simp
    then have "(F + i) mod W = F mod W + i" by (metis mod_add_left_eq mod_less)
    moreover have "W \<le> 2 ^ 21" using W(1) by simp
    ultimately show ?thesis using unat_word_addr [OF W(2) _ W(3), of "F + i"] by simp
  qed
  then have "entry_addrs ?w = map (\<lambda>i. unat (word_addr base W i)) [F..<F + n]"
    unfolding entry_addrs_def \<open>entry_words ?w = n\<close> fields adr
    by (intro nth_equalityI) simp_all
  then have "concat (map entry_addrs (entries (ulog ch'))) = map (\<lambda>i. unat (word_addr (pb_base ch') W i)) [0..<F + n]"
    using mem ch'(3) shape by (simp only: ch'(4)) (simp add: pb_mem_def same_words_def shape_def F(1) upt_add_eq_append [of 0])
  then have "pb_mem W fetched ws ch' g"
    using mem ch'(3,5) F by (simp add: pb_mem_def same_words_def handed)
  then show thesis using that push ch' handed by blast
qed

lemma of_nat_small: "n < 2 ^ 32 \<Longrightarrow> unat (of_nat n :: u32) = n"
  by (simp only: unat_of_nat) simp

lemma of_nat_words_diff: "y < x \<Longrightarrow> (of_nat (4 * x) :: u32) - of_nat (4 * y) = of_nat (4 * (x - y))"
  by (simp add: of_nat_diff right_diff_distrib')

lemma of_nat_words_less_iff:
  assumes "W \<le> 2 ^ 21" "0 < W"
  shows "(of_nat (4 * (n mod W)) :: u32) < of_nat (4 * (m mod W)) \<longleftrightarrow> n mod W < m mod W"
    "(of_nat (4 * (n mod W)) :: u32) = of_nat (4 * (m mod W)) \<longleftrightarrow> n mod W = m mod W"
proof -
  have "4 * (x mod W) < 2 ^ 32" for x
  proof -
    have "x mod W < W" using assms(2) by simp
    with assms(1) show ?thesis by simp
  qed
  then show "(of_nat (4 * (n mod W)) :: u32) < of_nat (4 * (m mod W)) \<longleftrightarrow> n mod W < m mod W"
    "(of_nat (4 * (n mod W)) :: u32) = of_nat (4 * (m mod W)) \<longleftrightarrow> n mod W = m mod W"
    by (simp_all only: word_less_iff_unat word_unat_eq_iff of_nat_small) simp_all
qed

lemma same_lap:
  fixes m n W :: nat
  assumes "m \<le> n" "n < m + W"
  shows "m mod W \<le> n mod W \<Longrightarrow> n mod W - m mod W = n - m"
    "n mod W < m mod W \<Longrightarrow> W - m mod W + n mod W = n - m"
proof -
  have "0 < W" using assms by simp
  have split: "n = n div W * W + n mod W" "m = m div W * W + m mod W" by simp_all
  have "(m + W) div W = m div W + 1" using div_add_self2 [of W m] \<open>0 < W\<close> by simp
  then have le: "m div W \<le> n div W" "n div W \<le> m div W + 1"
    using assms div_le_mono [of m n W] div_le_mono [of n "m + W" W] by simp_all
  { assume "m mod W \<le> n mod W"
    moreover have "n div W = m div W"
    proof (rule ccontr)
      assume "n div W \<noteq> m div W"
      with le have "n div W = m div W + 1" by simp
      then have "n = m div W * W + W + n mod W" by (metis split(1) add_mult_distrib mult_1)
      with split(2) assms(2) \<open>m mod W \<le> n mod W\<close> show False by linarith
    qed
    ultimately show "n mod W - m mod W = n - m" using split by (metis add_diff_cancel_left) }
  { assume less: "n mod W < m mod W"
    have "n div W \<noteq> m div W"
    proof
      assume "n div W = m div W"
      with split less have "n < m" by (metis add_less_cancel_left)
      with assms(1) show False by simp
    qed
    with le have "n div W = m div W + 1" by simp
    then have "n = m div W * W + W + n mod W" by (metis split(1) add_mult_distrib mult_1)
    moreover have "m mod W < W" using \<open>0 < W\<close> by simp
    ultimately show "W - m mod W + n mod W = n - m" using split(2) by linarith }
qed

lemma FIRE_RING_ok:
  assumes card: "serves_in_order k (2 ^ a) W base taken fetched" "goes_on B taken fetched"
    and a: "1 \<le> a" "a \<le> 30" and b: "room b base" "W = 2 ^ (b - 2)"
    and shape: "shape a b base ch" and ok: "ib_ok a taken ch c" and pb: "pb_ok W fetched ws ch g"
  obtains ch' c' where "FIRE_RING k ch = Some ch'"
    "shape a b base ch'" "ib_ok a taken ch' c'" "pb_ok W fetched ws ch' g"
    "handed (ulog ch') = length ws" "pb_get ch' = pb_get ch"
proof -
  define F where "F = handed (ulog ch)"
  have W: "W \<le> 2 ^ 21" "0 < W" "2 ^ b = 4 * W" using b words_of_ring [of b] by (auto simp: room_def)
  from pb have mem: "pb_mem W fetched ws ch g" and put: "pb_put ch = of_nat (4 * (F mod W))"
    by (simp_all add: pb_ok_def F_def)
  then have pos: "pb_pos ch = of_nat (4 * (length ws mod W))" and g: "g \<le> fetched (ulog ch)"
    and F: "F \<le> length ws" "length ws < g + W" by (simp_all add: pb_mem_def F_def)
  have "g \<le> F" using g in_order_taken(2) [OF card(1), of "ulog ch"] by (simp add: F_def)
  then have lap: "length ws < F + W" using F by simp
  note laps = same_lap [OF F(1) lap] and words = of_nat_words_less_iff [OF W(1,2)]
  have "(2 :: u32) ^ b = of_nat (2 ^ b)" by simp
  then have base: "pb_base ch = base" and sz: "pb_size ch = of_nat (4 * W)"
    using shape by (simp_all only: shape_def W(3))
  have FW: "F mod W < W" "length ws mod W < W" using W(2) by simp_all
  consider "length ws mod W = F mod W" | "F mod W < length ws mod W" | "length ws mod W < F mod W" by linarith
  then show thesis
  proof cases
    case 1
    then have "F = length ws" using laps(1) F(1) by simp
    moreover have "pb_pos ch = pb_put ch" unfolding pos put 1 ..
    then have "FIRE_RING k ch = Some ch" by (simp add: FIRE_RING_def)
    ultimately show thesis using that [OF _ shape ok pb] F_def by simp
  next
    case 2
    define n where "n = length ws mod W - F mod W"
    have n: "F + n = length ws" using laps(1) 2 F(1) by (simp add: n_def)
    have bounds: "F + n \<le> length ws" "F mod W + n \<le> W" "n < W" using n 2 FW by (simp_all add: n_def)
    from hand_over [OF card a b shape ok mem F_def this]
    obtain ch' c' where push: "pscnv_ib_push k (base + ucast (of_nat (4 * (F mod W)) :: u32)) (of_nat (4 * n)) 0 ch = Some ch'"
      and ch': "shape a b base ch'" "ib_ok a taken ch' c'" "same_words ch ch'" "pb_mem W fetched ws ch' g"
        "handed (ulog ch') = F + n" by metis
    have diff: "pb_pos ch - pb_put ch = of_nat (4 * n)"
      using 2 by (simp only: pos put n_def of_nat_words_diff)
    have "pb_put ch < pb_pos ch" unfolding pos put words(1) by (rule 2)
    then have "FIRE_RING k ch = Some (ch'\<lparr>pb_put := pb_pos ch'\<rparr>)"
      by (simp add: FIRE_RING_def push [folded base put diff])
    moreover have "shape a b base (ch'\<lparr>pb_put := pb_pos ch'\<rparr>)" "ib_ok a taken (ch'\<lparr>pb_put := pb_pos ch'\<rparr>) c'"
      "pb_ok W fetched ws (ch'\<lparr>pb_put := pb_pos ch'\<rparr>) g"
      using ch' n by (simp_all add: shape_def ib_ok_def pb_ok_def pb_mem_def)
    ultimately show thesis using that ch'(3,5) n by (simp add: same_words_def)
  next
    case 3
    define n where "n = W - F mod W"
    have n: "F + n + length ws mod W = length ws" using laps(2) 3 F(1) by (simp add: n_def)
    have bounds: "F + n \<le> length ws" "F mod W + n \<le> W" "n < W" using n 3 FW by (simp_all add: n_def)
    from hand_over [OF card a b shape ok mem F_def this]
    obtain ch' c' where push: "pscnv_ib_push k (base + ucast (of_nat (4 * (F mod W)) :: u32)) (of_nat (4 * n)) 0 ch = Some ch'"
      and ch': "shape a b base ch'" "ib_ok a taken ch' c'" "same_words ch ch'" "pb_mem W fetched ws ch' g"
        "handed (ulog ch') = F + n" by metis
    have diff: "pb_size ch - pb_put ch = of_nat (4 * n)"
      using FW(1) by (simp only: sz put n_def of_nat_words_diff)
    have "pb_pos ch < pb_put ch" unfolding pos put words(1) by (rule 3)
    then have "\<not> pb_put ch < pb_pos ch" "pb_pos ch \<noteq> pb_put ch" by auto
    note first = push [folded base put diff] this
    show thesis
    proof (cases "length ws mod W = 0")
      case True
      then have zero: "pb_pos ch' = 0" using ch'(3) pos by (simp add: same_words_def)
      then have "FIRE_RING k ch = Some (ch'\<lparr>pb_put := pb_pos ch'\<rparr>)"
        using zero by (simp add: FIRE_RING_def first)
      moreover have "shape a b base (ch'\<lparr>pb_put := pb_pos ch'\<rparr>)" "ib_ok a taken (ch'\<lparr>pb_put := pb_pos ch'\<rparr>) c'"
        "pb_ok W fetched ws (ch'\<lparr>pb_put := pb_pos ch'\<rparr>) g"
        using ch' n True by (simp_all add: shape_def ib_ok_def pb_ok_def pb_mem_def)
      ultimately show thesis using that ch'(3,5) n True by (simp add: same_words_def)
    next
      case False
      let ?m = "length ws mod W"
      have start: "(F + n) mod W = 0"
      proof -
        have "F + n = F div W * W + W" using FW(1) div_mult_mod_eq [of F W] unfolding n_def by linarith
        then show ?thesis by simp
      qed
      have bounds: "F + n + ?m \<le> length ws" "(F + n) mod W + ?m \<le> W" "?m < W"
        using n start FW by simp_all
      have here: "base + ucast (of_nat (4 * ((F + n) mod W)) :: u32) = base" by (simp add: start)
      from hand_over [OF card a b ch'(1,2,4) ch'(5) [symmetric] bounds, unfolded here n]
      obtain ch'' c'' where push': "pscnv_ib_push k base (of_nat (4 * ?m)) 0 ch' = Some ch''"
        and ch'': "shape a b base ch''" "ib_ok a taken ch'' c''" "same_words ch' ch''" "pb_mem W fetched ws ch'' g"
          "handed (ulog ch'') = length ws" by metis
      have pos': "pb_pos ch' = of_nat (4 * ?m)" and base': "pb_base ch' = base"
        using ch'(1,3) pos by (simp_all add: same_words_def shape_def)
      have "pb_pos ch' \<noteq> 0"
      proof
        assume "pb_pos ch' = 0"
        then have "(of_nat (4 * ?m) :: u32) = of_nat (4 * (0 mod W))" using pos' by simp
        then show False using False unfolding words(2) by simp
      qed
      then have "FIRE_RING k ch = Some (ch''\<lparr>pb_put := pb_pos ch''\<rparr>)"
        by (simp add: FIRE_RING_def first push' [folded base' pos'])
      moreover have "shape a b base (ch''\<lparr>pb_put := pb_pos ch''\<rparr>)" "ib_ok a taken (ch''\<lparr>pb_put := pb_pos ch''\<rparr>) c''"
        "pb_ok W fetched ws (ch''\<lparr>pb_put := pb_pos ch''\<rparr>) g"
        using ch'' by (simp_all add: shape_def ib_ok_def pb_ok_def pb_mem_def)
      ultimately show thesis using that ch'(3) ch''(3,5) by (simp add: same_words_def)
    qed
  qed
qed

subsection \<open>Waiting for room among the words\<close>

lemma pb_join_halves:
  assumes "drop_bit 32 x = drop_bit 32 y" "unat y < 2 ^ 40"
  shows "(push_bit 32 (ucast (0x80000000 OR ucast (drop_bit 32 x) :: u32)) OR ucast (ucast y :: u32) :: u64) AND 0xffffffffff = y"
proof -
  have m: "(0xffffffffff :: u64) = mask 40" by (simp add: mask_eq_exp_minus_1)
  have "take_bit 40 y = y"
    using assms(2) by (simp add: word_unat_eq_iff unsigned_take_bit_eq take_bit_nat_eq_self)
  moreover have "take_bit 40 (push_bit 32 (ucast (0x80000000 :: u32)) :: u64) = 0" by (simp add: take_bit_eq_mod)
  ultimately show ?thesis
    unfolding assms(1) m take_bit_eq_mask [symmetric] unsigned_or_eq push_bit_or or.assoc
    by (simp only: take_bit_or halves) (simp add: take_bit_or)
qed

lemma same_high_half:
  assumes "room b base" "W = 2 ^ (b - 2)"
  shows "drop_bit 32 (word_addr base W i) = drop_bit 32 (word_addr base W j)" "unat (word_addr base W i) < 2 ^ 40"
proof -
  have W: "4 * W = 2 ^ b" "0 < W" "W \<le> 2 ^ 21" using assms words_of_ring [of b] by (auto simp: room_def)
  have base: "unat base + 4 * W \<le> 2 ^ 40" "unat base mod 2 ^ 32 + 4 * W \<le> 2 ^ 32"
    using assms(1) by (simp_all only: W(1) room_def)
  have less: "i mod W < W" for i using W(2) by simp
  have "(unat base + 4 * (i mod W)) div 2 ^ 32 = unat base div 2 ^ 32" for i
  proof -
    have "unat base + 4 * (i mod W) = 2 ^ 32 * (unat base div 2 ^ 32) + (unat base mod 2 ^ 32 + 4 * (i mod W))" by simp
    moreover have "unat base mod 2 ^ 32 + 4 * (i mod W) < 2 ^ 32" using base(2) less [of i] by linarith
    ultimately show ?thesis by (metis div_mult_self4 add.commute add.right_neutral div_less power_not_zero zero_neq_numeral)
  qed
  then show "drop_bit 32 (word_addr base W i) = drop_bit 32 (word_addr base W j)"
    by (simp only: word_unat_eq_iff unat_drop_bit_eq drop_bit_nat_def unat_word_addr [OF W(2,3) base(1)])
  show "unat (word_addr base W i) < 2 ^ 40"
    using base(1) less [of i] by (simp only: unat_word_addr [OF W(2,3) base(1)])
qed

lemma update_get_ok:
  assumes card: "serves_in_order k (2 ^ a) W base taken fetched"
    and b: "room b base" "W = 2 ^ (b - 2)" and shape: "shape a b base ch" and some: "0 < handed (ulog ch)"
  shows "pscnv_ib_update_get k ch =
    ch\<lparr>ulog := ChmapRd 0x5c # ChmapRd 0x58 # ulog ch,
       pb_get := of_nat (4 * (fetched (ChmapRd 0x58 # ulog ch) mod W))\<rparr>"
proof -
  let ?l = "ChmapRd 0x58 # ulog ch"
  let ?x = "word_addr base W (fetched (ChmapRd 0x5c # ?l))" and ?y = "word_addr base W (fetched ?l)"
  have "handed ?l = handed (ulog ch)" by (simp add: handed_def)
  with some card have lo: "(ucast (snd (k (ulog ch) (ChmapRd 0x58)) 0) :: u32) = ucast ?y"
    and hi: "(ucast (snd (k ?l (ChmapRd 0x5c)) 0) :: u32) = 0x80000000 OR ucast (drop_bit 32 ?x)"
    by (simp_all add: serves_in_order_def)
  have base: "pb_base ch = base" using shape by (simp add: shape_def)
  have W: "W \<le> 2 ^ 21" "0 < W" using b words_of_ring [of b] by (auto simp: room_def)
  have "(ucast (?y - base) :: u32) = of_nat (4 * (fetched ?l mod W))"
    by (simp add: word_addr_def unsigned_of_nat word_of_nat_eq_iff del: of_nat_mult of_nat_mod)
  moreover have "(0x80000000 OR z) AND 0x80000000 \<noteq> (0 :: u32)" for z by (simp add: word_ao_absorbs)
  ultimately show ?thesis
    using pb_join_halves [OF same_high_half(1) [OF b, of "fetched (ChmapRd 0x5c # ?l)" "fetched ?l"]] same_high_half(2) [OF b]
    by (simp add: pscnv_ib_update_get_def chmap_rd_def ask_def split_beta lo hi base Let_def)
qed

lemma word_last: "ch\<lparr>pb_get := y, ulog := x\<rparr> = ch\<lparr>ulog := x, pb_get := y\<rparr>" for ch :: pscnv_ib_chan
  by (cases ch) simp

lemma words_full_iff:
  assumes "room b base" "W = 2 ^ (b - 2)" "g \<le> n" "n < g + W"
  shows "(of_nat (4 * (n mod W)) + 4) AND mask b = (of_nat (4 * (g mod W)) :: u32) \<longleftrightarrow> n + 1 = g + W"
    "(of_nat (4 * (n mod W)) + 4) AND mask b = (of_nat (4 * ((n + 1) mod W)) :: u32)"
proof -
  have W: "2 ^ b = 4 * W" "0 < W" "W \<le> 2 ^ 21" using assms words_of_ring [of b] by (auto simp: room_def)
  have "(of_nat (4 * (n mod W)) + 4 :: u32) = of_nat (4 * (n mod W + 1))" by simp
  also have "\<dots> AND mask b = of_nat (4 * (n mod W + 1) mod (4 * W))" by (simp only: and_mask_of_nat W(1))
  also have "\<dots> = of_nat (4 * ((n + 1) mod W))" by (simp only: mult_mod_right [symmetric] mod_simps)
  finally show eq: "(of_nat (4 * (n mod W)) + 4) AND mask b = (of_nat (4 * ((n + 1) mod W)) :: u32)" .
  have "(n + 1) mod W = g mod W \<longleftrightarrow> n + 1 = g + W"
  proof
    assume same: "(n + 1) mod W = g mod W"
    have "\<not> n + 1 < g + W" using mod_same_near [OF same] assms(3) by auto
    with assms(4) show "n + 1 = g + W" by simp
  qed simp
  then show "(of_nat (4 * (n mod W)) + 4) AND mask b = (of_nat (4 * (g mod W)) :: u32) \<longleftrightarrow> n + 1 = g + W"
    by (simp only: eq of_nat_words_less_iff [OF W(3,2)])
qed

lemma wait_word_step:
  assumes card: "serves_in_order k (2 ^ a) W base taken fetched" "goes_on B taken fetched"
    and b: "room b base" "W = 2 ^ (b - 2)"
    and l: "ulog ch = l' @ l" "list_all idle_request l'" and shape: "shape a b base ch"
    and fired: "pb_put ch = pb_pos ch" "handed l = n"
    and pos: "pb_pos ch = of_nat (4 * (n mod W))" and get: "pb_get ch = of_nat (4 * (g mod W))"
    and g: "g \<le> fetched l" "n < g + W"
  shows "(\<exists>l'' g'. wait_word k ch = Some (ch\<lparr>ulog := l'' @ l, pb_get := of_nat (4 * (g' mod W))\<rparr>) \<and>
      list_all idle_request l'' \<and> g' \<le> fetched (l'' @ l) \<and> g \<le> g' \<and> n + 1 < g' + W) \<or>
    length l' < B \<and> wait_word k ch = wait_word k (ch\<lparr>ulog := SchedYield # ChmapRd 0x5c # ChmapRd 0x58 # ulog ch\<rparr>)"
proof -
  let ?l = "ChmapRd 0x58 # l' @ l"
  define g' where "g' = fetched ?l"
  have W: "2 \<le> W" "0 < W" "W \<le> 2 ^ 21" using b words_of_ring [of b] by (auto simp: room_def)
  have idle: "list_all idle_request (ChmapRd 0x58 # l')" using l by (simp add: idle_request_def)
  have m: "pb_mask ch = mask b" using shape by (simp add: shape_def)
  have "g \<le> n" using g(1) fired(2) in_order_taken(2) [OF card(1), of l] by simp
  note full = words_full_iff(1) [OF b this g(2)]
  have g': "g \<le> g'" "g' \<le> n"
    using g(1) taken_append(2) [OF card(1), of l "ChmapRd 0x58 # l'"] in_order_taken(2) [OF card(1), of ?l]
      handed_idle [OF idle, of l] fired(2) by (simp_all add: g'_def)
  show ?thesis
  proof (cases "n + 1 = g + W")
    case False
    then have "(pb_pos ch + 4) AND pb_mask ch \<noteq> pb_get ch" unfolding m pos get full .
    then have "wait_word k ch = Some (ch\<lparr>ulog := l' @ l, pb_get := of_nat (4 * (g mod W))\<rparr>)"
      using l get by (subst wait_word.simps) simp
    then show ?thesis using False l g taken_append(2) [OF card(1), of l l']
      by (intro disjI1 exI [of _ l'] exI [of _ g]) auto
  next
    case True
    then have now: "(pb_pos ch + 4) AND pb_mask ch = pb_get ch" unfolding m pos get full .
    have keep: "ch\<lparr>ulog := x, pb_get := of_nat (4 * (g mod W))\<rparr> = ch\<lparr>ulog := x\<rparr>" for x
      using get by (cases ch) simp
    have "0 < handed (ulog ch)" using True W(1) fired(2) l handed_idle [OF l(2), of l] by simp
    note upd = update_get_ok [OF card(1) b shape this]
    have step: "wait_word k ch = wait_word k ((if g' mod W = g mod W then tell_card SchedYield else id)
        (ch\<lparr>ulog := ChmapRd 0x5c # ?l, pb_get := of_nat (4 * (g' mod W))\<rparr>))"
      using now by (subst wait_word.simps)
        (simp add: FIRE_RING_def fired(1) upd Let_def get l g'_def of_nat_words_less_iff(2) [OF W(3,2)]
          del: of_nat_mult of_nat_mod)
    show ?thesis
    proof (cases "g' = g")
      case True
      then have "wait_word k ch = wait_word k (ch\<lparr>ulog := SchedYield # ChmapRd 0x5c # ChmapRd 0x58 # ulog ch\<rparr>)"
        using step keep l by (simp add: tell_card_def del: of_nat_mult of_nat_mod)
      moreover have "length l' < B"
      proof (rule ccontr)
        assume "\<not> length l' < B"
        then have "fetched l < fetched ?l" if "fetched l < handed l"
          using card(2) idle that unfolding goes_on_def
          by (metis append_Cons le_SucI length_Cons linorder_not_less)
        moreover have "fetched l = g" using g(1) True taken_append(2) [OF card(1), of l "ChmapRd 0x58 # l'"] by (simp add: g'_def)
        moreover have "g < handed l" using \<open>n + 1 = g + W\<close> W(1) fired(2) by simp
        ultimately show False using True by (simp add: g'_def)
      qed
      ultimately show ?thesis by blast
    next
      case False
      then have "g' mod W \<noteq> g mod W" using mod_same_near [of g' W g] g' g(2) by auto
      then have "wait_word k ch = wait_word k (ch\<lparr>ulog := ChmapRd 0x5c # ?l, pb_get := of_nat (4 * (g' mod W))\<rparr>)"
        using step by simp
      moreover have "n < g' + W" using g(2) g' by simp
      note full' = words_full_iff(1) [OF b g'(2) this]
      have ne: "n + 1 \<noteq> g' + W" using True False g' by simp
      then have "(pb_pos ch + 4) AND pb_mask ch \<noteq> of_nat (4 * (g' mod W))" unfolding m pos full' .
      ultimately have "wait_word k ch = Some (ch\<lparr>ulog := ChmapRd 0x5c # ?l, pb_get := of_nat (4 * (g' mod W))\<rparr>)"
        by (simp add: wait_word.simps)
      moreover have "g' \<le> fetched (ChmapRd 0x5c # ?l)" unfolding g'_def by (rule in_order_taken(4) [OF card(1)])
      ultimately show ?thesis using ne idle g' \<open>n < g' + W\<close>
        by (intro disjI1 exI [of _ "ChmapRd 0x5c # ChmapRd 0x58 # l'"] exI [of _ g']) (auto simp: idle_request_def)
    qed
  qed
qed

lemma wait_word_ends:
  assumes card: "serves_in_order k (2 ^ a) W base taken fetched" "goes_on B taken fetched"
    and b: "room b base" "W = 2 ^ (b - 2)" and l: "handed l = n" and g: "g \<le> fetched l" "n < g + W"
  shows "ulog ch = l' @ l \<Longrightarrow> list_all idle_request l' \<Longrightarrow> B \<le> length l' + t \<Longrightarrow> shape a b base ch \<Longrightarrow>
    pb_put ch = pb_pos ch \<Longrightarrow> pb_pos ch = of_nat (4 * (n mod W)) \<Longrightarrow> pb_get ch = of_nat (4 * (g mod W)) \<Longrightarrow>
    \<exists>l'' g'. wait_word k ch = Some (ch\<lparr>ulog := l'' @ l, pb_get := of_nat (4 * (g' mod W))\<rparr>) \<and>
      list_all idle_request l'' \<and> g' \<le> fetched (l'' @ l) \<and> g \<le> g' \<and> n + 1 < g' + W"
proof (induction t arbitrary: ch l')
  case 0
  then show ?case using wait_word_step [OF card b _ _ _ _ l _ _ g, of ch l'] by auto
next
  case (Suc t)
  let ?ch = "ch\<lparr>ulog := SchedYield # ChmapRd 0x5c # ChmapRd 0x58 # ulog ch\<rparr>"
  from wait_word_step [OF card b _ _ _ _ l _ _ g, of ch l'] Suc.prems
  consider "wait_word k ch = wait_word k ?ch" |
    "\<exists>l'' g'. wait_word k ch = Some (ch\<lparr>ulog := l'' @ l, pb_get := of_nat (4 * (g' mod W))\<rparr>) \<and>
      list_all idle_request l'' \<and> g' \<le> fetched (l'' @ l) \<and> g \<le> g' \<and> n + 1 < g' + W"
    by blast
  then show ?case
  proof cases
    case 1
    have "\<exists>l'' g'. wait_word k ?ch = Some (?ch\<lparr>ulog := l'' @ l, pb_get := of_nat (4 * (g' mod W))\<rparr>) \<and>
      list_all idle_request l'' \<and> g' \<le> fetched (l'' @ l) \<and> g \<le> g' \<and> n + 1 < g' + W"
      by (rule Suc.IH [where l' = "SchedYield # ChmapRd 0x5c # ChmapRd 0x58 # l'"])
        (use Suc.prems in \<open>simp_all add: idle_request_def shape_def\<close>)
    with 1 show ?thesis by simp
  qed simp
qed

lemma OUT_RING_ok:
  assumes card: "serves_in_order k (2 ^ a) W base taken fetched" "goes_on B taken fetched"
    and a: "1 \<le> a" "a \<le> 30" and b: "room b base" "W = 2 ^ (b - 2)"
    and shape: "shape a b base ch" and ok: "ib_ok a taken ch c" and pb: "pb_ok W fetched ws ch g"
  obtains ch' c' g' where "OUT_RING k word ch = Some ch'"
    "shape a b base ch'" "ib_ok a taken ch' c'" "pb_ok W fetched (ws @ [word]) ch' g'"
proof -
  let ?n = "length ws"
  have W: "2 \<le> W" "0 < W" "W \<le> 2 ^ 21" "2 ^ b = 4 * W" using b words_of_ring [of b] by (auto simp: room_def)
  txt \<open>Room is found.\<close>
  obtain ch1 c1 g1 where wait: "wait_word k ch = Some ch1" and ch1: "shape a b base ch1" "ib_ok a taken ch1 c1"
    "pb_ok W fetched ws ch1 g1" "?n + 1 < g1 + W"
  proof (cases "(pb_pos ch + 4) AND pb_mask ch = pb_get ch")
    case False
    have mem: "pb_pos ch = of_nat (4 * (?n mod W))" "pb_get ch = of_nat (4 * (g mod W))"
      "g \<le> fetched (ulog ch)" "handed (ulog ch) \<le> ?n" "?n < g + W"
      using pb by (simp_all add: pb_ok_def pb_mem_def)
    have "g \<le> ?n" using mem in_order_taken(2) [OF card(1), of "ulog ch"] by simp
    from False have "?n + 1 \<noteq> g + W"
      using words_full_iff(1) [OF b \<open>g \<le> ?n\<close> mem(5)] shape by (simp add: mem(1,2) shape_def)
    with False mem(5) show thesis using that [of ch c g] shape ok pb by (simp add: wait_word.simps)
  next
    case True
    from FIRE_RING_ok [OF card a b shape ok pb]
    obtain ch' c' where fire: "FIRE_RING k ch = Some ch'" and ch': "shape a b base ch'" "ib_ok a taken ch' c'"
      "pb_ok W fetched ws ch' g" "handed (ulog ch') = ?n" "pb_get ch' = pb_get ch" by metis
    have pos: "pb_pos ch' = of_nat (4 * (?n mod W))" "pb_pos ch' = pb_pos ch" "pb_put ch' = pb_pos ch'"
      "pb_get ch' = of_nat (4 * (g mod W))" "g \<le> fetched (ulog ch')" "?n < g + W" "pb_mask ch' = pb_mask ch"
      using ch' pb shape by (simp_all add: pb_ok_def pb_mem_def shape_def)
    have "FIRE_RING k ch' = Some ch'" by (simp add: FIRE_RING_def pos(3))
    then have "wait_word k ch = wait_word k ch'"
      using True by (subst (1 2) wait_word.simps) (simp add: fire pos(2,7) ch'(5))
    with wait_word_ends [OF card b ch'(4) pos(5,6), of ch' "[]" B] ch'(1) pos
    obtain l'' g' where wait: "wait_word k ch = Some (ch'\<lparr>ulog := l'' @ ulog ch', pb_get := of_nat (4 * (g' mod W))\<rparr>)"
      and l'': "list_all idle_request l''" "g' \<le> fetched (l'' @ ulog ch')" "g \<le> g'" "?n + 1 < g' + W" by auto
    show thesis
    proof (rule that [OF wait, of c' g'])
      show "shape a b base (ch'\<lparr>ulog := l'' @ ulog ch', pb_get := of_nat (4 * (g' mod W))\<rparr>)"
        using ch'(1) by (simp add: shape_def)
      show "ib_ok a taken (ch'\<lparr>ulog := l'' @ ulog ch', pb_get := of_nat (4 * (g' mod W))\<rparr>) c'"
        using ch'(2) taken_append(1) [OF card(1), of "ulog ch'" l'']
        by (auto simp: ib_ok_def entries_idle [OF l''(1)] Let_def intro: order_trans)
      show "pb_ok W fetched ws (ch'\<lparr>ulog := l'' @ ulog ch', pb_get := of_nat (4 * (g' mod W))\<rparr>) g'"
        using ch'(3) l'' by (simp add: pb_ok_def pb_mem_def handed_idle entries_idle)
    qed (rule l''(4))
  qed
  txt \<open>The word is stored at its place.\<close>
  have mem: "pb_pos ch1 = of_nat (4 * (?n mod W))" "pb_get ch1 = of_nat (4 * (g1 mod W))"
    "g1 \<le> fetched (ulog ch1)" "handed (ulog ch1) \<le> ?n" "?n < g1 + W"
    using ch1(3) by (simp_all add: pb_ok_def pb_mem_def)
  have "g1 \<le> ?n" using mem in_order_taken(2) [OF card(1), of "ulog ch1"] by simp
  have less: "?n mod W < W" and len: "length (pb_map ch1) = W" using W ch1(1) by (simp_all add: shape_def)
  have "unat (of_nat (4 * (?n mod W)) :: u32) = 4 * (?n mod W)" using less W(3) by (intro of_nat_small) simp
  then have index: "unat (pb_pos ch1 div 4) = ?n mod W" by (simp add: mem(1) unat_div del: of_nat_mult of_nat_mod)
  define ch' where "ch' = ch1\<lparr>pb_map := (pb_map ch1)[?n mod W := word], ulog := PbStore (?n mod W) word # ulog ch1,
    pb_pos := (pb_pos ch1 + 4) AND pb_mask ch1\<rparr>"
  have "OUT_RING k word ch = Some ch'"
    using less by (simp add: OUT_RING_def wait pb_store_def index len tell_card_def ch'_def)
  moreover have "shape a b base ch'" using ch1(1) by (simp add: shape_def ch'_def)
  moreover have log: "ulog ch' = PbStore (?n mod W) word # ulog ch1" by (simp add: ch'_def)
  moreover have "ib_ok a taken ch' c1"
    using ch1(2) in_order_taken(3) [OF card(1), of "ulog ch1" "PbStore (?n mod W) word"]
    by (auto simp: ib_ok_def Let_def ch'_def intro: order_trans)
  moreover have "pb_ok W fetched (ws @ [word]) ch' g1"
  proof -
    have "pb_pos ch' = of_nat (4 * ((?n + 1) mod W))"
      using words_full_iff(2) [OF b \<open>g1 \<le> ?n\<close> mem(5)] ch1(1) by (simp add: ch'_def mem(1) shape_def)
    moreover have "pb_map ch' ! (i mod W) = (ws @ [word]) ! i" if i: "g1 \<le> i" "i < ?n + 1" for i
    proof (cases "i = ?n")
      case True
      then show ?thesis using less len by (simp add: ch'_def)
    next
      case False
      then have "i mod W \<noteq> ?n mod W" using mod_same_near [of ?n W i] i ch1(4) by auto
      then show ?thesis using False i ch1(3) by (simp add: ch'_def nth_append pb_ok_def pb_mem_def)
    qed
    moreover have "g1 \<le> fetched (ulog ch')" unfolding log using mem(3) in_order_taken(4) [OF card(1)] by (rule order_trans)
    moreover have "handed (ulog ch') = handed (ulog ch1)" by (simp add: log handed_def)
    moreover have "entries (ulog ch') = entries (ulog ch1)" by (simp add: log)
    moreover have "pb_put ch' = pb_put ch1" "pb_get ch' = pb_get ch1" "pb_base ch' = pb_base ch1" by (simp_all add: ch'_def)
    ultimately show ?thesis using ch1(3,4) by (simp add: pb_ok_def pb_mem_def)
  qed
  ultimately show thesis using that by blast
qed

subsection \<open>A client at work\<close>

datatype ring_op = Out u32 | Fire

primrec ring_step :: "server \<Rightarrow> ring_op \<Rightarrow> pscnv_ib_chan \<Rightarrow> pscnv_ib_chan option" where
  "ring_step k (Out w) ch = OUT_RING k w ch"
| "ring_step k Fire ch = FIRE_RING k ch"

primrec drive :: "server \<Rightarrow> ring_op list \<Rightarrow> pscnv_ib_chan \<Rightarrow> pscnv_ib_chan option" where
  "drive k [] ch = Some ch"
| "drive k (x # xs) ch = do { ch \<leftarrow> ring_step k x ch; drive k xs ch }"

fun words_out :: "ring_op list \<Rightarrow> u32 list" where
  "words_out [] = []"
| "words_out (Out w # xs) = w # words_out xs"
| "words_out (Fire # xs) = words_out xs"

lemma drive_ok:
  assumes card: "serves_in_order k (2 ^ a) W base taken fetched" "goes_on B taken fetched"
    and a: "1 \<le> a" "a \<le> 30" and b: "room b base" "W = 2 ^ (b - 2)"
  shows "shape a b base ch \<Longrightarrow> ib_ok a taken ch c \<Longrightarrow> pb_ok W fetched ws ch g \<Longrightarrow>
    \<exists>ch' c' g'. drive k xs ch = Some ch' \<and> shape a b base ch' \<and> ib_ok a taken ch' c' \<and>
      pb_ok W fetched (ws @ words_out xs) ch' g' \<and>
      (xs \<noteq> [] \<longrightarrow> last xs = Fire \<longrightarrow> handed (ulog ch') = length (ws @ words_out xs))"
proof (induction xs arbitrary: ch c ws g)
  case Nil
  then show ?case by auto
next
  case (Cons x xs)
  show ?case
  proof (cases x)
    case (Out w)
    from OUT_RING_ok [OF card a b Cons.prems]
    obtain ch1 c1 g1 where "OUT_RING k w ch = Some ch1" "shape a b base ch1" "ib_ok a taken ch1 c1"
      "pb_ok W fetched (ws @ [w]) ch1 g1" by metis
    with Cons.IH [of ch1 c1 "ws @ [w]" g1] Out show ?thesis by (auto split: if_splits)
  next
    case Fire
    from FIRE_RING_ok [OF card a b Cons.prems]
    obtain ch1 c1 where one: "FIRE_RING k ch = Some ch1" "shape a b base ch1" "ib_ok a taken ch1 c1"
      "pb_ok W fetched ws ch1 g" "handed (ulog ch1) = length ws" by metis
    show ?thesis
    proof (cases "xs = []")
      case True
      with one Fire show ?thesis by auto
    next
      case False
      with one Cons.IH [of ch1 c1 ws g] Fire show ?thesis by auto
    qed
  qed
qed

subsection \<open>A new channel\<close>

lemma entries_ask: "(\<forall>r v. q \<noteq> ChmapWr r v) \<Longrightarrow> entries (ulog (snd (ask k q s))) = entries (ulog s)"
  by (cases q) (simp_all add: ask_def)

lemma entries_command:
  "(\<forall>r v. q \<noteq> ChmapWr r v) \<Longrightarrow> command k q f s = (r, s') \<Longrightarrow> entries (ulog s') = entries (ulog s)"
  using entries_ask [of q k s] by (auto simp: command_def split: prod.splits)

lemma ib_bo_alloc_result:
  assumes "pscnv_ib_bo_alloc k v cookie flags tile_flags sz usr s = (Inr b, s')"
  shows "bo_size b = ucast sz" "entries (ulog s') = entries (ulog s)"
proof -
  have "bo_size b = ucast sz \<and> entries (ulog s') = entries (ulog s)"
    using assms unfolding pscnv_ib_bo_alloc_def pscnv_gem_new_lib_def pscnv_vspace_map_lib_def
    by (auto simp: ask_def command_def Let_def split: prod.splits sum.splits if_splits)
  then show "bo_size b = ucast sz" "entries (ulog s') = entries (ulog s)" by simp_all
qed

lemma ib_chan_rings_result:
  assumes "ib_chan_rings k mem arg v c m dma pbo ibo s = Some (Inr ch)"
    and "a = (if ibo = 0 then 9 else ibo)" "b = (if pbo = 0 then 20 else pbo)"
  shows "a \<le> 27 \<and> b \<le> 30 \<and> entries (ulog ch) = entries (ulog s) \<and>
    ib_mask ch = 2 ^ unat a - 1 \<and> pb_mask ch = 2 ^ unat b - 1 \<and> pb_size ch = 2 ^ unat b \<and>
    (\<exists>ad. ib_map ch = mem ad (ucast (2 ^ unat (a + 3) :: u32))) \<and>
    (\<exists>ad. pb_map ch = mem ad (ucast (2 ^ unat b :: u32))) \<and>
    ib_put ch = 0 \<and> ib_get ch = 0 \<and> pb_pos ch = 0 \<and> pb_put ch = 0 \<and> pb_get ch = 0"
proof -
  let ?f = "PSCNV_GEM_SYSRAM_SNOOP OR PSCNV_GEM_MAPPABLE"
  let ?A = "pscnv_ib_bo_alloc k v 0xf1f01b ?f 0 (ucast (2 ^ unat (a + 3) :: u32)) None s"
  note new = assms(1) [unfolded ib_chan_rings_def Let_def assms(2,3) [symmetric] one_shl_def]
  from new have a: "a \<le> 27" "a + 3 \<le> 30" by (auto split: if_split_asm)
  have "a \<le> 30" by (rule order_trans [OF a(1)]) simp
  note new = new [simplified a this if_True bind.bind_lunit]
  obtain ibb s1 where A: "?A = (Inr ibb, s1)" using new by (cases ?A rule: prod.exhaust, cases "fst ?A") auto
  let ?B = "pscnv_ib_bo_alloc k v 0xf1f0 ?f 0 (ucast (2 ^ unat b :: u32)) None s1"
  from new have b: "b \<le> 30" by (simp add: A split: if_split_asm)
  obtain pbb s2 where B: "?B = (Inr pbb, s2)" using new b by (cases ?B rule: prod.exhaust, cases "fst ?B") (auto simp: A)
  show ?thesis using new b a ib_bo_alloc_result [OF A] ib_bo_alloc_result [OF B]
    by (auto simp: A B pscnv_fifo_init_ib_def ask_def proc.defs split: prod.split_asm if_split_asm)
qed

lemma chan_new_result:
  assumes "pscnv_ib_chan_new k mem arg dma pbo ibo s = Some (Inr ch)"
    and "a = (if ibo = 0 then 9 else ibo)" "b = (if pbo = 0 then 20 else pbo)"
  shows "a \<le> 27 \<and> b \<le> 30 \<and> entries (ulog ch) = entries (ulog s) \<and>
    ib_mask ch = 2 ^ unat a - 1 \<and> pb_mask ch = 2 ^ unat b - 1 \<and> pb_size ch = 2 ^ unat b \<and>
    (\<exists>ad. ib_map ch = mem ad (ucast (2 ^ unat (a + 3) :: u32))) \<and>
    (\<exists>ad. pb_map ch = mem ad (ucast (2 ^ unat b :: u32))) \<and>
    ib_put ch = 0 \<and> ib_get ch = 0 \<and> pb_pos ch = 0 \<and> pb_put ch = 0 \<and> pb_get ch = 0"
proof -
  note new = assms(1) [unfolded pscnv_ib_chan_new_def pscnv_vspace_new_lib_def pscnv_chan_new_lib_def
      pscnv_obj_vdma_new_def command_def ask_def split_beta fst_conv snd_conv]
  have "\<exists>v c m s'. ib_chan_rings k mem arg v c m dma pbo ibo s' = Some (Inr ch) \<and> entries (ulog s') = entries (ulog s)"
    using new by (auto split: sum.split_asm if_split_asm intro!: exI)
  then obtain v c m s' where "ib_chan_rings k mem arg v c m dma pbo ibo s' = Some (Inr ch)"
    and "entries (ulog s') = entries (ulog s)" by blast
  then show ?thesis using ib_chan_rings_result [OF _ assms(2,3)] by simp
qed

text \<open>Memory that is mapped is as long as was asked for.\<close>

definition whole_words :: "(u64 \<Rightarrow> u64 \<Rightarrow> u32 list) \<Rightarrow> bool" where
  "whole_words mem \<longleftrightarrow> (\<forall>ad sz. length (mem ad sz) = unat sz div 4)"

lemma new_channel_ok:
  assumes new: "pscnv_ib_chan_new k mem arg dma pbo ibo s = Some (Inr ch)" and mem: "whole_words mem"
    and s: "entries (ulog s) = []"
    and a: "a = unat (if ibo = 0 then 9 else ibo)" and b: "b = unat (if pbo = 0 then 20 else pbo)"
    and room: "room b (pb_base ch)" "W = 2 ^ (b - 2)"
  shows "1 \<le> a" "a \<le> 30" "shape a b (pb_base ch) ch" "ib_ok a taken ch 0" "pb_ok W fetched [] ch 0"
proof -
  define ao where "ao = (if ibo = 0 then 9 else ibo)"
  define bo where "bo = (if pbo = 0 then 20 else pbo)"
  note r = chan_new_result [OF new ao_def bo_def]
  have a: "a = unat ao" and b: "b = unat bo" using a b by (simp_all only: ao_def bo_def)
  have "ao \<noteq> 0" by (simp add: ao_def)
  then show "1 \<le> a" by (simp add: a unat_gt_0 Suc_le_eq)
  from r have "unat ao \<le> 27" by (simp add: word_le_iff_unat)
  then have a27: "a \<le> 27" by (simp add: a)
  then show "a \<le> 30" by simp
  have b': "3 \<le> b" "b \<le> 23" using room by (simp_all add: room_def)
  have "unat (ao + 3) = a + 3" using a27 by (simp add: a unat_plus_if_no_overflow)
  then have "unat (ucast (2 ^ unat (ao + 3) :: u32) :: u64) = 2 ^ (a + 3)"
    using a27 by (simp only: unat_ucast_u32_u64) (rule unat_two_power_u32, simp)
  then have ib: "length (ib_map ch) = 2 * 2 ^ a" using r mem by (auto simp: whole_words_def power_add)
  have "unat (ucast (2 ^ unat bo :: u32) :: u64) = 2 ^ b"
    using b' by (simp only: unat_ucast_u32_u64 b [symmetric]) (rule unat_two_power_u32, simp)
  then have pb: "4 * length (pb_map ch) = 2 ^ b"
    using r mem words_of_ring(1) [OF b'] by (auto simp: whole_words_def)
  show "shape a b (pb_base ch) ch"
    using r ib pb by (simp add: shape_def a b mask_eq_exp_minus_1)
  show "ib_ok a taken ch 0" using r s by (simp add: ib_ok_def Let_def)
  have "0 < W" using room(2) by simp
  then show "pb_ok W fetched [] ch 0" using r s by (simp add: pb_ok_def pb_mem_def handed_def)
qed

subsection \<open>The property\<close>

text \<open>
  C34: The two rings of a channel of a client are one queue of words. After the channel has been made,
  any words are put out and handed over in any order: every operation returns; the entries handed over
  name, in order and without a gap, the addresses of the words put out, all of them after a FIRE; and
  every word the card has not fetched yet, and every entry it has not taken yet, is still in memory,
  however often the rings have wrapped. The card is only assumed to fetch in order, to report how far it
  is and to go on. The ring must have room for 2 to 2 ^ 21 words (the length field of an entry has no
  more) and not lie across 4 GB, since the two halves of the card's position are read one after the other.
\<close>

theorem ring_is_queue:
  assumes new: "pscnv_ib_chan_new k mem arg dma pbo ibo s = Some (Inr ch)" "whole_words mem" "ulog s = []"
    and a: "a = unat (if ibo = 0 then 9 else ibo)" and b: "b = unat (if pbo = 0 then 20 else pbo)"
    and room: "room b (pb_base ch)" and W: "W = 2 ^ (b - 2)"
    and card: "serves_in_order k (2 ^ a) W (pb_base ch) taken fetched" "goes_on B taken fetched"
  shows "\<exists>ch'. drive k ops ch = Some ch' \<and>
    handed (ulog ch') \<le> length (words_out ops) \<and>
    (ops \<noteq> [] \<and> last ops = Fire \<longrightarrow> handed (ulog ch') = length (words_out ops)) \<and>
    concat (map entry_addrs (entries (ulog ch'))) =
      map (\<lambda>i. unat (pb_base ch) + 4 * (i mod W)) [0..<handed (ulog ch')] \<and>
    (\<forall>i. fetched (ulog ch') \<le> i \<and> i < length (words_out ops) \<longrightarrow> pb_map ch' ! (i mod W) = words_out ops ! i) \<and>
    (\<forall>j. taken (ulog ch') \<le> j \<and> j < length (entries (ulog ch')) \<longrightarrow>
      ib_map ch' ! (2 * (j mod 2 ^ a)) = ucast (entries (ulog ch') ! j) \<and>
      ib_map ch' ! (2 * (j mod 2 ^ a) + 1) = ucast (drop_bit 32 (entries (ulog ch') ! j)))"
proof -
  have "entries (ulog s) = []" using new(3) by simp
  note ok = new_channel_ok [OF new(1,2) this a b room W]
  from drive_ok [OF card ok(1,2) room W ok(3,4,5), of ops]
  obtain ch' c g where ch': "drive k ops ch = Some ch'" "shape a b (pb_base ch) ch'" "ib_ok a taken ch' c"
    "pb_ok W fetched (words_out ops) ch' g" "ops \<noteq> [] \<longrightarrow> last ops = Fire \<longrightarrow> handed (ulog ch') = length (words_out ops)"
    by auto
  have "0 < W" "W \<le> 2 ^ 21" "unat (pb_base ch) + 4 * W \<le> 2 ^ 40"
    using room W words_of_ring [of b] by (auto simp: room_def)
  note adr = unat_word_addr [OF this]
  have "pb_base ch' = pb_base ch" using ch'(2) by (simp add: shape_def)
  then show ?thesis using ch'
    by (intro exI [of _ ch'] conjI) (auto simp: ib_ok_def pb_ok_def pb_mem_def Let_def adr)
qed

text \<open>A card that takes every entry at once, for a ring of 2 words and 2 entries.\<close>

definition eager_card :: "nat \<Rightarrow> nat \<Rightarrow> u64 \<Rightarrow> server" where
  "eager_card N W base l q = (0, \<lambda>i. case q of
     ChmapRd r \<Rightarrow>
       if r = 0x88 then of_nat (length (entries l) mod N)
       else if r = 0x58 then ucast (ucast (word_addr base W (handed l)) :: u32)
       else ucast (0x80000000 OR ucast (drop_bit 32 (word_addr base W (handed l))) :: u32)
   | VspaceMap _ _ _ _ _ _ \<Rightarrow> base
   | _ \<Rightarrow> 1)"

lemma entries_grow: "\<exists>es. entries (q # l) = entries l @ es"
  by (cases "q # l" rule: entries.cases) auto

lemma eager_serves: "serves_in_order (eager_card N W base) N W base (\<lambda>l. length (entries l)) handed"
proof -
  have "length (entries l) \<le> length (entries (q # l)) \<and> handed l \<le> handed (q # l)" for q l
    using entries_grow [of q l] by (auto simp: handed_def)
  then show ?thesis
    by (simp add: serves_in_order_def eager_card_def handed_def unsigned_of_nat word_of_nat_eq_iff)
qed

lemma eager_goes_on: "goes_on B (\<lambda>l. length (entries l)) handed"
  by (simp add: goes_on_def)

lemma ring_is_queue_witness:
  "\<exists>ch ch'. pscnv_ib_chan_new (eager_card 2 2 0x20000000) (\<lambda>ad sz. replicate (unat sz div 4) 0) 0 1 3 1 \<lparr>ulog = []\<rparr>
      = Some (Inr ch) \<and>
    drive (eager_card 2 2 0x20000000) [Out 7, Out 8, Out 9, Fire] ch = Some ch' \<and> handed (ulog ch') = 3 \<and>
    concat (map entry_addrs (entries (ulog ch'))) = [0x20000000, 0x20000004, 0x20000000]"
proof -
  let ?k = "eager_card 2 2 0x20000000" and ?mem = "\<lambda>(ad :: u64) (sz :: u64). replicate (unat sz div 4) (0 :: u32)"
  obtain ch where new: "pscnv_ib_chan_new ?k ?mem 0 1 3 1 \<lparr>ulog = []\<rparr> = Some (Inr ch)" and base: "pb_base ch = 0x20000000"
    by (simp add: pscnv_ib_chan_new_def ib_chan_rings_def pscnv_vspace_new_lib_def pscnv_chan_new_lib_def pscnv_obj_vdma_new_def
      pscnv_ib_bo_alloc_def pscnv_gem_new_lib_def pscnv_vspace_map_lib_def pscnv_fifo_init_ib_def command_def ask_def eager_card_def
      PSCNV_GEM_MAPPABLE_def PSCNV_GEM_SYSRAM_SNOOP_def one_shl_def Let_def proc.defs)
  have "whole_words ?mem" by (simp add: whole_words_def)
  from ring_is_queue [OF new this, of 1 3 2 "\<lambda>l. length (entries l)" handed 0 "[Out 7, Out 8, Out 9, Fire]"]
  obtain ch' where "drive ?k [Out 7, Out 8, Out 9, Fire] ch = Some ch'" "handed (ulog ch') = 3"
    "concat (map entry_addrs (entries (ulog ch'))) = [0x20000000, 0x20000004, 0x20000000]"
    using eager_serves [of 2 2 "0x20000000"] eager_goes_on [of 0]
    by (auto simp: base room_def upt_rec simp del: drive.simps)
  with new show ?thesis by blast
qed

end
