(* ===== verification/IbLeak.thy ===== *)
theory IbLeak
  imports IbProps
begin

section \<open>A channel that cannot be made leaves nothing behind\<close>

text \<open>
  What the process holds, read from its log: a request that succeeds adds something, the request that
  gives it back takes it away.
\<close>

datatype holding =
  Memory | Vspace u32 | Channel u32 | Buffer u32 | Mapped u32 u64 | Window u64 u64

fun held :: "server \<Rightarrow> ureq list \<Rightarrow> holding list" where
  "held k [] = []"
| "held k (q # l) = (let got = (\<lambda>x. if fst (k l q) = 0 then x # held k l else held k l); f = snd (k l q) in
     case q of
       Malloc \<Rightarrow> got Memory
     | VspaceNew \<Rightarrow> got (Vspace (ucast (f 0)))
     | ChanNew _ \<Rightarrow> got (Channel (ucast (f 1)))
     | GemNew _ _ _ _ _ \<Rightarrow> got (Buffer (ucast (f 0)))
     | VspaceMap v _ _ _ _ _ \<Rightarrow> got (Mapped v (f 6))
     | Mmap sz _ \<Rightarrow> got (Window (f 0) sz)
     | Free \<Rightarrow> remove1 Memory (held k l)
     | VspaceFree v \<Rightarrow> remove1 (Vspace v) (held k l)
     | ChanFree c \<Rightarrow> remove1 (Channel c) (held k l)
     | GemClose h \<Rightarrow> remove1 (Buffer h) (held k l)
     | VspaceUnmap v ofs \<Rightarrow> remove1 (Mapped v ofs) (held k l)
     | Munmap ad sz \<Rightarrow> remove1 (Window ad sz) (held k l)
     | _ \<Rightarrow> held k l)"

text \<open>What a buffer object stands for.\<close>

definition bo_holds :: "pscnv_ib_bo \<Rightarrow> holding list" where
  "bo_holds b =
     (if bo_map b \<noteq> 0 then [Window (bo_map b) (ucast (bo_size b))] else []) @
     (if bo_vid b \<noteq> 0 then [Mapped (bo_vid b) (bo_base b)] else []) @ [Buffer (bo_handle b), Memory]"

text \<open>\<open>mmap\<close> never gives out the address 0 by itself.\<close>

definition maps_above_0 :: "server \<Rightarrow> bool" where
  "maps_above_0 k \<longleftrightarrow> (\<forall>l sz h. snd (k l (Mmap sz h)) 0 \<noteq> 0)"

lemma held_ask: "held k (ulog (snd (ask k q s))) = held k (q # ulog s)"
  by (simp add: ask_def)

lemma mappable: "(PSCNV_GEM_SYSRAM_SNOOP OR PSCNV_GEM_MAPPABLE) AND PSCNV_GEM_MAPPABLE \<noteq> 0"
  by (simp add: PSCNV_GEM_SYSRAM_SNOOP_def PSCNV_GEM_MAPPABLE_def)

lemma bo_alloc_held:
  fixes n :: u32
  assumes "pscnv_ib_bo_alloc k v cookie (PSCNV_GEM_SYSRAM_SNOOP OR PSCNV_GEM_MAPPABLE) tile_flags (ucast n) usr s = (r, s')"
    and "maps_above_0 k"
  shows "held k (ulog s') = (case r of Inl _ \<Rightarrow> [] | Inr b \<Rightarrow> bo_holds b) @ held k (ulog s)"
  using assms
  unfolding pscnv_ib_bo_alloc_def pscnv_gem_new_lib_def pscnv_vspace_map_lib_def pscnv_vspace_unmap_lib_def pscnv_gem_close_def
    command_def ask_def split_beta fst_conv snd_conv
  by (auto simp: mappable bo_holds_def maps_above_0_def Let_def split: sum.split_asm if_split_asm)

lemma bo_free_held:
  assumes "held k (ulog s) = bo_holds b @ r"
  shows "held k (ulog (pscnv_ib_bo_free k b s)) = r"
  using assms
  by (auto simp: pscnv_ib_bo_free_def bo_holds_def pscnv_vspace_unmap_lib_def pscnv_gem_close_def ask_def Let_def split_beta split: if_splits)

lemma out_vdma_held:
  assumes "held k (ulog s) = Window m 0x2000 # Channel c # (if arg = 0 then [Vspace v] else []) @ Memory # r"
  shows "held k (ulog (out_vdma k arg v c m s)) = r"
  using assms
  by (auto simp: out_vdma_def out_chmap_def out_chan_def out_vs_def pscnv_chan_free_def pscnv_vspace_free_def ask_def split_beta
    split: if_splits)

lemma out_pb_held:
  assumes "held k (ulog s) = bo_holds ibb @ Window m 0x2000 # Channel c # (if arg = 0 then [Vspace v] else []) @ Memory # r"
  shows "held k (ulog (out_pb k arg v c m ibb s)) = r"
  unfolding out_pb_def by (rule out_vdma_held, rule bo_free_held, rule assms)

lemma out_fifo_held:
  assumes "held k (ulog s) = bo_holds pbb @ bo_holds ibb @
    Window m 0x2000 # Channel c # (if arg = 0 then [Vspace v] else []) @ Memory # r"
  shows "held k (ulog (out_fifo k arg v c m ibb pbb s)) = r"
  unfolding out_fifo_def by (rule out_pb_held, rule bo_free_held, rule assms)

lemma rings_held:
  assumes "ib_chan_rings k mem arg v c m dma pbo ibo s = Some (Inl s')" "maps_above_0 k"
    and s: "held k (ulog s) = Window m 0x2000 # Channel c # (if arg = 0 then [Vspace v] else []) @ Memory # r"
  shows "held k (ulog s') = r"
proof -
  define a where "a = (if ibo = 0 then 9 else ibo)"
  define b where "b = (if pbo = 0 then 20 else pbo)"
  let ?f = "PSCNV_GEM_SYSRAM_SNOOP OR PSCNV_GEM_MAPPABLE"
  let ?A = "pscnv_ib_bo_alloc k v 0xf1f01b ?f 0 (ucast (2 ^ unat (a + 3) :: u32)) None s"
  note new = assms(1) [unfolded ib_chan_rings_def Let_def a_def [symmetric] b_def [symmetric] one_shl_def]
  from new have a: "a \<le> 27" "a + 3 \<le> 30" by (auto split: if_split_asm)
  have "a \<le> 30" by (rule order_trans [OF a(1)]) simp
  note new = new [simplified a this if_True bind.bind_lunit]
  obtain r1 s1 where A: "?A = (r1, s1)" by (cases ?A)
  note A' = bo_alloc_held [OF A assms(2)]
  show ?thesis
  proof (cases r1)
    case (Inl u)
    then have "s' = out_vdma k arg v c m s1" using new A by simp
    then show ?thesis using out_vdma_held A' s Inl by simp
  next
    case (Inr ibb)
    let ?B = "pscnv_ib_bo_alloc k v 0xf1f0 ?f 0 (ucast (2 ^ unat b :: u32)) None s1"
    from new have b: "b \<le> 30" by (simp add: A Inr split: if_split_asm)
    obtain r2 s2 where B: "?B = (r2, s2)" by (cases ?B)
    note B' = bo_alloc_held [OF B assms(2)]
    show ?thesis
    proof (cases r2)
      case (Inl u)
      then have "s' = out_pb k arg v c m ibb s1 \<or> s' = out_pb k arg v c m ibb s2" using new A Inr B b by simp
      moreover have "held k (ulog s2) = held k (ulog s1)" using B' Inl by simp
      ultimately show ?thesis
        using out_pb_held [of k _ ibb m c arg v r] A' s \<open>r1 = Inr ibb\<close> by auto
    next
      case Inr': (Inr pbb)
      let ?s = "s2\<lparr>ulog := FifoInitIb c dma 0 1 (bo_base ibb) a # ulog s2\<rparr>"
      have "s' = out_fifo k arg v c m ibb pbb ?s"
        using new A Inr B Inr' b
        by (auto simp: pscnv_fifo_init_ib_def ask_def split: prod.split_asm if_split_asm)
      moreover have "held k (ulog ?s) = bo_holds pbb @ bo_holds ibb @ held k (ulog s)"
        using A' B' Inr Inr' by (simp add: Let_def)
      ultimately show ?thesis using out_fifo_held [of k ?s pbb ibb m c arg v r] s by simp
    qed
  qed
qed

text \<open>
  C35: When a channel cannot be made, because any of the requests on the way fails, everything the
  process got for it has been given back: what it holds is what it held before, whichever step failed
  and whether the address space was its own or made for the channel.
\<close>

theorem failed_channel_leaves_nothing:
  assumes "pscnv_ib_chan_new k mem arg dma pbo ibo s = Some (Inl s')" "maps_above_0 k"
  shows "held k (ulog s') = held k (ulog s)"
proof -
  note new = assms(1) [unfolded pscnv_ib_chan_new_def pscnv_vspace_new_lib_def pscnv_chan_new_lib_def
      pscnv_obj_vdma_new_def command_def ask_def split_beta fst_conv snd_conv]
  then show ?thesis using assms(2)
    by (auto simp: out_vs_def out_chan_def out_chmap_def out_vdma_def pscnv_vspace_free_def pscnv_chan_free_def
      ask_def split_beta Let_def split: sum.split_asm if_split_asm dest!: rings_held)
qed

text \<open>A kernel that refuses to start the channel, the last step.\<close>

definition no_start :: server where
  "no_start l q = (case q of FifoInitIb _ _ _ _ _ _ \<Rightarrow> -22 | _ \<Rightarrow> 0, \<lambda>i. 1)"

lemma failed_channel_leaves_nothing_witness:
  "\<exists>s'. pscnv_ib_chan_new no_start (\<lambda>_ _. []) 0 1 0 0 \<lparr>ulog = [], \<dots> = ()\<rparr> = Some (Inl s') \<and>
    length (ulog s') = 26 \<and> held no_start (ulog s') = []"
proof -
  obtain s' where s': "pscnv_ib_chan_new no_start (\<lambda>_ _. []) 0 1 0 0 \<lparr>ulog = [], \<dots> = ()\<rparr> = Some (Inl s')"
    "length (ulog s') = 26"
    by (simp add: pscnv_ib_chan_new_def ib_chan_rings_def pscnv_vspace_new_lib_def pscnv_chan_new_lib_def pscnv_obj_vdma_new_def
      pscnv_ib_bo_alloc_def pscnv_gem_new_lib_def pscnv_vspace_map_lib_def pscnv_fifo_init_ib_def command_def ask_def no_start_def
      PSCNV_GEM_MAPPABLE_def PSCNV_GEM_SYSRAM_SNOOP_def one_shl_def Let_def out_fifo_def out_pb_def out_vdma_def
      out_chmap_def out_chan_def out_vs_def pscnv_ib_bo_free_def pscnv_vspace_unmap_lib_def pscnv_gem_close_def
      pscnv_chan_free_def pscnv_vspace_free_def)
  moreover have "maps_above_0 no_start" by (simp add: maps_above_0_def no_start_def)
  ultimately show ?thesis using failed_channel_leaves_nothing [OF s'(1)] by auto
qed

end
