(* ===== verification/VbiosRec.thy ===== *)
theory VbiosRec
  imports InitTable
begin

section \<open>What is read out of the VBIOS\<close>

text \<open>
  \<open>struct nvbios\<close> of \<open>nouveau_bios.h\<close> while it is filled in: \<open>vbios\<close>. Its arrays are lists of their
  length in C (16 outputs, 16 I2C ports, 16 connectors, 32 GPIO lines), with the number in use beside
  them, and an index past the end is a crash. The script interpreter reads the part \<open>nvbios_of\<close> of it.

  The union in \<open>struct dcb_entry\<close> is kept as what lies in memory: its first word \<open>link\<close> is the link of
  an SOR, the greatest frequency of an analog output and the flag of a TV output, whatever the type of
  the output; the other members follow it.
\<close>

record dcb_out =
  o_index :: int
  o_type :: int
  o_i2c_index :: u8
  heads :: u8
  o_connector :: u8
  bus :: u8
  o_location :: u8
  o_or :: u8
  duallink_possible :: bool
  link :: int
  use_straps_for_mode :: bool
  use_acpi_for_edid :: bool
  use_power_scripts :: bool
  link_nr :: int
  link_bw :: int
  slave_addr :: int
  o_upper_default :: bool

definition no_output :: dcb_out where
  "no_output = \<lparr>o_index = 0, o_type = 0, o_i2c_index = 0, heads = 0, o_connector = 0, bus = 0, o_location = 0,
     o_or = 0, duallink_possible = False, link = 0, use_straps_for_mode = False, use_acpi_for_edid = False,
     use_power_scripts = False, link_nr = 0, link_bw = 0, slave_addr = 0, o_upper_default = False\<rparr>"

definition OUTPUT_ANALOG :: int where "OUTPUT_ANALOG = 0"
definition OUTPUT_TV :: int where "OUTPUT_TV = 1"
definition OUTPUT_TMDS :: int where "OUTPUT_TMDS = 2"
definition OUTPUT_LVDS :: int where "OUTPUT_LVDS = 3"
definition OUTPUT_DP :: int where "OUTPUT_DP = 6"
definition OUTPUT_EOL :: int where "OUTPUT_EOL = 14"

lemmas output_types = OUTPUT_ANALOG_def OUTPUT_TV_def OUTPUT_TMDS_def OUTPUT_LVDS_def OUTPUT_DP_def OUTPUT_EOL_def

record conn_entry =
  c_index :: u8
  c_entry :: u32
  c_type :: int
  c_index2 :: u8
  gpio_tag :: u8

record gpio_line = dcb_gpio_entry +
  invert :: bool

record lvds_part =
  fptablepointer :: u16
  fpxlatetableptr :: u16
  xlatwidth :: int
  lvdsmanufacturerpointer :: u16
  fpxlatemanufacturertableptr :: u16
  mode_ptr :: u16
  xlated_entry :: u16
  power_off_for_reset :: bool
  reset_after_pclk_change :: bool
  dual_link :: bool
  link_c_increment :: bool
  if_is_24bit :: bool
  duallink_transition_clk :: int
  strapless_is_24bit :: u8
  edid :: "nat option"
  last_script_invoc :: int
  lvds_init_run :: bool

record vbios =
  vb :: nvbios
  is_bit :: bool
  v_offset :: nat
  dactestval :: u32
  tvdactestval :: u32
  digital_min_front_porch :: u8
  fp_no_ddc :: bool
  feature_byte :: u8
  is_mobile :: bool
  init_function_tbl_ptr :: u16
  some_script_ptr :: u16
  script_table_ptr :: u16
  fp :: lvds_part
  output0_script_ptr :: u16
  output1_script_ptr :: u16
  i2c_crt :: u8
  i2c_tv :: u8
  i2c_panel :: u8
  lvds_single_a_script_ptr :: u16
  n_outputs :: nat
  outputs :: "dcb_out list"
  i2c_ports :: "dcb_i2c_entry list"
  gpio_table_ptr :: u16
  n_gpios :: nat
  gpio_lines :: "gpio_line list"
  connector_table_ptr :: u16
  n_connectors :: nat
  connectors :: "conn_entry list"

text \<open>
  The fields the scripts use are those of \<open>vb\<close>, but for the arrays above: this is the record they see,
  for the output they are run for.
\<close>

definition entry_of :: "dcb_out \<Rightarrow> dcb_entry" where
  "entry_of e = \<lparr>dcb_type = o_type e, i2c_index = o_i2c_index e, connector = o_connector e, location = o_location e,
     dcb_or = o_or e, sor_link = link e, i2c_upper_default = o_upper_default e\<rparr>"

definition nvbios_of :: "vbios \<Rightarrow> dcb_out option \<Rightarrow> nvbios" where
  "nvbios_of v e = (vb v)\<lparr>dcb := (dcb (vb v))\<lparr>entries := int (n_outputs v), dcb_entries := map entry_of (outputs v),
       gpios := map dcb_gpio_entry.truncate (take (n_gpios v) (gpio_lines v)),
       connector_types := map c_type (connectors v)\<rparr>,
     active_output := map_option entry_of e\<rparr>"

text \<open>The card with its PCI identity and the module parameters that matter here.\<close>

record board = drv +
  pci_dev :: u16
  pci_subvendor :: u16
  pci_subdevice :: u16
  nouveau_vbios :: "nat option option"
  nouveau_force_post :: bool
  nouveau_override_conntype :: bool

definition nv_match_device :: "board \<Rightarrow> u16 \<Rightarrow> u16 \<Rightarrow> u16 \<Rightarrow> bool" where
  "nv_match_device b d sv sd \<longleftrightarrow> pci_dev b = d \<and> pci_subvendor b = sv \<and> pci_subdevice b = sd"

definition nv_two_heads :: "board \<Rightarrow> bool" where
  "nv_two_heads b = (let impl = pci_dev b AND 0x0ff0 in
     card_type b \<ge> NV_10 \<and> impl \<noteq> 0x0100 \<and> impl \<noteq> 0x0150 \<and> impl \<noteq> 0x01a0 \<and> impl \<noteq> 0x0200)"

definition nv_two_reg_pll :: "board \<Rightarrow> bool" where
  "nv_two_reg_pll b = (let impl = pci_dev b AND 0x0ff0 in impl = 0x0310 \<or> impl = 0x0340 \<or> card_type b \<ge> NV_40)"

definition drv_of :: "board \<Rightarrow> vbios \<Rightarrow> dcb_out option \<Rightarrow> drv" where
  "drv_of b v e = (drv.truncate b)\<lparr>bios := nvbios_of v e\<rparr>"

subsection \<open>The image\<close>

definition at8 :: "vbios \<Rightarrow> nat \<Rightarrow> u8 option" where
  "at8 v n = idx (data (vb v)) n"

definition at16 :: "vbios \<Rightarrow> nat \<Rightarrow> u16 option" where
  "at16 v n = do {
     lo \<leftarrow> at8 v n;
     hi \<leftarrow> at8 v (n + 1);
     Some (push_bit 8 (ucast hi) OR ucast lo) }"

definition at32 :: "vbios \<Rightarrow> nat \<Rightarrow> u32 option" where
  "at32 v n = do {
     lo \<leftarrow> at16 v n;
     hi \<leftarrow> at16 v (n + 2);
     Some (push_bit 16 (ucast hi) OR ucast lo) }"

text \<open>A pointer in the image: 0 stands for none.\<close>

definition atptr :: "vbios \<Rightarrow> nat \<Rightarrow> nat option option" where
  "atptr v n = do { p \<leftarrow> at16 v n; Some (if p = 0 then None else Some (unat p)) }"

text \<open>Bytes before an address.\<close>

definition before :: "nat \<Rightarrow> nat \<Rightarrow> nat option" where
  "before p n = (if n \<le> p then Some (p - n) else None)"

definition nv_cksum :: "u8 list \<Rightarrow> bool" where
  "nv_cksum bytes \<longleftrightarrow> sum_list bytes \<noteq> 0"

text \<open>\<open>findstr\<close> gives 0 both for a string at 0 and for none.\<close>

primrec findstr_from :: "u8 list \<Rightarrow> u8 list \<Rightarrow> nat \<Rightarrow> nat \<Rightarrow> nat option" where
  "findstr_from xs str i 0 = None"
| "findstr_from xs str i (Suc n) =
     (if take (length str) (drop i xs) = str then Some i else findstr_from xs str (Suc i) n)"

definition findstr :: "u8 list \<Rightarrow> nat \<Rightarrow> u8 list \<Rightarrow> u16" where
  "findstr xs n str = (case findstr_from xs str 0 (n + 1 - length str) of None \<Rightarrow> 0 | Some i \<Rightarrow> of_nat i)"

end
