(* ===== verification/VbiosParse.thy ===== *)
theory VbiosParse
  imports VbiosRec
begin

section \<open>The BIT and BMP structures\<close>

text \<open>
  \<open>parse_bit_structure\<close> with the tables it reads, \<open>parse_bmp_structure\<close> and
  \<open>nouveau_parse_vbios_struct\<close> of \<open>nouveau_bios.c\<close>. A function returns its error number and what has
  been read so far: a table that is not understood is no reason to stop for most callers.
\<close>

type_synonym parser = "vbios \<Rightarrow> (unit res \<times> vbios) option"

definition ENXIO :: errno where "ENXIO = Errno 6"

abbreviation upd_vb :: "(nvbios \<Rightarrow> nvbios) \<Rightarrow> vbios \<Rightarrow> vbios" where
  "upd_vb f v \<equiv> v\<lparr>vb := f (vb v)\<rparr>"

abbreviation upd_fp :: "(lvds_part \<Rightarrow> lvds_part) \<Rightarrow> vbios \<Rightarrow> vbios" where
  "upd_fp f v \<equiv> v\<lparr>fp := f (fp v)\<rparr>"

definition parse_bios_version :: "nat \<Rightarrow> vbios \<Rightarrow> vbios option" where
  "parse_bios_version ofs v = do {
     major \<leftarrow> at8 v (ofs + 3);
     chip \<leftarrow> at8 v (ofs + 2);
     Some (upd_vb (\<lambda>b. b\<lparr>major_version := major, chip_version := chip\<rparr>) v) }"

definition parse_script_table_pointers :: "nat \<Rightarrow> vbios \<Rightarrow> vbios option" where
  "parse_script_table_pointers ofs v = do {
     p0 \<leftarrow> at16 v ofs;
     p2 \<leftarrow> at16 v (ofs + 2);
     p4 \<leftarrow> at16 v (ofs + 4);
     p6 \<leftarrow> at16 v (ofs + 6);
     p8 \<leftarrow> at16 v (ofs + 8);
     p10 \<leftarrow> at16 v (ofs + 10);
     p12 \<leftarrow> at16 v (ofs + 12);
     Some ((upd_vb (\<lambda>b. b\<lparr>init_script_tbls_ptr := p0, macro_index_tbl_ptr := p2, macro_tbl_ptr := p4,
       condition_tbl_ptr := p6, io_condition_tbl_ptr := p8, io_flag_condition_tbl_ptr := p10\<rparr>) v)
       \<lparr>init_function_tbl_ptr := p12\<rparr>) }"

subsection \<open>The tables of a BIT image\<close>

record bit_entry =
  bit_version :: u8
  bit_length :: u16
  bit_offset :: nat
  bit_data :: "nat option"

primrec bit_scan :: "vbios \<Rightarrow> u8 \<Rightarrow> nat \<Rightarrow> nat \<Rightarrow> nat \<Rightarrow> bit_entry res option" where
  "bit_scan v i stride 0 e = Some (Inl ENOENT)"
| "bit_scan v i stride (Suc n) e = do {
     x \<leftarrow> at8 v e;
     if x = i then do {
       ver \<leftarrow> at8 v (e + 1);
       l \<leftarrow> at16 v (e + 2);
       ofs \<leftarrow> at16 v (e + 4);
       p \<leftarrow> atptr v (e + 4);
       Some (Inr \<lparr>bit_version = ver, bit_length = l, bit_offset = unat ofs, bit_data = p\<rparr>) }
     else bit_scan v i stride n (e + stride) }"

definition bit_table :: "vbios \<Rightarrow> u8 \<Rightarrow> bit_entry res option" where
  "bit_table v i = do {
     n \<leftarrow> at8 v (v_offset v + 10);
     stride \<leftarrow> at8 v (v_offset v + 9);
     bit_scan v i (unat stride) (unat n) (v_offset v + 12) }"

definition parse_bit_A_tbl_entry :: "bit_entry \<Rightarrow> parser" where
  "parse_bit_A_tbl_entry e v =
     (if bit_length e \<noteq> 3 then Some (Inl EINVAL, v)
      else do {
        p \<leftarrow> at16 v (bit_offset e);
        if p = 0 then Some (Inl EINVAL, v)
        else do {
          version \<leftarrow> at8 v (unat p);
          if version \<noteq> 0x10 then Some (Inl ENOSYS, v)
          else do {
            headerlen \<leftarrow> at8 v (unat p + 1);
            entrylen \<leftarrow> at8 v (unat p + 2);
            n \<leftarrow> at8 v (unat p + 3);
            if headerlen \<noteq> 4 \<or> entrylen \<noteq> 4 \<or> n \<noteq> 2 then Some (Inl EINVAL, v)
            else do {
              x \<leftarrow> at32 v (unat p + unat headerlen);
              Some (Inr (), v\<lparr>dactestval := x AND 0x3ff\<rparr>) } } } })"

definition parse_bit_C_tbl_entry :: "bit_entry \<Rightarrow> parser" where
  "parse_bit_C_tbl_entry e v =
     (if bit_length e < 10 then Some (Inl EINVAL, v)
      else do {
        p \<leftarrow> at16 v (bit_offset e + 8);
        Some (Inr (), upd_vb (\<lambda>b. b\<lparr>pll_limit_tbl_ptr := p\<rparr>) v) })"

definition parse_bit_display_tbl_entry :: "bit_entry \<Rightarrow> parser" where
  "parse_bit_display_tbl_entry e v =
     (if bit_length e \<noteq> 4 then Some (Inl EINVAL, v)
      else do {
        p \<leftarrow> at16 v (bit_offset e + 2);
        Some (Inr (), upd_fp (\<lambda>f. f\<lparr>fptablepointer := p\<rparr>) v) })"

definition parse_bit_init_tbl_entry :: "bit_entry \<Rightarrow> parser" where
  "parse_bit_init_tbl_entry e v =
     (if bit_length e < 14 then Some (Inl EINVAL, v)
      else do {
        v \<leftarrow> parse_script_table_pointers (bit_offset e) v;
        v \<leftarrow> (if bit_length e \<ge> 16 then do { p \<leftarrow> at16 v (bit_offset e + 14); Some (v\<lparr>some_script_ptr := p\<rparr>) } else Some v);
        v \<leftarrow> (if bit_length e \<ge> 18
              then do { p \<leftarrow> at16 v (bit_offset e + 16); Some (upd_vb (\<lambda>b. b\<lparr>init96_tbl_ptr := p\<rparr>) v) } else Some v);
        Some (Inr (), v) })"

definition parse_bit_i_tbl_entry :: "bit_entry \<Rightarrow> parser" where
  "parse_bit_i_tbl_entry e v =
     (if bit_length e < 6 then Some (Inl EINVAL, v)
      else do {
        v \<leftarrow> parse_bios_version (bit_offset e) v;
        feature \<leftarrow> at8 v (bit_offset e + 5);
        let v = v\<lparr>feature_byte := feature, is_mobile := feature AND 0x10 \<noteq> 0\<rparr>;
        if bit_length e < 15 then Some (Inl EINVAL, v)
        else do {
          p \<leftarrow> at16 v (bit_offset e + 13);
          if p = 0 then Some (Inr (), v)
          else do {
            dacver \<leftarrow> at8 v (unat p);
            headerlen \<leftarrow> at8 v (unat p + 1);
            if dacver \<noteq> 0 \<and> dacver \<noteq> 0x10 then Some (Inl ENOSYS, v)
            else do {
              x \<leftarrow> at32 v (unat p + unat headerlen);
              y \<leftarrow> at32 v (unat p + unat headerlen + 4);
              Some (Inr (), v\<lparr>dactestval := x, tvdactestval := y\<rparr>) } } } })"

definition parse_bit_lvds_tbl_entry :: "bit_entry \<Rightarrow> parser" where
  "parse_bit_lvds_tbl_entry e v =
     (if bit_length e \<noteq> 2 then Some (Inl EINVAL, v)
      else do {
        p \<leftarrow> at16 v (bit_offset e);
        Some (Inr (), upd_fp (\<lambda>f. f\<lparr>lvdsmanufacturerpointer := p\<rparr>) v) })"

definition parse_bit_M_tbl_entry :: "bit_entry \<Rightarrow> parser" where
  "parse_bit_M_tbl_entry e v =
     (if bit_length e < 5 then Some (Inr (), v)
      else do {
        let o' = (if bit_version e < 2 then 2 else 0);
        n \<leftarrow> at8 v (bit_offset e + o');
        p \<leftarrow> at16 v (bit_offset e + o' + 1);
        Some (Inr (), upd_vb (\<lambda>b. b\<lparr>ram_restrict_group_count := n, ram_restrict_tbl_ptr := p\<rparr>) v) })"

definition parse_bit_tmds_tbl_entry :: "bit_entry \<Rightarrow> parser" where
  "parse_bit_tmds_tbl_entry e v =
     (if bit_length e \<noteq> 2 then Some (Inl EINVAL, v)
      else do {
        p \<leftarrow> at16 v (bit_offset e);
        if p = 0 then Some (Inl EINVAL, v)
        else do {
          ver \<leftarrow> at8 v (unat p);
          if ver \<noteq> 0x11 then Some (Inl ENOSYS, v)
          else do {
            script1 \<leftarrow> at16 v (unat p + 7);
            script2 \<leftarrow> at16 v (unat p + 9);
            x \<leftarrow> at8 v (unat script1);
            _ \<leftarrow> (if x = 0x71 then at8 v (unat script2) else Some 0);
            p0 \<leftarrow> at16 v (unat p + 11);
            p1 \<leftarrow> at16 v (unat p + 13);
            Some (Inr (), v\<lparr>output0_script_ptr := p0, output1_script_ptr := p1\<rparr>) } } })"

definition parse_bit_U_tbl_entry :: "bit_entry \<Rightarrow> parser" where
  "parse_bit_U_tbl_entry e v =
     (if bit_length e \<noteq> 3 then Some (Inl EINVAL, v)
      else do {
        p \<leftarrow> at16 v (bit_offset e);
        Some (Inr (), v\<lparr>script_table_ptr := p\<rparr>) })"

definition parse_bit_displayport_tbl_entry :: "bit_entry \<Rightarrow> parser" where
  "parse_bit_displayport_tbl_entry e v = do {
     p \<leftarrow> at16 v (bit_offset e);
     Some (Inr (), upd_vb (\<lambda>b. b\<lparr>dp_table_ptr := p\<rparr>) v) }"

definition parse_bit_table :: "u8 \<Rightarrow> (bit_entry \<Rightarrow> parser) \<Rightarrow> parser" where
  "parse_bit_table i parse v = do {
     e \<leftarrow> bit_table v i;
     case e of Inr e \<Rightarrow> parse e v | Inl _ \<Rightarrow> Some (Inl ENOSYS, v) }"

text \<open>One after the other. The flag says whether an error ends the whole.\<close>

primrec parse_tables :: "(bool \<times> u8 \<times> (bit_entry \<Rightarrow> parser)) list \<Rightarrow> parser" where
  "parse_tables [] v = Some (Inr (), v)"
| "parse_tables (t # ts) v = (case t of (needed, i, parse) \<Rightarrow> do {
     (ret, v) \<leftarrow> parse_bit_table i parse v;
     case ret of
       Inl e \<Rightarrow> if needed then Some (Inl e, v) else parse_tables ts v
     | Inr _ \<Rightarrow> parse_tables ts v })"

definition parse_bit_structure :: parser where
  "parse_bit_structure v = do {
     (ret, v) \<leftarrow> parse_tables [(True, 0x69, parse_bit_i_tbl_entry)] v;
     if ret \<noteq> Inr () then Some (ret, v)
     else parse_tables
       ((if major_version (vb v) \<ge> 0x60 then [(False, 0x41, parse_bit_A_tbl_entry)] else []) @
        [(True, 0x43, parse_bit_C_tbl_entry),
         (False, 0x44, parse_bit_display_tbl_entry),
         (True, 0x49, parse_bit_init_tbl_entry),
         (False, 0x4d, parse_bit_M_tbl_entry),
         (False, 0x4c, parse_bit_lvds_tbl_entry),
         (False, 0x54, parse_bit_tmds_tbl_entry),
         (False, 0x55, parse_bit_U_tbl_entry),
         (False, 0x64, parse_bit_displayport_tbl_entry)]) v }"

subsection \<open>A BMP image\<close>

definition bmp_length :: "u8 \<Rightarrow> u8 \<Rightarrow> nat" where
  "bmp_length major minor =
     (if major = 1 then 44
      else if major = 2 then 48
      else if major = 3 then 54
      else if major = 4 \<or> minor < 0x1 then 62
      else if minor < 0x6 then 67
      else if minor < 0x10 then 75
      else if minor = 0x10 then 89
      else if minor < 0x14 then 118
      else if minor < 0x24 then 123
      else if minor < 0x27 then 144
      else 158)"

definition bmp_defaults :: "vbios \<Rightarrow> vbios" where
  "bmp_defaults v =
     (upd_fp (\<lambda>f. f\<lparr>duallink_transition_clk := 90000\<rparr>)
       (upd_vb (\<lambda>b. b\<lparr>fmaxvco := 256000, fminvco := 128000\<rparr>) v))
     \<lparr>i2c_ports := (i2c_ports v)
        [0 := (i2c_ports v ! 0)\<lparr>i2c_write := 0x3f, i2c_read := 0x3e\<rparr>,
         1 := (i2c_ports v ! 1)\<lparr>i2c_write := 0x37, i2c_read := 0x36\<rparr>],
      digital_min_front_porch := 0x4b\<rparr>"

text \<open>A byte of the image that replaces a value unless it is 0.\<close>

definition if_set :: "u8 \<Rightarrow> u8 \<Rightarrow> u8" where
  "if_set x old = (if x \<noteq> 0 then x else old)"

definition bmp_i2c :: "nat \<Rightarrow> vbios \<Rightarrow> vbios option" where
  "bmp_i2c ofs v = do {
     crt \<leftarrow> at8 v ofs;
     tv \<leftarrow> at8 v (ofs + 1);
     panel \<leftarrow> at8 v (ofs + 2);
     w0 \<leftarrow> at8 v (ofs + 4);
     r0 \<leftarrow> at8 v (ofs + 5);
     w1 \<leftarrow> at8 v (ofs + 6);
     r1 \<leftarrow> at8 v (ofs + 7);
     let p0 = i2c_ports v ! 0;
     let p1 = i2c_ports v ! 1;
     Some (v\<lparr>i2c_crt := crt, i2c_tv := tv, i2c_panel := panel,
       i2c_ports := (i2c_ports v)
         [0 := p0\<lparr>i2c_write := if_set w0 (i2c_write p0), i2c_read := if_set r0 (i2c_read p0)\<rparr>,
          1 := p1\<lparr>i2c_write := if_set w1 (i2c_write p1), i2c_read := if_set r1 (i2c_read p1)\<rparr>]\<rparr>) }"

text \<open>What the longer structures hold, member by member.\<close>

definition bmp_tail :: "nat \<Rightarrow> nat \<Rightarrow> vbios \<Rightarrow> vbios option" where
  "bmp_tail bmp n v = do {
     v \<leftarrow> (if n > 74 then do {
             x \<leftarrow> at32 v (bmp + 67); y \<leftarrow> at32 v (bmp + 71);
             Some (upd_vb (\<lambda>b. b\<lparr>fmaxvco := x, fminvco := y\<rparr>) v) } else Some v);
     v \<leftarrow> (if n > 88 then parse_script_table_pointers ((bmp + 75) mod 2 ^ 16) v else Some v);
     v \<leftarrow> (if n > 94 then do {
             p0 \<leftarrow> at16 v (bmp + 89); p1 \<leftarrow> at16 v (bmp + 91); p2 \<leftarrow> at16 v (bmp + 95);
             Some (v\<lparr>output0_script_ptr := p0, output1_script_ptr := p1, lvds_single_a_script_ptr := p2\<rparr>) } else Some v);
     v \<leftarrow> (if n > 108 then do {
             p0 \<leftarrow> at16 v (bmp + 105); p1 \<leftarrow> at16 v (bmp + 107);
             Some (upd_fp (\<lambda>f. f\<lparr>fptablepointer := p0, fpxlatetableptr := p1, xlatwidth := 1\<rparr>) v) } else Some v);
     v \<leftarrow> (if n > 120 then do {
             p0 \<leftarrow> at16 v (bmp + 117); p1 \<leftarrow> at16 v (bmp + 119);
             Some (upd_fp (\<lambda>f. f\<lparr>lvdsmanufacturerpointer := p0, fpxlatemanufacturertableptr := p1\<rparr>) v) } else Some v);
     v \<leftarrow> (if n > 143 then do { p \<leftarrow> at16 v (bmp + 142); Some (upd_vb (\<lambda>b. b\<lparr>pll_limit_tbl_ptr := p\<rparr>) v) } else Some v);
     if n > 157 then do {
       x \<leftarrow> at16 v (bmp + 156);
       Some (upd_fp (\<lambda>f. f\<lparr>duallink_transition_clk := uint x * 10\<rparr>) v) } else Some v }"

definition bmp_body :: "nat \<Rightarrow> u8 \<Rightarrow> u8 \<Rightarrow> vbios \<Rightarrow> vbios option" where
  "bmp_body bmp major minor v = do {
     let n = bmp_length major minor;
     feature \<leftarrow> at8 v (bmp + 9);
     v \<leftarrow> parse_bios_version ((bmp + 10) mod 2 ^ 16) (v\<lparr>feature_byte := feature\<rparr>);
     let v = (if major < 5 \<or> minor < 0x10 then upd_vb (\<lambda>b. b\<lparr>old_style_init := True\<rparr>) v else v);
     let legacy = (if major < 2 then 14 else 18);
     p0 \<leftarrow> at16 v (bmp + legacy);
     p1 \<leftarrow> at16 v (bmp + legacy + 2);
     let v = upd_vb (\<lambda>b. b\<lparr>init_script_tbls_ptr := p0, extra_init_script_tbl_ptr := p1\<rparr>) v;
     v \<leftarrow> (if major > 2 then do {
             m0 \<leftarrow> at16 v (bmp + 24); m1 \<leftarrow> at16 v (bmp + 26); m2 \<leftarrow> at16 v (bmp + 28);
             Some (upd_vb (\<lambda>b. b\<lparr>mem_init_tbl_ptr := m0, sdr_seq_tbl_ptr := m1, ddr_seq_tbl_ptr := m2\<rparr>) v) } else Some v);
     v \<leftarrow> bmp_i2c (if n > 61 then (bmp + 54) mod 2 ^ 16 else 0x48) v;
     bmp_tail bmp n v }"

definition parse_bmp_structure :: "nat \<Rightarrow> parser" where
  "parse_bmp_structure bmp v = do {
     let v = bmp_defaults v;
     major \<leftarrow> at8 v (bmp + 5);
     minor \<leftarrow> at8 v (bmp + 6);
     let v = (if major < 5 then upd_vb (\<lambda>b. b\<lparr>data := (data b)[0x36 := 0, 0x37 := 0]\<rparr>) v else v);
     if (major < 5 \<and> minor \<noteq> 1) \<or> major > 5 then Some (Inl ENOSYS, v)
     else if major = 0 then Some (Inr (), v)
     else if nv_cksum (take 8 (drop bmp (data (vb v)))) then Some (Inl EINVAL, v)
     else do { v \<leftarrow> bmp_body bmp major minor v; Some (Inr (), v) } }"

subsection \<open>Which of the two\<close>

definition bit_signature :: "u8 list" where "bit_signature = [0xff, 0xb8, 0x42, 0x49, 0x54]"
definition bmp_signature :: "u8 list" where "bmp_signature = [0xff, 0x7f, 0x4e, 0x56, 0x00]"

definition nouveau_parse_vbios_struct :: parser where
  "nouveau_parse_vbios_struct v = (
     let ofs = findstr (data (vb v)) (unat (len (vb v))) bit_signature in
     if ofs \<noteq> 0 then parse_bit_structure (v\<lparr>is_bit := True, v_offset := unat ofs\<rparr>)
     else
       let ofs = findstr (data (vb v)) (unat (len (vb v))) bmp_signature in
       if ofs \<noteq> 0 then parse_bmp_structure (unat ofs) (v\<lparr>is_bit := False, v_offset := unat ofs\<rparr>)
       else Some (Inl ENODEV, v))"

end
