(* ===== verification/DcbParse.thy ===== *)
theory DcbParse
  imports VbiosParse
begin

section \<open>The display configuration block\<close>

text \<open>
  \<open>parse_dcb_table\<close> of \<open>nouveau_bios.c\<close> and what it uses: the outputs, the GPIO lines, the connectors,
  the outputs made up for old cards, the merging of like outputs and the two fixups after it. The
  encoder of a TV output is looked for on an I2C bus (\<open>nv04_tv.c\<close>, \<open>nouveau_i2c.c\<close>).
\<close>

subsection \<open>Outputs\<close>

definition LEGACY_I2C_CRT :: u8 where "LEGACY_I2C_CRT = 0x80"
definition LEGACY_I2C_PANEL :: u8 where "LEGACY_I2C_PANEL = 0x81"
definition LEGACY_I2C_TV :: u8 where "LEGACY_I2C_TV = 0x82"

definition dcb_ver :: "vbios \<Rightarrow> u8" where
  "dcb_ver v = dcb_version (dcb (vb v))"

text \<open>An index past the array of outputs is a crash.\<close>

definition new_dcb_entry :: "vbios \<Rightarrow> (nat \<times> vbios) option" where
  "new_dcb_entry v = (let i = n_outputs v in
     if i < length (outputs v) then
       Some (i, v\<lparr>outputs := (outputs v)[i := no_output\<lparr>o_index := int i\<rparr>], n_outputs := i + 1\<rparr>)
     else None)"

definition set_output :: "nat \<Rightarrow> (dcb_out \<Rightarrow> dcb_out) \<Rightarrow> vbios \<Rightarrow> vbios" where
  "set_output i f v = v\<lparr>outputs := (outputs v)[i := f (outputs v ! i)]\<rparr>"

definition fabricate_vga_output :: "u8 \<Rightarrow> u8 \<Rightarrow> vbios \<Rightarrow> vbios option" where
  "fabricate_vga_output i h v = do {
     (k, v) \<leftarrow> new_dcb_entry v;
     Some (set_output k (\<lambda>e. e\<lparr>o_type := 0, o_i2c_index := i, heads := h, o_location := 0, o_or := 1\<rparr>) v) }"

definition fabricate_dvi_i_output :: "bool \<Rightarrow> vbios \<Rightarrow> vbios option" where
  "fabricate_dvi_i_output two v = do {
     (k, v) \<leftarrow> new_dcb_entry v;
     Some (set_output k (\<lambda>e. e\<lparr>o_type := 2, o_i2c_index := LEGACY_I2C_PANEL, heads := if two then 3 else 1,
       o_location := 1, o_or := 1, duallink_possible := False\<rparr>) v) }"

definition fabricate_tv_output :: "bool \<Rightarrow> vbios \<Rightarrow> vbios option" where
  "fabricate_tv_output two v = do {
     (k, v) \<leftarrow> new_dcb_entry v;
     Some (set_output k (\<lambda>e. e\<lparr>o_type := 1, o_i2c_index := LEGACY_I2C_TV, heads := if two then 3 else 1,
       o_location := 1\<rparr>) v) }"

text \<open>Bits \<open>lo\<close> to \<open>lo + n - 1\<close>.\<close>

definition field :: "nat \<Rightarrow> nat \<Rightarrow> u32 \<Rightarrow> u32" where
  "field lo n x = take_bit n (drop_bit lo x)"

definition dcb20_conf :: "u8 \<Rightarrow> u32 \<Rightarrow> dcb_out \<Rightarrow> dcb_out" where
  "dcb20_conf ver conf e = (
     let t = o_type e; sor = uint (field 4 2 conf) in
     if t = OUTPUT_ANALOG then
       e\<lparr>link := if ver < 0x30 then uint (conf AND 0xffff) * 10 else uint (conf AND 0xff) * 10000\<rparr>
     else if t = OUTPUT_LVDS then
       (if ver < 0x22 then
          e\<lparr>use_straps_for_mode := True, use_power_scripts := (conf AND 0xc \<noteq> 0)\<rparr>
        else e\<lparr>use_straps_for_mode := (conf AND 1 \<noteq> 0), use_acpi_for_edid := (conf AND 2 \<noteq> 0),
               use_power_scripts := (conf AND 4 \<noteq> 0), link := sor\<rparr>)
     else if t = OUTPUT_TV then e\<lparr>link := of_bool (ver \<ge> 0x30 \<and> conf AND 0x40 \<noteq> 0)\<rparr>
     else if t = OUTPUT_DP then
       e\<lparr>link := sor, link_bw := uint (field 21 3 conf),
         link_nr := (let n = field 24 4 conf in if n = 0xf then 4 else if n = 0x3 then 2 else 1)\<rparr>
     else if t = OUTPUT_TMDS then
       (if ver \<ge> 0x40 then e\<lparr>link := sor\<rparr>
        else if ver \<ge> 0x30 then e\<lparr>slave_addr := uint (field 8 3 conf)\<rparr>
        else if ver \<ge> 0x22 then e\<lparr>slave_addr := uint (field 4 3 conf)\<rparr>
        else e)
     else e)"

definition dcb20_conn :: "u8 \<Rightarrow> u32 \<Rightarrow> dcb_out \<Rightarrow> dcb_out" where
  "dcb20_conn ver conn e = e\<lparr>o_type := uint (field 0 4 conn), o_i2c_index := ucast (field 4 4 conn),
     heads := ucast (field 8 4 conn),
     o_connector := if ver \<ge> 0x40 then ucast (field 12 4 conn) else o_connector e,
     bus := ucast (field 16 4 conn), o_location := ucast (field 20 2 conn), o_or := ucast (field 24 4 conn)\<rparr>"

text \<open>
  \<open>None\<close> for the entry that ends the list. A shift by less than 0, for an output without a bit in
  \<open>or\<close>, is undefined in C and a crash here.
\<close>

definition parse_dcb20_entry :: "u8 \<Rightarrow> u32 \<Rightarrow> u32 \<Rightarrow> dcb_out \<Rightarrow> dcb_out option option" where
  "parse_dcb20_entry ver conn conf e = (
     let e = dcb20_conn ver conn e in
     if o_type e = OUTPUT_EOL then Some None
     else
       let e = dcb20_conf ver conf e in
       if ver < 0x40 \<and> ffs (o_or e) = 0 then None
       else Some (Some (e\<lparr>duallink_possible :=
              (if ver < 0x40 then 2 ^ (ffs (o_or e) - 1) * 3 = uint (o_or e) else link e = 3),
            o_upper_default := o_upper_default e \<or> conf AND 0x100000 \<noteq> 0\<rparr>)))"

definition dcb15_type :: "u32 \<Rightarrow> int option" where
  "dcb15_type conn = (let t = conn AND 0xf in
     if t = 0 then Some OUTPUT_ANALOG
     else if t = 1 then Some OUTPUT_TV
     else if t = 2 \<or> t = 4 then Some (if conn AND 0x10 \<noteq> 0 then OUTPUT_LVDS else OUTPUT_TMDS)
     else if t = 3 then Some OUTPUT_LVDS
     else None)"

definition parse_dcb15_entry :: "u32 \<Rightarrow> u32 \<Rightarrow> dcb_out \<Rightarrow> dcb_out option" where
  "parse_dcb15_entry conn conf e = (case dcb15_type conn of
     None \<Rightarrow> None
   | Some t \<Rightarrow>
       let h = ucast (field 18 3 conn) + 1;
           e = e\<lparr>o_type := t, o_i2c_index := ucast (field 14 4 conn), heads := h, o_or := h,
                 o_location := ucast (field 21 4 conn), bus := ucast (field 25 3 conn), duallink_possible := False\<rparr>
       in Some
         (if t = OUTPUT_ANALOG then e\<lparr>link := uint (conf AND 0xffff) * 10\<rparr>
          else if t = OUTPUT_TV then e\<lparr>link := 0\<rparr>
          else if t = OUTPUT_LVDS then
            e\<lparr>use_straps_for_mode := use_straps_for_mode e \<or> conn AND 0x3f00 \<noteq> 0x10, use_power_scripts := True\<rparr>
          else e))"

text \<open>False when the list ends here. An unknown type of version 1.5 keeps its place in the array.\<close>

definition parse_dcb_entry :: "board \<Rightarrow> u32 \<Rightarrow> u32 \<Rightarrow> vbios \<Rightarrow> (bool \<times> vbios) option" where
  "parse_dcb_entry b conn conf v = do {
     let ver = dcb_ver v;
     (k, v) \<leftarrow> new_dcb_entry v;
     e \<leftarrow> (if ver \<ge> 0x20 then parse_dcb20_entry ver conn conf (outputs v ! k)
           else Some (parse_dcb15_entry conn conf (outputs v ! k)));
     case e of
       None \<Rightarrow> Some (False,
         if ver \<ge> 0x20 then (set_output k (dcb20_conn ver conn) v)\<lparr>n_outputs := n_outputs v - 1\<rparr> else v)
     | Some e \<Rightarrow> do {
         let v = set_output k (\<lambda>_. e) v;
         p \<leftarrow> idx (i2c_ports v) (unat (o_i2c_index e));
         (_, p) \<leftarrow> read_dcb_i2c_entry (drv_of b v None) ver (i2c_table (dcb (vb v))) (unat (o_i2c_index e)) p;
         Some (True, v\<lparr>i2c_ports := (i2c_ports v)[unat (o_i2c_index e) := p]\<rparr>) } }"

subsection \<open>Merging like outputs\<close>

text \<open>The type 100 marks an output merged into another.\<close>

definition like :: "dcb_out \<Rightarrow> dcb_out \<Rightarrow> bool" where
  "like x y \<longleftrightarrow> o_i2c_index y = o_i2c_index x \<and> o_type y = o_type x \<and> o_location y = o_location x \<and> o_or y = o_or x"

definition merge_pair :: "nat \<Rightarrow> nat \<Rightarrow> dcb_out list \<Rightarrow> dcb_out list" where
  "merge_pair i j os = (let x = os ! i; y = os ! j in
     if o_type y = 100 then os
     else if like x y then os[i := x\<lparr>heads := heads x OR heads y\<rparr>, j := y\<lparr>o_type := 100\<rparr>]
     else os)"

definition compact_one :: "nat \<Rightarrow> dcb_out list \<times> nat \<Rightarrow> dcb_out list \<times> nat" where
  "compact_one i p = (case p of (os, k) \<Rightarrow>
     if o_type (os ! i) = 100 then (os, k)
     else (if k \<noteq> i then os[k := (os ! i)\<lparr>o_index := int k\<rparr>] else os, k + 1))"

definition merge_like_dcb_entries :: "vbios \<Rightarrow> vbios" where
  "merge_like_dcb_entries v = (
     let n = n_outputs v;
         os = fold (\<lambda>i. fold (merge_pair i) [i + 1..<n]) [0..<n] (outputs v)
     in case fold compact_one [0..<n] (os, 0) of (os, k) \<Rightarrow> v\<lparr>outputs := os, n_outputs := k\<rparr>)"

subsection \<open>GPIO lines\<close>

definition DCB_GPIO_TVDAC0 :: int where "DCB_GPIO_TVDAC0 = 0xc"

definition new_gpio_entry :: "vbios \<Rightarrow> nat option \<times> vbios" where
  "new_gpio_entry v =
     (if n_gpios v \<ge> 32 then (None, v) else (Some (n_gpios v), v\<lparr>n_gpios := n_gpios v + 1\<rparr>))"

definition set_gpio :: "nat \<Rightarrow> (gpio_line \<Rightarrow> gpio_line) \<Rightarrow> vbios \<Rightarrow> vbios option" where
  "set_gpio i f v =
     (if i < length (gpio_lines v) then Some (v\<lparr>gpio_lines := (gpio_lines v)[i := f (gpio_lines v ! i)]\<rparr>) else None)"

text \<open>An entry with the tag of none gives its place back, with what has been written to it.\<close>

definition gpio_entry_old :: "nat \<Rightarrow> u16 \<Rightarrow> vbios \<Rightarrow> vbios option" where
  "gpio_entry_old i x v = (let t = uint (drop_bit 5 (x AND 0x07e0)) in
     if t = 0x3f then do {
       v \<leftarrow> set_gpio i (\<lambda>g. g\<lparr>gpio_entry := ucast x, tag := t\<rparr>) v;
       Some (v\<lparr>n_gpios := n_gpios v - 1\<rparr>) }
     else set_gpio i (\<lambda>g. g\<lparr>gpio_entry := ucast x, tag := t, line := unat (x AND 0x1f),
            invert := drop_bit 11 (x AND 0xf800) \<noteq> 4\<rparr>) v)"

definition gpio_entry_new :: "nat \<Rightarrow> u32 \<Rightarrow> vbios \<Rightarrow> vbios option" where
  "gpio_entry_new i x v = (let t = uint (field 8 8 x) in
     if t = 0xff then do {
       v \<leftarrow> set_gpio i (\<lambda>g. g\<lparr>gpio_entry := x, tag := t\<rparr>) v;
       Some (v\<lparr>n_gpios := n_gpios v - 1\<rparr>) }
     else set_gpio i (\<lambda>g. g\<lparr>gpio_entry := x, tag := t, line := unat (field 0 5 x),
            state_default := ucast (field 24 1 x), gpio_state := [ucast (field 27 2 x), ucast (field 29 2 x)]\<rparr>) v)"

primrec gpio_entries :: "u8 \<Rightarrow> nat \<Rightarrow> nat \<Rightarrow> nat \<Rightarrow> vbios \<Rightarrow> vbios option" where
  "gpio_entries ver recordlen 0 e v = Some v"
| "gpio_entries ver recordlen (Suc n) e v = (case new_gpio_entry v of
     (None, v) \<Rightarrow> Some v
   | (Some i, v) \<Rightarrow> do {
       v \<leftarrow> (if ver < 0x40 then do { x \<leftarrow> at16 v e; gpio_entry_old i x v }
             else do { x \<leftarrow> at32 v e; gpio_entry_new i x v });
       gpio_entries ver recordlen n (e + recordlen) v })"

definition gpio_table :: "nat \<Rightarrow> nat \<Rightarrow> u8 \<Rightarrow> u8 \<Rightarrow> vbios \<Rightarrow> vbios option" where
  "gpio_table gpio headerlen n recordlen v = do {
     ver \<leftarrow> at8 v gpio;
     gpio_entries ver (unat recordlen) (unat n) (gpio + headerlen) v }"

text \<open>The table of a DCB, as the version of the DCB says.\<close>

definition gpio_from_dcb :: "nat \<Rightarrow> vbios \<Rightarrow> vbios option" where
  "gpio_from_dcb p v = do {
     ver \<leftarrow> at8 v p;
     if ver \<ge> 0x30 then do {
       g \<leftarrow> atptr v (p + 10);
       case g of
         None \<Rightarrow> Some v
       | Some g \<Rightarrow> do {
           h \<leftarrow> at8 v (g + 1); n \<leftarrow> at8 v (g + 2); r \<leftarrow> at8 v (g + 3);
           gpio_table g (unat h) n r v } }
     else if ver \<ge> 0x22 then do {
       q \<leftarrow> before p 1;
       x \<leftarrow> at8 v q;
       if x \<ge> 0x13 then do {
         q \<leftarrow> before p 15;
         g \<leftarrow> atptr v q;
         case g of
           None \<Rightarrow> Some v
         | Some g \<Rightarrow> do { n \<leftarrow> at8 v (g + 2); r \<leftarrow> at8 v (g + 1); gpio_table g 3 n r v } }
       else do {
         q \<leftarrow> before p 5;
         t0 \<leftarrow> at8 v q;
         t1 \<leftarrow> at8 v (q + 1);
         if t0 AND 1 \<noteq> 0 then
           (case new_gpio_entry v of
              (None, v) \<Rightarrow> None
            | (Some i, v) \<Rightarrow> set_gpio i (\<lambda>g. g\<lparr>tag := DCB_GPIO_TVDAC0, line := unat (drop_bit 4 t1), invert := t0 AND 2 \<noteq> 0\<rparr>) v)
         else Some v } }
     else Some v }"

definition parse_dcb_gpio_table :: "board \<Rightarrow> vbios \<Rightarrow> vbios option" where
  "parse_dcb_gpio_table b v = do {
     p \<leftarrow> atptr v 0x36;
     v \<leftarrow> (case p of None \<Rightarrow> None | Some p \<Rightarrow> gpio_from_dcb p v);
     if nv_match_device b 0x0189 0x10de 0x0010 then
       (case new_gpio_entry v of
          (None, v) \<Rightarrow> Some v
        | (Some i, v) \<Rightarrow> set_gpio i (\<lambda>g. g\<lparr>tag := DCB_GPIO_TVDAC0, line := 4\<rparr>) v)
     else Some v }"

end
