(* ===== verification/DcbTable.thy ===== *)
theory DcbTable
  imports DcbParse
begin

section \<open>Connectors, and the whole of the display configuration\<close>

subsection \<open>Connectors\<close>

definition DCB_CONNECTOR_NONE :: int where "DCB_CONNECTOR_NONE = 0xff"
definition DCB_CONNECTOR_DVI_I :: int where "DCB_CONNECTOR_DVI_I = 0x30"
definition DCB_CONNECTOR_HDMI_1 :: int where "DCB_CONNECTOR_HDMI_1 = 0x61"

definition known_connectors :: "int list" where
  "known_connectors = [0x00, 0x10, 0x11, 0x13, 0x30, 0x31, 0x40, 0x46, 0x47, 0x60, 0x61]"

definition nouveau_bios_connector_entry :: "vbios \<Rightarrow> nat \<Rightarrow> conn_entry option" where
  "nouveau_bios_connector_entry v i =
     (if i \<ge> n_connectors v then None
      else let c = connectors v ! i in if c_type c = 0xff then None else Some c)"

text \<open>The types of the outputs of a connector tell what it is.\<close>

definition divine_connector_type :: "vbios \<Rightarrow> nat \<Rightarrow> int" where
  "divine_connector_type v i = (
     let has = (\<lambda>t. \<exists>e \<in> set (take (n_outputs v) (outputs v)). unat (o_connector e) = i \<and> o_type e = t) in
     if has OUTPUT_DP then (if has OUTPUT_TMDS then 0x46 else 0x47)
     else if has OUTPUT_TMDS then (if has OUTPUT_ANALOG then DCB_CONNECTOR_DVI_I else 0x31)
     else if has OUTPUT_ANALOG then 0x00
     else if has OUTPUT_LVDS then 0x40
     else if has OUTPUT_TV then 0x10
     else DCB_CONNECTOR_NONE)"

definition apply_dcb_connector_quirks :: "board \<Rightarrow> conn_entry \<Rightarrow> conn_entry" where
  "apply_dcb_connector_quirks b c =
     (if nv_match_device b 0x0421 0x1458 0x344c \<and> c_type c = DCB_CONNECTOR_HDMI_1
      then c\<lparr>c_type := DCB_CONNECTOR_DVI_I\<rparr> else c)"

definition conn_tag :: "u32 \<Rightarrow> u8" where
  "conn_tag x = (let t = x AND 0x00033000 in
     if t = 0x00001000 then 0x07 else if t = 0x00002000 then 0x08
     else if t = 0x00010000 then 0x51 else if t = 0x00020000 then 0x52 else 0xff)"

text \<open>The option to override the type has no effect but a message.\<close>

definition conn_parse :: "board \<Rightarrow> vbios \<Rightarrow> nat \<Rightarrow> u32 \<Rightarrow> conn_entry \<Rightarrow> conn_entry" where
  "conn_parse b v i x c = (
     let c = c\<lparr>c_index := of_nat i, c_entry := x, c_type := uint (field 0 8 x), c_index2 := ucast (field 8 4 x),
               gpio_tag := conn_tag x\<rparr>
     in if c_type c = 0xff then c
        else let c = apply_dcb_connector_quirks b c in
          if c_type c \<in> set known_connectors then c
          else c\<lparr>c_type := divine_connector_type v (unat (c_index c))\<rparr>)"

primrec conn_entries :: "board \<Rightarrow> nat \<Rightarrow> nat \<Rightarrow> nat \<Rightarrow> nat \<Rightarrow> vbios \<Rightarrow> vbios option" where
  "conn_entries b recordlen i 0 e v = Some v"
| "conn_entries b recordlen i (Suc n) e v = do {
     c \<leftarrow> idx (connectors v) i;
     x \<leftarrow> (if recordlen = 2 then map_option ucast (at16 v e) else at32 v e);
     let v = v\<lparr>connectors := (connectors v)[i := conn_parse b v i x c]\<rparr>;
     conn_entries b recordlen (i + 1) n (e + recordlen) v }"

definition parse_dcb_connector_table :: "board \<Rightarrow> vbios \<Rightarrow> vbios option" where
  "parse_dcb_connector_table b v = (let p = unat (connector_table_ptr v) in
     if p = 0 then Some v
     else do {
       ver \<leftarrow> at8 v p;
       h \<leftarrow> at8 v (p + 1);
       n \<leftarrow> at8 v (p + 2);
       r \<leftarrow> at8 v (p + 3);
       if (ver \<noteq> 0x30 \<and> ver \<noteq> 0x40) \<or> (r \<noteq> 2 \<and> r \<noteq> 4) then Some v
       else conn_entries b (unat r) 0 (unat n) (p + unat h) (v\<lparr>n_connectors := unat n\<rparr>) })"

subsection \<open>A TV encoder on an I2C bus\<close>

definition nouveau_probe_i2c_addr :: "drv \<Rightarrow> i2c_chan \<Rightarrow> u8 \<Rightarrow> ist \<Rightarrow> (bool \<times> ist) option" where
  "nouveau_probe_i2c_addr d c a s = do {
     ((n, _), s) \<leftarrow> request d (KernelCall ''i2c_transfer'' [ucast (port c), ucast (rd c), ucast (wr c), ucast a]) s;
     Some (n = 2, s) }"

text \<open>
  The list of addresses; a bus that is not there is used all the same. \<open>accept\<close> is the last test of a
  device that answers, \<open>match\<close> in C, with True for NULL.
\<close>

primrec identify_from ::
  "drv \<Rightarrow> i2c_chan option \<Rightarrow> (u8 \<Rightarrow> ist \<Rightarrow> (bool \<times> ist) option) \<Rightarrow> u8 list \<Rightarrow> int \<Rightarrow> ist \<Rightarrow> (int res \<times> ist) option" where
  "identify_from d c accept [] i s = Some (Inl ENODEV, s)"
| "identify_from d c accept (a # as) i s = (case c of
     None \<Rightarrow> None
   | Some ch \<Rightarrow> do {
       (found, s) \<leftarrow> nouveau_probe_i2c_addr d ch a s;
       (found, s) \<leftarrow> (if found then accept a s else Some (False, s));
       if found then Some (Inr i, s) else identify_from d c accept as (i + 1) s })"

definition nouveau_i2c_identify ::
  "drv \<Rightarrow> (u8 \<Rightarrow> ist \<Rightarrow> (bool \<times> ist) option) \<Rightarrow> u8 list \<Rightarrow> nat \<Rightarrow> ist \<Rightarrow> (int res \<times> ist) option" where
  "nouveau_i2c_identify d accept as i s = do {
     (c, s) \<leftarrow> nouveau_i2c_find d i s;
     identify_from d c accept as 0 s }"

definition nv04_tv_identify :: "board \<Rightarrow> vbios \<Rightarrow> ist \<Rightarrow> (bool \<times> vbios \<times> ist) option" where
  "nv04_tv_identify b v s = do {
     (r, s) \<leftarrow> nouveau_i2c_identify (drv_of b v None) (\<lambda>_ s. Some (True, s)) [0x75] (unat (i2c_tv v)) (s\<lparr>i2c := i2c_ports v\<rparr>);
     Some (\<not> isl r, v\<lparr>i2c_ports := i2c s\<rparr>, s) }"

subsection \<open>The table\<close>

definition apply_dcb_encoder_quirks :: "board \<Rightarrow> u32 \<Rightarrow> u32 \<Rightarrow> bool" where
  "apply_dcb_encoder_quirks b conn conf =
     (\<not> (nv_match_device b 0x040d 0x1028 0x019b \<and> conn = 0x02026312 \<and> conf = 0x00000020))"

primrec dcb_loop :: "board \<Rightarrow> nat \<Rightarrow> nat \<Rightarrow> nat \<Rightarrow> nat \<Rightarrow> vbios \<Rightarrow> vbios option" where
  "dcb_loop b recordlen confofs 0 e v = Some v"
| "dcb_loop b recordlen confofs (Suc n) e v = do {
     conn \<leftarrow> at32 v e;
     conf \<leftarrow> at32 v (e + confofs);
     if conn = 0 \<or> conn = 0xffffffff then Some v
     else if conn AND 0xf = 0xf \<or> \<not> apply_dcb_encoder_quirks b conn conf
     then dcb_loop b recordlen confofs n (e + recordlen) v
     else do {
       (more, v) \<leftarrow> parse_dcb_entry b conn conf v;
       if more then dcb_loop b recordlen confofs n (e + recordlen) v else Some v } }"

text \<open>The header: its length, the number of entries, their length, the offset of the second word, the I2C table.\<close>

definition dcb_header :: "nat \<Rightarrow> vbios \<Rightarrow> ((nat \<times> u8 \<times> nat \<times> nat \<times> u16) res \<times> vbios) option" where
  "dcb_header p v = (let ver = dcb_ver v in
     if ver \<ge> 0x30 then do {
       h \<leftarrow> at8 v (p + 1);
       n \<leftarrow> at8 v (p + 2);
       r \<leftarrow> at8 v (p + 3);
       itab \<leftarrow> at16 v (p + 4);
       sig \<leftarrow> at32 v (p + 6);
       g \<leftarrow> at16 v (p + 10);
       c \<leftarrow> at16 v (p + 20);
       let v = v\<lparr>gpio_table_ptr := g, connector_table_ptr := c\<rparr>;
       Some (if sig \<noteq> 0x4edcbdcb then Inl EINVAL else Inr (unat h, n, unat r, 4, itab), v) }
     else if ver \<ge> 0x20 then do {
       itab \<leftarrow> at16 v (p + 2);
       sig \<leftarrow> at32 v (p + 4);
       Some (if sig \<noteq> 0x4edcbdcb then Inl EINVAL else Inr (8, 16, 8, 4, itab), v) }
     else do {
       q \<leftarrow> before p 7;
       itab \<leftarrow> at16 v (p + 2);
       Some (if take 7 (drop q (data (vb v))) \<noteq> [0x44, 0x45, 0x56, 0x5f, 0x52, 0x45, 0x43]
             then Inl EINVAL else Inr (4, 16, 10, 6, itab), v) })"

abbreviation upd_dcb :: "(dcb_table \<Rightarrow> dcb_table) \<Rightarrow> vbios \<Rightarrow> vbios" where
  "upd_dcb f v \<equiv> upd_vb (\<lambda>x. x\<lparr>dcb := f (dcb x)\<rparr>) v"

definition dcb_i2c_table :: "board \<Rightarrow> u16 \<Rightarrow> vbios \<Rightarrow> vbios option" where
  "dcb_i2c_table b p v =
     (if p = 0 then Some v
      else do {
        let ver = dcb_ver v;
        let v = upd_dcb (\<lambda>x. x\<lparr>i2c_table := Some (unat p)\<rparr>) v;
        v \<leftarrow> (if ver \<ge> 0x30 then do { x \<leftarrow> at8 v (unat p + 4); Some (upd_dcb (\<lambda>t. t\<lparr>i2c_default_indices := x\<rparr>) v) }
              else Some v);
        if ver \<ge> 0x22 then do {
          let i = (if ver \<ge> 0x40 then unat (i2c_default_indices (dcb (vb v)) AND 0xf) else 2);
          e \<leftarrow> idx (i2c_ports v) i;
          (_, e) \<leftarrow> read_dcb_i2c_entry (drv_of b v None) ver (Some (unat p)) i e;
          Some (v\<lparr>i2c_ports := (i2c_ports v)[i := e]\<rparr>) }
        else Some v })"

text \<open>Cards whose table says nothing: all outputs they may have.\<close>

definition fabricate_outputs :: "board \<Rightarrow> bool \<Rightarrow> bool \<Rightarrow> vbios \<Rightarrow> ist \<Rightarrow> (vbios \<times> ist) option" where
  "fabricate_outputs b two dvi v s = do {
     v \<leftarrow> fabricate_vga_output LEGACY_I2C_CRT 1 v;
     (tv, v, s) \<leftarrow> nv04_tv_identify b v s;
     v \<leftarrow> (if tv then fabricate_tv_output two v
           else if dvi \<and> (output0_script_ptr v \<noteq> 0 \<or> output1_script_ptr v \<noteq> 0) then fabricate_dvi_i_output two v
           else Some v);
     Some (v, s) }"

definition parse_dcb_outputs :: "board \<Rightarrow> nat \<Rightarrow> parser" where
  "parse_dcb_outputs b p v = do {
     (h, v) \<leftarrow> dcb_header p v;
     case h of
       Inl e \<Rightarrow> Some (Inl e, v)
     | Inr (headerlen, n, recordlen, confofs, itab) \<Rightarrow> do {
         v \<leftarrow> dcb_i2c_table b itab v;
         v \<leftarrow> dcb_loop b recordlen confofs (min (unat n) 16) (p + headerlen) v;
         let v = (if dcb_ver v < 0x21 then merge_like_dcb_entries v else v);
         if n_outputs v = 0 then Some (Inl ENXIO, v)
         else do {
           v \<leftarrow> parse_dcb_gpio_table b v;
           v \<leftarrow> parse_dcb_connector_table b v;
           Some (Inr (), v) } } }"

definition parse_dcb_table :: "board \<Rightarrow> vbios \<Rightarrow> ist \<Rightarrow> ((unit res \<times> vbios) \<times> ist) option" where
  "parse_dcb_table b v s = (let two = nv_two_heads b in do {
     p \<leftarrow> (if card_type b > 4 then at16 v 0x36 else Some 0);
     if p = 0 then do {
       (v, s) \<leftarrow> fabricate_outputs b two False v s;
       Some ((Inr (), v), s) }
     else do {
       ver \<leftarrow> at8 v (unat p);
       let v = upd_dcb (\<lambda>x. x\<lparr>dcb_version := ver\<rparr>) v;
       if ver < 0x15 then do {
         (v, s) \<leftarrow> fabricate_outputs b two True v s;
         Some ((Inr (), v), s) }
       else do {
         r \<leftarrow> parse_dcb_outputs b (unat p) v;
         Some (r, s) } } })"

subsection \<open>Fixups\<close>

definition fixup_legacy_i2c :: "vbios \<Rightarrow> vbios" where
  "fixup_legacy_i2c v = v\<lparr>outputs :=
     map (\<lambda>e.
       let e = (if o_i2c_index e = LEGACY_I2C_CRT then e\<lparr>o_i2c_index := i2c_crt v\<rparr> else e);
           e = (if o_i2c_index e = LEGACY_I2C_PANEL then e\<lparr>o_i2c_index := i2c_panel v\<rparr> else e)
       in if o_i2c_index e = LEGACY_I2C_TV then e\<lparr>o_i2c_index := i2c_tv v\<rparr> else e) (take (n_outputs v) (outputs v)) @
     drop (n_outputs v) (outputs v)\<rparr>"

text \<open>
  Outputs on one I2C bus share a connector. \<open>m\<close> is the array \<open>i2c_conn\<close>, of 16 entries; the number of
  a bus that came from the VBIOS may lie outside it.
\<close>

primrec legacy_connectors :: "nat list \<Rightarrow> nat list \<Rightarrow> vbios \<Rightarrow> vbios option" where
  "legacy_connectors [] m v = Some v"
| "legacy_connectors (i # is) m v = do {
     let v = set_output i (\<lambda>e. if o_type e = OUTPUT_TV \<and> o_location e = 0 then e\<lparr>o_i2c_index := 0xf\<rparr> else e) v;
     let bus = unat (o_i2c_index (outputs v ! i));
     c \<leftarrow> idx m bus;
     if c \<noteq> 0 then legacy_connectors is m (set_output i (\<lambda>e. e\<lparr>o_connector := of_nat (c - 1)\<rparr>) v)
     else
       let n = n_connectors v;
           v = (set_output i (\<lambda>e. e\<lparr>o_connector := of_nat n\<rparr>) v)\<lparr>n_connectors := n + 1\<rparr>
       in legacy_connectors is (if bus \<noteq> 0xf then m[bus := n + 1] else m) v }"

definition fixup_legacy_connector :: "vbios \<Rightarrow> vbios option" where
  "fixup_legacy_connector v =
     (if dcb_ver v \<ge> 0x40 then Some v
      else do {
        v \<leftarrow> legacy_connectors [0..<n_outputs v] (replicate 16 0) (v\<lparr>n_connectors := 0\<rparr>);
        if n_connectors v > length (connectors v) then None
        else Some (v\<lparr>connectors :=
          map (\<lambda>i. (connectors v ! i)\<lparr>c_index := of_nat i, c_type := divine_connector_type v i, gpio_tag := 0xff\<rparr>)
            [0..<n_connectors v] @ drop (n_connectors v) (connectors v)\<rparr>) })"

end
