(* ===== verification/VbiosLoad.thy ===== *)
theory VbiosLoad
  imports DcbTable
begin

section \<open>Finding and judging a VBIOS image\<close>

text \<open>
  \<open>NVShadowVBIOS\<close> of \<open>nouveau_bios.c\<close> with its four ways to an image, and the parts of
  \<open>nouveau_bios_init\<close> before any script runs. The buffer has 64 KB; an image longer than that, or a
  length byte that says so, reaches past it, which is a crash. The calls of PCI and ACPI belong to the
  kernel: each is a request, as is each byte they give out.
\<close>

definition NV_PROM_SIZE :: nat where "NV_PROM_SIZE = 0x10000"

definition put_data :: "nat \<Rightarrow> u8 \<Rightarrow> vbios \<Rightarrow> vbios" where
  "put_data i x v = upd_vb (\<lambda>b. b\<lparr>data := (data b)[i := x]\<rparr>) v"

definition data_len :: "vbios \<Rightarrow> nat" where
  "data_len v = length (data (vb v))"

text \<open>Bytes one by one, from wherever \<open>rb\<close> gets them.\<close>

primrec copy_bytes :: "(nat \<Rightarrow> ist \<Rightarrow> (u8 \<times> ist) option) \<Rightarrow> nat list \<Rightarrow> vbios \<Rightarrow> ist \<Rightarrow> (vbios \<times> ist) option" where
  "copy_bytes rb [] v s = Some (v, s)"
| "copy_bytes rb (i # is) v s = do {
     (x, s) \<leftarrow> rb i s;
     if i < data_len v then copy_bytes rb is (put_data i x v) s else None }"

definition score_vbios :: "bool \<Rightarrow> vbios \<Rightarrow> nat option" where
  "score_vbios writeable v = do {
     x \<leftarrow> at8 v 0;
     y \<leftarrow> at8 v 1;
     if \<not> (x = 0x55 \<and> y = 0xaa) then Some 0
     else do {
       n \<leftarrow> at8 v 2;
       if unat n * 512 > data_len v then None
       else if nv_cksum (take (unat n * 512) (data (vb v))) then Some (if writeable then 2 else 1)
       else Some 3 } }"

text \<open>The bytes of a window, if it starts with the signature.\<close>

definition rom_signature :: "drv \<Rightarrow> u32 \<Rightarrow> ist \<Rightarrow> (bool \<times> ist) option" where
  "rom_signature d base s = do {
     (x, s) \<leftarrow> nv_rd08 d base s;
     if x \<noteq> 0x55 then Some (False, s)
     else do { (y, s) \<leftarrow> nv_rd08 d (base + 1) s; Some (y = 0xaa, s) } }"

text \<open>The letters of \<open>PCIR\<close>: the first that differs ends the comparison.\<close>

primrec same_bytes :: "drv \<Rightarrow> u32 \<Rightarrow> u8 list \<Rightarrow> ist \<Rightarrow> (bool \<times> ist) option" where
  "same_bytes d r [] s = Some (True, s)"
| "same_bytes d r (c # cs) s = do {
     (x, s) \<leftarrow> nv_rd08 d r s;
     if x \<noteq> c then Some (False, s) else same_bytes d (r + 1) cs s }"

definition load_vbios_prom :: "drv \<Rightarrow> vbios \<Rightarrow> ist \<Rightarrow> (vbios \<times> ist) option" where
  "load_vbios_prom d v s = (let pci_nv_20 = (if card_type d \<ge> NV_50 then 0x88050 else 0x1850) in do {
     (saved, s) \<leftarrow> nv_rd32 d pci_nv_20 s;
     s \<leftarrow> nv_wr32 d pci_nv_20 (saved AND NOT 1) s;
     (ok, s) \<leftarrow> rom_signature d 0x300000 s;
     (v, s) \<leftarrow> (if \<not> ok then Some (v, s)
       else do {
         (lo, s) \<leftarrow> nv_rd08 d (0x300000 + 0x18) s;
         (hi, s) \<leftarrow> nv_rd08 d (0x300000 + 0x19) s;
         (ok, s) \<leftarrow> same_bytes d (0x300000 + (ucast lo OR push_bit 8 (ucast hi))) [0x50, 0x43, 0x49, 0x52] s;
         if \<not> ok then Some (v, s)
         else copy_bytes (\<lambda>i. nv_rd08 d (0x300000 + of_nat i)) [0..<NV_PROM_SIZE] v s });
     s \<leftarrow> nv_wr32 d pci_nv_20 (saved OR 1) s;
     Some (v, s) })"

definition load_vbios_pramin :: "drv \<Rightarrow> vbios \<Rightarrow> ist \<Rightarrow> (vbios \<times> ist) option" where
  "load_vbios_pramin d v s = do {
     (saved, s) \<leftarrow> (if card_type d \<ge> NV_50 then do {
         (x, s) \<leftarrow> nv_rd32 d 0x619f04 s;
         let vram = push_bit 8 (x AND NOT 0xff);
         (vram, s) \<leftarrow> (if vram = 0 then do { (x, s) \<leftarrow> nv_rd32 d 0x1700 s; Some (push_bit 16 x + 0xf0000, s) }
                       else Some (vram, s));
         (saved, s) \<leftarrow> nv_rd32 d 0x1700 s;
         s \<leftarrow> nv_wr32 d 0x1700 (drop_bit 16 vram) s;
         Some (saved, s) }
       else Some (0, s));
     (ok, s) \<leftarrow> rom_signature d 0x700000 s;
     (v, s) \<leftarrow> (if ok then copy_bytes (\<lambda>i. nv_rd08 d (0x700000 + of_nat i)) [0..<NV_PROM_SIZE] v s else Some (v, s));
     s \<leftarrow> (if card_type d \<ge> NV_50 then nv_wr32 d 0x1700 saved s else Some s);
     Some (v, s) }"

text \<open>A byte the kernel gives out.\<close>

definition kernel_byte :: "drv \<Rightarrow> string \<Rightarrow> nat \<Rightarrow> ist \<Rightarrow> (u8 \<times> ist) option" where
  "kernel_byte d what i s = do { ((_, x), s) \<leftarrow> request d (KernelCall what [of_nat i]) s; Some (ucast x, s) }"

definition load_vbios_pci :: "drv \<Rightarrow> vbios \<Rightarrow> ist \<Rightarrow> (vbios \<times> ist) option" where
  "load_vbios_pci d v s = do {
     ((ret, _), s) \<leftarrow> request d (KernelCall ''pci_enable_rom'' []) s;
     if ret \<noteq> 0 then Some (v, s)
     else do {
       ((rom, n), s) \<leftarrow> request d (KernelCall ''pci_map_rom'' []) s;
       (v, s) \<leftarrow> (if rom = 0 then Some (v, s)
         else do {
           (v, s) \<leftarrow> copy_bytes (kernel_byte d ''readb'') [0..<unat n] v s;
           s \<leftarrow> tell d (KernelCall ''pci_unmap_rom'' []) s;
           Some (v, s) });
       s \<leftarrow> tell d (KernelCall ''pci_disable_rom'' []) s;
       Some (v, s) } }"

text \<open>In pages of 4 KB, until one is not to be had.\<close>

primrec acpi_pages :: "drv \<Rightarrow> nat list \<Rightarrow> vbios \<Rightarrow> ist \<Rightarrow> (vbios \<times> ist) option" where
  "acpi_pages d [] v s = Some (v, s)"
| "acpi_pages d (i # is) v s = do {
     ((ret, _), s) \<leftarrow> request d (KernelCall ''acpi_evaluate_object'' [of_nat (i * 4096), 4096]) s;
     if ret \<noteq> 0 then Some (v, s)
     else do {
       (v, s) \<leftarrow> copy_bytes (kernel_byte d ''acpi_byte'') [i * 4096..<(i + 1) * 4096] v s;
       acpi_pages d is v s } }"

definition load_vbios_acpi :: "drv \<Rightarrow> vbios \<Rightarrow> ist \<Rightarrow> (vbios \<times> ist) option" where
  "load_vbios_acpi d v s = do {
     ((supported, _), s) \<leftarrow> request d (KernelCall ''nouveau_acpi_rom_supported'' []) s;
     if supported = 0 then Some (v, s) else acpi_pages d [0..<16] v s }"

definition shadow_methods :: "((drv \<Rightarrow> vbios \<Rightarrow> ist \<Rightarrow> (vbios \<times> ist) option) \<times> bool) list" where
  "shadow_methods = [(load_vbios_pramin, True), (load_vbios_prom, False), (load_vbios_pci, True), (load_vbios_acpi, True)]"

text \<open>
  The first image that is perfect is taken. \<open>Inl\<close>: the scores of all four when none was. The two
  bytes of the signature are cleared before each.
\<close>

primrec try_methods :: "drv \<Rightarrow> ((drv \<Rightarrow> vbios \<Rightarrow> ist \<Rightarrow> (vbios \<times> ist) option) \<times> bool) list \<Rightarrow> vbios \<Rightarrow> ist
    \<Rightarrow> (nat list option \<times> vbios \<times> ist) option" where
  "try_methods d [] v s = Some (Some [], v, s)"
| "try_methods d (m # ms) v s = do {
     (v, s) \<leftarrow> fst m d (put_data 1 0 (put_data 0 0 v)) s;
     score \<leftarrow> score_vbios (snd m) v;
     if score = 3 then Some (None, v, s)
     else do {
       (scores, v, s) \<leftarrow> try_methods d ms v s;
       Some (map_option ((#) score) scores, v, s) } }"

text \<open>The best of the rest: the first with score 2, then the first with score 1.\<close>

definition best_score :: "nat list \<Rightarrow> nat option" where
  "best_score scores = (case List.find (\<lambda>i. scores ! i = 2) [0..<length scores] of
     Some i \<Rightarrow> Some i
   | None \<Rightarrow> List.find (\<lambda>i. scores ! i = 1) [0..<length scores])"

definition NVShadowVBIOS :: "board \<Rightarrow> vbios \<Rightarrow> ist \<Rightarrow> (bool \<times> vbios \<times> ist) option" where
  "NVShadowVBIOS b v s = (let d = drv.truncate b in do {
     (ok, v, s) \<leftarrow> (case nouveau_vbios b of
         Some (Some i) \<Rightarrow> do {
           m \<leftarrow> idx shadow_methods i;
           (v, s) \<leftarrow> fst m d v s;
           score \<leftarrow> score_vbios (snd m) v;
           Some (score \<noteq> 0, v, s) }
       | _ \<Rightarrow> Some (False, v, s));
     if ok then Some (True, v, s)
     else do {
       (scores, v, s) \<leftarrow> try_methods d shadow_methods v s;
       case scores of
         None \<Rightarrow> Some (True, v, s)
       | Some scores \<Rightarrow> (case best_score scores of
           None \<Rightarrow> Some (False, v, s)
         | Some i \<Rightarrow> do { (v, s) \<leftarrow> fst (shadow_methods ! i) d v s; Some (True, v, s) }) } })"

subsection \<open>A fresh \<open>struct nvbios\<close>\<close>

definition no_i2c :: dcb_i2c_entry where
  "no_i2c = \<lparr>i2c_entry = 0, port_type = 0, i2c_read = 0, i2c_write = 0, chan = None\<rparr>"

definition no_conn :: conn_entry where
  "no_conn = \<lparr>c_index = 0, c_entry = 0, c_type = 0, c_index2 = 0, gpio_tag = 0\<rparr>"

definition no_gpio :: gpio_line where
  "no_gpio = \<lparr>tag = 0, line = 0, gpio_entry = 0, state_default = 0, gpio_state = [0, 0], invert = False\<rparr>"

definition blank_fp :: lvds_part where
  "blank_fp = \<lparr>fptablepointer = 0, fpxlatetableptr = 0, xlatwidth = 0, lvdsmanufacturerpointer = 0,
     fpxlatemanufacturertableptr = 0, mode_ptr = 0, xlated_entry = 0, power_off_for_reset = False,
     reset_after_pclk_change = False, dual_link = False, link_c_increment = False, if_is_24bit = False,
     duallink_transition_clk = 0, strapless_is_24bit = 0, edid = None, last_script_invoc = 0, lvds_init_run = False\<rparr>"

definition blank_nvbios :: nvbios where
  "blank_nvbios = \<lparr>data = replicate NV_PROM_SIZE 0, len = 0, execute = False, chip_version = 0, major_version = 0,
     fmaxvco = 0, fminvco = 0, old_style_init = False, init_script_tbls_ptr = 0, extra_init_script_tbl_ptr = 0,
     macro_index_tbl_ptr = 0, macro_tbl_ptr = 0, condition_tbl_ptr = 0, io_condition_tbl_ptr = 0,
     io_flag_condition_tbl_ptr = 0, pll_limit_tbl_ptr = 0, ram_restrict_tbl_ptr = 0, ram_restrict_group_count = 0,
     init96_tbl_ptr = 0,
     dcb = \<lparr>dcb_version = 0, entries = 0, dcb_entries = [], i2c_table = None, i2c_default_indices = 0, gpios = [],
       connector_types = []\<rparr>,
     active_output = None, dp_table_ptr = 0, mem_init_tbl_ptr = 0, sdr_seq_tbl_ptr = 0, ddr_seq_tbl_ptr = 0\<rparr>"

definition blank_vbios :: vbios where
  "blank_vbios = \<lparr>vb = blank_nvbios, is_bit = False, v_offset = 0, dactestval = 0, tvdactestval = 0,
     digital_min_front_porch = 0, fp_no_ddc = False, feature_byte = 0, is_mobile = False, init_function_tbl_ptr = 0,
     some_script_ptr = 0, script_table_ptr = 0, fp = blank_fp, output0_script_ptr = 0, output1_script_ptr = 0,
     i2c_crt = 0, i2c_tv = 0, i2c_panel = 0, lvds_single_a_script_ptr = 0, n_outputs = 0,
     outputs = replicate 16 no_output, i2c_ports = replicate 16 no_i2c, gpio_table_ptr = 0, n_gpios = 0,
     gpio_lines = replicate 32 no_gpio, connector_table_ptr = 0, n_connectors = 0, connectors = replicate 16 no_conn\<rparr>"

definition NVInitVBIOS :: "board \<Rightarrow> ist \<Rightarrow> (bool \<times> vbios \<times> ist) option" where
  "NVInitVBIOS b s = do {
     (ok, v, s) \<leftarrow> NVShadowVBIOS b blank_vbios s;
     Some (ok, if ok then upd_vb (\<lambda>x. x\<lparr>len := 0x10000\<rparr>) v else v, s) }"

subsection \<open>Odds and ends of the image\<close>

definition hwsq_words :: "drv \<Rightarrow> vbios \<Rightarrow> nat \<Rightarrow> nat list \<Rightarrow> ist \<Rightarrow> ist option" where
  "hwsq_words d v ofs = for_each (\<lambda>i s. do {
     x \<leftarrow> at32 v (ofs + i + 4);
     bios_wr32 d (0x1400 + of_nat i) x s })"

definition load_nv17_hwsq_ucode_entry :: "board \<Rightarrow> vbios \<Rightarrow> u16 \<Rightarrow> nat \<Rightarrow> ist \<Rightarrow> (unit res \<times> ist) option" where
  "load_nv17_hwsq_ucode_entry b v hwsq entry s = (let d = drv_of b v None in do {
     n \<leftarrow> at8 v (unat hwsq);
     if unat n \<le> entry then Some (Inl ENOENT, s)
     else do {
       bytes \<leftarrow> at8 v (unat hwsq + 1);
       if bytes \<noteq> 36 then Some (Inl EINVAL, s)
       else do {
         let ofs = unat (hwsq + 2 + of_nat (entry * 36));
         x \<leftarrow> at32 v ofs;
         s \<leftarrow> bios_wr32 d 0x1304 x s;
         s \<leftarrow> hwsq_words d v ofs (map ((*) 4) [0..<8]) s;
         (x, s) \<leftarrow> bios_rd32 d 0x1098 s;
         s \<leftarrow> bios_wr32 d 0x1098 (x OR 0x18) s;
         Some (Inr (), s) } } })"

definition load_nv17_hw_sequencer_ucode :: "board \<Rightarrow> vbios \<Rightarrow> ist \<Rightarrow> (unit res \<times> ist) option" where
  "load_nv17_hw_sequencer_ucode b v s = (
     let ofs = findstr (data (vb v)) (unat (len (vb v))) [0x48, 0x57, 0x53, 0x51] in
     if ofs = 0 then Some (Inr (), s)
     else load_nv17_hwsq_ucode_entry b v (ofs + 4) 0 s)"

text \<open>
  The search goes on behind an EDID with a bad checksum; how many bytes there are left is counted
  wrongly, by the offset from the start each time, and a negative number of them finds nothing. An
  EDID or a search that reaches past the image is a crash.
\<close>

definition edid_sig :: "u8 list" where
  "edid_sig = [0x00, 0xff, 0xff, 0xff, 0xff, 0xff, 0xff, 0x00]"

function embedded_edid_from :: "vbios \<Rightarrow> u16 \<Rightarrow> int \<Rightarrow> nat option option" where
  "embedded_edid_from v ofs left =
     (if left = 0 then Some (Some (unat ofs))
      else
        let xs = drop (unat ofs) (data (vb v)) in
        if left > int (length xs) \<and> findstr_from xs edid_sig 0 (length xs + 1 - 8) = None then None
        else
          let new = (if left < 0 then 0 else findstr xs (nat left) edid_sig) in
          if new = 0 then Some None
          else if unat ofs + unat new \<ge> 2 ^ 16 - 1 then None
          else
            let ofs = ofs + new in
            if unat ofs + 128 > data_len v then None
            else if \<not> nv_cksum (take 128 (drop (unat ofs) (data (vb v)))) then Some (Some (unat ofs))
            else embedded_edid_from v (ofs + 1) (left - uint ofs))"
  by pat_completeness auto
termination
proof (relation "measure (\<lambda>(v, ofs, left). 2 ^ 16 - unat ofs)", goal_cases)
  case 1
  then show ?case by simp
next
  case (2 v ofs left xs new ofs')
  then have less: "unat ofs + unat new + 1 < 2 ^ LENGTH(16)" by simp
  then have "unat (ofs + new + 1) = unat ofs + unat new + 1"
    by (subst unat_plus_if_no_overflow) (simp_all add: unat_plus_if_no_overflow)
  with 2 less show ?case by simp
qed

declare embedded_edid_from.simps [simp del]

definition nouveau_bios_embedded_edid :: "vbios \<Rightarrow> (nat option \<times> vbios) option" where
  "nouveau_bios_embedded_edid v = (case edid (fp v) of
     Some p \<Rightarrow> Some (Some p, v)
   | None \<Rightarrow> do {
       r \<leftarrow> embedded_edid_from v 0 (int NV_PROM_SIZE);
       case r of
         None \<Rightarrow> Some (None, v)
       | Some p \<Rightarrow> Some (Some p, upd_fp (\<lambda>f. f\<lparr>edid := Some p\<rparr>) v) })"

end
