(* ===== verification/DcbProps.thy ===== *)
theory DcbProps
  imports VbiosLoad
begin

section \<open>Like outputs are merged, outputs on one bus share a connector\<close>

subsection \<open>Merging, on lists\<close>

text \<open>
  What the two nested loops do to the part of the array from the outer index on: the first output takes
  over the heads of those like it, which are marked; then the same for the rest.
\<close>

definition takes_over :: "dcb_out \<Rightarrow> dcb_out \<Rightarrow> bool" where
  "takes_over x y \<longleftrightarrow> o_type y \<noteq> 100 \<and> like x y"

definition mark :: "dcb_out \<Rightarrow> dcb_out \<Rightarrow> dcb_out" where
  "mark x y = (if takes_over x y then y\<lparr>o_type := 100\<rparr> else y)"

definition all_heads :: "dcb_out \<Rightarrow> dcb_out list \<Rightarrow> u8" where
  "all_heads x ys = fold (\<lambda>y h. h OR heads y) (filter (takes_over x) ys) (heads x)"

fun merge_all :: "dcb_out list \<Rightarrow> dcb_out list" where
  "merge_all [] = []"
| "merge_all (x # xs) = x\<lparr>heads := all_heads x xs\<rparr> # merge_all (map (mark x) xs)"

lemma like_heads [simp]: "like (x\<lparr>heads := h\<rparr>) y = like x y"
  by (simp add: like_def)

lemma takes_over_heads [simp]: "takes_over (x\<lparr>heads := h\<rparr>) = takes_over x"
  by (rule ext) (simp add: takes_over_def)

lemma mark_heads [simp]: "mark (x\<lparr>heads := h\<rparr>) = mark x"
  by (rule ext) (simp add: mark_def)

lemma merge_pair_step:
  "merge_pair (length as) (Suc (length as + length bs)) (as @ x # bs @ y # cs) =
     as @ x\<lparr>heads := if takes_over x y then heads x OR heads y else heads x\<rparr> # bs @ mark x y # cs"
  by (simp add: merge_pair_def takes_over_def mark_def nth_append list_update_append Let_def)

lemma merge_row:
  "fold (merge_pair (length as)) [Suc (length as + length bs)..<Suc (length as + length bs + length cs)] (as @ x # bs @ cs @ ds) =
     as @ x\<lparr>heads := all_heads x cs\<rparr> # bs @ map (mark x) cs @ ds"
proof (induction cs arbitrary: x bs)
  case Nil
  then show ?case by (simp add: all_heads_def)
next
  case (Cons y cs)
  let ?x = "x\<lparr>heads := if takes_over x y then heads x OR heads y else heads x\<rparr>"
  have "fold (merge_pair (length as)) [Suc (length as + length bs)..<Suc (length as + length bs + length (y # cs))]
      (as @ x # bs @ (y # cs) @ ds) =
    fold (merge_pair (length as)) [Suc (length as + length (bs @ [mark x y]))..<Suc (length as + length (bs @ [mark x y]) + length cs)]
      (as @ ?x # (bs @ [mark x y]) @ cs @ ds)"
    by (subst upt_conv_Cons) (simp_all add: merge_pair_step)
  also have "\<dots> = as @ ?x\<lparr>heads := all_heads ?x cs\<rparr> # (bs @ [mark x y]) @ map (mark ?x) cs @ ds"
    by (rule Cons.IH)
  also have "\<dots> = as @ x\<lparr>heads := all_heads x (y # cs)\<rparr> # bs @ map (mark x) (y # cs) @ ds"
    by (simp add: all_heads_def)
  finally show ?case .
qed

lemma merge_loops:
  "fold (\<lambda>i. fold (merge_pair i) [i + 1..<length as + length xs]) [length as..<length as + length xs] (as @ xs @ ds) =
     as @ merge_all xs @ ds"
proof (induction xs arbitrary: as rule: merge_all.induct)
  case 1
  then show ?case by simp
next
  case (2 x xs)
  let ?x = "x\<lparr>heads := all_heads x xs\<rparr>"
  let ?F = "\<lambda>n. fold (\<lambda>i. fold (merge_pair i) [i + 1..<n])"
  have row: "fold (merge_pair (length as)) [length as + 1..<length as + length (x # xs)] (as @ (x # xs) @ ds) =
      (as @ [?x]) @ map (mark x) xs @ ds"
    using merge_row [of as "[]" xs x ds] by simp
  have "?F (length as + length (x # xs)) [length as..<length as + length (x # xs)] (as @ (x # xs) @ ds) =
      ?F (length as + length (x # xs)) [length (as @ [?x])..<length as + length (x # xs)] ((as @ [?x]) @ map (mark x) xs @ ds)"
    by (subst upt_conv_Cons) (simp, simp only: fold_simps o_apply row, simp)
  also have "\<dots> = (as @ [?x]) @ merge_all (map (mark x) xs) @ ds"
    using "2.IH" [of "as @ [?x]"] by simp
  finally show ?case by simp
qed

subsection \<open>Compaction\<close>

text \<open>The kept outputs move to the front, in order, and get the number of their place.\<close>

definition renumber :: "dcb_out list \<Rightarrow> dcb_out list" where
  "renumber os = map (\<lambda>(i, e). e\<lparr>o_index := int i\<rparr>) (enumerate 0 os)"

definition numbered :: "dcb_out list \<Rightarrow> bool" where
  "numbered os \<longleftrightarrow> (\<forall>i < length os. o_index (os ! i) = int i)"

definition kept :: "dcb_out list \<Rightarrow> dcb_out list" where
  "kept os = filter (\<lambda>e. o_type e \<noteq> 100) os"

lemma renumber_snoc: "renumber (os @ [e]) = renumber os @ [e\<lparr>o_index := int (length os)\<rparr>]"
  by (simp add: renumber_def enumerate_append_eq)

lemma length_renumber [simp]: "length (renumber os) = length os"
  by (simp add: renumber_def)

lemma compact_loop:
  assumes "numbered (take n os)" "i \<le> n" "n \<le> length os"
  shows "\<exists>os'. fold compact_one [0..<i] (os, 0) = (os', length (kept (take i os))) \<and> length os' = length os \<and>
    take (length (kept (take i os))) os' = renumber (kept (take i os)) \<and> drop i os' = drop i os"
  using assms(2)
proof (induction i)
  case 0
  then show ?case by (simp add: kept_def renumber_def)
next
  case (Suc i)
  let ?k = "length (kept (take i os))"
  from Suc obtain os' where run: "fold compact_one [0..<i] (os, 0) = (os', ?k)" and os': "length os' = length os"
    "take ?k os' = renumber (kept (take i os))" "drop i os' = drop i os" by auto
  have i: "i < length os" using Suc.prems assms(3) by simp
  have same: "os' ! i = os ! i" using os'(1,3) i by (metis Cons_nth_drop_Suc list.inject)
  have next_drop: "drop (Suc i) os' = drop (Suc i) os" using os'(3) by (metis drop_Suc tl_drop)
  have "?k \<le> i" using length_filter_le [of _ "take i os"] i by (simp add: kept_def)
  have index: "o_index (os ! i) = int i" using assms(1) Suc.prems assms(3) by (simp add: numbered_def)
  show ?case
  proof (cases "o_type (os ! i) = 100")
    case True
    then have "kept (take (Suc i) os) = kept (take i os)" using i by (simp add: kept_def take_Suc_conv_app_nth)
    moreover have "compact_one i (os', ?k) = (os', ?k)" using True same by (simp add: compact_one_def)
    ultimately show ?thesis using run os' next_drop by simp
  next
    case False
    then have kept: "kept (take (Suc i) os) = kept (take i os) @ [os ! i]" using i by (simp add: kept_def take_Suc_conv_app_nth)
    let ?os = "os'[?k := (os ! i)\<lparr>o_index := int ?k\<rparr>]"
    have "compact_one i (os', ?k) = (?os, ?k + 1)"
    proof (cases "?k = i")
      case True
      have "(os ! i)\<lparr>o_index := int i\<rparr> = os ! i" using index by simp
      then have "os'[i := (os ! i)\<lparr>o_index := int i\<rparr>] = os'" using same list_update_id [of os' i] by simp
      with True False same show ?thesis by (simp add: compact_one_def)
    qed (use False same in \<open>simp add: compact_one_def\<close>)
    with run have "fold compact_one [0..<Suc i] (os, 0) = (?os, length (kept (take (Suc i) os)))" by (simp add: kept)
    moreover have "take (?k + 1) ?os = renumber (kept (take (Suc i) os))"
      using os'(1,2) \<open>?k \<le> i\<close> i unfolding kept by (simp add: renumber_snoc take_Suc_conv_app_nth [of ?k])
    moreover have "drop (Suc i) ?os = drop (Suc i) os" using \<open>?k \<le> i\<close> next_drop by (simp add: drop_update_cancel)
    ultimately show ?thesis using os'(1) by (simp add: kept)
  qed
qed

subsection \<open>Merging, as grouping\<close>

text \<open>Each output with all later ones like it.\<close>

function merged :: "dcb_out list \<Rightarrow> dcb_out list" where
  "merged [] = []"
| "merged (x # xs) =
     x\<lparr>heads := fold (\<lambda>y h. h OR heads y) (filter (like x) xs) (heads x)\<rparr> # merged (filter (\<lambda>y. \<not> like x y) xs)"
  by pat_completeness auto
termination by (relation "measure length") (simp_all add: le_imp_less_Suc)

lemma type_mark: "o_type (mark x y) \<noteq> 100 \<longleftrightarrow> o_type y \<noteq> 100 \<and> \<not> (takes_over x y)"
  by (auto simp: mark_def)

lemma kept_marked: "kept (map (mark x) ys) = filter (\<lambda>y. \<not> takes_over x y) (kept ys)"
  by (induction ys) (auto simp: kept_def mark_def)

lemma kept_merge_all: "kept (merge_all xs) = merged (kept xs)"
proof (induction xs rule: merge_all.induct)
  case 1
  then show ?case by (simp add: kept_def)
next
  case (2 x xs)
  show ?case
  proof (cases "o_type x = 100")
    case True
    then have "\<not> takes_over x y" for y by (auto simp: takes_over_def like_def)
    with 2 True show ?thesis by (simp add: kept_marked) (simp add: kept_def)
  next
    case False
    have over: "filter (takes_over x) xs = filter (like x) (kept xs)"
      by (auto simp: kept_def takes_over_def intro: filter_cong)
    have "filter (\<lambda>y. \<not> takes_over x y) (kept xs) = filter (\<lambda>y. \<not> like x y) (kept xs)"
      by (rule filter_cong) (auto simp: kept_def takes_over_def)
    with 2 have "kept (merge_all (map (mark x) xs)) = merged (filter (\<lambda>y. \<not> like x y) (kept xs))"
      by (simp add: kept_marked)
    with False over show ?thesis by (simp add: kept_def all_heads_def)
  qed
qed

lemma index_merge_all: "map o_index (merge_all xs) = map o_index xs"
proof (induction xs rule: merge_all.induct)
  case (2 x xs)
  moreover have "o_index (mark x y) = o_index y" for y by (simp add: mark_def)
  ultimately show ?case by (simp add: comp_def)
qed simp

lemma length_merge_all [simp]: "length (merge_all xs) = length xs"
  by (metis index_merge_all length_map)

lemma numbered_merge_all: "numbered (merge_all xs) = numbered xs"
  by (metis (no_types, lifting) index_merge_all length_merge_all nth_map numbered_def)

lemma merge_run:
  assumes "n_outputs v \<le> length (outputs v)" "numbered (take (n_outputs v) (outputs v))"
  shows "take (n_outputs (merge_like_dcb_entries v)) (outputs (merge_like_dcb_entries v)) =
      renumber (merged (kept (take (n_outputs v) (outputs v))))"
    "length (outputs (merge_like_dcb_entries v)) = length (outputs v)"
proof -
  let ?n = "n_outputs v" and ?xs = "take (n_outputs v) (outputs v)" and ?ds = "drop (n_outputs v) (outputs v)"
  have len: "length ?xs = ?n" using assms(1) by simp
  have loops: "fold (\<lambda>i. fold (merge_pair i) [i + 1..<?n]) [0..<?n] (outputs v) = merge_all ?xs @ ?ds"
    using merge_loops [of "[]" ?xs ?ds] len by simp
  have pre: "take ?n (merge_all ?xs @ ?ds) = merge_all ?xs" using len by simp
  obtain os' where run: "fold compact_one [0..<?n] (merge_all ?xs @ ?ds, 0) = (os', length (kept (merge_all ?xs)))"
    and os': "length os' = length (outputs v)" "take (length (kept (merge_all ?xs))) os' = renumber (kept (merge_all ?xs))"
    using compact_loop [of ?n "merge_all ?xs @ ?ds" ?n] assms len
    by (auto simp: pre numbered_merge_all)
  have "merge_like_dcb_entries v = v\<lparr>outputs := os', n_outputs := length (kept (merge_all ?xs))\<rparr>"
    unfolding merge_like_dcb_entries_def Let_def loops run by simp
  with os' show "take (n_outputs (merge_like_dcb_entries v)) (outputs (merge_like_dcb_entries v)) =
      renumber (merged (kept ?xs))" "length (outputs (merge_like_dcb_entries v)) = length (outputs v)"
    by (simp_all add: kept_merge_all)
qed

lemma merged_sub: "e \<in> set (merged xs) \<Longrightarrow> \<exists>x \<in> set xs. \<forall>y. like e y = like x y"
proof (induction xs arbitrary: e rule: merged.induct)
  case (2 x xs)
  then show ?case by auto
qed simp

lemma like_sym: "like x y = like y x"
  by (auto simp: like_def)

lemma like_trans: "like x y \<Longrightarrow> like y z = like x z"
  by (auto simp: like_def)

lemma merged_unlike: "e \<in> set (merged (filter (\<lambda>y. \<not> like x y) xs)) \<Longrightarrow> \<not> like x e"
proof
  assume "e \<in> set (merged (filter (\<lambda>y. \<not> like x y) xs))" and "like x e"
  then obtain z where "\<not> like x z" "like e x = like z x" using merged_sub by force
  with \<open>like x e\<close> show False using like_sym by blast
qed

lemma merged_apart: "sorted_wrt (\<lambda>x y. \<not> like x y) (merged xs)"
proof (induction xs rule: merged.induct)
  case (2 x xs)
  moreover have "\<forall>e \<in> set (merged (filter (\<lambda>y. \<not> like x y) xs)). \<not> like x e" using merged_unlike by blast
  ultimately show ?case unfolding merged.simps sorted_wrt.simps like_heads by blast
qed simp

lemma renumber_apart: "sorted_wrt (\<lambda>x y. \<not> like x y) (renumber os) = sorted_wrt (\<lambda>x y. \<not> like x y) os"
  by (simp add: sorted_wrt_iff_nth_less renumber_def nth_enumerate_eq like_def)

text \<open>
  C36: Merging computes the groups of like outputs: after the two nested loops and the compaction, the
  outputs in use are, in the order of their first members, one for each class of outputs that share I2C
  port, type, location and OR, each with the heads of all members and with its place as its number; no
  two of them are alike. The places behind them keep the length of the array.
\<close>

theorem merge_like_correct:
  assumes "n_outputs v \<le> length (outputs v)" and "numbered (take (n_outputs v) (outputs v))"
  shows "take (n_outputs (merge_like_dcb_entries v)) (outputs (merge_like_dcb_entries v)) =
      renumber (merged (kept (take (n_outputs v) (outputs v)))) \<and>
    sorted_wrt (\<lambda>x y. \<not> like x y) (take (n_outputs (merge_like_dcb_entries v)) (outputs (merge_like_dcb_entries v))) \<and>
    length (outputs (merge_like_dcb_entries v)) = length (outputs v)"
  by (simp add: merge_run [OF assms] renumber_apart merged_apart)

text \<open>Three outputs, two of them like each other.\<close>

definition some_output :: "int \<Rightarrow> int \<Rightarrow> u8 \<Rightarrow> u8 \<Rightarrow> dcb_out" where
  "some_output i t b h = no_output\<lparr>o_index := i, o_type := t, o_i2c_index := b, heads := h, o_or := 1\<rparr>"

definition three_outputs :: vbios where
  "three_outputs = blank_vbios\<lparr>n_outputs := 3,
     outputs := [some_output 0 OUTPUT_TMDS 1 1, some_output 1 OUTPUT_ANALOG 1 2, some_output 2 OUTPUT_TMDS 1 2] @ replicate 13 no_output\<rparr>"

lemma merge_like_witness:
  "take (n_outputs (merge_like_dcb_entries three_outputs)) (outputs (merge_like_dcb_entries three_outputs)) =
     [some_output 0 OUTPUT_TMDS 1 3, some_output 1 OUTPUT_ANALOG 1 2]"
proof -
  have "numbered (take 3 (outputs three_outputs))"
    by (simp add: numbered_def three_outputs_def some_output_def less_Suc_eq numeral_3_eq_3)
  then have "take (n_outputs (merge_like_dcb_entries three_outputs)) (outputs (merge_like_dcb_entries three_outputs)) =
      renumber (merged (kept (take 3 (outputs three_outputs))))"
    using merge_like_correct [of three_outputs] by (simp add: three_outputs_def)
  also have "\<dots> = [some_output 0 OUTPUT_TMDS 1 3, some_output 1 OUTPUT_ANALOG 1 2]"
    by (simp add: three_outputs_def kept_def some_output_def output_types like_def no_output_def renumber_def)
  finally show ?thesis .
qed

end
