(* ===== verification/LegacyConn.thy ===== *)
theory LegacyConn
  imports DcbProps
begin

section \<open>Outputs on one bus share a connector\<close>

definition bus_of :: "vbios \<Rightarrow> nat \<Rightarrow> nat" where
  "bus_of v i = unat (o_i2c_index (outputs v ! i))"

definition conn_of :: "vbios \<Rightarrow> nat \<Rightarrow> nat" where
  "conn_of v i = unat (o_connector (outputs v ! i))"

text \<open>The outputs before \<open>k\<close> are done, and \<open>m\<close> says which connector each bus has.\<close>

definition connected :: "nat \<Rightarrow> nat \<Rightarrow> nat list \<Rightarrow> vbios \<Rightarrow> bool" where
  "connected n k m v \<longleftrightarrow> k \<le> n \<and> n \<le> 16 \<and> n \<le> length (outputs v) \<and> length m = 16 \<and> m ! 15 = 0 \<and> n_connectors v \<le> k \<and>
     (\<forall>i < n. bus_of v i < 16) \<and>
     (\<forall>i < k. conn_of v i < n_connectors v \<and> (bus_of v i \<noteq> 15 \<longrightarrow> m ! bus_of v i = Suc (conn_of v i))) \<and>
     (\<forall>b < 16. m ! b \<noteq> 0 \<longrightarrow> (\<exists>i < k. bus_of v i = b)) \<and>
     (\<forall>i < k. \<forall>j < i. conn_of v i = conn_of v j \<longleftrightarrow> bus_of v i = bus_of v j \<and> bus_of v i \<noteq> 15) \<and>
     (\<forall>c < n_connectors v. \<exists>i < k. conn_of v i = c)"

text \<open>One output: its bus after the correction, its connector and the array after it.\<close>

definition connect :: "nat \<Rightarrow> u8 \<Rightarrow> nat \<Rightarrow> vbios \<Rightarrow> vbios" where
  "connect k b c v = v\<lparr>outputs := (outputs v)[k := (outputs v ! k)\<lparr>o_i2c_index := b, o_connector := of_nat c\<rparr>],
     n_connectors := max (n_connectors v) (Suc c)\<rparr>"

lemma of_connect [simp]:
  "k < length (outputs v) \<Longrightarrow> bus_of (connect k b c v) i = (if i = k then unat b else bus_of v i)"
  "\<lbrakk>k < length (outputs v); c < 256\<rbrakk> \<Longrightarrow> conn_of (connect k b c v) i = (if i = k then c else conn_of v i)"
  "length (outputs (connect k b c v)) = length (outputs v)"
  "n_connectors (connect k b c v) = max (n_connectors v) (Suc c)"
  by (auto simp: bus_of_def conn_of_def connect_def nth_list_update unat_of_nat take_bit_eq_mod)

definition real_bus :: "dcb_out \<Rightarrow> u8" where
  "real_bus e = (if o_type e = OUTPUT_TV \<and> o_location e = 0 then 0xf else o_i2c_index e)"

lemma legacy_step:
  assumes "k < length (outputs v)" "length m = 16" "unat (real_bus (outputs v ! k)) < 16" "m ! b \<le> n_connectors v"
    and "b = unat (real_bus (outputs v ! k))"
  shows "legacy_connectors (k # ks) m v =
    (let c = if m ! b \<noteq> 0 then m ! b - 1 else n_connectors v
     in legacy_connectors ks (if m ! b = 0 \<and> b \<noteq> 15 then m[b := Suc c] else m) (connect k (real_bus (outputs v ! k)) c v))"
proof -
  have tv: "(if o_type e = OUTPUT_TV \<and> o_location e = 0 then e\<lparr>o_i2c_index := 0xf\<rparr> else e) = e\<lparr>o_i2c_index := real_bus e\<rparr>" for e
    by (simp add: real_bus_def)
  have b: "idx m b = Some (m ! b)" using assms by (simp add: idx_def)
  have same: "v\<lparr>outputs := x, n_connectors := max (n_connectors v) (m ! b)\<rparr> = v\<lparr>outputs := x\<rparr>" for x
    using assms(4) by (simp add: max_def)
  show ?thesis
  proof (cases "m ! b = 0")
    case True
    then show ?thesis using assms(1) b by (simp add: set_output_def tv connect_def Let_def assms(5))
  next
    case False
    then show ?thesis using assms(1) b by (simp add: set_output_def tv connect_def Let_def same flip: assms(5))
  qed
qed

lemma connected_step:
  assumes inv: "connected n k m v" and k: "k < n" and b: "b = unat (real_bus (outputs v ! k))"
    and c: "c = (if m ! b \<noteq> 0 then m ! b - 1 else n_connectors v)"
  shows "connected n (Suc k) (if m ! b = 0 \<and> b \<noteq> 15 then m[b := Suc c] else m) (connect k (real_bus (outputs v ! k)) c v)"
proof -
  have size: "k < length (outputs v)" "length m = 16" "n \<le> 16" "m ! 15 = 0" "n_connectors v \<le> k"
    using inv k by (auto simp: connected_def)
  have b16: "b < 16" using inv k b by (auto simp: connected_def real_bus_def bus_of_def split: if_splits)
  have mem: "\<exists>i < k. bus_of v i = b \<and> m ! b = Suc (conn_of v i)" if "m ! b \<noteq> 0"
  proof -
    have "b \<noteq> 15" using that size(4) by metis
    then show ?thesis using inv that b16 unfolding connected_def by metis
  qed
  have earlier: "conn_of v i < n_connectors v" "bus_of v i \<noteq> 15 \<Longrightarrow> m ! bus_of v i = Suc (conn_of v i)"
    "bus_of v i < 16" if "i < k" for i
    using inv that k by (auto simp: connected_def)
  have buses: "\<forall>i < n. bus_of v i < 16" "\<forall>b < 16. m ! b \<noteq> 0 \<longrightarrow> (\<exists>i < k. bus_of v i = b)"
    and apart: "\<forall>i < k. \<forall>j < i. conn_of v i = conn_of v j \<longleftrightarrow> bus_of v i = bus_of v j \<and> bus_of v i \<noteq> 15"
    and onto: "\<forall>c < n_connectors v. \<exists>i < k. conn_of v i = c" and len: "n \<le> length (outputs v)"
    using inv unfolding connected_def by blast+
  show ?thesis
  proof (cases "m ! b = 0")
    case False
    then have "b \<noteq> 15" using size(4) by metis
    obtain i where i: "i < k" "bus_of v i = b" "c = conn_of v i" using mem c False by auto
    then have c_low: "c < n_connectors v" "c < 256" using earlier(1) [OF i(1)] size k by auto
    have mb: "m ! b = Suc c" using i \<open>b \<noteq> 15\<close> earlier(2) by metis
    have new: "c = conn_of v j \<longleftrightarrow> b = bus_of v j" if "j < k" for j
      using apart i that \<open>b \<noteq> 15\<close> by (metis linorder_neqE_nat)
    have "max (n_connectors v) (Suc c) = n_connectors v" using c_low by simp
    then show ?thesis
      using size k False b16 earlier buses apart onto len new c_low mb \<open>b \<noteq> 15\<close>
      unfolding connected_def by (auto simp: All_less_Suc Ex_less_Suc cong: conj_cong simp flip: b)
  next
    case True
    have c: "c = n_connectors v" "n_connectors v < 256" using c True size k by auto
    have fresh: "conn_of v j \<noteq> n_connectors v" "n_connectors v \<noteq> conn_of v j" if "j < k" for j
      using earlier(1) [OF that] by auto
    show ?thesis
    proof (cases "b = 15")
      case b15: True
      show ?thesis
        using size k True b16 earlier buses apart onto len c fresh
        unfolding connected_def by (simp add: All_less_Suc Ex_less_Suc b15 less_SucI cong: conj_cong flip: b)
    next
      case b15: False
      have new: "b \<noteq> bus_of v j" "bus_of v j \<noteq> b" if "j < k" for j
        using earlier(2) [OF that] True b15 by (metis nat.distinct(1))+
      show ?thesis
        using size k True b16 earlier buses apart onto len c fresh new
        unfolding connected_def by (simp add: All_less_Suc Ex_less_Suc b15 less_SucI nth_list_update cong: conj_cong flip: b)
    qed
  qed
qed

lemma connected_low:
  assumes "connected n k m v" "b < 16"
  shows "m ! b \<le> n_connectors v"
proof (cases "m ! b = 0")
  case False
  then obtain i where "i < k" "bus_of v i = b" "b \<noteq> 15" using assms unfolding connected_def by metis
  then show ?thesis using assms unfolding connected_def by (metis Suc_leI)
qed simp

lemma connect_frame [simp]:
  "i \<noteq> k \<Longrightarrow> outputs (connect k b c v) ! i = outputs v ! i"
  "connectors (connect k b c v) = connectors v"
  "n_outputs (connect k b c v) = n_outputs v"
  by (simp_all add: connect_def)

lemma legacy_run:
  assumes "connected n k m v" and "\<forall>i. k \<le> i \<and> i < n \<longrightarrow> outputs v ! i = os ! i"
  shows "\<exists>m' v'. legacy_connectors [k..<n] m v = Some v' \<and> connected n n m' v' \<and>
    (\<forall>i. k \<le> i \<and> i < n \<longrightarrow> bus_of v' i = unat (real_bus (os ! i))) \<and> (\<forall>i < k. bus_of v' i = bus_of v i) \<and>
    connectors v' = connectors v \<and> n_outputs v' = n_outputs v"
  using assms
proof (induction "n - k" arbitrary: k m v)
  case 0
  then show ?case by (auto simp: connected_def)
next
  case (Suc d)
  then have k: "k < n" by simp
  let ?b = "unat (real_bus (outputs v ! k))"
  define c where "c = (if m ! ?b \<noteq> 0 then m ! ?b - 1 else n_connectors v)"
  define m1 where "m1 = (if m ! ?b = 0 \<and> ?b \<noteq> 15 then m[?b := Suc c] else m)"
  define v1 where "v1 = connect k (real_bus (outputs v ! k)) c v"
  have size: "k < length (outputs v)" "length m = 16" "?b < 16"
    using Suc.prems(1) k by (auto simp: connected_def real_bus_def bus_of_def split: if_splits)
  have low: "m ! ?b \<le> n_connectors v" using connected_low [OF Suc.prems(1) size(3)] .
  have step: "legacy_connectors (k # [Suc k..<n]) m v = legacy_connectors [Suc k..<n] m1 v1"
    using legacy_step [OF size low refl] by (simp add: Let_def m1_def v1_def c_def)
  have "connected n (Suc k) m1 v1"
    unfolding m1_def v1_def by (rule connected_step [OF Suc.prems(1) k refl c_def])
  moreover have "d = n - Suc k" "\<forall>i. Suc k \<le> i \<and> i < n \<longrightarrow> outputs v1 ! i = os ! i"
    using Suc.hyps(2) Suc.prems(2) by (auto simp: v1_def)
  ultimately obtain m' v' where run: "legacy_connectors [Suc k..<n] m1 v1 = Some v'" "connected n n m' v'"
    "\<forall>i. Suc k \<le> i \<and> i < n \<longrightarrow> bus_of v' i = unat (real_bus (os ! i))" "\<forall>i < Suc k. bus_of v' i = bus_of v1 i"
    "connectors v' = connectors v1" "n_outputs v' = n_outputs v1"
    using Suc.hyps(1) [of "Suc k" m1 v1] by auto
  have "bus_of v' k = ?b" "\<forall>i < k. bus_of v' i = bus_of v i" using run(4) size(1) by (simp_all add: v1_def)
  moreover have "outputs v ! k = os ! k" using Suc.prems(2) k by simp
  ultimately have "\<forall>i. k \<le> i \<and> i < n \<longrightarrow> bus_of v' i = unat (real_bus (os ! i))" "\<forall>i < k. bus_of v' i = bus_of v i"
    using run(3) by (metis Suc_leI le_neq_implies_less)+
  moreover have "legacy_connectors [k..<n] m v = Some v'" using step run(1) k by (simp add: upt_conv_Cons)
  ultimately show ?case using run(2,5,6) by (auto simp: v1_def)
qed

lemma bus_update [simp]: "bus_of (v\<lparr>n_connectors := n\<rparr>) = bus_of v" "bus_of (v\<lparr>connectors := cs\<rparr>) = bus_of v"
  "conn_of (v\<lparr>connectors := cs\<rparr>) = conn_of v" "divine_connector_type (v\<lparr>connectors := cs\<rparr>) = divine_connector_type v"
  by (auto simp: bus_of_def conn_of_def divine_connector_type_def)

text \<open>
  C37: Old boards get their connectors from the I2C buses: when every output in use names one of the 16
  buses, the fixup makes up at most one connector for each output, two outputs share a connector exactly
  if they are on the same bus and that is a bus, not the mark for none (a TV output of the card itself
  counts as one without), every connector has an output, and its type is told from its outputs.
\<close>

theorem legacy_connectors_correct:
  assumes "dcb_ver v < 0x40" and "n_outputs v \<le> 16" and "n_outputs v \<le> length (outputs v)" and "length (connectors v) = 16"
    and "\<forall>i < n_outputs v. bus_of v i < 16"
  shows "\<exists>v'. fixup_legacy_connector v = Some v' \<and> n_outputs v' = n_outputs v \<and> n_connectors v' \<le> n_outputs v \<and>
    (\<forall>i < n_outputs v. bus_of v' i = unat (real_bus (outputs v ! i)) \<and> conn_of v' i < n_connectors v') \<and>
    (\<forall>i < n_outputs v. \<forall>j < i. conn_of v' i = conn_of v' j \<longleftrightarrow> bus_of v' i = bus_of v' j \<and> bus_of v' i \<noteq> 15) \<and>
    (\<forall>c < n_connectors v'. (\<exists>i < n_outputs v. conn_of v' i = c) \<and> c_type (connectors v' ! c) = divine_connector_type v' c)"
proof -
  let ?n = "n_outputs v" and ?m = "replicate 16 (0 :: nat)" and ?v = "v\<lparr>n_connectors := 0\<rparr>"
  have "connected ?n 0 ?m ?v" using assms by (simp add: connected_def)
  then obtain m' w where run: "legacy_connectors [0..<?n] ?m ?v = Some w" "connected ?n ?n m' w"
    "\<forall>i < ?n. bus_of w i = unat (real_bus (outputs v ! i))" "connectors w = connectors v" "n_outputs w = ?n"
    using legacy_run [of ?n 0 ?m ?v "outputs v"] by auto
  let ?cs = "map (\<lambda>i. (connectors w ! i)\<lparr>c_index := of_nat i, c_type := divine_connector_type w i, gpio_tag := 0xff\<rparr>)
    [0..<n_connectors w] @ drop (n_connectors w) (connectors w)"
  have le: "n_connectors w \<le> ?n" "?n \<le> 16" using run(2) by (auto simp: connected_def)
  have res: "fixup_legacy_connector v = Some (w\<lparr>connectors := ?cs\<rparr>)"
    using assms(1,4) run(1,4) le by (simp add: fixup_legacy_connector_def)
  have "c_type (?cs ! c) = divine_connector_type w c" if "c < n_connectors w" for c
    using that by (simp add: nth_append)
  with run le show ?thesis unfolding res connected_def by simp
qed

lemma legacy_connectors_witness:
  "\<exists>v'. fixup_legacy_connector three_outputs = Some v' \<and> conn_of v' 1 = conn_of v' 0 \<and> n_connectors v' \<le> 3"
proof -
  have bus: "bus_of three_outputs i = 1" if "i < 3" for i
    using that by (auto simp: bus_of_def three_outputs_def some_output_def less_Suc_eq numeral_3_eq_3)
  have real: "unat (real_bus (outputs three_outputs ! i)) = 1" if "i < 3" for i
    using that by (auto simp: real_bus_def three_outputs_def some_output_def output_types less_Suc_eq numeral_3_eq_3)
  have size: "n_outputs three_outputs = 3" "length (outputs three_outputs) = 16" "length (connectors three_outputs) = 16"
    "dcb_ver three_outputs = 0"
    by (simp_all add: three_outputs_def blank_vbios_def dcb_ver_def blank_nvbios_def)
  obtain v' where v': "fixup_legacy_connector three_outputs = Some v'" "n_connectors v' \<le> 3"
    "\<forall>i < 3. bus_of v' i = unat (real_bus (outputs three_outputs ! i))"
    "\<forall>i < 3. \<forall>j < i. conn_of v' i = conn_of v' j \<longleftrightarrow> bus_of v' i = bus_of v' j \<and> bus_of v' i \<noteq> 15"
    using legacy_connectors_correct [of three_outputs] bus size by auto
  then have "bus_of v' 0 = 1" "bus_of v' 1 = 1" using real by simp_all
  with v'(4) have "conn_of v' 1 = conn_of v' 0" by simp
  with v'(1,2) show ?thesis by auto
qed

end
