(* ===== verification/VbiosInit.thy ===== *)
theory VbiosInit
  imports VbiosLoad
begin

section \<open>Scripts for outputs, and starting the VBIOS\<close>

text \<open>
  The scripts and tables of flat panels (\<open>call_lvds_script\<close>, \<open>parse_fp_mode_table\<close>,
  \<open>nouveau_bios_parse_lvds_table\<close>), of TMDS outputs (\<open>run_tmds_table\<close>) and of the outputs of the NV50
  (\<open>nouveau_bios_run_display_table\<close>), and \<open>nouveau_bios_init\<close>, all of \<open>nouveau_bios.c\<close>. Scripts are run
  by the interpreter of \<open>InitTable\<close>, with \<open>fuel\<close> levels of calls; the buses they find are kept.
\<close>

definition run_script :: "nat \<Rightarrow> board \<Rightarrow> dcb_out option \<Rightarrow> u16 \<Rightarrow> vbios \<Rightarrow> ist \<Rightarrow> (vbios \<times> ist) option" where
  "run_script fuel b out ofs v s = do {
     (_, s) \<leftarrow> parse_init_table fuel (drv_of b v out) (ucast ofs)
       (s\<lparr>i2c := i2c_ports v, iexecute := True, irepeat := False\<rparr>);
     Some (v\<lparr>i2c_ports := i2c s\<rparr>, s) }"

definition nouveau_bios_run_init_table ::
  "nat \<Rightarrow> board \<Rightarrow> u16 \<Rightarrow> dcb_out option \<Rightarrow> vbios \<Rightarrow> ist \<Rightarrow> (vbios \<times> ist) option" where
  "nouveau_bios_run_init_table fuel b table out v s = run_script fuel b out table v s"

text \<open>The entry of a table of clocks for a pixel clock; a clock of 0 ends the table.\<close>

function clk_scan :: "vbios \<Rightarrow> nat \<Rightarrow> int \<Rightarrow> nat \<Rightarrow> (nat option) option" where
  "clk_scan v rlen pxclk p =
     (case at16 v p of
        None \<Rightarrow> None
      | Some clk \<Rightarrow>
          if pxclk \<ge> uint clk * 10 then Some (Some p)
          else if clk = 0 \<or> rlen = 0 then Some None
          else clk_scan v rlen pxclk (p + rlen))"
  by pat_completeness auto
termination
  by (relation "measure (\<lambda>(v, rlen, pxclk, p). data_len v - p)")
    (auto simp: at16_def at8_def idx_def data_len_def split: if_splits option.splits)

declare clk_scan.simps [simp del]

definition clkcmptable :: "vbios \<Rightarrow> u16 \<Rightarrow> int \<Rightarrow> u16 option" where
  "clkcmptable v clktable pxclk = (let old = major_version (vb v) < 5 in do {
     p \<leftarrow> clk_scan v (if old then 3 else 4) pxclk (unat clktable);
     case p of
       None \<Rightarrow> Some 0
     | Some p \<Rightarrow>
         if old then do {
           sub \<leftarrow> at8 v (p + 2);
           at16 v (unat (init_script_tbls_ptr (vb v)) + unat sub * 2) }
         else at16 v (p + 2) })"

subsection \<open>Digital outputs of old cards\<close>

definition ramdac_of :: "u8 \<Rightarrow> int" where
  "ramdac_of x = uint (drop_bit 2 (x AND 4))"

definition nv_write_tmds :: "drv \<Rightarrow> u8 \<Rightarrow> nat \<Rightarrow> u8 \<Rightarrow> u8 \<Rightarrow> ist \<Rightarrow> ist option" where
  "nv_write_tmds d x dl adr v s = do {
     s \<leftarrow> NVWriteRAMDAC d (ramdac_of x) (0x6808b4 + of_nat dl * 8) (ucast v) s;
     NVWriteRAMDAC d (ramdac_of x) (0x6808b0 + of_nat dl * 8) (ucast adr) s }"

definition nv04_dfp_bind_head :: "drv \<Rightarrow> dcb_out \<Rightarrow> int \<Rightarrow> bool \<Rightarrow> ist \<Rightarrow> ist option" where
  "nv04_dfp_bind_head d e head dl s = (
     let tmds04 = (if head \<noteq> ramdac_of (o_or e) then 0x88 else 0x80);
         tmds04 = (if o_type e = OUTPUT_LVDS then tmds04 OR 1 else tmds04)
     in do {
       s \<leftarrow> nv_write_tmds d (o_or e) 0 0x04 tmds04 s;
       if dl then nv_write_tmds d (o_or e) 1 0x04 (tmds04 XOR 0x08) s else Some s })"

definition run_digital_op_script ::
  "nat \<Rightarrow> board \<Rightarrow> u16 \<Rightarrow> dcb_out \<Rightarrow> int \<Rightarrow> bool \<Rightarrow> vbios \<Rightarrow> ist \<Rightarrow> (vbios \<times> ist) option" where
  "run_digital_op_script fuel b script e head dl v s = (let d = drv_of b v None in do {
     s \<leftarrow> bios_idxprt_wr d NV_CIO_CRX__COLOR NV_CIO_CRE_44 (if head \<noteq> 0 then NV_CIO_CRE_44_HEADB else 0) s;
     s \<leftarrow> NVWriteVgaCrtc5758 d head 0 (word_of_int (o_index e)) s;
     (v, s) \<leftarrow> run_script fuel b None script v s;
     s \<leftarrow> nv04_dfp_bind_head d e head dl s;
     Some (v, s) })"

definition run_tmds_table :: "nat \<Rightarrow> board \<Rightarrow> dcb_out \<Rightarrow> int \<Rightarrow> int \<Rightarrow> vbios \<Rightarrow> ist \<Rightarrow> (unit res \<times> vbios \<times> ist) option" where
  "run_tmds_table fuel b e head pxclk v s = (
     let cv = chip_version (vb v); d = drv_of b v None;
         clktable = (if ffs (o_or e) = 1 then output0_script_ptr v
                     else if ffs (o_or e) = 2 \<or> ffs (o_or e) = 3 then output1_script_ptr v else 0)
     in
     if cv \<ge> 0x17 \<and> cv \<noteq> 0x1a \<and> cv \<noteq> 0x20 \<and> o_location e \<noteq> 0 then Some (Inr (), v, s)
     else if clktable = 0 then Some (Inl EINVAL, v, s)
     else do {
       script \<leftarrow> clkcmptable v clktable pxclk;
       if script = 0 then Some (Inl ENOENT, v, s)
       else do {
         (x, s) \<leftarrow> bios_rd32 d 0x680524 s;
         (v, s) \<leftarrow> run_digital_op_script fuel b script e head (pxclk \<ge> 165000) v s;
         (y, s) \<leftarrow> NVReadRAMDAC d 0 0x680524 s;
         s \<leftarrow> NVWriteRAMDAC d 0 0x680524 ((y AND NOT 0x50000) OR (x AND 0x50000)) s;
         Some (Inr (), v, s) } })"

subsection \<open>LVDS panels\<close>

text \<open>\<open>enum LVDS_script\<close>, from 1 on.\<close>

datatype lvds_script = LVDS_INIT | LVDS_RESET | LVDS_BACKLIGHT_ON | LVDS_BACKLIGHT_OFF | LVDS_PANEL_ON | LVDS_PANEL_OFF

fun lvds_num :: "lvds_script \<Rightarrow> nat" where
  "lvds_num LVDS_INIT = 1" | "lvds_num LVDS_RESET = 2" | "lvds_num LVDS_BACKLIGHT_ON = 3"
| "lvds_num LVDS_BACKLIGHT_OFF = 4" | "lvds_num LVDS_PANEL_ON = 5" | "lvds_num LVDS_PANEL_OFF = 6"

definition call_lvds_manufacturer_script ::
  "nat \<Rightarrow> board \<Rightarrow> dcb_out \<Rightarrow> int \<Rightarrow> lvds_script \<Rightarrow> vbios \<Rightarrow> ist \<Rightarrow> (unit res \<times> vbios \<times> ist) option" where
  "call_lvds_manufacturer_script fuel b e head script v s = (let x = unat (xlated_entry (fp v)) in do {
     c \<leftarrow> at8 v (x + lvds_num script);
     let sub = c + (if link_c_increment (fp v) \<and> o_or e AND 4 \<noteq> 0 then 1 else 0);
     ofs \<leftarrow> at16 v (unat (init_script_tbls_ptr (vb v)) + unat sub * 2);
     if x = 0 \<or> sub = 0 \<or> ofs = 0 then Some (Inl EINVAL, v, s)
     else do {
       (v, s) \<leftarrow> run_digital_op_script fuel b ofs e head (dual_link (fp v)) v s;
       s \<leftarrow> (if script = LVDS_PANEL_OFF then do {
               ms \<leftarrow> at16 v (x + 7);
               tell (drv_of b v None) (Msleep (ucast ms)) s } else Some s);
       Some (Inr (), v, s) } })"

text \<open>Where the table of clocks of a reset is.\<close>

definition lvds_clktable :: "dcb_out \<Rightarrow> vbios \<Rightarrow> u16" where
  "lvds_clktable e v = (
     let c = lvdsmanufacturerpointer (fp v) + 15 + (if o_or e = 4 then 8 else 0) in
     if use_straps_for_mode e then
       c + (if dual_link (fp v) then 4 else 0) + (if if_is_24bit (fp v) then 2 else 0)
     else
       let cmp = (if o_or e = 4 then 4 else 1) in
       c + (if dual_link (fp v) then 4 else 0) +
       (if strapless_is_24bit (fp v) AND (if dual_link (fp v) then push_bit 1 cmp else cmp) \<noteq> 0 then 2 else 0))"

definition run_lvds_table ::
  "nat \<Rightarrow> board \<Rightarrow> dcb_out \<Rightarrow> int \<Rightarrow> lvds_script \<Rightarrow> int \<Rightarrow> vbios \<Rightarrow> ist \<Rightarrow> (unit res \<times> vbios \<times> ist) option" where
  "run_lvds_table fuel b e head script pxclk v s = (
     let p = unat (lvdsmanufacturerpointer (fp v)); set2 = (if o_or e = 4 then 2 else 0);
         go = (\<lambda>ofs. if ofs = 0 then Some (Inl ENOENT, v, s)
                     else do {
                       (v, s) \<leftarrow> run_digital_op_script fuel b ofs e head (dual_link (fp v)) v s;
                       Some (Inr (), v, s) })
     in case script of
       LVDS_INIT \<Rightarrow> Some (Inl ENOSYS, v, s)
     | LVDS_RESET \<Rightarrow> do {
         c \<leftarrow> at16 v (unat (lvds_clktable e v));
         if c = 0 then Some (Inl ENOENT, v, s) else do { ofs \<leftarrow> clkcmptable v c pxclk; go ofs } }
     | LVDS_BACKLIGHT_ON \<Rightarrow> do { ofs \<leftarrow> at16 v (p + 7 + set2); go ofs }
     | LVDS_PANEL_ON \<Rightarrow> do { ofs \<leftarrow> at16 v (p + 7 + set2); go ofs }
     | LVDS_BACKLIGHT_OFF \<Rightarrow> do { ofs \<leftarrow> at16 v (p + 11 + set2); go ofs }
     | LVDS_PANEL_OFF \<Rightarrow> do { ofs \<leftarrow> at16 v (p + 11 + set2); go ofs })"

text \<open>
  \<open>depth\<close> bounds how far \<open>call_lvds_script\<close> calls itself: for the first script of all, and for what
  has to come before a script (off before reset, reset before on). Four levels are enough.
\<close>

definition invocation :: "lvds_script \<Rightarrow> int \<Rightarrow> int" where
  "invocation script head = int (2 * lvds_num script) OR head"

definition lvds_before :: "(lvds_script \<Rightarrow> vbios \<Rightarrow> ist \<Rightarrow> (unit res \<times> vbios \<times> ist) option) \<Rightarrow> lvds_script \<Rightarrow> vbios \<Rightarrow> ist
    \<Rightarrow> (vbios \<times> ist) option" where
  "lvds_before call script v s = do {
     (v, s) \<leftarrow> (if lvds_init_run (fp v) then Some (v, s)
       else do { (_, v, s) \<leftarrow> call LVDS_INIT (upd_fp (\<lambda>f. f\<lparr>lvds_init_run := True\<rparr>) v) s; Some (v, s) });
     (v, s) \<leftarrow> (if script = LVDS_PANEL_ON \<and> reset_after_pclk_change (fp v)
       then do { (_, v, s) \<leftarrow> call LVDS_RESET v s; Some (v, s) } else Some (v, s));
     if script = LVDS_RESET \<and> power_off_for_reset (fp v)
     then do { (_, v, s) \<leftarrow> call LVDS_PANEL_OFF v s; Some (v, s) } else Some (v, s) }"

definition lvds_own ::
  "nat \<Rightarrow> board \<Rightarrow> dcb_out \<Rightarrow> int \<Rightarrow> u8 \<Rightarrow> lvds_script \<Rightarrow> int \<Rightarrow> vbios \<Rightarrow> ist \<Rightarrow> (unit res \<times> vbios \<times> ist) option" where
  "lvds_own fuel b e head ver script pxclk v s = (let d = drv_of b v None in do {
     (x, s) \<leftarrow> bios_rd32 d 0x680524 s;
     (ret, v, s) \<leftarrow> (if ver < 0x30 then call_lvds_manufacturer_script fuel b e head script v s
                      else run_lvds_table fuel b e head script pxclk v s);
     let v = upd_fp (\<lambda>f. f\<lparr>last_script_invoc := invocation script head\<rparr>) v;
     (y, s) \<leftarrow> NVReadRAMDAC d 0 0x680524 s;
     s \<leftarrow> NVWriteRAMDAC d 0 0x680524 ((y AND NOT 0x50000) OR (x AND 0x50000)) s;
     s \<leftarrow> nv_wr32 d 0x1588 0 s;
     Some (ret, v, s) })"

text \<open>
  The scripts call each other. The model nests the calls to a given depth and takes as a parameter what
  a call beyond that depth does.
\<close>

primrec lvds_call ::
  "nat \<Rightarrow> (lvds_script \<Rightarrow> vbios \<Rightarrow> ist \<Rightarrow> (unit res \<times> vbios \<times> ist) option) \<Rightarrow>
    nat \<Rightarrow> board \<Rightarrow> dcb_out \<Rightarrow> int \<Rightarrow> int \<Rightarrow> lvds_script \<Rightarrow> vbios \<Rightarrow> ist \<Rightarrow> (unit res \<times> vbios \<times> ist) option" where
  "lvds_call 0 beyond fuel b e head pxclk script v s = beyond script v s"
| "lvds_call (Suc depth) beyond fuel b e head pxclk script v s = do {
     ver \<leftarrow> at8 v (unat (lvdsmanufacturerpointer (fp v)));
     if last_script_invoc (fp v) = invocation script head \<or> ver = 0 \<or> (ver \<ge> 0x30 \<and> script = LVDS_INIT)
     then Some (Inr (), v, s)
     else do {
       (v, s) \<leftarrow> lvds_before (lvds_call depth beyond fuel b e head pxclk) script v s;
       lvds_own fuel b e head ver script pxclk v s } }"

definition call_lvds_script ::
  "nat \<Rightarrow> board \<Rightarrow> dcb_out \<Rightarrow> int \<Rightarrow> lvds_script \<Rightarrow> int \<Rightarrow> vbios \<Rightarrow> ist \<Rightarrow> (unit res \<times> vbios \<times> ist) option" where
  "call_lvds_script fuel b e head script pxclk = lvds_call 3 (\<lambda>_ _ _. None) fuel b e head pxclk script"

record lvdstableheader =
  lvds_ver :: u8
  headerlen :: u8
  recordlen :: u8

definition parse_lvds_manufacturer_table_header :: "vbios \<Rightarrow> lvdstableheader res option" where
  "parse_lvds_manufacturer_table_header v = (let p = unat (lvdsmanufacturerpointer (fp v)) in
     if p = 0 then Some (Inl EINVAL)
     else do {
       ver \<leftarrow> at8 v p;
       if ver = 0x0a then do {
         r \<leftarrow> at8 v (p + 1);
         Some (Inr \<lparr>lvds_ver = ver, headerlen = 2, recordlen = r\<rparr>) }
       else if ver = 0x30 \<or> ver = 0x40 then do {
         h \<leftarrow> at8 v (p + 1);
         if h < (if ver = 0x30 then 0x1f else 0x7) then Some (Inl EINVAL)
         else do {
           r \<leftarrow> at8 v (p + 2);
           Some (Inr \<lparr>lvds_ver = ver, headerlen = h, recordlen = r\<rparr>) } }
       else Some (Inl ENOSYS) })"

definition get_fp_strap :: "board \<Rightarrow> vbios \<Rightarrow> ist \<Rightarrow> (nat \<times> ist) option" where
  "get_fp_strap b v s = (let d = drv_of b v None in do {
     flags \<leftarrow> (if major_version (vb v) < 5 then at8 v 0x48 else Some 0);
     if flags AND 4 \<noteq> 0 then do {
       (x, s) \<leftarrow> NVReadVgaCrtc5758 d 0 0xf s;
       Some (unat (x AND 0xf), s) }
     else do {
       (x, s) \<leftarrow> bios_rd32 d 0x101000 s;
       Some (unat (field (if card_type b \<ge> NV_50 then 24 else 16) 4 x), s) } })"

text \<open>Version, header length, record length, number of records, offset, and the front porch if the table has it.\<close>

definition fp_table_header :: "nat \<Rightarrow> vbios \<Rightarrow> ((nat \<times> nat \<times> nat \<times> int) option \<times> vbios) option" where
  "fp_table_header p v = do {
     ver \<leftarrow> at8 v p;
     if ver = 0x05 then Some (Some (0, 42, 0xf, -1), v)
     else if ver = 0x10 then Some (Some (0, 44, 0xf, 0), v)
     else if ver = 0x20 then do {
       h \<leftarrow> at8 v (p + 1);
       r \<leftarrow> at8 v (p + 2);
       n \<leftarrow> at8 v (p + 3);
       porch \<leftarrow> at8 v (p + 4);
       Some (Some (unat h, unat r, unat n, -7), v\<lparr>digital_min_front_porch := porch\<rparr>) }
     else Some (None, v) }"

text \<open>The panel of the strap: its entry in the table, if there is one.\<close>

definition fp_mode_of_strap :: "board \<Rightarrow> (nat \<times> nat \<times> nat \<times> int) \<Rightarrow> lvdstableheader \<Rightarrow> vbios \<Rightarrow> ist
    \<Rightarrow> ((unit res \<times> vbios) \<times> ist) option" where
  "fp_mode_of_strap b h lth v s = (case h of (hlen, rlen, n, ofs) \<Rightarrow>
     let v = (if lvds_ver lth = 0x30 \<or> lvds_ver lth = 0x40
              then upd_fp (\<lambda>f. f\<lparr>fpxlatetableptr := lvdsmanufacturerpointer f + ucast (headerlen lth) + 1,
                                 xlatwidth := uint (recordlen lth)\<rparr>) v
              else v)
     in
     if fpxlatetableptr (fp v) = 0 then Some ((Inl EINVAL, v), s)
     else do {
       (strap, s) \<leftarrow> get_fp_strap b v s;
       i \<leftarrow> at8 v (unat (fpxlatetableptr (fp v)) + strap * nat (xlatwidth (fp v)));
       if unat i > n then Some ((Inl ENOENT, v), s)
       else do {
         let v = (if lvds_ver lth > 0x10 then v\<lparr>fp_no_ddc := strap \<noteq> 0xf \<or> i \<noteq> 0xf\<rparr> else v);
         if strap = 0xf \<or> i = 0xf then Some ((Inr (), v), s)
         else
           let m = word_of_int (uint (fptablepointer (fp v)) + int hlen + int rlen * uint i + ofs) in
           Some ((Inr (), upd_fp (\<lambda>f. f\<lparr>mode_ptr := m\<rparr>) v), s) } })"

definition parse_fp_mode_table :: "board \<Rightarrow> vbios \<Rightarrow> ist \<Rightarrow> ((unit res \<times> vbios) \<times> ist) option" where
  "parse_fp_mode_table b v s = (let p = unat (fptablepointer (fp v)) in
     if p = 0 then Some ((Inr (), v\<lparr>digital_min_front_porch := 0x4b\<rparr>), s)
     else do {
       (h, v) \<leftarrow> fp_table_header p v;
       case h of
         None \<Rightarrow> Some ((Inl ENOSYS, v), s)
       | Some h \<Rightarrow>
           if \<not> is_mobile v then Some ((Inr (), v), s)
           else do {
             lth \<leftarrow> parse_lvds_manufacturer_table_header v;
             case lth of
               Inl e \<Rightarrow> Some ((Inl e, v), s)
             | Inr lth \<Rightarrow> fp_mode_of_strap b h lth v s } })"

text \<open>\<open>struct drm_display_mode\<close>, as far as it is filled in. Bytes are counted from \<open>mode_ptr\<close>.\<close>

record display_mode =
  clock :: int
  hdisplay :: int
  hsync_start :: int
  hsync_end :: int
  htotal :: int
  vdisplay :: int
  vsync_start :: int
  vsync_end :: int
  vtotal :: int
  phsync :: bool
  pvsync :: bool

definition nouveau_bios_fp_mode :: "vbios \<Rightarrow> (bool \<times> display_mode) option" where
  "nouveau_bios_fp_mode v = (let p = unat (mode_ptr (fp v)); w = (\<lambda>i. map_option uint (at16 v (p + i))) in do {
     clk \<leftarrow> w 7; hd \<leftarrow> w 11; hs \<leftarrow> w 17; he \<leftarrow> w 19; ht \<leftarrow> w 21;
     vd \<leftarrow> w 25; vs \<leftarrow> w 31; ve \<leftarrow> w 33; vt \<leftarrow> w 35;
     pol \<leftarrow> at8 v (p + 37);
     Some (p \<noteq> 0, \<lparr>clock = clk * 10, hdisplay = hd + 1, hsync_start = hs + 1, hsync_end = he + 1, htotal = ht + 1,
       vdisplay = vd + 1, vsync_start = vs + 1, vsync_end = ve + 1, vtotal = vt + 1,
       phsync = pol AND 0x10 \<noteq> 0, pvsync = pol AND 1 \<noteq> 0\<rparr>) })"

end
