(* ===== verification/VbiosStart.thy ===== *)
theory VbiosStart
  imports VbiosInit
begin

section \<open>Display tables, and \<open>nouveau_bios_init\<close>\<close>

text \<open>
  \<open>nouveau_bios_parse_lvds_table\<close>, \<open>nouveau_bios_run_display_table\<close>, \<open>nouveau_run_vbios_init\<close>,
  \<open>nouveau_bios_posted\<close>, \<open>nouveau_bios_init\<close> and \<open>nouveau_bios_takedown\<close> of \<open>nouveau_bios.c\<close>.
\<close>

subsection \<open>The LVDS table\<close>

text \<open>Which record of the table a panel has.\<close>

definition lvds_record :: "lvdstableheader \<Rightarrow> nat \<Rightarrow> int \<Rightarrow> vbios \<Rightarrow> nat option" where
  "lvds_record lth strap pxclk v = (let cv = chip_version (vb v); f = fp v in
     if lvds_ver lth = 0x0a then do {
       i \<leftarrow> at8 v (unat (fpxlatemanufacturertableptr f) + strap);
       Some (if pxclk = 0 then unat i
             else if cv < 0x25 then
               (if lvds_single_a_script_ptr v AND 1 \<noteq> 0 then 2 else 0) + (if pxclk \<ge> duallink_transition_clk f then 1 else 0)
             else if cv < 0x30 then 0
             else if pxclk \<ge> 140000 then 3
             else if pxclk \<ge> duallink_transition_clk f then 2 else 0) }
     else Some strap)"

text \<open>The flags of a record. The second result is \<open>*if_is_24bit\<close>, when it is set.\<close>

definition lvds_flags :: "lvdstableheader \<Rightarrow> u16 \<Rightarrow> vbios \<Rightarrow> (vbios \<times> bool option) option" where
  "lvds_flags lth ofs v = do {
     x \<leftarrow> at8 v (unat ofs);
     if lvds_ver lth = 0x0a then
       Some (upd_fp (\<lambda>f. f\<lparr>power_off_for_reset := x AND 1 \<noteq> 0, reset_after_pclk_change := x AND 2 \<noteq> 0,
           dual_link := x AND 4 \<noteq> 0, link_c_increment := x AND 8 \<noteq> 0\<rparr>) v, Some (x AND 16 \<noteq> 0))
     else do {
       let p = unat (lvdsmanufacturerpointer (fp v));
       y \<leftarrow> at8 v (p + 4);
       clk \<leftarrow> at16 v (p + 5);
       Some (upd_fp (\<lambda>f. f\<lparr>power_off_for_reset := True, reset_after_pclk_change := True,
           dual_link := x AND 1 \<noteq> 0, if_is_24bit := x AND 2 \<noteq> 0, strapless_is_24bit := y,
           duallink_transition_clk := uint clk * 10\<rparr>) v, None) } }"

text \<open>The result: an error, or the flags for dual link and 24 bit.\<close>

definition nouveau_bios_parse_lvds_table ::
  "board \<Rightarrow> int \<Rightarrow> vbios \<Rightarrow> ist \<Rightarrow> ((bool \<times> bool option) res \<times> vbios \<times> ist) option" where
  "nouveau_bios_parse_lvds_table b pxclk v s = do {
     (strap, s) \<leftarrow> get_fp_strap b v s;
     lth \<leftarrow> parse_lvds_manufacturer_table_header v;
     case lth of
       Inl e \<Rightarrow> Some (Inl e, v, s)
     | Inr lth \<Rightarrow> do {
         i \<leftarrow> lvds_record lth strap pxclk v;
         let ofs = lvdsmanufacturerpointer (fp v) + ucast (headerlen lth) + ucast (recordlen lth) * of_nat i;
         (v, is24) \<leftarrow> lvds_flags lth ofs (upd_fp (\<lambda>f. f\<lparr>xlated_entry := ofs\<rparr>) v);
         let v = (if nv_match_device b 0x01d7 0x1028 0x01c2
                  then upd_fp (\<lambda>f. f\<lparr>duallink_transition_clk := 80000\<rparr>) v else v);
         let cv = chip_version (vb v);
         let v = (if pxclk \<noteq> 0 \<and> (cv < 0x25 \<or> cv > 0x28)
                  then upd_fp (\<lambda>f. f\<lparr>dual_link := pxclk \<ge> duallink_transition_clk f\<rparr>) v else v);
         Some (Inr (dual_link (fp v), is24), v, s) } }"

subsection \<open>Display tables\<close>

text \<open>The number of the configuration for \<open>sub\<close>, the first when there is none.\<close>

primrec config_scan :: "vbios \<Rightarrow> nat \<Rightarrow> u32 \<Rightarrow> nat list \<Rightarrow> nat option" where
  "config_scan v configs sub [] = Some 0"
| "config_scan v configs sub (i # is) = do {
     x \<leftarrow> at16 v (configs + i * 6);
     if ucast x = sub then Some i else config_scan v configs sub is }"

text \<open>Which script: 0 when there is none.\<close>

definition display_script :: "vbios \<Rightarrow> nat \<Rightarrow> nat \<Rightarrow> nat \<Rightarrow> int \<Rightarrow> u16 option" where
  "display_script v otable first i pxclk =
     (if pxclk = 0 then at16 v (otable + 6)
      else if pxclk = -1 then at16 v (otable + 8)
      else if pxclk = -2 then (if first \<ge> 12 then at16 v (otable + 10) else Some 0)
      else do {
        c \<leftarrow> at16 v (otable + first + i * 6 + (if pxclk > 0 then 2 else 4));
        if c = 0 then Some 0 else clkcmptable v c \<bar>pxclk\<bar> })"

text \<open>True is 1: no script has been run.\<close>

definition nouveau_bios_run_display_table ::
  "nat \<Rightarrow> board \<Rightarrow> dcb_out \<Rightarrow> u32 \<Rightarrow> int \<Rightarrow> vbios \<Rightarrow> ist \<Rightarrow> (bool \<times> vbios \<times> ist) option" where
  "nouveau_bios_run_display_table fuel b e sub pxclk v s = (let p = script_table_ptr v; t = unat p in
     if p = 0 then Some (True, v, s)
     else do {
       ver \<leftarrow> at8 v t;
       if ver \<noteq> 0x20 \<and> ver \<noteq> 0x21 then Some (True, v, s)
       else do {
         h \<leftarrow> at8 v (t + 1);
         r \<leftarrow> at8 v (t + 2);
         n \<leftarrow> at8 v (t + 3);
         otable \<leftarrow> bios_output_config_match (drv_of b v None) (Some (entry_of e)) (p + ucast h) r n (ver \<ge> 0x21);
         case otable of
           None \<Rightarrow> Some (True, v, s)
         | Some ot \<Rightarrow> do {
             first \<leftarrow> at8 v (t + 4);
             i \<leftarrow> (if pxclk < -2 \<or> pxclk > 0 then do {
                     m \<leftarrow> at8 v (ot + 5);
                     config_scan v (ot + unat first) sub [0..<unat m] }
                   else Some 0);
             script \<leftarrow> display_script v ot (unat first) i pxclk;
             if script = 0 then Some (True, v, s)
             else do {
               (v, s) \<leftarrow> nouveau_bios_run_init_table fuel b script (Some e) v s;
               Some (False, v, s) } } } })"

subsection \<open>Running the scripts of the card\<close>

definition run_tables :: "nat \<Rightarrow> board \<Rightarrow> vbios \<Rightarrow> ist \<Rightarrow> (vbios \<times> ist) option" where
  "run_tables fuel b v s = do {
     s \<leftarrow> parse_init_tables fuel (drv_of b v None) (s\<lparr>i2c := i2c_ports v\<rparr>);
     Some (v\<lparr>i2c_ports := i2c s\<rparr>, s) }"

primrec run_displays :: "nat \<Rightarrow> board \<Rightarrow> nat list \<Rightarrow> vbios \<Rightarrow> ist \<Rightarrow> (vbios \<times> ist) option" where
  "run_displays fuel b [] v s = Some (v, s)"
| "run_displays fuel b (i # is) v s = do {
     e \<leftarrow> idx (outputs v) i;
     (_, v, s) \<leftarrow> nouveau_bios_run_display_table fuel b e 0 0 v s;
     run_displays fuel b is v s }"

definition nouveau_run_vbios_init :: "nat \<Rightarrow> board \<Rightarrow> vbios \<Rightarrow> ist \<Rightarrow> (vbios \<times> ist) option" where
  "nouveau_run_vbios_init fuel b v s = do {
     let s = s\<lparr>crtchead := 0\<rparr>;
     s \<leftarrow> (if major_version (vb v) < 5 then map_option snd (load_nv17_hw_sequencer_ucode b v s) else Some s);
     let v = (if execute (vb v) then upd_fp (\<lambda>f. f\<lparr>last_script_invoc := 0, lvds_init_run := False\<rparr>) v else v);
     (v, s) \<leftarrow> run_tables fuel b v s;
     (v, s) \<leftarrow> (if some_script_ptr v \<noteq> 0 then run_script fuel b None (some_script_ptr v) v s else Some (v, s));
     if card_type b \<ge> NV_50 then run_displays fuel b [0..<n_outputs v] v s else Some (v, s) }"

text \<open>The chipset is compared with a number of card types, which comes to the same from the NV50 on.\<close>

definition nouveau_bios_posted :: "board \<Rightarrow> ist \<Rightarrow> (bool \<times> ist) option" where
  "nouveau_bios_posted b s =
     (if chipset b \<ge> NV_50 then do {
        (x, s) \<leftarrow> NVReadVgaCrtc b 0 0x00 s;
        if x \<noteq> 0 then Some (True, s)
        else do { (y, s) \<leftarrow> NVReadVgaCrtc b 0 0x1a s; Some (y \<noteq> 0, s) } }
      else do {
        (x06, s) \<leftarrow> NVReadVgaCrtc b 0 0x06 s;
        (x07, s) \<leftarrow> NVReadVgaCrtc b 0 0x07 s;
        (y07, s) \<leftarrow> NVReadVgaCrtc b 0 0x07 s;
        (x25, s) \<leftarrow> NVReadVgaCrtc b 0 0x25 s;
        (x41, s) \<leftarrow> NVReadVgaCrtc b 0 0x41 s;
        Some (ucast x06 OR push_bit 8 (ucast (x07 AND 1)) OR push_bit 4 (ucast (y07 AND 0x20)) OR
          push_bit 10 (ucast (x25 AND 1)) OR push_bit 11 (ucast (x41 AND 1)) \<noteq> (0 :: u32), s) })"

text \<open>What comes after the tables are read.\<close>

definition bios_start :: "nat \<Rightarrow> board \<Rightarrow> vbios \<Rightarrow> ist \<Rightarrow> (vbios \<times> ist) option" where
  "bios_start fuel b v s = do {
     (posted, s) \<leftarrow> nouveau_bios_posted b s;
     let v = upd_vb (\<lambda>x. x\<lparr>execute := \<not> posted \<or> nouveau_force_post b\<rparr>) v;
     (v, s) \<leftarrow> nouveau_run_vbios_init fuel b v s;
     (v, s) \<leftarrow> (if major_version (vb v) < 5 then do {
         (x, s) \<leftarrow> NVReadVgaCrtc b 0 0x4b s;
         Some (v\<lparr>is_mobile := x AND 0x40 \<noteq> 0\<rparr>, s) } else Some (v, s));
     (v, s) \<leftarrow> (if is_mobile v \<or> major_version (vb v) \<ge> 5
       then do { ((_, v), s) \<leftarrow> parse_fp_mode_table b v s; Some (v, s) } else Some (v, s));
     Some (upd_vb (\<lambda>x. x\<lparr>execute := True\<rparr>) v, s) }"

definition nouveau_bios_init :: "nat \<Rightarrow> board \<Rightarrow> ist \<Rightarrow> (unit res \<times> vbios \<times> ist) option" where
  "nouveau_bios_init fuel b s = do {
     (ok, v, s) \<leftarrow> NVInitVBIOS b s;
     if \<not> ok then Some (Inl ENODEV, v, s)
     else do {
       (ret, v) \<leftarrow> nouveau_parse_vbios_struct v;
       case ret of
         Inl e \<Rightarrow> Some (Inl e, v, s)
       | Inr _ \<Rightarrow> do {
           ((ret, v), s) \<leftarrow> parse_dcb_table b v s;
           case ret of
             Inl e \<Rightarrow> Some (Inl e, v, s)
           | Inr _ \<Rightarrow> do {
               v \<leftarrow> fixup_legacy_connector (fixup_legacy_i2c v);
               if major_version (vb v) = 0 then Some (Inr (), v, s)
               else do {
                 (v, s) \<leftarrow> bios_start fuel b v s;
                 Some (Inr (), v, s) } } } } }"

definition nouveau_i2c_fini :: "drv \<Rightarrow> dcb_i2c_entry \<Rightarrow> ist \<Rightarrow> (dcb_i2c_entry \<times> ist) option" where
  "nouveau_i2c_fini d e s = (case chan e of
     None \<Rightarrow> Some (e, s)
   | Some c \<Rightarrow> do {
       s \<leftarrow> tell d (KernelCall ''i2c_del_adapter'' [ucast (port c), ucast (rd c), ucast (wr c)]) s;
       Some (e\<lparr>chan := None\<rparr>, s) })"

definition nouveau_bios_takedown :: "board \<Rightarrow> vbios \<Rightarrow> ist \<Rightarrow> (vbios \<times> ist) option" where
  "nouveau_bios_takedown b v s = for_each (\<lambda>i (v, s). do {
     e \<leftarrow> idx (i2c_ports v) i;
     (e, s) \<leftarrow> nouveau_i2c_fini (drv.truncate b) e s;
     Some (v\<lparr>i2c_ports := (i2c_ports v)[i := e]\<rparr>, s) }) [0..<16] (v, s)"

end
