(* ===== verification/LvdsDepth.thy ===== *)
theory LvdsDepth
  imports VbiosStart
begin

section \<open>Scripts of LVDS panels do not call each other for ever\<close>

text \<open>Running a script keeps the record of the panel.\<close>

lemma run_script_fp: "run_script fuel b out ofs v s = Some (v', s') \<Longrightarrow> fp v' = fp v"
  by (auto simp: run_script_def split: bind_splits)

lemma run_digital_fp: "run_digital_op_script fuel b script e head dl v s = Some (v', s') \<Longrightarrow> fp v' = fp v"
  by (auto simp: run_digital_op_script_def Let_def dest!: run_script_fp split: bind_splits)

lemma manufacturer_fp: "call_lvds_manufacturer_script fuel b e head script v s = Some (r, v', s') \<Longrightarrow> fp v' = fp v"
  by (auto simp: call_lvds_manufacturer_script_def Let_def dest!: run_digital_fp split: bind_splits if_splits)

lemma lvds_table_fp: "run_lvds_table fuel b e head script pxclk v s = Some (r, v', s') \<Longrightarrow> fp v' = fp v"
  by (auto simp: run_lvds_table_def Let_def dest!: run_digital_fp split: bind_splits if_splits lvds_script.splits)

lemma lvds_own_keeps: "lvds_own fuel b e head ver script pxclk v s = Some (r, v', s') \<Longrightarrow> lvds_init_run (fp v') = lvds_init_run (fp v)"
  by (auto simp: lvds_own_def Let_def bind_eq_Some_conv dest!: manufacturer_fp lvds_table_fp split: if_splits)

definition keeps_run :: "(lvds_script \<Rightarrow> vbios \<Rightarrow> ist \<Rightarrow> (unit res \<times> vbios \<times> ist) option) \<Rightarrow> bool" where
  "keeps_run call \<longleftrightarrow> (\<forall>script v s r v' s'. call script v s = Some (r, v', s') \<longrightarrow> lvds_init_run (fp v) \<longrightarrow> lvds_init_run (fp v'))"

lemma keeps_runD: "\<lbrakk>keeps_run call; call script v s = Some (r, v', s'); lvds_init_run (fp v)\<rbrakk> \<Longrightarrow> lvds_init_run (fp v')"
  unfolding keeps_run_def by blast

lemma first_runs:
  assumes "(if lvds_init_run (fp v) then Some (v, s)
      else do { (_, v, s) \<leftarrow> call LVDS_INIT (upd_fp (\<lambda>f. f\<lparr>lvds_init_run := True\<rparr>) v) s; Some (v, s) }) = Some (w, t)"
    and "keeps_run call"
  shows "lvds_init_run (fp w)"
  using assms(1) by (auto simp: bind_eq_Some_conv split: if_splits dest!: keeps_runD [OF assms(2)])

lemma other_runs:
  assumes "(if c then do { (_, v, s) \<leftarrow> call script v s; Some (v, s) } else Some (v, s)) = Some (w, t)"
    and "lvds_init_run (fp v)" and "keeps_run call"
  shows "lvds_init_run (fp w)"
  using assms(1,2) by (auto simp: bind_eq_Some_conv split: if_splits dest!: keeps_runD [OF assms(3)])

lemma lvds_before_runs:
  assumes "lvds_before call script v s = Some (w, t)" and "keeps_run call"
  shows "lvds_init_run (fp w)"
proof -
  from assms(1) obtain v1 s1 v2 s2 where
    "(if lvds_init_run (fp v) then Some (v, s)
      else do { (_, v, s) \<leftarrow> call LVDS_INIT (upd_fp (\<lambda>f. f\<lparr>lvds_init_run := True\<rparr>) v) s; Some (v, s) }) = Some (v1, s1)"
    "(if script = LVDS_PANEL_ON \<and> reset_after_pclk_change (fp v1)
       then do { (_, v, s) \<leftarrow> call LVDS_RESET v1 s1; Some (v, s) } else Some (v1, s1)) = Some (v2, s2)"
    "(if script = LVDS_RESET \<and> power_off_for_reset (fp v2)
       then do { (_, v, s) \<leftarrow> call LVDS_PANEL_OFF v2 s2; Some (v, s) } else Some (v2, s2)) = Some (w, t)"
    unfolding lvds_before_def by (auto simp: bind_eq_Some_conv)
  then show ?thesis using other_runs [OF _ _ assms(2)] first_runs [OF _ assms(2)] by blast
qed

text \<open>Without calls beyond the depth, the flag stays set once it is.\<close>

abbreviation nothing_beyond :: "lvds_script \<Rightarrow> vbios \<Rightarrow> ist \<Rightarrow> (unit res \<times> vbios \<times> ist) option" where
  "nothing_beyond \<equiv> \<lambda>_ _ _. None"

lemma lvds_call_keeps: "keeps_run (lvds_call depth nothing_beyond fuel b e head pxclk)"
proof (induction depth)
  case (Suc depth)
  note before = lvds_before_runs [OF _ Suc.IH]
  show ?case
    unfolding keeps_run_def
    by (auto simp: bind_eq_Some_conv lvds_own_keeps dest!: before split: if_splits)
qed (simp add: keeps_run_def)

lemma lvds_call_cong:
  "lvds_before (lvds_call n f fuel b e head pxclk) script v s = lvds_before (lvds_call m g fuel b e head pxclk) script v s \<Longrightarrow>
    lvds_call (Suc n) f fuel b e head pxclk script v s = lvds_call (Suc m) g fuel b e head pxclk script v s"
  by (simp only: lvds_call.simps)

text \<open>Most scripts depend on no other, once the first script has run.\<close>

lemma lvds_quick:
  "\<lbrakk>lvds_init_run (fp v); script \<noteq> LVDS_PANEL_ON; script \<noteq> LVDS_RESET\<rbrakk> \<Longrightarrow>
    lvds_call (Suc n) f fuel b e head pxclk script v s = lvds_call (Suc m) g fuel b e head pxclk script v s"
  by (rule lvds_call_cong) (simp add: lvds_before_def)

lemma lvds_reset:
  assumes "lvds_init_run (fp v)"
  shows "lvds_call (Suc (Suc n)) f fuel b e head pxclk LVDS_RESET v s = lvds_call (Suc (Suc m)) g fuel b e head pxclk LVDS_RESET v s"
  using lvds_quick [OF assms, of LVDS_PANEL_OFF n f fuel b e head pxclk s m g]
  by (intro lvds_call_cong) (simp add: lvds_before_def assms del: lvds_call.simps)

lemma lvds_any:
  fixes g
  defines "g \<equiv> nothing_beyond"
  shows "lvds_call (Suc (Suc (Suc n))) f fuel b e head pxclk script v s = lvds_call (Suc (Suc (Suc m))) g fuel b e head pxclk script v s"
proof (rule lvds_call_cong, unfold lvds_before_def, rule Option.bind_cong)
  let ?v = "upd_fp (\<lambda>f. f\<lparr>lvds_init_run := True\<rparr>) v"
  show "(if lvds_init_run (fp v) then Some (v, s)
      else do { (_, v, s) \<leftarrow> lvds_call (Suc (Suc n)) f fuel b e head pxclk LVDS_INIT ?v s; Some (v, s) }) =
    (if lvds_init_run (fp v) then Some (v, s)
      else do { (_, v, s) \<leftarrow> lvds_call (Suc (Suc m)) g fuel b e head pxclk LVDS_INIT ?v s; Some (v, s) })"
    using lvds_quick [of ?v LVDS_INIT "Suc n" f fuel b e head pxclk s "Suc m" g]
    by (simp del: lvds_call.simps)
next
  fix p
  assume first: "(if lvds_init_run (fp v) then Some (v, s)
      else do { (_, v, s) \<leftarrow> lvds_call (Suc (Suc m)) g fuel b e head pxclk LVDS_INIT (upd_fp (\<lambda>f. f\<lparr>lvds_init_run := True\<rparr>) v) s; Some (v, s) }) = Some p"
  obtain w t where p: "p = (w, t)" by fastforce
  have run: "lvds_init_run (fp w)" using first_runs [OF _ lvds_call_keeps] first unfolding p g_def by blast
  show "(case p of (v, s) \<Rightarrow> do {
      (v, s) \<leftarrow> (if script = LVDS_PANEL_ON \<and> reset_after_pclk_change (fp v)
        then do { (_, v, s) \<leftarrow> lvds_call (Suc (Suc n)) f fuel b e head pxclk LVDS_RESET v s; Some (v, s) } else Some (v, s));
      if script = LVDS_RESET \<and> power_off_for_reset (fp v)
      then do { (_, v, s) \<leftarrow> lvds_call (Suc (Suc n)) f fuel b e head pxclk LVDS_PANEL_OFF v s; Some (v, s) } else Some (v, s) }) =
    (case p of (v, s) \<Rightarrow> do {
      (v, s) \<leftarrow> (if script = LVDS_PANEL_ON \<and> reset_after_pclk_change (fp v)
        then do { (_, v, s) \<leftarrow> lvds_call (Suc (Suc m)) g fuel b e head pxclk LVDS_RESET v s; Some (v, s) } else Some (v, s));
      if script = LVDS_RESET \<and> power_off_for_reset (fp v)
      then do { (_, v, s) \<leftarrow> lvds_call (Suc (Suc m)) g fuel b e head pxclk LVDS_PANEL_OFF v s; Some (v, s) } else Some (v, s) })"
    using lvds_reset [OF run, of n f fuel b e head pxclk t m g] lvds_quick [OF run, of LVDS_PANEL_OFF "Suc n" f fuel b e head pxclk t "Suc m" g]
    by (simp add: p del: lvds_call.simps)
qed

text \<open>
  C38: The scripts of an LVDS panel, which call themselves for the first script and for those that have
  to come before, never nest deeper than three calls: whatever a fourth call within the third would do
  (\<open>beyond\<close>: end, crash, never return or change the state in any way), the result is the same, for every
  script, image, panel and answer of the card. So no recursion is cut short in the model, and that
  of the code ends.
\<close>

theorem lvds_depth_enough:
  "lvds_call (3 + n) beyond fuel b e head pxclk script v s = call_lvds_script fuel b e head script pxclk v s"
  unfolding call_lvds_script_def using lvds_any [of n beyond fuel b e head pxclk script v s 0]
  by (simp add: numeral_eq_Suc del: lvds_call.simps)

end
