(* ===== verification/PllGet.thy ===== *)
theory PllGet
  imports PllSet VbiosRec
begin

section \<open>Reading a PLL\<close>

text \<open>
  The second half of \<open>nouveau_hw.c\<close>: which coefficients a PLL runs with, the clock they give, and the repair
  of a video PLL that came up with impossible ones. \<open>pv\<close> is what the variable held before:
  \<open>nouveau_hw_get_pllvals\<close> leaves it alone when it does not know the PLL.
\<close>

definition lo8 :: "u32 \<Rightarrow> u8" where "lo8 x = ucast (x AND 0xff)"
definition hi8 :: "u32 \<Rightarrow> u8" where "hi8 x = ucast (drop_bit 8 x AND 0xff)"

definition nouveau_hw_decode_pll :: "board \<Rightarrow> u32 \<Rightarrow> u32 \<Rightarrow> u32 \<Rightarrow> pll_vals \<Rightarrow> pll_vals" where
  "nouveau_hw_decode_pll b reg1 pll1 pll2 pv = (
     let pv = pv\<lparr>log2P := uint (drop_bit 16 pll1 AND 7), N2 := 1, M2 := 1\<rparr> in
     if reg1 \<le> 0x405c then
       let pv = pv\<lparr>M1 := lo8 pll2, N1 := hi8 pll2\<rparr> in
       if pll1 AND 0x1100 = 0 then pv\<lparr>M2 := lo8 (drop_bit 16 pll2), N2 := hi8 (drop_bit 16 pll2)\<rparr> else pv
     else
       let pv = pv\<lparr>M1 := lo8 pll1, N1 := hi8 pll1\<rparr> in
       if nv_two_reg_pll b \<and> pll2 AND 0x80000000 \<noteq> 0 then pv\<lparr>M2 := lo8 pll2, N2 := hi8 pll2\<rparr>
       else if chipset b = 0x30 \<or> chipset b = 0x35 then
         let pv = pv\<lparr>M1 := M1 pv AND 0xf\<rparr> in
         if pll1 AND 0x80 \<noteq> 0 then
           pv\<lparr>M2 := ucast (drop_bit 4 pll1 AND 7), N2 := ucast ((drop_bit 21 pll1 AND 0x18) OR (drop_bit 19 pll1 AND 7))\<rparr>
         else pv
       else pv)"

text \<open>A register in place of a type is in no table of types.\<close>

definition pll_register :: "board \<Rightarrow> u32 \<Rightarrow> u32 option" where
  "pll_register b t = (if t \<le> 0xff then get_pll_register (drv.truncate b) (ucast t) else Some 0)"

text \<open>The second register, and whether the PLL was forced to one stage.\<close>

definition second_pll :: "board \<Rightarrow> u32 \<Rightarrow> ist \<Rightarrow> (u32 \<times> ist) option" where
  "second_pll b reg1 s = do {
     (pll2, s) \<leftarrow> (if reg1 \<le> 0x405c then nv_rd32 b (reg1 + 4) s
                   else if nv_two_reg_pll b then nv_rd32 b (reg1 + (if reg1 = VPLL2 then 0x5c else 0x70)) s
                   else Some (0, s));
     if card_type b = 0x40 \<and> reg1 \<ge> VPLL then do {
       (x, s) \<leftarrow> NVReadRAMDAC b 0 0x680580 s;
       Some (if x AND (if reg1 = VPLL then 0x100 else 0x10000000) \<noteq> 0 then 0 else pll2, s) }
     else Some (pll2, s) }"

text \<open>The reference clock, or the error, and the coefficients.\<close>

definition nouveau_hw_get_pllvals :: "board \<Rightarrow> u32 \<Rightarrow> pll_vals \<Rightarrow> ist \<Rightarrow> ((int res \<times> pll_vals) \<times> ist) option" where
  "nouveau_hw_get_pllvals b plltype pv s = do {
     reg1 \<leftarrow> pll_register b plltype;
     if reg1 = 0 then Some ((Inl ENOENT, pv), s)
     else do {
       (pll1, s) \<leftarrow> nv_rd32 b reg1 s;
       (pll2, s) \<leftarrow> second_pll b reg1 s;
       let pv = nouveau_hw_decode_pll b reg1 pll1 pll2 pv;
       (lim, s) \<leftarrow> get_pll_limits (drv.truncate b) plltype s;
       Some ((case lim of Inl e \<Rightarrow> Inl e | Inr lim \<Rightarrow> Inr (refclk lim), pv), s) } }"

definition nouveau_hw_pllvals_to_clk :: "pll_vals \<Rightarrow> int \<Rightarrow> int option" where
  "nouveau_hw_pllvals_to_clk pv xtal =
     (if M1 pv = 0 \<or> M2 pv = 0 then Some 0
      else do {
        x \<leftarrow> i32 (uint (N1 pv) * uint (N2 pv) * xtal);
        x \<leftarrow> cdiv x (uint (M1 pv) * uint (M2 pv));
        if 0 \<le> log2P pv \<and> log2P pv < 32 then Some (x div 2 ^ nat (log2P pv)) else None })"

definition PLL_MEMORY :: u32 where "PLL_MEMORY = 0x04"

definition nouveau_hw_get_clock :: "board \<Rightarrow> u32 \<Rightarrow> ist \<Rightarrow> (int res \<times> ist) option" where
  "nouveau_hw_get_clock b plltype s =
     (if plltype = PLL_MEMORY \<and> pci_dev b AND 0x0ff0 = 0x01a0 then do {
        ((_, p), s) \<leftarrow> request b (KernelCall ''pci_read_config_dword'' [0, 3, 0x6c]) s;
        x \<leftarrow> cdiv 400000 (if p = 0 then 4 else uint p);
        Some (Inr x, s) }
      else if plltype = PLL_MEMORY \<and> pci_dev b AND 0x0ff0 = 0x01f0 then do {
        ((_, x), s) \<leftarrow> request b (KernelCall ''pci_read_config_dword'' [0, 5, 0x4c]) s;
        Some (Inr (sint x), s) }
      else do {
        ((ret, pv), s) \<leftarrow> nouveau_hw_get_pllvals b plltype (stack_pv b) s;
        case ret of
          Inl e \<Rightarrow> Some (Inl e, s)
        | Inr xtal \<Rightarrow> do { x \<leftarrow> nouveau_hw_pllvals_to_clk pv xtal; Some (Inr x, s) } })"

text \<open>The error of \<open>nouveau_hw_get_pllvals\<close>, which is asked for a register as if it were a type, is not looked at.\<close>

definition nouveau_hw_fix_bad_vpll :: "board \<Rightarrow> int \<Rightarrow> ist \<Rightarrow> ist option" where
  "nouveau_hw_fix_bad_vpll b head s = (let r = (if head \<noteq> 0 then VPLL2 else VPLL) in do {
     (lim, s) \<leftarrow> get_pll_limits (drv.truncate b) r s;
     case lim of
       Inl e \<Rightarrow> Some s
     | Inr lim \<Rightarrow> do {
         ((_, pv), s) \<leftarrow> nouveau_hw_get_pllvals b r (stack_pv b) s;
         if M1 pv \<ge> min_m (vco1 lim) \<and> M1 pv \<le> max_m (vco1 lim) \<and> N1 pv \<ge> min_n (vco1 lim) \<and>
            N1 pv \<le> max_n (vco1 lim) \<and> log2P pv \<le> uint (max_log2p lim)
         then Some s
         else nouveau_hw_setpll (drv.truncate b) r
           (pv\<lparr>M1 := max_m (vco1 lim), N1 := min_n (vco1 lim), log2P := uint (max_usable_log2p lim)\<rparr>) s } })"

subsection \<open>Arbitration of the video FIFO\<close>

text \<open>
  \<open>nouveau_calc_arb\<close> of \<open>nouveau_calc.c\<close>: at which fill level the FIFO asks for words and how many at a time.
  All arithmetic is on \<open>int\<close>; an overflow or a division by 0 is a crash.
\<close>

record nv_fifo_info =
  lwm :: int
  burst :: int

record nv_sim_state =
  pclk_khz :: int
  mclk_khz :: int
  nvclk_khz :: int
  bpp :: int
  mem_page_miss :: int
  mem_latency :: int
  memory_type :: int
  memory_width :: int
  two_heads :: bool

definition per_us :: "int \<Rightarrow> int \<Rightarrow> int option" where
  "per_us clocks freq = do { x \<leftarrow> i32 (clocks * 1000 * 1000); cdiv x freq }"

text \<open>One turn of the loop of \<open>nv04_calc_arb\<close>: whether to turn again, if there is spare time to give up, and the water mark.\<close>

definition nv04_turn :: "nv_sim_state \<Rightarrow> int \<Rightarrow> (bool \<times> int) option" where
  "nv04_turn arb extra = do {
     us_m \<leftarrow> per_us (13 + mem_latency arb + extra) (mclk_khz arb);
     us_n \<leftarrow> per_us 10 (nvclk_khz arb);
     us_p \<leftarrow> per_us 10 (pclk_khz arb);
     drain \<leftarrow> i32 (pclk_khz arb * bpp arb);
     drain \<leftarrow> cdiv drain 8;
     cpm_us \<leftarrow> per_us (3 * mem_page_miss arb) (mclk_khz arb);
     us_crt \<leftarrow> i32 (cpm_us + us_m + us_n + us_p);
     x \<leftarrow> i32 (us_crt * drain);
     x \<leftarrow> cdiv x 1000000;
     clwm \<leftarrow> i32 (x + 1);
     m1 \<leftarrow> i32 (clwm + 128 - 512);
     p1 \<leftarrow> i32 (m1 * pclk_khz arb);
     p1 \<leftarrow> cdiv p1 (mclk_khz arb);
     p1 \<leftarrow> i32 (p1 * bpp arb);
     p1 \<leftarrow> cdiv p1 8;
     Some (p1 < m1 \<and> m1 > 0 \<or> clwm > 519, if clwm < 384 then 384 else clwm) }"

primrec nv04_loop :: "nv_sim_state \<Rightarrow> nat \<Rightarrow> nv_fifo_info option" where
  "nv04_loop arb 0 = do { (_, clwm) \<leftarrow> nv04_turn arb 0; Some \<lparr>lwm = clwm, burst = 128\<rparr> }"
| "nv04_loop arb (Suc extra) = do {
     (again, clwm) \<leftarrow> nv04_turn arb (int (Suc extra));
     if again then nv04_loop arb extra else Some \<lparr>lwm = clwm, burst = 128\<rparr> }"

definition nv04_calc_arb :: "nv_sim_state \<Rightarrow> nv_fifo_info option" where
  "nv04_calc_arb arb = nv04_loop arb 3"

fun fls :: "nat \<Rightarrow> nat" where
  "fls n = (if n = 0 then 0 else fls (n div 2) + 1)"

declare fls.simps [simp del]

text \<open>A negative number is a huge one as \<open>unsigned long\<close>; the power below it is cut off to 0.\<close>

definition rounddown_pow_of_two :: "int \<Rightarrow> int option" where
  "rounddown_pow_of_two n = (if n = 0 then None else if n < 0 then Some 0 else Some (2 ^ (fls (nat n) - 1)))"

definition ilog2 :: "int \<Rightarrow> int" where
  "ilog2 n = (if n < 0 then 31 else int (fls (nat n)) - 1)"

definition nv10_latency :: "nv_sim_state \<Rightarrow> (int \<times> int) option" where
  "nv10_latency arb = do {
     w \<leftarrow> i32 ((if memory_type arb = 0 then 2 else 1) * memory_width arb);
     w \<leftarrow> cdiv w 32;
     mclks \<leftarrow> i32 (18 + w);
     a \<leftarrow> per_us mclks (mclk_khz arb);
     n \<leftarrow> per_us 9 (nvclk_khz arb);
     p \<leftarrow> per_us 4 (pclk_khz arb);
     fill_lat \<leftarrow> i32 (a + n + p);
     xclks \<leftarrow> i32 (2 * mem_page_miss arb + mclks + 2 * mem_page_miss arb + (if bpp arb = 32 then 8 else 4));
     extra_lat \<leftarrow> per_us xclks (mclk_khz arb);
     extra_lat \<leftarrow> (if two_heads arb then i32 (extra_lat + (fill_lat + extra_lat + 80)) else Some extra_lat);
     Some (fill_lat, extra_lat) }"

definition nv10_burst :: "int \<Rightarrow> int \<Rightarrow> int \<Rightarrow> int \<Rightarrow> int option" where
  "nv10_burst fifo_len extra_lat drain fill = do {
     x \<leftarrow> i32 (extra_lat * drain);
     x \<leftarrow> cdiv x 1000000;
     y \<leftarrow> cdiv fill 1000;
     x \<leftarrow> i32 ((1 + fifo_len - x) * y);
     z \<leftarrow> i32 (fill - drain);
     z \<leftarrow> cdiv z 1000;
     max_burst_o \<leftarrow> cdiv x z;
     l \<leftarrow> i32 (80 * fill);
     max_burst_l \<leftarrow> cdiv l 1000000;
     rounddown_pow_of_two (min max_burst_l (min max_burst_o 1024)) }"

definition nv10_calc_arb :: "nv_sim_state \<Rightarrow> nv_fifo_info option" where
  "nv10_calc_arb arb = do {
     fill \<leftarrow> i32 (mclk_khz arb * memory_width arb);
     fill \<leftarrow> cdiv fill 8;
     drain \<leftarrow> i32 (pclk_khz arb * bpp arb);
     drain \<leftarrow> cdiv drain 8;
     let fifo_len = (if two_heads arb then 1536 else 1024);
     (fill_lat, extra_lat) \<leftarrow> nv10_latency arb;
     burst \<leftarrow> nv10_burst fifo_len extra_lat drain fill;
     x \<leftarrow> i32 ((fill_lat + extra_lat) * drain);
     x \<leftarrow> cdiv x 1000000;
     min_lwm \<leftarrow> i32 (x + 1);
     x \<leftarrow> i32 (fill_lat * drain);
     x \<leftarrow> cdiv x 1000000;
     y \<leftarrow> i32 (burst * drain);
     y \<leftarrow> cdiv y fill;
     max_lwm \<leftarrow> i32 (fifo_len - burst + x + y);
     z \<leftarrow> i32 (10 * (max_lwm - min_lwm));
     z \<leftarrow> cdiv z 100;
     r \<leftarrow> i32 (min_lwm + z);
     Some \<lparr>lwm = r, burst = burst\<rparr> }"

text \<open>The numbers of \<open>errno.h\<close>. A clock that cannot be read is its negative error number.\<close>

fun errno_int :: "errno \<Rightarrow> int" where
  "errno_int ENOMEM = 12" | "errno_int EINVAL = 22" | "errno_int ENOSPC = 28" | "errno_int ENOSYS = 38"
| "errno_int ENOENT = 2" | "errno_int EBADF = 9" | "errno_int EBUSY = 16" | "errno_int EIO = 5"
| "errno_int ENODEV = 19" | "errno_int ERANGE = 34" | "errno_int EEXIST = 17" | "errno_int EREMOTEIO = 121"
| "errno_int (Errno n) = n"

definition clock_value :: "int res \<Rightarrow> int" where
  "clock_value r = (case r of Inr x \<Rightarrow> x | Inl e \<Rightarrow> - errno_int e)"

definition nv04_update_arb :: "board \<Rightarrow> int \<Rightarrow> int \<Rightarrow> ist \<Rightarrow> ((int \<times> int) \<times> ist) option" where
  "nv04_update_arb b VClk bits s = do {
     (MClk, s) \<leftarrow> nouveau_hw_get_clock b PLL_MEMORY s;
     (NVClk, s) \<leftarrow> nouveau_hw_get_clock b 0x01 s;
     (cfg1, s) \<leftarrow> nv_rd32 b 0x100204 s;
     let sim = \<lparr>pclk_khz = VClk, mclk_khz = clock_value MClk, nvclk_khz = clock_value NVClk, bpp = bits,
       mem_page_miss = 10, mem_latency = 3, memory_type = 0, memory_width = 64, two_heads = nv_two_heads b\<rparr>;
     (sim, s) \<leftarrow> (if pci_dev b = 0x01a0 \<or> pci_dev b = 0x01f0 then do {
         ((_, t), s) \<leftarrow> request b (KernelCall ''pci_read_config_dword'' [0, 1, 0x7c]) s;
         Some (sim\<lparr>memory_type := uint (drop_bit 12 t AND 1)\<rparr>, s) }
       else do {
         (cfg0, s) \<leftarrow> nv_rd32 b 0x100200 s;
         (boot0, s) \<leftarrow> nv_rd32 b 0x101000 s;
         Some (sim\<lparr>memory_type := uint (cfg0 AND 1), memory_width := (if boot0 AND 0x10 \<noteq> 0 then 128 else 64),
           mem_latency := uint (cfg1 AND 0xf),
           mem_page_miss := uint (drop_bit 4 cfg1 AND 0xf) + uint (drop_bit 31 cfg1 AND 1)\<rparr>, s) });
     fifo \<leftarrow> (if card_type b = 4 then nv04_calc_arb sim else nv10_calc_arb sim);
     Some ((ilog2 (burst fifo div 16), lwm fifo div 8), s) }"

definition nv20_update_arb :: "int \<times> int" where
  "nv20_update_arb = (let fifo_size = 2048; burst_size = 512 in (ilog2 (burst_size div 32), (fifo_size - burst_size) div 8))"

text \<open>The burst and the low water mark.\<close>

definition nouveau_calc_arb :: "board \<Rightarrow> int \<Rightarrow> int \<Rightarrow> ist \<Rightarrow> ((int \<times> int) \<times> ist) option" where
  "nouveau_calc_arb b vclk bits s =
     (if card_type b < NV_20 then nv04_update_arb b vclk bits s
      else if pci_dev b AND 0xfff0 = 0x0240 \<or> pci_dev b AND 0xfff0 = 0x03d0 then Some ((128, 0x0480), s)
      else Some (nv20_update_arb, s))"

end
