(* ===== verification/GpioLines.thy ===== *)
theory GpioLines
  imports VbiosStart PllGet
begin

section \<open>GPIO lines and the wires of an I2C bus\<close>

text \<open>
  \<open>nv10_gpio.c\<close>, the rest of \<open>nv50_gpio.c\<close>, and the functions of \<open>nouveau_i2c.c\<close> by which the bit-banging
  algorithm of the kernel moves the two wires of a bus. A bus of type 5 remembers the level it gave its
  data wire: \<open>data\<close> in C, here a parameter and a result.
\<close>

subsection \<open>Cards before the NV50\<close>

definition NVReadCRTC :: "'d device_scheme \<Rightarrow> int \<Rightarrow> u32 \<Rightarrow> 's hw_scheme \<Rightarrow> (u32 \<times> 's hw_scheme) option" where
  "NVReadCRTC d head r s = nv_rd32 d (if head \<noteq> 0 then r + 0x2000 else r) s"

definition NVWriteCRTC :: "'d device_scheme \<Rightarrow> int \<Rightarrow> u32 \<Rightarrow> u32 \<Rightarrow> 's hw_scheme \<Rightarrow> 's hw_scheme option" where
  "NVWriteCRTC d head r x s = nv_wr32 d (if head \<noteq> 0 then r + 0x2000 else r) x s"

definition gpio_line_of :: "vbios \<Rightarrow> int \<Rightarrow> gpio_line option" where
  "gpio_line_of v t = List.find (\<lambda>g. tag g = t) (take (n_gpios v) (gpio_lines v))"

text \<open>The register, the shift and the mask of a line.\<close>

definition get_gpio_location :: "gpio_line \<Rightarrow> (u32 \<times> nat \<times> u32) option" where
  "get_gpio_location g = (let n = line g in
     if n < 2 then Some (0x600818, n * 16, 0x11)
     else if n < 10 then Some (0x60081c, (n - 2) * 4, 0x3)
     else if n < 14 then Some (0x600850, (n - 10) * 4, 0x3)
     else None)"

definition nv10_gpio_get :: "board \<Rightarrow> vbios \<Rightarrow> int \<Rightarrow> ist \<Rightarrow> (bool res \<times> ist) option" where
  "nv10_gpio_get b v t s = (case Option.bind (gpio_line_of v t) (\<lambda>g. map_option (Pair g) (get_gpio_location g)) of
     None \<Rightarrow> Some (Inl ENODEV, s)
   | Some (g, r, sh, m) \<Rightarrow> do {
       (x, s) \<leftarrow> NVReadCRTC b 0 r s;
       Some (Inr (invert g \<noteq> bit x sh), s) })"

definition nv10_gpio_set :: "board \<Rightarrow> vbios \<Rightarrow> int \<Rightarrow> bool \<Rightarrow> ist \<Rightarrow> (unit res \<times> ist) option" where
  "nv10_gpio_set b v t state s = (case Option.bind (gpio_line_of v t) (\<lambda>g. map_option (Pair g) (get_gpio_location g)) of
     None \<Rightarrow> Some (Inl ENODEV, s)
   | Some (g, r, sh, m) \<Rightarrow> do {
       (x, s) \<leftarrow> NVReadCRTC b 0 r s;
       s \<leftarrow> NVWriteCRTC b 0 r (push_bit sh (of_bool (invert g \<noteq> state)) OR (x AND NOT (push_bit sh m))) s;
       Some (Inr (), s) })"

subsection \<open>Interrupts of the lines of the NV50\<close>

definition nv50_gpio_irq_enable :: "board \<Rightarrow> vbios \<Rightarrow> int \<Rightarrow> bool \<Rightarrow> ist \<Rightarrow> ist option" where
  "nv50_gpio_irq_enable b v t on s = (case gpio_line_of v t of
     None \<Rightarrow> Some s
   | Some g \<Rightarrow> (let r = (if line g < 16 then 0xe050 else 0xe070); m = push_bit (line g mod 16) 0x00010001 in do {
       s \<leftarrow> nv_wr32 b (r + 4) m s;
       (_, s) \<leftarrow> nv_mask b r m (if on then m else 0) s;
       Some s }))"

definition nv50_gpio_init :: "board \<Rightarrow> ist \<Rightarrow> (unit res \<times> ist) option" where
  "nv50_gpio_init b s = do {
     s \<leftarrow> nv_wr32 b 0xe050 0 s;
     s \<leftarrow> nv_wr32 b 0xe054 0xffffffff s;
     s \<leftarrow> (if chipset b \<ge> 0x90 then do {
         s \<leftarrow> nv_wr32 b 0xe070 0 s;
         nv_wr32 b 0xe074 0xffffffff s } else Some s);
     Some (Inr (), s) }"

text \<open>The functions \<open>nouveau_init_engine_ptrs\<close> gives a card. There are none before the NV10.\<close>

definition before_nv50 :: "board \<Rightarrow> bool" where
  "before_nv50 b \<longleftrightarrow> chipset b < 0x50 \<or> (0x60 \<le> chipset b \<and> chipset b < 0x70)"

definition gpio_get :: "board \<Rightarrow> vbios \<Rightarrow> int \<Rightarrow> ist \<Rightarrow> (bool res \<times> ist) option" where
  "gpio_get b v t s =
     (if chipset b < 0x10 then None
      else if before_nv50 b then nv10_gpio_get b v t s
      else nv50_gpio_get (drv_of b v None) t s)"

definition gpio_set :: "board \<Rightarrow> vbios \<Rightarrow> int \<Rightarrow> bool \<Rightarrow> ist \<Rightarrow> (unit res \<times> ist) option" where
  "gpio_set b v t state s =
     (if chipset b < 0x10 then None
      else if before_nv50 b then nv10_gpio_set b v t state s
      else nv50_gpio_set (drv_of b v None) t (of_bool state) s)"

subsection \<open>The wires of a bus\<close>

definition nv04_i2c_setscl :: "board \<Rightarrow> i2c_chan \<Rightarrow> bool \<Rightarrow> ist \<Rightarrow> ist option" where
  "nv04_i2c_setscl b c state s = do {
     (x, s) \<leftarrow> NVReadVgaCrtc b 0 (ucast (wr c)) s;
     NVWriteVgaCrtc b 0 (ucast (wr c)) ((x AND 0xd0) OR (if state then 0x20 else 0) OR 1) s }"

definition nv04_i2c_setsda :: "board \<Rightarrow> i2c_chan \<Rightarrow> bool \<Rightarrow> ist \<Rightarrow> ist option" where
  "nv04_i2c_setsda b c state s = do {
     (x, s) \<leftarrow> NVReadVgaCrtc b 0 (ucast (wr c)) s;
     NVWriteVgaCrtc b 0 (ucast (wr c)) ((x AND 0xe0) OR (if state then 0x10 else 0) OR 1) s }"

definition nv04_i2c_getscl :: "board \<Rightarrow> i2c_chan \<Rightarrow> ist \<Rightarrow> (bool \<times> ist) option" where
  "nv04_i2c_getscl b c s = do { (x, s) \<leftarrow> NVReadVgaCrtc b 0 (ucast (rd c)) s; Some (x AND 4 \<noteq> 0, s) }"

definition nv04_i2c_getsda :: "board \<Rightarrow> i2c_chan \<Rightarrow> ist \<Rightarrow> (bool \<times> ist) option" where
  "nv04_i2c_getsda b c s = do { (x, s) \<leftarrow> NVReadVgaCrtc b 0 (ucast (rd c)) s; Some (x AND 8 \<noteq> 0, s) }"

definition nv4e_i2c_setscl :: "board \<Rightarrow> i2c_chan \<Rightarrow> bool \<Rightarrow> ist \<Rightarrow> ist option" where
  "nv4e_i2c_setscl b c state s = do {
     (x, s) \<leftarrow> nv_rd32 b (wr c) s;
     nv_wr32 b (wr c) ((x AND 0xd0) OR (if state then 0x20 else 0) OR 1) s }"

definition nv4e_i2c_setsda :: "board \<Rightarrow> i2c_chan \<Rightarrow> bool \<Rightarrow> ist \<Rightarrow> ist option" where
  "nv4e_i2c_setsda b c state s = do {
     (x, s) \<leftarrow> nv_rd32 b (wr c) s;
     nv_wr32 b (wr c) ((x AND 0xe0) OR (if state then 0x10 else 0) OR 1) s }"

definition nv4e_i2c_getscl :: "board \<Rightarrow> i2c_chan \<Rightarrow> ist \<Rightarrow> (bool \<times> ist) option" where
  "nv4e_i2c_getscl b c s = do { (x, s) \<leftarrow> nv_rd32 b (rd c) s; Some (drop_bit 16 x AND 4 \<noteq> 0, s) }"

definition nv4e_i2c_getsda :: "board \<Rightarrow> i2c_chan \<Rightarrow> ist \<Rightarrow> (bool \<times> ist) option" where
  "nv4e_i2c_getsda b c s = do { (x, s) \<leftarrow> nv_rd32 b (rd c) s; Some (drop_bit 16 x AND 8 \<noteq> 0, s) }"

definition nv50_i2c_getscl :: "board \<Rightarrow> i2c_chan \<Rightarrow> ist \<Rightarrow> (bool \<times> ist) option" where
  "nv50_i2c_getscl b c s = do { (x, s) \<leftarrow> nv_rd32 b (rd c) s; Some (x AND 1 \<noteq> 0, s) }"

definition nv50_i2c_getsda :: "board \<Rightarrow> i2c_chan \<Rightarrow> ist \<Rightarrow> (bool \<times> ist) option" where
  "nv50_i2c_getsda b c s = do { (x, s) \<leftarrow> nv_rd32 b (rd c) s; Some (x AND 2 \<noteq> 0, s) }"

definition nv50_i2c_setscl :: "board \<Rightarrow> i2c_chan \<Rightarrow> bool \<Rightarrow> bool \<Rightarrow> ist \<Rightarrow> ist option" where
  "nv50_i2c_setscl b c sda state s = nv_wr32 b (wr c) (4 OR (if sda then 2 else 0) OR (if state then 1 else 0)) s"

definition nv50_i2c_setsda :: "board \<Rightarrow> i2c_chan \<Rightarrow> bool \<Rightarrow> ist \<Rightarrow> (bool \<times> ist) option" where
  "nv50_i2c_setsda b c state s = do {
     (x, s) \<leftarrow> nv_rd32 b (rd c) s;
     s \<leftarrow> nv_wr32 b (wr c) ((x AND 1) OR 4 OR (if state then 2 else 0)) s;
     Some (state, s) }"

end
