(* ===== verification/Voltage.thy ===== *)
theory Voltage
  imports GpioLines
begin

section \<open>Voltages, performance levels, temperatures and memory timings in the VBIOS\<close>

text \<open>
  The tables of \<open>nouveau_volt.c\<close>, \<open>nouveau_perf.c\<close>, \<open>nouveau_temp.c\<close> and \<open>nouveau_mem.c\<close>.
  \<open>struct nouveau_pm_engine\<close> is the record \<open>pm\<close>; its eight levels are a list, and an entry past them is a
  crash. A block of \<open>kcalloc\<close> is a \<open>block\<close>: its use after \<open>kfree\<close>, and a second \<open>kfree\<close>, are crashes.
\<close>

datatype 'a block = NoBlock | Live 'a | Freed

fun kfree :: "'a block \<Rightarrow> 'a block option" where
  "kfree NoBlock = Some NoBlock"
| "kfree (Live x) = Some Freed"
| "kfree Freed = None"

fun contents :: "'a list block \<Rightarrow> 'a list option" where
  "contents NoBlock = Some []"
| "contents (Live xs) = Some xs"
| "contents Freed = None"

record pm_level =
  pl_id :: int
  pl_core :: u32
  pl_memory :: u32
  pl_shader :: u32
  pl_unk05 :: u32
  pl_voltage :: u8
  pl_fanspeed :: u8
  pl_memscript :: u16
  attr_name :: bool

record memtiming =
  reg_100220 :: u32
  reg_100224 :: u32
  reg_100228 :: u32
  reg_100230 :: u32
  reg_100234 :: u32

datatype level_ref = Boot | Level nat

record pm =
  volt_supported :: bool
  vid_mask :: u8
  volt_level :: "(u8 \<times> u8) list block"
  perflvl :: "pm_level list"
  nr_perflvl :: nat
  timings_supported :: bool
  timing :: "memtiming list block"
  offset_constant :: u16
  offset_mult :: int
  offset_div :: u16
  slope_mult :: u16
  slope_div :: u16
  critical :: int
  down_clock :: int
  fan_boost :: int
  boot :: pm_level
  cur :: "level_ref option"
  hwmon :: bool

text \<open>The pointer at an offset of the data of table \<open>P\<close>, which the versions have in different places.\<close>

definition bit_P :: u8 where "bit_P = 0x50"

definition data_ptr :: "vbios \<Rightarrow> bit_entry \<Rightarrow> nat \<Rightarrow> nat option option" where
  "data_ptr v P ofs = do { p \<leftarrow> bit_data P; atptr v (p + ofs) }"

definition ptr_by_version :: "vbios \<Rightarrow> bit_entry \<Rightarrow> nat \<Rightarrow> nat \<Rightarrow> nat option option" where
  "ptr_by_version v P ofs1 ofs2 =
     (if bit_version P = 1 then data_ptr v P ofs1
      else if bit_version P = 2 then data_ptr v P ofs2
      else Some None)"

subsection \<open>Voltages\<close>

definition vidtag :: "int list" where "vidtag = [0x04, 0x05, 0x06, 0x1a]"

definition hweight8 :: "u8 \<Rightarrow> nat" where
  "hweight8 x = length (filter (bit x) [0..<8])"

definition volt_ptr :: "vbios \<Rightarrow> nat option option" where
  "volt_ptr v =
     (if is_bit v then do {
        P \<leftarrow> bit_table v bit_P;
        case P of Inl e \<Rightarrow> Some None | Inr P \<Rightarrow> ptr_by_version v P 16 12 }
      else do {
        x \<leftarrow> at8 v (v_offset v + 6);
        if x < 0x27 then Some None else atptr v (v_offset v + 0x98) })"

text \<open>The lengths of the header and of a record, the number of records, the shift and the mask.\<close>

definition volt_header :: "vbios \<Rightarrow> nat \<Rightarrow> (u8 \<times> u8 \<times> u8 \<times> nat \<times> u8) option option" where
  "volt_header v p = do {
     ver \<leftarrow> at8 v p;
     if ver = 0x10 \<or> ver = 0x11 \<or> ver = 0x12 then do {
       r \<leftarrow> at8 v (p + 1);
       n \<leftarrow> at8 v (p + 2);
       m \<leftarrow> at8 v (p + 4);
       Some (Some (5, r, n, 0, m)) }
     else if ver = 0x20 then do {
       h \<leftarrow> at8 v (p + 1);
       r \<leftarrow> at8 v (p + 3);
       n \<leftarrow> at8 v (p + 2);
       m \<leftarrow> at8 v (p + 5);
       Some (Some (h, r, n, 0, m)) }
     else if ver = 0x30 then do {
       h \<leftarrow> at8 v (p + 1);
       r \<leftarrow> at8 v (p + 2);
       n \<leftarrow> at8 v (p + 3);
       sh \<leftarrow> at8 v (p + 5);
       m \<leftarrow> at8 v (p + 4);
       Some (Some (h, r, n, hweight8 sh, m)) }
     else Some None }"

text \<open>
  Every bit up to the highest of the mask must have a GPIO line. The check of the index lets one past
  the last tag through, a read outside the array.
\<close>

fun vid_lines :: "drv \<Rightarrow> int list \<Rightarrow> u8 \<Rightarrow> bool option" where
  "vid_lines d [] m = (if m = 0 then Some True else None)"
| "vid_lines d (t # ts) m =
     (if m = 0 then Some True
      else if nouveau_bios_gpio_entry d t = None then Some False
      else vid_lines d ts (drop_bit 1 m))"

primrec volt_records :: "vbios \<Rightarrow> nat \<Rightarrow> nat \<Rightarrow> nat \<Rightarrow> nat \<Rightarrow> (u8 \<times> u8) list option" where
  "volt_records v rlen sh 0 e = Some []"
| "volt_records v rlen sh (Suc n) e = do {
     x \<leftarrow> at8 v e;
     vid \<leftarrow> at8 v (e + 1);
     xs \<leftarrow> volt_records v rlen sh n (e + rlen);
     Some ((x, drop_bit sh vid) # xs) }"

definition nouveau_volt_init :: "board \<Rightarrow> vbios \<Rightarrow> pm \<Rightarrow> ist \<Rightarrow> (pm \<times> ist) option" where
  "nouveau_volt_init b v p s = do {
     t \<leftarrow> volt_ptr v;
     h \<leftarrow> (case t of None \<Rightarrow> Some None | Some t \<Rightarrow> map_option (map_option (Pair t)) (volt_header v t));
     case h of
       None \<Rightarrow> Some (p, s)
     | Some (t, hlen, rlen, n, sh, m) \<Rightarrow> do {
         let p = p\<lparr>vid_mask := m\<rparr>;
         ok \<leftarrow> vid_lines (drv_of b v None) vidtag m;
         if m = 0 \<or> \<not> ok then Some (p, s)
         else do {
           ((failed, _), s) \<leftarrow> request b Kzalloc s;
           if failed \<noteq> 0 then Some (p\<lparr>volt_level := NoBlock\<rparr>, s)
           else do {
             l \<leftarrow> volt_records v (unat rlen) sh (unat n) (t + unat hlen);
             Some (p\<lparr>volt_level := Live l, volt_supported := True\<rparr>, s) } } } }"

definition nouveau_volt_fini :: "pm \<Rightarrow> pm option" where
  "nouveau_volt_fini p = do { l \<leftarrow> kfree (volt_level p); Some (p\<lparr>volt_level := l\<rparr>) }"

definition nouveau_volt_vid_lookup :: "pm \<Rightarrow> int \<Rightarrow> u8 res option" where
  "nouveau_volt_vid_lookup p voltage = do {
     l \<leftarrow> contents (volt_level p);
     Some (case List.find (\<lambda>(v, vid). uint v = voltage) l of None \<Rightarrow> Inl ENOENT | Some (v, vid) \<Rightarrow> Inr vid) }"

definition nouveau_volt_lvl_lookup :: "pm \<Rightarrow> int \<Rightarrow> u8 res option" where
  "nouveau_volt_lvl_lookup p x = do {
     l \<leftarrow> contents (volt_level p);
     Some (case List.find (\<lambda>(v, vid). uint vid = x) l of None \<Rightarrow> Inl ENOENT | Some (v, vid) \<Rightarrow> Inr v) }"

text \<open>The lines of the mask, one after the other. An error of \<open>get\<close>, a negative number, is shifted and ORed in like a value.\<close>

definition gpio_value :: "bool res \<Rightarrow> int" where
  "gpio_value r = (case r of Inr x \<Rightarrow> of_bool x | Inl e \<Rightarrow> - errno_int e)"

primrec get_lines :: "board \<Rightarrow> vbios \<Rightarrow> u8 \<Rightarrow> (nat \<times> int) list \<Rightarrow> u8 \<Rightarrow> ist \<Rightarrow> (u8 \<times> ist) option" where
  "get_lines b v m [] vid s = Some (vid, s)"
| "get_lines b v m (t # ts) vid s =
     (if \<not> bit m (fst t) then get_lines b v m ts vid s
      else do {
        (r, s) \<leftarrow> gpio_get b v (snd t) s;
        get_lines b v m ts (vid OR word_of_int (gpio_value r * 2 ^ fst t)) s })"

primrec set_lines :: "board \<Rightarrow> vbios \<Rightarrow> u8 \<Rightarrow> u8 \<Rightarrow> (nat \<times> int) list \<Rightarrow> ist \<Rightarrow> ist option" where
  "set_lines b v m vid [] s = Some s"
| "set_lines b v m vid (t # ts) s =
     (if \<not> bit m (fst t) then set_lines b v m vid ts s
      else do {
        (_, s) \<leftarrow> gpio_set b v (snd t) (bit vid (fst t)) s;
        set_lines b v m vid ts s })"

definition nouveau_voltage_gpio_get :: "board \<Rightarrow> vbios \<Rightarrow> pm \<Rightarrow> ist \<Rightarrow> (u8 res \<times> ist) option" where
  "nouveau_voltage_gpio_get b v p s = do {
     (vid, s) \<leftarrow> get_lines b v (vid_mask p) (enumerate 0 vidtag) 0 s;
     r \<leftarrow> nouveau_volt_lvl_lookup p (uint vid);
     Some (r, s) }"

definition nouveau_voltage_gpio_set :: "board \<Rightarrow> vbios \<Rightarrow> pm \<Rightarrow> int \<Rightarrow> ist \<Rightarrow> (unit res \<times> ist) option" where
  "nouveau_voltage_gpio_set b v p voltage s = do {
     r \<leftarrow> nouveau_volt_vid_lookup p voltage;
     case r of
       Inl e \<Rightarrow> Some (Inl e, s)
     | Inr vid \<Rightarrow> do {
         s \<leftarrow> set_lines b v (vid_mask p) vid (enumerate 0 vidtag) s;
         Some (Inr (), s) } }"

end
