(* ===== verification/PerfTemp.thy ===== *)
theory PerfTemp
  imports Voltage
begin

section \<open>Levels, temperatures and timings\<close>

subsection \<open>Performance levels\<close>

definition set_level :: "nat \<Rightarrow> (pm_level \<Rightarrow> pm_level) \<Rightarrow> pm \<Rightarrow> pm option" where
  "set_level i f p =
     (if i < length (perflvl p) then Some (p\<lparr>perflvl := (perflvl p)[i := f (perflvl p ! i)]\<rparr>) else None)"

text \<open>A byte of the old table is a signed \<open>char\<close>.\<close>

definition below_char :: "u8 \<Rightarrow> int \<Rightarrow> bool" where
  "below_char x n \<longleftrightarrow> sint x < n"

definition legacy_perf_init :: "board \<Rightarrow> vbios \<Rightarrow> pm \<Rightarrow> ist \<Rightarrow> (pm \<times> ist) option" where
  "legacy_perf_init b v p s = (let bmp = v_offset v in do {
     major \<leftarrow> at8 v (bmp + 5);
     minor \<leftarrow> at8 v (bmp + 6);
     if below_char major 5 \<or> below_char minor 0x14 then Some (p, s)
     else do {
       perf \<leftarrow> atptr v (bmp + 0x73);
       case perf of
         None \<Rightarrow> Some (p, s)
       | Some perf \<Rightarrow> do {
           ver \<leftarrow> at8 v perf;
           h \<leftarrow> (if ver = 0x12 \<or> ver = 0x14 \<or> ver = 0x18 then Some (Some (1, False))
                 else if ver = 0x01 then do {
                   x \<leftarrow> at8 v (perf + 1);
                   Some (Some (if x AND 1 \<noteq> 0 then 8 else 2, x AND 1 \<noteq> 0)) }
                 else Some None);
           case h of
             None \<Rightarrow> Some (p, s)
           | Some (hlen, straps) \<Rightarrow> do {
               (ofs, s) \<leftarrow> (if straps then do {
                   (x, s) \<leftarrow> nv_rd32 b 0x101000 s;
                   Some (unat (drop_bit 1 (x AND 0x3c)), s) } else Some (0, s));
               m \<leftarrow> at16 v (perf + hlen + ofs);
               p \<leftarrow> set_level 0 (\<lambda>l. l\<lparr>pl_memory := ucast m * 20\<rparr>) p;
               Some (p\<lparr>nr_perflvl := 1\<rparr>, s) } } } })"

text \<open>The frequencies and the rest of an entry, by the version of the table.\<close>

definition mhz16 :: "u16 \<Rightarrow> u32" where "mhz16 x = ucast x * 1000"

definition perf_v10 :: "vbios \<Rightarrow> nat \<Rightarrow> pm_level \<Rightarrow> pm_level option" where
  "perf_v10 v e l = do {
     fan \<leftarrow> at8 v (e + 55); volt \<leftarrow> at8 v (e + 56); core \<leftarrow> at32 v (e + 1); mem \<leftarrow> at32 v (e + 5);
     Some (l\<lparr>pl_fanspeed := fan, pl_voltage := volt, pl_core := core * 10, pl_memory := mem * 20\<rparr>) }"

definition perf_v21 :: "int \<Rightarrow> vbios \<Rightarrow> nat \<Rightarrow> pm_level \<Rightarrow> pm_level option" where
  "perf_v21 chip v e l = do {
     fan \<leftarrow> at8 v (e + 4); volt \<leftarrow> at8 v (e + 5); core \<leftarrow> at16 v (e + 6); mem \<leftarrow> at16 v (e + 11);
     Some (l\<lparr>pl_fanspeed := fan, pl_voltage := volt, pl_core := mhz16 core,
       pl_memory := if chip = 0x49 \<or> chip = 0x4b then mhz16 mem else ucast mem * 2000\<rparr>) }"

definition perf_v25 :: "vbios \<Rightarrow> nat \<Rightarrow> pm_level \<Rightarrow> pm_level option" where
  "perf_v25 v e l = do {
     fan \<leftarrow> at8 v (e + 4); volt \<leftarrow> at8 v (e + 5); core \<leftarrow> at16 v (e + 6); sh \<leftarrow> at16 v (e + 10); mem \<leftarrow> at16 v (e + 12);
     Some (l\<lparr>pl_fanspeed := fan, pl_voltage := volt, pl_core := mhz16 core, pl_shader := mhz16 sh, pl_memory := mhz16 mem\<rparr>) }"

definition perf_v30 :: "bool \<Rightarrow> vbios \<Rightarrow> nat \<Rightarrow> pm_level \<Rightarrow> pm_level option" where
  "perf_v30 script v e l = do {
     x \<leftarrow> (if script then at16 v (e + 2) else Some (pl_memscript l));
     fan \<leftarrow> at8 v (e + 6); volt \<leftarrow> at8 v (e + 7); core \<leftarrow> at16 v (e + 8); sh \<leftarrow> at16 v (e + 10); mem \<leftarrow> at16 v (e + 12);
     unk \<leftarrow> at16 v (e + 16);
     Some (l\<lparr>pl_memscript := x, pl_fanspeed := fan, pl_voltage := volt, pl_core := mhz16 core, pl_shader := mhz16 sh,
       pl_memory := mhz16 mem, pl_unk05 := mhz16 unk\<rparr>) }"

definition perf_v40 :: "vbios \<Rightarrow> nat \<Rightarrow> nat \<Rightarrow> pm_level \<Rightarrow> pm_level option" where
  "perf_v40 v perf e l = do {
     base \<leftarrow> at8 v (perf + 2);
     stride \<leftarrow> at8 v (perf + 3);
     let sub = (\<lambda>n. do { x \<leftarrow> at16 v (e + unat base + n * unat stride); Some (mhz16 (x AND 0xfff)) });
     core \<leftarrow> sub 0; sh \<leftarrow> sub 1; mem \<leftarrow> sub 2;
     Some (l\<lparr>pl_fanspeed := 0, pl_voltage := 0, pl_core := core, pl_shader := sh, pl_memory := mem\<rparr>) }"

definition perf_entry :: "int \<Rightarrow> vbios \<Rightarrow> nat \<Rightarrow> u8 \<Rightarrow> nat \<Rightarrow> pm_level \<Rightarrow> pm_level option" where
  "perf_entry chip v perf ver e l =
     (if ver = 0x12 \<or> ver = 0x13 \<or> ver = 0x15 then perf_v10 v e l
      else if ver = 0x21 \<or> ver = 0x23 \<or> ver = 0x24 then perf_v21 chip v e l
      else if ver = 0x25 then perf_v25 v e l
      else if ver = 0x30 then perf_v30 True v e l
      else if ver = 0x35 then perf_v30 False v e l
      else if ver = 0x40 then perf_v40 v perf e l
      else Some l)"

text \<open>A level whose voltage is in no entry of the voltages keeps its place for the next one.\<close>

primrec perf_entries :: "int \<Rightarrow> vbios \<Rightarrow> nat \<Rightarrow> u8 \<Rightarrow> nat \<Rightarrow> nat list \<Rightarrow> nat \<Rightarrow> pm \<Rightarrow> pm option" where
  "perf_entries chip v perf ver rlen [] e p = Some p"
| "perf_entries chip v perf ver rlen (i # is) e p = do {
     x \<leftarrow> at8 v e;
     if x = 0xff then perf_entries chip v perf ver rlen is (e + rlen) p
     else do {
       l \<leftarrow> idx (perflvl p) (nr_perflvl p);
       l \<leftarrow> perf_entry chip v perf ver e l;
       p \<leftarrow> set_level (nr_perflvl p) (\<lambda>_. l) p;
       ok \<leftarrow> (if volt_supported p \<and> pl_voltage l \<noteq> 0
              then do { r \<leftarrow> nouveau_volt_vid_lookup p (uint (pl_voltage l)); Some (\<not> isl r) } else Some True);
       if \<not> ok then perf_entries chip v perf ver rlen is (e + rlen) p
       else do {
         p \<leftarrow> set_level (nr_perflvl p) (\<lambda>l. l\<lparr>pl_id := int i\<rparr>) p;
         perf_entries chip v perf ver rlen is (e + rlen) (p\<lparr>nr_perflvl := nr_perflvl p + 1\<rparr>) } } }"

text \<open>The table: where it is, its version, the lengths of header and record, the number of entries. A table of a BIT image that is not there is a crash.\<close>

definition perf_bit :: "vbios \<Rightarrow> bit_entry \<Rightarrow> (nat \<times> u8 \<times> u8 \<times> u8 \<times> u8) option" where
  "perf_bit v P = do {
     perf \<leftarrow> data_ptr v P 0;
     perf \<leftarrow> perf;
     ver \<leftarrow> at8 v perf;
     h \<leftarrow> at8 v (perf + 1);
     x2 \<leftarrow> at8 v (perf + 2);
     x3 \<leftarrow> at8 v (perf + 3);
     x4 \<leftarrow> at8 v (perf + 4);
     x5 \<leftarrow> at8 v (perf + 5);
     Some (if ver < 0x40 then (perf, ver, h, x3 + x4 * x5, x2) else (perf, ver, h, x2 + x3 * x4, x5)) }"

definition perf_levels :: "board \<Rightarrow> vbios \<Rightarrow> (nat \<times> u8 \<times> u8 \<times> u8 \<times> u8) \<Rightarrow> pm \<Rightarrow> pm option" where
  "perf_levels b v t p = (case t of (perf, ver, h, r, n) \<Rightarrow>
     perf_entries (chipset b) v perf ver (unat r) [0..<unat n] (perf + unat h) p)"

definition nouveau_perf_init :: "board \<Rightarrow> vbios \<Rightarrow> pm \<Rightarrow> ist \<Rightarrow> (pm \<times> ist) option" where
  "nouveau_perf_init b v p s =
     (if is_bit v then do {
        P \<leftarrow> bit_table v bit_P;
        case P of
          Inl e \<Rightarrow> Some (p, s)
        | Inr P \<Rightarrow>
            if bit_version P \<noteq> 1 \<and> bit_version P \<noteq> 2 then Some (p, s)
            else do { t \<leftarrow> perf_bit v P; p \<leftarrow> perf_levels b v t p; Some (p, s) } }
      else do {
        x \<leftarrow> at8 v (v_offset v + 6);
        if x < 0x27 then legacy_perf_init b v p s
        else do {
          perf \<leftarrow> atptr v (v_offset v + 0x94);
          case perf of
            None \<Rightarrow> Some (p, s)
          | Some perf \<Rightarrow> do {
              ver \<leftarrow> at8 v (perf + 1);
              h \<leftarrow> at8 v perf;
              r \<leftarrow> at8 v (perf + 3);
              n \<leftarrow> at8 v (perf + 2);
              p \<leftarrow> perf_levels b v (perf, ver, h, r, n) p;
              Some (p, s) } } })"

subsection \<open>Temperatures\<close>

definition clamp :: "int \<Rightarrow> int \<Rightarrow> int \<Rightarrow> int" where
  "clamp lo hi x = (if x > hi then hi else if x < lo then lo else x)"

definition nouveau_temp_safety_checks :: "pm \<Rightarrow> pm" where
  "nouveau_temp_safety_checks p = p\<lparr>critical := clamp 80 120 (critical p),
     down_clock := clamp 60 110 (down_clock p), fan_boost := clamp 40 100 (fan_boost p)\<rparr>"

definition sensor_defaults :: "board \<Rightarrow> pm \<Rightarrow> pm" where
  "sensor_defaults b p = (
     let p = p\<lparr>offset_constant := 0, offset_mult := 1, offset_div := 1, slope_mult := 1, slope_div := 1,
               critical := 110, down_clock := 100, fan_boost := 90\<rparr>;
         c = chipset b;
         set = (\<lambda>om od sm sd. p\<lparr>offset_mult := om, offset_div := od, slope_mult := sm, slope_div := sd\<rparr>)
     in
     if card_type b < NV_40 then p
     else if c = 0x43 then set 32060 1000 792 1000
     else if c = 0x44 \<or> c = 0x47 \<or> c = 0x4a then set 27839 1000 780 1000
     else if c = 0x46 then set (- 24775) 100 467 10000
     else if c = 0x49 then set (- 25051) 100 458 10000
     else if c = 0x4b then set (- 24088) 100 442 10000
     else if c = 0x50 then set (- 22749) 100 431 10000
     else p)"

definition temp_entry :: "u8 \<Rightarrow> u16 \<Rightarrow> pm \<Rightarrow> pm" where
  "temp_entry i x p = (
     let core = (x AND 0xf00f = 0xa000); t = uint (drop_bit 4 (x AND 0x0ff0)) in
     if i = 0x01 then (if x AND 0x8f = 0 then p\<lparr>offset_constant := drop_bit 9 x AND 0x7f\<rparr> else p)
     else if i = 0x04 then (if core then p\<lparr>critical := t\<rparr> else p)
     else if i = 0x07 then (if core then p\<lparr>down_clock := t\<rparr> else p)
     else if i = 0x08 then (if core then p\<lparr>fan_boost := t\<rparr> else p)
     else if i = 0x10 then p\<lparr>offset_mult := sint x\<rparr>
     else if i = 0x11 then p\<lparr>offset_div := x\<rparr>
     else if i = 0x12 then p\<lparr>slope_mult := x\<rparr>
     else if i = 0x13 then p\<lparr>slope_div := x\<rparr>
     else p)"

primrec temp_entries :: "vbios \<Rightarrow> nat \<Rightarrow> nat \<Rightarrow> nat \<Rightarrow> pm \<Rightarrow> pm option" where
  "temp_entries v rlen 0 e p = Some p"
| "temp_entries v rlen (Suc n) e p = do {
     x \<leftarrow> at16 v (e + 1);
     i \<leftarrow> at8 v e;
     temp_entries v rlen n (e + rlen) (temp_entry i x p) }"

definition nouveau_temp_vbios_parse :: "board \<Rightarrow> vbios \<Rightarrow> nat option \<Rightarrow> pm \<Rightarrow> pm option" where
  "nouveau_temp_vbios_parse b v t p = (case t of
     None \<Rightarrow> Some p
   | Some t \<Rightarrow> do {
       h \<leftarrow> at8 v (t + 1);
       r \<leftarrow> at8 v (t + 2);
       n \<leftarrow> at8 v (t + 3);
       p \<leftarrow> temp_entries v (unat r) (unat n) (t + unat h) (sensor_defaults b p);
       Some (nouveau_temp_safety_checks p) })"

definition nv40_sensor_setup :: "board \<Rightarrow> pm \<Rightarrow> ist \<Rightarrow> (int \<times> ist) option" where
  "nv40_sensor_setup b p s = do {
     ofs \<leftarrow> cdiv (offset_mult p) (uint (offset_div p));
     let cal = (120 - word_of_int ofs - ucast (offset_constant p)) * ucast (slope_div p);
     if slope_mult p = 0 then None
     else do {
       let cal = cal div ucast (slope_mult p);
       s \<leftarrow> nv_wr32 b 0x15b0 (cal OR (if chipset b \<ge> 0x46 then 0x80000000 else 0x10000000)) s;
       s \<leftarrow> tell b (Msleep 5) s;
       (x, s) \<leftarrow> nv_rd32 b 0x15b4 s;
       Some (uint (x AND 0x1fff), s) } }"

definition nv40_temp_get :: "board \<Rightarrow> pm \<Rightarrow> ist \<Rightarrow> (int \<times> ist) option" where
  "nv40_temp_get b p s = do {
     ofs \<leftarrow> cdiv (offset_mult p) (uint (offset_div p));
     (t, s) \<leftarrow> (if chipset b \<ge> 0x50 then do { (x, s) \<leftarrow> nv_rd32 b 0x20008 s; Some (sint x, s) }
       else do {
         (x, s) \<leftarrow> nv_rd32 b 0x15b4 s;
         if x AND 0x1fff = 0 then nv40_sensor_setup b p s else Some (uint (x AND 0x1fff), s) });
     t \<leftarrow> i32 (t * uint (slope_mult p));
     t \<leftarrow> cdiv t (uint (slope_div p));
     t \<leftarrow> i32 (t + ofs + uint (offset_constant p));
     Some (t, s) }"

definition nv84_temp_get :: "board \<Rightarrow> ist \<Rightarrow> (int \<times> ist) option" where
  "nv84_temp_get b s = do { (x, s) \<leftarrow> nv_rd32 b 0x20400 s; Some (sint x, s) }"

text \<open>The driver of a monitoring chip belongs to the kernel: it is loaded, and may refuse the chip.\<close>

definition probe_monitoring_device :: "drv \<Rightarrow> u8 \<Rightarrow> ist \<Rightarrow> (bool \<times> ist) option" where
  "probe_monitoring_device d a s = do {
     s \<leftarrow> tell d (KernelCall ''request_module'' [ucast a]) s;
     ((client, _), s) \<leftarrow> request d (KernelCall ''i2c_new_device'' [ucast a]) s;
     if client = 0 then Some (False, s)
     else do {
       ((refused, _), s) \<leftarrow> request d (KernelCall ''i2c_driver_detect'' [ucast a]) s;
       if refused \<noteq> 0 then do {
         s \<leftarrow> tell d (KernelCall ''i2c_unregister_device'' [ucast a]) s;
         Some (False, s) }
       else Some (True, s) } }"

definition nouveau_temp_probe_i2c :: "board \<Rightarrow> vbios \<Rightarrow> ist \<Rightarrow> (vbios \<times> ist) option" where
  "nouveau_temp_probe_i2c b v s = (let d = drv_of b v None in do {
     (_, s) \<leftarrow> nouveau_i2c_identify d (probe_monitoring_device d) [0x2d, 0x2d, 0x2e, 0x2e, 0x4c]
       (if dcb_ver v \<ge> 0x40 then unat (i2c_default_indices (dcb (vb v)) AND 0xf) else 2) (s\<lparr>i2c := i2c_ports v\<rparr>);
     Some (v\<lparr>i2c_ports := i2c s\<rparr>, s) })"

definition nouveau_temp_init :: "board \<Rightarrow> vbios \<Rightarrow> pm \<Rightarrow> ist \<Rightarrow> (pm \<times> vbios \<times> ist) option" where
  "nouveau_temp_init b v p s = do {
     P \<leftarrow> (if is_bit v then map_option Some (bit_table v bit_P) else Some None);
     case P of
       Some (Inl e) \<Rightarrow> Some (p, v, s)
     | Some (Inr P) \<Rightarrow> do {
         t \<leftarrow> ptr_by_version v P 12 16;
         p \<leftarrow> nouveau_temp_vbios_parse b v t p;
         (v, s) \<leftarrow> nouveau_temp_probe_i2c b v s;
         Some (p, v, s) }
     | None \<Rightarrow> do { (v, s) \<leftarrow> nouveau_temp_probe_i2c b v s; Some (p, v, s) } }"

subsection \<open>Memory timings\<close>

text \<open>
  Bytes 18 to 21 of an entry, as far as it has them. The lengths for which it is said to have them are
  written in hexadecimal, though they are decimal numbers everywhere else.
\<close>

definition tail_bytes :: "vbios \<Rightarrow> nat \<Rightarrow> u8 \<Rightarrow> (u32 \<times> u32 \<times> u32 \<times> u32) option" where
  "tail_bytes v e rlen = do {
     t21 \<leftarrow> (if rlen = 0x21 then at8 v (e + 21) else Some 0);
     t20 \<leftarrow> (if rlen = 0x21 \<or> rlen = 0x20 then at8 v (e + 20) else Some 0);
     t19 \<leftarrow> (if rlen = 0x21 \<or> rlen = 0x20 \<or> rlen = 0x19 then at8 v (e + 19) else Some 1);
     t18 \<leftarrow> (if rlen = 0x21 \<or> rlen = 0x20 \<or> rlen = 0x19 \<or> rlen = 0x18 then at8 v (e + 18) else Some 1);
     Some (ucast t18, ucast t19, ucast t20, ucast t21) }"

definition timing_of :: "vbios \<Rightarrow> nat \<Rightarrow> u8 \<Rightarrow> memtiming option" where
  "timing_of v e rlen = (let w = (\<lambda>i. map_option (ucast :: u8 \<Rightarrow> u32) (at8 v (e + i))) in do {
     (t18, t19, t20, t21) \<leftarrow> tail_bytes v e rlen;
     t0 \<leftarrow> w 0; t1 \<leftarrow> w 1; t2 \<leftarrow> w 2; rp \<leftarrow> w 3; ras \<leftarrow> w 5; rfc \<leftarrow> w 7; rc \<leftarrow> w 9;
     t10 \<leftarrow> w 10; t11 \<leftarrow> w 11; t12 \<leftarrow> w 12; t13 \<leftarrow> w 13; t14 \<leftarrow> w 14;
     Some \<lparr>reg_100220 = push_bit 24 rc OR push_bit 16 rfc OR push_bit 8 ras OR rp,
       reg_100224 = push_bit 24 (t0 + t19 + 1) OR push_bit 16 t18 OR push_bit 8 (t1 + t19 + 1) OR (t2 - 1),
       reg_100228 = (push_bit 16 t12 OR push_bit 8 t11 OR t10) + (if rlen > 19 then push_bit 24 (t19 - 1) else push_bit 24 t12),
       reg_100230 = push_bit 24 t20 OR push_bit 16 t21 OR push_bit 8 t13 OR t13,
       reg_100234 = (push_bit 24 ras OR push_bit 8 (t19 + 6) OR rc) + push_bit 16 (if t10 > t11 then t10 else t11)\<rparr> })"

definition no_timing :: memtiming where
  "no_timing = \<lparr>reg_100220 = 0, reg_100224 = 0, reg_100228 = 0, reg_100230 = 0, reg_100234 = 0\<rparr>"

primrec timings_of :: "vbios \<Rightarrow> u8 \<Rightarrow> nat \<Rightarrow> nat \<Rightarrow> memtiming list option" where
  "timings_of v rlen 0 e = Some []"
| "timings_of v rlen (Suc n) e = do {
     x \<leftarrow> at8 v e;
     t \<leftarrow> (if x = 0 then Some no_timing else timing_of v e rlen);
     ts \<leftarrow> timings_of v rlen n (e + unat rlen);
     Some (t # ts) }"

definition nouveau_mem_timing_init :: "board \<Rightarrow> vbios \<Rightarrow> pm \<Rightarrow> ist \<Rightarrow> (pm \<times> ist) option" where
  "nouveau_mem_timing_init b v p s =
     (if \<not> is_bit v then Some (p, s)
      else do {
        P \<leftarrow> bit_table v bit_P;
        t \<leftarrow> (case P of Inl e \<Rightarrow> Some None | Inr P \<Rightarrow> ptr_by_version v P 4 8);
        case t of
          None \<Rightarrow> Some (p, s)
        | Some t \<Rightarrow> do {
            ver \<leftarrow> at8 v t;
            if ver \<noteq> 0x10 then Some (p, s)
            else do {
              n \<leftarrow> at8 v (t + 2);
              r \<leftarrow> at8 v (t + 3);
              if r < 15 then Some (p, s)
              else do {
                ((failed, _), s) \<leftarrow> request b Kzalloc s;
                if failed \<noteq> 0 then Some (p\<lparr>timing := NoBlock\<rparr>, s)
                else do {
                  h \<leftarrow> at8 v (t + 1);
                  ts \<leftarrow> timings_of v r (unat n) (t + unat h);
                  Some (p\<lparr>timing := Live ts, timings_supported := True\<rparr>, s) } } } } })"

definition nouveau_mem_timing_fini :: "pm \<Rightarrow> pm option" where
  "nouveau_mem_timing_fini p = do { t \<leftarrow> kfree (timing p); Some (p\<lparr>timing := t\<rparr>) }"

end
