(* ===== verification/Pm.thy ===== *)
theory Pm
  imports PerfTemp
begin

section \<open>Power management\<close>

text \<open>
  \<open>nouveau_pm.c\<close> with the clocks of each family (\<open>nv04_pm.c\<close>, \<open>nv50_pm.c\<close>, \<open>nva3_pm.c\<close>, \<open>nv50_calc.c\<close>).
  Files of sysfs and the hardware monitor belong to the kernel; what reading them prints is left out, and
  what is written to them comes as a number. The fixed-point arithmetic of \<open>drm_fixed.h\<close>, which is not in
  the repository, is the record \<open>fixed\<close>.
\<close>

record fixed =
  dfixed_const :: "int \<Rightarrow> u32"
  dfixed_mul :: "u32 \<Rightarrow> u32 \<Rightarrow> u32"
  dfixed_div :: "u32 \<Rightarrow> u32 \<Rightarrow> u32"
  dfixed_ceil :: "u32 \<Rightarrow> u32"
  dfixed_trunc :: "u32 \<Rightarrow> u32"

record pm_board = board +
  fixops :: fixed
  script_levels :: nat
  perflvl_wr :: int

abbreviation (input) core :: "pm_board \<Rightarrow> board" where
  "core d \<equiv> board.truncate d"

subsection \<open>The clocks of a card\<close>

definition PLL_CORE :: u32 where "PLL_CORE = 0x01"
definition PLL_SHADER :: u32 where "PLL_SHADER = 0x02"
definition PLL_UNK05 :: u32 where "PLL_UNK05 = 0x05"

datatype clock_engine = Nv04Clock | Nv50Clock | Nva3Clock | NoClock

definition clocks_of :: "pm_board \<Rightarrow> clock_engine" where
  "clocks_of d =
     (if before_nv50 (core d) then Nv04Clock
      else if chipset d = 0xa3 \<or> chipset d = 0xa5 \<or> chipset d = 0xa8 \<or> chipset d = 0xaf then Nva3Clock
      else if chipset d = 0xc0 then NoClock
      else Nv50Clock)"

text \<open>What \<open>clock_pre\<close> hands to \<open>clock_set\<close>. The memory is freed there.\<close>

datatype pre_state =
    Pre04 pll_lims pll_vals
  | Pre50 pll_lims u32 pm_level int int int
  | Prea3 pll_lims int int int

definition nv50_pm_clock_get :: "board \<Rightarrow> vbios \<Rightarrow> u32 \<Rightarrow> ist \<Rightarrow> (int res \<times> ist) option" where
  "nv50_pm_clock_get b v t s = do {
     (lim, s) \<leftarrow> get_pll_limits (drv_of b v None) t s;
     case lim of
       Inl e \<Rightarrow> Some (Inl e, s)
     | Inr lim \<Rightarrow> do {
         (reg0, s) \<leftarrow> nv_rd32 b (reg lim) s;
         (reg1, s) \<leftarrow> nv_rd32 b (reg lim + 4) s;
         x \<leftarrow> i32 (refclk lim * uint (hi8 reg1));
         x \<leftarrow> cdiv x (uint (lo8 reg1));
         Some (Inr (x div 2 ^ unat (drop_bit 16 reg0 AND 7)), s) } }"

definition nv50_calc_pll :: "board \<Rightarrow> vbios \<Rightarrow> pll_lims \<Rightarrow> int \<Rightarrow> (int \<times> pll_vals) option" where
  "nv50_calc_pll b v lim khz = nouveau_calc_pll_mnp (drv_of b v None) lim khz (stack_pv b)"

text \<open>\<open>NULL\<close> for a clock the card does not have. No coefficients, a result of 0, is taken for success: all three stay 0.\<close>

definition nv50_pm_clock_pre :: "board \<Rightarrow> vbios \<Rightarrow> pm_level \<Rightarrow> u32 \<Rightarrow> int \<Rightarrow> ist \<Rightarrow> (pre_state option res \<times> ist) option" where
  "nv50_pm_clock_pre b v l t khz s = do {
     ((failed, _), s) \<leftarrow> request b Kzalloc s;
     if failed \<noteq> 0 then Some (Inl ENOMEM, s)
     else do {
       (lim, s) \<leftarrow> get_pll_limits (drv_of b v None) t s;
       case lim of
         Inl e \<Rightarrow> Some (if e = ENOENT then Inr None else Inl e, s)
       | Inr lim \<Rightarrow> do {
           (ret, pv) \<leftarrow> nv50_calc_pll b v lim khz;
           Some (if ret < 0 then Inl (Errno (- ret))
                 else if ret = 0 then Inr (Some (Pre50 lim t l 0 0 0))
                 else Inr (Some (Pre50 lim t l (uint (N1 pv)) (uint (M1 pv)) (log2P pv))), s) } } }"

text \<open>The scripts for the memory: three of the table \<open>M\<close>, then that of the level.\<close>

definition memory_scripts :: "nat \<Rightarrow> board \<Rightarrow> pm_level \<Rightarrow> vbios \<Rightarrow> ist \<Rightarrow> (vbios \<times> ist) option" where
  "memory_scripts fuel b l v s = do {
     M \<leftarrow> bit_table v 0x4d;
     case M of
       Inl e \<Rightarrow> Some (v, s)
     | Inr M \<Rightarrow>
         if bit_version M \<noteq> 1 \<or> bit_length M < 0x0b then Some (v, s)
         else do {
           p \<leftarrow> bit_data M;
           (v, s) \<leftarrow> for_each (\<lambda>i (v, s). do {
             script \<leftarrow> at16 v (p + i);
             if script = 0 then Some (v, s) else nouveau_bios_run_init_table fuel b script None v s }) [5, 7, 9] (v, s);
           nouveau_bios_run_init_table fuel b (pl_memscript l) None v s } }"

definition nv50_pm_clock_set ::
  "nat \<Rightarrow> board \<Rightarrow> pll_lims \<Rightarrow> u32 \<Rightarrow> pm_level \<Rightarrow> int \<Rightarrow> int \<Rightarrow> int \<Rightarrow> vbios \<Rightarrow> ist \<Rightarrow> (vbios \<times> ist) option" where
  "nv50_pm_clock_set fuel b lim t l N M P v s = (let mem = (t = PLL_MEMORY); r = reg lim in do {
     (v, s) \<leftarrow> (if mem \<and> pl_memscript l \<noteq> 0 then memory_scripts fuel b l v s else Some (v, s));
     s \<leftarrow> (if mem then do { s \<leftarrow> nv_wr32 b 0x100210 0 s; nv_wr32 b 0x1002dc 1 s } else Some s);
     (x, s) \<leftarrow> nv_rd32 b r s;
     s \<leftarrow> nv_wr32 b r ((x AND 0xfff8ffff) OR 0x80000000 OR word_of_int (P * 0x10000)) s;
     s \<leftarrow> nv_wr32 b (r + 4) (word_of_int (N * 0x100) OR word_of_int M) s;
     s \<leftarrow> (if mem then do { s \<leftarrow> nv_wr32 b 0x1002dc 0 s; nv_wr32 b 0x100210 0x80000000 s } else Some s);
     Some (v, s) })"

text \<open>The fraction \<open>fN\<close> is computed and thrown away by the callers.\<close>

definition nv50_calc_pll2 :: "fixed \<Rightarrow> pll_lims \<Rightarrow> int \<Rightarrow> (int \<times> int \<times> int) option" where
  "nv50_calc_pll2 fx lim clk = do {
     P \<leftarrow> cdiv (maxfreq (vco1 lim)) clk;
     let P = (if P > uint (max_p lim) then uint (max_p lim) else P);
     let P = (if P < uint (min_p lim) then uint (min_p lim) else P);
     let a = dfixed_ceil fx (dfixed_div fx (dfixed_const fx (refclk lim)) (dfixed_const fx (max_inputfreq (vco1 lim))));
     vco \<leftarrow> i32 (clk * P);
     let fb = dfixed_div fx (dfixed_mul fx (dfixed_const fx vco) a) (dfixed_const fx (refclk lim));
     Some (uint (dfixed_trunc fx fb), uint (dfixed_trunc fx a), P) }"

definition nva3_pm_clock_get :: "board \<Rightarrow> vbios \<Rightarrow> u32 \<Rightarrow> ist \<Rightarrow> (int res \<times> ist) option" where
  "nva3_pm_clock_get b v t s = do {
     (lim, s) \<leftarrow> get_pll_limits (drv_of b v None) t s;
     case lim of
       Inl e \<Rightarrow> Some (Inl e, s)
     | Inr lim \<Rightarrow> do {
         (x, s) \<leftarrow> nv_rd32 b (reg lim + 4) s;
         y \<leftarrow> i32 (refclk lim * uint (hi8 x));
         y \<leftarrow> cdiv y (uint (lo8 x));
         y \<leftarrow> cdiv y (uint (drop_bit 16 x AND 0x3f));
         Some (Inr y, s) } }"

definition nva3_pm_clock_pre :: "fixed \<Rightarrow> board \<Rightarrow> vbios \<Rightarrow> u32 \<Rightarrow> int \<Rightarrow> ist \<Rightarrow> (pre_state option res \<times> ist) option" where
  "nva3_pm_clock_pre fx b v t khz s = do {
     ((failed, _), s) \<leftarrow> request b Kzalloc s;
     if failed \<noteq> 0 then Some (Inl ENOMEM, s)
     else do {
       (lim, s) \<leftarrow> get_pll_limits (drv_of b v None) t s;
       case lim of
         Inl e \<Rightarrow> Some (if e = ENOENT then Inr None else Inl e, s)
       | Inr lim \<Rightarrow> do {
           (N, M, P) \<leftarrow> nv50_calc_pll2 fx lim khz;
           Some (if khz < 0 then Inl (Errno (- khz)) else Inr (Some (Prea3 lim N M P)), s) } } }"

definition nva3_pm_clock_set :: "board \<Rightarrow> pll_lims \<Rightarrow> int \<Rightarrow> int \<Rightarrow> int \<Rightarrow> ist \<Rightarrow> ist option" where
  "nva3_pm_clock_set b lim N M P s =
     nv_wr32 b (reg lim + 4) (word_of_int (P * 0x10000) OR word_of_int (N * 0x100) OR word_of_int M) s"

definition nv04_pm_clock_get :: "board \<Rightarrow> vbios \<Rightarrow> u32 \<Rightarrow> ist \<Rightarrow> (int res \<times> ist) option" where
  "nv04_pm_clock_get b v t s = nouveau_hw_get_clock (b\<lparr>bios := nvbios_of v None\<rparr>) t s"

definition nv04_pm_clock_pre :: "board \<Rightarrow> vbios \<Rightarrow> u32 \<Rightarrow> int \<Rightarrow> ist \<Rightarrow> (pre_state option res \<times> ist) option" where
  "nv04_pm_clock_pre b v t khz s = do {
     ((failed, _), s) \<leftarrow> request b Kzalloc s;
     if failed \<noteq> 0 then Some (Inl ENOMEM, s)
     else do {
       (lim, s) \<leftarrow> get_pll_limits (drv_of b v None) t s;
       case lim of
         Inl e \<Rightarrow> Some (if e = ENOENT then Inr None else Inl e, s)
       | Inr lim \<Rightarrow> do {
           (ret, pv) \<leftarrow> nouveau_calc_pll_mnp (drv_of b v None) lim khz \<lparr>N1 = 0, M1 = 0, N2 = 0, M2 = 0, log2P = 0\<rparr>;
           Some (if ret = 0 then Inl EINVAL else Inr (Some (Pre04 lim pv)), s) } } }"

definition nv04_pm_clock_set :: "board \<Rightarrow> vbios \<Rightarrow> pll_lims \<Rightarrow> pll_vals \<Rightarrow> ist \<Rightarrow> ist option" where
  "nv04_pm_clock_set b v lim pv s =
     nouveau_hw_setpll (drv_of b v None) (if card_type b \<ge> NV_40 then reg lim + 4 else reg lim) pv s"

text \<open>Through the pointers of the engine; one that is not set is a crash.\<close>

definition clock_get :: "pm_board \<Rightarrow> vbios \<Rightarrow> u32 \<Rightarrow> ist \<Rightarrow> (int res \<times> ist) option" where
  "clock_get d v t s = (case clocks_of d of
     Nv04Clock \<Rightarrow> nv04_pm_clock_get (core d) v t s
   | Nv50Clock \<Rightarrow> nv50_pm_clock_get (core d) v t s
   | Nva3Clock \<Rightarrow> nva3_pm_clock_get (core d) v t s
   | NoClock \<Rightarrow> None)"

definition clock_pre :: "pm_board \<Rightarrow> vbios \<Rightarrow> pm_level \<Rightarrow> u32 \<Rightarrow> int \<Rightarrow> ist \<Rightarrow> (pre_state option res \<times> ist) option" where
  "clock_pre d v l t khz s = (case clocks_of d of
     Nv04Clock \<Rightarrow> nv04_pm_clock_pre (core d) v t khz s
   | Nv50Clock \<Rightarrow> nv50_pm_clock_pre (core d) v l t khz s
   | Nva3Clock \<Rightarrow> nva3_pm_clock_pre (fixops d) (core d) v t khz s
   | NoClock \<Rightarrow> None)"

definition clock_set :: "pm_board \<Rightarrow> pre_state \<Rightarrow> vbios \<Rightarrow> ist \<Rightarrow> (vbios \<times> ist) option" where
  "clock_set d st v s = (case st of
     Pre04 lim pv \<Rightarrow> do { s \<leftarrow> nv04_pm_clock_set (core d) v lim pv s; Some (v, s) }
   | Pre50 lim t l N M P \<Rightarrow> nv50_pm_clock_set (script_levels d) (core d) lim t l N M P v s
   | Prea3 lim N M P \<Rightarrow> do { s \<leftarrow> nva3_pm_clock_set (core d) lim N M P s; Some (v, s) })"

definition temp_get :: "board \<Rightarrow> pm \<Rightarrow> ist \<Rightarrow> (int \<times> ist) option" where
  "temp_get b p s =
     (if chipset b < 0x40 then None else if chipset b < 0x80 then nv40_temp_get b p s else nv84_temp_get b s)"

subsection \<open>Levels\<close>

definition nouveau_pm_clock_set :: "pm_board \<Rightarrow> pm_level \<Rightarrow> u32 \<Rightarrow> u32 \<Rightarrow> vbios \<Rightarrow> ist \<Rightarrow> (unit res \<times> vbios \<times> ist) option" where
  "nouveau_pm_clock_set d l t khz v s =
     (if khz = 0 then Some (Inr (), v, s)
      else do {
        (pre, s) \<leftarrow> clock_pre d v l t (sint khz) s;
        case pre of
          Inl e \<Rightarrow> Some (Inl e, v, s)
        | Inr None \<Rightarrow> Some (Inr (), v, s)
        | Inr (Some st) \<Rightarrow> do { (v, s) \<leftarrow> clock_set d st v s; Some (Inr (), v, s) } })"

definition level_at :: "pm \<Rightarrow> level_ref \<Rightarrow> pm_level option" where
  "level_at p r = (case r of Boot \<Rightarrow> Some (boot p) | Level i \<Rightarrow> idx (perflvl p) i)"

definition has_voltage :: "pm_board \<Rightarrow> bool" where
  "has_voltage d \<longleftrightarrow> 0x30 \<le> chipset d \<and> chipset d < 0xc0"

text \<open>Every failure is passed over.\<close>

definition nouveau_pm_perflvl_set :: "pm_board \<Rightarrow> level_ref \<Rightarrow> pm \<Rightarrow> vbios \<Rightarrow> ist \<Rightarrow> (pm \<times> vbios \<times> ist) option" where
  "nouveau_pm_perflvl_set d r p v s =
     (if cur p = Some r then Some (p, v, s)
      else do {
        l \<leftarrow> level_at p r;
        s \<leftarrow> (if volt_supported p \<and> has_voltage d \<and> pl_voltage l \<noteq> 0
               then do { (_, s) \<leftarrow> nouveau_voltage_gpio_set (core d) v p (uint (pl_voltage l)) s; Some s } else Some s);
        (_, v, s) \<leftarrow> nouveau_pm_clock_set d l PLL_CORE (pl_core l) v s;
        (_, v, s) \<leftarrow> nouveau_pm_clock_set d l PLL_SHADER (pl_shader l) v s;
        (_, v, s) \<leftarrow> nouveau_pm_clock_set d l PLL_MEMORY (pl_memory l) v s;
        (_, v, s) \<leftarrow> nouveau_pm_clock_set d l PLL_UNK05 (pl_unk05 l) v s;
        Some (p\<lparr>cur := Some r\<rparr>, v, s) })"

text \<open>The name of a profile: what starts with \<open>boot\<close>, or the number it begins with.\<close>

datatype profile = ProfileBoot | ProfileNumber int

definition find_level :: "pm \<Rightarrow> int \<Rightarrow> level_ref option" where
  "find_level p n = map_option Level (List.find (\<lambda>i. pl_id (perflvl p ! i) = n) [0..<nr_perflvl p])"

definition nouveau_pm_profile_set :: "pm_board \<Rightarrow> profile \<Rightarrow> pm \<Rightarrow> vbios \<Rightarrow> ist \<Rightarrow> (unit res \<times> pm \<times> vbios \<times> ist) option" where
  "nouveau_pm_profile_set d pr p v s =
     (if perflvl_wr d \<noteq> 7777 then Some (Inl (Errno 1), p, v, s)
      else if clocks_of d = NoClock then Some (Inl EINVAL, p, v, s)
      else (case (case pr of ProfileBoot \<Rightarrow> Some Boot | ProfileNumber n \<Rightarrow> find_level p n) of
        None \<Rightarrow> Some (Inl EINVAL, p, v, s)
      | Some r \<Rightarrow> do {
          (p, v, s) \<leftarrow> nouveau_pm_perflvl_set d r p v s;
          Some (Inr (), p, v, s) }))"

definition no_level :: pm_level where
  "no_level = \<lparr>pl_id = 0, pl_core = 0, pl_memory = 0, pl_shader = 0, pl_unk05 = 0, pl_voltage = 0, pl_fanspeed = 0,
     pl_memscript = 0, attr_name = False\<rparr>"

text \<open>A clock that can be read and is not 0, else 0.\<close>

definition read_clock :: "pm_board \<Rightarrow> vbios \<Rightarrow> u32 \<Rightarrow> ist \<Rightarrow> (u32 \<times> ist) option" where
  "read_clock d v t s = do {
     (r, s) \<leftarrow> clock_get d v t s;
     Some (case r of Inl e \<Rightarrow> 0 | Inr x \<Rightarrow> if x > 0 then word_of_int x else 0, s) }"

definition nouveau_pm_perflvl_get :: "pm_board \<Rightarrow> pm \<Rightarrow> vbios \<Rightarrow> ist \<Rightarrow> (pm_level res \<times> ist) option" where
  "nouveau_pm_perflvl_get d p v s =
     (if clocks_of d = NoClock then Some (Inl EINVAL, s)
      else do {
        (c, s) \<leftarrow> read_clock d v PLL_CORE s;
        (m, s) \<leftarrow> read_clock d v PLL_MEMORY s;
        (sh, s) \<leftarrow> read_clock d v PLL_SHADER s;
        (u, s) \<leftarrow> read_clock d v PLL_UNK05 s;
        (volt, s) \<leftarrow> (if volt_supported p \<and> has_voltage d
          then do {
            (r, s) \<leftarrow> nouveau_voltage_gpio_get (core d) v p s;
            Some (case r of Inl e \<Rightarrow> 0 | Inr x \<Rightarrow> x, s) } else Some (0, s));
        Some (Inr (no_level\<lparr>pl_core := c, pl_memory := m, pl_shader := sh, pl_unk05 := u, pl_voltage := volt\<rparr>), s) })"

subsection \<open>Files, and the life of the engine\<close>

definition level_attr :: "nat \<Rightarrow> bool \<Rightarrow> pm \<Rightarrow> pm option" where
  "level_attr i x p = set_level i (\<lambda>l. l\<lparr>attr_name := x\<rparr>) p"

primrec remove_files :: "board \<Rightarrow> pm_level list \<Rightarrow> ist \<Rightarrow> ist option" where
  "remove_files b [] s = Some s"
| "remove_files b (l # ls) s =
     (if \<not> attr_name l then Some s
      else do {
        s \<leftarrow> tell b (KernelCall ''device_remove_file'' [word_of_int (pl_id l)]) s;
        remove_files b ls s })"

definition nouveau_sysfs_fini :: "board \<Rightarrow> pm \<Rightarrow> ist \<Rightarrow> ist option" where
  "nouveau_sysfs_fini b p s = do {
     s \<leftarrow> tell b (KernelCall ''device_remove_file'' []) s;
     remove_files b (take (nr_perflvl p) (perflvl p)) s }"

definition nouveau_hwmon_fini :: "board \<Rightarrow> pm \<Rightarrow> ist \<Rightarrow> ist option" where
  "nouveau_hwmon_fini b p s =
     (if hwmon p then do {
        s \<leftarrow> tell b (KernelCall ''sysfs_remove_group'' []) s;
        tell b (KernelCall ''hwmon_device_unregister'' []) s }
      else Some s)"

definition nouveau_pm_fini :: "pm_board \<Rightarrow> pm \<Rightarrow> vbios \<Rightarrow> ist \<Rightarrow> (pm \<times> vbios \<times> ist) option" where
  "nouveau_pm_fini d p v s = do {
     (p, v, s) \<leftarrow> nouveau_pm_perflvl_set d Boot p v s;
     p \<leftarrow> nouveau_mem_timing_fini p;
     p \<leftarrow> nouveau_volt_fini p;
     s \<leftarrow> nouveau_hwmon_fini (core d) p s;
     s \<leftarrow> nouveau_sysfs_fini (core d) p s;
     Some (p, v, s) }"

text \<open>A file that cannot be made ends all of power management, though the engine goes on.\<close>

primrec create_files :: "pm_board \<Rightarrow> nat list \<Rightarrow> pm \<Rightarrow> vbios \<Rightarrow> ist \<Rightarrow> (int \<times> pm \<times> vbios \<times> ist) option" where
  "create_files d [] p v s = Some (0, p, v, s)"
| "create_files d (i # is) p v s = do {
     l \<leftarrow> idx (perflvl p) i;
     p \<leftarrow> level_attr i True p;
     ((ret, _), s) \<leftarrow> request d (KernelCall ''device_create_file'' [word_of_int (pl_id l)]) s;
     if ret \<noteq> 0 then do {
       p \<leftarrow> level_attr i False p;
       (p, v, s) \<leftarrow> nouveau_pm_fini d p v s;
       Some (ret, p, v, s) }
     else create_files d is p v s }"

definition nouveau_sysfs_init :: "pm_board \<Rightarrow> pm \<Rightarrow> vbios \<Rightarrow> ist \<Rightarrow> (int \<times> pm \<times> vbios \<times> ist) option" where
  "nouveau_sysfs_init d p v s = do {
     ((ret, _), s) \<leftarrow> request d (KernelCall ''device_create_file'' []) s;
     if ret \<noteq> 0 then Some (ret, p, v, s) else create_files d [0..<nr_perflvl p] p v s }"

definition nouveau_hwmon_init :: "pm_board \<Rightarrow> pm \<Rightarrow> ist \<Rightarrow> (int \<times> pm \<times> ist) option" where
  "nouveau_hwmon_init d p s =
     (if chipset d < 0x40 then Some (- 19, p, s)
      else do {
        ((failed, _), s) \<leftarrow> request d (KernelCall ''hwmon_device_register'' []) s;
        if failed \<noteq> 0 then Some (failed, p, s)
        else do {
          ((ret, _), s) \<leftarrow> request d (KernelCall ''sysfs_create_group'' []) s;
          if ret \<noteq> 0 then do {
            s \<leftarrow> tell d (KernelCall ''hwmon_device_unregister'' []) s;
            Some (ret, p, s) }
          else Some (0, p\<lparr>hwmon := True\<rparr>, s) } })"

definition nouveau_pm_init :: "pm_board \<Rightarrow> profile option \<Rightarrow> pm \<Rightarrow> vbios \<Rightarrow> ist \<Rightarrow> (pm \<times> vbios \<times> ist) option" where
  "nouveau_pm_init d wanted p v s = do {
     (p, s) \<leftarrow> nouveau_volt_init (core d) v p s;
     (p, s) \<leftarrow> nouveau_perf_init (core d) v p s;
     (p, v, s) \<leftarrow> nouveau_temp_init (core d) v p s;
     (p, s) \<leftarrow> nouveau_mem_timing_init (core d) v p s;
     (l, s) \<leftarrow> nouveau_pm_perflvl_get d p v s;
     let p = (case l of Inl e \<Rightarrow> p | Inr l \<Rightarrow> p\<lparr>boot := l, cur := Some Boot\<rparr>);
     (p, v, s) \<leftarrow> (case wanted of
         None \<Rightarrow> Some (p, v, s)
       | Some pr \<Rightarrow> do { (_, p, v, s) \<leftarrow> nouveau_pm_profile_set d pr p v s; Some (p, v, s) });
     (_, p, v, s) \<leftarrow> nouveau_sysfs_init d p v s;
     (_, p, s) \<leftarrow> nouveau_hwmon_init d p s;
     Some (p, v, s) }"

definition nouveau_pm_resume :: "pm_board \<Rightarrow> pm \<Rightarrow> vbios \<Rightarrow> ist \<Rightarrow> (pm \<times> vbios \<times> ist) option" where
  "nouveau_pm_resume d p v s = (case cur p of
     Some Boot \<Rightarrow> Some (p, v, s)
   | None \<Rightarrow> None
   | Some r \<Rightarrow> nouveau_pm_perflvl_set d r (p\<lparr>cur := Some Boot\<rparr>) v s)"

text \<open>A threshold in thousandths of a degree is cut to 16 bits before it is checked.\<close>

definition to_s16 :: "int \<Rightarrow> int" where
  "to_s16 x = sint (word_of_int x :: u16)"

definition nouveau_hwmon_set_max_temp :: "int \<Rightarrow> pm \<Rightarrow> pm" where
  "nouveau_hwmon_set_max_temp x p = nouveau_temp_safety_checks (p\<lparr>down_clock := to_s16 (x sdiv 1000)\<rparr>)"

definition nouveau_hwmon_set_critical_temp :: "int \<Rightarrow> pm \<Rightarrow> pm" where
  "nouveau_hwmon_set_critical_temp x p = nouveau_temp_safety_checks (p\<lparr>critical := to_s16 (x sdiv 1000)\<rparr>)"

end
