(* ===== verification/PmProps.thy ===== *)
theory PmProps
  imports Pm
begin

text \<open>
  Power management as a whole: the frequency a PLL was set to is the one that is read back, the thresholds
  of the temperature stay where the driver allows them, and what goes wrong when a file cannot be made.
\<close>

section \<open>A clock that is set reads back\<close>

primrec last_write :: "io list \<Rightarrow> u32 \<Rightarrow> u32 option" where
  "last_write [] r = None"
| "last_write (q # l) r = (case q of Wr32 r' x \<Rightarrow> if r' = r then Some x else last_write l r | _ \<Rightarrow> last_write l r)"

definition holds_register :: "'d device_scheme \<Rightarrow> u32 \<Rightarrow> bool" where
  "holds_register d r \<longleftrightarrow> (\<forall>l x. last_write l r = Some x \<longrightarrow> snd (answer d l (Rd32 r)) = x)"

lemma coefficient_bits:
  fixes N M :: u8
  shows "hi8 (word_of_int (uint N * 0x100) OR word_of_int (uint M)) = N"
    "lo8 (word_of_int (uint N * 0x100) OR word_of_int (uint M)) = M"
proof -
  have n: "word_of_int (uint N * 0x100) = push_bit 8 (ucast N :: u32)"
    by (simp add: push_bit_eq_mult wi_hom_mult [symmetric])
  have m: "word_of_int (uint M) = (ucast M :: u32)" by simp
  have ff: "(0xff :: u32) = mask 8" by (simp add: mask_eq_exp_minus_1)
  show "hi8 (word_of_int (uint N * 0x100) OR word_of_int (uint M)) = N"
    unfolding n m hi8_def ff by (rule bit_word_eqI) (auto simp: bit_simps dest: bit_imp_le_length)
  show "lo8 (word_of_int (uint N * 0x100) OR word_of_int (uint M)) = M"
    unfolding n m lo8_def ff by (rule bit_word_eqI) (auto simp: bit_simps dest: bit_imp_le_length)
qed

lemma post_divider_bits:
  assumes "0 \<le> P" "P < 8"
  shows "unat (drop_bit 16 (((x AND 0xfff8ffff) OR 0x80000000 OR word_of_int (P * 0x10000)) :: u32) AND 7) = nat P"
proof -
  have "P = 0 \<or> P = 1 \<or> P = 2 \<or> P = 3 \<or> P = 4 \<or> P = 5 \<or> P = 6 \<or> P = 7" using assms by arith
  moreover have "drop_bit 16 (x AND 0xfff8ffff) AND 7 = (0 :: u32)"
    by (simp add: drop_bit_and and.assoc)
  ultimately show ?thesis
    by (auto simp: bit.conj_disj_distrib2)
qed

lemma c51_refclk_other: "chip_version (bios d) \<noteq> 0x51 \<Longrightarrow> c51_refclk d lim s = Some (lim, s)"
  by (simp add: c51_refclk_def)

lemma lims_v20_state:
  "chip_version (bios d) \<noteq> 0x51 \<Longrightarrow>
   lims_v20 d h r n lim s' = map_option (\<lambda>(x, _). (x, s')) (lims_v20 d h r n lim s)"
  by (simp add: lims_v20_def c51_refclk_other Let_def map_option_bind comp_def del: bind_map_option cong: Option.bind_cong)

lemma lims_versioned_state:
  "chip_version (bios d) \<noteq> 0x51 \<Longrightarrow>
   lims_versioned d ver h r n lim s' = map_option (\<lambda>(x, _). (x, s')) (lims_versioned d ver h r n lim s)"
proof -
  assume cv: "chip_version (bios d) \<noteq> 0x51"
  show ?thesis
  proof (cases "ver = 0x20 \<or> ver = 0x21")
    case True
    then show ?thesis
      using lims_v20_state [OF cv, of h r n lim s' s]
      by (cases "lims_v20 d h r n lim s") (auto simp: lims_versioned_def)
  next
    case False
    then show ?thesis
      by (cases "find_reg d h r n (reg lim)")
         (auto simp: lims_versioned_def map_option_bind comp_def split: option.split cong: Option.bind_cong)
  qed
qed

text \<open>Looking up limits reads the straps and changes nothing else, except on the C51.\<close>

lemma bind_map_option:
  "(\<And>x. f x = map_option g (f' x)) \<Longrightarrow> m \<bind> f = map_option g (m \<bind> f')"
  by (cases m) auto

lemma if_map_option:
  "x = map_option g x' \<Longrightarrow> y = map_option g y' \<Longrightarrow> (if b then x else y) = map_option g (if b then x' else y')"
  by simp

lemma get_pll_limits_state:
  fixes s s' :: ist
  assumes "chip_version (bios d) \<noteq> 0x51" "\<And>l. snd (answer d l (Rd32 0x101000)) = straps"
    and "\<not> (pll_limit_tbl_ptr (bios d) = 0 \<and> two_stage_chip (chip_version (bios d)))"
  shows "get_pll_limits d t s' =
    map_option (\<lambda>(x, _). (x, s'\<lparr>log := Rd32 0x101000 # log s'\<rparr>)) (get_pll_limits d t s)"
proof -
  let ?read = "\<lambda>s :: ist. s\<lparr>log := Rd32 0x101000 # log s\<rparr>"
  have straps: "nv_rd32 d 0x101000 s = Some (straps, ?read s)" for s :: ist
    using assms(2) by (simp add: nv_rd32_def request_def case_prod_beta)
  have once: "lims_versioned d ver h r n l (?read s') \<bind>
      (\<lambda>(result, s). case result of Inl e \<Rightarrow> Some (Inl e, s) | Inr lim \<Rightarrow> Some (Inr (f lim), s)) =
    map_option (\<lambda>(x, _). (x, ?read s')) (lims_versioned d ver h r n l (?read s) \<bind>
      (\<lambda>(result, s). case result of Inl e \<Rightarrow> Some (Inl e, s) | Inr lim \<Rightarrow> Some (Inr (f lim), s)))"
    for ver h r n l and f :: "pll_lims \<Rightarrow> pll_lims"
    unfolding lims_versioned_state [OF assms(1), of _ _ _ _ _ "?read s'" "?read s"]
    by (cases "lims_versioned d ver h r n l (?read s)") (auto split: sum.splits)
  show ?thesis
    unfolding get_pll_limits_def Let_def straps if_not_P [OF assms(3)] bind.bind_lunit prod.case
    by (intro bind_map_option if_map_option) (auto intro!: bind_map_option if_map_option once split: prod.split)
qed

lemma get_pll_limits_again:
  fixes s s' :: ist
  assumes "chip_version (bios d) \<noteq> 0x51" "\<And>l. snd (answer d l (Rd32 0x101000)) = straps"
    and "get_pll_limits d t s = Some (Inr lim, s1)"
  shows "get_pll_limits d t s' = Some (Inr lim, s'\<lparr>log := Rd32 0x101000 # log s'\<rparr>)"
proof -
  have "\<not> (pll_limit_tbl_ptr (bios d) = 0 \<and> two_stage_chip (chip_version (bios d)))"
    using assms(3) by (auto simp: get_pll_limits_def)
  from get_pll_limits_state [OF assms(1,2) this, of t s' s] show ?thesis using assms(3) by simp
qed

text \<open>What a clock set has done to a chip of the family of the NV50, for any clock but that of the memory.\<close>

lemma nv50_pm_clock_set_writes:
  assumes "t \<noteq> PLL_MEMORY"
  shows "\<exists>x. nv50_pm_clock_set fuel b lim t l N M P v s = Some (v, s\<lparr>log :=
     Wr32 (reg lim + 4) (word_of_int (N * 0x100) OR word_of_int M) #
     Wr32 (reg lim) ((x AND 0xfff8ffff) OR 0x80000000 OR word_of_int (P * 0x10000)) # Rd32 (reg lim) # log s\<rparr>)"
  using assms by (auto simp: nv50_pm_clock_set_def Let_def nv_rd32_def nv_wr32_def request_def tell_def case_prod_beta)

lemma nv50_clock_set_steps:
  assumes "clocks_of d = Nv50Clock" "t \<noteq> PLL_MEMORY" "khz \<noteq> 0"
    and "get_pll_limits (drv_of (core d) v None) t s0 = Some (Inr lim, s1)"
    and "chip_version (vb v) \<noteq> 0x51" "\<And>l. snd (answer d l (Rd32 0x101000)) = straps"
    and "nv50_calc_pll (core d) v lim (sint khz) = Some (ret, pv)" "0 < ret"
    and "nouveau_pm_clock_set d l t khz v s = Some (Inr (), v', s')"
  shows "v' = v \<and> (\<exists>x qs. log s' = Wr32 (reg lim + 4) (word_of_int (uint (N1 pv) * 0x100) OR word_of_int (uint (M1 pv))) #
     Wr32 (reg lim) ((x AND 0xfff8ffff) OR 0x80000000 OR word_of_int (log2P pv * 0x10000)) # qs)"
proof -
  have cv: "chip_version (bios (drv_of (core d) v None)) \<noteq> 0x51"
    using assms(5) by (simp add: drv_of_def nvbios_of_def)
  have st: "snd (answer (drv_of (core d) v None) l (Rd32 0x101000)) = straps" for l
    using assms(6) by (simp add: drv_of_def drv.defs board.defs)
  note again = get_pll_limits_again [OF cv st assms(4)]
  obtain x where set: "nv50_pm_clock_set (script_levels d) (core d) lim t l (uint (N1 pv)) (uint (M1 pv)) (log2P pv) v
      (s\<lparr>log := Rd32 0x101000 # Kzalloc # log s\<rparr>) = Some (v, s\<lparr>log :=
     Wr32 (reg lim + 4) (word_of_int (uint (N1 pv) * 0x100) OR word_of_int (uint (M1 pv))) #
     Wr32 (reg lim) ((x AND 0xfff8ffff) OR 0x80000000 OR word_of_int (log2P pv * 0x10000)) #
     Rd32 (reg lim) # Rd32 0x101000 # Kzalloc # log s\<rparr>)"
    using nv50_pm_clock_set_writes [OF assms(2), of "script_levels d" "core d" lim l "uint (N1 pv)" "uint (M1 pv)" "log2P pv" v
      "s\<lparr>log := Rd32 0x101000 # Kzalloc # log s\<rparr>"] by (simp del: of_int_mult) blast
  show ?thesis
    using assms(1,2,3,7,8,9) set
    by (auto simp: nouveau_pm_clock_set_def clock_pre_def nv50_pm_clock_pre_def clock_set_def again request_def
       split: if_split_asm prod.split_asm)
qed

lemma nv_rd32_holds:
  fixes d :: pm_board
  assumes "holds_register d r" "last_write (log s) r = Some x"
  shows "nv_rd32 (core d) r s = Some (x, s\<lparr>log := Rd32 r # log s\<rparr>)"
proof -
  have "answer (core d) = answer d" by (simp add: board.truncate_def)
  then show ?thesis using assms by (simp add: holds_register_def nv_rd32_def request_def case_prod_beta)
qed

text \<open>
  C39: on the NV50 family, when \<open>nouveau_pm_clock_set\<close> has set a clock other than that of the memory and the
  registers of its PLL hold what was written to them, \<open>clock_get\<close> gives the frequency of the coefficients the
  search chose, or a crash where their arithmetic overflows or divides by 0.
\<close>

theorem clock_reads_back:
  assumes "clocks_of d = Nv50Clock" "t \<noteq> PLL_MEMORY" "khz \<noteq> 0"
    and limits: "get_pll_limits (drv_of (core d) v None) t s0 = Some (Inr lim, s1)"
    and "chip_version (vb v) \<noteq> 0x51" "\<And>l. snd (answer d l (Rd32 0x101000)) = straps"
    and "holds_register d (reg lim)" "holds_register d (reg lim + 4)"
    and "nv50_calc_pll (core d) v lim (sint khz) = Some (ret, pv)" "0 < ret" "0 \<le> log2P pv" "log2P pv < 8"
    and "nouveau_pm_clock_set d l t khz v s = Some (Inr (), v', s')"
  shows "map_option fst (clock_get d v' t s') = do {
     x \<leftarrow> i32 (refclk lim * uint (N1 pv));
     x \<leftarrow> cdiv x (uint (M1 pv));
     Some (Inr (x div 2 ^ nat (log2P pv))) }"
proof -
  have cv: "chip_version (bios (drv_of (core d) v None)) \<noteq> 0x51"
    using assms(5) by (simp add: drv_of_def nvbios_of_def)
  have st: "snd (answer (drv_of (core d) v None) l (Rd32 0x101000)) = straps" for l
    using assms(6) by (simp add: drv_of_def drv.defs board.defs)
  note again = get_pll_limits_again [OF cv st limits]
  obtain x qs where v': "v' = v" and l': "log s' = Wr32 (reg lim + 4) (word_of_int (uint (N1 pv) * 0x100) OR word_of_int (uint (M1 pv))) #
     Wr32 (reg lim) ((x AND 0xfff8ffff) OR 0x80000000 OR word_of_int (log2P pv * 0x10000)) # qs"
    using nv50_clock_set_steps [OF assms(1-6,9,10,13)] by auto
  let ?s = "s'\<lparr>log := Rd32 0x101000 # log s'\<rparr>"
  have 1: "nv_rd32 (core d) (reg lim) ?s = Some ((x AND 0xfff8ffff) OR 0x80000000 OR word_of_int (log2P pv * 0x10000),
     ?s\<lparr>log := Rd32 (reg lim) # log ?s\<rparr>)"
    by (rule nv_rd32_holds [OF assms(7)]) (simp add: l' del: of_int_mult)
  have 2: "nv_rd32 (core d) (reg lim + 4) (?s\<lparr>log := Rd32 (reg lim) # log ?s\<rparr>) =
     Some (word_of_int (uint (N1 pv) * 0x100) OR word_of_int (uint (M1 pv)),
     ?s\<lparr>log := Rd32 (reg lim + 4) # log (?s\<lparr>log := Rd32 (reg lim) # log ?s\<rparr>)\<rparr>)"
    using nv_rd32_holds [OF assms(8), of "?s\<lparr>log := Rd32 (reg lim) # log ?s\<rparr>"] by (simp add: l' del: of_int_mult)
  show ?thesis
    unfolding clock_get_def nv50_pm_clock_get_def v' assms(1) again clock_engine.case bind.bind_lunit prod.case sum.case
      1 2 coefficient_bits post_divider_bits [OF assms(11,12)]
    by (simp add: map_option_bind comp_def)
qed

text \<open>A card with one PLL, whose limits are at byte 12 of its image.\<close>

definition pll_image :: "u8 list" where
  "pll_image = [0, 0x30, 4, 7, 1, 0x01, 12, 0, 0x28, 0x40, 0, 0, 0x90, 1, 0x20, 3, 0, 0, 0, 0, 1, 0, 0, 0, 100, 0, 0, 0,
     8, 255, 1, 2, 0, 0, 0, 0, 0, 3, 0, 0, 0x78, 0x69, 0, 0]"

definition pll_nvbios :: nvbios where
  "pll_nvbios = \<lparr>data = pll_image, len = 44, execute = False, chip_version = 0x50, major_version = 0,
     fmaxvco = 0, fminvco = 0, old_style_init = False, init_script_tbls_ptr = 0, extra_init_script_tbl_ptr = 0,
     macro_index_tbl_ptr = 0, macro_tbl_ptr = 0, condition_tbl_ptr = 0, io_condition_tbl_ptr = 0,
     io_flag_condition_tbl_ptr = 0, pll_limit_tbl_ptr = 1, ram_restrict_tbl_ptr = 0, ram_restrict_group_count = 0,
     init96_tbl_ptr = 0, 
     dcb = \<lparr>dcb_version = 0, entries = 0, dcb_entries = [], i2c_table = None, i2c_default_indices = 0, gpios = [],
       connector_types = []\<rparr>,
     active_output = None, dp_table_ptr = 0, mem_init_tbl_ptr = 0, sdr_seq_tbl_ptr = 0, ddr_seq_tbl_ptr = 0\<rparr>"

definition pll_vbios :: vbios where
  "pll_vbios = blank_vbios\<lparr>vb := pll_nvbios, outputs := [], connectors := []\<rparr>"

definition pll_card :: pm_board where
  "pll_card = \<lparr>card_type = 0x50, chipset = 0x50, fb_len = 0,
     answer = (\<lambda>l q. case q of Rd32 r \<Rightarrow> (0, if r = 0x4028 \<or> r = 0x402c then (case last_write l r of None \<Rightarrow> 0 | Some x \<Rightarrow> x) else 0)
                  | _ \<Rightarrow> (0, 0)),
     bios = pll_nvbios, stack_pv = \<lparr>N1 = 0, M1 = 0, N2 = 0, M2 = 0, log2P = 0\<rparr>,
     pci_dev = 0x191, pci_subvendor = 0, pci_subdevice = 0, nouveau_vbios = None, nouveau_force_post = False,
     nouveau_override_conntype = False,
     fixops = \<lparr>dfixed_const = word_of_int, dfixed_mul = (*), dfixed_div = (div), dfixed_ceil = id, dfixed_trunc = id\<rparr>,
     script_levels = 1, perflvl_wr = 7777\<rparr>"

definition pll_start :: ist where
  "pll_start = \<lparr>log = [], crtchead = 0, i2c = [], iexecute = True, irepeat = False\<rparr>"

definition pll_limits :: pll_lims where
  "pll_limits = (no_lims 0x4028)\<lparr>vco1 := \<lparr>minfreq = 400000, maxfreq = 800000, min_inputfreq = 1000, max_inputfreq = 100000,
     min_m = 1, max_m = 2, min_n = 8, max_n = 255\<rparr>, max_log2p := 3, max_usable_log2p := 3, refclk := 27000\<rparr>"

definition pll_drv :: drv where
  "pll_drv = \<lparr>card_type = 0x50, chipset = 0x50, fb_len = 0, answer = answer pll_card, bios = pll_nvbios, stack_pv = stack_pv pll_card\<rparr>"

lemma drv_of_pll: "drv_of (core pll_card) pll_vbios None = pll_drv"
  by (simp add: drv_of_def drv.truncate_def board.truncate_def pll_card_def nvbios_of_def pll_vbios_def pll_nvbios_def
    blank_vbios_def pll_drv_def)

lemma pll_card_works:
  "get_pll_limits pll_drv PLL_CORE pll_start = Some (Inr pll_limits, pll_start\<lparr>log := [Rd32 0x101000]\<rparr>)"
  "nouveau_calc_pll_mnp pll_drv pll_limits 405000 (stack_pv pll_drv) =
     Some (405000, \<lparr>N1 = 15, M1 = 1, N2 = 0, M2 = 0, log2P = 0\<rparr>)"
  by code_simp+

lemma pll_card_sets: "\<exists>s'. nouveau_pm_clock_set pll_card no_level PLL_CORE 405000 pll_vbios pll_start = Some (Inr (), pll_vbios, s')"
proof -
  have st: "snd (answer pll_drv l (Rd32 0x101000)) = 0" for l
    by (simp add: pll_drv_def pll_card_def)
  have cv: "chip_version (bios pll_drv) \<noteq> 0x51" by (simp add: pll_drv_def pll_nvbios_def)
  have e: "clocks_of pll_card = Nv50Clock" by code_simp
  have a: "answer (core pll_card) l Kzalloc = (0, 0)" for l by (simp add: board.truncate_def pll_card_def)
  have "stack_pv (core pll_card) = stack_pv pll_drv" by (simp add: board.truncate_def pll_drv_def)
  note calc = pll_card_works(2) [folded this]
  obtain x where "nv50_pm_clock_set (script_levels pll_card) (core pll_card) pll_limits PLL_CORE no_level 15 1 0 pll_vbios
      (pll_start\<lparr>log := Kzalloc # log pll_start\<rparr>\<lparr>log := Rd32 0x101000 # log (pll_start\<lparr>log := Kzalloc # log pll_start\<rparr>)\<rparr>) = Some x" "fst x = pll_vbios"
    using nv50_pm_clock_set_writes [of PLL_CORE] by (fastforce simp: PLL_CORE_def PLL_MEMORY_def)
  then show ?thesis
    by (cases x) (simp add: nouveau_pm_clock_set_def clock_pre_def e nv50_pm_clock_pre_def request_def a drv_of_pll
      get_pll_limits_again [OF cv st pll_card_works(1)] nv50_calc_pll_def calc clock_set_def)
qed

theorem clock_reads_back_witness:
  "\<exists>s'. nouveau_pm_clock_set pll_card no_level PLL_CORE 405000 pll_vbios pll_start = Some (Inr (), pll_vbios, s') \<and>
     map_option fst (clock_get pll_card pll_vbios PLL_CORE s') = Some (Inr 405000)"
proof -
  obtain s' where s': "nouveau_pm_clock_set pll_card no_level PLL_CORE 405000 pll_vbios pll_start = Some (Inr (), pll_vbios, s')"
    using pll_card_sets by blast
  let ?pv = "\<lparr>N1 = 15, M1 = 1, N2 = 0, M2 = 0, log2P = 0\<rparr>"
  have holds: "holds_register pll_card (reg pll_limits)" "holds_register pll_card (reg pll_limits + 4)"
    by (auto simp: holds_register_def pll_card_def pll_limits_def no_lims_def)
  have "stack_pv (core pll_card) = stack_pv pll_drv" by (simp add: board.truncate_def pll_drv_def)
  then have calc: "nv50_calc_pll (core pll_card) pll_vbios pll_limits (sint (405000 :: u32)) = Some (405000, ?pv)"
    using pll_card_works(2) by (simp add: nv50_calc_pll_def drv_of_pll)
  have "map_option fst (clock_get pll_card pll_vbios PLL_CORE s') = do {
     x \<leftarrow> i32 (refclk pll_limits * uint (N1 ?pv));
     x \<leftarrow> cdiv x (uint (M1 ?pv));
     Some (Inr (x div 2 ^ nat (log2P ?pv))) }"
    by (rule clock_reads_back [OF _ _ _ pll_card_works(1) [folded drv_of_pll] _ _ holds calc _ _ _ s', where straps = 0])
      (code_simp, simp_all add: PLL_CORE_def PLL_MEMORY_def pll_card_def pll_vbios_def pll_nvbios_def)
  then show ?thesis using s' by (simp add: pll_limits_def no_lims_def i32_def cdiv_def)
qed

section \<open>Thresholds of the temperature\<close>

definition thresholds :: "pm \<Rightarrow> int \<times> int \<times> int" where
  "thresholds p = (critical p, down_clock p, fan_boost p)"

definition thresholds_ok :: "pm \<Rightarrow> bool" where
  "thresholds_ok p \<longleftrightarrow> critical p \<in> {80..120} \<and> down_clock p \<in> {60..110} \<and> fan_boost p \<in> {40..100}"

lemma thresholds_ok_cong: "thresholds p' = thresholds p \<Longrightarrow> thresholds_ok p \<Longrightarrow> thresholds_ok p'"
  by (auto simp: thresholds_def thresholds_ok_def)

lemma checks_ok: "thresholds_ok (nouveau_temp_safety_checks p)"
  by (auto simp: thresholds_ok_def nouveau_temp_safety_checks_def clamp_def)

lemma parse_ok: "nouveau_temp_vbios_parse b v (Some t) p = Some p' \<Longrightarrow> thresholds_ok p'"
  by (auto simp: nouveau_temp_vbios_parse_def bind_eq_Some_conv checks_ok)

lemma timing_thresholds: "nouveau_mem_timing_init b v p s = Some (p', s') \<Longrightarrow> thresholds p' = thresholds p"
  by (auto simp: nouveau_mem_timing_init_def bind_eq_Some_conv thresholds_def split: if_split_asm option.split_asm sum.split_asm)

lemma perflvl_thresholds: "nouveau_pm_perflvl_set d r p v s = Some (p', v', s') \<Longrightarrow> thresholds p' = thresholds p"
  by (auto simp: nouveau_pm_perflvl_set_def bind_eq_Some_conv thresholds_def split: if_split_asm)

lemma profile_thresholds: "nouveau_pm_profile_set d pr p v s = Some (r, p', v', s') \<Longrightarrow> thresholds p' = thresholds p"
  by (auto simp: nouveau_pm_profile_set_def bind_eq_Some_conv dest: perflvl_thresholds split: if_split_asm option.split_asm)

lemma fini_thresholds: "nouveau_pm_fini d p v s = Some (p', v', s') \<Longrightarrow> thresholds p' = thresholds p"
  by (auto simp: nouveau_pm_fini_def nouveau_mem_timing_fini_def nouveau_volt_fini_def bind_eq_Some_conv thresholds_def
    dest!: perflvl_thresholds)

lemma level_attr_thresholds: "level_attr i x p = Some p' \<Longrightarrow> thresholds p' = thresholds p"
  by (auto simp: level_attr_def set_level_def bind_eq_Some_conv thresholds_def split: if_split_asm)

lemma files_thresholds: "create_files d is p v s = Some (r, p', v', s') \<Longrightarrow> thresholds p' = thresholds p"
  by (induction "is" arbitrary: p v s)
     (auto simp: bind_eq_Some_conv dest!: level_attr_thresholds fini_thresholds split: if_split_asm)

lemma hwmon_thresholds: "nouveau_hwmon_init d p s = Some (r, p', s') \<Longrightarrow> thresholds p' = thresholds p"
  by (auto simp: nouveau_hwmon_init_def bind_eq_Some_conv thresholds_def split: if_split_asm)

lemma sysfs_thresholds: "nouveau_sysfs_init d p v s = Some (r, p', v', s') \<Longrightarrow> thresholds p' = thresholds p"
  by (auto simp: nouveau_sysfs_init_def bind_eq_Some_conv dest: files_thresholds split: if_split_asm)

text \<open>The VBIOS has a table of temperatures.\<close>

definition has_temp_table :: "vbios \<Rightarrow> bool" where
  "has_temp_table v \<longleftrightarrow> is_bit v \<and> (\<exists>P t. bit_table v bit_P = Some (Inr P) \<and> ptr_by_version v P 12 16 = Some (Some t))"

lemma temp_init_ok: "has_temp_table v \<Longrightarrow> nouveau_temp_init b v p s = Some (p', v', s') \<Longrightarrow> thresholds_ok p'"
  by (auto simp: has_temp_table_def nouveau_temp_init_def bind_eq_Some_conv dest: parse_ok)

lemma pm_init_ok:
  assumes "has_temp_table v" "nouveau_pm_init d wanted p v s = Some (p', v', s')"
  shows "thresholds_ok p'"
proof -
  from assms(2) obtain p1 s1 p2 v2 s2 p3 s3 where
      temp: "nouveau_temp_init (core d) v p1 s1 = Some (p2, v2, s2)"
    and timing: "nouveau_mem_timing_init (core d) v2 p2 s2 = Some (p3, s3)"
    and rest: "thresholds p' = thresholds p3"
    by (fastforce simp: nouveau_pm_init_def bind_eq_Some_conv Let_def thresholds_def
        dest: sysfs_thresholds hwmon_thresholds profile_thresholds split: option.split_asm sum.split_asm)
  show ?thesis
    using temp_init_ok [OF assms(1) temp] timing_thresholds [OF timing] rest by (auto intro: thresholds_ok_cong)
qed

text \<open>What a user can do to the thresholds and to the level once the engine is up.\<close>

datatype pm_user = SetMaxTemp int | SetCriticalTemp int | SetProfile profile

fun pm_request :: "pm_board \<Rightarrow> pm_user \<Rightarrow> pm \<Rightarrow> vbios \<Rightarrow> ist \<Rightarrow> (pm \<times> vbios \<times> ist) option" where
  "pm_request d (SetMaxTemp x) p v s = Some (nouveau_hwmon_set_max_temp x p, v, s)"
| "pm_request d (SetCriticalTemp x) p v s = Some (nouveau_hwmon_set_critical_temp x p, v, s)"
| "pm_request d (SetProfile pr) p v s = do { (_, p, v, s) \<leftarrow> nouveau_pm_profile_set d pr p v s; Some (p, v, s) }"

primrec pm_requests :: "pm_board \<Rightarrow> pm_user list \<Rightarrow> pm \<Rightarrow> vbios \<Rightarrow> ist \<Rightarrow> (pm \<times> vbios \<times> ist) option" where
  "pm_requests d [] p v s = Some (p, v, s)"
| "pm_requests d (q # qs) p v s = do { (p, v, s) \<leftarrow> pm_request d q p v s; pm_requests d qs p v s }"

lemma pm_request_ok: "thresholds_ok p \<Longrightarrow> pm_request d q p v s = Some (p', v', s') \<Longrightarrow> thresholds_ok p'"
  by (cases q) (auto simp: nouveau_hwmon_set_max_temp_def nouveau_hwmon_set_critical_temp_def checks_ok bind_eq_Some_conv
    dest!: profile_thresholds intro: thresholds_ok_cong)

lemma pm_requests_ok: "thresholds_ok p \<Longrightarrow> pm_requests d qs p v s = Some (p', v', s') \<Longrightarrow> thresholds_ok p'"
  by (induction qs arbitrary: p v s) (auto simp: bind_eq_Some_conv dest: pm_request_ok)

text \<open>
  C40: when the VBIOS has a table of temperatures, then after \<open>nouveau_pm_init\<close> and any sequence of requests of
  a user the critical temperature is between 80 and 120 degrees, that of slowing down between 60 and 110, and
  that of the fan between 40 and 100, whatever the table and the requests say.
\<close>

theorem thresholds_in_range:
  assumes "has_temp_table v" "nouveau_pm_init d wanted p v s = Some (p1, v1, s1)"
    and "pm_requests d qs p1 v1 s1 = Some (p', v', s')"
  shows "80 \<le> critical p' \<and> critical p' \<le> 120 \<and> 60 \<le> down_clock p' \<and> down_clock p' \<le> 110 \<and>
    40 \<le> fan_boost p' \<and> fan_boost p' \<le> 100"
  using pm_requests_ok [OF pm_init_ok [OF assms(1,2)] assms(3)] by (simp add: thresholds_ok_def)

text \<open>A card whose table of temperatures gives 200 degrees as the critical one.\<close>

definition temp_image :: "u8 list" where
  "temp_image = [0, 0, 0, 0, 0, 0, 0, 0, 0, 6, 1, 0, 0x50, 2, 18, 0, 20, 0, 0, 0,
     44, 0, 0, 0, 0, 0, 0, 0, 0, 0, 0, 0, 0, 0, 0, 0, 52, 0, 0, 0, 0, 0, 0, 0,
     0x30, 6, 0, 0, 0, 0, 0, 0, 0x10, 4, 3, 1, 0x04, 0x80, 0xac, 0]"

definition temp_vbios :: vbios where
  "temp_vbios = \<lparr>vb = pll_nvbios\<lparr>data := temp_image, len := 61\<rparr>, is_bit = True, v_offset = 0, dactestval = 0, tvdactestval = 0,
     digital_min_front_porch = 0, fp_no_ddc = False, feature_byte = 0, is_mobile = False, init_function_tbl_ptr = 0,
     some_script_ptr = 0, script_table_ptr = 0, fp = blank_fp, output0_script_ptr = 0, output1_script_ptr = 0,
     i2c_crt = 0, i2c_tv = 0, i2c_panel = 0, lvds_single_a_script_ptr = 0, n_outputs = 0,
     outputs = [], i2c_ports = [no_i2c, no_i2c, no_i2c], gpio_table_ptr = 0, n_gpios = 0,
     gpio_lines = [], connector_table_ptr = 0, n_connectors = 0, connectors = []\<rparr>"

definition temp_card :: pm_board where
  "temp_card = pll_card\<lparr>card_type := 0xc0, chipset := 0xc0, answer := (\<lambda>l q. (0, 0))\<rparr>"

definition new_pm :: pm where
  "new_pm = \<lparr>volt_supported = False, vid_mask = 0, volt_level = NoBlock, perflvl = replicate 8 no_level, nr_perflvl = 0,
     timings_supported = False, timing = NoBlock, offset_constant = 0, offset_mult = 0, offset_div = 0, slope_mult = 0,
     slope_div = 0, critical = 0, down_clock = 0, fan_boost = 0, boot = no_level, cur = None, hwmon = False\<rparr>"

lemma temp_card_has_table: "has_temp_table temp_vbios"
proof -
  have "is_bit temp_vbios \<and> (case bit_table temp_vbios bit_P of Some (Inr P) \<Rightarrow> ptr_by_version temp_vbios P 12 16 = Some (Some 52) | _ \<Rightarrow> False)"
    by code_simp
  then show ?thesis by (auto simp: has_temp_table_def split: option.split_asm sum.split_asm)
qed

lemma temp_card_starts:
  "map_option (\<lambda>(p, v, s). thresholds p) (nouveau_pm_init temp_card None new_pm temp_vbios pll_start) = Some (120, 100, 90)"
  by code_simp

theorem thresholds_in_range_witness:
  "\<exists>p1 v1 s1 p' v' s'. nouveau_pm_init temp_card None new_pm temp_vbios pll_start = Some (p1, v1, s1) \<and>
     pm_requests temp_card [SetCriticalTemp 5000, SetMaxTemp 90000] p1 v1 s1 = Some (p', v', s') \<and>
     80 \<le> critical p' \<and> critical p' \<le> 120"
proof -
  obtain p1 v1 s1 where 1: "nouveau_pm_init temp_card None new_pm temp_vbios pll_start = Some (p1, v1, s1)"
    using temp_card_starts by auto
  obtain p' v' s' where 2: "pm_requests temp_card [SetCriticalTemp 5000, SetMaxTemp 90000] p1 v1 s1 = Some (p', v', s')"
    by simp
  show ?thesis using thresholds_in_range [OF temp_card_has_table 1 2] 1 2 by blast
qed

section \<open>A file that cannot be made\<close>

text \<open>
  What ends power management when a file of a level cannot be made frees the tables; the engine goes on,
  and the end of the driver frees them again.
\<close>

definition blocks :: "pm \<Rightarrow> (u8 \<times> u8) list block \<times> memtiming list block" where
  "blocks p = (volt_level p, timing p)"

lemma kfree_Some: "kfree x = Some y \<longleftrightarrow> x \<noteq> Freed \<and> y = (if x = NoBlock then NoBlock else Freed)"
  by (cases x) auto

lemma perflvl_blocks: "nouveau_pm_perflvl_set d r p v s = Some (p', v', s') \<Longrightarrow> blocks p' = blocks p"
  by (auto simp: nouveau_pm_perflvl_set_def bind_eq_Some_conv blocks_def split: if_split_asm)

lemma level_attr_blocks: "level_attr i x p = Some p' \<Longrightarrow> blocks p' = blocks p"
  by (auto simp: level_attr_def set_level_def bind_eq_Some_conv blocks_def split: if_split_asm)

definition given_back :: "pm \<Rightarrow> pm \<Rightarrow> bool" where
  "given_back p p' \<longleftrightarrow> (volt_level p \<noteq> NoBlock \<longrightarrow> volt_level p' = Freed) \<and> (timing p \<noteq> NoBlock \<longrightarrow> timing p' = Freed)"

lemma fini_gives_back: "nouveau_pm_fini d p v s = Some (p', v', s') \<Longrightarrow> given_back p p'"
  by (auto simp: nouveau_pm_fini_def nouveau_mem_timing_fini_def nouveau_volt_fini_def bind_eq_Some_conv kfree_Some
    given_back_def blocks_def dest!: perflvl_blocks)

lemma fini_twice:
  assumes "volt_level p = Freed \<or> timing p = Freed"
  shows "nouveau_pm_fini d p v s = None"
proof (rule ccontr)
  assume "nouveau_pm_fini d p v s \<noteq> None"
  then show False using assms
    by (auto simp: nouveau_pm_fini_def nouveau_mem_timing_fini_def nouveau_volt_fini_def bind_eq_Some_conv kfree_Some
      blocks_def dest!: perflvl_blocks)
qed

lemma files_give_back:
  "create_files d is p v s = Some (ret, p', v', s') \<Longrightarrow> ret \<noteq> 0 \<Longrightarrow> given_back p p'"
proof (induction "is" arbitrary: p v s)
  case (Cons i "is")
  have same: "given_back p q \<longleftrightarrow> given_back p0 q" if "blocks p = blocks p0" for p p0 q
    using that by (simp add: given_back_def blocks_def)
  from Cons show ?case
    by (auto simp: bind_eq_Some_conv dest!: level_attr_blocks fini_gives_back split: if_split_asm) (metis same)+
qed simp

lemma failed_file_frees_twice:
  assumes "create_files d is p v s = Some (ret, p', v', s')" "ret \<noteq> 0" "volt_level p \<noteq> NoBlock \<or> timing p \<noteq> NoBlock"
  shows "nouveau_pm_fini d p' v'' s'' = None"
  using files_give_back [OF assms(1,2)] assms(3) by (intro fini_twice) (auto simp: given_back_def)

end
