(* ===== verification/Spec2Isabelle.thy ===== *)
theory Spec2Isabelle
  imports MmProps MmRuns Takedown RbtreeSpec InitProps RamhtProps GrProps PageTables StartProps IrqProps IbLeak LegacyConn LvdsDepth PmProps
begin

text \<open>
  \<^bold>\<open>pscnv\<close>, a kernel driver for the NV50 and NVC0 families of graphics cards (\<open>src/pscnv\<close>). The driver
  reads the VBIOS and runs its scripts, hands out VRAM and system memory as buffer objects, builds
  address spaces with page tables in VRAM, creates channels in them through which clients feed the
  engines, keeps PFIFO and PGRAPH running and answers their interrupts. Clients reach it by ioctl and
  mmap on the DRM device.

  \<^bold>\<open>How it is modelled.\<close> Functions keep the names they have in C. One with effects takes the state last and
  returns it, in \<open>option\<close>: \<open>None\<close> is a crash or a wait without end (a \<open>BUG_ON\<close>, a NULL or freed pointer, an
  index out of an array, a loop that does not end), an error number is a value of \<open>res\<close>, \<open>Inl e\<close> for \<open>-e\<close>.
  Integers are words of their width, with wrap-around. The state \<open>kern\<close> (\<open>Kern\<close>) extends \<open>hw\<close> (\<open>Hw\<close>):
  heaps of the structs of the driver, the fields of \<open>drm_nouveau_private\<close> the code uses, and the log
  of all requests. A request is whatever leaves the modelled code: a register or BAR access, and
  a call of the kernel (\<open>kzalloc\<close>, DRM, the page allocator), which code is not in the repository. The
  \<open>device\<close> is a parameter of every function and answers a request from the log so far by an
  arbitrary function, so a theorem holds for every behaviour of card and kernel that its hypotheses
  do not exclude. Locks are left out, as one operation runs at a time; the mutex of an address space is kept
  since its owner may wait for itself. Heaps give every object a number of its own, which is not used again
  when the object is freed: use of freed memory is a crash, so what a step of that kind does to an object that
  got the same memory later is outside the model. Statements about the steps of clients are about steps
  that do not crash (\<open>ClientProps\<close> says which do); a statement that the result is \<open>Some\<close> excludes a crash.

  \<^bold>\<open>Theories and code.\<close>
  \<^item> \<open>Prelude\<close>, \<open>Hw\<close>, \<open>Polling\<close>: words, error numbers, shared lemmas; register access (\<open>nouveau_drv.h\<close>,
    \<open>nouveau_hw.[ch]\<close>), PTIMER (\<open>nv04_timer.c\<close>) and \<open>nouveau_wait_until\<close>.
  \<^item> \<open>Rbtree\<close>: the red-black tree of \<open>pscnv_tree.h\<close>, as a zipper, macro by macro. \<open>RbtreeProps\<close> has the locales
    \<open>keyed\<close> (the comparison function) and \<open>augmented\<close> (the summaries), \<open>RbtreeSpec\<close> the properties.
  \<^item> \<open>Mm\<close>: the range allocator \<open>pscnv_mm.c\<close>. \<open>MmNodes\<close> interprets the locales of the tree and gives the
    nodes as a sequence, \<open>MmInv\<close> the invariant, \<open>MmAlloc\<close> and \<open>MmOps\<close> single steps and whole operations,
    \<open>MmProps\<close> the properties of a call, \<open>MmRuns\<close> those of any sequence of calls on a new manager, and \<open>Takedown\<close>
    \<open>pscnv_mm_takedown\<close> with the callbacks of the driver. Loops are by fuel that the number of nodes bounds, and shown total.
  \<^item> \<open>NvBios\<close>, \<open>NvPll\<close>, \<open>PllCalc\<close>, \<open>PllSet\<close>, \<open>NvDcb\<close>, \<open>InitOps\<close>, \<open>InitRegs\<close>, \<open>InitMem\<close>, \<open>InitTable\<close>: the script
    interpreter of \<open>nouveau_bios.c\<close> with all its opcodes and what they reach (PLL limits and programming
    in \<open>nouveau_calc.c\<close>, \<open>nouveau_hw.c\<close>; I2C, AUX and GPIO in \<open>nouveau_i2c.c\<close>, \<open>nouveau_dp.c\<close>,
    \<open>nv50_gpio.c\<close>). The nesting of scripts is by fuel, the depth of calls; \<open>InitLen\<close> has the lengths of
    opcodes, \<open>InitTrace\<close> the locales \<open>reading\<close>, \<open>probed\<close> and \<open>traced\<close> for relations that the steps of a script
    obey (those that read, those that also look a port up, all), \<open>InitProps\<close> the properties and that more depth never
    changes a result.
  \<^item> \<open>VbiosRec\<close>, \<open>VbiosLoad\<close>, \<open>VbiosParse\<close>, \<open>DcbParse\<close>, \<open>DcbTable\<close>, \<open>VbiosInit\<close>, \<open>VbiosStart\<close>: the rest of \<open>nouveau_bios.c\<close>.
    The image and its four sources, the BIT and BMP structures, the display configuration block (outputs,
    GPIO lines, connectors), the tables and scripts of panels and outputs, \<open>nouveau_bios_init\<close>. An index out of
    the image or of an array is a crash. \<open>DcbProps\<close> has the merging of outputs, \<open>LegacyConn\<close> the connectors of
    old boards, \<open>LvdsDepth\<close> that the calls among LVDS scripts end: a call of depth
    3 never makes the call that the parameter \<open>beyond\<close> stands for.
  \<^item> \<open>PllGet\<close>, \<open>GpioLines\<close>, \<open>Voltage\<close>, \<open>PerfTemp\<close>, \<open>Pm\<close>: power management (\<open>nouveau_pm.c\<close>, \<open>nv04_pm.c\<close>, \<open>nv50_pm.c\<close>,
    \<open>nva3_pm.c\<close>) with what it uses: reading a PLL and the arbitration of the video FIFO (\<open>nouveau_hw.c\<close>,
    \<open>nouveau_calc.c\<close>), GPIO lines and the wires of I2C buses (\<open>nv10_gpio.c\<close>, \<open>nv50_gpio.c\<close>, \<open>nouveau_i2c.c\<close>), the tables of
    voltages, levels, temperatures and memory timings (\<open>nouveau_volt.c\<close>, \<open>nouveau_perf.c\<close>, \<open>nouveau_temp.c\<close>,
    \<open>nouveau_mem.c\<close>). The scripts of a memory clock nest to the depth \<open>script_levels\<close>. \<open>PmProps\<close> has the properties.
  \<^item> \<open>Kern\<close>, \<open>BoWords\<close>, \<open>Flush\<close>: the structs; the words of an object, through BAR3 or the window, as the locale
    \<open>word_store\<close>; BAR and TLB flushes (\<open>nv50_vm.c\<close>).
  \<^item> \<open>Mem\<close>: \<open>pscnv_mem.c\<close>, \<open>nv50_vram.c\<close>, \<open>nvc0_vram.c\<close>, \<open>pscnv_sysram.c\<close>. \<open>Vspace\<close>: \<open>pscnv_vm.c\<close>,
    \<open>pscnv_gem.c\<close>. \<open>Nv50Vm\<close>, \<open>Nvc0Vm\<close>: \<open>nv50_vm.c\<close>, \<open>nvc0_vm.c\<close>. The functions of an address space call each
    other through a table of pointers (\<open>vm_engine\<close>) that they are given; mapping a page table into the BAR
    may need another page table, so \<open>vm_of d n\<close> is the table for a nesting of at most \<open>n\<close>, with a crash
    beyond it. Statements are for every \<open>n\<close>. \<open>PageTables\<close> has what the entries mean to the card.
  \<^item> \<open>Ramht\<close>: \<open>pscnv_ramht.c\<close>. \<open>OpenAddressing\<close> is the contract of such a table as a locale, \<open>RamhtProps\<close> its
    interpretation and the refinement of a finite map.
  \<^item> \<open>Chan\<close>, \<open>Fifo\<close>, \<open>Graph\<close>, \<open>ChanLife\<close>: \<open>pscnv_chan.c\<close>, \<open>nv50_chan.c\<close>, \<open>nvc0_chan.c\<close>, \<open>nv50_fifo.c\<close>,
    \<open>nvc0_fifo.c\<close>, \<open>nv50_graph.c\<close>, and the address spaces of the BARs.
  \<^item> \<open>GrData\<close>, \<open>GrCtx\<close>: \<open>nv50_grctx.c\<close> with \<open>nouveau_grctx.h\<close>, the program that saves and loads a PGRAPH
    context and the values of one. \<open>GrAsm\<close> compares its assembler with one of two passes; \<open>GrBounds\<close> and \<open>GrLayout\<close>
    are for \<open>GrProps\<close>, that program and values fit together.
  \<^item> \<open>Irq\<close>, \<open>GrIrq\<close>: \<open>nouveau_irq.c\<close> and the handlers of PFIFO, PGRAPH, the MMU and PDISPLAY. \<open>IrqProps\<close> has the
    locale \<open>acknowledging\<close> and its interpretations.
  \<^item> \<open>Ioctl\<close>: \<open>pscnv_ioctl.c\<close>, \<open>pscnv_mmap\<close>, \<open>nouveau_preclose\<close>. \<open>Steady\<close> is the locale of invariants that the layers
    below do not touch, with the proof for every function of them; \<open>Numbers\<close> the contract of the numbers of
    address spaces and channels with its two interpretations; \<open>Clients\<close>, \<open>ClientsChans\<close>, \<open>Requests\<close> what requests
    keep; \<open>ClientProps\<close> the relation \<open>client_step\<close>, the states clients reach (\<open>run\<close>), and the properties.
    \<open>StartProps\<close> is about FIFO_INIT with a bad handle.
  \<^item> \<open>LibPscnv\<close>, \<open>IbRing\<close>: the library of the clients (\<open>src/libpscnv\<close>): one request per function, and channels fed
    by a ring of words and a ring of entries. Here the kernel is the parameter. \<open>IbProps\<close> shows that the two
    rings are a queue, \<open>IbLeak\<close> that a channel that cannot be made leaves nothing behind.

  \<^bold>\<open>Hypotheses about the card.\<close> \<open>remembers\<close>: memory words read are those last written; \<open>flushes\<close>: a BAR flush comes to an
    end; \<open>units_are\<close>: the register with the
    units of PGRAPH does not change. About the
    driver: \<open>channels_live\<close>, every channel in the table of channels has its instance memory (true but while one is made or
    freed; \<open>lookup_ok\<close> follows); \<open>tables\<close>, the page tables of a range exist, of full size and apart; an object holds the words up to
    its size (\<open>bo_inside\<close>). About the kernel, for the library: \<open>serves_in_order\<close>, \<open>goes_on\<close> (the card reads the
  rings in order and does not stop), \<open>maps_above_0\<close>, \<open>whole_words\<close> (where a ring lies). Each property with one has a witness with a concrete card
    (\<open>example_card\<close>) for which it holds.

  \<^bold>\<open>What is shown.\<close> Of the allocator: it always returns; in any run a block is in the range asked for, of the size asked for and apart
    from others, first fit, coalesced when freed, and when it is taken down each chain goes to the callback
    once. Of the tree: order, balance in any run, summaries. Of
    scripts: static opcode lengths, what only parsing and skipping may do, writes inside the register
    window, which scripts end and which never do. Of RAMHT: it is a finite map. Of contexts: jumps resolved, size measured and
    size used agree. Of interrupts: each is acknowledged, and no other; one that comes while a channel is made may crash. Of mapping: an address
    space leads page by page to the memory of the object. Of outputs: like ones are merged into one with all
    their heads, and those of one bus share a connector. Of power management: a clock that was set reads back, and the
    temperatures that slow the card down stay in their ranges. Of the rings of a client: they are a queue. Of clients: tables stay well formed, and no client
    takes a channel from another.

  \<^bold>\<open>Not modelled.\<close> Mode setting (\<open>nv50_display.c\<close> but for its interrupt, \<open>nv50_crtc.c\<close>, connectors, encoders): callbacks
    of the DRM mode setting core, which is not here. DisplayPort link training. What files of sysfs print.
    Console, ACPI, debugfs: glue to other kernel subsystems. Saving and restoring a card of before the NV50. Module entry points, suspend and resume. \<open>src/attic\<close>: old copies of DRM and a former driver that are not built.
    Debug output. Interleaving inside an operation.

  \<^bold>\<open>Plan.\<close> Starting and stopping the card (\<open>nouveau_card_init\<close>); DisplayPort link training; unmapping and the page tables of the NVC0 as translations.
\<close>

end
